(* ===== verification/Prelude.thy ===== *)
theory Prelude
  imports Complex_Main "HOL-Library.AList"
begin

text \<open>
  Shared vocabulary of the development: the parts of the JavaScript standard library that the
  frontend's pure modules use, with the generic lemmas about them, and the interfaces (locales)
  that several components share.

  Strings are lists of code units below 256 (\<open>string\<close>). \<open>js_trim\<close> is
  \<open>String.prototype.trim\<close> on them, \<open>js_dedup\<close> is the idiom
  \<open>[...new Set(xs)]\<close>, a \<open>js_record\<close> is an object used as a dictionary, as
  the list of its entries in insertion order, \<open>jsnum\<close> is a number, exact when finite.
  An optional string that the code reads only through \<open>?? ""\<close> or \<open>?.trim()\<close> is
  modelled by the empty string when absent.
\<close>

named_theorems wf_intros "introduction rules for well-formedness of the components' states"

section \<open>Strings\<close>

definition is_space :: "char \<Rightarrow> bool" where
  "is_space c \<longleftrightarrow> of_char c \<in> {9::nat, 10, 11, 12, 13, 32, 160}"

definition js_trim :: "string \<Rightarrow> string" where
  "js_trim s = rev (dropWhile is_space (rev (dropWhile is_space s)))"

definition trimmed :: "string \<Rightarrow> bool" where
  "trimmed s \<longleftrightarrow> s \<noteq> [] \<and> \<not> is_space (hd s) \<and> \<not> is_space (last s)"

lemma dropWhile_hd_last:
  assumes "dropWhile P xs \<noteq> []"
  shows "\<not> P (hd (dropWhile P xs))" and "last (dropWhile P xs) = last xs"
proof -
  show "\<not> P (hd (dropWhile P xs))" using assms by (rule hd_dropWhile)
  have "xs = takeWhile P xs @ dropWhile P xs" by simp
  with assms show "last (dropWhile P xs) = last xs"
    by (metis last_appendR)
qed

lemma js_trim_id: "trimmed s \<Longrightarrow> js_trim s = s"
proof -
  assume a: "trimmed s"
  then have "dropWhile is_space s = s"
    by (cases s) (auto simp: trimmed_def)
  moreover from a have "dropWhile is_space (rev s) = rev s"
    by (cases s rule: rev_cases) (auto simp: trimmed_def)
  ultimately show ?thesis by (simp add: js_trim_def)
qed

lemma trimmed_js_trim: "js_trim s \<noteq> [] \<Longrightarrow> trimmed (js_trim s)"
proof -
  assume a: "js_trim s \<noteq> []"
  let ?t = "dropWhile is_space s" and ?u = "dropWhile is_space (rev (dropWhile is_space s))"
  from a have u: "?u \<noteq> []" by (simp add: js_trim_def)
  then have t: "?t \<noteq> []" by (cases ?t) simp_all
  have "\<not> is_space (hd ?u)" using u by (rule dropWhile_hd_last)
  moreover have "last ?u = last (rev ?t)" using u by (rule dropWhile_hd_last)
  moreover have "\<not> is_space (hd ?t)" using t by (rule dropWhile_hd_last)
  ultimately show ?thesis
    using u t by (simp add: trimmed_def js_trim_def hd_rev last_rev)
qed

lemma js_trim_empty_iff: "js_trim s \<noteq> [] \<longleftrightarrow> trimmed (js_trim s)"
  using trimmed_js_trim by (auto simp: trimmed_def)

lemma js_trim_idem [simp]: "js_trim (js_trim s) = js_trim s"
  by (cases "js_trim s = []") (simp_all add: js_trim_def[of "[]"] js_trim_id trimmed_js_trim)

lemma js_trim_Nil [simp]: "js_trim [] = []"
  by (simp add: js_trim_def)

lemma trimmed_Nil [simp]: "\<not> trimmed []"
  by (simp add: trimmed_def)

lemma trimmed_append: "trimmed p \<Longrightarrow> trimmed s \<Longrightarrow> trimmed (p @ s)"
  by (auto simp: trimmed_def)

lemma trimmed_prefix_literal: "p \<noteq> [] \<Longrightarrow> \<not> is_space (hd p) \<Longrightarrow> trimmed s \<Longrightarrow> trimmed (p @ s)"
  by (auto simp: trimmed_def)

lemma trimmed_Cons [simp]: "trimmed s \<Longrightarrow> trimmed (c # s) \<longleftrightarrow> \<not> is_space c"
  by (auto simp: trimmed_def)

text \<open>\<open>x || y\<close> on strings: the empty string is falsy.\<close>

definition str_or :: "string \<Rightarrow> string \<Rightarrow> string" where
  "str_or x y = (if x \<noteq> [] then x else y)"

lemma str_or_simps [simp]: "str_or [] y = y" "x \<noteq> [] \<Longrightarrow> str_or x y = x"
  by (simp_all add: str_or_def)

text \<open>Decimal rendering of a number in a template literal.\<close>

fun nat_str :: "nat \<Rightarrow> string" where
  "nat_str n = (if n < 10 then [char_of (48 + n)] else nat_str (n div 10) @ [char_of (48 + n mod 10)])"

declare nat_str.simps [simp del]

definition str_nat :: "string \<Rightarrow> nat" where
  "str_nat s = foldl (\<lambda>a c. 10 * a + (of_char c - 48)) 0 s"

lemma str_nat_snoc: "str_nat (s @ [c]) = 10 * str_nat s + (of_char c - 48)"
  by (simp add: str_nat_def)

lemma str_nat_nat_str: "str_nat (nat_str n) = n"
proof (induction n rule: nat_str.induct)
  case (1 n)
  show ?case
  proof (cases "n < 10")
    case True
    then show ?thesis
      by (subst nat_str.simps) (simp add: str_nat_def of_char_of take_bit_eq_mod)
  next
    case False
    have "of_char (char_of (48 + n mod 10) :: char) = 48 + n mod 10"
    proof -
      have "48 + n mod 10 < 256" using mod_less_divisor [of 10 n] by linarith
      then show ?thesis by (simp add: of_char_of take_bit_eq_mod)
    qed
    with False "1" show ?thesis
      by (subst nat_str.simps) (simp add: str_nat_snoc)
  qed
qed

lemma nat_str_inject [simp]: "nat_str m = nat_str n \<longleftrightarrow> m = n"
  by (metis str_nat_nat_str)

text \<open>
  The search loops \<open>while (taken.has(`${p}${i}`)) i += 1\<close>: the first index from \<open>i\<close> on
  whose rendering is free. The measure is the number of taken candidates still ahead.
\<close>

lemma finite_suffix_indices: "finite {j. i \<le> j \<and> p @ nat_str j \<in> set taken}"
proof (rule finite_imageD)
  have "(\<lambda>j. p @ nat_str j) ` {j. i \<le> j \<and> p @ nat_str j \<in> set taken} \<subseteq> set taken" by auto
  then show "finite ((\<lambda>j. p @ nat_str j) ` {j. i \<le> j \<and> p @ nat_str j \<in> set taken})"
    by (rule finite_subset) simp
  show "inj_on (\<lambda>j. p @ nat_str j) {j. i \<le> j \<and> p @ nat_str j \<in> set taken}"
    by (rule inj_onI) simp
qed

function first_free :: "string \<Rightarrow> string list \<Rightarrow> nat \<Rightarrow> string" where
  "first_free p taken i =
     (if p @ nat_str i \<in> set taken then first_free p taken (Suc i) else p @ nat_str i)"
  by pat_completeness auto
termination
proof (relation "measure (\<lambda>(p, taken, i). card {j. i \<le> j \<and> p @ nat_str j \<in> set taken})")
  fix p i and taken :: "string list"
  assume i: "p @ nat_str i \<in> set taken"
  have "{j. Suc i \<le> j \<and> p @ nat_str j \<in> set taken} \<subset> {j. i \<le> j \<and> p @ nat_str j \<in> set taken}"
    using i by (auto simp: Suc_le_eq)
  then show "((p, taken, Suc i), p, taken, i)
      \<in> measure (\<lambda>(p, taken, i). card {j. i \<le> j \<and> p @ nat_str j \<in> set taken})"
    by (simp add: psubset_card_mono finite_suffix_indices)
qed simp

declare first_free.simps [simp del]

lemma first_free_notin: "first_free p taken i \<notin> set taken"
  by (induction p taken i rule: first_free.induct) (subst first_free.simps, simp)

lemma first_free_form: "\<exists>j\<ge>i. first_free p taken i = p @ nat_str j"
proof (induction p taken i rule: first_free.induct)
  case (1 p taken i)
  then show ?case
    by (subst first_free.simps) (auto dest: Suc_leD)
qed

lemma first_free_minimal:
  "first_free p taken i = p @ nat_str j \<Longrightarrow> i \<le> k \<Longrightarrow> k < j \<Longrightarrow> p @ nat_str k \<in> set taken"
proof (induction p taken i rule: first_free.induct)
  case (1 p taken i)
  show ?case
  proof (cases "p @ nat_str i \<in> set taken")
    case True
    with "1.prems" have "first_free p taken (Suc i) = p @ nat_str j"
      by (simp add: first_free.simps [of p taken i])
    with True "1" show ?thesis by (cases "k = i") auto
  next
    case False
    with "1.prems" show ?thesis by (simp add: first_free.simps [of p taken i])
  qed
qed

lemma nat_str_nonempty [simp]: "nat_str n \<noteq> []"
  by (subst nat_str.simps) simp

lemma nat_str_no_space: "c \<in> set (nat_str n) \<Longrightarrow> \<not> is_space c"
proof (induction n rule: nat_str.induct)
  case (1 n)
  have digit: "\<not> is_space (char_of (48 + d))" if "d < 10" for d :: nat
    using that by (simp add: is_space_def of_char_of take_bit_eq_mod)
  show ?case
    using "1" digit [of n] digit [of "n mod 10"]
    by (subst (asm) (2) nat_str.simps) (auto split: if_splits)
qed

lemma trimmed_append_nat_str:
  "p \<noteq> [] \<Longrightarrow> \<not> is_space (hd p) \<Longrightarrow> trimmed (p @ nat_str n)"
  using nat_str_no_space [OF last_in_set [OF nat_str_nonempty]] by (simp add: trimmed_def)

section \<open>Arrays\<close>

text \<open>\<open>xs[i]\<close> is \<open>undefined\<close> out of range.\<close>

definition list_get :: "'a list \<Rightarrow> nat \<Rightarrow> 'a option" where
  "list_get xs i = (if i < length xs then Some (xs ! i) else None)"

lemma list_get_Some: "list_get xs i = Some x \<Longrightarrow> x \<in> set xs"
  by (auto simp: list_get_def split: if_splits)

lemma list_get_0: "list_get xs 0 = (case xs of [] \<Rightarrow> None | x # _ \<Rightarrow> Some x)"
  by (cases xs) (simp_all add: list_get_def)

text \<open>\<open>x ?? y\<close>.\<close>

definition nullish :: "'a option \<Rightarrow> 'a \<Rightarrow> 'a" where
  "nullish x y = (case x of Some v \<Rightarrow> v | None \<Rightarrow> y)"

lemma nullish_simps [simp]: "nullish (Some v) y = v" "nullish None y = y"
  by (simp_all add: nullish_def)

definition orelse :: "'a option \<Rightarrow> 'a option \<Rightarrow> 'a option" where
  "orelse x y = (case x of Some v \<Rightarrow> Some v | None \<Rightarrow> y)"

lemma orelse_simps [simp]: "orelse (Some v) y = Some v" "orelse None y = y"
  by (simp_all add: orelse_def)

lemma orelse_None_iff [simp]: "orelse x y = None \<longleftrightarrow> x = None \<and> y = None"
  by (cases x) simp_all

text \<open>\<open>findIndex\<close> and \<open>indexOf\<close>, with \<open>None\<close> for -1.\<close>

fun find_index :: "('a \<Rightarrow> bool) \<Rightarrow> 'a list \<Rightarrow> nat option" where
  "find_index P [] = None"
| "find_index P (x # xs) = (if P x then Some 0 else map_option Suc (find_index P xs))"

definition index_of :: "'a list \<Rightarrow> 'a \<Rightarrow> nat option" where
  "index_of xs x = find_index (\<lambda>y. y = x) xs"

lemma find_index_SomeD:
  "find_index P xs = Some i \<Longrightarrow> i < length xs \<and> P (xs ! i) \<and> (\<forall>j<i. \<not> P (xs ! j))"
proof (induction xs arbitrary: i)
  case (Cons x xs)
  then show ?case
    by (auto split: if_splits simp: nth_Cons less_Suc_eq_0_disj split: nat.splits)
qed simp

lemma find_index_None_iff: "find_index P xs = None \<longleftrightarrow> (\<forall>x\<in>set xs. \<not> P x)"
  by (induction xs) auto

lemma find_index_nth_mem: "find_index P xs = Some i \<Longrightarrow> xs ! i \<in> set xs"
  by (simp add: find_index_SomeD)

lemma size_find_index [termination_simp]:
  "find_index P xs = Some i \<Longrightarrow> f (xs ! i) < Suc (size_list f xs)"
  using size_list_estimation' [OF find_index_nth_mem order_refl] by (metis le_imp_less_Suc)

lemma find_index_split:
  "find_index P xs = Some i \<Longrightarrow> xs = take i xs @ xs ! i # drop (Suc i) xs \<and> P (xs ! i)"
  using find_index_SomeD id_take_nth_drop by metis

lemma find_Some_mem: "List.find P xs = Some x \<Longrightarrow> x \<in> set xs \<and> P x"
  by (auto simp: find_Some_iff)

lemma distinct_key: "distinct (map f xs) \<Longrightarrow> x \<in> set xs \<Longrightarrow> y \<in> set xs \<Longrightarrow> f x = f y \<Longrightarrow> x = y"
  by (simp add: distinct_map inj_on_def)

lemma find_exists: "x \<in> set xs \<Longrightarrow> P x \<Longrightarrow> \<exists>y. List.find P xs = Some y"
  by (induction xs) auto

lemma find_snoc: "\<forall>x\<in>set xs. \<not> P x \<Longrightarrow> P y \<Longrightarrow> List.find P (xs @ [y]) = Some y"
  by (induction xs) auto

lemma find_key:
  "(case List.find (\<lambda>p. f p = k) xs of Some p \<Rightarrow> f p | None \<Rightarrow> d) = (if k \<in> f ` set xs then k else d)"
  by (induction xs) auto

text \<open>\<open>[...new Set(xs)]\<close>: the first occurrence of every element, in order.\<close>

fun js_dedup :: "'a list \<Rightarrow> 'a list" where
  "js_dedup [] = []"
| "js_dedup (x # xs) = x # removeAll x (js_dedup xs)"

lemma set_js_dedup [simp]: "set (js_dedup xs) = set xs"
  by (induction xs) auto

lemma distinct_js_dedup [simp]: "distinct (js_dedup xs)"
  by (induction xs) (auto simp: distinct_removeAll)

lemma js_dedup_id: "distinct xs \<Longrightarrow> js_dedup xs = xs"
  by (induction xs) auto

lemma js_dedup_eq_Nil [simp]: "js_dedup xs = [] \<longleftrightarrow> xs = []"
  by (cases xs) simp_all

lemma filter_removeAll: "filter P (removeAll x xs) = removeAll x (filter P xs)"
  by (induction xs) auto

lemma filter_js_dedup: "filter P (js_dedup xs) = js_dedup (filter P xs)"
  by (induction xs) (auto simp: filter_removeAll removeAll_id)

lemma length_concat_map_ge: "\<forall>x\<in>set xs. f x \<noteq> [] \<Longrightarrow> length xs \<le> length (concat (map f xs))"
proof (induction xs)
  case (Cons x xs)
  then have "length (f x) \<ge> 1" by (cases "f x") auto
  with Cons show ?case by simp
qed simp

lemma concat_map_concat: "concat (map g (concat (map f xs))) = concat (map (\<lambda>x. concat (map g (f x))) xs)"
  by (induction xs) simp_all

lemma list_ex_map_conv: "list_ex P (map f xs) = list_ex (\<lambda>x. P (f x)) xs"
  by (simp add: list_ex_iff)

lemma concat_map_cong: "(\<And>x. x \<in> set xs \<Longrightarrow> f x = g x) \<Longrightarrow> concat (map f xs) = concat (map g xs)"
  by (induction xs) simp_all

lemma map_nth_upt: "map (\<lambda>i. f (xs ! i)) [0..<length xs] = map f xs"
  by (rule nth_equalityI) simp_all

text \<open>Null results dropped: \<open>.filter((x) => x !== null)\<close>.\<close>

definition cat_options :: "'a option list \<Rightarrow> 'a list" where
  "cat_options xs = concat (map (\<lambda>x. case x of None \<Rightarrow> [] | Some v \<Rightarrow> [v]) xs)"

lemma cat_options_simps [simp]:
  "cat_options [] = []" "cat_options (None # xs) = cat_options xs"
  "cat_options (Some v # xs) = v # cat_options xs"
  by (simp_all add: cat_options_def)

lemma set_cat_options: "x \<in> set (cat_options xs) \<longleftrightarrow> Some x \<in> set xs"
  by (induction xs) (auto split: option.splits simp: cat_options_def)

lemma cat_options_map_Some: "(\<And>x. x \<in> set xs \<Longrightarrow> f x = Some (g x)) \<Longrightarrow> cat_options (map f xs) = map g xs"
  by (induction xs) simp_all

lemma cat_options_filter:
  "\<forall>c\<in>set cs. case f c of None \<Rightarrow> filter P (g c) = [] | Some n \<Rightarrow> g n = filter P (g c) \<Longrightarrow>
     concat (map g (cat_options (map f cs))) = filter P (concat (map g cs))"
  by (induction cs) (auto split: option.splits)

text \<open>\<open>toSorted\<close> is stable; the order is given as "not after".\<close>

fun insert_by :: "('a \<Rightarrow> 'a \<Rightarrow> bool) \<Rightarrow> 'a \<Rightarrow> 'a list \<Rightarrow> 'a list" where
  "insert_by le x [] = [x]"
| "insert_by le x (y # ys) = (if le x y then x # y # ys else y # insert_by le x ys)"

definition to_sorted :: "('a \<Rightarrow> 'a \<Rightarrow> bool) \<Rightarrow> 'a list \<Rightarrow> 'a list" where
  "to_sorted le xs = foldr (insert_by le) xs []"

lemma set_insert_by [simp]: "set (insert_by le x xs) = insert x (set xs)"
  by (induction xs) auto

lemma length_insert_by [simp]: "length (insert_by le x xs) = Suc (length xs)"
  by (induction xs) auto

lemma distinct_insert_by [simp]: "distinct (insert_by le x xs) \<longleftrightarrow> x \<notin> set xs \<and> distinct xs"
  by (induction xs) auto

lemma set_to_sorted [simp]: "set (to_sorted le xs) = set xs"
  by (induction xs) (auto simp: to_sorted_def)

lemma length_to_sorted [simp]: "length (to_sorted le xs) = length xs"
  by (induction xs) (auto simp: to_sorted_def)

lemma distinct_to_sorted [simp]: "distinct (to_sorted le xs) \<longleftrightarrow> distinct xs"
proof (induction xs)
  case (Cons x xs)
  then show ?case
    using set_to_sorted [of le xs] by (simp add: to_sorted_def)
qed (simp add: to_sorted_def)

lemma distinct_map_insert_by:
  "distinct (map f (insert_by le x xs)) \<longleftrightarrow> f x \<notin> f ` set xs \<and> distinct (map f xs)"
  by (induction xs) auto

lemma distinct_map_to_sorted [simp]: "distinct (map f (to_sorted le xs)) \<longleftrightarrow> distinct (map f xs)"
proof (induction xs)
  case (Cons x xs)
  then show ?case
    using set_to_sorted [of le xs] by (simp add: to_sorted_def distinct_map_insert_by)
qed (simp add: to_sorted_def)

lemma sorted_insert_by:
  assumes "\<And>a b. le a b \<or> le b a" "\<And>a b c. le a b \<Longrightarrow> le b c \<Longrightarrow> le a c"
  shows "sorted_wrt le xs \<Longrightarrow> sorted_wrt le (insert_by le x xs)"
proof (induction xs)
  case (Cons y ys)
  then show ?case using assms(1) [of x y] assms(2) [of x y] by auto
qed simp

lemma sorted_to_sorted:
  assumes "\<And>a b. le a b \<or> le b a" "\<And>a b c. le a b \<Longrightarrow> le b c \<Longrightarrow> le a c"
  shows "sorted_wrt le (to_sorted le xs)"
  unfolding to_sorted_def
proof (induction xs)
  case (Cons x xs)
  show ?case unfolding foldr.simps comp_apply by (rule sorted_insert_by [OF assms Cons.IH])
qed simp

text \<open>
  \<open>localeCompare\<close> as the order of code units. Only the order of a dictionary's entries depends
  on it.
\<close>

fun str_le :: "string \<Rightarrow> string \<Rightarrow> bool" where
  "str_le [] t = True"
| "str_le (a # s) [] = False"
| "str_le (a # s) (b # t) =
     (if of_char a < (of_char b :: nat) then True
      else if of_char b < (of_char a :: nat) then False else str_le s t)"

section \<open>Objects as dictionaries\<close>

type_synonym 'v js_record = "(string \<times> 'v) list"

abbreviation rec_get :: "'v js_record \<Rightarrow> string \<Rightarrow> 'v option" where
  "rec_get r k \<equiv> map_of r k"

text \<open>\<open>{...r, [k]: v}\<close> keeps the position of an existing key; \<open>delete\<close> drops it.\<close>

definition rec_set :: "string \<Rightarrow> 'v \<Rightarrow> 'v js_record \<Rightarrow> 'v js_record" where
  "rec_set k v r = AList.update k v r"

definition rec_delete :: "string \<Rightarrow> 'v js_record \<Rightarrow> 'v js_record" where
  "rec_delete k r = filter (\<lambda>(k', _). k' \<noteq> k) r"

text \<open>\<open>Object.fromEntries\<close>: later entries overwrite earlier ones in place.\<close>

definition from_entries :: "(string \<times> 'v) list \<Rightarrow> 'v js_record" where
  "from_entries es = fold (\<lambda>(k, v) r. rec_set k v r) es []"

lemma rec_get_set: "rec_get (rec_set k v r) k' = (if k' = k then Some v else rec_get r k')"
  by (simp add: rec_set_def update_conv')

lemma rec_get_delete: "rec_get (rec_delete k r) k' = (if k' = k then None else rec_get r k')"
  by (induction r) (auto simp: rec_delete_def)

lemma rec_set_keys: "fst ` set (rec_set k v r) = insert k (fst ` set r)"
  by (simp add: rec_set_def dom_update flip: dom_map_of_conv_image_fst)
    (auto simp: update_conv' split: if_splits)

lemma rec_set_distinct: "distinct (map fst r) \<Longrightarrow> distinct (map fst (rec_set k v r))"
  by (simp add: rec_set_def distinct_update)

lemma rec_delete_distinct: "distinct (map fst r) \<Longrightarrow> distinct (map fst (rec_delete k r))"
  by (induction r) (auto simp: rec_delete_def)

lemma rec_delete_keys: "fst ` set (rec_delete k r) = fst ` set r - {k}"
  by (auto simp: rec_delete_def image_iff)

lemma rec_delete_set [simp]: "rec_delete k (rec_set k v r) = rec_delete k r"
  by (induction r) (auto simp: rec_delete_def rec_set_def)

lemma rec_set_mem: "x \<in> set (rec_set k v r) \<Longrightarrow> x = (k, v) \<or> x \<in> set r"
  by (induction r) (auto simp: rec_set_def split: if_splits)

lemma fold_rec_set_distinct:
  "distinct (map fst r) \<Longrightarrow> distinct (map fst (fold (\<lambda>(k, v) r. rec_set k v r) es r))"
  by (induction es arbitrary: r) (auto simp: rec_set_distinct)

lemma fold_rec_set_mem:
  "x \<in> set (fold (\<lambda>(k, v) r. rec_set k v r) es r) \<Longrightarrow> x \<in> set es \<or> x \<in> set r"
  by (induction es arbitrary: r) (auto dest: rec_set_mem)

lemma fold_rec_set_keys:
  "fst ` set (fold (\<lambda>(k, v) r. rec_set k v r) es r) = fst ` set es \<union> fst ` set r"
proof (induction es arbitrary: r)
  case (Cons e es)
  then show ?case by (cases e) (simp add: rec_set_keys)
qed simp

lemma from_entries_distinct [simp]: "distinct (map fst (from_entries es))"
  by (simp add: from_entries_def fold_rec_set_distinct)

lemma from_entries_mem: "x \<in> set (from_entries es) \<Longrightarrow> x \<in> set es"
  using fold_rec_set_mem [of x es "[]"] by (simp add: from_entries_def)

lemma from_entries_keys: "fst ` set (from_entries es) = fst ` set es"
  by (simp add: from_entries_def fold_rec_set_keys)

lemma rec_set_fresh: "k \<notin> fst ` set r \<Longrightarrow> rec_set k v r = r @ [(k, v)]"
  by (induction r) (auto simp: rec_set_def)

lemma from_entries_id: "distinct (map fst es) \<Longrightarrow> from_entries es = es"
proof -
  have "distinct (map fst (r @ es)) \<Longrightarrow> fold (\<lambda>(k, v) r. rec_set k v r) es r = r @ es" for r
  proof (induction es arbitrary: r)
    case (Cons e es)
    obtain k v where e: "e = (k, v)" by (cases e)
    with Cons.prems have "rec_set k v r = r @ [(k, v)]"
      by (intro rec_set_fresh) auto
    with Cons.IH [of "r @ [e]"] Cons.prems e show ?case by simp
  qed simp
  from this [of "[]"] show "distinct (map fst es) \<Longrightarrow> ?thesis" by (simp add: from_entries_def)
qed

section \<open>Numbers\<close>

text \<open>
  A JavaScript number is a finite value, exact here (rounding is not modelled), or one of NaN
  and the infinities, which the code only ever tells apart from the finite ones with
  \<open>Number.isFinite\<close>.
\<close>

datatype jsnum = Num rat | NonFinite

fun is_finite :: "jsnum \<Rightarrow> bool" where
  "is_finite (Num _) = True"
| "is_finite NonFinite = False"

section \<open>Shared interfaces\<close>

text \<open>A dictionary with lookup, insertion and deletion: what the stores rely on.\<close>

locale keyed_record =
  fixes get :: "'r \<Rightarrow> 'k \<Rightarrow> 'v option"
    and put :: "'k \<Rightarrow> 'v \<Rightarrow> 'r \<Rightarrow> 'r"
    and del :: "'k \<Rightarrow> 'r \<Rightarrow> 'r"
  assumes get_put: "get (put k v r) k' = (if k' = k then Some v else get r k')"
    and get_del: "get (del k r) k' = (if k' = k then None else get r k')"
begin

lemma get_put_same [simp]: "get (put k v r) k = Some v"
  by (simp add: get_put)

lemma get_del_same [simp]: "get (del k r) k = None"
  by (simp add: get_del)

lemma put_frame: "k' \<noteq> k \<Longrightarrow> get (put k v r) k' = get r k'"
  by (simp add: get_put)

lemma del_frame: "k' \<noteq> k \<Longrightarrow> get (del k r) k' = get r k'"
  by (simp add: get_del)

lemma all_put:
  "\<forall>k v. get r k = Some v \<longrightarrow> P k v \<Longrightarrow> P k0 v0 \<Longrightarrow> \<forall>k v. get (put k0 v0 r) k = Some v \<longrightarrow> P k v"
  by (simp add: get_put)

lemma all_del:
  "\<forall>k v. get r k = Some v \<longrightarrow> P k v \<Longrightarrow> \<forall>k v. get (del k0 r) k = Some v \<longrightarrow> P k v"
  by (simp add: get_del)

lemma put_commute: "k \<noteq> k' \<Longrightarrow> get (put k v (put k' v' r)) = get (put k' v' (put k v r))"
  by (rule ext) (simp add: get_put)

end

interpretation rcd: keyed_record "map_of :: 'v js_record \<Rightarrow> string \<Rightarrow> 'v option" rec_set rec_delete
  by unfold_locales (simp_all add: rec_get_set rec_get_delete)

text \<open>
  A store: a state, an action type and a step function. An invariant that the initial state has
  and every admissible step keeps holds after every admissible run.
\<close>

fun run_actions :: "('s \<Rightarrow> 'a \<Rightarrow> 's) \<Rightarrow> 's \<Rightarrow> 'a list \<Rightarrow> 's" where
  "run_actions step s [] = s"
| "run_actions step s (a # as) = run_actions step (step s a) as"

fun admissible :: "('s \<Rightarrow> 'a \<Rightarrow> 's) \<Rightarrow> ('s \<Rightarrow> 'a \<Rightarrow> bool) \<Rightarrow> 's \<Rightarrow> 'a list \<Rightarrow> bool" where
  "admissible step ok s [] = True"
| "admissible step ok s (a # as) = (ok s a \<and> admissible step ok (step s a) as)"

locale invariant_store =
  fixes step :: "'s \<Rightarrow> 'a \<Rightarrow> 's"
    and ok :: "'s \<Rightarrow> 'a \<Rightarrow> bool"
    and inv :: "'s \<Rightarrow> bool"
  assumes step_inv: "inv s \<Longrightarrow> ok s a \<Longrightarrow> inv (step s a)"
begin

lemma run_inv: "inv s \<Longrightarrow> admissible step ok s as \<Longrightarrow> inv (run_actions step s as)"
  by (induction as arbitrary: s) (auto intro: step_inv)

lemma prefix_inv:
  "inv s \<Longrightarrow> admissible step ok s (as @ bs) \<Longrightarrow> inv (run_actions step s as)"
  by (induction as arbitrary: s) (auto intro: step_inv)

end

text \<open>
  A pane tree: every tree has a list of leaf keys and an operation that removes a key. What is
  left of a tree is the tree of the remaining keys in their order, and nothing is left exactly
  when no key remains.
\<close>

locale pane_tree =
  fixes valid :: "'n \<Rightarrow> bool"
    and keys :: "'n \<Rightarrow> 'k list"
    and remove :: "'n \<Rightarrow> 'k \<Rightarrow> 'n option"
  assumes remove_None: "valid n \<Longrightarrow> remove n k = None \<Longrightarrow> filter (\<lambda>x. x \<noteq> k) (keys n) = []"
    and remove_Some: "valid n \<Longrightarrow> remove n k = Some n' \<Longrightarrow>
      valid n' \<and> keys n' = filter (\<lambda>x. x \<noteq> k) (keys n)"
    and keys_nonempty: "valid n \<Longrightarrow> keys n \<noteq> []"
begin

lemma remove_None_iff: "valid n \<Longrightarrow> remove n k = None \<longleftrightarrow> set (keys n) \<subseteq> {k}"
  using remove_None remove_Some keys_nonempty
  by (cases "remove n k") (fastforce simp: filter_empty_conv)+

lemma removed_gone: "valid n \<Longrightarrow> remove n k = Some n' \<Longrightarrow> k \<notin> set (keys n')"
  by (simp add: remove_Some)

lemma remove_keeps_distinct:
  "valid n \<Longrightarrow> distinct (keys n) \<Longrightarrow> remove n k = Some n' \<Longrightarrow> distinct (keys n')"
  by (simp add: remove_Some)

lemma remove_commute:
  assumes "valid n" "remove n j = Some nj" "remove nj k = Some njk"
    and "remove n k = Some nk" "remove nk j = Some nkj"
  shows "keys njk = keys nkj"
proof -
  note j = remove_Some [OF assms(1,2)] and k = remove_Some [OF assms(1,4)]
  note jk = remove_Some [OF conjunct1 [OF j] assms(3)]
    and kj = remove_Some [OF conjunct1 [OF k] assms(5)]
  from j k jk kj show ?thesis by (simp add: conj_commute)
qed

end

end
