(* ===== verification/PaneLayout.thy ===== *)
theory PaneLayout
  imports Prelude
begin

text \<open>
  The terminal pane tree: \<open>frontend/src/terminalPaneLayout.ts\<close>, with the layout types of
  \<open>frontend/src/types.ts\<close>. A layout is a tree of split nodes over leaf panes, each leaf a stack
  of terminal tabs. The definitions follow the order of the file; their lemmas are in \<open>PaneLayoutWf\<close>.

  Legacy leaves carry a single \<open>terminalId\<close> instead of \<open>terminalIds\<close>; absent fields of a
  persisted leaf are the empty string or list. Weights are numbers; the arithmetic on them is
  exact.
\<close>

section \<open>Layout types\<close>

datatype split_direction = Horizontal | Vertical

datatype split_position = Top | Right | Bottom | Left

record leaf_node =
  paneId :: string
  leafTerminalIds :: "string list"
  leafActiveTerminalId :: string
  legacyTerminalId :: string

datatype layout_node =
    Leaf leaf_node
  | Split (splitId: string) (direction: split_direction) (children: "layout_node list")
      (weights: "jsnum list")

record terminal_group =
  groupId :: string
  groupActiveTerminalId :: string
  layout :: layout_node

record raw_terminal_group =
  rawGroupId :: string
  rawTerminalIds :: "string list"
  rawLayout :: "layout_node option"
  rawActiveTerminalId :: string

definition DEFAULT_THREAD_TERMINAL_ID :: string where
  "DEFAULT_THREAD_TERMINAL_ID = ''default''"

section \<open>Leaves and weights\<close>

definition normalizePaneTerminalIds :: "string list \<Rightarrow> string list option \<Rightarrow> string list" where
  "normalizePaneTerminalIds terminalIds validTerminalIdSet =
     filter (\<lambda>terminalId. case validTerminalIdSet of Some s \<Rightarrow> terminalId \<in> set s | None \<Rightarrow> True)
       (filter (\<lambda>terminalId. length terminalId > 0) (js_dedup (map js_trim terminalIds)))"

definition resolveLeafTerminalIds :: "leaf_node \<Rightarrow> string list option \<Rightarrow> string list" where
  "resolveLeafTerminalIds node validTerminalIdSet =
     (let terminalIds = normalizePaneTerminalIds (leafTerminalIds node) validTerminalIdSet
      in if length terminalIds > 0 then terminalIds
         else normalizePaneTerminalIds [legacyTerminalId node] validTerminalIdSet)"

definition createTerminalLeaf :: "string \<Rightarrow> layout_node" where
  "createTerminalLeaf terminalId =
     Leaf \<lparr>paneId = ''pane-'' @ terminalId, leafTerminalIds = [terminalId],
           leafActiveTerminalId = terminalId, legacyTerminalId = []\<rparr>"

fun isTerminalSplitNode :: "layout_node \<Rightarrow> bool" where
  "isTerminalSplitNode (Leaf _) = False"
| "isTerminalSplitNode (Split _ _ _ _) = True"

fun normalizedWeight :: "jsnum option \<Rightarrow> rat" where
  "normalizedWeight (Some (Num w)) = (if w \<noteq> 0 \<and> w > 0 then w else 1)"
| "normalizedWeight (Some NonFinite) = 1"
| "normalizedWeight None = 1"

definition normalizeSplitWeights :: "nat \<Rightarrow> jsnum list \<Rightarrow> jsnum list" where
  "normalizeSplitWeights childrenCount ws =
     (let nextWeights = map (\<lambda>index. Num (normalizedWeight (list_get ws index))) [0..<childrenCount]
      in if length nextWeights > 0 then nextWeights else [Num 1])"

text \<open>One step of the \<open>forEach\<close> of \<open>flattenSplitChildren\<close>: what a child contributes.\<close>

fun flattenSplitChild :: "split_direction \<Rightarrow> layout_node \<Rightarrow> jsnum option \<Rightarrow> (layout_node \<times> jsnum) list"
where
  "flattenSplitChild dir (Leaf l) w = [(Leaf l, Num (normalizedWeight w))]"
| "flattenSplitChild dir (Split i d cs ws) w =
     (if d = dir then
        (let childWeight = normalizedWeight w;
             totalChildWeight = sum_list (map (\<lambda>x. normalizedWeight (Some x)) ws);
             safeTotal = (if totalChildWeight > 0 then totalChildWeight else of_nat (length cs))
         in map (\<lambda>nestedIndex. (cs ! nestedIndex,
               Num (childWeight * normalizedWeight (list_get ws nestedIndex) / safeTotal)))
             [0..<length cs])
      else [(Split i d cs ws, Num (normalizedWeight w))])"

definition flattenSplitChildren ::
    "split_direction \<Rightarrow> layout_node list \<Rightarrow> jsnum list \<Rightarrow> layout_node list \<times> jsnum list" where
  "flattenSplitChildren dir cs ws =
     (let entries = concat (map (\<lambda>index. flattenSplitChild dir (cs ! index) (list_get ws index))
                              [0..<length cs])
      in (map fst entries, map snd entries))"

section \<open>Sanitizing\<close>

fun sanitizeLayoutNode :: "layout_node \<Rightarrow> string list \<Rightarrow> layout_node option" where
  "sanitizeLayoutNode (Leaf node) validTerminalIdSet =
     (let terminalIds = resolveLeafTerminalIds node (Some validTerminalIdSet)
      in if length terminalIds = 0 then None
         else
           let activeTerminalId =
                 (if js_trim (leafActiveTerminalId node) \<in> set terminalIds
                  then js_trim (leafActiveTerminalId node)
                  else nullish (list_get terminalIds 0) DEFAULT_THREAD_TERMINAL_ID)
           in Some (Leaf
                \<lparr>paneId = str_or (js_trim (paneId node)) (''pane-'' @ activeTerminalId),
                 leafTerminalIds = terminalIds, leafActiveTerminalId = activeTerminalId,
                 legacyTerminalId = []\<rparr>))"
| "sanitizeLayoutNode (Split i dir cs ws) validTerminalIdSet =
     (let sanitizedChildren =
            cat_options (map (\<lambda>child. sanitizeLayoutNode child validTerminalIdSet) cs)
      in if length sanitizedChildren = 0 then None
         else if length sanitizedChildren = 1 then list_get sanitizedChildren 0
         else
           let flattened = flattenSplitChildren dir sanitizedChildren
                 (normalizeSplitWeights (length sanitizedChildren) ws)
           in Some (Split i dir (fst flattened)
                (normalizeSplitWeights (length (fst flattened)) (snd flattened))))"

definition buildLegacyLayout :: "string list \<Rightarrow> layout_node" where
  "buildLegacyLayout terminalIds =
     (if length terminalIds \<le> 1
      then createTerminalLeaf (nullish (list_get terminalIds 0) DEFAULT_THREAD_TERMINAL_ID)
      else Split (''split-'' @ nullish (list_get terminalIds 0) DEFAULT_THREAD_TERMINAL_ID)
             Horizontal (map createTerminalLeaf terminalIds) (map (\<lambda>_. Num 1) terminalIds))"

fun collectTerminalIdsFromLayout :: "layout_node \<Rightarrow> string list" where
  "collectTerminalIdsFromLayout (Leaf node) =
     (let terminalIds = normalizePaneTerminalIds (leafTerminalIds node) None
      in if length terminalIds > 0 then terminalIds
         else normalizePaneTerminalIds [legacyTerminalId node] None)"
| "collectTerminalIdsFromLayout (Split i dir cs ws) =
     concat (map (\<lambda>child. collectTerminalIdsFromLayout child) cs)"

definition findAdjacentTerminalId :: "layout_node \<Rightarrow> string \<Rightarrow> string option" where
  "findAdjacentTerminalId node terminalId =
     (case node of
        Leaf _ \<Rightarrow> None
      | Split _ _ _ _ \<Rightarrow>
          (let ids = collectTerminalIdsFromLayout node
           in case index_of ids terminalId of
                None \<Rightarrow> None
              | Some index \<Rightarrow>
                  (if index + 1 < length ids then list_get ids (index + 1)
                   else if index \<ge> 1 then list_get ids (index - 1) else None)))"

fun findFirstTerminalIdInLayout :: "layout_node \<Rightarrow> string" where
  "findFirstTerminalIdInLayout (Leaf node) =
     (let terminalIds = collectTerminalIdsFromLayout (Leaf node);
          activeTerminalId = js_trim (leafActiveTerminalId node)
      in if activeTerminalId \<in> set terminalIds then activeTerminalId
         else nullish (list_get terminalIds 0) DEFAULT_THREAD_TERMINAL_ID)"
| "findFirstTerminalIdInLayout (Split i dir [] ws) = DEFAULT_THREAD_TERMINAL_ID"
| "findFirstTerminalIdInLayout (Split i dir (c # cs) ws) = findFirstTerminalIdInLayout c"

fun layoutContainsTerminalId :: "layout_node \<Rightarrow> string \<Rightarrow> bool" where
  "layoutContainsTerminalId (Leaf node) terminalId =
     (terminalId \<in> set (collectTerminalIdsFromLayout (Leaf node)))"
| "layoutContainsTerminalId (Split i dir cs ws) terminalId =
     list_ex (\<lambda>child. layoutContainsTerminalId child terminalId) cs"

definition normalizeTerminalPaneGroup ::
    "raw_terminal_group \<Rightarrow> string list \<Rightarrow> terminal_group option" where
  "normalizeTerminalPaneGroup grp validTerminalIds =
     (let legacyTerminalIds =
            filter (\<lambda>terminalId. terminalId \<in> set validTerminalIds)
              (js_dedup (filter (\<lambda>t. t \<noteq> []) (map js_trim (rawTerminalIds grp))));
          fallbackLayout =
            (if length legacyTerminalIds > 0 then Some (buildLegacyLayout legacyTerminalIds)
             else None)
      in case orelse (rawLayout grp) fallbackLayout of
           None \<Rightarrow> None
         | Some node \<Rightarrow>
             (case sanitizeLayoutNode node validTerminalIds of
                None \<Rightarrow> None
              | Some sanitizedLayout \<Rightarrow>
                  (let terminalIds = collectTerminalIdsFromLayout sanitizedLayout;
                       activeTerminalId =
                         (if js_trim (rawActiveTerminalId grp) \<in> set terminalIds
                          then js_trim (rawActiveTerminalId grp)
                          else nullish (list_get terminalIds 0) DEFAULT_THREAD_TERMINAL_ID)
                   in Some
                        \<lparr>groupId = str_or (js_trim (rawGroupId grp)) (''group-'' @ activeTerminalId),
                         groupActiveTerminalId = activeTerminalId,
                         layout = sanitizedLayout\<rparr>)))"

text \<open>A group of the store seen as raw input: it has a layout and no legacy tab list.\<close>

definition raw_group :: "terminal_group \<Rightarrow> raw_terminal_group" where
  "raw_group g = \<lparr>rawGroupId = groupId g, rawTerminalIds = [], rawLayout = Some (layout g),
     rawActiveTerminalId = groupActiveTerminalId g\<rparr>"

section \<open>Splitting a pane\<close>

fun splitDirectionForPosition :: "split_position \<Rightarrow> split_direction" where
  "splitDirectionForPosition position =
     (if position = Left \<or> position = Right then Horizontal else Vertical)"

fun shouldInsertBefore :: "split_position \<Rightarrow> bool" where
  "shouldInsertBefore position = (position = Left \<or> position = Top)"

declare splitDirectionForPosition.simps [simp del] shouldInsertBefore.simps [simp del]

definition splitWeightEvenly :: "jsnum option \<Rightarrow> nat \<Rightarrow> jsnum list" where
  "splitWeightEvenly weight parts =
     (let safeWeight = normalizedWeight weight
      in map (\<lambda>_. Num (safeWeight / of_nat parts)) [0..<parts])"

text \<open>\<open>xs.splice(i, 1, ...ys)\<close>.\<close>

definition splice_one :: "nat \<Rightarrow> 'a list \<Rightarrow> 'a list \<Rightarrow> 'a list" where
  "splice_one i ys xs = take i xs @ ys @ drop (Suc i) xs"

record split_result =
  srNode :: layout_node
  didSplit :: bool
  mergeIntoParent :: bool

definition no_split :: "layout_node \<Rightarrow> split_result" where
  "no_split node = \<lparr>srNode = node, didSplit = False, mergeIntoParent = False\<rparr>"

fun splitLayoutNode ::
    "layout_node \<Rightarrow> string \<Rightarrow> string \<Rightarrow> split_position \<Rightarrow> string \<Rightarrow> split_result" where
  "splitLayoutNode (Leaf node) targetTerminalId newTerminalId position newSplitId =
     (if targetTerminalId \<notin> set (leafTerminalIds node) then no_split (Leaf node)
      else
        \<lparr>srNode = Split newSplitId (splitDirectionForPosition position)
           (if shouldInsertBefore position
            then [createTerminalLeaf newTerminalId, Leaf node]
            else [Leaf node, createTerminalLeaf newTerminalId])
           [Num 1, Num 1],
         didSplit = True, mergeIntoParent = True\<rparr>)"
| "splitLayoutNode (Split i dir cs ws) targetTerminalId newTerminalId position newSplitId =
     (case find_index (\<lambda>child. layoutContainsTerminalId child targetTerminalId) cs of
        None \<Rightarrow> no_split (Split i dir cs ws)
      | Some childIndex \<Rightarrow>
          (let childResult =
                 splitLayoutNode (cs ! childIndex) targetTerminalId newTerminalId position newSplitId
           in if \<not> didSplit childResult then no_split (Split i dir cs ws)
              else
                let nextWeights = normalizeSplitWeights (length cs) ws;
                    targetWeight = nullish (list_get nextWeights childIndex) (Num 1)
                in if dir = splitDirectionForPosition position \<and> mergeIntoParent childResult \<and>
                      isTerminalSplitNode (srNode childResult) \<and>
                      direction (srNode childResult) = splitDirectionForPosition position
                   then
                     let mergedChildren = children (srNode childResult);
                         mergedWeights =
                           splitWeightEvenly (Some targetWeight) (length mergedChildren)
                     in \<lparr>srNode = Split i dir (splice_one childIndex mergedChildren cs)
                                   (splice_one childIndex mergedWeights nextWeights),
                         didSplit = True, mergeIntoParent = False\<rparr>
                   else
                     \<lparr>srNode = Split i dir (cs[childIndex := srNode childResult]) nextWeights,
                      didSplit = True, mergeIntoParent = False\<rparr>))"

definition splitTerminalGroupLayout ::
    "terminal_group \<Rightarrow> string \<Rightarrow> string \<Rightarrow> split_position \<Rightarrow> string \<Rightarrow> terminal_group" where
  "splitTerminalGroupLayout grp targetTerminalId newTerminalId position newSplitId =
     (let result = splitLayoutNode (layout grp) targetTerminalId newTerminalId position newSplitId
      in if \<not> didSplit result then grp
         else grp\<lparr>groupActiveTerminalId := newTerminalId, layout := srNode result\<rparr>)"

section \<open>Removing a terminal\<close>

text \<open>The index \<open>terminalIds.indexOf(terminalId)\<close> is found here, since the leaf holds the id.\<close>

fun removeTerminalFromLayoutNode :: "layout_node \<Rightarrow> string \<Rightarrow> layout_node option \<times> bool" where
  "removeTerminalFromLayoutNode (Leaf node) terminalId =
     (if terminalId \<notin> set (leafTerminalIds node) then (Some (Leaf node), False)
      else
        let nextTerminalIds = filter (\<lambda>t. t \<noteq> terminalId) (leafTerminalIds node)
        in if length nextTerminalIds = 0 then (None, True)
           else
             let nextActiveTerminalId =
                   (if leafActiveTerminalId node \<in> set nextTerminalIds
                    then leafActiveTerminalId node
                    else nullish
                      (orelse
                        (list_get nextTerminalIds
                          (min (nullish (index_of (leafTerminalIds node) terminalId) 0)
                               (length nextTerminalIds - 1)))
                        (list_get nextTerminalIds 0))
                      DEFAULT_THREAD_TERMINAL_ID)
             in (Some (Leaf (node\<lparr>leafTerminalIds := nextTerminalIds,
                                 leafActiveTerminalId := nextActiveTerminalId\<rparr>)), True))"
| "removeTerminalFromLayoutNode (Split i dir cs ws) terminalId =
     (let ws' = normalizeSplitWeights (length cs) ws;
          results = map (\<lambda>child. removeTerminalFromLayoutNode child terminalId) cs;
          removed = list_ex snd results;
          kept = concat (map (\<lambda>index. case fst (results ! index) of
                     None \<Rightarrow> []
                   | Some n \<Rightarrow> [(n, nullish (list_get ws' index) (Num 1))]) [0..<length cs]);
          nextChildren = map fst kept;
          nextWeights = map snd kept
      in if \<not> removed then (Some (Split i dir cs ws), False)
         else if length nextChildren = 0 then (None, True)
         else if length nextChildren = 1 then (list_get nextChildren 0, True)
         else (Some (Split i dir nextChildren
                 (normalizeSplitWeights (length nextChildren) nextWeights)), True))"

definition removeTerminalFromGroupLayout ::
    "terminal_group \<Rightarrow> string \<Rightarrow> terminal_group option" where
  "removeTerminalFromGroupLayout grp terminalId =
     (let adjacentId = findAdjacentTerminalId (layout grp) terminalId;
          result = removeTerminalFromLayoutNode (layout grp) terminalId
      in if \<not> snd result then Some grp
         else case fst result of
           None \<Rightarrow> None
         | Some node \<Rightarrow>
             (let terminalIds = collectTerminalIdsFromLayout node
              in Some (grp\<lparr>groupActiveTerminalId :=
                     (if groupActiveTerminalId grp \<in> set terminalIds
                      then groupActiveTerminalId grp
                      else nullish (orelse adjacentId (list_get terminalIds 0))
                             DEFAULT_THREAD_TERMINAL_ID),
                   layout := node\<rparr>)))"

section \<open>Tabs, resizing, equalizing\<close>

fun updateLeafNode ::
    "layout_node \<Rightarrow> string \<Rightarrow> (leaf_node \<Rightarrow> layout_node) \<Rightarrow> layout_node \<times> bool" where
  "updateLeafNode (Leaf node) terminalId updater =
     (if terminalId \<notin> set (leafTerminalIds node) then (Leaf node, False)
      else (updater node, True))"
| "updateLeafNode (Split i dir cs ws) terminalId updater =
     (let results = map (\<lambda>child. updateLeafNode child terminalId updater) cs
      in if list_ex snd results then (Split i dir (map fst results) ws, True)
         else (Split i dir cs ws, False))"

definition addTerminalTabToGroupLayout ::
    "terminal_group \<Rightarrow> string \<Rightarrow> string \<Rightarrow> terminal_group" where
  "addTerminalTabToGroupLayout grp targetTerminalId newTerminalId =
     (let result = updateLeafNode (layout grp) targetTerminalId
            (\<lambda>node. Leaf (node\<lparr>leafTerminalIds := leafTerminalIds node @ [newTerminalId],
                              leafActiveTerminalId := newTerminalId\<rparr>))
      in if \<not> snd result then grp
         else grp\<lparr>groupActiveTerminalId := newTerminalId, layout := fst result\<rparr>)"

definition setActiveTerminalInGroupLayout :: "terminal_group \<Rightarrow> string \<Rightarrow> terminal_group" where
  "setActiveTerminalInGroupLayout grp terminalId =
     (let result = updateLeafNode (layout grp) terminalId
            (\<lambda>node. if leafActiveTerminalId node = terminalId then Leaf node
                    else Leaf (node\<lparr>leafActiveTerminalId := terminalId\<rparr>))
      in if \<not> snd result then grp
         else if groupActiveTerminalId grp = terminalId \<and> fst result = layout grp then grp
         else grp\<lparr>groupActiveTerminalId := terminalId, layout := fst result\<rparr>)"

fun resizeSplitNode :: "layout_node \<Rightarrow> string \<Rightarrow> jsnum list \<Rightarrow> layout_node \<times> bool" where
  "resizeSplitNode (Leaf node) sid ws' = (Leaf node, False)"
| "resizeSplitNode (Split i dir cs ws) sid ws' =
     (if i = sid then (Split i dir cs (normalizeSplitWeights (length cs) ws'), True)
      else
        let results = map (\<lambda>child. resizeSplitNode child sid ws') cs
        in if list_ex snd results then (Split i dir (map fst results) ws, True)
           else (Split i dir cs ws, False))"

definition resizeTerminalGroupLayout ::
    "terminal_group \<Rightarrow> string \<Rightarrow> jsnum list \<Rightarrow> terminal_group" where
  "resizeTerminalGroupLayout grp sid ws' =
     (let result = resizeSplitNode (layout grp) sid ws'
      in if snd result then grp\<lparr>layout := fst result\<rparr> else grp)"

fun equalizeLayoutNode :: "layout_node \<Rightarrow> layout_node" where
  "equalizeLayoutNode (Leaf node) = Leaf node"
| "equalizeLayoutNode (Split i dir cs ws) =
     Split i dir (map equalizeLayoutNode cs) (map (\<lambda>_. Num 1) cs)"

definition equalizeTerminalGroupLayout :: "terminal_group \<Rightarrow> terminal_group" where
  "equalizeTerminalGroupLayout grp = grp\<lparr>layout := equalizeLayoutNode (layout grp)\<rparr>"

definition createTerminalGroup :: "string \<Rightarrow> string \<Rightarrow> terminal_group" where
  "createTerminalGroup gid terminalId =
     \<lparr>groupId = gid, groupActiveTerminalId = terminalId, layout = createTerminalLeaf terminalId\<rparr>"

end
