(* ===== verification/PaneLayoutWf.thy ===== *)
theory PaneLayoutWf
  imports PaneLayout
begin

text \<open>
  Lemmas on the terminal pane tree: sanitizing makes every layout well formed and is the identity
  on well-formed flat ones; splitting inserts the new terminal beside the target's pane; removing
  keeps the other terminals in order; tab updates, resizing and equalizing keep the terminals. The
  removal operation is an instance of the \<open>pane_tree\<close> interface. The last section lifts these
  facts to terminal groups.
\<close>

section \<open>Well-formed layouts\<close>

text \<open>
  A well-formed layout has non-empty panes of distinct, trimmed terminal ids whose active tab is
  one of them, and split nodes with at least two children and one positive weight per child. It
  is flat when no child of a split is a split in the same direction.
\<close>

definition wf_ids :: "string list \<Rightarrow> bool" where
  "wf_ids ids \<longleftrightarrow> ids \<noteq> [] \<and> distinct ids \<and> list_all trimmed ids"

definition wf_leaf :: "leaf_node \<Rightarrow> bool" where
  "wf_leaf l \<longleftrightarrow> wf_ids (leafTerminalIds l) \<and> leafActiveTerminalId l \<in> set (leafTerminalIds l) \<and>
     trimmed (paneId l) \<and> legacyTerminalId l = []"

fun pos_weight :: "jsnum \<Rightarrow> bool" where
  "pos_weight (Num w) = (w > 0)"
| "pos_weight NonFinite = False"

fun wf_layout :: "layout_node \<Rightarrow> bool" where
  "wf_layout (Leaf l) = wf_leaf l"
| "wf_layout (Split i d cs ws) =
     (length cs \<ge> 2 \<and> length ws = length cs \<and> list_all pos_weight ws \<and> list_all wf_layout cs)"

fun splits_along :: "split_direction \<Rightarrow> layout_node \<Rightarrow> bool" where
  "splits_along d (Leaf _) = False"
| "splits_along d (Split _ d' _ _) = (d' = d)"

fun flat_layout :: "layout_node \<Rightarrow> bool" where
  "flat_layout (Leaf l) = True"
| "flat_layout (Split i d cs ws) = list_all (\<lambda>c. flat_layout c \<and> \<not> splits_along d c) cs"

fun leaf_ids :: "layout_node \<Rightarrow> string list" where
  "leaf_ids (Leaf l) = leafTerminalIds l"
| "leaf_ids (Split i d cs ws) = concat (map leaf_ids cs)"

subsection \<open>Terminal ids of a pane\<close>

lemma normalize_ids_props:
  "distinct (normalizePaneTerminalIds ids v)"
  "x \<in> set (normalizePaneTerminalIds ids v) \<Longrightarrow> trimmed x"
  "x \<in> set (normalizePaneTerminalIds ids (Some s)) \<Longrightarrow> x \<in> set s"
  by (auto simp: normalizePaneTerminalIds_def js_trim_empty_iff)

lemma normalize_ids_wf: "normalizePaneTerminalIds ids v \<noteq> [] \<Longrightarrow> wf_ids (normalizePaneTerminalIds ids v)"
  by (simp add: wf_ids_def normalize_ids_props list_all_iff)

lemma map_trim_wf: "list_all trimmed ids \<Longrightarrow> map js_trim ids = ids"
  by (induction ids) (simp_all add: js_trim_id)

lemma normalize_wf_ids:
  assumes "distinct ids" and "list_all trimmed ids"
  shows "normalizePaneTerminalIds ids None = ids"
    and "normalizePaneTerminalIds ids (Some v) = filter (\<lambda>t. t \<in> set v) ids"
proof -
  have "filter (\<lambda>t. length t > 0) ids = ids"
    using assms(2) by (intro filter_True) (auto simp: list_all_iff trimmed_def)
  then show "normalizePaneTerminalIds ids None = ids"
    and "normalizePaneTerminalIds ids (Some v) = filter (\<lambda>t. t \<in> set v) ids"
    using assms by (simp_all add: normalizePaneTerminalIds_def map_trim_wf js_dedup_id)
qed

lemma wf_leaf_collect: "wf_leaf l \<Longrightarrow> collectTerminalIdsFromLayout (Leaf l) = leafTerminalIds l"
  by (simp add: wf_leaf_def wf_ids_def normalize_wf_ids)

lemma collect_leaf_ids: "wf_layout n \<Longrightarrow> collectTerminalIdsFromLayout n = leaf_ids n"
proof (induction n)
  case (Leaf l)
  then show ?case by (simp add: wf_leaf_collect del: collectTerminalIdsFromLayout.simps)
next
  case (Split i d cs ws)
  then have "map collectTerminalIdsFromLayout cs = map leaf_ids cs"
    by (simp add: list_all_iff)
  then show ?case by (simp only: collectTerminalIdsFromLayout.simps leaf_ids.simps)
qed

lemma leaf_ids_trimmed: "wf_layout n \<Longrightarrow> t \<in> set (leaf_ids n) \<Longrightarrow> trimmed t"
  by (induction n) (auto simp: wf_leaf_def wf_ids_def list_all_iff)

lemma leaf_ids_nonempty: "wf_layout n \<Longrightarrow> leaf_ids n \<noteq> []"
proof (induction n)
  case (Split i d cs ws)
  then obtain c cs' where "cs = c # cs'" by (cases cs) auto
  with Split show ?case by simp
qed (simp add: wf_leaf_def wf_ids_def)

lemma contains_iff: "wf_layout n \<Longrightarrow> layoutContainsTerminalId n t \<longleftrightarrow> t \<in> set (leaf_ids n)"
proof (induction n)
  case (Leaf l)
  then show ?case by (simp add: wf_leaf_collect del: collectTerminalIdsFromLayout.simps)
next
  case (Split i d cs ws)
  then show ?case by (auto simp: list_ex_iff list_all_iff)
qed

lemma createTerminalLeaf_wf [simp]:
  "wf_layout (createTerminalLeaf t) \<longleftrightarrow> trimmed t"
  "flat_layout (createTerminalLeaf t)"
  "leaf_ids (createTerminalLeaf t) = [t]"
  "splits_along d (createTerminalLeaf t) \<longleftrightarrow> False"
  by (auto simp: createTerminalLeaf_def wf_leaf_def wf_ids_def is_space_def)

subsection \<open>Weights\<close>

lemma normalizedWeight_pos: "normalizedWeight w > 0"
  by (cases w rule: normalizedWeight.cases) simp_all

lemma normalizeSplitWeights_props:
  "n > 0 \<Longrightarrow> length (normalizeSplitWeights n ws) = n"
  "list_all pos_weight (normalizeSplitWeights n ws)"
  by (auto simp: normalizeSplitWeights_def list_all_iff normalizedWeight_pos)

lemma normalizedWeight_id: "pos_weight w \<Longrightarrow> Num (normalizedWeight (Some w)) = w"
  by (cases w) auto

lemma normalizeSplitWeights_id:
  assumes "length ws = n" "n > 0" "list_all pos_weight ws"
  shows "normalizeSplitWeights n ws = ws"
proof -
  have "map (\<lambda>i. Num (normalizedWeight (list_get ws i))) [0..<n] = map (\<lambda>i. ws ! i) [0..<n]"
    using assms by (intro map_cong) (auto simp: list_get_def list_all_length normalizedWeight_id)
  also have "\<dots> = ws" using assms(1) by (simp add: map_nth flip: assms(1))
  finally show ?thesis using assms(1,2) by (auto simp: normalizeSplitWeights_def)
qed

subsection \<open>Flattening\<close>

definition good_child :: "split_direction \<Rightarrow> layout_node \<times> jsnum \<Rightarrow> bool" where
  "good_child d e \<longleftrightarrow> wf_layout (fst e) \<and> flat_layout (fst e) \<and> \<not> splits_along d (fst e) \<and>
     pos_weight (snd e)"

lemma flattenSplitChild_good:
  assumes "wf_layout c" "flat_layout c" and e: "e \<in> set (flattenSplitChild d c w)"
  shows "good_child d e"
proof (cases c)
  case (Leaf l)
  with assms show ?thesis by (simp add: good_child_def normalizedWeight_pos)
next
  case (Split i d' cs ws)
  show ?thesis
  proof (cases "d' = d")
    case True
    define total where "total = sum_list (map (\<lambda>x. normalizedWeight (Some x)) ws)"
    define safe where "safe = (if total > 0 then total else of_nat (length cs))"
    have "safe > 0" using assms(1) Split by (auto simp: safe_def)
    from e True Split obtain j where "j < length cs" and
      e': "e = (cs ! j, Num (normalizedWeight w * normalizedWeight (list_get ws j) / safe))"
      by (auto simp: Let_def safe_def total_def)
    moreover have "normalizedWeight w * normalizedWeight (list_get ws j) / safe > 0"
      using \<open>safe > 0\<close> by (simp add: normalizedWeight_pos)
    ultimately show ?thesis
      using assms Split True by (simp add: good_child_def list_all_length)
  next
    case False
    with assms Split show ?thesis by (simp add: good_child_def normalizedWeight_pos)
  qed
qed

lemma flattenSplitChild_ids: "concat (map (\<lambda>e. leaf_ids (fst e)) (flattenSplitChild d c w)) = leaf_ids c"
  by (cases c) (simp_all add: Let_def comp_def map_nth_upt)

lemma flattenSplitChild_nonempty: "wf_layout c \<Longrightarrow> flattenSplitChild d c w \<noteq> []"
  by (cases c) (auto simp: Let_def)

lemma flattenSplitChild_id:
  "\<not> splits_along d c \<Longrightarrow> pos_weight w \<Longrightarrow> flattenSplitChild d c (Some w) = [(c, w)]"
  by (cases c) (simp_all add: normalizedWeight_id)

lemma flattenSplitChildren_wf:
  assumes wf: "\<forall>c\<in>set cs. wf_layout c \<and> flat_layout c"
    and res: "flattenSplitChildren d cs ws = (cs', ws')"
  shows "length ws' = length cs'" and "length cs \<le> length cs'"
    and "list_all pos_weight ws'" and "list_all wf_layout cs'"
    and "list_all (\<lambda>c. flat_layout c \<and> \<not> splits_along d c) cs'"
    and "concat (map leaf_ids cs') = concat (map leaf_ids cs)"
proof -
  define f where "f i = flattenSplitChild d (cs ! i) (list_get ws i)" for i
  define entries where "entries = concat (map f [0..<length cs])"
  have cs': "cs' = map fst entries" and ws': "ws' = map snd entries"
    using res by (auto simp: flattenSplitChildren_def entries_def f_def [abs_def] Let_def)
  have good: "good_child d e" if "e \<in> set entries" for e
    using that wf by (auto simp: entries_def f_def intro!: flattenSplitChild_good)
  show "length ws' = length cs'" by (simp add: cs' ws')
  have "length [0..<length cs] \<le> length entries"
    unfolding entries_def using wf
    by (intro length_concat_map_ge) (auto simp: f_def flattenSplitChild_nonempty)
  then show "length cs \<le> length cs'" by (simp add: cs')
  show "list_all pos_weight ws'" "list_all wf_layout cs'"
    "list_all (\<lambda>c. flat_layout c \<and> \<not> splits_along d c) cs'"
    using good by (auto simp: cs' ws' list_all_iff good_child_def)
  have "concat (map leaf_ids cs') = concat (map (\<lambda>i. leaf_ids (cs ! i)) [0..<length cs])"
    by (simp add: cs' entries_def comp_def concat_map_concat f_def flattenSplitChild_ids)
  then show "concat (map leaf_ids cs') = concat (map leaf_ids cs)"
    by (simp add: map_nth_upt)
qed

lemma flattenSplitChildren_id:
  assumes "list_all (\<lambda>c. \<not> splits_along d c) cs" "length ws = length cs" "list_all pos_weight ws"
  shows "flattenSplitChildren d cs ws = (cs, ws)"
proof -
  have "concat (map (\<lambda>i. flattenSplitChild d (cs ! i) (list_get ws i)) [0..<length cs])
      = concat (map (\<lambda>i. [(cs ! i, ws ! i)]) [0..<length cs])"
    using assms by (intro arg_cong [where f = concat] map_cong)
      (auto simp: list_get_def list_all_length flattenSplitChild_id)
  also have "\<dots> = zip cs ws"
    unfolding concat_map_singleton using assms(2) by (intro nth_equalityI) simp_all
  finally show ?thesis
    using assms(2) by (simp add: flattenSplitChildren_def)
qed

subsection \<open>Sanitizing yields well-formed layouts\<close>

lemma resolve_wf: "resolveLeafTerminalIds l v \<noteq> [] \<Longrightarrow> wf_ids (resolveLeafTerminalIds l v)"
  by (auto simp: resolveLeafTerminalIds_def Let_def normalize_ids_wf split: if_splits)

lemma resolve_valid: "x \<in> set (resolveLeafTerminalIds l (Some v)) \<Longrightarrow> x \<in> set v"
  by (auto simp: resolveLeafTerminalIds_def Let_def normalize_ids_props split: if_splits)

lemma sanitize_leaf_wf:
  assumes "sanitizeLayoutNode (Leaf l) v = Some n"
  shows "wf_layout n \<and> flat_layout n \<and> set (leaf_ids n) \<subseteq> set v"
proof -
  define ids where "ids = resolveLeafTerminalIds l (Some v)"
  define act where "act = (if js_trim (leafActiveTerminalId l) \<in> set ids
     then js_trim (leafActiveTerminalId l) else nullish (list_get ids 0) DEFAULT_THREAD_TERMINAL_ID)"
  from assms have ne: "ids \<noteq> []" and n: "n = Leaf \<lparr>paneId = str_or (js_trim (paneId l)) (''pane-'' @ act),
      leafTerminalIds = ids, leafActiveTerminalId = act, legacyTerminalId = []\<rparr>"
    by (auto simp: Let_def ids_def act_def split: if_splits)
  have ids: "wf_ids ids" using ne resolve_wf by (simp add: ids_def)
  have act: "act \<in> set ids" using ne by (auto simp: act_def list_get_def)
  then have "trimmed act" using ids by (auto simp: wf_ids_def list_all_iff)
  then have "trimmed (str_or (js_trim (paneId l)) (''pane-'' @ act))"
    by (auto simp: str_or_def js_trim_empty_iff is_space_def)
  then show ?thesis
    using ids act by (auto simp: n wf_leaf_def ids_def dest: resolve_valid)
qed

lemma sanitize_wf:
  "sanitizeLayoutNode n v = Some n' \<Longrightarrow> wf_layout n' \<and> flat_layout n' \<and> set (leaf_ids n') \<subseteq> set v"
proof (induction n arbitrary: n')
  case (Leaf l)
  then show ?case by (rule sanitize_leaf_wf)
next
  case (Split i d cs ws)
  define scs where "scs = cat_options (map (\<lambda>c. sanitizeLayoutNode c v) cs)"
  have scs: "\<forall>c\<in>set scs. wf_layout c \<and> flat_layout c \<and> set (leaf_ids c) \<subseteq> set v"
  proof
    fix c assume "c \<in> set scs"
    then obtain c0 where "c0 \<in> set cs" "sanitizeLayoutNode c0 v = Some c"
      by (auto simp: scs_def set_cat_options)
    then show "wf_layout c \<and> flat_layout c \<and> set (leaf_ids c) \<subseteq> set v" by (rule Split.IH)
  qed
  have ne: "scs \<noteq> []" using Split.prems by (auto simp: scs_def Let_def split: if_splits)
  show ?case
  proof (cases "length scs = 1")
    case True
    with Split.prems have "n' \<in> set scs"
      by (auto simp: scs_def Let_def intro: list_get_Some split: if_splits)
    with scs show ?thesis by blast
  next
    case False
    obtain cs' ws' where fl: "flattenSplitChildren d scs (normalizeSplitWeights (length scs) ws) = (cs', ws')"
      by fastforce
    have "\<forall>c\<in>set scs. wf_layout c \<and> flat_layout c" using scs by blast
    note props = flattenSplitChildren_wf [OF this fl]
    from False Split.prems fl ne have n': "n' = Split i d cs' (normalizeSplitWeights (length cs') ws')"
      by (auto simp: scs_def Let_def split: if_splits)
    have two: "length cs' \<ge> 2" using False ne props(2) scs by (cases scs) (auto simp: neq_Nil_conv)
    then have len: "length (normalizeSplitWeights (length cs') ws') = length cs'"
      by (intro normalizeSplitWeights_props) linarith
    have "set (leaf_ids n') = set (concat (map leaf_ids scs))"
      using props(6) by (simp only: n' leaf_ids.simps)
    then have "set (leaf_ids n') \<subseteq> set v" using scs by auto
    with two len show ?thesis
      using props(4,5) by (simp add: n' normalizeSplitWeights_props)
  qed
qed

lemma resolve_wf_leaf:
  assumes "wf_leaf l"
  shows "resolveLeafTerminalIds l (Some v) = filter (\<lambda>t. t \<in> set v) (leafTerminalIds l)"
proof -
  have "normalizePaneTerminalIds [legacyTerminalId l] (Some v) = []"
    using assms by (simp add: normalizePaneTerminalIds_def wf_leaf_def)
  then show ?thesis
    using assms by (auto simp: resolveLeafTerminalIds_def wf_leaf_def wf_ids_def normalize_wf_ids Let_def)
qed

text \<open>Sanitizing a well-formed layout keeps exactly the valid terminals, in their order.\<close>

lemma sanitize_ids:
  "wf_layout n \<Longrightarrow>
     (case sanitizeLayoutNode n v of
        None \<Rightarrow> filter (\<lambda>t. t \<in> set v) (leaf_ids n) = []
      | Some n' \<Rightarrow> leaf_ids n' = filter (\<lambda>t. t \<in> set v) (leaf_ids n))"
proof (induction n)
  case (Leaf l)
  then show ?case by (simp add: resolve_wf_leaf Let_def)
next
  case (Split i d cs ws)
  define scs where "scs = cat_options (map (\<lambda>c. sanitizeLayoutNode c v) cs)"
  have ids: "concat (map leaf_ids scs) = filter (\<lambda>t. t \<in> set v) (leaf_ids (Split i d cs ws))"
    unfolding scs_def leaf_ids.simps
    using Split by (intro cat_options_filter) (simp add: list_all_iff)
  have wf: "\<forall>c\<in>set scs. wf_layout c \<and> flat_layout c"
    by (auto simp: scs_def set_cat_options dest!: sanitize_wf [OF sym])
  consider "scs = []" | c where "scs = [c]" | "length scs \<ge> 2"
    by (cases scs rule: remdups_adj.cases) auto
  then show ?case
  proof cases
    case 3
    obtain cs' ws' where fl: "flattenSplitChildren d scs (normalizeSplitWeights (length scs) ws) = (cs', ws')"
      by fastforce
    from 3 fl have "sanitizeLayoutNode (Split i d cs ws) v =
        Some (Split i d cs' (normalizeSplitWeights (length cs') ws'))"
      by (auto simp: scs_def Let_def)
    then show ?thesis
      using flattenSplitChildren_wf(6) [OF wf fl] ids by (simp only: option.case leaf_ids.simps)
  qed (use ids in \<open>auto simp: scs_def Let_def list_get_def\<close>)
qed

lemma sanitize_fixpoint:
  "wf_layout n \<Longrightarrow> flat_layout n \<Longrightarrow> set (leaf_ids n) \<subseteq> set v \<Longrightarrow> sanitizeLayoutNode n v = Some n"
proof (induction n)
  case (Leaf l)
  then have l: "wf_leaf l" and sub: "set (leafTerminalIds l) \<subseteq> set v" by simp_all
  then have ids: "resolveLeafTerminalIds l (Some v) = leafTerminalIds l"
    by (auto simp: resolve_wf_leaf intro!: filter_True)
  have act: "js_trim (leafActiveTerminalId l) = leafActiveTerminalId l"
    using l by (auto simp: wf_leaf_def wf_ids_def list_all_iff intro: js_trim_id)
  have "paneId l \<noteq> []" "js_trim (paneId l) = paneId l"
    using l by (auto simp: wf_leaf_def js_trim_id trimmed_def)
  with l ids act show ?case
    by (cases l) (auto simp: wf_leaf_def wf_ids_def Let_def)
next
  case (Split i d cs ws)
  then have "cat_options (map (\<lambda>c. sanitizeLayoutNode c v) cs) = map (\<lambda>c. c) cs"
    by (intro cat_options_map_Some) (auto simp: list_all_iff)
  moreover have "normalizeSplitWeights (length cs) ws = ws"
    using Split.prems by (intro normalizeSplitWeights_id) auto
  moreover have "flattenSplitChildren d cs ws = (cs, ws)"
    using Split.prems by (intro flattenSplitChildren_id) (auto simp: list_all_iff)
  ultimately show ?case using Split.prems(1) by (auto simp: Let_def)
qed

subsection \<open>Splitting inserts the new terminal next to the target's pane\<close>

text \<open>The panes before, the target's own pane and the panes after it, with the new id beside it.\<close>

definition inserted_beside :: "split_position \<Rightarrow> string \<Rightarrow> string \<Rightarrow> string list \<Rightarrow> string list \<Rightarrow> bool" where
  "inserted_beside pos t new ids ids' \<longleftrightarrow>
     (\<exists>pre pane post. ids = pre @ pane @ post \<and> t \<in> set pane \<and>
        ids' = pre @ (if pos = Left \<or> pos = Top then new # pane else pane @ [new]) @ post)"

lemma inserted_beside_set: "inserted_beside pos t new ids ids' \<Longrightarrow> set ids' = insert new (set ids)"
  by (auto simp: inserted_beside_def split: if_splits)

lemma inserted_beside_distinct:
  "inserted_beside pos t new ids ids' \<Longrightarrow> distinct ids' \<longleftrightarrow> distinct ids \<and> new \<notin> set ids"
  by (auto simp: inserted_beside_def split: if_splits)

lemma inserted_beside_length: "inserted_beside pos t new ids ids' \<Longrightarrow> length ids' = Suc (length ids)"
  by (auto simp: inserted_beside_def)

lemma inserted_beside_context:
  assumes "inserted_beside pos t new ids ids'"
  shows "inserted_beside pos t new (xs @ ids @ ys) (xs @ ids' @ ys)"
proof -
  from assms obtain pre pane post where "ids = pre @ pane @ post" "t \<in> set pane"
    "ids' = pre @ (if pos = Left \<or> pos = Top then new # pane else pane @ [new]) @ post"
    by (auto simp: inserted_beside_def)
  then show ?thesis
    unfolding inserted_beside_def
    by (intro exI [of _ "xs @ pre"] exI [of _ pane] exI [of _ "post @ ys"]) simp
qed

lemma inserted_beside_leaf:
  "t \<in> set ids \<Longrightarrow> inserted_beside pos t new ids (if shouldInsertBefore pos then new # ids else ids @ [new])"
  unfolding inserted_beside_def by (intro exI [of _ "[]"] exI [of _ ids]) (simp add: shouldInsertBefore.simps)

lemma split_did: "wf_layout n \<Longrightarrow> didSplit (splitLayoutNode n t new pos sid) \<longleftrightarrow> t \<in> set (leaf_ids n)"
proof (induction n t new pos sid rule: splitLayoutNode.induct)
  case (2 i dir cs ws t new pos sid)
  have contains: "layoutContainsTerminalId c t \<longleftrightarrow> t \<in> set (leaf_ids c)" if "c \<in> set cs" for c
    using that "2.prems" by (simp add: list_all_iff contains_iff)
  show ?case
  proof (cases "find_index (\<lambda>c. layoutContainsTerminalId c t) cs")
    case None
    then have "t \<notin> set (leaf_ids (Split i dir cs ws))"
      using contains by (auto simp: find_index_None_iff)
    then show ?thesis using None by (simp add: no_split_def)
  next
    case (Some k)
    then have k: "cs ! k \<in> set cs" "layoutContainsTerminalId (cs ! k) t"
      by (auto simp: find_index_nth_mem dest: find_index_SomeD)
    then have "didSplit (splitLayoutNode (cs ! k) t new pos sid)"
      using "2.IH" [OF Some] "2.prems" contains by (auto simp: list_all_iff)
    then show ?thesis using Some k contains by (auto simp: Let_def)
  qed
qed (simp add: no_split_def)

lemma split_shape:
  "splits_along d (srNode (splitLayoutNode (Split i dir cs ws) t new pos sid)) \<longleftrightarrow> dir = d"
  "\<not> mergeIntoParent (splitLayoutNode (Split i dir cs ws) t new pos sid)"
  by (auto simp: no_split_def Let_def split: option.splits)

lemma split_merge_leaf:
  assumes "mergeIntoParent (splitLayoutNode c t new pos sid)"
  obtains l where "c = Leaf l" and "srNode (splitLayoutNode c t new pos sid) =
      Split sid (splitDirectionForPosition pos)
        (if shouldInsertBefore pos then [createTerminalLeaf new, Leaf l]
         else [Leaf l, createTerminalLeaf new]) [Num 1, Num 1]"
    and "t \<in> set (leafTerminalIds l)"
proof (cases c)
  case (Leaf l)
  with assms that show ?thesis by (auto simp: no_split_def split: if_splits)
next
  case (Split i d cs ws)
  with assms split_shape(2) show ?thesis by blast
qed

lemma splice_one_props:
  "i < length xs \<Longrightarrow> length (splice_one i ys xs) = length xs + length ys - 1"
  "list_all P xs \<Longrightarrow> list_all P ys \<Longrightarrow> list_all P (splice_one i ys xs)"
  by (auto simp: splice_one_def list_all_iff dest: in_set_takeD in_set_dropD)

lemma splitWeightEvenly_props:
  "length (splitWeightEvenly w n) = n" "list_all pos_weight (splitWeightEvenly w n)"
  by (auto simp: splitWeightEvenly_def Let_def list_all_iff normalizedWeight_pos)

lemma list_all_update: "list_all P xs \<Longrightarrow> P x \<Longrightarrow> list_all P (xs[i := x])"
  by (auto simp: list_all_iff dest: set_update_subset_insert [THEN subsetD])

lemma split_unfold:
  assumes "find_index (\<lambda>c. layoutContainsTerminalId c t) cs = Some k"
    and "r = splitLayoutNode (cs ! k) t new pos sid" and "didSplit r"
    and "nw = normalizeSplitWeights (length cs) ws"
  shows "mergeIntoParent r \<Longrightarrow> dir = splitDirectionForPosition pos \<Longrightarrow>
      srNode (splitLayoutNode (Split i dir cs ws) t new pos sid) =
        Split i dir (splice_one k (children (srNode r)) cs)
          (splice_one k (splitWeightEvenly (Some (nullish (list_get nw k) (Num 1)))
             (length (children (srNode r)))) nw)"
    and "\<not> (mergeIntoParent r \<and> dir = splitDirectionForPosition pos) \<Longrightarrow>
      srNode (splitLayoutNode (Split i dir cs ws) t new pos sid) = Split i dir (cs[k := srNode r]) nw"
proof -
  assume m: "mergeIntoParent r" and dir: "dir = splitDirectionForPosition pos"
  from m obtain a b u where "srNode r = Split sid (splitDirectionForPosition pos) [a, b] u"
    unfolding assms(2) by (rule split_merge_leaf) (cases "shouldInsertBefore pos"; simp)
  then have "isTerminalSplitNode (srNode r)" "direction (srNode r) = splitDirectionForPosition pos"
    by simp_all
  then show "srNode (splitLayoutNode (Split i dir cs ws) t new pos sid) =
        Split i dir (splice_one k (children (srNode r)) cs)
          (splice_one k (splitWeightEvenly (Some (nullish (list_get nw k) (Num 1)))
             (length (children (srNode r)))) nw)"
    using m dir assms unfolding splitLayoutNode.simps Let_def by simp
next
  assume "\<not> (mergeIntoParent r \<and> dir = splitDirectionForPosition pos)"
  then show "srNode (splitLayoutNode (Split i dir cs ws) t new pos sid) = Split i dir (cs[k := srNode r]) nw"
    using assms unfolding splitLayoutNode.simps Let_def by auto
qed

text \<open>Splitting a well-formed layout at one of its terminals.\<close>

lemma split_wf_inserted:
  assumes new: "trimmed new"
  shows "wf_layout n \<Longrightarrow> t \<in> set (leaf_ids n) \<Longrightarrow>
    wf_layout (srNode (splitLayoutNode n t new pos sid)) \<and>
    inserted_beside pos t new (leaf_ids n) (leaf_ids (srNode (splitLayoutNode n t new pos sid)))"
proof (induction n)
  case (Leaf l)
  then show ?case
    using new inserted_beside_leaf [of t "leafTerminalIds l" pos new]
    by (cases "shouldInsertBefore pos") simp_all
next
  case (Split i dir cs ws)
  have contains: "layoutContainsTerminalId c t \<longleftrightarrow> t \<in> set (leaf_ids c)" if "c \<in> set cs" for c
    using that Split.prems by (simp add: list_all_iff contains_iff)
  then obtain k where k: "find_index (\<lambda>c. layoutContainsTerminalId c t) cs = Some k"
    using Split.prems find_index_None_iff [of "\<lambda>c. layoutContainsTerminalId c t" cs]
    by (cases "find_index (\<lambda>c. layoutContainsTerminalId c t) cs") auto
  define r where "r = splitLayoutNode (cs ! k) t new pos sid"
  define nw where "nw = normalizeSplitWeights (length cs) ws"
  have kl: "k < length cs" using find_index_SomeD [OF k] by blast
  have mem: "cs ! k \<in> set cs" using kl by simp
  then have wfk: "wf_layout (cs ! k)" and tk: "t \<in> set (leaf_ids (cs ! k))"
    using Split.prems(1) find_index_SomeD [OF k] contains by (auto simp: list_all_iff)
  from Split.IH [OF mem wfk tk]
  have IH: "wf_layout (srNode r)"
    "inserted_beside pos t new (leaf_ids (cs ! k)) (leaf_ids (srNode r))"
    by (simp_all add: r_def)
  have did: "didSplit r" using wfk tk by (simp add: r_def split_did)
  have nw: "length nw = length cs" "list_all pos_weight nw"
    using kl normalizeSplitWeights_props [of "length cs" ws] by (cases cs; simp add: nw_def)+
  have cs: "concat (map leaf_ids cs) =
      concat (map leaf_ids (take k cs)) @ leaf_ids (cs ! k) @ concat (map leaf_ids (drop (Suc k) cs))"
    by (subst id_take_nth_drop [OF kl]) simp
  note unfold = split_unfold [OF k r_def did nw_def]
  show ?case
  proof (cases "mergeIntoParent r \<and> dir = splitDirectionForPosition pos")
    case True
    from True obtain l where r: "cs ! k = Leaf l" "srNode r =
      Split sid (splitDirectionForPosition pos)
        (if shouldInsertBefore pos then [createTerminalLeaf new, Leaf l]
         else [Leaf l, createTerminalLeaf new]) [Num 1, Num 1]"
      unfolding r_def by (elim conjE split_merge_leaf)
    then have two: "length (children (srNode r)) = 2" "list_all wf_layout (children (srNode r))"
      and ids: "concat (map leaf_ids (children (srNode r))) = leaf_ids (srNode r)"
      using wfk new by auto
    have sr: "srNode (splitLayoutNode (Split i dir cs ws) t new pos sid) =
        Split i dir (splice_one k (children (srNode r)) cs)
          (splice_one k (splitWeightEvenly (Some (nullish (list_get nw k) (Num 1)))
             (length (children (srNode r)))) nw)"
      using unfold(1) True by blast
    have "wf_layout (srNode (splitLayoutNode (Split i dir cs ws) t new pos sid))"
      unfolding sr using Split.prems(1) nw two kl
      by (simp add: splice_one_props splitWeightEvenly_props)
    moreover have "leaf_ids (srNode (splitLayoutNode (Split i dir cs ws) t new pos sid)) =
        concat (map leaf_ids (take k cs)) @ leaf_ids (srNode r) @ concat (map leaf_ids (drop (Suc k) cs))"
      unfolding sr by (simp add: splice_one_def ids)
    ultimately show ?thesis
      using inserted_beside_context [OF IH(2)] cs by (simp only: leaf_ids.simps)
  next
    case False
    note sr = unfold(2) [OF False]
    have "wf_layout (srNode (splitLayoutNode (Split i dir cs ws) t new pos sid))"
      unfolding sr using Split.prems(1) nw IH(1) by (simp add: list_all_update)
    moreover have "leaf_ids (srNode (splitLayoutNode (Split i dir cs ws) t new pos sid)) =
        concat (map leaf_ids (take k cs)) @ leaf_ids (srNode r) @ concat (map leaf_ids (drop (Suc k) cs))"
      unfolding sr using kl by (simp add: upd_conv_take_nth_drop)
    ultimately show ?thesis
      using inserted_beside_context [OF IH(2)] cs by (simp only: leaf_ids.simps)
  qed
qed

lemma split_flat:
  "flat_layout n \<Longrightarrow> wf_layout n \<Longrightarrow> t \<in> set (leaf_ids n) \<Longrightarrow>
     flat_layout (srNode (splitLayoutNode n t new pos sid))"
proof (induction n)
  case (Split i dir cs ws)
  have contains: "layoutContainsTerminalId c t \<longleftrightarrow> t \<in> set (leaf_ids c)" if "c \<in> set cs" for c
    using that Split.prems by (simp add: list_all_iff contains_iff)
  then obtain k where k: "find_index (\<lambda>c. layoutContainsTerminalId c t) cs = Some k"
    using Split.prems find_index_None_iff [of "\<lambda>c. layoutContainsTerminalId c t" cs]
    by (cases "find_index (\<lambda>c. layoutContainsTerminalId c t) cs") auto
  define r where "r = splitLayoutNode (cs ! k) t new pos sid"
  have mem: "cs ! k \<in> set cs" using k by (rule find_index_nth_mem)
  then have ck: "flat_layout (cs ! k)" "\<not> splits_along dir (cs ! k)" "wf_layout (cs ! k)"
    "t \<in> set (leaf_ids (cs ! k))"
    using Split.prems find_index_SomeD [OF k] contains by (auto simp: list_all_iff)
  then have IH: "flat_layout (srNode r)" and did: "didSplit r"
    using Split.IH [OF mem] by (simp_all add: r_def split_did)
  note unfold = split_unfold [OF k r_def did refl]
  show ?case
  proof (cases "mergeIntoParent r \<and> dir = splitDirectionForPosition pos")
    case True
    then obtain l where "srNode r = Split sid (splitDirectionForPosition pos)
        (if shouldInsertBefore pos then [createTerminalLeaf new, Leaf l]
         else [Leaf l, createTerminalLeaf new]) [Num 1, Num 1]"
      unfolding r_def by (elim conjE split_merge_leaf)
    then have "list_all (\<lambda>c. flat_layout c \<and> \<not> splits_along dir c) (children (srNode r))" by simp
    moreover have "srNode (splitLayoutNode (Split i dir cs ws) t new pos sid) =
        Split i dir (splice_one k (children (srNode r)) cs)
          (splice_one k (splitWeightEvenly (Some (nullish (list_get
             (normalizeSplitWeights (length cs) ws) k) (Num 1)))
             (length (children (srNode r)))) (normalizeSplitWeights (length cs) ws))"
      using unfold(1) True by blast
    ultimately show ?thesis using Split.prems(1) by (simp add: splice_one_props)
  next
    case False
    have "\<not> splits_along dir (srNode r)"
    proof (cases "cs ! k")
      case (Leaf l)
      then have "mergeIntoParent r" using ck(4) by (simp add: r_def)
      with False have "dir \<noteq> splitDirectionForPosition pos" by simp
      with Leaf ck(4) show ?thesis by (simp add: r_def)
    next
      case (Split i' d' cs' ws')
      with ck(2) show ?thesis by (simp only: r_def split_shape splits_along.simps not_False_eq_True)
    qed
    then show ?thesis
      unfolding unfold(2) [OF False] using IH Split.prems(1) by (simp add: list_all_update)
  qed
qed simp

lemma split_untouched: "wf_layout n \<Longrightarrow> t \<notin> set (leaf_ids n) \<Longrightarrow> \<not> didSplit (splitLayoutNode n t new pos sid)"
  by (simp add: split_did)

subsection \<open>Removing keeps the other terminals in order\<close>

lemma remove_leaf:
  assumes "wf_leaf l" "t \<in> set (leafTerminalIds l)" "filter (\<lambda>x. x \<noteq> t) (leafTerminalIds l) \<noteq> []"
  obtains l' where "removeTerminalFromLayoutNode (Leaf l) t = (Some (Leaf l'), True)"
    and "wf_leaf l'" and "leafTerminalIds l' = filter (\<lambda>x. x \<noteq> t) (leafTerminalIds l)"
proof -
  define ids where "ids = filter (\<lambda>x. x \<noteq> t) (leafTerminalIds l)"
  define act where "act = (if leafActiveTerminalId l \<in> set ids then leafActiveTerminalId l
     else nullish (orelse (list_get ids (min (nullish (index_of (leafTerminalIds l) t) 0) (length ids - 1)))
            (list_get ids 0)) DEFAULT_THREAD_TERMINAL_ID)"
  have ne: "ids \<noteq> []" using assms by (simp add: ids_def)
  have "min (nullish (index_of (leafTerminalIds l) t) 0) (length ids - 1) < length ids"
    using ne by (simp add: min_less_iff_disj)
  then have act: "act \<in> set ids" by (auto simp: act_def list_get_def)
  have wf: "wf_leaf (l\<lparr>leafTerminalIds := ids, leafActiveTerminalId := act\<rparr>)"
    using assms(1) ne act by (auto simp: wf_leaf_def wf_ids_def ids_def list_all_iff)
  show ?thesis
  proof (rule that)
    show "removeTerminalFromLayoutNode (Leaf l) t =
        (Some (Leaf (l\<lparr>leafTerminalIds := ids, leafActiveTerminalId := act\<rparr>)), True)"
      using assms(2) ne by (simp add: ids_def act_def Let_def)
    show "wf_leaf (l\<lparr>leafTerminalIds := ids, leafActiveTerminalId := act\<rparr>)" by (rule wf)
  qed (simp add: ids_def)
qed

text \<open>The surviving children with their weights, as the loop pushes them.\<close>

definition kept_children :: "layout_node list \<Rightarrow> string \<Rightarrow> jsnum list \<Rightarrow> (layout_node \<times> jsnum) list" where
  "kept_children cs t ws' =
     concat (map (\<lambda>index. case fst (removeTerminalFromLayoutNode (cs ! index) t) of
        None \<Rightarrow> [] | Some n \<Rightarrow> [(n, nullish (list_get ws' index) (Num 1))]) [0..<length cs])"

lemma kept_children_fst:
  "map fst (kept_children cs t ws') = cat_options (map (\<lambda>c. fst (removeTerminalFromLayoutNode c t)) cs)"
proof -
  have "map fst (kept_children cs t ws') =
      concat (map (\<lambda>i. (\<lambda>c. case fst (removeTerminalFromLayoutNode c t) of None \<Rightarrow> [] | Some n \<Rightarrow> [n])
         (cs ! i)) [0..<length cs])"
    unfolding kept_children_def map_concat map_map
    by (intro arg_cong [where f = concat] map_cong) (auto split: option.splits)
  also have "\<dots> = concat (map (\<lambda>c. case fst (removeTerminalFromLayoutNode c t) of None \<Rightarrow> [] | Some n \<Rightarrow> [n]) cs)"
    by (rule arg_cong [where f = concat], rule map_nth_upt)
  finally show ?thesis by (simp add: cat_options_def comp_def)
qed

lemma remove_split_unfold:
  "removeTerminalFromLayoutNode (Split i dir cs ws) t =
     (let kept = kept_children cs t (normalizeSplitWeights (length cs) ws);
          ns = map fst kept
      in if \<not> list_ex (\<lambda>c. snd (removeTerminalFromLayoutNode c t)) cs then (Some (Split i dir cs ws), False)
         else if ns = [] then (None, True)
         else if length ns = 1 then (list_get ns 0, True)
         else (Some (Split i dir ns (normalizeSplitWeights (length ns) (map snd kept))), True))"
proof -
  have "concat (map (\<lambda>index. case fst (map (\<lambda>child. removeTerminalFromLayoutNode child t) cs ! index) of
        None \<Rightarrow> []
      | Some n \<Rightarrow> [(n, nullish (list_get (normalizeSplitWeights (length cs) ws) index) (Num 1))])
      [0..<length cs]) = kept_children cs t (normalizeSplitWeights (length cs) ws)"
    unfolding kept_children_def by (intro arg_cong [where f = concat] map_cong) simp_all
  then show ?thesis
    by (simp only: removeTerminalFromLayoutNode.simps Let_def length_0_conv list_ex_map_conv)
qed

lemma remove_props:
  "wf_layout n \<Longrightarrow>
     (snd (removeTerminalFromLayoutNode n t) \<longleftrightarrow> t \<in> set (leaf_ids n)) \<and>
     (case fst (removeTerminalFromLayoutNode n t) of
        None \<Rightarrow> filter (\<lambda>x. x \<noteq> t) (leaf_ids n) = []
      | Some n' \<Rightarrow> wf_layout n' \<and> leaf_ids n' = filter (\<lambda>x. x \<noteq> t) (leaf_ids n))"
proof (induction n)
  case (Leaf l)
  show ?case
  proof (cases "t \<in> set (leafTerminalIds l) \<and> filter (\<lambda>x. x \<noteq> t) (leafTerminalIds l) \<noteq> []")
    case True
    moreover have "wf_leaf l" using Leaf by simp
    ultimately obtain l' where "removeTerminalFromLayoutNode (Leaf l) t = (Some (Leaf l'), True)"
      "wf_leaf l'" "leafTerminalIds l' = filter (\<lambda>x. x \<noteq> t) (leafTerminalIds l)"
      by (blast elim: remove_leaf)
    with True show ?thesis by (simp del: removeTerminalFromLayoutNode.simps)
  next
    case False
    show ?thesis
    proof (cases "t \<in> set (leafTerminalIds l)")
      case True
      with False show ?thesis by simp
    next
      case nt: False
      then have "filter (\<lambda>x. x \<noteq> t) (leafTerminalIds l) = leafTerminalIds l"
        by (intro filter_True) blast
      with nt Leaf show ?thesis by simp
    qed
  qed
next
  case (Split i d cs ws)
  define kept where "kept = kept_children cs t (normalizeSplitWeights (length cs) ws)"
  define ns where "ns = map fst kept"
  have IH: "snd (removeTerminalFromLayoutNode c t) \<longleftrightarrow> t \<in> set (leaf_ids c)"
      "case fst (removeTerminalFromLayoutNode c t) of
        None \<Rightarrow> filter (\<lambda>x. x \<noteq> t) (leaf_ids c) = []
      | Some n' \<Rightarrow> wf_layout n' \<and> leaf_ids n' = filter (\<lambda>x. x \<noteq> t) (leaf_ids c)" if "c \<in> set cs" for c
    using Split that by (simp_all add: list_all_iff)
  have ns: "ns = cat_options (map (\<lambda>c. fst (removeTerminalFromLayoutNode c t)) cs)"
    by (simp add: ns_def kept_def kept_children_fst)
  have ids: "concat (map leaf_ids ns) = filter (\<lambda>x. x \<noteq> t) (leaf_ids (Split i d cs ws))"
    unfolding ns leaf_ids.simps
  proof (rule cat_options_filter, rule ballI)
    fix c assume "c \<in> set cs"
    from IH(2) [OF this] show "case fst (removeTerminalFromLayoutNode c t) of
        None \<Rightarrow> filter (\<lambda>x. x \<noteq> t) (leaf_ids c) = []
      | Some n \<Rightarrow> leaf_ids n = filter (\<lambda>x. x \<noteq> t) (leaf_ids c)"
      by (auto split: option.splits)
  qed
  have wf: "list_all wf_layout ns"
  proof -
    have "wf_layout n" if "n \<in> set ns" for n
    proof -
      from that obtain c where "c \<in> set cs" "fst (removeTerminalFromLayoutNode c t) = Some n"
        by (auto simp: ns set_cat_options)
      with IH(2) [of c] show ?thesis by simp
    qed
    then show ?thesis by (simp add: list_all_iff)
  qed
  have removed: "list_ex (\<lambda>c. snd (removeTerminalFromLayoutNode c t)) cs \<longleftrightarrow>
      t \<in> set (leaf_ids (Split i d cs ws))"
    using IH(1) by (auto simp: list_ex_iff)
  show ?case
  proof (cases "t \<in> set (leaf_ids (Split i d cs ws))")
    case False
    then have "filter (\<lambda>x. x \<noteq> t) (leaf_ids (Split i d cs ws)) = leaf_ids (Split i d cs ws)"
      by (intro filter_True) blast
    with False removed Split.prems show ?thesis
      by (simp add: remove_split_unfold del: removeTerminalFromLayoutNode.simps leaf_ids.simps)
  next
    case True
    have result: "removeTerminalFromLayoutNode (Split i d cs ws) t =
        (if ns = [] then (None, True) else if length ns = 1 then (list_get ns 0, True)
         else (Some (Split i d ns (normalizeSplitWeights (length ns) (map snd kept))), True))"
      unfolding remove_split_unfold Let_def using removed True
      by (simp only: kept_def [symmetric] ns_def [symmetric] not_not simp_thms if_False)
    consider "ns = []" | n where "ns = [n]" | "length ns \<ge> 2"
      by (cases ns rule: remdups_adj.cases) auto
    then show ?thesis
    proof cases
      case 1
      then show ?thesis using True ids unfolding result by simp
    next
      case (2 n)
      then show ?thesis using True ids wf unfolding result by (simp add: list_get_def)
    next
      case 3
      then have "ns \<noteq> []" "length ns \<noteq> 1" by auto
      moreover have "length (normalizeSplitWeights (length ns) (map snd kept)) = length ns"
        using 3 by (intro normalizeSplitWeights_props) linarith
      ultimately show ?thesis using 3 wf ids True
        unfolding result by (simp add: normalizeSplitWeights_props)
    qed
  qed
qed

interpretation term_panes: pane_tree wf_layout leaf_ids "\<lambda>n t. fst (removeTerminalFromLayoutNode n t)"
proof unfold_locales
  fix n t n'
  assume n: "wf_layout n"
  show "fst (removeTerminalFromLayoutNode n t) = None \<Longrightarrow> filter (\<lambda>x. x \<noteq> t) (leaf_ids n) = []"
    using remove_props [OF n, of t] by simp
  show "fst (removeTerminalFromLayoutNode n t) = Some n' \<Longrightarrow>
      wf_layout n' \<and> leaf_ids n' = filter (\<lambda>x. x \<noteq> t) (leaf_ids n)"
    using remove_props [OF n, of t] by simp
  show "leaf_ids n \<noteq> []" using n by (rule leaf_ids_nonempty)
qed

subsection \<open>Tab updates, resizing and equalizing\<close>

lemma update_did: "wf_layout n \<Longrightarrow> snd (updateLeafNode n t f) \<longleftrightarrow> t \<in> set (leaf_ids n)"
  by (induction n) (auto simp: Let_def list_ex_iff list_all_iff)

lemma update_untouched: "\<not> snd (updateLeafNode n t f) \<Longrightarrow> fst (updateLeafNode n t f) = n"
  by (cases n) (auto simp: Let_def)

lemma update_fst_split:
  "wf_layout (Split i d cs ws) \<Longrightarrow>
     fst (updateLeafNode (Split i d cs ws) t f) = Split i d (map (\<lambda>c. fst (updateLeafNode c t f)) cs) ws"
proof -
  assume "wf_layout (Split i d cs ws)"
  have "map (\<lambda>c. fst (updateLeafNode c t f)) cs = cs" if "\<not> list_ex (\<lambda>c. snd (updateLeafNode c t f)) cs"
    using that update_untouched by (induction cs) auto
  then show ?thesis by (auto simp: Let_def list_ex_map_conv comp_def)
qed

text \<open>An updater that maps the leaf of \<open>t\<close> to a well-formed leaf keeps the layout well formed.\<close>

lemma update_wf:
  assumes f: "\<And>l. wf_leaf l \<Longrightarrow> t \<in> set (leafTerminalIds l) \<Longrightarrow> set (leafTerminalIds l) \<subseteq> A \<Longrightarrow>
      \<exists>l'. f l = Leaf l' \<and> wf_leaf l'"
  shows "wf_layout n \<Longrightarrow> set (leaf_ids n) \<subseteq> A \<Longrightarrow>
    wf_layout (fst (updateLeafNode n t f)) \<and> (flat_layout n \<longrightarrow> flat_layout (fst (updateLeafNode n t f))) \<and>
    (splits_along d (fst (updateLeafNode n t f)) \<longleftrightarrow> splits_along d n)"
proof (induction n arbitrary: d)
  case (Leaf l)
  with f [of l] show ?case by auto
next
  case (Split i d' cs ws)
  have IH: "wf_layout (fst (updateLeafNode c t f)) \<and>
      (flat_layout c \<longrightarrow> flat_layout (fst (updateLeafNode c t f))) \<and>
      (splits_along d (fst (updateLeafNode c t f)) \<longleftrightarrow> splits_along d c)" if "c \<in> set cs" for c d
    using Split that by (auto simp: list_all_iff)
  show ?case
    unfolding update_fst_split [OF Split.prems(1)] using IH Split.prems(1)
    by (auto simp: list_all_iff)
qed

lemma update_ids:
  assumes f: "\<And>l. wf_leaf l \<Longrightarrow> t \<in> set (leafTerminalIds l) \<Longrightarrow> leaf_ids (f l) = g (leafTerminalIds l)"
    and g: "\<And>xs. t \<in> set xs \<Longrightarrow> P xs (g xs)"
  shows "wf_layout n \<Longrightarrow> distinct (leaf_ids n) \<Longrightarrow> t \<in> set (leaf_ids n) \<Longrightarrow>
    \<exists>pre pane post. leaf_ids n = pre @ pane @ post \<and> t \<in> set pane \<and>
      leaf_ids (fst (updateLeafNode n t f)) = pre @ g pane @ post"
proof (induction n)
  case (Leaf l)
  then show ?case
    using f [of l] by (intro exI [of _ "[]"] exI [of _ "leafTerminalIds l"]) simp
next
  case (Split i d cs ws)
  from Split.prems(3) obtain c where c: "c \<in> set cs" "t \<in> set (leaf_ids c)" by auto
  then obtain xs ys where cs: "cs = xs @ c # ys" by (meson split_list)
  have other: "fst (updateLeafNode c' t f) = c'" if "c' \<in> set xs \<union> set ys" for c'
  proof -
    have "wf_layout c'" using that Split.prems(1) cs by (auto simp: list_all_iff)
    moreover have "t \<notin> set (leaf_ids c')"
      using that Split.prems(2) c(2) unfolding cs by auto
    ultimately show ?thesis by (intro update_untouched) (simp add: update_did)
  qed
  have map: "map (\<lambda>c. fst (updateLeafNode c t f)) cs = xs @ fst (updateLeafNode c t f) # ys"
    unfolding cs using other by (simp add: map_idI)
  have "wf_layout c" "distinct (leaf_ids c)"
    using Split.prems c by (auto simp: cs list_all_iff)
  from Split.IH [OF c(1) this c(2)] obtain pre pane post where
    pp: "leaf_ids c = pre @ pane @ post" "t \<in> set pane"
      "leaf_ids (fst (updateLeafNode c t f)) = pre @ g pane @ post" by blast
  show ?case
    unfolding update_fst_split [OF Split.prems(1)] map leaf_ids.simps using pp
    by (intro exI [of _ "concat (map leaf_ids xs) @ pre"] exI [of _ pane]
        exI [of _ "post @ concat (map leaf_ids ys)"]) (simp add: cs)
qed

lemma update_same_ids:
  assumes f: "\<And>l. wf_leaf l \<Longrightarrow> t \<in> set (leafTerminalIds l) \<Longrightarrow> leaf_ids (f l) = leafTerminalIds l"
  shows "wf_layout n \<Longrightarrow> leaf_ids (fst (updateLeafNode n t f)) = leaf_ids n"
proof (induction n)
  case (Split i d cs ws)
  then have "concat (map (\<lambda>c. leaf_ids (fst (updateLeafNode c t f))) cs) = concat (map leaf_ids cs)"
    by (intro concat_map_cong) (simp add: list_all_iff)
  then show ?case
    unfolding update_fst_split [OF Split.prems] by (simp add: comp_def)
qed (simp add: f)

lemma resize_props:
  "wf_layout n \<Longrightarrow>
     wf_layout (fst (resizeSplitNode n s w)) \<and> leaf_ids (fst (resizeSplitNode n s w)) = leaf_ids n \<and>
     (flat_layout n \<longrightarrow> flat_layout (fst (resizeSplitNode n s w))) \<and>
     (splits_along d (fst (resizeSplitNode n s w)) \<longleftrightarrow> splits_along d n)"
proof (induction n arbitrary: d)
  case (Split i d' cs ws)
  have IH: "wf_layout (fst (resizeSplitNode c s w)) \<and> leaf_ids (fst (resizeSplitNode c s w)) = leaf_ids c \<and>
     (flat_layout c \<longrightarrow> flat_layout (fst (resizeSplitNode c s w))) \<and>
     (splits_along d (fst (resizeSplitNode c s w)) \<longleftrightarrow> splits_along d c)" if "c \<in> set cs" for c d
    using Split that by (simp add: list_all_iff)
  then have ids: "concat (map (\<lambda>c. leaf_ids (fst (resizeSplitNode c s w))) cs) = concat (map leaf_ids cs)"
    by (intro concat_map_cong) simp
  have "length (normalizeSplitWeights (length cs) w) = length cs"
    using Split.prems by (intro normalizeSplitWeights_props) auto
  then show ?case
    using IH Split.prems ids
    by (auto simp: Let_def list_all_iff normalizeSplitWeights_props [unfolded list_all_iff] comp_def)
qed simp

lemma equalize_props:
  "wf_layout n \<Longrightarrow>
     wf_layout (equalizeLayoutNode n) \<and> leaf_ids (equalizeLayoutNode n) = leaf_ids n \<and>
     (flat_layout n \<longrightarrow> flat_layout (equalizeLayoutNode n)) \<and>
     (splits_along d (equalizeLayoutNode n) \<longleftrightarrow> splits_along d n)"
proof (induction n arbitrary: d)
  case (Split i d' cs ws)
  then have "concat (map (leaf_ids \<circ> equalizeLayoutNode) cs) = concat (map leaf_ids cs)"
    by (intro concat_map_cong) (simp add: list_all_iff)
  then show ?case using Split by (auto simp: list_all_iff)
qed simp

section \<open>Groups\<close>

abbreviation group_ids :: "terminal_group \<Rightarrow> string list" where
  "group_ids g \<equiv> leaf_ids (layout g)"

definition wf_group :: "terminal_group \<Rightarrow> bool" where
  "wf_group g \<longleftrightarrow> wf_layout (layout g) \<and> groupActiveTerminalId g \<in> set (group_ids g) \<and>
     trimmed (groupId g)"

abbreviation flat_group :: "terminal_group \<Rightarrow> bool" where
  "flat_group g \<equiv> flat_layout (layout g)"

lemma wf_group_collect [simp]: "wf_group g \<Longrightarrow> collectTerminalIdsFromLayout (layout g) = group_ids g"
  by (simp add: wf_group_def collect_leaf_ids)

lemma wf_group_nonempty: "wf_group g \<Longrightarrow> group_ids g \<noteq> []"
  by (simp add: wf_group_def leaf_ids_nonempty)

lemma trimmed_group_prefix: "trimmed t \<Longrightarrow> trimmed (''group-'' @ t)"
  by (simp add: is_space_def)

lemma normalize_group_wf:
  assumes "normalizeTerminalPaneGroup r v = Some g"
  shows "wf_group g \<and> flat_group g \<and> set (group_ids g) \<subseteq> set v"
proof -
  from assms obtain n l where n: "sanitizeLayoutNode n v = Some l" and
    g: "g = (let ids = collectTerminalIdsFromLayout l;
                 act = (if js_trim (rawActiveTerminalId r) \<in> set ids then js_trim (rawActiveTerminalId r)
                        else nullish (list_get ids 0) DEFAULT_THREAD_TERMINAL_ID)
             in \<lparr>groupId = str_or (js_trim (rawGroupId r)) (''group-'' @ act),
                 groupActiveTerminalId = act, layout = l\<rparr>)"
    by (auto simp: normalizeTerminalPaneGroup_def Let_def split: option.splits)
  note l = sanitize_wf [OF n]
  then have ids: "collectTerminalIdsFromLayout l = leaf_ids l" "leaf_ids l \<noteq> []"
    by (simp_all add: collect_leaf_ids leaf_ids_nonempty)
  then have act: "groupActiveTerminalId g \<in> set (leaf_ids l)"
    by (auto simp: g Let_def list_get_def)
  then have "trimmed (''group-'' @ groupActiveTerminalId g)"
    using l leaf_ids_trimmed trimmed_group_prefix by blast
  then have "trimmed (groupId g)"
    by (auto simp: g Let_def str_or_def js_trim_empty_iff)
  with act l show ?thesis by (simp add: wf_group_def g Let_def)
qed

lemma normalize_wf_group:
  assumes "wf_group g"
  shows "case normalizeTerminalPaneGroup (raw_group g) v of
      None \<Rightarrow> filter (\<lambda>t. t \<in> set v) (group_ids g) = []
    | Some g' \<Rightarrow> group_ids g' = filter (\<lambda>t. t \<in> set v) (group_ids g) \<and> groupId g' = groupId g \<and>
        (groupActiveTerminalId g \<in> set v \<longrightarrow> groupActiveTerminalId g' = groupActiveTerminalId g)"
proof -
  have wf: "wf_layout (layout g)" and act: "groupActiveTerminalId g \<in> set (group_ids g)"
    and gid: "js_trim (groupId g) = groupId g" "groupId g \<noteq> []"
    using assms by (auto simp: wf_group_def js_trim_id trimmed_def)
  have tact: "js_trim (groupActiveTerminalId g) = groupActiveTerminalId g"
    using leaf_ids_trimmed [OF wf act] by (rule js_trim_id)
  show ?thesis
  proof (cases "sanitizeLayoutNode (layout g) v")
    case None
    then show ?thesis using sanitize_ids [OF wf, of v]
      by (simp add: normalizeTerminalPaneGroup_def raw_group_def)
  next
    case (Some l)
    then have "leaf_ids l = filter (\<lambda>t. t \<in> set v) (group_ids g)"
      using sanitize_ids [OF wf, of v] by simp
    moreover have "collectTerminalIdsFromLayout l = leaf_ids l"
      using sanitize_wf [OF Some] by (simp add: collect_leaf_ids)
    ultimately show ?thesis
      using Some act gid tact by (simp add: normalizeTerminalPaneGroup_def raw_group_def Let_def)
  qed
qed

lemma normalize_group_fixpoint:
  assumes "wf_group g" "flat_group g" "set (group_ids g) \<subseteq> set v"
  shows "normalizeTerminalPaneGroup (raw_group g) v = Some g"
proof -
  have l: "sanitizeLayoutNode (layout g) v = Some (layout g)"
    using assms by (intro sanitize_fixpoint) (auto simp: wf_group_def)
  have act: "js_trim (groupActiveTerminalId g) = groupActiveTerminalId g"
    using assms(1) by (auto simp: wf_group_def intro: js_trim_id leaf_ids_trimmed)
  have "js_trim (groupId g) = groupId g" "groupId g \<noteq> []"
    using assms(1) by (auto simp: wf_group_def js_trim_id trimmed_def)
  with l act assms(1) show ?thesis
    by (cases g) (auto simp: normalizeTerminalPaneGroup_def raw_group_def Let_def wf_group_def collect_leaf_ids)
qed

lemma createTerminalGroup_props [simp]:
  "wf_group (createTerminalGroup gid t) \<longleftrightarrow> trimmed t \<and> trimmed gid"
  "flat_group (createTerminalGroup gid t)"
  "group_ids (createTerminalGroup gid t) = [t]"
  "groupId (createTerminalGroup gid t) = gid"
  "groupActiveTerminalId (createTerminalGroup gid t) = t"
  by (auto simp: createTerminalGroup_def wf_group_def)

lemma split_group_props:
  assumes "wf_group g" "t \<in> set (group_ids g)" "trimmed new"
  shows "wf_group (splitTerminalGroupLayout g t new pos sid)"
    and "inserted_beside pos t new (group_ids g) (group_ids (splitTerminalGroupLayout g t new pos sid))"
    and "groupActiveTerminalId (splitTerminalGroupLayout g t new pos sid) = new"
    and "groupId (splitTerminalGroupLayout g t new pos sid) = groupId g"
    and "flat_group g \<Longrightarrow> flat_group (splitTerminalGroupLayout g t new pos sid)"
proof -
  have wf: "wf_layout (layout g)" using assms(1) by (simp add: wf_group_def)
  have did: "didSplit (splitLayoutNode (layout g) t new pos sid)"
    using wf assms(2) by (simp add: split_did)
  note ins = split_wf_inserted [OF assms(3) wf assms(2), of pos sid]
  show "wf_group (splitTerminalGroupLayout g t new pos sid)"
    using did ins assms(1) inserted_beside_set [OF conjunct2 [OF ins]]
    by (simp add: splitTerminalGroupLayout_def wf_group_def)
  show "inserted_beside pos t new (group_ids g) (group_ids (splitTerminalGroupLayout g t new pos sid))"
    "groupActiveTerminalId (splitTerminalGroupLayout g t new pos sid) = new"
    "groupId (splitTerminalGroupLayout g t new pos sid) = groupId g"
    using did ins by (simp_all add: splitTerminalGroupLayout_def)
  show "flat_group (splitTerminalGroupLayout g t new pos sid)" if "flat_group g"
    using did split_flat [OF that wf assms(2)] by (simp add: splitTerminalGroupLayout_def)
qed

lemma split_group_untouched:
  "wf_group g \<Longrightarrow> t \<notin> set (group_ids g) \<Longrightarrow> splitTerminalGroupLayout g t new pos sid = g"
  by (simp add: splitTerminalGroupLayout_def wf_group_def split_untouched Let_def)

lemma findAdjacent_mem: "findAdjacentTerminalId n t = Some u \<Longrightarrow> wf_layout n \<Longrightarrow> distinct (leaf_ids n) \<Longrightarrow>
    u \<in> set (leaf_ids n) \<and> u \<noteq> t"
proof -
  assume a: "findAdjacentTerminalId n t = Some u" "wf_layout n" "distinct (leaf_ids n)"
  then obtain i where i: "index_of (leaf_ids n) t = Some i" and
    u: "(if i + 1 < length (leaf_ids n) then list_get (leaf_ids n) (i + 1)
         else if i \<ge> 1 then list_get (leaf_ids n) (i - 1) else None) = Some u"
    unfolding findAdjacentTerminalId_def collect_leaf_ids [OF a(2)] Let_def
    by (auto split: option.splits layout_node.splits)
  have it: "i < length (leaf_ids n)" "leaf_ids n ! i = t"
    using find_index_SomeD [OF i [unfolded index_of_def]] by auto
  from u obtain j where j: "j < length (leaf_ids n)" "u = leaf_ids n ! j" "j \<noteq> i"
    by (auto simp: list_get_def split: if_splits)
  with it a(3) show ?thesis by (auto simp: nth_eq_iff_index_eq)
qed

lemma remove_group_props:
  assumes "wf_group g"
  shows "removeTerminalFromGroupLayout g t = None \<longleftrightarrow> set (group_ids g) \<subseteq> {t}"
    and "removeTerminalFromGroupLayout g t = Some g' \<Longrightarrow> distinct (group_ids g) \<Longrightarrow> wf_group g'"
    and "removeTerminalFromGroupLayout g t = Some g' \<Longrightarrow>
      group_ids g' = filter (\<lambda>x. x \<noteq> t) (group_ids g) \<and> groupId g' = groupId g \<and>
      (groupActiveTerminalId g \<noteq> t \<longrightarrow> groupActiveTerminalId g' = groupActiveTerminalId g)"
proof -
  have wf: "wf_layout (layout g)" and act: "groupActiveTerminalId g \<in> set (group_ids g)"
    and gid: "trimmed (groupId g)"
    using assms by (auto simp: wf_group_def)
  note rem = remove_props [OF wf, of t]
  have iff: "fst (removeTerminalFromLayoutNode (layout g) t) = None \<longleftrightarrow> set (group_ids g) \<subseteq> {t}"
    using wf by (rule term_panes.remove_None_iff)
  show "removeTerminalFromGroupLayout g t = None \<longleftrightarrow> set (group_ids g) \<subseteq> {t}"
  proof (cases "t \<in> set (group_ids g)")
    case True
    with iff rem show ?thesis
      by (auto simp: removeTerminalFromGroupLayout_def Let_def split: option.splits)
  next
    case False
    with rem act show ?thesis
      by (auto simp: removeTerminalFromGroupLayout_def Let_def)
  qed
  assume some: "removeTerminalFromGroupLayout g t = Some g'"
  show "group_ids g' = filter (\<lambda>x. x \<noteq> t) (group_ids g) \<and> groupId g' = groupId g \<and>
      (groupActiveTerminalId g \<noteq> t \<longrightarrow> groupActiveTerminalId g' = groupActiveTerminalId g)"
  proof (cases "t \<in> set (group_ids g)")
    case True
    with some rem act show ?thesis
      by (auto simp: removeTerminalFromGroupLayout_def Let_def collect_leaf_ids split: option.splits if_splits)
  next
    case False
    then have "filter (\<lambda>x. x \<noteq> t) (group_ids g) = group_ids g" by (intro filter_True) auto
    with False some rem show ?thesis by (simp add: removeTerminalFromGroupLayout_def Let_def)
  qed
  assume dist: "distinct (group_ids g)"
  show "wf_group g'"
  proof (cases "t \<in> set (group_ids g)")
    case False
    with some rem assms show ?thesis by (simp add: removeTerminalFromGroupLayout_def Let_def)
  next
    case True
    with some rem obtain n where n: "fst (removeTerminalFromLayoutNode (layout g) t) = Some n"
      by (auto simp: removeTerminalFromGroupLayout_def Let_def split: option.splits)
    with rem have wfn: "wf_layout n" and ids: "leaf_ids n = filter (\<lambda>x. x \<noteq> t) (group_ids g)" by simp_all
    have adj: "u \<in> set (leaf_ids n)" if "findAdjacentTerminalId (layout g) t = Some u" for u
      using findAdjacent_mem [OF that wf dist] by (simp add: ids)
    have "list_get (leaf_ids n) 0 \<in> Some ` set (leaf_ids n)"
      using leaf_ids_nonempty [OF wfn] by (auto simp: list_get_def)
    then have "nullish (orelse (findAdjacentTerminalId (layout g) t) (list_get (leaf_ids n) 0))
        DEFAULT_THREAD_TERMINAL_ID \<in> set (leaf_ids n)"
      using adj by (cases "findAdjacentTerminalId (layout g) t") auto
    with some n rem True wfn gid show ?thesis
      by (auto simp: removeTerminalFromGroupLayout_def Let_def wf_group_def collect_leaf_ids)
  qed
qed

lemma addTab_group_props:
  assumes "wf_group g" "target \<in> set (group_ids g)" "trimmed new" "new \<notin> set (group_ids g)"
    and "distinct (group_ids g)"
  shows "wf_group (addTerminalTabToGroupLayout g target new)"
    and "inserted_beside Right target new (group_ids g) (group_ids (addTerminalTabToGroupLayout g target new))"
    and "groupActiveTerminalId (addTerminalTabToGroupLayout g target new) = new"
    and "groupId (addTerminalTabToGroupLayout g target new) = groupId g"
    and "flat_group g \<Longrightarrow> flat_group (addTerminalTabToGroupLayout g target new)"
proof -
  define f where "f l = Leaf (l\<lparr>leafTerminalIds := leafTerminalIds l @ [new],
      leafActiveTerminalId := new\<rparr>)" for l :: leaf_node
  have wf: "wf_layout (layout g)" using assms(1) by (simp add: wf_group_def)
  have eq: "addTerminalTabToGroupLayout g target new =
      g\<lparr>groupActiveTerminalId := new, layout := fst (updateLeafNode (layout g) target f)\<rparr>"
    using update_did [OF wf, of target f] assms(2)
    by (simp add: addTerminalTabToGroupLayout_def f_def [abs_def])
  have "\<exists>l'. f l = Leaf l' \<and> wf_leaf l'"
    if "wf_leaf l" "set (leafTerminalIds l) \<subseteq> set (group_ids g)" for l
    using that assms(3,4) by (auto simp: f_def wf_leaf_def wf_ids_def)
  then have upd: "wf_layout (fst (updateLeafNode (layout g) target f)) \<and>
      (flat_group g \<longrightarrow> flat_layout (fst (updateLeafNode (layout g) target f)))"
    using update_wf [where f = f and A = "set (group_ids g)", OF _ wf] by blast
  have "\<exists>pre pane post. group_ids g = pre @ pane @ post \<and> target \<in> set pane \<and>
      leaf_ids (fst (updateLeafNode (layout g) target f)) = pre @ (pane @ [new]) @ post"
    using update_ids [where f = f and g = "\<lambda>xs. xs @ [new]" and P = "\<lambda>_ _. True", OF _ _ wf assms(5,2)]
    by (simp add: f_def)
  then show ins: "inserted_beside Right target new (group_ids g)
      (group_ids (addTerminalTabToGroupLayout g target new))"
    by (simp add: eq inserted_beside_def shouldInsertBefore.simps)
  from inserted_beside_set [OF this] upd assms(1)
  show "wf_group (addTerminalTabToGroupLayout g target new)"
    by (simp add: eq wf_group_def)
  show "groupActiveTerminalId (addTerminalTabToGroupLayout g target new) = new"
    "groupId (addTerminalTabToGroupLayout g target new) = groupId g"
    "flat_group g \<Longrightarrow> flat_group (addTerminalTabToGroupLayout g target new)"
    using upd by (simp_all add: eq)
qed

lemma addTab_group_untouched:
  "wf_group g \<Longrightarrow> t \<notin> set (group_ids g) \<Longrightarrow> addTerminalTabToGroupLayout g t new = g"
  by (simp add: addTerminalTabToGroupLayout_def wf_group_def update_did Let_def)

lemma setActive_group_props:
  assumes "wf_group g"
  shows "wf_group (setActiveTerminalInGroupLayout g t)"
    and "group_ids (setActiveTerminalInGroupLayout g t) = group_ids g"
    and "groupId (setActiveTerminalInGroupLayout g t) = groupId g"
    and "flat_group g \<Longrightarrow> flat_group (setActiveTerminalInGroupLayout g t)"
    and "t \<in> set (group_ids g) \<Longrightarrow> groupActiveTerminalId (setActiveTerminalInGroupLayout g t) = t"
    and "t \<notin> set (group_ids g) \<Longrightarrow> setActiveTerminalInGroupLayout g t = g"
proof -
  define f where "f l = (if leafActiveTerminalId l = t then Leaf l
      else Leaf (l\<lparr>leafActiveTerminalId := t\<rparr>))" for l :: leaf_node
  have wf: "wf_layout (layout g)" using assms by (simp add: wf_group_def)
  have eq: "setActiveTerminalInGroupLayout g t =
      (if t \<in> set (group_ids g)
       then g\<lparr>groupActiveTerminalId := t, layout := fst (updateLeafNode (layout g) t f)\<rparr> else g)"
    using update_did [OF wf, of t f]
    by (cases g) (auto simp: setActiveTerminalInGroupLayout_def f_def [abs_def] Let_def)
  have f: "\<exists>l'. f l = Leaf l' \<and> wf_leaf l'" if "wf_leaf l" "t \<in> set (leafTerminalIds l)" for l
    using that by (auto simp: f_def wf_leaf_def)
  then have upd: "wf_layout (fst (updateLeafNode (layout g) t f)) \<and>
      (flat_group g \<longrightarrow> flat_layout (fst (updateLeafNode (layout g) t f)))"
    using update_wf [where f = f and A = UNIV, OF _ wf] by blast
  have "leaf_ids (f l) = leafTerminalIds l" for l by (simp add: f_def)
  then have ids: "leaf_ids (fst (updateLeafNode (layout g) t f)) = group_ids g"
    by (intro update_same_ids wf)
  show "wf_group (setActiveTerminalInGroupLayout g t)"
    "group_ids (setActiveTerminalInGroupLayout g t) = group_ids g"
    "groupId (setActiveTerminalInGroupLayout g t) = groupId g"
    "flat_group g \<Longrightarrow> flat_group (setActiveTerminalInGroupLayout g t)"
    "t \<in> set (group_ids g) \<Longrightarrow> groupActiveTerminalId (setActiveTerminalInGroupLayout g t) = t"
    "t \<notin> set (group_ids g) \<Longrightarrow> setActiveTerminalInGroupLayout g t = g"
    using upd ids assms by (simp_all add: eq wf_group_def)
qed

lemma resize_group_props:
  assumes "wf_group g"
  shows "wf_group (resizeTerminalGroupLayout g s w)"
    and "group_ids (resizeTerminalGroupLayout g s w) = group_ids g"
    and "groupId (resizeTerminalGroupLayout g s w) = groupId g"
    and "groupActiveTerminalId (resizeTerminalGroupLayout g s w) = groupActiveTerminalId g"
    and "flat_group g \<Longrightarrow> flat_group (resizeTerminalGroupLayout g s w)"
  using assms resize_props [of "layout g" s w]
  by (auto simp: resizeTerminalGroupLayout_def wf_group_def Let_def)

lemma equalize_group_props:
  assumes "wf_group g"
  shows "wf_group (equalizeTerminalGroupLayout g)"
    and "group_ids (equalizeTerminalGroupLayout g) = group_ids g"
  using assms equalize_props [of "layout g"]
  by (auto simp: equalizeTerminalGroupLayout_def wf_group_def)

end
