(* ===== verification/LayoutPresets.thy ===== *)
theory LayoutPresets
  imports PaneLayoutWf
begin

text \<open>
  Workspace layout presets: \<open>frontend/src/workspaceTerminalLayoutPresets.ts\<close>. Preset ids are
  strings, since the code accepts any string and falls back to the default preset. The id
  generator of \<open>ensureTerminalIdsForPreset\<close> (\<open>createTerminalId\<close>, a caller's callback) is a
  parameter: the sequence of strings it returns.
\<close>

section \<open>Preset catalogue\<close>

record preset_definition =
  presetId :: string
  presetTitle :: string
  presetDescription :: string
  slotCount :: nat

definition DEFAULT_WORKSPACE_LAYOUT_PRESET_ID :: string where
  "DEFAULT_WORKSPACE_LAYOUT_PRESET_ID = ''single''"

definition WORKSPACE_LAYOUT_PRESETS :: "preset_definition list" where
  "WORKSPACE_LAYOUT_PRESETS =
     [\<lparr>presetId = ''single'', presetTitle = ''Single'',
       presetDescription = ''One focused terminal.'', slotCount = 1\<rparr>,
      \<lparr>presetId = ''two-columns'', presetTitle = ''Two Columns'',
       presetDescription = ''Two terminals side by side.'', slotCount = 2\<rparr>,
      \<lparr>presetId = ''two-rows'', presetTitle = ''Two Rows'',
       presetDescription = ''Two terminals stacked vertically.'', slotCount = 2\<rparr>,
      \<lparr>presetId = ''top-main'', presetTitle = ''Top + Bottom'',
       presetDescription = ''One large terminal above two smaller panes.'', slotCount = 3\<rparr>,
      \<lparr>presetId = ''left-main'', presetTitle = ''Left + Stack'',
       presetDescription = ''One large pane on the left and two stacked on the right.'', slotCount = 3\<rparr>,
      \<lparr>presetId = ''quad'', presetTitle = ''Quad'',
       presetDescription = ''Four equally visible terminals.'', slotCount = 4\<rparr>]"

definition presetNormalizeTerminalIds :: "string list \<Rightarrow> string list" where
  "presetNormalizeTerminalIds terminalIds =
     (let ids = js_dedup (filter (\<lambda>t. t \<noteq> []) (map js_trim terminalIds))
      in if length ids > 0 then ids else [DEFAULT_THREAD_TERMINAL_ID])"

definition presetTerminalLeaf :: "string list \<Rightarrow> string \<Rightarrow> string \<Rightarrow> layout_node" where
  "presetTerminalLeaf terminalIds pid activeTerminalId =
     (let normalizedTerminalIds = presetNormalizeTerminalIds terminalIds;
          resolvedActiveTerminalId =
            (if activeTerminalId \<in> set normalizedTerminalIds then activeTerminalId
             else nullish (list_get normalizedTerminalIds 0) DEFAULT_THREAD_TERMINAL_ID)
      in Leaf \<lparr>paneId = pid, leafTerminalIds = normalizedTerminalIds,
               leafActiveTerminalId = resolvedActiveTerminalId, legacyTerminalId = []\<rparr>)"

definition createSplit :: "string \<Rightarrow> split_direction \<Rightarrow> layout_node list \<Rightarrow> layout_node" where
  "createSplit sid dir cs = Split sid dir cs (map (\<lambda>_. Num 1) cs)"

definition normalizePresetId :: "string \<Rightarrow> string" where
  "normalizePresetId pid =
     (case List.find (\<lambda>preset. presetId preset = pid) WORKSPACE_LAYOUT_PRESETS of
        Some preset \<Rightarrow> presetId preset
      | None \<Rightarrow> DEFAULT_WORKSPACE_LAYOUT_PRESET_ID)"

definition getWorkspaceLayoutPreset :: "string \<Rightarrow> preset_definition" where
  "getWorkspaceLayoutPreset pid =
     (case List.find (\<lambda>entry. presetId entry = normalizePresetId pid) WORKSPACE_LAYOUT_PRESETS of
        Some preset \<Rightarrow> preset
      | None \<Rightarrow> \<lparr>presetId = DEFAULT_WORKSPACE_LAYOUT_PRESET_ID, presetTitle = ''Single'',
          presetDescription = ''One focused terminal.'', slotCount = 1\<rparr>)"

definition getWorkspaceLayoutPresetSlotCount :: "string \<Rightarrow> nat" where
  "getWorkspaceLayoutPresetSlotCount pid = slotCount (getWorkspaceLayoutPreset pid)"

section \<open>Filling the slots of a preset\<close>

text \<open>
  The loop draws ids until there is one per slot, skipping blank and duplicate draws; it does not
  return when the generator has no fresh id left. \<open>k\<close> counts the draws.
\<close>

partial_function (option) ensure_slots ::
    "(nat \<Rightarrow> string) \<Rightarrow> nat \<Rightarrow> nat \<Rightarrow> string list \<Rightarrow> string list option" where
  "ensure_slots createTerminalId k requiredSlotCount nextTerminalIds =
     (if length nextTerminalIds < requiredSlotCount then
        (let nextTerminalId = js_trim (createTerminalId k)
         in if length nextTerminalId = 0 \<or> nextTerminalId \<in> set nextTerminalIds
            then ensure_slots createTerminalId (Suc k) requiredSlotCount nextTerminalIds
            else ensure_slots createTerminalId (Suc k) requiredSlotCount
                   (nextTerminalIds @ [nextTerminalId]))
      else Some nextTerminalIds)"

definition ensureTerminalIdsForPreset ::
    "string list \<Rightarrow> string \<Rightarrow> (nat \<Rightarrow> string) \<Rightarrow> string list option" where
  "ensureTerminalIdsForPreset terminalIds pid createTerminalId =
     ensure_slots createTerminalId 0 (getWorkspaceLayoutPresetSlotCount pid)
       (presetNormalizeTerminalIds terminalIds)"

definition distributeTerminalIdsAcrossSlots :: "string list \<Rightarrow> nat \<Rightarrow> string list list" where
  "distributeTerminalIdsAcrossSlots terminalIds slots =
     (let normalizedTerminalIds = presetNormalizeTerminalIds terminalIds;
          n = max 1 slots;
          nextSlots = foldl (\<lambda>acc index.
              let slotIndex = (if index < n then index else index mod n)
              in acc[slotIndex := acc ! slotIndex @ [normalizedTerminalIds ! index]])
            (replicate n []) [0..<length normalizedTerminalIds]
      in map (\<lambda>index. if length (nextSlots ! index) > 0 then nextSlots ! index
                      else [nullish (orelse (list_get normalizedTerminalIds index)
                                            (list_get normalizedTerminalIds 0))
                                    DEFAULT_THREAD_TERMINAL_ID])
           [0..<length nextSlots])"

definition buildPresetLayout :: "string \<Rightarrow> string list \<Rightarrow> string \<Rightarrow> layout_node" where
  "buildPresetLayout pid terminalIds activeTerminalId =
     (let slots = distributeTerminalIdsAcrossSlots terminalIds (getWorkspaceLayoutPresetSlotCount pid);
          leaf = (\<lambda>slotIndex. presetTerminalLeaf
                    (nullish (list_get slots slotIndex) [DEFAULT_THREAD_TERMINAL_ID])
                    (''pane-'' @ pid @ ''-'' @ nat_str (slotIndex + 1)) activeTerminalId);
          root = ''workspace-'' @ pid @ ''-root''
      in if pid = ''two-columns'' then createSplit root Horizontal [leaf 0, leaf 1]
         else if pid = ''two-rows'' then createSplit root Vertical [leaf 0, leaf 1]
         else if pid = ''top-main'' then createSplit root Vertical
           [leaf 0, createSplit (''workspace-'' @ pid @ ''-bottom'') Horizontal [leaf 1, leaf 2]]
         else if pid = ''left-main'' then createSplit root Horizontal
           [leaf 0, createSplit (''workspace-'' @ pid @ ''-right'') Vertical [leaf 1, leaf 2]]
         else if pid = ''quad'' then createSplit root Vertical
           [createSplit (''workspace-'' @ pid @ ''-top'') Horizontal [leaf 0, leaf 1],
            createSplit (''workspace-'' @ pid @ ''-bottom'') Horizontal [leaf 2, leaf 3]]
         else leaf 0)"

definition createWorkspaceTerminalGroupFromPreset ::
    "string \<Rightarrow> string list \<Rightarrow> string \<Rightarrow> terminal_group" where
  "createWorkspaceTerminalGroupFromPreset pid terminalIds activeTerminalId =
     (let normalizedPresetId = normalizePresetId pid;
          normalizedTerminalIds = presetNormalizeTerminalIds terminalIds;
          resolvedActiveTerminalId =
            (if activeTerminalId \<in> set normalizedTerminalIds then activeTerminalId
             else nullish (list_get normalizedTerminalIds 0) DEFAULT_THREAD_TERMINAL_ID)
      in \<lparr>groupId = ''workspace-group-'' @ normalizedPresetId,
          groupActiveTerminalId = resolvedActiveTerminalId,
          layout = buildPresetLayout normalizedPresetId normalizedTerminalIds
                     resolvedActiveTerminalId\<rparr>)"

section \<open>Lemmas\<close>

lemma trimmed_default [simp]: "trimmed DEFAULT_THREAD_TERMINAL_ID"
  by (simp add: DEFAULT_THREAD_TERMINAL_ID_def trimmed_def is_space_def)

lemma presetNormalize_wf: "wf_ids (presetNormalizeTerminalIds ids)"
  by (auto simp: presetNormalizeTerminalIds_def wf_ids_def list_all_iff js_trim_empty_iff Let_def)

lemma presetNormalize_id:
  assumes "wf_ids ids"
  shows "presetNormalizeTerminalIds ids = ids"
proof -
  have "filter (\<lambda>t. t \<noteq> []) ids = ids"
    using assms by (intro filter_True) (auto simp: wf_ids_def list_all_iff)
  then show ?thesis
    using assms by (simp add: presetNormalizeTerminalIds_def wf_ids_def map_trim_wf js_dedup_id)
qed

lemma presetTerminalLeaf_props:
  "trimmed pid \<Longrightarrow> wf_layout (presetTerminalLeaf ids pid act)"
  "leaf_ids (presetTerminalLeaf ids pid act) = presetNormalizeTerminalIds ids"
  "flat_layout (presetTerminalLeaf ids pid act)"
  "splits_along d (presetTerminalLeaf ids pid act) \<longleftrightarrow> False"
proof -
  show "wf_layout (presetTerminalLeaf ids pid act)" if "trimmed pid"
    using that presetNormalize_wf [of ids]
    by (auto simp: presetTerminalLeaf_def Let_def wf_leaf_def wf_ids_def list_get_def)
qed (simp_all add: presetTerminalLeaf_def Let_def)

text \<open>The distribution loop in closed form: slot \<open>j\<close> holds the ids whose index is \<open>j\<close> modulo the count.\<close>

lemma distribute_loop:
  assumes "n > 0"
  shows "foldl (\<lambda>acc i. let s = (if i < n then i else i mod n) in acc[s := acc ! s @ [ids ! i]])
       (replicate n []) [0..<k] =
     map (\<lambda>j. map ((!) ids) (filter (\<lambda>i. i mod n = j) [0..<k])) [0..<n]"
proof (induction k)
  case 0
  then show ?case by (intro nth_equalityI) simp_all
next
  case (Suc k)
  have "(if k < n then k else k mod n) = k mod n" by simp
  moreover have "k mod n < n" using assms by simp
  ultimately show ?case
    using Suc by (intro nth_equalityI) (auto simp: Let_def nth_list_update)
qed

definition slot_ids :: "string list \<Rightarrow> nat \<Rightarrow> nat \<Rightarrow> string list" where
  "slot_ids ids n j = map ((!) ids) (filter (\<lambda>i. i mod n = j) [0..<length ids])"

lemma distribute_closed:
  assumes "wf_ids ids" "n > 0"
  shows "distributeTerminalIdsAcrossSlots ids n =
     map (\<lambda>j. if slot_ids ids n j \<noteq> [] then slot_ids ids n j
              else [nullish (orelse (list_get ids j) (list_get ids 0)) DEFAULT_THREAD_TERMINAL_ID]) [0..<n]"
proof -
  have m: "max 1 n = n" using assms(2) by simp
  show ?thesis
    using distribute_loop [OF assms(2), of ids "length ids"]
    unfolding distributeTerminalIdsAcrossSlots_def presetNormalize_id [OF assms(1)] Let_def m
    by (simp add: slot_ids_def [symmetric])
qed

lemma slot_ids_set: "set (slot_ids ids n j) \<subseteq> set ids"
  by (auto simp: slot_ids_def)

lemma slot_ids_distinct: "distinct ids \<Longrightarrow> distinct (slot_ids ids n j)"
  by (auto simp: slot_ids_def distinct_map intro: inj_on_nth)

lemma slot_ids_disjoint:
  "distinct ids \<Longrightarrow> j \<noteq> k \<Longrightarrow> set (slot_ids ids n j) \<inter> set (slot_ids ids n k) = {}"
  by (auto simp: slot_ids_def nth_eq_iff_index_eq)

lemma slot_ids_cover: "n > 0 \<Longrightarrow> (\<Union>j<n. set (slot_ids ids n j)) = set ids"
proof -
  assume n: "n > 0"
  have "x \<in> (\<Union>j<n. set (slot_ids ids n j))" if x: "x \<in> set ids" for x
  proof -
    from x obtain i where i: "i < length ids" "x = ids ! i" by (auto simp: in_set_conv_nth)
    then have "x \<in> set (slot_ids ids n (i mod n))" by (auto simp: slot_ids_def)
    then show ?thesis using n by (meson UN_I lessThan_iff mod_less_divisor)
  qed
  with slot_ids_set show ?thesis by fastforce
qed

lemma slot_ids_nonempty: "j < n \<Longrightarrow> n \<le> length ids \<Longrightarrow> slot_ids ids n j \<noteq> []"
  by (auto simp: slot_ids_def filter_empty_conv intro!: bexI [of _ j])

text \<open>What slot \<open>j\<close> shows: its ids, or a fallback when there are fewer ids than slots.\<close>

definition slot_shown :: "string list \<Rightarrow> nat \<Rightarrow> nat \<Rightarrow> string list" where
  "slot_shown ids n j = (if slot_ids ids n j \<noteq> [] then slot_ids ids n j
     else [nullish (orelse (list_get ids j) (list_get ids 0)) DEFAULT_THREAD_TERMINAL_ID])"

lemma slot_shown_wf:
  assumes "wf_ids ids"
  shows "wf_ids (slot_shown ids n j)" and "set (slot_shown ids n j) \<subseteq> set ids"
proof -
  have fb: "nullish (orelse (list_get ids j) (list_get ids 0)) DEFAULT_THREAD_TERMINAL_ID \<in> set ids"
    using assms by (auto simp: wf_ids_def list_get_def)
  show "set (slot_shown ids n j) \<subseteq> set ids"
    using fb slot_ids_set [of ids n j] by (auto simp: slot_shown_def)
  then show "wf_ids (slot_shown ids n j)"
    using assms slot_ids_distinct [of ids n j] by (auto simp: slot_shown_def wf_ids_def list_all_iff)
qed

lemma slot_shown_enough: "j < n \<Longrightarrow> n \<le> length ids \<Longrightarrow> slot_shown ids n j = slot_ids ids n j"
  by (simp add: slot_shown_def slot_ids_nonempty)

lemma slot_shown_cover: "wf_ids ids \<Longrightarrow> n > 0 \<Longrightarrow> (\<Union>j<n. set (slot_shown ids n j)) = set ids"
proof (rule antisym)
  assume a: "wf_ids ids" "n > 0"
  then show "(\<Union>j<n. set (slot_shown ids n j)) \<subseteq> set ids" using slot_shown_wf by blast
  have "(\<Union>j<n. set (slot_ids ids n j)) \<subseteq> (\<Union>j<n. set (slot_shown ids n j))"
    by (rule UN_mono) (simp_all add: slot_shown_def)
  then show "set ids \<subseteq> (\<Union>j<n. set (slot_shown ids n j))"
    by (simp only: slot_ids_cover [OF a(2), of ids])
qed

definition preset_leaf :: "string \<Rightarrow> string list \<Rightarrow> nat \<Rightarrow> string \<Rightarrow> nat \<Rightarrow> layout_node" where
  "preset_leaf pid ids n act j = presetTerminalLeaf (slot_shown ids n j)
     (''pane-'' @ pid @ ''-'' @ nat_str (j + 1)) act"

lemma preset_leaf_props:
  assumes "wf_ids ids"
  shows "wf_layout (preset_leaf pid ids n act j)"
    "leaf_ids (preset_leaf pid ids n act j) = slot_shown ids n j"
    "flat_layout (preset_leaf pid ids n act j)"
    "splits_along d (preset_leaf pid ids n act j) \<longleftrightarrow> False"
proof -
  have "trimmed (''pane-'' @ pid @ ''-'' @ nat_str (j + 1))"
    unfolding append_assoc [symmetric] by (rule trimmed_append_nat_str) (simp_all add: is_space_def)
  then show "wf_layout (preset_leaf pid ids n act j)"
    unfolding preset_leaf_def by (rule presetTerminalLeaf_props)
qed (use slot_shown_wf [OF assms] in \<open>simp_all add: preset_leaf_def presetTerminalLeaf_props presetNormalize_id\<close>)

lemma buildPresetLayout_leaf:
  assumes "wf_ids ids" "n = getWorkspaceLayoutPresetSlotCount pid" "j < n"
  shows "presetTerminalLeaf
      (nullish (list_get (distributeTerminalIdsAcrossSlots ids n) j) [DEFAULT_THREAD_TERMINAL_ID])
      (''pane-'' @ pid @ ''-'' @ nat_str (j + 1)) act = preset_leaf pid ids n act j"
  using assms distribute_closed [of ids n]
  by (simp add: preset_leaf_def list_get_def slot_shown_def)

lemma slot_count_simps [simp]:
  "getWorkspaceLayoutPresetSlotCount ''single'' = 1"
  "getWorkspaceLayoutPresetSlotCount ''two-columns'' = 2"
  "getWorkspaceLayoutPresetSlotCount ''two-rows'' = 2"
  "getWorkspaceLayoutPresetSlotCount ''top-main'' = 3"
  "getWorkspaceLayoutPresetSlotCount ''left-main'' = 3"
  "getWorkspaceLayoutPresetSlotCount ''quad'' = 4"
  by (simp_all add: getWorkspaceLayoutPresetSlotCount_def getWorkspaceLayoutPreset_def
      normalizePresetId_def WORKSPACE_LAYOUT_PRESETS_def)

definition preset_ids :: "string list" where
  "preset_ids = [''single'', ''two-columns'', ''two-rows'', ''top-main'', ''left-main'', ''quad'']"

lemma preset_ids_catalogue: "preset_ids = map presetId WORKSPACE_LAYOUT_PRESETS"
  by (simp add: preset_ids_def WORKSPACE_LAYOUT_PRESETS_def)

lemma normalizePresetId_closed:
  "normalizePresetId pid = (if pid \<in> set preset_ids then pid else ''single'')"
  unfolding normalizePresetId_def find_key preset_ids_catalogue set_map
    DEFAULT_WORKSPACE_LAYOUT_PRESET_ID_def ..

lemma normalizePresetId_mem: "normalizePresetId pid \<in> set preset_ids"
  by (simp add: normalizePresetId_closed) (simp add: preset_ids_def)

lemma normalizePresetId_idem: "normalizePresetId (normalizePresetId pid) = normalizePresetId pid"
  by (simp only: normalizePresetId_closed [of "normalizePresetId pid"] normalizePresetId_mem if_True)

lemma slot_count_normalized:
  "getWorkspaceLayoutPresetSlotCount (normalizePresetId pid) = getWorkspaceLayoutPresetSlotCount pid"
  by (simp only: getWorkspaceLayoutPresetSlotCount_def getWorkspaceLayoutPreset_def normalizePresetId_idem)

lemma slot_count_pos: "getWorkspaceLayoutPresetSlotCount pid > 0"
proof -
  have "getWorkspaceLayoutPresetSlotCount (normalizePresetId pid) > 0"
    using normalizePresetId_mem [of pid] by (auto simp: preset_ids_def)
  then show ?thesis by (simp only: slot_count_normalized)
qed

lemma buildPresetLayout_props:
  assumes ids: "wf_ids ids" and pid: "pid \<in> set preset_ids"
    and n: "n = getWorkspaceLayoutPresetSlotCount pid"
  shows "wf_layout (buildPresetLayout pid ids act) \<and> flat_layout (buildPresetLayout pid ids act) \<and>
    leaf_ids (buildPresetLayout pid ids act) = concat (map (slot_shown ids n) [0..<n])"
proof -
  define L where "L j = presetTerminalLeaf
      (nullish (list_get (distributeTerminalIdsAcrossSlots ids n) j) [DEFAULT_THREAD_TERMINAL_ID])
      (''pane-'' @ pid @ ''-'' @ nat_str (j + 1)) act" for j
  have L: "L j = preset_leaf pid ids n act j" if "j < n" for j
    unfolding L_def using ids n that by (rule buildPresetLayout_leaf)
  have Lp: "wf_layout (L j)" "leaf_ids (L j) = slot_shown ids n j" "flat_layout (L j)"
    "\<not> splits_along d (L j)" if "j < n" for j d
    using L [OF that] preset_leaf_props [OF ids] by simp_all
  have eq: "buildPresetLayout pid ids act =
      (if pid = ''two-columns'' then createSplit (''workspace-'' @ pid @ ''-root'') Horizontal [L 0, L 1]
       else if pid = ''two-rows'' then createSplit (''workspace-'' @ pid @ ''-root'') Vertical [L 0, L 1]
       else if pid = ''top-main'' then createSplit (''workspace-'' @ pid @ ''-root'') Vertical
         [L 0, createSplit (''workspace-'' @ pid @ ''-bottom'') Horizontal [L 1, L 2]]
       else if pid = ''left-main'' then createSplit (''workspace-'' @ pid @ ''-root'') Horizontal
         [L 0, createSplit (''workspace-'' @ pid @ ''-right'') Vertical [L 1, L 2]]
       else if pid = ''quad'' then createSplit (''workspace-'' @ pid @ ''-root'') Vertical
         [createSplit (''workspace-'' @ pid @ ''-top'') Horizontal [L 0, L 1],
          createSplit (''workspace-'' @ pid @ ''-bottom'') Horizontal [L 2, L 3]]
       else L 0)"
    unfolding buildPresetLayout_def Let_def L_def n ..
  have upt: "[0..<1] = [0::nat]" "[0..<2] = [0, 1::nat]" "[0..<3] = [0, 1, 2::nat]"
    "[0..<4] = [0, 1, 2, 3::nat]"
    by (simp_all add: upt_conv_Cons)
  consider "pid = ''single''" "n = 1" | "pid = ''two-columns''" "n = 2" | "pid = ''two-rows''" "n = 2"
    | "pid = ''top-main''" "n = 3" | "pid = ''left-main''" "n = 3" | "pid = ''quad''" "n = 4"
  proof -
    have "pid = ''single'' \<or> pid = ''two-columns'' \<or> pid = ''two-rows'' \<or> pid = ''top-main'' \<or>
        pid = ''left-main'' \<or> pid = ''quad''"
      using pid unfolding preset_ids_def by (simp only: set_simps insert_iff empty_iff simp_thms)
    then show thesis
      by (elim disjE) (rule that, assumption, simp add: n)+
  qed
  then show ?thesis
  proof cases
    case 1
    then show ?thesis unfolding eq using Lp [of 0] by (simp add: upt)
  next
    case 2
    then show ?thesis unfolding eq using Lp [of 0] Lp [of 1] by (simp add: upt createSplit_def)
  next
    case 3
    then show ?thesis unfolding eq using Lp [of 0] Lp [of 1] by (simp add: upt createSplit_def)
  next
    case 4
    then show ?thesis unfolding eq using Lp [of 0] Lp [of 1] Lp [of 2] by (simp add: upt createSplit_def)
  next
    case 5
    then show ?thesis unfolding eq using Lp [of 0] Lp [of 1] Lp [of 2] by (simp add: upt createSplit_def)
  next
    case 6
    then show ?thesis unfolding eq using Lp [of 0] Lp [of 1] Lp [of 2] Lp [of 3]
      by (simp add: upt createSplit_def)
  qed
qed

lemma preset_group_props:
  assumes "n = getWorkspaceLayoutPresetSlotCount (normalizePresetId pid)"
    and "nids = presetNormalizeTerminalIds ids"
  shows "wf_group (createWorkspaceTerminalGroupFromPreset pid ids act)"
    and "flat_group (createWorkspaceTerminalGroupFromPreset pid ids act)"
    and "group_ids (createWorkspaceTerminalGroupFromPreset pid ids act) =
      concat (map (slot_shown nids n) [0..<n])"
    and "set (group_ids (createWorkspaceTerminalGroupFromPreset pid ids act)) = set nids"
    and "act \<in> set nids \<Longrightarrow> groupActiveTerminalId (createWorkspaceTerminalGroupFromPreset pid ids act) = act"
proof -
  define pid' where "pid' = normalizePresetId pid"
  have wf: "wf_ids nids" by (simp add: assms(2) presetNormalize_wf)
  have n: "n = getWorkspaceLayoutPresetSlotCount pid'" using assms(1) by (simp add: pid'_def)
  note build = buildPresetLayout_props [OF wf normalizePresetId_mem assms(1)]
  define act' where "act' = (if act \<in> set nids then act
     else nullish (list_get nids 0) DEFAULT_THREAD_TERMINAL_ID)"
  have act': "act' \<in> set nids" using wf by (auto simp: act'_def wf_ids_def list_get_def)
  have eq: "createWorkspaceTerminalGroupFromPreset pid ids act =
      \<lparr>groupId = ''workspace-group-'' @ pid', groupActiveTerminalId = act',
       layout = buildPresetLayout pid' nids act'\<rparr>"
    by (simp add: createWorkspaceTerminalGroupFromPreset_def Let_def assms(2) pid'_def act'_def)
  have gid: "trimmed (''workspace-group-'' @ pid')"
    using normalizePresetId_mem [of pid]
    by (auto simp: pid'_def preset_ids_def trimmed_def is_space_def)
  show ids: "group_ids (createWorkspaceTerminalGroupFromPreset pid ids act) =
      concat (map (slot_shown nids n) [0..<n])"
    using build by (simp add: eq pid'_def)
  have "set (concat (map (slot_shown nids n) [0..<n])) = (\<Union>j<n. set (slot_shown nids n j))" by auto
  then show set: "set (group_ids (createWorkspaceTerminalGroupFromPreset pid ids act)) = set nids"
    using slot_shown_cover [OF wf] slot_count_pos [of pid'] by (simp add: ids n)
  show "wf_group (createWorkspaceTerminalGroupFromPreset pid ids act)"
    "flat_group (createWorkspaceTerminalGroupFromPreset pid ids act)"
    using build act' set gid by (simp_all add: eq wf_group_def pid'_def)
  show "act \<in> set nids \<Longrightarrow> groupActiveTerminalId (createWorkspaceTerminalGroupFromPreset pid ids act) = act"
    by (simp add: eq act'_def)
qed

text \<open>With at least one id per slot no terminal is shown twice.\<close>

lemma preset_group_distinct:
  assumes "getWorkspaceLayoutPresetSlotCount pid \<le> length (presetNormalizeTerminalIds ids)"
  shows "distinct (group_ids (createWorkspaceTerminalGroupFromPreset pid ids act))"
proof -
  define nids where "nids = presetNormalizeTerminalIds ids"
  define n where "n = getWorkspaceLayoutPresetSlotCount (normalizePresetId pid)"
  have n: "n \<le> length nids"
    using assms by (simp only: n_def nids_def slot_count_normalized)
  have wf: "wf_ids nids" by (simp add: nids_def presetNormalize_wf)
  then have d: "distinct nids" by (simp add: wf_ids_def)
  have "concat (map (slot_shown nids n) [0..<n]) = concat (map (slot_ids nids n) [0..<n])"
    using n by (intro concat_map_cong slot_shown_enough) auto
  moreover have "distinct (concat (map (slot_ids nids n) [0..<k]))" for k
  proof (induction k)
    case (Suc k)
    have "set (concat (map (slot_ids nids n) [0..<k])) \<inter> set (slot_ids nids n k) = {}"
    proof -
      have "set (slot_ids nids n j) \<inter> set (slot_ids nids n k) = {}" if "j < k" for j
        using d that by (intro slot_ids_disjoint) auto
      then show ?thesis by fastforce
    qed
    with Suc slot_ids_distinct [OF d] show ?case by simp
  qed simp
  ultimately show ?thesis
    using preset_group_props(3) [OF n_def nids_def] by simp
qed

text \<open>The next draw that fills a slot: not blank after trimming and not there yet.\<close>

definition fills :: "(nat \<Rightarrow> string) \<Rightarrow> string list \<Rightarrow> nat \<Rightarrow> bool" where
  "fills gen ids k \<longleftrightarrow> js_trim (gen k) \<noteq> [] \<and> js_trim (gen k) \<notin> set ids"

lemma ensure_slots_step:
  "length ids < n \<Longrightarrow> ensure_slots gen k n ids =
     (if fills gen ids k then ensure_slots gen (Suc k) n (ids @ [js_trim (gen k)]) else ensure_slots gen (Suc k) n ids)"
  by (subst ensure_slots.simps) (simp add: fills_def Let_def)

lemma ensure_slots_draws:
  assumes "length ids < n" "fills gen ids (k + d)"
  shows "\<exists>j\<ge>k. fills gen ids j \<and> ensure_slots gen k n ids = ensure_slots gen (Suc j) n (ids @ [js_trim (gen j)])"
  using assms(2)
proof (induction d arbitrary: k)
  case 0
  with ensure_slots_step [OF assms(1), of gen k] show ?case by (intro exI [of _ k]) simp
next
  case (Suc d)
  show ?case
  proof (cases "fills gen ids k")
    case True
    with ensure_slots_step [OF assms(1), of gen k] show ?thesis by (intro exI [of _ k]) simp
  next
    case False
    from Suc.IH [of "Suc k"] Suc.prems ensure_slots_step [OF assms(1), of gen k] False show ?thesis
      by (auto dest: Suc_leD)
  qed
qed

lemma fills_again:
  assumes "infinite (range (\<lambda>k. js_trim (gen k)))"
  shows "\<exists>d. fills gen ids (k + d)"
proof (rule ccontr)
  assume "\<nexists>d. fills gen ids (k + d)"
  then have "\<not> fills gen ids j" if "k \<le> j" for j using that le_Suc_ex by blast
  then have "range (\<lambda>j. js_trim (gen j)) \<subseteq> (\<lambda>j. js_trim (gen j)) ` {..<k} \<union> insert [] (set ids)"
    by (auto simp: fills_def image_iff) (metis lessThan_iff not_le_imp_less)
  from finite_subset [OF this] assms show False by simp
qed

lemma ensure_slots_returns:
  assumes "infinite (range (\<lambda>k. js_trim (gen k)))"
  shows "\<exists>new. ensure_slots gen k n ids = Some (ids @ new) \<and> length (ids @ new) = max n (length ids) \<and>
    list_all (\<lambda>i. i \<noteq> [] \<and> i \<in> range (\<lambda>k. js_trim (gen k))) new \<and> distinct new \<and> set new \<inter> set ids = {}"
proof (induction "n - length ids" arbitrary: k ids)
  case 0
  then show ?case by (subst ensure_slots.simps) auto
next
  case (Suc m)
  then have "length ids < n" by simp
  from ensure_slots_draws [OF this] fills_again [OF assms]
  obtain j where j: "fills gen ids j" "ensure_slots gen k n ids = ensure_slots gen (Suc j) n (ids @ [js_trim (gen j)])"
    by blast
  have "m = n - length (ids @ [js_trim (gen j)])" using Suc.hyps(2) by simp
  from Suc.hyps(1) [OF this, of "Suc j"] obtain new where
    "ensure_slots gen (Suc j) n (ids @ [js_trim (gen j)]) = Some ((ids @ [js_trim (gen j)]) @ new)"
    "length ((ids @ [js_trim (gen j)]) @ new) = max n (length (ids @ [js_trim (gen j)]))"
    "list_all (\<lambda>i. i \<noteq> [] \<and> i \<in> range (\<lambda>k. js_trim (gen k))) new" "distinct new"
    "set new \<inter> set (ids @ [js_trim (gen j)]) = {}" by blast
  with j Suc.hyps(2) show ?case
    by (intro exI [of _ "js_trim (gen j) # new"]) (auto simp: fills_def)
qed

end
