(* ===== verification/PaneProperties.thy ===== *)
theory PaneProperties
  imports LayoutPresets
begin

text \<open>
  The properties of the pane tree (\<open>frontend/src/terminalPaneLayout.ts\<close>) and of the layout presets
  (\<open>frontend/src/workspaceTerminalLayoutPresets.ts\<close>), each with a witness where it has
  hypotheses. The panes of the witnesses are \<open>demo_group\<close>: \<open>a\<close> beside a stack of \<open>b\<close>
  and \<open>c\<close>.
\<close>

definition demo_pane :: "string list \<Rightarrow> layout_node" where
  "demo_pane ids = Leaf \<lparr>paneId = ''pane-'' @ hd ids, leafTerminalIds = ids,
     leafActiveTerminalId = hd ids, legacyTerminalId = []\<rparr>"

definition demo_group :: terminal_group where
  "demo_group = \<lparr>groupId = ''g'', groupActiveTerminalId = ''b'',
     layout = Split ''s'' Horizontal [demo_pane [''a''], demo_pane [''b'', ''c'']] [Num 1, Num 3]\<rparr>"

lemma demo_group_wf: "wf_group demo_group \<and> flat_group demo_group \<and> distinct (group_ids demo_group) \<and>
    group_ids demo_group = [''a'', ''b'', ''c'']"
  by code_simp

section \<open>Pane trees\<close>

text \<open>C24: Whatever persisted layout it is given, sanitizing yields a layout in normal form: panes
  with distinct trimmed terminals whose active tab is among them, splits of at least two children
  with one positive finite weight each, no split nested in a split of the same direction, only
  valid terminals; and sanitizing that layout again changes nothing.\<close>

theorem sanitize_normal_form:
  "case sanitizeLayoutNode n valid of
     None \<Rightarrow> True
   | Some n' \<Rightarrow> wf_layout n' \<and> flat_layout n' \<and> set (collectTerminalIdsFromLayout n') \<subseteq> set valid \<and>
       sanitizeLayoutNode n' valid = Some n'"
  using sanitize_wf [of n valid] sanitize_fixpoint
  by (auto simp: collect_leaf_ids split: option.split)

text \<open>On a well-formed layout sanitizing keeps exactly the valid terminals, in their order, and
  gives up the layout exactly when none is left.\<close>

theorem sanitize_keeps_valid:
  assumes "wf_layout n"
  shows "map_option collectTerminalIdsFromLayout (sanitizeLayoutNode n valid) =
    (if filter (\<lambda>t. t \<in> set valid) (collectTerminalIdsFromLayout n) = [] then None
     else Some (filter (\<lambda>t. t \<in> set valid) (collectTerminalIdsFromLayout n)))"
proof (cases "sanitizeLayoutNode n valid")
  case None
  with assms show ?thesis using sanitize_ids [OF assms, of valid] by (simp add: collect_leaf_ids)
next
  case (Some n')
  with assms show ?thesis
    using sanitize_ids [OF assms, of valid] sanitize_wf [OF Some] leaf_ids_nonempty [of n']
    by (simp add: collect_leaf_ids)
qed

theorem sanitize_keeps_valid_witness:
  "map_option collectTerminalIdsFromLayout (sanitizeLayoutNode (layout demo_group) [''c'', ''a'']) =
     Some [''a'', ''c'']"
proof -
  have "wf_layout (layout demo_group)" by code_simp
  from sanitize_keeps_valid [OF this, of "[''c'', ''a'']"] show ?thesis
    using demo_group_wf by (simp add: wf_group_collect)
qed

text \<open>Splitting a pane puts the new terminal into a pane of its own directly before or after the
  target's pane, makes it the active terminal, keeps every other terminal, and keeps the layout
  well-formed and free of nested splits of one direction.\<close>

theorem split_inserts_beside:
  assumes "wf_group g" "flat_group g" "target \<in> set (group_ids g)" "trimmed new"
  shows "let g' = splitTerminalGroupLayout g target new pos sid in
    wf_group g' \<and> flat_group g' \<and> groupActiveTerminalId g' = new \<and> groupId g' = groupId g \<and>
    inserted_beside pos target new (collectTerminalIdsFromLayout (layout g))
      (collectTerminalIdsFromLayout (layout g'))"
  using split_group_props [OF assms(1,3,4), of pos sid] assms(1,2) by (simp add: Let_def)

theorem split_inserts_beside_witness:
  "inserted_beside Left ''a'' ''n'' [''a'', ''b'', ''c''] [''n'', ''a'', ''b'', ''c''] \<and>
   flat_group (splitTerminalGroupLayout demo_group ''a'' ''n'' Left ''s2'')"
proof -
  have "trimmed ''n''" "''a'' \<in> set (group_ids demo_group)" by code_simp+
  moreover have "collectTerminalIdsFromLayout (layout (splitTerminalGroupLayout demo_group ''a'' ''n'' Left ''s2'')) =
      [''n'', ''a'', ''b'', ''c'']" by code_simp
  ultimately show ?thesis
    using split_inserts_beside [of demo_group "''a''" "''n''" Left "''s2''"] demo_group_wf
    by (simp add: Let_def)
qed

text \<open>Removing a terminal from a group takes away exactly it: the others keep their order, the
  group keeps its id and, unless its active terminal was removed, that one; the group disappears
  exactly when it showed nothing else. A removed active terminal is replaced by one that is
  left.\<close>

theorem remove_exactly:
  assumes "wf_group g" "distinct (group_ids g)"
  shows "case removeTerminalFromGroupLayout g t of
      None \<Rightarrow> set (group_ids g) \<subseteq> {t}
    | Some g' \<Rightarrow> wf_group g' \<and> groupId g' = groupId g \<and>
        collectTerminalIdsFromLayout (layout g') = filter (\<lambda>x. x \<noteq> t) (collectTerminalIdsFromLayout (layout g)) \<and>
        groupActiveTerminalId g' \<in> set (collectTerminalIdsFromLayout (layout g')) \<and>
        (groupActiveTerminalId g = t \<or> groupActiveTerminalId g' = groupActiveTerminalId g)"
proof (cases "removeTerminalFromGroupLayout g t")
  case None
  then have "set (group_ids g) \<subseteq> {t}" by (simp add: remove_group_props(1) [OF assms(1)])
  with None show ?thesis by simp
next
  case (Some g')
  note p = remove_group_props(2) [OF assms(1) Some assms(2)] remove_group_props(3) [OF assms(1) Some]
  then have "groupActiveTerminalId g' \<in> set (group_ids g')" by (simp add: wf_group_def)
  with Some p assms(1) show ?thesis by auto
qed

theorem remove_exactly_witness:
  "\<exists>g'. removeTerminalFromGroupLayout demo_group ''b'' = Some g' \<and> wf_group g' \<and>
     collectTerminalIdsFromLayout (layout g') = [''a'', ''c''] \<and>
     groupActiveTerminalId g' \<in> {''a'', ''c''}"
proof -
  have s: "removeTerminalFromGroupLayout demo_group ''b'' \<noteq> None" by code_simp
  then obtain g' where "removeTerminalFromGroupLayout demo_group ''b'' = Some g'" by blast
  with remove_exactly [of demo_group "''b''"] demo_group_wf show ?thesis
    by (intro exI [of _ g']) auto
qed

text \<open>The order of two removals does not matter for what the panes show.\<close>

theorem removals_commute:
  assumes "wf_layout n"
    and "fst (removeTerminalFromLayoutNode n a) = Some na" "fst (removeTerminalFromLayoutNode na b) = Some nab"
    and "fst (removeTerminalFromLayoutNode n b) = Some nb" "fst (removeTerminalFromLayoutNode nb a) = Some nba"
  shows "collectTerminalIdsFromLayout nab = collectTerminalIdsFromLayout nba"
proof -
  note a = term_panes.remove_Some [OF assms(1,2), THEN conjunct1]
    and b = term_panes.remove_Some [OF assms(1,4), THEN conjunct1]
  have "wf_layout nab" "wf_layout nba"
    using term_panes.remove_Some [OF a assms(3)] term_panes.remove_Some [OF b assms(5)] by simp_all
  then show ?thesis
    using term_panes.remove_commute [OF assms] by (simp add: collect_leaf_ids)
qed

theorem removals_commute_witness:
  "\<exists>n1 n2. fst (removeTerminalFromLayoutNode (layout demo_group) ''a'') = Some n1 \<and>
     fst (removeTerminalFromLayoutNode n1 ''c'') = Some n2 \<and> collectTerminalIdsFromLayout n2 = [''b'']"
proof -
  let ?n = "layout demo_group"
  define na where "na = the (fst (removeTerminalFromLayoutNode ?n ''a''))"
  define nc where "nc = the (fst (removeTerminalFromLayoutNode ?n ''c''))"
  define nac where "nac = the (fst (removeTerminalFromLayoutNode na ''c''))"
  define nca where "nca = the (fst (removeTerminalFromLayoutNode nc ''a''))"
  have "wf_layout ?n" by code_simp
  moreover have n: "fst (removeTerminalFromLayoutNode ?n ''a'') = Some na"
    "fst (removeTerminalFromLayoutNode na ''c'') = Some nac"
    "fst (removeTerminalFromLayoutNode ?n ''c'') = Some nc"
    "fst (removeTerminalFromLayoutNode nc ''a'') = Some nca"
    unfolding na_def nc_def nac_def nca_def by code_simp+
  ultimately have "collectTerminalIdsFromLayout nac = collectTerminalIdsFromLayout nca"
    by (rule removals_commute)
  moreover have "collectTerminalIdsFromLayout nca = [''b'']"
    unfolding nca_def nc_def by code_simp
  ultimately show ?thesis using n by auto
qed

text \<open>A new tab joins the pane of its target, at the end of that pane's tabs, and becomes the
  active terminal; the other panes are as before.\<close>

theorem tab_joins_pane:
  assumes "wf_group g" "distinct (group_ids g)" "target \<in> set (group_ids g)"
    and "trimmed new" "new \<notin> set (group_ids g)"
  shows "let g' = addTerminalTabToGroupLayout g target new in
    wf_group g' \<and> groupActiveTerminalId g' = new \<and> groupId g' = groupId g \<and>
    (flat_group g \<longrightarrow> flat_group g') \<and>
    inserted_beside Right target new (collectTerminalIdsFromLayout (layout g))
      (collectTerminalIdsFromLayout (layout g'))"
  using addTab_group_props [OF assms(1,3,4,5,2)] assms(1) by (simp add: Let_def)

theorem tab_joins_pane_witness:
  "groupActiveTerminalId (addTerminalTabToGroupLayout demo_group ''a'' ''n'') = ''n'' \<and>
   inserted_beside Right ''a'' ''n'' [''a'', ''b'', ''c''] [''a'', ''n'', ''b'', ''c'']"
proof -
  have "trimmed ''n''" "''a'' \<in> set (group_ids demo_group)" "''n'' \<notin> set (group_ids demo_group)" by code_simp+
  moreover have "collectTerminalIdsFromLayout (layout (addTerminalTabToGroupLayout demo_group ''a'' ''n'')) =
      [''a'', ''n'', ''b'', ''c'']" by code_simp
  ultimately show ?thesis
    using tab_joins_pane [of demo_group "''a''" "''n''"] demo_group_wf by (simp add: Let_def)
qed

text \<open>Resizing and equalizing touch the weights alone: whatever weights the user drags to,
  negative and infinite ones included, the panes, their order and the active terminal stay, and
  the layout stays well-formed.\<close>

theorem resize_keeps_panes:
  assumes "wf_group g"
  shows "let r = resizeTerminalGroupLayout g sid ws; e = equalizeTerminalGroupLayout g in
    wf_group r \<and> group_ids r = group_ids g \<and> groupActiveTerminalId r = groupActiveTerminalId g \<and>
    wf_group e \<and> group_ids e = group_ids g \<and> groupActiveTerminalId e = groupActiveTerminalId g"
  using resize_group_props [OF assms, of sid ws] equalize_group_props [OF assms]
  by (simp add: Let_def equalizeTerminalGroupLayout_def)

theorem resize_keeps_panes_witness:
  "wf_group (resizeTerminalGroupLayout demo_group ''s'' [NonFinite, Num (- 2)])"
  using resize_keeps_panes [of demo_group "''s''" "[NonFinite, Num (- 2)]"] demo_group_wf
  by (simp add: Let_def)

section \<open>Presets\<close>

text \<open>The group of a preset shows exactly the given terminals, and each once when there is one
  for every slot of the preset.\<close>

theorem preset_shows_exactly:
  assumes "getWorkspaceLayoutPresetSlotCount pid \<le> length (presetNormalizeTerminalIds ids)"
  shows "let g = createWorkspaceTerminalGroupFromPreset pid ids act in
    wf_group g \<and> flat_group g \<and> distinct (group_ids g) \<and>
    set (group_ids g) = set (presetNormalizeTerminalIds ids) \<and>
    (act \<in> set (presetNormalizeTerminalIds ids) \<longrightarrow> groupActiveTerminalId g = act)"
  using preset_group_props(1,2,4) [OF refl refl, of pid ids act] preset_group_distinct [OF assms, of act]
    preset_group_props(5) [OF refl refl, of act ids pid]
  by (simp add: Let_def)

theorem preset_shows_exactly_witness:
  "set (group_ids (createWorkspaceTerminalGroupFromPreset ''quad'' [''a'', ''b'', ''c'', ''d'', ''e''] ''c'')) =
     {''a'', ''b'', ''c'', ''d'', ''e''}"
proof -
  have ids: "presetNormalizeTerminalIds [''a'', ''b'', ''c'', ''d'', ''e''] = [''a'', ''b'', ''c'', ''d'', ''e'']"
    by code_simp
  have "getWorkspaceLayoutPresetSlotCount ''quad'' \<le> length (presetNormalizeTerminalIds [''a'', ''b'', ''c'', ''d'', ''e''])"
    by code_simp
  from preset_shows_exactly [OF this, of "''c''"] show ?thesis by (simp add: Let_def ids)
qed

text \<open>C25: Filling the slots of a preset returns whenever the id generator goes on yielding new ids: what it
  draws may be blank, repeated, an existing id or surrounded by blanks. The given ids come first, as
  normalized; after them trimmed new ones that are not blank, all distinct, exactly as many as the preset
  needs.\<close>

theorem preset_slots_filled:
  assumes "infinite (range (\<lambda>k. js_trim (gen k)))"
  shows "\<exists>new. ensureTerminalIdsForPreset ids pid gen = Some (presetNormalizeTerminalIds ids @ new) \<and>
    wf_ids (presetNormalizeTerminalIds ids @ new) \<and> set new \<subseteq> range (\<lambda>k. js_trim (gen k)) \<and>
    length (presetNormalizeTerminalIds ids @ new) =
      max (getWorkspaceLayoutPresetSlotCount pid) (length (presetNormalizeTerminalIds ids))"
proof -
  let ?nids = "presetNormalizeTerminalIds ids"
  from ensure_slots_returns [OF assms, of 0 "getWorkspaceLayoutPresetSlotCount pid" ?nids]
  obtain new where new: "ensure_slots gen 0 (getWorkspaceLayoutPresetSlotCount pid) ?nids = Some (?nids @ new)"
    "length (?nids @ new) = max (getWorkspaceLayoutPresetSlotCount pid) (length ?nids)"
    "list_all (\<lambda>i. i \<noteq> [] \<and> i \<in> range (\<lambda>k. js_trim (gen k))) new" "distinct new" "set new \<inter> set ?nids = {}"
    by blast
  then have "wf_ids (?nids @ new)"
    using presetNormalize_wf [of ids] by (auto simp: wf_ids_def list_all_iff trimmed_js_trim)
  with new show ?thesis
    by (intro exI [of _ new]) (auto simp: ensureTerminalIdsForPreset_def list_all_iff)
qed

text \<open>A generator that repeats itself and draws blanks.\<close>

theorem preset_slots_filled_witness:
  "\<exists>new. ensureTerminalIdsForPreset [''default''] ''quad'' (\<lambda>k. if even k then '' '' else ''t'' @ nat_str (k div 4)) =
     Some (''default'' # new) \<and> length new = 3"
proof -
  let ?gen = "\<lambda>k. if even k then '' '' else ''t'' @ nat_str (k div 4)"
  have ids: "presetNormalizeTerminalIds [''default''] = [''default'']"
    "getWorkspaceLayoutPresetSlotCount ''quad'' = 4" by code_simp+
  have t: "js_trim (''t'' @ nat_str k) = ''t'' @ nat_str k" for k
    by (rule js_trim_id) (rule trimmed_append_nat_str, simp_all add: is_space_def)
  have d: "even (Suc (4 * k)) = False" "Suc (4 * k) div 4 = k" for k :: nat by simp_all
  have "range (\<lambda>k. ''t'' @ nat_str k) \<subseteq> range (\<lambda>k. js_trim (?gen k))"
    by (rule image_subsetI, rule_tac x = "Suc (4 * x)" in range_eqI) (simp only: d if_False t)
  moreover have "infinite (range (\<lambda>k. ''t'' @ nat_str k))"
    using finite_imageD [of "\<lambda>k. ''t'' @ nat_str k" UNIV] by (auto simp: inj_on_def simp del: nat_str.simps)
  ultimately have "infinite (range (\<lambda>k. js_trim (?gen k)))" using infinite_super by blast
  from preset_slots_filled [OF this, of "[''default'']" "''quad''"] show ?thesis
    by (simp only: ids) auto
qed

end
