(* ===== verification/TerminalState.thy ===== *)
theory TerminalState
  imports LayoutPresets
begin

text \<open>
  The terminal state of a thread and its normalization: the first half of
  \<open>frontend/src/terminalStateStore.ts\<close>, with the enumerations of \<open>frontend/src/types.ts\<close>.
  String-literal unions are datatypes. The store keeps its dictionaries as objects; they are
  \<open>js_record\<close>s, and an absent one (\<open>null\<close> or \<open>undefined\<close> in old persisted data) is the
  empty record, as \<open>?? {}\<close> reads it.
\<close>

section \<open>The state\<close>

datatype primary_surface = ChatSurface | TerminalSurface

datatype presentation_mode = Drawer | Workspace

datatype workspace_layout = BothPanes | TerminalOnly

datatype workspace_tab = TerminalTab | ChatTab

datatype cli_kind = Codex | Claude

datatype attention_state = Attention | Review

record thread_terminal_state =
  entryPoint :: primary_surface
  terminalOpen :: bool
  presentationMode :: presentation_mode
  workspaceLayout :: workspace_layout
  workspaceActiveTab :: workspace_tab
  terminalHeight :: jsnum
  terminalIds :: "string list"
  terminalLabelsById :: "string js_record"
  terminalTitleOverridesById :: "string js_record"
  terminalCliKindsById :: "cli_kind js_record"
  terminalAttentionStatesById :: "attention_state js_record"
  runningTerminalIds :: "string list"
  activeTerminalId :: string
  terminalGroups :: "terminal_group list"
  activeTerminalGroupId :: string

definition DEFAULT_THREAD_TERMINAL_HEIGHT :: jsnum where
  "DEFAULT_THREAD_TERMINAL_HEIGHT = Num 280"

definition MAX_TERMINALS_PER_GROUP :: nat where
  "MAX_TERMINALS_PER_GROUP = 6"

section \<open>Normalizing ids and dictionaries\<close>

definition normalizeTerminalIds :: "string list \<Rightarrow> string list" where
  "normalizeTerminalIds tids =
     (let ids = js_dedup (filter (\<lambda>t. length t > 0) (map js_trim tids))
      in if length ids > 0 then ids else [DEFAULT_THREAD_TERMINAL_ID])"

definition normalizeRunningTerminalIds :: "string list \<Rightarrow> string list \<Rightarrow> string list" where
  "normalizeRunningTerminalIds running tids =
     (if length running = 0 then []
      else filter (\<lambda>t. length t > 0 \<and> t \<in> set tids) (map js_trim (js_dedup running)))"

definition key_le :: "string \<times> 'v \<Rightarrow> string \<times> 'v \<Rightarrow> bool" where
  "key_le left right = str_le (fst left) (fst right)"

definition normalizeTerminalLabels :: "string js_record \<Rightarrow> string list \<Rightarrow> string js_record" where
  "normalizeTerminalLabels labels tids =
     from_entries
       (to_sorted key_le
         (filter (\<lambda>(terminalId, _). terminalId \<in> set tids)
           (filter (\<lambda>(terminalId, label). length terminalId > 0 \<and> length label > 0)
             (map (\<lambda>(terminalId, label). (js_trim terminalId, js_trim label)) labels))))"

definition normalizeTerminalTitleOverrides ::
    "string js_record \<Rightarrow> string list \<Rightarrow> string js_record" where
  "normalizeTerminalTitleOverrides overrides tids =
     from_entries
       (to_sorted key_le
         (filter (\<lambda>(terminalId, titleOverride).
              length terminalId > 0 \<and> length titleOverride > 0 \<and> terminalId \<in> set tids)
           (map (\<lambda>(terminalId, titleOverride). (js_trim terminalId, js_trim titleOverride))
             overrides)))"

definition normalizeTerminalCliKinds :: "cli_kind js_record \<Rightarrow> string list \<Rightarrow> cli_kind js_record" where
  "normalizeTerminalCliKinds kinds tids =
     from_entries
       (to_sorted key_le
         (filter (\<lambda>(terminalId, _). terminalId \<in> set tids)
           (filter (\<lambda>(terminalId, cliKind).
                length terminalId > 0 \<and> (cliKind = Codex \<or> cliKind = Claude))
             (map (\<lambda>(terminalId, cliKind). (js_trim terminalId, cliKind)) kinds))))"

definition normalizeTerminalAttentionStates ::
    "attention_state js_record \<Rightarrow> string list \<Rightarrow> attention_state js_record" where
  "normalizeTerminalAttentionStates states tids =
     from_entries
       (to_sorted key_le
         (filter (\<lambda>(terminalId, _). terminalId \<in> set tids)
           (filter (\<lambda>(terminalId, state).
                length terminalId > 0 \<and> (state = Attention \<or> state = Review))
             (map (\<lambda>(terminalId, state). (js_trim terminalId, state)) states))))"

definition clearTerminalReviewState ::
    "attention_state js_record \<Rightarrow> string \<Rightarrow> attention_state js_record" where
  "clearTerminalReviewState states terminalId =
     (if rec_get states terminalId \<noteq> Some Review then states else rec_delete terminalId states)"

section \<open>Titles\<close>

definition generatedTerminalTitleBase :: "cli_kind option \<Rightarrow> string" where
  "generatedTerminalTitleBase cliKind =
     (if cliKind = Some Codex then ''Codex'' else if cliKind = Some Claude then ''Claude''
      else ''Terminal'')"

definition resolveTerminalDisplayTitle ::
    "string \<Rightarrow> string js_record \<Rightarrow> string js_record \<Rightarrow> string" where
  "resolveTerminalDisplayTitle terminalId labels overrides =
     str_or (js_trim (nullish (rec_get overrides terminalId) []))
       (str_or (js_trim (nullish (rec_get labels terminalId) [])) [])"

definition createUniqueTerminalTitle ::
    "cli_kind option \<Rightarrow> string option \<Rightarrow> string js_record \<Rightarrow> string js_record \<Rightarrow> string" where
  "createUniqueTerminalTitle cliKind excludeTerminalId labels overrides =
     (let baseTitle = generatedTerminalTitleBase cliKind;
          takenTitles = filter (\<lambda>title. length title > 0)
            (map (\<lambda>terminalId. resolveTerminalDisplayTitle terminalId labels overrides)
              (filter (\<lambda>terminalId. Some terminalId \<noteq> excludeTerminalId) (map fst labels)))
      in first_free (baseTitle @ '' '') takenTitles 1)"

fun ensureTerminalLabels ::
    "cli_kind js_record \<Rightarrow> string list \<Rightarrow> string js_record \<Rightarrow> string js_record \<Rightarrow> string js_record" where
  "ensureTerminalLabels kinds [] labels overrides = labels"
| "ensureTerminalLabels kinds (terminalId # rest) labels overrides =
     (if length (js_trim (nullish (rec_get labels terminalId) [])) > 0
      then ensureTerminalLabels kinds rest labels overrides
      else ensureTerminalLabels kinds rest
             (rec_set terminalId
               (createUniqueTerminalTitle (rec_get kinds terminalId) (Some terminalId) labels overrides)
               labels)
             overrides)"

section \<open>Normalizing groups\<close>

definition fallbackGroupId :: "string \<Rightarrow> string" where
  "fallbackGroupId terminalId = ''group-'' @ terminalId"

text \<open>The used ids are a list; the new set comes back with the candidate.\<close>

definition assignUniqueGroupId :: "string \<Rightarrow> string list \<Rightarrow> string \<times> string list" where
  "assignUniqueGroupId baseId usedGroupIds =
     (let candidate = (if baseId \<in> set usedGroupIds then first_free (baseId @ ''-'') usedGroupIds 2
                       else baseId)
      in (candidate, candidate # usedGroupIds))"

definition findGroupIndexByTerminalId :: "terminal_group list \<Rightarrow> string \<Rightarrow> nat option" where
  "findGroupIndexByTerminalId groups terminalId =
     find_index (\<lambda>g. terminalId \<in> set (collectTerminalIdsFromLayout (layout g))) groups"

text \<open>
  The two loops of \<open>normalizeTerminalGroups\<close>, over the groups built so far, the assigned terminal
  ids and the used group ids.
\<close>

fun normalizeGroupsLoop ::
    "string list \<Rightarrow> terminal_group list \<Rightarrow> terminal_group list \<times> string list \<times> string list \<Rightarrow>
     terminal_group list \<times> string list \<times> string list" where
  "normalizeGroupsLoop tids [] acc = acc"
| "normalizeGroupsLoop tids (g # rest) (nextGroups, assigned, used) =
     (case normalizeTerminalPaneGroup (raw_group g) tids of
        None \<Rightarrow> normalizeGroupsLoop tids rest (nextGroups, assigned, used)
      | Some normalizedGroup \<Rightarrow>
          (let unassigned = filter (\<lambda>t. t \<notin> set assigned)
                 (collectTerminalIdsFromLayout (layout normalizedGroup))
           in if length unassigned = 0 then normalizeGroupsLoop tids rest (nextGroups, assigned, used)
              else case normalizeTerminalPaneGroup (raw_group normalizedGroup) unassigned of
                None \<Rightarrow> normalizeGroupsLoop tids rest (nextGroups, assigned, used)
              | Some normalizedUnassignedGroup \<Rightarrow>
                  (let uniq = assignUniqueGroupId
                         (str_or (js_trim (groupId normalizedUnassignedGroup))
                           (fallbackGroupId (nullish (list_get unassigned 0) DEFAULT_THREAD_TERMINAL_ID)))
                         used
                   in normalizeGroupsLoop tids rest
                        (nextGroups @ [normalizedUnassignedGroup\<lparr>groupId := fst uniq\<rparr>],
                         collectTerminalIdsFromLayout (layout normalizedUnassignedGroup) @ assigned,
                         snd uniq))))"

fun assignRemainingLoop ::
    "string list \<Rightarrow> string list \<Rightarrow> string list \<Rightarrow> terminal_group list" where
  "assignRemainingLoop [] assigned used = []"
| "assignRemainingLoop (terminalId # rest) assigned used =
     (if terminalId \<in> set assigned then assignRemainingLoop rest assigned used
      else
        let uniq = assignUniqueGroupId (fallbackGroupId terminalId) used
        in createTerminalGroup (fst uniq) terminalId # assignRemainingLoop rest assigned (snd uniq))"

definition normalizeTerminalGroups :: "terminal_group list \<Rightarrow> string list \<Rightarrow> terminal_group list" where
  "normalizeTerminalGroups groups tids =
     (case normalizeGroupsLoop tids groups ([], [], []) of
        (nextGroups, assigned, used) \<Rightarrow>
          (let allGroups = nextGroups @ assignRemainingLoop tids assigned used
           in if length allGroups = 0
              then [createTerminalGroup (fallbackGroupId DEFAULT_THREAD_TERMINAL_ID)
                      DEFAULT_THREAD_TERMINAL_ID]
              else allGroups))"

section \<open>Equality, default state, normalization\<close>

text \<open>\<open>JSON.stringify\<close> comparison of layouts and records is equality of the values.\<close>

definition arraysEqual :: "string list \<Rightarrow> string list \<Rightarrow> bool" where
  "arraysEqual a b \<longleftrightarrow> length a = length b \<and> list_all (\<lambda>index. a ! index = b ! index) [0..<length a]"

definition terminalGroupsEqual :: "terminal_group list \<Rightarrow> terminal_group list \<Rightarrow> bool" where
  "terminalGroupsEqual left right \<longleftrightarrow>
     length left = length right \<and>
     list_all (\<lambda>index. groupId (left ! index) = groupId (right ! index) \<and>
        groupActiveTerminalId (left ! index) = groupActiveTerminalId (right ! index) \<and>
        layout (left ! index) = layout (right ! index)) [0..<length left]"

definition threadTerminalStateEqual ::
    "thread_terminal_state \<Rightarrow> thread_terminal_state \<Rightarrow> bool" where
  "threadTerminalStateEqual left right \<longleftrightarrow>
     entryPoint left = entryPoint right \<and>
     terminalOpen left = terminalOpen right \<and>
     presentationMode left = presentationMode right \<and>
     workspaceLayout left = workspaceLayout right \<and>
     workspaceActiveTab left = workspaceActiveTab right \<and>
     terminalHeight left = terminalHeight right \<and>
     activeTerminalId left = activeTerminalId right \<and>
     activeTerminalGroupId left = activeTerminalGroupId right \<and>
     arraysEqual (terminalIds left) (terminalIds right) \<and>
     terminalLabelsById left = terminalLabelsById right \<and>
     terminalTitleOverridesById left = terminalTitleOverridesById right \<and>
     terminalCliKindsById left = terminalCliKindsById right \<and>
     terminalAttentionStatesById left = terminalAttentionStatesById right \<and>
     arraysEqual (runningTerminalIds left) (runningTerminalIds right) \<and>
     terminalGroupsEqual (terminalGroups left) (terminalGroups right)"

definition DEFAULT_THREAD_TERMINAL_STATE :: thread_terminal_state where
  "DEFAULT_THREAD_TERMINAL_STATE =
     \<lparr>entryPoint = ChatSurface, terminalOpen = False, presentationMode = Drawer,
      workspaceLayout = BothPanes, workspaceActiveTab = TerminalTab,
      terminalHeight = DEFAULT_THREAD_TERMINAL_HEIGHT,
      terminalIds = [DEFAULT_THREAD_TERMINAL_ID],
      terminalLabelsById = [(DEFAULT_THREAD_TERMINAL_ID, ''Terminal 1'')],
      terminalTitleOverridesById = [], terminalCliKindsById = [], terminalAttentionStatesById = [],
      runningTerminalIds = [], activeTerminalId = DEFAULT_THREAD_TERMINAL_ID,
      terminalGroups = [createTerminalGroup (fallbackGroupId DEFAULT_THREAD_TERMINAL_ID)
                          DEFAULT_THREAD_TERMINAL_ID],
      activeTerminalGroupId = fallbackGroupId DEFAULT_THREAD_TERMINAL_ID\<rparr>"

text \<open>Copies are the value itself.\<close>

definition copyTerminalGroups :: "terminal_group list \<Rightarrow> terminal_group list" where
  "copyTerminalGroups groups = map (\<lambda>g. g\<lparr>layout := layout g\<rparr>) groups"

definition createDefaultThreadTerminalState :: thread_terminal_state where
  "createDefaultThreadTerminalState = DEFAULT_THREAD_TERMINAL_STATE
     \<lparr>terminalGroups := copyTerminalGroups (terminalGroups DEFAULT_THREAD_TERMINAL_STATE)\<rparr>"

definition getDefaultThreadTerminalState :: thread_terminal_state where
  "getDefaultThreadTerminalState = DEFAULT_THREAD_TERMINAL_STATE"

definition resolveActiveTerminalGroupId ::
    "thread_terminal_state \<Rightarrow> terminal_group list \<Rightarrow> string \<Rightarrow> string" where
  "resolveActiveTerminalGroupId state groups active =
     (let activeGroupIdFromState =
            (if list_ex (\<lambda>g. groupId g = activeTerminalGroupId state) groups
             then Some (activeTerminalGroupId state) else None);
          activeGroupIdFromTerminal =
            map_option groupId
              (List.find (\<lambda>g. active \<in> set (collectTerminalIdsFromLayout (layout g))) groups)
      in nullish (orelse (orelse activeGroupIdFromState activeGroupIdFromTerminal)
                    (map_option groupId (list_get groups 0)))
           (fallbackGroupId DEFAULT_THREAD_TERMINAL_ID))"

definition syncActiveTerminal :: "string \<Rightarrow> string \<Rightarrow> terminal_group \<Rightarrow> terminal_group" where
  "syncActiveTerminal activeGroup active g =
     (if groupId g = activeGroup \<and> active \<in> set (collectTerminalIdsFromLayout (layout g)) \<and>
         groupActiveTerminalId g \<noteq> active
      then setActiveTerminalInGroupLayout g active else g)"

definition normalizedThreadTerminalState :: "thread_terminal_state \<Rightarrow> thread_terminal_state" where
  "normalizedThreadTerminalState state =
     (let tids = normalizeTerminalIds (terminalIds state);
          nextTerminalIds = (if length tids > 0 then tids else [DEFAULT_THREAD_TERMINAL_ID]);
          labels = normalizeTerminalLabels (terminalLabelsById state) nextTerminalIds;
          overrides = normalizeTerminalTitleOverrides (terminalTitleOverridesById state) nextTerminalIds;
          kinds = normalizeTerminalCliKinds (terminalCliKindsById state) nextTerminalIds;
          attention = normalizeTerminalAttentionStates (terminalAttentionStatesById state) nextTerminalIds;
          ensured = ensureTerminalLabels kinds nextTerminalIds labels overrides;
          running = normalizeRunningTerminalIds (runningTerminalIds state) nextTerminalIds;
          active = (if activeTerminalId state \<in> set nextTerminalIds then activeTerminalId state
                    else nullish (list_get nextTerminalIds 0) DEFAULT_THREAD_TERMINAL_ID);
          groups = normalizeTerminalGroups (terminalGroups state) nextTerminalIds;
          activeGroup = resolveActiveTerminalGroupId state groups active;
          syncedGroups = map (syncActiveTerminal activeGroup active) groups
      in \<lparr>entryPoint = (if entryPoint state = TerminalSurface then TerminalSurface else ChatSurface),
          terminalOpen = terminalOpen state,
          presentationMode = (if presentationMode state = Workspace then Workspace else Drawer),
          workspaceLayout = (if workspaceLayout state = TerminalOnly then TerminalOnly else BothPanes),
          workspaceActiveTab = (if workspaceActiveTab state = ChatTab then ChatTab else TerminalTab),
          terminalHeight = (case terminalHeight state of
             Num h \<Rightarrow> if h > 0 then Num h else DEFAULT_THREAD_TERMINAL_HEIGHT
           | NonFinite \<Rightarrow> DEFAULT_THREAD_TERMINAL_HEIGHT),
          terminalIds = nextTerminalIds, terminalLabelsById = ensured,
          terminalTitleOverridesById = overrides, terminalCliKindsById = kinds,
          terminalAttentionStatesById = attention, runningTerminalIds = running,
          activeTerminalId = active, terminalGroups = syncedGroups,
          activeTerminalGroupId = activeGroup\<rparr>)"

definition normalizeThreadTerminalState :: "thread_terminal_state \<Rightarrow> thread_terminal_state" where
  "normalizeThreadTerminalState state =
     (let normalized = normalizedThreadTerminalState state
      in if threadTerminalStateEqual state normalized then state else normalized)"

definition isDefaultThreadTerminalState :: "thread_terminal_state \<Rightarrow> bool" where
  "isDefaultThreadTerminalState state =
     threadTerminalStateEqual (normalizeThreadTerminalState state) DEFAULT_THREAD_TERMINAL_STATE"

definition stripVolatileTerminalRuntimeState :: "thread_terminal_state \<Rightarrow> thread_terminal_state" where
  "stripVolatileTerminalRuntimeState state =
     (let normalized = normalizeThreadTerminalState state
      in if length (runningTerminalIds normalized) = 0 \<and>
            length (map fst (terminalAttentionStatesById normalized)) = 0
         then normalized
         else normalized\<lparr>terminalAttentionStatesById := [], runningTerminalIds := []\<rparr>)"

definition isValidTerminalId :: "string \<Rightarrow> bool" where
  "isValidTerminalId terminalId \<longleftrightarrow> length (js_trim terminalId) > 0"

end
