(* ===== verification/TerminalActions.thy ===== *)
theory TerminalActions
  imports TerminalState
begin

text \<open>
  The transitions of a thread's terminal state: the second half of
  \<open>frontend/src/terminalStateStore.ts\<close>, one definition per helper, in the order of the file.
  \<open>terminal_action\<close> and \<open>terminal_step\<close> collect what the store's actions apply to a
  thread's state.
\<close>

section \<open>Adding terminals\<close>

datatype upsert_mode = SplitMode | NewMode

text \<open>\<open>{...normalized, terminalOpen: true, ...}\<close>, as the adding operations end.\<close>

definition reopen_with ::
    "thread_terminal_state \<Rightarrow> string list \<Rightarrow> string \<Rightarrow> terminal_group list \<Rightarrow> string \<Rightarrow>
     thread_terminal_state" where
  "reopen_with normalized tids active groups activeGroup =
     normalizeThreadTerminalState
       (normalized\<lparr>terminalOpen := True, terminalIds := tids, activeTerminalId := active,
          terminalGroups := groups, activeTerminalGroupId := activeGroup\<rparr>)"

text \<open>The terminal leaves the group that holds it, if any.\<close>

definition detachTerminal :: "terminal_group list \<Rightarrow> string \<Rightarrow> terminal_group list" where
  "detachTerminal groups terminalId =
     (case findGroupIndexByTerminalId groups terminalId of
        None \<Rightarrow> groups
      | Some existingGroupIndex \<Rightarrow>
          (case removeTerminalFromGroupLayout (groups ! existingGroupIndex) terminalId of
             Some nextExistingGroup \<Rightarrow> groups[existingGroupIndex := nextExistingGroup]
           | None \<Rightarrow> splice_one existingGroupIndex [] groups))"

text \<open>The group a split goes to: the active one, else that of the active terminal, else a new one.\<close>

definition destinationGroups ::
    "thread_terminal_state \<Rightarrow> terminal_group list \<Rightarrow> terminal_group list \<times> nat" where
  "destinationGroups normalized groups =
     (case orelse (find_index (\<lambda>g. groupId g = activeTerminalGroupId normalized) groups)
                  (findGroupIndexByTerminalId groups (activeTerminalId normalized)) of
        Some activeGroupIndex \<Rightarrow> (groups, activeGroupIndex)
      | None \<Rightarrow>
          (let nextGroupId = fst (assignUniqueGroupId (fallbackGroupId (activeTerminalId normalized))
                                    (map groupId groups))
           in (groups @ [createTerminalGroup nextGroupId (activeTerminalId normalized)],
               length groups)))"

definition upsertTerminalIntoGroups ::
    "thread_terminal_state \<Rightarrow> string \<Rightarrow> upsert_mode \<Rightarrow> split_position \<Rightarrow> thread_terminal_state" where
  "upsertTerminalIntoGroups state terminalId mode position =
     (let normalized = normalizeThreadTerminalState state
      in if \<not> isValidTerminalId terminalId then normalized
         else
           let isNewTerminal = (terminalId \<notin> set (terminalIds normalized));
               tids = (if isNewTerminal then terminalIds normalized @ [terminalId]
                       else terminalIds normalized);
               groups = detachTerminal (copyTerminalGroups (terminalGroups normalized)) terminalId
           in if mode = NewMode then
                let nextGroupId = fst (assignUniqueGroupId (fallbackGroupId terminalId)
                                         (map groupId groups))
                in reopen_with normalized tids terminalId
                     (groups @ [createTerminalGroup nextGroupId terminalId]) nextGroupId
              else
                let dest = destinationGroups normalized groups;
                    destinationGroup = fst dest ! snd dest;
                    destinationTerminalIds = collectTerminalIdsFromLayout (layout destinationGroup)
                in if isNewTerminal \<and> terminalId \<notin> set destinationTerminalIds \<and>
                      length destinationTerminalIds \<ge> MAX_TERMINALS_PER_GROUP
                   then normalized
                   else
                     let splitGroups =
                           (if terminalId \<notin> set destinationTerminalIds
                            then (fst dest)[snd dest := splitTerminalGroupLayout destinationGroup
                                    (activeTerminalId normalized) terminalId position
                                    (''split-'' @ terminalId)]
                            else fst dest)
                     in reopen_with normalized tids terminalId splitGroups
                          (groupId (splitGroups ! snd dest)))"

section \<open>Visibility and presentation\<close>

definition setThreadTerminalOpen :: "thread_terminal_state \<Rightarrow> bool \<Rightarrow> thread_terminal_state" where
  "setThreadTerminalOpen state opn =
     (let normalized = normalizeThreadTerminalState state
      in if terminalOpen normalized = opn then normalized else normalized\<lparr>terminalOpen := opn\<rparr>)"

definition openThreadChatPage :: "thread_terminal_state \<Rightarrow> thread_terminal_state" where
  "openThreadChatPage state =
     (let normalized = normalizeThreadTerminalState state;
          workspaceVisible = (terminalOpen normalized \<and> presentationMode normalized = Workspace)
      in if entryPoint normalized = ChatSurface \<and> \<not> workspaceVisible then normalized
         else if \<not> workspaceVisible then normalized\<lparr>entryPoint := ChatSurface\<rparr>
         else normalized\<lparr>entryPoint := ChatSurface, workspaceLayout := BothPanes,
                workspaceActiveTab := ChatTab\<rparr>)"

definition openThreadTerminalPage ::
    "thread_terminal_state \<Rightarrow> bool option \<Rightarrow> thread_terminal_state" where
  "openThreadTerminalPage state terminalOnly =
     (let normalized = normalizeThreadTerminalState state;
          shouldUseTerminalOnlyLayout =
            nullish terminalOnly
              (if entryPoint normalized = TerminalSurface
               then workspaceLayout normalized = TerminalOnly else True);
          nextWorkspaceLayout =
            (if shouldUseTerminalOnlyLayout then TerminalOnly else workspaceLayout normalized)
      in if entryPoint normalized = TerminalSurface \<and> terminalOpen normalized \<and>
            presentationMode normalized = Workspace \<and> workspaceActiveTab normalized = TerminalTab \<and>
            workspaceLayout normalized = nextWorkspaceLayout
         then normalized
         else normalized\<lparr>entryPoint := TerminalSurface, terminalOpen := True,
                presentationMode := Workspace, workspaceLayout := nextWorkspaceLayout,
                workspaceActiveTab := TerminalTab,
                terminalAttentionStatesById :=
                  clearTerminalReviewState (terminalAttentionStatesById normalized)
                    (activeTerminalId normalized)\<rparr>)"

definition setThreadTerminalPresentationMode ::
    "thread_terminal_state \<Rightarrow> presentation_mode \<Rightarrow> thread_terminal_state" where
  "setThreadTerminalPresentationMode state mode =
     (let normalized = normalizeThreadTerminalState state
      in if presentationMode normalized = mode then normalized
         else normalized\<lparr>terminalOpen := True, presentationMode := mode,
                workspaceLayout := workspaceLayout normalized,
                workspaceActiveTab :=
                  (if mode = Workspace then TerminalTab else workspaceActiveTab normalized)\<rparr>)"

definition setThreadTerminalWorkspaceTab ::
    "thread_terminal_state \<Rightarrow> workspace_tab \<Rightarrow> thread_terminal_state" where
  "setThreadTerminalWorkspaceTab state tab =
     (let normalized = normalizeThreadTerminalState state;
          nextWorkspaceLayout = (if tab = ChatTab then BothPanes else workspaceLayout normalized)
      in if workspaceActiveTab normalized = tab \<and> workspaceLayout normalized = nextWorkspaceLayout
         then normalized
         else normalized\<lparr>workspaceLayout := nextWorkspaceLayout, workspaceActiveTab := tab,
                terminalAttentionStatesById :=
                  (if tab = TerminalTab
                   then clearTerminalReviewState (terminalAttentionStatesById normalized)
                          (activeTerminalId normalized)
                   else terminalAttentionStatesById normalized)\<rparr>)"

definition setThreadTerminalWorkspaceLayout ::
    "thread_terminal_state \<Rightarrow> workspace_layout \<Rightarrow> thread_terminal_state" where
  "setThreadTerminalWorkspaceLayout state wlayout =
     (let normalized = normalizeThreadTerminalState state;
          nextActiveTab =
            (if wlayout = TerminalOnly then TerminalTab
             else if workspaceActiveTab normalized = ChatTab then ChatTab else TerminalTab)
      in if workspaceLayout normalized = wlayout \<and> workspaceActiveTab normalized = nextActiveTab
         then normalized
         else normalized\<lparr>workspaceLayout := wlayout, workspaceActiveTab := nextActiveTab\<rparr>)"

definition setThreadTerminalHeight :: "thread_terminal_state \<Rightarrow> jsnum \<Rightarrow> thread_terminal_state" where
  "setThreadTerminalHeight state height =
     (let normalized = normalizeThreadTerminalState state
      in case height of
           NonFinite \<Rightarrow> normalized
         | Num h \<Rightarrow> if h \<le> 0 \<or> terminalHeight normalized = Num h then normalized
                    else normalized\<lparr>terminalHeight := Num h\<rparr>)"

section \<open>Metadata of a terminal\<close>

definition setOrDelete :: "string \<Rightarrow> 'v option \<Rightarrow> 'v js_record \<Rightarrow> 'v js_record" where
  "setOrDelete k v r = (case v of None \<Rightarrow> rec_delete k r | Some x \<Rightarrow> rec_set k x r)"

definition setThreadTerminalMetadata ::
    "thread_terminal_state \<Rightarrow> string \<Rightarrow> cli_kind option \<Rightarrow> string \<Rightarrow> thread_terminal_state" where
  "setThreadTerminalMetadata state terminalId nextCliKind label =
     (let normalized = normalizeThreadTerminalState state
      in if terminalId \<notin> set (terminalIds normalized) then normalized
         else
           let currentLabel = nullish (rec_get (terminalLabelsById normalized) terminalId) [];
               currentTitleOverride =
                 js_trim (nullish (rec_get (terminalTitleOverridesById normalized) terminalId) []);
               currentCliKind = rec_get (terminalCliKindsById normalized) terminalId;
               nextLabel =
                 (if length currentTitleOverride > 0 then currentLabel
                  else if nextCliKind \<noteq> None
                    then createUniqueTerminalTitle nextCliKind (Some terminalId)
                           (terminalLabelsById normalized) (terminalTitleOverridesById normalized)
                  else if length (js_trim label) > 0 then js_trim label
                  else currentLabel)
           in if currentLabel = nextLabel \<and> currentCliKind = nextCliKind then normalized
              else normalized
                \<lparr>terminalLabelsById := rec_set terminalId nextLabel (terminalLabelsById normalized),
                 terminalCliKindsById :=
                   setOrDelete terminalId nextCliKind (terminalCliKindsById normalized)\<rparr>)"

definition setThreadTerminalCliKind ::
    "thread_terminal_state \<Rightarrow> string \<Rightarrow> cli_kind option \<Rightarrow> thread_terminal_state" where
  "setThreadTerminalCliKind state terminalId cliKind =
     (let normalized = normalizeThreadTerminalState state
      in if terminalId \<notin> set (terminalIds normalized) then normalized
         else if rec_get (terminalCliKindsById normalized) terminalId = cliKind then normalized
         else
           let currentTitleOverride =
                 js_trim (nullish (rec_get (terminalTitleOverridesById normalized) terminalId) []);
               labels =
                 (if cliKind \<noteq> None \<and> length currentTitleOverride = 0
                  then rec_set terminalId
                         (createUniqueTerminalTitle cliKind (Some terminalId)
                           (terminalLabelsById normalized) (terminalTitleOverridesById normalized))
                         (terminalLabelsById normalized)
                  else terminalLabelsById normalized)
           in normalized\<lparr>terminalLabelsById := labels,
                terminalCliKindsById :=
                  setOrDelete terminalId cliKind (terminalCliKindsById normalized)\<rparr>)"

text \<open>A null or undefined override is the empty string.\<close>

definition setThreadTerminalTitleOverride ::
    "thread_terminal_state \<Rightarrow> string \<Rightarrow> string option \<Rightarrow> thread_terminal_state" where
  "setThreadTerminalTitleOverride state terminalId titleOverride =
     (let normalized = normalizeThreadTerminalState state
      in if terminalId \<notin> set (terminalIds normalized) then normalized
         else
           let normalizedTitleOverride = js_trim (nullish titleOverride []);
               currentTitleOverride =
                 nullish (rec_get (terminalTitleOverridesById normalized) terminalId) []
           in if currentTitleOverride = normalizedTitleOverride then normalized
              else normalized\<lparr>terminalTitleOverridesById :=
                     setOrDelete terminalId
                       (if length normalizedTitleOverride = 0 then None
                        else Some normalizedTitleOverride)
                       (terminalTitleOverridesById normalized)\<rparr>)"

section \<open>Splitting, tabs, activation\<close>

definition splitThreadTerminal :: "thread_terminal_state \<Rightarrow> string \<Rightarrow> thread_terminal_state" where
  "splitThreadTerminal state terminalId = upsertTerminalIntoGroups state terminalId SplitMode Right"

definition splitThreadTerminalLeft :: "thread_terminal_state \<Rightarrow> string \<Rightarrow> thread_terminal_state" where
  "splitThreadTerminalLeft state terminalId = upsertTerminalIntoGroups state terminalId SplitMode Left"

definition splitThreadTerminalDown :: "thread_terminal_state \<Rightarrow> string \<Rightarrow> thread_terminal_state" where
  "splitThreadTerminalDown state terminalId = upsertTerminalIntoGroups state terminalId SplitMode Bottom"

definition splitThreadTerminalUp :: "thread_terminal_state \<Rightarrow> string \<Rightarrow> thread_terminal_state" where
  "splitThreadTerminalUp state terminalId = upsertTerminalIntoGroups state terminalId SplitMode Top"

definition newThreadTerminal :: "thread_terminal_state \<Rightarrow> string \<Rightarrow> thread_terminal_state" where
  "newThreadTerminal state terminalId = upsertTerminalIntoGroups state terminalId NewMode Right"

definition newThreadTerminalTab ::
    "thread_terminal_state \<Rightarrow> string \<Rightarrow> string \<Rightarrow> thread_terminal_state" where
  "newThreadTerminalTab state targetTerminalId terminalId =
     (let normalized = normalizeThreadTerminalState state
      in if \<not> isValidTerminalId terminalId \<or> terminalId \<in> set (terminalIds normalized) then normalized
         else
           let groups = copyTerminalGroups (terminalGroups normalized)
           in case orelse (findGroupIndexByTerminalId groups targetTerminalId)
                          (findGroupIndexByTerminalId groups (activeTerminalId normalized)) of
                None \<Rightarrow> newThreadTerminal normalized terminalId
              | Some activeGroupIndex \<Rightarrow>
                  (let destinationGroup = groups ! activeGroupIndex
                   in if length (collectTerminalIdsFromLayout (layout destinationGroup)) \<ge>
                         MAX_TERMINALS_PER_GROUP
                      then normalized
                      else
                        let nextGroup = addTerminalTabToGroupLayout destinationGroup
                              targetTerminalId terminalId
                        in reopen_with normalized (terminalIds normalized @ [terminalId]) terminalId
                             (groups[activeGroupIndex := nextGroup]) (groupId nextGroup)))"

definition groupIdOfTerminal :: "terminal_group list \<Rightarrow> string \<Rightarrow> string option" where
  "groupIdOfTerminal groups terminalId =
     map_option groupId
       (List.find (\<lambda>g. terminalId \<in> set (collectTerminalIdsFromLayout (layout g))) groups)"

definition setThreadActiveTerminal :: "thread_terminal_state \<Rightarrow> string \<Rightarrow> thread_terminal_state" where
  "setThreadActiveTerminal state terminalId =
     (let normalized = normalizeThreadTerminalState state
      in if terminalId \<notin> set (terminalIds normalized) then normalized
         else
           let activeGroup = nullish (groupIdOfTerminal (terminalGroups normalized) terminalId)
                 (activeTerminalGroupId normalized);
               groups = map (\<lambda>g. if groupId g = activeGroup
                                 then setActiveTerminalInGroupLayout g terminalId else g)
                 (terminalGroups normalized)
           in if activeTerminalId normalized = terminalId \<and>
                 activeTerminalGroupId normalized = activeGroup \<and>
                 terminalGroupsEqual groups (terminalGroups normalized) \<and>
                 rec_get (terminalAttentionStatesById normalized) terminalId \<noteq> Some Review
              then normalized
              else normalized\<lparr>activeTerminalId := terminalId, terminalGroups := groups,
                     activeTerminalGroupId := activeGroup,
                     terminalAttentionStatesById :=
                       clearTerminalReviewState (terminalAttentionStatesById normalized) terminalId\<rparr>)"

section \<open>Closing\<close>

definition closeThreadTerminal :: "thread_terminal_state \<Rightarrow> string \<Rightarrow> thread_terminal_state" where
  "closeThreadTerminal state terminalId =
     (let normalized = normalizeThreadTerminalState state
      in if terminalId \<notin> set (terminalIds normalized) then normalized
         else
           let remainingTerminalIds = filter (\<lambda>t. t \<noteq> terminalId) (terminalIds normalized)
           in if length remainingTerminalIds = 0 then
                (if entryPoint normalized = TerminalSurface
                 then normalizeThreadTerminalState
                   (createDefaultThreadTerminalState
                     \<lparr>entryPoint := TerminalSurface, terminalOpen := False,
                      presentationMode := presentationMode normalized,
                      workspaceLayout := workspaceLayout normalized,
                      workspaceActiveTab := TerminalTab,
                      terminalHeight := terminalHeight normalized\<rparr>)
                 else createDefaultThreadTerminalState)
              else
                let sourceGroupId = nullish (groupIdOfTerminal (terminalGroups normalized) terminalId)
                      (activeTerminalGroupId normalized);
                    groups = cat_options (map (\<lambda>g. removeTerminalFromGroupLayout g terminalId)
                      (terminalGroups normalized));
                    closedTerminalIndex = nullish (index_of (terminalIds normalized) terminalId) 0;
                    nextActiveTerminalId =
                      (if activeTerminalId normalized = terminalId
                       then nullish
                         (orelse
                           (orelse
                             (map_option groupActiveTerminalId
                               (List.find (\<lambda>g. groupId g = sourceGroupId) groups))
                             (list_get remainingTerminalIds
                               (min closedTerminalIndex (length remainingTerminalIds - 1))))
                           (list_get remainingTerminalIds 0))
                         DEFAULT_THREAD_TERMINAL_ID
                       else activeTerminalId normalized);
                    nextActiveTerminalGroupId =
                      nullish
                        (orelse (groupIdOfTerminal groups nextActiveTerminalId)
                                (map_option groupId (list_get groups 0)))
                        (fallbackGroupId nextActiveTerminalId)
                in normalizeThreadTerminalState
                  \<lparr>entryPoint = entryPoint normalized, terminalOpen = terminalOpen normalized,
                   presentationMode = presentationMode normalized,
                   workspaceLayout = workspaceLayout normalized,
                   workspaceActiveTab = workspaceActiveTab normalized,
                   terminalHeight = terminalHeight normalized,
                   terminalIds = remainingTerminalIds,
                   terminalLabelsById =
                     from_entries (filter (\<lambda>(i, _). i \<noteq> terminalId) (terminalLabelsById normalized)),
                   terminalTitleOverridesById =
                     from_entries (filter (\<lambda>(i, _). i \<noteq> terminalId) (terminalTitleOverridesById normalized)),
                   terminalCliKindsById =
                     from_entries (filter (\<lambda>(i, _). i \<noteq> terminalId) (terminalCliKindsById normalized)),
                   terminalAttentionStatesById =
                     from_entries (filter (\<lambda>(i, _). i \<noteq> terminalId)
                       (terminalAttentionStatesById normalized)),
                   runningTerminalIds = filter (\<lambda>i. i \<noteq> terminalId) (runningTerminalIds normalized),
                   activeTerminalId = nextActiveTerminalId, terminalGroups = groups,
                   activeTerminalGroupId = nextActiveTerminalGroupId\<rparr>)"

definition closeThreadTerminalGroup :: "thread_terminal_state \<Rightarrow> string \<Rightarrow> thread_terminal_state" where
  "closeThreadTerminalGroup state gid =
     (let normalized = normalizeThreadTerminalState state
      in case List.find (\<lambda>entry. groupId entry = gid) (terminalGroups normalized) of
           None \<Rightarrow> normalized
         | Some g \<Rightarrow> foldl closeThreadTerminal normalized (collectTerminalIdsFromLayout (layout g)))"

section \<open>Resizing, workspace, activity, presets\<close>

definition resizeThreadTerminalSplit ::
    "thread_terminal_state \<Rightarrow> string \<Rightarrow> string \<Rightarrow> jsnum list \<Rightarrow> thread_terminal_state" where
  "resizeThreadTerminalSplit state gid sid ws =
     (let normalized = normalizeThreadTerminalState state
      in case find_index (\<lambda>g. groupId g = gid) (terminalGroups normalized) of
           None \<Rightarrow> normalized
         | Some groupIndex \<Rightarrow>
             (let g = terminalGroups normalized ! groupIndex;
                  nextGroup = resizeTerminalGroupLayout g sid ws
              in if nextGroup = g then normalized
                 else normalizeThreadTerminalState
                   (normalized\<lparr>terminalGroups :=
                      (copyTerminalGroups (terminalGroups normalized))[groupIndex := nextGroup]\<rparr>)))"

definition openThreadTerminalFullWidth ::
    "thread_terminal_state \<Rightarrow> string \<Rightarrow> thread_terminal_state" where
  "openThreadTerminalFullWidth state terminalId =
     normalizeThreadTerminalState
       ((newThreadTerminal state terminalId)
          \<lparr>terminalOpen := True, presentationMode := Workspace, workspaceLayout := TerminalOnly,
           workspaceActiveTab := TerminalTab, activeTerminalId := terminalId\<rparr>)"

definition closeThreadWorkspaceChat :: "thread_terminal_state \<Rightarrow> thread_terminal_state" where
  "closeThreadWorkspaceChat state =
     (let normalized = normalizeThreadTerminalState state
      in if workspaceLayout normalized = TerminalOnly then normalized
         else normalized\<lparr>workspaceLayout := TerminalOnly, workspaceActiveTab := TerminalTab\<rparr>)"

datatype activity_state = ActivityRunning | ActivityAttention | ActivityReview

definition setThreadTerminalActivity ::
    "thread_terminal_state \<Rightarrow> string \<Rightarrow> activity_state option \<Rightarrow> bool \<Rightarrow> thread_terminal_state" where
  "setThreadTerminalActivity state terminalId agentState hasRunningSubprocess =
     (let normalized = normalizeThreadTerminalState state
      in if terminalId \<notin> set (terminalIds normalized) then normalized
         else
           let alreadyRunning = (terminalId \<in> set (runningTerminalIds normalized));
               nextTerminalAttentionState =
                 (case agentState of
                    Some ActivityAttention \<Rightarrow> Some Attention
                  | Some ActivityReview \<Rightarrow> Some Review
                  | _ \<Rightarrow> None);
               currentTerminalAttentionState =
                 rec_get (terminalAttentionStatesById normalized) terminalId
           in if hasRunningSubprocess = alreadyRunning \<and>
                 nextTerminalAttentionState = currentTerminalAttentionState
              then normalized
              else
                let runningSet = js_dedup (runningTerminalIds normalized);
                    running = (if hasRunningSubprocess
                               then (if terminalId \<in> set runningSet then runningSet
                                     else runningSet @ [terminalId])
                               else removeAll terminalId runningSet)
                in normalized
                     \<lparr>terminalAttentionStatesById :=
                        setOrDelete terminalId nextTerminalAttentionState
                          (terminalAttentionStatesById normalized),
                      runningTerminalIds := running\<rparr>)"

definition applyThreadWorkspaceLayoutPreset ::
    "thread_terminal_state \<Rightarrow> string \<Rightarrow> string list \<Rightarrow> thread_terminal_state" where
  "applyThreadWorkspaceLayoutPreset state pid tids =
     (let normalized = normalizeThreadTerminalState state;
          nextTerminalIds = normalizeTerminalIds tids;
          active = (if activeTerminalId normalized \<in> set nextTerminalIds
                    then activeTerminalId normalized
                    else nullish (list_get nextTerminalIds 0) DEFAULT_THREAD_TERMINAL_ID);
          labels = ensureTerminalLabels
            (normalizeTerminalCliKinds (terminalCliKindsById normalized) nextTerminalIds)
            nextTerminalIds
            (normalizeTerminalLabels (terminalLabelsById normalized) nextTerminalIds)
            (normalizeTerminalTitleOverrides (terminalTitleOverridesById normalized) nextTerminalIds);
          overrides = normalizeTerminalTitleOverrides (terminalTitleOverridesById normalized)
            nextTerminalIds;
          kinds = normalizeTerminalCliKinds (terminalCliKindsById normalized) nextTerminalIds;
          grp = createWorkspaceTerminalGroupFromPreset pid nextTerminalIds active
      in normalizeThreadTerminalState
           (normalized
              \<lparr>terminalOpen := True, presentationMode := Workspace, workspaceLayout := TerminalOnly,
               workspaceActiveTab := TerminalTab, terminalIds := nextTerminalIds,
               terminalLabelsById := labels, terminalTitleOverridesById := overrides,
               terminalCliKindsById := kinds,
               terminalAttentionStatesById :=
                 normalizeTerminalAttentionStates (terminalAttentionStatesById normalized)
                   nextTerminalIds,
               runningTerminalIds :=
                 normalizeRunningTerminalIds (runningTerminalIds normalized) nextTerminalIds,
               activeTerminalId := active, terminalGroups := [grp],
               activeTerminalGroupId := groupId grp\<rparr>))"

section \<open>The actions of a thread\<close>

datatype terminal_action =
    OpenChatPage
  | OpenTerminalPage "bool option"
  | SetOpen bool
  | SetPresentationMode presentation_mode
  | SetWorkspaceLayout workspace_layout
  | SetWorkspaceTab workspace_tab
  | SetHeight jsnum
  | SetMetadata string "cli_kind option" string
  | SetCliKind string "cli_kind option"
  | SetTitleOverride string "string option"
  | SplitTerminal string
  | SplitTerminalLeft string
  | SplitTerminalRight string
  | SplitTerminalDown string
  | SplitTerminalUp string
  | NewTerminal string
  | NewTerminalTab string string
  | OpenNewFullWidthTerminal string
  | CloseWorkspaceChat
  | SetActiveTerminal string
  | CloseTerminal string
  | CloseTerminalGroup string
  | ResizeTerminalSplit string string "jsnum list"
  | SetTerminalActivity string "activity_state option" bool
  | ApplyWorkspaceLayoutPreset string "string list"
  | ClearTerminalState

fun terminal_step :: "thread_terminal_state \<Rightarrow> terminal_action \<Rightarrow> thread_terminal_state" where
  "terminal_step s OpenChatPage = openThreadChatPage s"
| "terminal_step s (OpenTerminalPage terminalOnly) = openThreadTerminalPage s terminalOnly"
| "terminal_step s (SetOpen opn) = setThreadTerminalOpen s opn"
| "terminal_step s (SetPresentationMode mode) = setThreadTerminalPresentationMode s mode"
| "terminal_step s (SetWorkspaceLayout wlayout) = setThreadTerminalWorkspaceLayout s wlayout"
| "terminal_step s (SetWorkspaceTab tab) = setThreadTerminalWorkspaceTab s tab"
| "terminal_step s (SetHeight height) = setThreadTerminalHeight s height"
| "terminal_step s (SetMetadata t kind label) = setThreadTerminalMetadata s t kind label"
| "terminal_step s (SetCliKind t kind) = setThreadTerminalCliKind s t kind"
| "terminal_step s (SetTitleOverride t title) = setThreadTerminalTitleOverride s t title"
| "terminal_step s (SplitTerminal t) = splitThreadTerminal s t"
| "terminal_step s (SplitTerminalLeft t) = splitThreadTerminalLeft s t"
| "terminal_step s (SplitTerminalRight t) = splitThreadTerminal s t"
| "terminal_step s (SplitTerminalDown t) = splitThreadTerminalDown s t"
| "terminal_step s (SplitTerminalUp t) = splitThreadTerminalUp s t"
| "terminal_step s (NewTerminal t) = newThreadTerminal s t"
| "terminal_step s (NewTerminalTab target t) = newThreadTerminalTab s target t"
| "terminal_step s (OpenNewFullWidthTerminal t) = openThreadTerminalFullWidth s t"
| "terminal_step s CloseWorkspaceChat = closeThreadWorkspaceChat s"
| "terminal_step s (SetActiveTerminal t) = setThreadActiveTerminal s t"
| "terminal_step s (CloseTerminal t) = closeThreadTerminal s t"
| "terminal_step s (CloseTerminalGroup g) = closeThreadTerminalGroup s g"
| "terminal_step s (ResizeTerminalSplit g sid ws) = resizeThreadTerminalSplit s g sid ws"
| "terminal_step s (SetTerminalActivity t agent running) = setThreadTerminalActivity s t agent running"
| "terminal_step s (ApplyWorkspaceLayoutPreset pid tids) = applyThreadWorkspaceLayoutPreset s pid tids"
| "terminal_step s ClearTerminalState = createDefaultThreadTerminalState"

end
