(* ===== verification/TerminalStateWf.thy ===== *)
theory TerminalStateWf
  imports TerminalActions
begin

text \<open>
  Well-formed terminal states: what normalization establishes, whatever it is given, and leaves
  alone once it holds. The lemmas go from the groups (\<open>canonical_groups\<close>) over the dictionaries
  to the whole state (\<open>wf_state\<close>).
\<close>

section \<open>Equality tests are equality\<close>

lemma arraysEqual_iff [simp]: "arraysEqual a b \<longleftrightarrow> a = b"
  by (auto simp: arraysEqual_def list_all_iff intro: nth_equalityI)

lemma terminalGroupsEqual_iff [simp]: "terminalGroupsEqual gs hs \<longleftrightarrow> gs = hs"
  by (auto simp: terminalGroupsEqual_def list_all_iff intro!: nth_equalityI)

lemma threadTerminalStateEqual_iff [simp]: "threadTerminalStateEqual s t \<longleftrightarrow> s = t"
  by (auto simp: threadTerminalStateEqual_def)

lemma copyTerminalGroups_id [simp]: "copyTerminalGroups gs = gs"
  by (simp add: copyTerminalGroups_def)

lemma normalizeThreadTerminalState_eq:
  "normalizeThreadTerminalState s = normalizedThreadTerminalState s"
  by (simp add: normalizeThreadTerminalState_def Let_def)

section \<open>Groups\<close>

definition groups_ids :: "terminal_group list \<Rightarrow> string set" where
  "groups_ids gs = (\<Union>g\<in>set gs. set (group_ids g))"

abbreviation disjoint_groups :: "terminal_group \<Rightarrow> terminal_group \<Rightarrow> bool" where
  "disjoint_groups g h \<equiv> set (group_ids g) \<inter> set (group_ids h) = {}"

definition apart_groups :: "terminal_group list \<Rightarrow> bool" where
  "apart_groups gs \<longleftrightarrow> list_all wf_group gs \<and> distinct (map groupId gs) \<and>
     sorted_wrt disjoint_groups gs"

definition separate_groups :: "terminal_group list \<Rightarrow> bool" where
  "separate_groups gs \<longleftrightarrow> list_all wf_group gs \<and> list_all flat_group gs \<and>
     distinct (map groupId gs) \<and> sorted_wrt disjoint_groups gs"

lemma separate_groups_apart: "separate_groups gs \<longleftrightarrow> apart_groups gs \<and> list_all flat_group gs"
  by (auto simp: separate_groups_def apart_groups_def)

definition canonical_groups :: "string list \<Rightarrow> terminal_group list \<Rightarrow> bool" where
  "canonical_groups tids gs \<longleftrightarrow> separate_groups gs \<and> gs \<noteq> [] \<and> groups_ids gs = set tids"

lemma groups_ids_simps [simp]:
  "groups_ids [] = {}" "groups_ids (g # gs) = set (group_ids g) \<union> groups_ids gs"
  "groups_ids (gs @ hs) = groups_ids gs \<union> groups_ids hs"
  by (auto simp: groups_ids_def)

lemma separate_groups_Nil [simp]: "separate_groups []"
  by (simp add: separate_groups_def)

lemma apart_groups_Nil [simp]: "apart_groups []"
  by (simp add: apart_groups_def)

lemma apart_groups_append:
  "apart_groups (gs @ hs) \<longleftrightarrow> apart_groups gs \<and> apart_groups hs \<and>
     set (map groupId gs) \<inter> set (map groupId hs) = {} \<and> groups_ids gs \<inter> groups_ids hs = {}"
proof -
  have "(\<forall>g\<in>set gs. \<forall>h\<in>set hs. disjoint_groups g h) \<longleftrightarrow> groups_ids gs \<inter> groups_ids hs = {}"
    unfolding groups_ids_def by blast
  then show ?thesis by (auto simp: apart_groups_def sorted_wrt_append)
qed

lemma apart_groups_Cons:
  "apart_groups (g # hs) \<longleftrightarrow> wf_group g \<and> apart_groups hs \<and>
     groupId g \<notin> groupId ` set hs \<and> set (group_ids g) \<inter> groups_ids hs = {}"
  using apart_groups_append [of "[g]" hs] by (auto simp: apart_groups_def)

lemma apart_groups_D:
  "apart_groups gs \<Longrightarrow> g \<in> set gs \<Longrightarrow> wf_group g"
  "apart_groups gs \<Longrightarrow> g \<in> set gs \<Longrightarrow> h \<in> set gs \<Longrightarrow> groupId g = groupId h \<Longrightarrow> g = h"
  by (auto simp: apart_groups_def list_all_iff distinct_map inj_on_def)

lemma apart_groups_owner:
  "apart_groups gs \<Longrightarrow> g \<in> set gs \<Longrightarrow> h \<in> set gs \<Longrightarrow> t \<in> set (group_ids g) \<Longrightarrow>
     t \<in> set (group_ids h) \<Longrightarrow> g = h"
proof (induction gs)
  case (Cons x gs)
  then show ?case by (auto simp: apart_groups_Cons groups_ids_def)
qed simp

lemma separate_groups_append:
  "separate_groups (gs @ hs) \<longleftrightarrow> separate_groups gs \<and> separate_groups hs \<and>
     set (map groupId gs) \<inter> set (map groupId hs) = {} \<and> groups_ids gs \<inter> groups_ids hs = {}"
  by (auto simp: separate_groups_apart apart_groups_append)

lemma separate_groups_single:
  "separate_groups [g] \<longleftrightarrow> wf_group g \<and> flat_group g"
  by (simp add: separate_groups_def)

lemma separate_groups_Cons:
  "separate_groups (g # hs) \<longleftrightarrow> wf_group g \<and> flat_group g \<and> separate_groups hs \<and>
     groupId g \<notin> groupId ` set hs \<and> set (group_ids g) \<inter> groups_ids hs = {}"
  using separate_groups_append [of "[g]" hs] by (auto simp: separate_groups_single)

lemma separate_groups_D:
  "separate_groups gs \<Longrightarrow> g \<in> set gs \<Longrightarrow> wf_group g"
  "separate_groups gs \<Longrightarrow> g \<in> set gs \<Longrightarrow> flat_group g"
  "separate_groups gs \<Longrightarrow> g \<in> set gs \<Longrightarrow> h \<in> set gs \<Longrightarrow> groupId g = groupId h \<Longrightarrow> g = h"
  by (auto simp: separate_groups_def list_all_iff distinct_map inj_on_def)

text \<open>A group renamed to a free id.\<close>

lemma wf_group_groupId: "wf_group g \<Longrightarrow> trimmed i \<Longrightarrow> wf_group (g\<lparr>groupId := i\<rparr>)"
  by (simp add: wf_group_def)

lemma first_free_trimmed: "p \<noteq> [] \<Longrightarrow> \<not> is_space (hd p) \<Longrightarrow> trimmed (first_free p used i)"
  using first_free_form [of i p used] trimmed_append_nat_str by auto

lemma assignUnique_props:
  "fst (assignUniqueGroupId b used) \<notin> set used"
  "snd (assignUniqueGroupId b used) = fst (assignUniqueGroupId b used) # used"
  "b \<notin> set used \<Longrightarrow> fst (assignUniqueGroupId b used) = b"
  "trimmed b \<Longrightarrow> trimmed (fst (assignUniqueGroupId b used))"
proof -
  show "trimmed b \<Longrightarrow> trimmed (fst (assignUniqueGroupId b used))"
    using first_free_trimmed [of "b @ ''-''" used 2]
    by (auto simp: assignUniqueGroupId_def Let_def trimmed_def)
qed (auto simp: assignUniqueGroupId_def Let_def first_free_notin)

lemma fallbackGroupId_trimmed: "trimmed t \<Longrightarrow> trimmed (fallbackGroupId t)"
  unfolding fallbackGroupId_def by (rule trimmed_group_prefix)

definition loop_inv :: "string list \<Rightarrow> terminal_group list \<times> string list \<times> string list \<Rightarrow> bool" where
  "loop_inv tids acc \<longleftrightarrow> (case acc of (gs, assigned, used) \<Rightarrow>
     separate_groups gs \<and> set assigned = groups_ids gs \<and> set used = groupId ` set gs \<and>
     groups_ids gs \<subseteq> set tids)"

lemma loop_inv_add:
  assumes "loop_inv tids (gs, assigned, used)" and "wf_group g" "flat_group g"
    and "set (group_ids g) \<subseteq> set tids" "set (group_ids g) \<inter> set assigned = {}" and "trimmed b"
  shows "loop_inv tids (gs @ [g\<lparr>groupId := fst (assignUniqueGroupId b used)\<rparr>],
     group_ids g @ assigned, snd (assignUniqueGroupId b used))"
  using assms assignUnique_props(1) [of b used]
  by (auto simp: loop_inv_def separate_groups_append separate_groups_single wf_group_groupId
      assignUnique_props)

lemma normalizeGroupsLoop_inv:
  "loop_inv tids acc \<Longrightarrow> loop_inv tids (normalizeGroupsLoop tids gs acc)"
proof (induction gs arbitrary: acc)
  case (Cons g rest)
  obtain nextGroups assigned used where acc: "acc = (nextGroups, assigned, used)" by (metis prod_cases3)
  show ?case
  proof (cases "normalizeTerminalPaneGroup (raw_group g) tids")
    case None
    with Cons acc show ?thesis by simp
  next
    case (Some n)
    note n = normalize_group_wf [OF Some]
    define un where "un = filter (\<lambda>t. t \<notin> set assigned) (group_ids n)"
    have col: "filter (\<lambda>t. t \<notin> set assigned) (collectTerminalIdsFromLayout (layout n)) = un"
      using n by (simp add: un_def)
    show ?thesis
    proof (cases "normalizeTerminalPaneGroup (raw_group n) un")
      case None
      with Cons Some col acc show ?thesis by (simp add: Let_def)
    next
      case u: (Some u)
      note uw = normalize_group_wf [OF u]
      then have gid: "trimmed (groupId u)" by (simp add: wf_group_def)
      then have "str_or (js_trim (groupId u)) x = groupId u" for x
        by (cases "groupId u") (simp_all add: js_trim_id)
      moreover have "set (group_ids u) \<subseteq> set tids" "set (group_ids u) \<inter> set assigned = {}"
        using uw n by (auto simp: un_def)
      ultimately show ?thesis
        using Cons Some col u uw gid acc loop_inv_add [of tids nextGroups assigned used u "groupId u"]
        by (simp add: Let_def)
    qed
  qed
qed simp

lemma assignRemaining_props:
  assumes "list_all trimmed tids" "distinct tids"
  shows "separate_groups (assignRemainingLoop tids assigned used) \<and>
    set (map groupId (assignRemainingLoop tids assigned used)) \<inter> set used = {} \<and>
    groups_ids (assignRemainingLoop tids assigned used) = set tids - set assigned"
  using assms
proof (induction tids assigned used rule: assignRemainingLoop.induct)
  case (2 t rest assigned used)
  let ?u = "assignUniqueGroupId (fallbackGroupId t) used"
  show ?case
  proof (cases "t \<in> set assigned")
    case True
    with 2 show ?thesis by auto
  next
    case False
    have t: "trimmed t" "trimmed (fst ?u)" "list_all trimmed rest" "distinct rest" "t \<notin> set rest"
      using "2.prems" by (simp_all add: fallbackGroupId_trimmed assignUnique_props)
    have IH: "separate_groups (assignRemainingLoop rest assigned (fst ?u # used))"
      "set (map groupId (assignRemainingLoop rest assigned (fst ?u # used))) \<inter> set (fst ?u # used) = {}"
      "groups_ids (assignRemainingLoop rest assigned (fst ?u # used)) = set rest - set assigned"
      using "2.IH"(2) [OF False refl t(3,4)] by (simp_all add: assignUnique_props)
    from IH t False assignUnique_props(1) [of "fallbackGroupId t" used] show ?thesis
      by (auto simp: Let_def separate_groups_Cons assignUnique_props(2))
  qed
qed simp

lemma normalizeTerminalGroups_canonical:
  assumes "wf_ids tids"
  shows "canonical_groups tids (normalizeTerminalGroups gs tids)"
proof -
  obtain ngs assigned used where l: "normalizeGroupsLoop tids gs ([], [], []) = (ngs, assigned, used)"
    by (metis prod_cases3)
  have "loop_inv tids ([], [], [])" by (simp add: loop_inv_def)
  from normalizeGroupsLoop_inv [OF this, of gs] have inv: "loop_inv tids (ngs, assigned, used)"
    by (simp add: l)
  define all where "all = ngs @ assignRemainingLoop tids assigned used"
  have rem: "separate_groups (assignRemainingLoop tids assigned used)"
    "set (map groupId (assignRemainingLoop tids assigned used)) \<inter> set used = {}"
    "groups_ids (assignRemainingLoop tids assigned used) = set tids - set assigned"
    using assignRemaining_props [of tids assigned used] assms by (simp_all add: wf_ids_def)
  have sep: "separate_groups all"
    using inv rem by (auto simp: all_def loop_inv_def separate_groups_append)
  have ids: "groups_ids all = set tids"
    using inv rem by (auto simp: all_def loop_inv_def)
  then have "all \<noteq> []" using assms by (auto simp: wf_ids_def)
  moreover from this have "normalizeTerminalGroups gs tids = all"
    by (simp add: normalizeTerminalGroups_def l Let_def del: append_is_Nil_conv flip: all_def)
  ultimately show ?thesis
    using sep ids by (simp add: canonical_groups_def)
qed

text \<open>
  Groups that share no terminal and no id keep their ids, their terminals and their active
  terminal; flat ones are left as they are.
\<close>

definition same_panes :: "terminal_group \<Rightarrow> terminal_group \<Rightarrow> bool" where
  "same_panes g h \<longleftrightarrow> groupId h = groupId g \<and> group_ids h = group_ids g \<and>
     groupActiveTerminalId h = groupActiveTerminalId g"

lemma normalize_group_same:
  assumes "wf_group g" "set (group_ids g) \<subseteq> set v"
  shows "\<exists>n. normalizeTerminalPaneGroup (raw_group g) v = Some n \<and> wf_group n \<and> same_panes g n \<and>
    (flat_group g \<longrightarrow> n = g)"
proof -
  have f: "filter (\<lambda>t. t \<in> set v) (group_ids g) = group_ids g"
    using assms(2) by (intro filter_True) auto
  have a: "groupActiveTerminalId g \<in> set v" using assms by (auto simp: wf_group_def)
  obtain n where n: "normalizeTerminalPaneGroup (raw_group g) v = Some n" "same_panes g n"
    using normalize_wf_group [OF assms(1), of v] wf_group_nonempty [OF assms(1)] a
    by (cases "normalizeTerminalPaneGroup (raw_group g) v") (auto simp: f same_panes_def)
  then show ?thesis
    using normalize_group_wf [OF n(1)] normalize_group_fixpoint [OF assms(1) _ assms(2)] by auto
qed

lemma normalizeGroupsLoop_apart:
  assumes "apart_groups gs" "groups_ids gs \<subseteq> set tids"
    and "set assigned \<inter> groups_ids gs = {}" "set used \<inter> groupId ` set gs = {}"
  shows "\<exists>gs' assigned' used'. normalizeGroupsLoop tids gs (done, assigned, used) =
      (done @ gs', assigned', used') \<and> set assigned' = set assigned \<union> groups_ids gs \<and>
      list_all2 same_panes gs gs' \<and> (list_all flat_group gs \<longrightarrow> gs' = gs)"
  using assms
proof (induction gs arbitrary: "done" assigned used)
  case (Cons g gs)
  have g: "wf_group g" "set (group_ids g) \<subseteq> set tids" "set assigned \<inter> set (group_ids g) = {}"
    "groupId g \<notin> set used"
    using Cons.prems by (auto simp: apart_groups_Cons)
  obtain n where n: "normalizeTerminalPaneGroup (raw_group g) tids = Some n" "wf_group n"
    "same_panes g n" "flat_group g \<longrightarrow> n = g"
    using normalize_group_same [OF g(1,2)] by blast
  then have ids: "group_ids n = group_ids g" "groupId n = groupId g" by (simp_all add: same_panes_def)
  obtain u where u: "normalizeTerminalPaneGroup (raw_group n) (group_ids g) = Some u" "wf_group u"
    "same_panes n u" "flat_group n \<longrightarrow> u = n"
    using normalize_group_same [OF n(2), of "group_ids g"] ids by auto
  have un: "filter (\<lambda>t. t \<notin> set assigned) (group_ids g) = group_ids g"
    using g(3) by (intro filter_True) auto
  have uid: "groupId u = groupId g" "group_ids u = group_ids g"
    using u(3) ids by (simp_all add: same_panes_def)
  have "trimmed (groupId g)" using g(1) by (simp add: wf_group_def)
  then have "str_or (js_trim (groupId g)) x = groupId g" for x
    by (cases "groupId g") (simp_all add: js_trim_id)
  moreover have "fst (assignUniqueGroupId (groupId g) used) = groupId g"
    using g(4) by (rule assignUnique_props(3))
  moreover have rename: "u\<lparr>groupId := groupId g\<rparr> = u"
    using uid by (intro terminal_group.equality) simp_all
  ultimately have step: "normalizeGroupsLoop tids (g # gs) (done, assigned, used) =
      normalizeGroupsLoop tids gs (done @ [u], group_ids g @ assigned, groupId g # used)"
    using n u uid ids wf_group_nonempty [OF g(1)] un
    by (simp add: Let_def assignUnique_props(2) rename)
  have "apart_groups gs" "groups_ids gs \<subseteq> set tids"
    "set (group_ids g @ assigned) \<inter> groups_ids gs = {}" "set (groupId g # used) \<inter> groupId ` set gs = {}"
    using Cons.prems by (auto simp: apart_groups_Cons)
  from Cons.IH [OF this, of "done @ [u]"] obtain gs' as' us' where
    IH: "normalizeGroupsLoop tids gs (done @ [u], group_ids g @ assigned, groupId g # used) =
      ((done @ [u]) @ gs', as', us')" "set as' = set (group_ids g @ assigned) \<union> groups_ids gs"
      "list_all2 same_panes gs gs'" "list_all flat_group gs \<longrightarrow> gs' = gs"
    by blast
  have "same_panes g u" using n(3) u(3) by (simp add: same_panes_def)
  with IH(3) have "list_all2 same_panes (g # gs) (u # gs')" by simp
  moreover have "list_all flat_group (g # gs) \<longrightarrow> u # gs' = g # gs" using n(4) u(4) IH(4) by simp
  moreover have "set as' = set assigned \<union> groups_ids (g # gs)" using IH(2) by auto
  moreover have "normalizeGroupsLoop tids (g # gs) (done, assigned, used) = (done @ u # gs', as', us')"
    unfolding step IH(1) by simp
  ultimately show ?case by blast
qed simp

lemma assignRemaining_none: "set tids \<subseteq> set assigned \<Longrightarrow> assignRemainingLoop tids assigned used = []"
  by (induction tids) simp_all

lemma normalizeTerminalGroups_apart:
  assumes "apart_groups gs" "groups_ids gs = set tids" "gs \<noteq> []"
  shows "list_all2 same_panes gs (normalizeTerminalGroups gs tids)"
    and "list_all flat_group gs \<Longrightarrow> normalizeTerminalGroups gs tids = gs"
proof -
  from normalizeGroupsLoop_apart [of gs tids "[]" "[]" "[]"] assms obtain gs' as us
    where l: "normalizeGroupsLoop tids gs ([], [], []) = (gs', as, us)" "set as = groups_ids gs"
      "list_all2 same_panes gs gs'" "list_all flat_group gs \<longrightarrow> gs' = gs"
    by auto
  then have "gs' \<noteq> []" using assms(3) by auto
  with l assms(2) have "normalizeTerminalGroups gs tids = gs'"
    by (simp add: normalizeTerminalGroups_def assignRemaining_none)
  with l show "list_all2 same_panes gs (normalizeTerminalGroups gs tids)"
    "list_all flat_group gs \<Longrightarrow> normalizeTerminalGroups gs tids = gs" by simp_all
qed

lemma normalizeTerminalGroups_fixpoint:
  "canonical_groups tids gs \<Longrightarrow> normalizeTerminalGroups gs tids = gs"
  by (rule normalizeTerminalGroups_apart(2)) (simp_all add: canonical_groups_def separate_groups_apart)

section \<open>Ids and dictionaries\<close>

lemma normalizeTerminalIds_wf: "wf_ids (normalizeTerminalIds ids)"
proof -
  have "list_all trimmed (js_dedup (filter (\<lambda>t. length t > 0) (map js_trim ids)))"
    by (auto simp: list_all_iff js_trim_empty_iff)
  then show ?thesis
    by (auto simp: normalizeTerminalIds_def wf_ids_def Let_def)
qed

lemma normalizeTerminalIds_id:
  assumes "wf_ids ids"
  shows "normalizeTerminalIds ids = ids"
proof -
  have "filter (\<lambda>t. length t > 0) ids = ids"
    using assms by (intro filter_True) (auto simp: wf_ids_def list_all_iff)
  with assms show ?thesis
    by (simp add: normalizeTerminalIds_def wf_ids_def map_trim_wf js_dedup_id)
qed

text \<open>A dictionary over the terminals: one entry per key, only keys of the list.\<close>

definition keys_within :: "'v js_record \<Rightarrow> string list \<Rightarrow> bool" where
  "keys_within r ids \<longleftrightarrow> distinct (map fst r) \<and> fst ` set r \<subseteq> set ids"

lemma from_sorted_mem:
  "x \<in> set (from_entries (to_sorted le es)) \<Longrightarrow> x \<in> set es"
  by (drule from_entries_mem) simp

lemma normalized_keys_within:
  "keys_within (normalizeTerminalLabels r ids) ids"
  "keys_within (normalizeTerminalTitleOverrides r ids) ids"
  "keys_within (normalizeTerminalCliKinds k ids) ids"
  "keys_within (normalizeTerminalAttentionStates a ids) ids"
  by (auto simp: keys_within_def normalizeTerminalLabels_def normalizeTerminalTitleOverrides_def
      normalizeTerminalCliKinds_def normalizeTerminalAttentionStates_def dest: from_sorted_mem)

definition trimmed_values :: "string js_record \<Rightarrow> bool" where
  "trimmed_values r \<longleftrightarrow> (\<forall>(k, v)\<in>set r. trimmed v)"

lemma normalized_trimmed_values:
  "trimmed_values (normalizeTerminalLabels r ids)"
  "trimmed_values (normalizeTerminalTitleOverrides r ids)"
  by (auto simp: trimmed_values_def normalizeTerminalLabels_def normalizeTerminalTitleOverrides_def
      js_trim_empty_iff dest!: from_sorted_mem)

lemma keys_within_set: "keys_within r ids \<Longrightarrow> k \<in> set ids \<Longrightarrow> keys_within (rec_set k v r) ids"
  by (auto simp: keys_within_def rec_set_distinct rec_set_keys)

lemma keys_within_delete: "keys_within r ids \<Longrightarrow> keys_within (rec_delete k r) ids"
  by (auto simp: keys_within_def rec_delete_distinct rec_delete_keys)

lemma keys_within_setOrDelete:
  "keys_within r ids \<Longrightarrow> k \<in> set ids \<Longrightarrow> keys_within (setOrDelete k v r) ids"
  by (simp add: setOrDelete_def keys_within_set keys_within_delete split: option.split)

lemma keys_within_clearReview: "keys_within r ids \<Longrightarrow> keys_within (clearTerminalReviewState r k) ids"
  by (simp add: clearTerminalReviewState_def keys_within_delete)

lemma trimmed_values_set: "trimmed_values r \<Longrightarrow> trimmed v \<Longrightarrow> trimmed_values (rec_set k v r)"
  by (auto simp: trimmed_values_def dest: rec_set_mem)

lemma trimmed_values_delete: "trimmed_values r \<Longrightarrow> trimmed_values (rec_delete k r)"
  by (auto simp: trimmed_values_def rec_delete_def)

lemma trimmed_values_get: "trimmed_values r \<Longrightarrow> rec_get r k = Some v \<Longrightarrow> trimmed v"
  by (auto simp: trimmed_values_def dest: map_of_SomeD)

lemma createUniqueTerminalTitle_trimmed: "trimmed (createUniqueTerminalTitle kind t labels overrides)"
  by (auto simp: createUniqueTerminalTitle_def Let_def generatedTerminalTitleBase_def is_space_def
      intro!: first_free_trimmed)

lemma ensureTerminalLabels_props:
  assumes "keys_within labels all" "trimmed_values labels" "set ids \<subseteq> set all"
  shows "keys_within (ensureTerminalLabels kinds ids labels overrides) all \<and>
    trimmed_values (ensureTerminalLabels kinds ids labels overrides) \<and>
    fst ` set (ensureTerminalLabels kinds ids labels overrides) = fst ` set labels \<union> set ids"
  using assms
proof (induction kinds ids labels overrides rule: ensureTerminalLabels.induct)
  case (2 kinds t rest labels overrides)
  show ?case
  proof (cases "length (js_trim (nullish (rec_get labels t) [])) > 0")
    case True
    then have "t \<in> fst ` set labels"
      by (cases "rec_get labels t") (auto dest: map_of_SomeD intro: rev_image_eqI)
    with 2 True show ?thesis by auto
  next
    case False
    from "2.prems" have "keys_within (rec_set t v labels) all" for v
      by (simp add: keys_within_set)
    moreover have "trimmed_values (rec_set t (createUniqueTerminalTitle k e l o') labels)" for k e l o'
      using "2.prems" by (intro trimmed_values_set createUniqueTerminalTitle_trimmed)
    ultimately show ?thesis
      using "2.IH"(2) [OF False] "2.prems"(3) False by (simp add: rec_set_keys)
  qed
qed simp

section \<open>States\<close>

text \<open>What every operation establishes, from any state and for any argument.\<close>

definition synced :: "string \<Rightarrow> string \<Rightarrow> terminal_group list \<Rightarrow> bool" where
  "synced ag a gs \<longleftrightarrow>
     (\<forall>g\<in>set gs. groupId g = ag \<longrightarrow> a \<in> set (group_ids g) \<longrightarrow> groupActiveTerminalId g = a)"

definition wf_state :: "thread_terminal_state \<Rightarrow> bool" where
  "wf_state s \<longleftrightarrow>
     wf_ids (terminalIds s) \<and> activeTerminalId s \<in> set (terminalIds s) \<and>
     pos_weight (terminalHeight s) \<and>
     canonical_groups (terminalIds s) (terminalGroups s) \<and>
     activeTerminalGroupId s \<in> groupId ` set (terminalGroups s) \<and>
     synced (activeTerminalGroupId s) (activeTerminalId s) (terminalGroups s) \<and>
     keys_within (terminalLabelsById s) (terminalIds s) \<and>
     fst ` set (terminalLabelsById s) = set (terminalIds s) \<and>
     trimmed_values (terminalLabelsById s) \<and>
     keys_within (terminalTitleOverridesById s) (terminalIds s) \<and>
     trimmed_values (terminalTitleOverridesById s) \<and>
     keys_within (terminalCliKindsById s) (terminalIds s) \<and>
     keys_within (terminalAttentionStatesById s) (terminalIds s) \<and>
     set (runningTerminalIds s) \<subseteq> set (terminalIds s)"

lemma canonical_groups_map:
  assumes "canonical_groups ids gs"
    and "\<And>g. g \<in> set gs \<Longrightarrow> wf_group (f g) \<and> flat_group (f g) \<and> groupId (f g) = groupId g \<and>
      group_ids (f g) = group_ids g"
  shows "canonical_groups ids (map f gs)"
proof -
  have "map groupId (map f gs) = map groupId gs" using assms(2) by simp
  moreover have "sorted_wrt disjoint_groups (map f gs)"
  proof -
    have "sorted_wrt disjoint_groups gs"
      using assms(1) by (simp add: canonical_groups_def separate_groups_def)
    then show ?thesis
      unfolding sorted_wrt_map by (rule sorted_wrt_mono_rel [rotated]) (simp add: assms(2))
  qed
  moreover have "groups_ids (map f gs) = groups_ids gs"
    using assms(2) by (auto simp: groups_ids_def)
  ultimately show ?thesis
    using assms unfolding canonical_groups_def separate_groups_def
    by (simp add: list_all_iff del: map_map)
qed

lemma syncActive_props:
  assumes "wf_group g" "flat_group g"
  shows "wf_group (syncActiveTerminal ag a g) \<and> flat_group (syncActiveTerminal ag a g) \<and>
    groupId (syncActiveTerminal ag a g) = groupId g \<and> group_ids (syncActiveTerminal ag a g) = group_ids g"
  using assms by (auto simp: syncActiveTerminal_def setActive_group_props)

lemma canonical_groups_sync:
  "canonical_groups ids gs \<Longrightarrow> canonical_groups ids (map (syncActiveTerminal ag a) gs)"
  by (rule canonical_groups_map)
    (simp_all add: canonical_groups_def syncActive_props separate_groups_D(1,2) [of gs])

lemma syncActive_active:
  "wf_group g \<Longrightarrow> groupId g = ag \<Longrightarrow> a \<in> set (group_ids g) \<Longrightarrow>
     groupActiveTerminalId (syncActiveTerminal ag a g) = a"
  by (auto simp: syncActiveTerminal_def setActive_group_props)

lemma synced_sync:
  "separate_groups gs \<Longrightarrow> synced ag a (map (syncActiveTerminal ag a) gs)"
  by (simp add: synced_def syncActive_props syncActive_active separate_groups_D(1,2) [of gs])

lemma syncActive_id:
  assumes "separate_groups gs" "synced ag a gs"
  shows "map (syncActiveTerminal ag a) gs = gs"
proof (rule map_idI)
  fix g assume g: "g \<in> set gs"
  with assms have "wf_group g" by (simp add: separate_groups_D)
  with g assms(2) show "syncActiveTerminal ag a g = g"
    by (auto simp: syncActiveTerminal_def synced_def)
qed

lemma resolveActive_mem:
  assumes "gs \<noteq> []"
  shows "resolveActiveTerminalGroupId s gs a \<in> groupId ` set gs"
proof (cases "list_ex (\<lambda>g. groupId g = activeTerminalGroupId s) gs")
  case True
  then have "activeTerminalGroupId s \<in> groupId ` set gs" by (force simp: list_ex_iff)
  with True show ?thesis by (simp add: resolveActiveTerminalGroupId_def)
next
  case False
  then show ?thesis
    using assms
    by (auto simp: resolveActiveTerminalGroupId_def orelse_def nullish_def list_get_def
      dest!: find_Some_mem split: option.split)
qed

lemma normalizeRunning_subset: "set (normalizeRunningTerminalIds r ids) \<subseteq> set ids"
  by (auto simp: normalizeRunningTerminalIds_def)

text \<open>The fields of a normalized state.\<close>

lemma normalized_fields:
  fixes s
  defines "n \<equiv> normalizedThreadTerminalState s" and "ids \<equiv> normalizeTerminalIds (terminalIds s)"
  shows "terminalIds n = ids"
    and "activeTerminalId n = (if activeTerminalId s \<in> set ids then activeTerminalId s else hd ids)"
    and "terminalHeight n = (if pos_weight (terminalHeight s) then terminalHeight s
      else DEFAULT_THREAD_TERMINAL_HEIGHT)"
    and "activeTerminalGroupId n =
      resolveActiveTerminalGroupId s (normalizeTerminalGroups (terminalGroups s) ids) (activeTerminalId n)"
    and "terminalGroups n = map (syncActiveTerminal (activeTerminalGroupId n) (activeTerminalId n))
      (normalizeTerminalGroups (terminalGroups s) ids)"
    and "terminalTitleOverridesById n = normalizeTerminalTitleOverrides (terminalTitleOverridesById s) ids"
    and "terminalCliKindsById n = normalizeTerminalCliKinds (terminalCliKindsById s) ids"
    and "terminalAttentionStatesById n =
      normalizeTerminalAttentionStates (terminalAttentionStatesById s) ids"
    and "terminalLabelsById n = ensureTerminalLabels (terminalCliKindsById n) ids
      (normalizeTerminalLabels (terminalLabelsById s) ids) (terminalTitleOverridesById n)"
    and "runningTerminalIds n = normalizeRunningTerminalIds (runningTerminalIds s) ids"
    and "entryPoint n = entryPoint s" and "terminalOpen n = terminalOpen s"
    and "presentationMode n = presentationMode s" and "workspaceLayout n = workspaceLayout s"
    and "workspaceActiveTab n = workspaceActiveTab s"
proof -
  have ids: "(if length ids > 0 then ids else [DEFAULT_THREAD_TERMINAL_ID]) = ids"
    using normalizeTerminalIds_wf [of "terminalIds s"] by (simp add: ids_def wf_ids_def)
  have hd: "nullish (list_get ids 0) DEFAULT_THREAD_TERMINAL_ID = hd ids"
    using normalizeTerminalIds_wf [of "terminalIds s"]
    by (simp add: ids_def wf_ids_def list_get_def hd_conv_nth)
  show "terminalIds n = ids"
    "activeTerminalId n = (if activeTerminalId s \<in> set ids then activeTerminalId s else hd ids)"
    "activeTerminalGroupId n =
      resolveActiveTerminalGroupId s (normalizeTerminalGroups (terminalGroups s) ids) (activeTerminalId n)"
    "terminalGroups n = map (syncActiveTerminal (activeTerminalGroupId n) (activeTerminalId n))
      (normalizeTerminalGroups (terminalGroups s) ids)"
    "terminalTitleOverridesById n = normalizeTerminalTitleOverrides (terminalTitleOverridesById s) ids"
    "terminalCliKindsById n = normalizeTerminalCliKinds (terminalCliKindsById s) ids"
    "terminalAttentionStatesById n = normalizeTerminalAttentionStates (terminalAttentionStatesById s) ids"
    "terminalLabelsById n = ensureTerminalLabels (terminalCliKindsById n) ids
      (normalizeTerminalLabels (terminalLabelsById s) ids) (terminalTitleOverridesById n)"
    "runningTerminalIds n = normalizeRunningTerminalIds (runningTerminalIds s) ids"
    unfolding n_def normalizedThreadTerminalState_def Let_def ids_def [symmetric] ids hd
    by simp_all
  show "terminalHeight n = (if pos_weight (terminalHeight s) then terminalHeight s
      else DEFAULT_THREAD_TERMINAL_HEIGHT)"
    by (simp add: n_def normalizedThreadTerminalState_def Let_def split: jsnum.split)
  show "entryPoint n = entryPoint s" "terminalOpen n = terminalOpen s"
    "presentationMode n = presentationMode s" "workspaceLayout n = workspaceLayout s"
    "workspaceActiveTab n = workspaceActiveTab s"
    unfolding n_def normalizedThreadTerminalState_def Let_def
    by (cases "entryPoint s", simp_all, cases "presentationMode s", simp_all,
      cases "workspaceLayout s", simp_all, cases "workspaceActiveTab s", simp_all)
qed

lemma normalized_wf: "wf_state (normalizedThreadTerminalState s)"
proof -
  define n where "n = normalizedThreadTerminalState s"
  define ids where "ids = normalizeTerminalIds (terminalIds s)"
  define gs where "gs = normalizeTerminalGroups (terminalGroups s) ids"
  note f = normalized_fields [of s, folded n_def ids_def, folded gs_def]
  have ids: "wf_ids ids" by (simp add: ids_def normalizeTerminalIds_wf)
  have gs: "canonical_groups ids gs"
    unfolding gs_def by (rule normalizeTerminalGroups_canonical [OF ids])
  have "groupId ` set (terminalGroups n) = groupId ` set gs"
    unfolding f(5) set_map image_image
    by (rule image_cong) (use gs in \<open>simp_all add: canonical_groups_def syncActive_props separate_groups_D [of gs]\<close>)
  moreover have "activeTerminalGroupId n \<in> groupId ` set gs"
    unfolding f(4) by (rule resolveActive_mem) (use gs in \<open>simp add: canonical_groups_def\<close>)
  moreover have "synced (activeTerminalGroupId n) (activeTerminalId n) (terminalGroups n)"
    unfolding f(5) by (rule synced_sync) (use gs in \<open>simp add: canonical_groups_def\<close>)
  moreover have "canonical_groups ids (terminalGroups n)"
    unfolding f(5) by (rule canonical_groups_sync [OF gs])
  moreover have "keys_within (terminalLabelsById n) ids \<and> trimmed_values (terminalLabelsById n) \<and>
      fst ` set (terminalLabelsById n) = set ids"
    unfolding f(9)
    using ensureTerminalLabels_props [of "normalizeTerminalLabels (terminalLabelsById s) ids" ids ids]
      normalized_keys_within(1) [of "terminalLabelsById s" ids]
    by (auto simp: normalized_trimmed_values keys_within_def)
  moreover have "activeTerminalId n \<in> set ids"
    using ids by (simp add: f(2) wf_ids_def)
  moreover have "pos_weight (terminalHeight n)"
    by (simp add: f(3) DEFAULT_THREAD_TERMINAL_HEIGHT_def)
  ultimately show ?thesis
    using ids by (simp add: wf_state_def f(1,6-8,10) normalized_keys_within normalized_trimmed_values
      normalizeRunning_subset flip: n_def)
qed

section \<open>Normalizing a well-formed state\<close>

lemma map_of_set_eq:
  assumes "distinct (map fst r)" "distinct (map fst r')" "set r' = set r"
  shows "map_of r' = map_of r"
  using assms map_of_inject_set [of r' r] by simp

lemma from_sorted_all:
  "distinct (map fst r) \<Longrightarrow> map_of (from_entries (to_sorted le r)) = map_of r"
  by (rule map_of_set_eq) (simp_all add: from_entries_id)

lemma map_id_entries: "\<forall>(k, v)\<in>set r. f k = k \<and> g v = v \<Longrightarrow> map (\<lambda>(k, v). (f k, g v)) r = r"
  by (induction r) auto

lemma filter_all_entries: "\<forall>x\<in>set r. P x \<Longrightarrow> filter P r = r"
  by (rule filter_True)

lemma keys_trimmed:
  "keys_within r ids \<Longrightarrow> wf_ids ids \<Longrightarrow> (k, v) \<in> set r \<Longrightarrow> trimmed k \<and> k \<in> set ids"
  by (force simp: keys_within_def wf_ids_def list_all_iff)

lemma trimmed_nonempty: "trimmed k \<Longrightarrow> k \<noteq> []"
  by auto

lemma normalize_dictionaries_id:
  assumes "wf_ids ids"
  shows "keys_within r ids \<Longrightarrow> trimmed_values r \<Longrightarrow>
      map_of (normalizeTerminalLabels r ids) = map_of r"
    and "keys_within r ids \<Longrightarrow> trimmed_values r \<Longrightarrow>
      map_of (normalizeTerminalTitleOverrides r ids) = map_of r"
    and "keys_within k ids \<Longrightarrow> map_of (normalizeTerminalCliKinds k ids) = map_of k"
    and "keys_within a ids \<Longrightarrow> map_of (normalizeTerminalAttentionStates a ids) = map_of a"
proof -
  { assume r: "keys_within r ids" "trimmed_values r"
    have t: "\<forall>(k, v)\<in>set r. trimmed k \<and> k \<in> set ids \<and> trimmed v"
      using keys_trimmed [OF r(1) assms] r(2) by (auto simp: trimmed_values_def)
    then have m: "map (\<lambda>(k, v). (js_trim k, js_trim v)) r = r"
      by (intro map_id_entries) (auto simp: js_trim_id)
    have d: "distinct (map fst r)" using r(1) by (simp add: keys_within_def)
    show "map_of (normalizeTerminalLabels r ids) = map_of r"
      unfolding normalizeTerminalLabels_def m using t
      by (subst filter_True, fastforce, subst filter_True) (auto simp: from_sorted_all [OF d])
    show "map_of (normalizeTerminalTitleOverrides r ids) = map_of r"
      unfolding normalizeTerminalTitleOverrides_def m using t
      by (subst filter_True) (auto simp: from_sorted_all [OF d]) }
  { assume k: "keys_within k ids"
    have t: "\<forall>(i, v)\<in>set k. trimmed i \<and> i \<in> set ids"
      using keys_trimmed [OF k assms] by auto
    then have m: "map (\<lambda>(i, v). (js_trim i, v)) k = k"
      by (intro map_id_entries) (auto simp: js_trim_id)
    have d: "distinct (map fst k)" using k by (simp add: keys_within_def)
    have c: "v = Codex \<or> v = Claude" for v by (cases v) simp_all
    show "map_of (normalizeTerminalCliKinds k ids) = map_of k"
      unfolding normalizeTerminalCliKinds_def m using t c
      by (subst filter_True, fastforce, subst filter_True) (auto simp: from_sorted_all [OF d]) }
  { assume a: "keys_within a ids"
    have t: "\<forall>(i, v)\<in>set a. trimmed i \<and> i \<in> set ids"
      using keys_trimmed [OF a assms] by auto
    then have m: "map (\<lambda>(i, v). (js_trim i, v)) a = a"
      by (intro map_id_entries) (auto simp: js_trim_id)
    have d: "distinct (map fst a)" using a by (simp add: keys_within_def)
    have c: "v = Attention \<or> v = Review" for v by (cases v) simp_all
    show "map_of (normalizeTerminalAttentionStates a ids) = map_of a"
      unfolding normalizeTerminalAttentionStates_def m using t c
      by (subst filter_True, fastforce, subst filter_True) (auto simp: from_sorted_all [OF d]) }
qed

lemma ensureTerminalLabels_id:
  "\<forall>t\<in>set ids. \<exists>v. rec_get labels t = Some v \<and> trimmed v \<Longrightarrow>
     ensureTerminalLabels kinds ids labels overrides = labels"
proof (induction ids)
  case (Cons t ids)
  then obtain v where "rec_get labels t = Some v" "trimmed v" by auto
  with Cons show ?case by (auto simp: js_trim_id)
qed simp

lemma normalizeRunning_id:
  assumes "wf_ids ids" "set r \<subseteq> set ids" "distinct r"
  shows "normalizeRunningTerminalIds r ids = r"
proof -
  have t: "list_all trimmed r" using assms by (auto simp: wf_ids_def list_all_iff)
  then have "filter (\<lambda>t. length t > 0 \<and> t \<in> set ids) r = r"
    using assms(2) by (intro filter_True) (auto simp: list_all_iff)
  with t assms(3) show ?thesis
    by (simp add: normalizeRunningTerminalIds_def js_dedup_id map_trim_wf)
qed

text \<open>Two states that differ only in the order of the entries of their dictionaries.\<close>

definition same_state :: "thread_terminal_state \<Rightarrow> thread_terminal_state \<Rightarrow> bool" where
  "same_state s t \<longleftrightarrow>
     t = s\<lparr>terminalLabelsById := terminalLabelsById t,
           terminalTitleOverridesById := terminalTitleOverridesById t,
           terminalCliKindsById := terminalCliKindsById t,
           terminalAttentionStatesById := terminalAttentionStatesById t\<rparr> \<and>
     map_of (terminalLabelsById t) = map_of (terminalLabelsById s) \<and>
     map_of (terminalTitleOverridesById t) = map_of (terminalTitleOverridesById s) \<and>
     map_of (terminalCliKindsById t) = map_of (terminalCliKindsById s) \<and>
     map_of (terminalAttentionStatesById t) = map_of (terminalAttentionStatesById s)"

lemma resolveActive_keep:
  "activeTerminalGroupId s \<in> groupId ` set gs \<Longrightarrow>
     resolveActiveTerminalGroupId s gs a = activeTerminalGroupId s"
  by (auto simp: resolveActiveTerminalGroupId_def list_ex_iff)

lemma normalize_same_state:
  assumes w: "wf_state s" and "distinct (runningTerminalIds s)"
  shows "same_state s (normalizedThreadTerminalState s)"
proof -
  define n where "n = normalizedThreadTerminalState s"
  have ids: "wf_ids (terminalIds s)" and gs: "canonical_groups (terminalIds s) (terminalGroups s)"
    and sy: "synced (activeTerminalGroupId s) (activeTerminalId s) (terminalGroups s)"
    using w by (simp_all add: wf_state_def)
  note f = normalized_fields [of s, folded n_def, unfolded normalizeTerminalIds_id [OF ids]
    normalizeTerminalGroups_fixpoint [OF gs]]
  note dict = normalize_dictionaries_id [OF ids]
  have a: "activeTerminalId n = activeTerminalId s" using w by (simp add: f(2) wf_state_def)
  have g: "activeTerminalGroupId n = activeTerminalGroupId s"
    unfolding f(4) by (rule resolveActive_keep) (use w in \<open>simp add: wf_state_def\<close>)
  have gr: "terminalGroups n = terminalGroups s"
    unfolding f(5) a g by (rule syncActive_id [OF _ sy]) (use gs in \<open>simp add: canonical_groups_def\<close>)
  have l0: "map_of (normalizeTerminalLabels (terminalLabelsById s) (terminalIds s)) =
      map_of (terminalLabelsById s)"
    by (rule dict(1)) (use w in \<open>simp_all add: wf_state_def\<close>)
  have "\<forall>t\<in>set (terminalIds s). \<exists>v. map_of (terminalLabelsById s) t = Some v \<and> trimmed v"
  proof
    fix t assume "t \<in> set (terminalIds s)"
    then have "t \<in> fst ` set (terminalLabelsById s)" using w by (simp add: wf_state_def)
    then obtain v where "map_of (terminalLabelsById s) t = Some v"
      by (metis dom_map_of_conv_image_fst domD)
    with w show "\<exists>v. map_of (terminalLabelsById s) t = Some v \<and> trimmed v"
      by (auto simp: wf_state_def intro: trimmed_values_get)
  qed
  then have l: "map_of (terminalLabelsById n) = map_of (terminalLabelsById s)"
    unfolding f(9) by (subst ensureTerminalLabels_id) (simp_all add: l0)
  have o: "map_of (terminalTitleOverridesById n) = map_of (terminalTitleOverridesById s)"
    unfolding f(6) by (rule dict(2)) (use w in \<open>simp_all add: wf_state_def\<close>)
  have k: "map_of (terminalCliKindsById n) = map_of (terminalCliKindsById s)"
    unfolding f(7) by (rule dict(3)) (use w in \<open>simp_all add: wf_state_def\<close>)
  have t: "map_of (terminalAttentionStatesById n) = map_of (terminalAttentionStatesById s)"
    unfolding f(8) by (rule dict(4)) (use w in \<open>simp_all add: wf_state_def\<close>)
  have r: "runningTerminalIds n = runningTerminalIds s"
    unfolding f(10) by (rule normalizeRunning_id) (use w assms(2) in \<open>simp_all add: wf_state_def\<close>)
  have h: "terminalHeight n = terminalHeight s" using w by (simp add: f(3) wf_state_def)
  show ?thesis
    unfolding same_state_def n_def [symmetric]
    using l o k t by (auto simp: f(1,11-15) a g gr r h intro!: thread_terminal_state.equality)
qed

section \<open>Consistent states\<close>

text \<open>
  In a consistent state no terminal is shown twice and the active terminal lies in the active
  group. The arguments of the operations decide whether they keep it.
\<close>

definition focused :: "thread_terminal_state \<Rightarrow> bool" where
  "focused s \<longleftrightarrow> (\<exists>g\<in>set (terminalGroups s).
     groupId g = activeTerminalGroupId s \<and> activeTerminalId s \<in> set (group_ids g))"

definition unshared :: "thread_terminal_state \<Rightarrow> bool" where
  "unshared s \<longleftrightarrow> list_all (\<lambda>g. distinct (group_ids g)) (terminalGroups s) \<and>
     distinct (runningTerminalIds s)"

definition consistent_state :: "thread_terminal_state \<Rightarrow> bool" where
  "consistent_state s \<longleftrightarrow> wf_state s \<and> focused s \<and> unshared s"

text \<open>What the operations hand to the normalization: everything but the layouts is in order.\<close>

definition candidate :: "thread_terminal_state \<Rightarrow> bool" where
  "candidate s \<longleftrightarrow> wf_ids (terminalIds s) \<and> activeTerminalId s \<in> set (terminalIds s) \<and>
     apart_groups (terminalGroups s) \<and> groups_ids (terminalGroups s) = set (terminalIds s) \<and>
     focused s \<and> unshared s \<and> set (runningTerminalIds s) \<subseteq> set (terminalIds s)"

lemma consistent_candidate: "consistent_state s \<Longrightarrow> candidate s"
  by (simp add: consistent_state_def candidate_def wf_state_def canonical_groups_def
      separate_groups_apart)

lemma list_all2_same_panes:
  assumes "list_all2 same_panes gs hs"
  shows "map groupId hs = map groupId gs" "map group_ids hs = map group_ids gs"
    and "g \<in> set gs \<Longrightarrow> \<exists>h\<in>set hs. same_panes g h"
  using assms by (induction rule: list_all2_induct) (auto simp: same_panes_def)

lemma list_all_map_conv: "list_all P (map f xs) = list_all (\<lambda>x. P (f x)) xs"
  by (induction xs) simp_all

lemma candidate_normalized:
  assumes "candidate s"
  shows "consistent_state (normalizedThreadTerminalState s)"
    and "terminalIds (normalizedThreadTerminalState s) = terminalIds s"
    and "activeTerminalId (normalizedThreadTerminalState s) = activeTerminalId s"
    and "activeTerminalGroupId (normalizedThreadTerminalState s) = activeTerminalGroupId s"
    and "map groupId (terminalGroups (normalizedThreadTerminalState s)) = map groupId (terminalGroups s)"
    and "map group_ids (terminalGroups (normalizedThreadTerminalState s)) = map group_ids (terminalGroups s)"
    and "runningTerminalIds (normalizedThreadTerminalState s) = runningTerminalIds s"
proof -
  define n where "n = normalizedThreadTerminalState s"
  have ids: "wf_ids (terminalIds s)" using assms by (simp add: candidate_def)
  note f = normalized_fields [of s, folded n_def, unfolded normalizeTerminalIds_id [OF ids]]
  define gs where "gs = normalizeTerminalGroups (terminalGroups s) (terminalIds s)"
  have "terminalGroups s \<noteq> []" using assms by (auto simp: candidate_def focused_def)
  with assms have sp: "list_all2 same_panes (terminalGroups s) gs"
    unfolding gs_def by (intro normalizeTerminalGroups_apart) (simp_all add: candidate_def)
  note spm = list_all2_same_panes [OF sp]
  have sep: "separate_groups gs"
    using normalizeTerminalGroups_canonical [OF ids] by (simp add: gs_def canonical_groups_def)
  show a: "activeTerminalId n = activeTerminalId s" and i: "terminalIds n = terminalIds s"
    using assms by (simp_all add: f(1,2) candidate_def)
  obtain g where g: "g \<in> set (terminalGroups s)" "groupId g = activeTerminalGroupId s"
    "activeTerminalId s \<in> set (group_ids g)"
    using assms by (auto simp: candidate_def focused_def)
  then obtain h where h: "h \<in> set gs" "groupId h = activeTerminalGroupId s"
    "activeTerminalId s \<in> set (group_ids h)"
    using spm(3) by (fastforce simp: same_panes_def)
  show ag: "activeTerminalGroupId n = activeTerminalGroupId s"
    unfolding f(4) gs_def [symmetric] using h by (intro resolveActive_keep) force
  have gr: "terminalGroups n = map (syncActiveTerminal (activeTerminalGroupId s) (activeTerminalId s)) gs"
    by (simp add: f(5) a ag gs_def)
  have sync: "groupId (syncActiveTerminal b c x) = groupId x" "group_ids (syncActiveTerminal b c x) = group_ids x"
    if "x \<in> set gs" for b c x
    using that sep by (simp_all add: syncActive_props separate_groups_D)
  show mi: "map groupId (terminalGroups n) = map groupId (terminalGroups s)"
    unfolding gr map_map spm(1) [symmetric] using sync by (intro map_cong) simp_all
  show mg: "map group_ids (terminalGroups n) = map group_ids (terminalGroups s)"
    unfolding gr map_map spm(2) [symmetric] using sync by (intro map_cong) simp_all
  show r: "runningTerminalIds n = runningTerminalIds s"
    unfolding f(10) by (rule normalizeRunning_id) (use assms ids in \<open>simp_all add: candidate_def unshared_def\<close>)
  have "focused n"
    using h sync by (auto simp: focused_def gr a ag intro!: bexI [OF _ h(1)])
  moreover have "unshared n"
    using assms mg list_all_map_conv [of distinct group_ids "terminalGroups n"]
      list_all_map_conv [of distinct group_ids "terminalGroups s"]
    by (simp add: unshared_def candidate_def r)
  ultimately show "consistent_state n"
    using normalized_wf [of s] by (simp add: consistent_state_def n_def)
qed

lemmas consistent_normalized = candidate_normalized [OF consistent_candidate]

end
