(* ===== verification/TerminalActionsWf.thy ===== *)
theory TerminalActionsWf
  imports TerminalStateWf
begin

text \<open>
  The transitions keep the terminal state in order: every operation yields a well-formed state
  from any state (\<open>terminal_step_wf\<close>), and with arguments the frontend passes it keeps
  consistent states consistent (\<open>terminal_step_consistent\<close>).
\<close>

section \<open>Updates of single fields\<close>

lemma normalize_wf [simp]: "wf_state (normalizeThreadTerminalState s)"
  by (simp add: normalizeThreadTerminalState_eq normalized_wf)

lemma wf_update_flags [wf_intros]:
  "wf_state s \<Longrightarrow> wf_state (s\<lparr>entryPoint := a\<rparr>)"
  "wf_state s \<Longrightarrow> wf_state (s\<lparr>terminalOpen := b\<rparr>)"
  "wf_state s \<Longrightarrow> wf_state (s\<lparr>presentationMode := c\<rparr>)"
  "wf_state s \<Longrightarrow> wf_state (s\<lparr>workspaceLayout := d\<rparr>)"
  "wf_state s \<Longrightarrow> wf_state (s\<lparr>workspaceActiveTab := e\<rparr>)"
  "wf_state s \<Longrightarrow> pos_weight h \<Longrightarrow> wf_state (s\<lparr>terminalHeight := h\<rparr>)"
  by (simp_all add: wf_state_def)

lemma wf_update_attention [wf_intros]:
  "wf_state s \<Longrightarrow> keys_within r (terminalIds s) \<Longrightarrow> wf_state (s\<lparr>terminalAttentionStatesById := r\<rparr>)"
  "wf_state s \<Longrightarrow> keys_within k (terminalIds s) \<Longrightarrow> wf_state (s\<lparr>terminalCliKindsById := k\<rparr>)"
  "wf_state s \<Longrightarrow> keys_within t (terminalIds s) \<Longrightarrow> trimmed_values t \<Longrightarrow>
     wf_state (s\<lparr>terminalTitleOverridesById := t\<rparr>)"
  "wf_state s \<Longrightarrow> set ids \<subseteq> set (terminalIds s) \<Longrightarrow> wf_state (s\<lparr>runningTerminalIds := ids\<rparr>)"
  by (simp_all add: wf_state_def)

lemma wf_update_label [wf_intros]:
  "wf_state s \<Longrightarrow> t \<in> set (terminalIds s) \<Longrightarrow> trimmed v \<Longrightarrow>
     wf_state (s\<lparr>terminalLabelsById := rec_set t v (terminalLabelsById s)\<rparr>)"
  by (auto simp: wf_state_def keys_within_set trimmed_values_set rec_set_keys)

lemma wf_state_D:
  assumes "wf_state s"
  shows "keys_within (terminalCliKindsById s) (terminalIds s)"
    and "keys_within (terminalAttentionStatesById s) (terminalIds s)"
    and "keys_within (terminalTitleOverridesById s) (terminalIds s)"
    and "trimmed_values (terminalTitleOverridesById s)"
    and "set (runningTerminalIds s) \<subseteq> set (terminalIds s)"
    and "activeTerminalId s \<in> set (terminalIds s)"
    and "canonical_groups (terminalIds s) (terminalGroups s)"
    and "wf_ids (terminalIds s)"
  using assms by (simp_all add: wf_state_def)

lemma wf_label:
  assumes "wf_state s" "t \<in> set (terminalIds s)"
  shows "trimmed (nullish (rec_get (terminalLabelsById s) t) [])"
proof -
  have "t \<in> fst ` set (terminalLabelsById s)" using assms by (simp add: wf_state_def)
  then obtain v where v: "map_of (terminalLabelsById s) t = Some v"
    by (metis dom_map_of_conv_image_fst domD)
  moreover have "trimmed v"
    by (rule trimmed_values_get [OF _ v]) (use assms in \<open>simp add: wf_state_def\<close>)
  ultimately show ?thesis by simp
qed

lemma consistent_update_flags [wf_intros]:
  "consistent_state s \<Longrightarrow> consistent_state (s\<lparr>entryPoint := a\<rparr>)"
  "consistent_state s \<Longrightarrow> consistent_state (s\<lparr>terminalOpen := b\<rparr>)"
  "consistent_state s \<Longrightarrow> consistent_state (s\<lparr>presentationMode := c\<rparr>)"
  "consistent_state s \<Longrightarrow> consistent_state (s\<lparr>workspaceLayout := d\<rparr>)"
  "consistent_state s \<Longrightarrow> consistent_state (s\<lparr>workspaceActiveTab := e\<rparr>)"
  by (simp_all add: consistent_state_def wf_update_flags focused_def unshared_def)

text \<open>The fields that the groups and the focus depend on.\<close>

definition same_view :: "thread_terminal_state \<Rightarrow> thread_terminal_state \<Rightarrow> bool" where
  "same_view s t \<longleftrightarrow> terminalGroups t = terminalGroups s \<and>
     activeTerminalGroupId t = activeTerminalGroupId s \<and> activeTerminalId t = activeTerminalId s"

lemma consistent_same_view:
  "consistent_state s \<Longrightarrow> same_view s t \<Longrightarrow> wf_state t \<Longrightarrow> distinct (runningTerminalIds t) \<Longrightarrow>
     consistent_state t"
  by (simp add: consistent_state_def same_view_def focused_def unshared_def)

section \<open>Visibility and presentation\<close>

lemma visibility_wf:
  "wf_state (setThreadTerminalOpen s opn)"
  "wf_state (openThreadChatPage s)"
  "wf_state (openThreadTerminalPage s only)"
  "wf_state (setThreadTerminalPresentationMode s mode)"
  "wf_state (setThreadTerminalWorkspaceTab s tab)"
  "wf_state (setThreadTerminalWorkspaceLayout s lay)"
  "wf_state (setThreadTerminalHeight s h)"
  "wf_state (closeThreadWorkspaceChat s)"
proof -
  define n where "n = normalizeThreadTerminalState s"
  have w: "wf_state n" by (simp add: n_def)
  note d = wf_state_D [OF w]
  show "wf_state (setThreadTerminalOpen s opn)"
    "wf_state (openThreadChatPage s)"
    "wf_state (setThreadTerminalPresentationMode s mode)"
    "wf_state (setThreadTerminalWorkspaceLayout s lay)"
    "wf_state (closeThreadWorkspaceChat s)"
    using w by (simp_all add: setThreadTerminalOpen_def openThreadChatPage_def
      setThreadTerminalPresentationMode_def setThreadTerminalWorkspaceLayout_def
      closeThreadWorkspaceChat_def Let_def wf_update_flags flip: n_def)
  show "wf_state (openThreadTerminalPage s only)" "wf_state (setThreadTerminalWorkspaceTab s tab)"
    using w d(2) by (simp_all add: openThreadTerminalPage_def setThreadTerminalWorkspaceTab_def Let_def
      wf_update_flags wf_update_attention keys_within_clearReview flip: n_def)
  show "wf_state (setThreadTerminalHeight s h)"
    using w by (simp add: setThreadTerminalHeight_def wf_update_flags Let_def flip: n_def split: jsnum.split)
qed

section \<open>Metadata\<close>

lemma metadata_wf:
  "wf_state (setThreadTerminalMetadata s t kind label)"
  "wf_state (setThreadTerminalCliKind s t kind)"
  "wf_state (setThreadTerminalTitleOverride s t title)"
  "wf_state (setThreadTerminalActivity s t agent running)"
proof -
  define n where "n = normalizeThreadTerminalState s"
  have w: "wf_state n" by (simp add: n_def)
  note d = wf_state_D [OF w]
  show "wf_state (setThreadTerminalMetadata s t kind label)"
  proof (cases "t \<in> set (terminalIds n)")
    case True
    then show ?thesis
      using w d(1) wf_label [OF w True] js_trim_empty_iff [of label]
      by (simp add: setThreadTerminalMetadata_def Let_def wf_update_label wf_update_attention
        keys_within_setOrDelete createUniqueTerminalTitle_trimmed flip: n_def)
  qed (use w in \<open>simp add: setThreadTerminalMetadata_def Let_def flip: n_def\<close>)
  show "wf_state (setThreadTerminalCliKind s t kind)"
  proof (cases "t \<in> set (terminalIds n)")
    case True
    then show ?thesis
      using w d(1)
      by (simp add: setThreadTerminalCliKind_def Let_def wf_update_label wf_update_attention
        keys_within_setOrDelete createUniqueTerminalTitle_trimmed flip: n_def)
  qed (use w in \<open>simp add: setThreadTerminalCliKind_def Let_def flip: n_def\<close>)
  show "wf_state (setThreadTerminalTitleOverride s t title)"
  proof (cases "t \<in> set (terminalIds n)")
    case True
    then show ?thesis
      using w d(3,4) js_trim_empty_iff [of "nullish title []"]
      by (simp add: setThreadTerminalTitleOverride_def Let_def wf_update_attention setOrDelete_def
        keys_within_set keys_within_delete trimmed_values_set trimmed_values_delete flip: n_def)
  qed (use w in \<open>simp add: setThreadTerminalTitleOverride_def Let_def flip: n_def\<close>)
  show "wf_state (setThreadTerminalActivity s t agent running)"
  proof (cases "t \<in> set (terminalIds n)")
    case True
    then have "set (if running then (if t \<in> set (js_dedup (runningTerminalIds n)) then js_dedup (runningTerminalIds n)
        else js_dedup (runningTerminalIds n) @ [t]) else removeAll t (js_dedup (runningTerminalIds n)))
        \<subseteq> set (terminalIds n)"
      using d(5) by auto
    with w d(2) True show ?thesis
      unfolding setThreadTerminalActivity_def Let_def n_def [symmetric]
      by (simp del: set_js_dedup add: wf_update_attention keys_within_setOrDelete)
  qed (use w in \<open>simp add: setThreadTerminalActivity_def Let_def flip: n_def\<close>)
qed

section \<open>Adding, activating, closing\<close>

lemma reopen_wf [simp]: "wf_state (reopen_with n tids a gs ag)"
  by (simp add: reopen_with_def)

lemma upsert_wf [simp]: "wf_state (upsertTerminalIntoGroups s t mode pos)"
  by (simp add: upsertTerminalIntoGroups_def Let_def)

lemma adding_wf:
  "wf_state (splitThreadTerminal s t)" "wf_state (splitThreadTerminalLeft s t)"
  "wf_state (splitThreadTerminalDown s t)" "wf_state (splitThreadTerminalUp s t)"
  "wf_state (newThreadTerminal s t)" "wf_state (newThreadTerminalTab s target t)"
  "wf_state (openThreadTerminalFullWidth s t)"
  by (simp_all add: splitThreadTerminal_def splitThreadTerminalLeft_def splitThreadTerminalDown_def
      splitThreadTerminalUp_def newThreadTerminal_def newThreadTerminalTab_def
      openThreadTerminalFullWidth_def Let_def split: option.split)

text \<open>The group of a terminal.\<close>

lemma canonical_owner:
  assumes "canonical_groups ids gs" "t \<in> set ids"
  obtains g where "g \<in> set gs" "t \<in> set (group_ids g)" "groupIdOfTerminal gs t = Some (groupId g)"
proof -
  obtain g where g: "g \<in> set gs" "t \<in> set (group_ids g)"
    using assms unfolding canonical_groups_def groups_ids_def by blast
  have w: "wf_group h" if "h \<in> set gs" for h
    using assms(1) that by (auto simp: canonical_groups_def intro: separate_groups_D)
  then have col: "collectTerminalIdsFromLayout (layout h) = group_ids h" if "h \<in> set gs" for h
    using that by simp
  show ?thesis
  proof (cases "List.find (\<lambda>g. t \<in> set (collectTerminalIdsFromLayout (layout g))) gs")
    case None
    then show ?thesis using g col by (auto simp: find_None_iff)
  next
    case (Some h)
    from find_Some_mem [OF Some] col [of h] have "h \<in> set gs" "t \<in> set (group_ids h)" by auto
    with that [of h] Some show ?thesis by (simp add: groupIdOfTerminal_def)
  qed
qed

definition activate :: "string \<Rightarrow> string \<Rightarrow> terminal_group \<Rightarrow> terminal_group" where
  "activate ag t g = (if groupId g = ag then setActiveTerminalInGroupLayout g t else g)"

lemma activate_props:
  assumes "wf_group g"
  shows "wf_group (activate ag t g)" "flat_group g \<Longrightarrow> flat_group (activate ag t g)"
    and "groupId (activate ag t g) = groupId g" "group_ids (activate ag t g) = group_ids g"
    and "groupId g = ag \<Longrightarrow> t \<in> set (group_ids g) \<Longrightarrow> groupActiveTerminalId (activate ag t g) = t"
  using assms by (simp_all add: activate_def setActive_group_props)

lemma setThreadActiveTerminal_wf: "wf_state (setThreadActiveTerminal s t)"
proof -
  define n where "n = normalizeThreadTerminalState s"
  have w: "wf_state n" by (simp add: n_def)
  note d = wf_state_D [OF w]
  have sep: "separate_groups (terminalGroups n)" using d(7) by (simp add: canonical_groups_def)
  show ?thesis
  proof (cases "t \<in> set (terminalIds n)")
    case True
    obtain g where g: "g \<in> set (terminalGroups n)" "t \<in> set (group_ids g)"
      "groupIdOfTerminal (terminalGroups n) t = Some (groupId g)"
      using canonical_owner [OF d(7) True] by blast
    define gs where "gs = map (activate (groupId g) t) (terminalGroups n)"
    have p: "wf_group (activate a t h) \<and> flat_group (activate a t h) \<and>
        groupId (activate a t h) = groupId h \<and> group_ids (activate a t h) = group_ids h"
      if "h \<in> set (terminalGroups n)" for h a
      using that sep by (simp add: activate_props separate_groups_D)
    have can: "canonical_groups (terminalIds n) gs"
      unfolding gs_def by (rule canonical_groups_map [OF d(7)]) (use p in auto)
    have mem: "groupId g \<in> groupId ` set gs"
      unfolding gs_def set_map image_image using g(1) p by (intro image_eqI [of _ _ g]) simp_all
    have syn: "synced (groupId g) t gs"
      using sep p by (auto simp: synced_def gs_def activate_props separate_groups_D)
    have "wf_state (n\<lparr>activeTerminalId := t, terminalGroups := gs, activeTerminalGroupId := groupId g,
        terminalAttentionStatesById := clearTerminalReviewState (terminalAttentionStatesById n) t\<rparr>)"
      using w True can mem syn d(2) by (simp add: wf_state_def keys_within_clearReview)
    moreover have "map (\<lambda>h. if groupId h = groupId g then setActiveTerminalInGroupLayout h t else h)
        (terminalGroups n) = gs"
      by (simp add: gs_def activate_def)
    ultimately show ?thesis
      using w True by (simp add: setThreadActiveTerminal_def Let_def g(3) flip: n_def)
  qed (use w in \<open>simp add: setThreadActiveTerminal_def Let_def flip: n_def\<close>)
qed

lemma default_consistent: "consistent_state DEFAULT_THREAD_TERMINAL_STATE"
proof -
  have t: "trimmed (fallbackGroupId DEFAULT_THREAD_TERMINAL_ID)" "trimmed ''Terminal 1''"
    by (rule fallbackGroupId_trimmed, simp, simp add: trimmed_def is_space_def)
  have "canonical_groups [DEFAULT_THREAD_TERMINAL_ID]
      [createTerminalGroup (fallbackGroupId DEFAULT_THREAD_TERMINAL_ID) DEFAULT_THREAD_TERMINAL_ID]"
    by (simp add: canonical_groups_def separate_groups_single t)
  then show ?thesis
    using t by (auto simp: consistent_state_def wf_state_def focused_def unshared_def wf_ids_def
        DEFAULT_THREAD_TERMINAL_STATE_def DEFAULT_THREAD_TERMINAL_HEIGHT_def synced_def keys_within_def
        trimmed_values_def)
qed

lemma createDefault_eq [simp]: "createDefaultThreadTerminalState = DEFAULT_THREAD_TERMINAL_STATE"
  by (simp add: createDefaultThreadTerminalState_def)

lemma default_wf [simp]: "wf_state DEFAULT_THREAD_TERMINAL_STATE"
  using default_consistent by (simp add: consistent_state_def)

lemma closing_wf:
  "wf_state (closeThreadTerminal s t)" "wf_state (closeThreadTerminalGroup s gid)"
proof -
  show c: "wf_state (closeThreadTerminal s t)" for s t
    by (simp add: closeThreadTerminal_def Let_def)
  have "wf_state n \<Longrightarrow> wf_state (foldl closeThreadTerminal n ts)" for n ts
    by (induction ts arbitrary: n) (simp_all add: c)
  then show "wf_state (closeThreadTerminalGroup s gid)"
    by (simp add: closeThreadTerminalGroup_def Let_def split: option.split)
qed

lemma layout_wf:
  "wf_state (resizeThreadTerminalSplit s gid sid ws)" "wf_state (applyThreadWorkspaceLayoutPreset s pid tids)"
  by (simp_all add: resizeThreadTerminalSplit_def applyThreadWorkspaceLayoutPreset_def Let_def
      split: option.split)

lemma step_wf: "wf_state (terminal_step s a)"
  by (cases a) (simp_all add: visibility_wf metadata_wf adding_wf closing_wf layout_wf
      setThreadActiveTerminal_wf)

interpretation term_store: invariant_store terminal_step "\<lambda>_ _. True" wf_state
  by unfold_locales (rule step_wf)

section \<open>Lists of groups\<close>

lemma split_at: "i < length xs \<Longrightarrow> xs = take i xs @ xs ! i # drop (Suc i) xs"
  by (rule id_take_nth_drop)

lemma update_at: "i < length xs \<Longrightarrow> xs[i := x] = take i xs @ x # drop (Suc i) xs"
  by (rule upd_conv_take_nth_drop)

lemma groups_ids_mem: "g \<in> set gs \<Longrightarrow> t \<in> set (group_ids g) \<Longrightarrow> t \<in> groups_ids gs"
  by (auto simp: groups_ids_def)

lemma find_owner_Some:
  assumes "apart_groups gs" "findGroupIndexByTerminalId gs t = Some i"
  shows "i < length gs" "t \<in> set (group_ids (gs ! i))"
  using assms find_index_SomeD [of "\<lambda>g. t \<in> set (collectTerminalIdsFromLayout (layout g))" gs i]
    apart_groups_D(1) [OF assms(1), of "gs ! i"]
  by (auto simp: findGroupIndexByTerminalId_def)

lemma find_owner_None:
  assumes "apart_groups gs"
  shows "findGroupIndexByTerminalId gs t = None \<longleftrightarrow> t \<notin> groups_ids gs"
proof -
  have "collectTerminalIdsFromLayout (layout g) = group_ids g" if "g \<in> set gs" for g
    using apart_groups_D(1) [OF assms that] by simp
  then show ?thesis
    by (auto simp: findGroupIndexByTerminalId_def find_index_None_iff groups_ids_def)
qed

lemma find_group_id:
  assumes "apart_groups gs" "g \<in> set gs"
  shows "\<exists>i. find_index (\<lambda>h. groupId h = groupId g) gs = Some i \<and> i < length gs \<and> gs ! i = g"
proof (cases "find_index (\<lambda>h. groupId h = groupId g) gs")
  case None
  then show ?thesis using assms(2) by (auto simp: find_index_None_iff)
next
  case (Some i)
  with find_index_SomeD [OF Some] have i: "i < length gs" "groupId (gs ! i) = groupId g" by auto
  then have "gs ! i = g" using apart_groups_D(2) [OF assms(1) _ assms(2)] by auto
  with i Some show ?thesis by auto
qed

text \<open>A group of the list is exchanged for one of the same id whose terminals are free elsewhere.\<close>

lemma exchange_group:
  assumes "apart_groups (pre @ g # post)" "wf_group g'" "groupId g' = groupId g"
    and "set (group_ids g') \<inter> (groups_ids pre \<union> groups_ids post) = {}"
  shows "apart_groups (pre @ g' # post)"
  using assms by (auto simp: apart_groups_append apart_groups_Cons)

text \<open>Detaching a terminal takes it out of the one group that shows it.\<close>

lemma detach_props:
  assumes ap: "apart_groups gs" and d: "list_all (\<lambda>g. distinct (group_ids g)) gs"
  shows "apart_groups (detachTerminal gs t)"
    and "groups_ids (detachTerminal gs t) = groups_ids gs - {t}"
    and "list_all (\<lambda>g. distinct (group_ids g)) (detachTerminal gs t)"
    and "g \<in> set gs \<Longrightarrow> \<not> set (group_ids g) \<subseteq> {t} \<Longrightarrow>
      \<exists>h\<in>set (detachTerminal gs t). groupId h = groupId g \<and> group_ids h = filter (\<lambda>x. x \<noteq> t) (group_ids g)"
proof -
  have "apart_groups (detachTerminal gs t) \<and> groups_ids (detachTerminal gs t) = groups_ids gs - {t} \<and>
    list_all (\<lambda>g. distinct (group_ids g)) (detachTerminal gs t) \<and>
    (g \<in> set gs \<longrightarrow> \<not> set (group_ids g) \<subseteq> {t} \<longrightarrow>
      (\<exists>h\<in>set (detachTerminal gs t). groupId h = groupId g \<and> group_ids h = filter (\<lambda>x. x \<noteq> t) (group_ids g)))"
  proof (cases "findGroupIndexByTerminalId gs t")
    case None
    then have t: "t \<notin> groups_ids gs" by (simp add: find_owner_None [OF ap])
    then have "filter (\<lambda>x. x \<noteq> t) (group_ids g) = group_ids g" if "g \<in> set gs"
      using that by (intro filter_True) (auto dest: groups_ids_mem)
    with None t ap d show ?thesis by (auto simp: detachTerminal_def)
  next
    case (Some i)
    note i = find_owner_Some [OF ap Some]
    define pre where "pre = take i gs"
    define post where "post = drop (Suc i) gs"
    define o' where "o' = gs ! i"
    have gs: "gs = pre @ o' # post" unfolding pre_def post_def o'_def by (rule split_at [OF i(1)])
    have w: "wf_group o'" using ap by (simp add: gs apart_groups_append apart_groups_Cons)
    have tin: "t \<in> set (group_ids o')" using i(2) by (simp add: o'_def)
    have tout: "t \<notin> groups_ids pre" "t \<notin> groups_ids post"
      using ap tin by (auto simp: gs apart_groups_append apart_groups_Cons)
    then have keep: "filter (\<lambda>x. x \<noteq> t) (group_ids h) = group_ids h" if "h \<in> set pre \<union> set post" for h
      using that by (intro filter_True) (auto dest: groups_ids_mem)
    show ?thesis
    proof (cases "removeTerminalFromGroupLayout o' t")
      case None
      then have eq: "detachTerminal gs t = pre @ post"
        using Some by (simp add: detachTerminal_def pre_def post_def o'_def splice_one_def)
      have "set (group_ids o') \<subseteq> {t}" using None by (simp add: remove_group_props(1) [OF w])
      then show ?thesis
        using ap d tout keep tin unfolding eq
        by (auto simp: gs apart_groups_append apart_groups_Cons)
    next
      case r: (Some o'')
      then have eq: "detachTerminal gs t = pre @ o'' # post"
        using Some i(1) by (simp add: detachTerminal_def pre_def post_def o'_def update_at)
      have dist: "distinct (group_ids o')" using d by (simp add: gs)
      have o'': "wf_group o''" "group_ids o'' = filter (\<lambda>x. x \<noteq> t) (group_ids o')" "groupId o'' = groupId o'"
        using remove_group_props(2) [OF w r dist] remove_group_props(3) [OF w r] by simp_all
      have "apart_groups (pre @ o'' # post)"
        by (rule exchange_group [OF ap [unfolded gs] o''(1,3)])
          (use ap o''(2) in \<open>auto simp: gs apart_groups_append apart_groups_Cons\<close>)
      then show ?thesis
        using d tout keep tin o'' dist unfolding eq by (auto simp: gs)
    qed
  qed
  then show "apart_groups (detachTerminal gs t)"
    "groups_ids (detachTerminal gs t) = groups_ids gs - {t}"
    "list_all (\<lambda>g. distinct (group_ids g)) (detachTerminal gs t)"
    "g \<in> set gs \<Longrightarrow> \<not> set (group_ids g) \<subseteq> {t} \<Longrightarrow>
      \<exists>h\<in>set (detachTerminal gs t). groupId h = groupId g \<and> group_ids h = filter (\<lambda>x. x \<noteq> t) (group_ids g)"
    by blast+
qed

section \<open>Consistency of adding terminals\<close>

lemma consistent_D:
  assumes "consistent_state n"
  shows "wf_state n" "apart_groups (terminalGroups n)" "groups_ids (terminalGroups n) = set (terminalIds n)"
    and "list_all (\<lambda>g. distinct (group_ids g)) (terminalGroups n)" "wf_ids (terminalIds n)"
    and "distinct (runningTerminalIds n)" "set (runningTerminalIds n) \<subseteq> set (terminalIds n)"
  using assms by (simp_all add: consistent_state_def unshared_def wf_state_def canonical_groups_def
      separate_groups_apart)

lemma consistent_owner:
  assumes "consistent_state n"
  obtains g where "g \<in> set (terminalGroups n)" "groupId g = activeTerminalGroupId n"
    "activeTerminalId n \<in> set (group_ids g)"
  using assms by (auto simp: consistent_state_def focused_def)

lemma consistent_normalize: "consistent_state s \<Longrightarrow> consistent_state (normalizeThreadTerminalState s)"
  by (simp add: normalizeThreadTerminalState_eq consistent_normalized)

lemma normalize_same_fields:
  assumes "consistent_state s"
  shows "terminalIds (normalizeThreadTerminalState s) = terminalIds s"
    and "activeTerminalId (normalizeThreadTerminalState s) = activeTerminalId s"
    and "activeTerminalGroupId (normalizeThreadTerminalState s) = activeTerminalGroupId s"
    and "map group_ids (terminalGroups (normalizeThreadTerminalState s)) = map group_ids (terminalGroups s)"
    and "map groupId (terminalGroups (normalizeThreadTerminalState s)) = map groupId (terminalGroups s)"
    and "runningTerminalIds (normalizeThreadTerminalState s) = runningTerminalIds s"
  using consistent_normalized [OF assms] by (simp_all add: normalizeThreadTerminalState_eq)

text \<open>What a list of groups shows: the ids of the groups and the terminals in their panes.\<close>

definition group_view :: "terminal_group list \<Rightarrow> (string \<times> string list) list" where
  "group_view gs = map (\<lambda>g. (groupId g, group_ids g)) gs"

lemma group_view_eqI:
  "map groupId gs = map groupId hs \<Longrightarrow> map group_ids gs = map group_ids hs \<Longrightarrow> group_view gs = group_view hs"
proof -
  have zip: "group_view xs = zip (map groupId xs) (map group_ids xs)" for xs
    by (simp add: group_view_def zip_map_map zip_same_conv_map)
  show "map groupId gs = map groupId hs \<Longrightarrow> map group_ids gs = map group_ids hs \<Longrightarrow> ?thesis"
    by (simp only: zip)
qed

lemma group_view_simps [simp]:
  "group_view [] = []" "group_view (g # gs) = (groupId g, group_ids g) # group_view gs"
  "group_view (gs @ hs) = group_view gs @ group_view hs"
  by (simp_all add: group_view_def)

definition with_terminal :: "string list \<Rightarrow> string \<Rightarrow> string list" where
  "with_terminal ids t = (if t \<in> set ids then ids else ids @ [t])"

lemma with_terminal_props:
  "set (with_terminal ids t) = insert t (set ids)"
  "wf_ids ids \<Longrightarrow> trimmed t \<Longrightarrow> wf_ids (with_terminal ids t)"
  by (auto simp: with_terminal_def wf_ids_def)

lemma reopen_props:
  assumes "consistent_state n" "trimmed t" "apart_groups gs" "groups_ids gs = insert t (set (terminalIds n))"
    and "list_all (\<lambda>g. distinct (group_ids g)) gs" "g \<in> set gs" "t \<in> set (group_ids g)"
  defines "r \<equiv> reopen_with n (with_terminal (terminalIds n) t) t gs (groupId g)"
  shows "consistent_state r" "terminalIds r = with_terminal (terminalIds n) t" "activeTerminalId r = t"
    and "activeTerminalGroupId r = groupId g" "map groupId (terminalGroups r) = map groupId gs"
    and "map group_ids (terminalGroups r) = map group_ids gs"
    and "runningTerminalIds r = runningTerminalIds n"
proof -
  note d = consistent_D [OF assms(1)]
  have "candidate (n\<lparr>terminalOpen := True, terminalIds := with_terminal (terminalIds n) t,
      activeTerminalId := t, terminalGroups := gs, activeTerminalGroupId := groupId g\<rparr>)"
    using assms(2-7) d(5-7)
    by (auto simp: candidate_def with_terminal_props focused_def unshared_def)
  note candidate_normalized [OF this]
  then show "consistent_state r" "terminalIds r = with_terminal (terminalIds n) t" "activeTerminalId r = t"
    "activeTerminalGroupId r = groupId g" "map groupId (terminalGroups r) = map groupId gs"
    "map group_ids (terminalGroups r) = map group_ids gs"
    "runningTerminalIds r = runningTerminalIds n"
    by (simp_all add: r_def reopen_with_def normalizeThreadTerminalState_eq)
qed

text \<open>A new terminal gets a group of its own.\<close>

lemma upsert_new:
  fixes pos
  assumes c: "consistent_state s" and t: "trimmed t"
  defines "r \<equiv> upsertTerminalIntoGroups s t NewMode pos"
  shows "consistent_state r" "terminalIds r = with_terminal (terminalIds s) t" "activeTerminalId r = t"
    and "runningTerminalIds r = runningTerminalIds s"
    and "\<exists>gs. group_view (terminalGroups r) = gs @ [(activeTerminalGroupId r, [t])] \<and>
      (t \<notin> set (terminalIds s) \<longrightarrow> gs = group_view (terminalGroups s))"
proof -
  define n where "n = normalizeThreadTerminalState s"
  have cn: "consistent_state n" using c by (simp add: n_def consistent_normalize)
  note f = normalize_same_fields [OF c, folded n_def] and d = consistent_D [OF cn]
  define gs where "gs = detachTerminal (terminalGroups n) t"
  note dt = detach_props [OF d(2,4), where t = t, folded gs_def]
  define gid where "gid = fst (assignUniqueGroupId (fallbackGroupId t) (map groupId gs))"
  have gid: "gid \<notin> groupId ` set gs" "trimmed gid"
    using assignUnique_props(1) [of "fallbackGroupId t" "map groupId gs"]
      assignUnique_props(4) [OF fallbackGroupId_trimmed [OF t]] by (simp_all add: gid_def)
  let ?new = "createTerminalGroup gid t"
  have ap: "apart_groups (gs @ [?new])"
    using dt(1,2) gid t by (auto simp: apart_groups_append apart_groups_Cons)
  have ids: "groups_ids (gs @ [?new]) = insert t (set (terminalIds n))"
    using dt(2) d(3) by auto
  have dis: "list_all (\<lambda>g. distinct (group_ids g)) (gs @ [?new])"
    using dt(3) by simp
  have valid: "isValidTerminalId t" using t by (auto simp: isValidTerminalId_def js_trim_id)
  have r: "r = reopen_with n (with_terminal (terminalIds n) t) t (gs @ [?new]) (groupId ?new)"
    using valid
    by (simp add: r_def upsertTerminalIntoGroups_def Let_def with_terminal_def gs_def gid_def n_def)
  have "?new \<in> set (gs @ [?new])" "t \<in> set (group_ids ?new)" by simp_all
  note p = reopen_props [OF cn t ap ids dis this, folded r]
  show "consistent_state r" "terminalIds r = with_terminal (terminalIds s) t" "activeTerminalId r = t"
    "runningTerminalIds r = runningTerminalIds s" using p f by simp_all
  have v: "group_view (terminalGroups r) = group_view (gs @ [?new])"
    using p(5,6) by (rule group_view_eqI)
  have "group_view gs = group_view (terminalGroups s)" if "t \<notin> set (terminalIds s)"
  proof -
    have "gs = terminalGroups n"
      using that f(1) d(3) find_owner_None [OF d(2), of t] by (simp add: gs_def detachTerminal_def)
    with f(5,4) show ?thesis by (auto intro: group_view_eqI)
  qed
  with v p(4) show "\<exists>gs. group_view (terminalGroups r) = gs @ [(activeTerminalGroupId r, [t])] \<and>
      (t \<notin> set (terminalIds s) \<longrightarrow> gs = group_view (terminalGroups s))"
    by (intro exI [of _ "group_view gs"]) simp
qed

text \<open>A split inserts the terminal beside the active one, in the active group, up to the bound.\<close>

definition active_group_ids :: "thread_terminal_state \<Rightarrow> string list" where
  "active_group_ids s = concat (map group_ids
     (filter (\<lambda>g. groupId g = activeTerminalGroupId s) (terminalGroups s)))"

lemma active_group_ids_eq:
  assumes "apart_groups (terminalGroups s)" "g \<in> set (terminalGroups s)"
    and "groupId g = activeTerminalGroupId s"
  shows "active_group_ids s = group_ids g"
proof -
  have "filter (\<lambda>h. groupId h = groupId g) gs = [g]" if "apart_groups gs" "g \<in> set gs" for gs
    using that
  proof (induction gs)
    case (Cons h gs)
    have "groupId h \<notin> groupId ` set gs \<Longrightarrow> filter (\<lambda>x. groupId x = groupId h) gs = []"
      by (induction gs) auto
    with Cons show ?case by (cases "g = h") (auto simp: apart_groups_Cons)
  qed simp
  from this [OF assms(1,2)] assms(3) show ?thesis by (simp add: active_group_ids_def)
qed

lemma active_group_ids_view:
  "activeTerminalGroupId r = activeTerminalGroupId s \<Longrightarrow> map groupId (terminalGroups r) = map groupId (terminalGroups s) \<Longrightarrow>
     map group_ids (terminalGroups r) = map group_ids (terminalGroups s) \<Longrightarrow>
     active_group_ids r = active_group_ids s"
proof -
  have "active_group_ids x = concat (map snd (filter (\<lambda>p. fst p = activeTerminalGroupId x)
      (group_view (terminalGroups x))))" for x
    by (simp add: active_group_ids_def group_view_def filter_map o_def)
  then show "activeTerminalGroupId r = activeTerminalGroupId s \<Longrightarrow>
     map groupId (terminalGroups r) = map groupId (terminalGroups s) \<Longrightarrow>
     map group_ids (terminalGroups r) = map group_ids (terminalGroups s) \<Longrightarrow> ?thesis"
    using group_view_eqI [of "terminalGroups r" "terminalGroups s"] by simp
qed

lemma upsert_split:
  fixes pos
  assumes c: "consistent_state s" and t: "trimmed t" "t \<noteq> activeTerminalId s"
  defines "r \<equiv> upsertTerminalIntoGroups s t SplitMode pos"
  shows "consistent_state r"
    and "t \<notin> set (terminalIds s) \<Longrightarrow> length (active_group_ids s) \<ge> MAX_TERMINALS_PER_GROUP \<Longrightarrow>
      r = normalizeThreadTerminalState s"
    and "t \<in> set (terminalIds s) \<or> length (active_group_ids s) < MAX_TERMINALS_PER_GROUP \<Longrightarrow>
      terminalIds r = with_terminal (terminalIds s) t \<and> activeTerminalId r = t \<and>
      activeTerminalGroupId r = activeTerminalGroupId s \<and> runningTerminalIds r = runningTerminalIds s"
    and "t \<notin> set (terminalIds s) \<Longrightarrow> length (active_group_ids s) < MAX_TERMINALS_PER_GROUP \<Longrightarrow>
      \<exists>pre old new post. group_view (terminalGroups s) = pre @ (activeTerminalGroupId s, old) # post \<and>
        group_view (terminalGroups r) = pre @ (activeTerminalGroupId s, new) # post \<and>
        inserted_beside pos (activeTerminalId s) t old new"
proof -
  define n where "n = normalizeThreadTerminalState s"
  have cn: "consistent_state n" using c by (simp add: n_def consistent_normalize)
  note f = normalize_same_fields [OF c, folded n_def] and d = consistent_D [OF cn]
  have act: "active_group_ids n = active_group_ids s"
    by (rule active_group_ids_view [OF f(3,5,4)])
  define gs where "gs = detachTerminal (terminalGroups n) t"
  note dt = detach_props [OF d(2,4), where t = t, folded gs_def]
  obtain g where g: "g \<in> set (terminalGroups n)" "groupId g = activeTerminalGroupId n"
    "activeTerminalId n \<in> set (group_ids g)"
    using consistent_owner [OF cn] by blast
  have ta: "t \<noteq> activeTerminalId n" using t(2) f(2) by simp
  then have "\<not> set (group_ids g) \<subseteq> {t}" using g(3) by auto
  from dt(4) [OF g(1) this] obtain h where h: "h \<in> set gs" "groupId h = activeTerminalGroupId n"
    "group_ids h = filter (\<lambda>x. x \<noteq> t) (group_ids g)" using g(2) by auto
  obtain i where i: "find_index (\<lambda>x. groupId x = activeTerminalGroupId n) gs = Some i" "i < length gs" "gs ! i = h"
    using find_group_id [OF dt(1) h(1)] h(2) by auto
  have wh: "wf_group h" using dt(1) h(1) by (rule apart_groups_D)
  have fresh: "t \<notin> set (group_ids h)" "activeTerminalId n \<in> set (group_ids h)"
    using h(3) g(3) ta by auto
  define h' where "h' = splitTerminalGroupLayout h (activeTerminalId n) t pos (''split-'' @ t)"
  note sp = split_group_props [OF wh fresh(2) t(1), of pos "''split-'' @ t", folded h'_def]
  define pre where "pre = take i gs"
  define post where "post = drop (Suc i) gs"
  have gs: "gs = pre @ h # post" unfolding pre_def post_def i(3) [symmetric] by (rule split_at [OF i(2)])
  have upd: "gs[i := h'] = pre @ h' # post" unfolding pre_def post_def by (rule update_at [OF i(2)])
  note ibs = inserted_beside_set [OF sp(2)]
  have out: "t \<notin> groups_ids gs" using dt(2) by simp
  have ap: "apart_groups (gs[i := h'])"
    unfolding upd by (rule exchange_group [OF dt(1) [unfolded gs] sp(1,4)])
      (use dt(1) out ibs in \<open>auto simp: gs apart_groups_append apart_groups_Cons\<close>)
  have ids: "groups_ids (gs[i := h']) = insert t (set (terminalIds n))"
    using dt(2) d(3) ibs unfolding upd by (auto simp: gs)
  have dis: "list_all (\<lambda>g. distinct (group_ids g)) (gs[i := h'])"
    using dt(3) fresh(1) inserted_beside_distinct [OF sp(2)] unfolding upd by (simp add: gs)
  have mem: "h' \<in> set (gs[i := h'])" "t \<in> set (group_ids h')" using ibs by (simp_all add: upd)
  note p = reopen_props [OF cn t(1) ap ids dis mem]
  have valid: "isValidTerminalId t" using t(1) by (auto simp: isValidTerminalId_def js_trim_id)
  have agi: "t \<notin> set (terminalIds n) \<Longrightarrow> group_ids h = active_group_ids n"
    using active_group_ids_eq [OF d(2) g(1,2)] h(3) d(3) groups_ids_mem [OF g(1)]
    by (auto intro!: filter_True)
  have r: "r = (if t \<notin> set (terminalIds n) \<and> length (active_group_ids n) \<ge> MAX_TERMINALS_PER_GROUP then n
      else reopen_with n (with_terminal (terminalIds n) t) t (gs[i := h']) (groupId h'))"
  proof -
    have "destinationGroups n gs = (gs, i)" using i(1) by (simp add: destinationGroups_def)
    then show ?thesis
      using valid wh fresh(1) agi i(2)
      unfolding r_def upsertTerminalIntoGroups_def Let_def n_def [symmetric] copyTerminalGroups_id
        gs_def [symmetric] with_terminal_def
      by (simp add: i(3) h'_def)
  qed
  show "consistent_state r" using cn p(1) by (simp add: r)
  show "t \<notin> set (terminalIds s) \<Longrightarrow> length (active_group_ids s) \<ge> MAX_TERMINALS_PER_GROUP \<Longrightarrow>
      r = normalizeThreadTerminalState s"
    unfolding n_def [symmetric] by (simp add: r f(1) act)
  { assume "t \<in> set (terminalIds s) \<or> length (active_group_ids s) < MAX_TERMINALS_PER_GROUP"
    then have r': "r = reopen_with n (with_terminal (terminalIds n) t) t (gs[i := h']) (groupId h')"
      using r f(1) act by auto
    show "terminalIds r = with_terminal (terminalIds s) t \<and> activeTerminalId r = t \<and>
      activeTerminalGroupId r = activeTerminalGroupId s \<and> runningTerminalIds r = runningTerminalIds s"
      using p(2-4,7) f(1,3,6) sp(4) h(2) by (simp add: r') }
  assume new: "t \<notin> set (terminalIds s)" "length (active_group_ids s) < MAX_TERMINALS_PER_GROUP"
  then have r': "r = reopen_with n (with_terminal (terminalIds n) t) t (gs[i := h']) (groupId h')"
    using r f(1) act by auto
  have "gs = terminalGroups n"
    using new(1) f(1) d(3) find_owner_None [OF d(2), of t] by (simp add: gs_def detachTerminal_def)
  then have "group_view (terminalGroups s) = group_view (pre @ h # post)"
    using f(4,5) gs by (auto intro: group_view_eqI)
  moreover have "group_view (terminalGroups r) = group_view (pre @ h' # post)"
    using p(5,6) upd by (intro group_view_eqI) (simp_all add: r')
  ultimately show "\<exists>pre old new post. group_view (terminalGroups s) = pre @ (activeTerminalGroupId s, old) # post \<and>
        group_view (terminalGroups r) = pre @ (activeTerminalGroupId s, new) # post \<and>
        inserted_beside pos (activeTerminalId s) t old new"
    using sp(2,4) h(2) f(2,3)
    by (intro exI [of _ "group_view pre"] exI [of _ "group_ids h"] exI [of _ "group_ids h'"]
        exI [of _ "group_view post"]) simp
qed

text \<open>A new tab goes to the pane of its target, whichever group shows it.\<close>

lemma newTab_props:
  assumes c: "consistent_state s" and t: "trimmed t" "t \<notin> set (terminalIds s)"
    and tg: "target \<in> set (terminalIds s)"
  defines "r \<equiv> newThreadTerminalTab s target t"
  shows "consistent_state r"
    and "r = normalizeThreadTerminalState s \<or>
      terminalIds r = terminalIds s @ [t] \<and> activeTerminalId r = t \<and>
      runningTerminalIds r = runningTerminalIds s \<and>
      (\<exists>pre gid old new post. group_view (terminalGroups s) = pre @ (gid, old) # post \<and>
        length old < MAX_TERMINALS_PER_GROUP \<and> activeTerminalGroupId r = gid \<and>
        group_view (terminalGroups r) = pre @ (gid, new) # post \<and> inserted_beside Right target t old new)"
proof -
  define n where "n = normalizeThreadTerminalState s"
  have cn: "consistent_state n" using c by (simp add: n_def consistent_normalize)
  note f = normalize_same_fields [OF c, folded n_def] and d = consistent_D [OF cn]
  define gs where "gs = terminalGroups n"
  obtain i where i0: "findGroupIndexByTerminalId gs target = Some i"
    using find_owner_None [OF d(2), of target] d(3) tg f(1) by (auto simp: gs_def)
  note i = find_owner_Some [OF d(2) [folded gs_def] i0]
  define h where "h = gs ! i"
  have h: "h \<in> set gs" "target \<in> set (group_ids h)" using i by (simp_all add: h_def)
  have wh: "wf_group h" "distinct (group_ids h)" and out: "t \<notin> groups_ids gs"
    using d(2,3,4) h(1) t(2) f(1) by (auto simp: gs_def list_all_iff dest: apart_groups_D)
  then have fresh: "t \<notin> set (group_ids h)" using h(1) by (auto dest: groups_ids_mem)
  define h' where "h' = addTerminalTabToGroupLayout h target t"
  note ad = addTab_group_props [OF wh(1) h(2) t(1) fresh wh(2), folded h'_def]
  note ibs = inserted_beside_set [OF ad(2)]
  define pre where "pre = take i gs"
  define post where "post = drop (Suc i) gs"
  have gs: "gs = pre @ h # post" unfolding pre_def post_def h_def by (rule split_at [OF i(1)])
  have upd: "gs[i := h'] = pre @ h' # post" unfolding pre_def post_def by (rule update_at [OF i(1)])
  have apg: "apart_groups (pre @ h # post)" using d(2) gs by (simp add: gs_def)
  have ap: "apart_groups (gs[i := h'])"
    unfolding upd by (rule exchange_group [OF apg ad(1,4)])
      (use apg out ibs in \<open>auto simp: gs apart_groups_append apart_groups_Cons\<close>)
  have ids: "groups_ids (gs[i := h']) = insert t (set (terminalIds n))"
  proof -
    have "groups_ids (pre @ h # post) = set (terminalIds n)" using d(3) gs by (simp add: gs_def)
    then show ?thesis using ibs unfolding upd by auto
  qed
  have dis: "list_all (\<lambda>g. distinct (group_ids g)) (gs[i := h'])"
  proof -
    have "list_all (\<lambda>g. distinct (group_ids g)) (pre @ h # post)" using d(4) gs by (simp add: gs_def)
    then show ?thesis using fresh inserted_beside_distinct [OF ad(2)] unfolding upd by simp
  qed
  have mem: "h' \<in> set (gs[i := h'])" "t \<in> set (group_ids h')" using ibs by (simp_all add: upd)
  note p = reopen_props [OF cn t(1) ap ids dis mem]
  have valid: "isValidTerminalId t" using t(1) by (auto simp: isValidTerminalId_def js_trim_id)
  have r: "r = (if length (group_ids h) \<ge> MAX_TERMINALS_PER_GROUP then n
      else reopen_with n (with_terminal (terminalIds n) t) t (gs[i := h']) (groupId h'))"
    using valid t(2) f(1) i0 wh(1)
    by (simp add: r_def newThreadTerminalTab_def Let_def with_terminal_def h'_def h_def
      flip: n_def gs_def)
  show "consistent_state r" using cn p(1) by (simp add: r)
  show "r = normalizeThreadTerminalState s \<or>
      terminalIds r = terminalIds s @ [t] \<and> activeTerminalId r = t \<and>
      runningTerminalIds r = runningTerminalIds s \<and>
      (\<exists>pre gid old new post. group_view (terminalGroups s) = pre @ (gid, old) # post \<and>
        length old < MAX_TERMINALS_PER_GROUP \<and> activeTerminalGroupId r = gid \<and>
        group_view (terminalGroups r) = pre @ (gid, new) # post \<and> inserted_beside Right target t old new)"
  proof (cases "length (group_ids h) \<ge> MAX_TERMINALS_PER_GROUP")
    case True
    then show ?thesis by (simp add: r n_def)
  next
    case False
    then have r': "r = reopen_with n (with_terminal (terminalIds n) t) t (gs[i := h']) (groupId h')"
      by (simp add: r)
    have "group_view (terminalGroups s) = group_view (pre @ h # post)"
      using f(4,5) gs by (intro group_view_eqI) (simp_all add: gs_def)
    moreover have "group_view (terminalGroups r) = group_view (pre @ h' # post)"
      using p(5,6) upd by (intro group_view_eqI) (simp_all add: r')
    moreover have "activeTerminalGroupId r = groupId h" using p(4) ad(4) by (simp add: r')
    ultimately have "\<exists>pre gid old new post. group_view (terminalGroups s) = pre @ (gid, old) # post \<and>
        length old < MAX_TERMINALS_PER_GROUP \<and> activeTerminalGroupId r = gid \<and>
        group_view (terminalGroups r) = pre @ (gid, new) # post \<and> inserted_beside Right target t old new"
      using False ad(2,4) by (intro exI [of _ "group_view pre"] exI [of _ "groupId h"]
        exI [of _ "group_ids h"] exI [of _ "group_ids h'"] exI [of _ "group_view post"]) simp
    moreover have "terminalIds r = terminalIds s @ [t]"
      using p(2) f(1) t(2) by (simp add: r' with_terminal_def)
    ultimately show ?thesis using p(3,7) f(6) by (simp add: r')
  qed
qed

section \<open>Consistency of activation and of the layout operations\<close>

lemma setActive_consistent:
  assumes c: "consistent_state s"
  shows "consistent_state (setThreadActiveTerminal s t)"
    and "t \<in> set (terminalIds s) \<Longrightarrow> activeTerminalId (setThreadActiveTerminal s t) = t"
    and "group_view (terminalGroups (setThreadActiveTerminal s t)) = group_view (terminalGroups s)"
proof -
  define n where "n = normalizeThreadTerminalState s"
  have cn: "consistent_state n" using c by (simp add: n_def consistent_normalize)
  note f = normalize_same_fields [OF c, folded n_def] and d = consistent_D [OF cn]
  define r where "r = setThreadActiveTerminal s t"
  have wr: "wf_state r" by (simp add: r_def setThreadActiveTerminal_wf)
  have view: "group_view (terminalGroups n) = group_view (terminalGroups s)"
    using f(4,5) by (intro group_view_eqI)
  have "consistent_state r \<and> (t \<in> set (terminalIds s) \<longrightarrow> activeTerminalId r = t) \<and>
      group_view (terminalGroups r) = group_view (terminalGroups n)"
  proof (cases "t \<in> set (terminalIds n)")
    case False
    then have "r = n" by (simp add: r_def setThreadActiveTerminal_def Let_def flip: n_def)
    with cn False f(1) show ?thesis by simp
  next
    case True
    obtain g where g: "g \<in> set (terminalGroups n)" "t \<in> set (group_ids g)"
      "groupIdOfTerminal (terminalGroups n) t = Some (groupId g)"
      using canonical_owner [OF wf_state_D(7) [OF d(1)] True] by blast
    define gs where "gs = map (activate (groupId g) t) (terminalGroups n)"
    have p: "groupId (activate a t h) = groupId h \<and> group_ids (activate a t h) = group_ids h"
      if "h \<in> set (terminalGroups n)" for h a
      using apart_groups_D(1) [OF d(2) that] by (simp add: activate_props)
    have m: "map (\<lambda>h. if groupId h = groupId g then setActiveTerminalInGroupLayout h t else h)
        (terminalGroups n) = gs" by (simp add: gs_def activate_def)
    have rn: "r = n \<and> activeTerminalId n = t \<or>
        activeTerminalId r = t \<and> terminalGroups r = gs \<and> activeTerminalGroupId r = groupId g \<and>
        runningTerminalIds r = runningTerminalIds n"
      using True by (auto simp: r_def setThreadActiveTerminal_def Let_def g(3) m simp flip: n_def)
    have vg: "group_view gs = group_view (terminalGroups n)"
      unfolding group_view_def gs_def map_map using p by (intro map_cong) simp_all
    show ?thesis
    proof (cases "r = n \<and> activeTerminalId n = t")
      case True
      with cn show ?thesis by simp
    next
      case False
      with rn have r: "activeTerminalId r = t" "terminalGroups r = gs" "activeTerminalGroupId r = groupId g"
        "runningTerminalIds r = runningTerminalIds n" by auto
      have "activate (groupId g) t g \<in> set gs" using g(1) by (simp add: gs_def)
      then have "focused r"
        unfolding focused_def r using g(2) p [OF g(1)]
        by (intro bexI [of _ "activate (groupId g) t g"]) simp_all
      moreover have "unshared r"
        using d(4,6) p by (auto simp: unshared_def r gs_def list_all_iff)
      ultimately show ?thesis using wr r vg by (simp add: consistent_state_def)
    qed
  qed
  then show "consistent_state (setThreadActiveTerminal s t)"
    "t \<in> set (terminalIds s) \<Longrightarrow> activeTerminalId (setThreadActiveTerminal s t) = t"
    "group_view (terminalGroups (setThreadActiveTerminal s t)) = group_view (terminalGroups s)"
    using view by (simp_all add: r_def)
qed

lemma candidate_exchange:
  assumes c: "consistent_state n" and i: "i < length (terminalGroups n)"
    and g: "wf_group g" "groupId g = groupId (terminalGroups n ! i)"
      "group_ids g = group_ids (terminalGroups n ! i)"
  shows "candidate (n\<lparr>terminalGroups := (terminalGroups n)[i := g]\<rparr>)"
    and "group_view ((terminalGroups n)[i := g]) = group_view (terminalGroups n)"
proof -
  note d = consistent_D [OF c]
  define pre where "pre = take i (terminalGroups n)"
  define post where "post = drop (Suc i) (terminalGroups n)"
  define h where "h = terminalGroups n ! i"
  have gs: "terminalGroups n = pre @ h # post"
    unfolding pre_def post_def h_def by (rule split_at [OF i])
  have upd: "(terminalGroups n)[i := g] = pre @ g # post"
    unfolding pre_def post_def by (rule update_at [OF i])
  have gh: "groupId g = groupId h" "group_ids g = group_ids h" using g by (simp_all add: h_def)
  show "group_view ((terminalGroups n)[i := g]) = group_view (terminalGroups n)"
    unfolding upd by (simp add: gs gh)
  have "apart_groups (pre @ g # post)"
    using d(2) gh g(1) by (simp add: gs apart_groups_append apart_groups_Cons)
  moreover have "focused (n\<lparr>terminalGroups := pre @ g # post\<rparr>)"
    using consistent_owner [OF c] gh by (auto simp: focused_def gs)
  moreover have "unshared (n\<lparr>terminalGroups := pre @ g # post\<rparr>)"
    using d(4,6) gh by (simp add: unshared_def gs)
  moreover have "groups_ids (pre @ g # post) = set (terminalIds n)"
    using d(3) gh by (simp add: gs)
  ultimately show "candidate (n\<lparr>terminalGroups := (terminalGroups n)[i := g]\<rparr>)"
    using d wf_state_D(6) [OF d(1)] unfolding upd by (simp add: candidate_def)
qed

lemma resize_consistent:
  assumes c: "consistent_state s"
  shows "consistent_state (resizeThreadTerminalSplit s gid sid ws)"
    and "group_view (terminalGroups (resizeThreadTerminalSplit s gid sid ws)) = group_view (terminalGroups s)"
proof -
  define n where "n = normalizeThreadTerminalState s"
  have cn: "consistent_state n" using c by (simp add: n_def consistent_normalize)
  note f = normalize_same_fields [OF c, folded n_def] and d = consistent_D [OF cn]
  have view: "group_view (terminalGroups n) = group_view (terminalGroups s)"
    using f(4,5) by (intro group_view_eqI)
  have "consistent_state (resizeThreadTerminalSplit s gid sid ws) \<and>
    group_view (terminalGroups (resizeThreadTerminalSplit s gid sid ws)) = group_view (terminalGroups n)"
  proof (cases "find_index (\<lambda>g. groupId g = gid) (terminalGroups n)")
    case None
    with cn show ?thesis by (simp add: resizeThreadTerminalSplit_def Let_def flip: n_def)
  next
    case (Some i)
    then have i: "i < length (terminalGroups n)" by (simp add: find_index_SomeD)
    then have w: "wf_group (terminalGroups n ! i)" by (intro apart_groups_D [OF d(2)]) simp
    note rp = resize_group_props [OF w, of sid ws]
    note ce = candidate_exchange [OF cn i rp(1,3,2)]
    note cd = candidate_normalized [OF ce(1)]
    have "group_view (terminalGroups (normalizedThreadTerminalState
        (n\<lparr>terminalGroups := (terminalGroups n)[i := resizeTerminalGroupLayout (terminalGroups n ! i) sid ws]\<rparr>)))
      = group_view (terminalGroups n)"
      using group_view_eqI [OF cd(5,6)] ce(2) by simp
    with Some cn cd(1) show ?thesis
      by (simp add: resizeThreadTerminalSplit_def Let_def normalizeThreadTerminalState_eq
        flip: n_def [unfolded normalizeThreadTerminalState_eq])
  qed
  with view show "consistent_state (resizeThreadTerminalSplit s gid sid ws)"
    "group_view (terminalGroups (resizeThreadTerminalSplit s gid sid ws)) = group_view (terminalGroups s)"
    by simp_all
qed

lemma preset_normalizers: "presetNormalizeTerminalIds = normalizeTerminalIds"
  by (rule ext) (simp add: presetNormalizeTerminalIds_def normalizeTerminalIds_def)

lemma normalizeRunning_filter:
  assumes "list_all trimmed r" "distinct r"
  shows "normalizeRunningTerminalIds r ids = filter (\<lambda>t. t \<in> set ids) r"
proof -
  have "filter (\<lambda>t. length t > 0 \<and> t \<in> set ids) r = filter (\<lambda>t. t \<in> set ids) r"
    using assms(1) by (intro filter_cong) (auto simp: list_all_iff)
  with assms show ?thesis
    by (simp add: normalizeRunningTerminalIds_def js_dedup_id map_trim_wf)
qed

lemma preset_consistent:
  assumes c: "consistent_state s"
    and n: "getWorkspaceLayoutPresetSlotCount pid \<le> length (normalizeTerminalIds tids)"
  defines "r \<equiv> applyThreadWorkspaceLayoutPreset s pid tids"
  shows "consistent_state r" "terminalIds r = normalizeTerminalIds tids"
    and "length (terminalGroups r) = 1" "set (active_group_ids r) = set (normalizeTerminalIds tids)"
proof -
  define m where "m = normalizeThreadTerminalState s"
  have cn: "consistent_state m" using c by (simp add: m_def consistent_normalize)
  note d = consistent_D [OF cn]
  define ids where "ids = normalizeTerminalIds tids"
  have ids: "wf_ids ids" by (simp add: ids_def normalizeTerminalIds_wf)
  then have nids: "presetNormalizeTerminalIds ids = ids"
    by (simp add: preset_normalizers normalizeTerminalIds_id)
  define act where "act = (if activeTerminalId m \<in> set ids then activeTerminalId m
    else nullish (list_get ids 0) DEFAULT_THREAD_TERMINAL_ID)"
  have act: "act \<in> set ids" using ids by (auto simp: act_def wf_ids_def list_get_def)
  define g where "g = createWorkspaceTerminalGroupFromPreset pid ids act"
  note gp = preset_group_props [OF refl refl, of pid ids act, folded g_def, unfolded nids]
  have gd: "distinct (group_ids g)"
    unfolding g_def by (rule preset_group_distinct) (use n in \<open>simp add: nids flip: ids_def\<close>)
  have run: "distinct (normalizeRunningTerminalIds (runningTerminalIds m) ids)"
    using d(5-7) by (subst normalizeRunning_filter) (auto simp: wf_ids_def list_all_iff)
  obtain x where r: "r = normalizedThreadTerminalState x" "terminalIds x = ids" "activeTerminalId x = act"
    "terminalGroups x = [g]" "activeTerminalGroupId x = groupId g"
    "runningTerminalIds x = normalizeRunningTerminalIds (runningTerminalIds m) ids"
    by (auto simp: r_def applyThreadWorkspaceLayoutPreset_def Let_def act_def g_def
      ids_def m_def normalizeThreadTerminalState_eq)
  have "candidate x"
    using ids act gp(1,2,4) gd run normalizeRunning_subset
    by (auto simp: candidate_def r(2-6) focused_def unshared_def apart_groups_Cons)
  note cd = candidate_normalized [OF this, folded r(1)]
  show cr: "consistent_state r" by (rule cd)
  show "terminalIds r = normalizeTerminalIds tids" using cd(2) r(2) by (simp add: ids_def)
  have "map groupId (terminalGroups r) = [groupId g]" "map group_ids (terminalGroups r) = [group_ids g]"
    using cd(5,6) r(4) by simp_all
  then obtain h where h: "terminalGroups r = [h]" "groupId h = groupId g" "group_ids h = group_ids g"
    by (cases "terminalGroups r") auto
  then show "length (terminalGroups r) = 1" by simp
  show "set (active_group_ids r) = set (normalizeTerminalIds tids)"
    using cd(4) r(5) h gp(4) by (simp add: active_group_ids_def ids_def)
qed

section \<open>Consistency of closing\<close>

definition view_without :: "string \<Rightarrow> (string \<times> string list) list \<Rightarrow> (string \<times> string list) list" where
  "view_without t v = filter (\<lambda>(_, ids). ids \<noteq> []) (map (\<lambda>(i, ids). (i, filter (\<lambda>x. x \<noteq> t) ids)) v)"

lemma removed_groups:
  fixes t
  assumes "apart_groups gs" "list_all (\<lambda>g. distinct (group_ids g)) gs"
  defines "rest \<equiv> cat_options (map (\<lambda>g. removeTerminalFromGroupLayout g t) gs)"
  shows "apart_groups rest" "groups_ids rest = groups_ids gs - {t}"
    "list_all (\<lambda>g. distinct (group_ids g)) rest" "group_view rest = view_without t (group_view gs)"
proof -
  have "apart_groups rest \<and> groups_ids rest = groups_ids gs - {t} \<and>
    list_all (\<lambda>g. distinct (group_ids g)) rest \<and> group_view rest = view_without t (group_view gs) \<and>
    groupId ` set rest \<subseteq> groupId ` set gs"
    using assms(1,2) unfolding rest_def
  proof (induction gs)
    case (Cons g gs)
    then have w: "wf_group g" and d: "distinct (group_ids g)" by (simp_all add: apart_groups_Cons)
    let ?rest = "cat_options (map (\<lambda>g. removeTerminalFromGroupLayout g t) gs)"
    have IH: "apart_groups ?rest" "groups_ids ?rest = groups_ids gs - {t}"
      "list_all (\<lambda>g. distinct (group_ids g)) ?rest" "group_view ?rest = view_without t (group_view gs)"
      "groupId ` set ?rest \<subseteq> groupId ` set gs"
      using Cons by (simp_all add: apart_groups_Cons)
    show ?case
    proof (cases "removeTerminalFromGroupLayout g t")
      case None
      then have "set (group_ids g) \<subseteq> {t}" by (simp add: remove_group_props(1) [OF w])
      then have "filter (\<lambda>x. x \<noteq> t) (group_ids g) = []" "set (group_ids g) - {t} = {}"
        by (auto simp: filter_empty_conv)
      with None IH show ?thesis by (auto simp: view_without_def)
    next
      case (Some h)
      have h: "wf_group h" "group_ids h = filter (\<lambda>x. x \<noteq> t) (group_ids g)" "groupId h = groupId g"
        using remove_group_props(2) [OF w Some d] remove_group_props(3) [OF w Some] by simp_all
      then have ne: "filter (\<lambda>x. x \<noteq> t) (group_ids g) \<noteq> []" using wf_group_nonempty [OF h(1)] by simp
      have "apart_groups (h # ?rest)"
        using IH h Cons.prems(1) by (auto simp: apart_groups_Cons)
      moreover have "groups_ids (h # ?rest) = groups_ids (g # gs) - {t}"
        using IH(2) h(2) by auto
      moreover have "group_view (h # ?rest) = view_without t (group_view (g # gs))"
        using IH(4) h ne by (simp add: view_without_def)
      ultimately show ?thesis
        using Some IH(3,5) h(2,3) d by (auto simp del: groups_ids_simps group_view_simps)
    qed
  qed (simp add: view_without_def)
  then show "apart_groups rest" "groups_ids rest = groups_ids gs - {t}"
    "list_all (\<lambda>g. distinct (group_ids g)) rest" "group_view rest = view_without t (group_view gs)"
    by blast+
qed

lemma apart_owner:
  assumes "apart_groups gs" "t \<in> groups_ids gs"
  obtains g where "g \<in> set gs" "t \<in> set (group_ids g)" "groupIdOfTerminal gs t = Some (groupId g)"
proof -
  have col: "collectTerminalIdsFromLayout (layout h) = group_ids h" if "h \<in> set gs" for h
    using apart_groups_D(1) [OF assms(1) that] by simp
  obtain g where g: "g \<in> set gs" "t \<in> set (group_ids g)"
    using assms(2) unfolding groups_ids_def by blast
  show ?thesis
  proof (cases "List.find (\<lambda>g. t \<in> set (collectTerminalIdsFromLayout (layout g))) gs")
    case None
    then show ?thesis using g col by (auto simp: find_None_iff)
  next
    case (Some h)
    from find_Some_mem [OF Some] col [of h] have "h \<in> set gs" "t \<in> set (group_ids h)" by auto
    with that [of h] Some show ?thesis by (simp add: groupIdOfTerminal_def)
  qed
qed

lemma singleton_list: "distinct xs \<Longrightarrow> set xs \<subseteq> {t} \<Longrightarrow> t \<in> set xs \<Longrightarrow> xs = [t]"
proof (cases xs)
  case (Cons a ys)
  then show "distinct xs \<Longrightarrow> set xs \<subseteq> {t} \<Longrightarrow> t \<in> set xs \<Longrightarrow> ?thesis" by (cases ys) auto
qed simp

lemma close_props:
  assumes c: "consistent_state s" and t: "t \<in> set (terminalIds s)" and more: "terminalIds s \<noteq> [t]"
  defines "r \<equiv> closeThreadTerminal s t"
  shows "consistent_state r" "terminalIds r = filter (\<lambda>x. x \<noteq> t) (terminalIds s)"
    and "group_view (terminalGroups r) = view_without t (group_view (terminalGroups s))"
    and "activeTerminalId s \<noteq> t \<Longrightarrow> activeTerminalId r = activeTerminalId s"
    and "runningTerminalIds r = filter (\<lambda>x. x \<noteq> t) (runningTerminalIds s)"
proof -
  define n where "n = normalizeThreadTerminalState s"
  have cn: "consistent_state n" using c by (simp add: n_def consistent_normalize)
  note f = normalize_same_fields [OF c, folded n_def] and d = consistent_D [OF cn]
  define rem where "rem = filter (\<lambda>x. x \<noteq> t) (terminalIds n)"
  have dist: "distinct (terminalIds n)" using d(5) by (simp add: wf_ids_def)
  have rem: "wf_ids rem" "set rem = set (terminalIds n) - {t}"
  proof -
    have "rem \<noteq> []"
    proof
      assume "rem = []"
      then have "set (terminalIds n) \<subseteq> {t}" by (auto simp: rem_def filter_empty_conv)
      with dist t more f(1) show False using singleton_list [of "terminalIds n" t] by simp
    qed
    then show "wf_ids rem" using d(5) by (auto simp: wf_ids_def rem_def list_all_iff)
    show "set rem = set (terminalIds n) - {t}" by (auto simp: rem_def)
  qed
  define gs where "gs = cat_options (map (\<lambda>g. removeTerminalFromGroupLayout g t) (terminalGroups n))"
  note rg = removed_groups [OF d(2,4), where t = t, folded gs_def]
  have gids: "groups_ids gs = set rem" using rg(2) d(3) rem(2) by simp
  define src where "src = nullish (groupIdOfTerminal (terminalGroups n) t) (activeTerminalGroupId n)"
  define nact where "nact = (if activeTerminalId n = t
     then nullish
       (orelse
         (orelse (map_option groupActiveTerminalId (List.find (\<lambda>g. groupId g = src) gs))
           (list_get rem (min (nullish (index_of (terminalIds n) t) 0) (length rem - 1))))
         (list_get rem 0))
       DEFAULT_THREAD_TERMINAL_ID
     else activeTerminalId n)"
  have nact: "nact \<in> set rem"
  proof (cases "activeTerminalId n = t")
    case False
    then show ?thesis using wf_state_D(6) [OF d(1)] rem(2) by (simp add: nact_def)
  next
    case True
    show ?thesis
    proof (cases "List.find (\<lambda>g. groupId g = src) gs")
      case None
      have "rem \<noteq> []" using rem(1) by (simp add: wf_ids_def)
      then have "min k (length rem - 1) < length rem" for k by (cases rem) auto
      with True None show ?thesis by (simp add: nact_def list_get_def)
    next
      case (Some g)
      then have "g \<in> set gs" by (simp add: find_Some_mem)
      then have "groupActiveTerminalId g \<in> groups_ids gs"
        using apart_groups_D(1) [OF rg(1)] by (auto simp: wf_group_def intro: groups_ids_mem)
      with True Some gids show ?thesis by (simp add: nact_def)
    qed
  qed
  obtain g where g: "g \<in> set gs" "nact \<in> set (group_ids g)" "groupIdOfTerminal gs nact = Some (groupId g)"
    using apart_owner [OF rg(1)] nact gids by blast
  define x where "x = \<lparr>entryPoint = entryPoint n, terminalOpen = terminalOpen n,
     presentationMode = presentationMode n, workspaceLayout = workspaceLayout n,
     workspaceActiveTab = workspaceActiveTab n, terminalHeight = terminalHeight n, terminalIds = rem,
     terminalLabelsById = from_entries (filter (\<lambda>(i, _). i \<noteq> t) (terminalLabelsById n)),
     terminalTitleOverridesById = from_entries (filter (\<lambda>(i, _). i \<noteq> t) (terminalTitleOverridesById n)),
     terminalCliKindsById = from_entries (filter (\<lambda>(i, _). i \<noteq> t) (terminalCliKindsById n)),
     terminalAttentionStatesById = from_entries (filter (\<lambda>(i, _). i \<noteq> t) (terminalAttentionStatesById n)),
     runningTerminalIds = filter (\<lambda>i. i \<noteq> t) (runningTerminalIds n),
     activeTerminalId = nact, terminalGroups = gs, activeTerminalGroupId = groupId g\<rparr>"
  have r: "r = normalizedThreadTerminalState x"
  proof -
    have tn: "t \<in> set (terminalIds n)" "length rem \<noteq> 0" using t f(1) rem(1) by (simp_all add: wf_ids_def)
    show ?thesis
      unfolding r_def closeThreadTerminal_def Let_def n_def [symmetric] rem_def [symmetric]
        gs_def [symmetric] src_def [symmetric] nact_def [symmetric] g(3)
      using tn by (simp add: x_def normalizeThreadTerminalState_eq)
  qed
  have "candidate x"
    using rem nact rg(1,3) gids g(1,2) d(6,7)
    by (auto simp: candidate_def x_def focused_def unshared_def)
  note cd = candidate_normalized [OF this, folded r]
  show "consistent_state r" by (rule cd)
  show "terminalIds r = filter (\<lambda>x. x \<noteq> t) (terminalIds s)" using cd(2) f(1) by (simp add: x_def rem_def)
  have "group_view (terminalGroups r) = group_view gs"
    using cd(5,6) by (intro group_view_eqI) (simp_all add: x_def)
  moreover have "group_view (terminalGroups n) = group_view (terminalGroups s)"
    using f(4,5) by (intro group_view_eqI)
  ultimately show "group_view (terminalGroups r) = view_without t (group_view (terminalGroups s))"
    using rg(4) by simp
  show "activeTerminalId s \<noteq> t \<Longrightarrow> activeTerminalId r = activeTerminalId s"
    using cd(3) f(2) by (simp add: x_def nact_def)
  show "runningTerminalIds r = filter (\<lambda>x. x \<noteq> t) (runningTerminalIds s)"
    using cd(7) f(6) by (simp add: x_def)
qed

lemma default_candidate:
  "candidate (DEFAULT_THREAD_TERMINAL_STATE\<lparr>entryPoint := a, terminalOpen := b, presentationMode := c,
     workspaceLayout := d, workspaceActiveTab := e, terminalHeight := h\<rparr>)"
  using consistent_candidate [OF default_consistent]
  by (simp add: candidate_def focused_def unshared_def)

text \<open>Closing the last terminal leaves the default terminal, as a closed page or a closed drawer.\<close>

lemma close_last:
  assumes "consistent_state s" "terminalIds s = [t]"
  shows "consistent_state (closeThreadTerminal s t)"
    and "terminalIds (closeThreadTerminal s t) = [DEFAULT_THREAD_TERMINAL_ID]"
    and "terminalOpen (closeThreadTerminal s t) = False"
    and "runningTerminalIds (closeThreadTerminal s t) = []"
    and "entryPoint (closeThreadTerminal s t) = entryPoint s"
proof -
  define n where "n = normalizeThreadTerminalState s"
  note f = normalize_same_fields [OF assms(1), folded n_def]
  have e: "entryPoint n = entryPoint s"
    by (simp add: n_def normalizeThreadTerminalState_eq normalized_fields)
  define x where "x = DEFAULT_THREAD_TERMINAL_STATE\<lparr>entryPoint := TerminalSurface, terminalOpen := False,
    presentationMode := presentationMode n, workspaceLayout := workspaceLayout n,
    workspaceActiveTab := TerminalTab, terminalHeight := terminalHeight n\<rparr>"
  have x: "candidate x" unfolding x_def by (rule default_candidate)
  have r: "closeThreadTerminal s t = (if entryPoint n = TerminalSurface then normalizedThreadTerminalState x
      else DEFAULT_THREAD_TERMINAL_STATE)"
    using assms(2) f(1) by (simp add: closeThreadTerminal_def Let_def x_def normalizeThreadTerminalState_eq
        flip: n_def [unfolded normalizeThreadTerminalState_eq])
  note cd = candidate_normalized [OF x]
  show "consistent_state (closeThreadTerminal s t)" using cd(1) default_consistent by (simp add: r)
  show "terminalIds (closeThreadTerminal s t) = [DEFAULT_THREAD_TERMINAL_ID]"
    using cd(2) by (simp add: r x_def DEFAULT_THREAD_TERMINAL_STATE_def)
  show "terminalOpen (closeThreadTerminal s t) = False"
    by (simp add: r normalized_fields x_def DEFAULT_THREAD_TERMINAL_STATE_def)
  show "runningTerminalIds (closeThreadTerminal s t) = []"
    using cd(7) by (simp add: r x_def DEFAULT_THREAD_TERMINAL_STATE_def)
  show "entryPoint (closeThreadTerminal s t) = entryPoint s"
    using e by (cases "entryPoint s") (simp_all add: r normalized_fields x_def DEFAULT_THREAD_TERMINAL_STATE_def)
qed

lemma close_absent: "t \<notin> set (terminalIds (normalizeThreadTerminalState s)) \<Longrightarrow>
   closeThreadTerminal s t = normalizeThreadTerminalState s"
  by (simp add: closeThreadTerminal_def Let_def)

lemma close_consistent:
  assumes "consistent_state s"
  shows "consistent_state (closeThreadTerminal s t)"
proof (cases "t \<in> set (terminalIds s)")
  case True
  with assms show ?thesis
    by (cases "terminalIds s = [t]") (simp_all add: close_last close_props)
next
  case False
  with assms show ?thesis
    by (simp add: close_absent normalize_same_fields consistent_normalize)
qed

lemma close_group_consistent:
  assumes "consistent_state s"
  shows "consistent_state (closeThreadTerminalGroup s gid)"
proof -
  have "consistent_state n \<Longrightarrow> consistent_state (foldl closeThreadTerminal n ts)" for n ts
    by (induction ts arbitrary: n) (simp_all add: close_consistent)
  then show ?thesis
    using consistent_normalize [OF assms]
    by (simp add: closeThreadTerminalGroup_def Let_def split: option.split)
qed

text \<open>Closing a group takes away exactly its terminals, when others remain.\<close>

lemma close_many:
  assumes "consistent_state s" "distinct ts" "set ts \<subset> set (terminalIds s)"
  shows "consistent_state (foldl closeThreadTerminal s ts) \<and>
    terminalIds (foldl closeThreadTerminal s ts) = filter (\<lambda>x. x \<notin> set ts) (terminalIds s)"
  using assms
proof (induction ts arbitrary: s)
  case (Cons t ts)
  then have t: "t \<in> set (terminalIds s)" "terminalIds s \<noteq> [t]" by auto
  note p = close_props [OF Cons.prems(1) t]
  have "set ts \<subset> set (terminalIds (closeThreadTerminal s t))" using Cons.prems(2,3) p(2) by auto
  from Cons.IH [OF p(1) _ this] Cons.prems(2) p(2) show ?case
    by (simp add: conj_commute)
qed simp

section \<open>Every action\<close>

text \<open>
  What the frontend guarantees of the arguments: new ids are trimmed, a split never moves the
  active terminal itself, a tab is added to an existing terminal, and a preset gets at least one
  id per slot.
\<close>

fun frontend_action :: "thread_terminal_state \<Rightarrow> terminal_action \<Rightarrow> bool" where
  "frontend_action s (SplitTerminal t) = (trimmed t \<and> t \<noteq> activeTerminalId s)"
| "frontend_action s (SplitTerminalLeft t) = (trimmed t \<and> t \<noteq> activeTerminalId s)"
| "frontend_action s (SplitTerminalRight t) = (trimmed t \<and> t \<noteq> activeTerminalId s)"
| "frontend_action s (SplitTerminalDown t) = (trimmed t \<and> t \<noteq> activeTerminalId s)"
| "frontend_action s (SplitTerminalUp t) = (trimmed t \<and> t \<noteq> activeTerminalId s)"
| "frontend_action s (NewTerminal t) = trimmed t"
| "frontend_action s (OpenNewFullWidthTerminal t) = trimmed t"
| "frontend_action s (NewTerminalTab target t) = (trimmed t \<and> target \<in> set (terminalIds s))"
| "frontend_action s (ApplyWorkspaceLayoutPreset pid tids) =
     (getWorkspaceLayoutPresetSlotCount pid \<le> length (normalizeTerminalIds tids))"
| "frontend_action s _ = True"

lemma same_view_consistent:
  assumes "consistent_state s" "wf_state r" "same_view (normalizeThreadTerminalState s) r"
    and "distinct (runningTerminalIds r)"
  shows "consistent_state r"
  using consistent_same_view [OF consistent_normalize [OF assms(1)] assms(3,2,4)] .

text \<open>The operations on flags, metadata and activity leave the groups and the focus alone.\<close>

lemmas flag_operation_defs =
  setThreadTerminalOpen_def openThreadChatPage_def openThreadTerminalPage_def
    setThreadTerminalPresentationMode_def setThreadTerminalWorkspaceTab_def
    setThreadTerminalWorkspaceLayout_def setThreadTerminalHeight_def
    closeThreadWorkspaceChat_def setThreadTerminalMetadata_def setThreadTerminalCliKind_def
    setThreadTerminalTitleOverride_def setThreadTerminalActivity_def

lemma flags_view:
  "same_view (normalizeThreadTerminalState s) (setThreadTerminalOpen s opn)"
  "same_view (normalizeThreadTerminalState s) (openThreadChatPage s)"
  "same_view (normalizeThreadTerminalState s) (openThreadTerminalPage s only)"
  "same_view (normalizeThreadTerminalState s) (setThreadTerminalPresentationMode s mode)"
  "same_view (normalizeThreadTerminalState s) (setThreadTerminalWorkspaceTab s tab)"
  "same_view (normalizeThreadTerminalState s) (setThreadTerminalWorkspaceLayout s lay)"
  "same_view (normalizeThreadTerminalState s) (setThreadTerminalHeight s h)"
  "same_view (normalizeThreadTerminalState s) (closeThreadWorkspaceChat s)"
  "same_view (normalizeThreadTerminalState s) (setThreadTerminalMetadata s t kind label)"
  "same_view (normalizeThreadTerminalState s) (setThreadTerminalCliKind s t kind)"
  "same_view (normalizeThreadTerminalState s) (setThreadTerminalTitleOverride s t title)"
  "same_view (normalizeThreadTerminalState s) (setThreadTerminalActivity s t agent running)"
  by (simp_all add: same_view_def flag_operation_defs Let_def split: jsnum.split)

lemma flags_running:
  assumes "distinct (runningTerminalIds (normalizeThreadTerminalState s))"
  shows
    "distinct (runningTerminalIds (setThreadTerminalOpen s opn))"
    "distinct (runningTerminalIds (openThreadChatPage s))"
    "distinct (runningTerminalIds (openThreadTerminalPage s only))"
    "distinct (runningTerminalIds (setThreadTerminalPresentationMode s mode))"
    "distinct (runningTerminalIds (setThreadTerminalWorkspaceTab s tab))"
    "distinct (runningTerminalIds (setThreadTerminalWorkspaceLayout s lay))"
    "distinct (runningTerminalIds (setThreadTerminalHeight s h))"
    "distinct (runningTerminalIds (closeThreadWorkspaceChat s))"
    "distinct (runningTerminalIds (setThreadTerminalMetadata s t kind label))"
    "distinct (runningTerminalIds (setThreadTerminalCliKind s t kind))"
    "distinct (runningTerminalIds (setThreadTerminalTitleOverride s t title))"
    "distinct (runningTerminalIds (setThreadTerminalActivity s t agent running))"
  using assms by (simp_all add: flag_operation_defs Let_def distinct_removeAll split: jsnum.split)

lemma flags_consistent:
  assumes c: "consistent_state s"
  shows
    "consistent_state (setThreadTerminalOpen s opn)"
    "consistent_state (openThreadChatPage s)"
    "consistent_state (openThreadTerminalPage s only)"
    "consistent_state (setThreadTerminalPresentationMode s mode)"
    "consistent_state (setThreadTerminalWorkspaceTab s tab)"
    "consistent_state (setThreadTerminalWorkspaceLayout s lay)"
    "consistent_state (setThreadTerminalHeight s h)"
    "consistent_state (closeThreadWorkspaceChat s)"
    "consistent_state (setThreadTerminalMetadata s t kind label)"
    "consistent_state (setThreadTerminalCliKind s t kind)"
    "consistent_state (setThreadTerminalTitleOverride s t title)"
    "consistent_state (setThreadTerminalActivity s t agent running)"
  using consistent_D(6) [OF consistent_normalize [OF c]]
  by (simp_all add: same_view_consistent [OF c] visibility_wf metadata_wf flags_view flags_running)

lemma full_width_consistent:
  assumes c: "consistent_state s" and t: "trimmed t"
  shows "consistent_state (openThreadTerminalFullWidth s t)"
proof -
  define n where "n = newThreadTerminal s t"
  note p = upsert_new [OF c t, of Right, folded newThreadTerminal_def, folded n_def]
  have "candidate (n\<lparr>terminalOpen := True, presentationMode := Workspace, workspaceLayout := TerminalOnly,
      workspaceActiveTab := TerminalTab, activeTerminalId := t\<rparr>)"
    using consistent_candidate [OF p(1)] p(3)
    by (simp add: candidate_def focused_def unshared_def)
  from candidate_normalized(1) [OF this] show ?thesis
    by (simp add: openThreadTerminalFullWidth_def normalizeThreadTerminalState_eq flip: n_def)
qed

lemma new_tab_consistent:
  assumes c: "consistent_state s" and "trimmed t" "target \<in> set (terminalIds s)"
  shows "consistent_state (newThreadTerminalTab s target t)"
proof (cases "t \<in> set (terminalIds s)")
  case True
  then have "newThreadTerminalTab s target t = normalizeThreadTerminalState s"
    using normalize_same_fields(1) [OF c] by (simp add: newThreadTerminalTab_def Let_def)
  with c show ?thesis by (simp add: consistent_normalize)
qed (use assms newTab_props(1) in blast)

lemma step_consistent:
  assumes c: "consistent_state s" and ok: "frontend_action s a"
  shows "consistent_state (terminal_step s a)"
  using ok
  by (cases a) (simp_all add: c flags_consistent upsert_split(1) upsert_new(1) full_width_consistent
      new_tab_consistent setActive_consistent(1) close_consistent close_group_consistent
      resize_consistent(1) preset_consistent(1) default_consistent splitThreadTerminal_def
      splitThreadTerminalLeft_def splitThreadTerminalDown_def splitThreadTerminalUp_def
      newThreadTerminal_def)

interpretation frontend: invariant_store terminal_step frontend_action consistent_state
  by unfold_locales (rule step_consistent)

end
