(* ===== verification/TerminalStore.thy ===== *)
theory TerminalStore
  imports TerminalActionsWf
begin

text \<open>
  The store of \<open>frontend/src/terminalStateStore.ts\<close>: the terminal state of every thread that
  differs from the default, its update, its pruning and what is persisted of it.

  The store compares states by reference (\<open>next === current\<close>). Which equal values are the same
  object is not visible in the model, so the comparison is a parameter \<open>same\<close>; all the lemmas
  use of it is that one object equals itself. Persisted data that is absent is the empty record.
\<close>

section \<open>Definitions\<close>

type_synonym terminal_states = "thread_terminal_state js_record"

fun sanitizeEntries :: "(string \<times> thread_terminal_state) list \<Rightarrow> terminal_states \<Rightarrow> terminal_states" where
  "sanitizeEntries [] next = next"
| "sanitizeEntries ((threadId, state) # rest) next =
     (let sanitized = stripVolatileTerminalRuntimeState state
      in sanitizeEntries rest
           (if \<not> isDefaultThreadTerminalState sanitized then rec_set threadId sanitized next else next))"

definition sanitizePersistedTerminalStateByThreadId :: "terminal_states option \<Rightarrow> terminal_states" where
  "sanitizePersistedTerminalStateByThreadId terminalStateByThreadId =
     sanitizeEntries (nullish terminalStateByThreadId []) []"

definition selectThreadTerminalState :: "terminal_states \<Rightarrow> string \<Rightarrow> thread_terminal_state" where
  "selectThreadTerminalState terminalStateByThreadId threadId =
     (if length threadId = 0 then getDefaultThreadTerminalState
      else nullish (rec_get terminalStateByThreadId threadId) getDefaultThreadTerminalState)"

definition updateTerminalStateByThreadId ::
    "(thread_terminal_state \<Rightarrow> thread_terminal_state \<Rightarrow> bool) \<Rightarrow> terminal_states \<Rightarrow> string \<Rightarrow>
     (thread_terminal_state \<Rightarrow> thread_terminal_state) \<Rightarrow> terminal_states" where
  "updateTerminalStateByThreadId same terminalStateByThreadId threadId updater =
     (if length threadId = 0 then terminalStateByThreadId
      else
        let current = selectThreadTerminalState terminalStateByThreadId threadId;
            next = updater current
        in if same next current then terminalStateByThreadId
           else if isDefaultThreadTerminalState next
           then (if rec_get terminalStateByThreadId threadId = None then terminalStateByThreadId
                 else rec_delete threadId terminalStateByThreadId)
           else rec_set threadId next terminalStateByThreadId)"

definition removeOrphanedTerminalStates :: "terminal_states \<Rightarrow> string list \<Rightarrow> terminal_states" where
  "removeOrphanedTerminalStates terminalStateByThreadId activeThreadIds =
     (let orphanedIds = filter (\<lambda>i. i \<notin> set activeThreadIds) (map fst terminalStateByThreadId)
      in if length orphanedIds = 0 then terminalStateByThreadId
         else fold rec_delete orphanedIds terminalStateByThreadId)"

datatype store_action = UpdateTerminal string terminal_action | RemoveOrphaned "string list"

fun terminal_store_step ::
    "(thread_terminal_state \<Rightarrow> thread_terminal_state \<Rightarrow> bool) \<Rightarrow> terminal_states \<Rightarrow> store_action \<Rightarrow>
     terminal_states" where
  "terminal_store_step same r (UpdateTerminal threadId action) =
     updateTerminalStateByThreadId same r threadId (\<lambda>state. terminal_step state action)"
| "terminal_store_step same r (RemoveOrphaned activeThreadIds) =
     removeOrphanedTerminalStates r activeThreadIds"

definition partializeTerminalStates :: "terminal_states \<Rightarrow> terminal_states" where
  "partializeTerminalStates r = sanitizePersistedTerminalStateByThreadId (Some r)"

text \<open>The current state's only data field is replaced by the sanitized persisted one.\<close>

definition mergeTerminalStates :: "terminal_states option \<Rightarrow> terminal_states \<Rightarrow> terminal_states" where
  "mergeTerminalStates persisted current = sanitizePersistedTerminalStateByThreadId persisted"

section \<open>Well-formed stores\<close>

definition wf_store :: "terminal_states \<Rightarrow> bool" where
  "wf_store r \<longleftrightarrow> distinct (map fst r) \<and>
     (\<forall>(k, s)\<in>set r. wf_state s \<and> \<not> isDefaultThreadTerminalState s)"

definition consistent_store :: "terminal_states \<Rightarrow> bool" where
  "consistent_store r \<longleftrightarrow> wf_store r \<and> (\<forall>(k, s)\<in>set r. consistent_state s)"

lemma wf_store_Nil [simp]: "wf_store []" "consistent_store []"
  by (simp_all add: wf_store_def consistent_store_def)

lemma wf_store_set:
  "wf_store r \<Longrightarrow> wf_state s \<Longrightarrow> \<not> isDefaultThreadTerminalState s \<Longrightarrow> wf_store (rec_set k s r)"
  by (auto simp: wf_store_def rec_set_distinct dest!: rec_set_mem)

lemma wf_store_delete: "wf_store r \<Longrightarrow> wf_store (rec_delete k r)"
  by (auto simp: wf_store_def rec_delete_distinct) (auto simp: rec_delete_def)

lemma consistent_store_set:
  "consistent_store r \<Longrightarrow> consistent_state s \<Longrightarrow> \<not> isDefaultThreadTerminalState s \<Longrightarrow>
     consistent_store (rec_set k s r)"
  by (auto simp: consistent_store_def wf_store_set consistent_state_def dest!: rec_set_mem)

lemma consistent_store_delete: "consistent_store r \<Longrightarrow> consistent_store (rec_delete k r)"
  by (auto simp: consistent_store_def wf_store_delete) (auto simp: rec_delete_def)

lemma fold_delete_inv:
  "(\<And>k r. P r \<Longrightarrow> P (rec_delete k r)) \<Longrightarrow> P r \<Longrightarrow> P (fold rec_delete ks r)"
  by (induction ks arbitrary: r) simp_all

lemma fold_delete_get: "rec_get (fold rec_delete ks r) k = (if k \<in> set ks then None else rec_get r k)"
  by (induction ks arbitrary: r) (auto simp: rec_get_delete)

lemma select_wf: "wf_store r \<Longrightarrow> wf_state (selectThreadTerminalState r k)"
  by (auto simp: selectThreadTerminalState_def getDefaultThreadTerminalState_def wf_store_def nullish_def
      split: option.split dest!: map_of_SomeD)

lemma select_consistent: "consistent_store r \<Longrightarrow> consistent_state (selectThreadTerminalState r k)"
  by (auto simp: selectThreadTerminalState_def getDefaultThreadTerminalState_def consistent_store_def
      nullish_def default_consistent split: option.split dest!: map_of_SomeD)

section \<open>Updates\<close>

lemma update_states_wf:
  "wf_store r \<Longrightarrow> (\<And>s. wf_state (f s)) \<Longrightarrow> wf_store (updateTerminalStateByThreadId same r k f)"
  by (simp add: updateTerminalStateByThreadId_def Let_def wf_store_set wf_store_delete)

lemma orphaned_wf: "wf_store r \<Longrightarrow> wf_store (removeOrphanedTerminalStates r ks)"
  by (simp add: removeOrphanedTerminalStates_def Let_def fold_delete_inv wf_store_delete)

lemma store_step_wf: "wf_store r \<Longrightarrow> wf_store (terminal_store_step same r a)"
  by (cases a) (simp_all add: update_states_wf step_wf orphaned_wf)

interpretation term_states: invariant_store "terminal_store_step same" "\<lambda>_ _. True" wf_store for same
  by unfold_locales (rule store_step_wf)

fun frontend_store_action :: "terminal_states \<Rightarrow> store_action \<Rightarrow> bool" where
  "frontend_store_action r (UpdateTerminal k a) = frontend_action (selectThreadTerminalState r k) a"
| "frontend_store_action r (RemoveOrphaned ks) = True"

lemma store_step_consistent:
  "consistent_store r \<Longrightarrow> frontend_store_action r a \<Longrightarrow> consistent_store (terminal_store_step same r a)"
  by (cases a) (simp_all add: updateTerminalStateByThreadId_def Let_def consistent_store_set
      consistent_store_delete select_consistent step_consistent removeOrphanedTerminalStates_def
      fold_delete_inv)

interpretation consistent_states:
  invariant_store "terminal_store_step same" frontend_store_action consistent_store for same
  by unfold_locales (rule store_step_consistent)

text \<open>An update is seen by its own thread alone.\<close>

lemma update_get:
  assumes "\<And>x y. same x y \<Longrightarrow> x = y" "k \<noteq> []"
  shows "selectThreadTerminalState (updateTerminalStateByThreadId same r k f) k' =
    (if k' = k then
       (let next = f (selectThreadTerminalState r k)
        in if same next (selectThreadTerminalState r k) then selectThreadTerminalState r k
           else if isDefaultThreadTerminalState next then DEFAULT_THREAD_TERMINAL_STATE else next)
     else selectThreadTerminalState r k')"
  using assms(2)
  by (auto simp: updateTerminalStateByThreadId_def selectThreadTerminalState_def Let_def
      getDefaultThreadTerminalState_def rcd.get_put rcd.get_del)

lemma orphaned_get:
  "rec_get (removeOrphanedTerminalStates r ks) k = (if k \<in> set ks then rec_get r k else None)"
proof -
  define orphans where "orphans = filter (\<lambda>i. i \<notin> set ks) (map fst r)"
  have none: "rec_get r k = None" if "k \<notin> set ks" "k \<notin> set orphans"
    using that by (auto simp: orphans_def map_of_eq_None_iff)
  have "removeOrphanedTerminalStates r ks = fold rec_delete orphans r"
    by (cases orphans) (simp_all add: removeOrphanedTerminalStates_def Let_def flip: orphans_def)
  then show ?thesis
    using none by (auto simp: fold_delete_get) (auto simp: orphans_def)
qed

section \<open>Persisting\<close>

lemma strip_wf: "wf_state (stripVolatileTerminalRuntimeState s)"
proof -
  have "keys_within [] ids" for ids :: "string list" by (simp add: keys_within_def)
  then show ?thesis
    by (auto simp: stripVolatileTerminalRuntimeState_def Let_def intro!: wf_intros)
qed

lemma strip_volatile:
  "runningTerminalIds (stripVolatileTerminalRuntimeState s) = []"
  "terminalAttentionStatesById (stripVolatileTerminalRuntimeState s) = []"
  by (auto simp: stripVolatileTerminalRuntimeState_def Let_def)

lemma strip_consistent:
  assumes "consistent_state s"
  shows "consistent_state (stripVolatileTerminalRuntimeState s)"
proof -
  define n where "n = normalizeThreadTerminalState s"
  have cn: "consistent_state n" using assms by (simp add: n_def consistent_normalize)
  have "same_view n (stripVolatileTerminalRuntimeState s)"
    by (simp add: same_view_def stripVolatileTerminalRuntimeState_def Let_def flip: n_def)
  from consistent_same_view [OF cn this strip_wf] show ?thesis by (simp add: strip_volatile)
qed

lemma sanitizeEntries_wf:
  "wf_store r \<Longrightarrow> wf_store (sanitizeEntries es r)"
  by (induction es r rule: sanitizeEntries.induct) (simp_all add: Let_def strip_wf wf_store_set)

lemma sanitize_store_wf: "wf_store (sanitizePersistedTerminalStateByThreadId p)"
  by (simp add: sanitizePersistedTerminalStateByThreadId_def sanitizeEntries_wf)

lemma sanitizeEntries_mem:
  "(k, v) \<in> set (sanitizeEntries es r) \<Longrightarrow>
     (k, v) \<in> set r \<or> (\<exists>s. (k, s) \<in> set es \<and> v = stripVolatileTerminalRuntimeState s)"
  by (induction es r rule: sanitizeEntries.induct)
    (auto simp: Let_def split: if_splits dest!: rec_set_mem)

lemma sanitizeEntries_get:
  "distinct (map fst es) \<Longrightarrow> rec_get (sanitizeEntries es r) k =
     (case rec_get es k of
        Some s \<Rightarrow> if isDefaultThreadTerminalState (stripVolatileTerminalRuntimeState s) then rec_get r k
                  else Some (stripVolatileTerminalRuntimeState s)
      | None \<Rightarrow> rec_get r k)"
proof (induction es r rule: sanitizeEntries.induct)
  case (2 k0 s rest r)
  then show ?case
    by (cases "k = k0")
      (auto simp: Let_def rec_get_set map_of_eq_None_iff [symmetric] split: option.split)
qed simp

lemma sanitize_consistent:
  assumes "consistent_store r"
  shows "consistent_store (sanitizePersistedTerminalStateByThreadId (Some r))"
proof -
  have "consistent_state v" if "(k, v) \<in> set (sanitizeEntries r [])" for k v
    using sanitizeEntries_mem [OF that] assms strip_consistent
    by (auto simp: consistent_store_def)
  then show ?thesis
    using sanitize_store_wf [of "Some r"]
    by (auto simp: consistent_store_def sanitizePersistedTerminalStateByThreadId_def)
qed

end
