(* ===== verification/TerminalProperties.thy ===== *)
theory TerminalProperties
  imports TerminalStore
begin

text \<open>
  The properties of the terminal state (\<open>frontend/src/terminalStateStore.ts\<close>): its normalization,
  its transitions and the persisted store, each with a witness where it has hypotheses.
\<close>

abbreviation shown_groups :: "thread_terminal_state \<Rightarrow> (string \<times> string list) list" where
  "shown_groups s \<equiv> group_view (terminalGroups s)"

text \<open>The state after a split, a new terminal and a new tab, for the witnesses.\<close>

definition demo_leaf :: "string list \<Rightarrow> string \<Rightarrow> layout_node" where
  "demo_leaf ids act = Leaf \<lparr>paneId = ''pane-'' @ hd ids, leafTerminalIds = ids,
     leafActiveTerminalId = act, legacyTerminalId = []\<rparr>"

definition demo_state :: thread_terminal_state where
  "demo_state =
     \<lparr>entryPoint = ChatSurface, terminalOpen = True, presentationMode = Drawer,
      workspaceLayout = BothPanes, workspaceActiveTab = TerminalTab, terminalHeight = Num 280,
      terminalIds = [''default'', ''a'', ''b'', ''c''],
      terminalLabelsById = [(''a'', ''Terminal 2''), (''b'', ''Terminal 3''),
        (''default'', ''Terminal 1''), (''c'', ''Terminal 4'')],
      terminalTitleOverridesById = [], terminalCliKindsById = [], terminalAttentionStatesById = [],
      runningTerminalIds = [], activeTerminalId = ''c'',
      terminalGroups =
        [\<lparr>groupId = ''group-default'', groupActiveTerminalId = ''a'',
          layout = Split ''split-a'' Horizontal
            [demo_leaf [''default''] ''default'', demo_leaf [''a''] ''a''] [Num 1, Num 1]\<rparr>,
         \<lparr>groupId = ''group-b'', groupActiveTerminalId = ''c'', layout = demo_leaf [''b'', ''c''] ''c''\<rparr>],
      activeTerminalGroupId = ''group-b''\<rparr>"

lemma demo_reached:
  "run_actions terminal_step DEFAULT_THREAD_TERMINAL_STATE
     [SplitTerminal ''a'', NewTerminal ''b'', NewTerminalTab ''b'' ''c''] = demo_state"
  by code_simp

lemma demo_admissible:
  "admissible terminal_step frontend_action DEFAULT_THREAD_TERMINAL_STATE
     [SplitTerminal ''a'', NewTerminal ''b'', NewTerminalTab ''b'' ''c'']"
  by code_simp

lemma demo_consistent: "consistent_state demo_state"
  using frontend.run_inv [OF default_consistent demo_admissible] by (simp only: demo_reached)

lemma demo_fields:
  "terminalIds demo_state = [''default'', ''a'', ''b'', ''c'']" "activeTerminalId demo_state = ''c''"
  "shown_groups demo_state = [(''group-default'', [''default'', ''a'']), (''group-b'', [''b'', ''c''])]"
  "active_group_ids demo_state = [''b'', ''c'']"
  by code_simp+

section \<open>Normalization\<close>

text \<open>Whatever state it is given, normalization yields a well-formed one: at least one terminal,
  trimmed distinct ids, an active terminal among them, groups that show every terminal, each in
  one group only, with distinct ids and layouts in normal form, an existing active group, a label
  for every terminal, and no metadata of terminals that do not exist.\<close>

theorem normalization_well_formed: "wf_state (normalizeThreadTerminalState s)"
  by simp

text \<open>Normalizing a normalized state again changes nothing but the order of dictionary entries,
  when its running ids are distinct.\<close>

theorem normalization_idempotent:
  assumes "distinct (runningTerminalIds (normalizeThreadTerminalState s))"
  shows "same_state (normalizeThreadTerminalState s)
    (normalizeThreadTerminalState (normalizeThreadTerminalState s))"
  unfolding normalizeThreadTerminalState_eq [of "normalizeThreadTerminalState s"]
  by (rule normalize_same_state [OF normalize_wf assms])

theorem normalization_idempotent_witness:
  "\<exists>s. normalizeThreadTerminalState s \<noteq> s \<and> same_state (normalizeThreadTerminalState s)
     (normalizeThreadTerminalState (normalizeThreadTerminalState s))"
proof (intro exI conjI)
  let ?s = "DEFAULT_THREAD_TERMINAL_STATE\<lparr>terminalIds := ['' x'', ''y'', ''x''],
    runningTerminalIds := [''y'', ''y'', ''z'']\<rparr>"
  show "normalizeThreadTerminalState ?s \<noteq> ?s" by code_simp
  have "distinct (runningTerminalIds (normalizeThreadTerminalState ?s))" by code_simp
  then show "same_state (normalizeThreadTerminalState ?s)
     (normalizeThreadTerminalState (normalizeThreadTerminalState ?s))"
    by (rule normalization_idempotent)
qed

text \<open>The generated title of a terminal is not shown for any other terminal, and it has the least
  free number.\<close>

theorem generated_title_unique:
  assumes "t \<in> fst ` set labels" "Some t \<noteq> self"
  shows "resolveTerminalDisplayTitle t labels overrides \<noteq> createUniqueTerminalTitle kind self labels overrides \<and>
    (\<exists>j\<ge>1. createUniqueTerminalTitle kind self labels overrides =
        generatedTerminalTitleBase kind @ '' '' @ nat_str j \<and>
      (\<forall>k. 1 \<le> k \<and> k < j \<longrightarrow> (\<exists>u\<in>fst ` set labels. Some u \<noteq> self \<and>
        resolveTerminalDisplayTitle u labels overrides = generatedTerminalTitleBase kind @ '' '' @ nat_str k)))"
proof -
  define shown where "shown = (\<lambda>t. resolveTerminalDisplayTitle t labels overrides)"
  define taken where "taken = filter (\<lambda>title. length title > 0) (map shown (filter (\<lambda>t. Some t \<noteq> self) (map fst labels)))"
  define p where "p = generatedTerminalTitleBase kind @ '' ''"
  have eq: "createUniqueTerminalTitle kind self labels overrides = first_free p taken 1"
    by (simp add: createUniqueTerminalTitle_def Let_def taken_def p_def shown_def)
  obtain j where j: "j \<ge> 1" "first_free p taken 1 = p @ nat_str j"
    using first_free_form [of 1 p taken] by blast
  have "shown t \<noteq> first_free p taken 1"
  proof
    assume e: "shown t = first_free p taken 1"
    then have "shown t \<noteq> []" using j(2) by (simp add: p_def)
    then have "shown t \<in> set taken" using assms by (auto simp: taken_def)
    then show False using first_free_notin [of p taken 1] e by simp
  qed
  moreover have "\<exists>u\<in>fst ` set labels. Some u \<noteq> self \<and> shown u = p @ nat_str k" if "1 \<le> k" "k < j" for k
    using first_free_minimal [OF j(2) that] by (auto simp: taken_def)
  ultimately show ?thesis
    using j unfolding eq shown_def p_def append_assoc by blast
qed

theorem generated_title_unique_witness:
  "resolveTerminalDisplayTitle ''a'' [(''a'', ''Codex 1''), (''b'', ''Codex 2'')] [] \<noteq>
     createUniqueTerminalTitle (Some Codex) (Some ''b'') [(''a'', ''Codex 1''), (''b'', ''Codex 2'')] []"
  by (rule conjunct1 [OF generated_title_unique]) simp_all

section \<open>Transitions\<close>

text \<open>C26: Every sequence of actions, with whatever arguments, leads to a well-formed state.\<close>

theorem every_run_well_formed:
  "wf_state (run_actions terminal_step (normalizeThreadTerminalState s) actions)"
proof -
  have "admissible terminal_step (\<lambda>_ _. True) s' actions" for s'
    by (induction actions arbitrary: s') simp_all
  then show ?thesis by (intro term_store.run_inv) simp_all
qed

text \<open>C27: Starting from the default state, every sequence of actions whose arguments the frontend
  would pass keeps the state consistent: no terminal is shown in two panes, and the active
  terminal lies in the active group.\<close>

theorem every_run_consistent:
  assumes "admissible terminal_step frontend_action DEFAULT_THREAD_TERMINAL_STATE actions"
  shows "consistent_state (run_actions terminal_step DEFAULT_THREAD_TERMINAL_STATE actions)"
  by (rule frontend.run_inv [OF default_consistent assms])

theorem every_run_consistent_witness:
  "consistent_state (run_actions terminal_step DEFAULT_THREAD_TERMINAL_STATE
     [SplitTerminal ''a'', NewTerminal ''b'', NewTerminalTab ''b'' ''c'', CloseTerminal ''c'',
      ApplyWorkspaceLayoutPreset ''two-rows'' [''a'', ''b''], CloseTerminalGroup ''group-b''])"
  by (rule every_run_consistent) code_simp

text \<open>Splitting with a new terminal: when the active group has room, the terminal appears directly
  beside the active one's pane in that group, all other groups stay, and it becomes active; when
  the group already shows \<open>MAX_TERMINALS_PER_GROUP\<close> terminals nothing changes.\<close>

theorem split_respects_bound:
  fixes pos
  assumes "consistent_state s" "trimmed t" "t \<notin> set (terminalIds s)"
  defines "r \<equiv> upsertTerminalIntoGroups s t SplitMode pos"
  shows "if length (active_group_ids s) \<ge> MAX_TERMINALS_PER_GROUP then r = normalizeThreadTerminalState s
    else terminalIds r = terminalIds s @ [t] \<and> activeTerminalId r = t \<and>
      (\<exists>pre old new post. shown_groups s = pre @ (activeTerminalGroupId s, old) # post \<and>
        shown_groups r = pre @ (activeTerminalGroupId s, new) # post \<and>
        activeTerminalGroupId r = activeTerminalGroupId s \<and>
        inserted_beside pos (activeTerminalId s) t old new)"
proof -
  have "t \<noteq> activeTerminalId s"
    using assms(1,3) by (auto simp: consistent_state_def wf_state_def)
  note u = upsert_split [OF assms(1,2) this, of pos, folded r_def]
  show ?thesis
  proof (cases "length (active_group_ids s) \<ge> MAX_TERMINALS_PER_GROUP")
    case True
    with u(2) assms(3) show ?thesis by simp
  next
    case False
    with u(3,4) assms(3) show ?thesis by (simp add: with_terminal_def)
  qed
qed

theorem split_respects_bound_witness:
  "terminalIds (splitThreadTerminalDown demo_state ''d'') = [''default'', ''a'', ''b'', ''c'', ''d'']"
proof -
  have "trimmed ''d''" by code_simp
  moreover have "''d'' \<notin> set (terminalIds demo_state)" by (simp add: demo_fields)
  ultimately show ?thesis
    using split_respects_bound [OF demo_consistent, of "''d''" Bottom]
    by (simp add: splitThreadTerminalDown_def demo_fields MAX_TERMINALS_PER_GROUP_def)
qed

text \<open>A new terminal gets a new group of its own at the end, which becomes active; the other groups
  stay as they are.\<close>

theorem new_terminal_own_group:
  assumes "consistent_state s" "trimmed t" "t \<notin> set (terminalIds s)"
  defines "r \<equiv> newThreadTerminal s t"
  shows "shown_groups r = shown_groups s @ [(activeTerminalGroupId r, [t])] \<and>
    activeTerminalId r = t \<and> terminalIds r = terminalIds s @ [t]"
  using upsert_new [OF assms(1,2), of Right] assms(3)
  by (auto simp: r_def newThreadTerminal_def with_terminal_def)

theorem new_terminal_own_group_witness:
  "shown_groups (newThreadTerminal demo_state ''d'') =
     [(''group-default'', [''default'', ''a'']), (''group-b'', [''b'', ''c'']), (''group-d'', [''d''])]"
proof -
  have "trimmed ''d''" by code_simp
  moreover have "''d'' \<notin> set (terminalIds demo_state)" by (simp add: demo_fields)
  moreover have "activeTerminalGroupId (newThreadTerminal demo_state ''d'') = ''group-d''" by code_simp
  ultimately show ?thesis
    using new_terminal_own_group [OF demo_consistent, of "''d''"] by (simp add: demo_fields)
qed

text \<open>A tab for an existing target either changes nothing, or it joins the target's pane, in whatever
  group that is, which had room and becomes the active group.\<close>

theorem new_tab_joins_target:
  assumes "consistent_state s" "trimmed t" "t \<notin> set (terminalIds s)" "target \<in> set (terminalIds s)"
  defines "r \<equiv> newThreadTerminalTab s target t"
  shows "r = normalizeThreadTerminalState s \<or>
    terminalIds r = terminalIds s @ [t] \<and> activeTerminalId r = t \<and>
    (\<exists>pre gid old new post. shown_groups s = pre @ (gid, old) # post \<and>
      length old < MAX_TERMINALS_PER_GROUP \<and> activeTerminalGroupId r = gid \<and>
      shown_groups r = pre @ (gid, new) # post \<and> inserted_beside Right target t old new)"
  using newTab_props(2) [OF assms(1-4)] by (auto simp: r_def)

theorem new_tab_joins_target_witness:
  "shown_groups (newThreadTerminalTab demo_state ''default'' ''d'') =
     [(''group-default'', [''default'', ''d'', ''a'']), (''group-b'', [''b'', ''c''])] \<and>
   activeTerminalId (newThreadTerminalTab demo_state ''default'' ''d'') = ''d''"
proof -
  let ?r = "newThreadTerminalTab demo_state ''default'' ''d''"
  have "trimmed ''d''" by code_simp
  moreover have "''d'' \<notin> set (terminalIds demo_state)" "''default'' \<in> set (terminalIds demo_state)"
    by (simp_all add: demo_fields)
  ultimately have "?r = normalizeThreadTerminalState demo_state \<or> activeTerminalId ?r = ''d''"
    using new_tab_joins_target [OF demo_consistent, of "''d''" "''default''"] by auto
  moreover have "terminalIds ?r \<noteq> terminalIds (normalizeThreadTerminalState demo_state)" by code_simp
  moreover have "shown_groups ?r =
     [(''group-default'', [''default'', ''d'', ''a'']), (''group-b'', [''b'', ''c''])]" by code_simp
  ultimately show ?thesis by auto
qed

text \<open>Activating a terminal moves the focus to it and leaves every pane where it is.\<close>

theorem activation_moves_focus:
  assumes "consistent_state s" "t \<in> set (terminalIds s)"
  shows "activeTerminalId (setThreadActiveTerminal s t) = t \<and>
    shown_groups (setThreadActiveTerminal s t) = shown_groups s \<and>
    focused (setThreadActiveTerminal s t)"
  using setActive_consistent [OF assms(1), of t] assms(2) by (simp add: consistent_state_def)

theorem activation_moves_focus_witness:
  "activeTerminalId (setThreadActiveTerminal demo_state ''a'') = ''a'' \<and>
   focused (setThreadActiveTerminal demo_state ''a'')"
  using activation_moves_focus [OF demo_consistent, of "''a''"] by (simp add: demo_fields)

text \<open>Closing one of several terminals takes exactly it out of the list, the panes and the running
  ids; empty groups disappear, the focus stays unless the closed terminal had it, and then it
  goes to a terminal that is left.\<close>

theorem close_exactly:
  assumes "consistent_state s" "t \<in> set (terminalIds s)" "terminalIds s \<noteq> [t]"
  defines "r \<equiv> closeThreadTerminal s t"
  shows "consistent_state r \<and> terminalIds r = filter (\<lambda>x. x \<noteq> t) (terminalIds s) \<and>
    shown_groups r = view_without t (shown_groups s) \<and>
    runningTerminalIds r = filter (\<lambda>x. x \<noteq> t) (runningTerminalIds s) \<and>
    (activeTerminalId s = t \<or> activeTerminalId r = activeTerminalId s) \<and>
    activeTerminalId r \<in> set (terminalIds s) - {t}"
  using close_props [OF assms(1-3)] wf_state_D(6) [of r]
  by (auto simp: r_def consistent_state_def)

theorem close_exactly_witness:
  "shown_groups (closeThreadTerminal demo_state ''default'') =
     [(''group-default'', [''a'']), (''group-b'', [''b'', ''c''])] \<and>
   activeTerminalId (closeThreadTerminal demo_state ''default'') = ''c''"
  using close_exactly [OF demo_consistent, of "''default''"]
  by (simp add: demo_fields view_without_def)

text \<open>Closing the last terminal leaves the default terminal and a closed view, and keeps the kind of
  page the thread has.\<close>

theorem close_last_resets:
  assumes "consistent_state s" "terminalIds s = [t]"
  shows "terminalIds (closeThreadTerminal s t) = [DEFAULT_THREAD_TERMINAL_ID] \<and>
    \<not> terminalOpen (closeThreadTerminal s t) \<and> runningTerminalIds (closeThreadTerminal s t) = [] \<and>
    entryPoint (closeThreadTerminal s t) = entryPoint s"
  using close_last [OF assms] by simp

theorem close_last_resets_witness:
  "entryPoint (closeThreadTerminal (openThreadTerminalPage DEFAULT_THREAD_TERMINAL_STATE None)
     DEFAULT_THREAD_TERMINAL_ID) = TerminalSurface"
proof -
  let ?s = "openThreadTerminalPage DEFAULT_THREAD_TERMINAL_STATE None"
  have "consistent_state ?s" by (rule flags_consistent(3) [OF default_consistent])
  moreover have "terminalIds ?s = [DEFAULT_THREAD_TERMINAL_ID]" "entryPoint ?s = TerminalSurface" by code_simp+
  ultimately show ?thesis using close_last_resets [of ?s DEFAULT_THREAD_TERMINAL_ID] by simp
qed

text \<open>Closing a group that does not show all terminals takes exactly its terminals out.\<close>

theorem close_group_exactly:
  assumes "consistent_state s" "g \<in> set (terminalGroups (normalizeThreadTerminalState s))"
    and "set (group_ids g) \<noteq> set (terminalIds s)"
  shows "consistent_state (closeThreadTerminalGroup s (groupId g)) \<and>
    terminalIds (closeThreadTerminalGroup s (groupId g)) =
      filter (\<lambda>x. x \<notin> set (group_ids g)) (terminalIds s)"
proof -
  define n where "n = normalizeThreadTerminalState s"
  have cn: "consistent_state n" using assms(1) by (simp add: n_def consistent_normalize)
  note d = consistent_D [OF cn] and f = normalize_same_fields [OF assms(1), folded n_def]
  have g: "g \<in> set (terminalGroups n)" using assms(2) by (simp add: n_def)
  have find: "List.find (\<lambda>e. groupId e = groupId g) (terminalGroups n) = Some g"
  proof (cases "List.find (\<lambda>e. groupId e = groupId g) (terminalGroups n)")
    case None
    with g show ?thesis by (auto simp: find_None_iff)
  next
    case (Some h)
    with find_Some_mem [OF Some] apart_groups_D(2) [OF d(2) _ g] show ?thesis by auto
  qed
  have "set (group_ids g) \<subset> set (terminalIds n)" "distinct (group_ids g)"
    using assms(3) g d(3,4) f(1) by (auto simp: list_all_iff intro: groups_ids_mem)
  from close_many [OF cn this(2,1)] find f(1) apart_groups_D(1) [OF d(2) g] show ?thesis
    by (simp add: closeThreadTerminalGroup_def Let_def flip: n_def)
qed

theorem close_group_exactly_witness:
  "terminalIds (closeThreadTerminalGroup demo_state ''group-b'') = [''default'', ''a'']"
proof -
  define g where "g = terminalGroups (normalizeThreadTerminalState demo_state) ! 1"
  have g: "groupId g = ''group-b''" "group_ids g = [''b'', ''c'']"
    unfolding g_def by code_simp+
  have "length (terminalGroups (normalizeThreadTerminalState demo_state)) = 2" by code_simp
  then have "g \<in> set (terminalGroups (normalizeThreadTerminalState demo_state))" by (simp add: g_def)
  moreover have "''a'' \<in> set (terminalIds demo_state) - set (group_ids g)" by (simp add: g demo_fields)
  then have "set (group_ids g) \<noteq> set (terminalIds demo_state)" by blast
  ultimately show ?thesis
    using close_group_exactly [OF demo_consistent, of g] by (simp add: g demo_fields)
qed

text \<open>Applying a preset with at least one id per slot leaves one group that shows exactly the given
  terminals, each once.\<close>

theorem preset_replaces_groups:
  assumes "consistent_state s"
    and "getWorkspaceLayoutPresetSlotCount pid \<le> length (normalizeTerminalIds tids)"
  defines "r \<equiv> applyThreadWorkspaceLayoutPreset s pid tids"
  shows "consistent_state r \<and> terminalIds r = normalizeTerminalIds tids \<and>
    length (terminalGroups r) = 1 \<and> set (active_group_ids r) = set (normalizeTerminalIds tids)"
  using preset_consistent [OF assms(1,2)] by (simp add: r_def)

theorem preset_replaces_groups_witness:
  "terminalIds (applyThreadWorkspaceLayoutPreset demo_state ''top-main'' [''x'', ''y'', ''z'']) =
     [''x'', ''y'', ''z'']"
proof -
  have "getWorkspaceLayoutPresetSlotCount ''top-main'' \<le> length (normalizeTerminalIds [''x'', ''y'', ''z''])"
    "normalizeTerminalIds [''x'', ''y'', ''z''] = [''x'', ''y'', ''z'']" by code_simp+
  then show ?thesis
    using preset_replaces_groups [OF demo_consistent, of "''top-main''" "[''x'', ''y'', ''z'']"] by simp
qed

text \<open>A tab whose target no group shows is added to the list but not to the group that becomes
  active: the active terminal ends up in a group of its own that is not the active one.\<close>

theorem stray_tab_loses_focus:
  "\<exists>s target t. consistent_state s \<and> trimmed t \<and> target \<notin> set (terminalIds s) \<and>
     activeTerminalId (newThreadTerminalTab s target t) = t \<and>
     t \<notin> set (active_group_ids (newThreadTerminalTab s target t))"
proof (intro exI conjI)
  show "consistent_state DEFAULT_THREAD_TERMINAL_STATE" by (rule default_consistent)
  show "trimmed ''t''" "''gone'' \<notin> set (terminalIds DEFAULT_THREAD_TERMINAL_STATE)"
    "activeTerminalId (newThreadTerminalTab DEFAULT_THREAD_TERMINAL_STATE ''gone'' ''t'') = ''t''"
    "''t'' \<notin> set (active_group_ids (newThreadTerminalTab DEFAULT_THREAD_TERMINAL_STATE ''gone'' ''t''))"
    by code_simp+
qed

section \<open>The store\<close>

text \<open>Every sequence of updates and prunings, from what any persisted data was merged into, leaves a
  store of well-formed states, none of which is the default one, one per thread.\<close>

theorem store_runs_well_formed:
  "wf_store (run_actions (terminal_store_step same) (mergeTerminalStates persisted initial) actions)"
proof -
  have "admissible (terminal_store_step same) (\<lambda>_ _. True) r actions" for r
    by (induction actions arbitrary: r) simp_all
  then show ?thesis
    by (intro term_states.run_inv) (simp_all add: mergeTerminalStates_def sanitize_store_wf)
qed

text \<open>An update of a thread shows in that thread alone: it reads as what the action returns there, up
  to the default state being left out, and every other thread reads as before.\<close>

theorem update_is_local:
  fixes a r
  assumes "\<forall>x y. same x y \<longrightarrow> x = y" "k \<noteq> []"
  defines "r' \<equiv> terminal_store_step same r (UpdateTerminal k a)"
  shows "(k' \<noteq> k \<longrightarrow> selectThreadTerminalState r' k' = selectThreadTerminalState r k') \<and>
    (selectThreadTerminalState r' k = terminal_step (selectThreadTerminalState r k) a \<or>
     isDefaultThreadTerminalState (terminal_step (selectThreadTerminalState r k) a) \<and>
     selectThreadTerminalState r' k = DEFAULT_THREAD_TERMINAL_STATE)"
proof -
  have "same x y \<Longrightarrow> x = y" for x y using assms(1) by blast
  note g = update_get [of same, OF this assms(2), of r "\<lambda>s. terminal_step s a"]
  have other: "k' \<noteq> k \<longrightarrow> selectThreadTerminalState r' k' = selectThreadTerminalState r k'"
    using g [of k'] by (simp add: r'_def)
  show ?thesis
  proof (cases "same (terminal_step (selectThreadTerminalState r k) a) (selectThreadTerminalState r k)")
    case True
    then have "terminal_step (selectThreadTerminalState r k) a = selectThreadTerminalState r k"
      using assms(1) by blast
    with other True g [of k] show ?thesis by (simp add: r'_def Let_def)
  next
    case False
    with other g [of k] show ?thesis by (simp add: r'_def Let_def)
  qed
qed

theorem update_is_local_witness:
  "selectThreadTerminalState (terminal_store_step (=) [(''th1'', demo_state)] (UpdateTerminal ''th2'' (SetOpen True)))
     ''th1'' = demo_state"
proof -
  have "\<forall>x y :: thread_terminal_state. x = y \<longrightarrow> x = y" "''th2'' \<noteq> []" by simp_all
  from update_is_local [OF this, of "''th1''" "[(''th1'', demo_state)]" "SetOpen True"] show ?thesis
    by (simp add: selectThreadTerminalState_def)
qed

text \<open>Across restarts: a store reached from the empty one by the frontend's actions, persisted and
  merged into a fresh session, is consistent again, and so is everything the frontend does in
  that session.\<close>

theorem restart_keeps_consistency:
  assumes "admissible (terminal_store_step same) frontend_store_action [] before"
  defines "persisted \<equiv> partializeTerminalStates (run_actions (terminal_store_step same) [] before)"
  assumes "admissible (terminal_store_step same) frontend_store_action
    (mergeTerminalStates (Some persisted) []) after"
  shows "consistent_store (run_actions (terminal_store_step same)
    (mergeTerminalStates (Some persisted) []) after)"
proof (rule consistent_states.run_inv [OF _ assms(3)])
  have "consistent_store (run_actions (terminal_store_step same) [] before)"
    by (rule consistent_states.run_inv [OF wf_store_Nil(2) assms(1)])
  then have "consistent_store persisted"
    unfolding persisted_def partializeTerminalStates_def by (rule sanitize_consistent)
  then show "consistent_store (mergeTerminalStates (Some persisted) [])"
    unfolding mergeTerminalStates_def by (rule sanitize_consistent)
qed

theorem restart_keeps_consistency_witness:
  "consistent_store (run_actions (terminal_store_step (=))
     (mergeTerminalStates (Some (partializeTerminalStates
        (run_actions (terminal_store_step (=)) [] [UpdateTerminal ''th'' (NewTerminal ''a'')]))) [])
     [UpdateTerminal ''th'' (NewTerminal ''b''), RemoveOrphaned []])"
proof -
  have "trimmed ''a''" "trimmed ''b''" by code_simp+
  then show ?thesis by (intro restart_keeps_consistency) simp_all
qed

text \<open>What is persisted carries no runtime activity: no running terminals and no attention states,
  and reading the persisted record gives each thread its state without them, normalized.\<close>

theorem persisted_without_activity:
  assumes "distinct (map fst r)" "k \<noteq> []"
  shows "selectThreadTerminalState (partializeTerminalStates r) k =
      (case rec_get r k of None \<Rightarrow> DEFAULT_THREAD_TERMINAL_STATE
       | Some s \<Rightarrow> if isDefaultThreadTerminalState (stripVolatileTerminalRuntimeState s)
                    then DEFAULT_THREAD_TERMINAL_STATE else stripVolatileTerminalRuntimeState s) \<and>
    runningTerminalIds (selectThreadTerminalState (partializeTerminalStates r) k) = [] \<and>
    terminalAttentionStatesById (selectThreadTerminalState (partializeTerminalStates r) k) = []"
proof -
  have "selectThreadTerminalState (partializeTerminalStates r) k =
      (case rec_get r k of None \<Rightarrow> DEFAULT_THREAD_TERMINAL_STATE
       | Some s \<Rightarrow> if isDefaultThreadTerminalState (stripVolatileTerminalRuntimeState s)
                    then DEFAULT_THREAD_TERMINAL_STATE else stripVolatileTerminalRuntimeState s)"
    using assms by (simp add: selectThreadTerminalState_def partializeTerminalStates_def
      sanitizePersistedTerminalStateByThreadId_def sanitizeEntries_get getDefaultThreadTerminalState_def
      split: option.split)
  then show ?thesis
    by (auto simp: strip_volatile DEFAULT_THREAD_TERMINAL_STATE_def split: option.split)
qed

theorem persisted_without_activity_witness:
  "runningTerminalIds (selectThreadTerminalState (partializeTerminalStates
     [(''th'', setThreadTerminalActivity demo_state ''a'' (Some ActivityReview) True)]) ''th'') = []"
  by (rule persisted_without_activity [THEN conjunct2, THEN conjunct1]) simp_all

end
