(* ===== verification/SplitTree.thy ===== *)
theory SplitTree
  imports Prelude
begin

text \<open>
  The pane tree of split chat views: \<open>frontend/src/splitView.logic.ts\<close> with the pane types of
  \<open>frontend/src/splitViewStore.ts\<close>, and the lemmas about it. A tree is binary; a leaf shows at most
  one thread. A thread id that is null is \<open>None\<close>; where the code tests a thread id for
  truthiness, the empty string counts as absent too (\<open>truthy\<close>).
\<close>

section \<open>Types\<close>

datatype split_dir = HorizontalDir | VerticalDir

datatype drop_side = FirstSide | SecondSide

datatype chat_right_panel = BrowserPanel | DiffPanel

record panel_state =
  panel :: "chat_right_panel option"
  diffTurnId :: "string option"
  diffFilePath :: "string option"
  hasOpenedPanel :: bool
  lastOpenPanel :: chat_right_panel

record leaf_pane =
  leafPaneId :: string
  leafThreadId :: "string option"
  leafPanel :: panel_state

datatype pane =
    LeafPane leaf_pane
  | SplitPane (splitPaneId: string) (splitDirection: split_dir) (firstPane: pane) (secondPane: pane)
      (splitRatio: jsnum)

fun pane_id :: "pane \<Rightarrow> string" where
  "pane_id (LeafPane l) = leafPaneId l"
| "pane_id (SplitPane i d f s r) = i"

fun truthy :: "string option \<Rightarrow> bool" where
  "truthy None = False"
| "truthy (Some s) = (s \<noteq> [])"

section \<open>Operations\<close>

definition clearSplitViewPanePanelState :: "panel_state \<Rightarrow> panel_state" where
  "clearSplitViewPanePanelState panelState =
     panelState\<lparr>panel := None, diffTurnId := None, diffFilePath := None\<rparr>"

fun findPaneById :: "pane \<Rightarrow> string \<Rightarrow> pane option" where
  "findPaneById (LeafPane l) paneId = (if leafPaneId l = paneId then Some (LeafPane l) else None)"
| "findPaneById (SplitPane i d f s r) paneId =
     (if i = paneId then Some (SplitPane i d f s r)
      else orelse (findPaneById f paneId) (findPaneById s paneId))"

definition findLeafPaneById :: "pane \<Rightarrow> string \<Rightarrow> leaf_pane option" where
  "findLeafPaneById tree paneId =
     (case findPaneById tree paneId of Some (LeafPane l) \<Rightarrow> Some l | _ \<Rightarrow> None)"

definition findSplitNodeById :: "pane \<Rightarrow> string \<Rightarrow> pane option" where
  "findSplitNodeById tree paneId =
     (case findPaneById tree paneId of Some (SplitPane i d f s r) \<Rightarrow> Some (SplitPane i d f s r) | _ \<Rightarrow> None)"

fun findParentSplitNode :: "pane \<Rightarrow> string \<Rightarrow> pane option" where
  "findParentSplitNode (LeafPane l) paneId = None"
| "findParentSplitNode (SplitPane i d f s r) paneId =
     (if pane_id f = paneId \<or> pane_id s = paneId then Some (SplitPane i d f s r)
      else orelse (findParentSplitNode f paneId) (findParentSplitNode s paneId))"

fun findPaneDepth :: "pane \<Rightarrow> string \<Rightarrow> nat option" where
  "findPaneDepth (LeafPane l) paneId = (if leafPaneId l = paneId then Some 0 else None)"
| "findPaneDepth (SplitPane i d f s r) paneId =
     (if i = paneId then Some 0
      else case findPaneDepth f paneId of
        Some firstDepth \<Rightarrow> Some (firstDepth + 1)
      | None \<Rightarrow> (case findPaneDepth s paneId of None \<Rightarrow> None | Some secondDepth \<Rightarrow> Some (secondDepth + 1)))"

fun collectLeaves :: "pane \<Rightarrow> leaf_pane list" where
  "collectLeaves (LeafPane l) = [l]"
| "collectLeaves (SplitPane i d f s r) = collectLeaves f @ collectLeaves s"

fun replacePaneInTree :: "pane \<Rightarrow> string \<Rightarrow> pane \<Rightarrow> pane" where
  "replacePaneInTree (LeafPane l) paneId replacement =
     (if leafPaneId l = paneId then replacement else LeafPane l)"
| "replacePaneInTree (SplitPane i d f s r) paneId replacement =
     (if i = paneId then replacement
      else SplitPane i d (replacePaneInTree f paneId replacement) (replacePaneInTree s paneId replacement) r)"

record remove_leaf_result =
  nextRoot :: "pane option"
  removedLeafIds :: "string list"

text \<open>What a split node becomes when its subtrees become \<open>first\<close> and \<open>second\<close>.\<close>

fun collapse_split ::
    "pane \<Rightarrow> remove_leaf_result \<Rightarrow> remove_leaf_result \<Rightarrow> remove_leaf_result" where
  "collapse_split tree firstResult secondResult =
     (let removed = removedLeafIds firstResult @ removedLeafIds secondResult
      in if length removed = 0 then \<lparr>nextRoot = Some tree, removedLeafIds = removed\<rparr>
         else case (nextRoot firstResult, nextRoot secondResult) of
           (Some f, Some s) \<Rightarrow>
             \<lparr>nextRoot = Some (SplitPane (splitPaneId tree) (splitDirection tree) f s (splitRatio tree)),
              removedLeafIds = removed\<rparr>
         | (Some f, None) \<Rightarrow> \<lparr>nextRoot = Some f, removedLeafIds = removed\<rparr>
         | (None, Some s) \<Rightarrow> \<lparr>nextRoot = Some s, removedLeafIds = removed\<rparr>
         | (None, None) \<Rightarrow> \<lparr>nextRoot = None, removedLeafIds = removed\<rparr>)"

fun removeLeafByThreadId :: "pane \<Rightarrow> string option \<Rightarrow> remove_leaf_result" where
  "removeLeafByThreadId (LeafPane l) threadId =
     (if leafThreadId l = threadId then \<lparr>nextRoot = None, removedLeafIds = [leafPaneId l]\<rparr>
      else \<lparr>nextRoot = Some (LeafPane l), removedLeafIds = []\<rparr>)"
| "removeLeafByThreadId (SplitPane i d f s r) threadId =
     collapse_split (SplitPane i d f s r) (removeLeafByThreadId f threadId) (removeLeafByThreadId s threadId)"

fun removeLeafByPaneId :: "pane \<Rightarrow> string \<Rightarrow> remove_leaf_result" where
  "removeLeafByPaneId (LeafPane l) paneId =
     (if leafPaneId l = paneId then \<lparr>nextRoot = None, removedLeafIds = [leafPaneId l]\<rparr>
      else \<lparr>nextRoot = Some (LeafPane l), removedLeafIds = []\<rparr>)"
| "removeLeafByPaneId (SplitPane i d f s r) paneId =
     collapse_split (SplitPane i d f s r) (removeLeafByPaneId f paneId) (removeLeafByPaneId s paneId)"

definition canSubdivide :: "split_dir option \<Rightarrow> split_dir \<Rightarrow> bool" where
  "canSubdivide parentDirection requestedDirection =
     (case parentDirection of None \<Rightarrow> True | Some d \<Rightarrow> d \<noteq> requestedDirection)"

definition canSubdividePane :: "pane \<Rightarrow> string \<Rightarrow> split_dir \<Rightarrow> bool" where
  "canSubdividePane tree targetPaneId requestedDirection =
     (if findLeafPaneById tree targetPaneId = None then False
      else case findPaneDepth tree targetPaneId of
        None \<Rightarrow> False
      | Some targetDepth \<Rightarrow>
          if targetDepth \<ge> 2 then False
          else canSubdivide (map_option splitDirection (findParentSplitNode tree targetPaneId))
                 requestedDirection)"

definition resolveDefaultFocusLeafId :: "pane \<Rightarrow> string" where
  "resolveDefaultFocusLeafId tree =
     nullish (map_option leafPaneId (list_get (collectLeaves tree) 0)) (pane_id tree)"

section \<open>Well-formed trees\<close>

text \<open>
  The ids of all nodes, the leaves' ids and threads, and the shape the store keeps: node ids are
  distinct, ratios are clamped, and splits alternate in direction with at most two levels, the
  2 by 2 grid.
\<close>

fun pane_ids :: "pane \<Rightarrow> string list" where
  "pane_ids (LeafPane l) = [leafPaneId l]"
| "pane_ids (SplitPane i d f s r) = i # pane_ids f @ pane_ids s"

abbreviation leaf_pane_ids :: "pane \<Rightarrow> string list" where
  "leaf_pane_ids tree \<equiv> map leafPaneId (collectLeaves tree)"

abbreviation leaf_threads :: "pane \<Rightarrow> string option list" where
  "leaf_threads tree \<equiv> map leafThreadId (collectLeaves tree)"

fun is_leaf :: "pane \<Rightarrow> bool" where
  "is_leaf (LeafPane l) = True"
| "is_leaf (SplitPane i d f s r) = False"

fun row_of_leaves :: "split_dir \<Rightarrow> pane \<Rightarrow> bool" where
  "row_of_leaves d (LeafPane l) = True"
| "row_of_leaves d (SplitPane i d' f s r) = (d' \<noteq> d \<and> is_leaf f \<and> is_leaf s)"

fun grid :: "pane \<Rightarrow> bool" where
  "grid (LeafPane l) = True"
| "grid (SplitPane i d f s r) = (row_of_leaves d f \<and> row_of_leaves d s)"

fun clamped :: "jsnum \<Rightarrow> bool" where
  "clamped (Num r) = (1 / 4 \<le> r \<and> r \<le> 3 / 4)"
| "clamped NonFinite = False"

fun clamped_ratios :: "pane \<Rightarrow> bool" where
  "clamped_ratios (LeafPane l) = True"
| "clamped_ratios (SplitPane i d f s r) = (clamped r \<and> clamped_ratios f \<and> clamped_ratios s)"

definition wf_pane :: "pane \<Rightarrow> bool" where
  "wf_pane tree \<longleftrightarrow> distinct (pane_ids tree) \<and> grid tree \<and> clamped_ratios tree"

lemma collectLeaves_nonempty [simp]: "collectLeaves tree \<noteq> []"
  by (induction tree) simp_all

lemma leaf_ids_subset: "set (leaf_pane_ids tree) \<subseteq> set (pane_ids tree)"
  by (induction tree) auto

lemma leaf_id_in: "l \<in> set (collectLeaves tree) \<Longrightarrow> leafPaneId l \<in> set (pane_ids tree)"
  using leaf_ids_subset [of tree] by auto

lemma leaf_pane_ids_distinct: "distinct (pane_ids tree) \<Longrightarrow> distinct (leaf_pane_ids tree)"
proof (induction tree)
  case (SplitPane i d f s r)
  then have "set (leaf_pane_ids f) \<inter> set (leaf_pane_ids s) = {}"
    using leaf_ids_subset [of f] leaf_ids_subset [of s] by fastforce
  with SplitPane show ?case by (simp only: collectLeaves.simps map_append distinct_append) simp
qed simp

lemma row_of_leaves_grid: "row_of_leaves d n \<Longrightarrow> grid n"
  by (cases n) (auto elim: is_leaf.elims)

lemma grid_at_most_four: "grid tree \<Longrightarrow> length (collectLeaves tree) \<le> 4"
proof (cases tree)
  case (SplitPane i d f s r)
  have two: "row_of_leaves d n \<Longrightarrow> length (collectLeaves n) \<le> 2" for n
  proof (cases n)
    case (SplitPane j e a b q)
    assume "row_of_leaves d n"
    with SplitPane have "is_leaf a" "is_leaf b" by simp_all
    then show ?thesis using SplitPane by (cases a; cases b) simp_all
  qed simp
  assume "grid tree"
  with SplitPane two [of f] two [of s] show ?thesis by simp
qed simp

section \<open>Lookup\<close>

lemma findPaneById_None: "findPaneById tree i = None \<longleftrightarrow> i \<notin> set (pane_ids tree)"
  by (induction tree) auto

lemma findPaneById_Some: "findPaneById tree i = Some n \<Longrightarrow> pane_id n = i \<and> set (pane_ids n) \<subseteq> set (pane_ids tree)"
  by (induction tree) (auto split: if_splits simp: orelse_def split: option.splits)

lemma findLeaf_mem: "findLeafPaneById tree i = Some l \<Longrightarrow> l \<in> set (collectLeaves tree) \<and> leafPaneId l = i"
proof -
  assume "findLeafPaneById tree i = Some l"
  then have "findPaneById tree i = Some (LeafPane l)"
    by (auto simp: findLeafPaneById_def split: option.splits pane.splits)
  moreover have "findPaneById tree i = Some (LeafPane l) \<Longrightarrow> l \<in> set (collectLeaves tree)"
    by (induction tree) (auto split: if_splits simp: orelse_def split: option.splits)
  ultimately show ?thesis using findPaneById_Some [of tree i "LeafPane l"] by simp
qed

lemma findLeaf_Some:
  "distinct (pane_ids tree) \<Longrightarrow> l \<in> set (collectLeaves tree) \<Longrightarrow> findLeafPaneById tree (leafPaneId l) = Some l"
proof -
  have "distinct (pane_ids tree) \<Longrightarrow> l \<in> set (collectLeaves tree) \<Longrightarrow>
      findPaneById tree (leafPaneId l) = Some (LeafPane l)"
  proof (induction tree)
    case (SplitPane i d f s r)
    from SplitPane.prems(2) consider "l \<in> set (collectLeaves f)" | "l \<in> set (collectLeaves s)" by auto
    then show ?case
    proof cases
      case 1
      then have "leafPaneId l \<noteq> i" using SplitPane.prems(1) by (auto dest: leaf_id_in)
      with 1 SplitPane show ?thesis by simp
    next
      case 2
      then have "leafPaneId l \<noteq> i" "leafPaneId l \<notin> set (pane_ids f)"
        using SplitPane.prems(1) by (auto dest: leaf_id_in)
      moreover from this have "findPaneById f (leafPaneId l) = None" by (simp add: findPaneById_None)
      ultimately show ?thesis using 2 SplitPane by simp
    qed
  qed simp
  then show "distinct (pane_ids tree) \<Longrightarrow> l \<in> set (collectLeaves tree) \<Longrightarrow> ?thesis"
    by (simp add: findLeafPaneById_def)
qed

lemma findLeaf_iff:
  "distinct (pane_ids tree) \<Longrightarrow> (findLeafPaneById tree i \<noteq> None) = (i \<in> set (leaf_pane_ids tree))"
  using findLeaf_mem findLeaf_Some by fastforce

section \<open>Removing leaves\<close>

text \<open>The result of dropping the leaves with \<open>P\<close>.\<close>

definition removes :: "(leaf_pane \<Rightarrow> bool) \<Rightarrow> pane \<Rightarrow> remove_leaf_result \<Rightarrow> bool" where
  "removes P n res \<longleftrightarrow>
     removedLeafIds res = map leafPaneId (filter P (collectLeaves n)) \<and>
     (case nextRoot res of
        None \<Rightarrow> filter (\<lambda>l. \<not> P l) (collectLeaves n) = []
      | Some n' \<Rightarrow> collectLeaves n' = filter (\<lambda>l. \<not> P l) (collectLeaves n) \<and>
          set (pane_ids n') \<subseteq> set (pane_ids n) \<and> (distinct (pane_ids n) \<longrightarrow> distinct (pane_ids n')) \<and>
          (is_leaf n \<longrightarrow> is_leaf n') \<and> (\<forall>d. row_of_leaves d n \<longrightarrow> row_of_leaves d n') \<and>
          (grid n \<longrightarrow> grid n') \<and> (clamped_ratios n \<longrightarrow> clamped_ratios n'))"

lemma removes_leaf:
  "removes P (LeafPane l) (if P l then \<lparr>nextRoot = None, removedLeafIds = [leafPaneId l]\<rparr>
     else \<lparr>nextRoot = Some (LeafPane l), removedLeafIds = []\<rparr>)"
  by (simp add: removes_def)

lemma is_leaf_row: "is_leaf n \<Longrightarrow> row_of_leaves d n"
  by (cases n) simp_all

lemma removes_collapse:
  assumes f: "removes P f rf" and s: "removes P s rs"
  shows "removes P (SplitPane i d f s r) (collapse_split (SplitPane i d f s r) rf rs)"
proof (cases "removedLeafIds rf @ removedLeafIds rs = []")
  case True
  then have "filter P (collectLeaves f) = []" "filter P (collectLeaves s) = []"
    using f s by (simp_all add: removes_def)
  then have "filter (\<lambda>l. \<not> P l) (collectLeaves f) = collectLeaves f"
    "filter (\<lambda>l. \<not> P l) (collectLeaves s) = collectLeaves s"
    by (simp_all add: filter_empty_conv)
  with True f s show ?thesis by (simp add: removes_def)
next
  case False
  show ?thesis
  proof (cases "nextRoot rf")
    case None
    show ?thesis
    proof (cases "nextRoot rs")
      case None': None
      with None False f s show ?thesis by (simp add: removes_def Let_def)
    next
      case (Some s')
      with None False f s is_leaf_row row_of_leaves_grid show ?thesis
        by (simp add: removes_def Let_def) blast
    qed
  next
    case F: (Some f')
    show ?thesis
    proof (cases "nextRoot rs")
      case None
      with F False f s is_leaf_row row_of_leaves_grid show ?thesis
        by (simp add: removes_def Let_def) blast
    next
      case (Some s')
      with F False f s show ?thesis by (simp add: removes_def Let_def) blast
    qed
  qed
qed

lemma remove_by_pane: "removes (\<lambda>l. leafPaneId l = paneId) n (removeLeafByPaneId n paneId)"
  using removes_leaf [of "\<lambda>l. leafPaneId l = paneId"]
  by (induction n) (simp_all add: removes_collapse del: collapse_split.simps)

lemma remove_by_thread: "removes (\<lambda>l. leafThreadId l = threadId) n (removeLeafByThreadId n threadId)"
  using removes_leaf [of "\<lambda>l. leafThreadId l = threadId"]
  by (induction n) (simp_all add: removes_collapse del: collapse_split.simps)

interpretation pane_leaves: pane_tree "\<lambda>_. True" leaf_pane_ids "\<lambda>n k. nextRoot (removeLeafByPaneId n k)"
proof unfold_locales
  fix n k n'
  have eq: "filter (\<lambda>x. x \<noteq> k) (leaf_pane_ids n) = map leafPaneId (filter (\<lambda>l. leafPaneId l \<noteq> k) (collectLeaves n))"
    by (simp add: filter_map o_def)
  { assume "nextRoot (removeLeafByPaneId n k) = None"
    with remove_by_pane [of k n] show "filter (\<lambda>x. x \<noteq> k) (leaf_pane_ids n) = []"
      unfolding eq by (simp add: removes_def) }
  assume "nextRoot (removeLeafByPaneId n k) = Some n'"
  with remove_by_pane [of k n] show "True \<and> leaf_pane_ids n' = filter (\<lambda>x. x \<noteq> k) (leaf_pane_ids n)"
    unfolding eq by (simp add: removes_def)
qed simp

interpretation pane_threads: pane_tree "\<lambda>_. True" leaf_threads "\<lambda>n k. nextRoot (removeLeafByThreadId n k)"
proof unfold_locales
  fix n k n'
  have eq: "filter (\<lambda>x. x \<noteq> k) (leaf_threads n) = map leafThreadId (filter (\<lambda>l. leafThreadId l \<noteq> k) (collectLeaves n))"
    by (simp add: filter_map o_def)
  { assume "nextRoot (removeLeafByThreadId n k) = None"
    with remove_by_thread [of k n] show "filter (\<lambda>x. x \<noteq> k) (leaf_threads n) = []"
      unfolding eq by (simp add: removes_def) }
  assume "nextRoot (removeLeafByThreadId n k) = Some n'"
  with remove_by_thread [of k n] show "True \<and> leaf_threads n' = filter (\<lambda>x. x \<noteq> k) (leaf_threads n)"
    unfolding eq by (simp add: removes_def)
qed simp

lemma removed_wf:
  assumes "removes P n res" "wf_pane n" "nextRoot res = Some n'"
  shows "wf_pane n'" "collectLeaves n' = filter (\<lambda>l. \<not> P l) (collectLeaves n)"
  using assms by (simp_all add: removes_def wf_pane_def)

section \<open>Replacing panes\<close>

lemma replace_absent: "i \<notin> set (pane_ids tree) \<Longrightarrow> replacePaneInTree tree i new = tree"
  by (induction tree) auto

text \<open>A leaf replaced by a leaf of the same id.\<close>

lemma replace_leaf:
  assumes "distinct (pane_ids tree)" "l \<in> set (collectLeaves tree)" "leafPaneId l' = leafPaneId l"
  shows "pane_ids (replacePaneInTree tree (leafPaneId l) (LeafPane l')) = pane_ids tree \<and>
    collectLeaves (replacePaneInTree tree (leafPaneId l) (LeafPane l')) =
      map (\<lambda>m. if leafPaneId m = leafPaneId l then l' else m) (collectLeaves tree) \<and>
    (is_leaf tree \<longrightarrow> is_leaf (replacePaneInTree tree (leafPaneId l) (LeafPane l'))) \<and>
    (\<forall>d. row_of_leaves d tree \<longrightarrow> row_of_leaves d (replacePaneInTree tree (leafPaneId l) (LeafPane l'))) \<and>
    (grid tree \<longrightarrow> grid (replacePaneInTree tree (leafPaneId l) (LeafPane l'))) \<and>
    (clamped_ratios tree \<longrightarrow> clamped_ratios (replacePaneInTree tree (leafPaneId l) (LeafPane l')))"
  using assms
proof (induction tree)
  case (SplitPane i d f s r)
  let ?R = "\<lambda>t. replacePaneInTree t (leafPaneId l) (LeafPane l')"
  have ne: "leafPaneId l \<noteq> i" using SplitPane.prems by (auto dest: leaf_id_in)
  have keep: "?R t = t \<and> map (\<lambda>m. if leafPaneId m = leafPaneId l then l' else m) (collectLeaves t) = collectLeaves t"
    if "leafPaneId l \<notin> set (pane_ids t)" for t
  proof -
    have "leafPaneId m \<noteq> leafPaneId l" if "m \<in> set (collectLeaves t)" for m
      using leaf_id_in [OF that] \<open>leafPaneId l \<notin> set (pane_ids t)\<close> by metis
    with that show ?thesis by (auto simp: replace_absent intro!: map_idI)
  qed
  from SplitPane.prems(2) consider "l \<in> set (collectLeaves f)" "leafPaneId l \<notin> set (pane_ids s)"
    | "l \<in> set (collectLeaves s)" "leafPaneId l \<notin> set (pane_ids f)"
    using SplitPane.prems(1) by (auto dest: leaf_id_in)
  then show ?case
  proof cases
    case 1
    then show ?thesis using SplitPane keep [of s] ne by simp
  next
    case 2
    then show ?thesis using SplitPane keep [of f] ne by simp
  qed
qed auto

text \<open>A leaf replaced by a subtree that contains it and otherwise only new ids.\<close>

lemma replace_subtree:
  assumes "distinct (pane_ids tree)" "l \<in> set (collectLeaves tree)"
    and "distinct (pane_ids new)" "set (pane_ids new) \<inter> set (pane_ids tree) = {leafPaneId l}"
  shows "distinct (pane_ids (replacePaneInTree tree (leafPaneId l) new)) \<and>
    set (pane_ids (replacePaneInTree tree (leafPaneId l) new)) = set (pane_ids tree) \<union> set (pane_ids new) \<and>
    (\<exists>pre post. collectLeaves tree = pre @ l # post \<and>
      collectLeaves (replacePaneInTree tree (leafPaneId l) new) = pre @ collectLeaves new @ post) \<and>
    (clamped_ratios tree \<and> clamped_ratios new \<longrightarrow>
      clamped_ratios (replacePaneInTree tree (leafPaneId l) new))"
  using assms
proof (induction tree)
  case (LeafPane x)
  then have x: "x = l" by simp
  then have new: "replacePaneInTree (LeafPane x) (leafPaneId l) new = new" by simp
  show ?case
    unfolding new
  proof (intro conjI impI)
    show "distinct (pane_ids new)" by (rule LeafPane.prems)
    have "leafPaneId l \<in> set (pane_ids new)" using LeafPane.prems(4) by blast
    then show "set (pane_ids new) = set (pane_ids (LeafPane x)) \<union> set (pane_ids new)"
      by (simp add: x insert_absorb)
    show "\<exists>pre post. collectLeaves (LeafPane x) = pre @ l # post \<and> collectLeaves new = pre @ collectLeaves new @ post"
      by (rule exI [of _ "[]"], rule exI [of _ "[]"]) (simp add: x)
    show "clamped_ratios new" if "clamped_ratios (LeafPane x) \<and> clamped_ratios new"
      using that by simp
  qed
next
  case (SplitPane i d f s r)
  let ?R = "\<lambda>t. replacePaneInTree t (leafPaneId l) new"
  let ?IH = "\<lambda>t. distinct (pane_ids (?R t)) \<and> set (pane_ids (?R t)) = set (pane_ids t) \<union> set (pane_ids new) \<and>
    (\<exists>pre post. collectLeaves t = pre @ l # post \<and> collectLeaves (?R t) = pre @ collectLeaves new @ post) \<and>
    (clamped_ratios t \<and> clamped_ratios new \<longrightarrow> clamped_ratios (?R t))"
  have only: "x = leafPaneId l" if "x \<in> set (pane_ids new)" "x \<in> set (pane_ids (SplitPane i d f s r))" for x
    using SplitPane.prems(4) that by blast
  have lnew: "leafPaneId l \<in> set (pane_ids new)" using SplitPane.prems(4) by blast
  have ne: "leafPaneId l \<noteq> i" using SplitPane.prems(1,2) by (auto dest: leaf_id_in)
  then have i: "i \<notin> set (pane_ids new)" using only [of i] by auto
  have dj: "set (pane_ids f) \<inter> set (pane_ids s) = {}" "distinct (pane_ids f)" "distinct (pane_ids s)"
    "i \<notin> set (pane_ids f)" "i \<notin> set (pane_ids s)"
    using SplitPane.prems(1) by auto
  from SplitPane.prems(2) consider "l \<in> set (collectLeaves f)" | "l \<in> set (collectLeaves s)" by auto
  then show ?case
  proof cases
    case 1
    have lf: "leafPaneId l \<in> set (pane_ids f)" using 1 by (rule leaf_id_in)
    then have ls: "leafPaneId l \<notin> set (pane_ids s)" using dj(1) by auto
    have ol: "x = leafPaneId l" if "x \<in> set (pane_ids new)" "x \<in> set (pane_ids f) \<union> set (pane_ids s)" for x
      using only [OF that(1)] that(2) by simp
    have "set (pane_ids new) \<inter> set (pane_ids f) = {leafPaneId l}"
      using ol lnew lf by blast
    moreover have ns: "set (pane_ids new) \<inter> set (pane_ids s) = {}"
      using ol ls by blast
    ultimately have IH: "?IH f" using SplitPane.IH(1) [OF dj(2) 1 SplitPane.prems(3)] by simp
    then obtain pre post where pp: "collectLeaves f = pre @ l # post"
      "collectLeaves (?R f) = pre @ collectLeaves new @ post" by blast
    have eq: "?R (SplitPane i d f s r) = SplitPane i d (?R f) s r"
      using ne ls by (simp add: replace_absent)
    have "distinct (pane_ids (SplitPane i d (?R f) s r))"
      using IH dj i ns by auto
    moreover have "\<exists>pre post. collectLeaves (SplitPane i d f s r) = pre @ l # post \<and>
        collectLeaves (SplitPane i d (?R f) s r) = pre @ collectLeaves new @ post"
      using pp by (intro exI [of _ pre] exI [of _ "post @ collectLeaves s"]) simp
    moreover have "set (pane_ids (?R (SplitPane i d f s r))) =
        set (pane_ids (SplitPane i d f s r)) \<union> set (pane_ids new)"
      using IH unfolding eq by auto
    moreover have "clamped_ratios (SplitPane i d f s r) \<and> clamped_ratios new \<longrightarrow>
        clamped_ratios (?R (SplitPane i d f s r))"
      using IH unfolding eq by simp
    ultimately show ?thesis unfolding eq by blast
  next
    case 2
    have lf: "leafPaneId l \<in> set (pane_ids s)" using 2 by (rule leaf_id_in)
    then have ls: "leafPaneId l \<notin> set (pane_ids f)" using dj(1) by auto
    have ol: "x = leafPaneId l" if "x \<in> set (pane_ids new)" "x \<in> set (pane_ids f) \<union> set (pane_ids s)" for x
      using only [OF that(1)] that(2) by simp
    have "set (pane_ids new) \<inter> set (pane_ids s) = {leafPaneId l}"
      using ol lnew lf by blast
    moreover have ns: "set (pane_ids new) \<inter> set (pane_ids f) = {}"
      using ol ls by blast
    ultimately have IH: "?IH s" using SplitPane.IH(2) [OF dj(3) 2 SplitPane.prems(3)] by simp
    then obtain pre post where pp: "collectLeaves s = pre @ l # post"
      "collectLeaves (?R s) = pre @ collectLeaves new @ post" by blast
    have eq: "?R (SplitPane i d f s r) = SplitPane i d f (?R s) r"
      using ne ls by (simp add: replace_absent)
    have "distinct (pane_ids (SplitPane i d f (?R s) r))"
      using IH dj i ns by auto
    moreover have "\<exists>pre post. collectLeaves (SplitPane i d f s r) = pre @ l # post \<and>
        collectLeaves (SplitPane i d f (?R s) r) = pre @ collectLeaves new @ post"
      using pp by (intro exI [of _ "collectLeaves f @ pre"] exI [of _ post]) simp
    moreover have "set (pane_ids (?R (SplitPane i d f s r))) =
        set (pane_ids (SplitPane i d f s r)) \<union> set (pane_ids new)"
      using IH unfolding eq by auto
    moreover have "clamped_ratios (SplitPane i d f s r) \<and> clamped_ratios new \<longrightarrow>
        clamped_ratios (?R (SplitPane i d f s r))"
      using IH unfolding eq by simp
    ultimately show ?thesis unfolding eq by blast
  qed
qed

lemma findPaneDepth_leaf: "findPaneDepth (LeafPane l) (leafPaneId l) = Some 0"
  by simp

lemma findPaneDepth_None: "findPaneDepth tree i = None \<longleftrightarrow> i \<notin> set (pane_ids tree)"
  by (induction tree) (auto split: option.split)

text \<open>The test for a subdivision finds exactly the leaves whose replacement stays in the grid.\<close>

lemma subdivide_grid:
  assumes wf: "distinct (pane_ids tree)" "grid tree" and l: "l \<in> set (collectLeaves tree)"
    and can: "canSubdividePane tree (leafPaneId l) dir" and leaves: "is_leaf a" "is_leaf b"
  shows "grid (replacePaneInTree tree (leafPaneId l) (SplitPane j dir a b r))"
proof (cases tree)
  case (LeafPane x)
  with l leaves show ?thesis by (simp add: is_leaf_row)
next
  case (SplitPane i d f s q)
  let ?new = "SplitPane j dir a b r"
  have found: "findLeafPaneById tree (leafPaneId l) \<noteq> None"
    using findLeaf_Some [OF wf(1) l] by simp
  have ne: "leafPaneId l \<noteq> i" using wf(1) l SplitPane by (auto dest: leaf_id_in)
  have sub: "m = LeafPane l \<and> d \<noteq> dir \<and> replacePaneInTree o' (leafPaneId l) ?new = o' \<and>
      replacePaneInTree m (leafPaneId l) ?new = ?new"
    if m: "l \<in> set (collectLeaves m)" and mo: "m = f \<and> o' = s \<or> m = s \<and> o' = f" for m o'
  proof -
    have dj: "leafPaneId l \<in> set (pane_ids m)" "leafPaneId l \<notin> set (pane_ids o')"
      "distinct (pane_ids m)"
      using m mo wf(1) SplitPane by (auto dest: leaf_id_in)
    have depth: "findPaneDepth tree (leafPaneId l) = map_option Suc (findPaneDepth m (leafPaneId l))"
    proof -
      have "findPaneDepth o' (leafPaneId l) = None" using dj(2) by (simp add: findPaneDepth_None)
      with mo ne SplitPane show ?thesis by (auto split: option.split)
    qed
    have "is_leaf m"
    proof (rule ccontr)
      assume "\<not> is_leaf m"
      then obtain i' d' f' s' q' where m': "m = SplitPane i' d' f' s' q'" by (cases m) auto
      have "row_of_leaves d m" using mo wf(2) SplitPane by auto
      then have lv: "is_leaf f'" "is_leaf s'" by (simp_all add: m')
      have "leafPaneId l \<noteq> i'" using dj(3) m m' by (auto dest: leaf_id_in)
      moreover obtain x y where "f' = LeafPane x" "s' = LeafPane y" using lv by (cases f'; cases s') auto
      ultimately have "findPaneDepth m (leafPaneId l) = Some 1"
        using m m' by auto
      with depth can found show False by (simp add: canSubdividePane_def split: if_splits)
    qed
    then have ml: "m = LeafPane l" using m by (cases m) auto
    then have "findParentSplitNode tree (leafPaneId l) = Some tree"
      using mo SplitPane by auto
    then have "d \<noteq> dir"
      using can found SplitPane
      by (auto simp: canSubdividePane_def canSubdivide_def split: if_splits option.splits)
    then show ?thesis using ml dj(2) by (simp add: replace_absent)
  qed
  from l SplitPane consider "l \<in> set (collectLeaves f)" | "l \<in> set (collectLeaves s)" by auto
  then show ?thesis
  proof cases
    case 1
    with sub [of f s] wf(2) SplitPane ne leaves show ?thesis by auto
  next
    case 2
    with sub [of s f] wf(2) SplitPane ne leaves show ?thesis by auto
  qed
qed

text \<open>A split node gets another ratio.\<close>

lemma replace_ratio:
  assumes "distinct (pane_ids tree)" "findSplitNodeById tree i = Some (SplitPane i d f s r)" "clamped r'"
  shows "pane_ids (replacePaneInTree tree i (SplitPane i d f s r')) = pane_ids tree \<and>
    collectLeaves (replacePaneInTree tree i (SplitPane i d f s r')) = collectLeaves tree \<and>
    (is_leaf tree \<longrightarrow> is_leaf (replacePaneInTree tree i (SplitPane i d f s r'))) \<and>
    (\<forall>e. row_of_leaves e tree \<longrightarrow> row_of_leaves e (replacePaneInTree tree i (SplitPane i d f s r'))) \<and>
    (grid tree \<longrightarrow> grid (replacePaneInTree tree i (SplitPane i d f s r'))) \<and>
    (clamped_ratios tree \<longrightarrow> clamped_ratios (replacePaneInTree tree i (SplitPane i d f s r')))"
proof -
  have "findPaneById tree i = Some (SplitPane i d f s r)"
    using assms(2) by (auto simp: findSplitNodeById_def split: option.splits pane.splits)
  with assms(1) show ?thesis
  proof (induction tree)
    case (LeafPane x)
    then show ?case by (simp split: if_splits)
  next
    case (SplitPane j e a b q)
    let ?R = "\<lambda>t. replacePaneInTree t i (SplitPane i d f s r')"
    show ?case
    proof (cases "j = i")
      case True
      with SplitPane assms(3) show ?thesis by simp
    next
      case False
      show ?thesis
      proof (cases "findPaneById a i")
        case None
        then have a: "?R a = a" by (simp add: findPaneById_None replace_absent)
        have b: "findPaneById b i = Some (SplitPane i d f s r)" using SplitPane.prems(2) False None by simp
        show ?thesis using SplitPane.IH(2) [OF _ b] SplitPane.prems(1) False a by auto
      next
        case (Some n)
        then have n: "findPaneById a i = Some (SplitPane i d f s r)" using SplitPane.prems(2) False by simp
        then have "i \<in> set (pane_ids a)" using findPaneById_None [of a i] by simp
        then have "i \<notin> set (pane_ids b)" using SplitPane.prems(1) by auto
        then have b: "?R b = b" by (rule replace_absent)
        show ?thesis using SplitPane.IH(1) [OF _ n] SplitPane.prems(1) False b by auto
      qed
    qed
  qed
qed

end
