(* ===== verification/Json.thy ===== *)
theory Json
  imports Prelude
begin

text \<open>
  Values of type \<open>unknown\<close>: what \<open>JSON.parse\<close> of the browser storage returns, for the
  modules that validate persisted data themselves. A missing property reads as \<open>None\<close>
  (\<open>undefined\<close>).
\<close>

datatype json =
    JNull
  | JBool bool
  | JNum jsnum
  | JStr string
  | JArr "json list"
  | JObj "(string \<times> json) list"

text \<open>\<open>typeof v === "object" && v !== null\<close>; arrays are objects without named properties.\<close>

fun is_object :: "json \<Rightarrow> bool" where
  "is_object (JObj _) = True"
| "is_object (JArr _) = True"
| "is_object _ = False"

fun json_prop :: "json \<Rightarrow> string \<Rightarrow> json option" where
  "json_prop (JObj ps) k = map_of ps k"
| "json_prop _ k = None"

fun is_string :: "json option \<Rightarrow> bool" where
  "is_string (Some (JStr _)) = True"
| "is_string _ = False"

fun entries :: "json \<Rightarrow> (string \<times> json) list" where
  "entries (JObj ps) = ps"
| "entries (JArr vs) = zip (map nat_str [0..<length vs]) vs"
| "entries _ = []"

text \<open>\<open>!value\<close> on an optional value: absent, null, false, 0, NaN and the empty string are falsy.\<close>

fun falsy :: "json option \<Rightarrow> bool" where
  "falsy None = True"
| "falsy (Some JNull) = True"
| "falsy (Some (JBool b)) = (\<not> b)"
| "falsy (Some (JNum (Num r))) = (r = 0)"
| "falsy (Some (JStr s)) = (s = [])"
| "falsy (Some _) = False"

section \<open>Persisted dictionaries\<close>

text \<open>\<open>frontend/src/persistedRecord.ts\<close>. A value that is absent is \<open>None\<close>.\<close>

fun isPlainObject :: "json option \<Rightarrow> bool" where
  "isPlainObject (Some (JObj _)) = True"
| "isPlainObject _ = False"

definition UNSAFE_RECORD_KEYS :: "string list" where
  "UNSAFE_RECORD_KEYS = [''__proto__'', ''constructor'', ''prototype'']"

definition sanitizeStringKeyedRecord :: "json option \<Rightarrow> (json \<Rightarrow> 'v option) \<Rightarrow> 'v js_record" where
  "sanitizeStringKeyedRecord v sanitizeEntry =
     (if \<not> isPlainObject v then []
      else fold (\<lambda>(key, rawEntry) result.
             if key \<in> set UNSAFE_RECORD_KEYS then result
             else case sanitizeEntry rawEntry of
               None \<Rightarrow> result
             | Some sanitized \<Rightarrow> rec_set key sanitized result)
           (entries (the v)) [])"

definition keep_entry :: "(json \<Rightarrow> 'v option) \<Rightarrow> string \<times> json \<Rightarrow> 'v js_record \<Rightarrow> 'v js_record" where
  "keep_entry f = (\<lambda>(key, rawEntry) result. if key \<in> set UNSAFE_RECORD_KEYS then result
     else case f rawEntry of None \<Rightarrow> result | Some sanitized \<Rightarrow> rec_set key sanitized result)"

lemma sanitize_record_fold:
  "sanitizeStringKeyedRecord v f = (if \<not> isPlainObject v then [] else fold (keep_entry f) (entries (the v)) [])"
  by (simp add: sanitizeStringKeyedRecord_def keep_entry_def)

lemma keep_entry_get:
  "rec_get (keep_entry f (key, raw) r) k = Some s \<Longrightarrow>
     rec_get r k = Some s \<or> k = key \<and> k \<notin> set UNSAFE_RECORD_KEYS \<and> f raw = Some s"
  by (cases "f raw") (auto simp: keep_entry_def rec_get_set split: if_splits)

lemma sanitize_record_all:
  assumes f: "\<And>raw s. f raw = Some s \<Longrightarrow> P s" and k: "rec_get (sanitizeStringKeyedRecord v f) k = Some s"
  shows "P s \<and> k \<notin> set UNSAFE_RECORD_KEYS"
proof -
  have "rec_get (fold (keep_entry f) es r) k = Some s \<Longrightarrow>
      rec_get r k = Some s \<or> P s \<and> k \<notin> set UNSAFE_RECORD_KEYS" for es r
  proof (induction es arbitrary: r)
    case (Cons e es)
    obtain key raw where e: "e = (key, raw)" by (cases e)
    from Cons.IH [of "keep_entry f e r"] Cons.prems
    have "rec_get (keep_entry f (key, raw) r) k = Some s \<or> P s \<and> k \<notin> set UNSAFE_RECORD_KEYS"
      by (simp add: e)
    then show ?case using keep_entry_get [of f key raw r k s] f by blast
  qed simp
  from this [of "entries (the v)" "[]"] k show ?thesis
    by (cases "isPlainObject v") (simp_all add: sanitize_record_fold)
qed

lemma sanitize_record_distinct: "distinct (map fst (sanitizeStringKeyedRecord v f))"
proof (cases "isPlainObject v")
  case True
  have "distinct (map fst (fold (keep_entry f) es r))" if "distinct (map fst r)" for es and r :: "'a js_record"
    using that
  proof (induction es arbitrary: r)
    case (Cons e es)
    from Cons.prems have "distinct (map fst (keep_entry f e r))"
      by (cases e) (simp add: keep_entry_def rec_set_distinct split: option.split)
    from Cons.IH [OF this] show ?case by simp
  qed simp
  with True show ?thesis by (simp add: sanitize_record_fold)
qed (simp add: sanitizeStringKeyedRecord_def)

lemma sanitize_record_map:
  assumes "distinct (map fst r)" "\<And>k x. (k, x) \<in> set r \<Longrightarrow> f (g x) = Some x"
  shows "sanitizeStringKeyedRecord (Some (JObj (map (\<lambda>(k, x). (k, g x)) r))) f =
    filter (\<lambda>e. fst e \<notin> set UNSAFE_RECORD_KEYS) r"
proof -
  have gen: "distinct (map fst (acc @ r)) \<Longrightarrow> (\<And>k x. (k, x) \<in> set r \<Longrightarrow> f (g x) = Some x) \<Longrightarrow>
      fold (keep_entry f) (map (\<lambda>(k, x). (k, g x)) r) acc =
        acc @ filter (\<lambda>e. fst e \<notin> set UNSAFE_RECORD_KEYS) r" for acc r
  proof (induction r arbitrary: acc)
    case (Cons e es)
    obtain k x where e: "e = (k, x)" by (cases e)
    have "rec_set k x acc = acc @ [(k, x)]" using Cons.prems(1) e by (intro rec_set_fresh) auto
    then have "keep_entry f (k, g x) acc = (if k \<in> set UNSAFE_RECORD_KEYS then acc else acc @ [e])"
      using Cons.prems(2) [of k x] e by (simp add: keep_entry_def)
    moreover have "fold (keep_entry f) (map (\<lambda>(k, x). (k, g x)) es) acc' =
        acc' @ filter (\<lambda>e. fst e \<notin> set UNSAFE_RECORD_KEYS) es" if "distinct (map fst (acc' @ es))" for acc'
      using that Cons.prems(2) by (intro Cons.IH) auto
    moreover have "distinct (map fst (acc @ es))" "distinct (map fst ((acc @ [e]) @ es))"
      using Cons.prems(1) by simp_all
    ultimately show ?case using e by simp
  qed simp
  have "fold (keep_entry f) (map (\<lambda>(k, x). (k, g x)) r) [] = [] @ filter (\<lambda>e. fst e \<notin> set UNSAFE_RECORD_KEYS) r"
    by (rule gen [OF _ assms(2)]) (simp_all add: assms(1))
  then show ?thesis by (simp add: sanitize_record_fold)
qed

end
