(* ===== verification/SplitStore.thy ===== *)
theory SplitStore
  imports SplitTree Json
begin

text \<open>
  The store of split chat views: \<open>frontend/src/splitViewStore.ts\<close>. Every operation is a function
  of the state; the ids it draws with \<open>randomUUID\<close> and the time it reads are arguments, in the
  order of the draws. The updater of \<open>updateSplitView\<close> returns \<open>None\<close> where the code returns
  the view it was given, the same object.
\<close>

section \<open>State\<close>

record split_view =
  splitViewId :: string
  sourceThreadId :: string
  ownerProjectId :: string
  viewRoot :: pane
  focusedPaneId :: string
  createdAt :: string
  updatedAt :: string

record split_store =
  hasHydrated :: bool
  splitViewsById :: "split_view js_record"
  splitViewIdBySourceThreadId :: "string js_record"

definition DEFAULT_RATIO :: jsnum where "DEFAULT_RATIO = Num (1 / 2)"

definition MIN_RATIO :: rat where "MIN_RATIO = 1 / 4"

definition MAX_RATIO :: rat where "MAX_RATIO = 3 / 4"

fun clampRatio :: "jsnum \<Rightarrow> jsnum" where
  "clampRatio NonFinite = DEFAULT_RATIO"
| "clampRatio (Num v) = Num (min MAX_RATIO (max MIN_RATIO v))"

definition createDefaultPanePanelState :: panel_state where
  "createDefaultPanePanelState =
     \<lparr>panel = None, diffTurnId = None, diffFilePath = None, hasOpenedPanel = False,
      lastOpenPanel = BrowserPanel\<rparr>"

definition createLeafPane :: "string option \<Rightarrow> string \<Rightarrow> leaf_pane" where
  "createLeafPane threadId newId =
     \<lparr>leafPaneId = newId, leafThreadId = threadId, leafPanel = createDefaultPanePanelState\<rparr>"

definition createSplitNode :: "split_dir \<Rightarrow> pane \<Rightarrow> pane \<Rightarrow> jsnum option \<Rightarrow> string \<Rightarrow> pane" where
  "createSplitNode dir first second ratio newId =
     SplitPane newId dir first second (clampRatio (nullish ratio DEFAULT_RATIO))"

text \<open>The ids drawn for a view with two leaves: the first and the second leaf, the root, the view.\<close>

record view_ids =
  newLeafA :: string
  newLeafB :: string
  newRoot :: string
  newView :: string

definition buildSplitViewFromThread :: "string \<Rightarrow> string \<Rightarrow> view_ids \<Rightarrow> string \<Rightarrow> split_view" where
  "buildSplitViewFromThread source owner ids now =
     (let sourceLeaf = createLeafPane (Some source) (newLeafA ids);
          emptyLeaf = createLeafPane None (newLeafB ids)
      in \<lparr>splitViewId = newView ids, sourceThreadId = source, ownerProjectId = owner,
          viewRoot = createSplitNode HorizontalDir (LeafPane sourceLeaf) (LeafPane emptyLeaf) None
            (newRoot ids),
          focusedPaneId = leafPaneId emptyLeaf, createdAt = now, updatedAt = now\<rparr>)"

definition buildSplitViewFromDrop ::
    "string \<Rightarrow> string \<Rightarrow> string \<Rightarrow> split_dir \<Rightarrow> drop_side \<Rightarrow> split_view option \<Rightarrow> view_ids \<Rightarrow> string \<Rightarrow>
     split_view" where
  "buildSplitViewFromDrop source owner dropped dir side existing ids now =
     (let sourceLeaf = createLeafPane (Some source) (newLeafA ids);
          droppedLeaf = createLeafPane (Some dropped) (newLeafB ids)
      in \<lparr>splitViewId = nullish (map_option splitViewId existing) (newView ids),
          sourceThreadId = source, ownerProjectId = owner,
          viewRoot =
            (if side = FirstSide
             then createSplitNode dir (LeafPane droppedLeaf) (LeafPane sourceLeaf) None (newRoot ids)
             else createSplitNode dir (LeafPane sourceLeaf) (LeafPane droppedLeaf) None (newRoot ids)),
          focusedPaneId = leafPaneId droppedLeaf,
          createdAt = nullish (map_option createdAt existing) now, updatedAt = now\<rparr>)"

section \<open>Migration of version 1\<close>

datatype legacy_side = LeftSide | RightSide

record legacy_view =
  legacyId :: string
  legacySourceThreadId :: string
  legacyOwnerProjectId :: string
  leftThreadId :: "string option"
  rightThreadId :: "string option"
  legacyFocusedPane :: legacy_side
  legacyRatio :: "jsnum option"
  leftPanel :: panel_state
  rightPanel :: panel_state
  legacyCreatedAt :: "string option"
  legacyUpdatedAt :: "string option"

definition isLegacySplitViewLike :: "json \<Rightarrow> bool" where
  "isLegacySplitViewLike value \<longleftrightarrow>
     is_object value \<and> is_string (json_prop value ''id'') \<and> is_string (json_prop value ''sourceThreadId'') \<and>
     json_prop value ''leftThreadId'' \<noteq> None \<and> json_prop value ''rightThreadId'' \<noteq> None \<and>
     is_string (json_prop value ''focusedPane'')"

text \<open>The ids come from the stream \<open>uuid\<close>, from draw \<open>k\<close> on; the next draw comes back.\<close>

definition migrateLegacySplitView ::
    "(nat \<Rightarrow> string) \<Rightarrow> string \<Rightarrow> legacy_view \<Rightarrow> nat \<Rightarrow> split_view option \<times> nat" where
  "migrateLegacySplitView uuid now legacy k =
     (let leftLeaf = \<lparr>leafPaneId = uuid k, leafThreadId = leftThreadId legacy,
            leafPanel = leftPanel legacy\<rparr>;
          rightLeaf = \<lparr>leafPaneId = uuid (k + 1), leafThreadId = rightThreadId legacy,
            leafPanel = rightPanel legacy\<rparr>
      in if \<not> truthy (leafThreadId leftLeaf) \<and> \<not> truthy (leafThreadId rightLeaf) then (None, k + 2)
         else
           (Some \<lparr>splitViewId = legacyId legacy, sourceThreadId = legacySourceThreadId legacy,
              ownerProjectId = legacyOwnerProjectId legacy,
              viewRoot = createSplitNode HorizontalDir (LeafPane leftLeaf) (LeafPane rightLeaf)
                (legacyRatio legacy) (uuid (k + 2)),
              focusedPaneId = (if legacyFocusedPane legacy = RightSide then leafPaneId rightLeaf
                               else leafPaneId leftLeaf),
              createdAt = nullish (legacyCreatedAt legacy) now,
              updatedAt = nullish (legacyUpdatedAt legacy) now\<rparr>, k + 3))"

text \<open>\<open>cast\<close> reads the fields of a value that passed the guard, at their declared types.\<close>

fun migrateEntries ::
    "(json \<Rightarrow> legacy_view) \<Rightarrow> (nat \<Rightarrow> string) \<Rightarrow> string \<Rightarrow> (string \<times> json) list \<Rightarrow> nat \<Rightarrow>
     split_view js_record \<times> string js_record \<Rightarrow> split_view js_record \<times> string js_record" where
  "migrateEntries cast uuid now [] k acc = acc"
| "migrateEntries cast uuid now ((viewId, value) # rest) k (views, index) =
     (if \<not> isLegacySplitViewLike value then migrateEntries cast uuid now rest k (views, index)
      else case migrateLegacySplitView uuid now (cast value) k of
        (None, k') \<Rightarrow> migrateEntries cast uuid now rest k' (views, index)
      | (Some migrated, k') \<Rightarrow>
          migrateEntries cast uuid now rest k'
            (rec_set viewId migrated views, rec_set (sourceThreadId migrated) viewId index))"

definition migrateLegacyPersistedState ::
    "(json \<Rightarrow> legacy_view) \<Rightarrow> (nat \<Rightarrow> string) \<Rightarrow> string \<Rightarrow> json \<Rightarrow>
     (split_view js_record \<times> string js_record) option" where
  "migrateLegacyPersistedState cast uuid now state =
     (if \<not> is_object state then None
      else case json_prop state ''splitViewsById'' of
        None \<Rightarrow> None
      | Some legacyMap \<Rightarrow>
          if \<not> is_object legacyMap then None
          else Some (migrateEntries cast uuid now (entries legacyMap) 0 ([], [])))"

section \<open>Updating a view\<close>

definition updateSplitView ::
    "split_store \<Rightarrow> string \<Rightarrow> (split_view \<Rightarrow> split_view option) \<Rightarrow> split_store" where
  "updateSplitView state viewId updater =
     (case rec_get (splitViewsById state) viewId of
        None \<Rightarrow> state
      | Some existing \<Rightarrow>
          (case updater existing of
             None \<Rightarrow> state
           | Some updated \<Rightarrow> state\<lparr>splitViewsById := rec_set viewId updated (splitViewsById state)\<rparr>))"

definition resolveNextSourceThreadId :: "pane \<Rightarrow> string \<Rightarrow> string js_record \<Rightarrow> string option" where
  "resolveNextSourceThreadId tree viewId index =
     (case List.find (\<lambda>leaf. truthy (leafThreadId leaf) \<and>
          (let existingSourceSplitId = rec_get index (the (leafThreadId leaf))
           in \<not> truthy existingSourceSplitId \<or> existingSourceSplitId = Some viewId))
        (collectLeaves tree) of
        Some leaf \<Rightarrow> leafThreadId leaf
      | None \<Rightarrow> None)"

section \<open>Selectors\<close>

definition resolveSplitViewFocusedThreadId :: "split_view \<Rightarrow> string option" where
  "resolveSplitViewFocusedThreadId splitView =
     (let focused = orelse (map_option leafThreadId (findLeafPaneById (viewRoot splitView) (focusedPaneId splitView)))
            (Some None)
      in if truthy (the focused) then the focused
         else case List.find (\<lambda>leaf. truthy (leafThreadId leaf)) (collectLeaves (viewRoot splitView)) of
           Some leaf \<Rightarrow> leafThreadId leaf
         | None \<Rightarrow> None)"

definition resolveSplitViewPaneThreadId :: "split_view \<Rightarrow> string \<Rightarrow> string option" where
  "resolveSplitViewPaneThreadId splitView paneId =
     (case findLeafPaneById (viewRoot splitView) paneId of Some leaf \<Rightarrow> leafThreadId leaf | None \<Rightarrow> None)"

definition resolveSplitViewFocusedPaneThreadId :: "split_view \<Rightarrow> string option" where
  "resolveSplitViewFocusedPaneThreadId splitView =
     (case findLeafPaneById (viewRoot splitView) (focusedPaneId splitView) of
        Some leaf \<Rightarrow> leafThreadId leaf | None \<Rightarrow> None)"

definition resolveSplitViewThreadIds :: "split_view \<Rightarrow> string list" where
  "resolveSplitViewThreadIds splitView =
     js_dedup (cat_options (map leafThreadId (collectLeaves (viewRoot splitView))))"

definition resolveSplitViewPaneIdForThread :: "split_view \<Rightarrow> string option \<Rightarrow> string option" where
  "resolveSplitViewPaneIdForThread splitView threadId =
     (if \<not> truthy threadId then None
      else map_option leafPaneId
        (List.find (\<lambda>leaf. leafThreadId leaf = threadId) (collectLeaves (viewRoot splitView))))"

definition resolveSplitViewLeaves :: "split_view \<Rightarrow> leaf_pane list" where
  "resolveSplitViewLeaves splitView = collectLeaves (viewRoot splitView)"

definition selectSplitView :: "string option \<Rightarrow> split_store \<Rightarrow> split_view option" where
  "selectSplitView viewId store =
     (if truthy viewId then rec_get (splitViewsById store) (the viewId) else None)"

definition selectSplitViewIdForSourceThread :: "string option \<Rightarrow> split_store \<Rightarrow> string option" where
  "selectSplitViewIdForSourceThread threadId store =
     (if truthy threadId then rec_get (splitViewIdBySourceThreadId store) (the threadId) else None)"

definition resolvePreferredSplitViewIdForThread ::
    "split_view js_record \<Rightarrow> string js_record \<Rightarrow> string option \<Rightarrow> string option" where
  "resolvePreferredSplitViewIdForThread views index threadId =
     (if \<not> truthy threadId then None
      else
        let matchingSplitViews =
              filter (\<lambda>v. list_ex (\<lambda>leaf. leafThreadId leaf = threadId) (collectLeaves (viewRoot v)))
                (map snd views);
            sourceSplitViewId = rec_get index (the threadId)
        in if truthy sourceSplitViewId \<and>
              list_ex (\<lambda>v. Some (splitViewId v) = sourceSplitViewId) matchingSplitViews
           then sourceSplitViewId
           else
             let onlyMatchingSplitView =
                   (if length matchingSplitViews = 1 then list_get matchingSplitViews 0 else None)
             in map_option splitViewId onlyMatchingSplitView)"

section \<open>Operations of the store\<close>

definition setHasHydrated :: "split_store \<Rightarrow> bool \<Rightarrow> split_store" where
  "setHasHydrated state hydrated = state\<lparr>hasHydrated := hydrated\<rparr>"

definition createFromThread ::
    "split_store \<Rightarrow> string \<Rightarrow> string \<Rightarrow> view_ids \<Rightarrow> string \<Rightarrow> split_store \<times> string" where
  "createFromThread state source owner ids now =
     (let existingId = rec_get (splitViewIdBySourceThreadId state) source
      in if truthy existingId then (state, the existingId)
         else
           let splitView = buildSplitViewFromThread source owner ids now
           in (state\<lparr>splitViewsById := rec_set (splitViewId splitView) splitView (splitViewsById state),
                 splitViewIdBySourceThreadId :=
                   rec_set source (splitViewId splitView) (splitViewIdBySourceThreadId state)\<rparr>,
               splitViewId splitView))"

definition createFromDrop ::
    "split_store \<Rightarrow> string \<Rightarrow> string \<Rightarrow> string \<Rightarrow> split_dir \<Rightarrow> drop_side \<Rightarrow> view_ids \<Rightarrow> string \<Rightarrow>
     split_store \<times> string" where
  "createFromDrop state source owner dropped dir side ids now =
     (let existingId = rec_get (splitViewIdBySourceThreadId state) source;
          existing = (if truthy existingId then rec_get (splitViewsById state) (the existingId) else None);
          splitView = buildSplitViewFromDrop source owner dropped dir side existing ids now
      in (state\<lparr>splitViewsById := rec_set (splitViewId splitView) splitView (splitViewsById state),
            splitViewIdBySourceThreadId :=
              rec_set source (splitViewId splitView) (splitViewIdBySourceThreadId state)\<rparr>,
          splitViewId splitView))"

definition removeSplitView :: "split_store \<Rightarrow> string \<Rightarrow> split_store" where
  "removeSplitView state viewId =
     (case rec_get (splitViewsById state) viewId of
        None \<Rightarrow> state
      | Some existing \<Rightarrow>
          state\<lparr>splitViewsById := rec_delete viewId (splitViewsById state),
                splitViewIdBySourceThreadId :=
                  rec_delete (sourceThreadId existing) (splitViewIdBySourceThreadId state)\<rparr>)"

definition replacePaneThread ::
    "split_store \<Rightarrow> string \<Rightarrow> string \<Rightarrow> string option \<Rightarrow> string \<Rightarrow> split_store" where
  "replacePaneThread state viewId paneId threadId now =
     (case rec_get (splitViewsById state) viewId of
        None \<Rightarrow> state
      | Some existing \<Rightarrow>
          (case findLeafPaneById (viewRoot existing) paneId of
             None \<Rightarrow> state
           | Some leaf \<Rightarrow>
               if leafThreadId leaf = threadId then state
               else
                 let nextLeaf = leaf\<lparr>leafThreadId := threadId\<rparr>;
                     nextRoot = replacePaneInTree (viewRoot existing) paneId (LeafPane nextLeaf);
                     hasAnyThread = list_ex (\<lambda>l. leafThreadId l \<noteq> None) (collectLeaves nextRoot);
                     isSource = (leafThreadId leaf = Some (sourceThreadId existing));
                     nextSourceThreadId =
                       (if isSource
                        then resolveNextSourceThreadId nextRoot viewId (splitViewIdBySourceThreadId state)
                        else Some (sourceThreadId existing));
                     shouldRemoveSplitView = (\<not> hasAnyThread \<or> isSource \<and> nextSourceThreadId = None);
                     updated = existing\<lparr>sourceThreadId := nullish nextSourceThreadId (sourceThreadId existing),
                       viewRoot := nextRoot, updatedAt := now\<rparr>;
                     nextState = state\<lparr>splitViewsById := rec_set viewId updated (splitViewsById state)\<rparr>;
                     index = splitViewIdBySourceThreadId nextState;
                     unanchored =
                       (if rec_get index (sourceThreadId existing) = Some viewId
                        then rec_delete (sourceThreadId existing) index else index)
                 in if shouldRemoveSplitView
                    then nextState\<lparr>splitViewsById := rec_delete viewId (splitViewsById nextState),
                                   splitViewIdBySourceThreadId := unanchored\<rparr>
                    else if nextSourceThreadId = None \<or>
                            nextSourceThreadId = Some (sourceThreadId existing)
                    then nextState
                    else nextState\<lparr>splitViewIdBySourceThreadId :=
                           rec_set (the nextSourceThreadId) viewId unanchored\<rparr>))"

definition dropThreadOnPane ::
    "split_store \<Rightarrow> string \<Rightarrow> string \<Rightarrow> split_dir \<Rightarrow> drop_side \<Rightarrow> string \<Rightarrow> string \<Rightarrow> string \<Rightarrow> string \<Rightarrow>
     split_store \<times> bool" where
  "dropThreadOnPane state viewId targetPaneId dir side threadId newLeafId newSplitId now =
     (case rec_get (splitViewsById state) viewId of
        None \<Rightarrow> (state, False)
      | Some splitView \<Rightarrow>
          (case findLeafPaneById (viewRoot splitView) targetPaneId of
             None \<Rightarrow> (state, False)
           | Some targetLeaf \<Rightarrow>
               if list_ex (\<lambda>leaf. leafThreadId leaf = Some threadId) (collectLeaves (viewRoot splitView))
               then (state, False)
               else if \<not> canSubdividePane (viewRoot splitView) targetPaneId dir then (state, False)
               else
                 let newLeaf = LeafPane (createLeafPane (Some threadId) newLeafId);
                     newSplit =
                       (if side = FirstSide
                        then createSplitNode dir newLeaf (LeafPane targetLeaf) None newSplitId
                        else createSplitNode dir (LeafPane targetLeaf) newLeaf None newSplitId)
                 in (updateSplitView state viewId (\<lambda>current. Some (current
                       \<lparr>viewRoot := replacePaneInTree (viewRoot current) targetPaneId newSplit,
                        focusedPaneId := newLeafId, updatedAt := now\<rparr>)), True)))"

definition removePaneFromSplitView :: "split_store \<Rightarrow> string \<Rightarrow> string \<Rightarrow> string \<Rightarrow> split_store \<times> bool" where
  "removePaneFromSplitView state viewId paneId now =
     (case rec_get (splitViewsById state) viewId of
        None \<Rightarrow> (state, False)
      | Some current \<Rightarrow>
          (case findLeafPaneById (viewRoot current) paneId of
             None \<Rightarrow> (state, False)
           | Some targetLeaf \<Rightarrow>
               (let result = removeLeafByPaneId (viewRoot current) paneId;
                    isSource = (Some (sourceThreadId current) = leafThreadId targetLeaf);
                    index0 = splitViewIdBySourceThreadId state;
                    index = (if isSource then rec_delete (sourceThreadId current) index0 else index0);
                    dropped = state\<lparr>splitViewsById := rec_delete viewId (splitViewsById state)\<rparr>
                in if length (removedLeafIds result) = 0 then (state, True)
                   else case nextRoot result of
                     None \<Rightarrow> (dropped\<lparr>splitViewIdBySourceThreadId :=
                                rec_delete (sourceThreadId current) index\<rparr>, True)
                   | Some root' \<Rightarrow>
                       if \<not> list_ex (\<lambda>leaf. leafThreadId leaf \<noteq> None) (collectLeaves root')
                       then (dropped\<lparr>splitViewIdBySourceThreadId :=
                               rec_delete (sourceThreadId current) index\<rparr>, True)
                       else
                         let nextSourceThreadId =
                               (if isSource then resolveNextSourceThreadId root' viewId index
                                else Some (sourceThreadId current))
                         in if \<not> truthy nextSourceThreadId
                            then (dropped\<lparr>splitViewIdBySourceThreadId := index\<rparr>, True)
                            else
                              let source = the nextSourceThreadId;
                                  nextIndex = (if source \<noteq> sourceThreadId current
                                               then rec_set source viewId index else index);
                                  focused = (if focusedPaneId current \<notin> set (removedLeafIds result)
                                             then focusedPaneId current
                                             else resolveDefaultFocusLeafId root')
                              in (state\<lparr>splitViewsById := rec_set viewId
                                      (current\<lparr>sourceThreadId := source, viewRoot := root',
                                         focusedPaneId := focused, updatedAt := now\<rparr>)
                                      (splitViewsById state),
                                    splitViewIdBySourceThreadId := nextIndex\<rparr>, True))))"

definition setFocusedPane :: "split_store \<Rightarrow> string \<Rightarrow> string \<Rightarrow> string \<Rightarrow> split_store" where
  "setFocusedPane state viewId paneId now =
     updateSplitView state viewId (\<lambda>splitView.
       if focusedPaneId splitView = paneId then None
       else if findLeafPaneById (viewRoot splitView) paneId = None then None
       else Some (splitView\<lparr>focusedPaneId := paneId, updatedAt := now\<rparr>))"

definition setRatioForNode :: "split_store \<Rightarrow> string \<Rightarrow> string \<Rightarrow> jsnum \<Rightarrow> string \<Rightarrow> split_store" where
  "setRatioForNode state viewId splitNodeId ratio now =
     updateSplitView state viewId (\<lambda>splitView.
       case findSplitNodeById (viewRoot splitView) splitNodeId of
         None \<Rightarrow> None
       | Some node \<Rightarrow>
           if splitRatio node = clampRatio ratio then None
           else
             let nextNode = SplitPane (splitPaneId node) (splitDirection node) (firstPane node)
                   (secondPane node) (clampRatio ratio)
             in Some (splitView\<lparr>viewRoot := replacePaneInTree (viewRoot splitView) splitNodeId nextNode,
                        updatedAt := now\<rparr>))"

text \<open>A patch: \<open>None\<close> for a field the patch does not have.\<close>

record panel_patch =
  panelPatch :: "chat_right_panel option option"
  diffTurnIdPatch :: "string option option"
  diffFilePathPatch :: "string option option"
  hasOpenedPanelPatch :: "bool option"
  lastOpenPanelPatch :: "chat_right_panel option"

definition apply_patch :: "panel_state \<Rightarrow> panel_patch \<Rightarrow> panel_state" where
  "apply_patch p patch =
     \<lparr>panel = nullish (panelPatch patch) (panel p), diffTurnId = nullish (diffTurnIdPatch patch) (diffTurnId p),
      diffFilePath = nullish (diffFilePathPatch patch) (diffFilePath p),
      hasOpenedPanel = nullish (hasOpenedPanelPatch patch) (hasOpenedPanel p),
      lastOpenPanel = nullish (lastOpenPanelPatch patch) (lastOpenPanel p)\<rparr>"

definition setPanePanelState ::
    "split_store \<Rightarrow> string \<Rightarrow> string \<Rightarrow> panel_patch \<Rightarrow> string \<Rightarrow> split_store" where
  "setPanePanelState state viewId paneId patch now =
     updateSplitView state viewId (\<lambda>splitView.
       case findLeafPaneById (viewRoot splitView) paneId of
         None \<Rightarrow> None
       | Some leaf \<Rightarrow>
           let nextPanel = apply_patch (leafPanel leaf) patch
           in if panel (leafPanel leaf) = panel nextPanel \<and>
                 diffTurnId (leafPanel leaf) = diffTurnId nextPanel \<and>
                 diffFilePath (leafPanel leaf) = diffFilePath nextPanel \<and>
                 hasOpenedPanel (leafPanel leaf) = hasOpenedPanel nextPanel \<and>
                 lastOpenPanel (leafPanel leaf) = lastOpenPanel nextPanel
              then None
              else Some (splitView\<lparr>viewRoot := replacePaneInTree (viewRoot splitView) paneId
                           (LeafPane (leaf\<lparr>leafPanel := nextPanel\<rparr>)), updatedAt := now\<rparr>))"

text \<open>One view of the loop of \<open>removeThreadFromSplitViews\<close>, over the next views and index.\<close>

definition removeThreadFromView ::
    "string \<Rightarrow> string \<Rightarrow> string \<times> split_view \<Rightarrow> bool \<times> split_view js_record \<times> string js_record \<Rightarrow>
     bool \<times> split_view js_record \<times> string js_record" where
  "removeThreadFromView threadId now entry acc =
     (case (entry, acc) of ((viewId, splitView), (didChange, views, index)) \<Rightarrow>
       (let result = removeLeafByThreadId (viewRoot splitView) (Some threadId)
        in if length (removedLeafIds result) = 0 then (didChange, views, index)
           else case nextRoot result of
             None \<Rightarrow> (True, rec_delete viewId views, rec_delete (sourceThreadId splitView) index)
           | Some root' \<Rightarrow>
               if \<not> list_ex (\<lambda>leaf. leafThreadId leaf \<noteq> None) (collectLeaves root')
               then (True, rec_delete viewId views, rec_delete (sourceThreadId splitView) index)
               else
                 let focused = (if focusedPaneId splitView \<notin> set (removedLeafIds result)
                                then focusedPaneId splitView else resolveDefaultFocusLeafId root');
                     isSource = (sourceThreadId splitView = threadId);
                     nextSourceThreadId =
                       (if isSource then resolveNextSourceThreadId root' viewId index
                        else Some (sourceThreadId splitView));
                     index' = (if isSource then rec_delete (sourceThreadId splitView) index else index)
                 in if \<not> truthy nextSourceThreadId then (True, rec_delete viewId views, index')
                    else
                      let source = the nextSourceThreadId
                      in (True,
                          rec_set viewId (splitView\<lparr>sourceThreadId := source, viewRoot := root',
                            focusedPaneId := focused, updatedAt := now\<rparr>) views,
                          if source \<noteq> sourceThreadId splitView then rec_set source viewId index'
                          else index')))"

definition removeThreadFromSplitViews :: "split_store \<Rightarrow> string \<Rightarrow> string \<Rightarrow> split_store" where
  "removeThreadFromSplitViews state threadId now =
     (case fold (removeThreadFromView threadId now) (splitViewsById state)
             (False, splitViewsById state, splitViewIdBySourceThreadId state) of
        (didChange, views, index) \<Rightarrow>
          if \<not> didChange then state
          else state\<lparr>splitViewsById := views, splitViewIdBySourceThreadId := index\<rparr>)"

section \<open>Persistence\<close>

definition partializeSplitStore :: "split_store \<Rightarrow> split_view js_record \<times> string js_record" where
  "partializeSplitStore state = (splitViewsById state, splitViewIdBySourceThreadId state)"

definition mergeSplitStore :: "(split_view js_record \<times> string js_record) option \<Rightarrow> split_store \<Rightarrow> split_store" where
  "mergeSplitStore persisted current =
     (case persisted of
        None \<Rightarrow> current
      | Some (views, index) \<Rightarrow> current\<lparr>splitViewsById := views, splitViewIdBySourceThreadId := index\<rparr>)"

definition migrateSplitStore ::
    "(json \<Rightarrow> split_view js_record \<times> string js_record) \<Rightarrow> (json \<Rightarrow> legacy_view) \<Rightarrow> (nat \<Rightarrow> string) \<Rightarrow>
     string \<Rightarrow> json \<Rightarrow> nat \<Rightarrow> split_view js_record \<times> string js_record" where
  "migrateSplitStore castCurrent cast uuid now persisted version =
     (if version \<ge> 2 then castCurrent persisted
      else nullish (migrateLegacyPersistedState cast uuid now persisted) ([], []))"

definition initialSplitStore :: split_store where
  "initialSplitStore = \<lparr>hasHydrated = False, splitViewsById = [], splitViewIdBySourceThreadId = []\<rparr>"

end
