(* ===== verification/SplitStoreWf.thy ===== *)
theory SplitStoreWf
  imports SplitStore
begin

text \<open>
  The invariants of the split view store. \<open>split_inv\<close> holds whatever threads the panes are given:
  every view is a grid of panes with an existing focus and its source thread in one of its panes,
  and the index leads from a source thread to its own view. \<open>anchored\<close>, that every view is found
  from its source thread, needs that no pane shows a thread twice.
\<close>

section \<open>Invariants\<close>

definition view_ok :: "split_view \<Rightarrow> bool" where
  "view_ok v \<longleftrightarrow> wf_pane (viewRoot v) \<and> focusedPaneId v \<in> set (leaf_pane_ids (viewRoot v)) \<and>
     Some (sourceThreadId v) \<in> set (leaf_threads (viewRoot v)) \<and> sourceThreadId v \<noteq> []"

definition views_ok :: "split_view js_record \<Rightarrow> bool" where
  "views_ok views \<longleftrightarrow> distinct (map fst views) \<and>
     (\<forall>k v. rec_get views k = Some v \<longrightarrow> splitViewId v = k \<and> k \<noteq> [] \<and> view_ok v)"

definition index_sound :: "split_view js_record \<Rightarrow> string js_record \<Rightarrow> bool" where
  "index_sound views index \<longleftrightarrow>
     (\<forall>s k. rec_get index s = Some k \<longrightarrow> (\<exists>v. rec_get views k = Some v \<and> sourceThreadId v = s))"

definition maps_ok :: "split_view js_record \<Rightarrow> string js_record \<Rightarrow> bool" where
  "maps_ok views index \<longleftrightarrow> views_ok views \<and> index_sound views index"

definition split_inv :: "split_store \<Rightarrow> bool" where
  "split_inv st \<longleftrightarrow> maps_ok (splitViewsById st) (splitViewIdBySourceThreadId st)"

definition single_threads :: "pane \<Rightarrow> bool" where
  "single_threads tree \<longleftrightarrow> distinct (cat_options (leaf_threads tree))"

definition anchored_maps :: "split_view js_record \<Rightarrow> string js_record \<Rightarrow> bool" where
  "anchored_maps views index \<longleftrightarrow>
     (\<forall>k v. rec_get views k = Some v \<longrightarrow>
        rec_get index (sourceThreadId v) = Some k \<and> single_threads (viewRoot v))"

definition anchored :: "split_store \<Rightarrow> bool" where
  "anchored st \<longleftrightarrow> anchored_maps (splitViewsById st) (splitViewIdBySourceThreadId st)"

lemma maps_ok_D:
  assumes "maps_ok views index" "rec_get views k = Some v"
  shows "splitViewId v = k" "k \<noteq> []" "view_ok v" "distinct (pane_ids (viewRoot v))" "sourceThreadId v \<noteq> []"
  using assms by (auto simp: maps_ok_def views_ok_def view_ok_def wf_pane_def)

lemma maps_ok_index:
  "maps_ok views index \<Longrightarrow> rec_get index s = Some k \<Longrightarrow> \<exists>v. rec_get views k = Some v \<and> sourceThreadId v = s \<and> k \<noteq> []"
  unfolding maps_ok_def index_sound_def views_ok_def by blast

text \<open>A view is stored under its id, a view is dropped.\<close>

lemma store_view_ok:
  assumes "maps_ok views index" "view_ok v" "splitViewId v = k" "k \<noteq> []"
    and "\<And>s j. rec_get index' s = Some j \<Longrightarrow> j = k \<and> s = sourceThreadId v \<or> j \<noteq> k \<and> rec_get index s = Some j"
  shows "maps_ok (rec_set k v views) index'"
proof -
  have "views_ok (rec_set k v views)"
    using assms(1-4) by (auto simp: maps_ok_def views_ok_def rec_set_distinct rec_get_set)
  moreover have "index_sound (rec_set k v views) index'"
    unfolding index_sound_def
  proof (intro allI impI)
    fix s j assume "rec_get index' s = Some j"
    from assms(5) [OF this] maps_ok_index [OF assms(1)]
    show "\<exists>w. rec_get (rec_set k v views) j = Some w \<and> sourceThreadId w = s"
      by (auto simp: rec_get_set)
  qed
  ultimately show ?thesis by (simp add: maps_ok_def)
qed

lemma drop_view_ok:
  assumes "maps_ok views index"
    and "\<And>s j. rec_get index' s = Some j \<Longrightarrow> j \<noteq> k \<and> rec_get index s = Some j"
  shows "maps_ok (rec_delete k views) index'"
proof -
  have "views_ok (rec_delete k views)"
    using assms(1) by (auto simp: maps_ok_def views_ok_def rec_delete_distinct rec_get_delete)
  moreover have "index_sound (rec_delete k views) index'"
    unfolding index_sound_def
    using assms(2) maps_ok_index [OF assms(1)] by (fastforce simp: rec_get_delete)
  ultimately show ?thesis by (simp add: maps_ok_def)
qed

text \<open>What is left of the index when the entry of a view's source thread goes.\<close>

lemma index_without:
  assumes "maps_ok views index" "rec_get views k = Some v"
    and "rec_get (rec_delete (sourceThreadId v) index) s = Some j"
  shows "j \<noteq> k \<and> rec_get index s = Some j"
proof -
  have s: "s \<noteq> sourceThreadId v" "rec_get index s = Some j"
    using assms(3) by (simp_all add: rec_get_delete split: if_splits)
  with maps_ok_index [OF assms(1) s(2)] assms(2) show ?thesis by auto
qed

lemma index_keep:
  assumes "maps_ok views index" "rec_get views k = Some v" "rec_get index s = Some j"
  shows "j = k \<and> s = sourceThreadId v \<or> j \<noteq> k \<and> rec_get index s = Some j"
  using maps_ok_index [OF assms(1,3)] assms(2,3) by auto

lemma index_anchor:
  assumes "maps_ok views index" "rec_get views k = Some v"
    and "rec_get (rec_set s' k (rec_delete (sourceThreadId v) index)) s = Some j"
  shows "j = k \<and> s = s' \<or> j \<noteq> k \<and> rec_get index s = Some j"
  using assms(3) index_without [OF assms(1,2), of s j] by (auto simp: rec_get_set split: if_splits)

section \<open>Choosing the next source thread\<close>

lemma resolveNext_Some:
  assumes "resolveNextSourceThreadId tree k index = Some s"
  shows "s \<noteq> []" "Some s \<in> set (leaf_threads tree)"
    "\<not> truthy (rec_get index s) \<or> rec_get index s = Some k"
proof -
  obtain l where l: "List.find (\<lambda>leaf. truthy (leafThreadId leaf) \<and>
          (let existingSourceSplitId = rec_get index (the (leafThreadId leaf))
           in \<not> truthy existingSourceSplitId \<or> existingSourceSplitId = Some k)) (collectLeaves tree) = Some l"
    "leafThreadId l = Some s"
    using assms by (auto simp: resolveNextSourceThreadId_def split: option.splits)
  from find_Some_mem [OF l(1)] l(2) show "s \<noteq> []" "Some s \<in> set (leaf_threads tree)"
    "\<not> truthy (rec_get index s) \<or> rec_get index s = Some k"
    by (auto simp: Let_def image_iff intro: rev_bexI)
qed

lemma resolveNext_not_other:
  assumes "resolveNextSourceThreadId tree k index = Some s"
    and "\<And>s j. rec_get index s = Some j \<Longrightarrow> j \<noteq> []"
  shows "rec_get index s = None \<or> rec_get index s = Some k"
  using resolveNext_Some(3) [OF assms(1)] assms(2) [of s] by (cases "rec_get index s") auto

section \<open>Views after the changes of their tree\<close>

lemma clampRatio_clamped [simp]: "clamped (clampRatio r)"
  by (cases r) (auto simp: DEFAULT_RATIO_def MIN_RATIO_def MAX_RATIO_def min_def max_def)

lemma two_leaves_wf:
  "wf_pane (SplitPane i d (LeafPane a) (LeafPane b) (clampRatio r)) \<longleftrightarrow>
     distinct [leafPaneId a, leafPaneId b, i]"
  by (auto simp: wf_pane_def)

lemma createLeafPane_fields [simp]:
  "leafPaneId (createLeafPane t i) = i" "leafThreadId (createLeafPane t i) = t"
  by (simp_all add: createLeafPane_def)

lemma removed_view_ok:
  assumes v: "view_ok v" and rem: "removes P (viewRoot v) res" "nextRoot res = Some n'"
    and src: "Some s \<in> set (leaf_threads n')" "s \<noteq> []"
  shows "view_ok (v\<lparr>sourceThreadId := s, viewRoot := n',
     focusedPaneId := (if focusedPaneId v \<notin> set (removedLeafIds res) then focusedPaneId v
                       else resolveDefaultFocusLeafId n'), updatedAt := now\<rparr>)"
proof -
  have w: "wf_pane (viewRoot v)" using v by (simp add: view_ok_def)
  note r = removed_wf [OF rem(1) w rem(2)]
  have "focusedPaneId v \<in> set (leaf_pane_ids n')" if "focusedPaneId v \<notin> set (removedLeafIds res)"
  proof -
    obtain l where l: "l \<in> set (collectLeaves (viewRoot v))" "leafPaneId l = focusedPaneId v"
      using v by (auto simp: view_ok_def)
    have "leafPaneId l \<in> set (removedLeafIds res)" if "P l"
      using that rem(1) l(1) by (simp add: removes_def)
    with that l(2) have "\<not> P l" by auto
    with l r(2) show ?thesis by (auto simp: image_iff intro!: bexI [of _ l])
  qed
  moreover have "resolveDefaultFocusLeafId n' \<in> set (leaf_pane_ids n')"
    using collectLeaves_nonempty [of n']
    by (cases "collectLeaves n'") (simp_all add: resolveDefaultFocusLeafId_def list_get_def)
  ultimately show ?thesis using r(1) src by (simp add: view_ok_def)
qed

lemma other_thread_stays:
  assumes "removes P (viewRoot v) res" "nextRoot res = Some n'" "view_ok v"
    and "\<And>l. l \<in> set (collectLeaves (viewRoot v)) \<Longrightarrow> leafThreadId l = Some (sourceThreadId v) \<Longrightarrow> \<not> P l"
  shows "Some (sourceThreadId v) \<in> set (leaf_threads n')"
proof -
  obtain l where l: "l \<in> set (collectLeaves (viewRoot v))" "leafThreadId l = Some (sourceThreadId v)"
    using assms(3) by (auto simp: view_ok_def)
  with assms(4) have "\<not> P l" by simp
  moreover have "collectLeaves n' = filter (\<lambda>l. \<not> P l) (collectLeaves (viewRoot v))"
    using assms(1,2) by (simp add: removes_def)
  ultimately show ?thesis using l by (auto simp: image_iff intro!: bexI [of _ l])
qed

section \<open>Operations\<close>

text \<open>A new view under a fresh id, or the rebuilt view of a source thread.\<close>

lemma put_view_inv:
  assumes "split_inv st" "view_ok v" "splitViewId v = k" "k \<noteq> []"
    and "\<And>w. rec_get (splitViewsById st) k = Some w \<Longrightarrow> sourceThreadId w = sourceThreadId v"
  shows "split_inv (st\<lparr>splitViewsById := rec_set k v (splitViewsById st),
     splitViewIdBySourceThreadId := rec_set (sourceThreadId v) k (splitViewIdBySourceThreadId st)\<rparr>)"
proof -
  have m: "maps_ok (splitViewsById st) (splitViewIdBySourceThreadId st)" using assms(1) by (simp add: split_inv_def)
  have "j = k \<and> s = sourceThreadId v \<or> j \<noteq> k \<and> rec_get (splitViewIdBySourceThreadId st) s = Some j"
    if "rec_get (rec_set (sourceThreadId v) k (splitViewIdBySourceThreadId st)) s = Some j" for s j
    using that maps_ok_index [OF m, of s j] assms(5) by (auto simp: rec_get_set split: if_splits)
  from store_view_ok [OF m assms(2-4) this] show ?thesis by (simp add: split_inv_def)
qed

definition ids_ok :: "split_store \<Rightarrow> view_ids \<Rightarrow> bool" where
  "ids_ok st ids \<longleftrightarrow> distinct [newLeafA ids, newLeafB ids, newRoot ids] \<and> newView ids \<noteq> [] \<and>
     rec_get (splitViewsById st) (newView ids) = None"

lemma createFromThread_inv:
  assumes "split_inv st" "ids_ok st ids" "source \<noteq> []"
  shows "split_inv (fst (createFromThread st source owner ids now))"
proof (cases "truthy (rec_get (splitViewIdBySourceThreadId st) source)")
  case False
  let ?v = "buildSplitViewFromThread source owner ids now"
  have f: "splitViewId ?v = newView ids" "sourceThreadId ?v = source"
    by (simp_all add: buildSplitViewFromThread_def Let_def)
  have "view_ok ?v"
    using assms(2,3)
    by (auto simp: two_leaves_wf view_ok_def buildSplitViewFromThread_def Let_def ids_ok_def createSplitNode_def)
  from put_view_inv [OF assms(1) this f(1)] f(2) assms(2) False show ?thesis
    by (simp add: createFromThread_def Let_def f(1) ids_ok_def)
qed (simp add: createFromThread_def Let_def assms)

lemma buildDrop_ok:
  assumes "ids_ok st ids" "source \<noteq> []"
  shows "view_ok (buildSplitViewFromDrop source owner dropped dir side existing ids now)"
  using assms
  by (auto simp: two_leaves_wf view_ok_def buildSplitViewFromDrop_def Let_def ids_ok_def createSplitNode_def)

lemma buildDrop_source [simp]:
  "sourceThreadId (buildSplitViewFromDrop source owner dropped dir side existing ids now) = source"
  by (simp add: buildSplitViewFromDrop_def Let_def)

lemma createFromDrop_view:
  fixes source
  assumes "split_inv st" "ids_ok st ids"
  defines "existing \<equiv> (let i = rec_get (splitViewIdBySourceThreadId st) source
      in if truthy i then rec_get (splitViewsById st) (the i) else None)"
  shows "splitViewId (buildSplitViewFromDrop source owner dropped dir side existing ids now) = k \<Longrightarrow>
    k \<noteq> [] \<and> (\<forall>w. rec_get (splitViewsById st) k = Some w \<longrightarrow> sourceThreadId w = source \<and> existing = Some w)"
proof -
  have m: "maps_ok (splitViewsById st) (splitViewIdBySourceThreadId st)" using assms(1) by (simp add: split_inv_def)
  assume k: "splitViewId (buildSplitViewFromDrop source owner dropped dir side existing ids now) = k"
  show ?thesis
  proof (cases existing)
    case None
    then have "k = newView ids" using k by (simp add: buildSplitViewFromDrop_def Let_def)
    then show ?thesis using assms(2) by (simp add: ids_ok_def)
  next
    case (Some w)
    then obtain i where i: "rec_get (splitViewIdBySourceThreadId st) source = Some i"
      "rec_get (splitViewsById st) i = Some w"
      by (cases "rec_get (splitViewIdBySourceThreadId st) source") (auto simp: existing_def Let_def split: if_splits)
    have "k = i" using Some k maps_ok_D(1) [OF m i(2)] by (simp add: buildSplitViewFromDrop_def Let_def)
    with maps_ok_index [OF m i(1)] i Some show ?thesis by auto
  qed
qed

lemma createFromDrop_inv:
  assumes "split_inv st" "ids_ok st ids" "source \<noteq> []"
  shows "split_inv (fst (createFromDrop st source owner dropped dir side ids now))"
proof -
  define existing where "existing = (let i = rec_get (splitViewIdBySourceThreadId st) source
      in if truthy i then rec_get (splitViewsById st) (the i) else None)"
  let ?v = "buildSplitViewFromDrop source owner dropped dir side existing ids now"
  have s: "sourceThreadId ?v = source" by (simp add: buildSplitViewFromDrop_def Let_def)
  note cv = createFromDrop_view [OF assms(1,2) refl, of source owner dropped dir side now, folded existing_def]
  have "split_inv (st\<lparr>splitViewsById := rec_set (splitViewId ?v) ?v (splitViewsById st),
     splitViewIdBySourceThreadId := rec_set (sourceThreadId ?v) (splitViewId ?v) (splitViewIdBySourceThreadId st)\<rparr>)"
    using cv by (intro put_view_inv [OF assms(1) buildDrop_ok [OF assms(2,3)] refl]) auto
  then show ?thesis by (simp add: createFromDrop_def Let_def s existing_def)
qed

lemma removeSplitView_inv:
  assumes "split_inv st"
  shows "split_inv (removeSplitView st k)"
proof (cases "rec_get (splitViewsById st) k")
  case (Some v)
  have m: "maps_ok (splitViewsById st) (splitViewIdBySourceThreadId st)" using assms by (simp add: split_inv_def)
  have "maps_ok (rec_delete k (splitViewsById st)) (rec_delete (sourceThreadId v) (splitViewIdBySourceThreadId st))"
    by (rule drop_view_ok [OF m]) (rule index_without [OF m Some])
  with Some show ?thesis by (simp add: removeSplitView_def split_inv_def)
qed (simp add: removeSplitView_def assms)

lemma updateSplitView_inv:
  assumes "split_inv st"
    and "\<And>v w. rec_get (splitViewsById st) k = Some v \<Longrightarrow> view_ok v \<Longrightarrow> f v = Some w \<Longrightarrow>
      view_ok w \<and> splitViewId w = splitViewId v \<and> sourceThreadId w = sourceThreadId v"
  shows "split_inv (updateSplitView st k f)"
proof (cases "rec_get (splitViewsById st) k")
  case (Some v)
  have m: "maps_ok (splitViewsById st) (splitViewIdBySourceThreadId st)" using assms(1) by (simp add: split_inv_def)
  note d = maps_ok_D [OF m Some]
  show ?thesis
  proof (cases "f v")
    case None
    with Some assms(1) show ?thesis by (simp add: updateSplitView_def)
  next
    case (Some w)
    with assms(2) \<open>rec_get (splitViewsById st) k = Some v\<close> d(3)
    have w: "view_ok w" "splitViewId w = splitViewId v" "sourceThreadId w = sourceThreadId v" by blast+
    have "maps_ok (rec_set k w (splitViewsById st)) (splitViewIdBySourceThreadId st)"
      using index_keep [OF m \<open>rec_get (splitViewsById st) k = Some v\<close>] w(2,3) d(1,2)
      by (intro store_view_ok [OF m w(1)]) auto
    with Some \<open>rec_get (splitViewsById st) k = Some v\<close> show ?thesis
      by (simp add: updateSplitView_def split_inv_def)
  qed
qed (simp add: updateSplitView_def assms(1))

lemma findLeaf_id: "findLeafPaneById tree p = Some l \<Longrightarrow> p \<in> set (leaf_pane_ids tree)"
  using findLeaf_mem by fastforce

lemma focus_inv: "split_inv st \<Longrightarrow> split_inv (setFocusedPane st k p now)"
  unfolding setFocusedPane_def
  by (rule updateSplitView_inv)
    (auto simp: view_ok_def simp del: set_map dest: findLeaf_id split: if_splits)

lemma ratio_inv: "split_inv st \<Longrightarrow> split_inv (setRatioForNode st k p r now)"
  unfolding setRatioForNode_def
proof (rule updateSplitView_inv)
  fix v w
  assume v: "view_ok v" and w: "(case findSplitNodeById (viewRoot v) p of
         None \<Rightarrow> None
       | Some node \<Rightarrow>
           if splitRatio node = clampRatio r then None
           else
             let nextNode = SplitPane (splitPaneId node) (splitDirection node) (firstPane node)
                   (secondPane node) (clampRatio r)
             in Some (v\<lparr>viewRoot := replacePaneInTree (viewRoot v) p nextNode,
                        updatedAt := now\<rparr>)) = Some w"
  then obtain i d f s q where n: "findSplitNodeById (viewRoot v) p = Some (SplitPane i d f s q)"
    by (auto simp: findSplitNodeById_def split: option.splits pane.splits)
  then have "findPaneById (viewRoot v) p = Some (SplitPane i d f s q)"
    by (auto simp: findSplitNodeById_def split: option.splits pane.splits)
  then have "i = p" using findPaneById_Some [of "viewRoot v" p] by simp
  then have n': "findSplitNodeById (viewRoot v) p = Some (SplitPane p d f s q)" using n by simp
  have dist: "distinct (pane_ids (viewRoot v))" using v by (simp add: view_ok_def wf_pane_def)
  note rr = replace_ratio [OF dist n' clampRatio_clamped [of r]]
  with v w n' show "view_ok w \<and> splitViewId w = splitViewId v \<and> sourceThreadId w = sourceThreadId v"
    by (auto simp: view_ok_def wf_pane_def Let_def split: if_splits)
qed

text \<open>A leaf replaced by one of the same id.\<close>

lemma leaf_update_ok:
  assumes v: "view_ok v" and l: "findLeafPaneById (viewRoot v) p = Some l" and l': "leafPaneId l' = leafPaneId l"
    and src: "Some s \<in> set (leaf_threads (replacePaneInTree (viewRoot v) p (LeafPane l')))" "s \<noteq> []"
  shows "view_ok (v\<lparr>sourceThreadId := s, viewRoot := replacePaneInTree (viewRoot v) p (LeafPane l'), updatedAt := now\<rparr>)"
proof -
  have dist: "distinct (pane_ids (viewRoot v))" using v by (simp add: view_ok_def wf_pane_def)
  from findLeaf_mem [OF l] have m: "l \<in> set (collectLeaves (viewRoot v))" "p = leafPaneId l" by simp_all
  note r = replace_leaf [OF dist m(1) l', folded m(2)]
  have "leaf_pane_ids (replacePaneInTree (viewRoot v) p (LeafPane l')) = leaf_pane_ids (viewRoot v)"
    using r l' by (simp add: m(2))
  with v r src show ?thesis by (simp add: view_ok_def wf_pane_def)
qed

lemma panel_inv: "split_inv st \<Longrightarrow> split_inv (setPanePanelState st k p patch now)"
  unfolding setPanePanelState_def
proof (rule updateSplitView_inv)
  fix v w
  assume v: "view_ok v" and w: "(case findLeafPaneById (viewRoot v) p of
         None \<Rightarrow> None
       | Some leaf \<Rightarrow>
           let nextPanel = apply_patch (leafPanel leaf) patch
           in if panel (leafPanel leaf) = panel nextPanel \<and>
                 diffTurnId (leafPanel leaf) = diffTurnId nextPanel \<and>
                 diffFilePath (leafPanel leaf) = diffFilePath nextPanel \<and>
                 hasOpenedPanel (leafPanel leaf) = hasOpenedPanel nextPanel \<and>
                 lastOpenPanel (leafPanel leaf) = lastOpenPanel nextPanel
              then None
              else Some (v\<lparr>viewRoot := replacePaneInTree (viewRoot v) p
                           (LeafPane (leaf\<lparr>leafPanel := nextPanel\<rparr>)), updatedAt := now\<rparr>)) = Some w"
  then obtain l where l: "findLeafPaneById (viewRoot v) p = Some l"
    and w': "w = v\<lparr>viewRoot := replacePaneInTree (viewRoot v) p
      (LeafPane (l\<lparr>leafPanel := apply_patch (leafPanel l) patch\<rparr>)), updatedAt := now\<rparr>"
    by (auto simp: Let_def split: option.splits if_splits)
  have dist: "distinct (pane_ids (viewRoot v))" using v by (simp add: view_ok_def wf_pane_def)
  from findLeaf_mem [OF l] have m: "l \<in> set (collectLeaves (viewRoot v))" "p = leafPaneId l" by simp_all
  let ?l' = "l\<lparr>leafPanel := apply_patch (leafPanel l) patch\<rparr>"
  have "leaf_threads (replacePaneInTree (viewRoot v) p (LeafPane ?l')) = leaf_threads (viewRoot v)"
    using replace_leaf [OF dist m(1), of ?l'] leaf_pane_ids_distinct [OF dist] m
    by (auto simp: distinct_map inj_on_def)
  with v have "Some (sourceThreadId v) \<in> set (leaf_threads (replacePaneInTree (viewRoot v) p (LeafPane ?l')))"
    "sourceThreadId v \<noteq> []" by (simp_all add: view_ok_def)
  from leaf_update_ok [OF v l _ this, of now] show "view_ok w \<and> splitViewId w = splitViewId v \<and> sourceThreadId w = sourceThreadId v"
    by (simp add: w')
qed

section \<open>Operations that move the source thread\<close>

lemma other_leaf_thread:
  assumes v: "view_ok v" and l: "findLeafPaneById (viewRoot v) p = Some l"
    and ns: "leafThreadId l \<noteq> Some (sourceThreadId v)" and l': "leafPaneId l' = leafPaneId l"
  shows "Some (sourceThreadId v) \<in> set (leaf_threads (replacePaneInTree (viewRoot v) p (LeafPane l')))"
proof -
  have dist: "distinct (pane_ids (viewRoot v))" using v by (simp add: view_ok_def wf_pane_def)
  from findLeaf_mem [OF l] have m: "l \<in> set (collectLeaves (viewRoot v))" "p = leafPaneId l" by simp_all
  obtain s where s: "s \<in> set (collectLeaves (viewRoot v))" "leafThreadId s = Some (sourceThreadId v)"
    using v by (auto simp: view_ok_def)
  have "leafPaneId s \<noteq> leafPaneId l"
  proof
    assume "leafPaneId s = leafPaneId l"
    then have "s = l" using leaf_pane_ids_distinct [OF dist] s(1) m(1) by (auto simp: distinct_map inj_on_def)
    with s(2) ns show False by simp
  qed
  then have "s \<in> set (collectLeaves (replacePaneInTree (viewRoot v) p (LeafPane l')))"
    using replace_leaf [OF dist m(1) l'] s(1) m(2) by (auto simp: image_iff intro!: bexI [of _ s])
  with s(2) show ?thesis by force
qed

text \<open>
  The index without the entries of a view: what the operations leave before they re-anchor it.
\<close>

definition unanchors :: "string js_record \<Rightarrow> string \<Rightarrow> string js_record \<Rightarrow> bool" where
  "unanchors index k un \<longleftrightarrow>
     (\<forall>s j. rec_get un s = Some j \<longrightarrow> j \<noteq> k \<and> rec_get index s = Some j)"

lemma unanchors_delete:
  "maps_ok views index \<Longrightarrow> rec_get views k = Some v \<Longrightarrow> unanchors index k (rec_delete (sourceThreadId v) index)"
  using index_without by (auto simp: unanchors_def)

definition unanchor :: "string js_record \<Rightarrow> string \<Rightarrow> string \<Rightarrow> string js_record" where
  "unanchor index k s = (if rec_get index s = Some k then rec_delete s index else index)"

lemma unanchors_own:
  assumes "maps_ok views index" "rec_get views k = Some v"
  shows "unanchors index k (unanchor index k (sourceThreadId v))"
  using unanchors_delete [OF assms] index_keep [OF assms] by (auto simp: unanchors_def unanchor_def)

lemma anchor_moves:
  assumes m: "maps_ok views index" and v: "rec_get views k = Some v" and un: "unanchors index k un"
    and w: "view_ok w" "splitViewId w = k"
  shows "sourceThreadId w = sourceThreadId v \<Longrightarrow> maps_ok (rec_set k w views) index"
    and "maps_ok (rec_set k w views) (rec_set (sourceThreadId w) k un)"
    and "maps_ok (rec_delete k views) un"
proof -
  note k = maps_ok_D(2) [OF m v]
  show "maps_ok (rec_set k w views) index" if "sourceThreadId w = sourceThreadId v"
    using index_keep [OF m v] that by (intro store_view_ok [OF m w k]) auto
  show "maps_ok (rec_set k w views) (rec_set (sourceThreadId w) k un)"
    using un by (intro store_view_ok [OF m w k]) (auto simp: rec_get_set unanchors_def split: if_splits)
  show "maps_ok (rec_delete k views) un"
    using un by (intro drop_view_ok [OF m]) (auto simp: unanchors_def)
qed

text \<open>
  A pane gets another thread: the view goes when no source thread is left for it, keeps its source
  thread, or moves to the next one.
\<close>

definition replaced_view :: "split_view \<Rightarrow> string \<Rightarrow> leaf_pane \<Rightarrow> string \<Rightarrow> string \<Rightarrow> split_view" where
  "replaced_view v p l' s now =
     v\<lparr>sourceThreadId := s, viewRoot := replacePaneInTree (viewRoot v) p (LeafPane l'), updatedAt := now\<rparr>"

lemma replacePaneThread_outcome:
  fixes now
  assumes inv: "split_inv st" and v: "rec_get (splitViewsById st) k = Some v"
    and l: "findLeafPaneById (viewRoot v) p = Some l" "leafThreadId l \<noteq> t"
  defines "index \<equiv> splitViewIdBySourceThreadId st" and "l' \<equiv> l\<lparr>leafThreadId := t\<rparr>"
  defines "un \<equiv> unanchor index k (sourceThreadId v)"
  shows "replacePaneThread st k p t now = st\<lparr>splitViewsById := rec_delete k (splitViewsById st),
      splitViewIdBySourceThreadId := un\<rparr> \<or>
    (\<exists>s index'. view_ok (replaced_view v p l' s now) \<and>
      replacePaneThread st k p t now = st\<lparr>splitViewsById := rec_set k (replaced_view v p l' s now) (splitViewsById st),
        splitViewIdBySourceThreadId := index'\<rparr> \<and>
      (s = sourceThreadId v \<and> index' = index \<or>
       s \<noteq> sourceThreadId v \<and> rec_get index s \<in> {None, Some k} \<and> index' = rec_set s k un))"
proof -
  have m: "maps_ok (splitViewsById st) index" using inv by (simp add: split_inv_def index_def)
  note d = maps_ok_D [OF m v]
  have l'id: "leafPaneId l' = leafPaneId l" by (simp add: l'_def)
  define tree where "tree = replacePaneInTree (viewRoot v) p (LeafPane l')"
  define isSource where "isSource = (leafThreadId l = Some (sourceThreadId v))"
  define nxt where "nxt = (if isSource then resolveNextSourceThreadId tree k index else Some (sourceThreadId v))"
  have w: "view_ok (replaced_view v p l' s now)" if "nxt = Some s" for s
  proof -
    have "Some s \<in> set (leaf_threads tree) \<and> s \<noteq> []"
      using that resolveNext_Some [of tree k index s] other_leaf_thread [OF d(3) l(1) _ l'id] d(5)
      by (cases isSource) (simp_all add: nxt_def isSource_def tree_def)
    then show ?thesis using leaf_update_ok [OF d(3) l(1) l'id] by (simp add: tree_def replaced_view_def)
  qed
  define v' where "v' = replaced_view v p l' (nullish nxt (sourceThreadId v)) now"
  have r: "replacePaneThread st k p t now =
    (if \<not> list_ex (\<lambda>l. leafThreadId l \<noteq> None) (collectLeaves tree) \<or> isSource \<and> nxt = None
     then st\<lparr>splitViewsById := rec_delete k (splitViewsById st), splitViewIdBySourceThreadId := un\<rparr>
     else if nxt = None \<or> nxt = Some (sourceThreadId v)
     then st\<lparr>splitViewsById := rec_set k v' (splitViewsById st)\<rparr>
     else st\<lparr>splitViewsById := rec_set k v' (splitViewsById st),
            splitViewIdBySourceThreadId := rec_set (the nxt) k un\<rparr>)"
    using v l
    by (simp add: replacePaneThread_def Let_def l'_def tree_def index_def isSource_def nxt_def un_def v'_def
        replaced_view_def unanchor_def)
  have "\<not> isSource \<Longrightarrow> nxt \<noteq> None" by (simp add: nxt_def)
  then consider (drop) "\<not> list_ex (\<lambda>l. leafThreadId l \<noteq> None) (collectLeaves tree) \<or> isSource \<and> nxt = None"
    | (move) s where "nxt = Some s"
        "\<not> (\<not> list_ex (\<lambda>l. leafThreadId l \<noteq> None) (collectLeaves tree) \<or> isSource \<and> nxt = None)"
    by (metis not_None_eq)
  then show ?thesis
  proof cases
    case drop
    then have "replacePaneThread st k p t now = st\<lparr>splitViewsById := rec_delete k (splitViewsById st),
      splitViewIdBySourceThreadId := un\<rparr>" unfolding r by (rule if_P)
    then show ?thesis by (rule disjI1)
  next
    case move
    have v': "v' = replaced_view v p l' s now" using move(1) by (simp add: v'_def)
    show ?thesis
    proof (cases "s = sourceThreadId v")
      case True
      with move(1) have c: "nxt = None \<or> nxt = Some (sourceThreadId v)" by simp
      have "replacePaneThread st k p t now = st\<lparr>splitViewsById := rec_set k v' (splitViewsById st)\<rparr>"
        unfolding r if_not_P [OF move(2)] by (rule if_P [OF c])
      with w [OF move(1)] True show ?thesis
        by (intro disjI2 exI [of _ s] exI [of _ index]) (simp add: v' index_def)
    next
      case False
      with move(1) have c: "\<not> (nxt = None \<or> nxt = Some (sourceThreadId v))" by simp
      have "isSource" using False move(1) by (simp add: nxt_def split: if_splits)
      then have "resolveNextSourceThreadId tree k index = Some s" using move(1) by (simp add: nxt_def)
      then have "rec_get index s = None \<or> rec_get index s = Some k"
        by (rule resolveNext_not_other) (use maps_ok_index [OF m] in blast)
      then have "rec_get index s \<in> {None, Some k}" by blast
      moreover have "replacePaneThread st k p t now = st\<lparr>splitViewsById := rec_set k v' (splitViewsById st),
            splitViewIdBySourceThreadId := rec_set (the nxt) k un\<rparr>"
        unfolding r if_not_P [OF move(2)] by (rule if_not_P [OF c])
      ultimately show ?thesis using w [OF move(1)] False move(1)
        by (intro disjI2 exI [of _ s] exI [of _ "rec_set s k un"]) (simp add: v')
    qed
  qed
qed

lemma replacePaneThread_same:
  "(\<And>v l. rec_get (splitViewsById st) k = Some v \<Longrightarrow> findLeafPaneById (viewRoot v) p = Some l \<Longrightarrow> leafThreadId l = t) \<Longrightarrow>
   replacePaneThread st k p t now = st"
  by (auto simp: replacePaneThread_def split: option.split)

lemma replacePaneThread_inv:
  assumes inv: "split_inv st"
  shows "split_inv (replacePaneThread st k p t now)"
proof (cases "\<exists>v l. rec_get (splitViewsById st) k = Some v \<and> findLeafPaneById (viewRoot v) p = Some l \<and> leafThreadId l \<noteq> t")
  case True
  then obtain v l where v: "rec_get (splitViewsById st) k = Some v"
    and l: "findLeafPaneById (viewRoot v) p = Some l" "leafThreadId l \<noteq> t" by auto
  have m: "maps_ok (splitViewsById st) (splitViewIdBySourceThreadId st)" using inv by (simp add: split_inv_def)
  note d = maps_ok_D [OF m v] and un = unanchors_own [OF m v]
  from replacePaneThread_outcome [OF inv v l, of now] show ?thesis
  proof (elim disjE exE conjE)
    assume "replacePaneThread st k p t now = st\<lparr>splitViewsById := rec_delete k (splitViewsById st),
      splitViewIdBySourceThreadId := unanchor (splitViewIdBySourceThreadId st) k (sourceThreadId v)\<rparr>"
    moreover have "maps_ok (rec_delete k (splitViewsById st))
      (unanchor (splitViewIdBySourceThreadId st) k (sourceThreadId v))"
      using un by (intro drop_view_ok [OF m]) (simp add: unanchors_def)
    ultimately show ?thesis by (simp add: split_inv_def)
  next
    fix s index'
    let ?w = "replaced_view v p (l\<lparr>leafThreadId := t\<rparr>) s now"
    assume w: "view_ok ?w" and st: "replacePaneThread st k p t now =
        st\<lparr>splitViewsById := rec_set k ?w (splitViewsById st), splitViewIdBySourceThreadId := index'\<rparr>"
    have f: "splitViewId ?w = k" "sourceThreadId ?w = s" using d(1) by (simp_all add: replaced_view_def)
    note moves = anchor_moves [OF m v un w f(1), unfolded f(2)]
    { assume "s = sourceThreadId v" "index' = splitViewIdBySourceThreadId st"
      with moves(1) st show ?thesis by (simp add: split_inv_def) }
    { assume "index' = rec_set s k (unanchor (splitViewIdBySourceThreadId st) k (sourceThreadId v))"
      with moves(2) st show ?thesis by (simp add: split_inv_def) }
  qed
next
  case False
  then have "replacePaneThread st k p t now = st" by (intro replacePaneThread_same) blast
  with inv show ?thesis by simp
qed

section \<open>Adding and removing panes\<close>

definition fresh_pane_ids :: "split_store \<Rightarrow> string \<Rightarrow> string \<Rightarrow> string \<Rightarrow> bool" where
  "fresh_pane_ids st k i j \<longleftrightarrow> i \<noteq> j \<and>
     (case rec_get (splitViewsById st) k of
        None \<Rightarrow> True
      | Some v \<Rightarrow> i \<notin> set (pane_ids (viewRoot v)) \<and> j \<notin> set (pane_ids (viewRoot v)))"

lemma dropped_view_ok:
  assumes v: "view_ok v" and l: "findLeafPaneById (viewRoot v) p = Some l"
    and can: "canSubdividePane (viewRoot v) p dir"
    and new: "i \<noteq> j" "i \<notin> set (pane_ids (viewRoot v))" "j \<notin> set (pane_ids (viewRoot v))"
    and n: "n = createSplitNode dir (LeafPane (createLeafPane (Some t) i)) (LeafPane l) None j \<or>
      n = createSplitNode dir (LeafPane l) (LeafPane (createLeafPane (Some t) i)) None j"
  shows "view_ok (v\<lparr>viewRoot := replacePaneInTree (viewRoot v) p n, focusedPaneId := i, updatedAt := now\<rparr>) \<and>
    (\<exists>pre post. collectLeaves (viewRoot v) = pre @ l # post \<and>
      collectLeaves (replacePaneInTree (viewRoot v) p n) = pre @ collectLeaves n @ post)"
proof -
  let ?r = "viewRoot v" and ?new = "createLeafPane (Some t) i"
  have d: "distinct (pane_ids ?r)" "grid ?r" "clamped_ratios ?r" using v by (simp_all add: view_ok_def wf_pane_def)
  from findLeaf_mem [OF l] have m: "l \<in> set (collectLeaves ?r)" "p = leafPaneId l" by simp_all
  have lp: "p \<in> set (pane_ids ?r)" using leaf_id_in [OF m(1)] m(2) by simp
  have n': "set (pane_ids n) = {i, j, p}" "distinct (pane_ids n)" "clamped_ratios n"
    "set (collectLeaves n) = {?new, l}"
    using n new lp m(2) by (auto simp: createSplitNode_def)
  have "set (pane_ids n) \<inter> set (pane_ids ?r) = {p}" using n'(1) new lp by auto
  note r = replace_subtree [OF d(1) m(1) n'(2) this [unfolded m(2)], folded m(2)]
  have "grid (replacePaneInTree ?r p n)"
    using n subdivide_grid [OF d(1,2) m(1) can [unfolded m(2)], of "LeafPane ?new" "LeafPane l"]
      subdivide_grid [OF d(1,2) m(1) can [unfolded m(2)], of "LeafPane l" "LeafPane ?new"]
    by (auto simp: createSplitNode_def m(2))
  with r n'(3) d(3) have wf: "wf_pane (replacePaneInTree ?r p n)" by (simp add: wf_pane_def)
  obtain pre post where pp: "collectLeaves ?r = pre @ l # post"
    "collectLeaves (replacePaneInTree ?r p n) = pre @ collectLeaves n @ post" using r by blast
  have sub: "set (collectLeaves (replacePaneInTree ?r p n)) = insert ?new (set (collectLeaves ?r))"
    using pp n'(4) by auto
  have "i \<in> leafPaneId ` set (collectLeaves (replacePaneInTree ?r p n))"
    unfolding sub by simp
  moreover have "Some (sourceThreadId v) \<in> leafThreadId ` set (collectLeaves (replacePaneInTree ?r p n))"
    using v unfolding sub by (simp add: view_ok_def)
  ultimately show ?thesis using wf v pp by (simp add: view_ok_def) blast
qed

lemma dropThread_inv:
  assumes "split_inv st" "fresh_pane_ids st k i j"
  shows "split_inv (fst (dropThreadOnPane st k p dir side t i j now))"
proof (cases "rec_get (splitViewsById st) k")
  case (Some v)
  show ?thesis
  proof (cases "findLeafPaneById (viewRoot v) p")
    case None
    with Some assms(1) show ?thesis by (simp add: dropThreadOnPane_def)
  next
    case l: (Some l)
    have "split_inv (updateSplitView st k (\<lambda>current. Some (current
        \<lparr>viewRoot := replacePaneInTree (viewRoot current) p n, focusedPaneId := i, updatedAt := now\<rparr>)))"
      if can: "canSubdividePane (viewRoot v) p dir"
        and n: "n = createSplitNode dir (LeafPane (createLeafPane (Some t) i)) (LeafPane l) None j \<or>
          n = createSplitNode dir (LeafPane l) (LeafPane (createLeafPane (Some t) i)) None j" for n
    proof (rule updateSplitView_inv [OF assms(1)])
      fix v' w
      assume v': "rec_get (splitViewsById st) k = Some v'" "view_ok v'"
        and w: "Some (v'\<lparr>viewRoot := replacePaneInTree (viewRoot v') p n, focusedPaneId := i, updatedAt := now\<rparr>) = Some w"
      have "v' = v" using v'(1) Some by simp
      with v' w show "view_ok w \<and> splitViewId w = splitViewId v' \<and> sourceThreadId w = sourceThreadId v'"
        using dropped_view_ok [OF _ l can _ _ _ n, of now] assms(2) by (auto simp: fresh_pane_ids_def)
    qed
    then show ?thesis using Some l assms(1) by (simp add: dropThreadOnPane_def Let_def)
  qed
qed (simp add: dropThreadOnPane_def assms(1))

text \<open>What the removal of leaves does to the two maps, in every case of the code.\<close>

lemma removed_maps_ok:
  fixes v
  assumes m: "maps_ok views index" and v: "rec_get views k = Some v" and rem: "removes P (viewRoot v) res" "nextRoot res = Some n'"
    and src: "s \<noteq> [] \<and> Some s \<in> set (leaf_threads n')"
    and index': "index' = index \<and> s = sourceThreadId v \<or>
      index' = rec_delete (sourceThreadId v) index \<or> index' = rec_set s k (rec_delete (sourceThreadId v) index)"
  shows "maps_ok (rec_set k (v\<lparr>sourceThreadId := s, viewRoot := n',
     focusedPaneId := (if focusedPaneId v \<notin> set (removedLeafIds res) then focusedPaneId v
                       else resolveDefaultFocusLeafId n'), updatedAt := now\<rparr>) views) index'"
proof -
  note d = maps_ok_D [OF m v]
  have w: "view_ok (v\<lparr>sourceThreadId := s, viewRoot := n',
     focusedPaneId := (if focusedPaneId v \<notin> set (removedLeafIds res) then focusedPaneId v
                       else resolveDefaultFocusLeafId n'), updatedAt := now\<rparr>)" (is "view_ok ?w")
    using src by (intro removed_view_ok [OF d(3) rem]) simp_all
  have id: "splitViewId ?w = k" using d(1) by simp
  have "j = k \<and> a = s \<or> j \<noteq> k \<and> rec_get index a = Some j" if a: "rec_get index' a = Some j" for a j
    using index'
  proof (elim disjE conjE)
    assume "index' = index" "s = sourceThreadId v"
    with a index_keep [OF m v, of a j] show ?thesis by simp
  next
    assume "index' = rec_delete (sourceThreadId v) index"
    with a index_without [OF m v, of a j] show ?thesis by blast
  next
    assume "index' = rec_set s k (rec_delete (sourceThreadId v) index)"
    with a index_anchor [OF m v, of s a j] show ?thesis by blast
  qed
  then show ?thesis by (intro store_view_ok [OF m w id d(2)]) simp
qed

lemma dropped_maps_ok:
  assumes "maps_ok views index" "rec_get views k = Some v"
  shows "maps_ok (rec_delete k views) (rec_delete (sourceThreadId v) index)"
  by (rule drop_view_ok [OF assms(1)]) (rule index_without [OF assms])

text \<open>The new source thread after a removal.\<close>

lemma next_source_ok:
  assumes v: "view_ok v" and rem: "removes P (viewRoot v) res" "nextRoot res = Some n'"
    and keep: "\<not> isSource \<Longrightarrow> (\<And>l. l \<in> set (collectLeaves (viewRoot v)) \<Longrightarrow> leafThreadId l = Some (sourceThreadId v) \<Longrightarrow> \<not> P l)"
    and nxt: "nxt = (if isSource then resolveNextSourceThreadId n' k idx else Some (sourceThreadId v))"
    and t: "truthy nxt"
  shows "the nxt \<noteq> [] \<and> Some (the nxt) \<in> set (leaf_threads n')"
proof (cases isSource)
  case True
  with nxt t obtain s where "resolveNextSourceThreadId n' k idx = Some s"
    by (cases "resolveNextSourceThreadId n' k idx") simp_all
  with resolveNext_Some [OF this] nxt True show ?thesis by simp
next
  case False
  have "Some (sourceThreadId v) \<in> set (leaf_threads n')"
    using other_thread_stays [OF rem v] keep False by blast
  moreover have "sourceThreadId v \<noteq> []" using v by (simp add: view_ok_def)
  ultimately show ?thesis using nxt False by simp
qed

text \<open>
  What a removal of leaves does to the two maps: nothing, the view goes with its index entry, or
  the view shrinks and is re-anchored when its source thread went.
\<close>

definition shrunk_view :: "split_view \<Rightarrow> remove_leaf_result \<Rightarrow> pane \<Rightarrow> string \<Rightarrow> string \<Rightarrow> split_view" where
  "shrunk_view v res n' s now = v\<lparr>sourceThreadId := s, viewRoot := n',
     focusedPaneId := (if focusedPaneId v \<notin> set (removedLeafIds res) then focusedPaneId v
                       else resolveDefaultFocusLeafId n'), updatedAt := now\<rparr>"

lemma shrunk_view_fields [simp]:
  "sourceThreadId (shrunk_view v res n' s now) = s" "viewRoot (shrunk_view v res n' s now) = n'"
  "splitViewId (shrunk_view v res n' s now) = splitViewId v"
  by (simp_all add: shrunk_view_def)

definition source_moves :: "(leaf_pane \<Rightarrow> bool) \<Rightarrow> split_view \<Rightarrow> bool" where
  "source_moves P v \<longleftrightarrow>
     (\<exists>l\<in>set (collectLeaves (viewRoot v)). P l \<and> leafThreadId l = Some (sourceThreadId v))"

definition reanchored ::
    "bool \<Rightarrow> string \<Rightarrow> split_view \<Rightarrow> string \<Rightarrow> string js_record \<Rightarrow> string js_record \<Rightarrow> bool" where
  "reanchored moved k v s index index' \<longleftrightarrow>
     (s = sourceThreadId v \<and> index' = (if moved then rec_delete (sourceThreadId v) index else index) \<or>
      s \<noteq> sourceThreadId v \<and> (rec_get index s = None \<or> rec_get index s = Some k) \<and>
      index' = rec_set s k (rec_delete (sourceThreadId v) index))"

definition removal_outcome ::
    "(leaf_pane \<Rightarrow> bool) \<Rightarrow> string \<Rightarrow> split_view \<Rightarrow> string \<Rightarrow> split_view js_record \<times> string js_record \<Rightarrow>
     split_view js_record \<times> string js_record \<Rightarrow> bool" where
  "removal_outcome P k v now old new \<longleftrightarrow>
     (filter P (collectLeaves (viewRoot v)) = [] \<and> new = old) \<or>
     (filter P (collectLeaves (viewRoot v)) \<noteq> [] \<and>
      new = (rec_delete k (fst old), rec_delete (sourceThreadId v) (snd old))) \<or>
     (\<exists>res n' s. filter P (collectLeaves (viewRoot v)) \<noteq> [] \<and> removes P (viewRoot v) res \<and> nextRoot res = Some n' \<and> s \<noteq> [] \<and>
        Some s \<in> set (leaf_threads n') \<and> fst new = rec_set k (shrunk_view v res n' s now) (fst old) \<and>
        reanchored (source_moves P v) k v s (snd old) (snd new))"

lemma removal_maps_ok:
  assumes m: "maps_ok (fst old) (snd old)" and v: "rec_get (fst old) k = Some v"
    and out: "removal_outcome P k v now old new"
  shows "maps_ok (fst new) (snd new)"
  using out [unfolded removal_outcome_def]
proof (elim disjE exE conjE)
  assume "new = old" with m show ?thesis by simp
next
  assume "new = (rec_delete k (fst old), rec_delete (sourceThreadId v) (snd old))"
  with dropped_maps_ok [OF m v] show ?thesis by simp
next
  fix res n' s
  assume r: "removes P (viewRoot v) res" "nextRoot res = Some n'" and s: "s \<noteq> []" "Some s \<in> set (leaf_threads n')"
    and new: "fst new = rec_set k (shrunk_view v res n' s now) (fst old)"
      "reanchored (source_moves P v) k v s (snd old) (snd new)"
  have "snd new = snd old \<and> s = sourceThreadId v \<or> snd new = rec_delete (sourceThreadId v) (snd old) \<or>
      snd new = rec_set s k (rec_delete (sourceThreadId v) (snd old))"
    using new(2) by (auto simp: reanchored_def split: if_splits)
  from removed_maps_ok [OF m v r _ this, of now] s new(1) show ?thesis by (simp add: shrunk_view_def)
qed

lemma reanchors:
  assumes nxt: "nxt = (if moved then resolveNextSourceThreadId n' k idx else Some (sourceThreadId v))"
    and t: "truthy nxt" and idx: "\<And>s. s \<noteq> sourceThreadId v \<Longrightarrow> rec_get idx s = rec_get index s"
    and ids: "\<And>s j. rec_get index s = Some j \<Longrightarrow> j \<noteq> []"
  defines "kept \<equiv> (if moved then rec_delete (sourceThreadId v) index else index)"
  shows "reanchored moved k v (the nxt) index
    (if the nxt \<noteq> sourceThreadId v then rec_set (the nxt) k kept else kept)"
proof (cases "the nxt = sourceThreadId v")
  case True
  then show ?thesis by (simp add: reanchored_def kept_def)
next
  case False
  then have moved using nxt by (auto split: if_splits)
  with nxt t obtain s where s: "resolveNextSourceThreadId n' k idx = Some s"
    by (cases "resolveNextSourceThreadId n' k idx") simp_all
  have ns: "s \<noteq> sourceThreadId v" using False nxt s \<open>moved\<close> by simp
  have "\<not> truthy (rec_get index s) \<or> rec_get index s = Some k"
    using resolveNext_Some(3) [OF s] idx [OF ns] by simp
  then have "rec_get index s = None \<or> rec_get index s = Some k"
    using ids [of s] by (cases "rec_get index s") auto
  with False nxt s \<open>moved\<close> show ?thesis by (simp add: reanchored_def kept_def)
qed

lemma no_removed: "removes P n res \<Longrightarrow> length (removedLeafIds res) = 0 \<longleftrightarrow> filter P (collectLeaves n) = []"
  by (simp add: removes_def)

lemma removal_unchanged: "filter P (collectLeaves (viewRoot v)) = [] \<Longrightarrow> removal_outcome P k v now old old"
  by (simp add: removal_outcome_def)

lemma removal_dropped:
  "filter P (collectLeaves (viewRoot v)) \<noteq> [] \<Longrightarrow> removal_outcome P k v now (views, index) (rec_delete k views, rec_delete (sourceThreadId v) index)"
  by (simp add: removal_outcome_def)

lemma removePane_outcome:
  fixes now
  assumes inv: "split_inv st" and Some: "rec_get (splitViewsById st) k = Some v"
    and l: "findLeafPaneById (viewRoot v) p = Some l"
  defines "st' \<equiv> fst (removePaneFromSplitView st k p now)"
  shows "removal_outcome (\<lambda>l. leafPaneId l = p) k v now
      (splitViewsById st, splitViewIdBySourceThreadId st) (splitViewsById st', splitViewIdBySourceThreadId st')"
proof -
  let ?P = "\<lambda>l. leafPaneId l = p" and ?idx = "splitViewIdBySourceThreadId st" and ?s = "sourceThreadId v"
  have m: "maps_ok (splitViewsById st) ?idx" using inv by (simp add: split_inv_def)
  note d = maps_ok_D [OF m Some]
  define res where "res = removeLeafByPaneId (viewRoot v) p"
  define isSource where "isSource = (Some ?s = leafThreadId l)"
  define index where "index = (if isSource then rec_delete ?s ?idx else ?idx)"
  have rem: "removes ?P (viewRoot v) res" unfolding res_def by (rule remove_by_pane)
  have dd: "rec_delete ?s index = rec_delete ?s ?idx" by (simp add: index_def rec_delete_def)
  have same: "m = l" if "m \<in> set (collectLeaves (viewRoot v))" "leafPaneId m = p" for m
    using findLeaf_Some [OF d(4) that(1)] that(2) l by simp
  have "source_moves ?P v \<longleftrightarrow> isSource"
    using findLeaf_mem [OF l] by (auto simp: source_moves_def isSource_def dest: same)
  note moves = this
  show ?thesis
  proof (cases "nextRoot res")
    case None
    then have eq: "st' = (if length (removedLeafIds res) = 0 then st
        else st\<lparr>splitViewsById := rec_delete k (splitViewsById st),
          splitViewIdBySourceThreadId := rec_delete ?s ?idx\<rparr>)"
      using Some l
      by (simp add: st'_def removePaneFromSplitView_def Let_def res_def [symmetric] isSource_def [symmetric]
          index_def [symmetric] dd)
    show ?thesis
      unfolding eq using no_removed [OF rem] by (simp add: removal_unchanged removal_dropped)
  next
    case n': (Some n')
    define nxt where "nxt = (if isSource then resolveNextSourceThreadId n' k index else Some ?s)"
    define nidx where "nidx = (if the nxt \<noteq> ?s then rec_set (the nxt) k index else index)"
    have keep: "\<not> isSource \<Longrightarrow> m \<in> set (collectLeaves (viewRoot v)) \<Longrightarrow> leafThreadId m = Some ?s \<Longrightarrow> leafPaneId m \<noteq> p" for m
      using same by (auto simp: isSource_def)
    have eq: "st' =
      (if length (removedLeafIds res) = 0 then st
       else if \<not> list_ex (\<lambda>leaf. leafThreadId leaf \<noteq> None) (collectLeaves n')
       then st\<lparr>splitViewsById := rec_delete k (splitViewsById st), splitViewIdBySourceThreadId := rec_delete ?s ?idx\<rparr>
       else if \<not> truthy nxt
       then st\<lparr>splitViewsById := rec_delete k (splitViewsById st), splitViewIdBySourceThreadId := index\<rparr>
       else st\<lparr>splitViewsById := rec_set k (shrunk_view v res n' (the nxt) now) (splitViewsById st),
               splitViewIdBySourceThreadId := nidx\<rparr>)"
      unfolding st'_def removePaneFromSplitView_def Let_def Some l option.case res_def [symmetric] n'
        isSource_def [symmetric] index_def [symmetric] nxt_def [symmetric] dd nidx_def shrunk_view_def
      by simp
    have gone: "\<not> truthy nxt \<Longrightarrow> index = rec_delete ?s ?idx"
      using d(5) by (auto simp: nxt_def index_def split: if_splits)
    have re: "truthy nxt \<Longrightarrow> reanchored isSource k v (the nxt) ?idx nidx"
      unfolding nidx_def index_def
      by (rule reanchors [OF nxt_def]) (use maps_ok_index [OF m] in \<open>auto simp: index_def rec_get_delete\<close>)
    have last: "truthy nxt \<Longrightarrow> filter ?P (collectLeaves (viewRoot v)) \<noteq> [] \<Longrightarrow> removal_outcome ?P k v now (splitViewsById st, ?idx)
        (rec_set k (shrunk_view v res n' (the nxt) now) (splitViewsById st), nidx)"
      using rem n' next_source_ok [OF d(3) rem n' keep nxt_def] re moves
      unfolding removal_outcome_def fst_conv snd_conv by blast
    show ?thesis
      unfolding eq using no_removed [OF rem] gone last
      by (simp add: removal_unchanged removal_dropped)
  qed
qed

lemma removePane_inv:
  assumes inv: "split_inv st"
  shows "split_inv (fst (removePaneFromSplitView st k p now))"
proof (cases "\<exists>v l. rec_get (splitViewsById st) k = Some v \<and> findLeafPaneById (viewRoot v) p = Some l")
  case True
  then obtain v l where v: "rec_get (splitViewsById st) k = Some v" and l: "findLeafPaneById (viewRoot v) p = Some l"
    by blast
  from removal_maps_ok [OF _ _ removePane_outcome [OF inv v l]] inv v show ?thesis
    by (simp add: split_inv_def)
next
  case False
  then have "removePaneFromSplitView st k p now = (st, False)"
    by (auto simp: removePaneFromSplitView_def split: option.split)
  with inv show ?thesis by simp
qed

text \<open>One view of the loop of \<open>removeThreadFromSplitViews\<close>.\<close>

lemma removeThread_outcome:
  assumes m: "maps_ok views index" and v: "rec_get views k = Some v"
  shows "removal_outcome (\<lambda>l. leafThreadId l = Some t) k v now (views, index)
    (snd (removeThreadFromView t now (k, v) (c, views, index))) \<and>
    (\<not> fst (removeThreadFromView t now (k, v) (c, views, index)) \<longrightarrow>
      removeThreadFromView t now (k, v) (c, views, index) = (False, views, index))"
proof -
  let ?P = "\<lambda>l. leafThreadId l = Some t" and ?s = "sourceThreadId v"
  note d = maps_ok_D [OF m v]
  define res where "res = removeLeafByThreadId (viewRoot v) (Some t)"
  define isSource where "isSource = (?s = t)"
  define kept where "kept = (if isSource then rec_delete ?s index else index)"
  have rem: "removes ?P (viewRoot v) res" unfolding res_def by (rule remove_by_thread)
  show ?thesis
  proof (cases "nextRoot res")
    case None
    then have "removeThreadFromView t now (k, v) (c, views, index) =
        (if length (removedLeafIds res) = 0 then (c, views, index)
         else (True, rec_delete k views, rec_delete ?s index))"
      by (simp add: removeThreadFromView_def Let_def res_def [symmetric])
    then show ?thesis using no_removed [OF rem] by (simp add: removal_outcome_def)
  next
    case n': (Some n')
    define nxt where "nxt = (if isSource then resolveNextSourceThreadId n' k index else Some ?s)"
    define nidx where "nidx = (if the nxt \<noteq> ?s then rec_set (the nxt) k kept else kept)"
    have keep: "\<not> isSource \<Longrightarrow> m \<in> set (collectLeaves (viewRoot v)) \<Longrightarrow> leafThreadId m = Some ?s \<Longrightarrow> leafThreadId m \<noteq> Some t" for m
      by (auto simp: isSource_def)
    have moves: "source_moves ?P v \<longleftrightarrow> isSource"
      using d(3) by (auto simp: source_moves_def isSource_def view_ok_def)
    have eq: "removeThreadFromView t now (k, v) (c, views, index) =
      (if length (removedLeafIds res) = 0 then (c, views, index)
       else if \<not> list_ex (\<lambda>leaf. leafThreadId leaf \<noteq> None) (collectLeaves n')
       then (True, rec_delete k views, rec_delete ?s index)
       else if \<not> truthy nxt then (True, rec_delete k views, kept)
       else (True, rec_set k (shrunk_view v res n' (the nxt) now) views, nidx))"
      unfolding removeThreadFromView_def Let_def prod.case option.case res_def [symmetric] n'
        isSource_def [symmetric] nxt_def [symmetric] nidx_def kept_def shrunk_view_def
      by simp
    have gone: "\<not> truthy nxt \<Longrightarrow> kept = rec_delete ?s index"
      using d(5) by (auto simp: nxt_def kept_def split: if_splits)
    have re: "truthy nxt \<Longrightarrow> reanchored isSource k v (the nxt) index nidx"
      unfolding nidx_def kept_def by (rule reanchors [OF nxt_def]) (use maps_ok_index [OF m] in auto)
    have last: "truthy nxt \<Longrightarrow> filter ?P (collectLeaves (viewRoot v)) \<noteq> [] \<Longrightarrow> removal_outcome ?P k v now (views, index)
        (rec_set k (shrunk_view v res n' (the nxt) now) views, nidx)"
      using rem n' next_source_ok [OF d(3) rem n' keep nxt_def] re moves
      unfolding removal_outcome_def fst_conv snd_conv by blast
    show ?thesis
      unfolding eq using no_removed [OF rem] gone last
      by (simp add: removal_unchanged removal_dropped)
  qed
qed

lemma removal_frame: "removal_outcome P k v now old new \<Longrightarrow> j \<noteq> k \<Longrightarrow> rec_get (fst new) j = rec_get (fst old) j"
  by (auto simp: removal_outcome_def rec_get_delete rec_get_set)

text \<open>The loop keeps a property of the two maps that every removal keeps.\<close>

lemma removeThread_loop:
  assumes keep: "\<And>k v old new. Q old \<Longrightarrow> maps_ok (fst old) (snd old) \<Longrightarrow> rec_get (fst old) k = Some v \<Longrightarrow>
      removal_outcome (\<lambda>l. leafThreadId l = Some t) k v now old new \<Longrightarrow> Q new"
  shows "distinct (map fst es) \<Longrightarrow> maps_ok views index \<Longrightarrow> Q (views, index) \<Longrightarrow>
    (\<And>k v. (k, v) \<in> set es \<Longrightarrow> rec_get views k = Some v) \<Longrightarrow>
    case fold (removeThreadFromView t now) es (c, views, index) of (c', views', index') \<Rightarrow>
      maps_ok views' index' \<and> Q (views', index') \<and>
      (\<forall>k v'. (k \<notin> fst ` set es \<longrightarrow> rec_get views' k = rec_get views k) \<and>
        (k \<in> fst ` set es \<longrightarrow> rec_get views' k = Some v' \<longrightarrow> Some t \<notin> set (leaf_threads (viewRoot v')))) \<and>
      (\<not> c' \<longrightarrow> views' = views \<and> index' = index)"
proof (induction es arbitrary: c views index)
  case (Cons e es)
  obtain k v where e: "e = (k, v)" by (cases e)
  obtain c1 views1 index1 where r: "removeThreadFromView t now e (c, views, index) = (c1, views1, index1)"
    by (cases "removeThreadFromView t now e (c, views, index)")
  have v: "rec_get views k = Some v" using Cons.prems(4) e by simp
  note out = removeThread_outcome [OF Cons.prems(2) v, of t now c, folded e, unfolded r]
  have o: "removal_outcome (\<lambda>l. leafThreadId l = Some t) k v now (views, index) (views1, index1)" using out by simp
  have m1: "maps_ok views1 index1" using removal_maps_ok [OF _ _ o] Cons.prems(2) v by simp
  have q1: "Q (views1, index1)" using keep [OF Cons.prems(3) _ _ o] Cons.prems(2) v by simp
  have frame: "j \<noteq> k \<Longrightarrow> rec_get views1 j = rec_get views j" for j using removal_frame [OF o] by simp
  have gone: "Some t \<notin> set (leaf_threads (viewRoot w))" if w: "rec_get views1 k = Some w" for w
  proof
    assume t: "Some t \<in> set (leaf_threads (viewRoot w))"
    from o [unfolded removal_outcome_def] show False
    proof (elim disjE exE conjE)
      assume "filter (\<lambda>l. leafThreadId l = Some t) (collectLeaves (viewRoot v)) = []"
        "(views1, index1) = (views, index)"
      with w t v show False by (auto simp: filter_empty_conv)
    next
      assume "(views1, index1) = (rec_delete k (fst (views, index)), rec_delete (sourceThreadId v) (snd (views, index)))"
      with w show False by (simp add: rec_get_delete)
    next
      fix res n' s
      assume x: "removes (\<lambda>l. leafThreadId l = Some t) (viewRoot v) res" "nextRoot res = Some n'"
        "fst (views1, index1) = rec_set k (shrunk_view v res n' s now) (fst (views, index))"
      then have "viewRoot w = n'" using w by (auto simp: rec_get_set)
      with t x(1,2) show False by (auto simp: removes_def)
    qed
  qed
  have rest: "rec_get views1 j = Some w" if "(j, w) \<in> set es" for j w
  proof -
    have "j \<noteq> k" using Cons.prems(1) e that by force
    with frame Cons.prems(4) that show ?thesis by simp
  qed
  have "\<not> c1 \<Longrightarrow> views1 = views \<and> index1 = index" using out by simp
  moreover have "c1 \<Longrightarrow> fst (fold (removeThreadFromView t now) es (c1, views1, index1))"
  proof -
    have "fst (fold (removeThreadFromView t now) xs (True, vs, is))" for xs vs "is"
    proof (induction xs arbitrary: vs "is")
      case (Cons x xs)
      have "fst (removeThreadFromView t now x (True, vs, is))"
        by (auto simp: removeThreadFromView_def Let_def split: prod.split option.split)
      then obtain vs' is' where "removeThreadFromView t now x (True, vs, is) = (True, vs', is')"
        by (cases "removeThreadFromView t now x (True, vs, is)") simp
      with Cons show ?case by simp
    qed simp
    then show "c1 \<Longrightarrow> ?thesis" by simp
  qed
  moreover have "distinct (map fst es)" "k \<notin> fst ` set es" using Cons.prems(1) e by auto
  moreover note Cons.IH [OF _ m1 q1 rest, of c1]
  ultimately show ?case
    using frame gone e r
    by (cases c1; cases "fold (removeThreadFromView t now) es (c1, views1, index1)") (auto split: prod.splits)
qed simp

lemma removeThread_views:
  assumes inv: "split_inv st"
    and keep: "\<And>k v old new. Q old \<Longrightarrow> maps_ok (fst old) (snd old) \<Longrightarrow> rec_get (fst old) k = Some v \<Longrightarrow>
      removal_outcome (\<lambda>l. leafThreadId l = Some t) k v now old new \<Longrightarrow> Q new"
    and Q: "Q (splitViewsById st, splitViewIdBySourceThreadId st)"
  shows "split_inv (removeThreadFromSplitViews st t now) \<and>
    Q (splitViewsById (removeThreadFromSplitViews st t now),
       splitViewIdBySourceThreadId (removeThreadFromSplitViews st t now)) \<and>
    (\<forall>k v. rec_get (splitViewsById (removeThreadFromSplitViews st t now)) k = Some v \<longrightarrow>
       Some t \<notin> set (leaf_threads (viewRoot v)))"
proof -
  let ?views = "splitViewsById st" and ?index = "splitViewIdBySourceThreadId st"
  have m: "maps_ok ?views ?index" using inv by (simp add: split_inv_def)
  have d: "distinct (map fst ?views)" using m by (simp add: maps_ok_def views_ok_def)
  obtain c views index where f: "fold (removeThreadFromView t now) ?views (False, ?views, ?index) = (c, views, index)"
    by (cases "fold (removeThreadFromView t now) ?views (False, ?views, ?index)")
  have l: "maps_ok views index \<and> Q (views, index) \<and>
      (\<forall>k v'. (k \<notin> fst ` set ?views \<longrightarrow> rec_get views k = rec_get ?views k) \<and>
        (k \<in> fst ` set ?views \<longrightarrow> rec_get views k = Some v' \<longrightarrow> Some t \<notin> set (leaf_threads (viewRoot v')))) \<and>
      (\<not> c \<longrightarrow> views = ?views \<and> index = ?index)"
    using removeThread_loop [where Q = Q and t = t and now = now and c = False, OF keep d m Q] f d by simp
  have "Some t \<notin> set (leaf_threads (viewRoot v))" if "rec_get views k = Some v" for k v
  proof (cases "k \<in> fst ` set ?views")
    case False
    then have "rec_get ?views k = None" by (simp add: map_of_eq_None_iff)
    with l False that show ?thesis by fastforce
  qed (use l that in blast)
  with l m Q show ?thesis
    by (cases c) (simp_all add: removeThreadFromSplitViews_def f split_inv_def)
qed

lemma removeThread_inv: "split_inv st \<Longrightarrow> split_inv (removeThreadFromSplitViews st t now)"
  using removeThread_views [where Q = "\<lambda>_. True"] by simp

section \<open>Actions\<close>

text \<open>One constructor for every operation of the store, with the ids and the time it draws.\<close>

datatype split_action =
    CreateFromThread string string view_ids string
  | CreateFromDrop string string string split_dir drop_side view_ids string
  | RemoveSplitView string
  | ReplacePaneThread string string "string option" string
  | DropThreadOnPane string string split_dir drop_side string string string string
  | RemovePane string string string
  | SetFocusedPane string string string
  | SetRatioForNode string string jsnum string
  | SetPanePanelState string string panel_patch string
  | RemoveThreadFromSplitViews string string
  | SetHasHydrated bool

fun split_step :: "split_store \<Rightarrow> split_action \<Rightarrow> split_store" where
  "split_step st (CreateFromThread source owner ids now) = fst (createFromThread st source owner ids now)"
| "split_step st (CreateFromDrop source owner dropped dir side ids now) =
     fst (createFromDrop st source owner dropped dir side ids now)"
| "split_step st (RemoveSplitView k) = removeSplitView st k"
| "split_step st (ReplacePaneThread k p t now) = replacePaneThread st k p t now"
| "split_step st (DropThreadOnPane k p dir side t i j now) = fst (dropThreadOnPane st k p dir side t i j now)"
| "split_step st (RemovePane k p now) = fst (removePaneFromSplitView st k p now)"
| "split_step st (SetFocusedPane k p now) = setFocusedPane st k p now"
| "split_step st (SetRatioForNode k p r now) = setRatioForNode st k p r now"
| "split_step st (SetPanePanelState k p patch now) = setPanePanelState st k p patch now"
| "split_step st (RemoveThreadFromSplitViews t now) = removeThreadFromSplitViews st t now"
| "split_step st (SetHasHydrated b) = setHasHydrated st b"

text \<open>What \<open>randomUUID\<close> gives: ids not in use; a source thread has a name.\<close>

fun split_ok :: "split_store \<Rightarrow> split_action \<Rightarrow> bool" where
  "split_ok st (CreateFromThread source owner ids now) = (source \<noteq> [] \<and> ids_ok st ids)"
| "split_ok st (CreateFromDrop source owner dropped dir side ids now) = (source \<noteq> [] \<and> ids_ok st ids)"
| "split_ok st (DropThreadOnPane k p dir side t i j now) = fresh_pane_ids st k i j"
| "split_ok st _ = True"

interpretation split_views: invariant_store split_step split_ok split_inv
proof
  fix st a
  assume inv: "split_inv st" and ok: "split_ok st a"
  from inv have "split_inv (setHasHydrated st b)" for b by (simp add: setHasHydrated_def split_inv_def)
  with inv ok show "split_inv (split_step st a)"
    by (cases a)
      (simp_all add: createFromThread_inv createFromDrop_inv removeSplitView_inv replacePaneThread_inv
        dropThread_inv removePane_inv focus_inv ratio_inv panel_inv removeThread_inv)
qed

lemma initial_split_inv [simp]: "split_inv initialSplitStore"
  by (simp add: initialSplitStore_def split_inv_def maps_ok_def views_ok_def index_sound_def)

end
