(* ===== verification/SplitAnchor.thy ===== *)
theory SplitAnchor
  imports SplitStoreWf
begin

text \<open>
  The completeness of the index of split views: as long as no pane is given a thread that another
  pane of its view shows, every view is found from its source thread. The chat route keeps this
  discipline: its thread picker focuses the pane that shows the picked thread already.
\<close>

section \<open>Threads shown once\<close>

lemma distinct_cat_options:
  "distinct ls \<Longrightarrow> distinct (cat_options (map f ls)) \<longleftrightarrow>
     (\<forall>l\<in>set ls. \<forall>m\<in>set ls. f l = f m \<longrightarrow> f l \<noteq> None \<longrightarrow> l = m)"
proof (induction ls)
  case (Cons x ls)
  show ?case
  proof (cases "f x")
    case None
    with Cons show ?thesis by auto
  next
    case (Some y)
    have "y \<notin> set (cat_options (map f ls)) \<longleftrightarrow> (\<forall>m\<in>set ls. f m \<noteq> Some y)"
      by (auto simp: set_cat_options image_iff)
    moreover have "x \<notin> set ls" using Cons.prems by simp
    ultimately have "distinct (cat_options (map f (x # ls))) \<longleftrightarrow>
        (\<forall>m\<in>set ls. f m \<noteq> Some y) \<and> distinct (cat_options (map f ls))"
      using Some by simp
    then show ?thesis using Cons Some \<open>x \<notin> set ls\<close> by auto
  qed
qed simp

lemma single_threads_iff:
  assumes "distinct (pane_ids tree)"
  shows "single_threads tree \<longleftrightarrow>
     (\<forall>l\<in>set (collectLeaves tree). \<forall>m\<in>set (collectLeaves tree).
        leafThreadId l = leafThreadId m \<longrightarrow> leafThreadId l \<noteq> None \<longrightarrow> l = m)"
proof -
  have "distinct (collectLeaves tree)"
    using leaf_pane_ids_distinct [OF assms] by (simp add: distinct_map)
  then show ?thesis by (simp add: single_threads_def distinct_cat_options)
qed

lemma single_threads_filter:
  assumes "single_threads tree" "collectLeaves n' = filter P (collectLeaves tree)"
  shows "single_threads n'"
proof -
  have "distinct (cat_options (map f ls)) \<Longrightarrow> distinct (cat_options (map f (filter P ls)))" for f :: "leaf_pane \<Rightarrow> string option" and ls
  proof (induction ls)
    case (Cons x ls)
    have "set (cat_options (map f (filter P ls))) \<subseteq> set (cat_options (map f ls))"
      by (auto simp: set_cat_options)
    with Cons show ?case by (cases "f x") auto
  qed simp
  with assms show ?thesis by (simp add: single_threads_def)
qed

lemma replaced_single:
  assumes v: "view_ok v" "single_threads (viewRoot v)" and l: "findLeafPaneById (viewRoot v) p = Some l"
    and t: "\<And>m. t \<noteq> None \<Longrightarrow> m \<in> set (collectLeaves (viewRoot v)) \<Longrightarrow> leafThreadId m = t \<Longrightarrow> leafPaneId m = p"
  shows "single_threads (replacePaneInTree (viewRoot v) p (LeafPane (l\<lparr>leafThreadId := t\<rparr>)))"
    (is "single_threads ?tree")
proof -
  have d: "distinct (pane_ids (viewRoot v))" using v by (simp add: view_ok_def wf_pane_def)
  from findLeaf_mem [OF l] have m: "l \<in> set (collectLeaves (viewRoot v))" "p = leafPaneId l" by simp_all
  let ?l' = "l\<lparr>leafThreadId := t\<rparr>"
  note r = replace_leaf [OF d m(1), of ?l', folded m(2)]
  have d': "distinct (pane_ids ?tree)" using r d m(2) by simp
  have old: "a = b" if "a \<in> set (collectLeaves (viewRoot v))" "b \<in> set (collectLeaves (viewRoot v))"
    "leafThreadId a = leafThreadId b" "leafThreadId a \<noteq> None" for a b
    using v(2) that by (simp add: single_threads_iff [OF d])
  have mem: "a = ?l' \<or> a \<in> set (collectLeaves (viewRoot v)) \<and> leafPaneId a \<noteq> p"
    if "a \<in> set (collectLeaves ?tree)" for a
    using that r m(2) by auto
  show ?thesis
    unfolding single_threads_iff [OF d']
  proof (intro ballI impI)
    fix a b
    assume ab: "a \<in> set (collectLeaves ?tree)" "b \<in> set (collectLeaves ?tree)"
      "leafThreadId a = leafThreadId b" "leafThreadId a \<noteq> None"
    have other: "leafThreadId c \<noteq> t" if "c \<in> set (collectLeaves (viewRoot v))" "leafPaneId c \<noteq> p" "t \<noteq> None" for c
      using t [OF that(3,1)] that(2) by blast
    from mem [OF ab(1)] mem [OF ab(2)] show "a = b"
      using ab(3,4) old other by (elim disjE conjE) auto
  qed
qed

section \<open>Keeping the index complete\<close>

lemma anchored_D:
  "anchored_maps views index \<Longrightarrow> rec_get views k = Some v \<Longrightarrow>
     rec_get index (sourceThreadId v) = Some k \<and> single_threads (viewRoot v)"
  by (simp add: anchored_maps_def)

lemma anchor_delete:
  assumes a: "anchored_maps views index" and v: "rec_get views k = Some v"
  shows "anchored_maps (rec_delete k views) (rec_delete (sourceThreadId v) index)"
  unfolding anchored_maps_def
proof (intro allI impI)
  fix j w
  assume "rec_get (rec_delete k views) j = Some w"
  then have j: "j \<noteq> k" "rec_get views j = Some w" by (simp_all add: rec_get_delete split: if_splits)
  with anchored_D [OF a v] anchored_D [OF a j(2)]
  show "rec_get (rec_delete (sourceThreadId v) index) (sourceThreadId w) = Some j \<and> single_threads (viewRoot w)"
    by (auto simp: rec_get_delete)
qed

lemma anchor_keep:
  assumes a: "anchored_maps views index" and v: "rec_get views k = Some v"
    and w: "single_threads (viewRoot w)" "sourceThreadId w = sourceThreadId v"
  shows "anchored_maps (rec_set k w views) index"
  using a anchored_D [OF a v] w by (auto simp: anchored_maps_def rec_get_set)

lemma anchor_move:
  assumes a: "anchored_maps views index" and v: "rec_get views k = Some v"
    and w: "single_threads (viewRoot w)" "sourceThreadId w = s" and s: "rec_get index s \<in> {None, Some k}"
  shows "anchored_maps (rec_set k w views) (rec_set s k (rec_delete (sourceThreadId v) index))"
  unfolding anchored_maps_def
proof (intro allI impI)
  fix j u
  assume u: "rec_get (rec_set k w views) j = Some u"
  show "rec_get (rec_set s k (rec_delete (sourceThreadId v) index)) (sourceThreadId u) = Some j \<and> single_threads (viewRoot u)"
  proof (cases "j = k")
    case True
    with u w show ?thesis by (simp add: rec_get_set)
  next
    case False
    with u have j: "rec_get views j = Some u" by (simp add: rec_get_set)
    have "sourceThreadId u \<noteq> s" using anchored_D [OF a j] s False by auto
    moreover have "sourceThreadId u \<noteq> sourceThreadId v" using anchored_D [OF a j] anchored_D [OF a v] False by auto
    ultimately show ?thesis using anchored_D [OF a j] by (simp add: rec_get_set rec_get_delete)
  qed
qed

lemma anchor_new:
  assumes a: "anchored_maps views index" and w: "single_threads (viewRoot w)" "sourceThreadId w = s"
    and k: "\<And>j. rec_get index s = Some j \<Longrightarrow> j = k"
  shows "anchored_maps (rec_set k w views) (rec_set s k index)"
  unfolding anchored_maps_def
proof (intro allI impI)
  fix j u
  assume u: "rec_get (rec_set k w views) j = Some u"
  show "rec_get (rec_set s k index) (sourceThreadId u) = Some j \<and> single_threads (viewRoot u)"
  proof (cases "j = k")
    case True
    with u w show ?thesis by (simp add: rec_get_set)
  next
    case False
    with u have j: "rec_get views j = Some u" by (simp add: rec_get_set)
    then have "sourceThreadId u \<noteq> s" using anchored_D [OF a j] k False by auto
    then show ?thesis using anchored_D [OF a j] by (simp add: rec_get_set)
  qed
qed

lemma removal_anchored:
  assumes a: "anchored_maps (fst old) (snd old)" and m: "maps_ok (fst old) (snd old)"
    and v: "rec_get (fst old) k = Some v" and out: "removal_outcome P k v now old new"
  shows "anchored_maps (fst new) (snd new)"
  using out [unfolded removal_outcome_def]
proof (elim disjE exE conjE)
  assume "new = old" with a show ?thesis by simp
next
  assume "new = (rec_delete k (fst old), rec_delete (sourceThreadId v) (snd old))"
  with anchor_delete [OF a v] show ?thesis by simp
next
  fix res n' s
  assume r: "removes P (viewRoot v) res" "nextRoot res = Some n'" and s: "Some s \<in> set (leaf_threads n')"
    and new: "fst new = rec_set k (shrunk_view v res n' s now) (fst old)"
      "reanchored (source_moves P v) k v s (snd old) (snd new)"
  note leaves = removes_def [of P "viewRoot v" res, THEN iffD1, OF r(1)]
  have f: "collectLeaves n' = filter (\<lambda>l. \<not> P l) (collectLeaves (viewRoot v))" using leaves r(2) by simp
  have w: "single_threads (viewRoot (shrunk_view v res n' s now))"
    using single_threads_filter [OF _ f] anchored_D [OF a v] by simp
  have "\<not> source_moves P v" if "s = sourceThreadId v"
  proof
    assume "source_moves P v"
    then obtain l where l: "l \<in> set (collectLeaves (viewRoot v))" "P l" "leafThreadId l = Some (sourceThreadId v)"
      by (auto simp: source_moves_def)
    obtain b where b: "b \<in> set (collectLeaves (viewRoot v))" "\<not> P b" "leafThreadId b = Some s"
      using s f by auto
    have "l = b"
      using anchored_D [OF a v] l b that
      by (simp add: single_threads_iff [OF maps_ok_D(4) [OF m v]])
    with l b show False by simp
  qed
  then show ?thesis
    using new anchor_keep [OF a v w] anchor_move [OF a v w, of s]
    by (auto simp: reanchored_def)
qed

section \<open>Operations\<close>

lemma update_anchored:
  assumes "split_inv st" "anchored st"
    and "\<And>v w. rec_get (splitViewsById st) k = Some v \<Longrightarrow> view_ok v \<Longrightarrow> single_threads (viewRoot v) \<Longrightarrow>
      f v = Some w \<Longrightarrow> sourceThreadId w = sourceThreadId v \<and> single_threads (viewRoot w)"
  shows "anchored (updateSplitView st k f)"
proof (cases "rec_get (splitViewsById st) k")
  case (Some v)
  have a: "anchored_maps (splitViewsById st) (splitViewIdBySourceThreadId st)"
    using assms(2) by (simp add: anchored_def)
  have "view_ok v" using assms(1) Some maps_ok_D(3) by (auto simp: split_inv_def)
  then show ?thesis
    using Some assms(3) [OF Some] anchored_D [OF a Some] anchor_keep [OF a Some] a
    by (cases "f v") (simp_all add: updateSplitView_def anchored_def)
qed (simp add: updateSplitView_def assms(2))

lemma two_leaves_single:
  "single_threads (SplitPane i d (LeafPane a) (LeafPane b) r) \<longleftrightarrow>
     leafThreadId a = None \<or> leafThreadId a \<noteq> leafThreadId b"
  by (cases "leafThreadId a"; cases "leafThreadId b") (auto simp: single_threads_def)

lemma createFromThread_anchored:
  assumes "split_inv st" "anchored st"
  shows "anchored (fst (createFromThread st source owner ids now))"
proof (cases "truthy (rec_get (splitViewIdBySourceThreadId st) source)")
  case False
  have m: "maps_ok (splitViewsById st) (splitViewIdBySourceThreadId st)" using assms(1) by (simp add: split_inv_def)
  have none: "rec_get (splitViewIdBySourceThreadId st) source = None"
    using False maps_ok_index [OF m] by (cases "rec_get (splitViewIdBySourceThreadId st) source") auto
  let ?v = "buildSplitViewFromThread source owner ids now"
  have f: "single_threads (viewRoot ?v)" "sourceThreadId ?v = source" "splitViewId ?v = newView ids"
    by (simp_all add: buildSplitViewFromThread_def Let_def createSplitNode_def two_leaves_single)
  have "anchored_maps (rec_set (newView ids) ?v (splitViewsById st))
      (rec_set source (newView ids) (splitViewIdBySourceThreadId st))"
    using assms(2) none by (intro anchor_new [OF _ f(1,2)]) (simp_all add: anchored_def)
  with False f show ?thesis by (simp add: createFromThread_def Let_def anchored_def)
qed (simp add: createFromThread_def Let_def assms)

lemma createFromDrop_anchored:
  assumes "split_inv st" "anchored st" "dropped \<noteq> source"
  shows "anchored (fst (createFromDrop st source owner dropped dir side ids now))"
proof -
  have m: "maps_ok (splitViewsById st) (splitViewIdBySourceThreadId st)" using assms(1) by (simp add: split_inv_def)
  define existing where "existing = (let i = rec_get (splitViewIdBySourceThreadId st) source
      in if truthy i then rec_get (splitViewsById st) (the i) else None)"
  let ?v = "buildSplitViewFromDrop source owner dropped dir side existing ids now"
  have s: "single_threads (viewRoot ?v)"
    using assms(3) by (simp add: buildSplitViewFromDrop_def Let_def createSplitNode_def two_leaves_single)
  have "j = splitViewId ?v" if j: "rec_get (splitViewIdBySourceThreadId st) source = Some j" for j
  proof -
    obtain v where v: "rec_get (splitViewsById st) j = Some v" "j \<noteq> []" using maps_ok_index [OF m j] by blast
    then have "existing = Some v" using j by (simp add: existing_def)
    then show ?thesis using maps_ok_D(1) [OF m v(1)] by (simp add: buildSplitViewFromDrop_def Let_def)
  qed
  with anchor_new [OF _ s, of _ _ source] assms(2) show ?thesis
    by (simp add: createFromDrop_def Let_def existing_def [unfolded Let_def, symmetric] anchored_def)
qed

lemma removeSplitView_anchored: "anchored st \<Longrightarrow> anchored (removeSplitView st k)"
  using anchor_delete by (auto simp: removeSplitView_def anchored_def split: option.split)

lemma replace_anchored:
  assumes inv: "split_inv st" and a: "anchored st"
    and t: "\<And>v m. rec_get (splitViewsById st) k = Some v \<Longrightarrow> t \<noteq> None \<Longrightarrow> m \<in> set (collectLeaves (viewRoot v)) \<Longrightarrow>
      leafThreadId m = t \<Longrightarrow> leafPaneId m = p"
  shows "anchored (replacePaneThread st k p t now)"
proof (cases "\<exists>v l. rec_get (splitViewsById st) k = Some v \<and> findLeafPaneById (viewRoot v) p = Some l \<and> leafThreadId l \<noteq> t")
  case True
  then obtain v l where v: "rec_get (splitViewsById st) k = Some v"
    and l: "findLeafPaneById (viewRoot v) p = Some l" "leafThreadId l \<noteq> t" by auto
  have m: "maps_ok (splitViewsById st) (splitViewIdBySourceThreadId st)" using inv by (simp add: split_inv_def)
  have am: "anchored_maps (splitViewsById st) (splitViewIdBySourceThreadId st)" using a by (simp add: anchored_def)
  have un: "unanchor (splitViewIdBySourceThreadId st) k (sourceThreadId v) =
      rec_delete (sourceThreadId v) (splitViewIdBySourceThreadId st)"
    using anchored_D [OF am v] by (simp add: unanchor_def)
  have single: "single_threads (viewRoot (replaced_view v p (l\<lparr>leafThreadId := t\<rparr>) s now))" for s
    using replaced_single [OF maps_ok_D(3) [OF m v] _ l(1) t [OF v]] anchored_D [OF am v]
    by (simp add: replaced_view_def)
  have src: "sourceThreadId (replaced_view v p (l\<lparr>leafThreadId := t\<rparr>) s now) = s" for s
    by (simp add: replaced_view_def)
  from replacePaneThread_outcome [OF inv v l, of now] show ?thesis
    unfolding un
  proof (elim disjE exE conjE)
    assume "replacePaneThread st k p t now = st\<lparr>splitViewsById := rec_delete k (splitViewsById st),
      splitViewIdBySourceThreadId := rec_delete (sourceThreadId v) (splitViewIdBySourceThreadId st)\<rparr>"
    with anchor_delete [OF am v] show ?thesis by (simp add: anchored_def)
  next
    fix s index'
    let ?w = "replaced_view v p (l\<lparr>leafThreadId := t\<rparr>) s now"
    assume st: "replacePaneThread st k p t now =
        st\<lparr>splitViewsById := rec_set k ?w (splitViewsById st), splitViewIdBySourceThreadId := index'\<rparr>"
    { assume "s = sourceThreadId v" "index' = splitViewIdBySourceThreadId st"
      with anchor_keep [OF am v single [of s]] src st show ?thesis by (simp add: anchored_def) }
    { assume "rec_get (splitViewIdBySourceThreadId st) s \<in> {None, Some k}"
        "index' = rec_set s k (rec_delete (sourceThreadId v) (splitViewIdBySourceThreadId st))"
      with anchor_move [OF am v single [of s] src] st show ?thesis by (simp add: anchored_def) }
  qed
next
  case False
  then have "replacePaneThread st k p t now = st" by (intro replacePaneThread_same) blast
  with a show ?thesis by simp
qed

lemma drop_anchored:
  assumes inv: "split_inv st" and a: "anchored st" and new: "fresh_pane_ids st k i j"
  shows "anchored (fst (dropThreadOnPane st k p dir side t i j now))"
proof (cases "rec_get (splitViewsById st) k")
  case (Some v)
  show ?thesis
  proof (cases "findLeafPaneById (viewRoot v) p")
    case None
    with Some a show ?thesis by (simp add: dropThreadOnPane_def)
  next
    case l: (Some l)
    have "anchored (updateSplitView st k (\<lambda>current. Some (current
        \<lparr>viewRoot := replacePaneInTree (viewRoot current) p n, focusedPaneId := i, updatedAt := now\<rparr>)))"
      if can: "canSubdividePane (viewRoot v) p dir"
        and out: "\<not> list_ex (\<lambda>leaf. leafThreadId leaf = Some t) (collectLeaves (viewRoot v))"
        and n: "n = createSplitNode dir (LeafPane (createLeafPane (Some t) i)) (LeafPane l) None j \<or>
          n = createSplitNode dir (LeafPane l) (LeafPane (createLeafPane (Some t) i)) None j" for n
    proof (rule update_anchored [OF inv a])
      fix v' w
      assume v': "rec_get (splitViewsById st) k = Some v'" "view_ok v'" "single_threads (viewRoot v')"
        and w: "Some (v'\<lparr>viewRoot := replacePaneInTree (viewRoot v') p n, focusedPaneId := i, updatedAt := now\<rparr>) = Some w"
      have vv: "v' = v" using v'(1) Some by simp
      have d: "distinct (pane_ids (viewRoot v))" using v'(2) vv by (simp add: view_ok_def wf_pane_def)
      have root: "viewRoot w = replacePaneInTree (viewRoot v) p n" using w vv by auto
      note dv = dropped_view_ok [OF _ l can _ _ _ n, of now]
      have ok: "view_ok w" and "\<exists>pre post. collectLeaves (viewRoot v) = pre @ l # post \<and>
          collectLeaves (viewRoot w) = pre @ collectLeaves n @ post"
        using dv v'(2) new Some w vv root by (simp_all add: fresh_pane_ids_def)
      then obtain pre post where pp: "collectLeaves (viewRoot v) = pre @ l # post"
        "collectLeaves (viewRoot w) = pre @ collectLeaves n @ post" by blast
      have nl: "set (collectLeaves n) = {createLeafPane (Some t) i, l}" using n by (auto simp: createSplitNode_def)
      have ml: "set (collectLeaves (viewRoot w)) = insert (createLeafPane (Some t) i) (set (collectLeaves (viewRoot v)))"
        using pp nl by auto
      have out': "\<forall>m\<in>set (collectLeaves (viewRoot v)). leafThreadId m \<noteq> Some t"
        using out by (simp add: list_ex_iff)
      have "single_threads (viewRoot w)"
        using ok v'(3) out' unfolding vv
        by (subst single_threads_iff) (auto simp: view_ok_def wf_pane_def ml single_threads_iff [OF d])
      with w show "sourceThreadId w = sourceThreadId v' \<and> single_threads (viewRoot w)" by auto
    qed
    then show ?thesis using Some l a by (simp add: dropThreadOnPane_def Let_def)
  qed
qed (simp add: dropThreadOnPane_def a)

lemma removePane_anchored:
  assumes inv: "split_inv st" and a: "anchored st"
  shows "anchored (fst (removePaneFromSplitView st k p now))"
proof (cases "\<exists>v l. rec_get (splitViewsById st) k = Some v \<and> findLeafPaneById (viewRoot v) p = Some l")
  case True
  then obtain v l where v: "rec_get (splitViewsById st) k = Some v" and l: "findLeafPaneById (viewRoot v) p = Some l"
    by blast
  from removal_anchored [OF _ _ _ removePane_outcome [OF inv v l]] inv a v show ?thesis
    by (simp add: split_inv_def anchored_def)
next
  case False
  then have "removePaneFromSplitView st k p now = (st, False)"
    by (auto simp: removePaneFromSplitView_def split: option.split)
  with a show ?thesis by simp
qed

text \<open>The picker of the chat route never gives a pane a thread that another pane of the view shows.\<close>

fun route_ok :: "split_store \<Rightarrow> split_action \<Rightarrow> bool" where
  "route_ok st (CreateFromDrop source owner dropped dir side ids now) =
     (split_ok st (CreateFromDrop source owner dropped dir side ids now) \<and> dropped \<noteq> source)"
| "route_ok st (ReplacePaneThread k p t now) =
     (case rec_get (splitViewsById st) k of
        None \<Rightarrow> True
      | Some v \<Rightarrow> t = None \<or> list_all (\<lambda>l. leafThreadId l = t \<longrightarrow> leafPaneId l = p) (collectLeaves (viewRoot v)))"
| "route_ok st a = split_ok st a"

definition anchored_inv :: "split_store \<Rightarrow> bool" where
  "anchored_inv st \<longleftrightarrow> split_inv st \<and> anchored st"

lemma route_split_ok: "route_ok st a \<Longrightarrow> split_ok st a"
  by (cases a) auto

lemma field_anchored:
  assumes "split_inv st" "anchored st"
  shows "anchored (setFocusedPane st k p now)" "anchored (setPanePanelState st k p patch now)"
    "anchored (setRatioForNode st k p r now)"
proof -
  show "anchored (setFocusedPane st k p now)"
    unfolding setFocusedPane_def by (rule update_anchored [OF assms]) (auto split: if_splits)
  show "anchored (setPanePanelState st k p patch now)"
    unfolding setPanePanelState_def
  proof (rule update_anchored [OF assms], goal_cases)
    case (1 v w)
    then obtain l where l: "findLeafPaneById (viewRoot v) p = Some l"
      and w: "w = v\<lparr>viewRoot := replacePaneInTree (viewRoot v) p
        (LeafPane (l\<lparr>leafPanel := apply_patch (leafPanel l) patch\<rparr>)), updatedAt := now\<rparr>"
      by (auto simp: Let_def split: option.splits if_splits)
    have d: "distinct (pane_ids (viewRoot v))" using 1(2) by (simp add: view_ok_def wf_pane_def)
    from findLeaf_mem [OF l] have m: "l \<in> set (collectLeaves (viewRoot v))" "p = leafPaneId l" by simp_all
    have "leaf_threads (viewRoot w) = leaf_threads (viewRoot v)"
      using replace_leaf [OF d m(1), of "l\<lparr>leafPanel := apply_patch (leafPanel l) patch\<rparr>"] leaf_pane_ids_distinct [OF d] m w
      by (auto simp: distinct_map inj_on_def)
    with 1(3) w show ?case by (simp add: single_threads_def)
  qed
  show "anchored (setRatioForNode st k p r now)"
    unfolding setRatioForNode_def
  proof (rule update_anchored [OF assms], goal_cases)
    case (1 v w)
    then obtain i d f s q where n: "findSplitNodeById (viewRoot v) p = Some (SplitPane i d f s q)"
      by (auto simp: findSplitNodeById_def split: option.splits pane.splits)
    then have "findPaneById (viewRoot v) p = Some (SplitPane i d f s q)"
      by (auto simp: findSplitNodeById_def split: option.splits pane.splits)
    then have "i = p" using findPaneById_Some [of "viewRoot v" p] by simp
    then have n': "findSplitNodeById (viewRoot v) p = Some (SplitPane p d f s q)" using n by simp
    have dist: "distinct (pane_ids (viewRoot v))" using 1(2) by (simp add: view_ok_def wf_pane_def)
    note rr = replace_ratio [OF dist n' clampRatio_clamped [of r]]
    with 1 n' show ?case by (auto simp: single_threads_def Let_def split: if_splits)
  qed
qed

interpretation route_views: invariant_store split_step route_ok anchored_inv
proof
  fix st a
  assume "anchored_inv st" and ok: "route_ok st a"
  then have inv: "split_inv st" "anchored st" by (simp_all add: anchored_inv_def)
  have i: "split_inv (split_step st a)" using split_views.step_inv [OF inv(1) route_split_ok [OF ok]] .
  have h: "anchored (setHasHydrated st b)" for b using inv(2) by (simp add: setHasHydrated_def anchored_def)
  have r: "anchored (removeThreadFromSplitViews st t now)" for t now
    using removeThread_views [where Q = "\<lambda>m. anchored_maps (fst m) (snd m)" and t = t and now = now, OF inv(1)]
      removal_anchored inv(2) by (simp add: anchored_def)
  have "anchored (split_step st a)"
    using ok inv h r
    by (cases a)
      (auto simp: createFromThread_anchored createFromDrop_anchored removeSplitView_anchored drop_anchored
        removePane_anchored field_anchored list_all_iff split: option.splits intro!: replace_anchored)
  with i show "anchored_inv (split_step st a)" by (simp add: anchored_inv_def)
qed

lemma initial_anchored_inv [simp]: "anchored_inv initialSplitStore"
  by (simp add: anchored_inv_def) (simp add: initialSplitStore_def anchored_def anchored_maps_def)

end
