(* ===== verification/SplitProperties.thy ===== *)
theory SplitProperties
  imports SplitAnchor
begin

text \<open>The properties of split chat views, each over the model of \<open>splitViewStore.ts\<close>.\<close>

section \<open>Sample data\<close>

definition sample_ids :: view_ids where
  "sample_ids = \<lparr>newLeafA = ''l1'', newLeafB = ''l2'', newRoot = ''r'', newView = ''v''\<rparr>"

definition sample_actions :: "split_action list" where
  "sample_actions =
     [CreateFromDrop ''a'' ''p'' ''b'' HorizontalDir SecondSide sample_ids ''now'',
      DropThreadOnPane ''v'' ''l1'' VerticalDir FirstSide ''c'' ''l3'' ''s'' ''now'']"

definition sample_split :: split_store where
  "sample_split = run_actions split_step initialSplitStore sample_actions"

lemma sample_split_eq:
  "sample_split =
     \<lparr>hasHydrated = False,
      splitViewsById = [(''v'',
        \<lparr>splitViewId = ''v'', sourceThreadId = ''a'', ownerProjectId = ''p'',
         viewRoot = SplitPane ''r'' HorizontalDir
           (SplitPane ''s'' VerticalDir (LeafPane (createLeafPane (Some ''c'') ''l3''))
             (LeafPane (createLeafPane (Some ''a'') ''l1'')) (Num (1 / 2)))
           (LeafPane (createLeafPane (Some ''b'') ''l2'')) (Num (1 / 2)),
         focusedPaneId = ''l3'', createdAt = ''now'', updatedAt = ''now''\<rparr>)],
      splitViewIdBySourceThreadId = [(''a'', ''v'')]\<rparr>"
  by code_simp

lemma sample_route_ok: "admissible split_step route_ok initialSplitStore sample_actions"
  by code_simp

lemma sample_anchored: "anchored_inv sample_split"
  unfolding sample_split_def by (rule route_views.run_inv) (simp_all add: sample_route_ok)

lemma sample_split_inv: "split_inv sample_split"
  using sample_anchored by (simp add: anchored_inv_def)

section \<open>Runs\<close>

text \<open>C28: After every sequence of operations that draw fresh ids, every stored view is at most a 2 by 2 grid of
  panes with distinct ids, its focus is one of its panes, its source thread is shown in one of
  them, and an index entry always leads to a stored view of that source thread.\<close>

theorem split_runs_are_grids:
  assumes "admissible split_step split_ok initialSplitStore actions"
    and "st = run_actions split_step initialSplitStore actions"
  shows "(\<forall>k v. rec_get (splitViewsById st) k = Some v \<longrightarrow>
      splitViewId v = k \<and> grid (viewRoot v) \<and> length (collectLeaves (viewRoot v)) \<le> 4 \<and>
      distinct (pane_ids (viewRoot v)) \<and> clamped_ratios (viewRoot v) \<and>
      findLeafPaneById (viewRoot v) (focusedPaneId v) \<noteq> None \<and>
      resolveSplitViewPaneIdForThread v (Some (sourceThreadId v)) \<noteq> None) \<and>
    (\<forall>s k. rec_get (splitViewIdBySourceThreadId st) s = Some k \<longrightarrow>
      (\<exists>v. selectSplitView (Some k) st = Some v \<and> sourceThreadId v = s))"
proof -
  have inv: "split_inv st"
    unfolding assms(2) by (rule split_views.run_inv [OF initial_split_inv assms(1)])
  then have m: "maps_ok (splitViewsById st) (splitViewIdBySourceThreadId st)" by (simp add: split_inv_def)
  have shown: "resolveSplitViewPaneIdForThread v (Some (sourceThreadId v)) \<noteq> None" if "view_ok v" for v
    using that by (auto simp: view_ok_def resolveSplitViewPaneIdForThread_def find_None_iff)
  have focus: "findLeafPaneById (viewRoot v) (focusedPaneId v) \<noteq> None" if "view_ok v" for v
    using that findLeaf_iff [of "viewRoot v" "focusedPaneId v"] by (simp add: view_ok_def wf_pane_def)
  have "splitViewId v = k \<and> grid (viewRoot v) \<and> length (collectLeaves (viewRoot v)) \<le> 4 \<and>
      distinct (pane_ids (viewRoot v)) \<and> clamped_ratios (viewRoot v) \<and>
      findLeafPaneById (viewRoot v) (focusedPaneId v) \<noteq> None \<and>
      resolveSplitViewPaneIdForThread v (Some (sourceThreadId v)) \<noteq> None"
    if v: "rec_get (splitViewsById st) k = Some v" for k v
  proof -
    note d = maps_ok_D [OF m v]
    have w: "wf_pane (viewRoot v)" using d(3) by (simp add: view_ok_def)
    then show ?thesis
      using d(1) shown [OF d(3)] focus [OF d(3)] grid_at_most_four [of "viewRoot v"] unfolding wf_pane_def
      by blast
  qed
  moreover have "\<exists>v. selectSplitView (Some k) st = Some v \<and> sourceThreadId v = s"
    if "rec_get (splitViewIdBySourceThreadId st) s = Some k" for s k
    using maps_ok_index [OF m that] by (auto simp: selectSplitView_def)
  ultimately show ?thesis by blast
qed

theorem split_runs_are_grids_witness:
  "grid (viewRoot (the (rec_get (splitViewsById sample_split) ''v''))) \<and>
   resolveSplitViewPaneIdForThread (the (rec_get (splitViewsById sample_split) ''v'')) (Some ''a'') = Some ''l1''"
proof
  have "admissible split_step split_ok initialSplitStore sample_actions"
    by code_simp
  note r = conjunct1 [OF split_runs_are_grids [OF this sample_split_def]]
  have "rec_get (splitViewsById sample_split) ''v'' \<noteq> None" unfolding sample_split_eq by simp
  then show "grid (viewRoot (the (rec_get (splitViewsById sample_split) ''v'')))" using r by auto
  show "resolveSplitViewPaneIdForThread (the (rec_get (splitViewsById sample_split) ''v'')) (Some ''a'') = Some ''l1''"
    unfolding sample_split_eq by code_simp
qed

text \<open>As long as no pane is given a thread that another pane of its view shows, every stored view is found again
  from its source thread: creating a view from that thread changes nothing and returns its id.\<close>

theorem route_runs_find_views:
  assumes "admissible split_step route_ok initialSplitStore actions"
    and "rec_get (splitViewsById (run_actions split_step initialSplitStore actions)) k = Some v"
  shows "createFromThread (run_actions split_step initialSplitStore actions) (sourceThreadId v) owner ids now =
      (run_actions split_step initialSplitStore actions, k) \<and>
    selectSplitViewIdForSourceThread (Some (sourceThreadId v)) (run_actions split_step initialSplitStore actions) =
      Some k"
proof -
  let ?st = "run_actions split_step initialSplitStore actions"
  have "anchored_inv ?st" by (rule route_views.run_inv [OF initial_anchored_inv assms(1)])
  then have "maps_ok (splitViewsById ?st) (splitViewIdBySourceThreadId ?st)"
    "rec_get (splitViewIdBySourceThreadId ?st) (sourceThreadId v) = Some k"
    using assms(2) by (simp_all add: anchored_inv_def split_inv_def anchored_def anchored_maps_def)
  with maps_ok_D [OF _ assms(2)] show ?thesis
    by (simp add: createFromThread_def Let_def selectSplitViewIdForSourceThread_def)
qed

theorem route_runs_find_views_witness:
  "createFromThread sample_split ''a'' ''p'' sample_ids ''later'' = (sample_split, ''v'')"
proof -
  have v: "rec_get (splitViewsById sample_split) ''v'' = Some (the (rec_get (splitViewsById sample_split) ''v''))"
    "sourceThreadId (the (rec_get (splitViewsById sample_split) ''v'')) = ''a''"
    unfolding sample_split_eq by simp_all
  from conjunct1 [OF route_runs_find_views [OF sample_route_ok v(1) [unfolded sample_split_def]]]
  show ?thesis using v(2) by (simp add: sample_split_def)
qed

section \<open>Threads and panes\<close>

text \<open>What the removal of a thread keeps of a map of views, and that one removal keeps it.\<close>

definition others_kept :: "string \<Rightarrow> split_view js_record \<Rightarrow> split_view js_record \<Rightarrow> bool" where
  "others_kept t views views' \<longleftrightarrow>
     (\<forall>k v'. rec_get views' k = Some v' \<longrightarrow> (\<exists>v. rec_get views k = Some v \<and>
        filter (\<lambda>l. leafThreadId l \<noteq> Some t) (collectLeaves (viewRoot v')) =
        filter (\<lambda>l. leafThreadId l \<noteq> Some t) (collectLeaves (viewRoot v)))) \<and>
     (\<forall>k v. rec_get views k = Some v \<longrightarrow> Some t \<notin> set (leaf_threads (viewRoot v)) \<longrightarrow> rec_get views' k = Some v)"

lemma removal_keeps_others:
  assumes q: "others_kept t views (fst old)" and v: "rec_get (fst old) k = Some v"
    and out: "removal_outcome (\<lambda>l. leafThreadId l = Some t) k v now old new"
  shows "others_kept t views (fst new)"
proof -
  let ?keep = "\<lambda>v. filter (\<lambda>l. leafThreadId l \<noteq> Some t) (collectLeaves (viewRoot v))"
  have shown: "Some t \<in> set (leaf_threads (viewRoot v))" if "new \<noteq> old"
    using out that by (auto simp: removal_outcome_def filter_empty_conv intro: rev_image_eqI)
  have same: "rec_get views k = Some u \<Longrightarrow> Some t \<notin> set (leaf_threads (viewRoot u)) \<Longrightarrow> new = old" for u
    using shown q v by (force simp: others_kept_def)
  have kept: "?keep v' = ?keep v" if "rec_get (fst new) k = Some v'" for v'
    using out that v by (auto simp: removal_outcome_def rec_get_delete rec_get_set removes_def)
  note frame = removal_frame [OF out]
  obtain u where u: "rec_get views k = Some u" "?keep v = ?keep u" using q v unfolding others_kept_def by blast
  show ?thesis
    unfolding others_kept_def
  proof (intro conjI allI impI)
    fix j v'
    assume v': "rec_get (fst new) j = Some v'"
    show "\<exists>v. rec_get views j = Some v \<and> ?keep v' = ?keep v"
      using v' u kept frame q by (cases "j = k") (auto simp: others_kept_def)
  next
    fix j w
    assume w: "rec_get views j = Some w" "Some t \<notin> set (leaf_threads (viewRoot w))"
    then have "rec_get (fst old) j = Some w" using q by (simp add: others_kept_def)
    with w same frame show "rec_get (fst new) j = Some w" by (cases "j = k") auto
  qed
qed

text \<open>C29: Removing a thread from all views leaves it in none of them; what is left of a view is its other panes
  in their order, and a view that does not show the thread is kept as it is.\<close>

theorem removed_thread_gone:
  fixes t now
  assumes "split_inv st"
  defines "st' \<equiv> removeThreadFromSplitViews st t now"
  shows "(\<forall>k v'. rec_get (splitViewsById st') k = Some v' \<longrightarrow>
      (\<exists>v. rec_get (splitViewsById st) k = Some v \<and>
        collectLeaves (viewRoot v') = filter (\<lambda>l. leafThreadId l \<noteq> Some t) (collectLeaves (viewRoot v)))) \<and>
    (\<forall>k v. rec_get (splitViewsById st) k = Some v \<longrightarrow> Some t \<notin> set (leaf_threads (viewRoot v)) \<longrightarrow>
      rec_get (splitViewsById st') k = Some v)"
proof -
  let ?Q = "\<lambda>m. others_kept t (splitViewsById st) (fst m)"
  have Q0: "?Q (splitViewsById st, splitViewIdBySourceThreadId st)" unfolding others_kept_def fst_conv by blast
  have R: "split_inv st' \<and> ?Q (splitViewsById st', splitViewIdBySourceThreadId st') \<and>
      (\<forall>k v. rec_get (splitViewsById st') k = Some v \<longrightarrow> Some t \<notin> set (leaf_threads (viewRoot v)))"
    unfolding st'_def using removal_keeps_others by (rule removeThread_views [where Q = ?Q, OF assms(1) _ Q0])
  have Q': "others_kept t (splitViewsById st) (splitViewsById st')" using R by simp
  have gone: "\<And>k v. rec_get (splitViewsById st') k = Some v \<Longrightarrow> Some t \<notin> set (leaf_threads (viewRoot v))"
    using conjunct2 [OF conjunct2 [OF R]] by blast
  have keep: "filter (\<lambda>l. leafThreadId l \<noteq> Some t) (collectLeaves (viewRoot v)) = collectLeaves (viewRoot v)"
    if "Some t \<notin> set (leaf_threads (viewRoot v))" for v
    using that by (auto intro!: filter_True intro: rev_image_eqI)
  have "\<exists>v. rec_get (splitViewsById st) k = Some v \<and>
      collectLeaves (viewRoot v') = filter (\<lambda>l. leafThreadId l \<noteq> Some t) (collectLeaves (viewRoot v))"
    if v': "rec_get (splitViewsById st') k = Some v'" for k v'
    using Q' v' keep [OF gone [OF v']] unfolding others_kept_def by metis
  then show ?thesis using Q' unfolding others_kept_def by blast
qed

theorem removed_thread_gone_witness:
  "\<exists>v'. rec_get (splitViewsById (removeThreadFromSplitViews sample_split ''a'' ''later'')) ''v'' = Some v' \<and>
     leaf_threads (viewRoot v') = [Some ''c'', Some ''b''] \<and> sourceThreadId v' = ''c''"
proof -
  have "rec_get (splitViewsById (removeThreadFromSplitViews sample_split ''a'' ''later'')) ''v'' \<noteq> None"
    "sourceThreadId (the (rec_get (splitViewsById (removeThreadFromSplitViews sample_split ''a'' ''later'')) ''v'')) = ''c''"
    unfolding sample_split_eq by (code_simp, code_simp)
  then obtain v' where v': "rec_get (splitViewsById (removeThreadFromSplitViews sample_split ''a'' ''later'')) ''v'' = Some v'"
    "sourceThreadId v' = ''c''" by auto
  from conjunct1 [OF removed_thread_gone [OF sample_split_inv, of "''a''" "''later''"], rule_format, OF v'(1)]
  obtain v where v: "rec_get (splitViewsById sample_split) ''v'' = Some v"
    "collectLeaves (viewRoot v') = filter (\<lambda>l. leafThreadId l \<noteq> Some ''a'') (collectLeaves (viewRoot v))" by blast
  then have "leaf_threads (viewRoot v') = [Some ''c'', Some ''b'']"
    unfolding sample_split_eq by (auto simp: createLeafPane_def)
  with v' show ?thesis by (intro exI [of _ v']) simp
qed

text \<open>The view after an accepted drop: the pane, its new sibling and the focus.\<close>

lemma dropped_panes:
  fixes side :: drop_side and now :: string
  assumes ok: "view_ok v" and l: "findLeafPaneById (viewRoot v) p = Some l"
    and can: "canSubdividePane (viewRoot v) p dir" "Some t \<notin> set (leaf_threads (viewRoot v))"
    and new: "i \<noteq> j" "i \<notin> set (pane_ids (viewRoot v))" "j \<notin> set (pane_ids (viewRoot v))"
  defines "n \<equiv> (if side = FirstSide
      then createSplitNode dir (LeafPane (createLeafPane (Some t) i)) (LeafPane l) None j
      else createSplitNode dir (LeafPane l) (LeafPane (createLeafPane (Some t) i)) None j)"
  defines "v' \<equiv> v\<lparr>viewRoot := replacePaneInTree (viewRoot v) p n, focusedPaneId := i, updatedAt := now\<rparr>"
  shows "\<exists>pre post. collectLeaves (viewRoot v) = pre @ l # post \<and>
      collectLeaves (viewRoot v') = (let new = createLeafPane (Some t) i
        in if side = FirstSide then pre @ new # l # post else pre @ l # new # post) \<and>
      (t \<noteq> [] \<longrightarrow> resolveSplitViewFocusedThreadId v' = Some t)"
proof -
  have n: "n = createSplitNode dir (LeafPane (createLeafPane (Some t) i)) (LeafPane l) None j \<or>
      n = createSplitNode dir (LeafPane l) (LeafPane (createLeafPane (Some t) i)) None j"
    by (simp add: n_def)
  note dv = dropped_view_ok [OF ok l _ new n, of now, folded v'_def]
  obtain pre post where pp: "collectLeaves (viewRoot v) = pre @ l # post"
    "collectLeaves (viewRoot v') = pre @ collectLeaves n @ post"
    using dv can by (auto simp: v'_def)
  have ok': "view_ok v'" using dv can by simp
  have "createLeafPane (Some t) i \<in> set (collectLeaves (viewRoot v'))"
    unfolding pp(2) by (simp add: n_def createSplitNode_def)
  then have "findLeafPaneById (viewRoot v') i = Some (createLeafPane (Some t) i)"
    using findLeaf_Some [of "viewRoot v'" "createLeafPane (Some t) i"] ok' by (simp add: view_ok_def wf_pane_def)
  then have "t \<noteq> [] \<Longrightarrow> resolveSplitViewFocusedThreadId v' = Some t"
    by (simp add: resolveSplitViewFocusedThreadId_def Let_def v'_def)
  moreover have "collectLeaves (viewRoot v') = (let new = createLeafPane (Some t) i
      in if side = FirstSide then pre @ new # l # post else pre @ l # new # post)"
    unfolding pp(2) by (simp add: n_def createSplitNode_def)
  ultimately show ?thesis using pp(1) by blast
qed

text \<open>Dropping a thread on a pane either is refused and changes nothing, or puts a new focused pane with the
  thread on the asked side of the target pane, in a view that did not show the thread; the other
  panes, the other views and the index stay.\<close>

theorem dropped_thread_placed:
  assumes "split_inv st" "fresh_pane_ids st k i j"
  shows "case dropThreadOnPane st k p dir side t i j now of
      (st', False) \<Rightarrow> st' = st
    | (st', True) \<Rightarrow> (\<exists>v v' pre l post. rec_get (splitViewsById st) k = Some v \<and>
        splitViewsById st' = rec_set k v' (splitViewsById st) \<and>
        splitViewIdBySourceThreadId st' = splitViewIdBySourceThreadId st \<and>
        leafPaneId l = p \<and> collectLeaves (viewRoot v) = pre @ l # post \<and>
        Some t \<notin> set (leaf_threads (viewRoot v)) \<and>
        collectLeaves (viewRoot v') = (let new = createLeafPane (Some t) i
          in if side = FirstSide then pre @ new # l # post else pre @ l # new # post) \<and>
        resolveSplitViewFocusedThreadId v' = (if t = [] then resolveSplitViewFocusedThreadId v' else Some t) \<and>
        focusedPaneId v' = i)"
proof (cases "rec_get (splitViewsById st) k")
  case None
  then show ?thesis by (simp add: dropThreadOnPane_def)
next
  case (Some v)
  have m: "maps_ok (splitViewsById st) (splitViewIdBySourceThreadId st)" using assms(1) by (simp add: split_inv_def)
  note d = maps_ok_D [OF m Some]
  show ?thesis
  proof (cases "findLeafPaneById (viewRoot v) p")
    case None
    with Some show ?thesis by (simp add: dropThreadOnPane_def)
  next
    case l: (Some l)
    show ?thesis
    proof (cases "list_ex (\<lambda>leaf. leafThreadId leaf = Some t) (collectLeaves (viewRoot v)) \<or>
        \<not> canSubdividePane (viewRoot v) p dir")
      case True
      with Some l show ?thesis by (auto simp: dropThreadOnPane_def)
    next
      case False
      let ?n = "if side = FirstSide
        then createSplitNode dir (LeafPane (createLeafPane (Some t) i)) (LeafPane l) None j
        else createSplitNode dir (LeafPane l) (LeafPane (createLeafPane (Some t) i)) None j"
      let ?v' = "v\<lparr>viewRoot := replacePaneInTree (viewRoot v) p ?n, focusedPaneId := i, updatedAt := now\<rparr>"
      from False have can: "canSubdividePane (viewRoot v) p dir" "Some t \<notin> set (leaf_threads (viewRoot v))"
        by (auto simp: list_ex_iff)
      have "i \<noteq> j" "i \<notin> set (pane_ids (viewRoot v))" "j \<notin> set (pane_ids (viewRoot v))"
        using assms(2) Some by (simp_all add: fresh_pane_ids_def)
      from dropped_panes [where side = side and now = now, OF d(3) l can this] obtain pre post where
        pp: "collectLeaves (viewRoot v) = pre @ l # post"
        and dp: "collectLeaves (viewRoot ?v') = (let new = createLeafPane (Some t) i
          in if side = FirstSide then pre @ new # l # post else pre @ l # new # post)"
          "t \<noteq> [] \<longrightarrow> resolveSplitViewFocusedThreadId ?v' = Some t" by blast
      have eq: "dropThreadOnPane st k p dir side t i j now =
          (st\<lparr>splitViewsById := rec_set k ?v' (splitViewsById st)\<rparr>, True)"
        using Some l False by (auto simp: dropThreadOnPane_def Let_def updateSplitView_def)
      have "leafPaneId l = p" using findLeaf_mem [OF l] by simp
      with eq Some pp dp can show ?thesis
        unfolding eq prod.case bool.case
        by (intro exI [of _ v] exI [of _ ?v'] exI [of _ pre] exI [of _ l] exI [of _ post]) simp
    qed
  qed
qed

theorem dropped_thread_placed_witness:
  "\<exists>v'. splitViewsById (fst (dropThreadOnPane sample_split ''v'' ''l2'' VerticalDir SecondSide ''d'' ''l4'' ''s2'' ''later'')) =
     rec_set ''v'' v' (splitViewsById sample_split) \<and> focusedPaneId v' = ''l4''"
proof -
  have f: "fresh_pane_ids sample_split ''v'' ''l4'' ''s2''" unfolding sample_split_eq by code_simp
  have "snd (dropThreadOnPane sample_split ''v'' ''l2'' VerticalDir SecondSide ''d'' ''l4'' ''s2'' ''later'')"
    unfolding sample_split_eq by code_simp
  with dropped_thread_placed [OF sample_split_inv f,
      where p = "''l2''" and dir = VerticalDir and side = SecondSide and t = "''d''" and now = "''later''"]
  show ?thesis
    by (cases "dropThreadOnPane sample_split ''v'' ''l2'' VerticalDir SecondSide ''d'' ''l4'' ''s2'' ''later''") auto
qed

lemma leaf_shown: "list_ex (\<lambda>leaf. leafThreadId leaf = Some t) (collectLeaves p) = (Some t \<in> set (leaf_threads p))"
  by (auto simp: list_ex_iff intro: rev_image_eqI)

lemma only_view:
  assumes "\<And>k v. (k, v) \<in> set views \<Longrightarrow> splitViewId v = k"
  shows "map_option splitViewId (if length (map snd views) = 1 then list_get (map snd views) 0 else None) =
    (case views of [(k, v)] \<Rightarrow> Some k | _ \<Rightarrow> None)"
proof (cases views)
  case (Cons e es)
  obtain k v where "e = (k, v)" by (cases e)
  with assms Cons show ?thesis by (cases es) (auto simp: list_get_def)
qed simp

text \<open>A thread that is the source of a view leads to that view; another thread leads to the one view that
  shows it, and to none when several views or no view show it.\<close>

theorem preferred_view:
  assumes "split_inv st" "t \<noteq> []"
  shows "resolvePreferredSplitViewIdForThread (splitViewsById st) (splitViewIdBySourceThreadId st) (Some t) =
    (case rec_get (splitViewIdBySourceThreadId st) t of
       Some k \<Rightarrow> Some k
     | None \<Rightarrow> (case filter (\<lambda>(k, v). Some t \<in> set (leaf_threads (viewRoot v))) (splitViewsById st) of
         [(k, v)] \<Rightarrow> Some k
       | _ \<Rightarrow> None))"
proof -
  let ?views = "splitViewsById st" and ?index = "splitViewIdBySourceThreadId st"
  let ?shows = "\<lambda>v. list_ex (\<lambda>leaf. leafThreadId leaf = Some t) (collectLeaves (viewRoot v))"
  have m: "maps_ok ?views ?index" using assms(1) by (simp add: split_inv_def)
  have dist: "distinct (map fst ?views)" using m by (simp add: maps_ok_def views_ok_def)
  show ?thesis
  proof (cases "rec_get ?index t")
    case (Some k)
    then obtain v where v: "rec_get ?views k = Some v" "sourceThreadId v = t" "k \<noteq> []"
      using maps_ok_index [OF m Some] by blast
    have "?shows v" unfolding leaf_shown using maps_ok_D(3) [OF m v(1)] v(2) by (simp add: view_ok_def)
    moreover have "v \<in> set (map snd ?views)" using map_of_SomeD [OF v(1)] by force
    ultimately have "list_ex (\<lambda>v. Some (splitViewId v) = Some k) (filter ?shows (map snd ?views))"
      using maps_ok_D(1) [OF m v(1)] by (auto simp: list_ex_iff intro!: bexI [of _ v])
    with Some v(3) assms(2) show ?thesis
      by (simp add: resolvePreferredSplitViewIdForThread_def Let_def)
  next
    case None
    have f: "filter ?shows (map snd ?views) = map snd (filter (\<lambda>(k, v). Some t \<in> set (leaf_threads (viewRoot v))) ?views)"
      (is "_ = map snd ?fs") unfolding leaf_shown by (simp add: filter_map o_def split_def)
    have "splitViewId v = k" if "(k, v) \<in> set ?fs" for k v
      using that maps_ok_D(1) [OF m] map_of_is_SomeI [OF dist, of k v] by auto
    from only_view [of ?fs, OF this] None assms(2) show ?thesis
      unfolding resolvePreferredSplitViewIdForThread_def Let_def f by simp
  qed
qed

theorem preferred_view_witness:
  "resolvePreferredSplitViewIdForThread (splitViewsById sample_split) (splitViewIdBySourceThreadId sample_split)
     (Some ''b'') = Some ''v''"
proof -
  have "(''b'' :: string) \<noteq> []" by simp
  from preferred_view [OF sample_split_inv this] show ?thesis
    unfolding sample_split_eq by (simp add: createLeafPane_def)
qed

section \<open>Migration of persisted views\<close>

lemma migrated_view:
  assumes "inj uuid" "migrateLegacySplitView uuid now legacy k = (Some v, k')"
  shows "wf_pane (viewRoot v) \<and> length (collectLeaves (viewRoot v)) = 2 \<and>
    focusedPaneId v \<in> set (leaf_pane_ids (viewRoot v)) \<and> resolveSplitViewFocusedThreadId v \<noteq> None \<and>
    sourceThreadId v = legacySourceThreadId legacy"
proof -
  have ne: "uuid k \<noteq> uuid (k + 1)" "uuid k \<noteq> uuid (k + 2)" "uuid (k + 1) \<noteq> uuid (k + 2)"
    using injD [OF assms(1)] by fastforce+
  let ?l = "\<lparr>leafPaneId = uuid k, leafThreadId = leftThreadId legacy, leafPanel = leftPanel legacy\<rparr>"
    and ?r = "\<lparr>leafPaneId = uuid (k + 1), leafThreadId = rightThreadId legacy, leafPanel = rightPanel legacy\<rparr>"
  have t: "truthy (leftThreadId legacy) \<or> truthy (rightThreadId legacy)"
    and v: "viewRoot v = createSplitNode HorizontalDir (LeafPane ?l) (LeafPane ?r) (legacyRatio legacy) (uuid (k + 2))"
      "focusedPaneId v = uuid k \<or> focusedPaneId v = uuid (k + 1)" "sourceThreadId v = legacySourceThreadId legacy"
    using assms(2) by (auto simp: migrateLegacySplitView_def Let_def split: if_splits)
  have "List.find (\<lambda>leaf. truthy (leafThreadId leaf)) (collectLeaves (viewRoot v)) \<noteq> None"
    using t by (auto simp: v(1) createSplitNode_def)
  moreover have "truthy x \<Longrightarrow> x \<noteq> None" for x by (cases x) auto
  ultimately have "resolveSplitViewFocusedThreadId v \<noteq> None"
    by (auto simp: resolveSplitViewFocusedThreadId_def Let_def dest: find_Some_mem split: option.splits)
  with v ne show ?thesis by (auto simp: createSplitNode_def two_leaves_wf)
qed

text \<open>What the loop over the persisted entries builds, and that one entry keeps it.\<close>

definition migrated_ok ::
    "(json \<Rightarrow> legacy_view) \<Rightarrow> (string \<times> json) set \<Rightarrow> split_view js_record \<Rightarrow> string js_record \<Rightarrow> bool" where
  "migrated_ok cast es vs idx \<longleftrightarrow> distinct (map fst vs) \<and>
     (\<forall>k v. rec_get vs k = Some v \<longrightarrow> wf_pane (viewRoot v) \<and> length (collectLeaves (viewRoot v)) = 2 \<and>
       focusedPaneId v \<in> set (leaf_pane_ids (viewRoot v)) \<and> resolveSplitViewFocusedThreadId v \<noteq> None \<and>
       rec_get idx (sourceThreadId v) \<noteq> None \<and>
       (\<exists>value. (k, value) \<in> es \<and> isLegacySplitViewLike value \<and> sourceThreadId v = legacySourceThreadId (cast value))) \<and>
     (\<forall>s k. rec_get idx s = Some k \<longrightarrow> rec_get vs k \<noteq> None)"

lemma migrated_step:
  assumes i: "inj uuid" and o: "migrated_ok cast es vs idx" and e: "(k, val) \<in> es" "isLegacySplitViewLike val"
    and v: "migrateLegacySplitView uuid now (cast val) n = (Some v, n')"
  shows "migrated_ok cast es (rec_set k v vs) (rec_set (sourceThreadId v) k idx)"
  unfolding migrated_ok_def
proof (intro conjI allI impI)
  note mv = migrated_view [OF i v]
  show "distinct (map fst (rec_set k v vs))" using o by (simp add: migrated_ok_def rec_set_distinct)
  fix j w assume w: "rec_get (rec_set k v vs) j = Some w"
  show "wf_pane (viewRoot w)" "length (collectLeaves (viewRoot w)) = 2"
    "focusedPaneId w \<in> set (leaf_pane_ids (viewRoot w))" "resolveSplitViewFocusedThreadId w \<noteq> None"
    using w o mv by (auto simp: migrated_ok_def rec_get_set split: if_splits)
  show "rec_get (rec_set (sourceThreadId v) k idx) (sourceThreadId w) \<noteq> None"
    using w o by (auto simp: migrated_ok_def rec_get_set split: if_splits)
  show "\<exists>value. (j, value) \<in> es \<and> isLegacySplitViewLike value \<and> sourceThreadId w = legacySourceThreadId (cast value)"
    using w o mv e by (auto simp: migrated_ok_def rec_get_set split: if_splits)
next
  fix s j assume "rec_get (rec_set (sourceThreadId v) k idx) s = Some j"
  then show "rec_get (rec_set k v vs) j \<noteq> None" using o by (auto simp: migrated_ok_def rec_get_set split: if_splits)
qed

lemma migrated_loop:
  assumes "inj uuid" "migrated_ok cast es vs idx" "set xs \<subseteq> es"
  shows "migrated_ok cast es (fst (migrateEntries cast uuid now xs n (vs, idx))) (snd (migrateEntries cast uuid now xs n (vs, idx)))"
  using assms(2,3)
proof (induction xs arbitrary: n vs idx)
  case (Cons x xs)
  obtain k val where x: "x = (k, val)" by (cases x)
  have e: "(k, val) \<in> es" using Cons.prems(2) x by simp
  show ?case
  proof (cases "isLegacySplitViewLike val")
    case True
    obtain r n' where r: "migrateLegacySplitView uuid now (cast val) n = (r, n')"
      by (cases "migrateLegacySplitView uuid now (cast val) n")
    show ?thesis
    proof (cases r)
      case None
      with r True Cons x show ?thesis by simp
    next
      case (Some v)
      have "migrated_ok cast es (rec_set k v vs) (rec_set (sourceThreadId v) k idx)"
        using migrated_step [OF assms(1) Cons.prems(1) e True, of now n v n'] r Some by simp
      with Cons.IH Cons.prems(2) r True Some x show ?thesis by simp
    qed
  qed (use Cons x in simp)
qed simp

text \<open>Whatever an old version persisted, its migration gives only views that are a well-formed pair of panes with
  an existing focus and a thread to show, every one of them has an index entry for its source
  thread, and every index entry leads to a view; what is not an old view is dropped.\<close>

theorem migration_recovers_views:
  assumes "inj uuid" "migrateLegacyPersistedState cast uuid now state = Some (views, index)"
  shows "distinct (map fst views) \<and>
    (\<forall>k v. rec_get views k = Some v \<longrightarrow>
      wf_pane (viewRoot v) \<and> length (collectLeaves (viewRoot v)) = 2 \<and>
      focusedPaneId v \<in> set (leaf_pane_ids (viewRoot v)) \<and> resolveSplitViewFocusedThreadId v \<noteq> None \<and>
      rec_get index (sourceThreadId v) \<noteq> None \<and>
      (\<exists>legacyMap value. json_prop state ''splitViewsById'' = Some legacyMap \<and>
        (k, value) \<in> set (entries legacyMap) \<and> isLegacySplitViewLike value \<and>
        sourceThreadId v = legacySourceThreadId (cast value))) \<and>
    (\<forall>s k. rec_get index s = Some k \<longrightarrow> rec_get views k \<noteq> None)"
proof -
  obtain legacyMap where l: "json_prop state ''splitViewsById'' = Some legacyMap"
    "(views, index) = migrateEntries cast uuid now (entries legacyMap) 0 ([], [])"
    using assms(2) by (auto simp: migrateLegacyPersistedState_def split: if_splits option.splits)
  have "migrated_ok cast (set (entries legacyMap)) [] []" by (simp add: migrated_ok_def)
  from migrated_loop [OF assms(1) this subset_refl, of now 0, folded l(2)]
  have "migrated_ok cast (set (entries legacyMap)) views index" by simp
  then show ?thesis unfolding migrated_ok_def l(1) by blast
qed

definition sample_uuid :: "nat \<Rightarrow> string" where
  "sample_uuid n = ''u'' @ nat_str n"

definition sample_legacy :: legacy_view where
  "sample_legacy =
     \<lparr>legacyId = ''v'', legacySourceThreadId = ''a'', legacyOwnerProjectId = ''p'', leftThreadId = Some ''a'',
      rightThreadId = None, legacyFocusedPane = RightSide, legacyRatio = Some (Num 2),
      leftPanel = createDefaultPanePanelState, rightPanel = createDefaultPanePanelState,
      legacyCreatedAt = None, legacyUpdatedAt = None\<rparr>"

definition sample_json :: json where
  "sample_json = JObj [(''splitViewsById'', JObj
     [(''x'', JNull),
      (''v'', JObj [(''id'', JStr ''v''), (''sourceThreadId'', JStr ''a''), (''leftThreadId'', JStr ''a''),
        (''rightThreadId'', JNull), (''focusedPane'', JStr ''right'')])])]"

theorem migration_recovers_views_witness:
  "\<exists>views index. migrateLegacyPersistedState (\<lambda>_. sample_legacy) sample_uuid ''now'' sample_json = Some (views, index) \<and>
     map fst views = [''v''] \<and> distinct (map fst views)"
proof -
  have i: "inj sample_uuid" by (rule injI) (simp add: sample_uuid_def)
  have "map_option (map fst \<circ> fst) (migrateLegacyPersistedState (\<lambda>_. sample_legacy) sample_uuid ''now'' sample_json) =
      Some [''v'']" by code_simp
  then obtain views index where
    m: "migrateLegacyPersistedState (\<lambda>_. sample_legacy) sample_uuid ''now'' sample_json = Some (views, index)"
    and k: "map fst views = [''v'']" by auto
  from conjunct1 [OF migration_recovers_views [OF i m]] m k show ?thesis
    by (intro exI [of _ views] exI [of _ index]) simp
qed

section \<open>A thread in two panes\<close>

text \<open>
  The store itself does not refuse a thread that another pane of the view shows already. When the
  source thread is doubled in this way and one of its panes is closed, the view stays without an
  index entry, and splitting from its source thread makes a second view.
\<close>

definition doubled_split :: split_store where
  "doubled_split = replacePaneThread
     (fst (createFromThread initialSplitStore ''a'' ''p'' sample_ids ''now'')) ''v'' ''l2'' (Some ''a'') ''now''"

definition fresh_ids :: view_ids where
  "fresh_ids = \<lparr>newLeafA = ''m1'', newLeafB = ''m2'', newRoot = ''r2'', newView = ''w''\<rparr>"

lemma doubled_thread_loses_view:
  defines "st \<equiv> fst (removePaneFromSplitView doubled_split ''v'' ''l2'' ''now'')"
  shows "sourceThreadId (the (rec_get (splitViewsById st) ''v'')) = ''a'' \<and>
    selectSplitViewIdForSourceThread (Some ''a'') st = None \<and>
    snd (createFromThread st ''a'' ''p'' fresh_ids ''now'') = ''w''"
  unfolding st_def doubled_split_def by code_simp

end
