(* ===== verification/RightDock.thy ===== *)
theory RightDock
  imports Json
begin

text \<open>
  The tabbed right dock: \<open>frontend/src/rightDockStore.logic.ts\<close> and the store around it,
  \<open>frontend/src/rightDockStore.ts\<close>. A field that may be undefined or null is an option of an
  option; a transition that returns its state unchanged returns an equal state, and \<open>commit\<close>
  compares states by value where the code compares references: the entry it would write is then
  the one already stored.
\<close>

section \<open>Types\<close>

datatype dock_kind = BrowserKind | DiffKind | FileKind | TerminalKind | SidechatKind | GitKind

definition RIGHT_DOCK_PANE_KINDS :: "dock_kind list" where
  "RIGHT_DOCK_PANE_KINDS = [BrowserKind, DiffKind, FileKind, TerminalKind, SidechatKind, GitKind]"

fun kind_name :: "dock_kind \<Rightarrow> string" where
  "kind_name BrowserKind = ''browser''"
| "kind_name DiffKind = ''diff''"
| "kind_name FileKind = ''file''"
| "kind_name TerminalKind = ''terminal''"
| "kind_name SidechatKind = ''sidechat''"
| "kind_name GitKind = ''git''"

record dock_pane =
  dockPaneId :: string
  dockKind :: dock_kind
  dockThreadId :: "string option"
  dockDiffTurnId :: "string option"
  dockDiffFilePath :: "string option"
  dockFilePath :: "string option"

record dock_state =
  dockOpen :: bool
  dockPanes :: "dock_pane list"
  dockActiveId :: "string option"

definition MULTI_INSTANCE_PANE_KINDS :: "dock_kind list" where
  "MULTI_INSTANCE_PANE_KINDS = [SidechatKind, FileKind]"

definition SINGLETON_PANE_KINDS :: "dock_kind list" where
  "SINGLETON_PANE_KINDS = filter (\<lambda>kind. kind \<notin> set MULTI_INSTANCE_PANE_KINDS) RIGHT_DOCK_PANE_KINDS"

definition isSingletonPaneKind :: "dock_kind \<Rightarrow> bool" where
  "isSingletonPaneKind kind \<longleftrightarrow> kind \<in> set SINGLETON_PANE_KINDS"

definition createDefaultRightDockState :: dock_state where
  "createDefaultRightDockState = \<lparr>dockOpen = False, dockPanes = [], dockActiveId = None\<rparr>"

section \<open>Validation of persisted state\<close>

text \<open>The kind a value names, if it is a string that names one.\<close>

fun isRightDockPaneKind :: "json option \<Rightarrow> dock_kind option" where
  "isRightDockPaneKind (Some (JStr s)) = List.find (\<lambda>kind. kind_name kind = s) RIGHT_DOCK_PANE_KINDS"
| "isRightDockPaneKind _ = None"

text \<open>\<open>typeof v === "string" ? v : null\<close>.\<close>

fun string_or_null :: "json option \<Rightarrow> string option" where
  "string_or_null (Some (JStr s)) = Some s"
| "string_or_null _ = None"

definition sanitizePersistedPane :: "json \<Rightarrow> dock_pane option" where
  "sanitizePersistedPane candidate =
     (if \<not> isPlainObject (Some candidate) then None
      else case (json_prop candidate ''id'', isRightDockPaneKind (json_prop candidate ''kind'')) of
        (Some (JStr i), Some kind) \<Rightarrow>
          Some \<lparr>dockPaneId = i, dockKind = kind,
            dockThreadId = string_or_null (json_prop candidate ''threadId''),
            dockDiffTurnId = string_or_null (json_prop candidate ''diffTurnId''),
            dockDiffFilePath = string_or_null (json_prop candidate ''diffFilePath''),
            dockFilePath = string_or_null (json_prop candidate ''filePath'')\<rparr>
      | _ \<Rightarrow> None)"

definition sanitizeRightDockThreadState :: "json \<Rightarrow> dock_state" where
  "sanitizeRightDockThreadState candidate =
     (if \<not> isPlainObject (Some candidate) then createDefaultRightDockState
      else
        let panes = (case json_prop candidate ''panes'' of
              Some (JArr vs) \<Rightarrow> cat_options (map sanitizePersistedPane vs)
            | _ \<Rightarrow> []);
            activePaneId = (case json_prop candidate ''activePaneId'' of
              Some (JStr a) \<Rightarrow>
                if list_ex (\<lambda>pane. dockPaneId pane = a) panes then Some a
                else map_option dockPaneId (list_get panes 0)
            | _ \<Rightarrow> map_option dockPaneId (list_get panes 0))
        in \<lparr>dockOpen = (length panes > 0 \<and> json_prop candidate ''open'' = Some (JBool True)),
            dockPanes = panes, dockActiveId = activePaneId\<rparr>)"

definition sanitizeRightDockStateByThreadId :: "json option \<Rightarrow> dock_state js_record" where
  "sanitizeRightDockStateByThreadId v = sanitizeStringKeyedRecord v (\<lambda>raw. Some (sanitizeRightDockThreadState raw))"

section \<open>Transitions\<close>

record open_pane_input =
  inputPaneId :: string
  inputKind :: dock_kind
  inputThreadId :: "string option option"
  inputDiffTurnId :: "string option option"
  inputDiffFilePath :: "string option option"
  inputFilePath :: "string option option"

definition createPane :: "open_pane_input \<Rightarrow> dock_pane" where
  "createPane inp =
     \<lparr>dockPaneId = inputPaneId inp, dockKind = inputKind inp,
      dockThreadId = nullish (inputThreadId inp) None, dockDiffTurnId = nullish (inputDiffTurnId inp) None,
      dockDiffFilePath = nullish (inputDiffFilePath inp) None, dockFilePath = nullish (inputFilePath inp) None\<rparr>"

definition singletonPaneReopenPatch :: "open_pane_input \<Rightarrow> (string option \<times> string option) option" where
  "singletonPaneReopenPatch inp =
     (if inputKind inp = DiffKind \<and> (inputDiffTurnId inp \<noteq> None \<or> inputDiffFilePath inp \<noteq> None)
      then Some (nullish (inputDiffTurnId inp) None, nullish (inputDiffFilePath inp) None)
      else None)"

definition findMatchingMultiInstancePane :: "dock_state \<Rightarrow> open_pane_input \<Rightarrow> dock_pane option" where
  "findMatchingMultiInstancePane state inp =
     (if inputKind inp = SidechatKind then
        (case nullish (inputThreadId inp) None of
           None \<Rightarrow> None
         | Some t \<Rightarrow>
             if t = [] then None
             else List.find (\<lambda>pane. dockKind pane = SidechatKind \<and> dockThreadId pane = Some t) (dockPanes state))
      else if inputKind inp = FileKind then
        (let filePath = nullish (inputFilePath inp) None
         in List.find (\<lambda>pane. dockKind pane = FileKind \<and> dockFilePath pane = filePath) (dockPanes state))
      else None)"

definition findSingletonPane :: "dock_state \<Rightarrow> dock_kind \<Rightarrow> dock_pane option" where
  "findSingletonPane state kind = List.find (\<lambda>pane. dockKind pane = kind) (dockPanes state)"

definition openNewPane :: "dock_state \<Rightarrow> open_pane_input \<Rightarrow> dock_state" where
  "openNewPane state inp =
     (let pane = createPane inp
      in \<lparr>dockOpen = True, dockPanes = dockPanes state @ [pane], dockActiveId = Some (dockPaneId pane)\<rparr>)"

definition openPaneInState :: "dock_state \<Rightarrow> open_pane_input \<Rightarrow> dock_state" where
  "openPaneInState state inp =
     (if isSingletonPaneKind (inputKind inp) then
        (case findSingletonPane state (inputKind inp) of
           Some existing \<Rightarrow>
             (let nextPanes = (case singletonPaneReopenPatch inp of
                    Some (turn, path) \<Rightarrow>
                      map (\<lambda>pane. if dockPaneId pane = dockPaneId existing
                             then pane\<lparr>dockDiffTurnId := turn, dockDiffFilePath := path\<rparr> else pane)
                        (dockPanes state)
                  | None \<Rightarrow> dockPanes state)
              in \<lparr>dockOpen = True, dockPanes = nextPanes, dockActiveId = Some (dockPaneId existing)\<rparr>)
         | None \<Rightarrow> openNewPane state inp)
      else
        (case findMatchingMultiInstancePane state inp of
           Some existing \<Rightarrow>
             \<lparr>dockOpen = True, dockPanes = dockPanes state, dockActiveId = Some (dockPaneId existing)\<rparr>
         | None \<Rightarrow> openNewPane state inp))"

definition resolveActiveAfterRemoval ::
    "dock_pane list \<Rightarrow> nat \<Rightarrow> string option \<Rightarrow> string \<Rightarrow> string option" where
  "resolveActiveAfterRemoval panes removedIndex previousActiveId removedId =
     (if previousActiveId \<noteq> Some removedId then previousActiveId
      else if length panes = 0 then None
      else map_option dockPaneId (list_get panes (min removedIndex (length panes - 1))))"

definition closePaneInState :: "dock_state \<Rightarrow> string \<Rightarrow> dock_state" where
  "closePaneInState state paneId =
     (case find_index (\<lambda>pane. dockPaneId pane = paneId) (dockPanes state) of
        None \<Rightarrow> state
      | Some removedIndex \<Rightarrow>
          let nextPanes = filter (\<lambda>pane. dockPaneId pane \<noteq> paneId) (dockPanes state);
              nextActiveId = resolveActiveAfterRemoval nextPanes removedIndex (dockActiveId state) paneId
          in \<lparr>dockOpen = (if length nextPanes > 0 then dockOpen state else False),
              dockPanes = nextPanes, dockActiveId = nextActiveId\<rparr>)"

definition setActivePaneInState :: "dock_state \<Rightarrow> string \<Rightarrow> dock_state" where
  "setActivePaneInState state paneId =
     (if \<not> list_ex (\<lambda>pane. dockPaneId pane = paneId) (dockPanes state) then state
      else state\<lparr>dockOpen := True, dockActiveId := Some paneId\<rparr>)"

definition setDockOpenInState :: "dock_state \<Rightarrow> bool \<Rightarrow> dock_state" where
  "setDockOpenInState state opened =
     (if opened \<and> length (dockPanes state) = 0 then state
      else if dockOpen state = opened then state
      else state\<lparr>dockOpen := opened\<rparr>)"

record pane_patch =
  patchDiffTurnId :: "string option option"
  patchDiffFilePath :: "string option option"
  patchFilePath :: "string option option"
  patchThreadId :: "string option option"

definition patch_pane :: "pane_patch \<Rightarrow> dock_pane \<Rightarrow> dock_pane" where
  "patch_pane patch pane = pane
     \<lparr>dockDiffTurnId := nullish (patchDiffTurnId patch) (dockDiffTurnId pane),
      dockDiffFilePath := nullish (patchDiffFilePath patch) (dockDiffFilePath pane),
      dockFilePath := nullish (patchFilePath patch) (dockFilePath pane),
      dockThreadId := nullish (patchThreadId patch) (dockThreadId pane)\<rparr>"

definition pane_changed :: "pane_patch \<Rightarrow> dock_pane \<Rightarrow> bool" where
  "pane_changed patch pane \<longleftrightarrow>
     (let nextPane = patch_pane patch pane
      in dockDiffTurnId nextPane \<noteq> dockDiffTurnId pane \<or> dockDiffFilePath nextPane \<noteq> dockDiffFilePath pane \<or>
         dockFilePath nextPane \<noteq> dockFilePath pane \<or> dockThreadId nextPane \<noteq> dockThreadId pane)"

definition updatePaneInState :: "dock_state \<Rightarrow> string \<Rightarrow> pane_patch \<Rightarrow> dock_state" where
  "updatePaneInState state paneId patch =
     (let hit = (\<lambda>pane. dockPaneId pane = paneId \<and> pane_changed patch pane);
          nextPanes = map (\<lambda>pane. if hit pane then patch_pane patch pane else pane) (dockPanes state);
          changed = list_ex hit (dockPanes state)
      in if changed then state\<lparr>dockPanes := nextPanes\<rparr> else state)"

definition toggleSingletonPaneInState :: "dock_state \<Rightarrow> open_pane_input \<Rightarrow> dock_state" where
  "toggleSingletonPaneInState state inp =
     (case findSingletonPane state (inputKind inp) of
        Some existing \<Rightarrow>
          if dockOpen state \<and> dockActiveId state = Some (dockPaneId existing) then state\<lparr>dockOpen := False\<rparr>
          else openPaneInState state inp
      | None \<Rightarrow> openPaneInState state inp)"

definition resolveActivePane :: "dock_state \<Rightarrow> dock_pane option" where
  "resolveActivePane state =
     (if \<not> dockOpen state \<or> dockActiveId state = None then None
      else List.find (\<lambda>pane. Some (dockPaneId pane) = dockActiveId state) (dockPanes state))"

section \<open>Store\<close>

type_synonym dock_store = "dock_state js_record"

definition selectRightDockState :: "string \<Rightarrow> dock_store \<Rightarrow> dock_state" where
  "selectRightDockState threadId store = nullish (rec_get store threadId) createDefaultRightDockState"

definition commit :: "dock_store \<Rightarrow> string \<Rightarrow> (dock_state \<Rightarrow> dock_state) \<Rightarrow> dock_store" where
  "commit store threadId transform =
     (let previous = selectRightDockState threadId store;
          next' = transform previous
      in if next' = previous then store else rec_set threadId next' store)"

text \<open>
  The operations of the store. Opening may name the new pane; otherwise its id is the drawn one,
  the last argument.
\<close>

datatype dock_action =
    OpenPane string "string option" open_pane_input string
  | ToggleSingletonPane string "string option" open_pane_input string
  | ClosePane string string
  | SetActivePane string string
  | SetDockOpen string bool
  | UpdatePane string string pane_patch
  | ClearThreadDockState string

fun dock_step :: "dock_store \<Rightarrow> dock_action \<Rightarrow> dock_store" where
  "dock_step store (OpenPane t pid inp uuid) =
     commit store t (\<lambda>state. openPaneInState state (inp\<lparr>inputPaneId := nullish pid uuid\<rparr>))"
| "dock_step store (ToggleSingletonPane t pid inp uuid) =
     commit store t (\<lambda>state. toggleSingletonPaneInState state (inp\<lparr>inputPaneId := nullish pid uuid\<rparr>))"
| "dock_step store (ClosePane t paneId) = commit store t (\<lambda>state. closePaneInState state paneId)"
| "dock_step store (SetActivePane t paneId) = commit store t (\<lambda>state. setActivePaneInState state paneId)"
| "dock_step store (SetDockOpen t opened) = commit store t (\<lambda>state. setDockOpenInState state opened)"
| "dock_step store (UpdatePane t paneId patch) = commit store t (\<lambda>state. updatePaneInState state paneId patch)"
| "dock_step store (ClearThreadDockState t) =
     (if rec_get store t = None then store else rec_delete t store)"

definition mergeDockState :: "json option \<Rightarrow> dock_store" where
  "mergeDockState persisted =
     sanitizeRightDockStateByThreadId
       (case persisted of None \<Rightarrow> None | Some p \<Rightarrow> json_prop p ''dockStateByThreadId'')"

section \<open>Invariants\<close>

text \<open>
  An anchored dock has an active pane exactly when it has panes, the active pane is one of them, and it is
  open only with panes. A tidy dock has distinct pane ids and at most one pane of a singleton kind.
\<close>

definition dock_anchored :: "dock_state \<Rightarrow> bool" where
  "dock_anchored state \<longleftrightarrow>
     (case dockActiveId state of
        None \<Rightarrow> dockPanes state = [] \<and> \<not> dockOpen state
      | Some a \<Rightarrow> a \<in> set (map dockPaneId (dockPanes state)))"

definition dock_tidy :: "dock_state \<Rightarrow> bool" where
  "dock_tidy state \<longleftrightarrow> distinct (map dockPaneId (dockPanes state)) \<and>
     distinct (filter isSingletonPaneKind (map dockKind (dockPanes state)))"

definition docks_all :: "(dock_state \<Rightarrow> bool) \<Rightarrow> dock_store \<Rightarrow> bool" where
  "docks_all P store \<longleftrightarrow> (\<forall>t s. rec_get store t = Some s \<longrightarrow> P s)"

lemma default_anchored [simp]: "dock_anchored createDefaultRightDockState"
  by (simp add: dock_anchored_def createDefaultRightDockState_def)

lemma default_tidy [simp]: "dock_tidy createDefaultRightDockState"
  by (simp add: dock_tidy_def createDefaultRightDockState_def)

lemma openNew_anchored: "dock_anchored (openNewPane state inp)"
  by (simp add: openNewPane_def dock_anchored_def Let_def)

lemma found_pane_id: "List.find P panes = Some pane \<Longrightarrow> dockPaneId pane \<in> dockPaneId ` set panes"
  by (auto dest: find_Some_mem)

lemma anchoredI:
  "a \<in> dockPaneId ` set panes \<Longrightarrow> dock_anchored \<lparr>dockOpen = b, dockPanes = panes, dockActiveId = Some a\<rparr>"
  by (simp add: dock_anchored_def)

lemma patched_ids:
  "dockPaneId ` set (map (\<lambda>pane. if dockPaneId pane = i
      then pane\<lparr>dockDiffTurnId := a, dockDiffFilePath := b\<rparr> else pane) panes) = dockPaneId ` set panes"
  by (induction panes) auto

lemma matching_found:
  "findMatchingMultiInstancePane state inp = Some pane \<Longrightarrow> pane \<in> set (dockPanes state) \<and> dockKind pane = inputKind inp"
  by (auto simp: findMatchingMultiInstancePane_def Let_def split: if_splits option.splits dest: find_Some_mem)

lemma open_anchored: "dock_anchored (openPaneInState state inp)"
proof (cases "isSingletonPaneKind (inputKind inp)")
  case True
  show ?thesis
  proof (cases "findSingletonPane state (inputKind inp)")
    case None
    with True show ?thesis by (simp add: openPaneInState_def openNew_anchored)
  next
    case (Some pane)
    then have "dockPaneId pane \<in> dockPaneId ` set (dockPanes state)"
      unfolding findSingletonPane_def by (rule found_pane_id)
    with True Some show ?thesis
      by (auto simp only: openPaneInState_def Let_def patched_ids if_True option.case
          intro!: anchoredI split: option.split prod.split)
  qed
next
  case False
  with matching_found show ?thesis
    by (cases "findMatchingMultiInstancePane state inp")
      (auto simp: openPaneInState_def openNew_anchored intro!: anchoredI)
qed

lemma close_anchored:
  assumes "dock_anchored state"
  shows "dock_anchored (closePaneInState state paneId)"
proof (cases "find_index (\<lambda>pane. dockPaneId pane = paneId) (dockPanes state)")
  case (Some i)
  let ?next = "filter (\<lambda>pane. dockPaneId pane \<noteq> paneId) (dockPanes state)"
  have "dockPanes state \<noteq> []" using Some by auto
  then obtain a where a: "dockActiveId state = Some a" "a \<in> set (map dockPaneId (dockPanes state))"
    using assms by (auto simp: dock_anchored_def split: option.splits)
  show ?thesis
  proof (cases "a = paneId")
    case False
    with a Some show ?thesis
      by (auto simp: closePaneInState_def Let_def resolveActiveAfterRemoval_def dock_anchored_def)
  next
    case True
    show ?thesis
    proof (cases "?next = []")
      case True
      with a \<open>a = paneId\<close> Some show ?thesis
        by (simp add: closePaneInState_def Let_def resolveActiveAfterRemoval_def dock_anchored_def)
    next
      case False
      then have "min i (length ?next - 1) < length ?next" by (cases ?next) (simp_all add: min_def)
      then obtain q where "list_get ?next (min i (length ?next - 1)) = Some q"
        by (simp add: list_get_def)
      with list_get_Some [OF this] a \<open>a = paneId\<close> Some False show ?thesis
        by (simp add: closePaneInState_def Let_def resolveActiveAfterRemoval_def dock_anchored_def)
    qed
  qed
qed (simp add: closePaneInState_def assms)

lemma flags_anchored:
  assumes "dock_anchored state"
  shows "dock_anchored (setActivePaneInState state paneId)" "dock_anchored (setDockOpenInState state opened)"
  using assms by (auto simp: setActivePaneInState_def setDockOpenInState_def dock_anchored_def list_ex_iff
      split: option.splits)

lemma dock_update_ids: "map dockPaneId (dockPanes (updatePaneInState state paneId patch)) = map dockPaneId (dockPanes state)"
  "map dockKind (dockPanes (updatePaneInState state paneId patch)) = map dockKind (dockPanes state)"
  "dockActiveId (updatePaneInState state paneId patch) = dockActiveId state"
  "dockOpen (updatePaneInState state paneId patch) = dockOpen state"
  by (simp_all add: updatePaneInState_def Let_def patch_pane_def)

lemma update_dock_anchored: "dock_anchored state \<Longrightarrow> dock_anchored (updatePaneInState state paneId patch)"
proof -
  have "dockPanes (updatePaneInState state paneId patch) = [] \<longleftrightarrow> dockPanes state = []"
    using dock_update_ids(1) [of state paneId patch] by (metis map_is_Nil_conv)
  then show "dock_anchored state \<Longrightarrow> ?thesis"
    by (cases "dockActiveId state") (simp_all add: dock_anchored_def dock_update_ids del: set_map flip: set_map)
qed

lemma toggle_anchored: "dock_anchored state \<Longrightarrow> dock_anchored (toggleSingletonPaneInState state inp)"
  by (auto simp: toggleSingletonPaneInState_def open_anchored split: option.split)
    (auto simp: dock_anchored_def)

lemma commit_all:
  assumes "docks_all P store" "P createDefaultRightDockState"
    and "P (selectRightDockState t store) \<Longrightarrow> P (f (selectRightDockState t store))"
  shows "docks_all P (commit store t f)"
proof -
  have "P (selectRightDockState t store)"
    using assms(1,2) by (cases "rec_get store t") (auto simp: selectRightDockState_def docks_all_def)
  with assms(1,3) show ?thesis by (auto simp: commit_def Let_def docks_all_def rec_get_set)
qed

lemma clear_all: "docks_all P store \<Longrightarrow> docks_all P (rec_delete t store)"
  by (simp add: docks_all_def rec_get_delete)

interpretation docks: invariant_store dock_step "\<lambda>_ _. True" "docks_all dock_anchored"
proof
  fix store a
  assume inv: "docks_all dock_anchored store"
  show "docks_all dock_anchored (dock_step store a)"
    using inv
    by (cases a)
      (auto intro!: commit_all open_anchored close_anchored flags_anchored update_dock_anchored toggle_anchored clear_all)
qed

section \<open>Tidy docks\<close>

lemma singleton_kinds: "isSingletonPaneKind kind \<longleftrightarrow> kind \<noteq> SidechatKind \<and> kind \<noteq> FileKind"
  by (cases kind) (simp_all add: isSingletonPaneKind_def SINGLETON_PANE_KINDS_def RIGHT_DOCK_PANE_KINDS_def
      MULTI_INSTANCE_PANE_KINDS_def)

definition fresh_in :: "string \<Rightarrow> dock_state \<Rightarrow> bool" where
  "fresh_in i state \<longleftrightarrow> i \<notin> set (map dockPaneId (dockPanes state))"

lemma openNew_tidy:
  assumes "dock_tidy state" "fresh_in (inputPaneId inp) state"
    and "isSingletonPaneKind (inputKind inp) \<Longrightarrow> findSingletonPane state (inputKind inp) = None"
  shows "dock_tidy (openNewPane state inp)"
  using assms
  by (auto simp: dock_tidy_def openNewPane_def createPane_def Let_def fresh_in_def findSingletonPane_def find_None_iff)

lemma open_fields:
  "openPaneInState state inp = openNewPane state inp \<or>
   map dockPaneId (dockPanes (openPaneInState state inp)) = map dockPaneId (dockPanes state) \<and>
   map dockKind (dockPanes (openPaneInState state inp)) = map dockKind (dockPanes state)"
proof (cases "isSingletonPaneKind (inputKind inp)")
  case True
  show ?thesis
  proof (cases "findSingletonPane state (inputKind inp)")
    case None
    with True show ?thesis by (simp add: openPaneInState_def)
  next
    case (Some pane)
    have "map dockPaneId (map (\<lambda>pane. if dockPaneId pane = i then pane\<lparr>dockDiffTurnId := a, dockDiffFilePath := b\<rparr> else pane) ps) =
        map dockPaneId ps \<and>
      map dockKind (map (\<lambda>pane. if dockPaneId pane = i then pane\<lparr>dockDiffTurnId := a, dockDiffFilePath := b\<rparr> else pane) ps) =
        map dockKind ps" for i a b and ps :: "dock_pane list"
      by (induction ps) auto
    with True Some show ?thesis
      by (auto simp only: openPaneInState_def Let_def if_True option.case dock_state.simps split: option.split prod.split)
  qed
next
  case False
  then show ?thesis
    by (cases "findMatchingMultiInstancePane state inp") (simp_all add: openPaneInState_def)
qed

lemma open_tidy:
  assumes "dock_tidy state" "fresh_in (inputPaneId inp) state"
  shows "dock_tidy (openPaneInState state inp)"
proof (cases "isSingletonPaneKind (inputKind inp) \<and> findSingletonPane state (inputKind inp) \<noteq> None")
  case True
  then obtain pane where "findSingletonPane state (inputKind inp) = Some pane" by blast
  then have "openPaneInState state inp = openNewPane state inp \<Longrightarrow> dock_tidy (openPaneInState state inp)"
    using True by (auto simp: openPaneInState_def openNewPane_def Let_def split: option.splits dest!: arg_cong [of _ _ "length \<circ> dockPanes"])
  with open_fields [of state inp] assms(1) show ?thesis by (auto simp: dock_tidy_def)
next
  case False
  with openNew_tidy [OF assms] have "dock_tidy (openNewPane state inp)" by blast
  with open_fields [of state inp] assms(1) show ?thesis by (auto simp: dock_tidy_def)
qed

lemma close_panes: "dockPanes (closePaneInState state p) = filter (\<lambda>pane. dockPaneId pane \<noteq> p) (dockPanes state)"
proof (cases "find_index (\<lambda>pane. dockPaneId pane = p) (dockPanes state)")
  case None
  then have "filter (\<lambda>pane. dockPaneId pane \<noteq> p) (dockPanes state) = dockPanes state"
    by (simp add: find_index_None_iff)
  with None show ?thesis by (simp add: closePaneInState_def)
qed (simp add: closePaneInState_def Let_def)

lemma close_tidy: "dock_tidy state \<Longrightarrow> dock_tidy (closePaneInState state p)"
proof -
  have "distinct (filter P (map f (filter Q xs)))" if "distinct (filter P (map f xs))"
    for P and f :: "dock_pane \<Rightarrow> dock_kind" and Q xs
    using that by (induction xs) auto
  then show "dock_tidy state \<Longrightarrow> ?thesis"
    by (simp add: dock_tidy_def close_panes distinct_map_filter)
qed

lemma other_tidy:
  assumes "dock_tidy state"
  shows "dock_tidy (setActivePaneInState state p)" "dock_tidy (setDockOpenInState state b)"
    "dock_tidy (updatePaneInState state p patch)"
  using assms by (simp_all add: dock_tidy_def setActivePaneInState_def setDockOpenInState_def dock_update_ids)

lemma toggle_tidy:
  assumes "dock_tidy state" "fresh_in (inputPaneId inp) state"
  shows "dock_tidy (toggleSingletonPaneInState state inp)"
  using assms open_tidy [OF assms] by (auto simp: toggleSingletonPaneInState_def dock_tidy_def split: option.split)

text \<open>What \<open>randomUUID\<close> gives, and what a caller that names the pane has to give: an id the dock does not use.\<close>

fun dock_fresh :: "dock_store \<Rightarrow> dock_action \<Rightarrow> bool" where
  "dock_fresh store (OpenPane t pid inp uuid) = fresh_in (nullish pid uuid) (selectRightDockState t store)"
| "dock_fresh store (ToggleSingletonPane t pid inp uuid) = fresh_in (nullish pid uuid) (selectRightDockState t store)"
| "dock_fresh store _ = True"

interpretation tidy_docks: invariant_store dock_step dock_fresh "docks_all dock_tidy"
proof
  fix store a
  assume inv: "docks_all dock_tidy store" and ok: "dock_fresh store a"
  show "docks_all dock_tidy (dock_step store a)"
    using inv ok
    by (cases a) (auto intro!: commit_all open_tidy close_tidy other_tidy toggle_tidy clear_all)
qed

section \<open>A tab strip\<close>

text \<open>
  The abstract contract of the dock: a strip of tabs, of which one is selected, shown or hidden.
  A closed selected tab hands the selection to its right neighbour, or to the last tab.
\<close>

record strip =
  stripShown :: bool
  stripTabs :: "string list"
  stripSelected :: "string option"

datatype strip_event = AddTab string | SelectTab string | CloseTab string | ShowStrip bool | NoEvent

definition right_neighbour :: "string list \<Rightarrow> string \<Rightarrow> string option" where
  "right_neighbour tabs i =
     (case dropWhile (\<lambda>t. t \<noteq> i) tabs of
        _ # next' # _ \<Rightarrow> Some next'
      | _ \<Rightarrow> (case rev (takeWhile (\<lambda>t. t \<noteq> i) tabs) of [] \<Rightarrow> None | t # _ \<Rightarrow> Some t))"

fun strip_apply :: "strip_event \<Rightarrow> strip \<Rightarrow> strip" where
  "strip_apply (AddTab i) s = \<lparr>stripShown = True, stripTabs = stripTabs s @ [i], stripSelected = Some i\<rparr>"
| "strip_apply (SelectTab i) s =
     (if i \<in> set (stripTabs s) then s\<lparr>stripShown := True, stripSelected := Some i\<rparr> else s)"
| "strip_apply (CloseTab i) s =
     (if i \<notin> set (stripTabs s) then s
      else \<lparr>stripShown = (stripShown s \<and> removeAll i (stripTabs s) \<noteq> []),
            stripTabs = removeAll i (stripTabs s),
            stripSelected = (if stripSelected s = Some i then right_neighbour (stripTabs s) i else stripSelected s)\<rparr>)"
| "strip_apply (ShowStrip b) s = (if b \<and> stripTabs s = [] then s else s\<lparr>stripShown := b\<rparr>)"
| "strip_apply NoEvent s = s"

definition strip_of :: "dock_state \<Rightarrow> strip" where
  "strip_of state =
     \<lparr>stripShown = dockOpen state, stripTabs = map dockPaneId (dockPanes state), stripSelected = dockActiveId state\<rparr>"

definition shown_pane :: "dock_state \<Rightarrow> open_pane_input \<Rightarrow> dock_pane option" where
  "shown_pane state inp =
     (if isSingletonPaneKind (inputKind inp) then findSingletonPane state (inputKind inp)
      else findMatchingMultiInstancePane state inp)"

definition open_event :: "dock_state \<Rightarrow> open_pane_input \<Rightarrow> strip_event" where
  "open_event state inp =
     (case shown_pane state inp of Some pane \<Rightarrow> SelectTab (dockPaneId pane) | None \<Rightarrow> AddTab (inputPaneId inp))"

lemma shown_pane_mem: "shown_pane state inp = Some pane \<Longrightarrow> pane \<in> set (dockPanes state) \<and> dockKind pane = inputKind inp"
  using matching_found
  by (auto simp: shown_pane_def findSingletonPane_def split: if_splits dest: find_Some_mem)

lemma open_new: "shown_pane state inp = None \<Longrightarrow> openPaneInState state inp = openNewPane state inp"
  by (simp add: shown_pane_def openPaneInState_def split: if_splits)

lemma open_shown:
  assumes "shown_pane state inp = Some pane"
  shows "dockOpen (openPaneInState state inp) \<and> dockActiveId (openPaneInState state inp) = Some (dockPaneId pane) \<and>
    map dockPaneId (dockPanes (openPaneInState state inp)) = map dockPaneId (dockPanes state) \<and>
    map dockKind (dockPanes (openPaneInState state inp)) = map dockKind (dockPanes state)"
proof (cases "isSingletonPaneKind (inputKind inp)")
  case True
  have "map dockPaneId (map (\<lambda>pane. if dockPaneId pane = i then pane\<lparr>dockDiffTurnId := a, dockDiffFilePath := b\<rparr> else pane) ps) =
      map dockPaneId ps \<and>
    map dockKind (map (\<lambda>pane. if dockPaneId pane = i then pane\<lparr>dockDiffTurnId := a, dockDiffFilePath := b\<rparr> else pane) ps) =
      map dockKind ps" for i a b and ps :: "dock_pane list"
    by (induction ps) auto
  with True assms show ?thesis
    by (auto simp only: shown_pane_def openPaneInState_def Let_def if_True option.case dock_state.simps
        split: option.split prod.split)
next
  case False
  with assms show ?thesis by (simp add: openPaneInState_def shown_pane_def)
qed

lemma open_refines: "strip_of (openPaneInState state inp) = strip_apply (open_event state inp) (strip_of state)"
proof (cases "shown_pane state inp")
  case None
  then show ?thesis
    by (simp add: open_new open_event_def strip_of_def openNewPane_def createPane_def Let_def)
next
  case (Some pane)
  with open_shown [OF Some] shown_pane_mem [OF Some] show ?thesis
    by (simp add: open_event_def strip_of_def)
qed

lemma neighbour_after:
  assumes "distinct (pre @ i # post)"
  shows "right_neighbour (pre @ i # post) i =
    (if pre @ post = [] then None else Some ((pre @ post) ! min (length pre) (length (pre @ post) - 1)))"
proof -
  have a: "\<forall>t\<in>set pre. t \<noteq> i" using assms by auto
  then have dw: "dropWhile (\<lambda>t. t \<noteq> i) (pre @ i # post) = i # post"
    "takeWhile (\<lambda>t. t \<noteq> i) (pre @ i # post) = pre"
    by (simp_all add: dropWhile_append takeWhile_append)
  show ?thesis
  proof (cases post)
    case Nil
    show ?thesis
    proof (cases pre rule: rev_cases)
      case (snoc ys y)
      then show ?thesis unfolding right_neighbour_def dw using Nil by (simp add: nth_append)
    qed (use dw Nil in \<open>simp add: right_neighbour_def\<close>)
  next
    case (Cons q qs)
    then show ?thesis unfolding right_neighbour_def dw by (simp add: nth_append min_def)
  qed
qed

lemma map_filter_removeAll: "map f (filter (\<lambda>x. f x \<noteq> p) xs) = removeAll p (map f xs)"
  by (induction xs) auto

lemma close_refines:
  assumes "distinct (map dockPaneId (dockPanes state))"
  shows "strip_of (closePaneInState state p) = strip_apply (CloseTab p) (strip_of state)"
proof (cases "find_index (\<lambda>pane. dockPaneId pane = p) (dockPanes state)")
  case None
  then have "p \<notin> dockPaneId ` set (dockPanes state)" by (auto simp: find_index_None_iff)
  with None show ?thesis by (simp add: closePaneInState_def strip_of_def)
next
  case (Some i)
  note fi = find_index_SomeD [OF Some]
  let ?ids = "map dockPaneId (dockPanes state)"
  let ?next = "filter (\<lambda>pane. dockPaneId pane \<noteq> p) (dockPanes state)"
  have ids: "?ids = take i ?ids @ p # drop (Suc i) ?ids"
    using fi id_take_nth_drop [of i ?ids] by simp
  have dist: "distinct (take i ?ids @ p # drop (Suc i) ?ids)" using assms by (simp flip: ids)
  have nx: "map dockPaneId ?next = take i ?ids @ drop (Suc i) ?ids"
  proof -
    have "map dockPaneId ?next = removeAll p ?ids" by (rule map_filter_removeAll)
    also have "\<dots> = removeAll p (take i ?ids @ p # drop (Suc i) ?ids)" by (simp flip: ids)
    also have "\<dots> = take i ?ids @ drop (Suc i) ?ids" using dist by (simp add: removeAll_id)
    finally show ?thesis .
  qed
  have rm: "removeAll p ?ids = map dockPaneId ?next"
    by (rule map_filter_removeAll [symmetric])
  have len: "length (take i ?ids) = i" using fi by simp
  have nb: "right_neighbour ?ids p = map_option dockPaneId (if ?next = [] then None else list_get ?next (min i (length ?next - 1)))"
  proof (cases "?next = []")
    case True
    then have "take i ?ids @ drop (Suc i) ?ids = []" using nx by simp
    with neighbour_after [OF dist] True show ?thesis by (simp flip: ids)
  next
    case False
    have l: "length (take i ?ids @ drop (Suc i) ?ids) = length ?next" unfolding nx [symmetric] by simp
    have ne: "take i ?ids @ drop (Suc i) ?ids \<noteq> []"
      unfolding nx [symmetric] using False by (simp only: map_is_Nil_conv not_False_eq_True)
    have "0 < length ?next" using False by (rule length_greater_0_conv [THEN iffD2])
    then have "min i (length ?next - 1) < length ?next" by linarith
    then have "list_get ?next (min i (length ?next - 1)) = Some (?next ! min i (length ?next - 1))"
      and "map dockPaneId ?next ! min i (length ?next - 1) = dockPaneId (?next ! min i (length ?next - 1))"
      by (simp_all only: list_get_def if_True nth_map)
    then show ?thesis
      using neighbour_after [OF dist, folded ids] ne False len l unfolding nx [symmetric]
      by (simp only: if_False option.map length_map)
  qed
  have "p \<in> set ?ids" using fi by force
  then show ?thesis
    using Some nb rm
    by (auto simp: closePaneInState_def Let_def strip_of_def resolveActiveAfterRemoval_def)
qed

end
