(* ===== verification/RightDockProperties.thy ===== *)
theory RightDockProperties
  imports RightDock
begin

text \<open>The properties of the right dock.\<close>

section \<open>Persisted values\<close>

text \<open>What \<open>JSON.stringify\<close> writes for the store, for reading it back.\<close>

definition null_or :: "string option \<Rightarrow> json" where
  "null_or x = (case x of None \<Rightarrow> JNull | Some s \<Rightarrow> JStr s)"

definition pane_json :: "dock_pane \<Rightarrow> json" where
  "pane_json pane = JObj
     [(''id'', JStr (dockPaneId pane)), (''kind'', JStr (kind_name (dockKind pane))),
      (''threadId'', null_or (dockThreadId pane)), (''diffTurnId'', null_or (dockDiffTurnId pane)),
      (''diffFilePath'', null_or (dockDiffFilePath pane)), (''filePath'', null_or (dockFilePath pane))]"

definition dock_json :: "dock_state \<Rightarrow> json" where
  "dock_json state = JObj
     [(''open'', JBool (dockOpen state)), (''panes'', JArr (map pane_json (dockPanes state))),
      (''activePaneId'', null_or (dockActiveId state))]"

definition dock_store_json :: "dock_store \<Rightarrow> json" where
  "dock_store_json store = JObj [(''dockStateByThreadId'', JObj (map (\<lambda>(t, s). (t, dock_json s)) store))]"

lemma string_or_null_or [simp]: "string_or_null (Some (null_or x)) = x"
  by (cases x) (simp_all add: null_or_def)

lemma kind_of_name [simp]: "List.find (\<lambda>k. kind_name k = kind_name kind) RIGHT_DOCK_PANE_KINDS = Some kind"
  by (cases kind) (simp_all add: RIGHT_DOCK_PANE_KINDS_def)

lemma sanitize_pane_json [simp]: "sanitizePersistedPane (pane_json pane) = Some pane"
  by (simp add: sanitizePersistedPane_def pane_json_def)

lemma sanitize_panes_json [simp]: "cat_options (map (sanitizePersistedPane \<circ> pane_json) panes) = panes"
  by (induction panes) simp_all

lemma sanitize_dock_json: "dock_anchored state \<Longrightarrow> sanitizeRightDockThreadState (dock_json state) = state"
  by (cases "dockActiveId state")
    (auto simp: dock_anchored_def sanitizeRightDockThreadState_def dock_json_def null_or_def list_ex_iff
      list_get_def Let_def)

lemma sanitized_anchored: "dock_anchored (sanitizeRightDockThreadState v)"
proof (cases "isPlainObject (Some v)")
  case True
  define panes where "panes = (case json_prop v ''panes'' of
      Some (JArr vs) \<Rightarrow> cat_options (map sanitizePersistedPane vs) | _ \<Rightarrow> [])"
  define first where "first = map_option dockPaneId (list_get panes 0)"
  define act where "act = (case json_prop v ''activePaneId'' of
      Some (JStr a) \<Rightarrow> if list_ex (\<lambda>pane. dockPaneId pane = a) panes then Some a else first
    | _ \<Rightarrow> first)"
  have "sanitizeRightDockThreadState v =
      \<lparr>dockOpen = (length panes > 0 \<and> json_prop v ''open'' = Some (JBool True)), dockPanes = panes, dockActiveId = act\<rparr>"
    unfolding sanitizeRightDockThreadState_def Let_def panes_def [symmetric] first_def [symmetric] act_def [symmetric]
    using True by simp
  moreover have "act = first \<or> (\<exists>a. act = Some a \<and> list_ex (\<lambda>pane. dockPaneId pane = a) panes)"
    by (auto simp: act_def split: option.split json.split)
  moreover have "panes = [] \<Longrightarrow> first = None" "panes \<noteq> [] \<Longrightarrow> \<exists>p\<in>set panes. first = Some (dockPaneId p)"
    by (cases panes; simp add: first_def list_get_def)+
  ultimately show ?thesis by (cases "panes = []") (auto simp: dock_anchored_def list_ex_iff)
qed (simp add: sanitizeRightDockThreadState_def)

lemma merged_anchored: "docks_all dock_anchored (mergeDockState persisted)"
  unfolding docks_all_def mergeDockState_def sanitizeRightDockStateByThreadId_def
  using sanitize_record_all [where f = "\<lambda>raw. Some (sanitizeRightDockThreadState raw)" and P = dock_anchored]
    sanitized_anchored by blast

section \<open>Runs\<close>

text \<open>C30: Whatever was persisted and whatever is done to the docks, an open dock always shows a pane, a closed one
  none, the active tab is always one of the dock's panes, and a dock with panes has an active tab.\<close>

theorem dock_always_shows_pane:
  assumes "state = selectRightDockState t (run_actions dock_step (mergeDockState persisted) actions)"
  shows "(resolveActivePane state \<noteq> None \<longleftrightarrow> dockOpen state) \<and>
    (dockPanes state \<noteq> [] \<longleftrightarrow> dockActiveId state \<noteq> None) \<and>
    (\<forall>a. dockActiveId state = Some a \<longrightarrow> a \<in> set (map dockPaneId (dockPanes state)))"
proof -
  have "admissible dock_step (\<lambda>_ _. True) s actions" for s
    by (induction actions arbitrary: s) simp_all
  then have "docks_all dock_anchored (run_actions dock_step (mergeDockState persisted) actions)"
    by (rule docks.run_inv [OF merged_anchored])
  then have "dock_anchored state"
    unfolding assms selectRightDockState_def nullish_def docks_all_def by (auto split: option.split)
  then show ?thesis
    by (cases "dockActiveId state") (auto simp: dock_anchored_def resolveActivePane_def intro: find_exists)
qed

definition corrupt_dock :: json where
  "corrupt_dock = JObj [(''dockStateByThreadId'', JObj
     [(''t'', JObj [(''open'', JBool True), (''activePaneId'', JStr ''gone''),
        (''panes'', JArr [JObj [(''id'', JStr ''p''), (''kind'', JStr ''wasm'')],
                          JObj [(''id'', JStr ''q''), (''kind'', JStr ''git'')]])])])]"

theorem dock_always_shows_pane_witness:
  "map_option dockPaneId (resolveActivePane
     (selectRightDockState ''t'' (run_actions dock_step (mergeDockState (Some corrupt_dock)) []))) = Some ''q''"
proof -
  have "dockOpen (selectRightDockState ''t'' (run_actions dock_step (mergeDockState (Some corrupt_dock)) []))"
    by code_simp
  with dock_always_shows_pane [OF refl, of "''t''" "Some corrupt_dock" "[]"]
  have "resolveActivePane (selectRightDockState ''t'' (run_actions dock_step (mergeDockState (Some corrupt_dock)) [])) \<noteq> None"
    by blast
  then show ?thesis by code_simp
qed

text \<open>As long as new panes get ids the dock does not use, a dock never has two panes with the same id or two
  panes of a kind of which there can be only one.\<close>

theorem dock_stays_tidy:
  assumes "admissible dock_step dock_fresh [] actions"
    and "state = selectRightDockState t (run_actions dock_step [] actions)"
  shows "distinct (map dockPaneId (dockPanes state)) \<and>
    (\<forall>kind. kind \<noteq> SidechatKind \<and> kind \<noteq> FileKind \<longrightarrow>
      length (filter (\<lambda>pane. dockKind pane = kind) (dockPanes state)) \<le> 1)"
proof -
  have "docks_all dock_tidy (run_actions dock_step [] actions)"
    by (rule tidy_docks.run_inv [OF _ assms(1)]) (simp add: docks_all_def)
  then have t: "dock_tidy state"
    unfolding assms(2) selectRightDockState_def nullish_def docks_all_def by (auto split: option.split)
  have "length (filter (\<lambda>pane. dockKind pane = kind) panes) \<le> 1"
    if "isSingletonPaneKind kind" "distinct (filter isSingletonPaneKind (map dockKind panes))" for kind panes
    using that
  proof (induction panes)
    case (Cons pane panes)
    show ?case
    proof (cases "dockKind pane = kind")
      case True
      then have "kind \<notin> dockKind ` set panes" using Cons.prems by simp
      then have "\<forall>q\<in>set panes. dockKind q \<noteq> kind" by blast
      with True show ?thesis by (simp add: filter_empty_conv)
    next
      case False
      have "distinct (filter isSingletonPaneKind (map dockKind panes))"
        using Cons.prems(2) by (simp split: if_splits)
      with Cons.IH [OF Cons.prems(1)] False show ?thesis by simp
    qed
  qed simp
  with t show ?thesis by (auto simp: dock_tidy_def singleton_kinds)
qed

definition plain_input :: "dock_kind \<Rightarrow> open_pane_input" where
  "plain_input kind = \<lparr>inputPaneId = [], inputKind = kind, inputThreadId = None, inputDiffTurnId = None,
     inputDiffFilePath = None, inputFilePath = None\<rparr>"

definition sample_docking :: "dock_action list" where
  "sample_docking =
     [OpenPane ''t'' None (plain_input DiffKind) ''p1'', OpenPane ''t'' None (plain_input FileKind) ''p2'',
      ToggleSingletonPane ''t'' None (plain_input DiffKind) ''p3'', ClosePane ''t'' ''p1'']"

theorem dock_stays_tidy_witness:
  "map dockPaneId (dockPanes (selectRightDockState ''t'' (run_actions dock_step [] sample_docking))) = [''p2''] \<and>
   distinct (map dockPaneId (dockPanes (selectRightDockState ''t'' (run_actions dock_step [] sample_docking))))"
proof
  show "map dockPaneId (dockPanes (selectRightDockState ''t'' (run_actions dock_step [] sample_docking))) = [''p2'']"
    by code_simp
  have "admissible dock_step dock_fresh [] sample_docking" by code_simp
  from conjunct1 [OF dock_stays_tidy [OF this refl]]
  show "distinct (map dockPaneId (dockPanes (selectRightDockState ''t'' (run_actions dock_step [] sample_docking))))" .
qed

section \<open>The dock as a tab strip\<close>

lemma active_pane_iff:
  assumes "distinct (map dockPaneId (dockPanes state))" "pane \<in> set (dockPanes state)"
  shows "resolveActivePane state = Some pane \<longleftrightarrow> dockOpen state \<and> dockActiveId state = Some (dockPaneId pane)"
proof
  assume "resolveActivePane state = Some pane"
  then show "dockOpen state \<and> dockActiveId state = Some (dockPaneId pane)"
    by (auto simp: resolveActivePane_def split: if_splits dest: find_Some_mem)
next
  assume a: "dockOpen state \<and> dockActiveId state = Some (dockPaneId pane)"
  then have "List.find (\<lambda>q. Some (dockPaneId q) = dockActiveId state) (dockPanes state) \<noteq> None"
    using assms(2) by (auto simp: find_None_iff)
  then obtain q where q: "List.find (\<lambda>q. Some (dockPaneId q) = dockActiveId state) (dockPanes state) = Some q"
    by blast
  with find_Some_mem [OF q] a assms have "q = pane" by (auto simp: distinct_map inj_on_def)
  with q a show "resolveActivePane state = Some pane" by (simp add: resolveActivePane_def)
qed

lemma toggle_refines:
  assumes "distinct (map dockPaneId (dockPanes state))"
  shows "strip_of (toggleSingletonPaneInState state inp) =
    strip_apply (case findSingletonPane state (inputKind inp) of
        Some pane \<Rightarrow> if resolveActivePane state = Some pane then ShowStrip False else open_event state inp
      | None \<Rightarrow> open_event state inp) (strip_of state)"
proof (cases "findSingletonPane state (inputKind inp)")
  case None
  then show ?thesis by (simp add: toggleSingletonPaneInState_def open_refines)
next
  case (Some pane)
  then have "pane \<in> set (dockPanes state)" by (auto simp: findSingletonPane_def dest: find_Some_mem)
  note iff = active_pane_iff [OF assms this]
  show ?thesis
  proof (cases "dockOpen state \<and> dockActiveId state = Some (dockPaneId pane)")
    case True
    with iff Some show ?thesis by (simp add: toggleSingletonPaneInState_def) (simp add: strip_of_def)
  next
    case False
    then have "toggleSingletonPaneInState state inp = openPaneInState state inp"
      using Some by (auto simp: toggleSingletonPaneInState_def)
    with iff False Some open_refines [of state inp] show ?thesis by simp
  qed
qed

text \<open>C31: A dock with distinct pane ids behaves as a tab strip: opening a pane selects the tab that shows the content
  already or adds one at the end, closing the selected tab selects its right neighbour or else the
  last tab, activating, showing and hiding do what they say, and updating a pane touches no tab.\<close>

theorem dock_refines_strip:
  assumes "distinct (map dockPaneId (dockPanes state))"
  shows "strip_of (openPaneInState state inp) = strip_apply (open_event state inp) (strip_of state) \<and>
    strip_of (closePaneInState state p) = strip_apply (CloseTab p) (strip_of state) \<and>
    strip_of (setActivePaneInState state p) = strip_apply (SelectTab p) (strip_of state) \<and>
    strip_of (setDockOpenInState state b) = strip_apply (ShowStrip b) (strip_of state) \<and>
    strip_of (updatePaneInState state p patch) = strip_apply NoEvent (strip_of state) \<and>
    strip_of (toggleSingletonPaneInState state inp) =
      strip_apply (case findSingletonPane state (inputKind inp) of
          Some pane \<Rightarrow> if resolveActivePane state = Some pane then ShowStrip False else open_event state inp
        | None \<Rightarrow> open_event state inp) (strip_of state)"
proof (intro conjI)
  show "strip_of (openPaneInState state inp) = strip_apply (open_event state inp) (strip_of state)"
    by (rule open_refines)
  show "strip_of (closePaneInState state p) = strip_apply (CloseTab p) (strip_of state)"
    by (rule close_refines [OF assms])
  show "strip_of (setActivePaneInState state p) = strip_apply (SelectTab p) (strip_of state)"
    by (auto simp: setActivePaneInState_def strip_of_def list_ex_iff)
  show "strip_of (setDockOpenInState state b) = strip_apply (ShowStrip b) (strip_of state)"
    by (auto simp: setDockOpenInState_def strip_of_def)
  show "strip_of (updatePaneInState state p patch) = strip_apply NoEvent (strip_of state)"
    by (simp add: strip_of_def dock_update_ids)
  show "strip_of (toggleSingletonPaneInState state inp) =
      strip_apply (case findSingletonPane state (inputKind inp) of
          Some pane \<Rightarrow> if resolveActivePane state = Some pane then ShowStrip False else open_event state inp
        | None \<Rightarrow> open_event state inp) (strip_of state)"
    by (rule toggle_refines [OF assms])
qed

definition two_tabs :: dock_state where
  "two_tabs = selectRightDockState ''t'' (run_actions dock_step [] (take 2 sample_docking))"

theorem dock_refines_strip_witness:
  "strip_of (closePaneInState two_tabs ''p2'') =
     \<lparr>stripShown = True, stripTabs = [''p1''], stripSelected = Some ''p1''\<rparr>"
proof -
  have d: "distinct (map dockPaneId (dockPanes two_tabs))" by code_simp
  have "strip_apply (CloseTab ''p2'') (strip_of two_tabs) =
      \<lparr>stripShown = True, stripTabs = [''p1''], stripSelected = Some ''p1''\<rparr>" by code_simp
  with dock_refines_strip [OF d] show ?thesis by simp
qed

text \<open>Opening a pane leaves a dock with distinct pane ids showing a pane of the requested kind with the requested
  content: the thread of a side chat, the path of a file, the turn and file of a diff.\<close>

theorem opened_pane_shown:
  assumes "distinct (map dockPaneId (dockPanes state))" "fresh_in (inputPaneId inp) state"
  shows "\<exists>pane. resolveActivePane (openPaneInState state inp) = Some pane \<and> dockKind pane = inputKind inp \<and>
    (\<forall>t. inputKind inp = SidechatKind \<longrightarrow> inputThreadId inp = Some t \<longrightarrow> dockThreadId pane = t) \<and>
    (inputKind inp = FileKind \<longrightarrow> dockFilePath pane = nullish (inputFilePath inp) None) \<and>
    (\<forall>turn. inputKind inp = DiffKind \<longrightarrow> inputDiffTurnId inp = Some turn \<longrightarrow> dockDiffTurnId pane = turn)"
proof (cases "shown_pane state inp")
  case None
  have "\<forall>pane\<in>set (dockPanes state). dockPaneId pane \<noteq> inputPaneId inp"
    using assms(2) unfolding fresh_in_def set_map by (metis image_eqI)
  then have "resolveActivePane (openNewPane state inp) = Some (createPane inp)"
    by (simp add: resolveActivePane_def openNewPane_def Let_def createPane_def find_snoc)
  then show ?thesis using None by (simp add: open_new createPane_def)
next
  case (Some pane)
  note mem = shown_pane_mem [OF Some] and op = open_shown [OF Some]
  let ?new = "openPaneInState state inp"
  define patched where "patched = (case singletonPaneReopenPatch inp of
      Some (turn, path) \<Rightarrow> if isSingletonPaneKind (inputKind inp)
        then pane\<lparr>dockDiffTurnId := turn, dockDiffFilePath := path\<rparr> else pane
    | None \<Rightarrow> pane)"
  have id: "dockPaneId patched = dockPaneId pane" "dockKind patched = dockKind pane"
    "dockThreadId patched = dockThreadId pane" "dockFilePath patched = dockFilePath pane"
    by (auto simp: patched_def split: option.split)
  have patched: "patched \<in> set (dockPanes ?new)"
    using Some mem by (auto simp: openPaneInState_def shown_pane_def patched_def Let_def image_iff
        split: option.splits if_splits)
  have "List.find (\<lambda>q. Some (dockPaneId q) = dockActiveId ?new) (dockPanes ?new) \<noteq> None"
    using op patched id by (auto simp: find_None_iff)
  then obtain q where q: "List.find (\<lambda>q. Some (dockPaneId q) = dockActiveId ?new) (dockPanes ?new) = Some q"
    by blast
  have "distinct (map dockPaneId (dockPanes ?new))" using op assms(1) by simp
  then have "q = patched"
    by (rule distinct_key) (use find_Some_mem [OF q] op patched id in simp_all)
  with q op have r: "resolveActivePane ?new = Some patched" by (simp add: resolveActivePane_def)
  have "inputKind inp = SidechatKind \<Longrightarrow> inputThreadId inp = Some t \<Longrightarrow> dockThreadId pane = t" for t
    using Some by (auto simp: shown_pane_def singleton_kinds findMatchingMultiInstancePane_def split: option.splits if_splits
        dest: find_Some_mem)
  moreover have "inputKind inp = FileKind \<Longrightarrow> dockFilePath pane = nullish (inputFilePath inp) None"
    using Some by (auto simp: shown_pane_def singleton_kinds findMatchingMultiInstancePane_def dest: find_Some_mem)
  moreover have "inputKind inp = DiffKind \<Longrightarrow> inputDiffTurnId inp = Some turn \<Longrightarrow> dockDiffTurnId patched = turn" for turn
    by (simp add: patched_def singletonPaneReopenPatch_def singleton_kinds)
  ultimately show ?thesis using r id mem by (intro exI [of _ patched]) simp
qed

theorem opened_pane_shown_witness:
  "map_option dockPaneId (resolveActivePane (openPaneInState two_tabs
     ((plain_input DiffKind)\<lparr>inputPaneId := ''p9'', inputDiffTurnId := Some (Some ''turn'')\<rparr>))) = Some ''p1'' \<and>
   map_option dockDiffTurnId (resolveActivePane (openPaneInState two_tabs
     ((plain_input DiffKind)\<lparr>inputPaneId := ''p9'', inputDiffTurnId := Some (Some ''turn'')\<rparr>))) = Some (Some ''turn'')"
proof
  let ?inp = "(plain_input DiffKind)\<lparr>inputPaneId := ''p9'', inputDiffTurnId := Some (Some ''turn'')\<rparr>"
  show "map_option dockPaneId (resolveActivePane (openPaneInState two_tabs ?inp)) = Some ''p1''" by code_simp
  have "distinct (map dockPaneId (dockPanes two_tabs))" "fresh_in (inputPaneId ?inp) two_tabs" by (code_simp, code_simp)
  from opened_pane_shown [OF this]
  show "map_option dockDiffTurnId (resolveActivePane (openPaneInState two_tabs ?inp)) = Some (Some ''turn'')"
    by (auto simp: plain_input_def)
qed

section \<open>Persistence\<close>

section \<open>Reading back\<close>

interpretation keyed_docks: invariant_store dock_step "\<lambda>_ _. True" "\<lambda>store. distinct (map fst store)"
proof
  fix store a
  assume "distinct (map fst (store :: dock_store))"
  then show "distinct (map fst (dock_step store a))"
    by (cases a) (simp_all add: commit_def Let_def rec_set_distinct rec_delete_distinct)
qed

lemma merged_distinct: "distinct (map fst (mergeDockState persisted))"
  by (simp add: mergeDockState_def sanitizeRightDockStateByThreadId_def sanitize_record_distinct)

lemma dock_store_read:
  assumes "docks_all dock_anchored store" "distinct (map fst store)"
  shows "mergeDockState (Some (dock_store_json store)) = filter (\<lambda>e. fst e \<notin> set UNSAFE_RECORD_KEYS) store"
proof -
  have "sanitizeStringKeyedRecord (Some (JObj (map (\<lambda>(t, s). (t, dock_json s)) store)))
      (\<lambda>raw. Some (sanitizeRightDockThreadState raw)) = filter (\<lambda>e. fst e \<notin> set UNSAFE_RECORD_KEYS) store"
  proof (rule sanitize_record_map [OF assms(2)])
    fix t s assume "(t, s) \<in> set store"
    then have "dock_anchored s" using assms by (simp add: docks_all_def)
    then show "Some (sanitizeRightDockThreadState (dock_json s)) = Some s" by (simp add: sanitize_dock_json)
  qed
  then show ?thesis
    by (simp add: mergeDockState_def dock_store_json_def sanitizeRightDockStateByThreadId_def)
qed

text \<open>C32: Whatever was persisted before and whatever was done to the docks since, reading back what the store
  now persists gives the docks of all threads, in the same order and with the same panes, active tab and
  visibility, except under the three keys the reader refuses, \<open>__proto__\<close>, \<open>constructor\<close> and \<open>prototype\<close>:
  a dock of a thread named so is not read back.\<close>

theorem dock_persist_roundtrip:
  "mergeDockState (Some (dock_store_json (run_actions dock_step (mergeDockState persisted) actions))) =
     filter (\<lambda>e. fst e \<notin> set UNSAFE_RECORD_KEYS) (run_actions dock_step (mergeDockState persisted) actions)"
proof (rule dock_store_read)
  have all: "admissible dock_step (\<lambda>_ _. True) s actions" for s by (induction actions arbitrary: s) simp_all
  show "docks_all dock_anchored (run_actions dock_step (mergeDockState persisted) actions)"
    by (rule docks.run_inv [OF merged_anchored all])
  show "distinct (map fst (run_actions dock_step (mergeDockState persisted) actions))"
    by (rule keyed_docks.run_inv [OF merged_distinct all])
qed

end
