(* ===== verification/RecentViews.thy ===== *)
theory RecentViews
  imports Json
begin

text \<open>
  The switcher of recent views: \<open>frontend/src/recentViews.logic.ts\<close> and the persisted store
  \<open>frontend/src/recentViewsStore.ts\<close>. Of the thread, project and workspace records only the
  fields the module reads are modelled; the provider and the terminal identity are type
  parameters. The sets of available ids are lists, read by membership.
\<close>

section \<open>Types\<close>

datatype recent_view =
    ThreadView string "string option"
  | WorkspaceView string
  | SettingsView "string option"
  | PluginsView

datatype view_kind = ThreadKind | WorkspaceKind | SettingsKind | PluginsKind

fun kindOf :: "recent_view \<Rightarrow> view_kind" where
  "kindOf (ThreadView _ _) = ThreadKind"
| "kindOf (WorkspaceView _) = WorkspaceKind"
| "kindOf (SettingsView _) = SettingsKind"
| "kindOf PluginsView = PluginsKind"

definition MAX_RECENT_VIEWS :: nat where "MAX_RECENT_VIEWS = 5"

record view_availability =
  availableThreadIds :: "string list"
  availableWorkspaceIds :: "string list"
  availableSplitViewIds :: "string list"
  threadIdsBySplitViewId :: "string list js_record option"

definition SETTINGS_LABELS :: "string js_record" where
  "SETTINGS_LABELS = [(''general'', ''General''), (''appearance'', ''Appearance''),
     (''providers'', ''Providers''), (''keybindings'', ''Keybindings'')]"

text \<open>The id is \<open>None\<close> when absent, null or blank.\<close>

definition normalizeOptionalId :: "string option \<Rightarrow> string option" where
  "normalizeOptionalId v =
     (let trimmed = js_trim (nullish v []) in if length trimmed > 0 then Some trimmed else None)"

fun non_empty :: "string option \<Rightarrow> bool" where
  "non_empty None = False"
| "non_empty (Some s) = (s \<noteq> [])"

section \<open>Keys\<close>

fun recentViewKey :: "recent_view \<Rightarrow> string" where
  "recentViewKey (ThreadView t s) =
     (if non_empty s then ''thread:'' @ t @ '':split:'' @ the s else ''thread:'' @ t)"
| "recentViewKey (WorkspaceView w) = ''workspace:'' @ w"
| "recentViewKey (SettingsView s) = (if non_empty s then ''settings:'' @ the s else ''settings'')"
| "recentViewKey PluginsView = ''plugins''"

record current_view_input =
  pathname :: string
  routeThreadId :: "string option"
  activeThreadId :: "string option"
  routeWorkspaceId :: "string option"
  routeSplitViewId :: "string option"
  settingsSection :: "string option"

definition deriveCurrentRecentView :: "current_view_input \<Rightarrow> recent_view option" where
  "deriveCurrentRecentView inp =
     (let splitViewId = normalizeOptionalId (routeSplitViewId inp)
      in if take 11 (pathname inp) = ''/workspace/'' \<and> non_empty (routeWorkspaceId inp)
         then Some (WorkspaceView (the (routeWorkspaceId inp)))
         else if pathname inp = ''/settings'' then Some (SettingsView (normalizeOptionalId (settingsSection inp)))
         else if pathname inp = ''/plugins'' then Some PluginsView
         else if non_empty (routeThreadId inp)
         then Some (ThreadView (nullish (activeThreadId inp) (the (routeThreadId inp))) splitViewId)
         else None)"

section \<open>The list of recent views\<close>

definition upsertRecentView :: "recent_view list \<Rightarrow> recent_view \<Rightarrow> nat \<Rightarrow> recent_view list" where
  "upsertRecentView recentViews view limit =
     (let key = recentViewKey view;
          deduped = filter (\<lambda>entry. recentViewKey entry \<noteq> key) recentViews
      in take limit (view # deduped))"

fun normalizeAvailableView :: "recent_view \<Rightarrow> view_availability \<Rightarrow> recent_view option" where
  "normalizeAvailableView (ThreadView t s) av =
     (if t \<notin> set (availableThreadIds av) then None
      else if non_empty s \<and>
        (let splitThreadIds = (case threadIdsBySplitViewId av of None \<Rightarrow> None | Some m \<Rightarrow> rec_get m (the s));
             splitStillContainsThread = (case splitThreadIds of None \<Rightarrow> True | Some ids \<Rightarrow> t \<in> set ids)
         in the s \<notin> set (availableSplitViewIds av) \<or> \<not> splitStillContainsThread)
      then Some (ThreadView t None)
      else Some (ThreadView t s))"
| "normalizeAvailableView (WorkspaceView w) av =
     (if w \<in> set (availableWorkspaceIds av) then Some (WorkspaceView w) else None)"
| "normalizeAvailableView view av = Some view"

text \<open>The loop, with the keys seen and the views collected.\<close>

fun pruneLoop ::
    "view_availability \<Rightarrow> nat \<Rightarrow> recent_view list \<Rightarrow> string list \<Rightarrow> recent_view list \<Rightarrow> recent_view list" where
  "pruneLoop av limit [] seen nextViews = nextViews"
| "pruneLoop av limit (view # rest) seen nextViews =
     (case normalizeAvailableView view av of
        None \<Rightarrow> pruneLoop av limit rest seen nextViews
      | Some normalized \<Rightarrow>
          let key = recentViewKey normalized
          in if key \<in> set seen then pruneLoop av limit rest seen nextViews
             else if length (nextViews @ [normalized]) \<ge> limit then nextViews @ [normalized]
             else pruneLoop av limit rest (key # seen) (nextViews @ [normalized]))"

definition pruneRecentViews :: "recent_view list \<Rightarrow> view_availability \<Rightarrow> nat \<Rightarrow> recent_view list" where
  "pruneRecentViews recentViews av limit = pruneLoop av limit recentViews [] []"

datatype view_direction = NextView | PreviousView

text \<open>\<open>findIndex\<close> gives -1, here \<open>None\<close>, for a key that no view has.\<close>

definition resolveRecentViewNavigationIndex ::
    "recent_view list \<Rightarrow> recent_view option \<Rightarrow> string option \<Rightarrow> view_direction \<Rightarrow> nat option" where
  "resolveRecentViewNavigationIndex recentViews currentView selectedKey direction =
     (if length recentViews < 2 then None
      else
        let preferredKey = orelse selectedKey (map_option recentViewKey currentView);
            preferredIndex = (case preferredKey of
                None \<Rightarrow> None
              | Some key \<Rightarrow> find_index (\<lambda>view. recentViewKey view = key) recentViews);
            startIndex = nullish preferredIndex 0;
            n = length recentViews
        in Some (case direction of
             NextView \<Rightarrow> (startIndex + 1 + n) mod n
           | PreviousView \<Rightarrow> (startIndex + n - 1) mod n))"

section \<open>Display\<close>

datatype ('p, 'i) display_icon =
    ChatIcon | ProviderIcon 'p | TerminalIcon 'i | WorkspaceIcon | SettingsIcon | PluginsIcon

record 'p thread_summary =
  summaryTitle :: string
  summaryProjectId :: string
  summaryProvider :: 'p
  summaryIsPinned :: bool

record draft_summary =
  draftTitle :: "string option"
  draftProjectId :: string
  draftIsPinned :: bool

record ('p, 'i) display_entry =
  entryKey :: string
  entryView :: recent_view
  entryKind :: view_kind
  entryIcon :: "('p, 'i) display_icon"
  entryTitle :: string
  entrySubtitle :: string
  isCurrent :: bool
  isPinned :: bool
  isSplit :: bool
  isTerminal :: bool
  entryProvider :: "'p option"
  terminalIdentity :: "'i option"

definition resolveThreadDisplayIcon :: "'p option \<Rightarrow> 'i option \<Rightarrow> ('p, 'i) display_icon" where
  "resolveThreadDisplayIcon provider identity =
     (case identity of Some i \<Rightarrow> TerminalIcon i
      | None \<Rightarrow> (case provider of Some p \<Rightarrow> ProviderIcon p | None \<Rightarrow> ChatIcon))"

fun join_with :: "string \<Rightarrow> string list \<Rightarrow> string" where
  "join_with sep [] = []"
| "join_with sep [x] = x"
| "join_with sep (x # y # ys) = x @ sep @ join_with sep (y # ys)"

text \<open>The middle dot of the subtitle is the code unit 183.\<close>

definition middle_dot :: string where "middle_dot = [CHR '' '', char_of (183::nat), CHR '' '']"

record ('p, 'i) display_input =
  displayViews :: "recent_view list"
  displayCurrent :: "recent_view option"
  threadsById :: "'p thread_summary js_record"
  draftThreadsById :: "draft_summary js_record"
  displayProjects :: "(string \<times> string) list"
  pinnedThreadIds :: "string list"
  workspacePages :: "(string \<times> string) list"
  identityByThreadId :: "'i js_record"

text \<open>The fields every entry has; the identity of a terminal is looked up for threads only.\<close>

definition viewIdentity :: "('p, 'i) display_input \<Rightarrow> recent_view \<Rightarrow> 'i option" where
  "viewIdentity inp view = (case view of ThreadView t s \<Rightarrow> rec_get (identityByThreadId inp) t | _ \<Rightarrow> None)"

definition baseEntry ::
    "('p, 'i) display_input \<Rightarrow> recent_view \<Rightarrow> ('p, 'i) display_icon \<Rightarrow> string \<Rightarrow> string \<Rightarrow> ('p, 'i) display_entry" where
  "baseEntry inp view icon title subtitle =
     \<lparr>entryKey = recentViewKey view, entryView = view, entryKind = kindOf view, entryIcon = icon,
      entryTitle = title, entrySubtitle = subtitle,
      isCurrent = (Some (recentViewKey view) = map_option recentViewKey (displayCurrent inp)),
      isPinned = False,
      isSplit = (case view of ThreadView t s \<Rightarrow> non_empty s | _ \<Rightarrow> False),
      isTerminal = (viewIdentity inp view \<noteq> None),
      entryProvider = None, terminalIdentity = viewIdentity inp view\<rparr>"

definition threadEntry :: "('p, 'i) display_input \<Rightarrow> string \<Rightarrow> string option \<Rightarrow> ('p, 'i) display_entry" where
  "threadEntry inp t s =
     (let identity = viewIdentity inp (ThreadView t s);
          summary = rec_get (threadsById inp) t;
          draft = (if summary = None then rec_get (draftThreadsById inp) t else None);
          projectId = orelse (map_option summaryProjectId summary) (map_option draftProjectId draft);
          projectName = (case projectId of
              None \<Rightarrow> None | Some p \<Rightarrow> rec_get (from_entries (displayProjects inp)) p);
          provider = map_option summaryProvider summary;
          threadTitle = (case summary of Some x \<Rightarrow> Some (summaryTitle x)
            | None \<Rightarrow> (case draft of Some d \<Rightarrow> draftTitle d | None \<Rightarrow> None));
          pinned = (case summary of Some x \<Rightarrow> summaryIsPinned x
            | None \<Rightarrow> (case draft of Some d \<Rightarrow> draftIsPinned d | None \<Rightarrow> False));
          parts = filter (\<lambda>part. part \<noteq> [])
            [nullish projectName ''Chat'', if identity \<noteq> None then ''Terminal'' else ''Chat'',
             if non_empty s then ''Split'' else []]
      in (baseEntry inp (ThreadView t s) (resolveThreadDisplayIcon provider identity)
            (nullish (normalizeOptionalId threadTitle) ''New chat'') (join_with middle_dot parts))
         \<lparr>entryProvider := provider, isPinned := (t \<in> set (pinnedThreadIds inp) \<or> pinned)\<rparr>)"

definition displayEntry :: "('p, 'i) display_input \<Rightarrow> recent_view \<Rightarrow> ('p, 'i) display_entry" where
  "displayEntry inp view =
     (case view of
        ThreadView t s \<Rightarrow> threadEntry inp t s
      | WorkspaceView w \<Rightarrow>
          baseEntry inp view WorkspaceIcon (nullish (rec_get (from_entries (workspacePages inp)) w) ''Workspace'')
            ''Terminal workspace''
      | SettingsView s \<Rightarrow>
          baseEntry inp view SettingsIcon ''Settings''
            (if non_empty s then nullish (rec_get SETTINGS_LABELS (the s)) (the s) else ''App settings'')
      | PluginsView \<Rightarrow> baseEntry inp view PluginsIcon ''Plugins'' ''Extensions and integrations'')"

definition buildRecentViewDisplayEntries :: "('p, 'i) display_input \<Rightarrow> ('p, 'i) display_entry list" where
  "buildRecentViewDisplayEntries inp = map (displayEntry inp) (displayViews inp)"

section \<open>Store\<close>

fun normalizeStoredId :: "json option \<Rightarrow> string option" where
  "normalizeStoredId (Some (JStr s)) = (if length (js_trim s) > 0 then Some (js_trim s) else None)"
| "normalizeStoredId _ = None"

definition normalizeRecentView :: "json \<Rightarrow> recent_view option" where
  "normalizeRecentView inp =
     (if \<not> is_object inp then None
      else if json_prop inp ''kind'' = Some (JStr ''thread'') then
        (case normalizeStoredId (json_prop inp ''threadId'') of
           None \<Rightarrow> None
         | Some t \<Rightarrow> Some (ThreadView t (normalizeStoredId (json_prop inp ''splitViewId''))))
      else if json_prop inp ''kind'' = Some (JStr ''workspace'') then
        map_option WorkspaceView (normalizeStoredId (json_prop inp ''workspaceId''))
      else if json_prop inp ''kind'' = Some (JStr ''settings'') then
        Some (SettingsView (normalizeStoredId (json_prop inp ''section'')))
      else if json_prop inp ''kind'' = Some (JStr ''plugins'') then Some PluginsView
      else None)"

fun dedupeViews :: "recent_view list \<Rightarrow> string list \<Rightarrow> recent_view list" where
  "dedupeViews [] seen = []"
| "dedupeViews (view # rest) seen =
     (if recentViewKey view \<in> set seen then dedupeViews rest seen
      else view # dedupeViews rest (recentViewKey view # seen))"

definition normalizeRecentViews :: "json option \<Rightarrow> recent_view list" where
  "normalizeRecentViews inp =
     (case inp of
        Some (JArr items) \<Rightarrow>
          take MAX_RECENT_VIEWS (dedupeViews (cat_options (map normalizeRecentView items)) [])
      | _ \<Rightarrow> [])"

definition recentViewsEqual :: "recent_view list \<Rightarrow> recent_view list \<Rightarrow> bool" where
  "recentViewsEqual left right \<longleftrightarrow>
     length left = length right \<and> list_all2 (\<lambda>view other. recentViewKey view = recentViewKey other) left right"

datatype recent_action = RecordRecentView recent_view | PruneRecentViews view_availability

fun recent_step :: "recent_view list \<Rightarrow> recent_action \<Rightarrow> recent_view list" where
  "recent_step views (RecordRecentView view) =
     (let next' = upsertRecentView views view MAX_RECENT_VIEWS
      in if recentViewsEqual views next' then views else next')"
| "recent_step views (PruneRecentViews av) =
     (let next' = pruneRecentViews views av MAX_RECENT_VIEWS
      in if recentViewsEqual views next' then views else next')"

definition mergeRecentViews :: "json option \<Rightarrow> recent_view list" where
  "mergeRecentViews persisted =
     normalizeRecentViews (case persisted of None \<Rightarrow> None | Some p \<Rightarrow> json_prop p ''recentViews'')"

section \<open>Lemmas\<close>

definition recent_ok :: "recent_view list \<Rightarrow> bool" where
  "recent_ok views \<longleftrightarrow> length views \<le> MAX_RECENT_VIEWS \<and> distinct (map recentViewKey views)"

lemma filter_keys: "map f (filter (\<lambda>x. f x \<noteq> k) xs) = removeAll k (map f xs)"
  by (induction xs) auto

lemma upsert_keys:
  "map recentViewKey (upsertRecentView views view limit) =
     take limit (recentViewKey view # removeAll (recentViewKey view) (map recentViewKey views))"
  by (simp add: upsertRecentView_def Let_def flip: take_map filter_keys)

lemma equal_keys: "recentViewsEqual l r \<longleftrightarrow> map recentViewKey l = map recentViewKey r"
  by (auto simp: recentViewsEqual_def list_all2_conv_all_nth list_eq_iff_nth_eq)

lemma dedupe_props:
  "distinct (map recentViewKey (dedupeViews views seen)) \<and>
   set (map recentViewKey (dedupeViews views seen)) \<inter> set seen = {} \<and> set (dedupeViews views seen) \<subseteq> set views"
  by (induction views seen rule: dedupeViews.induct) auto

lemma dedupe_id:
  "distinct (map recentViewKey views) \<Longrightarrow> set (map recentViewKey views) \<inter> set seen = {} \<Longrightarrow>
     dedupeViews views seen = views"
  by (induction views seen rule: dedupeViews.induct) auto

lemma merged_recent_ok: "recent_ok (mergeRecentViews persisted)"
proof -
  have "recent_ok (normalizeRecentViews v)" for v
    using dedupe_props by (auto simp: normalizeRecentViews_def recent_ok_def simp flip: take_map split: option.split json.split)
  then show ?thesis by (simp add: mergeRecentViews_def)
qed

text \<open>What pruning collects: available views with distinct keys, up to the limit.\<close>

lemma prune_inv:
  assumes "distinct (map recentViewKey acc)" "set (map recentViewKey acc) = set seen" "length acc < limit"
    and "\<forall>v\<in>set acc. normalizeAvailableView v av = Some v"
  shows "distinct (map recentViewKey (pruneLoop av limit views seen acc)) \<and>
    length (pruneLoop av limit views seen acc) \<le> limit \<and>
    (\<forall>v\<in>set (pruneLoop av limit views seen acc). normalizeAvailableView v av = Some v)"
proof -
  have keep: "normalizeAvailableView w av = Some w" if "normalizeAvailableView v av = Some w" for v w
    using that by (cases v) (auto simp: Let_def split: if_splits)
  show ?thesis
    using assms
  proof (induction views arbitrary: seen acc)
    case (Cons v views)
    show ?case
    proof (cases "normalizeAvailableView v av")
      case None
      with Cons show ?thesis by simp
    next
      case (Some w)
      show ?thesis
      proof (cases "recentViewKey w \<in> set seen")
        case True
        with Some Cons show ?thesis by simp
      next
        case False
        have "distinct (map recentViewKey (acc @ [w]))" "set (map recentViewKey (acc @ [w])) = set (recentViewKey w # seen)"
          "\<forall>v\<in>set (acc @ [w]). normalizeAvailableView v av = Some v"
          using Cons.prems False keep [OF Some] by auto
        with Some False Cons.prems(3) Cons.IH [of "acc @ [w]" "recentViewKey w # seen"] show ?thesis
          by (simp add: Let_def)
      qed
    qed
  qed simp
qed

lemma pruned:
  assumes "0 < limit"
  shows "distinct (map recentViewKey (pruneRecentViews views av limit)) \<and>
    length (pruneRecentViews views av limit) \<le> limit \<and>
    (\<forall>v\<in>set (pruneRecentViews views av limit). normalizeAvailableView v av = Some v)"
  unfolding pruneRecentViews_def by (rule prune_inv) (use assms in simp_all)

lemma prune_fixpoint:
  assumes "distinct (map recentViewKey (acc @ views))" "set (map recentViewKey acc) = set seen"
    and "length (acc @ views) \<le> limit" "\<forall>v\<in>set views. normalizeAvailableView v av = Some v"
  shows "pruneLoop av limit views seen acc = acc @ views"
  using assms
proof (induction views arbitrary: seen acc)
  case (Cons v views)
  have "recentViewKey v \<notin> set seen" using Cons.prems by auto
  moreover have "views = []" if "length (acc @ [v]) \<ge> limit" using that Cons.prems(3) by (cases views) simp_all
  moreover have "pruneLoop av limit views (recentViewKey v # seen) (acc @ [v]) = (acc @ [v]) @ views"
    using Cons.prems by (intro Cons.IH) auto
  ultimately show ?case using Cons.prems(4) by (auto simp: Let_def)
qed simp

interpretation recent: invariant_store recent_step "\<lambda>_ _. True" recent_ok
proof
  fix views a
  assume ok: "recent_ok views"
  show "recent_ok (recent_step views a)"
  proof (cases a)
    case (RecordRecentView view)
    have "length (upsertRecentView views view MAX_RECENT_VIEWS) \<le> MAX_RECENT_VIEWS"
      by (simp add: upsertRecentView_def Let_def)
    moreover have "distinct (map recentViewKey (upsertRecentView views view MAX_RECENT_VIEWS))"
      unfolding upsert_keys using ok by (intro distinct_take) (auto simp: recent_ok_def distinct_removeAll)
    ultimately show ?thesis using ok RecordRecentView by (simp add: recent_ok_def Let_def)
  next
    case (PruneRecentViews av)
    with pruned [of MAX_RECENT_VIEWS views av] ok show ?thesis
      by (simp add: recent_ok_def Let_def MAX_RECENT_VIEWS_def)
  qed
qed

end
