(* ===== verification/RecentViewsProperties.thy ===== *)
theory RecentViewsProperties
  imports RecentViews
begin

text \<open>The properties of the recent views.\<close>

section \<open>The list\<close>

text \<open>The abstract contract: a list of keys, most recent first, without repetition and bounded.\<close>

definition mru_touch :: "string list \<Rightarrow> string \<Rightarrow> string list" where
  "mru_touch keys key = take MAX_RECENT_VIEWS (key # removeAll key keys)"

text \<open>C33: Whatever was persisted and whatever is recorded or pruned, there are at most five recent views, no two with
  the same key; recording a view moves its key to the front of the keys and drops the last one
  when there are too many, and pruning leaves only views that are available.\<close>

theorem recent_views_are_mru:
  assumes "views = run_actions recent_step (mergeRecentViews persisted) actions"
  shows "length views \<le> 5 \<and> distinct (map recentViewKey views) \<and>
    map recentViewKey (recent_step views (RecordRecentView view)) = mru_touch (map recentViewKey views) (recentViewKey view) \<and>
    set (map recentViewKey (recent_step views (PruneRecentViews av))) =
      recentViewKey ` {v \<in> set (pruneRecentViews views av 5). normalizeAvailableView v av = Some v}"
proof -
  have "admissible recent_step (\<lambda>_ _. True) s actions" for s
    by (induction actions arbitrary: s) simp_all
  then have ok: "recent_ok views" unfolding assms by (rule recent.run_inv [OF merged_recent_ok])
  have "map recentViewKey (if recentViewsEqual views n then views else n) = map recentViewKey n" for n
    by (simp add: equal_keys)
  then show ?thesis
    using ok pruned [of 5 views av]
    by (auto simp: recent_ok_def mru_touch_def upsert_keys Let_def MAX_RECENT_VIEWS_def simp del: set_map
        simp: set_map [of recentViewKey "pruneRecentViews views av 5"])
qed

theorem recent_views_are_mru_witness:
  "map recentViewKey (run_actions recent_step (mergeRecentViews None)
     [RecordRecentView (ThreadView ''a'' None), RecordRecentView PluginsView,
      RecordRecentView (ThreadView ''a'' (Some ''''))]) = [''thread:a'', ''plugins''] \<and>
   mru_touch [''plugins'', ''thread:a''] ''thread:a'' = [''thread:a'', ''plugins'']"
proof -
  let ?two = "run_actions recent_step (mergeRecentViews None)
    [RecordRecentView (ThreadView ''a'' None), RecordRecentView PluginsView]"
  have "map recentViewKey (recent_step ?two (RecordRecentView (ThreadView ''a'' (Some '''')))) =
      mru_touch (map recentViewKey ?two) ''thread:a''"
    using recent_views_are_mru [OF refl, of "None" "[RecordRecentView (ThreadView ''a'' None), RecordRecentView PluginsView]"
        "ThreadView ''a'' (Some '''')" undefined] by simp
  moreover have "map recentViewKey ?two = [''plugins'', ''thread:a'']" by code_simp
  moreover have t: "mru_touch [''plugins'', ''thread:a''] ''thread:a'' = [''thread:a'', ''plugins'']" by code_simp
  ultimately show ?thesis by simp
qed

text \<open>Pruning is idempotent, and it changes nothing when every view is available.\<close>

theorem pruning_idempotent:
  assumes "0 < limit"
  shows "pruneRecentViews (pruneRecentViews views av limit) av limit = pruneRecentViews views av limit"
proof -
  have "pruneLoop av limit (pruneRecentViews views av limit) [] [] = [] @ pruneRecentViews views av limit"
    by (rule prune_fixpoint) (use pruned [OF assms, of views av] in simp_all)
  then show ?thesis by (simp add: pruneRecentViews_def)
qed

theorem pruning_idempotent_witness:
  "let av = \<lparr>availableThreadIds = [''a''], availableWorkspaceIds = [], availableSplitViewIds = [],
       threadIdsBySplitViewId = None\<rparr>;
     once = pruneRecentViews [ThreadView ''a'' (Some ''s''), WorkspaceView ''w'', ThreadView ''a'' None] av 5
   in once = [ThreadView ''a'' None] \<and> pruneRecentViews once av 5 = once"
  unfolding Let_def by (rule conjI, code_simp, rule pruning_idempotent, simp)

section \<open>Keys\<close>

lemma colon_split:
  assumes "CHR '':'' \<notin> set a" "CHR '':'' \<notin> set b" "a @ CHR '':'' # x = b @ CHR '':'' # y"
  shows "a = b \<and> x = y"
proof -
  have "takeWhile (\<lambda>c. c \<noteq> CHR '':'') (a @ CHR '':'' # x) = a" "takeWhile (\<lambda>c. c \<noteq> CHR '':'') (b @ CHR '':'' # y) = b"
    using assms(1,2) by (subst takeWhile_append2; auto)+
  with assms(3) show ?thesis by auto
qed

fun key_ids_ok :: "recent_view \<Rightarrow> bool" where
  "key_ids_ok (ThreadView t s) = (CHR '':'' \<notin> set t \<and> s \<noteq> Some [])"
| "key_ids_ok (WorkspaceView w) = True"
| "key_ids_ok (SettingsView s) = (s \<noteq> Some [])"
| "key_ids_ok PluginsView = True"

text \<open>Two views whose thread ids have no colon and whose optional ids are not empty have the same key only when
  they are the same view.\<close>

theorem recent_key_injective:
  assumes "key_ids_ok v" "key_ids_ok w" "recentViewKey v = recentViewKey w"
  shows "v = w"
proof (cases v)
  case (ThreadView t s)
  then obtain t' s' where w: "w = ThreadView t' s'" using assms(3) by (cases w) (auto split: if_splits)
  have c: "CHR '':'' \<notin> set t" "CHR '':'' \<notin> set t'" using assms(1,2) ThreadView w by simp_all
  define tail where "tail s = (if non_empty s then CHR '':'' # ''split:'' @ the s else [])" for s
  have "recentViewKey (ThreadView t s) = ''thread:'' @ t @ tail s" for t s by (simp add: tail_def)
  then have eq: "t @ tail s = t' @ tail s'" using assms(3) ThreadView w by simp
  show ?thesis
  proof (cases "non_empty s")
    case True
    then have "CHR '':'' \<in> set (t @ tail s)" by (simp add: tail_def)
    then have "non_empty s'" unfolding eq using c(2) by (cases "non_empty s'") (simp_all add: tail_def)
    with eq True colon_split [OF c] have "t = t' \<and> the s = the s'" by (simp add: tail_def) blast
    with True \<open>non_empty s'\<close> ThreadView w show ?thesis by (cases s; cases s') simp_all
  next
    case False
    then have "CHR '':'' \<notin> set (t @ tail s)" using c(1) by (simp add: tail_def)
    then have "CHR '':'' \<notin> set (t' @ tail s')" unfolding eq .
    then have "\<not> non_empty s'" by (auto simp: tail_def split: if_splits)
    with False eq assms(1,2) ThreadView w show ?thesis by (cases s; cases s') (simp_all add: tail_def)
  qed
next
  case (SettingsView s)
  then obtain s' where "w = SettingsView s'" using assms(3) by (cases w) (auto split: if_splits)
  with assms SettingsView show ?thesis by (cases s; cases s') (auto split: if_splits)
qed (use assms in \<open>cases w; auto split: if_splits\<close>)+

theorem recent_key_injective_witness:
  "recentViewKey (ThreadView ''a'' (Some ''s'')) \<noteq> recentViewKey (ThreadView ''a:split'' None) \<and>
   recentViewKey (ThreadView ''a'' (Some ''s'')) \<noteq> recentViewKey (ThreadView ''a'' (Some ''u''))"
proof
  have "ThreadView ''a'' (Some ''s'') \<noteq> ThreadView ''a'' (Some ''u'')" by simp
  then show "recentViewKey (ThreadView ''a'' (Some ''s'')) \<noteq> recentViewKey (ThreadView ''a'' (Some ''u''))"
    using recent_key_injective [of "ThreadView ''a'' (Some ''s'')" "ThreadView ''a'' (Some ''u'')"] by auto
qed simp

section \<open>Navigation\<close>

text \<open>The key of the j-th view finds j, and a step goes one further around the circle.\<close>

lemma key_index:
  assumes "distinct (map recentViewKey views)" "j < length views"
  shows "find_index (\<lambda>view. recentViewKey view = recentViewKey (views ! j)) views = Some j"
proof -
  have "find_index (\<lambda>view. recentViewKey view = recentViewKey (views ! j)) views \<noteq> None"
    using assms(2) by (auto simp: find_index_None_iff)
  then obtain m where m: "find_index (\<lambda>view. recentViewKey view = recentViewKey (views ! j)) views = Some m" by blast
  note fm = find_index_SomeD [OF m]
  have "map recentViewKey views ! m = map recentViewKey views ! j" using fm assms(2) by simp
  then have "m = j" using assms fm nth_eq_iff_index_eq [of "map recentViewKey views" m j] by simp
  with m show ?thesis by simp
qed

lemma navigate_next:
  assumes "2 \<le> length views" "distinct (map recentViewKey views)" "j < length views"
  shows "resolveRecentViewNavigationIndex views None (Some (recentViewKey (views ! j))) NextView =
    Some ((j + 1) mod length views)"
proof -
  have "resolveRecentViewNavigationIndex views None (Some (recentViewKey (views ! j))) NextView =
      Some ((j + 1 + length views) mod length views)"
    using key_index [OF assms(2,3)] assms(1) by (simp add: resolveRecentViewNavigationIndex_def Let_def)
  then show ?thesis by (simp only: mod_add_self2)
qed

lemma navigate_previous:
  assumes "2 \<le> length views" "distinct (map recentViewKey views)" "j < length views"
  shows "resolveRecentViewNavigationIndex views None (Some (recentViewKey (views ! j))) PreviousView =
    Some ((j + length views - 1) mod length views)"
  using key_index [OF assms(2,3)] assms(1) by (simp add: resolveRecentViewNavigationIndex_def Let_def)

text \<open>With at least two views of distinct keys, stepping from a view goes to its neighbour around the circle, the
  steps in the two directions undo each other, and as many steps as there are views visit every
  view and come back.\<close>

theorem navigation_cycles:
  assumes "2 \<le> length views" "distinct (map recentViewKey views)" "i < length views"
  defines "go \<equiv> \<lambda>dir j. the (resolveRecentViewNavigationIndex views None (Some (recentViewKey (views ! j))) dir)"
  shows "go NextView i < length views \<and> go PreviousView i < length views \<and>
    go PreviousView (go NextView i) = i \<and> go NextView (go PreviousView i) = i \<and>
    (\<forall>k. (go NextView ^^ k) i = (i + k) mod length views)"
proof -
  let ?n = "length views"
  have next': "go NextView j = (j + 1) mod ?n" if "j < ?n" for j
    using navigate_next [OF assms(1,2) that] by (simp add: go_def)
  have prev: "go PreviousView j = (j + ?n - 1) mod ?n" if "j < ?n" for j
    using navigate_previous [OF assms(1,2) that] by (simp add: go_def)
  have n: "0 < ?n" using assms(1) by linarith
  have k: "(go NextView ^^ k) i = (i + k) mod ?n" for k
  proof (induction k)
    case (Suc k)
    have "(go NextView ^^ Suc k) i = go NextView ((i + k) mod ?n)" using Suc by simp
    also have "\<dots> = ((i + k) mod ?n + 1) mod ?n" by (rule next') (rule mod_less_divisor [OF n])
    finally show ?case by (simp add: mod_simps)
  qed (use assms(3) in simp)
  have "go PreviousView ((i + 1) mod ?n) = i"
  proof (cases "i + 1 = ?n")
    case True
    then show ?thesis using prev [of 0] n by simp
  next
    case False
    then show ?thesis using prev [of "i + 1"] assms(3) by simp
  qed
  moreover have "go NextView ((i + ?n - 1) mod ?n) = i"
  proof (cases i)
    case 0
    then show ?thesis using next' [of "?n - 1"] n by simp
  next
    case (Suc j)
    then show ?thesis using next' [of j] assms(3) by simp
  qed
  ultimately show ?thesis using next' [OF assms(3)] prev [OF assms(3)] k n by simp
qed

theorem navigation_cycles_witness:
  "resolveRecentViewNavigationIndex [PluginsView, SettingsView None, WorkspaceView ''w''] None
     (Some (recentViewKey ([PluginsView, SettingsView None, WorkspaceView ''w''] ! 2))) NextView = Some 0 \<and>
   the (resolveRecentViewNavigationIndex [PluginsView, SettingsView None, WorkspaceView ''w''] None
     (Some (recentViewKey ([PluginsView, SettingsView None, WorkspaceView ''w''] ! 2))) NextView) < 3"
proof
  let ?views = "[PluginsView, SettingsView None, WorkspaceView ''w'']"
  show "resolveRecentViewNavigationIndex ?views None (Some (recentViewKey (?views ! 2))) NextView = Some 0" by code_simp
  have "2 \<le> length ?views" "distinct (map recentViewKey ?views)" "2 < length ?views" by simp_all
  from conjunct1 [OF navigation_cycles [OF this]]
  show "the (resolveRecentViewNavigationIndex ?views None (Some (recentViewKey (?views ! 2))) NextView) < 3" by simp
qed

section \<open>Persistence\<close>

definition opt_field :: "string \<Rightarrow> string option \<Rightarrow> (string \<times> json) list" where
  "opt_field name v = (case v of None \<Rightarrow> [] | Some s \<Rightarrow> [(name, JStr s)])"

fun view_json :: "recent_view \<Rightarrow> json" where
  "view_json (ThreadView t s) = JObj ([(''kind'', JStr ''thread''), (''threadId'', JStr t)] @ opt_field ''splitViewId'' s)"
| "view_json (WorkspaceView w) = JObj [(''kind'', JStr ''workspace''), (''workspaceId'', JStr w)]"
| "view_json (SettingsView s) = JObj ([(''kind'', JStr ''settings'')] @ opt_field ''section'' s)"
| "view_json PluginsView = JObj [(''kind'', JStr ''plugins'')]"

fun ids_trimmed :: "recent_view \<Rightarrow> bool" where
  "ids_trimmed (ThreadView t s) = (trimmed t \<and> (\<forall>x. s = Some x \<longrightarrow> trimmed x))"
| "ids_trimmed (WorkspaceView w) = trimmed w"
| "ids_trimmed (SettingsView s) = (\<forall>x. s = Some x \<longrightarrow> trimmed x)"
| "ids_trimmed PluginsView = True"

lemma stored_trimmed: "trimmed s \<Longrightarrow> normalizeStoredId (Some (JStr s)) = Some s"
  using js_trim_id by (auto simp: trimmed_def)

lemma view_json_back: "ids_trimmed v \<Longrightarrow> normalizeRecentView (view_json v) = Some v"
proof (cases v)
  case (ThreadView t s)
  assume "ids_trimmed v"
  with ThreadView stored_trimmed show ?thesis
    by (cases s) (simp_all add: normalizeRecentView_def opt_field_def del: normalizeStoredId.simps(1))
next
  case (SettingsView s)
  assume "ids_trimmed v"
  with SettingsView stored_trimmed show ?thesis
    by (cases s) (simp_all add: normalizeRecentView_def opt_field_def del: normalizeStoredId.simps(1))
qed (simp_all add: normalizeRecentView_def stored_trimmed del: normalizeStoredId.simps(1))

text \<open>Reading back persisted recent views gives the same list, when their ids are trimmed and the list is one the
  store can hold.\<close>

theorem recent_persist_roundtrip:
  assumes "recent_ok views" "\<forall>v\<in>set views. ids_trimmed v"
  shows "mergeRecentViews (Some (JObj [(''recentViews'', JArr (map view_json views))])) = views"
proof -
  have "map (normalizeRecentView \<circ> view_json) views = map Some views"
    using assms(2) view_json_back by simp
  moreover have "cat_options (map Some views) = views" by (induction views) simp_all
  ultimately have c: "cat_options (map (normalizeRecentView \<circ> view_json) views) = views" by metis
  have d: "dedupeViews views [] = views" using assms(1) by (intro dedupe_id) (simp_all add: recent_ok_def)
  have "mergeRecentViews (Some (JObj [(''recentViews'', JArr (map view_json views))])) =
      take MAX_RECENT_VIEWS (dedupeViews (cat_options (map (normalizeRecentView \<circ> view_json) views)) [])"
    by (simp add: mergeRecentViews_def normalizeRecentViews_def)
  then show ?thesis using assms(1) unfolding c d recent_ok_def by simp
qed

theorem recent_persist_roundtrip_witness:
  "mergeRecentViews (Some (JObj [(''recentViews'', JArr (map view_json [ThreadView ''a'' (Some ''s''), PluginsView]))])) =
     [ThreadView ''a'' (Some ''s''), PluginsView]"
  by (rule recent_persist_roundtrip) (simp_all add: recent_ok_def MAX_RECENT_VIEWS_def trimmed_def is_space_def)

end
