(* ===== verification/Retention.thy ===== *)
theory Retention
  imports Prelude
begin

text \<open>
  The retention of thread detail subscriptions:
  \<open>frontend/src/threadDetailSubscriptionRetention.ts\<close>. The state is the module's map of retained
  threads, its cached snapshot, the snapshots given to the listeners, and the pending timeouts of
  the browser: a handle, the thread of the callback and the time it is due. \<open>clearTimeout\<close> drops a
  timeout; a timeout fires at any time from when it is due. Of the client store only the fields that
  \<open>isNonIdleThread\<close> reads are modelled.
\<close>

section \<open>The client store\<close>

record sidebar_activity =
  hasPendingApprovals :: bool
  hasPendingUserInput :: bool
  hasActionableProposedPlan :: bool
  hasLiveTailWork :: bool
  sidebarStatus :: "string option"
  sidebarTurnState :: "string option"

record thread_activity =
  activityThreadId :: string
  threadStatus :: "string option"
  threadTurnState :: "string option"
  hasPendingSourcePlan :: bool

record client_state =
  sidebarThreadSummaryById :: "sidebar_activity js_record"
  clientThreads :: "thread_activity list"

definition busy_status :: "string option \<Rightarrow> bool" where
  "busy_status status =
     (case status of None \<Rightarrow> False | Some s \<Rightarrow> s \<noteq> [] \<and> s \<noteq> ''idle'' \<and> s \<noteq> ''stopped'')"

definition isNonIdleThread :: "client_state \<Rightarrow> string \<Rightarrow> bool" where
  "isNonIdleThread client threadId =
     (if (case rec_get (sidebarThreadSummaryById client) threadId of
            None \<Rightarrow> False
          | Some sidebarThread \<Rightarrow>
              hasPendingApprovals sidebarThread \<or> hasPendingUserInput sidebarThread \<or>
              hasActionableProposedPlan sidebarThread \<or> hasLiveTailWork sidebarThread \<or>
              busy_status (sidebarStatus sidebarThread) \<or> sidebarTurnState sidebarThread = Some ''running'')
      then True
      else case List.find (\<lambda>candidate. activityThreadId candidate = threadId) (clientThreads client) of
        None \<Rightarrow> False
      | Some thread \<Rightarrow>
          busy_status (threadStatus thread) \<or> threadTurnState thread = Some ''running'' \<or>
          hasPendingSourcePlan thread)"

section \<open>State\<close>

definition THREAD_DETAIL_RETENTION_EVICTION_MS :: nat where
  "THREAD_DETAIL_RETENTION_EVICTION_MS = 15 * 60 * 1000"

definition MAX_CACHED_THREAD_DETAIL_SUBSCRIPTIONS :: nat where
  "MAX_CACHED_THREAD_DETAIL_SUBSCRIPTIONS = 32"

record retained_entry =
  refCount :: nat
  lastAccessedAt :: nat
  evictionTimeout :: "nat option"

record retention =
  retained :: "retained_entry js_record"
  timers :: "(nat \<times> string \<times> nat) list"
  nextTimer :: nat
  cachedSnapshot :: "string list"
  notified :: "string list list"

definition emptyRetention :: retention where
  "emptyRetention = \<lparr>retained = [], timers = [], nextTimer = 0, cachedSnapshot = [], notified = []\<rparr>"

definition emitChange :: "retention \<Rightarrow> retention" where
  "emitChange st =
     (let snapshot = map fst (retained st)
      in st\<lparr>cachedSnapshot := snapshot, notified := snapshot # notified st\<rparr>)"

definition shouldEvictEntry :: "client_state \<Rightarrow> string \<Rightarrow> retained_entry \<Rightarrow> bool" where
  "shouldEvictEntry client threadId entry \<longleftrightarrow> refCount entry = 0 \<and> \<not> isNonIdleThread client threadId"

text \<open>An entry is named by its thread; the code holds the entry itself.\<close>

definition clearEvictionTimeout :: "string \<Rightarrow> retention \<Rightarrow> retention" where
  "clearEvictionTimeout threadId st =
     (case rec_get (retained st) threadId of
        None \<Rightarrow> st
      | Some entry \<Rightarrow>
          (case evictionTimeout entry of
             None \<Rightarrow> st
           | Some handle \<Rightarrow>
               st\<lparr>timers := filter (\<lambda>timer. fst timer \<noteq> handle) (timers st),
                  retained := rec_set threadId (entry\<lparr>evictionTimeout := None\<rparr>) (retained st)\<rparr>))"

definition scheduleEviction :: "client_state \<Rightarrow> nat \<Rightarrow> string \<Rightarrow> retention \<Rightarrow> retention" where
  "scheduleEviction client now threadId st0 =
     (let st = clearEvictionTimeout threadId st0
      in case rec_get (retained st) threadId of
        None \<Rightarrow> st
      | Some entry \<Rightarrow>
          if \<not> shouldEvictEntry client threadId entry then st
          else st\<lparr>timers := (nextTimer st, threadId, now + THREAD_DETAIL_RETENTION_EVICTION_MS) # timers st,
                  retained := rec_set threadId (entry\<lparr>evictionTimeout := Some (nextTimer st)\<rparr>) (retained st),
                  nextTimer := nextTimer st + 1\<rparr>)"

definition deleteEntry :: "string \<Rightarrow> retention \<Rightarrow> retention" where
  "deleteEntry threadId st = emitChange (st\<lparr>retained := rec_delete threadId (retained st)\<rparr>)"

text \<open>The callback of the timeout with the handle.\<close>

definition fireTimer :: "client_state \<Rightarrow> nat \<Rightarrow> retention \<Rightarrow> retention" where
  "fireTimer client handle st0 =
     (case map_of (timers st0) handle of
        None \<Rightarrow> st0
      | Some (threadId, due) \<Rightarrow>
          let st = st0\<lparr>timers := filter (\<lambda>timer. fst timer \<noteq> handle) (timers st0)\<rparr>
          in case rec_get (retained st) threadId of
               None \<Rightarrow> st
             | Some currentEntry \<Rightarrow>
                 if \<not> shouldEvictEntry client threadId currentEntry then st else deleteEntry threadId st)"

fun evictLoop :: "client_state \<Rightarrow> (string \<times> retained_entry) list \<Rightarrow> retention \<Rightarrow> retention" where
  "evictLoop client [] st = st"
| "evictLoop client ((threadId, _) # rest) st =
     (if length (retained st) \<le> MAX_CACHED_THREAD_DETAIL_SUBSCRIPTIONS then st
      else case rec_get (retained st) threadId of
        None \<Rightarrow> evictLoop client rest st
      | Some entry \<Rightarrow>
          if \<not> shouldEvictEntry client threadId entry then evictLoop client rest st
          else evictLoop client rest (deleteEntry threadId (clearEvictionTimeout threadId st)))"

definition idleEntries :: "client_state \<Rightarrow> retention \<Rightarrow> (string \<times> retained_entry) list" where
  "idleEntries client st =
     to_sorted (\<lambda>left right. lastAccessedAt (snd left) \<le> lastAccessedAt (snd right))
       (filter (\<lambda>(threadId, entry). shouldEvictEntry client threadId entry) (retained st))"

definition evictIdleEntriesToCapacity :: "client_state \<Rightarrow> retention \<Rightarrow> retention" where
  "evictIdleEntriesToCapacity client st =
     (if length (retained st) \<le> MAX_CACHED_THREAD_DETAIL_SUBSCRIPTIONS then st
      else evictLoop client (idleEntries client st) st)"

definition reconcileEntry :: "client_state \<Rightarrow> nat \<Rightarrow> string \<Rightarrow> retention \<Rightarrow> retention" where
  "reconcileEntry client now threadId st0 =
     (let st = clearEvictionTimeout threadId st0
      in case rec_get (retained st) threadId of
        None \<Rightarrow> st
      | Some entry \<Rightarrow>
          if shouldEvictEntry client threadId entry then scheduleEviction client now threadId st else st)"

definition reconcileRetentionEntries :: "client_state \<Rightarrow> nat \<Rightarrow> retention \<Rightarrow> retention" where
  "reconcileRetentionEntries client now st =
     evictIdleEntriesToCapacity client (fold (reconcileEntry client now) (map fst (retained st)) st)"

definition retainThreadDetailSubscription :: "client_state \<Rightarrow> nat \<Rightarrow> string \<Rightarrow> retention \<Rightarrow> retention" where
  "retainThreadDetailSubscription client now threadId st0 =
     (case rec_get (retained st0) threadId of
        Some existing0 \<Rightarrow>
          (let st = clearEvictionTimeout threadId st0
           in case rec_get (retained st) threadId of
                None \<Rightarrow> st
              | Some existing \<Rightarrow>
                  st\<lparr>retained := rec_set threadId
                       (existing\<lparr>refCount := refCount existing + 1, lastAccessedAt := now\<rparr>) (retained st)\<rparr>)
      | None \<Rightarrow>
          evictIdleEntriesToCapacity client
            (emitChange (st0\<lparr>retained := rec_set threadId
               \<lparr>refCount = 1, lastAccessedAt = now, evictionTimeout = None\<rparr> (retained st0)\<rparr>)))"

definition releaseThreadDetailSubscription :: "client_state \<Rightarrow> nat \<Rightarrow> string \<Rightarrow> retention \<Rightarrow> retention" where
  "releaseThreadDetailSubscription client now threadId st0 =
     (case rec_get (retained st0) threadId of
        None \<Rightarrow> st0
      | Some entry \<Rightarrow>
          let count = refCount entry - 1;
              st = st0\<lparr>retained := rec_set threadId
                (entry\<lparr>refCount := count, lastAccessedAt := now\<rparr>) (retained st0)\<rparr>
          in if count > 0 then st
             else evictIdleEntriesToCapacity client (scheduleEviction client now threadId st))"

definition getRetainedThreadDetailIdsSnapshot :: "retention \<Rightarrow> string list" where
  "getRetainedThreadDetailIdsSnapshot st = cachedSnapshot st"

definition resetRetainedThreadDetailSubscriptions :: "retention \<Rightarrow> retention" where
  "resetRetainedThreadDetailSubscriptions st =
     emitChange ((fold clearEvictionTimeout (map fst (retained st)) st)\<lparr>retained := []\<rparr>)"

section \<open>Steps\<close>

text \<open>
  The world: the clock, the client store and the module. A change of the client store runs the
  subscribed reconciliation at once.
\<close>

record world =
  clock :: nat
  client :: client_state
  module_state :: retention

inductive retention_step :: "world \<Rightarrow> world \<Rightarrow> bool" where
  retain: "clock w \<le> now \<Longrightarrow> retention_step w
    (w\<lparr>clock := now, module_state := retainThreadDetailSubscription (client w) now t (module_state w)\<rparr>)"
| release: "clock w \<le> now \<Longrightarrow> retention_step w
    (w\<lparr>clock := now, module_state := releaseThreadDetailSubscription (client w) now t (module_state w)\<rparr>)"
| store_change: "clock w \<le> now \<Longrightarrow> retention_step w
    (w\<lparr>clock := now, client := c, module_state := reconcileRetentionEntries c now (module_state w)\<rparr>)"
| timeout: "clock w \<le> now \<Longrightarrow> (h, t, due) \<in> set (timers (module_state w)) \<Longrightarrow> due \<le> now \<Longrightarrow> retention_step w
    (w\<lparr>clock := now, module_state := fireTimer (client w) h (module_state w)\<rparr>)"
| reset: "clock w \<le> now \<Longrightarrow> retention_step w
    (w\<lparr>clock := now, module_state := resetRetainedThreadDetailSubscriptions (module_state w)\<rparr>)"

inductive reachable :: "world \<Rightarrow> bool" where
  start: "reachable \<lparr>clock = n, client = c, module_state = emptyRetention\<rparr>"
| step: "reachable w \<Longrightarrow> retention_step w w' \<Longrightarrow> reachable w'"

inductive_cases retention_stepE: "retention_step w w'"

section \<open>Invariants\<close>

text \<open>
  Entries and pending timeouts belong to each other, and the snapshot is the list of retained
  threads.
\<close>

definition linked :: "retention \<Rightarrow> bool" where
  "linked st \<longleftrightarrow> distinct (map fst (retained st)) \<and> distinct (map fst (timers st)) \<and>
     (\<forall>h t due. (h, t, due) \<in> set (timers st) \<longrightarrow>
        h < nextTimer st \<and> (\<exists>e. rec_get (retained st) t = Some e \<and> evictionTimeout e = Some h)) \<and>
     (\<forall>t e h. rec_get (retained st) t = Some e \<longrightarrow> evictionTimeout e = Some h \<longrightarrow>
        (\<exists>due. (h, t, due) \<in> set (timers st)))"

definition fresh_snapshot :: "retention \<Rightarrow> bool" where
  "fresh_snapshot st \<longleftrightarrow> cachedSnapshot st = map fst (retained st)"

text \<open>Exactly the entries that may go have a timeout.\<close>

definition armed :: "client_state \<Rightarrow> retention \<Rightarrow> bool" where
  "armed c st \<longleftrightarrow> (\<forall>t e. rec_get (retained st) t = Some e \<longrightarrow> (evictionTimeout e \<noteq> None \<longleftrightarrow> shouldEvictEntry c t e))"

definition due_soon :: "nat \<Rightarrow> retention \<Rightarrow> bool" where
  "due_soon now st \<longleftrightarrow>
     (\<forall>(h, t, due)\<in>set (timers st). due \<le> now + THREAD_DETAIL_RETENTION_EVICTION_MS)"

definition within_capacity :: "client_state \<Rightarrow> retention \<Rightarrow> bool" where
  "within_capacity c st \<longleftrightarrow>
     length (retained st) \<le> MAX_CACHED_THREAD_DETAIL_SUBSCRIPTIONS \<or>
     (\<forall>t e. rec_get (retained st) t = Some e \<longrightarrow> \<not> shouldEvictEntry c t e)"

lemma rec_set_map_fst: "rec_get r k \<noteq> None \<Longrightarrow> map fst (rec_set k v r) = map fst r"
  by (induction r) (auto simp: rec_set_def split: if_splits)

lemma rec_set_new_ids: "k \<notin> set (map fst r) \<Longrightarrow> map fst (rec_set k v r) = map fst r @ [k]"
  by (induction r) (auto simp: rec_set_def)

subsection \<open>Timeouts\<close>

lemma clear_get:
  "rec_get (retained (clearEvictionTimeout t st)) u =
     (if u = t then map_option (\<lambda>e. e\<lparr>evictionTimeout := None\<rparr>) (rec_get (retained st) t) else rec_get (retained st) u)"
  by (auto simp: clearEvictionTimeout_def rec_get_set split: option.split)

lemma clear_keys [simp]: "map fst (retained (clearEvictionTimeout t st)) = map fst (retained st)"
  by (simp add: clearEvictionTimeout_def rec_set_map_fst split: option.split)

lemma clear_timers: "set (timers (clearEvictionTimeout t st)) \<subseteq> set (timers st)"
  by (auto simp: clearEvictionTimeout_def split: option.split)

lemma clear_rest [simp]:
  "nextTimer (clearEvictionTimeout t st) = nextTimer st" "cachedSnapshot (clearEvictionTimeout t st) = cachedSnapshot st"
  by (simp_all add: clearEvictionTimeout_def split: option.split)

lemma linkedD:
  assumes "linked st"
  shows "distinct (map fst (retained st))" "distinct (map fst (timers st))"
    "(h, t, due) \<in> set (timers st) \<Longrightarrow> h < nextTimer st"
    "(h, t, due) \<in> set (timers st) \<Longrightarrow> \<exists>e. rec_get (retained st) t = Some e \<and> evictionTimeout e = Some h"
    "rec_get (retained st) t = Some e \<Longrightarrow> evictionTimeout e = Some h \<Longrightarrow> \<exists>due. (h, t, due) \<in> set (timers st)"
  using assms unfolding linked_def by blast+

text \<open>The timeouts left when a thread's timeout is cleared: those of the other threads.\<close>

lemma clear_timer_mem:
  assumes "linked st"
  shows "(h, u, due) \<in> set (timers (clearEvictionTimeout t st)) \<longleftrightarrow> (h, u, due) \<in> set (timers st) \<and> u \<noteq> t"
proof (cases "rec_get (retained st) t")
  case None
  with linkedD(4) [OF assms, of h u due] show ?thesis by (auto simp: clearEvictionTimeout_def)
next
  case (Some e)
  show ?thesis
  proof (cases "evictionTimeout e")
    case None
    with Some linkedD(4) [OF assms, of h u due] show ?thesis by (auto simp: clearEvictionTimeout_def)
  next
    case own: (Some k)
    obtain d where d: "(k, t, d) \<in> set (timers st)" using linkedD(5) [OF assms Some own] by blast
    have "(h, u, due) \<in> set (timers st) \<Longrightarrow> h = k \<longleftrightarrow> u = t"
      using linkedD(4) [OF assms, of h u due] Some own distinct_key [OF linkedD(2) [OF assms] _ d, of "(h, u, due)"]
      by auto
    with Some own show ?thesis by (auto simp: clearEvictionTimeout_def)
  qed
qed

lemma clear_linked: "linked st \<Longrightarrow> linked (clearEvictionTimeout t st)"
proof -
  assume l: "linked st"
  have "distinct (map fst (timers (clearEvictionTimeout t st)))"
    using linkedD(2) [OF l] by (auto simp: clearEvictionTimeout_def distinct_map_filter split: option.split)
  then show ?thesis
    using linkedD(1) [OF l] linkedD(3-5) [OF l]
    unfolding linked_def clear_keys clear_rest clear_timer_mem [OF l]
    by (auto simp: clear_get split: if_splits)
qed

lemma set_entry_linked:
  assumes l: "linked st" and e: "rec_get (retained st) t = Some e" "evictionTimeout e' = evictionTimeout e"
  shows "linked (st\<lparr>retained := rec_set t e' (retained st)\<rparr>)"
proof -
  have k: "map fst (rec_set t e' (retained st)) = map fst (retained st)" using e(1) by (simp add: rec_set_map_fst)
  have "\<exists>f. rec_get (rec_set t e' (retained st)) u = Some f \<and> evictionTimeout f = Some h"
    if "(h, u, due) \<in> set (timers st)" for h u due
    using linkedD(4) [OF l that] e by (cases "u = t") (auto simp: rec_get_set)
  then show ?thesis
    using linkedD(1,2) [OF l] linkedD(3,5) [OF l] e
    by (auto simp: linked_def k rec_get_set split: if_splits)
qed

lemma new_entry_linked:
  assumes l: "linked st" and "rec_get (retained st) t = None" "evictionTimeout e = None"
  shows "linked (st\<lparr>retained := rec_set t e (retained st)\<rparr>)"
proof -
  have "\<exists>e'. rec_get (rec_set t e (retained st)) u = Some e' \<and> evictionTimeout e' = Some h"
    if "(h, u, due) \<in> set (timers st)" for h u due
    using linkedD(4) [OF l that] assms(2) by (auto simp: rec_get_set)
  then show ?thesis
    using linkedD(1,2) [OF l] linkedD(3,5) [OF l] assms(3)
    by (auto simp: linked_def rec_get_set rec_set_distinct split: if_splits)
qed

lemma emit_linked [simp]: "linked (emitChange st) = linked st"
  by (simp add: linked_def emitChange_def Let_def)

lemma emit_fields [simp]:
  "retained (emitChange st) = retained st" "timers (emitChange st) = timers st"
  "nextTimer (emitChange st) = nextTimer st" "fresh_snapshot (emitChange st)"
  by (simp_all add: emitChange_def Let_def fresh_snapshot_def)

lemma delete_linked:
  assumes l: "linked st" and no: "\<And>h due. (h, t, due) \<notin> set (timers st)"
  shows "linked (deleteEntry t st)"
proof -
  have "\<exists>e'. rec_get (rec_delete t (retained st)) u = Some e' \<and> evictionTimeout e' = Some h"
    if "(h, u, due) \<in> set (timers st)" for h u due
    using linkedD(4) [OF l that] no that by (auto simp: rec_get_delete)
  then show ?thesis
    using linkedD(1,2) [OF l] linkedD(3,5) [OF l]
    unfolding deleteEntry_def emit_linked
    by (auto simp: linked_def rec_get_delete rec_delete_distinct split: if_splits)
qed

lemma delete_fields [simp]:
  "retained (deleteEntry t st) = rec_delete t (retained st)" "timers (deleteEntry t st) = timers st"
  "nextTimer (deleteEntry t st) = nextTimer st" "fresh_snapshot (deleteEntry t st)"
  by (simp_all add: deleteEntry_def)

lemma should_ignores_timeout [simp]: "shouldEvictEntry c t (e\<lparr>evictionTimeout := x\<rparr>) = shouldEvictEntry c t e"
  by (simp add: shouldEvictEntry_def)

lemma schedule_get:
  "rec_get (retained (scheduleEviction c now t st)) u =
     (if u = t then map_option (\<lambda>e. e\<lparr>evictionTimeout := if shouldEvictEntry c t e then Some (nextTimer st) else None\<rparr>)
        (rec_get (retained st) t)
      else rec_get (retained st) u)"
  by (auto simp: scheduleEviction_def Let_def clear_get rec_get_set split: option.split)

lemma schedule_keys [simp]: "map fst (retained (scheduleEviction c now t st)) = map fst (retained st)"
proof -
  have "rec_get (retained (clearEvictionTimeout t st)) t = Some e \<Longrightarrow>
      map fst (rec_set t x (retained (clearEvictionTimeout t st))) = map fst (retained st)" for e x
    using rec_set_map_fst [of "retained (clearEvictionTimeout t st)" t x] by simp
  then show ?thesis by (simp add: scheduleEviction_def Let_def split: option.split)
qed

lemma schedule_snapshot [simp]: "cachedSnapshot (scheduleEviction c now t st) = cachedSnapshot st"
  by (simp add: scheduleEviction_def Let_def split: option.split)

lemma schedule_timer_mem:
  assumes "linked st"
  shows "(h, u, due) \<in> set (timers (scheduleEviction c now t st)) \<longleftrightarrow>
    (h, u, due) \<in> set (timers st) \<and> u \<noteq> t \<or>
    u = t \<and> h = nextTimer st \<and> due = now + THREAD_DETAIL_RETENTION_EVICTION_MS \<and>
      (\<exists>e. rec_get (retained st) t = Some e \<and> shouldEvictEntry c t e)"
  by (auto simp: scheduleEviction_def Let_def clear_timer_mem [OF assms] clear_get split: option.split)

lemma schedule_linked:
  assumes l: "linked st"
  shows "linked (scheduleEviction c now t st)"
proof -
  let ?st = "scheduleEviction c now t st"
  have c: "linked (clearEvictionTimeout t st)" by (rule clear_linked [OF l])
  have "nextTimer st \<notin> fst ` set (timers (clearEvictionTimeout t st))"
    using linkedD(3) [OF c] by fastforce
  then have d: "distinct (map fst (timers ?st))"
    using linkedD(2) [OF c] by (auto simp: scheduleEviction_def Let_def split: option.split)
  have n: "h < nextTimer ?st" if "(h, u, due) \<in> set (timers ?st)" for h u due
    using that linkedD(3) [OF l] unfolding schedule_timer_mem [OF l]
    by (auto simp: scheduleEviction_def Let_def clear_get less_Suc_eq split: option.split)
  have "\<exists>e. rec_get (retained ?st) u = Some e \<and> evictionTimeout e = Some h" if "(h, u, due) \<in> set (timers ?st)" for h u due
    using that linkedD(4) [OF l, of h u due] unfolding schedule_timer_mem [OF l] schedule_get by auto
  moreover have "\<exists>due. (h, u, due) \<in> set (timers ?st)"
    if "rec_get (retained ?st) u = Some e" "evictionTimeout e = Some h" for h u e
    using that linkedD(5) [OF l, of u e h] unfolding schedule_timer_mem [OF l] schedule_get
    by (auto split: if_splits)
  ultimately show ?thesis using d n linkedD(1) [OF l] by (auto simp: linked_def)
qed

subsection \<open>Eviction to capacity\<close>

text \<open>The loop evicts a first part of the list, the whole list or until the capacity is met.\<close>

lemma evictLoop_prefix:
  assumes "linked st" "fresh_snapshot st" "distinct (map fst es)"
    and "\<forall>(t, e)\<in>set es. rec_get (retained st) t = Some e \<and> shouldEvictEntry c t e"
  shows "\<exists>n. (\<forall>u. rec_get (retained (evictLoop c es st)) u =
        (if u \<in> set (map fst (take n es)) then None else rec_get (retained st) u)) \<and>
      (length es \<le> n \<or> length (retained (evictLoop c es st)) \<le> MAX_CACHED_THREAD_DETAIL_SUBSCRIPTIONS) \<and>
      linked (evictLoop c es st) \<and> fresh_snapshot (evictLoop c es st) \<and>
      set (timers (evictLoop c es st)) \<subseteq> set (timers st)"
  using assms
proof (induction es arbitrary: st)
  case Nil
  then show ?case by simp
next
  case (Cons x es)
  obtain t e where x: "x = (t, e)" by (cases x)
  show ?case
  proof (cases "length (retained st) \<le> MAX_CACHED_THREAD_DETAIL_SUBSCRIPTIONS")
    case True
    with Cons.prems(1,2) x show ?thesis by (intro exI [of _ 0]) simp
  next
    case False
    define st1 where "st1 = deleteEntry t (clearEvictionTimeout t st)"
    have t: "rec_get (retained st) t = Some e" "shouldEvictEntry c t e" using Cons.prems(4) x by auto
    have l1: "linked st1" unfolding st1_def
      by (rule delete_linked [OF clear_linked [OF Cons.prems(1)]]) (simp add: clear_timer_mem [OF Cons.prems(1)])
    have g1: "rec_get (retained st1) u = (if u = t then None else rec_get (retained st) u)" for u
      by (simp add: st1_def rec_get_delete clear_get)
    have r: "evictLoop c (x # es) st = evictLoop c es st1" using False t x by (simp add: st1_def)
    have tm: "set (timers st1) \<subseteq> set (timers st)" using clear_timers by (simp add: st1_def)
    have "\<forall>(u, f)\<in>set es. rec_get (retained st1) u = Some f \<and> shouldEvictEntry c u f"
      using Cons.prems(3,4) x by (force simp: g1)
    from Cons.IH [OF l1 _ _ this] Cons.prems(3) obtain n where
      n: "\<forall>u. rec_get (retained (evictLoop c es st1)) u =
        (if u \<in> set (map fst (take n es)) then None else rec_get (retained st1) u)"
      "length es \<le> n \<or> length (retained (evictLoop c es st1)) \<le> MAX_CACHED_THREAD_DETAIL_SUBSCRIPTIONS"
      "linked (evictLoop c es st1)" "fresh_snapshot (evictLoop c es st1)"
      "set (timers (evictLoop c es st1)) \<subseteq> set (timers st1)"
      by (auto simp: st1_def)
    with r tm x g1 show ?thesis by (intro exI [of _ "Suc n"]) auto
  qed
qed

lemma idle_entries:
  assumes "distinct (map fst (retained st))"
  shows "distinct (map fst (idleEntries c st))"
    "set (idleEntries c st) = {(t, e). rec_get (retained st) t = Some e \<and> shouldEvictEntry c t e}"
    "sorted_wrt (\<lambda>a b. lastAccessedAt (snd a) \<le> lastAccessedAt (snd b)) (idleEntries c st)"
proof -
  show "distinct (map fst (idleEntries c st))"
    using assms by (simp add: idleEntries_def distinct_map_filter)
  show "set (idleEntries c st) = {(t, e). rec_get (retained st) t = Some e \<and> shouldEvictEntry c t e}"
    using assms by (auto simp: idleEntries_def map_of_eq_Some_iff)
  show "sorted_wrt (\<lambda>a b. lastAccessedAt (snd a) \<le> lastAccessedAt (snd b)) (idleEntries c st)"
    unfolding idleEntries_def by (rule sorted_to_sorted) auto
qed

text \<open>
  What eviction does: it drops idle entries, least recently used first, until the capacity is met or
  none is left.
\<close>

lemma evict_outcome:
  fixes c :: client_state
  assumes l: "linked st" and s: "fresh_snapshot st"
  defines "st' \<equiv> evictIdleEntriesToCapacity c st"
  shows "linked st'" "fresh_snapshot st'" "set (timers st') \<subseteq> set (timers st)" "within_capacity c st'"
    "rec_get (retained st') u = None \<or> rec_get (retained st') u = rec_get (retained st) u"
    "rec_get (retained st) u = Some e \<Longrightarrow> rec_get (retained st') u = None \<Longrightarrow> shouldEvictEntry c u e"
    "rec_get (retained st) u = Some e \<Longrightarrow> rec_get (retained st') u = None \<Longrightarrow>
       rec_get (retained st') v = Some f \<Longrightarrow> shouldEvictEntry c v f \<Longrightarrow> lastAccessedAt e \<le> lastAccessedAt f"
proof -
  note ie = idle_entries [OF linkedD(1) [OF l], of c]
  have "\<exists>n. (\<forall>u. rec_get (retained st') u =
        (if u \<in> set (map fst (take n (idleEntries c st))) then None else rec_get (retained st) u)) \<and>
      (length (idleEntries c st) \<le> n \<or> length (retained st') \<le> MAX_CACHED_THREAD_DETAIL_SUBSCRIPTIONS) \<and>
      linked st' \<and> fresh_snapshot st' \<and> set (timers st') \<subseteq> set (timers st)"
  proof (cases "length (retained st) \<le> MAX_CACHED_THREAD_DETAIL_SUBSCRIPTIONS")
    case True
    then show ?thesis using l s by (intro exI [of _ 0]) (simp add: st'_def evictIdleEntriesToCapacity_def)
  next
    case False
    then have "st' = evictLoop c (idleEntries c st) st" by (simp add: st'_def evictIdleEntriesToCapacity_def)
    moreover have "\<forall>(t, e)\<in>set (idleEntries c st). rec_get (retained st) t = Some e \<and> shouldEvictEntry c t e"
      using ie(2) by blast
    ultimately show ?thesis using evictLoop_prefix [OF l s ie(1)] by simp
  qed
  then obtain n where n: "\<And>u. rec_get (retained st') u =
        (if u \<in> set (map fst (take n (idleEntries c st))) then None else rec_get (retained st) u)"
      "length (idleEntries c st) \<le> n \<or> length (retained st') \<le> MAX_CACHED_THREAD_DETAIL_SUBSCRIPTIONS"
      "linked st'" "fresh_snapshot st'" "set (timers st') \<subseteq> set (timers st)" by blast
  show "linked st'" "fresh_snapshot st'" "set (timers st') \<subseteq> set (timers st)" by (fact n)+
  show "rec_get (retained st') u = None \<or> rec_get (retained st') u = rec_get (retained st) u" for u
    by (simp add: n(1))
  have evicted: "(u, e) \<in> set (take n (idleEntries c st))"
    if "rec_get (retained st) u = Some e" "rec_get (retained st') u = None" for u e
  proof -
    have "u \<in> set (map fst (take n (idleEntries c st)))" using that n(1) [of u] by (metis option.distinct(1))
    then obtain f where f: "(u, f) \<in> set (take n (idleEntries c st))" by auto
    then have "(u, f) \<in> set (idleEntries c st)" by (rule in_set_takeD)
    then have "f = e" using ie(2) that(1) by auto
    with f show ?thesis by simp
  qed
  show "shouldEvictEntry c u e" if "rec_get (retained st) u = Some e" "rec_get (retained st') u = None" for u e
    using in_set_takeD [OF evicted [OF that]] ie(2) by auto
  have kept: "(v, f) \<in> set (drop n (idleEntries c st))"
    if "rec_get (retained st') v = Some f" "shouldEvictEntry c v f" for v f
  proof -
    have "v \<notin> set (map fst (take n (idleEntries c st)))" "rec_get (retained st) v = Some f"
      using that(1) n(1) [of v] by (auto split: if_splits)
    then have "(v, f) \<in> set (idleEntries c st)" "(v, f) \<notin> set (take n (idleEntries c st))"
      using ie(2) that(2) by force+
    then show ?thesis using set_append [of "take n (idleEntries c st)" "drop n (idleEntries c st)"] by simp
  qed
  show "within_capacity c st'"
    using n(2) kept by (fastforce simp: within_capacity_def)
  show "lastAccessedAt e \<le> lastAccessedAt f"
    if "rec_get (retained st) u = Some e" "rec_get (retained st') u = None"
      "rec_get (retained st') v = Some f" "shouldEvictEntry c v f" for u e v f
  proof -
    have "\<forall>x\<in>set (take n (idleEntries c st)). \<forall>y\<in>set (drop n (idleEntries c st)).
        lastAccessedAt (snd x) \<le> lastAccessedAt (snd y)"
      using ie(3) by (metis append_take_drop_id sorted_wrt_append)
    from bspec [OF bspec [OF this evicted [OF that(1,2)]] kept [OF that(3,4)]] show ?thesis by simp
  qed
qed

section \<open>Every step keeps the invariants\<close>

definition retention_inv :: "nat \<Rightarrow> client_state \<Rightarrow> retention \<Rightarrow> bool" where
  "retention_inv now c st \<longleftrightarrow>
     linked st \<and> fresh_snapshot st \<and> armed c st \<and> due_soon now st \<and> within_capacity c st"

lemmas retention_inv_intro = retention_inv_def [THEN iffD2, OF conjI [OF _ conjI [OF _ conjI [OF _ conjI]]]]

lemma retention_invD:
  assumes "retention_inv now c st"
  shows "linked st" "fresh_snapshot st" "armed c st" "due_soon now st" "within_capacity c st"
  using assms by (simp_all add: retention_inv_def)

lemma due_soon_subset:
  assumes "due_soon now st" "set (timers st') \<subseteq> set (timers st)" "now \<le> later"
  shows "due_soon later st'"
  unfolding due_soon_def
proof clarify
  fix h t due
  assume "(h, t, due) \<in> set (timers st')"
  with assms(2) have "(h, t, due) \<in> set (timers st)" by blast
  with assms(1) have "due \<le> now + THREAD_DETAIL_RETENTION_EVICTION_MS" unfolding due_soon_def by blast
  with assms(3) show "due \<le> later + THREAD_DETAIL_RETENTION_EVICTION_MS" by simp
qed

lemma armedD: "armed c st \<Longrightarrow> rec_get (retained st) t = Some e \<Longrightarrow> evictionTimeout e \<noteq> None \<longleftrightarrow> shouldEvictEntry c t e"
  by (simp add: armed_def)

text \<open>Eviction after the entries are armed.\<close>

lemma evict_inv:
  assumes "linked st" "fresh_snapshot st" "armed c st" "due_soon now st"
  shows "retention_inv now c (evictIdleEntriesToCapacity c st)"
proof (rule retention_inv_intro)
  note out = evict_outcome [where c = c, OF assms(1,2)]
  show "linked (evictIdleEntriesToCapacity c st)" "fresh_snapshot (evictIdleEntriesToCapacity c st)"
    "within_capacity c (evictIdleEntriesToCapacity c st)" by (fact out(1,2,4))+
  show "due_soon now (evictIdleEntriesToCapacity c st)" by (rule due_soon_subset [OF assms(4) out(3) order_refl])
  show "armed c (evictIdleEntriesToCapacity c st)"
    unfolding armed_def
  proof (intro allI impI)
    fix t e
    assume "rec_get (retained (evictIdleEntriesToCapacity c st)) t = Some e"
    with out(5) [of t] have "rec_get (retained st) t = Some e" by auto
    then show "(evictionTimeout e \<noteq> None) = shouldEvictEntry c t e" by (rule armedD [OF assms(3)])
  qed
qed

lemma set_entry_keys:
  "rec_get (retained st) t = Some e \<Longrightarrow> map fst (rec_set t e' (retained st)) = map fst (retained st)"
  by (simp add: rec_set_map_fst)

lemma referenced_stays: "refCount e > 0 \<Longrightarrow> \<not> shouldEvictEntry c t e"
  by (simp add: shouldEvictEntry_def)

text \<open>An entry replaced by one that must stay, without a timeout.\<close>

lemma keep_entry_inv:
  assumes i: "retention_inv now c st" and "now \<le> later"
    and e: "rec_get (retained st) t = Some e" "evictionTimeout e = None" "refCount e' > 0" "evictionTimeout e' = None"
  shows "retention_inv later c (st\<lparr>retained := rec_set t e' (retained st)\<rparr>)"
proof (rule retention_inv_intro)
  let ?st = "st\<lparr>retained := rec_set t e' (retained st)\<rparr>"
  note d = retention_invD [OF i] and k = set_entry_keys [OF e(1), of e']
  show "linked ?st" using set_entry_linked [OF d(1) e(1)] e(2,4) by simp
  show "fresh_snapshot ?st" using d(2) by (simp add: fresh_snapshot_def k)
  show "armed c ?st" using d(3) referenced_stays [OF e(3)] e(4) by (auto simp: armed_def rec_get_set)
  show "due_soon later ?st" by (rule due_soon_subset [OF d(4) _ assms(2)]) simp
  have "length (rec_set t e' (retained st)) = length (retained st)" by (metis k length_map)
  then show "within_capacity c ?st"
    using d(5) referenced_stays [OF e(3)] by (auto simp: within_capacity_def rec_get_set)
qed

lemma clear_unset: "rec_get (retained st) t = Some e \<Longrightarrow> evictionTimeout e = None \<Longrightarrow> clearEvictionTimeout t st = st"
  by (simp add: clearEvictionTimeout_def)

lemma clear_idem [simp]: "clearEvictionTimeout t (clearEvictionTimeout t st) = clearEvictionTimeout t st"
proof (cases "rec_get (retained st) t")
  case None
  then show ?thesis by (simp add: clearEvictionTimeout_def)
next
  case (Some e)
  then show ?thesis by (intro clear_unset [where e = "e\<lparr>evictionTimeout := None\<rparr>"]) (simp_all add: clear_get)
qed

lemma reconcileEntry_schedules [simp]: "reconcileEntry c now = scheduleEviction c now"
proof (intro ext)
  show "reconcileEntry c now t st = scheduleEviction c now t st" for t st
    by (simp add: reconcileEntry_def scheduleEviction_def Let_def split: option.split)
qed

subsection \<open>Retaining\<close>

lemma retain_existing:
  assumes "rec_get (retained st) t = Some e"
  shows "retainThreadDetailSubscription c now t st =
    (clearEvictionTimeout t st)\<lparr>retained := rec_set t
       (e\<lparr>evictionTimeout := None, refCount := refCount e + 1, lastAccessedAt := now\<rparr>)
       (retained (clearEvictionTimeout t st))\<rparr>"
  using assms by (simp add: retainThreadDetailSubscription_def Let_def clear_get)

text \<open>Clearing breaks the arming of one thread only; the invariant without it.\<close>

lemma clear_keep_inv:
  assumes i: "retention_inv now c st" and "now \<le> later"
    and e: "rec_get (retained st) t = Some e" "refCount e' > 0" "evictionTimeout e' = None"
  shows "retention_inv later c
    ((clearEvictionTimeout t st)\<lparr>retained := rec_set t e' (retained (clearEvictionTimeout t st))\<rparr>)"
proof (rule retention_inv_intro)
  let ?cl = "clearEvictionTimeout t st"
  let ?st = "?cl\<lparr>retained := rec_set t e' (retained ?cl)\<rparr>"
  note d = retention_invD [OF i]
  have g: "rec_get (retained ?cl) t = Some (e\<lparr>evictionTimeout := None\<rparr>)" using e(1) by (simp add: clear_get)
  note k = set_entry_keys [OF g, of e']
  have gs: "rec_get (retained ?st) u = (if u = t then Some e' else rec_get (retained st) u)" for u
    by (simp add: rec_get_set clear_get)
  show "linked ?st" using set_entry_linked [OF clear_linked [OF d(1)] g] e(3) by simp
  show "fresh_snapshot ?st" using d(2) by (simp add: fresh_snapshot_def k)
  show "armed c ?st" unfolding armed_def gs using armedD [OF d(3)] referenced_stays [OF e(2)] e(3) by (auto split: if_splits)
  show "due_soon later ?st" by (rule due_soon_subset [OF d(4) _ assms(2)]) (simp add: clear_timers)
  have "length (rec_set t e' (retained ?cl)) = length (retained st)" by (metis k clear_keys length_map)
  then show "within_capacity c ?st"
    using d(5) referenced_stays [OF e(2)] unfolding within_capacity_def gs by (auto split: if_splits)
qed

lemma retain_inv:
  assumes i: "retention_inv now c st" and "now \<le> later"
  shows "retention_inv later c (retainThreadDetailSubscription c later t st)"
proof (cases "rec_get (retained st) t")
  case (Some e)
  show ?thesis unfolding retain_existing [OF Some] by (rule clear_keep_inv [OF assms Some]) simp_all
next
  case None
  let ?e = "\<lparr>refCount = 1, lastAccessedAt = later, evictionTimeout = None\<rparr>"
  let ?st = "emitChange (st\<lparr>retained := rec_set t ?e (retained st)\<rparr>)"
  note d = retention_invD [OF i]
  have r: "retainThreadDetailSubscription c later t st = evictIdleEntriesToCapacity c ?st"
    using None by (simp add: retainThreadDetailSubscription_def)
  show ?thesis
    unfolding r
  proof (rule evict_inv)
    show "linked ?st" using new_entry_linked [OF d(1) None] by simp
    show "armed c ?st" using d(3) referenced_stays [of ?e c t] by (auto simp: armed_def rec_get_set)
    show "due_soon later ?st" by (rule due_soon_subset [OF d(4) _ assms(2)]) simp
  qed simp
qed

subsection \<open>Releasing\<close>

lemma schedule_armed:
  assumes "\<And>u e. u \<noteq> t \<Longrightarrow> rec_get (retained st) u = Some e \<Longrightarrow>
     evictionTimeout e \<noteq> None \<longleftrightarrow> shouldEvictEntry c u e"
  shows "armed c (scheduleEviction c now t st)"
  unfolding armed_def
proof (intro allI impI)
  fix u e
  assume e: "rec_get (retained (scheduleEviction c now t st)) u = Some e"
  show "(evictionTimeout e \<noteq> None) = shouldEvictEntry c u e"
  proof (cases "u = t")
    case True
    with e obtain z where "e = z\<lparr>evictionTimeout := if shouldEvictEntry c t z then Some (nextTimer st) else None\<rparr>"
      by (auto simp: schedule_get)
    with True show ?thesis by simp
  qed (use e assms in \<open>simp add: schedule_get\<close>)
qed

lemma schedule_due:
  assumes "linked st" "due_soon now st" "now \<le> later"
  shows "due_soon later (scheduleEviction c later t st)"
  unfolding due_soon_def
proof clarify
  fix h u due
  assume "(h, u, due) \<in> set (timers (scheduleEviction c later t st))"
  then show "due \<le> later + THREAD_DETAIL_RETENTION_EVICTION_MS"
    using due_soon_subset [OF assms(2) subset_refl assms(3)]
    unfolding schedule_timer_mem [OF assms(1)] due_soon_def by blast
qed

text \<open>The entry released a last time, before its eviction is scheduled.\<close>

lemma release_eq:
  assumes "rec_get (retained st) t = Some e"
  shows "releaseThreadDetailSubscription c now t st =
    (if refCount e - 1 > 0
     then st\<lparr>retained := rec_set t (e\<lparr>refCount := refCount e - 1, lastAccessedAt := now\<rparr>) (retained st)\<rparr>
     else evictIdleEntriesToCapacity c (scheduleEviction c now t
       (st\<lparr>retained := rec_set t (e\<lparr>refCount := refCount e - 1, lastAccessedAt := now\<rparr>) (retained st)\<rparr>)))"
  using assms by (simp add: releaseThreadDetailSubscription_def Let_def)

lemma release_inv:
  assumes i: "retention_inv now c st" and "now \<le> later"
  shows "retention_inv later c (releaseThreadDetailSubscription c later t st)"
proof (cases "rec_get (retained st) t")
  case None
  with i due_soon_subset [OF retention_invD(4) [OF i] subset_refl assms(2)] show ?thesis
    by (simp add: releaseThreadDetailSubscription_def retention_inv_def)
next
  case (Some e)
  note d = retention_invD [OF i]
  let ?e = "e\<lparr>refCount := refCount e - 1, lastAccessedAt := later\<rparr>"
  let ?st = "st\<lparr>retained := rec_set t ?e (retained st)\<rparr>"
  show ?thesis
  proof (cases "refCount e - 1 > 0")
    case True
    then have "evictionTimeout e = None" using armedD [OF d(3) Some] referenced_stays [of e c t] by simp
    with True show ?thesis
      unfolding release_eq [OF Some] if_P [OF True] by (intro keep_entry_inv [OF i assms(2) Some]) simp_all
  next
    case False
    have l: "linked ?st" using set_entry_linked [OF d(1) Some] by simp
    have "fresh_snapshot ?st" using d(2) by (simp add: fresh_snapshot_def set_entry_keys [OF Some])
    then have f: "fresh_snapshot (scheduleEviction c later t ?st)"
      unfolding fresh_snapshot_def schedule_keys schedule_snapshot .
    have a: "armed c (scheduleEviction c later t ?st)"
      by (rule schedule_armed) (use armedD [OF d(3)] in \<open>auto simp: rec_get_set\<close>)
    have "due_soon now ?st" by (rule due_soon_subset [OF d(4)]) simp_all
    then show ?thesis
      unfolding release_eq [OF Some] if_not_P [OF False]
      by (intro evict_inv schedule_linked l f a schedule_due [OF l _ assms(2)])
  qed
qed

subsection \<open>Reconciling\<close>

text \<open>The loop over the entries arms each of them anew.\<close>

lemma fold_schedule:
  assumes "linked st"
  shows "linked (fold (scheduleEviction c now) ts st) \<and>
    map fst (retained (fold (scheduleEviction c now) ts st)) = map fst (retained st) \<and>
    cachedSnapshot (fold (scheduleEviction c now) ts st) = cachedSnapshot st \<and>
    (\<forall>u. map_option (\<lambda>e. e\<lparr>evictionTimeout := None\<rparr>) (rec_get (retained (fold (scheduleEviction c now) ts st)) u) =
         map_option (\<lambda>e. e\<lparr>evictionTimeout := None\<rparr>) (rec_get (retained st) u)) \<and>
    (\<forall>u\<in>set ts. \<forall>e. rec_get (retained (fold (scheduleEviction c now) ts st)) u = Some e \<longrightarrow>
       (evictionTimeout e \<noteq> None \<longleftrightarrow> shouldEvictEntry c u e)) \<and>
    (\<forall>h u due. (h, u, due) \<in> set (timers (fold (scheduleEviction c now) ts st)) \<longrightarrow>
       (if u \<in> set ts then due = now + THREAD_DETAIL_RETENTION_EVICTION_MS else (h, u, due) \<in> set (timers st)))"
  using assms
proof (induction ts rule: rev_induct)
  case Nil
  then show ?case by simp
next
  case (snoc t ts)
  define mid where "mid = fold (scheduleEviction c now) ts st"
  note ih = snoc.IH [OF snoc.prems, folded mid_def]
  have r: "fold (scheduleEviction c now) (ts @ [t]) st = scheduleEviction c now t mid" by (simp add: mid_def)
  have l: "linked mid" using ih by blast
  have "map_option (\<lambda>e. e\<lparr>evictionTimeout := None\<rparr>) (rec_get (retained (scheduleEviction c now t mid)) u) =
         map_option (\<lambda>e. e\<lparr>evictionTimeout := None\<rparr>) (rec_get (retained mid) u)" for u
    by (auto simp: schedule_get option.map_comp o_def)
  moreover have "evictionTimeout e \<noteq> None \<longleftrightarrow> shouldEvictEntry c u e"
    if "u \<in> set (ts @ [t])" "rec_get (retained (scheduleEviction c now t mid)) u = Some e" for u e
  proof (cases "u = t")
    case True
    with that(2) obtain z where "e = z\<lparr>evictionTimeout := if shouldEvictEntry c t z then Some (nextTimer mid) else None\<rparr>"
      by (auto simp: schedule_get)
    with True show ?thesis by simp
  next
    case False
    then show ?thesis using that ih by (simp add: schedule_get)
  qed
  moreover have "if u \<in> set (ts @ [t]) then due = now + THREAD_DETAIL_RETENTION_EVICTION_MS else (h, u, due) \<in> set (timers st)"
    if "(h, u, due) \<in> set (timers (scheduleEviction c now t mid))" for h u due
  proof (cases "u = t")
    case True
    with that show ?thesis unfolding schedule_timer_mem [OF l] by simp
  next
    case False
    with that have "(h, u, due) \<in> set (timers mid)" unfolding schedule_timer_mem [OF l] by simp
    with ih have "if u \<in> set ts then due = now + THREAD_DETAIL_RETENTION_EVICTION_MS else (h, u, due) \<in> set (timers st)"
      by blast
    with False show ?thesis by simp
  qed
  ultimately show ?case unfolding r using ih schedule_linked [OF l] by simp
qed

text \<open>After the loop, every pending timeout runs for the full time again.\<close>

lemma fold_schedule_all:
  fixes now :: nat and c :: client_state
  assumes l: "linked st"
  defines "st' \<equiv> fold (scheduleEviction c now) (map fst (retained st)) st"
  shows "linked st'" "fresh_snapshot st \<Longrightarrow> fresh_snapshot st'" "armed c st'"
    "(h, t, due) \<in> set (timers st') \<Longrightarrow> due = now + THREAD_DETAIL_RETENTION_EVICTION_MS"
proof -
  note f = fold_schedule [OF l, of c now "map fst (retained st)", folded st'_def]
  show "linked st'" using f by blast
  show "fresh_snapshot st'" if "fresh_snapshot st" using that f by (simp add: fresh_snapshot_def)
  have mem: "rec_get (retained st') u = Some e \<Longrightarrow> u \<in> set (map fst (retained st))" for u e
  proof -
    assume "rec_get (retained st') u = Some e"
    then have "u \<in> set (map fst (retained st'))" by (force dest: map_of_SomeD)
    then show ?thesis using f by simp
  qed
  show "armed c st'" unfolding armed_def using f mem by blast
  show "due = now + THREAD_DETAIL_RETENTION_EVICTION_MS" if m: "(h, t, due) \<in> set (timers st')"
  proof -
    obtain e where "rec_get (retained st') t = Some e" using f linkedD(4) [OF _ m] by blast
    from mem [OF this] f m show ?thesis by meson
  qed
qed

lemma reconcile_inv:
  assumes "linked st" "fresh_snapshot st"
  shows "retention_inv now c (reconcileRetentionEntries c now st)"
proof -
  let ?st = "fold (scheduleEviction c now) (map fst (retained st)) st"
  note f = fold_schedule_all [where c = c and now = now, OF assms(1)]
  have "due_soon now ?st" unfolding due_soon_def using f(4) by fastforce
  then show ?thesis
    unfolding reconcileRetentionEntries_def reconcileEntry_schedules
    by (intro evict_inv f(1,3) f(2) [OF assms(2)])
qed

subsection \<open>Timeouts and the reset\<close>

text \<open>A timeout that fires always evicts its thread.\<close>

lemma fireTimer_evicts:
  assumes l: "linked st" and a: "armed c st" and m: "(h, t, due) \<in> set (timers st)"
  shows "fireTimer c h st = deleteEntry t (st\<lparr>timers := filter (\<lambda>timer. fst timer \<noteq> h) (timers st)\<rparr>)"
proof -
  obtain e where e: "rec_get (retained st) t = Some e" "evictionTimeout e = Some h" using linkedD(4) [OF l m] by blast
  have "shouldEvictEntry c t e" using armedD [OF a e(1)] e(2) by simp
  moreover have "map_of (timers st) h = Some (t, due)" using linkedD(2) [OF l] m by (simp add: map_of_eq_Some_iff)
  ultimately show ?thesis using e(1) by (simp add: fireTimer_def Let_def)
qed

lemma fireTimer_inv:
  assumes i: "retention_inv now c st" and m: "(h, t, due) \<in> set (timers st)" and "now \<le> later"
  shows "retention_inv later c (fireTimer c h st)"
proof (rule retention_inv_intro)
  note d = retention_invD [OF i]
  let ?cl = "st\<lparr>timers := filter (\<lambda>timer. fst timer \<noteq> h) (timers st)\<rparr>"
  note f = fireTimer_evicts [OF d(1,3) m]
  have own: "k = h" if "(k, t, x) \<in> set (timers st)" for k x
    using linkedD(4) [OF d(1) m] linkedD(4) [OF d(1) that] by auto
  have owned: "\<exists>e'. rec_get (rec_delete t (retained st)) u = Some e' \<and> evictionTimeout e' = Some k"
    if "(k, u, x) \<in> set (timers st)" "k \<noteq> h" for k u x
    using linkedD(4) [OF d(1) that(1)] own that by (auto simp: rec_get_delete)
  have kept: "\<exists>x. (k, u, x) \<in> set (timers st) \<and> k \<noteq> h"
    if u: "u \<noteq> t" "rec_get (retained st) u = Some e" "evictionTimeout e = Some k" for u e k
  proof -
    obtain x where x: "(k, u, x) \<in> set (timers st)" using linkedD(5) [OF d(1) u(2,3)] by blast
    moreover have "k \<noteq> h" using x u(1) distinct_key [OF linkedD(2) [OF d(1)] x m] by auto
    ultimately show ?thesis by blast
  qed
  have "linked (?cl\<lparr>retained := rec_delete t (retained st)\<rparr>)"
    unfolding linked_def
  proof (intro conjI allI impI)
    show "\<exists>due. (k, u, due) \<in> set (timers (?cl\<lparr>retained := rec_delete t (retained st)\<rparr>))"
      if "rec_get (retained (?cl\<lparr>retained := rec_delete t (retained st)\<rparr>)) u = Some e" "evictionTimeout e = Some k" for u e k
      using that kept [of u e k] by (auto simp: rec_get_delete split: if_splits)
  qed (use linkedD(1-3) [OF d(1)] owned in \<open>auto simp: rec_delete_distinct distinct_map_filter\<close>)
  then show "linked (fireTimer c h st)" unfolding f deleteEntry_def emit_linked by simp
  show "fresh_snapshot (fireTimer c h st)" unfolding f by simp
  show "armed c (fireTimer c h st)" unfolding f using d(3) by (auto simp: armed_def rec_get_delete)
  show "due_soon later (fireTimer c h st)" unfolding f by (rule due_soon_subset [OF d(4) _ assms(3)]) auto
  have "length (rec_delete t (retained st)) \<le> length (retained st)" by (simp add: rec_delete_def)
  then show "within_capacity c (fireTimer c h st)"
    unfolding f using d(5) by (auto simp: within_capacity_def rec_get_delete)
qed

lemma fold_clear:
  "linked st \<Longrightarrow> linked (fold clearEvictionTimeout ts st) \<and>
    nextTimer (fold clearEvictionTimeout ts st) = nextTimer st \<and>
    (\<forall>h u due. (h, u, due) \<in> set (timers (fold clearEvictionTimeout ts st)) \<longleftrightarrow>
       (h, u, due) \<in> set (timers st) \<and> u \<notin> set ts)"
proof (induction ts arbitrary: st)
  case (Cons t ts)
  show ?case
    using Cons.IH [OF clear_linked [OF Cons.prems], of t] by (simp add: clear_timer_mem [OF Cons.prems])
qed simp

lemma reset_empty:
  assumes "linked st"
  shows "retained (resetRetainedThreadDetailSubscriptions st) = []"
    "timers (resetRetainedThreadDetailSubscriptions st) = []"
    "fresh_snapshot (resetRetainedThreadDetailSubscriptions st)"
proof -
  let ?st = "fold clearEvictionTimeout (map fst (retained st)) st"
  have "(h, u, due) \<notin> set (timers ?st)" for h u due
    using fold_clear [OF assms, of "map fst (retained st)"] linkedD(4) [OF assms, of h u due]
    by (force dest: map_of_SomeD)
  then have "timers ?st = []" by (cases "timers ?st") auto
  then show "timers (resetRetainedThreadDetailSubscriptions st) = []"
    by (simp add: resetRetainedThreadDetailSubscriptions_def)
  show "retained (resetRetainedThreadDetailSubscriptions st) = []" "fresh_snapshot (resetRetainedThreadDetailSubscriptions st)"
    by (simp_all add: resetRetainedThreadDetailSubscriptions_def)
qed

lemma empty_inv:
  assumes "retained st = []" "timers st = []" "fresh_snapshot st"
  shows "retention_inv now c st"
  using assms by (simp add: retention_inv_def linked_def armed_def due_soon_def within_capacity_def)

lemma step_inv:
  "retention_step w w' \<Longrightarrow> retention_inv (clock w) (client w) (module_state w) \<Longrightarrow>
    retention_inv (clock w') (client w') (module_state w')"
proof (induction rule: retention_step.induct)
  case (retain w now t)
  then show ?case using retain_inv by simp
next
  case (release w now t)
  then show ?case using release_inv by simp
next
  case (store_change w now c)
  then show ?case using reconcile_inv [OF retention_invD(1,2)] by simp
next
  case (timeout w now h t due)
  then show ?case using fireTimer_inv by simp
next
  case (reset w now)
  then show ?case using empty_inv [OF reset_empty [OF retention_invD(1)]] by simp
qed

lemma reachable_inv: "reachable w \<Longrightarrow> retention_inv (clock w) (client w) (module_state w)"
proof (induction rule: reachable.induct)
  case (start n c)
  show ?case by (simp add: emptyRetention_def fresh_snapshot_def empty_inv)
next
  case (step w w')
  from step_inv [OF step.hyps(2) step.IH] show ?case .
qed

section \<open>What a step evicts\<close>

lemma snapshot_mem:
  "fresh_snapshot st \<Longrightarrow> t \<in> set (getRetainedThreadDetailIdsSnapshot st) \<longleftrightarrow> rec_get (retained st) t \<noteq> None"
  by (simp add: getRetainedThreadDetailIdsSnapshot_def fresh_snapshot_def map_of_eq_None_iff)

lemma evicted_idle:
  assumes "linked st" "fresh_snapshot st" "rec_get (retained st) t = Some e"
    "rec_get (retained (evictIdleEntriesToCapacity c st)) t = None"
  shows "shouldEvictEntry c t e"
  by (rule evict_outcome(6) [OF assms])

lemma schedule_fresh:
  "fresh_snapshot st \<Longrightarrow> fresh_snapshot (scheduleEviction c now t st)"
  by (simp add: fresh_snapshot_def)

lemma rec_delete_ids: "map fst (rec_delete k r) = filter (\<lambda>v. v \<noteq> k) (map fst r)"
  by (induction r) (auto simp: rec_delete_def)

text \<open>With one entry too many, eviction drops the first idle one.\<close>

lemma evict_one:
  assumes "length (retained st) = Suc MAX_CACHED_THREAD_DETAIL_SUBSCRIPTIONS" "linked st"
    "idleEntries c st = (u, e) # rest"
  shows "map fst (retained (evictIdleEntriesToCapacity c st)) = filter (\<lambda>v. v \<noteq> u) (map fst (retained st))"
proof -
  have k: "rec_get (retained st) u = Some e" "shouldEvictEntry c u e"
    using idle_entries(2) [OF linkedD(1) [OF assms(2)], of c] assms(3) by auto
  define st1 where "st1 = deleteEntry u (clearEvictionTimeout u st)"
  have ids: "map fst (retained st1) = filter (\<lambda>v. v \<noteq> u) (map fst (retained st))"
    unfolding st1_def delete_fields rec_delete_ids clear_keys by (rule refl)
  have "length (filter (\<lambda>v. v \<noteq> u) (map fst (retained st))) < length (map fst (retained st))"
    by (rule length_filter_less [of u]) (use k(1) in \<open>force dest: map_of_SomeD\<close>)+
  then have "length (retained st1) \<le> MAX_CACHED_THREAD_DETAIL_SUBSCRIPTIONS"
    using assms(1) by (simp flip: ids)
  then have "evictLoop c rest st1 = st1" by (cases rest) auto
  then show ?thesis using assms(1,3) k ids by (simp add: evictIdleEntriesToCapacity_def st1_def)
qed

text \<open>How each operation can drop a retained thread.\<close>

lemma retain_leaves:
  assumes i: "retention_inv now c st" and e: "rec_get (retained st) t = Some e"
    and gone: "rec_get (retained (retainThreadDetailSubscription c later u st)) t = None"
  shows "shouldEvictEntry c t e"
proof (cases "rec_get (retained st) u")
  case (Some f)
  with gone e show ?thesis by (auto simp: retain_existing rec_get_set clear_get split: if_splits)
next
  case None
  let ?st = "emitChange (st\<lparr>retained := rec_set u \<lparr>refCount = 1, lastAccessedAt = later, evictionTimeout = None\<rparr> (retained st)\<rparr>)"
  have "linked ?st" using new_entry_linked [OF retention_invD(1) [OF i] None] by simp
  moreover have "t \<noteq> u" using e None by auto
  ultimately show ?thesis
    using evicted_idle [of ?st t e c] e gone None
    by (simp add: retainThreadDetailSubscription_def rec_get_set)
qed

lemma release_leaves:
  assumes i: "retention_inv now c st" and e: "rec_get (retained st) t = Some e"
    and gone: "rec_get (retained (releaseThreadDetailSubscription c later u st)) t = None"
  shows "if t = u then \<not> isNonIdleThread c t \<and> refCount e \<le> 1 else shouldEvictEntry c t e"
proof (cases "rec_get (retained st) u")
  case None
  with gone e show ?thesis by (simp add: releaseThreadDetailSubscription_def)
next
  case (Some f)
  note d = retention_invD [OF i]
  let ?f = "f\<lparr>refCount := refCount f - 1, lastAccessedAt := later\<rparr>"
  let ?st = "st\<lparr>retained := rec_set u ?f (retained st)\<rparr>"
  let ?sc = "scheduleEviction c later u ?st"
  have last: "\<not> refCount f - 1 > 0" using gone e by (auto simp: release_eq [OF Some] rec_get_set split: if_splits)
  have l: "linked ?st" using set_entry_linked [OF d(1) Some] by simp
  have fr: "fresh_snapshot ?st" using d(2) by (simp add: fresh_snapshot_def set_entry_keys [OF Some])
  have g: "rec_get (retained (evictIdleEntriesToCapacity c ?sc)) t = None"
    using gone last by (simp add: release_eq [OF Some])
  show ?thesis
  proof (cases "t = u")
    case True
    then obtain z where "rec_get (retained ?sc) t = Some z" "refCount z = refCount f - 1"
      by (simp add: schedule_get rec_get_set)
    with evicted_idle [OF schedule_linked [OF l] schedule_fresh [OF fr] _ g] True e Some last show ?thesis
      by (auto simp: shouldEvictEntry_def)
  next
    case False
    then have "rec_get (retained ?sc) t = Some e" using e by (simp add: schedule_get rec_get_set)
    with evicted_idle [OF schedule_linked [OF l] schedule_fresh [OF fr] _ g] False show ?thesis by simp
  qed
qed

lemma reconcile_leaves:
  assumes i: "retention_inv now b st" and e: "rec_get (retained st) t = Some e"
    and gone: "rec_get (retained (reconcileRetentionEntries c later st)) t = None"
  shows "shouldEvictEntry c t e"
proof -
  let ?st = "fold (scheduleEviction c later) (map fst (retained st)) st"
  note d = retention_invD [OF i]
  note f = fold_schedule [OF d(1), of c later "map fst (retained st)"]
  have "map_option (\<lambda>e. e\<lparr>evictionTimeout := None\<rparr>) (rec_get (retained ?st) t) = Some (e\<lparr>evictionTimeout := None\<rparr>)"
    using f e by (metis option.map(2))
  then obtain z where z: "rec_get (retained ?st) t = Some z" "z\<lparr>evictionTimeout := None\<rparr> = e\<lparr>evictionTimeout := None\<rparr>"
    by auto
  note fa = fold_schedule_all [where c = c and now = later, OF d(1)]
  have "shouldEvictEntry c t z"
    using evicted_idle [OF fa(1) fa(2) [OF d(2)] z(1)] gone by (simp add: reconcileRetentionEntries_def)
  then show ?thesis by (metis z(2) should_ignores_timeout)
qed

lemma fire_leaves:
  assumes i: "retention_inv now c st" and e: "rec_get (retained st) t = Some e"
    and h: "(h, u, due) \<in> set (timers st)" and gone: "rec_get (retained (fireTimer c h st)) t = None"
  shows "shouldEvictEntry c t e"
proof -
  note d = retention_invD [OF i]
  have "t = u" using gone e by (auto simp: fireTimer_evicts [OF d(1,3) h] rec_get_delete split: if_splits)
  moreover obtain f where f: "rec_get (retained st) u = Some f" "evictionTimeout f = Some h"
    using linkedD(4) [OF d(1) h] by blast
  ultimately show ?thesis using e armedD [OF d(3) f(1)] by simp
qed

subsection \<open>Retaining a new thread\<close>

lemma retain_new_outcome:
  fixes later :: nat
  assumes i: "retention_inv now c st" and new: "rec_get (retained st) t = None"
  defines "ids \<equiv> getRetainedThreadDetailIdsSnapshot st"
    and "after \<equiv> getRetainedThreadDetailIdsSnapshot (retainThreadDetailSubscription c later t st)"
    and "may_go \<equiv> (\<lambda>u e. rec_get (retained st) u = Some e \<and> shouldEvictEntry c u e)"
  shows "if length ids < MAX_CACHED_THREAD_DETAIL_SUBSCRIPTIONS \<or> (\<nexists>u e. may_go u e) then after = ids @ [t]
    else length ids = MAX_CACHED_THREAD_DETAIL_SUBSCRIPTIONS \<and>
      (\<exists>u e. may_go u e \<and> (\<forall>v f. may_go v f \<longrightarrow> lastAccessedAt e \<le> lastAccessedAt f) \<and>
        after = filter (\<lambda>v. v \<noteq> u) ids @ [t])"
proof -
  note d = retention_invD [OF i]
  let ?e = "\<lparr>refCount = 1, lastAccessedAt = later, evictionTimeout = None\<rparr>"
  define st1 where "st1 = emitChange (st\<lparr>retained := rec_set t ?e (retained st)\<rparr>)"
  have r: "retainThreadDetailSubscription c later t st = evictIdleEntriesToCapacity c st1"
    using new by (simp add: retainThreadDetailSubscription_def st1_def)
  have l1: "linked st1" using new_entry_linked [OF d(1) new] by (simp add: st1_def)
  have f1: "fresh_snapshot st1" by (simp add: st1_def)
  have ids: "ids = map fst (retained st)"
    using d(2) by (simp add: ids_def getRetainedThreadDetailIdsSnapshot_def fresh_snapshot_def)
  have t: "t \<notin> set ids" using new by (simp add: ids map_of_eq_None_iff)
  have ids1: "map fst (retained st1) = ids @ [t]" using t by (simp add: st1_def ids rec_set_new_ids)
  have after: "after = map fst (retained (evictIdleEntriesToCapacity c st1))"
    using evict_outcome(2) [OF l1 f1, of c] by (simp add: after_def r getRetainedThreadDetailIdsSnapshot_def fresh_snapshot_def)
  have idle: "set (idleEntries c st1) = {(u, e). may_go u e}"
    using idle_entries(2) [OF linkedD(1) [OF l1], of c] referenced_stays [of ?e c t] new
    by (auto simp: may_go_def st1_def rec_get_set split: if_splits)
  have len: "length (retained st1) = Suc (length ids)" using ids1 by (metis length_append_singleton length_map)
  show ?thesis
  proof (cases "length ids < MAX_CACHED_THREAD_DETAIL_SUBSCRIPTIONS \<or> (\<nexists>u e. may_go u e)")
    case True
    have "evictIdleEntriesToCapacity c st1 = st1"
    proof (cases "length ids < MAX_CACHED_THREAD_DETAIL_SUBSCRIPTIONS")
      case True
      then show ?thesis using len by (simp add: evictIdleEntriesToCapacity_def)
    next
      case False
      with True have "idleEntries c st1 = []" using idle by (cases "idleEntries c st1") auto
      then show ?thesis by (simp add: evictIdleEntriesToCapacity_def)
    qed
    with True after ids1 show ?thesis by simp
  next
    case False
    then have cap: "length ids = MAX_CACHED_THREAD_DETAIL_SUBSCRIPTIONS"
      using d(5) unfolding within_capacity_def may_go_def ids by auto
    from False idle obtain x rest where x: "idleEntries c st1 = x # rest" by (cases "idleEntries c st1") auto
    obtain u e where ue: "x = (u, e)" by (cases x)
    have "lastAccessedAt e \<le> lastAccessedAt f" if "may_go v f" for v f
    proof -
      have "(v, f) \<in> set (x # rest)" using that idle x by auto
      then show ?thesis using idle_entries(3) [OF linkedD(1) [OF l1], of c] x ue by auto
    qed
    moreover have m: "may_go u e" using idle x ue by auto
    moreover have "u \<noteq> t" using m new by (auto simp: may_go_def)
    then have "after = filter (\<lambda>v. v \<noteq> u) ids @ [t]"
      using evict_one [OF _ l1 x [unfolded ue]] len cap by (simp add: after ids1)
    ultimately show ?thesis using False cap by auto
  qed
qed

end
