(* ===== verification/RetentionProperties.thy ===== *)
theory RetentionProperties
  imports Retention
begin

text \<open>
  The properties of the retention of thread detail subscriptions, over the worlds that calls, store
  changes and timeouts reach from the empty module.
\<close>

section \<open>A run of the module\<close>

text \<open>An idle client: thread a is retained, thread t is retained and released at time 5.\<close>

definition idle_client :: client_state where
  "idle_client = \<lparr>sidebarThreadSummaryById = [], clientThreads = []\<rparr>"

definition released_once :: retention where
  "released_once = releaseThreadDetailSubscription idle_client 5 ''t''
     (retainThreadDetailSubscription idle_client 5 ''t''
       (retainThreadDetailSubscription idle_client 5 ''a'' emptyRetention))"

definition released_world :: world where
  "released_world = \<lparr>clock = 5, client = idle_client, module_state = released_once\<rparr>"

lemma retained_reachable:
  "reachable \<lparr>clock = 5, client = idle_client,
     module_state = retainThreadDetailSubscription idle_client 5 ''a'' emptyRetention\<rparr>"
  using reachable.step [OF reachable.start [of 5 idle_client] retention_step.retain [of _ 5 "''a''"]] by simp

lemma retained_both_reachable:
  "reachable \<lparr>clock = 5, client = idle_client,
     module_state = retainThreadDetailSubscription idle_client 5 ''t''
       (retainThreadDetailSubscription idle_client 5 ''a'' emptyRetention)\<rparr>"
  using reachable.step [OF retained_reachable retention_step.retain [of _ 5 "''t''"]] by simp

lemma released_reachable: "reachable released_world"
  using reachable.step [OF retained_both_reachable retention_step.release [of _ 5 "''t''"]]
  by (simp add: released_world_def released_once_def)

lemmas retention_defs = retainThreadDetailSubscription_def releaseThreadDetailSubscription_def
  scheduleEviction_def clearEvictionTimeout_def evictIdleEntriesToCapacity_def emitChange_def
  shouldEvictEntry_def isNonIdleThread_def rec_set_def Let_def rec_delete_def
  THREAD_DETAIL_RETENTION_EVICTION_MS_def MAX_CACHED_THREAD_DETAIL_SUBSCRIPTIONS_def

lemma released_once_eq:
  "released_once = \<lparr>retained =
      [(''a'', \<lparr>refCount = 1, lastAccessedAt = 5, evictionTimeout = None\<rparr>),
       (''t'', \<lparr>refCount = 0, lastAccessedAt = 5, evictionTimeout = Some 0\<rparr>)],
     timers = [(0, ''t'', 900005)], nextTimer = 1, cachedSnapshot = [''a'', ''t''],
     notified = [[''a'', ''t''], [''a'']]\<rparr>"
  by (simp add: released_once_def emptyRetention_def idle_client_def retention_defs)

lemma released_entry:
  "rec_get (retained (module_state released_world)) ''t'' =
     Some \<lparr>refCount = 0, lastAccessedAt = 5, evictionTimeout = Some 0\<rparr>"
  by (simp add: released_world_def released_once_eq)

lemma released_idle:
  "shouldEvictEntry (client released_world) ''t'' \<lparr>refCount = 0, lastAccessedAt = 5, evictionTimeout = Some 0\<rparr>"
  by (simp add: released_world_def idle_client_def retention_defs)

lemma released_fired:
  "getRetainedThreadDetailIdsSnapshot (fireTimer idle_client 0 released_once) = [''a'']"
  by (simp add: released_once_eq idle_client_def fireTimer_def deleteEntry_def getRetainedThreadDetailIdsSnapshot_def
      retention_defs)

section \<open>Quiet runs\<close>

text \<open>
  Runs in which the client store does not change and nobody retains or releases the thread: other
  threads are retained and released, timeouts fire, the module may be reset.
\<close>

inductive quiet_step :: "string \<Rightarrow> world \<Rightarrow> world \<Rightarrow> bool" for t where
  "u \<noteq> t \<Longrightarrow> clock w \<le> now \<Longrightarrow> quiet_step t w
     (w\<lparr>clock := now, module_state := retainThreadDetailSubscription (client w) now u (module_state w)\<rparr>)"
| "u \<noteq> t \<Longrightarrow> clock w \<le> now \<Longrightarrow> quiet_step t w
     (w\<lparr>clock := now, module_state := releaseThreadDetailSubscription (client w) now u (module_state w)\<rparr>)"
| "clock w \<le> now \<Longrightarrow> (h, u, due) \<in> set (timers (module_state w)) \<Longrightarrow> due \<le> now \<Longrightarrow> quiet_step t w
     (w\<lparr>clock := now, module_state := fireTimer (client w) h (module_state w)\<rparr>)"
| "clock w \<le> now \<Longrightarrow> quiet_step t w
     (w\<lparr>clock := now, module_state := resetRetainedThreadDetailSubscriptions (module_state w)\<rparr>)"

lemma quiet_is_step: "quiet_step t w w' \<Longrightarrow> retention_step w w' \<and> client w' = client w"
  by (cases rule: quiet_step.cases, assumption) (auto intro: retention_step.intros)

text \<open>A quiet step leaves the thread as it is or drops it, and starts no timeout for it.\<close>

definition left_alone :: "string \<Rightarrow> retention \<Rightarrow> retention \<Rightarrow> bool" where
  "left_alone t st st' \<longleftrightarrow>
     (rec_get (retained st') t = None \<or> rec_get (retained st') t = rec_get (retained st) t) \<and>
     (\<forall>h due. (h, t, due) \<in> set (timers st') \<longrightarrow> (h, t, due) \<in> set (timers st))"

lemma left_alone_trans: "left_alone t st st' \<Longrightarrow> left_alone t st' st'' \<Longrightarrow> left_alone t st st''"
  unfolding left_alone_def by metis

lemma evict_alone: "linked st \<Longrightarrow> fresh_snapshot st \<Longrightarrow> left_alone t st (evictIdleEntriesToCapacity c st)"
  using evict_outcome(3,5) [of st c] unfolding left_alone_def by blast

lemma retain_alone:
  assumes "retention_inv now c st" "u \<noteq> t"
  shows "left_alone t st (retainThreadDetailSubscription c later u st)"
proof (cases "rec_get (retained st) u")
  case (Some f)
  with assms(2) clear_timers [of u st] show ?thesis
    by (auto simp: left_alone_def retain_existing rec_get_set clear_get)
next
  case None
  let ?st = "emitChange (st\<lparr>retained := rec_set u \<lparr>refCount = 1, lastAccessedAt = later, evictionTimeout = None\<rparr> (retained st)\<rparr>)"
  have "linked ?st" "fresh_snapshot ?st"
    using new_entry_linked [OF retention_invD(1) [OF assms(1)] None] by simp_all
  then have "left_alone t ?st (evictIdleEntriesToCapacity c ?st)" by (rule evict_alone)
  moreover have "left_alone t st ?st" using assms(2) by (simp add: left_alone_def rec_get_set)
  ultimately show ?thesis
    using None by (auto simp: retainThreadDetailSubscription_def intro: left_alone_trans)
qed

lemma release_alone:
  assumes "retention_inv now c st" "u \<noteq> t"
  shows "left_alone t st (releaseThreadDetailSubscription c later u st)"
proof (cases "rec_get (retained st) u")
  case None
  then show ?thesis by (simp add: left_alone_def releaseThreadDetailSubscription_def)
next
  case (Some f)
  note d = retention_invD [OF assms(1)]
  let ?st = "st\<lparr>retained := rec_set u (f\<lparr>refCount := refCount f - 1, lastAccessedAt := later\<rparr>) (retained st)\<rparr>"
  let ?sc = "scheduleEviction c later u ?st"
  have l: "linked ?st" using set_entry_linked [OF d(1) Some] by simp
  have fr: "fresh_snapshot ?st" using d(2) by (simp add: fresh_snapshot_def set_entry_keys [OF Some])
  have set: "left_alone t st ?st" using assms(2) by (simp add: left_alone_def rec_get_set)
  have scheduled: "left_alone t ?st ?sc"
    using assms(2) schedule_timer_mem [OF l] by (auto simp: left_alone_def schedule_get split: if_splits)
  have "left_alone t ?sc (evictIdleEntriesToCapacity c ?sc)"
    by (rule evict_alone [OF schedule_linked [OF l] schedule_fresh [OF fr]])
  from left_alone_trans [OF left_alone_trans [OF set scheduled] this] set show ?thesis
    unfolding release_eq [OF Some] by (simp only: if_split simp_thms)
qed

lemma fire_alone:
  assumes "retention_inv now c st" "(h, u, due) \<in> set (timers st)"
  shows "left_alone t st (fireTimer c h st)"
  using retention_invD [OF assms(1)] fireTimer_evicts [OF _ _ assms(2)]
  by (auto simp: left_alone_def rec_get_delete)

lemma reset_alone: "retention_inv now c st \<Longrightarrow> left_alone t st (resetRetainedThreadDetailSubscriptions st)"
  by (simp add: left_alone_def reset_empty [OF retention_invD(1)])

lemma quiet_alone:
  assumes "quiet_step t w w'" "retention_inv (clock w) (client w) (module_state w)"
  shows "left_alone t (module_state w) (module_state w')"
  using assms
  by (cases rule: quiet_step.cases) (auto intro: retain_alone release_alone fire_alone reset_alone)

lemma quiet_run:
  assumes "(quiet_step t)\<^sup>*\<^sup>* w w'" "reachable w"
  shows "reachable w' \<and> client w' = client w \<and> left_alone t (module_state w) (module_state w')"
  using assms
proof (induction rule: rtranclp_induct)
  case base
  then show ?case by (simp add: left_alone_def)
next
  case (step v v')
  then show ?case
    using quiet_is_step [OF step.hyps(2)] quiet_alone [OF step.hyps(2)] reachable_inv [of v]
    by (auto intro: reachable.step left_alone_trans)
qed

text \<open>No timeout is late.\<close>

definition punctual :: "world \<Rightarrow> bool" where
  "punctual w \<longleftrightarrow> (\<forall>(h, t, due)\<in>set (timers (module_state w)). clock w \<le> due)"

lemma quiet_run_drops:
  assumes "reachable w" "rec_get (retained (module_state w)) t = Some e" "shouldEvictEntry (client w) t e"
    and "(quiet_step t)\<^sup>*\<^sup>* w w'" "punctual w'" "clock w + THREAD_DETAIL_RETENTION_EVICTION_MS < clock w'"
  shows "t \<notin> set (getRetainedThreadDetailIdsSnapshot (module_state w'))"
proof
  assume m: "t \<in> set (getRetainedThreadDetailIdsSnapshot (module_state w'))"
  note q = quiet_run [OF assms(4,1)]
  then have q': "reachable w'" "client w' = client w" "left_alone t (module_state w) (module_state w')" by simp_all
  note i = reachable_inv [OF assms(1)] and i' = reachable_inv [OF q'(1)]
  from m snapshot_mem [OF retention_invD(2) [OF i']] have "rec_get (retained (module_state w')) t \<noteq> None" by simp
  with q'(3) assms(2) have e: "rec_get (retained (module_state w')) t = Some e" by (auto simp: left_alone_def)
  obtain h where "evictionTimeout e = Some h"
    using armedD [OF retention_invD(3) [OF i'] e] assms(3) q'(2) by auto
  then obtain due where t: "(h, t, due) \<in> set (timers (module_state w'))"
    using linkedD(5) [OF retention_invD(1) [OF i'] e] by blast
  then have "(h, t, due) \<in> set (timers (module_state w))" using q'(3) by (auto simp: left_alone_def)
  then have "due \<le> clock w + THREAD_DETAIL_RETENTION_EVICTION_MS"
    using retention_invD(4) [OF i] unfolding due_soon_def by blast
  moreover have "clock w' \<le> due" using t assms(5) unfolding punctual_def by blast
  ultimately show False using assms(6) by simp
qed

section \<open>Properties\<close>

text \<open>C34: In every reachable world the entries and the pending timeouts belong to each other, the snapshot
  lists the retained threads, exactly the unreferenced threads at rest have a timeout, each of them
  due within a quarter of an hour, and at most 32 threads are retained unless none of them may go.\<close>

theorem retention_runs_sound:
  assumes "reachable w"
  shows "retention_inv (clock w) (client w) (module_state w)"
  by (rule reachable_inv [OF assms])

theorem retention_runs_sound_witness: "retention_inv 5 idle_client released_once"
  using retention_runs_sound [OF released_reachable] by (simp add: released_world_def)

text \<open>C35: A step other than the reset drops a thread only when the thread is at rest in the store the
  step leaves, and nothing refers to it or the step is the release of its only reference.\<close>

theorem only_idle_threads_leave:
  assumes "reachable w" and "retention_step w w'"
    and "rec_get (retained (module_state w)) t = Some e"
    and "t \<notin> set (getRetainedThreadDetailIdsSnapshot (module_state w'))"
    and "module_state w' \<noteq> resetRetainedThreadDetailSubscriptions (module_state w)"
  shows "\<not> isNonIdleThread (client w') t \<and>
    (refCount e = 0 \<or>
     refCount e = 1 \<and> (\<exists>now. module_state w' = releaseThreadDetailSubscription (client w) now t (module_state w)))"
proof -
  note i = reachable_inv [OF assms(1)]
  have gone: "rec_get (retained (module_state w')) t = None"
    using assms(4) snapshot_mem [OF retention_invD(2) [OF step_inv [OF assms(2) i]]] by simp
  from assms(2) show ?thesis
  proof (cases rule: retention_step.cases)
    case (retain now u)
    then show ?thesis using retain_leaves [OF i assms(3)] gone by (simp add: shouldEvictEntry_def)
  next
    case (release now u)
    then show ?thesis
      using release_leaves [OF i assms(3), of now u] gone by (auto simp: shouldEvictEntry_def le_Suc_eq split: if_splits)
  next
    case (store_change now c)
    then show ?thesis using reconcile_leaves [OF i assms(3)] gone by (simp add: shouldEvictEntry_def)
  next
    case (timeout now h u due)
    then show ?thesis using fire_leaves [OF i assms(3)] gone by (simp add: shouldEvictEntry_def)
  next
    case (reset now)
    then show ?thesis using assms(5) by simp
  qed
qed

theorem only_idle_threads_leave_witness:
  "\<not> isNonIdleThread idle_client ''t''"
proof -
  let ?w' = "released_world\<lparr>clock := 900005, module_state := fireTimer idle_client 0 released_once\<rparr>"
  have s: "retention_step released_world ?w'"
    using retention_step.timeout [of released_world 900005 0 "''t''" 900005]
    by (simp add: released_world_def released_once_eq)
  have "getRetainedThreadDetailIdsSnapshot (resetRetainedThreadDetailSubscriptions released_once) = []"
    by (simp add: getRetainedThreadDetailIdsSnapshot_def resetRetainedThreadDetailSubscriptions_def emitChange_def Let_def)
  then have "fireTimer idle_client 0 released_once \<noteq> resetRetainedThreadDetailSubscriptions released_once"
    using released_fired by auto
  then show ?thesis
    using only_idle_threads_leave [OF released_reachable s released_entry] released_fired
    by (simp add: released_world_def)
qed

text \<open>Retaining a thread that is not retained adds it at the end, and drops at most one other thread:
  when 32 were retained and some of them may go, exactly the one that was accessed longest ago.\<close>

theorem retain_evicts_least_recent:
  fixes now :: nat
  assumes "reachable w" and "rec_get (retained (module_state w)) t = None"
  defines "ids \<equiv> getRetainedThreadDetailIdsSnapshot (module_state w)"
    and "after \<equiv> getRetainedThreadDetailIdsSnapshot (retainThreadDetailSubscription (client w) now t (module_state w))"
    and "may_go \<equiv> (\<lambda>u e. rec_get (retained (module_state w)) u = Some e \<and> shouldEvictEntry (client w) u e)"
  shows "if length ids < MAX_CACHED_THREAD_DETAIL_SUBSCRIPTIONS \<or> (\<nexists>u e. may_go u e) then after = ids @ [t]
    else length ids = MAX_CACHED_THREAD_DETAIL_SUBSCRIPTIONS \<and>
      (\<exists>u e. may_go u e \<and> (\<forall>v f. may_go v f \<longrightarrow> lastAccessedAt e \<le> lastAccessedAt f) \<and>
        after = filter (\<lambda>v. v \<noteq> u) ids @ [t])"
  using retain_new_outcome [OF reachable_inv [OF assms(1)] assms(2), of now]
  unfolding ids_def after_def may_go_def .

theorem retain_evicts_least_recent_witness:
  "getRetainedThreadDetailIdsSnapshot (retainThreadDetailSubscription idle_client 9 ''b'' released_once) = [''a'', ''t'', ''b'']"
proof -
  have new: "rec_get (retained (module_state released_world)) ''b'' = None"
    by (simp add: released_world_def released_once_eq)
  have ids: "getRetainedThreadDetailIdsSnapshot (module_state released_world) = [''a'', ''t'']"
    by (simp add: released_world_def released_once_eq getRetainedThreadDetailIdsSnapshot_def)
  have "length [''a'', ''t''] < MAX_CACHED_THREAD_DETAIL_SUBSCRIPTIONS"
    by (simp add: MAX_CACHED_THREAD_DETAIL_SUBSCRIPTIONS_def)
  then show ?thesis
    using retain_evicts_least_recent [OF released_reachable new, of 9] unfolding ids by (simp add: released_world_def)
qed

text \<open>C36: A thread at rest that nobody refers to has a timeout, due within a quarter of an hour, whose callback
  drops it, and it goes when the time has passed: whatever else is retained, released and dropped in the
  meantime, once more than a quarter of an hour is over it is not retained, provided that no timeout is
  late, nobody retains it or releases it again, and the client store does not change. Without the last
  condition it can stay: every change of the store starts the wait anew (\<open>store_change_postpones\<close>).\<close>

theorem idle_thread_goes:
  assumes "reachable w" and "rec_get (retained (module_state w)) t = Some e" and "shouldEvictEntry (client w) t e"
  shows "(\<exists>h due. (h, t, due) \<in> set (timers (module_state w)) \<and>
      due \<le> clock w + THREAD_DETAIL_RETENTION_EVICTION_MS \<and>
      getRetainedThreadDetailIdsSnapshot (fireTimer (client w) h (module_state w)) =
        filter (\<lambda>u. u \<noteq> t) (getRetainedThreadDetailIdsSnapshot (module_state w))) \<and>
    (\<forall>w'. (quiet_step t)\<^sup>*\<^sup>* w w' \<and> punctual w' \<and> clock w + THREAD_DETAIL_RETENTION_EVICTION_MS < clock w' \<longrightarrow>
      t \<notin> set (getRetainedThreadDetailIdsSnapshot (module_state w')))"
proof -
  note i = reachable_inv [OF assms(1)]
  note d = retention_invD [OF i]
  obtain h where "evictionTimeout e = Some h" using armedD [OF d(3) assms(2)] assms(3) by auto
  then obtain due where m: "(h, t, due) \<in> set (timers (module_state w))"
    using linkedD(5) [OF d(1) assms(2)] by blast
  moreover have "due \<le> clock w + THREAD_DETAIL_RETENTION_EVICTION_MS" using d(4) m unfolding due_soon_def by blast
  moreover have "getRetainedThreadDetailIdsSnapshot (fireTimer (client w) h (module_state w)) =
      filter (\<lambda>u. u \<noteq> t) (getRetainedThreadDetailIdsSnapshot (module_state w))"
    using delete_fields(4) [of t "module_state w\<lparr>timers := filter (\<lambda>timer. fst timer \<noteq> h) (timers (module_state w))\<rparr>"] d(2)
    unfolding fireTimer_evicts [OF d(1,3) m] getRetainedThreadDetailIdsSnapshot_def fresh_snapshot_def
    by (simp add: rec_delete_ids)
  ultimately show ?thesis using quiet_run_drops [OF assms] by blast
qed

text \<open>In the sample world the timeout fires a little late, and thread t is gone.\<close>

theorem idle_thread_goes_witness:
  "(\<exists>h due. (h, ''t'', due) \<in> set (timers released_once) \<and> due \<le> 5 + THREAD_DETAIL_RETENTION_EVICTION_MS) \<and>
   ''t'' \<notin> set (getRetainedThreadDetailIdsSnapshot (fireTimer idle_client 0 released_once))"
proof -
  let ?w = "released_world\<lparr>clock := 900006, module_state := fireTimer idle_client 0 released_once\<rparr>"
  have "quiet_step ''t'' released_world ?w"
    using quiet_step.intros(3) [of released_world 900006 0 "''t''" 900005]
    by (simp add: released_world_def released_once_eq)
  moreover have "punctual ?w"
    by (simp add: punctual_def released_once_eq fireTimer_def deleteEntry_def retention_defs idle_client_def)
  moreover have "clock released_world + THREAD_DETAIL_RETENTION_EVICTION_MS < clock ?w"
    by (simp add: released_world_def THREAD_DETAIL_RETENTION_EVICTION_MS_def)
  ultimately show ?thesis
    using idle_thread_goes [OF released_reachable released_entry released_idle]
    by (auto simp: released_world_def)
qed

text \<open>Every change of the client store starts the wait anew: after it, whatever timeout is pending is
  due a quarter of an hour after the change, however long its thread had been idle.\<close>

theorem store_change_postpones:
  assumes "reachable w" and "(h, t, due) \<in> set (timers (reconcileRetentionEntries c now (module_state w)))"
  shows "due = now + THREAD_DETAIL_RETENTION_EVICTION_MS"
proof -
  note d = retention_invD [OF reachable_inv [OF assms(1)]]
  note f = fold_schedule_all [where c = c and now = now, OF d(1)]
  have "(h, t, due) \<in> set (timers (fold (scheduleEviction c now) (map fst (retained (module_state w))) (module_state w)))"
    using evict_outcome(3) [where c = c, OF f(1) f(2) [OF d(2)]] assms(2)
    unfolding reconcileRetentionEntries_def reconcileEntry_schedules by blast
  then show ?thesis by (rule f(4))
qed

theorem store_change_postpones_witness:
  "map (snd \<circ> snd) (timers (reconcileRetentionEntries idle_client 900 released_once)) =
     [900 + THREAD_DETAIL_RETENTION_EVICTION_MS]"
proof -
  have t: "timers (reconcileRetentionEntries idle_client 900 released_once) = [(1, ''t'', 900900)]"
    by (simp add: released_once_eq idle_client_def reconcileRetentionEntries_def retention_defs)
  then have "(1, ''t'', 900900) \<in> set (timers (reconcileRetentionEntries idle_client 900 (module_state released_world)))"
    by (simp add: released_world_def)
  from store_change_postpones [OF released_reachable this] t show ?thesis by simp
qed

end
