(* ===== verification/TransportMethods.thy ===== *)
theory TransportMethods
  imports Json
begin

text \<open>
  The methods of the transport: the keys of the registry \<open>SERVED_RPC\<close>
  (\<open>frontend/src/contracts/rpc.ts\<close>, whose values only carry types), and the names of the user
  interface that \<open>frontend/src/wsTransport.ts\<close> maps onto them.
\<close>

definition SERVED_RPC :: "string list" where
  "SERVED_RPC =
    [''ping'', ''rpc/listMethods'', ''project/list'', ''project/get'', ''project/create'',
     ''project/read-file'', ''project/write-file'', ''project/list-directories'',
     ''project/search-entries'', ''project/search-local-entries'', ''thread/list'', ''thread/get'',
     ''thread/create'', ''thread/pause'', ''thread/resume'', ''thread/cancel'', ''turn/list'',
     ''turn/get'', ''turn/start'', ''turn/complete'', ''shell/getSnapshot'', ''snapshot/get'',
     ''orchestration/replayEvents'', ''orchestration/subscribeShell'',
     ''orchestration/subscribeEvents'', ''git/status'', ''git/diff'', ''git/branches'',
     ''git/create-branch'', ''git/checkout'', ''git/delete-branch'', ''git/add'', ''git/unstage'',
     ''git/commit'', ''server/getConfig'', ''server/getSettings'', ''server/welcome'',
     ''server/getEnvironment'', ''server/getDiagnostics'', ''server/subscribeConfig'',
     ''server/subscribeSettings'', ''server/subscribeProviderStatuses'', ''server/subscribeLifecycle'',
     ''terminal/create'', ''terminal/write'', ''terminal/resize'', ''terminal/close'',
     ''terminal/ack'', ''terminal/list'', ''terminal/clear'', ''terminal/restart'',
     ''terminal/subscribe-events'', ''automation/list'', ''automation/create'', ''automation/get'',
     ''automation/update'', ''automation/delete'', ''automation/run-now'', ''automation/cancel-run'',
     ''automation/mark-run-read'', ''automation/archive-run'', ''automation/subscribe'',
     ''auth/bootstrap'', ''auth/status'', ''auth/logout'', ''auth/createPairingCredential'',
     ''auth/revokePairingLink'', ''auth/listPairingLinks'', ''auth/listClientSessions'',
     ''auth/revokeClientSession'', ''auth/getWebSocketToken'', ''auth/getSessionState'',
     ''push/subscribe'', ''push/unsubscribe'', ''provider/list-models'', ''provider/list-skills'',
     ''provider/list-skills-catalog'', ''provider/list-mcp-catalog'', ''mcp/create'', ''mcp/update'',
     ''mcp/delete'', ''mcp/test-connection'', ''provider/list-plugins'', ''provider/read-plugin'',
     ''provider/list-commands'', ''provider/list-agents'', ''provider/get-composer-capabilities'',
     ''provider/list-options'', ''provider/read-skill'', ''provider/compact-thread'',
     ''stats/get-profile-stats'', ''stats/get-profile-token-stats'', ''git/stash-list'',
     ''git/stash-create'', ''git/stash-apply'', ''git/stash-drop'', ''git/stash-info'',
     ''git/stash-and-checkout'', ''git/fetch'', ''git/pull'', ''git/push'', ''git/init'',
     ''git/remove-index-lock'', ''git/worktree-list'', ''git/worktree-create'',
     ''git/worktree-remove'', ''server/set-config'', ''server/update-settings'',
     ''server/refresh-providers'', ''server/update-provider'', ''server/upsert-keybinding'',
     ''git/summarize-diff'', ''server/generate-thread-recap'', ''git/github-repository'',
     ''git/resolve-pull-request'', ''git/handoff-thread'', ''git/prepare-pull-request-thread'',
     ''server/transcribe-voice'', ''server/voice-start'', ''server/voice-stop'',
     ''git/run-stacked-action'', ''git/create-detached-worktree'', ''git/subscribe-action-progress'',
     ''server/generate-automation-intent'', ''server/patch-settings'', ''server/list-provider-usage'',
     ''server/get-provider-usage-snapshot'', ''server/start-local-server'',
     ''server/stop-local-server'', ''server/list-providers'', ''server/get-provider-statuses'',
     ''server/get-provider-auth-status'', ''server/get-usage'', ''server/get-recap'',
     ''server/list-local-servers'', ''server/list-local-server-processes'', ''server/list-worktrees'',
     ''orchestration/dispatch-command'', ''orchestration/subscribe-shell'',
     ''orchestration/subscribe-thread'', ''orchestration/unsubscribe-thread'',
     ''orchestration/get-turn-diff'', ''orchestration/get-full-thread-diff'',
     ''orchestration/replay-events'', ''orchestration/repair-state'', ''orchestration/import-thread'']"

definition MCODE_TO_SERVED :: "string js_record" where
  "MCODE_TO_SERVED =
    [(''orchestration.getShellSnapshot'', ''shell/getSnapshot''),
     (''orchestration.getSnapshot'', ''snapshot/get''),
     (''orchestration.replayEvents'', ''orchestration/replayEvents''),
     (''orchestration.dispatchCommand'', ''orchestration/dispatch-command''),
     (''orchestration.subscribeShell'', ''orchestration/subscribe-shell''),
     (''orchestration.getTurnDiff'', ''orchestration/get-turn-diff''),
     (''orchestration.getFullThreadDiff'', ''orchestration/get-full-thread-diff''),
     (''orchestration.repairState'', ''orchestration/repair-state''),
     (''orchestration.repairReadModel'', ''orchestration/repair-state''),
     (''orchestration.subscribeEvents'', ''orchestration/subscribeEvents''),
     (''orchestration.subscribeThread'', ''orchestration/subscribe-thread''),
     (''orchestration.unsubscribeThread'', ''orchestration/unsubscribe-thread''),
     (''git.status'', ''git/status''), (''git.diff'', ''git/diff''),
     (''git.readWorkingTreeDiff'', ''git/diff''), (''git.branchList'', ''git/branches''),
     (''git.listBranches'', ''git/branches''), (''git.branchCreate'', ''git/create-branch''),
     (''git.createBranch'', ''git/create-branch''), (''git.branchCheckout'', ''git/checkout''),
     (''git.checkout'', ''git/checkout''), (''git.branchDelete'', ''git/delete-branch''),
     (''git.deleteBranch'', ''git/delete-branch''), (''git.stage'', ''git/add''),
     (''git.stageFiles'', ''git/add''), (''git.unstage'', ''git/unstage''),
     (''git.unstageFiles'', ''git/unstage''), (''git.commit'', ''git/commit''),
     (''server.getConfig'', ''server/getConfig''), (''server.getSettings'', ''server/getSettings''),
     (''server.welcome'', ''server/welcome''), (''server.getEnvironment'', ''server/getEnvironment''),
     (''server.getDiagnostics'', ''server/getDiagnostics''),
     (''server.subscribeConfig'', ''server/subscribeConfig''),
     (''server.subscribeSettings'', ''server/subscribeSettings''),
     (''server.subscribeProviderStatuses'', ''server/subscribeProviderStatuses''),
     (''server.subscribeLifecycle'', ''server/subscribeLifecycle''),
     (''terminal.open'', ''terminal/create''), (''terminal.new'', ''terminal/create''),
     (''terminal.write'', ''terminal/write''), (''terminal.resize'', ''terminal/resize''),
     (''terminal.close'', ''terminal/close''), (''terminal.kill'', ''terminal/close''),
     (''terminal.ackOutput'', ''terminal/ack''), (''terminal.list'', ''terminal/list''),
     (''terminal.clear'', ''terminal/clear''), (''terminal.restart'', ''terminal/restart''),
     (''terminal.subscribeEvents'', ''terminal/subscribe-events''),
     (''terminal.subscribe'', ''terminal/subscribe-events''),
     (''automation.list'', ''automation/list''), (''automation.create'', ''automation/create''),
     (''automation.get'', ''automation/get''), (''automation.update'', ''automation/update''),
     (''automation.delete'', ''automation/delete''), (''automation.runNow'', ''automation/run-now''),
     (''automation.run'', ''automation/run-now''),
     (''automation.cancelRun'', ''automation/cancel-run''),
     (''automation.markRunRead'', ''automation/mark-run-read''),
     (''automation.archiveRun'', ''automation/archive-run''),
     (''automation.subscribe'', ''automation/subscribe''),
     (''automation.unsubscribe'', ''automation/subscribe''),
     (''provider.listModels'', ''provider/list-models''),
     (''provider.listSkills'', ''provider/list-skills''),
     (''provider.listSkillsCatalog'', ''provider/list-skills-catalog''),
     (''provider.listPlugins'', ''provider/list-plugins''),
     (''provider.readPlugin'', ''provider/read-plugin''),
     (''provider.listCommands'', ''provider/list-commands''),
     (''provider.listAgents'', ''provider/list-agents''),
     (''provider.getComposerCapabilities'', ''provider/get-composer-capabilities''),
     (''provider.listOptions'', ''provider/list-options''),
     (''provider.readSkill'', ''provider/read-skill''),
     (''provider.compactThread'', ''provider/compact-thread''),
     (''provider.listMcpCatalog'', ''provider/list-mcp-catalog''), (''mcp.create'', ''mcp/create''),
     (''mcp.update'', ''mcp/update''), (''mcp.delete'', ''mcp/delete''),
     (''mcp.testConnection'', ''mcp/test-connection''),
     (''stats.getProfileStats'', ''stats/get-profile-stats''),
     (''stats.getProfileTokenStats'', ''stats/get-profile-token-stats''),
     (''git.stashList'', ''git/stash-list''), (''git.stashCreate'', ''git/stash-create''),
     (''git.stashApply'', ''git/stash-apply''), (''git.stashDrop'', ''git/stash-drop''),
     (''git.stashInfo'', ''git/stash-info''), (''git.stashAndCheckout'', ''git/stash-and-checkout''),
     (''git.fetch'', ''git/fetch''), (''git.pull'', ''git/pull''), (''git.push'', ''git/push''),
     (''git.init'', ''git/init''), (''git.removeIndexLock'', ''git/remove-index-lock''),
     (''git.worktreeList'', ''git/worktree-list''), (''git.listWorktrees'', ''git/worktree-list''),
     (''git.worktreeCreate'', ''git/worktree-create''),
     (''git.createWorktree'', ''git/worktree-create''),
     (''git.worktreeRemove'', ''git/worktree-remove''),
     (''git.removeWorktree'', ''git/worktree-remove''), (''server.setConfig'', ''server/set-config''),
     (''server.updateSettings'', ''server/update-settings''),
     (''server.refreshProviders'', ''server/refresh-providers''),
     (''server.updateProvider'', ''server/update-provider''),
     (''server.upsertKeybinding'', ''server/upsert-keybinding''),
     (''git.summarizeDiff'', ''git/summarize-diff''),
     (''server.generateThreadRecap'', ''server/generate-thread-recap''),
     (''git.githubRepository'', ''git/github-repository''),
     (''git.resolvePullRequest'', ''git/resolve-pull-request''),
     (''git.handoffThread'', ''git/handoff-thread''),
     (''git.preparePullRequestThread'', ''git/prepare-pull-request-thread''),
     (''server.transcribeVoice'', ''server/transcribe-voice''),
     (''server.voiceStart'', ''server/voice-start''), (''server.voiceStop'', ''server/voice-stop''),
     (''git.runStackedAction'', ''git/run-stacked-action''),
     (''git.createDetachedWorktree'', ''git/create-detached-worktree''),
     (''git.subscribeActionProgress'', ''git/subscribe-action-progress''),
     (''server.generateAutomationIntent'', ''server/generate-automation-intent''),
     (''server.patchSettings'', ''server/patch-settings''),
     (''server.listProviderUsage'', ''server/list-provider-usage''),
     (''server.getProviderUsageSnapshot'', ''server/get-provider-usage-snapshot''),
     (''server.startLocalServer'', ''server/start-local-server''),
     (''server.stopLocalServer'', ''server/stop-local-server''),
     (''server.listProviders'', ''server/list-providers''),
     (''server.getProviderStatuses'', ''server/get-provider-statuses''),
     (''server.getProviderAuthStatus'', ''server/get-provider-auth-status''),
     (''server.getUsage'', ''server/get-usage''), (''server.getRecap'', ''server/get-recap''),
     (''server.listLocalServers'', ''server/list-local-servers''),
     (''server.listLocalServerProcesses'', ''server/list-local-server-processes''),
     (''server.listWorktrees'', ''server/list-worktrees''),
     (''project.readFile'', ''project/read-file''), (''project.writeFile'', ''project/write-file''),
     (''project.listDirectories'', ''project/list-directories''),
     (''project.searchEntries'', ''project/search-entries''),
     (''project.searchLocalEntries'', ''project/search-local-entries''),
     (''projects.listDirectories'', ''project/list-directories''),
     (''projects.searchEntries'', ''project/search-entries''),
     (''projects.searchLocalEntries'', ''project/search-local-entries''),
     (''projects.readFile'', ''project/read-file''), (''projects.writeFile'', ''project/write-file'')]"

text \<open>
  \<open>method in SERVED_RPC\<close> also holds for what every object inherits.
\<close>

definition OBJECT_PROTOTYPE_KEYS :: "string list" where
  "OBJECT_PROTOTYPE_KEYS =
    [''constructor'', ''hasOwnProperty'', ''isPrototypeOf'', ''propertyIsEnumerable'', ''toLocaleString'',
     ''toString'', ''valueOf'', ''__proto__'', ''__defineGetter__'', ''__defineSetter__'', ''__lookupGetter__'',
     ''__lookupSetter__'']"

definition mapMethodToServed :: "string \<Rightarrow> string option" where
  "mapMethodToServed method =
     (if method \<in> set SERVED_RPC \<or> method \<in> set OBJECT_PROTOTYPE_KEYS then Some method
      else rec_get MCODE_TO_SERVED method)"

text \<open>Every name is mapped onto a served method; the numbers are their places in the registry.\<close>

lemma remap_targets:
  "map snd MCODE_TO_SERVED = map (\<lambda>i. SERVED_RPC ! i)
     [20, 21, 22, 137, 138, 141, 142, 144, 144, 24, 139, 140, 25, 26, 26, 27, 27, 28, 28, 29,
      29, 30, 30, 31, 31, 32, 32, 33, 34, 35, 36, 37, 38, 39, 40, 41, 42, 43, 43, 44, 45, 46,
      46, 47, 48, 49, 50, 51, 51, 52, 53, 54, 55, 56, 57, 57, 58, 59, 60, 61, 61, 74, 75, 76,
      82, 83, 84, 85, 86, 87, 88, 89, 77, 78, 79, 80, 81, 90, 91, 92, 93, 94, 95, 96, 97, 98,
      99, 100, 101, 102, 103, 103, 104, 104, 105, 105, 106, 107, 108, 109, 110, 111, 112, 113,
      114, 115, 116, 117, 118, 119, 120, 121, 122, 123, 124, 125, 126, 127, 128, 129, 130, 131,
      132, 133, 134, 135, 136, 5, 6, 7, 8, 9, 7, 8, 9, 5, 6]"
  unfolding MCODE_TO_SERVED_def SERVED_RPC_def by simp

lemma served_count: "length SERVED_RPC = 146"
  unfolding SERVED_RPC_def by simp

lemma remaps_served: "rec_get MCODE_TO_SERVED method = Some served \<Longrightarrow> served \<in> set SERVED_RPC"
proof -
  assume "rec_get MCODE_TO_SERVED method = Some served"
  then have "served \<in> set (map snd MCODE_TO_SERVED)" by (force dest: map_of_SomeD)
  then show ?thesis unfolding remap_targets using nth_mem [of _ SERVED_RPC] by (auto simp: served_count)
qed

end
