(* ===== verification/Transport.thy ===== *)
theory Transport
  imports TransportMethods
begin

text \<open>
  The WebSocket transport: \<open>frontend/src/wsTransport.ts\<close>. The state is the fields of \<open>WsTransport\<close>
  and, around them, the world its promises and events live in: the sockets made so far with their
  ready state and whether their handlers are attached, the session promises with the continuations
  that await them, the queued continuations, the pending reconnect timeouts, and what went out:
  frames, settled calls, delivered pushes and state changes.

  Calls may come at any time, also while continuations are queued; the browser's events (a socket
  opens, receives, closes, a timeout fires) come only when no continuation is queued. A frame is
  given as the value \<open>JSON.parse\<close> returns, \<open>None\<close> when it fails; listeners are names whose bodies
  do not call the transport. Building the URL and the socket either works or throws a message,
  which is part of the event.
\<close>

section \<open>Numbers in replies\<close>

text \<open>
  \<open>Number(value)\<close> as far as it is a natural number: decimal, hexadecimal, octal and binary
  literals, blank strings as 0, booleans, null, and arrays of one element by their text. Values are
  exact (the code rounds to a double).
\<close>

definition is_digit :: "char \<Rightarrow> bool" where
  "is_digit c \<longleftrightarrow> 48 \<le> (of_char c :: nat) \<and> (of_char c :: nat) \<le> 57"

definition digit_value :: "char \<Rightarrow> nat" where
  "digit_value c =
     (let n = of_char c in
      if 48 \<le> n \<and> n \<le> 57 then n - 48
      else if 97 \<le> n \<and> n \<le> 122 then n - 87
      else if 65 \<le> n \<and> n \<le> 90 then n - 55 else 36)"

definition radix_number :: "nat \<Rightarrow> string \<Rightarrow> nat option" where
  "radix_number b s =
     (if s \<noteq> [] \<and> list_all (\<lambda>c. digit_value c < b) s
      then Some (foldl (\<lambda>n c. b * n + digit_value c) 0 s) else None)"

text \<open>The mantissa scaled by a power of ten, when that is a natural number.\<close>

definition scaled :: "nat \<Rightarrow> int \<Rightarrow> nat option" where
  "scaled m e =
     (if 0 \<le> e then Some (m * 10 ^ nat e)
      else if m mod 10 ^ nat (- e) = 0 then Some (m div 10 ^ nat (- e)) else None)"

definition unsigned_of :: "string \<Rightarrow> string" where
  "unsigned_of s = (if s \<noteq> [] \<and> (hd s = CHR ''+'' \<or> hd s = CHR ''-'') then tl s else s)"

definition exponent_of :: "string \<Rightarrow> int option" where
  "exponent_of s =
     (let d = unsigned_of s in
      if d = [] \<or> \<not> list_all is_digit d then None
      else Some (if hd s = CHR ''-'' then - int (str_nat d) else int (str_nat d)))"

definition decimal_number :: "string \<Rightarrow> nat option" where
  "decimal_number s =
     (let d = unsigned_of s;
          mantissa = takeWhile (\<lambda>c. c \<noteq> CHR ''e'' \<and> c \<noteq> CHR ''E'') d;
          tail = drop (length mantissa) d;
          whole = takeWhile (\<lambda>c. c \<noteq> CHR ''.'') mantissa;
          fraction = drop (length whole + 1) mantissa
      in if \<not> list_all is_digit (whole @ fraction) \<or> whole @ fraction = [] then None
         else case (if tail = [] then Some 0 else exponent_of (tl tail)) of
           None \<Rightarrow> None
         | Some e \<Rightarrow>
             (case scaled (str_nat (whole @ fraction)) (e - int (length fraction)) of
                None \<Rightarrow> None
              | Some n \<Rightarrow> if hd s = CHR ''-'' \<and> n \<noteq> 0 then None else Some n))"

definition string_number :: "string \<Rightarrow> nat option" where
  "string_number s0 =
     (let s = js_trim s0 in
      if s = [] then Some 0
      else if take 2 s = ''0x'' \<or> take 2 s = ''0X'' then radix_number 16 (drop 2 s)
      else if take 2 s = ''0o'' \<or> take 2 s = ''0O'' then radix_number 8 (drop 2 s)
      else if take 2 s = ''0b'' \<or> take 2 s = ''0B'' then radix_number 2 (drop 2 s)
      else decimal_number s)"

definition rat_number :: "rat \<Rightarrow> nat option" where
  "rat_number r = (let z = \<lfloor>r\<rfloor> in if 0 \<le> z \<and> of_int z = r then Some (nat z) else None)"

fun js_number :: "json \<Rightarrow> nat option" where
  "js_number JNull = Some 0"
| "js_number (JBool b) = Some (if b then 1 else 0)"
| "js_number (JNum (Num r)) = rat_number r"
| "js_number (JNum NonFinite) = None"
| "js_number (JStr s) = string_number s"
| "js_number (JArr []) = Some 0"
| "js_number (JArr [JBool b]) = None"
| "js_number (JArr [v]) = js_number v"
| "js_number (JArr (v # w # vs)) = None"
| "js_number (JObj ps) = None"

section \<open>State\<close>

datatype transport_state = TsConnecting | TsOpen | TsClosed | TsDisposed

datatype ready_state = CONNECTING | OPEN | CLOSING | CLOSED

text \<open>What a rejected promise carries: an error of the transport, or the error of a reply.\<close>

datatype rejection =
    Failure string
  | RpcFailure "json option" "json option" "json option"

datatype settlement = Resolved json | Rejected rejection

text \<open>
  What awaits a session: the rest of a call (its name in the world, the method, the parameters) or
  the rest of a reconnect attempt. A queued continuation knows how the await ended.
\<close>

datatype continuation = SendRequest nat string json | ReconnectAttempt

datatype job = Continue continuation | Abort continuation rejection

datatype session_promise = Waiting "continuation list" | Fulfilled | Failed rejection

record ws_socket =
  readyState :: ready_state
  attached :: bool
  sessionOf :: nat

record push_message =
  pushSequence :: nat
  pushChannel :: string
  pushData :: "json option"

text \<open>The listener sets are objects: the map of the channels holds their addresses.\<close>

record ws_transport =
  listenersOf :: "nat js_record"
  listenerSets :: "nat list list"
  stateListeners :: "nat list"
  latestPushByChannel :: "push_message js_record"
  pendingRequests :: "(nat \<times> nat) list"
  pushCount :: nat
  nextId :: nat
  tstate :: transport_state
  disposed :: bool
  socketRef :: "nat option"
  connectPromise :: "nat option"
  reconnectFailures :: nat

record ws_world = ws_transport +
  sockets :: "ws_socket list"
  promises :: "session_promise list"
  jobs :: "job list"
  reconnectTimers :: "nat list"
  calls :: nat
  settled :: "(nat \<times> settlement) list"
  sent :: "(nat \<times> json) list"
  delivered :: "(nat \<times> push_message) list"
  notified :: "(nat \<times> transport_state) list"

definition initialTransport :: ws_world where
  "initialTransport =
     \<lparr>listenersOf = [], listenerSets = [], stateListeners = [], latestPushByChannel = [], pendingRequests = [],
      pushCount = 0, nextId = 1, tstate = TsConnecting, disposed = False, socketRef = None,
      connectPromise = None, reconnectFailures = 0,
      sockets = [], promises = [], jobs = [], reconnectTimers = [], calls = 0, settled = [], sent = [],
      delivered = [], notified = []\<rparr>"

definition setState :: "transport_state \<Rightarrow> ws_world \<Rightarrow> ws_world" where
  "setState s w =
     (if tstate w = s then w
      else w\<lparr>tstate := s, notified := notified w @ map (\<lambda>l. (l, s)) (stateListeners w)\<rparr>)"

definition settle :: "nat \<Rightarrow> settlement \<Rightarrow> ws_world \<Rightarrow> ws_world" where
  "settle call outcome w = w\<lparr>settled := settled w @ [(call, outcome)]\<rparr>"

section \<open>Sessions\<close>

text \<open>Awaiting a session promise; resolving and rejecting it, once.\<close>

definition await :: "nat \<Rightarrow> continuation \<Rightarrow> ws_world \<Rightarrow> ws_world" where
  "await p c w =
     (case list_get (promises w) p of
        Some (Waiting cs) \<Rightarrow> w\<lparr>promises := (promises w)[p := Waiting (cs @ [c])]\<rparr>
      | Some Fulfilled \<Rightarrow> w\<lparr>jobs := jobs w @ [Continue c]\<rparr>
      | Some (Failed e) \<Rightarrow> w\<lparr>jobs := jobs w @ [Abort c e]\<rparr>
      | None \<Rightarrow> w)"

definition resolveSession :: "nat \<Rightarrow> ws_world \<Rightarrow> ws_world" where
  "resolveSession p w =
     (case list_get (promises w) p of
        Some (Waiting cs) \<Rightarrow> w\<lparr>promises := (promises w)[p := Fulfilled], jobs := jobs w @ map Continue cs\<rparr>
      | _ \<Rightarrow> w)"

definition rejectSession :: "nat \<Rightarrow> rejection \<Rightarrow> ws_world \<Rightarrow> ws_world" where
  "rejectSession p e w =
     (case list_get (promises w) p of
        Some (Waiting cs) \<Rightarrow>
          w\<lparr>promises := (promises w)[p := Failed e], jobs := jobs w @ map (\<lambda>c. Abort c e) cs\<rparr>
      | _ \<Rightarrow> w)"

text \<open>
  The executor of the promise runs before the field is assigned, so when it fails the field holds
  the rejected promise.
\<close>

definition openSession :: "string option \<Rightarrow> ws_world \<Rightarrow> ws_world \<times> nat" where
  "openSession fault w0 =
     (case connectPromise w0 of
        Some p \<Rightarrow> (w0, p)
      | None \<Rightarrow>
          (let w = setState TsConnecting w0; p = length (promises w) in
           case fault of
             Some message \<Rightarrow>
               ((setState TsClosed (w\<lparr>promises := promises w @ [Failed (Failure message)]\<rparr>))\<lparr>connectPromise := Some p\<rparr>, p)
           | None \<Rightarrow>
               (w\<lparr>promises := promises w @ [Waiting []],
                  sockets := sockets w @ [\<lparr>readyState = CONNECTING, attached = True, sessionOf = p\<rparr>],
                  socketRef := Some (length (sockets w)), connectPromise := Some p\<rparr>, p)))"

definition scheduleReconnect :: "ws_world \<Rightarrow> ws_world" where
  "scheduleReconnect w =
     (if disposed w then w
      else w\<lparr>reconnectTimers := reconnectTimers w @ [min (500 * 2 ^ reconnectFailures w) 5000],
             reconnectFailures := reconnectFailures w + 1\<rparr>)"

text \<open>What follows the delay of \<open>scheduleReconnect\<close>.\<close>

definition reconnectNow :: "string option \<Rightarrow> ws_world \<Rightarrow> ws_world" where
  "reconnectNow fault w =
     (if disposed w then w
      else case openSession fault (w\<lparr>connectPromise := None\<rparr>) of (w', p) \<Rightarrow> await p ReconnectAttempt w')"

section \<open>Calls\<close>

definition omitNullUserInputAnswers :: "json option \<Rightarrow> json option" where
  "omitNullUserInputAnswers input =
     (case input of
        Some (JObj ps) \<Rightarrow>
          if map_of ps ''type'' \<noteq> Some (JStr ''thread.user-input.respond'') then input
          else (case map_of ps ''answers'' of
            Some (JObj answers) \<Rightarrow>
              Some (JObj (rec_set ''answers'' (JObj (from_entries (filter (\<lambda>(_, v). v \<noteq> JNull) answers))) ps))
          | _ \<Rightarrow> input)
      | _ \<Rightarrow> input)"

definition request_frame :: "nat \<Rightarrow> string \<Rightarrow> json \<Rightarrow> json" where
  "request_frame n method params =
     JObj [(''jsonrpc'', JStr ''2.0''), (''id'', JStr (nat_str n)), (''method'', JStr method),
           (''params'', case params of JObj ps \<Rightarrow> JObj ps | _ \<Rightarrow> JObj [])]"

text \<open>The rest of \<open>sendJsonRpc\<close> after the socket was open. A connecting socket throws, a closing one discards.\<close>

definition sendFrame :: "nat \<Rightarrow> string \<Rightarrow> json \<Rightarrow> ws_world \<Rightarrow> ws_world" where
  "sendFrame call method params w0 =
     (let n = nextId w0;
          w = w0\<lparr>nextId := n + 1, pendingRequests := pendingRequests w0 @ [(n, call)]\<rparr>
      in case socketRef w of
        None \<Rightarrow> w
      | Some s \<Rightarrow>
          (case map_option readyState (list_get (sockets w) s) of
             Some CONNECTING \<Rightarrow>
               settle call (Rejected (Failure ''InvalidStateError''))
                 (w\<lparr>pendingRequests := filter (\<lambda>entry. fst entry \<noteq> n) (pendingRequests w)\<rparr>)
           | Some OPEN \<Rightarrow> w\<lparr>sent := sent w @ [(s, request_frame n method params)]\<rparr>
           | _ \<Rightarrow> w))"

definition socket_is :: "ready_state \<Rightarrow> ws_world \<Rightarrow> nat \<Rightarrow> bool" where
  "socket_is r w s \<longleftrightarrow> map_option readyState (list_get (sockets w) s) = Some r"

definition socketOpen :: "ws_world \<Rightarrow> bool" where
  "socketOpen w \<longleftrightarrow> (case socketRef w of None \<Rightarrow> False | Some s \<Rightarrow> socket_is OPEN w s)"

definition sendJsonRpc :: "string option \<Rightarrow> nat \<Rightarrow> string \<Rightarrow> json \<Rightarrow> ws_world \<Rightarrow> ws_world" where
  "sendJsonRpc fault call method params w =
     (if disposed w then settle call (Rejected (Failure ''Transport disposed'')) w
      else if socketOpen w then w\<lparr>jobs := jobs w @ [Continue (SendRequest call method params)]\<rparr>
      else case openSession fault w of (w', p) \<Rightarrow> await p (SendRequest call method params) w')"

text \<open>The command of a dispatch; \<open>params\<close> is absent or a value.\<close>

definition request_payload :: "string \<Rightarrow> json option \<Rightarrow> json option" where
  "request_payload method params =
     (if method = ''orchestration.dispatchCommand''
      then omitNullUserInputAnswers (case params of None \<Rightarrow> None | Some v \<Rightarrow> json_prop v ''command'')
      else params)"

definition or_empty :: "json option \<Rightarrow> json" where
  "or_empty payload = (case payload of None \<Rightarrow> JObj [] | Some JNull \<Rightarrow> JObj [] | Some v \<Rightarrow> v)"

definition request :: "string option \<Rightarrow> string \<Rightarrow> json option \<Rightarrow> ws_world \<Rightarrow> ws_world" where
  "request fault method params w0 =
     (let call = calls w0; w = w0\<lparr>calls := call + 1\<rparr> in
      if disposed w then settle call (Rejected (Failure ''Transport disposed'')) w
      else case mapMethodToServed method of
        None \<Rightarrow> settle call (Rejected (Failure (''Method not found: '' @ method))) w
      | Some served \<Rightarrow> sendJsonRpc fault call served (or_empty (request_payload method params)) w)"

definition rpc :: "string option \<Rightarrow> string \<Rightarrow> json \<Rightarrow> ws_world \<Rightarrow> ws_world" where
  "rpc fault method params w =
     sendJsonRpc fault (calls w) method (or_empty (Some params)) (w\<lparr>calls := calls w + 1\<rparr>)"

definition runJob :: "job \<Rightarrow> ws_world \<Rightarrow> ws_world" where
  "runJob j w =
     (case j of
        Continue (SendRequest call method params) \<Rightarrow> sendFrame call method params w
      | Continue ReconnectAttempt \<Rightarrow> w
      | Abort (SendRequest call method params) e \<Rightarrow> settle call (Rejected e) w
      | Abort ReconnectAttempt e \<Rightarrow> if disposed w then w else scheduleReconnect w)"

section \<open>Pushes\<close>

definition subscribe :: "string \<Rightarrow> nat \<Rightarrow> bool \<Rightarrow> ws_world \<Rightarrow> ws_world" where
  "subscribe channel listener replayLatest w0 =
     (let w = (case rec_get (listenersOf w0) channel of
                 Some _ \<Rightarrow> w0
               | None \<Rightarrow> w0\<lparr>listenersOf := rec_set channel (length (listenerSets w0)) (listenersOf w0),
                             listenerSets := listenerSets w0 @ [[]]\<rparr>);
          a = the (rec_get (listenersOf w) channel);
          w1 = w\<lparr>listenerSets := (listenerSets w)[a := listenerSets w ! a @ [listener]]\<rparr>
      in case (if replayLatest then rec_get (latestPushByChannel w1) channel else None) of
           None \<Rightarrow> w1
         | Some latest \<Rightarrow> w1\<lparr>delivered := delivered w1 @ [(listener, latest)]\<rparr>)"

text \<open>The function \<open>subscribe\<close> returns, with the set it holds.\<close>

definition unsubscribe :: "string \<Rightarrow> nat \<Rightarrow> nat \<Rightarrow> ws_world \<Rightarrow> ws_world" where
  "unsubscribe channel a listener w0 =
     (let w = w0\<lparr>listenerSets := (listenerSets w0)[a := removeAll listener (listenerSets w0 ! a)]\<rparr>
      in if listenerSets w ! a = [] then w\<lparr>listenersOf := rec_delete channel (listenersOf w)\<rparr> else w)"

definition getLatestPush :: "string \<Rightarrow> ws_world \<Rightarrow> push_message option" where
  "getLatestPush channel w = rec_get (latestPushByChannel w) channel"

definition onStateChange :: "nat \<Rightarrow> bool \<Rightarrow> ws_world \<Rightarrow> ws_world" where
  "onStateChange listener replayCurrent w0 =
     (let w = (if listener \<in> set (stateListeners w0) then w0
               else w0\<lparr>stateListeners := stateListeners w0 @ [listener]\<rparr>)
      in if replayCurrent then w\<lparr>notified := notified w @ [(listener, tstate w)]\<rparr> else w)"

definition offStateChange :: "nat \<Rightarrow> ws_world \<Rightarrow> ws_world" where
  "offStateChange listener w = w\<lparr>stateListeners := removeAll listener (stateListeners w)\<rparr>"

definition emit :: "string \<Rightarrow> json option \<Rightarrow> ws_world \<Rightarrow> ws_world" where
  "emit channel data w =
     (let message = \<lparr>pushSequence = pushCount w + 1, pushChannel = channel, pushData = data\<rparr>;
          listeners = (case rec_get (listenersOf w) channel of None \<Rightarrow> [] | Some a \<Rightarrow> listenerSets w ! a)
      in w\<lparr>pushCount := pushCount w + 1, latestPushByChannel := rec_set channel message (latestPushByChannel w),
           delivered := delivered w @ map (\<lambda>l. (l, message)) listeners\<rparr>)"

text \<open>A method that is not a string makes the handler throw, which changes nothing.\<close>

definition routePush :: "json option \<Rightarrow> json option \<Rightarrow> ws_world \<Rightarrow> ws_world" where
  "routePush method params w =
     (case method of
        Some (JStr m) \<Rightarrow> if take 5 m = ''push/'' then emit (drop 5 m) params w else w
      | _ \<Rightarrow> w)"

section \<open>Replies\<close>

definition reply_outcome :: "json \<Rightarrow> settlement" where
  "reply_outcome response =
     (case json_prop response ''error'' of
        Some err \<Rightarrow>
          if err = JNull then Resolved (or_empty (json_prop response ''result''))
          else Rejected (RpcFailure (json_prop err ''message'') (json_prop err ''code'') (json_prop err ''data''))
      | None \<Rightarrow> Resolved (or_empty (json_prop response ''result'')))"

definition handleReply :: "json \<Rightarrow> ws_world \<Rightarrow> ws_world" where
  "handleReply response w =
     (case js_number (the (json_prop response ''id'')) of
        None \<Rightarrow> w
      | Some n \<Rightarrow>
          (case map_of (pendingRequests w) n of
             None \<Rightarrow> w
           | Some call \<Rightarrow>
               settle call (reply_outcome response)
                 (w\<lparr>pendingRequests := filter (\<lambda>entry. fst entry \<noteq> n) (pendingRequests w)\<rparr>)))"

definition handleIncoming :: "json option \<Rightarrow> ws_world \<Rightarrow> ws_world" where
  "handleIncoming parsed w =
     (case parsed of
        Some (JObj ps) \<Rightarrow>
          let hasId = (map_of ps ''id'' \<noteq> None); hasMethod = (map_of ps ''method'' \<noteq> None) in
          if hasId \<and> \<not> hasMethod then handleReply (JObj ps) w
          else if hasMethod \<and> \<not> hasId then routePush (map_of ps ''method'') (map_of ps ''params'') w
          else w
      | _ \<Rightarrow> w)"

section \<open>Socket events and disposal\<close>

definition socket_set :: "nat \<Rightarrow> (ws_socket \<Rightarrow> ws_socket) \<Rightarrow> ws_world \<Rightarrow> ws_world" where
  "socket_set s f w = w\<lparr>sockets := (sockets w)[s := f (sockets w ! s)]\<rparr>"

definition socketOpened :: "nat \<Rightarrow> ws_world \<Rightarrow> ws_world" where
  "socketOpened s w0 =
     (let w = socket_set s (readyState_update (\<lambda>_. OPEN)) w0 in
      if \<not> attached (sockets w ! s) then w
      else (resolveSession (sessionOf (sockets w ! s)) (setState TsOpen (w\<lparr>reconnectFailures := 0\<rparr>)))
             \<lparr>connectPromise := None\<rparr>)"

definition socketMessage :: "nat \<Rightarrow> json option \<Rightarrow> ws_world \<Rightarrow> ws_world" where
  "socketMessage s parsed w = (if attached (sockets w ! s) then handleIncoming parsed w else w)"

definition socketClosed :: "nat \<Rightarrow> ws_world \<Rightarrow> ws_world" where
  "socketClosed s w0 =
     (let w = socket_set s (readyState_update (\<lambda>_. CLOSED)) w0 in
      if \<not> attached (sockets w ! s) then w
      else
        let w1 = w\<lparr>socketRef := None\<rparr>;
            w2 = (if connectPromise w1 = None then w1
                  else rejectSession (sessionOf (sockets w ! s)) (Failure ''WebSocket closed before open'')
                    (w1\<lparr>connectPromise := None\<rparr>))
        in if disposed w2 then setState TsClosed w2 else scheduleReconnect (setState TsConnecting w2))"

definition dispose :: "ws_world \<Rightarrow> ws_world" where
  "dispose w0 =
     (if disposed w0 then w0
      else
        let w1 = setState TsDisposed (w0\<lparr>disposed := True\<rparr>);
            w2 = w1\<lparr>settled := settled w1 @
                      map (\<lambda>entry. (snd entry, Rejected (Failure ''Transport disposed''))) (pendingRequests w1),
                    pendingRequests := []\<rparr>;
            w3 = w2\<lparr>socketRef := None\<rparr>
        in case socketRef w2 of
             None \<Rightarrow> w3
           | Some s \<Rightarrow>
               socket_set s (\<lambda>k. k\<lparr>attached := False,
                 readyState := if readyState k = CLOSED then CLOSED else CLOSING\<rparr>) w3)"

section \<open>Events\<close>

text \<open>The transport after its constructor.\<close>

definition startTransport :: "string option \<Rightarrow> ws_world" where
  "startTransport fault = fst (openSession fault initialTransport)"

datatype ws_event =
    Request "string option" string "json option"
  | Rpc "string option" string json
  | Subscribe string nat bool
  | Unsubscribe string nat nat
  | OnStateChange nat bool
  | OffStateChange nat
  | Dispose
  | RunJob
  | SocketOpened nat
  | SocketMessage nat "json option"
  | SocketClosed nat
  | ReconnectTimeout nat "string option"

fun ws_step :: "ws_world \<Rightarrow> ws_event \<Rightarrow> ws_world" where
  "ws_step w (Request fault method params) = request fault method params w"
| "ws_step w (Rpc fault method params) = rpc fault method params w"
| "ws_step w (Subscribe channel l replay) = subscribe channel l replay w"
| "ws_step w (Unsubscribe channel a l) = unsubscribe channel a l w"
| "ws_step w (OnStateChange l replay) = onStateChange l replay w"
| "ws_step w (OffStateChange l) = offStateChange l w"
| "ws_step w Dispose = dispose w"
| "ws_step w RunJob = (case jobs w of [] \<Rightarrow> w | j # js \<Rightarrow> runJob j (w\<lparr>jobs := js\<rparr>))"
| "ws_step w (SocketOpened s) = socketOpened s w"
| "ws_step w (SocketMessage s parsed) = socketMessage s parsed w"
| "ws_step w (SocketClosed s) = socketClosed s w"
| "ws_step w (ReconnectTimeout i fault) =
     reconnectNow fault (w\<lparr>reconnectTimers := take i (reconnectTimers w) @ drop (i + 1) (reconnectTimers w)\<rparr>)"

text \<open>When an event can happen.\<close>

fun ws_enabled :: "ws_world \<Rightarrow> ws_event \<Rightarrow> bool" where
  "ws_enabled w (Subscribe channel l replay) \<longleftrightarrow> (\<forall>ls\<in>set (listenerSets w). l \<notin> set ls)"
| "ws_enabled w (Unsubscribe channel a l) \<longleftrightarrow> a < length (listenerSets w)"
| "ws_enabled w (SocketOpened s) \<longleftrightarrow> jobs w = [] \<and> socket_is CONNECTING w s"
| "ws_enabled w (SocketMessage s parsed) \<longleftrightarrow> jobs w = [] \<and> socket_is OPEN w s"
| "ws_enabled w (SocketClosed s) \<longleftrightarrow> jobs w = [] \<and> s < length (sockets w) \<and> \<not> socket_is CLOSED w s"
| "ws_enabled w (ReconnectTimeout i fault) \<longleftrightarrow> jobs w = [] \<and> i < length (reconnectTimers w)"
| "ws_enabled w _ \<longleftrightarrow> True"

section \<open>Lifecycle channels\<close>

definition SERVER_LIFECYCLE_CHANNELS :: "string list" where
  "SERVER_LIFECYCLE_CHANNELS = [''server.welcome'', ''server.maintenanceUpdated'']"

definition isServerLifecyclePushChannel :: "string \<Rightarrow> bool" where
  "isServerLifecyclePushChannel channel \<longleftrightarrow> channel \<in> set SERVER_LIFECYCLE_CHANNELS"

definition shouldKeepServerLifecycleStream :: "string list \<Rightarrow> bool" where
  "shouldKeepServerLifecycleStream activeChannels \<longleftrightarrow>
     list_ex (\<lambda>channel. channel \<in> set activeChannels) SERVER_LIFECYCLE_CHANNELS"

end
