(* ===== verification/TransportWf.thy ===== *)
theory TransportWf
  imports Transport "HOL-Library.Multiset"
begin

text \<open>
  The invariant of the transport: its references are valid, the ids of pending requests are distinct
  and used up, and every call made is in exactly one place, either settled, pending, queued or
  awaiting a session. Every event keeps it.
\<close>

section \<open>Where the calls are\<close>

fun cont_calls :: "continuation \<Rightarrow> nat multiset" where
  "cont_calls (SendRequest call _ _) = {#call#}"
| "cont_calls ReconnectAttempt = {#}"

fun job_calls :: "job \<Rightarrow> nat multiset" where
  "job_calls (Continue c) = cont_calls c"
| "job_calls (Abort c _) = cont_calls c"

fun promise_calls :: "session_promise \<Rightarrow> nat multiset" where
  "promise_calls (Waiting cs) = sum_list (map cont_calls cs)"
| "promise_calls Fulfilled = {#}"
| "promise_calls (Failed _) = {#}"

definition settled_calls :: "ws_world \<Rightarrow> nat multiset" where
  "settled_calls w = mset (map fst (settled w))"

definition pending_calls :: "ws_world \<Rightarrow> nat multiset" where
  "pending_calls w = mset (map snd (pendingRequests w))"

definition queued_calls :: "ws_world \<Rightarrow> nat multiset" where
  "queued_calls w = sum_list (map job_calls (jobs w))"

definition waiting_calls :: "ws_world \<Rightarrow> nat multiset" where
  "waiting_calls w = sum_list (map promise_calls (promises w))"

definition all_calls :: "ws_world \<Rightarrow> nat multiset" where
  "all_calls w = settled_calls w + pending_calls w + queued_calls w + waiting_calls w"

lemmas places_defs = settled_calls_def pending_calls_def queued_calls_def waiting_calls_def all_calls_def

lemma sum_list_update:
  fixes xs :: "nat multiset list"
  shows "i < length xs \<Longrightarrow> sum_list (xs[i := y]) + xs ! i = sum_list xs + y"
proof (induction xs arbitrary: i)
  case (Cons x xs)
  then show ?case by (cases i) (auto simp: ac_simps)
qed simp

lemma waiting_update:
  assumes "p < length (promises w)"
  shows "sum_list (map promise_calls ((promises w)[p := x])) + promise_calls (promises w ! p) =
    waiting_calls w + promise_calls x"
  using sum_list_update [of p "map promise_calls (promises w)" "promise_calls x"] assms
  by (simp add: waiting_calls_def map_update)

section \<open>Valid references\<close>

definition ws_valid :: "ws_world \<Rightarrow> bool" where
  "ws_valid w \<longleftrightarrow>
     (\<forall>p. connectPromise w = Some p \<longrightarrow> p < length (promises w)) \<and>
     (\<forall>s. socketRef w = Some s \<longrightarrow> s < length (sockets w)) \<and>
     (\<forall>k\<in>set (sockets w). sessionOf k < length (promises w)) \<and> distinct (map sessionOf (sockets w)) \<and>
     distinct (map fst (pendingRequests w)) \<and> (\<forall>n\<in>fst ` set (pendingRequests w). n < nextId w)"

lemma list_get_nth: "i < length xs \<Longrightarrow> list_get xs i = Some (xs ! i)"
  by (simp add: list_get_def)

lemma list_get_Some_iff: "list_get xs i = Some x \<longleftrightarrow> i < length xs \<and> xs ! i = x"
  by (auto simp: list_get_def)

subsection \<open>Sessions\<close>

lemma setState_fields [simp]:
  "settled_calls (setState s w) = settled_calls w" "pending_calls (setState s w) = pending_calls w"
  "queued_calls (setState s w) = queued_calls w" "waiting_calls (setState s w) = waiting_calls w"
  "promises (setState s w) = promises w" "sockets (setState s w) = sockets w" "jobs (setState s w) = jobs w"
  "connectPromise (setState s w) = connectPromise w" "socketRef (setState s w) = socketRef w"
  "pendingRequests (setState s w) = pendingRequests w" "nextId (setState s w) = nextId w"
  "disposed (setState s w) = disposed w" "calls (setState s w) = calls w" "settled (setState s w) = settled w"
  "sent (setState s w) = sent w" "reconnectTimers (setState s w) = reconnectTimers w"
  "reconnectFailures (setState s w) = reconnectFailures w" "pushCount (setState s w) = pushCount w"
  by (simp_all add: setState_def places_defs)

lemma setState_valid [simp]: "ws_valid (setState s w) = ws_valid w"
  by (simp add: ws_valid_def)

lemma settle_valid [simp]: "ws_valid (settle call outcome w) = ws_valid w"
  by (simp add: ws_valid_def settle_def)

lemma settle_calls [simp]: "all_calls (settle call outcome w) = add_mset call (all_calls w)"
  by (simp add: places_defs settle_def)

lemma await_calls: "p < length (promises w) \<Longrightarrow> all_calls (await p c w) = all_calls w + cont_calls c"
proof -
  assume p: "p < length (promises w)"
  show ?thesis
  proof (cases "promises w ! p")
    case (Waiting cs)
    have "sum_list (map promise_calls ((promises w)[p := Waiting (cs @ [c])])) = waiting_calls w + cont_calls c"
      using waiting_update [OF p, of "Waiting (cs @ [c])"] Waiting by (simp add: ac_simps)
    then show ?thesis using Waiting p by (simp add: await_def list_get_nth places_defs)
  qed (use p in \<open>simp_all add: await_def list_get_nth places_defs\<close>)
qed

lemma await_valid [simp]: "ws_valid w \<Longrightarrow> ws_valid (await p c w)"
  by (auto simp: await_def ws_valid_def split: option.split session_promise.split)

lemma sum_list_map_Continue: "sum_list (map job_calls (map Continue cs)) = sum_list (map cont_calls cs)"
  by (simp add: o_def)

lemma sum_list_map_Abort: "sum_list (map job_calls (map (\<lambda>c. Abort c e) cs)) = sum_list (map cont_calls cs)"
  by (simp add: o_def)

lemma resolve_calls [simp]: "all_calls (resolveSession p w) = all_calls w"
proof (cases "list_get (promises w) p")
  case (Some x)
  then have p: "p < length (promises w)" "promises w ! p = x" by (auto simp: list_get_Some_iff)
  show ?thesis
    using waiting_update [OF p(1), of Fulfilled] p(2) Some
    by (cases x) (simp_all add: resolveSession_def places_defs o_def ac_simps)
qed (simp add: resolveSession_def)

lemma reject_calls [simp]: "all_calls (rejectSession p e w) = all_calls w"
proof (cases "list_get (promises w) p")
  case (Some x)
  then have p: "p < length (promises w)" "promises w ! p = x" by (auto simp: list_get_Some_iff)
  show ?thesis
    using waiting_update [OF p(1), of "Failed e"] p(2) Some
    by (cases x) (simp_all add: rejectSession_def places_defs o_def ac_simps)
qed (simp add: rejectSession_def)

lemma session_resolve_valid [simp]: "ws_valid w \<Longrightarrow> ws_valid (resolveSession p w)"
  by (auto simp: resolveSession_def ws_valid_def split: option.split session_promise.split)

lemma session_reject_valid [simp]: "ws_valid w \<Longrightarrow> ws_valid (rejectSession p e w)"
  by (auto simp: rejectSession_def ws_valid_def split: option.split session_promise.split)

lemma openSession_calls [simp]: "all_calls (fst (openSession fault w)) = all_calls w"
  by (simp add: openSession_def Let_def all_calls_def split: option.split)
    (simp add: settled_calls_def pending_calls_def queued_calls_def waiting_calls_def)

lemma openSession_valid:
  assumes "ws_valid w"
  shows "ws_valid (fst (openSession fault w))" "snd (openSession fault w) < length (promises (fst (openSession fault w)))"
  using assms by (auto simp: openSession_def ws_valid_def Let_def less_Suc_eq split: option.split)

lemma openSession_fields [simp]:
  "calls (fst (openSession fault w)) = calls w" "settled (fst (openSession fault w)) = settled w"
  "disposed (fst (openSession fault w)) = disposed w" "jobs (fst (openSession fault w)) = jobs w"
  "pendingRequests (fst (openSession fault w)) = pendingRequests w" "sent (fst (openSession fault w)) = sent w"
  "reconnectTimers (fst (openSession fault w)) = reconnectTimers w"
  "reconnectFailures (fst (openSession fault w)) = reconnectFailures w"
  by (simp_all add: openSession_def Let_def split: option.split)

lemma await_fields [simp]:
  "calls (await p c w) = calls w" "settled (await p c w) = settled w" "disposed (await p c w) = disposed w"
  "pendingRequests (await p c w) = pendingRequests w" "sent (await p c w) = sent w"
  "reconnectTimers (await p c w) = reconnectTimers w" "sockets (await p c w) = sockets w"
  "socketRef (await p c w) = socketRef w" "connectPromise (await p c w) = connectPromise w"
  "length (promises (await p c w)) = length (promises w)"
  "reconnectFailures (await p c w) = reconnectFailures w"
  by (simp_all add: await_def split: option.split session_promise.split)

lemma schedule_calls [simp]: "all_calls (scheduleReconnect w) = all_calls w"
  by (simp add: scheduleReconnect_def places_defs)

lemma schedule_valid [simp]: "ws_valid (scheduleReconnect w) = ws_valid w"
  by (simp add: scheduleReconnect_def ws_valid_def)

lemma reconnect_calls: "ws_valid w \<Longrightarrow> all_calls (reconnectNow fault w) = all_calls w"
proof -
  assume v: "ws_valid w"
  let ?w = "w\<lparr>connectPromise := None\<rparr>"
  have v': "ws_valid ?w" using v by (simp add: ws_valid_def)
  have "all_calls ?w = all_calls w" by (simp add: places_defs)
  then show ?thesis
    using await_calls [OF openSession_valid(2) [OF v', of fault], of ReconnectAttempt]
    by (simp add: reconnectNow_def case_prod_beta)
qed

lemma reconnect_valid: "ws_valid w \<Longrightarrow> ws_valid (reconnectNow fault w)"
proof -
  assume v: "ws_valid w"
  then have "ws_valid (w\<lparr>connectPromise := None\<rparr>)" by (simp add: ws_valid_def)
  with v openSession_valid(1) show ?thesis by (simp add: reconnectNow_def case_prod_beta)
qed

subsection \<open>Calls\<close>

lemma enqueue_calls [simp]: "all_calls (w\<lparr>jobs := jobs w @ [j]\<rparr>) = all_calls w + job_calls j"
  by (simp add: places_defs)

lemma enqueue_valid [simp]: "ws_valid (w\<lparr>jobs := js\<rparr>) = ws_valid w"
  by (simp add: ws_valid_def)

lemma sendJsonRpc_calls: "ws_valid w \<Longrightarrow> all_calls (sendJsonRpc fault call method params w) = add_mset call (all_calls w)"
  using await_calls [OF openSession_valid(2), of w fault "SendRequest call method params"]
  by (simp add: sendJsonRpc_def case_prod_beta)

lemma sendJsonRpc_valid: "ws_valid w \<Longrightarrow> ws_valid (sendJsonRpc fault call method params w)"
  using openSession_valid(1) [of w fault] by (simp add: sendJsonRpc_def case_prod_beta)

lemma count_call_valid [simp]: "ws_valid (w\<lparr>calls := n\<rparr>) = ws_valid w"
  by (simp add: ws_valid_def)

lemma count_call_calls [simp]: "all_calls (w\<lparr>calls := n\<rparr>) = all_calls w"
  by (simp add: places_defs)

lemma request_calls: "ws_valid w \<Longrightarrow> all_calls (request fault method params w) = add_mset (calls w) (all_calls w)"
  using sendJsonRpc_calls [of "w\<lparr>calls := calls w + 1\<rparr>"]
  by (simp add: request_def Let_def split: option.split)

lemma request_valid: "ws_valid w \<Longrightarrow> ws_valid (request fault method params w)"
  using sendJsonRpc_valid [of "w\<lparr>calls := calls w + 1\<rparr>"]
  by (simp add: request_def Let_def split: option.split)

lemma rpc_calls: "ws_valid w \<Longrightarrow> all_calls (rpc fault method params w) = add_mset (calls w) (all_calls w)"
  using sendJsonRpc_calls [of "w\<lparr>calls := calls w + 1\<rparr>"] by (simp add: rpc_def)

lemma rpc_valid: "ws_valid w \<Longrightarrow> ws_valid (rpc fault method params w)"
  using sendJsonRpc_valid [of "w\<lparr>calls := calls w + 1\<rparr>"] by (simp add: rpc_def)

lemma sendFrame_calls:
  assumes "ws_valid w"
  shows "all_calls (sendFrame call method params w) = add_mset call (all_calls w)"
proof -
  have "filter (\<lambda>entry. fst entry \<noteq> nextId w) (pendingRequests w) = pendingRequests w"
    using assms by (force simp: ws_valid_def intro: filter_True)
  then show ?thesis
    by (simp add: sendFrame_def Let_def places_defs settle_def split: option.split ready_state.split)
qed

lemma sendFrame_valid:
  assumes "ws_valid w"
  shows "ws_valid (sendFrame call method params w)"
proof -
  have "nextId w \<notin> fst ` set (pendingRequests w)" using assms by (force simp: ws_valid_def)
  then show ?thesis
    using assms
    by (auto simp: sendFrame_def Let_def ws_valid_def settle_def distinct_map_filter less_Suc_eq
        split: option.split ready_state.split)
qed

lemma runJob_calls: "ws_valid w \<Longrightarrow> all_calls (runJob j w) = all_calls w + job_calls j"
  by (simp add: runJob_def sendFrame_calls split: job.split continuation.split)

lemma runJob_valid: "ws_valid w \<Longrightarrow> ws_valid (runJob j w)"
  by (simp add: runJob_def sendFrame_valid split: job.split continuation.split)

subsection \<open>Incoming frames\<close>

lemma map_of_remove_one:
  assumes "distinct (map fst xs)" "map_of xs n = Some v"
  shows "add_mset v (mset (map snd (filter (\<lambda>x. fst x \<noteq> n) xs))) = mset (map snd xs)"
  using assms
proof (induction xs)
  case (Cons x xs)
  obtain m u where x: "x = (m, u)" by (cases x)
  show ?case
  proof (cases "m = n")
    case True
    with Cons.prems x have "filter (\<lambda>y. fst y \<noteq> n) xs = xs" by (force intro: filter_True)
    with True Cons.prems x show ?thesis by simp
  next
    case False
    with Cons x show ?thesis by (simp add: add_mset_commute)
  qed
qed simp

lemma handleReply_calls: "ws_valid w \<Longrightarrow> all_calls (handleReply response w) = all_calls w"
  using map_of_remove_one [of "pendingRequests w"]
  by (auto simp: handleReply_def places_defs settle_def ws_valid_def split: option.split)

lemma handleReply_valid: "ws_valid w \<Longrightarrow> ws_valid (handleReply response w)"
  by (auto simp: handleReply_def ws_valid_def settle_def distinct_map_filter split: option.split)

lemma emit_valid [simp]: "ws_valid (emit channel data w) = ws_valid w" "all_calls (emit channel data w) = all_calls w"
  by (simp_all add: emit_def Let_def ws_valid_def places_defs)

lemma routePush_valid [simp]:
  "ws_valid (routePush method params w) = ws_valid w" "all_calls (routePush method params w) = all_calls w"
  by (simp_all add: routePush_def split: option.split json.split)

lemma incoming_inv:
  "ws_valid w \<Longrightarrow> ws_valid (handleIncoming parsed w) \<and> all_calls (handleIncoming parsed w) = all_calls w"
  by (simp add: handleIncoming_def Let_def handleReply_valid handleReply_calls split: option.split json.split)

subsection \<open>Socket events and the other operations\<close>

lemma socket_set_fields [simp]:
  "all_calls (socket_set s f w) = all_calls w" "promises (socket_set s f w) = promises w"
  "connectPromise (socket_set s f w) = connectPromise w" "jobs (socket_set s f w) = jobs w"
  "settled (socket_set s f w) = settled w" "pendingRequests (socket_set s f w) = pendingRequests w"
  "disposed (socket_set s f w) = disposed w" "reconnectTimers (socket_set s f w) = reconnectTimers w"
  "calls (socket_set s f w) = calls w" "socketRef (socket_set s f w) = socketRef w"
  "reconnectFailures (socket_set s f w) = reconnectFailures w" "sent (socket_set s f w) = sent w"
  "length (sockets (socket_set s f w)) = length (sockets w)" "nextId (socket_set s f w) = nextId w"
  by (simp_all add: socket_set_def places_defs)

lemma socket_sessions:
  "s < length ks \<Longrightarrow> (\<And>k. sessionOf (f k) = sessionOf k) \<Longrightarrow>
    map sessionOf (ks[s := f (ks ! s)]) = map sessionOf ks"
  by (metis list_update_id map_update nth_map)

lemma socket_set_valid:
  "ws_valid w \<Longrightarrow> s < length (sockets w) \<Longrightarrow> (\<And>k. sessionOf (f k) = sessionOf k) \<Longrightarrow> ws_valid (socket_set s f w)"
  unfolding socket_set_def ws_valid_def by (simp add: socket_sessions) (auto dest!: set_update_subset_insert [THEN subsetD])

lemma drop_socket_valid [simp]:
  "ws_valid w \<Longrightarrow> ws_valid (w\<lparr>socketRef := None\<rparr>)" "ws_valid w \<Longrightarrow> ws_valid (w\<lparr>connectPromise := None\<rparr>)"
  "ws_valid (w\<lparr>reconnectFailures := n\<rparr>) = ws_valid w"
  by (simp_all add: ws_valid_def)

lemma drop_socket_calls [simp]:
  "all_calls (w\<lparr>socketRef := x\<rparr>) = all_calls w" "all_calls (w\<lparr>connectPromise := x\<rparr>) = all_calls w"
  "all_calls (w\<lparr>reconnectFailures := n\<rparr>) = all_calls w" "all_calls (w\<lparr>disposed := b\<rparr>) = all_calls w"
  "all_calls (setState st w) = all_calls w"
  by (simp_all add: places_defs setState_def)

lemma opened_inv:
  assumes "ws_valid w" "s < length (sockets w)"
  shows "ws_valid (socketOpened s w) \<and> all_calls (socketOpened s w) = all_calls w"
  using socket_set_valid [OF assms, of "readyState_update (\<lambda>_. OPEN)"]
  by (simp add: socketOpened_def Let_def)

lemma closed_inv:
  assumes "ws_valid w" "s < length (sockets w)"
  shows "ws_valid (socketClosed s w) \<and> all_calls (socketClosed s w) = all_calls w"
  using socket_set_valid [OF assms, of "readyState_update (\<lambda>_. CLOSED)"]
  by (simp add: socketClosed_def Let_def)

lemma dispose_inv:
  assumes "ws_valid w"
  shows "ws_valid (dispose w) \<and> all_calls (dispose w) = all_calls w"
proof (cases "disposed w")
  case False
  define w3 where "w3 = (setState TsDisposed (w\<lparr>disposed := True\<rparr>))\<lparr>
    settled := settled w @ map (\<lambda>entry. (snd entry, Rejected (Failure ''Transport disposed''))) (pendingRequests w),
    pendingRequests := [], socketRef := None\<rparr>"
  have v: "ws_valid w3" using assms by (simp add: w3_def ws_valid_def)
  have a: "all_calls w3 = all_calls w"
    by (simp add: w3_def places_defs setState_def o_def)
  have eq: "dispose w = (case socketRef w of None \<Rightarrow> w3 | Some s \<Rightarrow> socket_set s (\<lambda>k. k\<lparr>attached := False,
      readyState := if readyState k = CLOSED then CLOSED else CLOSING\<rparr>) w3)"
    using False by (simp add: dispose_def Let_def w3_def split: option.split)
  have s: "s < length (sockets w3)" if "socketRef w = Some s" for s
    using assms that by (simp add: w3_def ws_valid_def)
  show ?thesis
    unfolding eq using v a socket_set_valid [OF v s, of _ "\<lambda>k. k\<lparr>attached := False,
      readyState := if readyState k = CLOSED then CLOSED else CLOSING\<rparr>"] by (simp split: option.split)
qed (use assms in \<open>simp add: dispose_def\<close>)

lemma listening_inv:
  "ws_valid (subscribe channel l b w) = ws_valid w" "all_calls (subscribe channel l b w) = all_calls w"
  "ws_valid (unsubscribe channel a l w) = ws_valid w" "all_calls (unsubscribe channel a l w) = all_calls w"
  "ws_valid (onStateChange l b w) = ws_valid w" "all_calls (onStateChange l b w) = all_calls w"
  "ws_valid (offStateChange l w) = ws_valid w" "all_calls (offStateChange l w) = all_calls w"
  by (simp_all add: subscribe_def unsubscribe_def onStateChange_def offStateChange_def Let_def ws_valid_def
      places_defs split: option.split)

lemma listening_calls:
  "calls (subscribe channel l b w) = calls w" "calls (unsubscribe channel a l w) = calls w"
  "calls (onStateChange l b w) = calls w" "calls (offStateChange l w) = calls w"
  by (simp_all add: subscribe_def unsubscribe_def onStateChange_def offStateChange_def Let_def split: option.split)

section \<open>Every event keeps the invariant\<close>

definition ws_inv :: "ws_world \<Rightarrow> bool" where
  "ws_inv w \<longleftrightarrow> ws_valid w \<and> all_calls w = mset [0..<calls w]"

lemma sendJsonRpc_counts [simp]: "calls (sendJsonRpc fault call method params w) = calls w"
  by (simp add: sendJsonRpc_def settle_def case_prod_beta)

lemma other_counts [simp]:
  "calls (scheduleReconnect w) = calls w" "calls (reconnectNow fault w) = calls w"
  "calls (sendFrame call method params w) = calls w" "calls (emit channel data w) = calls w"
  "calls (resolveSession p w) = calls w" "calls (rejectSession p e w) = calls w"
  by (simp_all add: scheduleReconnect_def reconnectNow_def sendFrame_def emit_def Let_def settle_def case_prod_beta
      resolveSession_def rejectSession_def split: option.split ready_state.split session_promise.split)

lemma runJob_counts [simp]: "calls (runJob j w) = calls w"
  by (simp add: runJob_def settle_def split: job.split continuation.split)

lemma event_counts [simp]:
  "calls (socketOpened s w) = calls w" "calls (socketClosed s w) = calls w" "calls (dispose w) = calls w"
  "calls (handleReply response w) = calls w" "calls (routePush m params w) = calls w"
  by (simp_all add: socketOpened_def socketClosed_def dispose_def Let_def handleReply_def routePush_def settle_def
      split: option.split json.split)

lemma incoming_counts [simp]: "calls (handleIncoming parsed w) = calls w"
  by (simp add: handleIncoming_def Let_def split: option.split json.split)

lemma call_counts: "calls (request fault method params w) = calls w + 1" "calls (rpc fault method p w) = calls w + 1"
  by (simp_all add: request_def rpc_def Let_def settle_def split: option.split)

lemma ws_step_inv:
  assumes i: "ws_inv w" and ok: "ws_enabled w ev"
  shows "ws_inv (ws_step w ev)"
proof -
  have v: "ws_valid w" and a: "all_calls w = mset [0..<calls w]" using i by (simp_all add: ws_inv_def)
  show ?thesis
  proof (cases ev)
    case (Request fault m v)
    then show ?thesis
      using request_valid [OF v] request_calls [OF v] a by (simp add: ws_inv_def call_counts)
  next
    case (Rpc fault m v)
    then show ?thesis using rpc_valid [OF v] rpc_calls [OF v] a by (simp add: ws_inv_def call_counts)
  next
    case RunJob
    show ?thesis
    proof (cases "jobs w")
      case (Cons j js)
      have "all_calls (w\<lparr>jobs := js\<rparr>) + job_calls j = all_calls w" using Cons by (simp add: places_defs ac_simps)
      moreover have "ws_valid (w\<lparr>jobs := js\<rparr>)" using v by simp
      ultimately show ?thesis
        using a runJob_calls [of "w\<lparr>jobs := js\<rparr>" j] runJob_valid [of "w\<lparr>jobs := js\<rparr>" j] RunJob Cons
        by (simp add: ws_inv_def)
    qed (use RunJob i in simp)
  next
    case (SocketOpened s)
    then show ?thesis using ok opened_inv [OF v, of s] a by (auto simp: ws_inv_def socket_is_def list_get_Some_iff)
  next
    case (SocketMessage s parsed)
    then show ?thesis using incoming_inv [OF v, of parsed] a v by (simp add: ws_inv_def socketMessage_def)
  next
    case (SocketClosed s)
    then show ?thesis using ok closed_inv [OF v, of s] a by (simp add: ws_inv_def)
  next
    case (ReconnectTimeout i fault)
    let ?w = "w\<lparr>reconnectTimers := take i (reconnectTimers w) @ drop (i + 1) (reconnectTimers w)\<rparr>"
    have "ws_valid ?w" using v by (simp add: ws_valid_def)
    moreover have "all_calls ?w = all_calls w" by (simp add: places_defs)
    ultimately show ?thesis
      using ReconnectTimeout a reconnect_valid [of ?w fault] reconnect_calls [of ?w fault] by (simp add: ws_inv_def)
  qed (use i dispose_inv [OF v] in \<open>simp_all add: ws_inv_def listening_inv listening_calls\<close>)
qed

lemma start_inv: "ws_inv (startTransport fault)"
proof -
  have v: "ws_valid initialTransport" by (simp add: ws_valid_def initialTransport_def)
  moreover have "all_calls initialTransport = {#}" by (simp add: places_defs initialTransport_def)
  moreover have "calls initialTransport = 0" by (simp add: initialTransport_def)
  ultimately show ?thesis
    using openSession_valid(1) [OF v, of fault] by (simp add: ws_inv_def startTransport_def)
qed

interpretation ws_runs: invariant_store ws_step ws_enabled ws_inv
  by unfold_locales (rule ws_step_inv)

end
