(* ===== verification/TransportProperties.thy ===== *)
theory TransportProperties
  imports TransportWf
begin

text \<open>
  The properties of the transport, over every sequence of calls, queued continuations and browser
  events that can happen after the constructor.
\<close>

section \<open>Ids on the wire\<close>

lemma nat_str_digits: "list_all is_digit (nat_str n)"
proof (induction n rule: nat_str.induct)
  case (1 n)
  have digit: "is_digit (char_of (48 + d))" if "d < 10" for d :: nat
    using that by (simp add: is_digit_def of_char_of take_bit_eq_mod)
  show ?case using "1" digit by (subst nat_str.simps) (simp split: if_splits)
qed

lemma digit_no_mark: "is_digit c \<Longrightarrow> c \<notin> {CHR ''e'', CHR ''E'', CHR ''.'', CHR ''+'', CHR ''-'', CHR ''x'', CHR ''X'',
    CHR ''o'', CHR ''O'', CHR ''b'', CHR ''B''}"
  by (auto simp: is_digit_def)

lemma js_number_id: "js_number (JStr (nat_str n)) = Some n"
proof -
  let ?s = "nat_str n"
  have d: "\<forall>c\<in>set ?s. c \<notin> {CHR ''e'', CHR ''E'', CHR ''.'', CHR ''+'', CHR ''-'', CHR ''x'', CHR ''X'',
      CHR ''o'', CHR ''O'', CHR ''b'', CHR ''B''}"
    using nat_str_digits [of n] digit_no_mark by (fastforce simp: list_all_iff)
  have t: "js_trim ?s = ?s"
    using nat_str_no_space [OF hd_in_set, of n] nat_str_no_space [OF last_in_set, of n]
    by (intro js_trim_id) (simp add: trimmed_def)
  have u: "unsigned_of ?s = ?s" using d by (cases ?s) (auto simp: unsigned_of_def)
  have m: "takeWhile (\<lambda>c. c \<noteq> CHR ''e'' \<and> c \<noteq> CHR ''E'') ?s = ?s" "takeWhile (\<lambda>c. c \<noteq> CHR ''.'') ?s = ?s"
    using d by (auto intro!: takeWhile_eq_all_conv [THEN iffD2])
  have h: "hd ?s \<noteq> CHR ''-''" using d hd_in_set [of ?s] by fastforce
  have p: "take 2 ?s \<noteq> [CHR ''0'', c]" if "c \<in> {CHR ''x'', CHR ''X'', CHR ''o'', CHR ''O'', CHR ''b'', CHR ''B''}" for c
  proof
    assume "take 2 ?s = [CHR ''0'', c]"
    then have "c \<in> set (take 2 ?s)" by simp
    then have "c \<in> set ?s" by (rule in_set_takeD)
    with d that show False by auto
  qed
  have "decimal_number ?s = Some n"
    using nat_str_digits [of n] h by (simp add: decimal_number_def u m scaled_def str_nat_nat_str)
  then show ?thesis using p by (simp add: string_number_def t)
qed

section \<open>Runs\<close>

lemma run_append: "run_actions step s (as @ bs) = run_actions step (run_actions step s as) bs"
  by (induction as arbitrary: s) auto

lemma admissible_append:
  "admissible step ok s (as @ bs) \<longleftrightarrow> admissible step ok s as \<and> admissible step ok (run_actions step s as) bs"
  by (induction as arbitrary: s) auto

lemma run_start_inv:
  assumes "admissible ws_step ws_enabled (startTransport fault) evs"
  shows "ws_inv (run_actions ws_step (startTransport fault) evs)"
  by (rule ws_runs.run_inv [OF start_inv assms])

text \<open>A property that every enabled event keeps under the invariant holds along the run.\<close>

lemma run_keeps:
  assumes keep: "\<And>w ev. ws_inv w \<Longrightarrow> Q w \<Longrightarrow> ws_enabled w ev \<Longrightarrow> R ev \<Longrightarrow> Q (ws_step w ev)"
  shows "ws_inv w \<Longrightarrow> Q w \<Longrightarrow> admissible ws_step ws_enabled w evs \<Longrightarrow> \<forall>ev\<in>set evs. R ev \<Longrightarrow>
    Q (run_actions ws_step w evs) \<and> ws_inv (run_actions ws_step w evs)"
  by (induction evs arbitrary: w) (auto intro: keep ws_step_inv)

text \<open>The calls as one list without repetition: the settled ones, the pending ones and the rest.\<close>

lemma calls_as_list:
  assumes "ws_inv w"
  obtains rest where "distinct (map fst (settled w) @ map snd (pendingRequests w) @ rest)"
    "mset rest = queued_calls w + waiting_calls w"
proof -
  obtain rest where r: "mset rest = queued_calls w + waiting_calls w" using ex_mset by blast
  then have "mset (map fst (settled w) @ map snd (pendingRequests w) @ rest) = mset [0..<calls w]"
    using assms by (simp add: ws_inv_def all_calls_def settled_calls_def pending_calls_def ac_simps)
  then have "distinct (map fst (settled w) @ map snd (pendingRequests w) @ rest)"
    by (metis distinct_upt mset_eq_imp_distinct_iff)
  with r that show thesis by blast
qed

lemma settled_once: "ws_inv w \<Longrightarrow> distinct (map fst (settled w))"
  by (erule calls_as_list) simp

lemma pending_not_settled: "ws_inv w \<Longrightarrow> (n, call) \<in> set (pendingRequests w) \<Longrightarrow> call \<notin> fst ` set (settled w)"
  by (erule calls_as_list) force

lemma waiting_not_settled:
  assumes "ws_inv w" "call \<in># waiting_calls w"
  shows "call \<notin> fst ` set (settled w)"
proof -
  obtain rest where r: "distinct (map fst (settled w) @ map snd (pendingRequests w) @ rest)"
    "mset rest = queued_calls w + waiting_calls w" by (rule calls_as_list [OF assms(1)])
  have "call \<in># mset rest" using assms(2) unfolding r(2) by simp
  then have "call \<in> set rest" by simp
  with r(1) show ?thesis by auto
qed

section \<open>Calls and replies\<close>

text \<open>C37: Whatever happens, every call ever made is in exactly one place (settled, pending, queued or waiting for a
  session), and no call is settled twice.\<close>

theorem calls_settled_at_most_once:
  assumes "admissible ws_step ws_enabled (startTransport fault) evs"
    and "w = run_actions ws_step (startTransport fault) evs"
  shows "mset (map fst (settled w)) + pending_calls w + queued_calls w + waiting_calls w = mset [0..<calls w] \<and>
    distinct (map fst (settled w))"
  using run_start_inv [OF assms(1)] settled_once
  unfolding assms(2) by (simp add: ws_inv_def all_calls_def settled_calls_def)

definition sample_session :: "ws_event list" where
  "sample_session = [SocketOpened 0, Rpc None ''ping'' JNull, RunJob]"

lemma sample_session_ok: "admissible ws_step ws_enabled (startTransport None) sample_session"
  by code_simp

theorem calls_settled_at_most_once_witness:
  "distinct (map fst (settled (run_actions ws_step (startTransport None) sample_session)))"
  using calls_settled_at_most_once [OF sample_session_ok refl] by simp

text \<open>C38: A reply that carries the id of the frame sent for a pending call settles exactly this call, with its error when
  it has one and otherwise with its result; nothing else changes.\<close>

theorem reply_settles_its_call:
  assumes "admissible ws_step ws_enabled (startTransport fault) evs"
    and "w = run_actions ws_step (startTransport fault) evs"
    and "(n, call) \<in> set (pendingRequests w)" and "attached (sockets w ! s)"
    and "json_prop response ''id'' = json_prop (request_frame n method params) ''id''"
    and "json_prop response ''method'' = None"
  shows "ws_step w (SocketMessage s (Some response)) =
    w\<lparr>pendingRequests := filter (\<lambda>entry. fst entry \<noteq> n) (pendingRequests w),
      settled := settled w @ [(call, reply_outcome response)]\<rparr>"
proof -
  have "distinct (map fst (pendingRequests w))"
    using run_start_inv [OF assms(1)] unfolding assms(2) by (simp add: ws_inv_def ws_valid_def)
  then have p: "map_of (pendingRequests w) n = Some call" using assms(3) by (simp add: map_of_eq_Some_iff)
  have id: "json_prop response ''id'' = Some (JStr (nat_str n))" using assms(5) by (simp add: request_frame_def)
  then obtain ps where ps: "response = JObj ps" by (cases response) simp_all
  have "socketMessage s (Some response) w = handleReply response w"
    using id assms(4,6) by (simp add: socketMessage_def handleIncoming_def ps)
  then show ?thesis
    using id p js_number_id [of n] by (simp add: handleReply_def settle_def del: js_number.simps)
qed

theorem reply_settles_its_call_witness:
  "settled (run_actions ws_step (startTransport None)
     (sample_session @ [SocketMessage 0 (Some (JObj [(''id'', JStr ''1''), (''result'', JStr ''pong'')]))])) =
   [(0, Resolved (JStr ''pong''))]"
proof -
  let ?w = "run_actions ws_step (startTransport None) sample_session"
  have w: "(1, 0) \<in> set (pendingRequests ?w)" "attached (sockets ?w ! 0)" "settled ?w = []"
    by (code_simp, code_simp, code_simp)
  let ?r = "JObj [(''id'', JStr ''1''), (''result'', JStr ''pong'')]"
  have "nat_str 1 = ''1''" by code_simp
  then have "json_prop ?r ''id'' = json_prop (request_frame 1 ''ping'' (JObj [])) ''id''" "json_prop ?r ''method'' = None"
    by (simp_all add: request_frame_def)
  from reply_settles_its_call [OF sample_session_ok refl w(1,2) this] w(3)
  show ?thesis by (simp add: run_append reply_outcome_def or_empty_def)
qed

text \<open>The replies to a pending id.\<close>

fun answers :: "ws_event \<Rightarrow> nat \<Rightarrow> bool" where
  "answers (SocketMessage s (Some r)) n \<longleftrightarrow>
     json_prop r ''method'' = None \<and>
     (case json_prop r ''id'' of None \<Rightarrow> False | Some v \<Rightarrow> js_number v = Some n)"
| "answers _ n \<longleftrightarrow> False"

lemma json_prop_JObj: "json_prop (JObj ps) k = map_of ps k"
  by simp

lemma pending_sendJsonRpc [simp]: "pendingRequests (sendJsonRpc fault call method params w) = pendingRequests w"
  by (simp add: sendJsonRpc_def settle_def case_prod_beta)

lemma pending_reconnect [simp]: "pendingRequests (reconnectNow fault w) = pendingRequests w"
  by (simp add: reconnectNow_def case_prod_beta)

lemma pending_sessions [simp]:
  "pendingRequests (resolveSession p w) = pendingRequests w" "pendingRequests (rejectSession p e w) = pendingRequests w"
  "pendingRequests (scheduleReconnect w) = pendingRequests w"
  by (simp_all add: resolveSession_def rejectSession_def scheduleReconnect_def split: option.split session_promise.split)

lemma pending_incoming:
  assumes "(n, call) \<in> set (pendingRequests w)" "\<not> answers (SocketMessage s parsed) n"
  shows "(n, call) \<in> set (pendingRequests (handleIncoming parsed w))"
proof -
  have "pendingRequests (routePush m params w) = pendingRequests w" for m params
    by (simp add: routePush_def emit_def Let_def split: option.split json.split)
  moreover have "(n, call) \<in> set (pendingRequests (handleReply (JObj ps) w))"
    if "parsed = Some (JObj ps)" "map_of ps ''id'' \<noteq> None" "map_of ps ''method'' = None" for ps
    using assms that by (auto simp: handleReply_def settle_def split: option.splits)
  ultimately show ?thesis
    using assms(1) by (auto simp: handleIncoming_def Let_def split: option.split json.split)
qed

lemma pending_kept:
  assumes "ws_inv w" "(n, call) \<in> set (pendingRequests w)" "ev \<noteq> Dispose" "\<not> answers ev n"
  shows "(n, call) \<in> set (pendingRequests (ws_step w ev))"
proof (cases ev)
  case RunJob
  show ?thesis
  proof (cases "jobs w")
    case (Cons j js)
    have "n < nextId w" using assms(1,2) by (auto simp: ws_inv_def ws_valid_def)
    then show ?thesis
      using assms(2) RunJob Cons
      by (auto simp: runJob_def sendFrame_def Let_def settle_def scheduleReconnect_def
          split: job.split continuation.split option.split ready_state.split)
  qed (use RunJob assms in simp)
qed (use assms pending_incoming in \<open>auto simp: request_def rpc_def Let_def settle_def subscribe_def unsubscribe_def
      onStateChange_def offStateChange_def socketOpened_def socketClosed_def socketMessage_def split: option.split\<close>)

text \<open>C39: Only a reply with its id or the disposal settles a pending call. In particular a call in flight when its socket
  closes stays unsettled for ever, when no reply to its id comes over a later socket.\<close>

theorem only_replies_settle:
  assumes "admissible ws_step ws_enabled (startTransport fault) (evs @ later)"
    and "w = run_actions ws_step (startTransport fault) evs"
    and "(n, call) \<in> set (pendingRequests w)"
    and "\<forall>ev\<in>set later. ev \<noteq> Dispose \<and> \<not> answers ev n"
  shows "(n, call) \<in> set (pendingRequests (run_actions ws_step w later)) \<and>
    call \<notin> fst ` set (settled (run_actions ws_step w later))"
proof -
  have a: "admissible ws_step ws_enabled (startTransport fault) evs" "admissible ws_step ws_enabled w later"
    using assms(1,2) by (simp_all add: admissible_append)
  have "(n, call) \<in> set (pendingRequests (run_actions ws_step w later)) \<and> ws_inv (run_actions ws_step w later)"
    using run_keeps [where Q = "\<lambda>w. (n, call) \<in> set (pendingRequests w)" and R = "\<lambda>ev. ev \<noteq> Dispose \<and> \<not> answers ev n"]
      pending_kept run_start_inv [OF a(1)] assms(2,3,4) a(2) by blast
  then show ?thesis using pending_not_settled by blast
qed

theorem only_replies_settle_witness:
  "0 \<notin> fst ` set (settled (run_actions ws_step (run_actions ws_step (startTransport None) sample_session)
     [SocketClosed 0, ReconnectTimeout 0 None, SocketOpened 1]))"
proof -
  have a: "admissible ws_step ws_enabled (startTransport None) (sample_session @ [SocketClosed 0, ReconnectTimeout 0 None, SocketOpened 1])"
    by code_simp
  have p: "(1, 0) \<in> set (pendingRequests (run_actions ws_step (startTransport None) sample_session))" by code_simp
  from only_replies_settle [OF a refl p] show ?thesis by simp
qed

section \<open>Disposal\<close>

definition silent :: "nat \<Rightarrow> (nat \<times> json) list \<Rightarrow> ws_world \<Rightarrow> bool" where
  "silent made frames w \<longleftrightarrow>
     disposed w \<and> socketRef w = None \<and> length (sockets w) = made \<and> sent w = frames"

lemma silent_calls:
  assumes "disposed w"
  shows "request fault method params w =
      settle (calls w) (Rejected (Failure ''Transport disposed'')) (w\<lparr>calls := calls w + 1\<rparr>)"
    "rpc fault method p w =
      settle (calls w) (Rejected (Failure ''Transport disposed'')) (w\<lparr>calls := calls w + 1\<rparr>)"
  using assms by (simp_all add: request_def rpc_def sendJsonRpc_def Let_def)

lemma session_rest [simp]:
  "disposed (resolveSession p w) = disposed w" "disposed (rejectSession p e w) = disposed w"
  "socketRef (resolveSession p w) = socketRef w" "socketRef (rejectSession p e w) = socketRef w"
  "sockets (resolveSession p w) = sockets w" "sockets (rejectSession p e w) = sockets w"
  "sent (resolveSession p w) = sent w" "sent (rejectSession p e w) = sent w"
  "settled (resolveSession p w) = settled w" "settled (rejectSession p e w) = settled w"
  "reconnectTimers (resolveSession p w) = reconnectTimers w" "reconnectTimers (rejectSession p e w) = reconnectTimers w"
  "connectPromise (resolveSession p w) = connectPromise w" "connectPromise (rejectSession p e w) = connectPromise w"
  by (simp_all add: resolveSession_def rejectSession_def split: option.split session_promise.split)

lemma incoming_rest [simp]:
  "disposed (handleIncoming parsed w) = disposed w" "socketRef (handleIncoming parsed w) = socketRef w"
  "sockets (handleIncoming parsed w) = sockets w" "sent (handleIncoming parsed w) = sent w"
  "promises (handleIncoming parsed w) = promises w" "jobs (handleIncoming parsed w) = jobs w"
  "reconnectTimers (handleIncoming parsed w) = reconnectTimers w"
  "connectPromise (handleIncoming parsed w) = connectPromise w"
  by (simp_all add: handleIncoming_def Let_def handleReply_def settle_def routePush_def emit_def
      split: option.split json.split)

lemma listening_rest [simp]:
  "disposed (subscribe channel l b w) = disposed w" "socketRef (subscribe channel l b w) = socketRef w"
  "sockets (subscribe channel l b w) = sockets w" "sent (subscribe channel l b w) = sent w"
  "promises (subscribe channel l b w) = promises w" "jobs (subscribe channel l b w) = jobs w"
  "reconnectTimers (subscribe channel l b w) = reconnectTimers w" "connectPromise (subscribe channel l b w) = connectPromise w"
  "settled (subscribe channel l b w) = settled w" "pendingRequests (subscribe channel l b w) = pendingRequests w"
  "disposed (unsubscribe channel a l w) = disposed w" "socketRef (unsubscribe channel a l w) = socketRef w"
  "sockets (unsubscribe channel a l w) = sockets w" "sent (unsubscribe channel a l w) = sent w"
  "promises (unsubscribe channel a l w) = promises w" "jobs (unsubscribe channel a l w) = jobs w"
  "reconnectTimers (unsubscribe channel a l w) = reconnectTimers w" "connectPromise (unsubscribe channel a l w) = connectPromise w"
  "settled (unsubscribe channel a l w) = settled w" "pendingRequests (unsubscribe channel a l w) = pendingRequests w"
  by (simp_all add: subscribe_def unsubscribe_def Let_def split: option.split)

lemma state_listening_rest [simp]:
  "disposed (onStateChange l b w) = disposed w" "socketRef (onStateChange l b w) = socketRef w"
  "sockets (onStateChange l b w) = sockets w" "sent (onStateChange l b w) = sent w"
  "promises (onStateChange l b w) = promises w" "jobs (onStateChange l b w) = jobs w"
  "reconnectTimers (onStateChange l b w) = reconnectTimers w" "connectPromise (onStateChange l b w) = connectPromise w"
  "settled (onStateChange l b w) = settled w" "pendingRequests (onStateChange l b w) = pendingRequests w"
  "disposed (offStateChange l w) = disposed w" "socketRef (offStateChange l w) = socketRef w"
  "sockets (offStateChange l w) = sockets w" "sent (offStateChange l w) = sent w"
  "promises (offStateChange l w) = promises w" "jobs (offStateChange l w) = jobs w"
  "reconnectTimers (offStateChange l w) = reconnectTimers w" "connectPromise (offStateChange l w) = connectPromise w"
  "settled (offStateChange l w) = settled w" "pendingRequests (offStateChange l w) = pendingRequests w"
  by (simp_all add: onStateChange_def offStateChange_def Let_def)

lemma silent_kept: "silent made frames w \<Longrightarrow> silent made frames (ws_step w ev)"
proof (cases ev)
  case RunJob
  assume "silent made frames w"
  with RunJob show ?thesis
    by (auto simp: silent_def runJob_def sendFrame_def Let_def settle_def scheduleReconnect_def
        split: list.split job.split continuation.split)
qed (auto simp: silent_def silent_calls settle_def socketOpened_def socketClosed_def socketMessage_def dispose_def
    reconnectNow_def scheduleReconnect_def Let_def)

lemma silent_run: "silent made frames w \<Longrightarrow> silent made frames (run_actions ws_step w evs)"
  by (induction evs arbitrary: w) (auto intro: silent_kept)

lemma dispose_silent: "\<not> disposed w \<Longrightarrow> silent (length (sockets w)) (sent w) (dispose w)"
  by (auto simp: silent_def dispose_def Let_def split: option.split)

text \<open>Disposal rejects every pending call, and whatever happens afterwards the transport makes no socket and sends no
  frame any more.\<close>

theorem disposed_is_silent:
  fixes later :: "ws_event list"
  assumes "\<not> disposed w"
  defines "w' \<equiv> run_actions ws_step w (Dispose # later)"
  shows "length (sockets w') = length (sockets w) \<and> sent w' = sent w \<and> disposed w' \<and>
    pendingRequests (ws_step w Dispose) = [] \<and>
    (\<forall>(n, call)\<in>set (pendingRequests w).
       (call, Rejected (Failure ''Transport disposed'')) \<in> set (settled (ws_step w Dispose)))"
proof -
  have "silent (length (sockets w)) (sent w) w'"
    unfolding w'_def by (simp add: silent_run [OF dispose_silent [OF assms(1)]])
  moreover have "pendingRequests (dispose w) = []"
    "\<forall>(n, call)\<in>set (pendingRequests w). (call, Rejected (Failure ''Transport disposed'')) \<in> set (settled (dispose w))"
    using assms(1) by (auto simp: dispose_def Let_def split: option.split intro: rev_image_eqI)
  ultimately show ?thesis by (simp add: silent_def)
qed

theorem disposed_is_silent_witness:
  "sent (run_actions ws_step (run_actions ws_step (startTransport None) sample_session)
     [Dispose, Rpc None ''ping'' JNull, RunJob]) =
   sent (run_actions ws_step (startTransport None) sample_session)"
proof -
  have "\<not> disposed (run_actions ws_step (startTransport None) sample_session)" by code_simp
  from disposed_is_silent [OF this, of "[Rpc None ''ping'' JNull, RunJob]"] show ?thesis by simp
qed

text \<open>
  A call that waits for a session which nothing settles any more: the transport is disposed and no
  socket with its handlers attached belongs to the session.
\<close>

definition stranded :: "nat \<Rightarrow> nat \<Rightarrow> ws_world \<Rightarrow> bool" where
  "stranded p call w \<longleftrightarrow> disposed w \<and> p < length (promises w) \<and>
     (\<forall>k\<in>set (sockets w). attached k \<longrightarrow> sessionOf k \<noteq> p) \<and>
     (\<exists>cs. promises w ! p = Waiting cs \<and> (\<exists>m v. SendRequest call m v \<in> set cs))"

lemma in_sum_list: "x \<in># sum_list ms \<longleftrightarrow> (\<exists>m\<in>set ms. x \<in># m)" for ms :: "'a multiset list"
  by (induction ms) auto

lemma stranded_waiting: "stranded p call w \<Longrightarrow> call \<in># waiting_calls w"
proof -
  assume "stranded p call w"
  then obtain cs m v where w: "p < length (promises w)" "promises w ! p = Waiting cs" "SendRequest call m v \<in> set cs"
    by (auto simp: stranded_def)
  then have "call \<in># promise_calls (promises w ! p)" by (force simp: in_sum_list)
  with w(1) show ?thesis by (auto simp: waiting_calls_def in_sum_list)
qed

lemma session_other:
  "q \<noteq> p \<Longrightarrow> promises (resolveSession q w) ! p = promises w ! p"
  "q \<noteq> p \<Longrightarrow> promises (rejectSession q e w) ! p = promises w ! p"
  "length (promises (resolveSession q w)) = length (promises w)"
  "length (promises (rejectSession q e w)) = length (promises w)"
  by (simp_all add: resolveSession_def rejectSession_def split: option.split session_promise.split)

lemma socket_set_attached:
  assumes "s < length (sockets w)" "\<And>k. sessionOf (f k) = sessionOf k" "\<And>k. attached (f k) \<Longrightarrow> attached k"
    and "\<forall>k\<in>set (sockets w). attached k \<longrightarrow> sessionOf k \<noteq> p"
  shows "\<forall>k\<in>set (sockets (socket_set s f w)). attached k \<longrightarrow> sessionOf k \<noteq> p"
proof
  fix k
  assume "k \<in> set (sockets (socket_set s f w))"
  then have "k = f (sockets w ! s) \<or> k \<in> set (sockets w)"
    using set_update_subset_insert by (fastforce simp: socket_set_def)
  then show "attached k \<longrightarrow> sessionOf k \<noteq> p" using assms nth_mem [OF assms(1)] by metis
qed

lemma stranded_socket:
  assumes "stranded p call w" "s < length (sockets w)"
  shows "stranded p call (socketOpened s w)" "stranded p call (socketClosed s w)"
proof -
  let ?o = "socket_set s (readyState_update (\<lambda>_. OPEN)) w" and ?c = "socket_set s (readyState_update (\<lambda>_. CLOSED)) w"
  have att: "\<forall>k\<in>set (sockets ?o). attached k \<longrightarrow> sessionOf k \<noteq> p" "\<forall>k\<in>set (sockets ?c). attached k \<longrightarrow> sessionOf k \<noteq> p"
    using assms(1) by (rule_tac [!] socket_set_attached [OF assms(2)]) (simp_all add: stranded_def)
  have so: "attached (sockets ?o ! s) \<Longrightarrow> sessionOf (sockets ?o ! s) \<noteq> p"
    "attached (sockets ?c ! s) \<Longrightarrow> sessionOf (sockets ?c ! s) \<noteq> p"
    using att assms(2) by simp_all
  show "stranded p call (socketOpened s w)"
    using assms(1) att(1) so(1) by (auto simp: stranded_def socketOpened_def Let_def session_other)
  show "stranded p call (socketClosed s w)"
    using assms(1) att(2) so(2) by (auto simp: stranded_def socketClosed_def Let_def session_other)
qed

lemma stranded_kept:
  assumes "stranded p call w" "ws_enabled w ev"
  shows "stranded p call (ws_step w ev)"
proof (cases ev)
  case RunJob
  with assms(1) show ?thesis
    by (auto simp: stranded_def runJob_def sendFrame_def Let_def settle_def
        split: list.split job.split continuation.split option.split ready_state.split)
next
  case (SocketOpened s)
  with assms stranded_socket show ?thesis by (simp add: socket_is_def list_get_Some_iff)
next
  case (SocketClosed s)
  with assms stranded_socket show ?thesis by simp
qed (use assms(1) in \<open>auto simp: stranded_def silent_calls settle_def socketMessage_def dispose_def
    reconnectNow_def Let_def\<close>)

lemma dispose_strands:
  assumes i: "ws_inv w" and nd: "\<not> disposed w" and s: "socketRef w = Some s"
    and wait: "promises w ! sessionOf (sockets w ! s) = Waiting cs" "SendRequest call m v \<in> set cs"
  shows "stranded (sessionOf (sockets w ! s)) call (dispose w)"
proof -
  let ?k = "sockets w ! s" and ?f = "\<lambda>k. k\<lparr>attached := False, readyState := if readyState k = CLOSED then CLOSED else CLOSING\<rparr>"
  have v: "s < length (sockets w)" "\<forall>k\<in>set (sockets w). sessionOf k < length (promises w)"
    "distinct (map sessionOf (sockets w))"
    using i s by (auto simp: ws_inv_def ws_valid_def)
  have socks: "sockets (dispose w) = (sockets w)[s := ?f ?k]"
    using nd s by (simp add: dispose_def Let_def socket_set_def)
  have "sessionOf k \<noteq> sessionOf ?k" if "k \<in> set ((sockets w)[s := ?f ?k])" "attached k" for k
  proof -
    obtain i where i: "i < length (sockets w)" "k = (sockets w)[s := ?f ?k] ! i"
      using \<open>k \<in> _\<close> by (auto simp: in_set_conv_nth)
    with that(2) v(1) have "i \<noteq> s" by auto
    with i v(1,3) show ?thesis by (simp add: distinct_conv_nth)
  qed
  moreover have "promises (dispose w) = promises w" "disposed (dispose w)"
    using nd s by (simp_all add: dispose_def Let_def)
  ultimately show ?thesis using v(1,2) wait unfolding stranded_def socks by auto
qed

text \<open>C40: A call that waits for the socket to open when the transport is disposed is never settled: the disposal rejects only
  the calls whose frame was sent, and detaches the handlers that would settle the session.\<close>

theorem dispose_strands_waiting_calls:
  assumes "admissible ws_step ws_enabled (startTransport fault) (evs @ Dispose # later)"
    and "w = run_actions ws_step (startTransport fault) evs"
    and "\<not> disposed w" and "socketRef w = Some s"
    and "promises w ! sessionOf (sockets w ! s) = Waiting cs" and "SendRequest call m v \<in> set cs"
  shows "call \<notin> fst ` set (settled (run_actions ws_step w (Dispose # later)))"
proof -
  have a: "admissible ws_step ws_enabled (startTransport fault) evs" "admissible ws_step ws_enabled (dispose w) later"
    using assms(1,2) by (simp_all add: admissible_append)
  have i: "ws_inv w" using run_start_inv [OF a(1)] assms(2) by simp
  let ?p = "sessionOf (sockets w ! s)"
  have "ws_inv (dispose w)" using ws_step_inv [OF i, of Dispose] by simp
  then have "stranded ?p call (run_actions ws_step (dispose w) later) \<and> ws_inv (run_actions ws_step (dispose w) later)"
    using run_keeps [where Q = "stranded ?p call" and R = "\<lambda>_. True", OF stranded_kept]
      dispose_strands [OF i assms(3-6)] a(2) by blast
  then show ?thesis
    unfolding run_actions.simps ws_step.simps using waiting_not_settled stranded_waiting by blast
qed

theorem dispose_strands_waiting_calls_witness:
  "0 \<notin> fst ` set (settled (run_actions ws_step (run_actions ws_step (startTransport None) [Rpc None ''ping'' JNull])
     [Dispose, SocketClosed 0]))"
proof -
  let ?w = "run_actions ws_step (startTransport None) [Rpc None ''ping'' JNull]"
  have a: "admissible ws_step ws_enabled (startTransport None) ([Rpc None ''ping'' JNull] @ Dispose # [SocketClosed 0])"
    by code_simp
  have w: "\<not> disposed ?w" "socketRef ?w = Some 0"
    "promises ?w ! sessionOf (sockets ?w ! 0) = Waiting [SendRequest 0 ''ping'' (JObj [])]"
    by (code_simp, code_simp, code_simp)
  from dispose_strands_waiting_calls [OF a refl w] show ?thesis by simp
qed

section \<open>Reconnecting\<close>

lemma backoff_range: "500 \<le> min (500 * 2 ^ n) (5000 :: nat)" "min (500 * 2 ^ n) (5000 :: nat) \<le> 5000"
  using one_le_power [of "2 :: nat" n] by auto

definition delays_ok :: "ws_world \<Rightarrow> bool" where
  "delays_ok w \<longleftrightarrow> (\<forall>d\<in>set (reconnectTimers w). 500 \<le> d \<and> d \<le> 5000)"

lemma schedule_delays: "delays_ok w \<Longrightarrow> delays_ok (scheduleReconnect w)"
  using backoff_range [of "reconnectFailures w"] by (auto simp: delays_ok_def scheduleReconnect_def)

lemma timers_set_state [simp]: "delays_ok (setState s w) = delays_ok w"
  by (simp add: delays_ok_def)

lemma delays_congruence: "reconnectTimers w' = reconnectTimers w \<Longrightarrow> delays_ok w \<Longrightarrow> delays_ok w'"
  by (simp add: delays_ok_def)

lemma delays_kept:
  assumes "delays_ok w"
  shows "delays_ok (ws_step w ev)"
proof (cases ev)
  case (ReconnectTimeout i fault)
  have "set (take i (reconnectTimers w) @ drop (i + 1) (reconnectTimers w)) \<subseteq> set (reconnectTimers w)"
    using set_take_subset set_drop_subset by fastforce
  with ReconnectTimeout assms show ?thesis
    by (auto simp: delays_ok_def reconnectNow_def case_prod_beta)
next
  case RunJob
  have f: "reconnectTimers (sendFrame c m p w0) = reconnectTimers w0" for c m p w0
    by (simp add: sendFrame_def Let_def settle_def split: option.split ready_state.split)
  show ?thesis
  proof (cases "jobs w")
    case (Cons j js)
    have "delays_ok (w\<lparr>jobs := js\<rparr>)" using assms by (simp add: delays_ok_def)
    then have "delays_ok (runJob j (w\<lparr>jobs := js\<rparr>))"
      using schedule_delays [of "w\<lparr>jobs := js\<rparr>"]
      by (auto simp: runJob_def settle_def f delays_ok_def split: job.split continuation.split)
    with RunJob Cons show ?thesis by simp
  qed (use RunJob assms in simp)
next
  case (SocketClosed s)
  have same: "delays_ok w'" if "reconnectTimers w' = reconnectTimers w" for w'
    using that assms by (rule delays_congruence)
  have sched: "delays_ok (scheduleReconnect (setState st w'))" if "reconnectTimers w' = reconnectTimers w" for w' st
    by (rule schedule_delays) (simp add: same [OF that])
  from SocketClosed show ?thesis by (simp add: socketClosed_def Let_def same sched)
qed (use assms in \<open>auto simp: delays_ok_def request_def rpc_def sendJsonRpc_def settle_def Let_def case_prod_beta
    socketOpened_def socketMessage_def dispose_def split: option.split\<close>)

text \<open>Every scheduled reconnect attempt waits between half a second and five seconds.\<close>

theorem reconnect_delays_bounded:
  assumes "d \<in> set (reconnectTimers (run_actions ws_step (startTransport fault) evs))"
  shows "500 \<le> d \<and> d \<le> 5000"
proof -
  have "delays_ok (startTransport fault)" by (simp add: startTransport_def delays_ok_def initialTransport_def)
  then have "delays_ok (run_actions ws_step (startTransport fault) evs)"
  proof (induction evs rule: rev_induct)
    case (snoc ev evs)
    then show ?case by (simp add: run_append delays_kept)
  qed simp
  with assms show ?thesis by (auto simp: delays_ok_def)
qed

theorem reconnect_delays_bounded_witness:
  "hd (reconnectTimers (run_actions ws_step (startTransport None) [SocketClosed 0])) \<le> 5000"
proof -
  have "reconnectTimers (run_actions ws_step (startTransport None) [SocketClosed 0]) = [500]"
    by (simp add: startTransport_def openSession_def initialTransport_def Let_def socketClosed_def socket_set_def
        rejectSession_def list_get_def scheduleReconnect_def setState_def)
  then have "hd (reconnectTimers (run_actions ws_step (startTransport None) [SocketClosed 0])) \<in>
      set (reconnectTimers (run_actions ws_step (startTransport None) [SocketClosed 0]))" by simp
  then show ?thesis by (rule conjunct2 [OF reconnect_delays_bounded])
qed

text \<open>A reconnect attempt whose socket closes before it opens leaves two attempts scheduled in its place: the close handler
  schedules one, and the attempt that awaited the session schedules another.\<close>

theorem failed_attempt_schedules_two:
  assumes "admissible ws_step ws_enabled (startTransport fault) evs"
    and "w = run_actions ws_step (startTransport fault) evs"
    and "\<not> disposed w" "jobs w = []" "i < length (reconnectTimers w)"
  defines "attempt \<equiv> [ReconnectTimeout i None, SocketClosed (length (sockets w)), RunJob]"
  shows "admissible ws_step ws_enabled w attempt \<and> jobs (run_actions ws_step w attempt) = [] \<and>
    \<not> disposed (run_actions ws_step w attempt) \<and>
    length (reconnectTimers (run_actions ws_step w attempt)) = length (reconnectTimers w) + 1"
proof -
  let ?p = "length (promises w)" and ?s = "length (sockets w)"
  define w1 where "w1 = ws_step w (ReconnectTimeout i None)"
  have w1: "promises w1 = promises w @ [Waiting [ReconnectAttempt]]" "connectPromise w1 = Some ?p"
    "sockets w1 = sockets w @ [\<lparr>readyState = CONNECTING, attached = True, sessionOf = ?p\<rparr>]"
    "jobs w1 = []" "\<not> disposed w1" "length (reconnectTimers w1) = length (reconnectTimers w) - 1"
    using assms(3-5)
    by (simp_all add: w1_def reconnectNow_def openSession_def Let_def await_def list_get_def setState_def nth_append min_def)
  define w2 where "w2 = ws_step w1 (SocketClosed ?s)"
  have w2: "jobs w2 = [Abort ReconnectAttempt (Failure ''WebSocket closed before open'')]" "\<not> disposed w2"
    "length (reconnectTimers w2) = length (reconnectTimers w)"
    using w1 assms(5)
    by (simp_all add: w2_def socketClosed_def socket_set_def Let_def rejectSession_def list_get_def
        scheduleReconnect_def setState_def nth_append)
  have "jobs (ws_step w2 RunJob) = []" "\<not> disposed (ws_step w2 RunJob)"
    "length (reconnectTimers (ws_step w2 RunJob)) = length (reconnectTimers w) + 1"
    using w2 by (simp_all add: runJob_def scheduleReconnect_def)
  moreover have "ws_enabled w (ReconnectTimeout i None)" "ws_enabled w1 (SocketClosed ?s)"
    using assms(4,5) w1 by (simp_all add: socket_is_def list_get_def nth_append)
  ultimately show ?thesis by (simp add: attempt_def w2_def w1_def)
qed

text \<open>The first failure schedules one attempt; when that fails too, two are scheduled.\<close>

theorem failed_attempt_schedules_two_witness:
  "\<exists>later. admissible ws_step ws_enabled (startTransport None) ([SocketClosed 0] @ later) \<and>
     length (reconnectTimers (run_actions ws_step (startTransport None) ([SocketClosed 0] @ later))) = 2"
proof -
  let ?w = "run_actions ws_step (startTransport None) [SocketClosed 0]"
  have w: "disposed ?w = False" "jobs ?w = []" "length (reconnectTimers ?w) = 1"
    by (simp_all add: startTransport_def openSession_def initialTransport_def Let_def socketClosed_def socket_set_def
        rejectSession_def list_get_def scheduleReconnect_def setState_def)
  have a: "admissible ws_step ws_enabled (startTransport None) [SocketClosed 0]"
    by (simp add: startTransport_def openSession_def initialTransport_def Let_def socket_is_def list_get_def setState_def)
  have "\<not> disposed ?w" "0 < length (reconnectTimers ?w)" using w by simp_all
  note two = failed_attempt_schedules_two [OF a refl this(1) w(2) this(2)]
  let ?attempt = "[ReconnectTimeout 0 None, SocketClosed (length (sockets ?w)), RunJob]"
  have "length (reconnectTimers (run_actions ws_step ?w ?attempt)) = 1 + 1"
    using two unfolding w(3) by blast
  then have "length (reconnectTimers (run_actions ws_step ?w ?attempt)) = 2" by (simp only: one_add_one)
  with a two show ?thesis unfolding admissible_append run_append by blast
qed

text \<open>
  When the constructor cannot build the URL or the socket: the field holds the rejected promise, no
  socket exists and no attempt is scheduled.
\<close>

definition stuck :: "rejection \<Rightarrow> ws_world \<Rightarrow> bool" where
  "stuck e w \<longleftrightarrow> promises w = [Failed e] \<and> connectPromise w = Some 0 \<and> sockets w = [] \<and> socketRef w = None \<and>
     reconnectTimers w = [] \<and> pendingRequests w = [] \<and> sent w = [] \<and>
     (\<forall>j\<in>set (jobs w). \<exists>call m v. j = Abort (SendRequest call m v) e) \<and>
     (\<forall>outcome\<in>snd ` set (settled w). \<exists>r. outcome = Rejected r)"

lemma stuck_send: "stuck e w \<Longrightarrow> stuck e (sendJsonRpc fault call method params w)"
  by (auto simp: stuck_def sendJsonRpc_def settle_def socketOpen_def openSession_def await_def list_get_def)

lemma stuck_count: "stuck e w \<Longrightarrow> stuck e (w\<lparr>calls := n\<rparr>)"
  by (simp add: stuck_def)

lemma stuck_settle: "stuck e w \<Longrightarrow> stuck e (settle call (Rejected r) w)"
  by (auto simp: stuck_def settle_def)

lemma stuck_kept:
  assumes "stuck e w" "ws_enabled w ev"
  shows "stuck e (ws_step w ev)"
proof (cases ev)
  case (Request fault m v)
  with assms(1) show ?thesis
    by (auto simp: request_def Let_def intro!: stuck_send stuck_settle stuck_count split: option.split)
next
  case (Rpc fault m v)
  with assms(1) show ?thesis by (simp add: rpc_def stuck_send stuck_count)
next
  case RunJob
  with assms(1) show ?thesis
    by (cases "jobs w") (auto simp: runJob_def stuck_def settle_def)
next
  case Dispose
  with assms(1) show ?thesis by (auto simp: stuck_def dispose_def Let_def)
qed (use assms in \<open>auto simp: stuck_def socket_is_def list_get_def settle_def\<close>)

text \<open>When the first session cannot be opened because building the URL or the socket throws, the transport stays
  unusable: it never makes a socket or schedules an attempt, and every call that is settled is rejected.\<close>

theorem failed_start_is_final:
  assumes "admissible ws_step ws_enabled (startTransport (Some message)) evs"
    and "w = run_actions ws_step (startTransport (Some message)) evs"
  shows "sockets w = [] \<and> reconnectTimers w = [] \<and> sent w = [] \<and>
    (\<forall>(call, outcome)\<in>set (settled w). \<exists>r. outcome = Rejected r)"
proof -
  have "stuck (Failure message) (startTransport (Some message))"
    by (simp add: stuck_def startTransport_def openSession_def initialTransport_def Let_def setState_def)
  then have "stuck (Failure message) w"
    using run_keeps [where Q = "stuck (Failure message)" and R = "\<lambda>_. True", OF stuck_kept] start_inv assms by blast
  then show ?thesis by (force simp: stuck_def)
qed

theorem failed_start_is_final_witness:
  "\<exists>r. settled (run_actions ws_step (startTransport (Some ''bad url'')) [Rpc None ''ping'' JNull, RunJob]) = [(0, Rejected r)]"
proof -
  let ?evs = "[Rpc None ''ping'' JNull, RunJob]"
  have a: "admissible ws_step ws_enabled (startTransport (Some ''bad url'')) ?evs" by code_simp
  have "map fst (settled (run_actions ws_step (startTransport (Some ''bad url'')) ?evs)) = [0]" by code_simp
  then obtain o0 where "settled (run_actions ws_step (startTransport (Some ''bad url'')) ?evs) = [(0, o0)]" by auto
  with failed_start_is_final [OF a refl] show ?thesis by auto
qed

section \<open>Methods and pushes\<close>

text \<open>A method name is sent as a served method of the registry, or the call is rejected at once with the method-not-found
  message and nothing is queued or sent for it.\<close>

theorem unserved_calls_rejected:
  assumes "name \<notin> set OBJECT_PROTOTYPE_KEYS" and "\<not> disposed w"
  shows "case mapMethodToServed name of
      Some served \<Rightarrow> served \<in> set SERVED_RPC \<and>
        request fault name params w =
          sendJsonRpc fault (calls w) served (or_empty (request_payload name params)) (w\<lparr>calls := calls w + 1\<rparr>)
    | None \<Rightarrow> name \<notin> set SERVED_RPC \<and>
        request fault name params w =
          w\<lparr>calls := calls w + 1,
            settled := settled w @ [(calls w, Rejected (Failure (''Method not found: '' @ name)))]\<rparr>"
  using assms remaps_served [of name]
  by (auto simp: mapMethodToServed_def request_def Let_def settle_def split: option.split)

theorem unserved_calls_rejected_witness:
  "settled (request None ''x'' None initialTransport) = [(0, Rejected (Failure ''Method not found: x''))]"
proof -
  have m: "''x'' \<notin> set OBJECT_PROTOTYPE_KEYS" by (simp add: OBJECT_PROTOTYPE_KEYS_def)
  have d: "\<not> disposed initialTransport" by (simp add: initialTransport_def)
  have "mapMethodToServed ''x'' = None"
    by (simp add: mapMethodToServed_def OBJECT_PROTOTYPE_KEYS_def SERVED_RPC_def MCODE_TO_SERVED_def)
  with unserved_calls_rejected [OF m d, of None None] show ?thesis by (simp add: initialTransport_def)
qed

text \<open>A push frame gets the next sequence number, becomes the latest push of its channel and is delivered to exactly the
  listeners of the channel, in the order they subscribed.\<close>

theorem push_delivered:
  assumes "attached (sockets w ! s)"
    and "frame = JObj [(''jsonrpc'', JStr ''2.0''), (''method'', JStr (''push/'' @ channel)), (''params'', data)]"
  defines "message \<equiv> \<lparr>pushSequence = pushCount w + 1, pushChannel = channel, pushData = Some data\<rparr>"
  shows "getLatestPush channel (ws_step w (SocketMessage s (Some frame))) = Some message \<and>
    pushCount (ws_step w (SocketMessage s (Some frame))) = pushCount w + 1 \<and>
    delivered (ws_step w (SocketMessage s (Some frame))) = delivered w @
      (case rec_get (listenersOf w) channel of None \<Rightarrow> [] | Some a \<Rightarrow> map (\<lambda>l. (l, message)) (listenerSets w ! a))"
  using assms(1)
  by (simp add: assms(2) message_def socketMessage_def handleIncoming_def routePush_def emit_def Let_def getLatestPush_def
      rec_get_set split: option.split)

definition listening :: ws_world where
  "listening = run_actions ws_step (startTransport None) [Subscribe ''c'' 7 False, SocketOpened 0]"

theorem push_delivered_witness:
  "map fst (delivered (ws_step listening (SocketMessage 0 (Some
     (JObj [(''jsonrpc'', JStr ''2.0''), (''method'', JStr (''push/'' @ ''c'')), (''params'', JNull)]))))) = [7]"
proof -
  have a: "attached (sockets listening ! 0)" by code_simp
  have l: "rec_get (listenersOf listening) ''c'' = Some 0" "listenerSets listening ! 0 = [7]" "delivered listening = []"
    by (code_simp, code_simp, code_simp)
  from push_delivered [OF a refl, of "''c''" JNull] l show ?thesis by simp
qed

text \<open>
  The function that \<open>subscribe\<close> returned holds its listener set, not the current one of the channel.
  Called a second time after the channel got a new set, it drops that set with its listener.
\<close>

lemma second_unsubscribe_drops_listeners:
  "listenersOf (run_actions ws_step (startTransport None)
     [Subscribe ''c'' 1 False, Unsubscribe ''c'' 0 1, Subscribe ''c'' 2 False, Unsubscribe ''c'' 0 1]) = []"
  by code_simp

end
