(* ===== verification/Annotations.thy ===== *)
theory Annotations
  imports Prelude
begin

text \<open>
  The annotations of a thread: the pinned messages and notes (\<open>frontend/src/shared/pinnedMessages.ts\<close>,
  with \<open>restorePinAtIndex\<close> of \<open>frontend/src/pinnedMessages.ts\<close>) and the text markers
  (\<open>frontend/src/shared/threadMarkers.ts\<close>). A list that is null or undefined is \<open>None\<close>. A label is
  read only through \<open>label ?? null\<close>, so an absent one and null are both \<open>None\<close>; \<open>done\<close> is compared
  with \<open>===\<close>, so an absent one is kept apart.
\<close>

section \<open>Pinned messages\<close>

definition PINNED_MESSAGE_LABEL_MAX_CHARS :: nat where
  "PINNED_MESSAGE_LABEL_MAX_CHARS = 60"

definition THREAD_NOTES_MAX_CHARS :: nat where
  "THREAD_NOTES_MAX_CHARS = 16384"

record pinned_message =
  pinMessageId :: string
  pinLabel :: "string option"
  pinDone :: "bool option"
  pinnedAt :: string

definition isMessagePinned :: "pinned_message list option \<Rightarrow> string \<Rightarrow> bool" where
  "isMessagePinned pins messageId =
     (case pins of None \<Rightarrow> False | Some ps \<Rightarrow> list_ex (\<lambda>pin. pinMessageId pin = messageId) ps)"

definition addPinnedMessage :: "pinned_message list option \<Rightarrow> pinned_message \<Rightarrow> pinned_message list" where
  "addPinnedMessage pins pin =
     (let existingPins = nullish pins []
      in if isMessagePinned (Some existingPins) (pinMessageId pin) then existingPins
         else existingPins @ [pin])"

definition removePinnedMessage :: "pinned_message list option \<Rightarrow> string \<Rightarrow> pinned_message list" where
  "removePinnedMessage pins messageId =
     (let existingPins = nullish pins [];
          nextPins = filter (\<lambda>pin. pinMessageId pin \<noteq> messageId) existingPins
      in if length nextPins = length existingPins then existingPins else nextPins)"

definition togglePinnedMessage :: "pinned_message list option \<Rightarrow> pinned_message \<Rightarrow> pinned_message list" where
  "togglePinnedMessage pins pin =
     (if isMessagePinned pins (pinMessageId pin) then removePinnedMessage pins (pinMessageId pin)
      else addPinnedMessage pins pin)"

text \<open>
  A map over a list that reports whether an element was replaced: the code keeps the old list when
  none was, which is the same value.
\<close>

definition setPinnedMessageDone :: "pinned_message list option \<Rightarrow> string \<Rightarrow> bool \<Rightarrow> pinned_message list" where
  "setPinnedMessageDone pins messageId flag =
     map (\<lambda>pin. if pinMessageId pin \<noteq> messageId \<or> pinDone pin = Some flag then pin
                else pin\<lparr>pinDone := Some flag\<rparr>) (nullish pins [])"

definition togglePinnedMessageDone :: "pinned_message list option \<Rightarrow> string \<Rightarrow> pinned_message list" where
  "togglePinnedMessageDone pins messageId =
     map (\<lambda>pin. if pinMessageId pin \<noteq> messageId then pin
                else pin\<lparr>pinDone := Some (\<not> nullish (pinDone pin) False)\<rparr>) (nullish pins [])"

definition normalizePinLabel :: "string option \<Rightarrow> string option" where
  "normalizePinLabel label =
     (let trimmedLabel = (case label of Some l \<Rightarrow> js_trim l | None \<Rightarrow> [])
      in if length trimmedLabel = 0 then None
         else if length trimmedLabel > PINNED_MESSAGE_LABEL_MAX_CHARS
         then Some (take PINNED_MESSAGE_LABEL_MAX_CHARS trimmedLabel)
         else Some trimmedLabel)"

definition setPinnedMessageLabel ::
    "pinned_message list option \<Rightarrow> string \<Rightarrow> string option \<Rightarrow> pinned_message list" where
  "setPinnedMessageLabel pins messageId label =
     (let normalized = normalizePinLabel label
      in map (\<lambda>pin. if pinMessageId pin \<noteq> messageId \<or> pinLabel pin = normalized then pin
                    else pin\<lparr>pinLabel := normalized\<rparr>) (nullish pins []))"

definition clampThreadNotes :: "string \<Rightarrow> string" where
  "clampThreadNotes notes =
     (if length notes > THREAD_NOTES_MAX_CHARS then take THREAD_NOTES_MAX_CHARS notes else notes)"

definition restorePinAtIndex ::
    "pinned_message list option \<Rightarrow> pinned_message \<Rightarrow> int \<Rightarrow> pinned_message list" where
  "restorePinAtIndex pins pin index =
     (let existingPins = nullish pins []
      in if isMessagePinned (Some existingPins) (pinMessageId pin) then existingPins
         else let pos = nat (max 0 (min index (int (length existingPins))))
              in take pos existingPins @ pin # drop pos existingPins)"

section \<open>Text markers\<close>

definition THREAD_MARKER_LABEL_MAX_CHARS :: nat where
  "THREAD_MARKER_LABEL_MAX_CHARS = 60"

datatype marker_style = Highlight | Underline

datatype marker_color = Yellow | Blue | Green | Pink

record thread_marker =
  markerId :: string
  markerMessageId :: string
  startOffset :: nat
  endOffset :: nat
  selectedText :: string
  markerStyle :: marker_style
  markerColor :: marker_color
  markerLabel :: "string option"
  markerDone :: "bool option"
  markerCreatedAt :: string
  markerUpdatedAt :: string

definition isSameMarkerRange :: "thread_marker \<Rightarrow> thread_marker \<Rightarrow> bool" where
  "isSameMarkerRange left right \<longleftrightarrow>
     markerMessageId left = markerMessageId right \<and> startOffset left = startOffset right \<and>
     endOffset left = endOffset right \<and> markerStyle left = markerStyle right"

definition doThreadMarkerRangesOverlap :: "thread_marker \<Rightarrow> thread_marker \<Rightarrow> bool" where
  "doThreadMarkerRangesOverlap left right \<longleftrightarrow>
     markerMessageId left = markerMessageId right \<and>
     startOffset left < endOffset right \<and> startOffset right < endOffset left"

text \<open>The loop of \<open>addThreadMarker\<close>; \<open>None\<close> is its early return.\<close>

fun retainedMarkers :: "thread_marker \<Rightarrow> thread_marker list \<Rightarrow> thread_marker list option" where
  "retainedMarkers marker [] = Some []"
| "retainedMarkers marker (entry # entries) =
     (if markerId entry = markerId marker \<or> isSameMarkerRange entry marker then None
      else case retainedMarkers marker entries of
        None \<Rightarrow> None
      | Some retained \<Rightarrow>
          Some (if doThreadMarkerRangesOverlap entry marker then retained else entry # retained))"

definition addThreadMarker :: "thread_marker list option \<Rightarrow> thread_marker \<Rightarrow> thread_marker list" where
  "addThreadMarker markers marker =
     (let existingMarkers = nullish markers []
      in case retainedMarkers marker existingMarkers of
           None \<Rightarrow> existingMarkers
         | Some retained \<Rightarrow>
             if length retained = length existingMarkers then existingMarkers @ [marker]
             else retained @ [marker])"

definition removeThreadMarker :: "thread_marker list option \<Rightarrow> string \<Rightarrow> thread_marker list" where
  "removeThreadMarker markers mid =
     (let existingMarkers = nullish markers [];
          nextMarkers = filter (\<lambda>marker. markerId marker \<noteq> mid) existingMarkers
      in if length nextMarkers = length existingMarkers then existingMarkers else nextMarkers)"

definition normalizeThreadMarkerLabel :: "string option \<Rightarrow> string option" where
  "normalizeThreadMarkerLabel label =
     (let trimmedLabel = (case label of Some l \<Rightarrow> js_trim l | None \<Rightarrow> [])
      in if length trimmedLabel = 0 then None
         else if length trimmedLabel > THREAD_MARKER_LABEL_MAX_CHARS
         then Some (take THREAD_MARKER_LABEL_MAX_CHARS trimmedLabel)
         else Some trimmedLabel)"

definition setThreadMarkerDone ::
    "thread_marker list option \<Rightarrow> string \<Rightarrow> bool \<Rightarrow> string \<Rightarrow> thread_marker list" where
  "setThreadMarkerDone markers mid flag updatedAt =
     map (\<lambda>marker. if markerId marker \<noteq> mid \<or> markerDone marker = Some flag then marker
                   else marker\<lparr>markerDone := Some flag, markerUpdatedAt := updatedAt\<rparr>) (nullish markers [])"

definition setThreadMarkerLabel ::
    "thread_marker list option \<Rightarrow> string \<Rightarrow> string option \<Rightarrow> string \<Rightarrow> thread_marker list" where
  "setThreadMarkerLabel markers mid label updatedAt =
     (let normalized = normalizeThreadMarkerLabel label
      in map (\<lambda>marker. if markerId marker \<noteq> mid \<or> markerLabel marker = normalized then marker
                       else marker\<lparr>markerLabel := normalized, markerUpdatedAt := updatedAt\<rparr>)
           (nullish markers []))"

definition isThreadMarkerAvailable :: "thread_marker \<Rightarrow> string \<Rightarrow> bool" where
  "isThreadMarkerAvailable marker messageText =
     (if endOffset marker > length messageText then False
      else if endOffset marker \<le> startOffset marker then False
      else take (endOffset marker - startOffset marker) (drop (startOffset marker) messageText)
             = selectedText marker)"

end
