(* ===== verification/AnnotationProperties.thy ===== *)
theory AnnotationProperties
  imports Annotations
begin

text \<open>
  The invariants of a thread's annotations and that every operation keeps them: pins name distinct
  messages; markers have distinct ids and no two of them overlap. Then what adding, toggling and
  labelling do.
\<close>

section \<open>Pins\<close>

definition pins_ok :: "pinned_message list option \<Rightarrow> bool" where
  "pins_ok pins \<longleftrightarrow> distinct (map pinMessageId (nullish pins []))"

lemma pins_ok_simps [simp]:
  "pins_ok None" "pins_ok (Some ps) \<longleftrightarrow> distinct (map pinMessageId ps)"
  by (simp_all add: pins_ok_def)

lemma isMessagePinned_iff: "isMessagePinned pins m \<longleftrightarrow> m \<in> pinMessageId ` set (nullish pins [])"
  by (cases pins) (auto simp: isMessagePinned_def list_ex_iff)

lemma removePinnedMessage_filter:
  "removePinnedMessage pins m = filter (\<lambda>pin. pinMessageId pin \<noteq> m) (nullish pins [])"
  by (auto simp: removePinnedMessage_def Let_def) (metis filter_id_conv length_filter_less less_irrefl)

lemma addPinnedMessage_ok [wf_intros]: "pins_ok pins \<Longrightarrow> pins_ok (Some (addPinnedMessage pins pin))"
  by (auto simp: addPinnedMessage_def pins_ok_def isMessagePinned_iff Let_def)

lemma removePinnedMessage_ok [wf_intros]: "pins_ok pins \<Longrightarrow> pins_ok (Some (removePinnedMessage pins m))"
  by (simp add: removePinnedMessage_filter pins_ok_def distinct_map_filter)

lemma togglePinnedMessage_ok [wf_intros]:
  "pins_ok pins \<Longrightarrow> pins_ok (Some (togglePinnedMessage pins pin))"
  unfolding togglePinnedMessage_def using addPinnedMessage_ok removePinnedMessage_ok by presburger

lemma map_keeps_ids:
  "(\<And>x. f (g x) = f x) \<Longrightarrow> map f (map g xs) = map f xs"
  by simp

lemma setPinnedMessageDone_ok [wf_intros]:
  "pins_ok pins \<Longrightarrow> pins_ok (Some (setPinnedMessageDone pins m d))"
  by (simp add: setPinnedMessageDone_def pins_ok_def comp_def if_distrib cong: if_cong)

lemma togglePinnedMessageDone_ok [wf_intros]:
  "pins_ok pins \<Longrightarrow> pins_ok (Some (togglePinnedMessageDone pins m))"
  by (simp add: togglePinnedMessageDone_def pins_ok_def comp_def if_distrib cong: if_cong)

lemma setPinnedMessageLabel_ok [wf_intros]:
  "pins_ok pins \<Longrightarrow> pins_ok (Some (setPinnedMessageLabel pins m l))"
  by (simp add: setPinnedMessageLabel_def pins_ok_def comp_def if_distrib Let_def cong: if_cong)

lemma distinct_insert_at:
  "distinct (map f (take n ps @ p # drop n ps)) \<longleftrightarrow> distinct (map f ps) \<and> f p \<notin> f ` set ps"
proof -
  have "distinct (map f (xs @ p # ys)) \<longleftrightarrow> distinct (map f (xs @ ys)) \<and> f p \<notin> f ` set (xs @ ys)" for xs ys
    by auto
  from this [of "take n ps" "drop n ps"] show ?thesis by simp
qed

lemma restorePinAtIndex_ok [wf_intros]:
  "pins_ok pins \<Longrightarrow> pins_ok (Some (restorePinAtIndex pins pin i))"
  unfolding restorePinAtIndex_def Let_def pins_ok_simps
  using distinct_insert_at [of pinMessageId _ "nullish pins []" pin]
  by (auto simp only: pins_ok_def isMessagePinned_iff nullish_simps split: if_splits)

text \<open>Pinning and unpinning a message gives the list back, whatever the pin carries.\<close>

lemma toggle_pin_twice:
  "\<not> isMessagePinned pins (pinMessageId pin) \<Longrightarrow>
     togglePinnedMessage (Some (togglePinnedMessage pins pin)) pin = nullish pins []"
  by (auto simp: togglePinnedMessage_def addPinnedMessage_def removePinnedMessage_filter
      isMessagePinned_iff Let_def filter_id_conv image_iff)

lemma remove_restore_pin:
  assumes "pins_ok pins" "nullish pins [] = xs @ pin # ys"
  shows "restorePinAtIndex (Some (removePinnedMessage pins (pinMessageId pin))) pin (int (length xs))
           = nullish pins []"
proof -
  have "filter (\<lambda>p. pinMessageId p \<noteq> pinMessageId pin) xs = xs"
    "filter (\<lambda>p. pinMessageId p \<noteq> pinMessageId pin) ys = ys"
    using assms by (auto simp: pins_ok_def filter_id_conv image_iff)
  then have "removePinnedMessage pins (pinMessageId pin) = xs @ ys"
    by (simp add: removePinnedMessage_filter assms(2))
  moreover have "\<not> isMessagePinned (Some (xs @ ys)) (pinMessageId pin)"
    using assms by (auto simp: pins_ok_def isMessagePinned_iff)
  ultimately show ?thesis by (simp add: restorePinAtIndex_def Let_def assms(2))
qed

section \<open>Labels\<close>

lemma normalizePinLabel_bound:
  "normalizePinLabel l = Some s \<Longrightarrow> s \<noteq> [] \<and> length s \<le> PINNED_MESSAGE_LABEL_MAX_CHARS"
  by (auto simp: normalizePinLabel_def PINNED_MESSAGE_LABEL_MAX_CHARS_def Let_def split: if_splits)

lemma labels_agree: "normalizeThreadMarkerLabel l = normalizePinLabel l"
  by (simp only: normalizeThreadMarkerLabel_def normalizePinLabel_def
      THREAD_MARKER_LABEL_MAX_CHARS_def PINNED_MESSAGE_LABEL_MAX_CHARS_def)

text \<open>A label cut at the limit may end in a space, although the type of labels asks for trimmed ones.\<close>

lemma cut_label_ends_in_space:
  "normalizePinLabel (Some (replicate 59 CHR ''a'' @ '' b'')) = Some (replicate 59 CHR ''a'' @ '' '')"
  by code_simp

section \<open>Markers\<close>

definition markers_ok :: "thread_marker list option \<Rightarrow> bool" where
  "markers_ok markers \<longleftrightarrow>
     distinct (map markerId (nullish markers [])) \<and>
     sorted_wrt (\<lambda>a b. \<not> doThreadMarkerRangesOverlap a b) (nullish markers [])"

lemma retainedMarkers_eq:
  "retainedMarkers marker es =
     (if \<exists>e\<in>set es. markerId e = markerId marker \<or> isSameMarkerRange e marker then None
      else Some (filter (\<lambda>e. \<not> doThreadMarkerRangesOverlap e marker) es))"
  by (induction es) (auto split: option.splits)

lemma overlap_sym: "doThreadMarkerRangesOverlap a b \<longleftrightarrow> doThreadMarkerRangesOverlap b a"
  by (auto simp: doThreadMarkerRangesOverlap_def)

lemma addThreadMarker_eq:
  "addThreadMarker markers marker =
     (let ms = nullish markers []
      in if \<exists>e\<in>set ms. markerId e = markerId marker \<or> isSameMarkerRange e marker then ms
         else filter (\<lambda>e. \<not> doThreadMarkerRangesOverlap e marker) ms @ [marker])"
proof -
  have "length (filter P xs) = length xs \<Longrightarrow> filter P xs = xs" for P and xs :: "thread_marker list"
    by (metis filter_id_conv length_filter_less less_irrefl)
  note same = this [of "\<lambda>e. \<not> doThreadMarkerRangesOverlap e marker" "nullish markers []"]
  show ?thesis by (simp add: addThreadMarker_def retainedMarkers_eq Let_def) (use same in argo)
qed

lemma addThreadMarker_ok [wf_intros]:
  assumes "markers_ok markers"
  shows "markers_ok (Some (addThreadMarker markers marker))"
  using assms
  by (auto simp: addThreadMarker_eq markers_ok_def Let_def distinct_map_filter sorted_wrt_append
      sorted_wrt_filter)

lemma removeThreadMarker_filter:
  "removeThreadMarker markers i = filter (\<lambda>marker. markerId marker \<noteq> i) (nullish markers [])"
  by (auto simp: removeThreadMarker_def Let_def) (metis filter_id_conv length_filter_less less_irrefl)

lemma removeThreadMarker_ok [wf_intros]:
  "markers_ok markers \<Longrightarrow> markers_ok (Some (removeThreadMarker markers i))"
  by (simp add: removeThreadMarker_filter markers_ok_def distinct_map_filter sorted_wrt_filter)

lemma markers_ok_map:
  assumes "markers_ok markers" "\<And>m. markerId (f m) = markerId m"
    and "\<And>a b. doThreadMarkerRangesOverlap (f a) (f b) = doThreadMarkerRangesOverlap a b"
  shows "markers_ok (Some (map f (nullish markers [])))"
  using assms by (simp add: markers_ok_def comp_def sorted_wrt_map)

lemma setThreadMarkerDone_ok [wf_intros]:
  "markers_ok markers \<Longrightarrow> markers_ok (Some (setThreadMarkerDone markers i d at'))"
  unfolding setThreadMarkerDone_def
  by (rule markers_ok_map) (auto simp: doThreadMarkerRangesOverlap_def)

lemma setThreadMarkerLabel_ok [wf_intros]:
  "markers_ok markers \<Longrightarrow> markers_ok (Some (setThreadMarkerLabel markers i l at'))"
  unfolding setThreadMarkerLabel_def Let_def
  by (rule markers_ok_map) (auto simp: doThreadMarkerRangesOverlap_def)

end
