(* ===== verification/ThreadModel.thy ===== *)
theory ThreadModel
  imports Annotations Json
begin

text \<open>
  The data of a thread in the client store: the types of \<open>frontend/src/types.ts\<close> and
  \<open>frontend/src/contracts/tier3/orchestration.ts\<close> that the projection of server events reads and
  writes. A field that the code reads only through \<open>?? null\<close> or \<open>?? false\<close> is absent and null
  alike; where \<open>undefined\<close> and \<open>null\<close> are told apart the field is an option of an option.
  What the host provides and the repository does not is the record \<open>host\<close>.
\<close>

section \<open>Strings and numbers\<close>

text \<open>
  \<open>left > right\<close> on strings compares code units; \<open>toLowerCase\<close>, \<open>includes\<close> and \<open>startsWith\<close>.
\<close>

definition str_gt :: "string \<Rightarrow> string \<Rightarrow> bool" where
  "str_gt left right \<longleftrightarrow> \<not> str_le left right"

definition lower_char :: "char \<Rightarrow> char" where
  "lower_char c = (let n = of_char c :: nat
     in if 65 \<le> n \<and> n \<le> 90 \<or> 192 \<le> n \<and> n \<le> 222 \<and> n \<noteq> 215 then char_of (n + 32) else c)"

definition js_lower :: "string \<Rightarrow> string" where
  "js_lower s = map lower_char s"

definition str_starts :: "string \<Rightarrow> string \<Rightarrow> bool" where
  "str_starts s p \<longleftrightarrow> take (length p) s = p"

fun str_includes :: "string \<Rightarrow> string \<Rightarrow> bool" where
  "str_includes [] p = (p = [])"
| "str_includes (c # s) p = (str_starts (c # s) p \<or> str_includes s p)"

definition MAX_SAFE_INTEGER :: int where
  "MAX_SAFE_INTEGER = 9007199254740991"

text \<open>\<open>a || b\<close> on the results of comparisons, and \<open>toSorted\<close> with such a comparison.\<close>

definition cmp_or :: "int \<Rightarrow> int \<Rightarrow> int" where
  "cmp_or a b = (if a \<noteq> 0 then a else b)"

definition sort_cmp :: "('a \<Rightarrow> 'a \<Rightarrow> int) \<Rightarrow> 'a list \<Rightarrow> 'a list" where
  "sort_cmp cmp xs = to_sorted (\<lambda>x y. cmp x y \<le> 0) xs"

text \<open>\<open>xs.at(-1)\<close> and \<open>xs.slice(-n)\<close> for a positive \<open>n\<close>.\<close>

definition last_elem :: "'a list \<Rightarrow> 'a option" where
  "last_elem xs = (if xs = [] then None else Some (last xs))"

definition slice_last :: "nat \<Rightarrow> 'a list \<Rightarrow> 'a list" where
  "slice_last n xs = drop (length xs - n) xs"

text \<open>
  \<open>localeCompare\<close> of the host's locale, and the URL of an attachment's preview (the server's origin
  and \<open>encodeURIComponent\<close>).
\<close>

record host =
  localeCompare :: "string \<Rightarrow> string \<Rightarrow> int"
  attachmentPreviewUrl :: "string \<Rightarrow> string"

section \<open>Messages\<close>

datatype message_role = User | Assistant | System

record provider_reference =
  refName :: string
  refPath :: string

datatype chat_attachment =
    SelectionAttachment string string string
  | FileAttachment string string string nat
  | ImageAttachment string string string nat string

text \<open>The attachments of the read model carry no preview.\<close>

datatype wire_attachment =
    WireSelection string string string
  | WireFile string string string nat
  | WireImage string string string nat

record chat_message =
  messageId :: string
  role :: message_role
  messageText :: string
  attachments :: "chat_attachment list option"
  skills :: "provider_reference list option"
  mentions :: "provider_reference list option"
  dispatchMode :: "string option"
  messageTurnId :: "string option option"
  messageCreatedAt :: string
  messageCompletedAt :: "string option"
  streaming :: bool
  messageSource :: "string option"

record read_model_message =
  wireId :: string
  wireRole :: message_role
  wireText :: string
  wireAttachments :: "wire_attachment list option"
  wireSkills :: "provider_reference list option"
  wireMentions :: "provider_reference list option"
  wireDispatchMode :: "string option"
  wireTurnId :: "string option"
  wireStreaming :: bool
  wireSource :: "string option"
  wireCreatedAt :: string
  wireUpdatedAt :: string

section \<open>Activities, plans, diffs, turns, sessions\<close>

record activity =
  activityId :: string
  tone :: "string option"
  kind :: string
  summary :: "string option"
  payload :: "json option"
  activityTurnId :: "string option"
  sequence :: "nat option"
  activityCreatedAt :: string

record proposed_plan =
  planId :: string
  planTurnId :: "string option"
  planMarkdown :: string
  implementedAt :: "string option"
  implementationThreadId :: "string option"
  planCreatedAt :: string
  planUpdatedAt :: string

record diff_file =
  filePath :: string
  fileKind :: "string option"
  additions :: "nat option"
  deletions :: "nat option"

record turn_diff =
  diffTurnId :: string
  diffCompletedAt :: string
  diffStatus :: "string option"
  diffFiles :: "diff_file list"
  checkpointRef :: "string option"
  diffAssistantMessageId :: "string option"
  checkpointTurnCount :: "nat option"

datatype turn_state = TurnRunning | TurnInterrupted | TurnCompleted | TurnError

record source_plan =
  sourceThreadId :: string
  sourcePlanId :: string

record latest_turn =
  latestTurnId :: string
  latestTurnState :: turn_state
  requestedAt :: string
  startedAt :: "string option"
  completedAt :: "string option"
  assistantMessageId :: "string option"
  sourceProposedPlan :: "source_plan option"

datatype session_status =
  StatusIdle | StatusStarting | StatusRunning | StatusReady | StatusInterrupted | StatusStopped | StatusError

datatype session_phase = Disconnected | Connecting | PhaseReady | PhaseRunning | PhaseError | PhaseClosed

record thread_session =
  sessionProvider :: string
  sessionPhase :: session_phase
  orchestrationStatus :: session_status
  activeTurnId :: "string option"
  sessionCreatedAt :: string
  sessionUpdatedAt :: string
  sessionLastError :: "string option"

record wire_session =
  wireStatus :: session_status
  providerName :: "string option"
  wireActiveTurnId :: "string option"
  wireLastError :: "string option"
  wireSessionUpdatedAt :: string

record model_selection =
  provider :: string
  model :: string
  modelOptions :: "json option"

section \<open>Threads\<close>

text \<open>
  \<open>ThreadWorkspaceState\<close>, the part of a thread that \<open>ThreadShell\<close> and \<open>Thread\<close> share, and what
  \<open>Thread\<close> adds to the shell.
\<close>

record thread_shell =
  envMode :: "string option"
  branch :: "string option"
  worktreePath :: "string option"
  associatedWorktreePath :: "string option"
  associatedWorktreeBranch :: "string option"
  associatedWorktreeRef :: "string option"
  createBranchFlowCompleted :: bool
  threadId :: string
  codexThreadId :: "string option"
  projectId :: string
  title :: string
  modelSelection :: model_selection
  runtimeMode :: string
  interactionMode :: string
  threadError :: "string option"
  createdAt :: string
  archivedAt :: "string option"
  updatedAt :: "string option"
  isPinned :: bool
  pinnedMessages :: "pinned_message list option"
  threadMarkers :: "thread_marker list option"
  threadNotes :: "string option"
  parentThreadId :: "string option"
  subagentAgentId :: "string option"
  subagentNickname :: "string option"
  subagentRole :: "string option"
  forkSourceThreadId :: "string option"
  sidechatSourceThreadId :: "string option"
  handoff :: "json option"
  lastKnownPr :: "json option"
  latestUserMessageAt :: "string option option"
  hasPendingApprovals :: "bool option"
  hasPendingUserInput :: "bool option"
  hasActionableProposedPlan :: "bool option"
  lastVisitedAt :: "string option"

record thread = thread_shell +
  session :: "thread_session option"
  messages :: "chat_message list"
  proposedPlans :: "proposed_plan list"
  latestTurn :: "latest_turn option"
  pendingSourceProposedPlan :: "source_plan option"
  turnDiffSummaries :: "turn_diff list"
  activities :: "activity list"

section \<open>Comparing values\<close>

text \<open>\<open>deepEqualJson\<close> on values that are not undefined; numbers are compared with \<open>Object.is\<close>.\<close>

lemma size_zip_left [termination_simp]: "(x, y) \<in> set (zip xs ys) \<Longrightarrow> f x < Suc (size_list f xs)"
  using size_list_estimation' [OF set_zip_leftD order_refl] by (metis le_imp_less_Suc)

fun deepEqual :: "json \<Rightarrow> json \<Rightarrow> bool" where
  "deepEqual (JArr xs) (JArr ys) =
     (length xs = length ys \<and> (\<forall>(x, y)\<in>set (zip xs ys). deepEqual x y))"
| "deepEqual (JObj ps) (JObj qs) =
     (length ps = length qs \<and>
      (\<forall>(k, v)\<in>set ps. case map_of qs k of None \<Rightarrow> False | Some w \<Rightarrow> deepEqual v w))"
| "deepEqual JNull JNull = True"
| "deepEqual (JBool a) (JBool b) = (a = b)"
| "deepEqual (JNum a) (JNum b) = (a = b)"
| "deepEqual (JStr a) (JStr b) = (a = b)"
| "deepEqual _ _ = False"

definition deepEqualJson :: "json option \<Rightarrow> json option \<Rightarrow> bool" where
  "deepEqualJson left right =
     (case (left, right) of
        (None, None) \<Rightarrow> True
      | (Some l, Some r) \<Rightarrow> deepEqual l r
      | _ \<Rightarrow> False)"

end
