(* ===== verification/Comparisons.thy ===== *)
theory Comparisons
  imports ThreadModel "HOL-Library.Multiset"
begin

text \<open>
  Comparators: functions that answer with the sign of an integer, as \<open>toSorted\<close> takes them. A
  \<open>comparison\<close> is one that is consistent (the documented requirement on comparators, and what
  \<open>localeCompare\<close> is documented to be). They can be chained with \<open>||\<close> and read through a key; sorting
  with one has a single result when no two elements tie.
\<close>

definition comparison :: "('a \<Rightarrow> 'a \<Rightarrow> int) \<Rightarrow> bool" where
  "comparison cmp \<longleftrightarrow>
     (\<forall>a b. sgn (cmp a b) = - sgn (cmp b a)) \<and>
     (\<forall>a b c. cmp a b \<le> 0 \<longrightarrow> cmp b c \<le> 0 \<longrightarrow> cmp a c \<le> 0)"

definition collation :: "host \<Rightarrow> bool" where
  "collation h \<longleftrightarrow> comparison (localeCompare h)"

lemma comparison_sign: "comparison cmp \<Longrightarrow> sgn (cmp a b) = - sgn (cmp b a)"
  unfolding comparison_def by blast

lemma comparison_trans: "comparison cmp \<Longrightarrow> cmp a b \<le> 0 \<Longrightarrow> cmp b c \<le> 0 \<Longrightarrow> cmp a c \<le> 0"
  unfolding comparison_def by blast

lemma comparison_flip:
  assumes "comparison cmp"
  shows "cmp a b < 0 \<longleftrightarrow> cmp b a > 0" "cmp a b = 0 \<longleftrightarrow> cmp b a = 0"
  using comparison_sign [OF assms, of a b]
  by (cases "cmp a b" "0 :: int" rule: linorder_cases; cases "cmp b a" "0 :: int" rule: linorder_cases; simp)+

lemma comparison_total: "comparison cmp \<Longrightarrow> cmp a b \<le> 0 \<or> cmp b a \<le> 0"
  using comparison_flip(1) [of cmp b a] by linarith

lemma comparison_trans_less:
  assumes "comparison cmp"
  shows "cmp a b < 0 \<Longrightarrow> cmp b c \<le> 0 \<Longrightarrow> cmp a c < 0" "cmp a b \<le> 0 \<Longrightarrow> cmp b c < 0 \<Longrightarrow> cmp a c < 0"
proof -
  note flip = comparison_flip [OF assms] and tr = comparison_trans [OF assms]
  show "cmp a b < 0 \<Longrightarrow> cmp b c \<le> 0 \<Longrightarrow> cmp a c < 0"
    using tr [of a b c] tr [of b c a] flip [of a b] flip [of a c] by linarith
  show "cmp a b \<le> 0 \<Longrightarrow> cmp b c < 0 \<Longrightarrow> cmp a c < 0"
    using tr [of a b c] tr [of c a b] flip [of b c] flip [of a c] by linarith
qed

lemma comparison_key: "comparison cmp \<Longrightarrow> comparison (\<lambda>a b. cmp (f a) (f b))"
  unfolding comparison_def by blast

lemma comparison_diff: "comparison (\<lambda>a b. f a - f b :: int)"
  by (auto simp: comparison_def sgn_if)

lemma comparison_or:
  assumes f: "comparison f" and g: "comparison g"
  shows "comparison (\<lambda>a b. cmp_or (f a b) (g a b))"
  unfolding comparison_def
proof (intro conjI allI impI)
  fix a b c
  show "sgn (cmp_or (f a b) (g a b)) = - sgn (cmp_or (f b a) (g b a))"
    using comparison_sign [OF f, of a b] comparison_sign [OF g, of a b] comparison_flip(2) [OF f, of a b]
    by (simp add: cmp_or_def)
  assume ab: "cmp_or (f a b) (g a b) \<le> 0" and bc: "cmp_or (f b c) (g b c) \<le> 0"
  then have le: "f a b \<le> 0" "f b c \<le> 0" by (auto simp: cmp_or_def split: if_splits)
  show "cmp_or (f a c) (g a c) \<le> 0"
  proof (cases "f a b < 0 \<or> f b c < 0")
    case True
    with le have "f a c < 0" using comparison_trans_less [OF f] by blast
    then show ?thesis by (simp add: cmp_or_def)
  next
    case False
    with le ab bc have "g a b \<le> 0" "g b c \<le> 0" by (auto simp: cmp_or_def split: if_splits)
    then have "g a c \<le> 0" using comparison_trans [OF g] by blast
    moreover have "f a c \<le> 0" using comparison_trans [OF f le] .
    ultimately show ?thesis by (simp add: cmp_or_def)
  qed
qed

lemma comparison_locale: "collation h \<Longrightarrow> comparison (\<lambda>a b. localeCompare h (f a) (f b))"
  unfolding collation_def by (rule comparison_key)

lemmas comparison_intros = comparison_or comparison_locale comparison_diff

section \<open>Sorting\<close>

lemma mset_insert_by [simp]: "mset (insert_by le x xs) = add_mset x (mset xs)"
  by (induction xs) auto

lemma mset_to_sorted [simp]: "mset (to_sorted le xs) = mset xs"
  by (induction xs) (simp_all add: to_sorted_def)

lemma mset_sort_cmp [simp]: "mset (sort_cmp cmp xs) = mset xs"
  by (simp add: sort_cmp_def)

lemma set_sort_cmp [simp]: "set (sort_cmp cmp xs) = set xs"
  by (simp add: sort_cmp_def)

lemma length_sort_cmp [simp]: "length (sort_cmp cmp xs) = length xs"
  by (simp add: sort_cmp_def)

lemma distinct_map_sort_cmp [simp]: "distinct (map f (sort_cmp cmp xs)) \<longleftrightarrow> distinct (map f xs)"
  by (simp add: sort_cmp_def)

lemma sorted_sort_cmp: "comparison cmp \<Longrightarrow> sorted_wrt (\<lambda>x y. cmp x y \<le> 0) (sort_cmp cmp xs)"
  unfolding sort_cmp_def using sorted_to_sorted [of "\<lambda>x y. cmp x y \<le> 0" xs]
    comparison_total [of cmp] comparison_trans [of cmp] by meson

lemma sorted_wrt_mset_unique:
  assumes "sorted_wrt le xs" "sorted_wrt le ys" "mset xs = mset ys"
    and "\<And>x y. x \<in> set xs \<Longrightarrow> y \<in> set xs \<Longrightarrow> le x y \<Longrightarrow> le y x \<Longrightarrow> x = y"
  shows "xs = ys"
  using assms
proof (induction xs arbitrary: ys)
  case (Cons x xs)
  then obtain y zs where ys: "ys = y # zs" by (cases ys) auto
  have sets: "set (x # xs) = set ys" using Cons.prems(3) by (metis set_mset_mset)
  have "x = y \<or> le y x" using Cons.prems(2) sets ys by (auto dest: bspec)
  moreover have "x = y \<or> le x y" using Cons.prems(1) sets ys by (auto dest: bspec)
  ultimately have "x = y" using Cons.prems(4) [of x y] sets ys by auto
  with Cons.prems(3) ys have "mset xs = mset zs" by simp
  with Cons ys \<open>x = y\<close> show ?case by (auto intro: Cons.IH)
qed simp

text \<open>Sorting with a consistent comparator does not depend on the order of what comes in.\<close>

lemma sort_cmp_cong:
  assumes "comparison cmp" "mset xs = mset ys"
    and "\<And>x y. x \<in> set xs \<Longrightarrow> y \<in> set xs \<Longrightarrow> cmp x y = 0 \<Longrightarrow> x = y"
  shows "sort_cmp cmp xs = sort_cmp cmp ys"
proof (rule sorted_wrt_mset_unique)
  show "mset (sort_cmp cmp xs) = mset (sort_cmp cmp ys)" using assms(2) by simp
  fix x y assume "x \<in> set (sort_cmp cmp xs)" "y \<in> set (sort_cmp cmp xs)" "cmp x y \<le> 0" "cmp y x \<le> 0"
  with assms(3) [of x y] comparison_flip(1) [OF assms(1), of x y] show "x = y" by auto
qed (rule sorted_sort_cmp [OF assms(1)])+

lemma to_sorted_id: "sorted_wrt le xs \<Longrightarrow> to_sorted le xs = xs"
proof (induction xs)
  case (Cons x xs)
  then show ?case by (cases xs) (simp_all add: to_sorted_def)
qed (simp add: to_sorted_def)

lemma sort_cmp_id: "sorted_wrt (\<lambda>x y. cmp x y \<le> 0) xs \<Longrightarrow> sort_cmp cmp xs = xs"
  by (simp add: sort_cmp_def to_sorted_id)

section \<open>Code-unit order\<close>

lemma str_le_refl: "str_le s s"
  by (induction s) simp_all

lemma str_le_total: "str_le s t \<or> str_le t s"
  by (induction s t rule: str_le.induct) auto

lemma of_char_eq: "of_char a = (of_char b :: nat) \<Longrightarrow> a = b"
  by (simp add: of_char_eq_iff)

lemma str_le_antisym: "str_le s t \<Longrightarrow> str_le t s \<Longrightarrow> s = t"
proof (induction s t rule: str_le.induct)
  case (1 t)
  then show ?case by (cases t) simp_all
next
  case (3 a s b t)
  then show ?case using of_char_eq [of a b] by (auto split: if_splits)
qed simp

lemma str_le_trans: "str_le s t \<Longrightarrow> str_le t u \<Longrightarrow> str_le s u"
proof (induction s t arbitrary: u rule: str_le.induct)
  case (3 a s b t)
  then obtain c v where "u = c # v" by (cases u) simp_all
  with 3 show ?case by (auto split: if_splits)
qed simp_all

text \<open>A host that compares by code units, for examples.\<close>

definition unitHost :: host where
  "unitHost = \<lparr>localeCompare = (\<lambda>a b. if a = b then 0 else if str_le a b then -1 else 1),
     attachmentPreviewUrl = (\<lambda>i. ''/attachments/'' @ i)\<rparr>"

lemma collation_unitHost: "collation unitHost"
  unfolding collation_def comparison_def unitHost_def
  using str_le_total str_le_antisym str_le_trans by (auto split: if_splits)

end
