(* ===== verification/ThreadSummary.thy ===== *)
theory ThreadSummary
  imports ThreadModel
begin

text \<open>
  The summary of a thread: \<open>frontend/src/shared/threadSummary.ts\<close>, and the predicate of
  \<open>frontend/src/lib/pendingInteraction.ts\<close>. The requests that still wait for the user are read off
  the thread's activities, in the order of their sequence numbers. A \<open>Map\<close> whose values are all
  \<open>true\<close> is the list of its keys in insertion order.
\<close>

section \<open>Payloads\<close>

definition toPayloadRecord :: "json option \<Rightarrow> json option" where
  "toPayloadRecord p = (case p of Some v \<Rightarrow> if is_object v then Some v else None | None \<Rightarrow> None)"

text \<open>\<open>r?.k\<close>, and a property that must be a string.\<close>

definition record_prop :: "json option \<Rightarrow> string \<Rightarrow> json option" where
  "record_prop r k = (case r of Some v \<Rightarrow> json_prop v k | None \<Rightarrow> None)"

definition string_prop :: "json option \<Rightarrow> string \<Rightarrow> string option" where
  "string_prop r k = (case record_prop r k of Some (JStr s) \<Rightarrow> Some s | _ \<Rightarrow> None)"

definition requestKindFromRequestType :: "json option \<Rightarrow> string option" where
  "requestKindFromRequestType requestType =
     (if requestType = Some (JStr ''command_execution_approval'') \<or>
         requestType = Some (JStr ''exec_command_approval'') then Some ''command''
      else if requestType = Some (JStr ''file_read_approval'') then Some ''file-read''
      else if requestType = Some (JStr ''file_change_approval'') \<or>
         requestType = Some (JStr ''apply_patch_approval'') then Some ''file-change''
      else None)"

definition SUMMARY_STALE_PHRASES :: "string list" where
  "SUMMARY_STALE_PHRASES =
     [''stale pending approval request'', ''stale pending user-input request'',
      ''unknown pending approval request'', ''unknown pending permission request'',
      ''unknown pending user-input request'', ''stale pending user input request'',
      ''unknown pending user input request'']"

definition summaryStaleFailureDetail :: "string option \<Rightarrow> bool" where
  "summaryStaleFailureDetail detail =
     (case detail of
        None \<Rightarrow> False
      | Some d \<Rightarrow> d \<noteq> [] \<and> list_ex (str_includes (js_lower d)) SUMMARY_STALE_PHRASES)"

definition STALE_PENDING_REQUEST_FAILURE_PHRASES :: "string list" where
  "STALE_PENDING_REQUEST_FAILURE_PHRASES =
     [''stale pending approval request'', ''stale pending user-input request'',
      ''unknown pending approval request'', ''unknown pending permission request'',
      ''unknown pending user-input request'']"

definition isStalePendingRequestFailureDetail :: "json option \<Rightarrow> bool" where
  "isStalePendingRequestFailureDetail detail =
     (case detail of
        Some (JStr d) \<Rightarrow> list_ex (str_includes (js_lower d)) STALE_PENDING_REQUEST_FAILURE_PHRASES
      | _ \<Rightarrow> False)"

definition structuredOption :: "json \<Rightarrow> bool" where
  "structuredOption option \<longleftrightarrow>
     is_object option \<and> is_string (json_prop option ''label'') \<and>
     is_string (json_prop option ''description'')"

definition structuredQuestion :: "json \<Rightarrow> bool" where
  "structuredQuestion question \<longleftrightarrow>
     is_object question \<and> is_string (json_prop question ''id'') \<and>
     is_string (json_prop question ''header'') \<and> is_string (json_prop question ''question'') \<and>
     (case json_prop question ''options'' of
        Some (JArr options) \<Rightarrow> list_ex structuredOption options
      | _ \<Rightarrow> False)"

definition hasStructuredUserInputQuestions :: "json option \<Rightarrow> bool" where
  "hasStructuredUserInputQuestions payloadRecord =
     (case record_prop payloadRecord ''questions'' of
        Some (JArr questions) \<Rightarrow> list_ex structuredQuestion questions
      | _ \<Rightarrow> False)"

section \<open>Pending requests\<close>

definition compareActivitiesByOrder :: "host \<Rightarrow> activity \<Rightarrow> activity \<Rightarrow> int" where
  "compareActivitiesByOrder h left right =
     (let leftSequence = (case sequence left of Some n \<Rightarrow> int n | None \<Rightarrow> MAX_SAFE_INTEGER);
          rightSequence = (case sequence right of Some n \<Rightarrow> int n | None \<Rightarrow> MAX_SAFE_INTEGER)
      in cmp_or (leftSequence - rightSequence)
           (cmp_or (localeCompare h (activityCreatedAt left) (activityCreatedAt right))
             (localeCompare h (activityId left) (activityId right))))"

record open_requests =
  openApprovals :: "string list"
  openUserInputs :: "string list"

definition key_add :: "string \<Rightarrow> string list \<Rightarrow> string list" where
  "key_add k ks = (if k \<in> set ks then ks else ks @ [k])"

definition key_delete :: "string \<Rightarrow> string list \<Rightarrow> string list" where
  "key_delete k ks = filter (\<lambda>k'. k' \<noteq> k) ks"

definition approvalKind :: "json option \<Rightarrow> string option" where
  "approvalKind payloadRecord =
     (case record_prop payloadRecord ''requestKind'' of
        Some (JStr k) \<Rightarrow>
          if k = ''command'' \<or> k = ''file-read'' \<or> k = ''file-change'' then Some k
          else requestKindFromRequestType (record_prop payloadRecord ''requestType'')
      | _ \<Rightarrow> requestKindFromRequestType (record_prop payloadRecord ''requestType''))"

text \<open>One round of the loop of \<open>derivePendingThreadRequestIds\<close>; an empty request id is falsy.\<close>

definition pendingRound :: "activity \<Rightarrow> open_requests \<Rightarrow> open_requests" where
  "pendingRound a st =
     (let p = toPayloadRecord (payload a);
          requestId = nullish (string_prop p ''requestId'') [];
          detail = string_prop p ''detail''
      in if kind a = ''approval.requested'' \<and> requestId \<noteq> [] then
           (if approvalKind p \<noteq> None
            then st\<lparr>openApprovals := key_add requestId (openApprovals st)\<rparr> else st)
         else if kind a = ''approval.resolved'' \<and> requestId \<noteq> [] then
           st\<lparr>openApprovals := key_delete requestId (openApprovals st)\<rparr>
         else if kind a = ''provider.approval.respond.failed'' \<and> requestId \<noteq> [] \<and>
                 summaryStaleFailureDetail detail then
           st\<lparr>openApprovals := key_delete requestId (openApprovals st)\<rparr>
         else if kind a = ''user-input.requested'' \<and> requestId \<noteq> [] then
           (if hasStructuredUserInputQuestions p
            then st\<lparr>openUserInputs := key_add requestId (openUserInputs st)\<rparr> else st)
         else if kind a = ''user-input.resolved'' \<and> requestId \<noteq> [] then
           st\<lparr>openUserInputs := key_delete requestId (openUserInputs st)\<rparr>
         else if kind a = ''provider.user-input.respond.failed'' \<and> requestId \<noteq> [] \<and>
                 summaryStaleFailureDetail detail then
           st\<lparr>openUserInputs := key_delete requestId (openUserInputs st)\<rparr>
         else st)"

definition derivePendingThreadRequestIds :: "host \<Rightarrow> activity list \<Rightarrow> open_requests" where
  "derivePendingThreadRequestIds h as =
     fold pendingRound (sort_cmp (compareActivitiesByOrder h) as)
       \<lparr>openApprovals = [], openUserInputs = []\<rparr>"

section \<open>The summary\<close>

definition maxIso :: "string option \<Rightarrow> string \<Rightarrow> string" where
  "maxIso left right = (case left of None \<Rightarrow> right | Some l \<Rightarrow> if str_gt l right then l else right)"

definition comparePlans :: "host \<Rightarrow> proposed_plan \<Rightarrow> proposed_plan \<Rightarrow> int" where
  "comparePlans h left right =
     cmp_or (localeCompare h (planUpdatedAt left) (planUpdatedAt right))
       (localeCompare h (planId left) (planId right))"

definition resolveLatestProposedPlan ::
    "host \<Rightarrow> proposed_plan list \<Rightarrow> string option \<Rightarrow> proposed_plan option" where
  "resolveLatestProposedPlan h plans turn =
     orelse
       (if nullish turn [] \<noteq> []
        then last_elem (sort_cmp (comparePlans h) (filter (\<lambda>plan. planTurnId plan = turn) plans))
        else None)
       (last_elem (sort_cmp (comparePlans h) plans))"

record summary_state =
  summaryLatestUserMessageAt :: "string option"
  pendingApprovalCount :: nat
  pendingUserInputCount :: nat
  summaryHasPendingApprovals :: bool
  summaryHasPendingUserInput :: bool
  summaryHasActionableProposedPlan :: bool

definition latestUserMessage :: "(message_role \<times> string) list \<Rightarrow> string option" where
  "latestUserMessage ms =
     fold (\<lambda>(r, at'). \<lambda>latest. if r = User then Some (maxIso latest at') else latest) ms None"

definition deriveThreadSummaryState ::
    "host \<Rightarrow> (message_role \<times> string) list \<Rightarrow> activity list \<Rightarrow> proposed_plan list \<Rightarrow> string option \<Rightarrow>
     summary_state" where
  "deriveThreadSummaryState h ms as plans turn =
     (let pending = derivePendingThreadRequestIds h as;
          latestProposedPlan = resolveLatestProposedPlan h plans turn
      in \<lparr>summaryLatestUserMessageAt = latestUserMessage ms,
          pendingApprovalCount = length (openApprovals pending),
          pendingUserInputCount = length (openUserInputs pending),
          summaryHasPendingApprovals = (length (openApprovals pending) > 0),
          summaryHasPendingUserInput = (length (openUserInputs pending) > 0),
          summaryHasActionableProposedPlan =
            (case latestProposedPlan of None \<Rightarrow> False | Some plan \<Rightarrow> implementedAt plan = None)\<rparr>)"

record summary_metadata =
  metaLatestUserMessageAt :: "string option"
  metaHasPendingApprovals :: bool
  metaHasPendingUserInput :: bool
  metaHasActionableProposedPlan :: bool

definition deriveThreadSummaryMetadata ::
    "host \<Rightarrow> (message_role \<times> string) list \<Rightarrow> activity list \<Rightarrow> proposed_plan list \<Rightarrow> string option \<Rightarrow>
     summary_metadata" where
  "deriveThreadSummaryMetadata h ms as plans turn =
     (let s = deriveThreadSummaryState h ms as plans turn
      in \<lparr>metaLatestUserMessageAt = summaryLatestUserMessageAt s,
          metaHasPendingApprovals = summaryHasPendingApprovals s,
          metaHasPendingUserInput = summaryHasPendingUserInput s,
          metaHasActionableProposedPlan = summaryHasActionableProposedPlan s\<rparr>)"

definition buildStalePendingRequestFailureDetail :: "string \<Rightarrow> string \<Rightarrow> string" where
  "buildStalePendingRequestFailureDetail requestKind requestId =
     ''Stale pending '' @ requestKind @ '' request: '' @ requestId @
     ''. Provider callback state does not survive app restarts or recovered sessions. Restart the turn to continue.''"

end
