(* ===== verification/ThreadActivities.thy ===== *)
theory ThreadActivities
  imports ThreadSummary
begin

text \<open>
  The activities of a thread in the client store (\<open>frontend/src/store.ts\<close>): duplicates are merged,
  keeping the richer one, and the list is capped to the latest ones and the prompts that still wait
  for the user. Where the code returns the old array when nothing changed the model compares values:
  an element that was kept is the old one, and one that was replaced differs from it.
\<close>

definition MAX_THREAD_ACTIVITIES :: nat where
  "MAX_THREAD_ACTIVITIES = 500"

definition PENDING_INTERACTION_REQUEST_KINDS :: "string list" where
  "PENDING_INTERACTION_REQUEST_KINDS = [''approval.requested'', ''user-input.requested'']"

definition asActivityRecord :: "json option \<Rightarrow> json option" where
  "asActivityRecord value = (case value of Some v \<Rightarrow> if is_object v then Some v else None | None \<Rightarrow> None)"

section \<open>Preferring the richer activity\<close>

text \<open>\<open>a ?? b\<close> on values that may be null.\<close>

definition json_or :: "json option \<Rightarrow> json option \<Rightarrow> json option" where
  "json_or a b = (case a of None \<Rightarrow> b | Some JNull \<Rightarrow> b | Some v \<Rightarrow> Some v)"

definition join_spaces :: "string list \<Rightarrow> string" where
  "join_spaces ps = concat (map (\<lambda>(i, p). (if i = 0 then [] else '' '') @ p) (enumerate 0 ps))"

definition normalizeActivityCommandValue :: "json option \<Rightarrow> string option" where
  "normalizeActivityCommandValue value =
     (case value of
        Some (JStr s) \<Rightarrow> (let t = js_trim s in if length t > 0 then Some t else None)
      | Some (JArr vs) \<Rightarrow>
          (let parts = filter (\<lambda>entry. length entry > 0)
                 (map (\<lambda>entry. case entry of JStr s \<Rightarrow> js_trim s | _ \<Rightarrow> []) vs)
           in if length parts > 0 then Some (join_spaces parts) else None)
      | _ \<Rightarrow> None)"

definition activityPayloadDetailScore :: "activity \<Rightarrow> nat" where
  "activityPayloadDetailScore a =
     (let p = asActivityRecord (payload a);
          data = asActivityRecord (record_prop p ''data'');
          item = asActivityRecord (record_prop data ''item'');
          commandActions = json_or (record_prop item ''commandActions'')
            (json_or (record_prop data ''commandActions'') (record_prop p ''commandActions''));
          command = json_or (record_prop item ''command'')
            (json_or (record_prop data ''command'') (record_prop p ''command''))
      in (if falsy (record_prop p ''itemType'') then 0 else 4)
         + (if falsy (record_prop p ''title'') then 0 else 1)
         + (if falsy (record_prop p ''detail'') then 0 else 2)
         + (if data = None then 0 else 2)
         + (if item = None then 0 else 4)
         + (if normalizeActivityCommandValue command = None then 0 else 8)
         + (case commandActions of Some (JArr vs) \<Rightarrow> if length vs > 0 then 8 else 0 | _ \<Rightarrow> 0))"

definition activitiesEqual :: "activity \<Rightarrow> activity \<Rightarrow> bool" where
  "activitiesEqual left right \<longleftrightarrow>
     kind left = kind right \<and> tone left = tone right \<and> summary left = summary right \<and>
     deepEqualJson (payload left) (payload right) \<and> activityTurnId left = activityTurnId right \<and>
     sequence left = sequence right \<and> activityCreatedAt left = activityCreatedAt right"

definition preferRicherActivity :: "activity \<Rightarrow> activity \<Rightarrow> activity" where
  "preferRicherActivity previous incoming =
     (if activitiesEqual previous incoming then previous
      else let previousScore = activityPayloadDetailScore previous;
               incomingScore = activityPayloadDetailScore incoming
           in if incomingScore < previousScore then previous else incoming)"

section \<open>Merging duplicates\<close>

text \<open>
  The map from ids to positions in the result is read off the result, which holds an id at most
  once.
\<close>

definition dedupeRound :: "activity \<Rightarrow> activity list \<Rightarrow> activity list" where
  "dedupeRound a result =
     (case find_index (\<lambda>b. activityId b = activityId a) result of
        None \<Rightarrow> result @ [a]
      | Some existingIndex \<Rightarrow>
          result[existingIndex := preferRicherActivity (result ! existingIndex) a])"

definition dedupeActivitiesById :: "activity list \<Rightarrow> activity list" where
  "dedupeActivitiesById as = fold dedupeRound as []"

section \<open>The cap\<close>

definition activityRequestId :: "activity \<Rightarrow> string option" where
  "activityRequestId a =
     (case string_prop (asActivityRecord (payload a)) ''requestId'' of
        Some requestId \<Rightarrow> if length (js_trim requestId) > 0 then Some requestId else None
      | None \<Rightarrow> None)"

definition pendingInteractionRound :: "activity \<Rightarrow> string list \<Rightarrow> string list" where
  "pendingInteractionRound a pendingRequestIds =
     (case activityRequestId a of
        None \<Rightarrow> pendingRequestIds
      | Some requestId \<Rightarrow>
          if kind a = ''approval.requested'' \<or> kind a = ''user-input.requested''
          then key_add requestId pendingRequestIds
          else if kind a = ''approval.resolved'' \<or> kind a = ''user-input.resolved''
          then key_delete requestId pendingRequestIds
          else if (kind a = ''provider.approval.respond.failed'' \<or>
                   kind a = ''provider.user-input.respond.failed'') \<and>
                  isStalePendingRequestFailureDetail
                    (record_prop (asActivityRecord (payload a)) ''detail'')
          then key_delete requestId pendingRequestIds
          else pendingRequestIds)"

definition pendingInteractionRequestIds :: "activity list \<Rightarrow> string list" where
  "pendingInteractionRequestIds as = fold pendingInteractionRound as []"

definition isOpenPrompt :: "string list \<Rightarrow> activity \<Rightarrow> bool" where
  "isOpenPrompt pendingRequestIds a =
     (case activityRequestId a of
        None \<Rightarrow> False
      | Some requestId \<Rightarrow>
          requestId \<in> set pendingRequestIds \<and> kind a \<in> set PENDING_INTERACTION_REQUEST_KINDS)"

definition capThreadActivities :: "activity list \<Rightarrow> activity list" where
  "capThreadActivities as =
     (if length as \<le> MAX_THREAD_ACTIVITIES then as
      else let pendingRequestIds = pendingInteractionRequestIds as;
               retainedIds = map activityId (slice_last MAX_THREAD_ACTIVITIES as)
                 @ map activityId (filter (isOpenPrompt pendingRequestIds) as)
           in filter (\<lambda>a. activityId a \<in> set retainedIds) as)"

definition normalizeActivities :: "activity list \<Rightarrow> activity list option \<Rightarrow> activity list" where
  "normalizeActivities incoming previous =
     (let previousActivities = dedupeActivitiesById (nullish previous []);
          incomingActivities = dedupeActivitiesById incoming;
          nextActivities = map (\<lambda>a.
            case List.find (\<lambda>b. activityId b = activityId a) previousActivities of
              None \<Rightarrow> a
            | Some existing \<Rightarrow>
                let preferred = preferRicherActivity existing a
                in if preferred = existing \<or> activitiesEqual existing preferred then existing
                   else preferred) incomingActivities
      in capThreadActivities nextActivities)"

end
