(* ===== verification/ThreadProjection.thy ===== *)
theory ThreadProjection
  imports ThreadActivities
begin

text \<open>
  How the client store projects server data onto a thread (\<open>frontend/src/store.ts\<close>): messages and
  their streaming, sessions, the latest turn, proposed plans, the diffs of turns, and what a revert
  or a rollback leaves. Where the code hands back an old object because the new one has the same
  fields, the model has one value for both.
\<close>

definition MAX_THREAD_MESSAGES :: nat where
  "MAX_THREAD_MESSAGES = 2000"

section \<open>Messages\<close>

text \<open>\<open>...(x ? { field: x } : {})\<close> on a string: the empty one counts as absent.\<close>

definition truthy_str :: "string option \<Rightarrow> string option" where
  "truthy_str x = (if x = Some [] then None else x)"

definition truthy_list :: "'a list option \<Rightarrow> 'a list option" where
  "truthy_list x = (if x = Some [] then None else x)"

fun chatAttachment :: "host \<Rightarrow> wire_attachment \<Rightarrow> chat_attachment" where
  "chatAttachment h (WireSelection i m t) = SelectionAttachment i m t"
| "chatAttachment h (WireFile i n mime bytes) = FileAttachment i n mime bytes"
| "chatAttachment h (WireImage i n mime bytes) =
     ImageAttachment i n mime bytes (attachmentPreviewUrl h i)"

definition normalizeChatAttachments ::
    "host \<Rightarrow> wire_attachment list option \<Rightarrow> chat_attachment list option" where
  "normalizeChatAttachments h incoming =
     (case incoming of
        None \<Rightarrow> None
      | Some as \<Rightarrow> if length as = 0 then None else Some (map (chatAttachment h) as))"

definition providerReferenceArraysEqual ::
    "provider_reference list option \<Rightarrow> provider_reference list option \<Rightarrow> bool" where
  "providerReferenceArraysEqual left right =
     (case (left, right) of
        (None, None) \<Rightarrow> True
      | (Some l, Some r) \<Rightarrow>
          length l = length r \<and>
          list_all2 (\<lambda>x y. refName x = refName y \<and> refPath x = refPath y) l r
      | _ \<Rightarrow> False)"

definition normalizeChatMessage :: "host \<Rightarrow> read_model_message \<Rightarrow> chat_message option \<Rightarrow> chat_message" where
  "normalizeChatMessage h incoming previous =
     (let atts = normalizeChatAttachments h (wireAttachments incoming);
          previousSkills = nullish (Option.bind previous skills) [];
          previousMentions = nullish (Option.bind previous mentions) [];
          skls = nullish (truthy_list (wireSkills incoming)) previousSkills;
          ments = nullish (truthy_list (wireMentions incoming)) previousMentions;
          completed = (if wireStreaming incoming then None else Some (wireUpdatedAt incoming));
          fresh = \<lparr>messageId = wireId incoming, role = wireRole incoming, messageText = wireText incoming,
            attachments = atts, skills = truthy_list (Some skls), mentions = truthy_list (Some ments),
            dispatchMode = truthy_str (wireDispatchMode incoming),
            messageTurnId = Some (wireTurnId incoming), messageCreatedAt = wireCreatedAt incoming,
            messageCompletedAt = truthy_str completed, streaming = wireStreaming incoming,
            messageSource = wireSource incoming\<rparr>
      in case previous of
           None \<Rightarrow> fresh
         | Some p \<Rightarrow>
             if role p = wireRole incoming \<and> messageText p = wireText incoming \<and>
                dispatchMode p = wireDispatchMode incoming \<and>
                messageTurnId p = Some (wireTurnId incoming) \<and>
                messageCreatedAt p = wireCreatedAt incoming \<and> streaming p = wireStreaming incoming \<and>
                messageSource p = wireSource incoming \<and> messageCompletedAt p = completed \<and>
                attachments p = atts \<and>
                providerReferenceArraysEqual (Some previousSkills) (Some skls) \<and>
                providerReferenceArraysEqual (Some previousMentions) (Some ments)
             then p else fresh)"

definition normalizeChatMessages ::
    "host \<Rightarrow> read_model_message list \<Rightarrow> chat_message list option \<Rightarrow> chat_message list" where
  "normalizeChatMessages h incoming previous =
     map (\<lambda>m. normalizeChatMessage h m
            (List.find (\<lambda>p. messageId p = wireId m) (rev (nullish previous []))))
       (slice_last MAX_THREAD_MESSAGES incoming)"

definition mergedText :: "chat_message \<Rightarrow> chat_message \<Rightarrow> string" where
  "mergedText existing incoming =
     (if role existing = User \<and> role incoming = User \<and> \<not> streaming incoming then messageText incoming
      else if streaming incoming \<or> length (messageText incoming) = 0
      then messageText existing @ messageText incoming
      else if str_starts (messageText incoming) (messageText existing) then messageText incoming
      else if str_starts (messageText existing) (messageText incoming) then messageText existing
      else messageText existing @ messageText incoming)"

definition mergeStreamingMessage :: "chat_message \<Rightarrow> chat_message \<Rightarrow> chat_message option" where
  "mergeStreamingMessage existing incoming =
     (let nextText = mergedText existing incoming;
          nextAttachments = orelse (attachments incoming) (attachments existing);
          nextSkills = (if nullish (skills incoming) [] \<noteq> [] then skills incoming else skills existing);
          nextMentions =
            (if nullish (mentions incoming) [] \<noteq> [] then mentions incoming else mentions existing);
          nextCompletedAt =
            (if streaming incoming then messageCompletedAt existing
             else orelse (messageCompletedAt incoming) (messageCompletedAt existing));
          nextTurnId =
            (if messageTurnId incoming \<noteq> None then messageTurnId incoming else messageTurnId existing);
          nextDispatchMode =
            (if dispatchMode incoming \<noteq> None then dispatchMode incoming else dispatchMode existing);
          nextSource = orelse (messageSource incoming) (messageSource existing)
      in if messageText existing = nextText \<and> streaming existing = streaming incoming \<and>
            attachments existing = nextAttachments \<and>
            providerReferenceArraysEqual (skills existing) nextSkills \<and>
            providerReferenceArraysEqual (mentions existing) nextMentions \<and>
            messageCompletedAt existing = nextCompletedAt \<and> messageTurnId existing = nextTurnId \<and>
            dispatchMode existing = nextDispatchMode \<and> messageSource existing = nextSource
         then None
         else Some (existing\<lparr>messageText := nextText, streaming := streaming incoming,
           attachments := orelse nextAttachments (attachments existing),
           skills := orelse (truthy_list nextSkills) (skills existing),
           mentions := orelse (truthy_list nextMentions) (mentions existing),
           messageTurnId := orelse nextTurnId (messageTurnId existing),
           dispatchMode := orelse nextDispatchMode (dispatchMode existing),
           messageSource := orelse nextSource (messageSource existing),
           messageCompletedAt := orelse nextCompletedAt (messageCompletedAt existing)\<rparr>))"

section \<open>Sessions\<close>

definition isNonFatalThreadErrorMessage :: "string option \<Rightarrow> bool" where
  "isNonFatalThreadErrorMessage message =
     (case message of
        None \<Rightarrow> False
      | Some m \<Rightarrow> m \<noteq> [] \<and>
          str_includes (js_lower (js_trim m)) ''write_stdin failed: stdin is closed for this session'')"

definition normalizeThreadErrorMessage :: "string option \<Rightarrow> string option" where
  "normalizeThreadErrorMessage message =
     (if truthy_str message \<noteq> None \<and> \<not> isNonFatalThreadErrorMessage message then message else None)"

fun toLegacySessionStatus :: "session_status \<Rightarrow> session_phase" where
  "toLegacySessionStatus StatusStarting = Connecting"
| "toLegacySessionStatus StatusRunning = PhaseRunning"
| "toLegacySessionStatus StatusError = PhaseError"
| "toLegacySessionStatus StatusReady = PhaseReady"
| "toLegacySessionStatus StatusInterrupted = PhaseReady"
| "toLegacySessionStatus StatusIdle = PhaseClosed"
| "toLegacySessionStatus StatusStopped = PhaseClosed"

definition PROVIDER_KINDS :: "string list" where
  "PROVIDER_KINDS =
     [''codex'', ''claudeAgent'', ''cursor'', ''gemini'', ''grok'', ''kilo'', ''opencode'', ''pi'']"

definition toLegacyProvider :: "string option \<Rightarrow> string" where
  "toLegacyProvider name =
     (case name of
        None \<Rightarrow> ''codex''
      | Some p \<Rightarrow>
          if p = ''claude'' then ''claudeAgent''
          else if p \<in> set PROVIDER_KINDS then p else ''codex'')"

definition normalizeThreadSession ::
    "wire_session option \<Rightarrow> thread_session option \<Rightarrow> thread_session option" where
  "normalizeThreadSession incoming previous =
     (case incoming of
        None \<Rightarrow> None
      | Some s \<Rightarrow>
          let nextProvider =
            (case truthy_str (providerName s) of
               Some p \<Rightarrow> toLegacyProvider (Some p)
             | None \<Rightarrow> (case previous of Some q \<Rightarrow> sessionProvider q | None \<Rightarrow> toLegacyProvider None))
          in Some \<lparr>sessionProvider = nextProvider, sessionPhase = toLegacySessionStatus (wireStatus s),
               orchestrationStatus = wireStatus s, activeTurnId = wireActiveTurnId s,
               sessionCreatedAt = wireSessionUpdatedAt s, sessionUpdatedAt = wireSessionUpdatedAt s,
               sessionLastError = normalizeThreadErrorMessage (wireLastError s)\<rparr>)"

section \<open>The latest turn\<close>

definition buildLatestTurn ::
    "latest_turn option \<Rightarrow> string \<Rightarrow> turn_state \<Rightarrow> string \<Rightarrow> string option \<Rightarrow> string option \<Rightarrow>
     string option \<Rightarrow> source_plan option \<Rightarrow> latest_turn" where
  "buildLatestTurn previous turn state requested started completed assistant plan =
     \<lparr>latestTurnId = turn, latestTurnState = state, requestedAt = requested, startedAt = started,
      completedAt = completed, assistantMessageId = assistant,
      sourceProposedPlan =
        (case previous of
           None \<Rightarrow> plan
         | Some p \<Rightarrow> if latestTurnId p = turn then orelse (sourceProposedPlan p) plan else plan)\<rparr>"

text \<open>\<open>thread.latestTurn?.turnId === id\<close>.\<close>

definition turn_is :: "latest_turn option \<Rightarrow> string \<Rightarrow> bool" where
  "turn_is t i = (case t of None \<Rightarrow> False | Some lt \<Rightarrow> latestTurnId lt = i)"

definition reconcileLatestTurnFromSession :: "thread \<Rightarrow> wire_session \<Rightarrow> latest_turn option" where
  "reconcileLatestTurnFromSession t s =
     (case (wireStatus s, wireActiveTurnId s, latestTurn t) of
        (StatusRunning, Some turn, current) \<Rightarrow>
          Some (buildLatestTurn current turn TurnRunning
            (if turn_is current turn then requestedAt (the current) else wireSessionUpdatedAt s)
            (Some (if turn_is current turn
                   then nullish (startedAt (the current)) (wireSessionUpdatedAt s)
                   else wireSessionUpdatedAt s))
            None
            (if turn_is current turn then assistantMessageId (the current) else None)
            (pendingSourceProposedPlan t))
      | (StatusError, _, Some current) \<Rightarrow>
          (if latestTurnState current = TurnRunning
           then Some (buildLatestTurn (Some current) (latestTurnId current) TurnError
             (requestedAt current) (startedAt current) (Some (wireSessionUpdatedAt s))
             (assistantMessageId current) (pendingSourceProposedPlan t))
           else Some current)
      | (_, _, current) \<Rightarrow> current)"

section \<open>Proposed plans\<close>

definition upsertProposedPlan :: "proposed_plan \<Rightarrow> proposed_plan list \<Rightarrow> proposed_plan list" where
  "upsertProposedPlan plan plans =
     (case find_index (\<lambda>p. planId p = planId plan) plans of
        None \<Rightarrow> plans @ [plan]
      | Some i \<Rightarrow> plans[i := plan])"

section \<open>Turn diffs\<close>

definition mergeFileRound :: "diff_file \<Rightarrow> diff_file js_record \<Rightarrow> diff_file js_record" where
  "mergeFileRound file filesByPath =
     (case rec_get filesByPath (filePath file) of
        None \<Rightarrow> rec_set (filePath file) file filesByPath
      | Some existing \<Rightarrow>
          rec_set (filePath file)
            \<lparr>filePath = filePath file, fileKind = fileKind existing,
             additions = Some (nullish (additions existing) 0 + nullish (additions file) 0),
             deletions = Some (nullish (deletions existing) 0 + nullish (deletions file) 0)\<rparr>
            filesByPath)"

definition mergeTurnDiffFilesByPath :: "diff_file list \<Rightarrow> diff_file list" where
  "mergeTurnDiffFilesByPath files = map snd (fold mergeFileRound files [])"

definition normalizeSingleTurnDiffSummary :: "turn_diff \<Rightarrow> turn_diff" where
  "normalizeSingleTurnDiffSummary incoming =
     incoming\<lparr>diffFiles := mergeTurnDiffFilesByPath (diffFiles incoming)\<rparr>"

definition countOrMax :: "turn_diff \<Rightarrow> int" where
  "countOrMax d = (case checkpointTurnCount d of Some n \<Rightarrow> int n | None \<Rightarrow> MAX_SAFE_INTEGER)"

definition compareTurnDiffs :: "host \<Rightarrow> turn_diff \<Rightarrow> turn_diff \<Rightarrow> int" where
  "compareTurnDiffs h left right =
     cmp_or (countOrMax left - countOrMax right)
       (cmp_or (localeCompare h (diffCompletedAt left) (diffCompletedAt right))
         (localeCompare h (diffTurnId left) (diffTurnId right)))"

definition sortTurnDiffSummaries :: "host \<Rightarrow> turn_diff list \<Rightarrow> turn_diff list" where
  "sortTurnDiffSummaries h summaries = sort_cmp (compareTurnDiffs h) summaries"

definition checkpointStatusToLatestTurnState :: "string option \<Rightarrow> turn_state" where
  "checkpointStatusToLatestTurnState status =
     (if status = Some ''error'' then TurnError
      else if status = Some ''missing'' then TurnInterrupted
      else TurnCompleted)"

definition isProviderDiffPlaceholderRef :: "string option \<Rightarrow> bool" where
  "isProviderDiffPlaceholderRef ref =
     (case ref of None \<Rightarrow> False | Some r \<Rightarrow> str_starts r ''provider-diff:'')"

definition rebindTurnDiffSummariesForAssistantMessage ::
    "turn_diff list \<Rightarrow> string \<Rightarrow> string \<Rightarrow> turn_diff list" where
  "rebindTurnDiffSummariesForAssistantMessage summaries turn assistant =
     map (\<lambda>d. if diffTurnId d \<noteq> turn \<or> diffAssistantMessageId d = Some assistant then d
              else d\<lparr>diffAssistantMessageId := Some assistant\<rparr>) summaries"

text \<open>
  \<open>updatedAt\<close> after an event: the later of the two instants, and the field itself when it is later.
\<close>

definition bumpUpdatedAt :: "thread \<Rightarrow> string \<Rightarrow> string option" where
  "bumpUpdatedAt t at' =
     (if str_gt (nullish (updatedAt t) (createdAt t)) at' then updatedAt t else Some at')"

definition resolveEventUpdatedAt :: "thread \<Rightarrow> string \<Rightarrow> string" where
  "resolveEventUpdatedAt t at' =
     (let currentUpdatedAt = nullish (updatedAt t) (createdAt t)
      in if str_gt currentUpdatedAt at' then currentUpdatedAt else at')"

definition diffLatestTurn :: "thread \<Rightarrow> turn_diff \<Rightarrow> latest_turn option" where
  "diffLatestTurn t next =
     (let isActivePlaceholder =
        isProviderDiffPlaceholderRef (checkpointRef next) \<and> diffStatus next = Some ''missing'' \<and>
        turn_is (latestTurn t) (diffTurnId next) \<and>
        latestTurnState (the (latestTurn t)) = TurnRunning
      in if latestTurn t = None \<or> turn_is (latestTurn t) (diffTurnId next)
         then if isActivePlaceholder then latestTurn t
              else Some (buildLatestTurn (latestTurn t) (diffTurnId next)
                (checkpointStatusToLatestTurnState (diffStatus next))
                (case latestTurn t of Some lt \<Rightarrow> requestedAt lt | None \<Rightarrow> diffCompletedAt next)
                (Some (nullish (Option.bind (latestTurn t) startedAt) (diffCompletedAt next)))
                (Some (diffCompletedAt next))
                (orelse (diffAssistantMessageId next) (Option.bind (latestTurn t) assistantMessageId))
                (pendingSourceProposedPlan t))
         else latestTurn t)"

text \<open>
  \<open>None\<close> is the early return of the old thread. The later one compares the new array of diffs with
  the old array, which are never the same object, so it is not taken.
\<close>

definition applyTurnDiffSummaryToThread :: "host \<Rightarrow> turn_diff \<Rightarrow> thread \<Rightarrow> thread option" where
  "applyTurnDiffSummaryToThread h incoming t =
     (let previousSummary = List.find (\<lambda>d. diffTurnId d = diffTurnId incoming) (turnDiffSummaries t);
          nextSummary = normalizeSingleTurnDiffSummary incoming
      in if (case previousSummary of None \<Rightarrow> False | Some p \<Rightarrow> diffStatus p \<noteq> Some ''missing'') \<and>
            diffStatus nextSummary = Some ''missing''
         then None
         else Some (t\<lparr>
           turnDiffSummaries :=
             (if previousSummary \<noteq> None
              then map (\<lambda>d. if diffTurnId d = diffTurnId nextSummary then nextSummary else d)
                     (turnDiffSummaries t)
              else sortTurnDiffSummaries h (turnDiffSummaries t @ [nextSummary])),
           latestTurn := diffLatestTurn t nextSummary,
           updatedAt := bumpUpdatedAt t (diffCompletedAt nextSummary)\<rparr>))"

end
