(* ===== verification/SessionLogic.thy ===== *)
theory SessionLogic
  imports ThreadProjection
begin

text \<open>
  What the views read off a thread: \<open>frontend/src/session-logic.ts\<close> without the work log (whether a
  turn is live, the prompts that wait for the user, task lists, background tasks, the label of the
  live activity, and the merging of timeline rows). A \<open>Map\<close> is the list of its entries in insertion
  order.
\<close>

section \<open>Order of activities\<close>

definition str_ends :: "string \<Rightarrow> string \<Rightarrow> bool" where
  "str_ends s p \<longleftrightarrow> length p \<le> length s \<and> drop (length s - length p) s = p"

definition compareActivityLifecycleRank :: "string \<Rightarrow> int" where
  "compareActivityLifecycleRank k =
     (if str_ends k ''.started'' \<or> k = ''tool.started'' then 0
      else if str_ends k ''.progress'' \<or> str_ends k ''.updated'' then 1
      else if str_ends k ''.completed'' \<or> str_ends k ''.resolved'' then 2
      else 1)"

definition sessionCompareActivities :: "host \<Rightarrow> activity \<Rightarrow> activity \<Rightarrow> int" where
  "sessionCompareActivities h left right =
     (let rest = cmp_or (localeCompare h (activityCreatedAt left) (activityCreatedAt right))
            (cmp_or (compareActivityLifecycleRank (kind left) - compareActivityLifecycleRank (kind right))
              (localeCompare h (activityId left) (activityId right)))
      in case (sequence left, sequence right) of
           (Some l, Some r) \<Rightarrow> if l \<noteq> r then int l - int r else rest
         | (Some _, None) \<Rightarrow> 1
         | (None, Some _) \<Rightarrow> -1
         | (None, None) \<Rightarrow> rest)"

fun isOrderStable :: "('a \<Rightarrow> 'a \<Rightarrow> int) \<Rightarrow> 'a list \<Rightarrow> bool" where
  "isOrderStable cmp (x # y # ys) = (if cmp x y > 0 then False else isOrderStable cmp (y # ys))"
| "isOrderStable cmp _ = True"

definition orderedActivities :: "host \<Rightarrow> activity list \<Rightarrow> activity list" where
  "orderedActivities h as =
     (if isOrderStable (sessionCompareActivities h) as then as
      else sort_cmp (sessionCompareActivities h) as)"

section \<open>Live turns\<close>

definition isLatestTurnSettled :: "latest_turn option \<Rightarrow> thread_session option \<Rightarrow> bool" where
  "isLatestTurnSettled turn sess =
     (case turn of
        None \<Rightarrow> False
      | Some lt \<Rightarrow>
          if truthy_str (startedAt lt) = None then False
          else if truthy_str (completedAt lt) = None then False
          else if latestTurnState lt = TurnInterrupted \<or> latestTurnState lt = TurnError then True
          else case sess of
            None \<Rightarrow> True
          | Some s \<Rightarrow> if orchestrationStatus s = StatusRunning then False else True)"

definition hasLiveLatestTurn :: "latest_turn option \<Rightarrow> thread_session option \<Rightarrow> bool" where
  "hasLiveLatestTurn turn sess =
     (case turn of
        None \<Rightarrow> False
      | Some lt \<Rightarrow> if truthy_str (startedAt lt) = None then False else \<not> isLatestTurnSettled turn sess)"

definition canSessionAnswerPendingRequests :: "thread_session option \<Rightarrow> bool" where
  "canSessionAnswerPendingRequests sess =
     (case sess of
        None \<Rightarrow> True
      | Some s \<Rightarrow> sessionPhase s \<noteq> PhaseClosed \<and> sessionPhase s \<noteq> PhaseError)"

definition deriveActiveWorkStartedAt ::
    "latest_turn option \<Rightarrow> thread_session option \<Rightarrow> string option \<Rightarrow> string option" where
  "deriveActiveWorkStartedAt turn sess sendStartedAt =
     (let runningTurnId =
        (case sess of
           Some s \<Rightarrow> if orchestrationStatus s = StatusRunning then activeTurnId s else None
         | None \<Rightarrow> None)
      in if runningTurnId \<noteq> None \<and> turn_is turn (the runningTurnId)
         then orelse (Option.bind turn startedAt) sendStartedAt
         else if runningTurnId \<noteq> None then sendStartedAt
         else if \<not> isLatestTurnSettled turn sess
         then orelse (Option.bind turn startedAt) sendStartedAt
         else sendStartedAt)"

definition derivePhase :: "thread_session option \<Rightarrow> session_phase" where
  "derivePhase sess =
     (case sess of
        None \<Rightarrow> Disconnected
      | Some s \<Rightarrow>
          if sessionPhase s = PhaseClosed then Disconnected
          else if sessionPhase s = Connecting then Connecting
          else if sessionPhase s = PhaseRunning then PhaseRunning
          else PhaseReady)"

section \<open>Prompts\<close>

record pending_approval =
  approvalRequestId :: string
  approvalRequestKind :: string
  approvalCreatedAt :: string
  approvalDetail :: "string option"

text \<open>One round of the loop of \<open>derivePendingApprovals\<close>.\<close>

definition approvalRound :: "activity \<Rightarrow> pending_approval js_record \<Rightarrow> pending_approval js_record" where
  "approvalRound a openByRequestId =
     (let p = toPayloadRecord (payload a);
          requestId = nullish (string_prop p ''requestId'') [];
          requestKind = (if p = None then None else approvalKind p);
          detail = string_prop p ''detail''
      in if kind a = ''approval.requested'' \<and> requestId \<noteq> [] \<and> requestKind \<noteq> None then
           rec_set requestId \<lparr>approvalRequestId = requestId, approvalRequestKind = the requestKind,
             approvalCreatedAt = activityCreatedAt a, approvalDetail = truthy_str detail\<rparr> openByRequestId
         else if kind a = ''approval.resolved'' \<and> requestId \<noteq> [] then
           rec_delete requestId openByRequestId
         else if kind a = ''provider.approval.respond.failed'' \<and> requestId \<noteq> [] \<and>
                 isStalePendingRequestFailureDetail (map_option JStr detail) then
           rec_delete requestId openByRequestId
         else openByRequestId)"

definition derivePendingApprovals :: "host \<Rightarrow> activity list \<Rightarrow> pending_approval list" where
  "derivePendingApprovals h as =
     sort_cmp (\<lambda>left right. localeCompare h (approvalCreatedAt left) (approvalCreatedAt right))
       (map snd (fold approvalRound (orderedActivities h as) []))"

record input_question =
  questionId :: string
  questionHeader :: string
  questionText :: string
  questionOptions :: "(string \<times> string) list"
  multiSelect :: bool

record pending_input =
  inputRequestId :: string
  inputCreatedAt :: string
  inputQuestions :: "input_question list"

definition parseOption :: "json \<Rightarrow> (string \<times> string) option" where
  "parseOption option =
     (case (json_prop option ''label'', json_prop option ''description'') of
        (Some (JStr l), Some (JStr d)) \<Rightarrow> Some (l, d)
      | _ \<Rightarrow> None)"

definition parseQuestion :: "json \<Rightarrow> input_question option" where
  "parseQuestion question =
     (case (json_prop question ''id'', json_prop question ''header'', json_prop question ''question'',
            json_prop question ''options'') of
        (Some (JStr i), Some (JStr hd'), Some (JStr q), Some (JArr options)) \<Rightarrow>
          Some \<lparr>questionId = i, questionHeader = hd', questionText = q,
            questionOptions = cat_options (map parseOption options),
            multiSelect = (json_prop question ''multiSelect'' = Some (JBool True))\<rparr>
      | _ \<Rightarrow> None)"

definition parseUserInputQuestions :: "json option \<Rightarrow> input_question list option" where
  "parseUserInputQuestions p =
     (case record_prop p ''questions'' of
        Some (JArr questions) \<Rightarrow>
          (let parsed = cat_options (map parseQuestion questions)
           in if length parsed > 0 then Some parsed else None)
      | _ \<Rightarrow> None)"

definition userInputRound :: "activity \<Rightarrow> pending_input js_record \<Rightarrow> pending_input js_record" where
  "userInputRound a openByRequestId =
     (let p = toPayloadRecord (payload a);
          requestId = nullish (string_prop p ''requestId'') [];
          detail = string_prop p ''detail''
      in if kind a = ''user-input.requested'' \<and> requestId \<noteq> [] then
           (case parseUserInputQuestions p of
              None \<Rightarrow> openByRequestId
            | Some questions \<Rightarrow>
                rec_set requestId \<lparr>inputRequestId = requestId, inputCreatedAt = activityCreatedAt a,
                  inputQuestions = questions\<rparr> openByRequestId)
         else if kind a = ''user-input.resolved'' \<and> requestId \<noteq> [] then
           rec_delete requestId openByRequestId
         else if kind a = ''provider.user-input.respond.failed'' \<and> requestId \<noteq> [] \<and>
                 isStalePendingRequestFailureDetail (map_option JStr detail) then
           rec_delete requestId openByRequestId
         else openByRequestId)"

definition derivePendingUserInputs :: "host \<Rightarrow> activity list \<Rightarrow> pending_input list" where
  "derivePendingUserInputs h as =
     sort_cmp (\<lambda>left right. localeCompare h (inputCreatedAt left) (inputCreatedAt right))
       (map snd (fold userInputRound (orderedActivities h as) []))"

section \<open>Background tasks and the live label\<close>

definition taskRound :: "string option \<Rightarrow> activity \<Rightarrow> string option js_record \<Rightarrow> string option js_record" where
  "taskRound liveTurn a activeTasks =
     (if truthy_str liveTurn \<noteq> None \<and> truthy_str (activityTurnId a) \<noteq> None \<and>
         activityTurnId a \<noteq> liveTurn \<and> kind a \<noteq> ''task.completed'' then activeTasks
      else if kind a \<noteq> ''task.started'' \<and> kind a \<noteq> ''task.progress'' \<and> kind a \<noteq> ''task.completed''
      then activeTasks
      else let p = toPayloadRecord (payload a);
               taskId = nullish (string_prop p ''taskId'') []
           in if taskId = [] then activeTasks
              else if kind a = ''task.completed'' then rec_delete taskId activeTasks
              else rec_set taskId
                (orelse (string_prop p ''taskType'') (nullish (rec_get activeTasks taskId) None))
                activeTasks)"

definition deriveActiveBackgroundTasksState :: "host \<Rightarrow> activity list \<Rightarrow> string option \<Rightarrow> nat option" where
  "deriveActiveBackgroundTasksState h as liveTurn =
     (let activeTasks = fold (taskRound liveTurn) (orderedActivities h as) [];
          activeCount = length (filter (\<lambda>taskType. taskType \<noteq> Some ''plan'') (map snd activeTasks))
      in if activeCount > 0 then Some activeCount else None)"

definition classifyLiveActivityLabel :: "string \<Rightarrow> string option" where
  "classifyLiveActivityLabel k =
     (if k = ''provider_reasoning'' then Some ''Thinking''
      else if k = ''provider_explore_started'' \<or> k = ''provider_explore_updated'' then Some ''Exploring''
      else if k = ''provider_skill_dispatched'' then Some ''In Skill''
      else if k = ''provider_subagent_started'' \<or> k = ''provider_subagent_completed'' then Some ''Subagent''
      else None)"

definition hasLiveProviderActivity :: "activity list \<Rightarrow> string \<Rightarrow> bool" where
  "hasLiveProviderActivity as liveTurn =
     list_ex (\<lambda>a. \<not> (truthy_str (activityTurnId a) \<noteq> None \<and> activityTurnId a \<noteq> Some liveTurn) \<and>
                  classifyLiveActivityLabel (kind a) \<noteq> None) as"

definition hasLiveTurnTailWork ::
    "host \<Rightarrow> latest_turn option \<Rightarrow> chat_message list \<Rightarrow> activity list \<Rightarrow> thread_session option \<Rightarrow> bool" where
  "hasLiveTurnTailWork h turn ms as sess =
     (case turn of
        None \<Rightarrow> False
      | Some lt \<Rightarrow>
          if latestTurnId lt = [] then False
          else if list_ex (\<lambda>m. role m = Assistant \<and> messageTurnId m = Some (Some (latestTurnId lt)) \<and>
                 streaming m) ms
          then completedAt lt = None
          else if (case sess of None \<Rightarrow> True | Some s \<Rightarrow> orchestrationStatus s \<noteq> StatusRunning) then False
          else if deriveActiveBackgroundTasksState h as (Some (latestTurnId lt)) \<noteq> None then True
          else if hasLiveProviderActivity as (latestTurnId lt) then True
          else False)"

definition deriveLatestLiveActivity :: "host \<Rightarrow> activity list \<Rightarrow> string option \<Rightarrow> (string \<times> string) option" where
  "deriveLatestLiveActivity h as liveTurn =
     (if truthy_str liveTurn = None then None
      else map_option (\<lambda>a. (kind a, the (classifyLiveActivityLabel (kind a))))
        (List.find (\<lambda>a. \<not> (activityTurnId a \<noteq> None \<and> activityTurnId a \<noteq> liveTurn) \<and>
                        classifyLiveActivityLabel (kind a) \<noteq> None)
          (rev (orderedActivities h as))))"

section \<open>Timeline\<close>

text \<open>A row of the timeline: the code merges rows of several kinds and looks at their time only.\<close>

record timeline_entry =
  entryId :: string
  entryCreatedAt :: string

definition compareTimelineEntries :: "host \<Rightarrow> timeline_entry \<Rightarrow> timeline_entry \<Rightarrow> int" where
  "compareTimelineEntries h left right = localeCompare h (entryCreatedAt left) (entryCreatedAt right)"

definition sortedTimelineEntries :: "host \<Rightarrow> timeline_entry list \<Rightarrow> timeline_entry list" where
  "sortedTimelineEntries h es =
     (if isOrderStable (compareTimelineEntries h) es then es
      else sort_cmp (compareTimelineEntries h) es)"

fun mergeTimelineEntries :: "host \<Rightarrow> timeline_entry list \<Rightarrow> timeline_entry list \<Rightarrow> timeline_entry list" where
  "mergeTimelineEntries h [] right = right"
| "mergeTimelineEntries h left [] = left"
| "mergeTimelineEntries h (l # left) (r # right) =
     (if compareTimelineEntries h l r \<le> 0 then l # mergeTimelineEntries h left (r # right)
      else r # mergeTimelineEntries h (l # left) right)"

definition inferCheckpointTurnCountByTurnId :: "host \<Rightarrow> turn_diff list \<Rightarrow> nat js_record" where
  "inferCheckpointTurnCountByTurnId h summaries =
     fold (\<lambda>(i, d) result. rec_set (diffTurnId d) (i + 1) result)
       (enumerate 0 (sort_cmp (\<lambda>a b. localeCompare h (diffCompletedAt a) (diffCompletedAt b)) summaries)) []"

end
