(* ===== verification/SummaryProperties.thy ===== *)
theory SummaryProperties
  imports Comparisons SessionLogic
begin

text \<open>
  The prompts that wait for the user, as the sidebar counts them (\<open>threadSummary.ts\<close>), as the chat
  lists them (\<open>session-logic.ts\<close>) and as the store keeps them past its cap (\<open>store.ts\<close>). All are
  folds over activities that open and close requests, so they share one interface: a request is open
  when some activity opened it and none after that closed it. Then when the order of delivery does
  not matter, and when sidebar and chat agree.
\<close>

section \<open>A log of requests\<close>

definition last_word :: "('k \<Rightarrow> 'a \<Rightarrow> bool) \<Rightarrow> ('k \<Rightarrow> 'a \<Rightarrow> bool) \<Rightarrow> 'k \<Rightarrow> 'a list \<Rightarrow> bool" where
  "last_word opens closes k as \<longleftrightarrow>
     (\<exists>xs a ys. as = xs @ a # ys \<and> opens k a \<and> (\<forall>b\<in>set ys. \<not> closes k b))"

lemma last_word_Nil [simp]: "\<not> last_word opens closes k []"
  by (simp add: last_word_def)

lemma last_word_Cons:
  "last_word opens closes k (a # as) \<longleftrightarrow>
     opens k a \<and> (\<forall>b\<in>set as. \<not> closes k b) \<or> last_word opens closes k as"
  unfolding last_word_def by (auto simp: Cons_eq_append_conv)

lemma last_word_cong:
  assumes "\<And>a. a \<in> set as \<Longrightarrow> opens k a = opens' k a" "\<And>a. a \<in> set as \<Longrightarrow> closes k a = closes' k a"
  shows "last_word opens closes k as \<longleftrightarrow> last_word opens' closes' k as"
  using assms by (induction as) (simp_all add: last_word_Cons)

locale request_log =
  fixes round :: "'a \<Rightarrow> 's \<Rightarrow> 's"
    and is_open :: "'s \<Rightarrow> 'k \<Rightarrow> bool"
    and opens :: "'k \<Rightarrow> 'a \<Rightarrow> bool"
    and closes :: "'k \<Rightarrow> 'a \<Rightarrow> bool"
  assumes round_open: "is_open (round a s) k \<longleftrightarrow> opens k a \<or> is_open s k \<and> \<not> closes k a"
begin

lemma fold_open:
  "is_open (fold round as s) k \<longleftrightarrow> last_word opens closes k as \<or> is_open s k \<and> (\<forall>b\<in>set as. \<not> closes k b)"
  by (induction as arbitrary: s) (auto simp: last_word_Cons round_open)

lemma fold_fresh: "\<not> is_open s k \<Longrightarrow> is_open (fold round as s) k \<longleftrightarrow> last_word opens closes k as"
  by (simp add: fold_open)

end

lemma set_key_add [simp]: "set (key_add k ks) = insert k (set ks)"
  by (auto simp: key_add_def)

lemma set_key_delete [simp]: "set (key_delete k ks) = set ks - {k}"
  by (auto simp: key_delete_def)

section \<open>What opens and closes a request\<close>

definition names_request :: "string \<Rightarrow> activity \<Rightarrow> bool" where
  "names_request r a \<longleftrightarrow> r \<noteq> [] \<and> string_prop (toPayloadRecord (payload a)) ''requestId'' = Some r"

definition opensApproval :: "string \<Rightarrow> activity \<Rightarrow> bool" where
  "opensApproval r a \<longleftrightarrow> names_request r a \<and> kind a = ''approval.requested'' \<and>
     approvalKind (toPayloadRecord (payload a)) \<noteq> None"

definition closesApproval :: "(string option \<Rightarrow> bool) \<Rightarrow> string \<Rightarrow> activity \<Rightarrow> bool" where
  "closesApproval stale r a \<longleftrightarrow> names_request r a \<and>
     (kind a = ''approval.resolved'' \<or>
      kind a = ''provider.approval.respond.failed'' \<and>
        stale (string_prop (toPayloadRecord (payload a)) ''detail''))"

definition opensInput :: "(json option \<Rightarrow> bool) \<Rightarrow> string \<Rightarrow> activity \<Rightarrow> bool" where
  "opensInput asks r a \<longleftrightarrow> names_request r a \<and> kind a = ''user-input.requested'' \<and>
     asks (toPayloadRecord (payload a))"

definition closesInput :: "(string option \<Rightarrow> bool) \<Rightarrow> string \<Rightarrow> activity \<Rightarrow> bool" where
  "closesInput stale r a \<longleftrightarrow> names_request r a \<and>
     (kind a = ''user-input.resolved'' \<or>
      kind a = ''provider.user-input.respond.failed'' \<and>
        stale (string_prop (toPayloadRecord (payload a)) ''detail''))"

abbreviation chatStale :: "string option \<Rightarrow> bool" where
  "chatStale d \<equiv> isStalePendingRequestFailureDetail (map_option JStr d)"

abbreviation chatAsks :: "json option \<Rightarrow> bool" where
  "chatAsks p \<equiv> parseUserInputQuestions p \<noteq> None"

lemmas request_defs = opensApproval_def closesApproval_def opensInput_def closesInput_def names_request_def

lemma request_id_cases:
  "nullish (string_prop p ''requestId'') [] = r \<and> r \<noteq> [] \<longleftrightarrow> string_prop p ''requestId'' = Some r \<and> r \<noteq> []"
  by (cases "string_prop p ''requestId''") auto

interpretation summary_approvals: request_log pendingRound "\<lambda>st k. k \<in> set (openApprovals st)"
    opensApproval "closesApproval summaryStaleFailureDetail"
proof unfold_locales
  fix a s k
  show "k \<in> set (openApprovals (pendingRound a s)) \<longleftrightarrow>
      opensApproval k a \<or> k \<in> set (openApprovals s) \<and> \<not> closesApproval summaryStaleFailureDetail k a"
    using request_id_cases [of "toPayloadRecord (payload a)" k]
    by (auto simp: pendingRound_def Let_def request_defs)
qed

interpretation summary_inputs: request_log pendingRound "\<lambda>st k. k \<in> set (openUserInputs st)"
    "opensInput hasStructuredUserInputQuestions" "closesInput summaryStaleFailureDetail"
proof unfold_locales
  fix a s k
  show "k \<in> set (openUserInputs (pendingRound a s)) \<longleftrightarrow>
      opensInput hasStructuredUserInputQuestions k a \<or>
      k \<in> set (openUserInputs s) \<and> \<not> closesInput summaryStaleFailureDetail k a"
    using request_id_cases [of "toPayloadRecord (payload a)" k]
    by (auto simp: pendingRound_def Let_def request_defs)
qed

interpretation chat_approvals: request_log approvalRound "\<lambda>r k. rec_get r k \<noteq> None"
    opensApproval "closesApproval chatStale"
proof unfold_locales
  fix a :: activity and k and s :: "pending_approval js_record"
  have none: "toPayloadRecord (payload a) = None \<Longrightarrow> string_prop (toPayloadRecord (payload a)) ''requestId'' = None"
    by (simp add: string_prop_def record_prop_def)
  show "rec_get (approvalRound a s) k \<noteq> None \<longleftrightarrow>
      opensApproval k a \<or> rec_get s k \<noteq> None \<and> \<not> closesApproval chatStale k a"
    using request_id_cases [of "toPayloadRecord (payload a)" k] none
    by (auto simp: approvalRound_def Let_def request_defs rec_get_set rec_get_delete)
qed

interpretation chat_inputs: request_log userInputRound "\<lambda>r k. rec_get r k \<noteq> None"
    "opensInput chatAsks" "closesInput chatStale"
proof unfold_locales
  fix a :: activity and k and s :: "pending_input js_record"
  show "rec_get (userInputRound a s) k \<noteq> None \<longleftrightarrow>
      opensInput chatAsks k a \<or> rec_get s k \<noteq> None \<and> \<not> closesInput chatStale k a"
    using request_id_cases [of "toPayloadRecord (payload a)" k]
    by (auto simp: userInputRound_def Let_def request_defs rec_get_set rec_get_delete split: option.splits)
qed

section \<open>Orders\<close>

lemma comparison_cong_sgn: "comparison f \<Longrightarrow> (\<And>a b. sgn (g a b) = sgn (f a b)) \<Longrightarrow> comparison g"
proof -
  assume f: "comparison f" and s: "\<And>a b. sgn (g a b) = sgn (f a b)"
  have nonpos: "x \<le> 0 \<longleftrightarrow> sgn x \<noteq> 1" for x :: int by (cases x "0 :: int" rule: linorder_cases) simp_all
  have le: "g a b \<le> 0 \<longleftrightarrow> f a b \<le> 0" for a b unfolding nonpos s ..
  show "comparison g" using f unfolding comparison_def le s .
qed

lemma comparison_activities: "collation h \<Longrightarrow> comparison (compareActivitiesByOrder h)"
  unfolding compareActivitiesByOrder_def Let_def by (intro comparison_intros)

definition session_key :: "activity \<Rightarrow> int" where
  "session_key a = (case sequence a of Some n \<Rightarrow> int n | None \<Rightarrow> -1)"

lemma comparison_session: "collation h \<Longrightarrow> comparison (sessionCompareActivities h)"
proof (rule comparison_cong_sgn)
  assume "collation h"
  then show "comparison (\<lambda>left right. cmp_or (session_key left - session_key right)
      (cmp_or (localeCompare h (activityCreatedAt left) (activityCreatedAt right))
        (cmp_or (compareActivityLifecycleRank (kind left) - compareActivityLifecycleRank (kind right))
          (localeCompare h (activityId left) (activityId right)))))"
    by (intro comparison_intros)
  fix a b
  show "sgn (sessionCompareActivities h a b) = sgn (cmp_or (session_key a - session_key b)
      (cmp_or (localeCompare h (activityCreatedAt a) (activityCreatedAt b))
        (cmp_or (compareActivityLifecycleRank (kind a) - compareActivityLifecycleRank (kind b))
          (localeCompare h (activityId a) (activityId b)))))"
    by (cases "sequence a"; cases "sequence b")
      (auto simp: sessionCompareActivities_def session_key_def cmp_or_def Let_def)
qed

lemma order_stable_sorted: "comparison cmp \<Longrightarrow> isOrderStable cmp xs \<Longrightarrow> sorted_wrt (\<lambda>x y. cmp x y \<le> 0) xs"
proof (induction cmp xs rule: isOrderStable.induct)
  case (1 cmp x y ys)
  then have xy: "cmp x y \<le> 0" and rest: "sorted_wrt (\<lambda>x y. cmp x y \<le> 0) (y # ys)"
    by (auto split: if_splits)
  then have "\<forall>z\<in>set ys. cmp x z \<le> 0" using comparison_trans [OF "1.prems"(1) xy] by simp
  with xy rest show ?case by simp
qed simp_all

lemma orderedActivities_sort:
  "collation h \<Longrightarrow> orderedActivities h as = sort_cmp (sessionCompareActivities h) as"
  using order_stable_sorted [OF comparison_session] by (auto simp: orderedActivities_def sort_cmp_id)

lemma insert_by_cong:
  "(\<And>y. y \<in> set ys \<Longrightarrow> f x y = g x y) \<Longrightarrow> insert_by f x ys = insert_by g x ys"
  by (induction ys) auto

lemma sort_cmp_agree:
  assumes "\<And>x y. x \<in> set xs \<Longrightarrow> y \<in> set xs \<Longrightarrow> (f x y \<le> 0) = (g x y \<le> 0)"
  shows "sort_cmp f xs = sort_cmp g xs"
  using assms
proof (induction xs)
  case (Cons x xs)
  have "insert_by (\<lambda>x y. f x y \<le> 0) x (to_sorted (\<lambda>x y. g x y \<le> 0) xs) =
      insert_by (\<lambda>x y. g x y \<le> 0) x (to_sorted (\<lambda>x y. g x y \<le> 0) xs)"
    using Cons.prems by (intro insert_by_cong) simp
  with Cons show ?case by (simp add: sort_cmp_def to_sorted_def)
qed (simp add: sort_cmp_def to_sorted_def)

section \<open>The open requests\<close>

text \<open>C16: The sidebar counts a request as open exactly when, in the order of the activities, one that
  asks for it is followed by none that answers it or reports it as stale: this holds for approvals
  and for questions to the user, whatever the order in which the activities arrived.\<close>

theorem open_requests_are_last_words:
  "r \<in> set (openApprovals (derivePendingThreadRequestIds h as)) =
     last_word opensApproval (closesApproval summaryStaleFailureDetail) r
       (sort_cmp (compareActivitiesByOrder h) as) \<and>
   q \<in> set (openUserInputs (derivePendingThreadRequestIds h as)) =
     last_word (opensInput hasStructuredUserInputQuestions) (closesInput summaryStaleFailureDetail) q
       (sort_cmp (compareActivitiesByOrder h) as)"
  by (simp add: derivePendingThreadRequestIds_def summary_approvals.fold_fresh summary_inputs.fold_fresh)

text \<open>C17: The open requests of a thread do not depend on the order in which its activities were
  delivered, as long as no two of them tie in sequence number, time and id.\<close>

theorem open_requests_order_independent:
  assumes "collation h" "mset as = mset bs"
    and "\<forall>a\<in>set as. \<forall>b\<in>set as. compareActivitiesByOrder h a b = 0 \<longrightarrow> a = b"
  shows "derivePendingThreadRequestIds h as = derivePendingThreadRequestIds h bs"
proof -
  have "sort_cmp (compareActivitiesByOrder h) as = sort_cmp (compareActivitiesByOrder h) bs"
    using assms by (intro sort_cmp_cong comparison_activities) auto
  then show ?thesis by (simp add: derivePendingThreadRequestIds_def)
qed

definition asked :: "string \<Rightarrow> nat \<Rightarrow> activity" where
  "asked i n = \<lparr>activityId = i, tone = None, kind = ''approval.requested'', summary = None,
     payload = Some (JObj [(''requestId'', JStr ''r''), (''requestKind'', JStr ''command'')]),
     activityTurnId = None, sequence = Some n, activityCreatedAt = ''t''\<rparr>"

definition answered :: "string \<Rightarrow> nat option \<Rightarrow> activity" where
  "answered i n = \<lparr>activityId = i, tone = None, kind = ''approval.resolved'', summary = None,
     payload = Some (JObj [(''requestId'', JStr ''r'')]),
     activityTurnId = None, sequence = n, activityCreatedAt = ''t''\<rparr>"

theorem open_requests_order_independent_witness:
  "derivePendingThreadRequestIds unitHost [answered ''b'' (Some 2), asked ''a'' 1] =
     derivePendingThreadRequestIds unitHost [asked ''a'' 1, answered ''b'' (Some 2)]"
proof (rule open_requests_order_independent [OF collation_unitHost])
  show "mset [answered ''b'' (Some 2), asked ''a'' 1] = mset [asked ''a'' 1, answered ''b'' (Some 2)]"
    by simp
qed (simp add: compareActivitiesByOrder_def asked_def answered_def cmp_or_def)

section \<open>Sidebar and chat\<close>

definition well_sequenced :: "activity list \<Rightarrow> bool" where
  "well_sequenced as \<longleftrightarrow> None \<notin> set (map sequence as) \<and> distinct (map sequence as)"

lemma orders_agree:
  assumes "collation h" "well_sequenced as"
  shows "sort_cmp (sessionCompareActivities h) as = sort_cmp (compareActivitiesByOrder h) as"
proof (rule sort_cmp_agree)
  fix a b assume ab: "a \<in> set as" "b \<in> set as"
  then obtain m n where seq: "sequence a = Some m" "sequence b = Some n"
    using assms(2) by (force simp: well_sequenced_def)
  show "(sessionCompareActivities h a b \<le> 0) = (compareActivitiesByOrder h a b \<le> 0)"
  proof (cases "m = n")
    case True
    with ab seq assms(2) have "a = b"
      using distinct_key [of sequence as a b] by (simp add: well_sequenced_def)
    moreover have "localeCompare h s s = 0" for s
      using comparison_flip(1) [of "localeCompare h" s s] assms(1) by (auto simp: collation_def)
    ultimately show ?thesis
      by (simp add: sessionCompareActivities_def compareActivitiesByOrder_def seq cmp_or_def)
  next
    case False
    with seq show ?thesis
      by (auto simp: sessionCompareActivities_def compareActivitiesByOrder_def cmp_or_def)
  qed
qed

lemma approvalRound_keyed:
  "\<forall>(k, v)\<in>set r. approvalRequestId v = k \<Longrightarrow> \<forall>(k, v)\<in>set (approvalRound a r). approvalRequestId v = k"
  by (auto simp: approvalRound_def Let_def rec_delete_def dest!: rec_set_mem split: if_splits)

lemma userInputRound_keyed:
  "\<forall>(k, v)\<in>set r. inputRequestId v = k \<Longrightarrow> \<forall>(k, v)\<in>set (userInputRound a r). inputRequestId v = k"
  by (auto simp: userInputRound_def Let_def rec_delete_def dest!: rec_set_mem split: if_splits option.splits)

lemma keyed_values: "\<forall>(k, v)\<in>set r. f v = k \<Longrightarrow> set (map f (map snd r)) = {k. rec_get r k \<noteq> None}"
  by (force simp: map_of_eq_None_iff)

lemma fold_keeps: "(\<And>a r. P r \<Longrightarrow> P (g a r)) \<Longrightarrow> P r \<Longrightarrow> P (fold g as r)"
  by (induction as arbitrary: r) simp_all

lemma chat_approval_ids:
  "set (map approvalRequestId (derivePendingApprovals h as)) =
     {r. last_word opensApproval (closesApproval chatStale) r (orderedActivities h as)}"
proof -
  let ?r = "fold approvalRound (orderedActivities h as) []"
  have "\<forall>(k, v)\<in>set ?r. approvalRequestId v = k" by (rule fold_keeps) (use approvalRound_keyed in auto)
  then have "set (map approvalRequestId (map snd ?r)) = {k. rec_get ?r k \<noteq> None}" by (rule keyed_values)
  moreover have "(rec_get ?r k \<noteq> None) = (last_word opensApproval (closesApproval chatStale) k (orderedActivities h as))" for k
    by (rule chat_approvals.fold_fresh) simp
  ultimately show ?thesis unfolding derivePendingApprovals_def by (simp add: image_image)
qed

lemma chat_input_ids:
  "set (map inputRequestId (derivePendingUserInputs h as)) =
     {r. last_word (opensInput chatAsks) (closesInput chatStale) r (orderedActivities h as)}"
proof -
  let ?r = "fold userInputRound (orderedActivities h as) []"
  have "\<forall>(k, v)\<in>set ?r. inputRequestId v = k" by (rule fold_keeps) (use userInputRound_keyed in auto)
  then have "set (map inputRequestId (map snd ?r)) = {k. rec_get ?r k \<noteq> None}" by (rule keyed_values)
  moreover have "(rec_get ?r k \<noteq> None) = (last_word (opensInput chatAsks) (closesInput chatStale) k (orderedActivities h as))" for k
    by (rule chat_inputs.fold_fresh) simp
  ultimately show ?thesis unfolding derivePendingUserInputs_def by (simp add: image_image)
qed

text \<open>C18: The sidebar and the chat show the same requests as open, approvals and questions, when every
  activity carries its own sequence number, the two wordings of a stale failure agree on the details
  that occur, and every request for input that is parsed at all offers an option.\<close>

theorem sidebar_and_chat_agree:
  assumes "collation h" "well_sequenced as"
    and stale: "\<forall>a\<in>set as. summaryStaleFailureDetail (string_prop (toPayloadRecord (payload a)) ''detail'') =
        isStalePendingRequestFailureDetail
          (map_option JStr (string_prop (toPayloadRecord (payload a)) ''detail''))"
    and asks: "\<forall>a\<in>set as. hasStructuredUserInputQuestions (toPayloadRecord (payload a)) =
        (parseUserInputQuestions (toPayloadRecord (payload a)) \<noteq> None)"
  shows "set (map approvalRequestId (derivePendingApprovals h as)) =
           set (openApprovals (derivePendingThreadRequestIds h as)) \<and>
         set (map inputRequestId (derivePendingUserInputs h as)) =
           set (openUserInputs (derivePendingThreadRequestIds h as))"
proof -
  let ?s = "sort_cmp (compareActivitiesByOrder h) as"
  have ord: "orderedActivities h as = ?s" using orderedActivities_sort orders_agree assms(1,2) by simp
  have "last_word opensApproval (closesApproval chatStale) r ?s =
      last_word opensApproval (closesApproval summaryStaleFailureDetail) r ?s" for r
    by (rule last_word_cong) (use stale in \<open>auto simp: closesApproval_def\<close>)
  moreover have "last_word (opensInput chatAsks) (closesInput chatStale) r ?s =
      last_word (opensInput hasStructuredUserInputQuestions) (closesInput summaryStaleFailureDetail) r ?s" for r
    by (rule last_word_cong) (use stale asks in \<open>auto simp: closesInput_def opensInput_def\<close>)
  ultimately show ?thesis
    unfolding chat_approval_ids chat_input_ids ord
    by (auto simp: derivePendingThreadRequestIds_def summary_approvals.fold_fresh summary_inputs.fold_fresh)
qed

theorem sidebar_and_chat_agree_witness:
  "set (map approvalRequestId (derivePendingApprovals unitHost [asked ''a'' 1])) =
     set (openApprovals (derivePendingThreadRequestIds unitHost [asked ''a'' 1])) \<and>
   set (map inputRequestId (derivePendingUserInputs unitHost [asked ''a'' 1])) =
     set (openUserInputs (derivePendingThreadRequestIds unitHost [asked ''a'' 1]))"
  by (rule sidebar_and_chat_agree [OF collation_unitHost]) (code_simp, code_simp, code_simp)

definition freeText :: "string \<Rightarrow> nat \<Rightarrow> activity" where
  "freeText i n = \<lparr>activityId = i, tone = None, kind = ''user-input.requested'', summary = None,
     payload = Some (JObj [(''requestId'', JStr ''r''), (''questions'', JArr [JObj
       [(''id'', JStr ''q''), (''header'', JStr ''h''), (''question'', JStr ''why''), (''options'', JArr [])]])]),
     activityTurnId = None, sequence = Some n, activityCreatedAt = ''t''\<rparr>"

text \<open>C19: Otherwise they part. When the answer to an approval carries no sequence number the sidebar
  sorts it last and counts the approval as answered, while the chat sorts it first and keeps asking;
  a question without options is put to the user in the chat and is not pending in the sidebar.\<close>

theorem sidebar_and_chat_part:
  assumes "int n < MAX_SAFE_INTEGER"
  shows "openApprovals (derivePendingThreadRequestIds h [asked i n, answered j None]) = [] \<and>
         map approvalRequestId (derivePendingApprovals h [asked i n, answered j None]) = [''r''] \<and>
         openUserInputs (derivePendingThreadRequestIds h [freeText i n]) = [] \<and>
         map inputRequestId (derivePendingUserInputs h [freeText i n]) = [''r'']"
proof (intro conjI)
  have "sort_cmp (compareActivitiesByOrder h) [asked i n, answered j None] = [asked i n, answered j None]"
    using assms by (simp add: sort_cmp_def to_sorted_def compareActivitiesByOrder_def asked_def
        answered_def cmp_or_def)
  then show "openApprovals (derivePendingThreadRequestIds h [asked i n, answered j None]) = []"
    by (simp add: derivePendingThreadRequestIds_def pendingRound_def asked_def answered_def Let_def
        string_prop_def record_prop_def toPayloadRecord_def approvalKind_def key_add_def key_delete_def)
  have "orderedActivities h [asked i n, answered j None] = [answered j None, asked i n]"
    by (simp add: orderedActivities_def sort_cmp_def to_sorted_def sessionCompareActivities_def
        asked_def answered_def)
  then show "map approvalRequestId (derivePendingApprovals h [asked i n, answered j None]) = [''r'']"
    by (simp add: derivePendingApprovals_def approvalRound_def asked_def answered_def Let_def sort_cmp_def
        to_sorted_def string_prop_def record_prop_def toPayloadRecord_def approvalKind_def
        rec_set_def rec_delete_def)
  show "openUserInputs (derivePendingThreadRequestIds h [freeText i n]) = []"
    by (simp add: derivePendingThreadRequestIds_def pendingRound_def freeText_def Let_def sort_cmp_def
        to_sorted_def string_prop_def record_prop_def toPayloadRecord_def
        hasStructuredUserInputQuestions_def structuredQuestion_def)
  show "map inputRequestId (derivePendingUserInputs h [freeText i n]) = [''r'']"
    by (simp add: derivePendingUserInputs_def orderedActivities_def userInputRound_def freeText_def
        Let_def sort_cmp_def to_sorted_def string_prop_def record_prop_def toPayloadRecord_def
        parseUserInputQuestions_def parseQuestion_def rec_set_def)
qed

theorem sidebar_and_chat_part_witness:
  "openApprovals (derivePendingThreadRequestIds unitHost [asked ''a'' 1, answered ''b'' None]) = [] \<and>
   map approvalRequestId (derivePendingApprovals unitHost [asked ''a'' 1, answered ''b'' None]) = [''r''] \<and>
   openUserInputs (derivePendingThreadRequestIds unitHost [freeText ''a'' 1]) = [] \<and>
   map inputRequestId (derivePendingUserInputs unitHost [freeText ''a'' 1]) = [''r'']"
  by (rule sidebar_and_chat_part) (simp add: MAX_SAFE_INTEGER_def)

end
