(* ===== verification/ActivityProperties.thy ===== *)
theory ActivityProperties
  imports SummaryProperties ThreadActivities
begin

text \<open>
  The activities of a thread: merging duplicates keeps one activity per id, in the order of first
  arrival; the cap keeps exactly the latest activities and the prompts that are still open, and
  capping twice is capping once.
\<close>

section \<open>Merging duplicates\<close>

lemma preferRicher_cases: "preferRicherActivity a b = a \<or> preferRicherActivity a b = b"
  by (simp add: preferRicherActivity_def Let_def)

lemma preferRicher_id:
  "activityId a = activityId b \<Longrightarrow> activityId (preferRicherActivity a b) = activityId a"
  using preferRicher_cases [of a b] by auto

lemma dedupeRound_ids:
  "map activityId (dedupeRound a result) =
     (if activityId a \<in> activityId ` set result then map activityId result
      else map activityId result @ [activityId a])"
proof (cases "find_index (\<lambda>b. activityId b = activityId a) result")
  case None
  then have "activityId a \<notin> activityId ` set result" by (auto simp: find_index_None_iff)
  with None show ?thesis by (simp add: dedupeRound_def)
next
  case (Some i)
  note i = find_index_SomeD [OF Some]
  then have "activityId a \<in> activityId ` set result" by (metis image_eqI nth_mem)
  with i Some show ?thesis
    by (simp add: dedupeRound_def map_update preferRicher_id list_update_same_conv)
qed

lemma dedupeRound_mem: "x \<in> set (dedupeRound a result) \<Longrightarrow> x = a \<or> x \<in> set result"
proof (cases "find_index (\<lambda>b. activityId b = activityId a) result")
  case (Some i)
  assume "x \<in> set (dedupeRound a result)"
  with Some have "x \<in> insert (preferRicherActivity (result ! i) a) (set result)"
    using set_update_subset_insert by (fastforce simp: dedupeRound_def)
  with find_index_nth_mem [OF Some] preferRicher_cases [of "result ! i" a] show ?thesis by auto
qed (simp add: dedupeRound_def)

lemma fold_dedupe_mem: "x \<in> set (fold dedupeRound as r) \<Longrightarrow> x \<in> set as \<or> x \<in> set r"
  by (induction as arbitrary: r) (auto dest: dedupeRound_mem)

lemma dedupe_mem: "x \<in> set (dedupeActivitiesById as) \<Longrightarrow> x \<in> set as"
  using fold_dedupe_mem [of x as "[]"] by (simp add: dedupeActivitiesById_def)

lemma fold_dedupe_ids:
  "distinct (map activityId r) \<Longrightarrow>
     map activityId (fold dedupeRound as r) =
       map activityId r @ filter (\<lambda>i. i \<notin> activityId ` set r) (js_dedup (map activityId as))"
proof (induction as arbitrary: r)
  case (Cons a as)
  have same: "activityId ` set (dedupeRound a r) = insert (activityId a) (activityId ` set r)"
    using arg_cong [OF dedupeRound_ids [of a r], of set] by (auto split: if_splits)
  show ?case
  proof (cases "activityId a \<in> activityId ` set r")
    case True
    with Cons.prems have "distinct (map activityId (dedupeRound a r))" by (simp add: dedupeRound_ids)
    from Cons.IH [OF this] True show ?thesis
      by (simp add: same dedupeRound_ids removeAll_filter_not_eq insert_absorb) 
        (metis (mono_tags, lifting) filter_cong)
  next
    case False
    with Cons.prems have "distinct (map activityId (dedupeRound a r))" by (simp add: dedupeRound_ids)
    from Cons.IH [OF this] False show ?thesis
      by (simp add: same dedupeRound_ids removeAll_filter_not_eq eq_commute)
  qed
qed simp

lemma dedupe_ids: "map activityId (dedupeActivitiesById as) = js_dedup (map activityId as)"
  using fold_dedupe_ids [of "[]" as] by (simp add: dedupeActivitiesById_def)

lemma distinct_dedupe [simp]: "distinct (map activityId (dedupeActivitiesById as))"
  by (simp add: dedupe_ids)

lemma fold_dedupe_fresh:
  "distinct (map activityId (r @ as)) \<Longrightarrow> fold dedupeRound as r = r @ as"
proof (induction as arbitrary: r)
  case (Cons a as)
  then have "find_index (\<lambda>b. activityId b = activityId a) r = None"
    by (auto simp: find_index_None_iff image_iff)
  then have "dedupeRound a r = r @ [a]" by (simp add: dedupeRound_def)
  with Cons.IH [of "r @ [a]"] Cons.prems show ?case by simp
qed simp

lemma dedupe_activities_id: "distinct (map activityId as) \<Longrightarrow> dedupeActivitiesById as = as"
  using fold_dedupe_fresh [of "[]" as] by (simp add: dedupeActivitiesById_def)

section \<open>The cap\<close>

definition opensPrompt :: "string \<Rightarrow> activity \<Rightarrow> bool" where
  "opensPrompt r a \<longleftrightarrow> activityRequestId a = Some r \<and> kind a \<in> set PENDING_INTERACTION_REQUEST_KINDS"

definition closesPrompt :: "string \<Rightarrow> activity \<Rightarrow> bool" where
  "closesPrompt r a \<longleftrightarrow> activityRequestId a = Some r \<and>
     (kind a = ''approval.resolved'' \<or> kind a = ''user-input.resolved'' \<or>
      (kind a = ''provider.approval.respond.failed'' \<or> kind a = ''provider.user-input.respond.failed'') \<and>
        isStalePendingRequestFailureDetail (record_prop (asActivityRecord (payload a)) ''detail''))"

interpretation store_prompts: request_log pendingInteractionRound "\<lambda>ks k. k \<in> set ks"
    opensPrompt closesPrompt
  by unfold_locales
    (auto simp: pendingInteractionRound_def opensPrompt_def closesPrompt_def
      PENDING_INTERACTION_REQUEST_KINDS_def split: option.splits)

lemma pendingIds_iff: "r \<in> set (pendingInteractionRequestIds as) \<longleftrightarrow> last_word opensPrompt closesPrompt r as"
  by (simp add: pendingInteractionRequestIds_def store_prompts.fold_fresh)

lemma slice_last_subset: "set (slice_last n xs) \<subseteq> set xs"
  by (simp add: slice_last_def set_drop_subset)

lemma slice_last_all: "length xs \<le> n \<Longrightarrow> slice_last n xs = xs"
  by (simp add: slice_last_def)

lemma length_slice_last [simp]: "length (slice_last n xs) = min n (length xs)"
  by (simp add: slice_last_def)

lemma cap_filter:
  assumes "distinct (map activityId as)"
  shows "capThreadActivities as =
    filter (\<lambda>a. a \<in> set (slice_last MAX_THREAD_ACTIVITIES as) \<or>
                isOpenPrompt (pendingInteractionRequestIds as) a) as"
proof (cases "length as \<le> MAX_THREAD_ACTIVITIES")
  case True
  then show ?thesis by (simp add: capThreadActivities_def slice_last_all filter_id_conv [THEN iffD2])
next
  case False
  have inj: "activityId a \<in> activityId ` S \<longleftrightarrow> a \<in> S" if "a \<in> set as" "S \<subseteq> set as" for a S
    using that distinct_key [OF assms, of a] by (auto simp: image_iff)
  let ?S = "set (slice_last MAX_THREAD_ACTIVITIES as)"
    and ?P = "{a \<in> set as. isOpenPrompt (pendingInteractionRequestIds as) a}"
  have "capThreadActivities as = filter (\<lambda>a. activityId a \<in> activityId ` ?S \<or> activityId a \<in> activityId ` ?P) as"
    using False by (simp add: capThreadActivities_def Let_def)
  also have "\<dots> = filter (\<lambda>a. a \<in> ?S \<or> a \<in> ?P) as"
  proof (rule filter_cong [OF refl])
    fix a assume a: "a \<in> set as"
    show "(activityId a \<in> activityId ` ?S \<or> activityId a \<in> activityId ` ?P) = (a \<in> ?S \<or> a \<in> ?P)"
      unfolding inj [OF a slice_last_subset] inj [OF a Collect_restrict [where X = "set as"]] ..
  qed
  finally show ?thesis by (simp cong: filter_cong)
qed

lemma length_filter_or: "length (filter (\<lambda>a. P a \<or> Q a) xs) \<le> length (filter P xs) + length (filter Q xs)"
  by (induction xs) auto

lemma length_filter_mem: "distinct xs \<Longrightarrow> length (filter (\<lambda>a. a \<in> S) xs) = card (S \<inter> set xs)"
  by (metis Collect_conj_eq Collect_mem_eq Int_commute distinct_card distinct_filter set_filter)

text \<open>C21: Of activities with distinct ids the cap keeps, in their order, exactly the latest 500 and the
  prompts (approvals and questions) whose request was asked for and not answered since; so at most
  500 and as many more as there are open prompts remain.\<close>

theorem cap_keeps_recent_and_open:
  assumes "distinct (map activityId as)"
  shows "capThreadActivities as =
      filter (\<lambda>a. a \<in> set (drop (length as - 500) as) \<or>
        kind a \<in> {''approval.requested'', ''user-input.requested''} \<and>
        (\<exists>r. activityRequestId a = Some r \<and> last_word opensPrompt closesPrompt r as)) as \<and>
    length (capThreadActivities as) \<le> 500 +
      length (filter (isOpenPrompt (pendingInteractionRequestIds as)) as)"
proof
  show "capThreadActivities as =
      filter (\<lambda>a. a \<in> set (drop (length as - 500) as) \<or>
        kind a \<in> {''approval.requested'', ''user-input.requested''} \<and>
        (\<exists>r. activityRequestId a = Some r \<and> last_word opensPrompt closesPrompt r as)) as"
    unfolding cap_filter [OF assms]
    by (rule filter_cong) (auto simp: slice_last_def MAX_THREAD_ACTIVITIES_def isOpenPrompt_def
        pendingIds_iff PENDING_INTERACTION_REQUEST_KINDS_def split: option.splits)
  have "length (filter (\<lambda>a. a \<in> set (slice_last MAX_THREAD_ACTIVITIES as)) as) \<le> 500"
  proof -
    have "card (set (slice_last MAX_THREAD_ACTIVITIES as) \<inter> set as) \<le> length (slice_last MAX_THREAD_ACTIVITIES as)"
      by (meson Int_lower1 card_length card_mono finite_set le_trans)
    with assms show ?thesis
      by (simp add: length_filter_mem distinct_map MAX_THREAD_ACTIVITIES_def)
  qed
  then show "length (capThreadActivities as) \<le> 500 +
      length (filter (isOpenPrompt (pendingInteractionRequestIds as)) as)"
    unfolding cap_filter [OF assms] by (rule le_trans [OF length_filter_or add_le_mono1])
qed

theorem cap_keeps_recent_and_open_witness:
  "capThreadActivities [asked ''a'' 1] =
      filter (\<lambda>a. a \<in> set (drop (length [asked ''a'' 1] - 500) [asked ''a'' 1]) \<or>
        kind a \<in> {''approval.requested'', ''user-input.requested''} \<and>
        (\<exists>r. activityRequestId a = Some r \<and> last_word opensPrompt closesPrompt r [asked ''a'' 1]))
      [asked ''a'' 1] \<and>
    length (capThreadActivities [asked ''a'' 1]) \<le> 500 +
      length (filter (isOpenPrompt (pendingInteractionRequestIds [asked ''a'' 1])) [asked ''a'' 1])"
  by (rule cap_keeps_recent_and_open) simp

lemma distinct_cap: "distinct (map activityId as) \<Longrightarrow> distinct (map activityId (capThreadActivities as))"
  by (simp add: cap_filter distinct_map_filter)

lemma distinct_normalizeActivities [simp]: "distinct (map activityId (normalizeActivities incoming previous))"
proof -
  let ?f = "\<lambda>a. case List.find (\<lambda>b. activityId b = activityId a) (dedupeActivitiesById (nullish previous [])) of
      None \<Rightarrow> a
    | Some existing \<Rightarrow>
        let preferred = preferRicherActivity existing a
        in if preferred = existing \<or> activitiesEqual existing preferred then existing else preferred"
  have "activityId (?f a) = activityId a" for a
    by (auto simp: Let_def preferRicher_id dest!: find_Some_mem split: option.splits)
  then have "map activityId (map ?f as) = map activityId as" for as by simp
  then have "distinct (map activityId (map ?f (dedupeActivitiesById incoming)))"
    by (metis distinct_dedupe)
  then show ?thesis unfolding normalizeActivities_def Let_def by (intro distinct_cap) (simp add: Let_def)
qed

section \<open>Capping twice\<close>

lemma cap_split:
  assumes "distinct (map activityId as)" "as = pre @ last500" "length last500 = min MAX_THREAD_ACTIVITIES (length as)"
  shows "capThreadActivities as = filter (isOpenPrompt (pendingInteractionRequestIds as)) pre @ last500"
proof -
  have s: "slice_last MAX_THREAD_ACTIVITIES as = last500"
    using assms(2,3) by (simp add: slice_last_def)
  have "set pre \<inter> set last500 = {}" using assms(1,2) by auto
  then have "filter (\<lambda>a. a \<in> set last500 \<or> isOpenPrompt (pendingInteractionRequestIds as) a) pre =
      filter (isOpenPrompt (pendingInteractionRequestIds as)) pre"
    by (intro filter_cong) auto
  moreover have "filter (\<lambda>a. a \<in> set last500 \<or> isOpenPrompt (pendingInteractionRequestIds as) a) last500 = last500"
    by (simp add: filter_id_conv)
  moreover have "filter P as = filter P pre @ filter P last500" for P by (simp add: assms(2))
  ultimately show ?thesis unfolding cap_filter [OF assms(1)] s by simp
qed

lemma open_prompt_iff:
  "isOpenPrompt (pendingInteractionRequestIds as) a \<longleftrightarrow>
     (\<exists>r. opensPrompt r a \<and> last_word opensPrompt closesPrompt r as)"
  by (auto simp: isOpenPrompt_def opensPrompt_def pendingIds_iff split: option.splits)

lemma cap_pending:
  assumes "distinct (map activityId as)"
  shows "last_word opensPrompt closesPrompt r (capThreadActivities as) \<longleftrightarrow>
    last_word opensPrompt closesPrompt r as"
proof
  let ?keep = "\<lambda>a. a \<in> set (slice_last MAX_THREAD_ACTIVITIES as) \<or>
      isOpenPrompt (pendingInteractionRequestIds as) a"
  assume l: "last_word opensPrompt closesPrompt r as"
  then obtain xs a ys where as: "as = xs @ a # ys" "opensPrompt r a" "\<forall>b\<in>set ys. \<not> closesPrompt r b"
    by (auto simp: last_word_def)
  with l have keep: "?keep a" by (auto simp: open_prompt_iff)
  have "filter ?keep (xs @ a # ys) = filter ?keep xs @ a # filter ?keep ys" using keep by simp
  then have "capThreadActivities as = filter ?keep xs @ a # filter ?keep ys"
    unfolding cap_filter [OF assms] as(1) [symmetric] .
  with as show "last_word opensPrompt closesPrompt r (capThreadActivities as)"
    unfolding last_word_def by (intro exI [of _ "filter ?keep xs"] exI [of _ a] exI [of _ "filter ?keep ys"]) auto
next
  define pre where "pre = take (length as - MAX_THREAD_ACTIVITIES) as"
  define L where "L = drop (length as - MAX_THREAD_ACTIVITIES) as"
  have as: "as = pre @ L" by (simp add: pre_def L_def)
  have cap: "capThreadActivities as = filter (isOpenPrompt (pendingInteractionRequestIds as)) pre @ L"
    by (rule cap_split [OF assms as]) (simp add: L_def)
  assume "last_word opensPrompt closesPrompt r (capThreadActivities as)"
  then obtain xs a ys where s: "capThreadActivities as = xs @ a # ys" "opensPrompt r a"
    "\<forall>b\<in>set ys. \<not> closesPrompt r b" by (auto simp: last_word_def)
  show "last_word opensPrompt closesPrompt r as"
  proof (cases "a \<in> set pre \<and> isOpenPrompt (pendingInteractionRequestIds as) a")
    case True
    with s(2) show ?thesis by (auto simp: open_prompt_iff opensPrompt_def)
  next
    case False
    let ?F = "filter (isOpenPrompt (pendingInteractionRequestIds as)) pre"
    have "?F @ L = xs @ a # ys" using s(1) cap by simp
    moreover have "a \<notin> set ?F" using False by simp
    ultimately obtain us where "L = us @ a # ys"
      by (auto simp del: set_filter simp: append_eq_append_conv2 append_eq_Cons_conv)
    with as s show ?thesis by (auto simp: last_word_def intro!: exI [of _ "pre @ us"])
  qed
qed

lemma cap_idem:
  assumes "distinct (map activityId as)"
  shows "capThreadActivities (capThreadActivities as) = capThreadActivities as"
proof -
  define pre where "pre = take (length as - MAX_THREAD_ACTIVITIES) as"
  define L where "L = drop (length as - MAX_THREAD_ACTIVITIES) as"
  let ?F = "filter (isOpenPrompt (pendingInteractionRequestIds as)) pre"
  have cap: "capThreadActivities as = ?F @ L"
    by (rule cap_split [OF assms]) (simp_all add: pre_def L_def)
  have same: "isOpenPrompt (pendingInteractionRequestIds (capThreadActivities as)) =
      isOpenPrompt (pendingInteractionRequestIds as)"
    by (rule ext) (simp add: open_prompt_iff cap_pending [OF assms])
  have "capThreadActivities (capThreadActivities as) =
      filter (isOpenPrompt (pendingInteractionRequestIds (capThreadActivities as))) ?F @ L"
  proof (rule cap_split [OF distinct_cap [OF assms] cap])
    show "length L = min MAX_THREAD_ACTIVITIES (length (capThreadActivities as))"
    proof (cases "length as \<le> MAX_THREAD_ACTIVITIES")
      case True
      then show ?thesis unfolding cap by (simp add: L_def pre_def)
    next
      case False
      then have "length L = MAX_THREAD_ACTIVITIES" by (simp add: L_def)
      then show ?thesis unfolding cap by simp
    qed
  qed
  then have "capThreadActivities (capThreadActivities as) =
      filter (isOpenPrompt (pendingInteractionRequestIds as)) ?F @ L" unfolding same .
  then show ?thesis by (simp add: cap)
qed

end
