(* ===== verification/ModelSlug.thy ===== *)
theory ModelSlug
  imports ThreadProjection
begin

text \<open>
  Model names: \<open>normalizeModelSlug\<close> of \<open>frontend/src/shared/model.ts\<close> over the aliases of
  \<open>frontend/src/contracts/tier3/model.ts\<close>, \<open>normalizeModelSelection\<close> of the client store, and the guard
  of \<open>frontend/src/shared/git.ts\<close> that keeps a thread's branch when a temporary one shows up.
\<close>

section \<open>Aliases\<close>

definition codex_aliases :: "(string \<times> string) list" where
  "codex_aliases =
     [(''5.5'', ''gpt-5.5''),
      (''5.4'', ''gpt-5.4''),
      (''5.3'', ''gpt-5.3-codex''),
      (''gpt-5.3'', ''gpt-5.3-codex''),
      (''5.3-spark'', ''gpt-5.3-codex-spark''),
      (''gpt-5.3-spark'', ''gpt-5.3-codex-spark'')]"

definition claude_aliases :: "(string \<times> string) list" where
  "claude_aliases =
     [(''fable'', ''claude-fable-5''),
      (''fable-5'', ''claude-fable-5''),
      (''opus'', ''claude-opus-4-8''),
      (''opus-4.8'', ''claude-opus-4-8''),
      (''claude-opus-4.8'', ''claude-opus-4-8''),
      (''claude-opus-4-8-20260528'', ''claude-opus-4-8''),
      (''opus-4.7'', ''claude-opus-4-7''),
      (''claude-opus-4.7'', ''claude-opus-4-7''),
      (''claude-opus-4-7-20260416'', ''claude-opus-4-7''),
      (''opus-4.6'', ''claude-opus-4-6''),
      (''claude-opus-4.6'', ''claude-opus-4-6''),
      (''claude-opus-4-6-20251117'', ''claude-opus-4-6''),
      (''opus-4.5'', ''claude-opus-4-5''),
      (''claude-opus-4.5'', ''claude-opus-4-5''),
      (''claude-opus-4-5-20250120'', ''claude-opus-4-5''),
      (''sonnet'', ''claude-sonnet-4-6''),
      (''sonnet-4.6'', ''claude-sonnet-4-6''),
      (''claude-sonnet-4.6'', ''claude-sonnet-4-6''),
      (''claude-sonnet-4-6-20251117'', ''claude-sonnet-4-6''),
      (''haiku'', ''claude-haiku-4-5''),
      (''haiku-4.5'', ''claude-haiku-4-5''),
      (''claude-haiku-4.5'', ''claude-haiku-4-5''),
      (''claude-haiku-4-5-20251001'', ''claude-haiku-4-5'')]"

definition cursor_aliases :: "(string \<times> string) list" where
  "cursor_aliases =
     [(''auto'', ''auto''),
      (''composer'', ''composer-2''),
      (''composer-2'', ''composer-2''),
      (''composer-1.5'', ''composer-1.5''),
      (''composer-1'', ''composer-1.5''),
      (''opus-4.6'', ''claude-opus-4-6''),
      (''opus-4.6-thinking'', ''claude-opus-4-6''),
      (''gpt-5.3'', ''gpt-5.3-codex''),
      (''codex-5.3'', ''gpt-5.3-codex''),
      (''gemini-3'', ''gemini-3-pro'')]"

definition gemini_aliases :: "(string \<times> string) list" where
  "gemini_aliases =
     [(''auto'', ''auto-gemini-3''),
      (''auto-gemini-3'', ''auto-gemini-3''),
      (''auto-gemini-2.5'', ''auto-gemini-2.5''),
      (''gemini-3-pro-preview'', ''gemini-3.1-pro-preview''),
      (''gemini-3.1-pro-preview'', ''gemini-3.1-pro-preview''),
      (''gemini-3-flash-preview'', ''gemini-3-flash-preview''),
      (''gemini-3.1-flash-lite-preview'', ''gemini-3.1-flash-lite-preview''),
      (''gemini-2.5-pro'', ''gemini-2.5-pro''),
      (''gemini-2.5-flash'', ''gemini-2.5-flash''),
      (''gemini-2.5-flash-lite'', ''gemini-2.5-flash-lite'')]"

definition grok_aliases :: "(string \<times> string) list" where
  "grok_aliases =
     [(''grok'', ''grok-build-0.1''),
      (''build'', ''grok-build-0.1''),
      (''grok-build-0.1'', ''grok-build-0.1''),
      (''grok-build'', ''grok-build''),
      (''4.3'', ''grok-build''),
      (''grok-4'', ''grok-build''),
      (''grok-4.3'', ''grok-build''),
      (''grok-latest'', ''grok-build''),
      (''grok-code-fast'', ''grok-build-0.1''),
      (''grok-code-fast-1'', ''grok-build-0.1''),
      (''grok-code-fast-1-0825'', ''grok-build-0.1''),
      (''code-fast'', ''grok-build-0.1'')]"

definition MODEL_SLUG_ALIASES_BY_PROVIDER :: "(string \<times> (string \<times> string) list) list" where
  "MODEL_SLUG_ALIASES_BY_PROVIDER =
     [(''codex'', codex_aliases),
      (''claudeAgent'', claude_aliases),
      (''claude'', claude_aliases),
      (''cursor'', cursor_aliases),
      (''gemini'', gemini_aliases),
      (''grok'', grok_aliases),
      (''kilo'', []),
      (''opencode'', []),
      (''pi'', [])]"

section \<open>Slugs\<close>

text \<open>
  \<open>s.replace(/\[[^\]]+\]$/u, "")\<close>: the leftmost bracket that is closed by the last character with no
  closing bracket in between.
\<close>

fun stripTrailingBracket :: "string \<Rightarrow> string" where
  "stripTrailingBracket [] = []"
| "stripTrailingBracket (c # s) =
     (if c = CHR ''['' \<and> length s \<ge> 2 \<and> last s = CHR '']'' \<and> CHR '']'' \<notin> set (butlast s) then []
      else c # stripTrailingBracket s)"

definition normalizeModelSlug :: "string \<Rightarrow> string \<Rightarrow> string option" where
  "normalizeModelSlug name prov =
     (let trimmedName = js_trim name
      in if trimmedName = [] then None
         else let providerScopedModel =
                    (if prov = ''claudeAgent'' then stripTrailingBracket trimmedName else trimmedName);
                  aliases = map_of MODEL_SLUG_ALIASES_BY_PROVIDER prov
              in case Option.bind aliases (\<lambda>as. map_of as providerScopedModel) of
                   Some slug \<Rightarrow> Some slug
                 | None \<Rightarrow> Some providerScopedModel)"

definition normalizeModelSelection :: "model_selection \<Rightarrow> model_selection option \<Rightarrow> model_selection" where
  "normalizeModelSelection selection previous =
     (let normalizedModel = nullish (normalizeModelSlug (model selection) (provider selection)) (model selection);
          next = selection\<lparr>model := normalizedModel\<rparr>
      in case previous of
           None \<Rightarrow> next
         | Some p \<Rightarrow>
             if provider p = provider next \<and> model p = model next \<and>
                deepEqualJson (modelOptions p) (modelOptions next)
             then p else next)"

section \<open>Branches\<close>

definition WORKTREE_BRANCH_PREFIXES :: "string list" where
  "WORKTREE_BRANCH_PREFIXES = [''mcode'', ''dpcode'', ''t3code'']"

definition is_hex :: "char \<Rightarrow> bool" where
  "is_hex c \<longleftrightarrow> (let n = of_char c :: nat in 48 \<le> n \<and> n \<le> 57 \<or> 97 \<le> n \<and> n \<le> 102)"

definition isTemporaryWorktreeBranch :: "string \<Rightarrow> bool" where
  "isTemporaryWorktreeBranch name \<longleftrightarrow>
     (let b = js_lower (js_trim name)
      in list_ex (\<lambda>p. str_starts b (p @ ''/'') \<and> length b = length p + 9 \<and>
                       list_all is_hex (drop (length p + 1) b)) WORKTREE_BRANCH_PREFIXES)"

definition resolveThreadBranchRegressionGuard :: "string option \<Rightarrow> string option \<Rightarrow> string option" where
  "resolveThreadBranchRegressionGuard currentBranch nextBranch =
     (case (currentBranch, nextBranch) of
        (Some current, Some next) \<Rightarrow>
          if \<not> isTemporaryWorktreeBranch current \<and> isTemporaryWorktreeBranch next
          then currentBranch else nextBranch
      | _ \<Rightarrow> nextBranch)"

end
