(* ===== verification/ThreadEvents.thy ===== *)
theory ThreadEvents
  imports ModelSlug
begin

text \<open>
  What each server event of a thread does to the thread (\<open>applyOrchestrationEvent\<close> of
  \<open>frontend/src/store.ts\<close>). An updater returns \<open>None\<close> where the code returns the thread object it
  was given; the store then leaves everything alone.
\<close>

section \<open>Messages\<close>

definition applyThreadMessageSentEvent :: "host \<Rightarrow> read_model_message \<Rightarrow> thread \<Rightarrow> thread option" where
  "applyThreadMessageSentEvent h p t =
     (let incomingMessage = normalizeChatMessage h
            (p\<lparr>wireAttachments := Some (nullish (wireAttachments p) [])\<rparr>)
            (List.find (\<lambda>m. messageId m = wireId p) (messages t));
          merged = (case find_index (\<lambda>m. messageId m = wireId p) (messages t) of
             Some existingIndex \<Rightarrow>
               map_option (\<lambda>m. (messages t)[existingIndex := m])
                 (mergeStreamingMessage (messages t ! existingIndex) incomingMessage)
           | None \<Rightarrow> Some (slice_last MAX_THREAD_MESSAGES (messages t @ [incomingMessage])));
          newUpdatedAt =
            (case truthy_str (updatedAt t) of
               Some u \<Rightarrow> if str_gt u (wireUpdatedAt p) then u else wireUpdatedAt p
             | None \<Rightarrow> wireUpdatedAt p)
      in case (wireRole p, wireTurnId p) of
           (Assistant, Some turn) \<Rightarrow>
             Some (t\<lparr>messages := nullish merged (messages t),
               turnDiffSummaries :=
                 rebindTurnDiffSummariesForAssistantMessage (turnDiffSummaries t) turn (wireId p),
               latestTurn :=
                 (if latestTurn t = None \<or> turn_is (latestTurn t) turn
                  then Some (buildLatestTurn (latestTurn t) turn
                    (if wireStreaming p then TurnRunning
                     else case latestTurn t of
                       None \<Rightarrow> TurnCompleted
                     | Some lt \<Rightarrow>
                         if latestTurnState lt = TurnInterrupted then TurnInterrupted
                         else if latestTurnState lt = TurnError then TurnError
                         else TurnCompleted)
                    (case latestTurn t of Some lt \<Rightarrow> requestedAt lt | None \<Rightarrow> wireCreatedAt p)
                    (Some (nullish (Option.bind (latestTurn t) startedAt) (wireCreatedAt p)))
                    (if wireStreaming p then Option.bind (latestTurn t) completedAt
                     else Some (wireUpdatedAt p))
                    (Some (wireId p))
                    (pendingSourceProposedPlan t))
                  else latestTurn t),
               updatedAt := Some newUpdatedAt\<rparr>)
         | _ \<Rightarrow>
             if merged = None \<and> updatedAt t = Some newUpdatedAt then None
             else Some (t\<lparr>messages := nullish merged (messages t), updatedAt := Some newUpdatedAt\<rparr>))"

section \<open>Revert and rollback\<close>

text \<open>
  Of the messages with the role that are not retained and name no other turn, the oldest ones that
  make up for the missing count.
\<close>

definition fallbackIds ::
    "host \<Rightarrow> message_role \<Rightarrow> chat_message list \<Rightarrow> string list \<Rightarrow> string list \<Rightarrow> nat \<Rightarrow> string list" where
  "fallbackIds h r ms retainedTurnIds retainedIds turnCount =
     (let retainedCount = length (filter (\<lambda>m. role m = r \<and> messageId m \<in> set retainedIds) ms);
          missingCount = turnCount - retainedCount
      in if missingCount > 0
         then map messageId (take missingCount (sort_cmp
                (\<lambda>left right. cmp_or (localeCompare h (messageCreatedAt left) (messageCreatedAt right))
                  (localeCompare h (messageId left) (messageId right)))
                (filter (\<lambda>m. role m = r \<and> messageId m \<notin> set retainedIds \<and>
                   (case messageTurnId m of Some (Some turn) \<Rightarrow> turn \<in> set retainedTurnIds | _ \<Rightarrow> True)) ms)))
         else [])"

definition directlyRetained :: "string list \<Rightarrow> chat_message \<Rightarrow> bool" where
  "directlyRetained retainedTurnIds m \<longleftrightarrow>
     role m = System \<or>
     (case messageTurnId m of Some (Some turn) \<Rightarrow> turn \<in> set retainedTurnIds | _ \<Rightarrow> False)"

definition retainThreadMessagesAfterRevert ::
    "host \<Rightarrow> chat_message list \<Rightarrow> string list \<Rightarrow> nat \<Rightarrow> chat_message list" where
  "retainThreadMessagesAfterRevert h ms retainedTurnIds turnCount =
     (let retained0 = map messageId (filter (directlyRetained retainedTurnIds) ms);
          retained1 = retained0 @ fallbackIds h User ms retainedTurnIds retained0 turnCount;
          retained2 = retained1 @ fallbackIds h Assistant ms retainedTurnIds retained1 turnCount
      in filter (\<lambda>m. messageId m \<in> set retained2) ms)"

definition retainThreadActivitiesAfterRevert :: "activity list \<Rightarrow> string list \<Rightarrow> activity list" where
  "retainThreadActivitiesAfterRevert as retainedTurnIds =
     filter (\<lambda>a. case activityTurnId a of None \<Rightarrow> True | Some turn \<Rightarrow> turn \<in> set retainedTurnIds) as"

definition retainThreadProposedPlansAfterRevert :: "proposed_plan list \<Rightarrow> string list \<Rightarrow> proposed_plan list" where
  "retainThreadProposedPlansAfterRevert plans retainedTurnIds =
     filter (\<lambda>p. case planTurnId p of None \<Rightarrow> True | Some turn \<Rightarrow> turn \<in> set retainedTurnIds) plans"

definition rollbackThreadMessagesFromMessage ::
    "chat_message list \<Rightarrow> string \<Rightarrow> chat_message list \<times> string list" where
  "rollbackThreadMessagesFromMessage ms mid =
     (case find_index (\<lambda>m. messageId m = mid) ms of
        None \<Rightarrow> (ms, [])
      | Some targetIndex \<Rightarrow>
          (take targetIndex ms,
           js_dedup (concat (map (\<lambda>m. case messageTurnId m of Some (Some turn) \<Rightarrow> [turn] | _ \<Rightarrow> [])
             (drop targetIndex ms)))))"

text \<open>The latest turn after the diffs were cut back: rebuilt from the last checkpoint left.\<close>

definition checkpointTurn :: "turn_diff list \<Rightarrow> latest_turn option" where
  "checkpointTurn keptDiffs =
     map_option (\<lambda>d. \<lparr>latestTurnId = diffTurnId d,
         latestTurnState = checkpointStatusToLatestTurnState (diffStatus d),
         requestedAt = diffCompletedAt d, startedAt = Some (diffCompletedAt d),
         completedAt = Some (diffCompletedAt d), assistantMessageId = diffAssistantMessageId d,
         sourceProposedPlan = None\<rparr>)
       (last_elem keptDiffs)"

definition sortByTurnCount :: "turn_diff list \<Rightarrow> turn_diff list" where
  "sortByTurnCount keptDiffs = sort_cmp (\<lambda>left right. countOrMax left - countOrMax right) keptDiffs"

definition revertThread :: "host \<Rightarrow> nat \<Rightarrow> string \<Rightarrow> thread \<Rightarrow> thread option" where
  "revertThread h turnCount occurredAt t =
     (let keptDiffs = sortByTurnCount (filter (\<lambda>d.
            case checkpointTurnCount d of None \<Rightarrow> False | Some n \<Rightarrow> n \<le> turnCount) (turnDiffSummaries t));
          retainedTurnIds = map diffTurnId keptDiffs
      in Some (t\<lparr>turnDiffSummaries := keptDiffs,
           messages := slice_last MAX_THREAD_MESSAGES
             (retainThreadMessagesAfterRevert h (messages t) retainedTurnIds turnCount),
           proposedPlans := retainThreadProposedPlansAfterRevert (proposedPlans t) retainedTurnIds,
           activities := retainThreadActivitiesAfterRevert (activities t) retainedTurnIds,
           pendingSourceProposedPlan := None,
           latestTurn := checkpointTurn keptDiffs,
           updatedAt := bumpUpdatedAt t occurredAt\<rparr>))"

definition rollbackThread :: "string \<Rightarrow> string list \<Rightarrow> string \<Rightarrow> thread \<Rightarrow> thread option" where
  "rollbackThread mid moreTurnIds occurredAt t =
     (let rollback = rollbackThreadMessagesFromMessage (messages t) mid;
          removedTurnIds = js_dedup (snd rollback @ moreTurnIds)
      in if length (fst rollback) = length (messages t) \<and> removedTurnIds = [] then None
         else let keptDiffs = sortByTurnCount
                    (filter (\<lambda>d. diffTurnId d \<notin> set removedTurnIds) (turnDiffSummaries t))
              in Some (t\<lparr>turnDiffSummaries := keptDiffs,
                   messages := slice_last MAX_THREAD_MESSAGES (fst rollback),
                   proposedPlans := filter (\<lambda>p. case planTurnId p of None \<Rightarrow> True
                     | Some turn \<Rightarrow> turn \<notin> set removedTurnIds) (proposedPlans t),
                   activities := filter (\<lambda>a. case activityTurnId a of None \<Rightarrow> True
                     | Some turn \<Rightarrow> turn \<notin> set removedTurnIds) (activities t),
                   pendingSourceProposedPlan := None,
                   latestTurn := checkpointTurn keptDiffs,
                   updatedAt := bumpUpdatedAt t occurredAt\<rparr>))"

section \<open>Session and turn\<close>

definition setThreadSession :: "wire_session \<Rightarrow> string \<Rightarrow> thread \<Rightarrow> thread option" where
  "setThreadSession s occurredAt t =
     (let newSession = normalizeThreadSession (Some s) (session t);
          newError = normalizeThreadErrorMessage (wireLastError s);
          newLatestTurn = reconcileLatestTurnFromSession t s;
          rebuilt = (wireStatus s = StatusRunning \<and> wireActiveTurnId s \<noteq> None \<or>
            wireStatus s = StatusError \<and>
            (case latestTurn t of None \<Rightarrow> False | Some lt \<Rightarrow> latestTurnState lt = TurnRunning))
      in if newSession = session t \<and> newError = threadError t \<and> \<not> rebuilt then None
         else Some (t\<lparr>session := newSession, threadError := newError, latestTurn := newLatestTurn,
                updatedAt := bumpUpdatedAt t occurredAt\<rparr>))"

definition stopThreadSession :: "string \<Rightarrow> string \<Rightarrow> thread \<Rightarrow> thread option" where
  "stopThreadSession at' occurredAt t =
     (case session t of
        None \<Rightarrow> None
      | Some s \<Rightarrow>
          Some (t\<lparr>
            session := Some (s\<lparr>sessionPhase := PhaseClosed, orchestrationStatus := StatusStopped,
              activeTurnId := None, sessionUpdatedAt := at'\<rparr>),
            latestTurn :=
              (case latestTurn t of
                 None \<Rightarrow> None
               | Some lt \<Rightarrow>
                   if latestTurnState lt = TurnRunning \<and> completedAt lt = None
                   then Some (buildLatestTurn (Some lt) (latestTurnId lt) TurnInterrupted
                     (requestedAt lt) (Some (nullish (startedAt lt) at')) (Some at')
                     (assistantMessageId lt) None)
                   else Some lt),
            updatedAt := bumpUpdatedAt t occurredAt\<rparr>))"

text \<open>
  A source plan carried by an event is never the object the thread holds, so only two absent ones
  compare as the same.
\<close>

definition startThreadTurn ::
    "model_selection option \<Rightarrow> string \<Rightarrow> string \<Rightarrow> source_plan option \<Rightarrow> string \<Rightarrow> thread \<Rightarrow> thread option" where
  "startThreadTurn selection runtime interaction plan at' t =
     (let newSelection = (case selection of
            Some m \<Rightarrow> normalizeModelSelection m (Some (modelSelection t))
          | None \<Rightarrow> modelSelection t)
      in if newSelection = modelSelection t \<and> runtimeMode t = runtime \<and>
            interactionMode t = interaction \<and> pendingSourceProposedPlan t = None \<and> plan = None \<and>
            \<not> str_gt at' (nullish (updatedAt t) (createdAt t))
         then None
         else Some (t\<lparr>modelSelection := newSelection, runtimeMode := runtime,
                interactionMode := interaction, pendingSourceProposedPlan := plan,
                updatedAt := bumpUpdatedAt t at'\<rparr>))"

section \<open>Answers to requests\<close>

definition summaryMessages :: "thread \<Rightarrow> (message_role \<times> string) list" where
  "summaryMessages t = map (\<lambda>m. (role m, messageCreatedAt m)) (messages t)"

definition turn_id :: "thread \<Rightarrow> string option" where
  "turn_id t = map_option latestTurnId (latestTurn t)"

definition threadMetadata :: "host \<Rightarrow> thread \<Rightarrow> activity list \<Rightarrow> summary_metadata" where
  "threadMetadata h t as =
     deriveThreadSummaryMetadata h (summaryMessages t) as (proposedPlans t) (turn_id t)"

definition syntheticUserInputResolved :: "string \<Rightarrow> nat \<Rightarrow> string \<Rightarrow> activity" where
  "syntheticUserInputResolved requestId seq at' =
     \<lparr>activityId = ''synthetic-user-input-resolved:'' @ requestId @ '':'' @ nat_str seq,
      tone = Some ''info'', kind = ''user-input.resolved'', summary = Some ''User input submitted'',
      payload = Some (JObj [(''requestId'', JStr requestId)]), activityTurnId = None,
      sequence = Some seq, activityCreatedAt = at'\<rparr>"

text \<open>The activity the summary is computed with has no sequence number, tone or summary text.\<close>

definition resolveThreadSummaryAfterUserInputResponseRequested ::
    "host \<Rightarrow> string \<Rightarrow> nat \<Rightarrow> string \<Rightarrow> thread \<Rightarrow> summary_metadata" where
  "resolveThreadSummaryAfterUserInputResponseRequested h requestId seq at' t =
     threadMetadata h t (activities t @
       [(syntheticUserInputResolved requestId seq at')\<lparr>sequence := None, tone := None, summary := None\<rparr>])"

definition resolveThreadSummaryAfterApprovalResponseRequested ::
    "host \<Rightarrow> string \<Rightarrow> json option \<Rightarrow> nat \<Rightarrow> string \<Rightarrow> thread \<Rightarrow> summary_metadata" where
  "resolveThreadSummaryAfterApprovalResponseRequested h requestId decision seq at' t =
     threadMetadata h t (activities t @
       [\<lparr>activityId = ''synthetic-approval-resolved:'' @ requestId @ '':'' @ nat_str seq,
         tone = None, kind = ''approval.resolved'', summary = None,
         payload = Some (JObj ((''requestId'', JStr requestId) #
           (case decision of Some d \<Rightarrow> [(''decision'', d)] | None \<Rightarrow> []))),
         activityTurnId = None, sequence = Some seq, activityCreatedAt = at'\<rparr>])"

definition userInputResponse :: "host \<Rightarrow> string \<Rightarrow> nat \<Rightarrow> string \<Rightarrow> thread \<Rightarrow> thread option" where
  "userInputResponse h requestId seq at' t =
     (let synthetic = syntheticUserInputResolved requestId seq at';
          hasResolvedActivity = list_ex (\<lambda>a. activityId a = activityId synthetic) (activities t)
      in Some (t\<lparr>activities := (if hasResolvedActivity then activities t else activities t @ [synthetic]),
           hasPendingUserInput := Some (metaHasPendingUserInput
             (resolveThreadSummaryAfterUserInputResponseRequested h requestId seq at' t)),
           updatedAt := bumpUpdatedAt t at'\<rparr>))"

definition approvalResponse :: "host \<Rightarrow> string \<Rightarrow> json option \<Rightarrow> nat \<Rightarrow> string \<Rightarrow> thread \<Rightarrow> thread option" where
  "approvalResponse h requestId decision seq at' t =
     Some (t\<lparr>hasPendingApprovals := Some (metaHasPendingApprovals
         (resolveThreadSummaryAfterApprovalResponseRequested h requestId decision seq at' t)),
       updatedAt := bumpUpdatedAt t at'\<rparr>)"

section \<open>Activities, plans, annotations\<close>

definition appendActivity :: "activity \<Rightarrow> thread \<Rightarrow> thread option" where
  "appendActivity a t =
     (let nextActivities = normalizeActivities (activities t @ [a]) (Some (activities t))
      in if nextActivities = activities t then None
         else Some (t\<lparr>activities := nextActivities, updatedAt := bumpUpdatedAt t (activityCreatedAt a)\<rparr>))"

definition upsertPlan :: "proposed_plan \<Rightarrow> thread \<Rightarrow> thread option" where
  "upsertPlan p t =
     (let plans = upsertProposedPlan p (proposedPlans t)
      in if plans = proposedPlans t then None
         else Some (t\<lparr>proposedPlans := plans, updatedAt := bumpUpdatedAt t (planUpdatedAt p)\<rparr>))"

definition updatePins :: "(pinned_message list option \<Rightarrow> pinned_message list) \<Rightarrow> string \<Rightarrow> thread \<Rightarrow> thread option" where
  "updatePins f at' t =
     (let pins = Some (f (pinnedMessages t));
          newUpdatedAt = Some (resolveEventUpdatedAt t at')
      in if pinnedMessages t = pins \<and> updatedAt t = newUpdatedAt then None
         else Some (t\<lparr>pinnedMessages := pins, updatedAt := newUpdatedAt\<rparr>))"

definition updateMarkers :: "(thread_marker list option \<Rightarrow> thread_marker list) \<Rightarrow> string \<Rightarrow> thread \<Rightarrow> thread option" where
  "updateMarkers f at' t =
     (let markers = Some (f (threadMarkers t));
          newUpdatedAt = Some (resolveEventUpdatedAt t at')
      in if threadMarkers t = markers \<and> updatedAt t = newUpdatedAt then None
         else Some (t\<lparr>threadMarkers := markers, updatedAt := newUpdatedAt\<rparr>))"

end
