(* ===== verification/ClientStore.thy ===== *)
theory ClientStore
  imports ThreadEvents SessionLogic
begin

text \<open>
  The client store of \<open>frontend/src/store.ts\<close> with \<open>frontend/src/threadDerivation.ts\<close>: threads are kept
  in normalized slices (shell, session, turn state, and per thread the ids and the values of its
  messages, activities, plans and diffs), next to an array of whole threads and the summaries of the
  sidebar. Server events are applied to the thread rebuilt from the slices and written back. The
  caches of \<open>threadDerivation.ts\<close> only keep object identities and are left out; the projects of the
  store are not part of this model. A dictionary that may be absent is read as an empty one.
\<close>

section \<open>State\<close>

record turn_slice =
  sliceLatestTurn :: "latest_turn option"
  slicePendingPlan :: "source_plan option"

record sidebar_summary =
  sideId :: string
  sideProjectId :: string
  sideTitle :: string
  sideModelSelection :: model_selection
  sideInteractionMode :: string
  sideEnvMode :: "string option"
  sideBranch :: "string option"
  sideWorktreePath :: "string option"
  sideSession :: "thread_session option"
  sideCreatedAt :: string
  sideArchivedAt :: "string option"
  sideUpdatedAt :: "string option"
  sideIsPinned :: bool
  sideLatestTurn :: "latest_turn option"
  sideLastVisitedAt :: "string option"
  sideParentThreadId :: "string option"
  sideSubagentAgentId :: "string option"
  sideSubagentNickname :: "string option"
  sideSubagentRole :: "string option"
  sideLatestUserMessageAt :: "string option"
  sideHasPendingApprovals :: bool
  sideHasPendingUserInput :: bool
  sideHasActionableProposedPlan :: bool
  sideHasLiveTailWork :: bool
  sideLatestLiveActivity :: "(string \<times> string) option"
  sideForkSourceThreadId :: "string option"
  sideSidechatSourceThreadId :: "string option"
  sideLastKnownPr :: "json option"
  sideHandoff :: "json option"

record app_state =
  appThreads :: "thread list"
  sidebarSummaries :: "sidebar_summary js_record"
  appThreadIds :: "string list"
  threadShellById :: "thread_shell js_record"
  threadSessionById :: "thread_session option js_record"
  threadTurnStateById :: "turn_slice js_record"
  messageIdsByThreadId :: "string list js_record"
  messageByThreadId :: "chat_message js_record js_record"
  activityIdsByThreadId :: "string list js_record"
  activityByThreadId :: "activity js_record js_record"
  proposedPlanIdsByThreadId :: "string list js_record"
  proposedPlanByThreadId :: "proposed_plan js_record js_record"
  turnDiffIdsByThreadId :: "string list js_record"
  turnDiffSummaryByThreadId :: "turn_diff js_record js_record"
  deletedThreadIdsById :: "string list"

definition initialAppState :: app_state where
  "initialAppState = \<lparr>appThreads = [], sidebarSummaries = [], appThreadIds = [],
     threadShellById = [], threadSessionById = [], threadTurnStateById = [],
     messageIdsByThreadId = [], messageByThreadId = [], activityIdsByThreadId = [],
     activityByThreadId = [], proposedPlanIdsByThreadId = [], proposedPlanByThreadId = [],
     turnDiffIdsByThreadId = [], turnDiffSummaryByThreadId = [], deletedThreadIdsById = []\<rparr>"

section \<open>Reading a thread\<close>

definition collectByIds :: "string list option \<Rightarrow> 'v js_record option \<Rightarrow> 'v list" where
  "collectByIds ids byId =
     (case (ids, byId) of
        (Some is, Some r) \<Rightarrow> cat_options (map (rec_get r) is)
      | _ \<Rightarrow> [])"

text \<open>The shell is the part of a thread that \<open>ThreadShell\<close> declares.\<close>

definition toThreadShell :: "thread \<Rightarrow> thread_shell" where
  "toThreadShell t = thread_shell.truncate t"

definition toThreadTurnState :: "thread \<Rightarrow> turn_slice" where
  "toThreadTurnState t =
     \<lparr>sliceLatestTurn = latestTurn t, slicePendingPlan = pendingSourceProposedPlan t\<rparr>"

definition getThreadFromState :: "app_state \<Rightarrow> string \<Rightarrow> thread option" where
  "getThreadFromState st i =
     (case rec_get (threadShellById st) i of
        None \<Rightarrow> None
      | Some shell \<Rightarrow>
          let turnState = rec_get (threadTurnStateById st) i
          in Some (thread_shell.extend shell (thread.fields
               (nullish (rec_get (threadSessionById st) i) None)
               (collectByIds (rec_get (messageIdsByThreadId st) i)
                 (Some (nullish (rec_get (messageByThreadId st) i) [])))
               (collectByIds (rec_get (proposedPlanIdsByThreadId st) i)
                 (Some (nullish (rec_get (proposedPlanByThreadId st) i) [])))
               (Option.bind turnState sliceLatestTurn)
               (Option.bind turnState slicePendingPlan)
               (collectByIds (rec_get (turnDiffIdsByThreadId st) i)
                 (Some (nullish (rec_get (turnDiffSummaryByThreadId st) i) [])))
               (collectByIds (rec_get (activityIdsByThreadId st) i)
                 (Some (nullish (rec_get (activityByThreadId st) i) []))))))"

definition getThreadsFromState :: "app_state \<Rightarrow> thread list" where
  "getThreadsFromState st = cat_options (map (getThreadFromState st) (appThreadIds st))"

section \<open>Writing a thread\<close>

definition ensureThreadRegistered :: "string \<Rightarrow> app_state \<Rightarrow> app_state" where
  "ensureThreadRegistered i st =
     (if i \<in> set (appThreadIds st) then st else st\<lparr>appThreadIds := appThreadIds st @ [i]\<rparr>)"

definition buildMessageSlice :: "thread \<Rightarrow> string list \<times> chat_message js_record" where
  "buildMessageSlice t =
     (map messageId (messages t), from_entries (map (\<lambda>m. (messageId m, m)) (messages t)))"

definition buildActivitySlice :: "thread \<Rightarrow> string list \<times> activity js_record" where
  "buildActivitySlice t =
     (let as = capThreadActivities (dedupeActivitiesById (activities t))
      in (map activityId as, from_entries (map (\<lambda>a. (activityId a, a)) as)))"

definition buildProposedPlanSlice :: "thread \<Rightarrow> string list \<times> proposed_plan js_record" where
  "buildProposedPlanSlice t =
     (map planId (proposedPlans t), from_entries (map (\<lambda>p. (planId p, p)) (proposedPlans t)))"

definition buildTurnDiffSlice :: "thread \<Rightarrow> string list \<times> turn_diff js_record" where
  "buildTurnDiffSlice t =
     (map diffTurnId (turnDiffSummaries t),
      from_entries (map (\<lambda>d. (diffTurnId d, d)) (turnDiffSummaries t)))"

text \<open>
  Pins and markers are compared by content, the pull request too, and absent notes equal empty ones;
  the other fields are strings, flags or, for the model and the hand-over, objects of which an equal
  copy would be written over the same value.
\<close>

definition threadShellsEqual :: "thread_shell \<Rightarrow> thread_shell \<Rightarrow> bool" where
  "threadShellsEqual left right \<longleftrightarrow>
     left\<lparr>lastKnownPr := None, threadNotes := None\<rparr> = right\<lparr>lastKnownPr := None, threadNotes := None\<rparr> \<and>
     deepEqualJson (lastKnownPr left) (lastKnownPr right) \<and>
     nullish (threadNotes left) [] = nullish (threadNotes right) []"

definition writeShell :: "string \<Rightarrow> thread_shell \<Rightarrow> app_state \<Rightarrow> app_state" where
  "writeShell i shell st =
     (if (case rec_get (threadShellById st) i of
            None \<Rightarrow> False | Some previousShell \<Rightarrow> threadShellsEqual previousShell shell)
      then st else st\<lparr>threadShellById := rec_set i shell (threadShellById st)\<rparr>)"

text \<open>The session is compared with the one of the thread the caller read, not with the slice.\<close>

definition writeThreadState :: "thread \<Rightarrow> thread option \<Rightarrow> app_state \<Rightarrow> app_state" where
  "writeThreadState next previous st0 =
     (let i = threadId next;
          st1 = ensureThreadRegistered i st0;
          st2 = writeShell i (toThreadShell next) st1;
          st3 = (if Option.bind previous session \<noteq> session next
                 then st2\<lparr>threadSessionById := rec_set i (session next) (threadSessionById st2)\<rparr> else st2);
          st4 = st3\<lparr>threadTurnStateById := rec_set i (toThreadTurnState next) (threadTurnStateById st3)\<rparr>;
          st5 = (if map_option messages previous \<noteq> Some (messages next)
                 then let slice = buildMessageSlice next
                      in st4\<lparr>messageIdsByThreadId := rec_set i (fst slice) (messageIdsByThreadId st4),
                             messageByThreadId := rec_set i (snd slice) (messageByThreadId st4)\<rparr>
                 else st4);
          st6 = (if map_option activities previous \<noteq> Some (activities next)
                 then let slice = buildActivitySlice next
                      in st5\<lparr>activityIdsByThreadId := rec_set i (fst slice) (activityIdsByThreadId st5),
                             activityByThreadId := rec_set i (snd slice) (activityByThreadId st5)\<rparr>
                 else st5);
          st7 = (if map_option proposedPlans previous \<noteq> Some (proposedPlans next)
                 then let slice = buildProposedPlanSlice next
                      in st6\<lparr>proposedPlanIdsByThreadId := rec_set i (fst slice) (proposedPlanIdsByThreadId st6),
                             proposedPlanByThreadId := rec_set i (snd slice) (proposedPlanByThreadId st6)\<rparr>
                 else st6)
      in if map_option turnDiffSummaries previous \<noteq> Some (turnDiffSummaries next)
         then let slice = buildTurnDiffSlice next
              in st7\<lparr>turnDiffIdsByThreadId := rec_set i (fst slice) (turnDiffIdsByThreadId st7),
                     turnDiffSummaryByThreadId := rec_set i (snd slice) (turnDiffSummaryByThreadId st7)\<rparr>
         else st7)"

definition writeThreadShellProjection ::
    "thread_shell \<Rightarrow> thread_session option \<Rightarrow> turn_slice \<Rightarrow> app_state \<Rightarrow> app_state" where
  "writeThreadShellProjection shell sess turnState st0 =
     (let i = threadId shell;
          st1 = ensureThreadRegistered i st0;
          st2 = writeShell i shell st1;
          st3 = (if nullish (rec_get (threadSessionById st2) i) None \<noteq> sess
                 then st2\<lparr>threadSessionById := rec_set i sess (threadSessionById st2)\<rparr> else st2)
      in st3\<lparr>threadTurnStateById := rec_set i turnState (threadTurnStateById st3)\<rparr>)"

definition removeThreadState :: "string \<Rightarrow> app_state \<Rightarrow> app_state" where
  "removeThreadState i st =
     st\<lparr>appThreadIds := filter (\<lambda>j. j \<noteq> i) (appThreadIds st),
        threadShellById := rec_delete i (threadShellById st),
        threadSessionById := rec_delete i (threadSessionById st),
        threadTurnStateById := rec_delete i (threadTurnStateById st),
        messageIdsByThreadId := rec_delete i (messageIdsByThreadId st),
        messageByThreadId := rec_delete i (messageByThreadId st),
        activityIdsByThreadId := rec_delete i (activityIdsByThreadId st),
        activityByThreadId := rec_delete i (activityByThreadId st),
        proposedPlanIdsByThreadId := rec_delete i (proposedPlanIdsByThreadId st),
        proposedPlanByThreadId := rec_delete i (proposedPlanByThreadId st),
        turnDiffIdsByThreadId := rec_delete i (turnDiffIdsByThreadId st),
        turnDiffSummaryByThreadId := rec_delete i (turnDiffSummaryByThreadId st),
        sidebarSummaries := rec_delete i (sidebarSummaries st),
        appThreads := filter (\<lambda>t. threadId t \<noteq> i) (appThreads st)\<rparr>"

definition removeDeletedThreadFromClientState :: "string \<Rightarrow> app_state \<Rightarrow> app_state" where
  "removeDeletedThreadFromClientState i st =
     (let deletedIds = key_add i (deletedThreadIdsById st)
      in (removeThreadState i st)\<lparr>deletedThreadIdsById := deletedIds\<rparr>)"

section \<open>Summaries\<close>

record sidebar_metadata =
  smLatestUserMessageAt :: "string option"
  smHasPendingApprovals :: bool
  smHasPendingUserInput :: bool
  smHasActionableProposedPlan :: bool
  smHasLiveTailWork :: bool
  smLatestLiveActivity :: "(string \<times> string) option"

definition resolveThreadSidebarMetadata :: "host \<Rightarrow> thread \<Rightarrow> sidebar_metadata" where
  "resolveThreadSidebarMetadata h t =
     (let needsDerivedMetadata = (latestUserMessageAt t = None \<or> hasPendingApprovals t = None \<or>
            hasPendingUserInput t = None \<or> hasActionableProposedPlan t = None);
          derived = (if needsDerivedMetadata then Some (threadMetadata h t (activities t)) else None);
          live = hasLiveTurnTailWork h (latestTurn t) (messages t) (activities t) (session t)
      in \<lparr>smLatestUserMessageAt =
            orelse (nullish (latestUserMessageAt t) None) (Option.bind derived metaLatestUserMessageAt),
          smHasPendingApprovals =
            nullish (hasPendingApprovals t) (case derived of Some m \<Rightarrow> metaHasPendingApprovals m | None \<Rightarrow> False),
          smHasPendingUserInput =
            nullish (hasPendingUserInput t) (case derived of Some m \<Rightarrow> metaHasPendingUserInput m | None \<Rightarrow> False),
          smHasActionableProposedPlan =
            nullish (hasActionableProposedPlan t)
              (case derived of Some m \<Rightarrow> metaHasActionableProposedPlan m | None \<Rightarrow> False),
          smHasLiveTailWork = live,
          smLatestLiveActivity =
            (if live then deriveLatestLiveActivity h (activities t) (turn_id t) else None)\<rparr>)"

text \<open>Of the live activity only the label is compared, and the pull request by its content.\<close>

definition sidebarThreadSummariesEqual :: "sidebar_summary \<Rightarrow> sidebar_summary \<Rightarrow> bool" where
  "sidebarThreadSummariesEqual left right \<longleftrightarrow>
     left\<lparr>sideLatestLiveActivity := None, sideLastKnownPr := None\<rparr> =
       right\<lparr>sideLatestLiveActivity := None, sideLastKnownPr := None\<rparr> \<and>
     map_option snd (sideLatestLiveActivity left) = map_option snd (sideLatestLiveActivity right) \<and>
     deepEqualJson (sideLastKnownPr left) (sideLastKnownPr right)"

definition buildSidebarThreadSummary :: "host \<Rightarrow> thread \<Rightarrow> sidebar_summary option \<Rightarrow> sidebar_summary" where
  "buildSidebarThreadSummary h t previous =
     (let metadata = resolveThreadSidebarMetadata h t;
          nextSummary =
            \<lparr>sideId = threadId t, sideProjectId = projectId t, sideTitle = title t,
             sideModelSelection = modelSelection t, sideInteractionMode = interactionMode t,
             sideEnvMode = envMode t, sideBranch = branch t, sideWorktreePath = worktreePath t,
             sideSession = session t, sideCreatedAt = createdAt t, sideArchivedAt = archivedAt t,
             sideUpdatedAt = updatedAt t, sideIsPinned = isPinned t, sideLatestTurn = latestTurn t,
             sideLastVisitedAt = lastVisitedAt t, sideParentThreadId = parentThreadId t,
             sideSubagentAgentId = subagentAgentId t, sideSubagentNickname = subagentNickname t,
             sideSubagentRole = subagentRole t,
             sideLatestUserMessageAt = smLatestUserMessageAt metadata,
             sideHasPendingApprovals = smHasPendingApprovals metadata,
             sideHasPendingUserInput = smHasPendingUserInput metadata,
             sideHasActionableProposedPlan = smHasActionableProposedPlan metadata,
             sideHasLiveTailWork = smHasLiveTailWork metadata,
             sideLatestLiveActivity = smLatestLiveActivity metadata,
             sideForkSourceThreadId = forkSourceThreadId t,
             sideSidechatSourceThreadId = sidechatSourceThreadId t,
             sideLastKnownPr = lastKnownPr t, sideHandoff = handoff t\<rparr>
      in case previous of
           None \<Rightarrow> nextSummary
         | Some p \<Rightarrow> if sidebarThreadSummariesEqual p nextSummary then p else nextSummary)"

section \<open>Committing an update\<close>

definition commitThreadProjection :: "host \<Rightarrow> string \<Rightarrow> bool \<Rightarrow> bool \<Rightarrow> app_state \<Rightarrow> app_state" where
  "commitThreadProjection h i updateThreadArray updateSidebarSummary st =
     (case getThreadFromState st i of
        None \<Rightarrow> st
      | Some nextThread \<Rightarrow>
          let ts =
                (if updateThreadArray
                 then (if list_ex (\<lambda>t. threadId t = i) (appThreads st)
                       then map (\<lambda>t. if threadId t = i then nextThread else t) (appThreads st)
                       else appThreads st @ [nextThread])
                 else appThreads st);
              previousSummary = rec_get (sidebarSummaries st) i;
              nextSummary =
                (if updateSidebarSummary \<or> previousSummary = None
                 then Some (buildSidebarThreadSummary h nextThread previousSummary) else previousSummary)
          in st\<lparr>appThreads := ts,
               sidebarSummaries :=
                 (if nextSummary = previousSummary then sidebarSummaries st
                  else rec_set i (the nextSummary) (sidebarSummaries st))\<rparr>)"

definition withDerivedThreadStateSignals :: "host \<Rightarrow> thread \<Rightarrow> thread option" where
  "withDerivedThreadStateSignals h t =
     (let m = threadMetadata h t (activities t)
      in if latestUserMessageAt t = Some (metaLatestUserMessageAt m) \<and>
            hasPendingApprovals t = Some (metaHasPendingApprovals m) \<and>
            hasPendingUserInput t = Some (metaHasPendingUserInput m) \<and>
            hasActionableProposedPlan t = Some (metaHasActionableProposedPlan m)
         then None
         else Some (t\<lparr>latestUserMessageAt := Some (metaLatestUserMessageAt m),
                hasPendingApprovals := Some (metaHasPendingApprovals m),
                hasPendingUserInput := Some (metaHasPendingUserInput m),
                hasActionableProposedPlan := Some (metaHasActionableProposedPlan m)\<rparr>))"

record update_options =
  optThreadArray :: bool
  optSignals :: bool
  optSidebar :: bool

definition currentThread :: "app_state \<Rightarrow> string \<Rightarrow> thread option" where
  "currentThread st i =
     orelse (getThreadFromState st i) (List.find (\<lambda>t. threadId t = i) (appThreads st))"

text \<open>The updated thread, or \<open>None\<close> when it is the object that was there.\<close>

definition updatedThread :: "host \<Rightarrow> bool \<Rightarrow> (thread \<Rightarrow> thread option) \<Rightarrow> thread \<Rightarrow> thread option" where
  "updatedThread h recompute updater current =
     (let updated = updater current
      in if \<not> recompute then updated
         else orelse (withDerivedThreadStateSignals h (nullish updated current)) updated)"

definition applyThreadUpdate ::
    "host \<Rightarrow> string \<Rightarrow> update_options \<Rightarrow> (thread \<Rightarrow> thread option) \<Rightarrow> app_state \<Rightarrow> app_state" where
  "applyThreadUpdate h i opts updater st =
     (case currentThread st i of
        None \<Rightarrow> st
      | Some current \<Rightarrow>
          (case updatedThread h (optSignals opts) updater current of
             None \<Rightarrow> st
           | Some next \<Rightarrow>
               commitThreadProjection h i (optThreadArray opts) (optSidebar opts)
                 (writeThreadState next (Some current) st)))"

end
