(* ===== verification/StoreEvents.thy ===== *)
theory StoreEvents
  imports ClientStore
begin

text \<open>
  The events of the client store (\<open>frontend/src/store.ts\<close>): \<open>applyOrchestrationEvent\<close> for the events
  of threads, batches of events, the thread part of the shell stream and of its snapshot, and the
  local actions on a thread. Events of projects are not part of this model.
\<close>

section \<open>Metadata\<close>

record meta_patch =
  metaTitle :: "string option"
  metaModelSelection :: "model_selection option"
  metaEnvMode :: "string option"
  metaBranch :: "string option option"
  metaWorktreePath :: "string option option"
  metaAssociatedWorktreePath :: "string option option"
  metaAssociatedWorktreeBranch :: "string option option"
  metaAssociatedWorktreeRef :: "string option option"
  metaCreateBranchFlowCompleted :: "bool option"
  metaIsPinned :: "bool option"
  metaParentThreadId :: "string option option"
  metaSubagentAgentId :: "string option option"
  metaSubagentNickname :: "string option option"
  metaSubagentRole :: "string option option"
  metaLastKnownPr :: "json option option"
  metaHandoff :: "json option option"
  metaPinnedMessages :: "pinned_message list option"
  metaThreadMarkers :: "thread_marker list option"
  metaNotes :: "string option"
  metaUpdatedAt :: string

text \<open>\<open>patch.x !== undefined ? patch.x : old\<close>, and whether a field is undefined or the same.\<close>

abbreviation patched :: "'a option \<Rightarrow> 'a \<Rightarrow> 'a" where
  "patched p old \<equiv> nullish p old"

definition same_or_absent :: "'a option \<Rightarrow> 'a \<Rightarrow> bool" where
  "same_or_absent p old \<longleftrightarrow> p = None \<or> p = Some old"

record branch_context =
  ctxBranch :: "string option"
  ctxWorktreePath :: "string option"
  ctxAssociatedPath :: "string option"
  ctxAssociatedBranch :: "string option"
  ctxAssociatedRef :: "string option"

definition resolveCreateBranchFlowCompletedMerge ::
    "branch_context \<Rightarrow> branch_context \<Rightarrow> bool \<Rightarrow> bool option \<Rightarrow> bool" where
  "resolveCreateBranchFlowCompletedMerge current next currentFlag nextFlag =
     (let contextChanged = (ctxBranch current \<noteq> ctxBranch next \<or>
            ctxWorktreePath current \<noteq> ctxWorktreePath next \<or>
            ctxAssociatedPath current \<noteq> ctxAssociatedPath next \<or>
            ctxAssociatedBranch current \<noteq> ctxAssociatedBranch next \<or>
            ctxAssociatedRef current \<noteq> ctxAssociatedRef next)
      in if contextChanged then nullish nextFlag False
         else case nextFlag of
           None \<Rightarrow> currentFlag
         | Some flag \<Rightarrow> if currentFlag \<and> \<not> flag then True else flag)"

definition threadContext :: "thread \<Rightarrow> branch_context" where
  "threadContext t = \<lparr>ctxBranch = branch t, ctxWorktreePath = worktreePath t,
     ctxAssociatedPath = associatedWorktreePath t, ctxAssociatedBranch = associatedWorktreeBranch t,
     ctxAssociatedRef = associatedWorktreeRef t\<rparr>"

definition patchedContext :: "meta_patch \<Rightarrow> thread \<Rightarrow> branch_context" where
  "patchedContext p t =
     \<lparr>ctxBranch = (case metaBranch p of
          Some b \<Rightarrow> resolveThreadBranchRegressionGuard (branch t) b | None \<Rightarrow> branch t),
      ctxWorktreePath = patched (metaWorktreePath p) (worktreePath t),
      ctxAssociatedPath = patched (metaAssociatedWorktreePath p) (associatedWorktreePath t),
      ctxAssociatedBranch = patched (metaAssociatedWorktreeBranch p) (associatedWorktreeBranch t),
      ctxAssociatedRef = patched (metaAssociatedWorktreeRef p) (associatedWorktreeRef t)\<rparr>"

text \<open>A hand-over carried by an event is never the object the thread holds: only two absent ones agree.\<close>

definition updateThreadMeta :: "meta_patch \<Rightarrow> thread \<Rightarrow> thread option" where
  "updateThreadMeta p t =
     (let newSelection = (case metaModelSelection p of
            Some m \<Rightarrow> normalizeModelSelection m (Some (modelSelection t)) | None \<Rightarrow> modelSelection t);
          next = patchedContext p t;
          flow = resolveCreateBranchFlowCompletedMerge (threadContext t) next
            (createBranchFlowCompleted t) (metaCreateBranchFlowCompleted p);
          newUpdatedAt = bumpUpdatedAt t (metaUpdatedAt p);
          cwdChanged = (worktreePath t \<noteq> ctxWorktreePath next)
      in if same_or_absent (metaTitle p) (title t) \<and> newSelection = modelSelection t \<and>
            (metaEnvMode p = None \<or> metaEnvMode p = envMode t) \<and> next = threadContext t \<and>
            flow = createBranchFlowCompleted t \<and> same_or_absent (metaIsPinned p) (isPinned t) \<and>
            same_or_absent (metaParentThreadId p) (parentThreadId t) \<and>
            same_or_absent (metaSubagentAgentId p) (subagentAgentId t) \<and>
            same_or_absent (metaSubagentNickname p) (subagentNickname t) \<and>
            same_or_absent (metaSubagentRole p) (subagentRole t) \<and>
            (case metaLastKnownPr p of None \<Rightarrow> True | Some pr \<Rightarrow> deepEqualJson pr (lastKnownPr t)) \<and>
            (case metaHandoff p of None \<Rightarrow> True | Some ho \<Rightarrow> ho = None \<and> handoff t = None) \<and>
            (metaPinnedMessages p = None \<or> metaPinnedMessages p = pinnedMessages t) \<and>
            (metaThreadMarkers p = None \<or> metaThreadMarkers p = threadMarkers t) \<and>
            (metaNotes p = None \<or> metaNotes p = Some (nullish (threadNotes t) [])) \<and>
            newUpdatedAt = updatedAt t
         then None
         else Some (t\<lparr>title := patched (metaTitle p) (title t), modelSelection := newSelection,
           envMode := orelse (metaEnvMode p) (envMode t), branch := ctxBranch next,
           worktreePath := ctxWorktreePath next, associatedWorktreePath := ctxAssociatedPath next,
           associatedWorktreeBranch := ctxAssociatedBranch next,
           associatedWorktreeRef := ctxAssociatedRef next, createBranchFlowCompleted := flow,
           isPinned := patched (metaIsPinned p) (isPinned t),
           parentThreadId := patched (metaParentThreadId p) (parentThreadId t),
           subagentAgentId := patched (metaSubagentAgentId p) (subagentAgentId t),
           subagentNickname := patched (metaSubagentNickname p) (subagentNickname t),
           subagentRole := patched (metaSubagentRole p) (subagentRole t),
           lastKnownPr := patched (metaLastKnownPr p) (lastKnownPr t),
           handoff := patched (metaHandoff p) (handoff t),
           pinnedMessages := orelse (metaPinnedMessages p) (pinnedMessages t),
           threadMarkers := orelse (metaThreadMarkers p) (threadMarkers t),
           threadNotes := orelse (metaNotes p) (threadNotes t),
           updatedAt := newUpdatedAt,
           session := (if cwdChanged then None else session t)\<rparr>))"

section \<open>Events\<close>

datatype thread_event =
    MetaUpdated meta_patch
  | PinAdded pinned_message string
  | PinRemoved string string
  | PinDoneSet string bool string
  | PinLabelSet string "string option" string
  | MarkerAdded thread_marker string
  | MarkerRemoved string string
  | MarkerDoneSet string bool string
  | MarkerLabelSet string "string option" string
  | MessageSent read_model_message
  | SessionSet wire_session string
  | TurnInterruptRequested
  | SessionStopRequested string string
  | TurnStartRequested "model_selection option" string string "source_plan option" string
  | UserInputResponseRequested string nat string
  | ApprovalResponseRequested string "json option" nat string
  | ActivityAppended activity
  | PlanUpserted proposed_plan
  | TurnDiffCompleted turn_diff
  | Reverted nat string
  | RolledBack string nat "string list" string
  | Archived "string option" "string option" string
  | Unarchived "string option" string

definition archiveThread :: "string option \<Rightarrow> string option \<Rightarrow> string \<Rightarrow> thread \<Rightarrow> thread option" where
  "archiveThread at' updated occurredAt t =
     Some (t\<lparr>archivedAt := Some (nullish at' occurredAt), updatedAt := Some (nullish updated occurredAt)\<rparr>)"

definition unarchiveThread :: "string option \<Rightarrow> string \<Rightarrow> thread \<Rightarrow> thread option" where
  "unarchiveThread updated occurredAt t =
     Some (t\<lparr>archivedAt := None, updatedAt := Some (nullish updated occurredAt)\<rparr>)"

fun threadUpdater :: "host \<Rightarrow> thread_event \<Rightarrow> thread \<Rightarrow> thread option" where
  "threadUpdater h (MetaUpdated p) = updateThreadMeta p"
| "threadUpdater h (PinAdded pin at') = updatePins (\<lambda>pins. addPinnedMessage pins pin) at'"
| "threadUpdater h (PinRemoved m at') = updatePins (\<lambda>pins. removePinnedMessage pins m) at'"
| "threadUpdater h (PinDoneSet m d at') = updatePins (\<lambda>pins. setPinnedMessageDone pins m d) at'"
| "threadUpdater h (PinLabelSet m l at') = updatePins (\<lambda>pins. setPinnedMessageLabel pins m l) at'"
| "threadUpdater h (MarkerAdded marker at') = updateMarkers (\<lambda>ms. addThreadMarker ms marker) at'"
| "threadUpdater h (MarkerRemoved i at') = updateMarkers (\<lambda>ms. removeThreadMarker ms i) at'"
| "threadUpdater h (MarkerDoneSet i d at') = updateMarkers (\<lambda>ms. setThreadMarkerDone ms i d at') at'"
| "threadUpdater h (MarkerLabelSet i l at') = updateMarkers (\<lambda>ms. setThreadMarkerLabel ms i l at') at'"
| "threadUpdater h (MessageSent p) = applyThreadMessageSentEvent h p"
| "threadUpdater h (SessionSet s occurredAt) = setThreadSession s occurredAt"
| "threadUpdater h TurnInterruptRequested = (\<lambda>t. None)"
| "threadUpdater h (SessionStopRequested at' occurredAt) = stopThreadSession at' occurredAt"
| "threadUpdater h (TurnStartRequested m r i plan at') = startThreadTurn m r i plan at'"
| "threadUpdater h (UserInputResponseRequested r n at') = userInputResponse h r n at'"
| "threadUpdater h (ApprovalResponseRequested r d n at') = approvalResponse h r d n at'"
| "threadUpdater h (ActivityAppended a) = appendActivity a"
| "threadUpdater h (PlanUpserted p) = upsertPlan p"
| "threadUpdater h (TurnDiffCompleted d) = applyTurnDiffSummaryToThread h d"
| "threadUpdater h (Reverted n occurredAt) = revertThread h n occurredAt"
| "threadUpdater h (RolledBack m n turns occurredAt) = rollbackThread m turns occurredAt"
| "threadUpdater h (Archived at' updated occurredAt) = archiveThread at' updated occurredAt"
| "threadUpdater h (Unarchived updated occurredAt) = unarchiveThread updated occurredAt"

definition THREAD_SUMMARY_ACTIVITY_KINDS :: "string list" where
  "THREAD_SUMMARY_ACTIVITY_KINDS =
     [''approval.requested'', ''approval.resolved'', ''provider.approval.respond.failed'',
      ''user-input.requested'', ''user-input.resolved'', ''provider.user-input.respond.failed'',
      ''provider_reasoning'', ''provider_skill_dispatched'', ''provider_subagent_started'',
      ''provider_subagent_completed'', ''provider_explore_started'', ''provider_explore_updated'']"

definition threadActivityUpdatesSummary :: "activity \<Rightarrow> bool" where
  "threadActivityUpdatesSummary a \<longleftrightarrow> kind a \<in> set THREAD_SUMMARY_ACTIVITY_KINDS"

definition threadMessageUpdatesSummary :: "read_model_message \<Rightarrow> bool" where
  "threadMessageUpdatesSummary p \<longleftrightarrow> wireRole p = User"

definition threadMessageUpdatesSidebarSummary :: "read_model_message \<Rightarrow> bool" where
  "threadMessageUpdatesSidebarSummary p \<longleftrightarrow> wireRole p = User \<or> \<not> wireStreaming p"

fun eventOptions :: "bool \<Rightarrow> bool \<Rightarrow> thread_event \<Rightarrow> update_options" where
  "eventOptions arr side (MetaUpdated p) =
     \<lparr>optThreadArray = arr \<or> metaTitle p \<noteq> None, optSignals = True, optSidebar = True\<rparr>"
| "eventOptions arr side (PinAdded _ _) = \<lparr>optThreadArray = arr, optSignals = True, optSidebar = False\<rparr>"
| "eventOptions arr side (PinRemoved _ _) = \<lparr>optThreadArray = arr, optSignals = True, optSidebar = False\<rparr>"
| "eventOptions arr side (PinDoneSet _ _ _) = \<lparr>optThreadArray = arr, optSignals = True, optSidebar = False\<rparr>"
| "eventOptions arr side (PinLabelSet _ _ _) = \<lparr>optThreadArray = arr, optSignals = True, optSidebar = False\<rparr>"
| "eventOptions arr side (MarkerAdded _ _) = \<lparr>optThreadArray = arr, optSignals = True, optSidebar = False\<rparr>"
| "eventOptions arr side (MarkerRemoved _ _) = \<lparr>optThreadArray = arr, optSignals = True, optSidebar = False\<rparr>"
| "eventOptions arr side (MarkerDoneSet _ _ _) = \<lparr>optThreadArray = arr, optSignals = True, optSidebar = False\<rparr>"
| "eventOptions arr side (MarkerLabelSet _ _ _) = \<lparr>optThreadArray = arr, optSignals = True, optSidebar = False\<rparr>"
| "eventOptions arr side (MessageSent p) =
     \<lparr>optThreadArray = arr, optSignals = threadMessageUpdatesSummary p,
      optSidebar = side \<or> threadMessageUpdatesSidebarSummary p\<rparr>"
| "eventOptions arr side (UserInputResponseRequested _ _ _) =
     \<lparr>optThreadArray = arr, optSignals = False, optSidebar = True\<rparr>"
| "eventOptions arr side (ApprovalResponseRequested _ _ _ _) =
     \<lparr>optThreadArray = arr, optSignals = False, optSidebar = True\<rparr>"
| "eventOptions arr side (ActivityAppended a) =
     \<lparr>optThreadArray = arr, optSignals = threadActivityUpdatesSummary a,
      optSidebar = side \<or> threadActivityUpdatesSummary a\<rparr>"
| "eventOptions arr side _ = \<lparr>optThreadArray = arr, optSignals = True, optSidebar = True\<rparr>"

text \<open>Events the code answers before it looks for the thread.\<close>

fun ignoredEvent :: "thread_event \<Rightarrow> bool" where
  "ignoredEvent TurnInterruptRequested = True"
| "ignoredEvent (RolledBack _ n _ _) = (n = 0)"
| "ignoredEvent _ = False"

record created_thread =
  createdThreadId :: string
  createdProjectId :: "string option"
  createdProviderId :: "string option"
  createdModel :: "string option"
  createdTime :: string

definition seedThread :: "created_thread \<Rightarrow> thread" where
  "seedThread c =
     \<lparr>envMode = None, branch = None, worktreePath = None, associatedWorktreePath = None,
      associatedWorktreeBranch = None, associatedWorktreeRef = None, createBranchFlowCompleted = False,
      threadId = createdThreadId c, codexThreadId = None,
      projectId = nullish (createdProjectId c) [], title = [],
      modelSelection = \<lparr>provider = nullish (createdProviderId c) ''codex'',
        model = nullish (createdModel c) ''default'', modelOptions = None\<rparr>,
      runtimeMode = ''full-access'', interactionMode = ''default'', threadError = None,
      createdAt = createdTime c, archivedAt = None, updatedAt = Some (createdTime c),
      isPinned = False, pinnedMessages = None, threadMarkers = None, threadNotes = None,
      parentThreadId = None, subagentAgentId = None, subagentNickname = None, subagentRole = None,
      forkSourceThreadId = None, sidechatSourceThreadId = None, handoff = None, lastKnownPr = None,
      latestUserMessageAt = None, hasPendingApprovals = None, hasPendingUserInput = None,
      hasActionableProposedPlan = None, lastVisitedAt = None,
      session = None, messages = [], proposedPlans = [], latestTurn = None,
      pendingSourceProposedPlan = None, turnDiffSummaries = [], activities = []\<rparr>"

datatype orchestration_event =
    ThreadCreated created_thread
  | ThreadDeleted string
  | ThreadEvent string thread_event

fun applyOrchestrationEvent ::
    "host \<Rightarrow> bool \<Rightarrow> bool \<Rightarrow> app_state \<Rightarrow> orchestration_event \<Rightarrow> app_state" where
  "applyOrchestrationEvent h arr side st (ThreadCreated c) =
     (if getThreadFromState st (createdThreadId c) \<noteq> None then st
      else writeThreadState (seedThread c) None st)"
| "applyOrchestrationEvent h arr side st (ThreadDeleted i) = removeDeletedThreadFromClientState i st"
| "applyOrchestrationEvent h arr side st (ThreadEvent i e) =
     (if ignoredEvent e then st
      else applyThreadUpdate h i (eventOptions arr side e) (threadUpdater h e) st)"

definition applyOrchestrationEventsHotPath ::
    "host \<Rightarrow> bool \<Rightarrow> bool \<Rightarrow> orchestration_event list \<Rightarrow> app_state \<Rightarrow> app_state" where
  "applyOrchestrationEventsHotPath h arr side events st =
     foldl (applyOrchestrationEvent h arr side) st events"

definition applyOrchestrationEvents :: "host \<Rightarrow> orchestration_event list \<Rightarrow> app_state \<Rightarrow> app_state" where
  "applyOrchestrationEvents h events st = applyOrchestrationEventsHotPath h True False events st"

end
