(* ===== verification/MessageProperties.thy ===== *)
theory MessageProperties
  imports StoreEvents Comparisons
begin

text \<open>
  Messages of a thread under the events of the server: streamed chunks add up to the text, a final
  message completes it, and what happens to a final message that differs from what was streamed.
\<close>

definition deliver :: "host \<Rightarrow> read_model_message \<Rightarrow> thread \<Rightarrow> thread" where
  "deliver h p t = nullish (applyThreadMessageSentEvent h p t) t"

definition message_of :: "thread \<Rightarrow> string \<Rightarrow> chat_message option" where
  "message_of t i = List.find (\<lambda>m. messageId m = i) (messages t)"

definition incoming_for :: "host \<Rightarrow> read_model_message \<Rightarrow> thread \<Rightarrow> chat_message" where
  "incoming_for h p t = normalizeChatMessage h
     (p\<lparr>wireAttachments := Some (nullish (wireAttachments p) [])\<rparr>) (message_of t (wireId p))"

section \<open>Delivering a message\<close>

lemma message_of_id: "message_of t i = Some m \<Longrightarrow> messageId m = i"
  unfolding message_of_def by (drule find_Some_mem) simp

lemma incoming_fields:
  shows "messageId (incoming_for h p t) = wireId p"
    and "messageText (incoming_for h p t) = wireText p"
    and "role (incoming_for h p t) = wireRole p"
    and "streaming (incoming_for h p t) = wireStreaming p"
  using message_of_id [of t "wireId p"]
  by (auto simp: incoming_for_def normalizeChatMessage_def Let_def split: option.splits)

definition delivered_messages :: "host \<Rightarrow> read_model_message \<Rightarrow> thread \<Rightarrow> chat_message list option" where
  "delivered_messages h p t = (case find_index (\<lambda>m. messageId m = wireId p) (messages t) of
     Some i \<Rightarrow> map_option (\<lambda>m. (messages t)[i := m])
       (mergeStreamingMessage (messages t ! i) (incoming_for h p t))
   | None \<Rightarrow> Some (slice_last MAX_THREAD_MESSAGES (messages t @ [incoming_for h p t])))"

lemma deliver_messages: "messages (deliver h p t) = nullish (delivered_messages h p t) (messages t)"
proof (cases "wireRole p = Assistant \<and> wireTurnId p \<noteq> None")
  case True
  then obtain turn where "wireRole p = Assistant" "wireTurnId p = Some turn" by auto
  then show ?thesis
    unfolding deliver_def applyThreadMessageSentEvent_def Let_def delivered_messages_def
      incoming_for_def message_of_def
    by simp
next
  case False
  then have case_eq: "(case (wireRole p, wireTurnId p) of (Assistant, Some turn) \<Rightarrow> f turn | _ \<Rightarrow> g) = g"
    for f :: "string \<Rightarrow> thread option" and g
    by (auto split: message_role.splits option.splits)
  show ?thesis
    unfolding deliver_def applyThreadMessageSentEvent_def Let_def case_eq
      incoming_for_def [symmetric, unfolded message_of_def] delivered_messages_def [symmetric]
    by (cases "delivered_messages h p t") (simp_all add: if_distrib [of "\<lambda>x. messages (nullish x t)"])
qed

lemma find_by_index:
  "List.find P xs = (case find_index P xs of None \<Rightarrow> None | Some i \<Rightarrow> Some (xs ! i))"
  by (induction xs) (auto split: option.splits)

lemma find_index_update:
  "find_index P xs = Some i \<Longrightarrow> P y \<Longrightarrow> List.find P (xs[i := y]) = Some y"
proof (induction xs arbitrary: i)
  case (Cons x xs)
  then show ?case by (cases i) (auto split: if_splits)
qed simp

lemma merge_id: "mergeStreamingMessage e m = Some r \<Longrightarrow> messageId r = messageId e"
  by (auto simp: mergeStreamingMessage_def Let_def split: if_splits)

lemma merge_text:
  "mergeStreamingMessage e m = Some r \<Longrightarrow> messageText r = mergedText e m \<and> streaming r = streaming m"
  by (auto simp: mergeStreamingMessage_def Let_def split: if_splits)

lemma merge_same:
  "mergeStreamingMessage e m = None \<Longrightarrow> messageText e = mergedText e m \<and> streaming e = streaming m"
  by (auto simp: mergeStreamingMessage_def Let_def split: if_splits)

lemma merge_role: "mergeStreamingMessage e m = Some r \<Longrightarrow> role r = role e"
  by (auto simp: mergeStreamingMessage_def Let_def split: if_splits)

lemma slice_last_snoc: "n > 0 \<Longrightarrow> slice_last n (xs @ [x]) = slice_last (n - 1) xs @ [x]"
  by (cases n) (simp_all add: slice_last_def)

lemma find_slice_snoc:
  "find_index P xs = None \<Longrightarrow> n > 0 \<Longrightarrow> P x \<Longrightarrow> List.find P (slice_last n (xs @ [x])) = Some x"
  by (simp add: slice_last_snoc find_index_None_iff)
    (rule find_snoc, auto simp: slice_last_def dest: in_set_dropD)

text \<open>The message after a delivery: merged into the one that was there, or as it came.\<close>

lemma deliver_merged:
  assumes "message_of t (wireId p) = Some e"
  obtains r where "message_of (deliver h p t) (wireId p) = Some r"
    "messageText r = mergedText e (incoming_for h p t)" "streaming r = wireStreaming p" "role r = role e"
proof -
  obtain i where i: "find_index (\<lambda>m. messageId m = wireId p) (messages t) = Some i" "messages t ! i = e"
    using assms by (auto simp: message_of_def find_by_index split: option.splits)
  show thesis
  proof (cases "mergeStreamingMessage e (incoming_for h p t)")
    case None
    with i have "messages (deliver h p t) = messages t" by (simp add: deliver_messages delivered_messages_def None)
    with assms that merge_same [OF None] show ?thesis by (simp add: message_of_def incoming_fields)
  next
    case (Some r)
    with i have "messages (deliver h p t) = (messages t)[i := r]"
      by (simp add: deliver_messages delivered_messages_def Some)
    moreover have "messageId r = wireId p" using merge_id [OF Some] message_of_id [OF assms] by simp
    ultimately have "message_of (deliver h p t) (wireId p) = Some r"
      using find_index_update [OF i(1)] by (simp add: message_of_def)
    with that merge_text [OF Some] merge_role [OF Some] show ?thesis by (simp add: incoming_fields)
  qed
qed

lemma deliver_new:
  assumes "message_of t (wireId p) = None"
  shows "message_of (deliver h p t) (wireId p) = Some (incoming_for h p t)"
proof -
  have none: "find_index (\<lambda>m. messageId m = wireId p) (messages t) = None"
    using assms by (auto simp: message_of_def find_by_index split: option.splits)
  then show ?thesis
    using find_slice_snoc [OF none, of MAX_THREAD_MESSAGES "incoming_for h p t"]
    by (simp add: message_of_def deliver_messages delivered_messages_def incoming_fields MAX_THREAD_MESSAGES_def)
qed

section \<open>Streaming\<close>

definition text_is :: "thread \<Rightarrow> string \<Rightarrow> string \<Rightarrow> message_role \<Rightarrow> bool \<Rightarrow> bool" where
  "text_is t i s r live \<longleftrightarrow>
     (\<exists>m. message_of t i = Some m \<and> messageText m = s \<and> role m = r \<and> streaming m = live)"

abbreviation chunk :: "read_model_message \<Rightarrow> string \<Rightarrow> read_model_message" where
  "chunk p c \<equiv> p\<lparr>wireText := c, wireStreaming := True\<rparr>"

abbreviation final :: "read_model_message \<Rightarrow> string \<Rightarrow> read_model_message" where
  "final p s \<equiv> p\<lparr>wireText := s, wireStreaming := False\<rparr>"

lemma deliver_chunk:
  assumes "text_is t (wireId p) s r live"
  shows "text_is (deliver h (chunk p c) t) (wireId p) (s @ c) r True"
proof -
  obtain e where e: "message_of t (wireId (chunk p c)) = Some e" "messageText e = s" "role e = r"
    using assms by (auto simp: text_is_def)
  from deliver_merged [OF e(1), of h] e show ?thesis
    by (auto simp: text_is_def mergedText_def incoming_fields)
qed

lemma deliver_first_chunk:
  assumes "message_of t (wireId p) = None"
  shows "text_is (deliver h (chunk p c) t) (wireId p) c (wireRole p) True"
  using deliver_new [of t "chunk p c" h] assms by (simp add: text_is_def incoming_fields)

text \<open>The text after a final message: what was streamed, or what came, or one after the other.\<close>

definition final_text :: "message_role \<Rightarrow> message_role \<Rightarrow> string \<Rightarrow> string \<Rightarrow> string" where
  "final_text r r' s u = (if r = User \<and> r' = User then u else if u = [] then s
     else if str_starts u s then u else if str_starts s u then s else s @ u)"

lemma str_starts_refl: "str_starts s s"
  by (simp add: str_starts_def)

lemma final_text_repeat: "final_text r r' s s = s"
  by (simp add: final_text_def str_starts_refl)

lemma final_text_empty: "\<not> (r = User \<and> r' = User) \<Longrightarrow> final_text r r' s [] = s"
  by (auto simp: final_text_def)

lemma final_text_diverging:
  assumes "\<not> (r = User \<and> r' = User)" "length u \<le> length s" "\<not> str_starts s u"
  shows "final_text r r' s u = s @ u"
proof -
  have "u \<noteq> []" using assms(3) by (auto simp: str_starts_def)
  moreover have "\<not> str_starts u s"
  proof
    assume "str_starts u s"
    then have "take (length s) u = s" by (simp add: str_starts_def)
    with assms(2) have "u = s" by simp
    with assms(3) show False by (simp add: str_starts_refl)
  qed
  ultimately show ?thesis using assms(1,3) unfolding final_text_def by (simp only: if_False simp_thms)
qed

lemma str_starts_append_le: "length u \<le> length s \<Longrightarrow> str_starts (s @ v) u = str_starts s u"
  by (simp add: str_starts_def)

lemma deliver_final:
  assumes "text_is t (wireId p) s r live"
  shows "text_is (deliver h (final p u) t) (wireId p) (final_text r (wireRole p) s u) r False"
proof -
  obtain e where e: "message_of t (wireId (final p u)) = Some e" "messageText e = s" "role e = r"
    using assms by (auto simp: text_is_def)
  obtain m where m: "message_of (deliver h (final p u) t) (wireId (final p u)) = Some m"
    "messageText m = mergedText e (incoming_for h (final p u) t)"
    "streaming m = wireStreaming (final p u)" "role m = role e"
    by (rule deliver_merged [OF e(1), of h])
  have "mergedText e (incoming_for h (final p u) t) = final_text r (wireRole p) s u"
    using e by (simp add: mergedText_def incoming_fields final_text_def)
  with m e show ?thesis by (simp add: text_is_def)
qed

text \<open>
  A message in the list, with at most \<open>n\<close> messages behind it: it stays while at most
  \<open>MAX_THREAD_MESSAGES\<close> are kept.
\<close>

definition held :: "nat \<Rightarrow> chat_message \<Rightarrow> thread \<Rightarrow> bool" where
  "held n m t \<longleftrightarrow> (\<exists>xs ys. messages t = xs @ m # ys \<and> (\<forall>x\<in>set xs. messageId x \<noteq> messageId m) \<and> length ys \<le> n)"

lemma find_split: "\<forall>x\<in>set xs. \<not> P x \<Longrightarrow> P m \<Longrightarrow> List.find P (xs @ m # ys) = Some m"
  by (induction xs) auto

lemma held_message_of: "held n m t \<Longrightarrow> message_of t (messageId m) = Some m"
  unfolding held_def message_of_def by (elim exE conjE, simp only:, rule find_split) auto

lemma find_index_first:
  "\<forall>x\<in>set xs. \<not> P x \<Longrightarrow> P m \<Longrightarrow> find_index P (xs @ m # ys) = Some (length xs)"
  by (induction xs) auto

lemma find_index_nth: "find_index P xs = Some i \<Longrightarrow> i < length xs \<and> P (xs ! i)"
proof (induction xs arbitrary: i)
  case (Cons x xs)
  then show ?case by (cases i) (auto split: if_splits)
qed simp

lemma deliver_own:
  assumes "held n m t" "wireId q = messageId m"
  obtains r where "held n r (deliver h q t)" "messageId r = messageId m" "role r = role m"
    "messageText r = mergedText m (incoming_for h q t)" "streaming r = wireStreaming q"
proof -
  from assms(1) obtain xs ys where m: "messages t = xs @ m # ys" "(\<forall>x\<in>set xs. messageId x \<noteq> messageId m)" "length ys \<le> n"
    by (auto simp: held_def)
  then have i: "find_index (\<lambda>x. messageId x = wireId q) (messages t) = Some (length xs)"
    unfolding m(1) using assms(2) by (intro find_index_first) auto
  show thesis
  proof (cases "mergeStreamingMessage m (incoming_for h q t)")
    case None
    then have "messages (deliver h q t) = messages t" using i m(1) by (simp add: deliver_messages delivered_messages_def)
    with assms(1) that [of m] merge_same [OF None] show ?thesis by (simp add: held_def incoming_fields)
  next
    case (Some r)
    then have "messages (deliver h q t) = xs @ r # ys"
      using i m(1) by (simp add: deliver_messages delivered_messages_def)
    with m(2,3) merge_id [OF Some] have "held n r (deliver h q t)" by (auto simp: held_def)
    with that merge_id [OF Some] merge_text [OF Some] merge_role [OF Some] show ?thesis
      by (simp add: incoming_fields)
  qed
qed

lemma deliver_other:
  assumes "held n m t" "wireId q \<noteq> messageId m" "Suc n < MAX_THREAD_MESSAGES"
  shows "held (Suc n) m (deliver h q t)"
proof -
  from assms(1) obtain xs ys where m: "messages t = xs @ m # ys" "(\<forall>x\<in>set xs. messageId x \<noteq> messageId m)" "length ys \<le> n"
    by (auto simp: held_def)
  have "\<exists>xs ys. nullish (delivered_messages h q t) (messages t) = xs @ m # ys \<and>
      (\<forall>x\<in>set xs. messageId x \<noteq> messageId m) \<and> length ys \<le> Suc n"
  proof (cases "find_index (\<lambda>x. messageId x = wireId q) (messages t)")
    case None
    let ?n = "length (messages t @ [incoming_for h q t]) - MAX_THREAD_MESSAGES"
    have "delivered_messages h q t = Some (drop ?n (messages t @ [incoming_for h q t]))"
      using None by (simp add: delivered_messages_def slice_last_def)
    moreover have "?n \<le> length xs" using m(1,3) assms(3) by simp
    ultimately have "nullish (delivered_messages h q t) (messages t) = drop ?n xs @ m # ys @ [incoming_for h q t]"
      using m(1) by simp
    moreover have "\<forall>x\<in>set (drop ?n xs). messageId x \<noteq> messageId m" using m(2) by (auto dest: in_set_dropD)
    ultimately show ?thesis using m(3) by (metis append_Cons length_append_singleton not_less_eq_eq)
  next
    case (Some i)
    show ?thesis
    proof (cases "mergeStreamingMessage (messages t ! i) (incoming_for h q t)")
      case None
      with Some have "nullish (delivered_messages h q t) (messages t) = xs @ m # ys"
        using m(1) by (simp add: delivered_messages_def)
      with m(2,3) show ?thesis by (intro exI [of _ xs] exI [of _ ys]) simp
    next
      case r: (Some r)
      from find_index_nth [OF Some] have "messageId (messages t ! i) = wireId q" "i < length (messages t)" by simp_all
      with merge_id [OF r] assms(2) m(1) have "messageId r \<noteq> messageId m" "i \<noteq> length xs" by auto
      have new: "nullish (delivered_messages h q t) (messages t) = (messages t)[i := r]"
        using Some r by (simp add: delivered_messages_def)
      show ?thesis
      proof (cases "i < length xs")
        case True
        then have "(messages t)[i := r] = xs[i := r] @ m # ys" using m(1) by (simp add: list_update_append)
        moreover have "\<forall>x\<in>set (xs[i := r]). messageId x \<noteq> messageId m"
          using m(2) \<open>messageId r \<noteq> messageId m\<close> set_update_subset_insert [of xs i r] by auto
        ultimately show ?thesis using new m(3) by (intro exI [of _ "xs[i := r]"] exI [of _ ys]) simp
      next
        case False
        with \<open>i \<noteq> length xs\<close> obtain k where "i = length xs + Suc k" by (metis less_natE not_less_iff_gr_or_eq add_Suc_right)
        then have "(messages t)[i := r] = xs @ m # ys[k := r]" using m(1) by (simp add: list_update_append)
        with new m(2,3) show ?thesis by (intro exI [of _ xs] exI [of _ "ys[k := r]"]) simp
      qed
    qed
  qed
  then show ?thesis unfolding held_def deliver_messages .
qed

text \<open>A run of deliveries: chunks of one message, other messages between them.\<close>

definition chunks_of :: "string \<Rightarrow> read_model_message list \<Rightarrow> read_model_message list" where
  "chunks_of i qs = filter (\<lambda>q. wireId q = i) qs"

lemma stream_run:
  assumes "held n m t" "messageId m = i" "streaming m" "list_all wireStreaming (chunks_of i qs)"
    and "n + length (filter (\<lambda>q. wireId q \<noteq> i) qs) < MAX_THREAD_MESSAGES"
  shows "\<exists>m' n'. held n' m' (fold (deliver h) qs t) \<and> messageId m' = i \<and> streaming m' \<and> role m' = role m \<and>
    messageText m' = messageText m @ concat (map wireText (chunks_of i qs))"
  using assms
proof (induction qs arbitrary: n m t)
  case Nil
  then show ?case by (auto simp: chunks_of_def)
next
  case (Cons q qs)
  show ?case
  proof (cases "wireId q = i")
    case True
    obtain r where r: "held n r (deliver h q t)" "messageId r = messageId m" "role r = role m"
      "messageText r = mergedText m (incoming_for h q t)" "streaming r = wireStreaming q"
      by (rule deliver_own [OF Cons.prems(1), of q h]) (use True Cons.prems(2) in simp)
    have "wireStreaming q" using Cons.prems(4) True by (simp add: chunks_of_def)
    then have grown: "messageText r = messageText m @ wireText q" "streaming r"
      using r(4,5) by (simp_all add: mergedText_def incoming_fields)
    have "\<exists>m' n'. held n' m' (fold (deliver h) qs (deliver h q t)) \<and> messageId m' = i \<and> streaming m' \<and>
        role m' = role r \<and> messageText m' = messageText r @ concat (map wireText (chunks_of i qs))"
      by (rule Cons.IH [OF r(1)]) (use Cons.prems r(2) grown True in \<open>simp_all add: chunks_of_def\<close>)
    with r(3) grown(1) True show ?thesis by (simp add: chunks_of_def)
  next
    case False
    have "held (Suc n) m (deliver h q t)"
      by (rule deliver_other [OF Cons.prems(1)]) (use Cons.prems(2,5) False in simp_all)
    from Cons.IH [OF this Cons.prems(2,3)] Cons.prems(4,5) False show ?thesis by (simp add: chunks_of_def)
  qed
qed

lemma deliver_first:
  assumes "message_of t (wireId p) = None"
  shows "held 0 (incoming_for h p t) (deliver h p t)"
proof -
  have "find_index (\<lambda>m. messageId m = wireId p) (messages t) = None"
    using assms by (auto simp: message_of_def find_by_index split: option.splits)
  moreover from this have "\<forall>x\<in>set (messages t). messageId x \<noteq> wireId p" by (simp add: find_index_None_iff)
  ultimately show ?thesis
    unfolding held_def deliver_messages delivered_messages_def
    by (intro exI [of _ "slice_last (MAX_THREAD_MESSAGES - 1) (messages t)"] exI [of _ "[]"])
      (auto simp: slice_last_snoc MAX_THREAD_MESSAGES_def incoming_fields slice_last_def dest: in_set_dropD)
qed

text \<open>C22: A message that is new to the thread and streamed in chunks holds their concatenation while it streams, whatever roles, times and
  attachments the chunks carry and whatever other messages, fewer than 2000, are delivered in between. The
  final message that repeats the whole text, or carries none, completes it with exactly that text; only a
  final message of the user without text for a message of the user is excepted, it empties the message.\<close>

theorem streamed_message_complete:
  assumes "message_of t (wireId p) = None" "wireStreaming p" "list_all wireStreaming (chunks_of (wireId p) qs)"
    and "length (filter (\<lambda>q. wireId q \<noteq> wireId p) qs) < MAX_THREAD_MESSAGES"
    and "wireId f = wireId p" "\<not> wireStreaming f"
    and "s = concat (map wireText (p # chunks_of (wireId p) qs))"
    and "wireText f = s \<or> wireText f = [] \<and> \<not> (wireRole p = User \<and> wireRole f = User)"
  shows "text_is (fold (deliver h) (p # qs) t) (wireId p) s (wireRole p) True \<and>
    text_is (fold (deliver h) (p # qs @ [f]) t) (wireId p) s (wireRole p) False"
proof -
  let ?m = "incoming_for h p t"
  have "\<exists>m' n'. held n' m' (fold (deliver h) qs (deliver h p t)) \<and> messageId m' = wireId p \<and> streaming m' \<and>
      role m' = role ?m \<and> messageText m' = messageText ?m @ concat (map wireText (chunks_of (wireId p) qs))"
    by (rule stream_run [OF deliver_first [OF assms(1)]]) (use assms(2-4) in \<open>simp_all add: incoming_fields\<close>)
  then obtain m n where m: "held n m (fold (deliver h) (p # qs) t)" "messageId m = wireId p" "streaming m"
    "role m = wireRole p" "messageText m = s" using assms(7) by (auto simp: incoming_fields)
  from held_message_of [OF m(1)] m have live: "text_is (fold (deliver h) (p # qs) t) (wireId p) s (wireRole p) True"
    by (auto simp: text_is_def)
  obtain r where r: "held n r (deliver h f (fold (deliver h) (p # qs) t))" "messageId r = messageId m" "role r = role m"
    "messageText r = mergedText m (incoming_for h f (fold (deliver h) (p # qs) t))" "streaming r = wireStreaming f"
    by (rule deliver_own [OF m(1), of f h]) (use m(2) assms(5) in simp)
  have "messageText r = final_text (wireRole p) (wireRole f) s (wireText f)"
    using r(4) m(4,5) assms(6) by (simp add: mergedText_def incoming_fields final_text_def)
  then have "messageText r = s" using assms(8) final_text_repeat final_text_empty by metis
  with held_message_of [OF r(1)] r m assms(6) live show ?thesis by (auto simp: text_is_def)
qed

definition newThread :: thread where
  "newThread = seedThread \<lparr>createdThreadId = ''t'', createdProjectId = None, createdProviderId = None,
     createdModel = None, createdTime = ''2026''\<rparr>"

definition newMessage :: read_model_message where
  "newMessage = \<lparr>wireId = ''m'', wireRole = Assistant, wireText = [], wireAttachments = None,
     wireSkills = None, wireMentions = None, wireDispatchMode = None, wireTurnId = Some ''u'',
     wireStreaming = True, wireSource = None, wireCreatedAt = ''2026'', wireUpdatedAt = ''2026''\<rparr>"

lemma newMessage_new: "message_of newThread (wireId newMessage) = None"
  by (simp add: message_of_def newThread_def seedThread_def)

text \<open>A chunk, a message of the user, a chunk with another time, and a final message without text.\<close>

theorem streamed_message_complete_witness:
  "text_is (fold (deliver unitHost) [chunk newMessage ''Hel'', newMessage\<lparr>wireId := ''n'', wireRole := User\<rparr>,
      (chunk newMessage ''lo'')\<lparr>wireUpdatedAt := ''2027''\<rparr>, final newMessage []] newThread)
    (wireId newMessage) ''Hello'' Assistant False"
  using streamed_message_complete [of newThread "chunk newMessage ''Hel''"
    "[newMessage\<lparr>wireId := ''n'', wireRole := User\<rparr>, (chunk newMessage ''lo'')\<lparr>wireUpdatedAt := ''2027''\<rparr>]"
    "final newMessage []" "''Hello''" unitHost] newMessage_new
  by (simp add: chunks_of_def newMessage_def MAX_THREAD_MESSAGES_def)

text \<open>A final assistant message whose text neither extends nor is a prefix of what was streamed is
  appended to it, and appended again each time it is delivered.\<close>

theorem diverging_final_grows:
  assumes "text_is t (wireId p) s r live" "\<not> (r = User \<and> wireRole p = User)"
    and "length u \<le> length s" "\<not> str_starts s u"
  shows "text_is (deliver h (final p u) t) (wireId p) (s @ u) r False \<and>
    text_is (deliver h (final p u) (deliver h (final p u) t)) (wireId p) (s @ u @ u) r False"
proof -
  have one: "text_is (deliver h (final p u) t) (wireId p) (s @ u) r False"
    using deliver_final [OF assms(1), of h u] final_text_diverging [OF assms(2-4)] by simp
  have "final_text r (wireRole p) (s @ u) u = s @ u @ u"
    using final_text_diverging [OF assms(2), of u "s @ u"] assms(3,4) by (simp add: str_starts_append_le)
  with one deliver_final [OF one, of h u] show ?thesis by simp
qed

lemma newMessage_streamed:
  "text_is (deliver unitHost (chunk newMessage ''Hallo'') newThread) (wireId newMessage) ''Hallo'' Assistant True"
  using deliver_first_chunk [OF newMessage_new, of unitHost "''Hallo''"] by (simp add: newMessage_def)

theorem diverging_final_grows_witness:
  "text_is (deliver unitHost (final newMessage ''Hello'') (deliver unitHost (chunk newMessage ''Hallo'') newThread))
     (wireId newMessage) (''Hallo'' @ ''Hello'') Assistant False \<and>
   text_is (deliver unitHost (final newMessage ''Hello'') (deliver unitHost (final newMessage ''Hello'')
       (deliver unitHost (chunk newMessage ''Hallo'') newThread)))
     (wireId newMessage) (''Hallo'' @ ''Hello'' @ ''Hello'') Assistant False"
  by (rule diverging_final_grows [OF newMessage_streamed]) (simp_all add: newMessage_def str_starts_def)

end
