(* ===== verification/ThreadInvariant.thy ===== *)
theory ThreadInvariant
  imports AnnotationProperties ActivityProperties MessageProperties
begin

text \<open>
  What every event of the server keeps true of a thread: distinct ids of messages, activities, plans
  and diffs, the bound on the messages, and the invariants of the pins and the markers. One lemma per
  event, then the invariant for \<open>threadUpdater\<close>.
\<close>

definition thread_ok :: "thread \<Rightarrow> bool" where
  "thread_ok t \<longleftrightarrow>
     distinct (map messageId (messages t)) \<and> length (messages t) \<le> MAX_THREAD_MESSAGES \<and>
     distinct (map activityId (activities t)) \<and> distinct (map planId (proposedPlans t)) \<and>
     distinct (map diffTurnId (turnDiffSummaries t)) \<and>
     pins_ok (pinnedMessages t) \<and> markers_ok (threadMarkers t)"

lemma thread_okI:
  assumes "distinct (map messageId (messages t))" "length (messages t) \<le> MAX_THREAD_MESSAGES"
    "distinct (map activityId (activities t))" "distinct (map planId (proposedPlans t))"
    "distinct (map diffTurnId (turnDiffSummaries t))"
    "pins_ok (pinnedMessages t)" "markers_ok (threadMarkers t)"
  shows "thread_ok t"
  using assms by (simp add: thread_ok_def)

lemma thread_okD:
  assumes "thread_ok t"
  shows "distinct (map messageId (messages t))" "length (messages t) \<le> MAX_THREAD_MESSAGES"
    "distinct (map activityId (activities t))" "distinct (map planId (proposedPlans t))"
    "distinct (map diffTurnId (turnDiffSummaries t))"
    "pins_ok (pinnedMessages t)" "markers_ok (threadMarkers t)"
  using assms by (simp_all add: thread_ok_def)

text \<open>An update is sound when it keeps the id of the thread and the invariant.\<close>

definition sound :: "(thread \<Rightarrow> thread option) \<Rightarrow> bool" where
  "sound f \<longleftrightarrow> (\<forall>t t'. thread_ok t \<longrightarrow> f t = Some t' \<longrightarrow> thread_ok t' \<and> threadId t' = threadId t)"

lemma soundI [intro?]:
  "(\<And>t t'. thread_ok t \<Longrightarrow> f t = Some t' \<Longrightarrow> thread_ok t' \<and> threadId t' = threadId t) \<Longrightarrow> sound f"
  unfolding sound_def by blast

lemma soundD: "sound f \<Longrightarrow> thread_ok t \<Longrightarrow> f t = Some t' \<Longrightarrow> thread_ok t' \<and> threadId t' = threadId t"
  unfolding sound_def by blast

text \<open>The fields the invariant reads.\<close>

lemma thread_ok_cong:
  assumes "thread_ok t" "messages t' = messages t" "activities t' = activities t"
    "proposedPlans t' = proposedPlans t" "turnDiffSummaries t' = turnDiffSummaries t"
    "pinnedMessages t' = pinnedMessages t" "threadMarkers t' = threadMarkers t"
  shows "thread_ok t'"
  using assms by (simp add: thread_ok_def)

section \<open>Events that leave the lists alone\<close>

lemma sound_setThreadSession [wf_intros]: "sound (setThreadSession s at')"
  by (rule soundI) (auto simp: setThreadSession_def Let_def split: if_splits intro: thread_ok_cong)

lemma sound_stopThreadSession [wf_intros]: "sound (stopThreadSession at' occurredAt)"
  by (rule soundI) (auto simp: stopThreadSession_def split: option.splits intro: thread_ok_cong)

lemma sound_startThreadTurn [wf_intros]: "sound (startThreadTurn m r i plan at')"
  by (rule soundI) (auto simp: startThreadTurn_def Let_def split: if_splits intro: thread_ok_cong)

lemma sound_approvalResponse [wf_intros]: "sound (approvalResponse h r d n at')"
  by (rule soundI) (auto simp: approvalResponse_def intro: thread_ok_cong)

lemma sound_archiveThread [wf_intros]: "sound (archiveThread at' updated occurredAt)"
  by (rule soundI) (auto simp: archiveThread_def intro: thread_ok_cong)

lemma sound_unarchiveThread [wf_intros]: "sound (unarchiveThread updated occurredAt)"
  by (rule soundI) (auto simp: unarchiveThread_def intro: thread_ok_cong)

lemma sound_signals [wf_intros]: "sound (withDerivedThreadStateSignals h)"
  by (rule soundI)
    (auto simp: withDerivedThreadStateSignals_def Let_def split: if_splits intro: thread_ok_cong)

lemma sound_none [wf_intros]: "sound (\<lambda>t. None)"
  by (simp add: sound_def)

section \<open>Annotations\<close>

lemma sound_updatePins:
  assumes "\<And>pins. pins_ok pins \<Longrightarrow> pins_ok (Some (f pins))"
  shows "sound (updatePins f at')"
  by (rule soundI)
    (auto simp: updatePins_def Let_def thread_ok_def simp del: pins_ok_simps split: if_splits intro: assms)

lemma sound_updateMarkers:
  assumes "\<And>ms. markers_ok ms \<Longrightarrow> markers_ok (Some (f ms))"
  shows "sound (updateMarkers f at')"
  by (rule soundI) (auto simp: updateMarkers_def Let_def thread_ok_def split: if_splits intro: assms)

text \<open>The pins and markers a metadata event carries have to satisfy the invariants themselves.\<close>

definition patch_ok :: "meta_patch \<Rightarrow> bool" where
  "patch_ok p \<longleftrightarrow> pins_ok (metaPinnedMessages p) \<and> markers_ok (metaThreadMarkers p)"

lemma sound_updateThreadMeta:
  assumes "patch_ok p"
  shows "sound (updateThreadMeta p)"
proof
  fix t t' assume ok: "thread_ok t" and s: "updateThreadMeta p t = Some t'"
  have "threadId t' = threadId t" "messages t' = messages t" "activities t' = activities t"
    "proposedPlans t' = proposedPlans t" "turnDiffSummaries t' = turnDiffSummaries t"
    "pinnedMessages t' = orelse (metaPinnedMessages p) (pinnedMessages t)"
    "threadMarkers t' = orelse (metaThreadMarkers p) (threadMarkers t)"
    using s unfolding updateThreadMeta_def Let_def by (simp_all split: if_splits) (auto simp: orelse_def)
  with ok assms show "thread_ok t' \<and> threadId t' = threadId t"
    by (auto simp: thread_ok_def patch_ok_def orelse_def split: option.splits)
qed

section \<open>Lists changed by events\<close>

lemma distinct_slice_last: "distinct (map f xs) \<Longrightarrow> distinct (map f (slice_last n xs))"
  by (simp add: slice_last_def distinct_drop flip: drop_map)

lemma map_list_update_same: "i < length xs \<Longrightarrow> f y = f (xs ! i) \<Longrightarrow> map f (xs[i := y]) = map f xs"
  by (metis list_update_id map_update nth_map)

lemma find_indexD: "find_index P xs = Some i \<Longrightarrow> i < length xs \<and> P (xs ! i)"
proof (induction xs arbitrary: i)
  case (Cons x xs)
  then show ?case by (cases i) (auto split: if_splits)
qed simp

lemma filter_slice_ids:
  "distinct (map f xs) \<Longrightarrow> distinct (map f (slice_last n (filter P xs)))"
  by (intro distinct_slice_last distinct_map_filter)

lemma sound_appendActivity [wf_intros]: "sound (appendActivity a)"
proof
  fix t t' assume "thread_ok t" "appendActivity a t = Some t'"
  then show "thread_ok t' \<and> threadId t' = threadId t"
    unfolding appendActivity_def Let_def thread_ok_def by (auto split: if_splits)
qed

lemma planId_upsert:
  assumes "distinct (map planId plans)"
  shows "distinct (map planId (upsertProposedPlan p plans))"
proof (cases "find_index (\<lambda>q. planId q = planId p) plans")
  case None
  then have "planId p \<notin> planId ` set plans" by (auto simp: find_index_None_iff)
  with assms None show ?thesis by (simp add: upsertProposedPlan_def)
next
  case (Some i)
  from find_indexD [OF this] map_list_update_same [of i plans planId p] assms Some
  show ?thesis by (simp add: upsertProposedPlan_def)
qed

lemma sound_upsertPlan [wf_intros]: "sound (upsertPlan p)"
proof
  fix t t' assume "thread_ok t" "upsertPlan p t = Some t'"
  then show "thread_ok t' \<and> threadId t' = threadId t"
    unfolding upsertPlan_def Let_def thread_ok_def using planId_upsert by (auto split: if_splits)
qed

lemma sound_userInputResponse [wf_intros]: "sound (userInputResponse h r n at')"
proof
  fix t t' assume "thread_ok t" "userInputResponse h r n at' t = Some t'"
  then show "thread_ok t' \<and> threadId t' = threadId t"
    unfolding userInputResponse_def Let_def thread_ok_def
    by (fastforce simp: list_ex_iff)
qed

lemma diffTurnId_upsert:
  fixes ds :: "turn_diff list"
  assumes "distinct (map diffTurnId ds)"
  shows "distinct (map diffTurnId (if List.find (\<lambda>d. diffTurnId d = diffTurnId n) ds \<noteq> None
      then map (\<lambda>d. if diffTurnId d = diffTurnId n then n else d) ds
      else sortTurnDiffSummaries h (ds @ [n])))"
proof -
  have same: "map diffTurnId (map (\<lambda>d. if diffTurnId d = diffTurnId n then n else d) ds) = map diffTurnId ds"
    by simp
  have "List.find (\<lambda>d. diffTurnId d = diffTurnId n) ds = None \<Longrightarrow> diffTurnId n \<notin> diffTurnId ` set ds"
    by (auto simp: find_None_iff)
  with assms show ?thesis by (simp only: same sortTurnDiffSummaries_def distinct_map_sort_cmp split: if_split) simp
qed

lemma sound_turnDiff [wf_intros]: "sound (applyTurnDiffSummaryToThread h d)"
proof
  fix t t' assume ok: "thread_ok t" and s: "applyTurnDiffSummaryToThread h d t = Some t'"
  have id: "diffTurnId (normalizeSingleTurnDiffSummary d) = diffTurnId d"
    by (simp add: normalizeSingleTurnDiffSummary_def)
  note ds = diffTurnId_upsert [of "turnDiffSummaries t" "normalizeSingleTurnDiffSummary d" h, unfolded id]
  have "threadId t' = threadId t" "messages t' = messages t" "activities t' = activities t"
    "proposedPlans t' = proposedPlans t" "pinnedMessages t' = pinnedMessages t"
    "threadMarkers t' = threadMarkers t" "distinct (map diffTurnId (turnDiffSummaries t'))"
    using s ds thread_okD(5) [OF ok] unfolding applyTurnDiffSummaryToThread_def Let_def id
    by (simp_all split: if_splits) auto
  with ok show "thread_ok t' \<and> threadId t' = threadId t" by (simp add: thread_ok_def)
qed

section \<open>Revert and rollback\<close>

lemma sound_revertThread [wf_intros]: "sound (revertThread h n at')"
proof
  fix t t' assume ok: "thread_ok t" and s: "revertThread h n at' t = Some t'"
  note ids = thread_okD [OF ok]
  have "distinct (map messageId (messages t'))" "length (messages t') \<le> MAX_THREAD_MESSAGES"
    using s filter_slice_ids [OF ids(1)]
    unfolding revertThread_def Let_def retainThreadMessagesAfterRevert_def by auto
  moreover have "distinct (map activityId (activities t'))" "distinct (map planId (proposedPlans t'))"
    "distinct (map diffTurnId (turnDiffSummaries t'))"
    using s ids unfolding revertThread_def Let_def retainThreadProposedPlansAfterRevert_def
      retainThreadActivitiesAfterRevert_def sortByTurnCount_def
    by (auto simp: distinct_map_filter)
  moreover have "pinnedMessages t' = pinnedMessages t" "threadMarkers t' = threadMarkers t"
    "threadId t' = threadId t"
    using s unfolding revertThread_def Let_def by auto
  ultimately show "thread_ok t' \<and> threadId t' = threadId t" using ids by (simp add: thread_ok_def)
qed

lemma rollback_messages_take: "\<exists>k. fst (rollbackThreadMessagesFromMessage ms mid) = take k ms"
proof (cases "find_index (\<lambda>m. messageId m = mid) ms")
  case None
  then show ?thesis by (auto simp: rollbackThreadMessagesFromMessage_def intro!: exI [of _ "length ms"])
next
  case (Some i)
  then show ?thesis by (auto simp: rollbackThreadMessagesFromMessage_def)
qed

lemma sound_rollbackThread [wf_intros]: "sound (rollbackThread mid turns at')"
proof
  fix t t' assume ok: "thread_ok t" and s: "rollbackThread mid turns at' t = Some t'"
  obtain k where k: "fst (rollbackThreadMessagesFromMessage (messages t) mid) = take k (messages t)"
    using rollback_messages_take by blast
  have "distinct (map messageId (slice_last MAX_THREAD_MESSAGES (take k (messages t))))"
    using thread_okD(1) [OF ok] by (intro distinct_slice_last) (simp add: distinct_take flip: take_map)
  with thread_okD [OF ok] s show "thread_ok t' \<and> threadId t' = threadId t"
    unfolding rollbackThread_def Let_def thread_ok_def sortByTurnCount_def k
    by (auto simp: distinct_map_filter split: if_splits)
qed

section \<open>Messages\<close>

lemma delivered_ids:
  assumes "distinct (map messageId (messages t))" "delivered_messages h p t = Some ms"
  shows "distinct (map messageId ms)"
proof (cases "find_index (\<lambda>m. messageId m = wireId p) (messages t)")
  case None
  then have "wireId p \<notin> messageId ` set (messages t)" by (auto simp: find_index_None_iff)
  with assms(1) have "distinct (map messageId (messages t @ [incoming_for h p t]))"
    by (simp add: incoming_fields)
  from None assms(2) distinct_slice_last [OF this, of MAX_THREAD_MESSAGES] show ?thesis
    unfolding delivered_messages_def by auto
next
  case (Some i)
  with assms(2) obtain r where r: "mergeStreamingMessage (messages t ! i) (incoming_for h p t) = Some r"
    "ms = (messages t)[i := r]" by (auto simp: delivered_messages_def)
  from find_indexD [OF Some] merge_id [OF r(1)]
  have "map messageId ms = map messageId (messages t)" unfolding r(2) by (simp add: map_list_update_same)
  with assms(1) show ?thesis by simp
qed

lemma delivered_length:
  assumes "length (messages t) \<le> MAX_THREAD_MESSAGES" "delivered_messages h p t = Some ms"
  shows "length ms \<le> MAX_THREAD_MESSAGES"
  using assms by (auto simp: delivered_messages_def split: option.splits)

lemma delivered_fields:
  assumes "applyThreadMessageSentEvent h p t = Some t'"
  shows "messages t' = nullish (delivered_messages h p t) (messages t)" "threadId t' = threadId t"
    "activities t' = activities t" "proposedPlans t' = proposedPlans t"
    "pinnedMessages t' = pinnedMessages t" "threadMarkers t' = threadMarkers t"
    "map diffTurnId (turnDiffSummaries t') = map diffTurnId (turnDiffSummaries t)"
proof -
  show "messages t' = nullish (delivered_messages h p t) (messages t)"
    using deliver_messages [of h p t] assms by (simp add: deliver_def)
  have "map diffTurnId (rebindTurnDiffSummariesForAssistantMessage ds turn m) = map diffTurnId ds" for ds turn m
    by (simp add: rebindTurnDiffSummariesForAssistantMessage_def)
  then show "threadId t' = threadId t" "activities t' = activities t"
    "proposedPlans t' = proposedPlans t" "pinnedMessages t' = pinnedMessages t"
    "threadMarkers t' = threadMarkers t"
    "map diffTurnId (turnDiffSummaries t') = map diffTurnId (turnDiffSummaries t)"
    using assms unfolding applyThreadMessageSentEvent_def Let_def
    by (auto split: message_role.splits option.splits if_splits)
qed

lemma sound_messageSent [wf_intros]: "sound (applyThreadMessageSentEvent h p)"
proof
  fix t t' assume ok: "thread_ok t" and s: "applyThreadMessageSentEvent h p t = Some t'"
  note f = delivered_fields [OF s]
  have "distinct (map messageId (messages t'))" "length (messages t') \<le> MAX_THREAD_MESSAGES"
    using thread_okD(1,2) [OF ok] delivered_ids [of t h p] delivered_length [of t h p] unfolding f(1)
    by (cases "delivered_messages h p t"; simp)+
  with thread_okD [OF ok] f(2-) show "thread_ok t' \<and> threadId t' = threadId t" by (simp add: thread_ok_def)
qed

section \<open>Every event\<close>

fun event_ok :: "thread_event \<Rightarrow> bool" where
  "event_ok (MetaUpdated p) = patch_ok p"
| "event_ok _ = True"

lemma sound_threadUpdater:
  assumes "event_ok e"
  shows "sound (threadUpdater h e)"
  using assms
  by (cases e) (auto simp del: pins_ok_simps intro!: wf_intros sound_updatePins sound_updateMarkers sound_updateThreadMeta)

lemma sound_updatedThread:
  assumes "sound f"
  shows "sound (updatedThread h recompute f)"
proof
  fix t t' assume t: "thread_ok t" "updatedThread h recompute f t = Some t'"
  have f: "thread_ok (nullish (f t) t) \<and> threadId (nullish (f t) t) = threadId t"
    using soundD [OF assms t(1)] t(1) by (cases "f t") auto
  from t(2) consider "f t = Some t'" | "withDerivedThreadStateSignals h (nullish (f t) t) = Some t'"
    by (auto simp: updatedThread_def Let_def orelse_def split: if_splits option.splits)
  then show "thread_ok t' \<and> threadId t' = threadId t"
  proof cases
    case 1
    with f show ?thesis by simp
  next
    case 2
    with soundD [OF sound_signals [of h] conjunct1 [OF f] 2] f show ?thesis by simp
  qed
qed

end
