(* ===== verification/StoreProperties.thy ===== *)
theory StoreProperties
  imports ThreadInvariant
begin

text \<open>
  The normalized client store against the dictionary of threads it stands for: what is read back
  after a write, the invariant of the store, the refinement of \<open>applyOrchestrationEvent\<close> to updates
  of the dictionary, and what deleting a thread promises.
\<close>

section \<open>Reading what was written\<close>

lemma collect_slice:
  assumes "distinct (map f xs)"
  shows "collectByIds (Some (map f xs)) (Some (from_entries (map (\<lambda>x. (f x, x)) xs))) = xs"
proof -
  have entries: "from_entries (map (\<lambda>x. (f x, x)) xs) = map (\<lambda>x. (f x, x)) xs"
    by (rule from_entries_id) (simp add: assms comp_def)
  have "map_of (map (\<lambda>x. (f x, x)) xs) (f x) = Some x" if "x \<in> set xs" for x
    using assms that by (induction xs) (auto simp: image_iff)
  then have "cat_options (map (\<lambda>x. map_of (map (\<lambda>x. (f x, x)) xs) (f x)) xs) = map (\<lambda>x. x) xs"
    by (rule cat_options_map_Some)
  then show ?thesis unfolding entries by (simp add: collectByIds_def comp_def)
qed

text \<open>The shell that is stored: the one that was there when the two count as equal.\<close>

definition keptShell :: "thread_shell option \<Rightarrow> thread_shell \<Rightarrow> thread_shell" where
  "keptShell previous shell = (case previous of None \<Rightarrow> shell
     | Some p \<Rightarrow> if threadShellsEqual p shell then p else shell)"

lemma writeShell_get:
  "rec_get (threadShellById (writeShell i shell st)) j =
     (if j = i then Some (keptShell (rec_get (threadShellById st) i) shell) else rec_get (threadShellById st) j)"
  by (auto simp: writeShell_def keptShell_def rec_get_set split: option.splits)

lemma writeShell_rest [simp]:
  "appThreads (writeShell i shell st) = appThreads st"
  "sidebarSummaries (writeShell i shell st) = sidebarSummaries st"
  "appThreadIds (writeShell i shell st) = appThreadIds st"
  "threadSessionById (writeShell i shell st) = threadSessionById st"
  "threadTurnStateById (writeShell i shell st) = threadTurnStateById st"
  "messageIdsByThreadId (writeShell i shell st) = messageIdsByThreadId st"
  "messageByThreadId (writeShell i shell st) = messageByThreadId st"
  "activityIdsByThreadId (writeShell i shell st) = activityIdsByThreadId st"
  "activityByThreadId (writeShell i shell st) = activityByThreadId st"
  "proposedPlanIdsByThreadId (writeShell i shell st) = proposedPlanIdsByThreadId st"
  "proposedPlanByThreadId (writeShell i shell st) = proposedPlanByThreadId st"
  "turnDiffIdsByThreadId (writeShell i shell st) = turnDiffIdsByThreadId st"
  "turnDiffSummaryByThreadId (writeShell i shell st) = turnDiffSummaryByThreadId st"
  "deletedThreadIdsById (writeShell i shell st) = deletedThreadIdsById st"
  by (simp_all add: writeShell_def)

lemma write_shell:
  "rec_get (threadShellById (writeThreadState n p st)) j =
     (if j = threadId n then Some (keptShell (rec_get (threadShellById st) j) (toThreadShell n))
      else rec_get (threadShellById st) j)"
  unfolding writeThreadState_def ensureThreadRegistered_def Let_def
  by (simp add: writeShell_get)

lemma write_session:
  "rec_get (threadSessionById (writeThreadState n p st)) j =
     (if j = threadId n \<and> Option.bind p session \<noteq> session n then Some (session n)
      else rec_get (threadSessionById st) j)"
  unfolding writeThreadState_def ensureThreadRegistered_def Let_def
  by (simp add: rec_get_set)

lemma write_turn:
  "rec_get (threadTurnStateById (writeThreadState n p st)) j =
     (if j = threadId n then Some (toThreadTurnState n) else rec_get (threadTurnStateById st) j)"
  unfolding writeThreadState_def ensureThreadRegistered_def Let_def
  by (simp add: rec_get_set)

lemma write_messages:
  "rec_get (messageIdsByThreadId (writeThreadState n p st)) j =
     (if j = threadId n \<and> map_option messages p \<noteq> Some (messages n)
      then Some (fst (buildMessageSlice n)) else rec_get (messageIdsByThreadId st) j)"
  "rec_get (messageByThreadId (writeThreadState n p st)) j =
     (if j = threadId n \<and> map_option messages p \<noteq> Some (messages n)
      then Some (snd (buildMessageSlice n)) else rec_get (messageByThreadId st) j)"
  unfolding writeThreadState_def ensureThreadRegistered_def Let_def
  by (simp_all add: rec_get_set del: map_option_eq_Some)

lemma write_activities:
  "rec_get (activityIdsByThreadId (writeThreadState n p st)) j =
     (if j = threadId n \<and> map_option activities p \<noteq> Some (activities n)
      then Some (fst (buildActivitySlice n)) else rec_get (activityIdsByThreadId st) j)"
  "rec_get (activityByThreadId (writeThreadState n p st)) j =
     (if j = threadId n \<and> map_option activities p \<noteq> Some (activities n)
      then Some (snd (buildActivitySlice n)) else rec_get (activityByThreadId st) j)"
  unfolding writeThreadState_def ensureThreadRegistered_def Let_def
  by (simp_all add: rec_get_set del: map_option_eq_Some)

lemma write_plans:
  "rec_get (proposedPlanIdsByThreadId (writeThreadState n p st)) j =
     (if j = threadId n \<and> map_option proposedPlans p \<noteq> Some (proposedPlans n)
      then Some (fst (buildProposedPlanSlice n)) else rec_get (proposedPlanIdsByThreadId st) j)"
  "rec_get (proposedPlanByThreadId (writeThreadState n p st)) j =
     (if j = threadId n \<and> map_option proposedPlans p \<noteq> Some (proposedPlans n)
      then Some (snd (buildProposedPlanSlice n)) else rec_get (proposedPlanByThreadId st) j)"
  unfolding writeThreadState_def ensureThreadRegistered_def Let_def
  by (simp_all add: rec_get_set del: map_option_eq_Some)

lemma write_diffs:
  "rec_get (turnDiffIdsByThreadId (writeThreadState n p st)) j =
     (if j = threadId n \<and> map_option turnDiffSummaries p \<noteq> Some (turnDiffSummaries n)
      then Some (fst (buildTurnDiffSlice n)) else rec_get (turnDiffIdsByThreadId st) j)"
  "rec_get (turnDiffSummaryByThreadId (writeThreadState n p st)) j =
     (if j = threadId n \<and> map_option turnDiffSummaries p \<noteq> Some (turnDiffSummaries n)
      then Some (snd (buildTurnDiffSlice n)) else rec_get (turnDiffSummaryByThreadId st) j)"
  unfolding writeThreadState_def ensureThreadRegistered_def Let_def
  by (simp_all add: rec_get_set del: map_option_eq_Some)

lemmas write_slices = write_shell write_session write_turn write_messages write_activities
  write_plans write_diffs

lemma write_rest:
  "appThreads (writeThreadState n p st) = appThreads st"
  "sidebarSummaries (writeThreadState n p st) = sidebarSummaries st"
  "deletedThreadIdsById (writeThreadState n p st) = deletedThreadIdsById st"
  "appThreadIds (writeThreadState n p st) =
     (if threadId n \<in> set (appThreadIds st) then appThreadIds st else appThreadIds st @ [threadId n])"
  unfolding writeThreadState_def ensureThreadRegistered_def Let_def by simp_all

text \<open>
  A thread as the store gives it back after it replaced another: the activities are capped, and when
  the two shells count as equal the notes and the pull request are still the old ones.
\<close>

definition stored :: "thread option \<Rightarrow> thread \<Rightarrow> thread" where
  "stored p t =
     (let u = (case p of None \<Rightarrow> t
         | Some c \<Rightarrow> if threadShellsEqual (toThreadShell c) (toThreadShell t)
             then t\<lparr>lastKnownPr := lastKnownPr c, threadNotes := threadNotes c\<rparr> else t)
      in u\<lparr>activities := capThreadActivities (activities t)\<rparr>)"

lemma threadShellsEqual_copy:
  assumes "threadShellsEqual a b"
  shows "a = b\<lparr>lastKnownPr := lastKnownPr a, threadNotes := threadNotes a\<rparr>"
proof -
  have "a = (a\<lparr>lastKnownPr := None, threadNotes := None\<rparr>)\<lparr>lastKnownPr := lastKnownPr a, threadNotes := threadNotes a\<rparr>"
    by simp
  also have "\<dots> = (b\<lparr>lastKnownPr := None, threadNotes := None\<rparr>)\<lparr>lastKnownPr := lastKnownPr a, threadNotes := threadNotes a\<rparr>"
    using assms unfolding threadShellsEqual_def by argo
  finally show ?thesis by simp
qed

lemma toThreadShell_simps:
  "threadId (toThreadShell t) = threadId t" "lastKnownPr (toThreadShell t) = lastKnownPr t"
  "threadNotes (toThreadShell t) = threadNotes t" "pinnedMessages (toThreadShell t) = pinnedMessages t"
  "threadMarkers (toThreadShell t) = threadMarkers t"
  "toThreadShell (t\<lparr>lastKnownPr := pr, threadNotes := notes'\<rparr>) =
     (toThreadShell t)\<lparr>lastKnownPr := pr, threadNotes := notes'\<rparr>"
  "toThreadShell (t\<lparr>activities := as\<rparr>) = toThreadShell t"
  by (cases t; simp add: toThreadShell_def thread_shell.defs)+

lemma toThreadShell_stored:
  "toThreadShell (stored p t) = keptShell (map_option toThreadShell p) (toThreadShell t)"
proof (cases p)
  case None
  then show ?thesis by (simp add: stored_def keptShell_def toThreadShell_simps)
next
  case (Some c)
  show ?thesis
  proof (cases "threadShellsEqual (toThreadShell c) (toThreadShell t)")
    case True
    with threadShellsEqual_copy [OF True] Some show ?thesis
      by (simp add: stored_def keptShell_def toThreadShell_simps)
  qed (use Some in \<open>simp add: stored_def keptShell_def toThreadShell_simps\<close>)
qed

lemma stored_fields:
  "activities (stored p t) = capThreadActivities (activities t)" "messages (stored p t) = messages t"
  "proposedPlans (stored p t) = proposedPlans t" "turnDiffSummaries (stored p t) = turnDiffSummaries t"
  "pinnedMessages (stored p t) = pinnedMessages t" "threadMarkers (stored p t) = threadMarkers t"
  "threadId (stored p t) = threadId t" "session (stored p t) = session t" "latestTurn (stored p t) = latestTurn t"
  "pendingSourceProposedPlan (stored p t) = pendingSourceProposedPlan t"
  by (simp_all add: stored_def Let_def split: option.splits)

lemma extend_truncate:
  "thread_shell.extend (toThreadShell t) (thread.fields (session t) (messages t) (proposedPlans t)
     (latestTurn t) (pendingSourceProposedPlan t) (turnDiffSummaries t) (activities t)) = t"
  by (cases t) (simp add: toThreadShell_def thread_shell.defs thread.defs)

definition readSession :: "app_state \<Rightarrow> string \<Rightarrow> thread_session option" where
  "readSession st i = nullish (rec_get (threadSessionById st) i) None"

definition readMessages :: "app_state \<Rightarrow> string \<Rightarrow> chat_message list" where
  "readMessages st i = collectByIds (rec_get (messageIdsByThreadId st) i)
     (Some (nullish (rec_get (messageByThreadId st) i) []))"

definition readPlans :: "app_state \<Rightarrow> string \<Rightarrow> proposed_plan list" where
  "readPlans st i = collectByIds (rec_get (proposedPlanIdsByThreadId st) i)
     (Some (nullish (rec_get (proposedPlanByThreadId st) i) []))"

definition readDiffs :: "app_state \<Rightarrow> string \<Rightarrow> turn_diff list" where
  "readDiffs st i = collectByIds (rec_get (turnDiffIdsByThreadId st) i)
     (Some (nullish (rec_get (turnDiffSummaryByThreadId st) i) []))"

definition readActivities :: "app_state \<Rightarrow> string \<Rightarrow> activity list" where
  "readActivities st i = collectByIds (rec_get (activityIdsByThreadId st) i)
     (Some (nullish (rec_get (activityByThreadId st) i) []))"

lemmas read_defs = readSession_def readMessages_def readPlans_def readDiffs_def readActivities_def

lemma getThread_eq:
  "getThreadFromState st i = map_option (\<lambda>shell. thread_shell.extend shell (thread.fields
     (readSession st i) (readMessages st i) (readPlans st i)
     (Option.bind (rec_get (threadTurnStateById st) i) sliceLatestTurn)
     (Option.bind (rec_get (threadTurnStateById st) i) slicePendingPlan)
     (readDiffs st i) (readActivities st i))) (rec_get (threadShellById st) i)"
  by (simp add: getThreadFromState_def read_defs Let_def split: option.splits)

lemma read_write_other:
  assumes "j \<noteq> threadId n"
  shows "readSession (writeThreadState n p st) j = readSession st j"
    "readMessages (writeThreadState n p st) j = readMessages st j"
    "readPlans (writeThreadState n p st) j = readPlans st j"
    "readDiffs (writeThreadState n p st) j = readDiffs st j"
    "readActivities (writeThreadState n p st) j = readActivities st j"
  using assms by (simp_all add: read_defs write_slices)

lemma get_write_other:
  "j \<noteq> threadId n \<Longrightarrow> getThreadFromState (writeThreadState n p st) j = getThreadFromState st j"
  unfolding getThread_eq by (simp add: write_slices read_write_other)

lemma getThread_fields:
  assumes "getThreadFromState st i = Some t"
  shows "session t = readSession st i" "messages t = readMessages st i" "proposedPlans t = readPlans st i"
    "turnDiffSummaries t = readDiffs st i" "activities t = readActivities st i"
    "rec_get (threadShellById st) i = Some (toThreadShell t)"
  using assms
  by (auto simp: getThread_eq thread.defs thread_shell.defs toThreadShell_def)

text \<open>What the slices hold of a thread after it was written, given what they held before.\<close>

lemma read_written:
  assumes "thread_ok n" "getThreadFromState st (threadId n) = p"
    and "p = None \<longrightarrow> rec_get (threadSessionById st) (threadId n) = None"
    and "\<forall>c. p = Some c \<longrightarrow> capThreadActivities (activities c) = activities c"
  shows "readSession (writeThreadState n p st) (threadId n) = session n"
    "readMessages (writeThreadState n p st) (threadId n) = messages n"
    "readPlans (writeThreadState n p st) (threadId n) = proposedPlans n"
    "readDiffs (writeThreadState n p st) (threadId n) = turnDiffSummaries n"
    "readActivities (writeThreadState n p st) (threadId n) = capThreadActivities (activities n)"
proof -
  note ok = thread_okD [OF assms(1)]
  show "readSession (writeThreadState n p st) (threadId n) = session n"
  proof (cases p)
    case None
    with assms(3) show ?thesis by (cases "session n") (simp_all add: readSession_def write_slices)
  next
    case (Some c)
    with getThread_fields(1) [of st "threadId n" c] assms(2) show ?thesis
      by (cases "session c = session n") (simp_all add: readSession_def write_slices)
  qed
  show "readMessages (writeThreadState n p st) (threadId n) = messages n"
  proof (cases "map_option messages p = Some (messages n)")
    case True
    with getThread_fields(2) [of st "threadId n"] assms(2) show ?thesis
      by (auto simp: readMessages_def write_slices)
  next
    case False
    then show ?thesis
      by (simp add: readMessages_def write_slices buildMessageSlice_def collect_slice ok)
  qed
  show "readPlans (writeThreadState n p st) (threadId n) = proposedPlans n"
  proof (cases "map_option proposedPlans p = Some (proposedPlans n)")
    case True
    with getThread_fields(3) [of st "threadId n"] assms(2) show ?thesis
      by (auto simp: readPlans_def write_slices)
  next
    case False
    then show ?thesis
      by (simp add: readPlans_def write_slices buildProposedPlanSlice_def collect_slice ok)
  qed
  show "readDiffs (writeThreadState n p st) (threadId n) = turnDiffSummaries n"
  proof (cases "map_option turnDiffSummaries p = Some (turnDiffSummaries n)")
    case True
    with getThread_fields(4) [of st "threadId n"] assms(2) show ?thesis
      by (auto simp: readDiffs_def write_slices)
  next
    case False
    then show ?thesis
      by (simp add: readDiffs_def write_slices buildTurnDiffSlice_def collect_slice ok)
  qed
  show "readActivities (writeThreadState n p st) (threadId n) = capThreadActivities (activities n)"
  proof (cases "map_option activities p = Some (activities n)")
    case True
    with getThread_fields(5) [of st "threadId n"] assms(2,4) show ?thesis
      by (auto simp: readActivities_def write_slices)
  next
    case False
    then show ?thesis
      by (simp add: readActivities_def write_slices buildActivitySlice_def Let_def dedupe_activities_id ok
          collect_slice distinct_cap)
  qed
qed

lemma get_written:
  assumes "thread_ok n" "getThreadFromState st (threadId n) = p"
    and "p = None \<longrightarrow> rec_get (threadSessionById st) (threadId n) = None"
    and "\<forall>c. p = Some c \<longrightarrow> capThreadActivities (activities c) = activities c"
  shows "getThreadFromState (writeThreadState n p st) (threadId n) = Some (stored p n)"
proof -
  have "rec_get (threadShellById st) (threadId n) = map_option toThreadShell p"
    using assms(2) getThread_fields(6) [of st "threadId n"] by (cases p) (auto simp: getThread_eq)
  then show ?thesis
    using extend_truncate [of "stored p n"]
    by (simp add: getThread_eq read_written [OF assms] write_slices toThreadTurnState_def
        toThreadShell_stored stored_fields)
qed

section \<open>The invariant of the store\<close>

definition known :: "app_state \<Rightarrow> string set" where
  "known st = {i. rec_get (threadShellById st) i \<noteq> None}"

text \<open>Nothing is kept of the lists and the session of a thread.\<close>

definition no_slices :: "app_state \<Rightarrow> string \<Rightarrow> bool" where
  "no_slices st i \<longleftrightarrow> rec_get (threadSessionById st) i = None \<and>
     rec_get (messageIdsByThreadId st) i = None \<and> rec_get (activityIdsByThreadId st) i = None \<and>
     rec_get (proposedPlanIdsByThreadId st) i = None \<and> rec_get (turnDiffIdsByThreadId st) i = None"

definition stored_ok :: "thread \<Rightarrow> bool" where
  "stored_ok t \<longleftrightarrow> thread_ok t \<and> capThreadActivities (activities t) = activities t"

text \<open>
  The listed ids are the ids with a shell, each once; a thread is stored under its own id and is
  sound; there are no slices of an unknown thread and no unknown thread in the array.
\<close>

definition store_ok :: "app_state \<Rightarrow> bool" where
  "store_ok st \<longleftrightarrow>
     distinct (appThreadIds st) \<and> set (appThreadIds st) = known st \<and>
     (\<forall>i t. getThreadFromState st i = Some t \<longrightarrow> threadId t = i \<and> stored_ok t) \<and>
     (\<forall>i. i \<notin> known st \<longrightarrow> no_slices st i) \<and>
     threadId ` set (appThreads st) \<subseteq> known st"

lemma store_okI:
  assumes "distinct (appThreadIds st)" "set (appThreadIds st) = known st"
    "\<And>i t. getThreadFromState st i = Some t \<Longrightarrow> threadId t = i \<and> stored_ok t"
    "\<And>i. i \<notin> known st \<Longrightarrow> no_slices st i"
    "\<And>t. t \<in> set (appThreads st) \<Longrightarrow> threadId t \<in> known st"
  shows "store_ok st"
  using assms unfolding store_ok_def by blast

lemma store_okD:
  assumes "store_ok st"
  shows "distinct (appThreadIds st)" "set (appThreadIds st) = known st"
    "getThreadFromState st i = Some t \<Longrightarrow> threadId t = i \<and> stored_ok t"
    "i \<notin> known st \<Longrightarrow> no_slices st i"
    "u \<in> set (appThreads st) \<Longrightarrow> threadId u \<in> known st"
  using assms unfolding store_ok_def by blast+

lemma getThread_known: "getThreadFromState st i = None \<longleftrightarrow> i \<notin> known st"
  by (simp add: getThread_eq known_def)

lemma currentThread_get:
  assumes "store_ok st"
  shows "currentThread st i = getThreadFromState st i"
proof (cases "getThreadFromState st i")
  case None
  then have "i \<notin> threadId ` set (appThreads st)" using assms by (auto simp: getThread_known store_ok_def)
  then have "List.find (\<lambda>t. threadId t = i) (appThreads st) = None" by (auto simp: find_None_iff)
  with None show ?thesis by (simp add: currentThread_def)
qed (simp add: currentThread_def)

lemma known_write: "known (writeThreadState n p st) = insert (threadId n) (known st)"
  by (auto simp: known_def write_slices)

lemma stored_ok_stored:
  assumes "thread_ok t"
  shows "stored_ok (stored p t)"
proof -
  have "thread_ok (stored p t)"
    by (rule thread_okI) (simp_all add: stored_fields distinct_cap thread_okD [OF assms])
  then show ?thesis using cap_idem [OF thread_okD(3) [OF assms]] by (simp only: stored_ok_def stored_fields)
qed

lemma write_get:
  assumes "store_ok st" "thread_ok n" "getThreadFromState st (threadId n) = p"
  shows "getThreadFromState (writeThreadState n p st) = (getThreadFromState st)(threadId n \<mapsto> stored p n)"
proof
  fix j
  have "p = None \<longrightarrow> rec_get (threadSessionById st) (threadId n) = None"
    using assms(1,3) getThread_known store_okD(4) [OF assms(1), of "threadId n"]
    by (auto simp: no_slices_def)
  moreover have "\<forall>c. p = Some c \<longrightarrow> capThreadActivities (activities c) = activities c"
    using assms(1,3) by (auto simp: store_ok_def stored_ok_def)
  ultimately show "getThreadFromState (writeThreadState n p st) j =
      ((getThreadFromState st)(threadId n \<mapsto> stored p n)) j"
    using get_written [OF assms(2,3)] get_write_other [of j n p st] by (cases "j = threadId n") auto
qed

lemma write_ok:
  assumes "store_ok st" "thread_ok n" "getThreadFromState st (threadId n) = p"
  shows "store_ok (writeThreadState n p st)"
proof (rule store_okI)
  show "distinct (appThreadIds (writeThreadState n p st))"
    using store_okD(1) [OF assms(1)] by (simp add: write_rest)
  show "set (appThreadIds (writeThreadState n p st)) = known (writeThreadState n p st)"
    using store_okD(2) [OF assms(1)] by (auto simp: write_rest known_write)
next
  fix i t assume "getThreadFromState (writeThreadState n p st) i = Some t"
  then have "((getThreadFromState st)(threadId n \<mapsto> stored p n)) i = Some t" by (simp only: write_get [OF assms])
  then have "i = threadId n \<and> t = stored p n \<or> getThreadFromState st i = Some t"
    unfolding fun_upd_apply by (metis option.inject)
  then show "threadId t = i \<and> stored_ok t"
    using stored_ok_stored [OF assms(2)] store_okD(3) [OF assms(1), of i t] stored_fields(7) by metis
next
  fix i assume "i \<notin> known (writeThreadState n p st)"
  then show "no_slices (writeThreadState n p st) i"
    using store_okD(4) [OF assms(1), of i] by (simp add: no_slices_def write_slices known_write)
next
  fix t assume "t \<in> set (appThreads (writeThreadState n p st))"
  then show "threadId t \<in> known (writeThreadState n p st)"
    using store_okD(5) [OF assms(1), of t] by (simp add: write_rest known_write)
qed

section \<open>Committing and deleting\<close>

lemma commit_rest:
  "appThreadIds (commitThreadProjection h i a s st) = appThreadIds st"
  "threadShellById (commitThreadProjection h i a s st) = threadShellById st"
  "no_slices (commitThreadProjection h i a s st) = no_slices st"
  "getThreadFromState (commitThreadProjection h i a s st) = getThreadFromState st"
  by (auto simp: commitThreadProjection_def getThread_eq read_defs no_slices_def Let_def fun_eq_iff
      split: option.splits)

lemma commit_threads:
  assumes "t \<in> set (appThreads (commitThreadProjection h i a s st))"
  shows "t \<in> set (appThreads st) \<or> getThreadFromState st i = Some t"
  using assms by (auto simp: commitThreadProjection_def Let_def split: option.splits if_splits)

lemma commit_ok:
  assumes "store_ok st"
  shows "store_ok (commitThreadProjection h i a s st)"
proof -
  have known: "known (commitThreadProjection h i a s st) = known st" by (simp add: known_def commit_rest)
  have "threadId t \<in> known st" if "t \<in> set (appThreads (commitThreadProjection h i a s st))" for t
    using commit_threads [OF that]
  proof
    assume "getThreadFromState st i = Some t"
    with store_okD(3) [OF assms this] getThread_known [of st i] show ?thesis by simp
  qed (rule store_okD(5) [OF assms])
  with assms show ?thesis
    unfolding store_ok_def known commit_rest by blast
qed

lemma remove_get:
  "getThreadFromState (removeDeletedThreadFromClientState i st) = (getThreadFromState st)(i := None)"
  by (auto simp: removeDeletedThreadFromClientState_def removeThreadState_def getThread_eq read_defs
      rec_get_delete Let_def fun_eq_iff)

lemma remove_rest:
  "appThreadIds (removeDeletedThreadFromClientState i st) = filter (\<lambda>j. j \<noteq> i) (appThreadIds st)"
  "appThreads (removeDeletedThreadFromClientState i st) = filter (\<lambda>t. threadId t \<noteq> i) (appThreads st)"
  "threadSessionById (removeDeletedThreadFromClientState i st) = rec_delete i (threadSessionById st)"
  "messageIdsByThreadId (removeDeletedThreadFromClientState i st) = rec_delete i (messageIdsByThreadId st)"
  "activityIdsByThreadId (removeDeletedThreadFromClientState i st) = rec_delete i (activityIdsByThreadId st)"
  "proposedPlanIdsByThreadId (removeDeletedThreadFromClientState i st) = rec_delete i (proposedPlanIdsByThreadId st)"
  "turnDiffIdsByThreadId (removeDeletedThreadFromClientState i st) = rec_delete i (turnDiffIdsByThreadId st)"
  "known (removeDeletedThreadFromClientState i st) = known st - {i}"
  by (auto simp: known_def removeDeletedThreadFromClientState_def removeThreadState_def rec_get_delete Let_def)

lemma remove_ok:
  assumes "store_ok st"
  shows "store_ok (removeDeletedThreadFromClientState i st)"
proof (rule store_okI)
  show "distinct (appThreadIds (removeDeletedThreadFromClientState i st))"
    using store_okD(1) [OF assms] by (simp add: remove_rest)
  show "set (appThreadIds (removeDeletedThreadFromClientState i st)) =
      known (removeDeletedThreadFromClientState i st)"
    using store_okD(2) [OF assms] by (auto simp: remove_rest)
next
  fix j t assume "getThreadFromState (removeDeletedThreadFromClientState i st) j = Some t"
  then have "getThreadFromState st j = Some t" unfolding remove_get by (metis fun_upd_apply option.distinct(1))
  then show "threadId t = j \<and> stored_ok t" by (rule store_okD(3) [OF assms])
next
  fix j assume "j \<notin> known (removeDeletedThreadFromClientState i st)"
  then show "no_slices (removeDeletedThreadFromClientState i st) j"
    using store_okD(4) [OF assms, of j] by (auto simp: no_slices_def remove_rest rec_get_delete)
next
  fix t assume "t \<in> set (appThreads (removeDeletedThreadFromClientState i st))"
  then show "threadId t \<in> known (removeDeletedThreadFromClientState i st)"
    using store_okD(5) [OF assms, of t] by (auto simp: remove_rest)
qed

section \<open>The dictionary of threads\<close>

text \<open>A store whose steps, seen through an abstraction, are those of a specification.\<close>

locale refining_store = invariant_store step ok inv
  for step :: "'s \<Rightarrow> 'a \<Rightarrow> 's" and ok :: "'s \<Rightarrow> 'a \<Rightarrow> bool" and inv :: "'s \<Rightarrow> bool" +
  fixes absf :: "'s \<Rightarrow> 'm" and spec :: "'a \<Rightarrow> 'm \<Rightarrow> 'm"
  assumes step_abs: "inv s \<Longrightarrow> ok s a \<Longrightarrow> absf (step s a) = spec a (absf s)"
begin

lemma run_abs: "inv s \<Longrightarrow> admissible step ok s as \<Longrightarrow> absf (run_actions step s as) = fold spec as (absf s)"
  by (induction as arbitrary: s) (auto simp: step_abs step_inv)

end

text \<open>
  The specification: creating enters an empty thread unless there is one, deleting removes it, any
  other event replaces the thread by the updated one as the store keeps it, if there is one
  and the update changes it. The other threads stay as they are.
\<close>

definition signals :: "thread_event \<Rightarrow> bool" where
  "signals e = optSignals (eventOptions False False e)"

lemma optSignals_eq: "optSignals (eventOptions arr side e) = signals e"
  by (cases e) (simp_all add: signals_def)

fun spec_event :: "host \<Rightarrow> orchestration_event \<Rightarrow> (string \<Rightarrow> thread option) \<Rightarrow> string \<Rightarrow> thread option" where
  "spec_event h (ThreadCreated c) m =
     (if m (createdThreadId c) = None then m(createdThreadId c \<mapsto> seedThread c) else m)"
| "spec_event h (ThreadDeleted i) m = m(i := None)"
| "spec_event h (ThreadEvent i e) m =
     (if ignoredEvent e then m
      else case Option.bind (m i) (updatedThread h (signals e) (threadUpdater h e)) of
        None \<Rightarrow> m | Some t \<Rightarrow> m(i \<mapsto> stored (m i) t))"

fun orchestration_ok :: "orchestration_event \<Rightarrow> bool" where
  "orchestration_ok (ThreadEvent i e) = event_ok e"
| "orchestration_ok _ = True"

lemma seed_ok: "thread_ok (seedThread c)"
  by (rule thread_okI) (simp_all add: seedThread_def markers_ok_def)

lemma seed_stored: "stored None (seedThread c) = seedThread c"
  by (simp add: stored_def seedThread_def capThreadActivities_def)

lemma seed_id: "threadId (seedThread c) = createdThreadId c"
  by (simp add: seedThread_def)

lemma update_step:
  assumes "store_ok st" "sound f"
  shows "store_ok (applyThreadUpdate h i opts f st) \<and>
    getThreadFromState (applyThreadUpdate h i opts f st) =
      (case Option.bind (getThreadFromState st i) (updatedThread h (optSignals opts) f) of
         None \<Rightarrow> getThreadFromState st
       | Some t \<Rightarrow> (getThreadFromState st)(i \<mapsto> stored (getThreadFromState st i) t))"
proof (cases "Option.bind (getThreadFromState st i) (updatedThread h (optSignals opts) f)")
  case None
  then have "applyThreadUpdate h i opts f st = st"
    by (auto simp: applyThreadUpdate_def currentThread_get [OF assms(1)] split: option.splits)
  with None assms(1) show ?thesis by simp
next
  case (Some n)
  then obtain c where c: "getThreadFromState st i = Some c"
    "updatedThread h (optSignals opts) f c = Some n"
    by (auto simp: bind_eq_Some_conv)
  have "thread_ok c" "threadId c = i" using store_okD(3) [OF assms(1) c(1)] by (simp_all add: stored_ok_def)
  with soundD [OF sound_updatedThread [OF assms(2)] _ c(2)]
  have n: "thread_ok n" "threadId n = i" by simp_all
  have eq: "applyThreadUpdate h i opts f st =
      commitThreadProjection h i (optThreadArray opts) (optSidebar opts) (writeThreadState n (Some c) st)"
    using c by (simp add: applyThreadUpdate_def currentThread_get [OF assms(1)])
  have g: "getThreadFromState st (threadId n) = Some c" using c(1) n(2) by simp
  show ?thesis
    unfolding eq Some commit_rest
    using commit_ok [OF write_ok [OF assms(1) n(1) g]] write_get [OF assms(1) n(1) g] n(2) c(1) by simp
qed

lemma apply_step:
  assumes "store_ok st" "orchestration_ok ev"
  shows "store_ok (applyOrchestrationEvent h arr side st ev) \<and>
    getThreadFromState (applyOrchestrationEvent h arr side st ev) = spec_event h ev (getThreadFromState st)"
proof (cases ev)
  case (ThreadCreated c)
  show ?thesis
  proof (cases "getThreadFromState st (createdThreadId c)")
    case None
    then have g: "getThreadFromState st (threadId (seedThread c)) = None" by (simp add: seed_id)
    from ThreadCreated None show ?thesis
      using write_ok [OF assms(1) seed_ok g] write_get [OF assms(1) seed_ok g]
      by (simp add: seed_stored seed_id)
  next
    case (Some t)
    with ThreadCreated assms(1) show ?thesis by simp
  qed
next
  case (ThreadDeleted i)
  with assms(1) show ?thesis using remove_ok remove_get by simp
next
  case (ThreadEvent i e)
  with assms update_step [OF assms(1) sound_threadUpdater, of e h i "eventOptions arr side e" h] show ?thesis
    by (simp add: optSignals_eq)
qed

interpretation client: refining_store
  "applyOrchestrationEvent h arr side" "\<lambda>st. orchestration_ok" store_ok getThreadFromState "spec_event h"
  for h arr side
  by unfold_locales (use apply_step in blast)+

section \<open>Runs of events\<close>

lemma admissible_all: "admissible step (\<lambda>_. P) s as \<longleftrightarrow> list_all P as"
  by (induction as arbitrary: s) auto

lemma list_all_conj: "list_all (\<lambda>x. P x \<and> Q x) xs \<longleftrightarrow> list_all P xs \<and> list_all Q xs"
  by (auto simp: list_all_iff)

lemma run_actions_foldl: "run_actions step s as = foldl step s as"
  by (induction as arbitrary: s) auto

lemma hot_path_run:
  "applyOrchestrationEventsHotPath h arr side evs st = run_actions (applyOrchestrationEvent h arr side) st evs"
  by (simp add: applyOrchestrationEventsHotPath_def run_actions_foldl)

lemma initial_get: "getThreadFromState initialAppState = Map.empty"
  by (simp add: fun_eq_iff getThreadFromState_def initialAppState_def)

lemma initial_ok: "store_ok initialAppState"
  unfolding store_ok_def initial_get by (simp add: known_def no_slices_def initialAppState_def)

text \<open>Whatever the server sends, in whatever order and however often, the store lists exactly the
  threads it can read, each once and under its own id; every thread read has distinct messages
  (at most 2000), activities, plans and diffs, one pin per message and no overlapping markers.\<close>

theorem projection_runs_sound:
  assumes "store_ok st" "list_all orchestration_ok evs"
  shows "store_ok (applyOrchestrationEventsHotPath h arr side evs st)"
  unfolding hot_path_run
  by (rule client.run_inv [OF assms(1)]) (simp add: admissible_all assms(2))

definition sampleCreation :: created_thread where
  "sampleCreation = \<lparr>createdThreadId = ''t'', createdProjectId = None, createdProviderId = None,
     createdModel = None, createdTime = ''2026''\<rparr>"

definition sampleEvents :: "orchestration_event list" where
  "sampleEvents =
     [ThreadCreated sampleCreation,
      ThreadEvent ''t'' (MessageSent newMessage),
      ThreadEvent ''t'' (Archived None None ''2027''),
      ThreadDeleted ''u'']"

lemma sampleEvents_ok: "list_all orchestration_ok sampleEvents"
  by (simp add: sampleEvents_def sampleCreation_def)

theorem projection_runs_sound_witness:
  "store_ok (applyOrchestrationEventsHotPath unitHost True False sampleEvents initialAppState)"
  by (rule projection_runs_sound [OF initial_ok sampleEvents_ok])

text \<open>The fourteen dictionaries of the store implement one dictionary from thread ids to threads:
  after any run of events, what is read for each id is what the specification, which creates,
  deletes or updates one entry per event, leaves there.\<close>

theorem store_refines_threads:
  assumes "store_ok st" "list_all orchestration_ok evs"
  shows "getThreadFromState (applyOrchestrationEventsHotPath h arr side evs st) =
    fold (spec_event h) evs (getThreadFromState st)"
  unfolding hot_path_run
  by (rule client.run_abs [OF assms(1)]) (simp add: admissible_all assms(2))

theorem store_refines_threads_witness:
  "getThreadFromState (applyOrchestrationEventsHotPath unitHost True False sampleEvents initialAppState) =
    fold (spec_event unitHost) sampleEvents Map.empty"
  using store_refines_threads [OF initial_ok sampleEvents_ok, of unitHost True False]
  unfolding initial_get .

section \<open>Deleting\<close>

fun about :: "orchestration_event \<Rightarrow> string" where
  "about (ThreadCreated c) = createdThreadId c"
| "about (ThreadDeleted i) = i"
| "about (ThreadEvent i e) = i"

fun creates :: "string \<Rightarrow> orchestration_event \<Rightarrow> bool" where
  "creates i (ThreadCreated c) = (createdThreadId c = i)"
| "creates i _ = False"

lemma spec_other: "about ev \<noteq> i \<Longrightarrow> spec_event h ev m i = m i"
  by (cases ev) (auto split: option.splits)

lemma spec_gone: "m i = None \<Longrightarrow> \<not> creates i ev \<Longrightarrow> spec_event h ev m i = None"
  by (cases ev) (auto split: option.splits)

lemma specs_gone: "m i = None \<Longrightarrow> list_all (\<lambda>ev. \<not> creates i ev) evs \<Longrightarrow> fold (spec_event h) evs m i = None"
  by (induction evs arbitrary: m) (auto simp: spec_gone)

lemma store_run:
  assumes "store_ok st" "list_all orchestration_ok evs"
  shows "store_ok (applyOrchestrationEventsHotPath h arr side evs st)"
    "getThreadFromState (applyOrchestrationEventsHotPath h arr side evs st) =
      fold (spec_event h) evs (getThreadFromState st)"
  unfolding hot_path_run
  by (rule client.run_inv [OF assms(1)] client.run_abs [OF assms(1)], simp add: admissible_all assms(2))+

text \<open>Events about one thread, creation and deletion included, leave every other thread as it is.\<close>

theorem events_keep_other_threads:
  assumes "store_ok st" "list_all (\<lambda>ev. orchestration_ok ev \<and> about ev \<noteq> i) evs"
  shows "getThreadFromState (applyOrchestrationEventsHotPath h arr side evs st) i = getThreadFromState st i"
proof -
  have "list_all (\<lambda>ev. about ev \<noteq> i) evs \<Longrightarrow> fold (spec_event h) evs m i = m i" for m
    by (induction evs arbitrary: m) (auto simp: spec_other)
  then show ?thesis using store_run(2) [OF assms(1)] assms(2) by (simp add: list_all_conj)
qed

theorem events_keep_other_threads_witness:
  "getThreadFromState (applyOrchestrationEventsHotPath unitHost True False sampleEvents initialAppState) ''v'' =
    getThreadFromState initialAppState ''v''"
  by (rule events_keep_other_threads [OF initial_ok]) (simp add: sampleEvents_def sampleCreation_def)

text \<open>Once a thread is deleted, no event but a creation with its id brings it back: it can not be
  read, is not listed and is not in the array of threads.\<close>

theorem deleted_thread_stays_gone:
  fixes h :: host and arr side :: bool
  assumes "store_ok st" "list_all (\<lambda>ev. orchestration_ok ev \<and> \<not> creates i ev) evs"
  defines "st' \<equiv> applyOrchestrationEventsHotPath h arr side (ThreadDeleted i # evs) st"
  shows "getThreadFromState st' i = None \<and> i \<notin> set (appThreadIds st') \<and> i \<notin> threadId ` set (appThreads st')"
proof -
  have ok: "list_all orchestration_ok (ThreadDeleted i # evs)" using assms(2) by (simp add: list_all_conj)
  have "getThreadFromState st' i = None"
    unfolding st'_def store_run(2) [OF assms(1) ok] using assms(2) by (simp add: list_all_conj specs_gone)
  moreover have "store_ok st'" unfolding st'_def by (rule store_run(1) [OF assms(1) ok])
  ultimately show ?thesis
    using store_okD(2) [of st'] store_okD(5) [of st'] getThread_known [of st' i] by blast
qed

theorem deleted_thread_stays_gone_witness:
  "getThreadFromState (applyOrchestrationEventsHotPath unitHost True False (ThreadDeleted ''u'' # sampleEvents)
      initialAppState) ''u'' = None \<and>
   ''u'' \<notin> set (appThreadIds (applyOrchestrationEventsHotPath unitHost True False
      (ThreadDeleted ''u'' # sampleEvents) initialAppState)) \<and>
   ''u'' \<notin> threadId ` set (appThreads (applyOrchestrationEventsHotPath unitHost True False
      (ThreadDeleted ''u'' # sampleEvents) initialAppState))"
  by (rule deleted_thread_stays_gone [OF initial_ok]) (simp add: sampleEvents_def sampleCreation_def)

text \<open>C9: A creation that arrives after the deletion does bring the thread back, empty, although the
  store goes on listing its id as deleted.\<close>

theorem late_creation_revives_deleted:
  fixes h :: host and arr side :: bool and c :: created_thread
  assumes "store_ok st"
  defines "st' \<equiv> applyOrchestrationEventsHotPath h arr side [ThreadDeleted (createdThreadId c), ThreadCreated c] st"
  shows "getThreadFromState st' (createdThreadId c) = Some (seedThread c) \<and>
    createdThreadId c \<in> set (deletedThreadIdsById st')"
proof
  have ok: "list_all orchestration_ok [ThreadDeleted (createdThreadId c), ThreadCreated c]" by simp
  show "getThreadFromState st' (createdThreadId c) = Some (seedThread c)"
    unfolding st'_def store_run(2) [OF assms(1) ok] by simp
  have "createdThreadId c \<in> set (deletedThreadIdsById (removeDeletedThreadFromClientState (createdThreadId c) st))"
    by (simp add: removeDeletedThreadFromClientState_def Let_def key_add_def)
  then show "createdThreadId c \<in> set (deletedThreadIdsById st')"
    by (simp add: st'_def applyOrchestrationEventsHotPath_def write_rest)
qed

theorem late_creation_revives_deleted_witness:
  "getThreadFromState (applyOrchestrationEventsHotPath unitHost True False
      [ThreadDeleted (createdThreadId sampleCreation),
       ThreadCreated sampleCreation] initialAppState)
     (createdThreadId sampleCreation) =
     Some (seedThread sampleCreation) \<and>
   createdThreadId sampleCreation \<in>
     set (deletedThreadIdsById (applyOrchestrationEventsHotPath unitHost True False
      [ThreadDeleted (createdThreadId sampleCreation),
       ThreadCreated sampleCreation] initialAppState))"
  by (rule late_creation_revives_deleted [OF initial_ok])

end
