(* ===== verification/DiffProperties.thy ===== *)
theory DiffProperties
  imports StoreProperties
begin

text \<open>
  The diffs of a thread's turns and going back: merging the file changes of a diff by path, and what
  a rollback to a message removes and keeps.
\<close>

section \<open>Files of a diff\<close>

text \<open>Every entry of the merged dictionary is stored under its path.\<close>

definition by_path :: "diff_file js_record \<Rightarrow> bool" where
  "by_path r \<longleftrightarrow> distinct (map fst r) \<and> (\<forall>(k, f)\<in>set r. filePath f = k)"

definition total :: "(diff_file \<Rightarrow> nat option) \<Rightarrow> string \<Rightarrow> diff_file list \<Rightarrow> nat" where
  "total g p fs = sum_list (map (\<lambda>f. nullish (g f) 0) (filter (\<lambda>f. filePath f = p) fs))"

lemma total_simps [simp]:
  "total g p [] = 0"
  "total g p (f # fs) = (if filePath f = p then nullish (g f) 0 else 0) + total g p fs"
  "total g p (fs @ hs) = total g p fs + total g p hs"
  by (simp_all add: total_def)

lemma by_path_get:
  assumes "by_path r"
  shows "total g p (map snd r) = (case rec_get r p of None \<Rightarrow> 0 | Some f \<Rightarrow> nullish (g f) 0)"
  using assms
proof (induction r)
  case (Cons e r)
  obtain k f where e: "e = (k, f)" by (cases e)
  from Cons.prems have r: "by_path r" "filePath f = k" "k \<notin> fst ` set r" by (auto simp: by_path_def e)
  then have "rec_get r k = None" by (simp add: map_of_eq_None_iff)
  with Cons.IH [OF r(1)] r(2) show ?case by (auto simp: e)
qed simp

lemma by_path_set: "by_path r \<Longrightarrow> filePath f = k \<Longrightarrow> by_path (rec_set k f r)"
  by (auto simp: by_path_def rec_set_distinct dest: rec_set_mem)

lemma mergeFileRound_by_path: "by_path r \<Longrightarrow> by_path (mergeFileRound f r)"
  by (auto simp: mergeFileRound_def by_path_set split: option.splits)

lemma mergeFileRound_keys: "fst ` set (mergeFileRound f r) = insert (filePath f) (fst ` set r)"
  by (auto simp: mergeFileRound_def rec_set_keys split: option.splits)

lemma mergeFileRound_total:
  assumes "by_path r" "g = additions \<or> g = deletions"
  shows "total g p (map snd (mergeFileRound f r)) =
    total g p (map snd r) + (if filePath f = p then nullish (g f) 0 else 0)"
  unfolding by_path_get [OF assms(1)] by_path_get [OF mergeFileRound_by_path [OF assms(1)]]
  using assms(2) by (auto simp: mergeFileRound_def rec_get_set split: option.splits)

lemma fold_mergeFileRound:
  assumes "by_path r"
  shows "by_path (fold mergeFileRound fs r)"
    "fst ` set (fold mergeFileRound fs r) = filePath ` set fs \<union> fst ` set r"
    "g = additions \<or> g = deletions \<Longrightarrow>
       total g p (map snd (fold mergeFileRound fs r)) = total g p (map snd r) + total g p fs"
  using assms
  by (induction fs arbitrary: r)
    (auto simp: mergeFileRound_by_path mergeFileRound_keys mergeFileRound_total)

lemma by_path_paths: "by_path r \<Longrightarrow> map filePath (map snd r) = map fst r"
  by (induction r) (auto simp: by_path_def)

lemma distinct_merged: "distinct (map filePath (mergeTurnDiffFilesByPath files))"
proof -
  have m: "by_path (fold mergeFileRound files [])"
    by (rule fold_mergeFileRound(1)) (simp add: by_path_def)
  then show ?thesis
    unfolding mergeTurnDiffFilesByPath_def by_path_paths [OF m] by (simp add: by_path_def)
qed

text \<open>Merging the file changes of a turn leaves one entry per path, for exactly the paths that
  changed, and every path keeps its number of added and of deleted lines.\<close>

theorem diff_files_merged:
  "distinct (map filePath (mergeTurnDiffFilesByPath files)) \<and>
   filePath ` set (mergeTurnDiffFilesByPath files) = filePath ` set files \<and>
   total additions p (mergeTurnDiffFilesByPath files) = total additions p files \<and>
   total deletions p (mergeTurnDiffFilesByPath files) = total deletions p files"
proof -
  have empty: "by_path []" by (simp add: by_path_def)
  note m = fold_mergeFileRound [OF empty]
  have "filePath ` set (mergeTurnDiffFilesByPath files) = fst ` set (fold mergeFileRound files [])"
    unfolding mergeTurnDiffFilesByPath_def using by_path_paths [OF m(1), of files] by (metis image_set)
  moreover have "total g p (mergeTurnDiffFilesByPath files) = total g p files" if "g = additions \<or> g = deletions" for g
    unfolding mergeTurnDiffFilesByPath_def m(3) [OF that] by simp
  ultimately show ?thesis using distinct_merged m(2) by simp
qed

text \<open>Merging again changes nothing.\<close>

lemma fold_fresh_files:
  "distinct (map filePath fs) \<Longrightarrow> filePath ` set fs \<inter> fst ` set r = {} \<Longrightarrow>
     fold mergeFileRound fs r = r @ map (\<lambda>f. (filePath f, f)) fs"
proof (induction fs arbitrary: r)
  case (Cons f fs)
  then have fresh: "filePath f \<notin> fst ` set r" by auto
  then have "mergeFileRound f r = r @ [(filePath f, f)]"
    by (simp add: mergeFileRound_def map_of_eq_None_iff rec_set_fresh split: option.splits)
      (metis domI dom_map_of_conv_image_fst)
  with Cons show ?case by auto
qed simp

lemma merge_files_idem: "mergeTurnDiffFilesByPath (mergeTurnDiffFilesByPath fs) = mergeTurnDiffFilesByPath fs"
proof -
  have "mergeTurnDiffFilesByPath gs = gs" if "distinct (map filePath gs)" for gs
    using fold_fresh_files [OF that, of "[]"] by (simp add: mergeTurnDiffFilesByPath_def comp_def)
  then show ?thesis using distinct_merged by blast
qed

section \<open>Rollback\<close>

text \<open>The messages from the one with the id on, none when there is none.\<close>

definition from_message :: "string \<Rightarrow> chat_message list \<Rightarrow> chat_message list" where
  "from_message mid ms = dropWhile (\<lambda>m. messageId m \<noteq> mid) ms"

definition turns_of :: "chat_message list \<Rightarrow> string set" where
  "turns_of ms = {turn. \<exists>m\<in>set ms. messageTurnId m = Some (Some turn)}"

lemma find_index_cuts:
  "case find_index P xs of
     None \<Rightarrow> takeWhile (\<lambda>x. \<not> P x) xs = xs \<and> dropWhile (\<lambda>x. \<not> P x) xs = []
   | Some i \<Rightarrow> take i xs = takeWhile (\<lambda>x. \<not> P x) xs \<and> drop i xs = dropWhile (\<lambda>x. \<not> P x) xs"
  by (induction xs) (auto split: option.splits)

lemma rollback_messages:
  "fst (rollbackThreadMessagesFromMessage ms mid) = takeWhile (\<lambda>m. messageId m \<noteq> mid) ms"
  "set (snd (rollbackThreadMessagesFromMessage ms mid)) = turns_of (from_message mid ms)"
proof -
  have "fst (rollbackThreadMessagesFromMessage ms mid) = takeWhile (\<lambda>m. messageId m \<noteq> mid) ms \<and>
    set (snd (rollbackThreadMessagesFromMessage ms mid)) = turns_of (from_message mid ms)"
  proof (cases "find_index (\<lambda>m. messageId m = mid) ms")
    case None
    then have cut: "takeWhile (\<lambda>m. messageId m \<noteq> mid) ms = ms" "from_message mid ms = []"
      using find_index_cuts [of "\<lambda>m. messageId m = mid" ms] by (simp_all add: from_message_def)
    show ?thesis
      unfolding rollbackThreadMessagesFromMessage_def None option.case cut fst_conv snd_conv
      by (simp add: turns_of_def)
  next
    case (Some i)
    then have cut: "take i ms = takeWhile (\<lambda>m. messageId m \<noteq> mid) ms" "drop i ms = from_message mid ms"
      using find_index_cuts [of "\<lambda>m. messageId m = mid" ms] by (simp_all add: from_message_def)
    show ?thesis
      unfolding rollbackThreadMessagesFromMessage_def Some option.case cut fst_conv snd_conv
      by (auto simp: turns_of_def split: option.splits)
  qed
  then show "fst (rollbackThreadMessagesFromMessage ms mid) = takeWhile (\<lambda>m. messageId m \<noteq> mid) ms"
    "set (snd (rollbackThreadMessagesFromMessage ms mid)) = turns_of (from_message mid ms)" by simp_all
qed

text \<open>The turns a rollback removes: those of the messages cut off and those the event names.\<close>

definition removed_turns :: "string \<Rightarrow> string list \<Rightarrow> thread \<Rightarrow> string set" where
  "removed_turns mid turns t = turns_of (from_message mid (messages t)) \<union> set turns"

definition turn_kept :: "string set \<Rightarrow> string option \<Rightarrow> bool" where
  "turn_kept gone turn \<longleftrightarrow> (case turn of None \<Rightarrow> True | Some i \<Rightarrow> i \<notin> gone)"

lemma rollback_fields:
  assumes "thread_ok t" "rollbackThread mid turns at' t = Some t'"
  shows "messages t' = takeWhile (\<lambda>m. messageId m \<noteq> mid) (messages t)"
    "activities t' = filter (\<lambda>a. turn_kept (removed_turns mid turns t) (activityTurnId a)) (activities t)"
    "proposedPlans t' = filter (\<lambda>p. turn_kept (removed_turns mid turns t) (planTurnId p)) (proposedPlans t)"
    "turnDiffSummaries t' = sortByTurnCount
       (filter (\<lambda>d. diffTurnId d \<notin> removed_turns mid turns t) (turnDiffSummaries t))"
    "latestTurn t' = checkpointTurn (turnDiffSummaries t')" "pendingSourceProposedPlan t' = None"
    "updatedAt t' = bumpUpdatedAt t at'"
proof -
  let ?rb = "rollbackThreadMessagesFromMessage (messages t) mid"
  have gone: "set (js_dedup (snd ?rb @ turns)) = removed_turns mid turns t"
    by (simp add: removed_turns_def rollback_messages(2))
  have "length (takeWhile (\<lambda>m. messageId m \<noteq> mid) (messages t)) \<le> MAX_THREAD_MESSAGES"
    using thread_okD(2) [OF assms(1)] length_takeWhile_le le_trans by blast
  then have cut: "slice_last MAX_THREAD_MESSAGES (fst ?rb) = takeWhile (\<lambda>m. messageId m \<noteq> mid) (messages t)"
    by (simp add: rollback_messages(1) slice_last_all)
  show "messages t' = takeWhile (\<lambda>m. messageId m \<noteq> mid) (messages t)"
    "activities t' = filter (\<lambda>a. turn_kept (removed_turns mid turns t) (activityTurnId a)) (activities t)"
    "proposedPlans t' = filter (\<lambda>p. turn_kept (removed_turns mid turns t) (planTurnId p)) (proposedPlans t)"
    "turnDiffSummaries t' = sortByTurnCount
       (filter (\<lambda>d. diffTurnId d \<notin> removed_turns mid turns t) (turnDiffSummaries t))"
    "latestTurn t' = checkpointTurn (turnDiffSummaries t')" "pendingSourceProposedPlan t' = None"
    "updatedAt t' = bumpUpdatedAt t at'"
    using assms(2) unfolding rollbackThread_def Let_def gone cut turn_kept_def
    by (auto split: if_splits)
qed

lemma rollback_none:
  assumes "rollbackThread mid turns at' t = None"
  shows "mid \<notin> messageId ` set (messages t)" "turns = []"
proof -
  have "length (takeWhile (\<lambda>m. messageId m \<noteq> mid) (messages t)) = length (messages t)" "turns = []"
    using assms by (auto simp: rollbackThread_def Let_def rollback_messages(1) split: if_splits)
  then have "takeWhile (\<lambda>m. messageId m \<noteq> mid) (messages t) = messages t"
    by (metis append_Nil2 length_0_conv length_append add_cancel_right_right takeWhile_dropWhile_id)
  then show "mid \<notin> messageId ` set (messages t)" by (auto simp: takeWhile_eq_all_conv)
  show "turns = []" by fact
qed

text \<open>A rollback to a message leaves the messages before it and nothing of the turns it removes:
  the message is gone with all that follow, no activity, plan or diff of a turn of theirs (or of a
  turn the event names) is left, and those of the other turns are all kept.\<close>

theorem rollback_removes_turns:
  fixes t :: thread
  assumes "thread_ok t" "rollbackThread mid turns at' t = Some t'"
  defines "gone \<equiv> removed_turns mid turns t"
  shows "mid \<notin> messageId ` set (messages t') \<and> (\<exists>rest. messages t = messages t' @ rest) \<and>
    set (activities t') = {a \<in> set (activities t). turn_kept gone (activityTurnId a)} \<and>
    set (proposedPlans t') = {p \<in> set (proposedPlans t). turn_kept gone (planTurnId p)} \<and>
    set (turnDiffSummaries t') = {d \<in> set (turnDiffSummaries t). diffTurnId d \<notin> gone}"
proof -
  note f = rollback_fields [OF assms(1,2)]
  have "messages t = messages t' @ dropWhile (\<lambda>m. messageId m \<noteq> mid) (messages t)"
    by (simp add: f(1))
  moreover have "mid \<notin> messageId ` set (messages t')" by (auto simp: f(1) dest: set_takeWhileD)
  ultimately show ?thesis unfolding f(2-4) gone_def by (auto simp: sortByTurnCount_def)
qed

definition talkedThread :: thread where
  "talkedThread = newThread\<lparr>messages := [normalizeChatMessage unitHost newMessage None]\<rparr>"

lemma talkedThread_ok: "thread_ok talkedThread"
  by (rule thread_okI)
    (simp_all add: talkedThread_def newThread_def seedThread_def markers_ok_def MAX_THREAD_MESSAGES_def)

theorem rollback_removes_turns_witness:
  "''m'' \<notin> messageId ` set (messages (the (rollbackThread ''m'' [''u''] ''2027'' talkedThread))) \<and>
   (\<exists>rest. messages talkedThread = messages (the (rollbackThread ''m'' [''u''] ''2027'' talkedThread)) @ rest) \<and>
   set (activities (the (rollbackThread ''m'' [''u''] ''2027'' talkedThread))) =
     {a \<in> set (activities talkedThread).
        turn_kept (removed_turns ''m'' [''u''] talkedThread) (activityTurnId a)} \<and>
   set (proposedPlans (the (rollbackThread ''m'' [''u''] ''2027'' talkedThread))) =
     {p \<in> set (proposedPlans talkedThread).
        turn_kept (removed_turns ''m'' [''u''] talkedThread) (planTurnId p)} \<and>
   set (turnDiffSummaries (the (rollbackThread ''m'' [''u''] ''2027'' talkedThread))) =
     {d \<in> set (turnDiffSummaries talkedThread).
        diffTurnId d \<notin> removed_turns ''m'' [''u''] talkedThread}"
  by (rule rollback_removes_turns [OF talkedThread_ok]) (simp add: rollbackThread_def Let_def)

end
