(* ===== verification/ThreadSync.thy ===== *)
theory ThreadSync
  imports StoreEvents
begin

text \<open>
  Threads as the server sends them whole (\<open>frontend/src/store.ts\<close>): the shells of the sidebar stream
  and of its snapshot, the details of a thread and the read model; how they are normalized, and how a
  detail that arrives late is merged with what was streamed since. An object that is returned because
  it equals the new one is the same value; where the two can differ the model says which is returned.
\<close>

section \<open>Threads of the server\<close>

record shell_thread =
  shId :: string
  shProjectId :: string
  shTitle :: string
  shModelSelection :: model_selection
  shRuntimeMode :: string
  shInteractionMode :: string
  shEnvMode :: "string option"
  shBranch :: "string option"
  shWorktreePath :: "string option"
  shAssociatedWorktreePath :: "string option"
  shAssociatedWorktreeBranch :: "string option"
  shAssociatedWorktreeRef :: "string option"
  shCreateBranchFlowCompleted :: "bool option"
  shIsPinned :: "bool option"
  shParentThreadId :: "string option"
  shSubagentAgentId :: "string option"
  shSubagentNickname :: "string option"
  shSubagentRole :: "string option"
  shForkSourceThreadId :: "string option"
  shSidechatSourceThreadId :: "string option"
  shLastKnownPr :: "json option"
  shLatestTurn :: "latest_turn option"
  shLatestUserMessageAt :: "string option option"
  shHasPendingApprovals :: "bool option"
  shHasPendingUserInput :: "bool option"
  shHasActionableProposedPlan :: "bool option"
  shCreatedAt :: string
  shUpdatedAt :: string
  shArchivedAt :: "string option"
  shHandoff :: "json option"
  shSession :: "wire_session option"

record read_model_thread = shell_thread +
  rmDeletedAt :: "string option"
  rmPinnedMessages :: "pinned_message list option"
  rmThreadMarkers :: "thread_marker list option"
  rmNotes :: "string option"
  rmMessages :: "read_model_message list"
  rmProposedPlans :: "proposed_plan list option"
  rmActivities :: "activity list"
  rmCheckpoints :: "turn_diff list option"

section \<open>Normalization\<close>

definition normalizeLatestTurn :: "latest_turn option \<Rightarrow> latest_turn option" where
  "normalizeLatestTurn incoming =
     map_option (\<lambda>t. \<lparr>latestTurnId = latestTurnId t, latestTurnState = latestTurnState t,
       requestedAt = requestedAt t, startedAt = startedAt t, completedAt = completedAt t,
       assistantMessageId = assistantMessageId t, sourceProposedPlan = sourceProposedPlan t\<rparr>) incoming"

definition normalizeProposedPlans :: "proposed_plan list option \<Rightarrow> proposed_plan list" where
  "normalizeProposedPlans incoming =
     map (\<lambda>p. \<lparr>planId = planId p, planTurnId = planTurnId p, planMarkdown = planMarkdown p,
       implementedAt = implementedAt p, implementationThreadId = implementationThreadId p,
       planCreatedAt = planCreatedAt p, planUpdatedAt = planUpdatedAt p\<rparr>) (nullish incoming [])"

definition normalizeTurnDiffFiles :: "diff_file list \<Rightarrow> diff_file list" where
  "normalizeTurnDiffFiles incoming = mergeTurnDiffFilesByPath incoming"

definition normalizeTurnDiffSummaries :: "turn_diff list option \<Rightarrow> turn_diff list" where
  "normalizeTurnDiffSummaries incoming =
     map (\<lambda>c. \<lparr>diffTurnId = diffTurnId c, diffCompletedAt = diffCompletedAt c, diffStatus = diffStatus c,
       diffFiles = normalizeTurnDiffFiles (diffFiles c), checkpointRef = checkpointRef c,
       diffAssistantMessageId = diffAssistantMessageId c, checkpointTurnCount = checkpointTurnCount c\<rparr>)
       (nullish incoming [])"

text \<open>The previous object is kept when it is an equal copy, which may list its fields in another order.\<close>

definition keepEqualCopy :: "json option \<Rightarrow> json option \<Rightarrow> json option" where
  "keepEqualCopy previous incoming =
     (case (previous, incoming) of
        (Some p, Some i) \<Rightarrow> if deepEqual p i then previous else incoming
      | _ \<Rightarrow> incoming)"

definition incomingContext :: "'a shell_thread_scheme \<Rightarrow> thread option \<Rightarrow> branch_context" where
  "incomingContext incoming previous =
     \<lparr>ctxBranch = resolveThreadBranchRegressionGuard (Option.bind previous branch) (shBranch incoming),
      ctxWorktreePath = shWorktreePath incoming,
      ctxAssociatedPath = shAssociatedWorktreePath incoming,
      ctxAssociatedBranch = shAssociatedWorktreeBranch incoming,
      ctxAssociatedRef = shAssociatedWorktreeRef incoming\<rparr>"

definition previousContext :: "thread option \<Rightarrow> branch_context" where
  "previousContext previous =
     \<lparr>ctxBranch = Option.bind previous branch, ctxWorktreePath = Option.bind previous worktreePath,
      ctxAssociatedPath = Option.bind previous associatedWorktreePath,
      ctxAssociatedBranch = Option.bind previous associatedWorktreeBranch,
      ctxAssociatedRef = Option.bind previous associatedWorktreeRef\<rparr>"

definition branchFlowCompleted :: "'a shell_thread_scheme \<Rightarrow> thread option \<Rightarrow> bool" where
  "branchFlowCompleted incoming previous =
     resolveCreateBranchFlowCompletedMerge (previousContext previous) (incomingContext incoming previous)
       (case previous of None \<Rightarrow> False | Some p \<Rightarrow> createBranchFlowCompleted p)
       (shCreateBranchFlowCompleted incoming)"

text \<open>The shell both normalizations build; they differ in the annotations and the provider's thread id.\<close>

definition incomingShell :: "'a shell_thread_scheme \<Rightarrow> thread option \<Rightarrow> thread_shell" where
  "incomingShell incoming previous =
     (let context = incomingContext incoming previous
      in \<lparr>envMode = Some (nullish (shEnvMode incoming) ''local''), branch = ctxBranch context,
          worktreePath = ctxWorktreePath context, associatedWorktreePath = ctxAssociatedPath context,
          associatedWorktreeBranch = ctxAssociatedBranch context,
          associatedWorktreeRef = ctxAssociatedRef context,
          createBranchFlowCompleted = branchFlowCompleted incoming previous,
          threadId = shId incoming, codexThreadId = None, projectId = shProjectId incoming,
          title = shTitle incoming,
          modelSelection =
            normalizeModelSelection (shModelSelection incoming) (map_option modelSelection previous),
          runtimeMode = shRuntimeMode incoming, interactionMode = shInteractionMode incoming,
          threadError = normalizeThreadErrorMessage (Option.bind (shSession incoming) wireLastError),
          createdAt = shCreatedAt incoming, archivedAt = shArchivedAt incoming,
          updatedAt = Some (shUpdatedAt incoming), isPinned = nullish (shIsPinned incoming) False,
          pinnedMessages = None, threadMarkers = None, threadNotes = None,
          parentThreadId = shParentThreadId incoming, subagentAgentId = shSubagentAgentId incoming,
          subagentNickname = shSubagentNickname incoming, subagentRole = shSubagentRole incoming,
          forkSourceThreadId = shForkSourceThreadId incoming,
          sidechatSourceThreadId = shSidechatSourceThreadId incoming,
          handoff = keepEqualCopy (Option.bind previous handoff) (shHandoff incoming),
          lastKnownPr = keepEqualCopy (Option.bind previous lastKnownPr) (shLastKnownPr incoming),
          latestUserMessageAt = shLatestUserMessageAt incoming,
          hasPendingApprovals = shHasPendingApprovals incoming,
          hasPendingUserInput = shHasPendingUserInput incoming,
          hasActionableProposedPlan = shHasActionableProposedPlan incoming,
          lastVisitedAt = orelse (Option.bind previous lastVisitedAt) (Some (shUpdatedAt incoming))\<rparr>)"

text \<open>The whole thread. All fields but the provider's thread id decide whether the old one is returned.\<close>

definition normalizeThreadFromReadModel :: "host \<Rightarrow> read_model_thread \<Rightarrow> thread option \<Rightarrow> thread" where
  "normalizeThreadFromReadModel h incoming previous =
     (let turn = normalizeLatestTurn (shLatestTurn incoming);
          next = thread_shell.extend
            ((incomingShell incoming previous)\<lparr>pinnedMessages := rmPinnedMessages incoming,
               threadMarkers := rmThreadMarkers incoming, threadNotes := rmNotes incoming\<rparr>)
            (thread.fields
              (normalizeThreadSession (shSession incoming) (Option.bind previous session))
              (normalizeChatMessages h (rmMessages incoming) (map_option messages previous))
              (normalizeProposedPlans (rmProposedPlans incoming))
              turn
              (orelse (Option.bind turn sourceProposedPlan)
                (if map_option wireStatus (shSession incoming) = Some StatusRunning
                 then Option.bind previous pendingSourceProposedPlan else None))
              (normalizeTurnDiffSummaries (rmCheckpoints incoming))
              (normalizeActivities (rmActivities incoming) (map_option activities previous)))
      in case previous of
           None \<Rightarrow> next
         | Some p \<Rightarrow> if p\<lparr>codexThreadId := None\<rparr> = next then p else next)"

text \<open>A shell: the annotations, which it does not carry, are kept.\<close>

definition normalizeThreadShellSnapshot ::
    "shell_thread \<Rightarrow> thread option \<Rightarrow> thread_shell \<times> thread_session option \<times> turn_slice" where
  "normalizeThreadShellSnapshot incoming previous =
     (let turn = normalizeLatestTurn (shLatestTurn incoming)
      in ((incomingShell incoming previous)\<lparr>
            codexThreadId := Option.bind previous codexThreadId,
            pinnedMessages := Option.bind previous pinnedMessages,
            threadMarkers := Option.bind previous threadMarkers,
            threadNotes := Option.bind previous threadNotes\<rparr>,
          normalizeThreadSession (shSession incoming) (Option.bind previous session),
          \<lparr>sliceLatestTurn = turn, slicePendingPlan = Option.bind turn sourceProposedPlan\<rparr>))"

section \<open>Merging a detail with the live thread\<close>

fun wireAttachmentOf :: "chat_attachment \<Rightarrow> wire_attachment" where
  "wireAttachmentOf (SelectionAttachment i m t) = WireSelection i m t"
| "wireAttachmentOf (FileAttachment i n mime bytes) = WireFile i n mime bytes"
| "wireAttachmentOf (ImageAttachment i n mime bytes url) = WireImage i n mime bytes"

definition readModelAttachmentsFromChatMessage :: "chat_attachment list option \<Rightarrow> wire_attachment list" where
  "readModelAttachmentsFromChatMessage atts = map wireAttachmentOf (nullish atts [])"

definition readModelMessageFromChatMessage :: "chat_message \<Rightarrow> read_model_message" where
  "readModelMessageFromChatMessage m =
     \<lparr>wireId = messageId m, wireRole = role m, wireText = messageText m,
      wireAttachments = Some (readModelAttachmentsFromChatMessage (attachments m)),
      wireSkills = truthy_list (skills m), wireMentions = truthy_list (mentions m),
      wireDispatchMode = truthy_str (dispatchMode m), wireTurnId = nullish (messageTurnId m) None,
      wireStreaming = streaming m, wireSource = Some (nullish (messageSource m) ''native''),
      wireCreatedAt = messageCreatedAt m,
      wireUpdatedAt = nullish (messageCompletedAt m) (messageCreatedAt m)\<rparr>"

definition sessionStatusIs :: "thread \<Rightarrow> session_status \<Rightarrow> bool" where
  "sessionStatusIs t status \<longleftrightarrow> map_option orchestrationStatus (session t) = Some status"

definition shouldRetainLiveAssistantMessageForHotPath :: "thread \<Rightarrow> chat_message \<Rightarrow> bool" where
  "shouldRetainLiveAssistantMessageForHotPath previous m \<longleftrightarrow>
     role m = Assistant \<and>
     (streaming m \<or>
      (case latestTurn previous of
         None \<Rightarrow> False
       | Some turn \<Rightarrow>
           assistantMessageId turn = Some (messageId m) \<or>
           sessionStatusIs previous StatusRunning \<and> messageTurnId m = Some (Some (latestTurnId turn))))"

definition shouldPreferLiveMessage :: "chat_message \<Rightarrow> read_model_message \<Rightarrow> bool" where
  "shouldPreferLiveMessage live incoming \<longleftrightarrow>
     length (messageText live) > length (wireText incoming) \<or>
     \<not> streaming live \<and> wireStreaming incoming \<or>
     (case messageCompletedAt live of
        None \<Rightarrow> False
      | Some c \<Rightarrow> wireStreaming incoming \<or> str_gt c (wireUpdatedAt incoming))"

text \<open>One incoming message, and whether the live one is preferred.\<close>

definition mergeLiveMessage :: "chat_message option \<Rightarrow> read_model_message \<Rightarrow> read_model_message \<times> bool" where
  "mergeLiveMessage previous incoming =
     (case previous of
        None \<Rightarrow> (incoming, False)
      | Some live \<Rightarrow>
          if role live \<noteq> wireRole incoming then (incoming, False)
          else if \<not> shouldPreferLiveMessage live incoming then
            (incoming\<lparr>
               wireMentions := (if truthy_list (wireMentions incoming) = None \<and> truthy_list (mentions live) \<noteq> None
                 then mentions live else wireMentions incoming),
               wireSkills := (if truthy_list (wireSkills incoming) = None \<and> truthy_list (skills live) \<noteq> None
                 then skills live else wireSkills incoming)\<rparr>, False)
          else
            (incoming\<lparr>wireText := messageText live,
               wireDispatchMode := orelse (dispatchMode live) (wireDispatchMode incoming),
               wireTurnId := orelse (nullish (messageTurnId live) None) (wireTurnId incoming),
               wireSource := Some (nullish (orelse (messageSource live) (wireSource incoming)) ''native''),
               wireStreaming := streaming live,
               wireUpdatedAt := nullish (messageCompletedAt live) (wireUpdatedAt incoming),
               wireAttachments := Some (readModelAttachmentsFromChatMessage (attachments live)),
               wireSkills := orelse (truthy_list (skills live)) (wireSkills incoming),
               wireMentions := orelse (truthy_list (mentions live)) (wireMentions incoming)\<rparr>, True))"

definition mergeReadModelMessagesWithLiveHotPath ::
    "host \<Rightarrow> read_model_message list \<Rightarrow> thread option \<Rightarrow> read_model_message list" where
  "mergeReadModelMessagesWithLiveHotPath h incoming previousThread =
     (case previousThread of
        None \<Rightarrow> incoming
      | Some previous \<Rightarrow>
          if messages previous = [] then incoming
          else
            let previousMessageById = from_entries (map (\<lambda>m. (messageId m, m)) (messages previous));
                merged = map (\<lambda>m. mergeLiveMessage (rec_get previousMessageById (wireId m)) m) incoming;
                mergedById = from_entries (map (\<lambda>(m, _). (wireId m, m)) merged);
                retained = filter (\<lambda>m. rec_get mergedById (messageId m) = None \<and>
                    shouldRetainLiveAssistantMessageForHotPath previous m) (messages previous);
                result = fold (\<lambda>m r. if rec_get r (messageId m) = None
                    then rec_set (messageId m) (readModelMessageFromChatMessage m) r else r) retained mergedById
            in if \<not> list_ex snd merged \<and> retained = [] then incoming
               else sort_cmp (\<lambda>left right.
                 if wireCreatedAt left = wireCreatedAt right
                 then localeCompare h (wireId left) (wireId right)
                 else localeCompare h (wireCreatedAt left) (wireCreatedAt right)) (map snd result))"

definition hasLiveAssistantIntro :: "thread option \<Rightarrow> bool" where
  "hasLiveAssistantIntro previousThread =
     (case previousThread of
        None \<Rightarrow> False
      | Some previous \<Rightarrow>
          (case latestTurn previous of
             None \<Rightarrow> False
           | Some turn \<Rightarrow>
               latestTurnState turn = TurnRunning \<and> sessionStatusIs previous StatusRunning \<and>
               list_ex (\<lambda>m. role m = Assistant \<and> messageTurnId m = Some (Some (latestTurnId turn)) \<and>
                 (streaming m \<or> assistantMessageId turn = Some (messageId m))) (messages previous)))"

definition shouldPreserveRunningTurn :: "thread option \<Rightarrow> 'a shell_thread_scheme \<Rightarrow> bool" where
  "shouldPreserveRunningTurn previousThread incoming =
     (if \<not> hasLiveAssistantIntro previousThread then False
      else case Option.bind previousThread (\<lambda>p. Option.bind (latestTurn p) (\<lambda>t. truthy_str (Some (latestTurnId t)))) of
        None \<Rightarrow> False
      | Some previousTurnId \<Rightarrow>
          if map_option latestTurnId (shLatestTurn incoming) \<noteq> Some previousTurnId then True
          else if truthy_str (Option.bind (shLatestTurn incoming) completedAt) \<noteq> None then False
          else True)"

definition readModelSessionFromThreadSession :: "thread_session \<Rightarrow> wire_session" where
  "readModelSessionFromThreadSession previous =
     \<lparr>wireStatus = orchestrationStatus previous, providerName = Some (sessionProvider previous),
      wireActiveTurnId = activeTurnId previous, wireLastError = sessionLastError previous,
      wireSessionUpdatedAt = sessionUpdatedAt previous\<rparr>"

definition mergeReadModelSessionWithLiveHotPath ::
    "wire_session option \<Rightarrow> thread option \<Rightarrow> bool \<Rightarrow> wire_session option" where
  "mergeReadModelSessionWithLiveHotPath incomingSession previousThread preserveRunningTurn =
     (case Option.bind previousThread session of
        None \<Rightarrow> incomingSession
      | Some previous \<Rightarrow>
          if \<not> preserveRunningTurn then incomingSession
          else case incomingSession of
            None \<Rightarrow> (if orchestrationStatus previous = StatusRunning
                then Some (readModelSessionFromThreadSession previous) else None)
          | Some incoming \<Rightarrow>
              if str_gt (sessionUpdatedAt previous) (wireSessionUpdatedAt incoming) then
                Some ((readModelSessionFromThreadSession previous)\<lparr>
                  providerName := providerName incoming,
                  wireActiveTurnId := orelse (activeTurnId previous) (wireActiveTurnId incoming),
                  wireLastError := orelse (sessionLastError previous) (wireLastError incoming)\<rparr>)
              else if orchestrationStatus previous = StatusRunning \<and> wireStatus incoming \<noteq> StatusRunning \<and>
                  wireStatus incoming \<noteq> StatusError \<and> activeTurnId previous \<noteq> None then
                Some (incoming\<lparr>wireStatus := StatusRunning, wireActiveTurnId := activeTurnId previous,
                  wireLastError := orelse (sessionLastError previous) (wireLastError incoming),
                  wireSessionUpdatedAt :=
                    (if str_gt (wireSessionUpdatedAt incoming) (sessionUpdatedAt previous)
                     then wireSessionUpdatedAt incoming else sessionUpdatedAt previous)\<rparr>)
              else Some incoming)"

text \<open>An assistant message id is never undefined, so the last step copies an absent one too.\<close>

definition mergeReadModelLatestTurnWithLiveHotPath ::
    "latest_turn option \<Rightarrow> thread option \<Rightarrow> bool \<Rightarrow> latest_turn option" where
  "mergeReadModelLatestTurnWithLiveHotPath incoming previousThread preserveRunningTurn =
     (case Option.bind previousThread latestTurn of
        None \<Rightarrow> incoming
      | Some previous \<Rightarrow>
          if preserveRunningTurn then
            (case incoming of
               None \<Rightarrow> Some (previous\<lparr>latestTurnState := TurnRunning, completedAt := None\<rparr>)
             | Some i \<Rightarrow>
                 if latestTurnId i = latestTurnId previous then
                   Some (i\<lparr>latestTurnState := TurnRunning,
                     startedAt := orelse (startedAt i) (startedAt previous), completedAt := None,
                     assistantMessageId := orelse (assistantMessageId previous) (assistantMessageId i),
                     sourceProposedPlan := orelse (sourceProposedPlan i) (sourceProposedPlan previous)\<rparr>)
                 else incoming)
          else case incoming of
            None \<Rightarrow> None
          | Some i \<Rightarrow>
              if latestTurnId i \<noteq> latestTurnId previous then incoming
              else if assistantMessageId i = assistantMessageId previous then incoming
              else Some (i\<lparr>assistantMessageId := assistantMessageId previous\<rparr>))"

definition mergeReadModelThreadDetailWithLiveHotPath ::
    "host \<Rightarrow> read_model_thread \<Rightarrow> thread option \<Rightarrow> read_model_thread" where
  "mergeReadModelThreadDetailWithLiveHotPath h incoming previousThread =
     (if previousThread = None then incoming
      else let preserveRunningTurn = shouldPreserveRunningTurn previousThread incoming
           in incoming\<lparr>
             rmMessages := mergeReadModelMessagesWithLiveHotPath h (rmMessages incoming) previousThread,
             shSession := mergeReadModelSessionWithLiveHotPath (shSession incoming) previousThread
               preserveRunningTurn,
             shLatestTurn := mergeReadModelLatestTurnWithLiveHotPath (shLatestTurn incoming)
               previousThread preserveRunningTurn\<rparr>)"

end
