(* ===== verification/Projects.thy ===== *)
theory Projects
  imports ThreadSummary ModelSlug
begin

text \<open>
  The projects of the client store (\<open>frontend/src/store.ts\<close>): how those of the server are normalized
  and put in order, the local actions of the sidebar, and the memory of the module (which projects
  are expanded, their order and local names, by working directory) with its persistence. Working
  directories are compared by \<open>normalizeWorkspaceRootForComparison\<close> of
  \<open>frontend/src/shared/threadWorkspace.ts\<close>.
\<close>

section \<open>Working directories\<close>

definition back_slash :: char where
  "back_slash = CHR 0x5C"

definition isLikelyWindowsWorkspaceRoot :: "string \<Rightarrow> string option \<Rightarrow> bool" where
  "isLikelyWindowsWorkspaceRoot value platform =
     (if platform = Some ''win32'' then True
      else if truthy_str platform \<noteq> None then False
      else (case value of
              drive # colon # rest \<Rightarrow>
                colon = CHR '':'' \<and> lower_char drive \<in> set ''abcdefghijklmnopqrstuvwxyz'' \<and>
                (rest = [] \<or> hd rest = back_slash \<or> hd rest = CHR ''/'')
            | _ \<Rightarrow> False) \<or>
           str_starts value [back_slash, back_slash] \<or> str_starts value ''//'')"

text \<open>\<open>s.replace(/\/+/g, "/")\<close> and \<open>s.replace(/\/+$/g, "")\<close>.\<close>

fun collapse_slashes :: "string \<Rightarrow> string" where
  "collapse_slashes [] = []"
| "collapse_slashes (c # s) =
     (if c = CHR ''/'' \<and> (case s of [] \<Rightarrow> False | d # _ \<Rightarrow> d = CHR ''/'') then collapse_slashes s
      else c # collapse_slashes s)"

definition drop_trailing_slashes :: "string \<Rightarrow> string" where
  "drop_trailing_slashes s = rev (dropWhile (\<lambda>c. c = CHR ''/'') (rev s))"

definition normalizeWorkspaceRootForComparison :: "string \<Rightarrow> string option \<Rightarrow> string" where
  "normalizeWorkspaceRootForComparison value platform =
     (let trimmed = js_trim value
      in if length trimmed = 0 then []
         else let withForwardSlashes = map (\<lambda>c. if c = back_slash then CHR ''/'' else c) trimmed;
                  prefix = (if str_starts withForwardSlashes ''//'' then ''//''
                            else if str_starts withForwardSlashes ''/'' then ''/'' else []);
                  body = collapse_slashes (drop (length prefix) withForwardSlashes);
                  normalized = prefix @ drop_trailing_slashes body;
                  finalValue = (if length normalized > 0 then normalized else prefix);
                  unaliased =
                    (if platform = Some ''darwin'' \<and>
                        (str_starts finalValue ''/private/var/'' \<or> str_starts finalValue ''/private/tmp/'')
                     then drop (length ''/private'') finalValue else finalValue)
              in if isLikelyWindowsWorkspaceRoot trimmed platform then js_lower unaliased else unaliased)"

definition projectCwdKey :: "string \<Rightarrow> string" where
  "projectCwdKey cwd = normalizeWorkspaceRootForComparison cwd None"

text \<open>The last non-empty segment between slashes of either kind.\<close>

definition basenameOfPath :: "string \<Rightarrow> string option" where
  "basenameOfPath value =
     (let is_slash = (\<lambda>c. c = CHR ''/'' \<or> c = back_slash);
          s = dropWhile is_slash (rev value);
          segment = rev (takeWhile (\<lambda>c. \<not> is_slash c) s)
      in if segment = [] then None else Some segment)"

section \<open>Projects\<close>

record project =
  prId :: string
  prKind :: string
  prName :: string
  prRemoteName :: string
  prFolderName :: string
  prLocalName :: "string option"
  prCwd :: string
  prDefaultModelSelection :: "model_selection option"
  prExpanded :: bool
  prIsPinned :: bool
  prCreatedAt :: "string option"
  prUpdatedAt :: "string option"
  prScripts :: "json list"

text \<open>A project of the read model; one of the shell stream has no \<open>deletedAt\<close>.\<close>

record wire_project =
  wpId :: string
  wpKind :: "string option"
  wpTitle :: string
  wpWorkspaceRoot :: string
  wpDefaultModelSelection :: "model_selection option"
  wpScripts :: "json list option"
  wpIsPinned :: "bool option"
  wpCreatedAt :: string
  wpUpdatedAt :: string
  wpDeletedAt :: "string option"

text \<open>The variables of the module: expanded projects, their order and their local names.\<close>

record project_memory =
  persistedExpandedProjectCwds :: "string list"
  persistedProjectOrderCwds :: "string list"
  persistedProjectNamesByCwd :: "string js_record"

definition emptyProjectMemory :: project_memory where
  "emptyProjectMemory = \<lparr>persistedExpandedProjectCwds = [], persistedProjectOrderCwds = [],
     persistedProjectNamesByCwd = []\<rparr>"

definition normalizeProjectScripts :: "json list option \<Rightarrow> json list \<Rightarrow> json list" where
  "normalizeProjectScripts incoming previous =
     map (\<lambda>(index, script). case list_get previous index of
            Some existing \<Rightarrow> if deepEqual existing script then existing else script
          | None \<Rightarrow> script)
       (enumerate 0 (nullish incoming []))"

text \<open>The two normalizations are the same text; a project returned unchanged has these fields.\<close>

definition normalizeProjectFromReadModel ::
    "project_memory \<Rightarrow> wire_project \<Rightarrow> project option \<Rightarrow> project" where
  "normalizeProjectFromReadModel mem incoming previous =
     (let workspaceRootKey = projectCwdKey (wpWorkspaceRoot incoming);
          localName = orelse (Option.bind previous prLocalName)
            (rec_get (persistedProjectNamesByCwd mem) workspaceRootKey)
      in \<lparr>prId = wpId incoming, prKind = nullish (wpKind incoming) ''project'',
          prName = nullish localName (wpTitle incoming), prRemoteName = wpTitle incoming,
          prFolderName = nullish (basenameOfPath (wpWorkspaceRoot incoming)) (wpTitle incoming),
          prLocalName = localName, prCwd = wpWorkspaceRoot incoming,
          prDefaultModelSelection = map_option (\<lambda>m. normalizeModelSelection m
            (Option.bind previous prDefaultModelSelection)) (wpDefaultModelSelection incoming),
          prExpanded = (case previous of
              Some p \<Rightarrow> prExpanded p
            | None \<Rightarrow> if length (persistedExpandedProjectCwds mem) > 0
                then workspaceRootKey \<in> set (persistedExpandedProjectCwds mem) else True),
          prIsPinned = nullish (wpIsPinned incoming) False,
          prCreatedAt = Some (wpCreatedAt incoming), prUpdatedAt = Some (wpUpdatedAt incoming),
          prScripts = normalizeProjectScripts (wpScripts incoming)
            (case previous of None \<Rightarrow> [] | Some p \<Rightarrow> prScripts p)\<rparr>)"

abbreviation normalizeProjectFromShell ::
    "project_memory \<Rightarrow> wire_project \<Rightarrow> project option \<Rightarrow> project" where
  "normalizeProjectFromShell \<equiv> normalizeProjectFromReadModel"

definition projectById :: "string \<Rightarrow> project list \<Rightarrow> project option" where
  "projectById i ps = List.find (\<lambda>p. prId p = i) ps"

definition upsertProjectFromReadModel ::
    "project_memory \<Rightarrow> wire_project \<Rightarrow> project list \<Rightarrow> project list" where
  "upsertProjectFromReadModel mem incoming ps =
     (let existing = projectById (wpId incoming) ps;
          nextProject = normalizeProjectFromReadModel mem incoming existing
      in case existing of
           Some _ \<Rightarrow> map (\<lambda>p. if prId p = wpId incoming then nextProject else p) ps
         | None \<Rightarrow> ps @ [nextProject])"

definition upsertProjectFromShell :: "project_memory \<Rightarrow> wire_project \<Rightarrow> project list \<Rightarrow> project list" where
  "upsertProjectFromShell mem incoming ps =
     (let existing = orelse (projectById (wpId incoming) ps)
            (List.find (\<lambda>p. projectCwdKey (prCwd p) = projectCwdKey (wpWorkspaceRoot incoming)) ps);
          nextProject = normalizeProjectFromShell mem incoming existing
      in case existing of
           Some e \<Rightarrow> map (\<lambda>p. if prId p = prId e then nextProject else p) ps
         | None \<Rightarrow> ps @ [nextProject])"

section \<open>Order of the projects of a snapshot\<close>

text \<open>\<open>new Map(list.map((x, index) => [key(x), index]))\<close>: the last of equal keys counts.\<close>

definition last_index :: "('a \<Rightarrow> 'k) \<Rightarrow> 'a list \<Rightarrow> 'k \<Rightarrow> nat option" where
  "last_index f xs k = map_option (\<lambda>i. length xs - Suc i) (find_index (\<lambda>x. f x = k) (rev xs))"

definition last_with :: "('a \<Rightarrow> 'k) \<Rightarrow> 'a list \<Rightarrow> 'k \<Rightarrow> 'a option" where
  "last_with f xs k = List.find (\<lambda>x. f x = k) (rev xs)"

definition projectOrderIndex :: "project_memory \<Rightarrow> project list \<Rightarrow> project \<Rightarrow> nat \<Rightarrow> nat" where
  "projectOrderIndex mem previous p incomingIndex =
     (let usePersistedOrder = (length previous = 0);
          previousIndex = orelse (last_index prId previous (prId p))
            (last_index (\<lambda>q. projectCwdKey (prCwd q)) previous (projectCwdKey (prCwd p)));
          persistedIndex = (if usePersistedOrder
            then last_index (\<lambda>c. c) (persistedProjectOrderCwds mem) (projectCwdKey (prCwd p)) else None)
      in nullish (orelse previousIndex persistedIndex)
           ((if usePersistedOrder then length (persistedProjectOrderCwds mem) else length previous)
             + incomingIndex))"

definition mapProjectsFromReadModel ::
    "project_memory \<Rightarrow> wire_project list \<Rightarrow> project list \<Rightarrow> project list" where
  "mapProjectsFromReadModel mem incoming previous =
     (let mapped = map (\<lambda>w. normalizeProjectFromReadModel mem w
            (orelse (last_with prId previous (wpId w))
              (last_with (\<lambda>p. projectCwdKey (prCwd p)) previous (projectCwdKey (wpWorkspaceRoot w))))) incoming;
          entries = map (\<lambda>(incomingIndex, p). (projectOrderIndex mem previous p incomingIndex, incomingIndex, p))
            (enumerate 0 mapped)
      in map (\<lambda>(_, _, p). p) (sort_cmp (\<lambda>(order, index, _) (order', index', _).
           cmp_or (int order - int order') (int index - int index')) entries))"

abbreviation mapProjectsFromShellSnapshot ::
    "project_memory \<Rightarrow> wire_project list \<Rightarrow> project list \<Rightarrow> project list" where
  "mapProjectsFromShellSnapshot \<equiv> mapProjectsFromReadModel"

section \<open>Local actions\<close>

definition toggleProject :: "string \<Rightarrow> project list \<Rightarrow> project list" where
  "toggleProject i ps = map (\<lambda>p. if prId p = i then p\<lparr>prExpanded := \<not> prExpanded p\<rparr> else p) ps"

definition setProjectExpanded :: "string \<Rightarrow> bool \<Rightarrow> project list \<Rightarrow> project list" where
  "setProjectExpanded i expanded ps =
     map (\<lambda>p. if prId p \<noteq> i \<or> prExpanded p = expanded then p else p\<lparr>prExpanded := expanded\<rparr>) ps"

definition setAllProjectsExpanded :: "bool \<Rightarrow> project list \<Rightarrow> project list" where
  "setAllProjectsExpanded expanded ps =
     map (\<lambda>p. if prExpanded p = expanded then p else p\<lparr>prExpanded := expanded\<rparr>) ps"

definition collapseProjectsExcept :: "string option \<Rightarrow> project list \<Rightarrow> project list" where
  "collapseProjectsExcept active ps =
     map (\<lambda>p. let nextExpanded = (active = Some (prId p))
              in if prExpanded p = nextExpanded then p else p\<lparr>prExpanded := nextExpanded\<rparr>) ps"

text \<open>\<open>splice(targetIndex, 0, dragged)\<close> after the dragged project was taken out.\<close>

definition reorderProjects :: "string \<Rightarrow> string \<Rightarrow> project list \<Rightarrow> project list" where
  "reorderProjects dragged target ps =
     (if dragged = target then ps
      else case (find_index (\<lambda>p. prId p = dragged) ps, find_index (\<lambda>p. prId p = target) ps) of
        (Some draggedIndex, Some targetIndex) \<Rightarrow>
          let rest = take draggedIndex ps @ drop (Suc draggedIndex) ps
          in take targetIndex rest @ [ps ! draggedIndex] @ drop targetIndex rest
      | _ \<Rightarrow> ps)"

definition renameProjectLocally :: "string \<Rightarrow> string option \<Rightarrow> project list \<Rightarrow> project list" where
  "renameProjectLocally i name ps =
     (let normalizedName = map_option js_trim name
      in map (\<lambda>p. if prId p \<noteq> i then p
           else let nextLocalName = truthy_str normalizedName;
                    nextName = nullish nextLocalName (prRemoteName p)
                in if prLocalName p = nextLocalName \<and> prName p = nextName then p
                   else p\<lparr>prName := nextName, prLocalName := nextLocalName\<rparr>) ps)"

section \<open>Memory and persistence\<close>

definition rememberExpanded :: "project \<Rightarrow> project_memory \<Rightarrow> project_memory" where
  "rememberExpanded p mem =
     (let cwdKey = projectCwdKey (prCwd p);
          mem' = mem\<lparr>persistedExpandedProjectCwds :=
            (if prExpanded p then key_add cwdKey (persistedExpandedProjectCwds mem)
             else key_delete cwdKey (persistedExpandedProjectCwds mem))\<rparr>
      in if cwdKey \<in> set (persistedProjectOrderCwds mem') then mem'
         else mem'\<lparr>persistedProjectOrderCwds := persistedProjectOrderCwds mem' @ [cwdKey]\<rparr>)"

definition rememberProjectUiState :: "project list \<Rightarrow> project_memory \<Rightarrow> project_memory" where
  "rememberProjectUiState ps mem = fold rememberExpanded ps mem"

definition rememberLocalName :: "project \<Rightarrow> project_memory \<Rightarrow> project_memory" where
  "rememberLocalName p mem =
     (let cwdKey = projectCwdKey (prCwd p);
          localName = nullish (map_option js_trim (prLocalName p)) []
      in mem\<lparr>persistedProjectNamesByCwd :=
           (if length localName > 0 then rec_set cwdKey localName (persistedProjectNamesByCwd mem)
            else rec_delete cwdKey (persistedProjectNamesByCwd mem))\<rparr>)"

definition rememberProjectLocalNames :: "project list \<Rightarrow> project_memory \<Rightarrow> project_memory" where
  "rememberProjectLocalNames ps mem = fold rememberLocalName ps mem"

text \<open>What \<open>persistState\<close> writes, after remembering the projects.\<close>

record persisted_projects =
  expandedProjectCwds :: "string list"
  projectOrderCwds :: "string list"
  projectNamesByCwd :: "string js_record"

definition persistState :: "project list \<Rightarrow> project_memory \<Rightarrow> persisted_projects \<times> project_memory" where
  "persistState ps mem =
     (let mem' = rememberProjectLocalNames ps (rememberProjectUiState ps mem)
      in (\<lparr>expandedProjectCwds = map prCwd (filter prExpanded ps), projectOrderCwds = map prCwd ps,
            projectNamesByCwd = persistedProjectNamesByCwd mem'\<rparr>, mem'))"

definition readOrderRound :: "string \<Rightarrow> string list \<Rightarrow> string list" where
  "readOrderRound cwd order =
     (let cwdKey = projectCwdKey cwd
      in if length cwdKey > 0 \<and> cwdKey \<notin> set order then order @ [cwdKey] else order)"

definition readNameRound :: "string \<times> string \<Rightarrow> string js_record \<Rightarrow> string js_record" where
  "readNameRound e names =
     (if length (fst e) = 0 \<or> length (js_trim (snd e)) = 0 then names
      else rec_set (projectCwdKey (fst e)) (js_trim (snd e)) names)"

definition readPersistedState :: "persisted_projects \<Rightarrow> project_memory" where
  "readPersistedState parsed =
     \<lparr>persistedExpandedProjectCwds =
        fold (\<lambda>cwd r. if length cwd > 0 then key_add (projectCwdKey cwd) r else r) (expandedProjectCwds parsed) [],
      persistedProjectOrderCwds = fold readOrderRound (projectOrderCwds parsed) [],
      persistedProjectNamesByCwd = fold readNameRound (projectNamesByCwd parsed) []\<rparr>"

end
