(* ===== verification/StoreSync.thy ===== *)
theory StoreSync
  imports ThreadSync Projects
begin

text \<open>
  The whole client store of \<open>frontend/src/store.ts\<close>: threads and projects together, the snapshots,
  details and shell events that replace or merge them, the events of projects, the local actions, and
  \<open>useStore\<close> as a step function.
\<close>

section \<open>State\<close>

record client_store =
  clientThreads :: app_state
  clientProjects :: "project list"
  clientMemory :: project_memory
  threadsHydrated :: bool

definition initialClientState :: "project_memory \<Rightarrow> client_store" where
  "initialClientState mem = \<lparr>clientThreads = initialAppState, clientProjects = [], clientMemory = mem,
     threadsHydrated = False\<rparr>"

section \<open>Snapshots\<close>

definition retainThreadScopedRecord :: "string list \<Rightarrow> 'v js_record \<Rightarrow> 'v js_record" where
  "retainThreadScopedRecord ids r = filter (\<lambda>(i, _). i \<in> set ids) r"

definition retainSlices :: "string list \<Rightarrow> app_state \<Rightarrow> app_state" where
  "retainSlices ids st = st\<lparr>
     messageIdsByThreadId := retainThreadScopedRecord ids (messageIdsByThreadId st),
     messageByThreadId := retainThreadScopedRecord ids (messageByThreadId st),
     activityIdsByThreadId := retainThreadScopedRecord ids (activityIdsByThreadId st),
     activityByThreadId := retainThreadScopedRecord ids (activityByThreadId st),
     proposedPlanIdsByThreadId := retainThreadScopedRecord ids (proposedPlanIdsByThreadId st),
     proposedPlanByThreadId := retainThreadScopedRecord ids (proposedPlanByThreadId st),
     turnDiffIdsByThreadId := retainThreadScopedRecord ids (turnDiffIdsByThreadId st),
     turnDiffSummaryByThreadId := retainThreadScopedRecord ids (turnDiffSummaryByThreadId st)\<rparr>"

text \<open>The array of threads and the summaries are rebuilt from the slices.\<close>

definition deriveThreads :: "host \<Rightarrow> app_state \<Rightarrow> app_state \<Rightarrow> app_state" where
  "deriveThreads h old st =
     (let ts = getThreadsFromState st
      in st\<lparr>appThreads := ts,
           sidebarSummaries := from_entries (map (\<lambda>t. (threadId t,
             buildSidebarThreadSummary h t (rec_get (sidebarSummaries old) (threadId t)))) ts)\<rparr>)"

definition writeShellThread :: "app_state \<Rightarrow> shell_thread \<Rightarrow> app_state \<Rightarrow> app_state" where
  "writeShellThread old incoming st =
     (case normalizeThreadShellSnapshot incoming (getThreadFromState old (shId incoming)) of
        (shell, sess, turnState) \<Rightarrow> writeThreadShellProjection shell sess turnState st)"

definition syncShellThreads :: "host \<Rightarrow> shell_thread list \<Rightarrow> app_state \<Rightarrow> app_state" where
  "syncShellThreads h incoming old =
     (let snapshotThreads = filter (\<lambda>t. shId t \<notin> set (deletedThreadIdsById old)) incoming;
          cleared = (retainSlices (map shId snapshotThreads) old)\<lparr>appThreadIds := [],
            threadShellById := [], threadSessionById := [], threadTurnStateById := []\<rparr>
      in deriveThreads h old (fold (writeShellThread old) snapshotThreads cleared))"

definition rememberProjects :: "project list \<Rightarrow> project_memory \<Rightarrow> project_memory" where
  "rememberProjects ps mem = rememberProjectLocalNames ps (rememberProjectUiState ps mem)"

definition syncServerShellSnapshot ::
    "host \<Rightarrow> shell_thread list \<Rightarrow> wire_project list \<Rightarrow> client_store \<Rightarrow> client_store" where
  "syncServerShellSnapshot h snapshotThreads snapshotProjects st =
     (let mem = rememberProjects (clientProjects st) (clientMemory st)
      in \<lparr>clientThreads = syncShellThreads h snapshotThreads (clientThreads st),
          clientProjects = mapProjectsFromShellSnapshot mem snapshotProjects (clientProjects st),
          clientMemory = mem, threadsHydrated = True\<rparr>)"

definition syncServerThreadDetailWithOptions ::
    "host \<Rightarrow> bool \<Rightarrow> read_model_thread \<Rightarrow> app_state \<Rightarrow> app_state" where
  "syncServerThreadDetailWithOptions h updateThreadArray incoming st =
     (let previousThread = currentThread st (shId incoming);
          detail = (if updateThreadArray then incoming
            else mergeReadModelThreadDetailWithLiveHotPath h incoming previousThread)
      in commitThreadProjection h (shId incoming) updateThreadArray False
           (writeThreadState (normalizeThreadFromReadModel h detail previousThread) previousThread st))"

definition syncServerThreadDetail :: "host \<Rightarrow> read_model_thread \<Rightarrow> app_state \<Rightarrow> app_state" where
  "syncServerThreadDetail h incoming st =
     (if shId incoming \<in> set (deletedThreadIdsById st) then removeThreadState (shId incoming) st
      else syncServerThreadDetailWithOptions h True incoming st)"

definition syncServerThreadDetailHotPath :: "host \<Rightarrow> read_model_thread \<Rightarrow> app_state \<Rightarrow> app_state" where
  "syncServerThreadDetailHotPath h incoming st =
     (if shId incoming \<in> set (deletedThreadIdsById st) then removeThreadState (shId incoming) st
      else syncServerThreadDetailWithOptions h False incoming st)"

definition syncReadModelThreads :: "host \<Rightarrow> read_model_thread list \<Rightarrow> app_state \<Rightarrow> app_state" where
  "syncReadModelThreads h incoming old =
     (let nextThreads = map (\<lambda>t. normalizeThreadFromReadModel h t (last_with threadId (appThreads old) (shId t)))
            (filter (\<lambda>t. rmDeletedAt t = None \<and> shId t \<notin> set (deletedThreadIdsById old)) incoming);
          ids = map threadId nextThreads;
          retained = (retainSlices ids old)\<lparr>appThreadIds := [],
            threadShellById := retainThreadScopedRecord ids (threadShellById old),
            threadSessionById := retainThreadScopedRecord ids (threadSessionById old),
            threadTurnStateById := retainThreadScopedRecord ids (threadTurnStateById old)\<rparr>
      in deriveThreads h old (fold (\<lambda>t. writeThreadState t None) nextThreads retained))"

definition syncServerReadModel ::
    "host \<Rightarrow> read_model_thread list \<Rightarrow> wire_project list \<Rightarrow> client_store \<Rightarrow> client_store" where
  "syncServerReadModel h modelThreads modelProjects st =
     (let mem = rememberProjects (clientProjects st) (clientMemory st)
      in \<lparr>clientThreads = syncReadModelThreads h modelThreads (clientThreads st),
          clientProjects = mapProjectsFromReadModel mem (filter (\<lambda>p. wpDeletedAt p = None) modelProjects)
            (clientProjects st),
          clientMemory = mem, threadsHydrated = True\<rparr>)"

section \<open>Shell events\<close>

definition removeProjectState :: "string \<Rightarrow> client_store \<Rightarrow> client_store" where
  "removeProjectState i st =
     (let threads = clientThreads st;
          ids = js_dedup (map threadId (filter (\<lambda>t. projectId t = i) (appThreads threads))
            @ map threadId (filter (\<lambda>shell. projectId shell = i) (map snd (threadShellById threads))))
      in st\<lparr>clientThreads := fold removeThreadState ids threads,
           clientProjects := filter (\<lambda>p. prId p \<noteq> i) (clientProjects st)\<rparr>)"

definition upsertShellThread :: "host \<Rightarrow> shell_thread \<Rightarrow> app_state \<Rightarrow> app_state" where
  "upsertShellThread h incoming st =
     (if shId incoming \<in> set (deletedThreadIdsById st) then removeThreadState (shId incoming) st
      else commitThreadProjection h (shId incoming) True True (writeShellThread st incoming st))"

datatype shell_event =
    ProjectUpserted wire_project
  | ProjectRemoved string
  | ThreadUpserted shell_thread
  | ThreadRemoved string

fun applyShellEvent :: "host \<Rightarrow> shell_event \<Rightarrow> client_store \<Rightarrow> client_store" where
  "applyShellEvent h (ProjectUpserted p) st =
     st\<lparr>clientProjects := upsertProjectFromShell (clientMemory st) p (clientProjects st)\<rparr>"
| "applyShellEvent h (ProjectRemoved i) st = removeProjectState i st"
| "applyShellEvent h (ThreadUpserted t) st = st\<lparr>clientThreads := upsertShellThread h t (clientThreads st)\<rparr>"
| "applyShellEvent h (ThreadRemoved i) st = st\<lparr>clientThreads := removeThreadState i (clientThreads st)\<rparr>"

section \<open>Events of projects\<close>

record project_patch =
  ppProjectId :: string
  ppKind :: "string option"
  ppTitle :: "string option"
  ppWorkspaceRoot :: "string option"
  ppDefaultModelSelection :: "model_selection option option"
  ppScripts :: "json list option"
  ppIsPinned :: "bool option"
  ppUpdatedAt :: string

datatype project_event =
    ProjectCreated wire_project
  | ProjectMetaUpdated project_patch
  | ProjectDeleted string

fun applyProjectEvent :: "project_memory \<Rightarrow> project_event \<Rightarrow> project list \<Rightarrow> project list" where
  "applyProjectEvent mem (ProjectCreated p) ps =
     upsertProjectFromReadModel mem (p\<lparr>wpScripts := Some (nullish (wpScripts p) []),
       wpIsPinned := Some (nullish (wpIsPinned p) False), wpDeletedAt := None\<rparr>) ps"
| "applyProjectEvent mem (ProjectMetaUpdated patch) ps =
     (case projectById (ppProjectId patch) ps of
        None \<Rightarrow> ps
      | Some existing \<Rightarrow> upsertProjectFromReadModel mem
          \<lparr>wpId = prId existing, wpKind = Some (nullish (ppKind patch) (prKind existing)),
           wpTitle = nullish (ppTitle patch) (prRemoteName existing),
           wpWorkspaceRoot = nullish (ppWorkspaceRoot patch) (prCwd existing),
           wpDefaultModelSelection = nullish (ppDefaultModelSelection patch) (prDefaultModelSelection existing),
           wpScripts = Some (nullish (ppScripts patch) (prScripts existing)),
           wpIsPinned = Some (nullish (ppIsPinned patch) (prIsPinned existing)),
           wpCreatedAt = nullish (prCreatedAt existing) (ppUpdatedAt patch),
           wpUpdatedAt = ppUpdatedAt patch, wpDeletedAt = None\<rparr> ps)"
| "applyProjectEvent mem (ProjectDeleted i) ps = filter (\<lambda>p. prId p \<noteq> i) ps"

section \<open>Local actions on threads\<close>

text \<open>\<open>Date.parse\<close>, undefined for what is not a date, and \<open>toISOString\<close>.\<close>

record dates =
  parseDate :: "string \<Rightarrow> int option"
  isoString :: "int \<Rightarrow> string"

definition allOptions :: update_options where
  "allOptions = \<lparr>optThreadArray = True, optSignals = True, optSidebar = True\<rparr>"

definition visitThread :: "dates \<Rightarrow> string \<Rightarrow> thread \<Rightarrow> thread option" where
  "visitThread d at' t =
     (case (Option.bind (truthy_str (lastVisitedAt t)) (parseDate d), parseDate d at') of
        (Some previousMs, Some visitedMs) \<Rightarrow>
          if previousMs \<ge> visitedMs then None else Some (t\<lparr>lastVisitedAt := Some at'\<rparr>)
      | _ \<Rightarrow> Some (t\<lparr>lastVisitedAt := Some at'\<rparr>))"

definition unreadThread :: "dates \<Rightarrow> thread \<Rightarrow> thread option" where
  "unreadThread d t =
     (case truthy_str (Option.bind (latestTurn t) completedAt) of
        None \<Rightarrow> None
      | Some c \<Rightarrow> (case parseDate d c of
            None \<Rightarrow> None
          | Some ms \<Rightarrow>
              let unreadVisitedAt = Some (isoString d (ms - 1))
              in if lastVisitedAt t = unreadVisitedAt then None
                 else Some (t\<lparr>lastVisitedAt := unreadVisitedAt\<rparr>)))"

definition updateError :: "string option \<Rightarrow> thread \<Rightarrow> thread option" where
  "updateError e t = (if threadError t = e then None else Some (t\<lparr>threadError := e\<rparr>))"

record workspace_patch =
  wsEnvMode :: "string option"
  wsBranch :: "string option option"
  wsWorktreePath :: "string option option"
  wsAssociatedWorktreePath :: "string option option"
  wsAssociatedWorktreeBranch :: "string option option"
  wsAssociatedWorktreeRef :: "string option option"
  wsCreateBranchFlowCompleted :: "bool option"

definition updateWorkspace :: "workspace_patch \<Rightarrow> thread \<Rightarrow> thread option" where
  "updateWorkspace p t =
     (let nextEnvMode = orelse (wsEnvMode p) (envMode t);
          next = \<lparr>ctxBranch = resolveThreadBranchRegressionGuard (branch t) (nullish (wsBranch p) (branch t)),
            ctxWorktreePath = nullish (wsWorktreePath p) (worktreePath t),
            ctxAssociatedPath = nullish (wsAssociatedWorktreePath p) (associatedWorktreePath t),
            ctxAssociatedBranch = nullish (wsAssociatedWorktreeBranch p) (associatedWorktreeBranch t),
            ctxAssociatedRef = nullish (wsAssociatedWorktreeRef p) (associatedWorktreeRef t)\<rparr>;
          flow = resolveCreateBranchFlowCompletedMerge (threadContext t) next
            (createBranchFlowCompleted t) (wsCreateBranchFlowCompleted p)
      in if envMode t = nextEnvMode \<and> next = threadContext t \<and> flow = createBranchFlowCompleted t then None
         else Some (t\<lparr>envMode := nextEnvMode, branch := ctxBranch next,
           worktreePath := ctxWorktreePath next, associatedWorktreePath := ctxAssociatedPath next,
           associatedWorktreeBranch := ctxAssociatedBranch next,
           associatedWorktreeRef := ctxAssociatedRef next, createBranchFlowCompleted := flow,
           session := (if worktreePath t \<noteq> ctxWorktreePath next then None else session t)\<rparr>))"

definition updateModelSelection :: "model_selection \<Rightarrow> thread \<Rightarrow> thread option" where
  "updateModelSelection m t = Some (t\<lparr>modelSelection := m\<rparr>)"

definition markThreadVisited :: "host \<Rightarrow> dates \<Rightarrow> string \<Rightarrow> string \<Rightarrow> app_state \<Rightarrow> app_state" where
  "markThreadVisited h d i at' = applyThreadUpdate h i allOptions (visitThread d at')"

definition markThreadUnread :: "host \<Rightarrow> dates \<Rightarrow> string \<Rightarrow> app_state \<Rightarrow> app_state" where
  "markThreadUnread h d i = applyThreadUpdate h i allOptions (unreadThread d)"

definition setError :: "host \<Rightarrow> string \<Rightarrow> string option \<Rightarrow> app_state \<Rightarrow> app_state" where
  "setError h i e = applyThreadUpdate h i allOptions (updateError e)"

definition setThreadWorkspace :: "host \<Rightarrow> string \<Rightarrow> workspace_patch \<Rightarrow> app_state \<Rightarrow> app_state" where
  "setThreadWorkspace h i p = applyThreadUpdate h i allOptions (updateWorkspace p)"

definition setThreadModelSelection :: "host \<Rightarrow> string \<Rightarrow> model_selection \<Rightarrow> app_state \<Rightarrow> app_state" where
  "setThreadModelSelection h i m = applyThreadUpdate h i allOptions (updateModelSelection m)"

section \<open>The store\<close>

datatype client_event = OnThread orchestration_event | OnProject project_event

datatype client_action =
    SyncShellSnapshot "shell_thread list" "wire_project list"
  | SyncThreadDetail read_model_thread
  | SyncThreadDetailHotPath read_model_thread
  | SyncReadModel "read_model_thread list" "wire_project list"
  | ShellEvent shell_event
  | Events "client_event list"
  | EventsHotPath "client_event list"
  | RemoveDeletedThread string
  | MarkThreadVisited string string
  | MarkThreadUnread string
  | ToggleProject string
  | SetProjectExpanded string bool
  | SetAllProjectsExpanded bool
  | CollapseProjectsExcept "string option"
  | ReorderProjects string string
  | RenameProjectLocally string "string option"
  | SetError string "string option"
  | SetThreadWorkspace string workspace_patch
  | SetThreadModelSelection string model_selection

fun applyClientEvent :: "host \<Rightarrow> bool \<Rightarrow> bool \<Rightarrow> client_store \<Rightarrow> client_event \<Rightarrow> client_store" where
  "applyClientEvent h arr side st (OnThread e) =
     st\<lparr>clientThreads := applyOrchestrationEvent h arr side (clientThreads st) e\<rparr>"
| "applyClientEvent h arr side st (OnProject e) =
     st\<lparr>clientProjects := applyProjectEvent (clientMemory st) e (clientProjects st)\<rparr>"

abbreviation onThreads :: "(app_state \<Rightarrow> app_state) \<Rightarrow> client_store \<Rightarrow> client_store" where
  "onThreads f st \<equiv> st\<lparr>clientThreads := f (clientThreads st)\<rparr>"

abbreviation onProjects :: "(project list \<Rightarrow> project list) \<Rightarrow> client_store \<Rightarrow> client_store" where
  "onProjects f st \<equiv> st\<lparr>clientProjects := f (clientProjects st)\<rparr>"

fun client_action_effect :: "host \<Rightarrow> dates \<Rightarrow> client_store \<Rightarrow> client_action \<Rightarrow> client_store" where
  "client_action_effect h d st (SyncShellSnapshot ts ps) = syncServerShellSnapshot h ts ps st"
| "client_action_effect h d st (SyncThreadDetail t) = onThreads (syncServerThreadDetail h t) st"
| "client_action_effect h d st (SyncThreadDetailHotPath t) = onThreads (syncServerThreadDetailHotPath h t) st"
| "client_action_effect h d st (SyncReadModel ts ps) = syncServerReadModel h ts ps st"
| "client_action_effect h d st (ShellEvent e) = applyShellEvent h e st"
| "client_action_effect h d st (Events es) = foldl (applyClientEvent h True False) st es"
| "client_action_effect h d st (EventsHotPath es) = foldl (applyClientEvent h False False) st es"
| "client_action_effect h d st (RemoveDeletedThread i) = onThreads (removeDeletedThreadFromClientState i) st"
| "client_action_effect h d st (MarkThreadVisited i at') = onThreads (markThreadVisited h d i at') st"
| "client_action_effect h d st (MarkThreadUnread i) = onThreads (markThreadUnread h d i) st"
| "client_action_effect h d st (ToggleProject i) = onProjects (toggleProject i) st"
| "client_action_effect h d st (SetProjectExpanded i e) = onProjects (setProjectExpanded i e) st"
| "client_action_effect h d st (SetAllProjectsExpanded e) = onProjects (setAllProjectsExpanded e) st"
| "client_action_effect h d st (CollapseProjectsExcept i) = onProjects (collapseProjectsExcept i) st"
| "client_action_effect h d st (ReorderProjects i j) = onProjects (reorderProjects i j) st"
| "client_action_effect h d st (RenameProjectLocally i n) = onProjects (renameProjectLocally i n) st"
| "client_action_effect h d st (SetError i e) = onThreads (setError h i e) st"
| "client_action_effect h d st (SetThreadWorkspace i p) = onThreads (setThreadWorkspace h i p) st"
| "client_action_effect h d st (SetThreadModelSelection i m) = onThreads (setThreadModelSelection h i m) st"

text \<open>The subscriber of the store remembers the projects after every change.\<close>

definition client_step :: "host \<Rightarrow> dates \<Rightarrow> client_store \<Rightarrow> client_action \<Rightarrow> client_store" where
  "client_step h d st a =
     (let st' = client_action_effect h d st a
      in st'\<lparr>clientMemory := rememberProjects (clientProjects st') (clientMemory st')\<rparr>)"

end
