(* ===== verification/SyncInvariant.thy ===== *)
theory SyncInvariant
  imports StoreSync StoreProperties
begin

text \<open>
  The invariant of the client store under the operations that bring in threads whole: normalized
  details and shells, snapshots, removals and the local actions.
\<close>

section \<open>Normalized threads\<close>

lemma normalizeChatMessage_id:
  "(\<forall>p. previous = Some p \<longrightarrow> messageId p = wireId m) \<Longrightarrow>
     messageId (normalizeChatMessage h m previous) = wireId m"
  by (auto simp: normalizeChatMessage_def Let_def split: option.splits)

lemma find_rev_key: "List.find (\<lambda>p. f p = k) (rev ps) = Some p \<Longrightarrow> f p = k \<and> p \<in> set ps"
  using find_Some_mem [of "\<lambda>p. f p = k" "rev ps" p] by simp

lemma normalizeChatMessages_ids:
  "map messageId (normalizeChatMessages h ms previous) = map wireId (slice_last MAX_THREAD_MESSAGES ms)"
  unfolding normalizeChatMessages_def map_map comp_def
  by (rule map_cong [OF refl], rule normalizeChatMessage_id) (blast dest: find_rev_key)

text \<open>What the server promises of a thread it sends: the ids of its parts are distinct.\<close>

definition detail_ok :: "read_model_thread \<Rightarrow> bool" where
  "detail_ok t \<longleftrightarrow> distinct (map wireId (rmMessages t)) \<and>
     distinct (map planId (nullish (rmProposedPlans t) [])) \<and>
     distinct (map diffTurnId (nullish (rmCheckpoints t) [])) \<and>
     pins_ok (rmPinnedMessages t) \<and> markers_ok (rmThreadMarkers t)"

lemma incomingShell_id [simp]: "threadId (incomingShell incoming previous) = shId incoming"
  by (simp add: incomingShell_def Let_def)

lemma extend_fields:
  "threadId (thread_shell.extend s (thread.fields a b c d e f g)) = threadId s"
  "pinnedMessages (thread_shell.extend s (thread.fields a b c d e f g)) = pinnedMessages s"
  "threadMarkers (thread_shell.extend s (thread.fields a b c d e f g)) = threadMarkers s"
  "session (thread_shell.extend s (thread.fields a b c d e f g)) = a"
  "messages (thread_shell.extend s (thread.fields a b c d e f g)) = b"
  "proposedPlans (thread_shell.extend s (thread.fields a b c d e f g)) = c"
  "latestTurn (thread_shell.extend s (thread.fields a b c d e f g)) = d"
  "turnDiffSummaries (thread_shell.extend s (thread.fields a b c d e f g)) = f"
  "activities (thread_shell.extend s (thread.fields a b c d e f g)) = g"
  by (simp_all add: thread_shell.defs thread.defs)

text \<open>The parts of a normalized thread; the old one is only returned when it has the same.\<close>

lemma copy_fields:
  fixes r n :: thread
  assumes "r = n \<or> r\<lparr>codexThreadId := None\<rparr> = n"
  shows "threadId r = threadId n" "pinnedMessages r = pinnedMessages n" "threadMarkers r = threadMarkers n"
    "messages r = messages n" "proposedPlans r = proposedPlans n" "turnDiffSummaries r = turnDiffSummaries n"
    "activities r = activities n" "session r = session n" "latestTurn r = latestTurn n"
  using assms by auto

lemma kept_copy:
  "(case previous of None \<Rightarrow> n | Some p \<Rightarrow> if p\<lparr>codexThreadId := None\<rparr> = n then p else n) = n \<or>
   (case previous of None \<Rightarrow> n | Some p \<Rightarrow> if p\<lparr>codexThreadId := None\<rparr> = n then p else n)\<lparr>codexThreadId := None\<rparr> = n"
  by (cases previous) auto

lemma normalizedThread_fields:
  "threadId (normalizeThreadFromReadModel h incoming previous) = shId incoming"
  "pinnedMessages (normalizeThreadFromReadModel h incoming previous) = rmPinnedMessages incoming"
  "threadMarkers (normalizeThreadFromReadModel h incoming previous) = rmThreadMarkers incoming"
  "messages (normalizeThreadFromReadModel h incoming previous) =
     normalizeChatMessages h (rmMessages incoming) (map_option messages previous)"
  "proposedPlans (normalizeThreadFromReadModel h incoming previous) =
     normalizeProposedPlans (rmProposedPlans incoming)"
  "turnDiffSummaries (normalizeThreadFromReadModel h incoming previous) =
     normalizeTurnDiffSummaries (rmCheckpoints incoming)"
  "activities (normalizeThreadFromReadModel h incoming previous) =
     normalizeActivities (rmActivities incoming) (map_option activities previous)"
  "session (normalizeThreadFromReadModel h incoming previous) =
     normalizeThreadSession (shSession incoming) (Option.bind previous session)"
  "latestTurn (normalizeThreadFromReadModel h incoming previous) =
     normalizeLatestTurn (shLatestTurn incoming)"
  unfolding normalizeThreadFromReadModel_def Let_def copy_fields [OF kept_copy]
  by (simp_all add: extend_fields)

lemma slices_distinct:
  "distinct (map planId (nullish ps [])) \<Longrightarrow> distinct (map planId (normalizeProposedPlans ps))"
  "distinct (map diffTurnId (nullish ds [])) \<Longrightarrow> distinct (map diffTurnId (normalizeTurnDiffSummaries ds))"
  by (simp_all add: normalizeProposedPlans_def normalizeTurnDiffSummaries_def comp_def)

lemma normalized_ok:
  assumes "detail_ok incoming"
  shows "thread_ok (normalizeThreadFromReadModel h incoming previous)"
proof -
  have "length (normalizeChatMessages h ms ps) \<le> MAX_THREAD_MESSAGES" for ms ps
    by (simp add: normalizeChatMessages_def)
  with assms show ?thesis
    by (simp add: thread_ok_def normalizedThread_fields normalizeChatMessages_ids distinct_slice_last
        slices_distinct detail_ok_def)
qed

section \<open>The merge with the live thread\<close>

definition keyed_messages :: "read_model_message js_record \<Rightarrow> bool" where
  "keyed_messages r \<longleftrightarrow> distinct (map fst r) \<and> (\<forall>(k, m)\<in>set r. wireId m = k)"

lemma keyed_set: "keyed_messages r \<Longrightarrow> wireId m = k \<Longrightarrow> keyed_messages (rec_set k m r)"
  by (auto simp: keyed_messages_def rec_set_distinct dest!: rec_set_mem)

lemma keyed_ids: "keyed_messages r \<Longrightarrow> map wireId (map snd r) = map fst r"
  by (auto simp: keyed_messages_def intro!: map_cong)

lemma keyed_distinct: "keyed_messages r \<Longrightarrow> distinct (map wireId (map snd r))"
  by (simp only: keyed_ids) (simp add: keyed_messages_def)

lemma keyed_from_entries: "keyed_messages (from_entries (map (\<lambda>(m, b). (wireId m, m)) ms))"
  by (auto simp: keyed_messages_def dest!: from_entries_mem)

lemma merged_ids_distinct:
  assumes "distinct (map wireId ms)"
  shows "distinct (map wireId (mergeReadModelMessagesWithLiveHotPath h ms previous))"
proof -
  have retained: "keyed_messages r \<Longrightarrow> keyed_messages (fold (\<lambda>m r. if rec_get r (messageId m) = None
      then rec_set (messageId m) (readModelMessageFromChatMessage m) r else r) rs r)" for rs r
    by (induction rs arbitrary: r) (simp_all add: keyed_set readModelMessageFromChatMessage_def)
  have "distinct (map wireId (map snd (fold (\<lambda>m r. if rec_get r (messageId m) = None
      then rec_set (messageId m) (readModelMessageFromChatMessage m) r else r) rs
      (from_entries (map (\<lambda>(m, b). (wireId m, m)) merged)))))" for rs and merged :: "(read_model_message \<times> bool) list"
    by (rule keyed_distinct [OF retained [OF keyed_from_entries]])
  then show ?thesis
    using assms by (simp add: mergeReadModelMessagesWithLiveHotPath_def Let_def del: map_map split: option.splits)
qed

lemma merged_detail_ok: "detail_ok t \<Longrightarrow> detail_ok (mergeReadModelThreadDetailWithLiveHotPath h t previous)"
  by (simp add: detail_ok_def mergeReadModelThreadDetailWithLiveHotPath_def Let_def merged_ids_distinct)

lemma merged_detail_id: "shId (mergeReadModelThreadDetailWithLiveHotPath h t previous) = shId t"
  by (simp add: mergeReadModelThreadDetailWithLiveHotPath_def Let_def)

section \<open>Writing a shell\<close>

text \<open>A thread whose shell, session and turn are replaced; its lists stay.\<close>

definition withShell ::
    "thread option \<Rightarrow> thread_shell \<Rightarrow> thread_session option \<Rightarrow> turn_slice \<Rightarrow> thread" where
  "withShell p shell sess turnState = thread_shell.extend shell (thread.fields sess
     (case p of None \<Rightarrow> [] | Some c \<Rightarrow> messages c) (case p of None \<Rightarrow> [] | Some c \<Rightarrow> proposedPlans c)
     (sliceLatestTurn turnState) (slicePendingPlan turnState)
     (case p of None \<Rightarrow> [] | Some c \<Rightarrow> turnDiffSummaries c)
     (case p of None \<Rightarrow> [] | Some c \<Rightarrow> activities c))"

lemma read_unknown:
  assumes "no_slices st i"
  shows "readSession st i = None" "readMessages st i = []" "readPlans st i = []" "readDiffs st i = []"
    "readActivities st i = []"
  using assms by (simp_all add: read_defs no_slices_def collectByIds_def)

lemma read_lists:
  assumes "store_ok st"
  shows "readMessages st i = (case getThreadFromState st i of None \<Rightarrow> [] | Some c \<Rightarrow> messages c)"
    "readPlans st i = (case getThreadFromState st i of None \<Rightarrow> [] | Some c \<Rightarrow> proposedPlans c)"
    "readDiffs st i = (case getThreadFromState st i of None \<Rightarrow> [] | Some c \<Rightarrow> turnDiffSummaries c)"
    "readActivities st i = (case getThreadFromState st i of None \<Rightarrow> [] | Some c \<Rightarrow> activities c)"
    "readSession st i = Option.bind (getThreadFromState st i) session"
  using read_unknown [OF store_okD(4) [OF assms, of i]] getThread_known [of st i]
  by (cases "getThreadFromState st i"; simp add: getThread_fields)+

lemma project_shell:
  "rec_get (threadShellById (writeThreadShellProjection shell sess turnState st)) j =
     (if j = threadId shell then Some (keptShell (rec_get (threadShellById st) j) shell)
      else rec_get (threadShellById st) j)"
  unfolding writeThreadShellProjection_def ensureThreadRegistered_def Let_def
  by (simp add: writeShell_get)

lemma project_rest:
  "appThreads (writeThreadShellProjection shell sess turnState st) = appThreads st"
  "sidebarSummaries (writeThreadShellProjection shell sess turnState st) = sidebarSummaries st"
  "deletedThreadIdsById (writeThreadShellProjection shell sess turnState st) = deletedThreadIdsById st"
  "appThreadIds (writeThreadShellProjection shell sess turnState st) =
     (if threadId shell \<in> set (appThreadIds st) then appThreadIds st else appThreadIds st @ [threadId shell])"
  "messageIdsByThreadId (writeThreadShellProjection shell sess turnState st) = messageIdsByThreadId st"
  "messageByThreadId (writeThreadShellProjection shell sess turnState st) = messageByThreadId st"
  "activityIdsByThreadId (writeThreadShellProjection shell sess turnState st) = activityIdsByThreadId st"
  "activityByThreadId (writeThreadShellProjection shell sess turnState st) = activityByThreadId st"
  "proposedPlanIdsByThreadId (writeThreadShellProjection shell sess turnState st) = proposedPlanIdsByThreadId st"
  "proposedPlanByThreadId (writeThreadShellProjection shell sess turnState st) = proposedPlanByThreadId st"
  "turnDiffIdsByThreadId (writeThreadShellProjection shell sess turnState st) = turnDiffIdsByThreadId st"
  "turnDiffSummaryByThreadId (writeThreadShellProjection shell sess turnState st) = turnDiffSummaryByThreadId st"
  unfolding writeThreadShellProjection_def ensureThreadRegistered_def Let_def by simp_all

lemma project_turn:
  "rec_get (threadTurnStateById (writeThreadShellProjection shell sess turnState st)) j =
     (if j = threadId shell then Some turnState else rec_get (threadTurnStateById st) j)"
  unfolding writeThreadShellProjection_def ensureThreadRegistered_def Let_def
  by (simp add: rec_get_set)

lemma project_session:
  "readSession (writeThreadShellProjection shell sess turnState st) j =
     (if j = threadId shell then sess else readSession st j)"
  unfolding readSession_def writeThreadShellProjection_def ensureThreadRegistered_def Let_def
  by (auto simp: rec_get_set)

lemma project_sessions:
  "j \<noteq> threadId shell \<Longrightarrow>
     rec_get (threadSessionById (writeThreadShellProjection shell sess turnState st)) j =
       rec_get (threadSessionById st) j"
  unfolding writeThreadShellProjection_def ensureThreadRegistered_def Let_def by (simp add: rec_get_set)

lemma project_lists:
  "readMessages (writeThreadShellProjection shell sess turnState st) = readMessages st"
  "readPlans (writeThreadShellProjection shell sess turnState st) = readPlans st"
  "readDiffs (writeThreadShellProjection shell sess turnState st) = readDiffs st"
  "readActivities (writeThreadShellProjection shell sess turnState st) = readActivities st"
  by (simp_all add: fun_eq_iff read_defs project_rest)

lemmas project_reads = project_shell project_turn project_session project_lists

lemma known_project:
  "known (writeThreadShellProjection shell sess turnState st) = insert (threadId shell) (known st)"
  by (auto simp: known_def project_shell)

lemma project_get:
  assumes "store_ok st"
  shows "getThreadFromState (writeThreadShellProjection shell sess turnState st) =
    (getThreadFromState st)(threadId shell \<mapsto> withShell (getThreadFromState st (threadId shell))
       (keptShell (map_option toThreadShell (getThreadFromState st (threadId shell))) shell) sess turnState)"
proof
  fix j
  have old: "rec_get (threadShellById st) i = map_option toThreadShell (getThreadFromState st i)" for i
    using getThread_fields(6) [of st i] by (cases "getThreadFromState st i") (auto simp: getThread_eq)
  show "getThreadFromState (writeThreadShellProjection shell sess turnState st) j =
    ((getThreadFromState st)(threadId shell \<mapsto> withShell (getThreadFromState st (threadId shell))
       (keptShell (map_option toThreadShell (getThreadFromState st (threadId shell))) shell) sess turnState)) j"
  proof (cases "j = threadId shell")
    case True
    then show ?thesis
      by (simp add: getThread_eq [of "writeThreadShellProjection shell sess turnState st"] project_reads
          withShell_def old read_lists [OF assms])
  next
    case False
    then show ?thesis by (simp add: getThread_eq project_reads)
  qed
qed

lemma keptShell_fields:
  "threadId (keptShell (map_option toThreadShell p) shell) = threadId shell"
  "pinnedMessages (keptShell (map_option toThreadShell p) shell) = pinnedMessages shell"
  "threadMarkers (keptShell (map_option toThreadShell p) shell) = threadMarkers shell"
  by (cases p; auto simp: keptShell_def dest: threadShellsEqual_copy
    [THEN arg_cong [where f = threadId]] threadShellsEqual_copy [THEN arg_cong [where f = pinnedMessages]]
    threadShellsEqual_copy [THEN arg_cong [where f = threadMarkers]])+

text \<open>A shell fits the thread it is written over when it keeps the thread's pins and markers.\<close>

definition shell_fits :: "thread option \<Rightarrow> thread_shell \<Rightarrow> bool" where
  "shell_fits p shell \<longleftrightarrow> pinnedMessages shell = Option.bind p pinnedMessages \<and>
     threadMarkers shell = Option.bind p threadMarkers"

lemma withShell_ok:
  assumes "\<forall>c. p = Some c \<longrightarrow> stored_ok c" "shell_fits p shell"
  shows "stored_ok (withShell p shell sess turnState)" "threadId (withShell p shell sess turnState) = threadId shell"
  using assms
  by (cases p; simp add: stored_ok_def thread_ok_def withShell_def extend_fields shell_fits_def markers_ok_def
      capThreadActivities_def)+

lemma project_ok:
  assumes "store_ok st" "shell_fits (getThreadFromState st (threadId shell)) shell"
  shows "store_ok (writeThreadShellProjection shell sess turnState st)" (is "store_ok ?st'")
proof (rule store_okI)
  show "distinct (appThreadIds ?st')" using store_okD(1) [OF assms(1)] by (simp add: project_rest)
  show "set (appThreadIds ?st') = known ?st'"
    using store_okD(2) [OF assms(1)] by (auto simp: project_rest known_project)
next
  fix i t assume t: "getThreadFromState ?st' i = Some t"
  let ?p = "getThreadFromState st (threadId shell)"
  let ?kept = "keptShell (map_option toThreadShell ?p) shell"
  have "\<forall>c. ?p = Some c \<longrightarrow> stored_ok c" using store_okD(3) [OF assms(1)] by blast
  moreover have "shell_fits ?p ?kept" using assms(2) by (simp add: shell_fits_def keptShell_fields)
  ultimately have "threadId (withShell ?p ?kept sess turnState) = threadId shell \<and>
      stored_ok (withShell ?p ?kept sess turnState)"
    using withShell_ok keptShell_fields(1) by metis
  moreover have "i = threadId shell \<and> t = withShell ?p ?kept sess turnState \<or> getThreadFromState st i = Some t"
    using t unfolding project_get [OF assms(1)] fun_upd_apply by (metis option.inject)
  ultimately show "threadId t = i \<and> stored_ok t" using store_okD(3) [OF assms(1), of i t] by metis
next
  fix i assume "i \<notin> known ?st'"
  then show "no_slices ?st' i"
    using store_okD(4) [OF assms(1), of i]
    by (simp add: no_slices_def project_rest project_sessions known_project)
next
  fix t assume "t \<in> set (appThreads ?st')"
  then show "threadId t \<in> known ?st'"
    using store_okD(5) [OF assms(1), of t] by (simp add: project_rest known_project)
qed

section \<open>Shells of the server\<close>

abbreviation "shellOf t p \<equiv> fst (normalizeThreadShellSnapshot t p)"
abbreviation "sessionOf t p \<equiv> fst (snd (normalizeThreadShellSnapshot t p))"
abbreviation "turnOf t p \<equiv> snd (snd (normalizeThreadShellSnapshot t p))"

lemma shellOf_id [simp]: "threadId (shellOf t p) = shId t"
  by (simp add: normalizeThreadShellSnapshot_def Let_def)

lemma shellOf_fits: "shell_fits p (shellOf t p)"
  by (simp add: normalizeThreadShellSnapshot_def Let_def shell_fits_def)

lemma writeShellThread_eq:
  "writeShellThread old t st =
     (let p = getThreadFromState old (shId t)
      in writeThreadShellProjection (shellOf t p) (sessionOf t p) (turnOf t p) st)"
  by (simp add: writeShellThread_def Let_def split: prod.splits)

text \<open>The thread after a shell of the stream, and after one of a snapshot, which replaces the old shell.\<close>

definition shellApplied :: "shell_thread \<Rightarrow> thread option \<Rightarrow> thread" where
  "shellApplied t p =
     withShell p (keptShell (map_option toThreadShell p) (shellOf t p)) (sessionOf t p) (turnOf t p)"

definition shellReplaced :: "shell_thread \<Rightarrow> thread option \<Rightarrow> thread" where
  "shellReplaced t p = withShell p (shellOf t p) (sessionOf t p) (turnOf t p)"

lemma upsert_get:
  assumes "store_ok st" "shId t \<notin> set (deletedThreadIdsById st)"
  shows "getThreadFromState (upsertShellThread h t st) =
    (getThreadFromState st)(shId t \<mapsto> shellApplied t (getThreadFromState st (shId t)))"
  using assms(2) project_get [OF assms(1), of "shellOf t (getThreadFromState st (shId t))"]
  by (simp add: upsertShellThread_def commit_rest writeShellThread_eq Let_def shellApplied_def)

lemma upsert_ok:
  assumes "store_ok st" "shId t \<notin> set (deletedThreadIdsById st)"
  shows "store_ok (upsertShellThread h t st)"
  using assms(2) commit_ok [OF project_ok [OF assms(1)]]
    shellOf_fits [of "getThreadFromState st (shId t)" t]
  by (simp add: upsertShellThread_def writeShellThread_eq Let_def)

section \<open>Snapshots of shells\<close>

lemma rec_get_retain: "rec_get (retainThreadScopedRecord ids r) i = (if i \<in> set ids then rec_get r i else None)"
  by (induction r) (auto simp: retainThreadScopedRecord_def)

lemma writes_other:
  assumes "i \<notin> shId ` set ts"
  shows "rec_get (threadShellById (fold (writeShellThread old) ts st)) i = rec_get (threadShellById st) i"
    "rec_get (threadTurnStateById (fold (writeShellThread old) ts st)) i = rec_get (threadTurnStateById st) i"
    "rec_get (threadSessionById (fold (writeShellThread old) ts st)) i = rec_get (threadSessionById st) i"
    "readSession (fold (writeShellThread old) ts st) i = readSession st i"
  using assms
  by (induction ts arbitrary: st) (simp_all add: writeShellThread_eq Let_def project_reads project_sessions)

lemma writes_lists:
  "readMessages (fold (writeShellThread old) ts st) = readMessages st"
  "readPlans (fold (writeShellThread old) ts st) = readPlans st"
  "readDiffs (fold (writeShellThread old) ts st) = readDiffs st"
  "readActivities (fold (writeShellThread old) ts st) = readActivities st"
  "messageIdsByThreadId (fold (writeShellThread old) ts st) = messageIdsByThreadId st"
  "activityIdsByThreadId (fold (writeShellThread old) ts st) = activityIdsByThreadId st"
  "proposedPlanIdsByThreadId (fold (writeShellThread old) ts st) = proposedPlanIdsByThreadId st"
  "turnDiffIdsByThreadId (fold (writeShellThread old) ts st) = turnDiffIdsByThreadId st"
  "deletedThreadIdsById (fold (writeShellThread old) ts st) = deletedThreadIdsById st"
  by (induction ts arbitrary: st) (simp_all add: writeShellThread_eq Let_def project_lists project_rest)

lemma writes_ids:
  "set (appThreadIds (fold (writeShellThread old) ts st)) = set (appThreadIds st) \<union> shId ` set ts"
  "distinct (appThreadIds st) \<Longrightarrow> distinct (appThreadIds (fold (writeShellThread old) ts st))"
  by (induction ts arbitrary: st) (auto simp: writeShellThread_eq Let_def project_rest)

lemma writeShellThread_own:
  "rec_get (threadShellById (writeShellThread old t st)) (shId t) =
     Some (keptShell (rec_get (threadShellById st) (shId t)) (shellOf t (getThreadFromState old (shId t))))"
  "rec_get (threadTurnStateById (writeShellThread old t st)) (shId t) =
     Some (turnOf t (getThreadFromState old (shId t)))"
  "readSession (writeShellThread old t st) (shId t) = sessionOf t (getThreadFromState old (shId t))"
  by (simp_all add: writeShellThread_eq Let_def project_reads)

lemma writes_own:
  assumes "distinct (map shId ts)" "t \<in> set ts" "rec_get (threadShellById st) (shId t) = None"
  shows "rec_get (threadShellById (fold (writeShellThread old) ts st)) (shId t) =
      Some (shellOf t (getThreadFromState old (shId t)))"
    "rec_get (threadTurnStateById (fold (writeShellThread old) ts st)) (shId t) =
      Some (turnOf t (getThreadFromState old (shId t)))"
    "readSession (fold (writeShellThread old) ts st) (shId t) = sessionOf t (getThreadFromState old (shId t))"
proof -
  have "rec_get (threadShellById (fold (writeShellThread old) ts st)) (shId t) =
      Some (shellOf t (getThreadFromState old (shId t))) \<and>
    rec_get (threadTurnStateById (fold (writeShellThread old) ts st)) (shId t) =
      Some (turnOf t (getThreadFromState old (shId t))) \<and>
    readSession (fold (writeShellThread old) ts st) (shId t) = sessionOf t (getThreadFromState old (shId t))"
    using assms
  proof (induction ts arbitrary: st)
    case (Cons u us)
    show ?case
    proof (cases "t = u")
      case True
      with Cons.prems(1) have "shId t \<notin> shId ` set us" by simp
      then show ?thesis
        using True Cons.prems(3)
        by (simp add: writes_other writeShellThread_own keptShell_def)
    next
      case False
      with Cons.prems(2) have t: "t \<in> set us" by auto
      then have "shId t \<in> shId ` set us" by (rule imageI)
      with Cons.prems(1) have ne: "shId t \<noteq> shId u" by auto
      with Cons.prems(3) ne have "rec_get (threadShellById (writeShellThread old u st)) (shId t) = None"
        by (simp add: writeShellThread_eq Let_def project_reads)
      with Cons.IH [OF _ t] Cons.prems(1) show ?thesis by simp
    qed
  qed simp
  then show "rec_get (threadShellById (fold (writeShellThread old) ts st)) (shId t) =
      Some (shellOf t (getThreadFromState old (shId t)))"
    "rec_get (threadTurnStateById (fold (writeShellThread old) ts st)) (shId t) =
      Some (turnOf t (getThreadFromState old (shId t)))"
    "readSession (fold (writeShellThread old) ts st) (shId t) = sessionOf t (getThreadFromState old (shId t))"
    by blast+
qed

lemma derive_rest:
  "getThreadFromState (deriveThreads h old st) = getThreadFromState st"
  "appThreadIds (deriveThreads h old st) = appThreadIds st"
  "known (deriveThreads h old st) = known st"
  "no_slices (deriveThreads h old st) = no_slices st"
  "deletedThreadIdsById (deriveThreads h old st) = deletedThreadIdsById st"
  "appThreads (deriveThreads h old st) = getThreadsFromState st"
  by (simp_all add: deriveThreads_def Let_def fun_eq_iff getThread_eq read_defs known_def no_slices_def)

text \<open>A rebuilt store is sound when what it reads is and what it lists is what it read.\<close>

lemma derived_ok:
  assumes "\<And>i t. getThreadFromState st i = Some t \<Longrightarrow> threadId t = i \<and> stored_ok t"
    and "distinct (appThreadIds st)" "set (appThreadIds st) = known st"
    and "\<And>i. i \<notin> known st \<Longrightarrow> no_slices st i"
  shows "store_ok (deriveThreads h old st)"
proof (rule store_okI)
  fix u assume "u \<in> set (appThreads (deriveThreads h old st))"
  then obtain i where u: "getThreadFromState st i = Some u"
    by (auto simp: derive_rest getThreadsFromState_def set_cat_options)
  from assms(1) [OF u] u getThread_known [of st i] show "threadId u \<in> known (deriveThreads h old st)"
    by (auto simp: derive_rest)
qed (simp_all add: derive_rest assms)

definition liveShells :: "shell_thread list \<Rightarrow> string list \<Rightarrow> shell_thread list" where
  "liveShells ts deleted = filter (\<lambda>t. shId t \<notin> set deleted) ts"

definition shellNamed :: "string \<Rightarrow> shell_thread list \<Rightarrow> shell_thread option" where
  "shellNamed i ts = List.find (\<lambda>t. shId t = i) ts"

lemma shellNamed_Some: "shellNamed i ts = Some t \<Longrightarrow> t \<in> set ts \<and> shId t = i"
  unfolding shellNamed_def by (rule find_Some_mem)

lemma shellNamed_None: "shellNamed i ts = None \<longleftrightarrow> i \<notin> shId ` set ts"
  by (auto simp: shellNamed_def find_None_iff)

definition clearedSlices :: "shell_thread list \<Rightarrow> app_state \<Rightarrow> app_state" where
  "clearedSlices ts old = (retainSlices (map shId ts) old)\<lparr>appThreadIds := [],
     threadShellById := [], threadSessionById := [], threadTurnStateById := []\<rparr>"

lemma syncShells_eq:
  "syncShellThreads h ts old =
     (let live = liveShells ts (deletedThreadIdsById old)
      in deriveThreads h old (fold (writeShellThread old) live (clearedSlices live old)))"
  by (simp add: syncShellThreads_def liveShells_def clearedSlices_def Let_def)

lemma cleared_rest:
  "appThreadIds (clearedSlices ts old) = []" "rec_get (threadShellById (clearedSlices ts old)) i = None"
  "rec_get (threadTurnStateById (clearedSlices ts old)) i = None"
  "rec_get (threadSessionById (clearedSlices ts old)) i = None"
  "deletedThreadIdsById (clearedSlices ts old) = deletedThreadIdsById old"
  by (simp_all add: clearedSlices_def retainSlices_def)

lemma cleared_lists:
  assumes "i \<in> shId ` set ts"
  shows "readMessages (clearedSlices ts old) i = readMessages old i"
    "readPlans (clearedSlices ts old) i = readPlans old i"
    "readDiffs (clearedSlices ts old) i = readDiffs old i"
    "readActivities (clearedSlices ts old) i = readActivities old i"
  using assms by (simp_all add: clearedSlices_def retainSlices_def read_defs rec_get_retain)

lemma cleared_no_slices: "i \<notin> shId ` set ts \<Longrightarrow> no_slices (clearedSlices ts old) i"
  by (simp add: clearedSlices_def retainSlices_def no_slices_def rec_get_retain)

lemma syncShells_get:
  assumes "store_ok old" "distinct (map shId ts)"
  shows "getThreadFromState (syncShellThreads h ts old) =
    (\<lambda>i. map_option (\<lambda>t. shellReplaced t (getThreadFromState old i))
       (shellNamed i (liveShells ts (deletedThreadIdsById old))))"
proof
  fix i
  let ?live = "liveShells ts (deletedThreadIdsById old)"
  have d: "distinct (map shId ?live)" using assms(2) by (simp add: liveShells_def distinct_map_filter)
  show "getThreadFromState (syncShellThreads h ts old) i =
      map_option (\<lambda>t. shellReplaced t (getThreadFromState old i)) (shellNamed i ?live)"
  proof (cases "shellNamed i ?live")
    case None
    then show ?thesis
      by (simp add: syncShells_eq Let_def derive_rest getThread_eq shellNamed_None writes_other cleared_rest)
  next
    case (Some t)
    note t = shellNamed_Some [OF Some]
    then have "i \<in> shId ` set ?live" by auto
    then have "getThreadFromState (fold (writeShellThread old) ?live (clearedSlices ?live old)) i =
        Some (shellReplaced t (getThreadFromState old i))"
      using t writes_own [OF d, of t "clearedSlices ?live old" old]
      by (simp add: getThread_eq [of "fold (writeShellThread old) ?live (clearedSlices ?live old)"]
          cleared_rest writes_lists cleared_lists read_lists [OF assms(1)] shellReplaced_def withShell_def)
    with Some show ?thesis by (simp add: syncShells_eq Let_def derive_rest)
  qed
qed

lemma syncShells_ok:
  assumes "store_ok old" "distinct (map shId ts)"
  shows "store_ok (syncShellThreads h ts old)"
proof -
  let ?live = "liveShells ts (deletedThreadIdsById old)"
  let ?st = "fold (writeShellThread old) ?live (clearedSlices ?live old)"
  have eq: "syncShellThreads h ts old = deriveThreads h old ?st" by (simp add: syncShells_eq Let_def)
  have get: "getThreadFromState ?st =
      (\<lambda>i. map_option (\<lambda>t. shellReplaced t (getThreadFromState old i)) (shellNamed i ?live))"
    using syncShells_get [OF assms, of h] unfolding eq derive_rest .
  have known: "known ?st = shId ` set ?live"
    using getThread_known [of ?st] unfolding get by (auto simp: shellNamed_None)
  show ?thesis unfolding eq
  proof (rule derived_ok)
    fix i u assume "getThreadFromState ?st i = Some u"
    then obtain t where t: "shellNamed i ?live = Some t" "u = shellReplaced t (getThreadFromState old i)"
      unfolding get by auto
    have "\<forall>c. getThreadFromState old i = Some c \<longrightarrow> stored_ok c" using store_okD(3) [OF assms(1)] by blast
    from withShell_ok [OF this shellOf_fits] t shellNamed_Some [OF t(1)] show "threadId u = i \<and> stored_ok u"
      by (simp add: shellReplaced_def)
  next
    show "distinct (appThreadIds ?st)" by (simp add: writes_ids cleared_rest)
    show "set (appThreadIds ?st) = known ?st" unfolding known by (simp add: writes_ids cleared_rest)
  next
    fix i assume "i \<notin> known ?st"
    then have i: "i \<notin> shId ` set ?live" unfolding known .
    with cleared_no_slices [OF i, of old] show "no_slices ?st i"
      by (simp add: no_slices_def writes_other writes_lists)
  qed
qed

section \<open>Removal and details\<close>

lemma store_ok_deletions [simp]: "store_ok (st\<lparr>deletedThreadIdsById := ids\<rparr>) \<longleftrightarrow> store_ok st"
  by (simp add: store_ok_def known_def no_slices_def getThread_eq read_defs)

lemma get_deletions [simp]: "getThreadFromState (st\<lparr>deletedThreadIdsById := ids\<rparr>) = getThreadFromState st"
  by (simp add: fun_eq_iff getThread_eq read_defs)

lemma removeThread_eq:
  "removeDeletedThreadFromClientState i st =
     (removeThreadState i st)\<lparr>deletedThreadIdsById := key_add i (deletedThreadIdsById st)\<rparr>"
  by (simp add: removeDeletedThreadFromClientState_def Let_def)

lemma removeThread_ok: "store_ok st \<Longrightarrow> store_ok (removeThreadState i st)"
  using remove_ok [of st i] by (simp add: removeThread_eq)

lemma removeThread_get: "getThreadFromState (removeThreadState i st) = (getThreadFromState st)(i := None)"
  using remove_get [of i st] by (simp add: removeThread_eq)

lemma removeThread_deleted [simp]: "deletedThreadIdsById (removeThreadState i st) = deletedThreadIdsById st"
  by (simp add: removeThreadState_def)

lemma commit_deleted [simp]:
  "deletedThreadIdsById (commitThreadProjection h i a s st) = deletedThreadIdsById st"
  by (simp add: commitThreadProjection_def Let_def split: option.splits)

text \<open>The thread a detail leads to, and the detail the hot path uses.\<close>

definition detailApplied :: "host \<Rightarrow> read_model_thread \<Rightarrow> thread option \<Rightarrow> thread" where
  "detailApplied h t p = stored p (normalizeThreadFromReadModel h t p)"

definition usedDetail :: "host \<Rightarrow> bool \<Rightarrow> read_model_thread \<Rightarrow> thread option \<Rightarrow> read_model_thread" where
  "usedDetail h whole t p = (if whole then t else mergeReadModelThreadDetailWithLiveHotPath h t p)"

lemma usedDetail_ok: "detail_ok t \<Longrightarrow> detail_ok (usedDetail h whole t p)" "shId (usedDetail h whole t p) = shId t"
  by (simp_all add: usedDetail_def merged_detail_ok merged_detail_id)

lemma detail_step:
  assumes "store_ok st" "detail_ok t"
  shows "store_ok (syncServerThreadDetailWithOptions h whole t st)"
    "getThreadFromState (syncServerThreadDetailWithOptions h whole t st) =
       (getThreadFromState st)(shId t \<mapsto>
         detailApplied h (usedDetail h whole t (getThreadFromState st (shId t))) (getThreadFromState st (shId t)))"
    "deletedThreadIdsById (syncServerThreadDetailWithOptions h whole t st) = deletedThreadIdsById st"
proof -
  let ?p = "getThreadFromState st (shId t)"
  let ?n = "normalizeThreadFromReadModel h (usedDetail h whole t ?p) ?p"
  have n: "thread_ok ?n" "threadId ?n = shId t"
    using normalized_ok [OF usedDetail_ok(1) [OF assms(2)]] by (simp_all add: normalizedThread_fields usedDetail_ok)
  have g: "getThreadFromState st (threadId ?n) = ?p" by (simp add: n)
  have eq: "syncServerThreadDetailWithOptions h whole t st =
      commitThreadProjection h (shId t) whole False (writeThreadState ?n ?p st)"
    by (simp add: syncServerThreadDetailWithOptions_def currentThread_get [OF assms(1)] usedDetail_def Let_def)
  show "store_ok (syncServerThreadDetailWithOptions h whole t st)"
    unfolding eq by (rule commit_ok [OF write_ok [OF assms(1) n(1) g]])
  show "getThreadFromState (syncServerThreadDetailWithOptions h whole t st) =
      (getThreadFromState st)(shId t \<mapsto> detailApplied h (usedDetail h whole t ?p) ?p)"
    unfolding eq commit_rest write_get [OF assms(1) n(1) g] by (simp only: n(2) detailApplied_def)
  show "deletedThreadIdsById (syncServerThreadDetailWithOptions h whole t st) = deletedThreadIdsById st"
    unfolding eq by (simp add: write_rest)
qed

section \<open>The read model\<close>

text \<open>Written without a previous thread, every list is written, but no session when there is none.\<close>

definition sessionKept :: "thread option \<Rightarrow> thread \<Rightarrow> thread" where
  "sessionKept p t = (stored p t)\<lparr>session := orelse (session t) (Option.bind p session)\<rparr>"

lemma write_blind:
  assumes "thread_ok n"
  shows "readMessages (writeThreadState n None st) (threadId n) = messages n"
    "readPlans (writeThreadState n None st) (threadId n) = proposedPlans n"
    "readDiffs (writeThreadState n None st) (threadId n) = turnDiffSummaries n"
    "readActivities (writeThreadState n None st) (threadId n) = capThreadActivities (activities n)"
    "readSession (writeThreadState n None st) (threadId n) = orelse (session n) (readSession st (threadId n))"
  using thread_okD [OF assms]
  by (auto simp: read_defs write_slices buildMessageSlice_def buildProposedPlanSlice_def buildTurnDiffSlice_def
      buildActivitySlice_def Let_def dedupe_activities_id collect_slice distinct_cap orelse_def split: option.splits)

lemma get_write_blind:
  assumes "thread_ok n"
  shows "getThreadFromState (writeThreadState n None st) (threadId n) = Some (thread_shell.extend
     (keptShell (rec_get (threadShellById st) (threadId n)) (toThreadShell n))
     (thread.fields (orelse (session n) (readSession st (threadId n))) (messages n) (proposedPlans n)
       (latestTurn n) (pendingSourceProposedPlan n) (turnDiffSummaries n) (capThreadActivities (activities n))))"
  by (simp add: getThread_eq write_slices write_blind [OF assms] toThreadTurnState_def)

lemma blind_other:
  assumes "i \<notin> threadId ` set ts"
  shows "getThreadFromState (fold (\<lambda>t. writeThreadState t None) ts st) i = getThreadFromState st i"
  using assms by (induction ts arbitrary: st) (simp_all add: get_write_other)

lemma blind_untouched:
  assumes "i \<notin> threadId ` set ts"
  shows "readSession (fold (\<lambda>t. writeThreadState t None) ts st) i = readSession st i"
    "rec_get (threadShellById (fold (\<lambda>t. writeThreadState t None) ts st)) i = rec_get (threadShellById st) i"
    "no_slices (fold (\<lambda>t. writeThreadState t None) ts st) i \<longleftrightarrow> no_slices st i"
  using assms
  by (induction ts arbitrary: st) (simp_all add: read_write_other write_slices no_slices_def)

lemma blind_own:
  assumes "distinct (map threadId ts)" "n \<in> set ts" "thread_ok n"
  shows "getThreadFromState (fold (\<lambda>t. writeThreadState t None) ts st) (threadId n) = Some (thread_shell.extend
     (keptShell (rec_get (threadShellById st) (threadId n)) (toThreadShell n))
     (thread.fields (orelse (session n) (readSession st (threadId n))) (messages n) (proposedPlans n)
       (latestTurn n) (pendingSourceProposedPlan n) (turnDiffSummaries n) (capThreadActivities (activities n))))"
  using assms
proof (induction ts arbitrary: st)
  case (Cons u us)
  show ?case
  proof (cases "n = u")
    case True
    with Cons.prems(1) have "threadId n \<notin> threadId ` set us" by simp
    with True show ?thesis using get_write_blind [OF Cons.prems(3), of st] by (simp add: blind_other)
  next
    case False
    with Cons.prems(2) have n: "n \<in> set us" by auto
    then have "threadId n \<in> threadId ` set us" by (rule imageI)
    with Cons.prems(1) have "threadId n \<noteq> threadId u" by auto
    with Cons.IH [OF _ n Cons.prems(3)] Cons.prems(1) show ?thesis
      by (simp add: write_slices read_write_other)
  qed
qed simp

lemma blind_ids:
  "set (appThreadIds (fold (\<lambda>t. writeThreadState t None) ts st)) = set (appThreadIds st) \<union> threadId ` set ts"
  "distinct (appThreadIds st) \<Longrightarrow> distinct (appThreadIds (fold (\<lambda>t. writeThreadState t None) ts st))"
  "deletedThreadIdsById (fold (\<lambda>t. writeThreadState t None) ts st) = deletedThreadIdsById st"
  by (induction ts arbitrary: st) (auto simp: write_rest)

lemma sessionKept_eq:
  "thread_shell.extend (keptShell (map_option toThreadShell p) (toThreadShell n))
     (thread.fields (orelse (session n) (Option.bind p session)) (messages n) (proposedPlans n)
       (latestTurn n) (pendingSourceProposedPlan n) (turnDiffSummaries n) (capThreadActivities (activities n))) =
   sessionKept p n"
proof -
  have "toThreadShell (t\<lparr>session := s\<rparr>) = toThreadShell t" for t s
    by (cases t) (simp add: toThreadShell_def thread_shell.defs)
  then show ?thesis
    using extend_truncate [of "sessionKept p n"]
    by (simp add: sessionKept_def toThreadShell_stored stored_fields)
qed

definition liveDetails :: "read_model_thread list \<Rightarrow> string list \<Rightarrow> read_model_thread list" where
  "liveDetails ts deleted = filter (\<lambda>t. rmDeletedAt t = None \<and> shId t \<notin> set deleted) ts"

definition modelThread :: "host \<Rightarrow> app_state \<Rightarrow> read_model_thread \<Rightarrow> thread" where
  "modelThread h old t = normalizeThreadFromReadModel h t (last_with threadId (appThreads old) (shId t))"

definition retainedThreads :: "string list \<Rightarrow> app_state \<Rightarrow> app_state" where
  "retainedThreads ids old = (retainSlices ids old)\<lparr>appThreadIds := [],
     threadShellById := retainThreadScopedRecord ids (threadShellById old),
     threadSessionById := retainThreadScopedRecord ids (threadSessionById old),
     threadTurnStateById := retainThreadScopedRecord ids (threadTurnStateById old)\<rparr>"

lemma modelThread_id [simp]: "threadId (modelThread h old t) = shId t"
  by (simp add: modelThread_def normalizedThread_fields)

lemma syncModel_eq:
  "syncReadModelThreads h ts old =
     (let live = liveDetails ts (deletedThreadIdsById old)
      in deriveThreads h old (fold (\<lambda>t. writeThreadState t None) (map (modelThread h old) live)
           (retainedThreads (map shId live) old)))"
  by (simp add: syncReadModelThreads_def liveDetails_def retainedThreads_def modelThread_def [abs_def] Let_def
      comp_def normalizedThread_fields)

lemma retained_reads:
  "readSession (retainedThreads ids old) i = (if i \<in> set ids then readSession old i else None)"
  "rec_get (threadShellById (retainedThreads ids old)) i =
     (if i \<in> set ids then rec_get (threadShellById old) i else None)"
  "appThreadIds (retainedThreads ids old) = []"
  "deletedThreadIdsById (retainedThreads ids old) = deletedThreadIdsById old"
  "i \<notin> set ids \<Longrightarrow> no_slices (retainedThreads ids old) i"
  by (simp_all add: retainedThreads_def retainSlices_def readSession_def rec_get_retain no_slices_def)

definition detailNamed :: "string \<Rightarrow> read_model_thread list \<Rightarrow> read_model_thread option" where
  "detailNamed i ts = List.find (\<lambda>t. shId t = i) ts"

lemma detailNamed_Some: "detailNamed i ts = Some t \<Longrightarrow> t \<in> set ts \<and> shId t = i"
  unfolding detailNamed_def by (rule find_Some_mem)

lemma detailNamed_None: "detailNamed i ts = None \<longleftrightarrow> i \<notin> shId ` set ts"
  by (auto simp: detailNamed_def find_None_iff)

lemma syncModel_get:
  assumes "store_ok old" "distinct (map shId ts)" "list_all detail_ok ts"
  shows "getThreadFromState (syncReadModelThreads h ts old) =
    (\<lambda>i. map_option (\<lambda>t. sessionKept (getThreadFromState old i) (modelThread h old t))
       (detailNamed i (liveDetails ts (deletedThreadIdsById old))))"
proof
  fix i
  let ?live = "liveDetails ts (deletedThreadIdsById old)"
  let ?st = "retainedThreads (map shId ?live) old"
  have d: "distinct (map threadId (map (modelThread h old) ?live))"
    using assms(2) by (simp add: liveDetails_def distinct_map_filter comp_def)
  show "getThreadFromState (syncReadModelThreads h ts old) i =
      map_option (\<lambda>t. sessionKept (getThreadFromState old i) (modelThread h old t)) (detailNamed i ?live)"
  proof (cases "detailNamed i ?live")
    case None
    then have i: "i \<notin> threadId ` set (map (modelThread h old) ?live)" by (auto simp: detailNamed_None)
    then have "getThreadFromState (fold (\<lambda>t. writeThreadState t None) (map (modelThread h old) ?live) ?st) i = None"
      using None unfolding blind_other [OF i] by (auto simp: getThread_eq retained_reads detailNamed_None)
    with None show ?thesis by (simp add: syncModel_eq Let_def derive_rest)
  next
    case (Some t)
    note t = detailNamed_Some [OF Some]
    with assms(3) have "detail_ok t" by (auto simp: liveDetails_def list_all_iff)
    then have n: "thread_ok (modelThread h old t)" unfolding modelThread_def by (rule normalized_ok)
    have shell: "rec_get (threadShellById old) i = map_option toThreadShell (getThreadFromState old i)"
      using getThread_fields(6) [of old i] by (cases "getThreadFromState old i") (auto simp: getThread_eq)
    have "getThreadFromState (fold (\<lambda>t. writeThreadState t None) (map (modelThread h old) ?live) ?st) i =
        Some (sessionKept (getThreadFromState old i) (modelThread h old t))"
      using blind_own [OF d _ n, of ?st] t
      by (auto simp: retained_reads shell read_lists [OF assms(1)] simp flip: sessionKept_eq)
    with Some show ?thesis by (simp add: syncModel_eq Let_def derive_rest)
  qed
qed

lemma sessionKept_ok:
  assumes "thread_ok t"
  shows "stored_ok (sessionKept p t)" "threadId (sessionKept p t) = threadId t"
  using stored_ok_stored [OF assms, of p]
  by (simp_all add: sessionKept_def stored_ok_def thread_ok_def stored_fields)

lemma syncModel_ok:
  assumes "store_ok old" "distinct (map shId ts)" "list_all detail_ok ts"
  shows "store_ok (syncReadModelThreads h ts old)"
proof -
  let ?live = "liveDetails ts (deletedThreadIdsById old)"
  let ?st = "fold (\<lambda>t. writeThreadState t None) (map (modelThread h old) ?live)
    (retainedThreads (map shId ?live) old)"
  have eq: "syncReadModelThreads h ts old = deriveThreads h old ?st" by (simp add: syncModel_eq Let_def)
  have get: "getThreadFromState ?st = (\<lambda>i. map_option (\<lambda>t. sessionKept (getThreadFromState old i)
      (modelThread h old t)) (detailNamed i ?live))"
    using syncModel_get [OF assms, of h] unfolding eq derive_rest .
  have known: "known ?st = shId ` set ?live"
    using getThread_known [of ?st] unfolding get by (auto simp: detailNamed_None)
  show ?thesis unfolding eq
  proof (rule derived_ok)
    fix i u assume "getThreadFromState ?st i = Some u"
    then obtain t where t: "detailNamed i ?live = Some t" "u = sessionKept (getThreadFromState old i) (modelThread h old t)"
      unfolding get by auto
    from detailNamed_Some [OF t(1)] assms(3) have d: "detail_ok t" "shId t = i"
      by (auto simp: liveDetails_def list_all_iff)
    then have "thread_ok (modelThread h old t)" unfolding modelThread_def by (simp add: normalized_ok)
    with t(2) d(2) show "threadId u = i \<and> stored_ok u" by (simp add: sessionKept_ok)
  next
    show "distinct (appThreadIds ?st)" by (simp add: blind_ids retained_reads)
    show "set (appThreadIds ?st) = known ?st" unfolding known by (simp add: blind_ids retained_reads image_image)
  next
    fix i assume "i \<notin> known ?st"
    then have i: "i \<notin> shId ` set ?live" unfolding known .
    then have "i \<notin> threadId ` set (map (modelThread h old) ?live)" by auto
    with i show "no_slices ?st i" by (simp add: blind_untouched retained_reads)
  qed
qed

end
