(* ===== verification/StoreTidy.thy ===== *)
theory StoreTidy
  imports SyncInvariant
begin

text \<open>
  What holds of the client store whatever is sent: the lists of ids and the slices belong to the
  threads that have a shell, and nothing is kept of the others.
\<close>

section \<open>The slices of a thread\<close>

text \<open>Nothing but a shell is kept of a thread: no session, turn, message, activity, plan, diff or summary.\<close>

definition bare :: "app_state \<Rightarrow> string \<Rightarrow> bool" where
  "bare st i \<longleftrightarrow> rec_get (threadSessionById st) i = None \<and> rec_get (threadTurnStateById st) i = None \<and>
     rec_get (messageIdsByThreadId st) i = None \<and> rec_get (messageByThreadId st) i = None \<and>
     rec_get (activityIdsByThreadId st) i = None \<and> rec_get (activityByThreadId st) i = None \<and>
     rec_get (proposedPlanIdsByThreadId st) i = None \<and> rec_get (proposedPlanByThreadId st) i = None \<and>
     rec_get (turnDiffIdsByThreadId st) i = None \<and> rec_get (turnDiffSummaryByThreadId st) i = None \<and>
     rec_get (sidebarSummaries st) i = None"

definition tidy :: "app_state \<Rightarrow> bool" where
  "tidy st \<longleftrightarrow> distinct (appThreadIds st) \<and> set (appThreadIds st) = known st \<and>
     (\<forall>i s. rec_get (threadShellById st) i = Some s \<longrightarrow> threadId s = i) \<and>
     (\<forall>i. i \<notin> known st \<longrightarrow> bare st i) \<and> threadId ` set (appThreads st) \<subseteq> known st"

lemma tidyI:
  assumes "distinct (appThreadIds st)" "set (appThreadIds st) = known st"
    "\<And>i s. rec_get (threadShellById st) i = Some s \<Longrightarrow> threadId s = i"
    "\<And>i. i \<notin> known st \<Longrightarrow> bare st i" "\<And>t. t \<in> set (appThreads st) \<Longrightarrow> threadId t \<in> known st"
  shows "tidy st"
  using assms unfolding tidy_def by blast

lemma tidyD:
  assumes "tidy st"
  shows "distinct (appThreadIds st)" "set (appThreadIds st) = known st"
    "rec_get (threadShellById st) i = Some s \<Longrightarrow> threadId s = i"
    "i \<notin> known st \<Longrightarrow> bare st i" "t \<in> set (appThreads st) \<Longrightarrow> threadId t \<in> known st"
  using assms unfolding tidy_def by blast+

lemma tidy_get:
  assumes "tidy st" "getThreadFromState st i = Some t"
  shows "threadId t = i" "i \<in> known st"
  using assms tidyD(3) [OF assms(1)] by (auto simp: getThread_eq known_def extend_fields split: option.splits)

lemma initial_tidy: "tidy initialAppState"
  by (simp add: tidy_def known_def bare_def initialAppState_def)

section \<open>Writing\<close>

lemma write_bare: "i \<noteq> threadId n \<Longrightarrow> bare (writeThreadState n p st) i = bare st i"
  unfolding writeThreadState_def ensureThreadRegistered_def Let_def bare_def by (simp add: rec_get_set)

lemma keptShell_id: "threadId shell = i \<Longrightarrow> (\<And>s. old = Some s \<Longrightarrow> threadId s = i) \<Longrightarrow> threadId (keptShell old shell) = i"
  by (auto simp: keptShell_def split: option.split)

lemma toThreadShell_id [simp]: "threadId (toThreadShell t) = threadId t"
  by (simp add: toThreadShell_def thread_shell.defs)

lemma tidy_write [wf_intros]:
  assumes "tidy st"
  shows "tidy (writeThreadState n p st)"
proof (rule tidyI)
  show "distinct (appThreadIds (writeThreadState n p st))" using tidyD(1) [OF assms] by (simp add: write_rest)
  show "set (appThreadIds (writeThreadState n p st)) = known (writeThreadState n p st)"
    using tidyD(2) [OF assms] by (auto simp: write_rest known_write)
next
  fix i s assume "rec_get (threadShellById (writeThreadState n p st)) i = Some s"
  then show "threadId s = i"
    using tidyD(3) [OF assms] keptShell_id [of "toThreadShell n"] by (auto simp: write_slices split: if_splits)
next
  fix i assume "i \<notin> known (writeThreadState n p st)"
  then show "bare (writeThreadState n p st) i" using tidyD(4) [OF assms] by (simp add: known_write write_bare)
next
  fix t assume "t \<in> set (appThreads (writeThreadState n p st))"
  then show "threadId t \<in> known (writeThreadState n p st)"
    using tidyD(5) [OF assms] by (simp add: write_rest known_write)
qed

lemma project_bare:
  "i \<noteq> threadId shell \<Longrightarrow> bare (writeThreadShellProjection shell sess turnState st) i = bare st i"
  by (simp add: bare_def project_rest project_turn project_sessions)

lemma tidy_project [wf_intros]:
  assumes "tidy st"
  shows "tidy (writeThreadShellProjection shell sess turnState st)"
proof (rule tidyI)
  let ?st = "writeThreadShellProjection shell sess turnState st"
  show "distinct (appThreadIds ?st)" using tidyD(1) [OF assms] by (simp add: project_rest)
  show "set (appThreadIds ?st) = known ?st" using tidyD(2) [OF assms] by (auto simp: project_rest known_project)
  show "threadId s = i" if "rec_get (threadShellById ?st) i = Some s" for i s
    using that tidyD(3) [OF assms] keptShell_id [of shell] by (auto simp: project_shell split: if_splits)
  show "bare ?st i" if "i \<notin> known ?st" for i
    using that tidyD(4) [OF assms] by (simp add: known_project project_bare)
  show "threadId t \<in> known ?st" if "t \<in> set (appThreads ?st)" for t
    using that tidyD(5) [OF assms] by (simp add: project_rest known_project)
qed

section \<open>Committing and removing\<close>

lemma commit_known: "known (commitThreadProjection h i a s st) = known st"
  by (simp add: known_def commit_rest)

lemma commit_bare:
  "j \<notin> known st \<Longrightarrow> bare (commitThreadProjection h i a s st) j = bare st j"
  by (auto simp: commitThreadProjection_def bare_def Let_def getThread_known rec_get_set getThread_eq known_def
      split: option.split)

lemma tidy_commit [wf_intros]:
  assumes "tidy st"
  shows "tidy (commitThreadProjection h i a s st)"
proof (rule tidyI)
  fix t assume "t \<in> set (appThreads (commitThreadProjection h i a s st))"
  then show "threadId t \<in> known (commitThreadProjection h i a s st)"
    using commit_threads [of t h i a s st] tidyD(5) [OF assms] tidy_get [OF assms] by (auto simp: commit_known)
qed (use assms in \<open>simp_all add: commit_rest commit_known commit_bare tidyD\<close>)

lemma removeThread_known: "known (removeThreadState i st) = known st - {i}"
  by (auto simp: known_def removeThreadState_def rec_get_delete)

lemma removeThread_bare: "bare (removeThreadState i st) j \<longleftrightarrow> j = i \<or> bare st j"
  by (auto simp: bare_def removeThreadState_def rec_get_delete)

lemma tidy_remove [wf_intros]:
  assumes "tidy st"
  shows "tidy (removeThreadState i st)"
proof (rule tidyI)
  show "distinct (appThreadIds (removeThreadState i st))"
    using tidyD(1) [OF assms] by (simp add: removeThreadState_def)
  show "set (appThreadIds (removeThreadState i st)) = known (removeThreadState i st)"
    using tidyD(2) [OF assms] by (auto simp: removeThreadState_def known_def rec_get_delete)
  show "threadId s = j" if "rec_get (threadShellById (removeThreadState i st)) j = Some s" for j s
    using that tidyD(3) [OF assms] by (auto simp: removeThreadState_def rec_get_delete split: if_splits)
  show "bare (removeThreadState i st) j" if "j \<notin> known (removeThreadState i st)" for j
    using that tidyD(4) [OF assms] by (auto simp: removeThread_known removeThread_bare)
  show "threadId t \<in> known (removeThreadState i st)" if "t \<in> set (appThreads (removeThreadState i st))" for t
    using that tidyD(5) [OF assms] by (simp add: removeThreadState_def removeThread_known [unfolded removeThreadState_def])
qed

lemma tidy_deleted: "tidy (st\<lparr>deletedThreadIdsById := ids\<rparr>) = tidy st"
  by (simp add: tidy_def known_def bare_def)

lemma tidy_removeDeleted [wf_intros]: "tidy st \<Longrightarrow> tidy (removeDeletedThreadFromClientState i st)"
  by (simp add: removeDeletedThreadFromClientState_def Let_def tidy_deleted tidy_remove)

lemma tidy_update [wf_intros]: "tidy st \<Longrightarrow> tidy (applyThreadUpdate h i opts f st)"
  by (simp add: applyThreadUpdate_def tidy_commit tidy_write split: option.split)

lemma tidy_event [wf_intros]: "tidy st \<Longrightarrow> tidy (applyOrchestrationEvent h arr side st ev)"
  by (cases ev) (simp_all add: wf_intros)

lemma tidy_fold [wf_intros]: "tidy st \<Longrightarrow> (\<And>x st. tidy st \<Longrightarrow> tidy (f x st)) \<Longrightarrow> tidy (fold f xs st)"
  by (induction xs arbitrary: st) auto

section \<open>Threads sent whole\<close>

lemma tidy_detail [wf_intros]: "tidy st \<Longrightarrow> tidy (syncServerThreadDetailWithOptions h whole t st)"
  unfolding syncServerThreadDetailWithOptions_def Let_def by (intro wf_intros)

lemma tidy_writeShell [wf_intros]: "tidy st \<Longrightarrow> tidy (writeShellThread old t st)"
  by (simp add: writeShellThread_def tidy_project split: prod.split)

lemma tidy_upsert [wf_intros]: "tidy st \<Longrightarrow> tidy (upsertShellThread h t st)"
  by (simp add: upsertShellThread_def wf_intros)

text \<open>A snapshot: what it retains belongs to the threads it lists, and each of them is written.\<close>

definition retained_for :: "string list \<Rightarrow> app_state \<Rightarrow> bool" where
  "retained_for ids st \<longleftrightarrow> distinct (appThreadIds st) \<and> set (appThreadIds st) \<subseteq> known st \<and> known st \<subseteq> set ids \<and>
     (\<forall>i s. rec_get (threadShellById st) i = Some s \<longrightarrow> threadId s = i) \<and>
     (\<forall>i. i \<notin> set ids \<longrightarrow> bare (st\<lparr>sidebarSummaries := []\<rparr>) i)"

lemma retained_write:
  assumes "retained_for ids st" "threadId n \<in> set ids"
  shows "retained_for ids (writeThreadState n p st)"
proof -
  have "bare ((writeThreadState n p st)\<lparr>sidebarSummaries := []\<rparr>) i = bare (st\<lparr>sidebarSummaries := []\<rparr>) i"
    if "i \<notin> set ids" for i
    using that assms(2) unfolding writeThreadState_def ensureThreadRegistered_def Let_def bare_def
    by (auto simp: rec_get_set)
  with assms keptShell_id [of "toThreadShell n"] show ?thesis
    by (auto simp: retained_for_def write_rest known_write write_slices split: if_splits)
qed

lemma retained_project:
  assumes "retained_for ids st" "threadId shell \<in> set ids"
  shows "retained_for ids (writeThreadShellProjection shell sess turnState st)"
proof -
  have "bare ((writeThreadShellProjection shell sess turnState st)\<lparr>sidebarSummaries := []\<rparr>) i =
      bare (st\<lparr>sidebarSummaries := []\<rparr>) i" if "i \<notin> set ids" for i
    using that assms(2) by (auto simp: bare_def project_rest project_turn project_sessions)
  with assms keptShell_id [of shell] show ?thesis
    by (auto simp: retained_for_def project_rest known_project project_shell split: if_splits)
qed

lemma registered_write: "set (appThreadIds (writeThreadState n p st)) = insert (threadId n) (set (appThreadIds st))"
  by (auto simp: write_rest)

lemma registered_project:
  "set (appThreadIds (writeThreadShellProjection shell sess turnState st)) =
     insert (threadId shell) (set (appThreadIds st))"
  by (auto simp: project_rest)

lemma writeShellThread_id:
  obtains shell sess turnState where
    "writeShellThread old t st = writeThreadShellProjection shell sess turnState st" "threadId shell = shId t"
proof -
  let ?n = "normalizeThreadShellSnapshot t (getThreadFromState old (shId t))"
  have "writeShellThread old t st = writeThreadShellProjection (fst ?n) (fst (snd ?n)) (snd (snd ?n)) st"
    by (simp add: writeShellThread_def split: prod.split)
  then show thesis by (rule that) (simp add: normalizeThreadShellSnapshot_def Let_def)
qed

lemma retained_shells:
  "retained_for ids st \<Longrightarrow> shId ` set ts \<subseteq> set ids \<Longrightarrow>
     retained_for ids (fold (writeShellThread old) ts st) \<and>
     set (appThreadIds (fold (writeShellThread old) ts st)) = set (appThreadIds st) \<union> shId ` set ts"
proof (induction ts arbitrary: st)
  case (Cons t ts)
  obtain shell sess turnState where w: "writeShellThread old t st = writeThreadShellProjection shell sess turnState st"
    "threadId shell = shId t" by (rule writeShellThread_id)
  with Cons.prems have "retained_for ids (writeShellThread old t st)" by (simp add: retained_project)
  with Cons.IH [OF this] Cons.prems(2) w show ?case by (auto simp: registered_project)
qed simp

lemma retained_threads:
  "retained_for ids st \<Longrightarrow> threadId ` set ts \<subseteq> set ids \<Longrightarrow>
     retained_for ids (fold (\<lambda>t. writeThreadState t None) ts st) \<and>
     set (appThreadIds (fold (\<lambda>t. writeThreadState t None) ts st)) = set (appThreadIds st) \<union> threadId ` set ts"
proof (induction ts arbitrary: st)
  case (Cons t ts)
  then have "retained_for ids (writeThreadState t None st)" by (simp add: retained_write)
  with Cons.IH [OF this] Cons.prems(2) show ?case by (auto simp: registered_write)
qed simp

text \<open>The array and the summaries are then rebuilt.\<close>

lemma derived_tidy:
  assumes "retained_for ids st" "set (appThreadIds st) = set ids"
  shows "tidy (deriveThreads h old st)"
proof (rule tidyI)
  have known: "known st = set ids" using assms by (auto simp: retained_for_def)
  have id: "threadId t = i \<and> i \<in> set ids" if "getThreadFromState st i = Some t" for i t
    using that assms(1) known by (auto simp: getThread_eq known_def retained_for_def extend_fields)
  let ?st = "deriveThreads h old st"
  have same: "appThreadIds ?st = appThreadIds st" "known ?st = known st" "threadShellById ?st = threadShellById st"
    by (simp_all add: deriveThreads_def Let_def known_def)
  show "distinct (appThreadIds ?st)" "set (appThreadIds ?st) = known ?st"
    using assms known by (simp_all add: same retained_for_def)
  show "threadId s = i" if "rec_get (threadShellById ?st) i = Some s" for i s
    using that assms(1) by (simp add: same retained_for_def)
  have own: "threadId t \<in> set ids" if "t \<in> set (getThreadsFromState st)" for t
  proof -
    from that obtain i where "getThreadFromState st i = Some t"
      unfolding getThreadsFromState_def set_cat_options by auto
    from id [OF this] show ?thesis by simp
  qed
  then show "threadId t \<in> known ?st" if "t \<in> set (appThreads ?st)" for t
    using that unfolding same known by (simp add: deriveThreads_def Let_def)
  fix i assume "i \<notin> known ?st"
  then have i: "i \<notin> set ids" by (simp add: same known)
  have "fst ` set (sidebarSummaries ?st) \<subseteq> set ids"
    using own by (auto simp: deriveThreads_def Let_def from_entries_keys)
  with i have "rec_get (sidebarSummaries ?st) i = None" by (auto simp: map_of_eq_None_iff)
  moreover have "bare (st\<lparr>sidebarSummaries := []\<rparr>) i" using assms(1) i by (simp add: retained_for_def)
  ultimately show "bare ?st i" by (simp add: bare_def deriveThreads_def Let_def)
qed

lemma tidy_syncShells [wf_intros]: "tidy (syncShellThreads h ts old)"
proof -
  let ?ts = "filter (\<lambda>t. shId t \<notin> set (deletedThreadIdsById old)) ts"
  let ?st = "(retainSlices (map shId ?ts) old)\<lparr>appThreadIds := [],
    threadShellById := [], threadSessionById := [], threadTurnStateById := []\<rparr>"
  have "retained_for (map shId ?ts) ?st"
    by (auto simp: retained_for_def bare_def known_def retainSlices_def rec_get_retain)
  from retained_shells [OF this, of ?ts old] show ?thesis
    unfolding syncShellThreads_def Let_def by (intro derived_tidy) auto
qed

lemma tidy_syncModel [wf_intros]:
  assumes "tidy old"
  shows "tidy (syncReadModelThreads h ts old)"
proof -
  define ns where "ns = map (\<lambda>t. normalizeThreadFromReadModel h t (last_with threadId (appThreads old) (shId t)))
    (filter (\<lambda>t. rmDeletedAt t = None \<and> shId t \<notin> set (deletedThreadIdsById old)) ts)"
  let ?st = "(retainSlices (map threadId ns) old)\<lparr>appThreadIds := [],
    threadShellById := retainThreadScopedRecord (map threadId ns) (threadShellById old),
    threadSessionById := retainThreadScopedRecord (map threadId ns) (threadSessionById old),
    threadTurnStateById := retainThreadScopedRecord (map threadId ns) (threadTurnStateById old)\<rparr>"
  have "retained_for (map threadId ns) ?st"
    using tidyD(3) [OF assms]
    by (auto simp: retained_for_def bare_def known_def retainSlices_def rec_get_retain split: if_splits)
  from retained_threads [OF this, of ns] show ?thesis
    unfolding syncReadModelThreads_def Let_def ns_def [symmetric] by (intro derived_tidy) auto
qed

section \<open>Every action\<close>

lemma tidy_foldl_events: "tidy (clientThreads st) \<Longrightarrow> tidy (clientThreads (foldl (applyClientEvent h arr side) st es))"
proof (induction es arbitrary: st)
  case (Cons e es)
  then have "tidy (clientThreads (applyClientEvent h arr side st e))" by (cases e) (simp_all add: tidy_event)
  from Cons.IH [OF this] show ?case by simp
qed simp

lemma tidy_shellEvent: "tidy (clientThreads st) \<Longrightarrow> tidy (clientThreads (applyShellEvent h e st))"
  by (cases e) (auto simp: removeProjectState_def Let_def intro!: wf_intros)

lemma client_step_tidy: "tidy (clientThreads st) \<Longrightarrow> tidy (clientThreads (client_step h d st a))"
  by (cases a) (simp_all add: client_step_def Let_def syncServerShellSnapshot_def syncServerReadModel_def
      syncServerThreadDetail_def syncServerThreadDetailHotPath_def tidy_foldl_events tidy_shellEvent wf_intros
      markThreadVisited_def markThreadUnread_def setError_def setThreadWorkspace_def setThreadModelSelection_def)

text \<open>No promise is needed of what is sent.\<close>

interpretation tidied: invariant_store "client_step h d" "\<lambda>_ _. True" "\<lambda>st. tidy (clientThreads st)" for h d
  by unfold_locales (rule client_step_tidy)

end
