(* ===== verification/ClientProperties.thy ===== *)
theory ClientProperties
  imports StoreTidy
begin

text \<open>
  \<open>useStore\<close> as a whole: every action keeps the invariant of the store, what an action does to the
  dictionary of threads, what deleting a thread and removing a project promise.
\<close>

section \<open>Local actions\<close>

lemma sound_visitThread [wf_intros]: "sound (visitThread d at')"
  by (rule soundI) (auto simp: visitThread_def split: option.splits if_splits intro: thread_ok_cong)

lemma sound_unreadThread [wf_intros]: "sound (unreadThread d)"
  by (rule soundI) (auto simp: unreadThread_def Let_def split: option.splits if_splits intro: thread_ok_cong)

lemma sound_updateError [wf_intros]: "sound (updateError e)"
  by (rule soundI) (auto simp: updateError_def split: if_splits intro: thread_ok_cong)

lemma sound_updateWorkspace [wf_intros]: "sound (updateWorkspace p)"
proof
  fix t t' assume ok: "thread_ok t" and s: "updateWorkspace p t = Some t'"
  have "threadId t' = threadId t" "messages t' = messages t" "activities t' = activities t"
    "proposedPlans t' = proposedPlans t" "turnDiffSummaries t' = turnDiffSummaries t"
    "pinnedMessages t' = pinnedMessages t" "threadMarkers t' = threadMarkers t"
    using s unfolding updateWorkspace_def Let_def by (auto split: if_splits)
  with ok show "thread_ok t' \<and> threadId t' = threadId t" by (simp add: thread_ok_def)
qed

lemma sound_updateModelSelection [wf_intros]: "sound (updateModelSelection m)"
  by (rule soundI) (auto simp: updateModelSelection_def intro: thread_ok_cong)

lemmas local_actions = markThreadVisited_def markThreadUnread_def setError_def setThreadWorkspace_def
  setThreadModelSelection_def

lemma update_deleted [simp]: "deletedThreadIdsById (applyThreadUpdate h i opts f st) = deletedThreadIdsById st"
  by (simp add: applyThreadUpdate_def write_rest split: option.splits)

section \<open>Events and projects\<close>

fun deletes :: "orchestration_event \<Rightarrow> string set" where
  "deletes (ThreadDeleted i) = {i}"
| "deletes _ = {}"

lemma event_deleted:
  "set (deletedThreadIdsById (applyOrchestrationEvent h arr side st ev)) = deletes ev \<union> set (deletedThreadIdsById st)"
  by (cases ev) (auto simp: removeThread_eq key_add_def write_rest)

fun client_event_ok :: "client_event \<Rightarrow> bool" where
  "client_event_ok (OnThread e) = orchestration_ok e"
| "client_event_ok (OnProject e) = True"

text \<open>What the dictionary of threads and the set of deleted ids become.\<close>

type_synonym thread_world = "(string \<Rightarrow> thread option) \<times> string set"

definition world :: "client_store \<Rightarrow> thread_world" where
  "world st = (getThreadFromState (clientThreads st), set (deletedThreadIdsById (clientThreads st)))"

fun spec_client_event :: "host \<Rightarrow> client_event \<Rightarrow> thread_world \<Rightarrow> thread_world" where
  "spec_client_event h (OnThread e) (m, deleted) = (spec_event h e m, deletes e \<union> deleted)"
| "spec_client_event h (OnProject e) w = w"

lemma client_event_step:
  assumes "store_ok (clientThreads st)" "client_event_ok e"
  shows "store_ok (clientThreads (applyClientEvent h arr side st e)) \<and>
    world (applyClientEvent h arr side st e) = spec_client_event h e (world st)"
proof (cases e)
  case (OnThread ev)
  with assms apply_step [OF assms(1), of ev h arr side] show ?thesis by (simp add: world_def event_deleted)
qed (use assms in \<open>simp_all add: world_def\<close>)

lemma client_events_run:
  assumes "store_ok (clientThreads st)" "list_all client_event_ok es"
  shows "store_ok (clientThreads (foldl (applyClientEvent h arr side) st es)) \<and>
    world (foldl (applyClientEvent h arr side) st es) = fold (spec_client_event h) es (world st)"
  using assms
proof (induction es arbitrary: st)
  case (Cons e es)
  from client_event_step [OF Cons.prems(1), of e h arr side] Cons.prems(2)
    Cons.IH [of "applyClientEvent h arr side st e"]
  show ?case by simp
qed simp

lemma removeThreads:
  assumes "store_ok st"
  shows "store_ok (fold removeThreadState ids st) \<and>
    getThreadFromState (fold removeThreadState ids st) =
      (\<lambda>i. if i \<in> set ids then None else getThreadFromState st i) \<and>
    deletedThreadIdsById (fold removeThreadState ids st) = deletedThreadIdsById st \<and>
    appThreads (fold removeThreadState ids st) = filter (\<lambda>t. threadId t \<notin> set ids) (appThreads st)"
  using assms
proof (induction ids arbitrary: st)
  case (Cons i ids)
  have "appThreads (removeThreadState i st) = filter (\<lambda>t. threadId t \<noteq> i) (appThreads st)"
    by (simp add: removeThreadState_def)
  with Cons.IH [OF removeThread_ok [OF Cons.prems]] show ?case
    by (auto simp: removeThread_get fun_eq_iff conj_commute)
qed simp

section \<open>Actions\<close>

text \<open>What the server promises of what it sends: every thread once, distinct ids of the parts.\<close>

fun action_ok :: "client_action \<Rightarrow> bool" where
  "action_ok (SyncShellSnapshot ts ps) = distinct (map shId ts)"
| "action_ok (SyncThreadDetail t) = detail_ok t"
| "action_ok (SyncThreadDetailHotPath t) = detail_ok t"
| "action_ok (SyncReadModel ts ps) = (distinct (map shId ts) \<and> list_all detail_ok ts)"
| "action_ok (Events es) = list_all client_event_ok es"
| "action_ok (EventsHotPath es) = list_all client_event_ok es"
| "action_ok _ = True"

definition spec_update :: "host \<Rightarrow> string \<Rightarrow> (thread \<Rightarrow> thread option) \<Rightarrow> thread_world \<Rightarrow> thread_world" where
  "spec_update h i f w = (case Option.bind (fst w i) (updatedThread h True f) of
     None \<Rightarrow> w | Some t \<Rightarrow> ((fst w)(i \<mapsto> stored (fst w i) t), snd w))"

definition spec_detail :: "host \<Rightarrow> bool \<Rightarrow> read_model_thread \<Rightarrow> thread_world \<Rightarrow> thread_world" where
  "spec_detail h whole t w =
     (if shId t \<in> snd w then ((fst w)(shId t := None), snd w)
      else ((fst w)(shId t \<mapsto> detailApplied h (usedDetail h whole t (fst w (shId t))) (fst w (shId t))), snd w))"

fun spec_action :: "host \<Rightarrow> dates \<Rightarrow> client_action \<Rightarrow> thread_world \<Rightarrow> thread_world" where
  "spec_action h d (SyncShellSnapshot ts ps) w =
     (\<lambda>i. if i \<in> snd w then None else map_option (\<lambda>t. shellReplaced t (fst w i)) (shellNamed i ts), snd w)"
| "spec_action h d (SyncThreadDetail t) w = spec_detail h True t w"
| "spec_action h d (SyncThreadDetailHotPath t) w = spec_detail h False t w"
| "spec_action h d (ShellEvent (ThreadUpserted t)) w =
     (if shId t \<in> snd w then ((fst w)(shId t := None), snd w)
      else ((fst w)(shId t \<mapsto> shellApplied t (fst w (shId t))), snd w))"
| "spec_action h d (ShellEvent (ThreadRemoved i)) w = ((fst w)(i := None), snd w)"
| "spec_action h d (Events es) w = fold (spec_client_event h) es w"
| "spec_action h d (EventsHotPath es) w = fold (spec_client_event h) es w"
| "spec_action h d (RemoveDeletedThread i) w = ((fst w)(i := None), insert i (snd w))"
| "spec_action h d (MarkThreadVisited i at') w = spec_update h i (visitThread d at') w"
| "spec_action h d (MarkThreadUnread i) w = spec_update h i (unreadThread d) w"
| "spec_action h d (SetError i e) w = spec_update h i (updateError e) w"
| "spec_action h d (SetThreadWorkspace i p) w = spec_update h i (updateWorkspace p) w"
| "spec_action h d (SetThreadModelSelection i m) w = spec_update h i (updateModelSelection m) w"
| "spec_action h d _ w = w"

text \<open>
  Two actions also read the array of threads, which the dictionary does not determine: the read
  model and the removal of a project.
\<close>

fun reads_array :: "client_action \<Rightarrow> bool" where
  "reads_array (SyncReadModel ts ps) = True"
| "reads_array (ShellEvent (ProjectRemoved i)) = True"
| "reads_array _ = False"

lemma shellNamed_live:
  "shellNamed i (liveShells ts deleted) = (if i \<in> set deleted then None else shellNamed i ts)"
  by (induction ts) (auto simp: shellNamed_def liveShells_def)

lemma detailNamed_deleted: "i \<in> set deleted \<Longrightarrow> detailNamed i (liveDetails ts deleted) = None"
  by (auto simp: detailNamed_None liveDetails_def)

lemma sync_deleted:
  "deletedThreadIdsById (syncShellThreads h ts st) = deletedThreadIdsById st"
  "deletedThreadIdsById (syncReadModelThreads h us st) = deletedThreadIdsById st"
  by (simp_all add: syncShells_eq syncModel_eq Let_def derive_rest writes_lists cleared_rest blind_ids retained_reads)

lemma local_step:
  assumes "store_ok (clientThreads st)" "sound f"
  shows "store_ok (applyThreadUpdate h i allOptions f (clientThreads st)) \<and>
    world (onThreads (applyThreadUpdate h i allOptions f) st) = spec_update h i f (world st)"
  using update_step [OF assms, of h i allOptions]
  by (auto simp: world_def spec_update_def allOptions_def split: option.splits)

lemma detail_action:
  fixes h :: host
  assumes "store_ok (clientThreads st)" "detail_ok t"
  defines "sync \<equiv> \<lambda>whole st. if shId t \<in> set (deletedThreadIdsById st) then removeThreadState (shId t) st
    else syncServerThreadDetailWithOptions h whole t st"
  shows "store_ok (sync whole (clientThreads st)) \<and>
    world (onThreads (sync whole) st) = spec_detail h whole t (world st)"
  using removeThread_ok [OF assms(1)] detail_step [OF assms(1,2)]
  by (simp add: sync_def world_def spec_detail_def removeThread_get)

lemma detail_folds:
  "syncServerThreadDetail h t = (\<lambda>st. if shId t \<in> set (deletedThreadIdsById st) then removeThreadState (shId t) st
    else syncServerThreadDetailWithOptions h True t st)"
  "syncServerThreadDetailHotPath h t = (\<lambda>st. if shId t \<in> set (deletedThreadIdsById st)
    then removeThreadState (shId t) st else syncServerThreadDetailWithOptions h False t st)"
  by (simp_all add: fun_eq_iff syncServerThreadDetail_def syncServerThreadDetailHotPath_def)

lemma shell_event_step:
  assumes "store_ok (clientThreads st)"
  shows "store_ok (clientThreads (applyShellEvent h e st)) \<and>
    (\<not> reads_array (ShellEvent e) \<longrightarrow> world (applyShellEvent h e st) = spec_action h d (ShellEvent e) (world st))"
proof (cases e)
  case (ProjectRemoved i)
  with removeThreads [OF assms] show ?thesis by (simp add: removeProjectState_def Let_def)
next
  case (ThreadUpserted t)
  have "upsertShellThread h t (clientThreads st) = removeThreadState (shId t) (clientThreads st)"
    if "shId t \<in> set (deletedThreadIdsById (clientThreads st))"
    using that by (simp add: upsertShellThread_def)
  moreover have "deletedThreadIdsById (upsertShellThread h t (clientThreads st)) = deletedThreadIdsById (clientThreads st)"
    by (simp add: upsertShellThread_def writeShellThread_eq project_rest Let_def)
  ultimately show ?thesis
    using ThreadUpserted upsert_ok [OF assms, of t h] upsert_get [OF assms, of t h] removeThread_ok [OF assms]
    by (auto simp: world_def removeThread_get)
qed (use assms in \<open>simp_all add: world_def removeThread_ok removeThread_get\<close>)

lemma effect_step:
  assumes "store_ok (clientThreads st)" "action_ok a"
  shows "store_ok (clientThreads (client_action_effect h d st a)) \<and>
    (\<not> reads_array a \<longrightarrow> world (client_action_effect h d st a) = spec_action h d a (world st))"
proof (cases a)
  case (SyncShellSnapshot ts ps)
  with assms(2) syncShells_ok [OF assms(1), of ts h] syncShells_get [OF assms(1), of ts h] show ?thesis
    by (auto simp: syncServerShellSnapshot_def Let_def world_def sync_deleted shellNamed_live)
next
  case (SyncReadModel ts ps)
  with assms(2) syncModel_ok [OF assms(1), of ts h] show ?thesis
    by (simp add: syncServerReadModel_def Let_def)
next
  case (ShellEvent e)
  with shell_event_step [OF assms(1), of h e d] show ?thesis by simp
next
  case (Events es)
  with client_events_run [OF assms(1), of es h True False] assms(2) show ?thesis by simp
next
  case (EventsHotPath es)
  with client_events_run [OF assms(1), of es h False False] assms(2) show ?thesis by simp
next
  case (SyncThreadDetail t)
  with detail_action [OF assms(1), of t h True] assms(2) show ?thesis by (simp add: detail_folds)
next
  case (SyncThreadDetailHotPath t)
  with detail_action [OF assms(1), of t h False] assms(2) show ?thesis by (simp add: detail_folds)
next
  case (RemoveDeletedThread i)
  with assms(1) show ?thesis 
    by (simp add: world_def removeThread_ok removeThread_get removeThread_eq key_add_def insert_absorb)
qed (use assms(1) local_step [OF assms(1)] in \<open>simp_all add: local_actions wf_intros world_def\<close>)

lemma client_step_eq:
  "clientThreads (client_step h d st a) = clientThreads (client_action_effect h d st a)"
  "world (client_step h d st a) = world (client_action_effect h d st a)"
  by (simp_all add: client_step_def Let_def world_def)

definition plain_action :: "client_action \<Rightarrow> bool" where
  "plain_action a \<longleftrightarrow> action_ok a \<and> \<not> reads_array a"

interpretation whole: invariant_store "client_step h d" "\<lambda>_. action_ok" "\<lambda>st. store_ok (clientThreads st)"
  for h d
  by unfold_locales (use effect_step in \<open>simp add: client_step_eq\<close>)

interpretation plain: refining_store "client_step h d" "\<lambda>_. plain_action"
  "\<lambda>st. store_ok (clientThreads st)" world "spec_action h d"
  for h d
  by unfold_locales (use effect_step in \<open>simp add: client_step_eq plain_action_def\<close>)+

section \<open>Runs of actions\<close>

text \<open>C3: Two promises of the store over every run of snapshots, details, read models, shells, events of both
  paths and local actions, in any order, from the initial store or any other that keeps both. Whatever is sent, well-formed or not: the threads the store lists
  are exactly those it has a shell of, each listed once and under its own id, the array holds no other
  thread, and of every other thread no session, turn, message, activity, plan, diff or summary is
  left. And when in addition what is sent is well-formed (a snapshot or read model names no thread twice,
  a detail or read model carries distinct ids of messages, plans and diffs, and a detail, a read model or
  an update of a thread's meta data holds one pin per message and no overlapping markers), every thread that can
  be read is sound: at most 2000 messages, distinct ids of messages, activities, plans and diffs, one pin
  per message, no overlapping markers.\<close>

theorem client_runs_sound:
  assumes "store_ok (clientThreads st)" "tidy (clientThreads st)"
  shows "tidy (clientThreads (run_actions (client_step h d) st as)) \<and>
    (list_all action_ok as \<longrightarrow> store_ok (clientThreads (run_actions (client_step h d) st as)))"
  using tidied.run_inv [OF assms(2)] whole.run_inv [OF assms(1)] by (simp add: admissible_all list.pred_True)

definition sampleDates :: dates where
  "sampleDates = \<lparr>parseDate = (\<lambda>_. None), isoString = (\<lambda>_. [])\<rparr>"

definition sampleShell :: "string \<Rightarrow> string \<Rightarrow> shell_thread" where
  "sampleShell i project =
     \<lparr>shId = i, shProjectId = project, shTitle = ''title'', 
      shModelSelection = \<lparr>provider = ''codex'', model = ''default'', modelOptions = None\<rparr>,
      shRuntimeMode = ''full-access'', shInteractionMode = ''default'', shEnvMode = None, shBranch = None,
      shWorktreePath = None, shAssociatedWorktreePath = None, shAssociatedWorktreeBranch = None,
      shAssociatedWorktreeRef = None, shCreateBranchFlowCompleted = None, shIsPinned = None,
      shParentThreadId = None, shSubagentAgentId = None, shSubagentNickname = None, shSubagentRole = None,
      shForkSourceThreadId = None, shSidechatSourceThreadId = None, shLastKnownPr = None, shLatestTurn = None,
      shLatestUserMessageAt = None, shHasPendingApprovals = None, shHasPendingUserInput = None,
      shHasActionableProposedPlan = None, shCreatedAt = ''2026'', shUpdatedAt = ''2026'', shArchivedAt = None,
      shHandoff = None, shSession = None\<rparr>"

definition sampleDetail :: read_model_thread where
  "sampleDetail = shell_thread.extend (sampleShell ''t'' ''p'')
     (read_model_thread.fields None None None None [newMessage] None [] None)"

definition sampleActions :: "client_action list" where
  "sampleActions =
     [SyncShellSnapshot [sampleShell ''t'' ''p'', sampleShell ''v'' ''p''] [],
      SyncThreadDetailHotPath sampleDetail,
      SetError ''t'' (Some ''e''),
      EventsHotPath [OnThread (ThreadEvent ''t'' (MessageSent newMessage))],
      ShellEvent (ThreadUpserted (sampleShell ''v'' ''q''))]"

lemma sampleActions_ok: "list_all plain_action sampleActions"
  by (simp add: sampleActions_def plain_action_def sampleShell_def sampleDetail_def detail_ok_def
      shell_thread.defs read_model_thread.defs markers_ok_def)

lemma plain_ok: "list_all plain_action as \<Longrightarrow> list_all action_ok as"
  by (auto simp: list_all_iff plain_action_def)

lemma initial_client_ok: "store_ok (clientThreads (initialClientState mem))"
  by (simp add: initialClientState_def initial_ok)

lemma initial_client_tidy: "tidy (clientThreads (initialClientState mem))"
  by (simp add: initialClientState_def initial_tidy)

theorem client_runs_sound_witness:
  "tidy (clientThreads (run_actions (client_step unitHost sampleDates)
     (initialClientState emptyProjectMemory) sampleActions)) \<and>
   store_ok (clientThreads (run_actions (client_step unitHost sampleDates)
     (initialClientState emptyProjectMemory) sampleActions))"
  using client_runs_sound [OF initial_client_ok initial_client_tidy] plain_ok [OF sampleActions_ok] by blast

text \<open>C1: The store implements one dictionary of threads and a set of deleted ids: apart from the read
  model and the removal of a project, which also read the array of threads, every run of actions
  leaves there what the specification, one update of the dictionary per action, leaves. What is sent is
  well-formed: distinct ids of threads, messages, plans and diffs, one pin per message, no overlapping
  markers.\<close>

theorem client_refines_threads:
  assumes "store_ok (clientThreads st)" "list_all plain_action as"
  shows "world (run_actions (client_step h d) st as) = fold (spec_action h d) as (world st)"
  by (rule plain.run_abs [OF assms(1)]) (simp add: admissible_all assms(2))

theorem client_refines_threads_witness:
  "world (run_actions (client_step unitHost sampleDates) (initialClientState emptyProjectMemory) sampleActions) =
     fold (spec_action unitHost sampleDates) sampleActions (world (initialClientState emptyProjectMemory))"
  by (rule client_refines_threads [OF initial_client_ok sampleActions_ok])

section \<open>Deleting a thread\<close>

fun client_creates :: "string \<Rightarrow> client_event \<Rightarrow> bool" where
  "client_creates i (OnThread e) = creates i e"
| "client_creates i (OnProject e) = False"

fun creates_thread :: "string \<Rightarrow> client_action \<Rightarrow> bool" where
  "creates_thread i (Events es) = list_ex (client_creates i) es"
| "creates_thread i (EventsHotPath es) = list_ex (client_creates i) es"
| "creates_thread i _ = False"

definition deleted_in :: "string \<Rightarrow> thread_world \<Rightarrow> bool" where
  "deleted_in i w \<longleftrightarrow> fst w i = None \<and> i \<in> snd w"

lemma spec_event_deleted:
  "deleted_in i w \<Longrightarrow> \<not> client_creates i e \<Longrightarrow> deleted_in i (spec_client_event h e w)"
  by (cases e; cases w) (simp_all add: deleted_in_def spec_gone)

lemma spec_events_deleted:
  "deleted_in i w \<Longrightarrow> \<not> list_ex (client_creates i) es \<Longrightarrow> deleted_in i (fold (spec_client_event h) es w)"
  by (induction es arbitrary: w) (simp_all add: spec_event_deleted)

lemma spec_update_deleted: "deleted_in i w \<Longrightarrow> deleted_in i (spec_update h j f w)"
  by (auto simp: deleted_in_def spec_update_def split: option.splits)

lemma spec_action_deleted:
  assumes "deleted_in i w" "\<not> creates_thread i a"
  shows "deleted_in i (spec_action h d a w)"
proof (cases a)
  case (ShellEvent e)
  then show ?thesis using assms(1) by (cases e) (auto simp: deleted_in_def)
qed (use assms in \<open>simp_all add: spec_events_deleted spec_update_deleted, auto simp: deleted_in_def spec_detail_def\<close>)

lemma step_deleted:
  assumes "store_ok (clientThreads st)" "action_ok a" "\<not> creates_thread i a" "deleted_in i (world st)"
  shows "deleted_in i (world (client_step h d st a))"
proof (cases "reads_array a")
  case False
  with effect_step [OF assms(1,2), of h d] spec_action_deleted [OF assms(4,3), of h d] show ?thesis
    by (simp add: client_step_eq)
next
  case True
  then consider (model) ts ps where "a = SyncReadModel ts ps" | (project) j where "a = ShellEvent (ProjectRemoved j)"
    by (cases a rule: reads_array.cases) auto
  then show ?thesis
  proof cases
    case model
    with assms(2) syncModel_get [OF assms(1), of ts h] assms(4) show ?thesis
      by (simp add: client_step_eq deleted_in_def world_def syncServerReadModel_def Let_def sync_deleted detailNamed_deleted)
  next
    case project
    with removeThreads [OF assms(1)] assms(4) show ?thesis
      by (simp add: client_step_eq deleted_in_def world_def removeProjectState_def Let_def)
  qed
qed

interpretation deleted: invariant_store "client_step h d" "\<lambda>_ a. action_ok a \<and> \<not> creates_thread i a"
  "\<lambda>st. store_ok (clientThreads st) \<and> deleted_in i (world st)" for h d i
  by unfold_locales (use effect_step step_deleted in \<open>simp add: client_step_eq(1)\<close>)

text \<open>C6: A deleted thread stays deleted. Whatever comes afterwards, snapshots, details, read models and
  shells of it included, it can not be read, is not listed and is not in the array of threads; only
  the event that creates it can bring it back. What is sent is
  well-formed: distinct ids of threads, messages, plans and diffs, one pin per message, no overlapping
  markers.\<close>

theorem deletion_is_final:
  fixes h :: host and d :: dates
  assumes "store_ok (clientThreads st)" "list_all (\<lambda>a. action_ok a \<and> \<not> creates_thread i a) as"
    "a \<in> {RemoveDeletedThread i, Events [OnThread (ThreadDeleted i)], EventsHotPath [OnThread (ThreadDeleted i)]}"
  defines "st' \<equiv> clientThreads (run_actions (client_step h d) st (a # as))"
  shows "getThreadFromState st' i = None \<and> i \<notin> set (appThreadIds st') \<and> i \<notin> threadId ` set (appThreads st')"
proof -
  have "action_ok a" "\<not> reads_array a" "deleted_in i (spec_action h d a (world st))"
    using assms(3) by (auto simp: deleted_in_def split: prod.splits)
      (simp_all add: world_def)
  with effect_step [OF assms(1), of a h d]
  have "store_ok (clientThreads (client_step h d st a)) \<and> deleted_in i (world (client_step h d st a))"
    by (simp add: client_step_eq)
  then have "store_ok st' \<and> deleted_in i (world (run_actions (client_step h d) st (a # as)))"
    unfolding st'_def run_actions.simps
    by (rule deleted.run_inv) (simp add: admissible_all assms(2))
  then have ok: "store_ok st'" "getThreadFromState st' i = None"
    by (simp_all add: deleted_in_def world_def st'_def)
  then show ?thesis
    using store_okD(2) [of st'] store_okD(5) [of st'] getThread_known [of st' i] by blast
qed

theorem deletion_is_final_witness:
  "getThreadFromState (clientThreads (run_actions (client_step unitHost sampleDates)
      (initialClientState emptyProjectMemory) (RemoveDeletedThread ''t'' # sampleActions))) ''t'' = None \<and>
   ''t'' \<notin> set (appThreadIds (clientThreads (run_actions (client_step unitHost sampleDates)
      (initialClientState emptyProjectMemory) (RemoveDeletedThread ''t'' # sampleActions)))) \<and>
   ''t'' \<notin> threadId ` set (appThreads (clientThreads (run_actions (client_step unitHost sampleDates)
      (initialClientState emptyProjectMemory) (RemoveDeletedThread ''t'' # sampleActions))))"
proof (rule deletion_is_final [OF initial_client_ok])
  show "list_all (\<lambda>a. action_ok a \<and> \<not> creates_thread ''t'' a) sampleActions"
    using plain_ok [OF sampleActions_ok] by (simp add: list_all_conj) (simp add: sampleActions_def)
qed simp

section \<open>The read model and sessions\<close>

text \<open>C15: When the read model says that a thread has no session, the store keeps the session it had:
  the thread is written without its previous state, so that no session is compared with no session
  and nothing is written over the retained slice.\<close>

theorem read_model_keeps_stale_session:
  assumes "store_ok (clientThreads st)" "distinct (map shId ts)" "list_all detail_ok ts" "t \<in> set ts"
    and "rmDeletedAt t = None" "shId t \<notin> set (deletedThreadIdsById (clientThreads st))" "shSession t = None"
    and "getThreadFromState (clientThreads st) (shId t) = Some p"
  shows "map_option session (getThreadFromState (clientThreads (syncServerReadModel h ts ps st)) (shId t)) =
    Some (session p)"
proof -
  have "t \<in> set (liveDetails ts (deletedThreadIdsById (clientThreads st)))"
    using assms(4-6) by (simp add: liveDetails_def)
  then have "detailNamed (shId t) (liveDetails ts (deletedThreadIdsById (clientThreads st))) \<noteq> None"
    by (auto simp: detailNamed_None)
  then obtain u where u: "detailNamed (shId t) (liveDetails ts (deletedThreadIdsById (clientThreads st))) = Some u"
    by blast
  from detailNamed_Some [OF u] have "u \<in> set ts" "shId u = shId t" by (auto simp: liveDetails_def)
  with distinct_key [OF assms(2) _ assms(4)] have "u = t" by blast
  with u assms(7,8) syncModel_get [OF assms(1-3), of h] show ?thesis
    by (simp add: syncServerReadModel_def Let_def sessionKept_def modelThread_def normalizedThread_fields
        normalizeThreadSession_def)
qed

text \<open>A detail of the same thread without a session does clear it.\<close>

lemma detail_clears_session:
  assumes "store_ok st" "detail_ok t" "shId t \<notin> set (deletedThreadIdsById st)" "shSession t = None"
  shows "map_option session (getThreadFromState (syncServerThreadDetail h t st) (shId t)) = Some None"
  using detail_step(2) [OF assms(1,2), of h True] assms(3,4)
  by (simp add: syncServerThreadDetail_def detailApplied_def usedDetail_def stored_fields normalizedThread_fields
      normalizeThreadSession_def)

definition runningSession :: wire_session where
  "runningSession = \<lparr>wireStatus = StatusRunning, providerName = None, wireActiveTurnId = None,
     wireLastError = None, wireSessionUpdatedAt = ''2026''\<rparr>"

definition runningStore :: client_store where
  "runningStore = client_step unitHost sampleDates (initialClientState emptyProjectMemory)
     (SyncThreadDetail (sampleDetail\<lparr>shSession := Some runningSession\<rparr>))"

lemma sampleDetail_ok: "detail_ok (sampleDetail\<lparr>shSession := s\<rparr>)"
  by (simp add: sampleDetail_def detail_ok_def sampleShell_def shell_thread.defs read_model_thread.defs markers_ok_def)

lemma runningStore_ok: "store_ok (clientThreads runningStore)"
  unfolding runningStore_def
  using effect_step [OF initial_client_ok, of "SyncThreadDetail (sampleDetail\<lparr>shSession := Some runningSession\<rparr>)"]
  by (simp add: client_step_eq sampleDetail_ok)

lemma runningStore_thread:
  "\<exists>p. getThreadFromState (clientThreads runningStore) ''t'' = Some p \<and>
     map_option orchestrationStatus (session p) = Some StatusRunning"
proof -
  have "shId (sampleDetail\<lparr>shSession := Some runningSession\<rparr>) = ''t''"
    by (simp add: sampleDetail_def sampleShell_def shell_thread.defs)
  then show ?thesis
    using detail_step(2) [OF initial_ok sampleDetail_ok [of "Some runningSession"], of unitHost True]
    by (simp add: runningStore_def client_step_eq initialClientState_def syncServerThreadDetail_def
        initialAppState_def detailApplied_def usedDetail_def stored_fields normalizedThread_fields
        normalizeThreadSession_def runningSession_def Let_def)
qed

theorem read_model_keeps_stale_session_witness:
  "map_option (\<lambda>t. map_option orchestrationStatus (session t)) (getThreadFromState
     (clientThreads (syncServerReadModel unitHost [sampleDetail] [] runningStore)) ''t'') = Some (Some StatusRunning)"
proof -
  obtain p where p: "getThreadFromState (clientThreads runningStore) ''t'' = Some p"
    "map_option orchestrationStatus (session p) = Some StatusRunning"
    using runningStore_thread by blast
  have t: "shId sampleDetail = ''t''" "shSession sampleDetail = None" "rmDeletedAt sampleDetail = None"
    "detail_ok sampleDetail"
    using sampleDetail_ok [of None]
    by (simp_all add: sampleDetail_def sampleShell_def shell_thread.defs read_model_thread.defs)
  have "deletedThreadIdsById (clientThreads runningStore) = []"
    using detail_step(3) [OF initial_ok sampleDetail_ok [of "Some runningSession"], of unitHost True]
    by (simp add: runningStore_def client_step_eq initialClientState_def syncServerThreadDetail_def
        initialAppState_def)
  with read_model_keeps_stale_session [OF runningStore_ok, of "[sampleDetail]" sampleDetail p unitHost "[]"] t p
  show ?thesis by (auto simp: option.map_comp comp_def)
qed

section \<open>Removing a project\<close>

lemma shell_listed:
  assumes "store_ok st" "getThreadFromState st j = Some t"
  shows "j \<in> set (map threadId (filter (\<lambda>shell. projectId shell = projectId t) (map snd (threadShellById st))))"
proof -
  have "rec_get (threadShellById st) j = Some (toThreadShell t)" using getThread_fields(6) [OF assms(2)] .
  then have "toThreadShell t \<in> snd ` set (threadShellById st)" by (force dest: map_of_SomeD)
  moreover have "projectId (toThreadShell t) = projectId t" "threadId (toThreadShell t) = j"
    using store_okD(3) [OF assms] by (cases t; simp add: toThreadShell_def thread_shell.defs)+
  ultimately show ?thesis by force
qed

text \<open>Removing a project takes every thread of it, in the dictionary and in the array, and the project.\<close>

theorem project_removal_takes_threads:
  assumes "store_ok (clientThreads st)"
  shows "(\<forall>j. map_option projectId (getThreadFromState (clientThreads (removeProjectState i st)) j) \<noteq> Some i) \<and>
    i \<notin> projectId ` set (appThreads (clientThreads (removeProjectState i st))) \<and>
    i \<notin> prId ` set (clientProjects (removeProjectState i st))"
proof -
  define ids where "ids = js_dedup (map threadId (filter (\<lambda>t. projectId t = i) (appThreads (clientThreads st)))
      @ map threadId (filter (\<lambda>shell. projectId shell = i) (map snd (threadShellById (clientThreads st)))))"
  have eq: "clientThreads (removeProjectState i st) = fold removeThreadState ids (clientThreads st)"
    by (simp add: removeProjectState_def Let_def ids_def)
  note gone = removeThreads [OF assms, of ids]
  have "map_option projectId (getThreadFromState (fold removeThreadState ids (clientThreads st)) j) \<noteq> Some i" for j
    using gone shell_listed [OF assms, of j] by (auto simp: ids_def split: if_splits)
  moreover have "i \<notin> projectId ` set (appThreads (fold removeThreadState ids (clientThreads st)))"
    using gone by (auto simp: ids_def)
  ultimately show ?thesis unfolding eq by (auto simp: removeProjectState_def Let_def)
qed

theorem project_removal_takes_threads_witness:
  "(\<forall>j. map_option projectId (getThreadFromState (clientThreads (removeProjectState ''p'' runningStore)) j) \<noteq> Some ''p'') \<and>
   ''p'' \<notin> projectId ` set (appThreads (clientThreads (removeProjectState ''p'' runningStore))) \<and>
   ''p'' \<notin> prId ` set (clientProjects (removeProjectState ''p'' runningStore))"
  by (rule project_removal_takes_threads [OF runningStore_ok])

end
