(* ===== verification/MergeProperties.thy ===== *)
theory MergeProperties
  imports ClientProperties
begin

text \<open>
  A detail that arrives while a turn is streamed (\<open>syncServerThreadDetailHotPath\<close>): what was streamed
  is kept, and what becomes of the id of the answer.
\<close>

section \<open>Entries of the merge\<close>

definition liveRecord :: "thread \<Rightarrow> chat_message js_record" where
  "liveRecord p = from_entries (map (\<lambda>m. (messageId m, m)) (messages p))"

definition mergedMessages :: "thread \<Rightarrow> read_model_message list \<Rightarrow> (read_model_message \<times> bool) list" where
  "mergedMessages p incoming = map (\<lambda>w. mergeLiveMessage (rec_get (liveRecord p) (wireId w)) w) incoming"

definition mergedRecord :: "thread \<Rightarrow> read_model_message list \<Rightarrow> read_model_message js_record" where
  "mergedRecord p incoming = from_entries (map (\<lambda>(w, _). (wireId w, w)) (mergedMessages p incoming))"

definition retainedMessages :: "thread \<Rightarrow> read_model_message list \<Rightarrow> chat_message list" where
  "retainedMessages p incoming = filter (\<lambda>m. rec_get (mergedRecord p incoming) (messageId m) = None \<and>
     shouldRetainLiveAssistantMessageForHotPath p m) (messages p)"

abbreviation addRetained :: "chat_message \<Rightarrow> read_model_message js_record \<Rightarrow> read_model_message js_record" where
  "addRetained m r \<equiv> (if rec_get r (messageId m) = None
     then rec_set (messageId m) (readModelMessageFromChatMessage m) r else r)"

lemma merge_set:
  "set (mergeReadModelMessagesWithLiveHotPath h incoming (Some p)) =
     (if messages p = [] \<or> \<not> list_ex snd (mergedMessages p incoming) \<and> retainedMessages p incoming = []
      then set incoming
      else snd ` set (fold addRetained (retainedMessages p incoming) (mergedRecord p incoming)))"
  unfolding mergeReadModelMessagesWithLiveHotPath_def Let_def retainedMessages_def mergedRecord_def
    mergedMessages_def liveRecord_def
  by simp

lemma mergeLiveMessage_id: "wireId (fst (mergeLiveMessage live w)) = wireId w"
  by (simp add: mergeLiveMessage_def split: option.splits)

lemma mergedMessages_ids: "map (\<lambda>e. wireId (fst e)) (mergedMessages p incoming) = map wireId incoming"
  by (simp add: mergedMessages_def comp_def mergeLiveMessage_id)

lemma mergedRecord_eq:
  assumes "distinct (map wireId incoming)"
  shows "mergedRecord p incoming = map (\<lambda>e. (wireId (fst e), fst e)) (mergedMessages p incoming)"
  unfolding mergedRecord_def case_prod_beta
  by (rule from_entries_id) (use assms mergedMessages_ids [of p incoming] in \<open>simp add: comp_def\<close>)

lemma liveRecord_get:
  assumes "distinct (map messageId (messages p))" "m \<in> set (messages p)"
  shows "rec_get (liveRecord p) (messageId m) = Some m"
proof -
  have "liveRecord p = map (\<lambda>m. (messageId m, m)) (messages p)"
    unfolding liveRecord_def by (rule from_entries_id) (simp add: assms(1) comp_def)
  moreover have "rec_get (map (\<lambda>m. (messageId m, m)) (messages p)) (messageId m) = Some m"
    by (rule map_of_is_SomeI) (use assms in \<open>simp_all add: comp_def\<close>)
  ultimately show ?thesis by simp
qed

text \<open>A record only grows by retained messages, and each of them is entered.\<close>

lemma retained_kept: "(k, w) \<in> set r \<Longrightarrow> distinct (map fst r) \<Longrightarrow> (k, w) \<in> set (fold addRetained ms r)"
proof (induction ms arbitrary: r)
  case (Cons m ms)
  have "(k, w) \<in> set (rec_set (messageId m) (readModelMessageFromChatMessage m) r)"
    if "rec_get r (messageId m) = None"
  proof -
    have "messageId m \<notin> fst ` set r" using that by (simp add: map_of_eq_None_iff)
    then show ?thesis using Cons.prems(1) by (simp add: rec_set_fresh)
  qed
  with Cons show ?case by (simp add: rec_set_distinct)
qed simp

lemma retained_entered:
  assumes "m \<in> set ms" "rec_get r (messageId m) = None" "distinct (map fst r)" "distinct (map messageId ms)"
  shows "(messageId m, readModelMessageFromChatMessage m) \<in> set (fold addRetained ms r)"
  using assms
proof (induction ms arbitrary: r)
  case (Cons n ms)
  show ?case
  proof (cases "m = n")
    case True
    then have "messageId m \<notin> fst ` set r" using Cons.prems(2) by (simp add: map_of_eq_None_iff)
    then have "(messageId m, readModelMessageFromChatMessage m) \<in> set (addRetained n r)"
      using True Cons.prems(2) by (simp add: rec_set_fresh)
    moreover have "distinct (map fst (addRetained n r))" using Cons.prems(3) by (simp add: rec_set_distinct)
    ultimately show ?thesis unfolding fold_simps comp_apply by (rule retained_kept)
  next
    case False
    with Cons.prems(1) have m: "m \<in> set ms" by simp
    then have "messageId m \<in> messageId ` set ms" by (rule imageI)
    with Cons.prems(4) have "messageId m \<noteq> messageId n" by auto
    with Cons.prems Cons.IH [OF m, of "addRetained n r"] show ?thesis
      by (simp add: rec_get_set rec_set_distinct)
  qed
qed simp

text \<open>A merged message has the live text of the same role, or a longer one.\<close>

lemma mergeLiveMessage_text:
  "role live = wireRole w \<Longrightarrow> wireText (fst (mergeLiveMessage (Some live) w)) = messageText live \<or>
     wireText (fst (mergeLiveMessage (Some live) w)) = wireText w \<and> length (messageText live) \<le> length (wireText w)"
  by (auto simp: mergeLiveMessage_def shouldPreferLiveMessage_def)

text \<open>The text of a message after a detail: the one it had, or a text of the detail that is not shorter.\<close>

definition keeps_text :: "chat_message \<Rightarrow> read_model_message list \<Rightarrow> string \<Rightarrow> bool" where
  "keeps_text m incoming s \<longleftrightarrow> s = messageText m \<or>
     (\<exists>w\<in>set incoming. wireId w = messageId m \<and> s = wireText w \<and> length (messageText m) \<le> length s)"

lemma merge_keeps_text:
  assumes "distinct (map messageId (messages p))" "distinct (map wireId incoming)" "m \<in> set (messages p)"
    and "shouldRetainLiveAssistantMessageForHotPath p m"
    and "\<forall>w\<in>set incoming. wireId w = messageId m \<longrightarrow> wireRole w = role m"
  shows "\<exists>w\<in>set (mergeReadModelMessagesWithLiveHotPath h incoming (Some p)).
    wireId w = messageId m \<and> keeps_text m incoming (wireText w)"
proof -
  let ?R = "fold addRetained (retainedMessages p incoming) (mergedRecord p incoming)"
  have ne: "messages p \<noteq> []" using assms(3) by auto
  have keys: "distinct (map fst (mergedRecord p incoming))" by (simp add: mergedRecord_def)
  show ?thesis
  proof (cases "\<exists>w\<in>set incoming. wireId w = messageId m")
    case True
    then obtain w where w: "w \<in> set incoming" "wireId w = messageId m" by blast
    let ?w = "mergeLiveMessage (Some m) w"
    have live: "rec_get (liveRecord p) (wireId w) = Some m" using liveRecord_get [OF assms(1,3)] w(2) by simp
    have len: "keeps_text m incoming (wireText (fst ?w))"
      using mergeLiveMessage_text [of m w] assms(5) w by (auto simp: keeps_text_def)
    have mem: "?w \<in> set (mergedMessages p incoming)" using w(1) live by (force simp: mergedMessages_def)
    show ?thesis
    proof (cases "\<not> list_ex snd (mergedMessages p incoming) \<and> retainedMessages p incoming = []")
      case True
      with mem have "\<not> snd ?w" by (auto simp: list_ex_iff)
      with assms(5) w have "length (messageText m) \<le> length (wireText w)"
        by (auto simp: mergeLiveMessage_def shouldPreferLiveMessage_def split: if_splits)
      with True w show ?thesis by (auto simp: merge_set keeps_text_def)
    next
      case False
      have "(wireId (fst ?w), fst ?w) \<in> set (mergedRecord p incoming)"
        using imageI [OF mem, of "\<lambda>e. (wireId (fst e), fst e)"] by (simp add: mergedRecord_eq [OF assms(2)])
      from retained_kept [OF this keys] have "fst ?w \<in> snd ` set ?R" by force
      with False ne have "fst ?w \<in> set (mergeReadModelMessagesWithLiveHotPath h incoming (Some p))"
        by (auto simp: merge_set)
      then show ?thesis by (rule bexI [rotated]) (simp add: mergeLiveMessage_id w(2) len)
    qed
  next
    case False
    then have "messageId m \<notin> fst ` set (mergedRecord p incoming)"
      unfolding mergedRecord_eq [OF assms(2)]
      by (force simp: mergedMessages_def mergeLiveMessage_id)
    then have none: "rec_get (mergedRecord p incoming) (messageId m) = None" by (simp add: map_of_eq_None_iff)
    with assms(3,4) have mem: "m \<in> set (retainedMessages p incoming)" by (simp add: retainedMessages_def)
    have "distinct (map messageId (retainedMessages p incoming))"
      using assms(1) by (simp add: retainedMessages_def distinct_map_filter)
    from retained_entered [OF mem none keys this]
    have "readModelMessageFromChatMessage m \<in> snd ` set ?R" by force
    moreover have "retainedMessages p incoming \<noteq> []" using mem by auto
    ultimately have "readModelMessageFromChatMessage m \<in> set (mergeReadModelMessagesWithLiveHotPath h incoming (Some p))"
      using ne by (simp add: merge_set)
    then show ?thesis by (rule bexI [rotated]) (simp add: readModelMessageFromChatMessage_def keeps_text_def)
  qed
qed

lemma merge_length:
  assumes "distinct (map wireId incoming)"
  shows "length (mergeReadModelMessagesWithLiveHotPath h incoming (Some p)) \<le> length incoming + length (messages p)"
proof -
  have grow: "length (fold addRetained ms r) \<le> length r + length ms" for ms r
  proof (induction ms arbitrary: r)
    case (Cons m ms)
    have "length (addRetained m r) \<le> Suc (length r)"
      by (simp add: rec_set_fresh map_of_eq_None_iff)
    with Cons.IH [of "addRetained m r"] show ?case by simp
  qed simp
  have "length (mergedRecord p incoming) = length incoming"
    by (simp add: mergedRecord_eq [OF assms] mergedMessages_def)
  moreover have "length (retainedMessages p incoming) \<le> length (messages p)" by (simp add: retainedMessages_def)
  moreover note grow [of "retainedMessages p incoming" "mergedRecord p incoming"]
  ultimately have "length (fold addRetained (retainedMessages p incoming) (mergedRecord p incoming))
      \<le> length incoming + length (messages p)" by linarith
  then show ?thesis
    unfolding mergeReadModelMessagesWithLiveHotPath_def Let_def retainedMessages_def mergedRecord_def
      mergedMessages_def liveRecord_def
    by simp
qed

section \<open>The store after a late detail\<close>

lemma normalizeChatMessage_text: "messageText (normalizeChatMessage h w previous) = wireText w"
  by (auto simp: normalizeChatMessage_def Let_def split: option.splits)

lemma usedDetail_messages:
  "rmMessages (usedDetail h False t (Some p)) = mergeReadModelMessagesWithLiveHotPath h (rmMessages t) (Some p)"
  "shLatestTurn (usedDetail h False t (Some p)) = mergeReadModelLatestTurnWithLiveHotPath (shLatestTurn t) (Some p)
     (shouldPreserveRunningTurn (Some p) t)"
  by (simp_all add: usedDetail_def mergeReadModelThreadDetailWithLiveHotPath_def Let_def)

lemma hot_detail_get:
  assumes "store_ok st" "detail_ok t" "shId t \<notin> set (deletedThreadIdsById st)"
    and "getThreadFromState st (shId t) = Some p"
  shows "getThreadFromState (syncServerThreadDetailHotPath h t st) (shId t) =
    Some (stored (Some p) (normalizeThreadFromReadModel h (usedDetail h False t (Some p)) (Some p)))"
  using detail_step(2) [OF assms(1,2), of h False] assms(3,4)
  by (simp add: syncServerThreadDetailHotPath_def detailApplied_def)

text \<open>C10: A detail that arrives late does not shorten a message that is being streamed or answers the running
  turn: after it the thread still has the message, with the text it had or with the detail's own text of
  it if that is not shorter, be it absent from the detail or there with a shorter text. This holds in a sound
  store when the thread is not deleted, the detail is well-formed (distinct ids of its parts, one pin per message, no overlapping
  markers), gives the message the same role, and has together with the thread at most 2000 messages
  (beyond that the cap may drop the message).\<close>

theorem late_detail_keeps_streamed_text:
  assumes "store_ok st" "detail_ok t" "shId t \<notin> set (deletedThreadIdsById st)"
    and "getThreadFromState st (shId t) = Some p" "m \<in> set (messages p)"
    and "shouldRetainLiveAssistantMessageForHotPath p m"
    and "\<forall>w\<in>set (rmMessages t). wireId w = messageId m \<longrightarrow> wireRole w = role m"
    and "length (messages p) + length (rmMessages t) \<le> MAX_THREAD_MESSAGES"
  shows "\<exists>t'. getThreadFromState (syncServerThreadDetailHotPath h t st) (shId t) = Some t' \<and>
    (\<exists>m'\<in>set (messages t'). messageId m' = messageId m \<and> keeps_text m (rmMessages t) (messageText m'))"
proof -
  let ?ms = "mergeReadModelMessagesWithLiveHotPath h (rmMessages t) (Some p)"
  have d: "distinct (map messageId (messages p))" "distinct (map wireId (rmMessages t))"
    using store_okD(3) [OF assms(1,4)] assms(2) by (simp_all add: stored_ok_def thread_ok_def detail_ok_def)
  from merge_keeps_text [OF d assms(5-7), of h]
  obtain w where w: "w \<in> set ?ms" "wireId w = messageId m" "keeps_text m (rmMessages t) (wireText w)" by blast
  have "slice_last MAX_THREAD_MESSAGES ?ms = ?ms"
    using merge_length [OF d(2), of h p] assms(8) by (intro slice_last_all) linarith
  then have ms: "normalizeChatMessages h ?ms (Some (messages p)) =
      map (\<lambda>w. normalizeChatMessage h w (List.find (\<lambda>q. messageId q = wireId w) (rev (messages p)))) ?ms"
    by (simp add: normalizeChatMessages_def)
  let ?m = "normalizeChatMessage h w (List.find (\<lambda>q. messageId q = wireId w) (rev (messages p)))"
  have "?m \<in> set (normalizeChatMessages h ?ms (Some (messages p)))" using w(1) by (simp add: ms)
  moreover have "messageId ?m = messageId m"
    unfolding w(2) [symmetric] by (rule normalizeChatMessage_id) (blast dest: find_rev_key)
  ultimately show ?thesis
    using w(3) by (auto simp: hot_detail_get [OF assms(1-4)] stored_fields normalizedThread_fields
        usedDetail_messages normalizeChatMessage_text intro!: bexI [of _ ?m])
qed

text \<open>When the live thread does not know yet which message answers its latest turn, the detail of the
  completed turn, which does, loses that id: an absent id is copied over it.\<close>

theorem completed_turn_loses_answer_id:
  assumes "store_ok st" "detail_ok t" "shId t \<notin> set (deletedThreadIdsById st)"
    and "getThreadFromState st (shId t) = Some p" "latestTurn p = Some turn" "assistantMessageId turn = None"
    and "shLatestTurn t = Some i" "latestTurnId i = latestTurnId turn" "truthy_str (completedAt i) \<noteq> None"
  shows "\<exists>t' turn'. getThreadFromState (syncServerThreadDetailHotPath h t st) (shId t) = Some t' \<and>
    latestTurn t' = Some turn' \<and> latestTurnId turn' = latestTurnId i \<and> completedAt turn' = completedAt i \<and>
    assistantMessageId turn' = None"
proof -
  have "\<not> shouldPreserveRunningTurn (Some p) t"
    using assms(5,7-9)
    by (auto simp: shouldPreserveRunningTurn_def truthy_str_def split: option.splits if_splits)
  with assms(5-8) show ?thesis
    by (auto simp: hot_detail_get [OF assms(1-4)] stored_fields normalizedThread_fields usedDetail_messages
        mergeReadModelLatestTurnWithLiveHotPath_def normalizeLatestTurn_def)
qed

section \<open>Instances\<close>

definition answerWire :: read_model_message where
  "answerWire = newMessage\<lparr>wireRole := Assistant, wireText := ''Hello'', wireStreaming := True\<rparr>"

definition sampleTurn :: "string option \<Rightarrow> latest_turn" where
  "sampleTurn answer = \<lparr>latestTurnId = ''turn'', latestTurnState = TurnCompleted, requestedAt = ''2026'',
     startedAt = None, completedAt = Some ''2027'', assistantMessageId = answer, sourceProposedPlan = None\<rparr>"

definition answeredDetail :: "read_model_message list \<Rightarrow> string option \<Rightarrow> read_model_thread" where
  "answeredDetail ms answer = sampleDetail\<lparr>rmMessages := ms, shLatestTurn := Some (sampleTurn answer)\<rparr>"

definition answeredStore :: app_state where
  "answeredStore = syncServerThreadDetail unitHost (answeredDetail [answerWire] None) initialAppState"

lemma answeredDetail_fields:
  "shId (answeredDetail ms answer) = ''t''" "rmMessages (answeredDetail ms answer) = ms"
  "shLatestTurn (answeredDetail ms answer) = Some (sampleTurn answer)"
  "distinct (map wireId ms) \<Longrightarrow> detail_ok (answeredDetail ms answer)"
  by (simp_all add: answeredDetail_def sampleDetail_def sampleShell_def shell_thread.defs read_model_thread.defs
      detail_ok_def markers_ok_def)

lemma answeredStore_ok: "store_ok answeredStore" "deletedThreadIdsById answeredStore = []"
  using detail_step [OF initial_ok, of "answeredDetail [answerWire] None" unitHost True]
  by (simp_all add: answeredStore_def syncServerThreadDetail_def answeredDetail_fields initialAppState_def)

lemma answeredStore_thread:
  obtains p where "getThreadFromState answeredStore ''t'' = Some p"
    "messages p = [normalizeChatMessage unitHost answerWire None]" "latestTurn p = Some (sampleTurn None)"
proof
  show "getThreadFromState answeredStore ''t'' = Some (stored None (normalizeThreadFromReadModel unitHost
      (answeredDetail [answerWire] None) None))"
    using detail_step(2) [OF initial_ok, of "answeredDetail [answerWire] None" unitHost True]
    by (simp add: answeredStore_def syncServerThreadDetail_def answeredDetail_fields initialAppState_def
        detailApplied_def usedDetail_def initial_get [unfolded initialAppState_def])
qed (simp_all add: stored_fields normalizedThread_fields answeredDetail_fields normalizeChatMessages_def
    slice_last_def MAX_THREAD_MESSAGES_def normalizeLatestTurn_def sampleTurn_def)

text \<open>A detail that has only the beginning of the answer.\<close>

theorem late_detail_keeps_streamed_text_witness:
  "\<exists>t'. getThreadFromState (syncServerThreadDetailHotPath unitHost
      (answeredDetail [answerWire\<lparr>wireText := ''He''\<rparr>] None) answeredStore) ''t'' = Some t' \<and>
    (\<exists>m'\<in>set (messages t'). messageId m' = wireId newMessage \<and> messageText m' = ''Hello'')"
proof -
  obtain p where p: "getThreadFromState answeredStore ''t'' = Some p"
    "messages p = [normalizeChatMessage unitHost answerWire None]" "latestTurn p = Some (sampleTurn None)"
    by (rule answeredStore_thread)
  let ?m = "normalizeChatMessage unitHost answerWire None"
  let ?d = "answeredDetail [answerWire\<lparr>wireText := ''He''\<rparr>] None"
  have m: "shouldRetainLiveAssistantMessageForHotPath p ?m" "messageText ?m = ''Hello''" "role ?m = Assistant"
    "messageId ?m = wireId newMessage"
    by (simp_all add: shouldRetainLiveAssistantMessageForHotPath_def normalizeChatMessage_def answerWire_def)
  have "\<exists>t'. getThreadFromState (syncServerThreadDetailHotPath unitHost ?d answeredStore) (shId ?d) = Some t' \<and>
      (\<exists>m'\<in>set (messages t'). messageId m' = messageId ?m \<and> keeps_text ?m (rmMessages ?d) (messageText m'))"
    by (rule late_detail_keeps_streamed_text [OF answeredStore_ok(1) _ _ _ _ m(1)])
      (simp_all add: answeredDetail_fields answeredStore_ok p m MAX_THREAD_MESSAGES_def, simp add: answerWire_def)
  moreover have "keeps_text ?m (rmMessages ?d) s \<longleftrightarrow> s = ''Hello''" for s
    by (auto simp: keeps_text_def answeredDetail_fields m)
  ultimately show ?thesis by (simp add: answeredDetail_fields m)
qed

theorem completed_turn_loses_answer_id_witness:
  "\<exists>t' turn'. getThreadFromState (syncServerThreadDetailHotPath unitHost
      (answeredDetail [answerWire] (Some ''answer'')) answeredStore) ''t'' = Some t' \<and>
    latestTurn t' = Some turn' \<and> latestTurnId turn' = ''turn'' \<and> completedAt turn' = Some ''2027'' \<and>
    assistantMessageId turn' = None"
proof -
  obtain p where p: "getThreadFromState answeredStore ''t'' = Some p"
    "messages p = [normalizeChatMessage unitHost answerWire None]" "latestTurn p = Some (sampleTurn None)"
    by (rule answeredStore_thread)
  with completed_turn_loses_answer_id [OF answeredStore_ok(1), of "answeredDetail [answerWire] (Some ''answer'')"
      p "sampleTurn None" "sampleTurn (Some ''answer'')" unitHost]
  show ?thesis
    by (simp add: answeredDetail_fields answeredStore_ok) (simp add: sampleTurn_def truthy_str_def)
qed

end
