(* ===== verification/ProjectProperties.thy ===== *)
theory ProjectProperties
  imports StoreSync Comparisons
begin

text \<open>
  The projects of the sidebar: dragging one, and what of their state survives a restart.
\<close>

section \<open>Reordering\<close>

lemma find_index_append:
  "find_index P (xs @ ys) = (case find_index P xs of Some i \<Rightarrow> Some i
     | None \<Rightarrow> map_option (\<lambda>i. length xs + i) (find_index P ys))"
  by (cases "find_index P ys"; induction xs) (auto split: option.splits)

lemma filter_take_drop: "filter P xs = filter P (take n xs) @ filter P (drop n xs)"
  unfolding filter_append [symmetric] append_take_drop_id ..

text \<open>Dragging a project onto another only moves the one that is dragged: it ends at the place the
  other had, every project is still there and the rest keep their order.\<close>

theorem reorder_moves_one:
  assumes "distinct (map prId ps)" "dragged \<noteq> target"
    and "find_index (\<lambda>p. prId p = dragged) ps = Some i" "find_index (\<lambda>p. prId p = target) ps = Some j"
  shows "mset (reorderProjects dragged target ps) = mset ps \<and>
    filter (\<lambda>p. prId p \<noteq> dragged) (reorderProjects dragged target ps) = filter (\<lambda>p. prId p \<noteq> dragged) ps \<and>
    find_index (\<lambda>p. prId p = dragged) (reorderProjects dragged target ps) = Some j"
proof -
  define rest where "rest = take i ps @ drop (Suc i) ps"
  have i: "i < length ps" "prId (ps ! i) = dragged" using find_index_SomeD [OF assms(3)] by auto
  have j: "j < length ps" using find_index_SomeD [OF assms(4)] by auto
  have split: "ps = take i ps @ ps ! i # drop (Suc i) ps" using i(1) by (rule id_take_nth_drop)
  have eq: "reorderProjects dragged target ps = take j rest @ ps ! i # drop j rest"
    using assms(2-4) by (simp add: reorderProjects_def rest_def Let_def)
  have len: "j \<le> length rest" using i(1) j by (simp add: rest_def)
  have "mset ps = add_mset (ps ! i) (mset rest)" unfolding rest_def by (subst split) simp
  moreover have "mset (take j rest @ ps ! i # drop j rest) = add_mset (ps ! i) (mset (take j rest @ drop j rest))"
    by (simp del: append_take_drop_id)
  ultimately have perm: "mset (reorderProjects dragged target ps) = mset ps" by (simp add: eq)
  have "prId p \<noteq> dragged" if "p \<in> set rest" for p
  proof -
    have "distinct (map prId (take i ps) @ dragged # map prId (drop (Suc i) ps))"
      using assms(1) split i(2) by (metis list.simps(9) map_append)
    with that show ?thesis by (auto simp: rest_def)
  qed
  then have none: "\<forall>p\<in>set rest. prId p \<noteq> dragged" by blast
  then have rest: "filter (\<lambda>p. prId p \<noteq> dragged) rest = rest" by simp
  have "filter (\<lambda>p. prId p \<noteq> dragged) ps = filter (\<lambda>p. prId p \<noteq> dragged) rest"
    unfolding rest_def by (subst split) (simp add: i(2))
  moreover have "filter (\<lambda>p. prId p \<noteq> dragged) (reorderProjects dragged target ps) =
      filter (\<lambda>p. prId p \<noteq> dragged) rest"
    by (simp add: eq i(2) flip: filter_take_drop)
  moreover have "find_index (\<lambda>p. prId p = dragged) (take j rest) = None"
    using none by (auto simp: find_index_None_iff dest: in_set_takeD)
  then have "find_index (\<lambda>p. prId p = dragged) (reorderProjects dragged target ps) = Some j"
    using len by (simp add: eq find_index_append i(2))
  ultimately show ?thesis using perm by simp
qed

section \<open>Restarting\<close>

text \<open>The store after a restart: what was persisted is read, then the first snapshot arrives.\<close>

definition restarted ::
    "host \<Rightarrow> project list \<Rightarrow> project_memory \<Rightarrow> shell_thread list \<Rightarrow> wire_project list \<Rightarrow> client_store" where
  "restarted h ps mem ts ws =
     syncServerShellSnapshot h ts ws (initialClientState (readPersistedState (fst (persistState ps mem))))"

lemma restarted_projects:
  "clientProjects (restarted h ps mem ts ws) =
     mapProjectsFromShellSnapshot (readPersistedState (fst (persistState ps mem))) ws []"
  by (simp add: restarted_def syncServerShellSnapshot_def Let_def initialClientState_def rememberProjects_def
      rememberProjectUiState_def rememberProjectLocalNames_def)

lemma mapped_mem:
  "p \<in> set (mapProjectsFromReadModel mem ws []) \<Longrightarrow> \<exists>w\<in>set ws. p = normalizeProjectFromReadModel mem w None"
  by (auto simp: mapProjectsFromReadModel_def Let_def last_with_def enumerate_eq_zip dest!: set_zip_rightD)

text \<open>When every project was collapsed, all of them are expanded after a restart: nothing tells an
  empty list of expanded projects from no list at all.\<close>

theorem all_collapsed_reopen:
  assumes "list_all (\<lambda>p. \<not> prExpanded p) ps"
  shows "list_all prExpanded (clientProjects (restarted h ps mem ts ws))"
proof -
  have "filter prExpanded ps = []" using assms by (simp add: filter_empty_conv list_all_iff)
  then have "persistedExpandedProjectCwds (readPersistedState (fst (persistState ps mem))) = []"
    by (simp add: readPersistedState_def persistState_def Let_def)
  then show ?thesis
    by (auto simp: restarted_projects list_all_iff normalizeProjectFromReadModel_def Let_def dest!: mapped_mem)
qed

abbreviation keyOf :: "project \<Rightarrow> string" where
  "keyOf p \<equiv> projectCwdKey (prCwd p)"

lemma read_order:
  assumes "distinct (map projectCwdKey cwds @ order)" "\<forall>c\<in>set cwds. projectCwdKey c \<noteq> []"
  shows "fold readOrderRound cwds order = order @ map projectCwdKey cwds"
  using assms
proof (induction cwds arbitrary: order)
  case (Cons c cwds)
  then have "readOrderRound c order = order @ [projectCwdKey c]" by (simp add: readOrderRound_def Let_def)
  with Cons show ?case by simp
qed simp

lemma read_expanded:
  assumes "\<forall>c\<in>set cwds. c \<noteq> []"
  shows "set (fold (\<lambda>cwd r. if length cwd > 0 then key_add (projectCwdKey cwd) r else r) cwds r) =
    projectCwdKey ` set cwds \<union> set r"
  using assms by (induction cwds arbitrary: r) (auto simp: key_add_def)

lemma projectCwdKey_Nil: "projectCwdKey [] = []"
  by (simp add: projectCwdKey_def normalizeWorkspaceRootForComparison_def)

lemma last_index_distinct:
  assumes "distinct ks" "i < length ks"
  shows "last_index (\<lambda>c. c) ks (ks ! i) = Some i"
proof -
  obtain j where j: "find_index (\<lambda>x. x = ks ! i) (rev ks) = Some j"
    using assms(2) find_index_None_iff [of "\<lambda>x. x = ks ! i" "rev ks"] nth_mem [OF assms(2)] by fastforce
  from find_index_SomeD [OF j] have "j < length ks" "rev ks ! j = ks ! i" by auto
  with assms have "length ks - Suc j = i" by (simp add: rev_nth nth_eq_iff_index_eq)
  with j show ?thesis by (simp add: last_index_def)
qed

text \<open>What is sent by the server stands for the projects that were there: the same working directories.\<close>

lemma restart_memory:
  fixes mem :: project_memory
  assumes "distinct (map keyOf ps)" "\<forall>p\<in>set ps. keyOf p \<noteq> []"
  defines "mem' \<equiv> readPersistedState (fst (persistState ps mem))"
  shows "persistedProjectOrderCwds mem' = map keyOf ps"
    "set (persistedExpandedProjectCwds mem') = keyOf ` {p \<in> set ps. prExpanded p}"
proof -
  have "\<forall>c\<in>set (map prCwd ps). c \<noteq> []" using assms(2) projectCwdKey_Nil by auto
  then show "set (persistedExpandedProjectCwds mem') = keyOf ` {p \<in> set ps. prExpanded p}"
    using read_expanded [of "map prCwd (filter prExpanded ps)" "[]"]
    by (auto simp: mem'_def readPersistedState_def persistState_def Let_def)
  show "persistedProjectOrderCwds mem' = map keyOf ps"
    using read_order [of "map prCwd ps" "[]"] assms(1,2)
    by (simp add: mem'_def readPersistedState_def persistState_def Let_def comp_def)
qed

section \<open>Order of a snapshot\<close>

definition orderedEntries :: "project_memory \<Rightarrow> wire_project list \<Rightarrow> (nat \<times> nat \<times> project) list" where
  "orderedEntries mem ws = map (\<lambda>(index, p). (projectOrderIndex mem [] p index, index, p))
     (enumerate 0 (map (\<lambda>w. normalizeProjectFromReadModel mem w None) ws))"

lemma last_index_Nil [simp]: "last_index f [] k = None"
  by (simp add: last_index_def)

lemma mapProjects_fresh:
  "mapProjectsFromReadModel mem ws [] = map (\<lambda>e. snd (snd e)) (sort_cmp (\<lambda>a b.
     cmp_or (int (fst a) - int (fst b)) (int (fst (snd a)) - int (fst (snd b)))) (orderedEntries mem ws))"
proof -
  have "(\<lambda>(order, index, _ :: project) (order', index', _ :: project).
      cmp_or (int order - int order') (int index - int index')) =
    (\<lambda>a b. cmp_or (int (fst a) - int (fst b)) (int (fst (snd a)) - int (fst (snd b))))"
    and "(\<lambda>(_ :: nat, _ :: nat, p). p) = (\<lambda>e. snd (snd e) :: project)"
    by (simp_all add: fun_eq_iff)
  then show ?thesis
    by (simp add: mapProjectsFromReadModel_def orderedEntries_def Let_def last_with_def)
qed

lemma sorted_entries:
  "sorted (map fst (sort_cmp (\<lambda>a b. cmp_or (int (fst a) - int (fst b)) (int (fst (snd a)) - int (fst (snd b)))) es))"
proof -
  have c: "comparison (\<lambda>a b. cmp_or (int (fst a) - int (fst b)) (int (fst (snd a)) - int (fst (snd b))))"
    by (intro comparison_intros)
  show ?thesis
    unfolding sorted_map by (rule sorted_wrt_mono_rel [OF _ sorted_sort_cmp [OF c]])
      (auto simp: cmp_or_def split: if_splits)
qed

text \<open>Entries whose order indices are all the indices of a list come out in the order of that list.\<close>

lemma sorted_indices:
  assumes "sorted (map fst es)" "mset (map fst es) = mset [0..<length ps]"
    and "\<And>e. e \<in> set es \<Longrightarrow> f (snd (snd e)) = g (ps ! fst e)"
  shows "map (\<lambda>e. f (snd (snd e))) es = map g ps"
proof -
  have "map fst es = [0..<length ps]"
    using assms(1,2) by (metis properties_for_sort sorted_upt)
  then have "map (\<lambda>i. g (ps ! i)) (map fst es) = map g ps" by (simp add: map_nth_upt)
  then show ?thesis using assms(3) by (simp add: comp_def cong: map_cong)
qed

lemma own_project:
  assumes "mset (map wpWorkspaceRoot ws) = mset (map prCwd ps)" "w \<in> set ws"
  obtains i where "i < length ps" "wpWorkspaceRoot w = prCwd (ps ! i)"
proof -
  have "wpWorkspaceRoot w \<in> set (map prCwd ps)" using assms mset_eq_setD [OF assms(1)] by auto
  then show thesis using that by (auto simp: in_set_conv_nth)
qed

text \<open>After a restart a project has the index and the expansion of the project with its directory.\<close>

lemma restarted_entry:
  assumes "distinct (map keyOf ps)" "\<forall>p\<in>set ps. keyOf p \<noteq> []" "list_ex prExpanded ps"
    and "mset (map wpWorkspaceRoot ws) = mset (map prCwd ps)"
    and "e \<in> set (orderedEntries (readPersistedState (fst (persistState ps mem))) ws)"
  shows "fst e < length ps \<and> prCwd (snd (snd e)) = prCwd (ps ! fst e) \<and>
    prExpanded (snd (snd e)) = prExpanded (ps ! fst e)"
proof -
  define mem' where "mem' = readPersistedState (fst (persistState ps mem))"
  note memory = restart_memory [OF assms(1,2), of mem, folded mem'_def]
  from assms(5) obtain k w where e: "w \<in> set ws" "e = (let p = normalizeProjectFromReadModel mem' w None
      in (projectOrderIndex mem' [] p k, k, p))"
    by (auto simp: orderedEntries_def enumerate_eq_zip Let_def mem'_def dest!: set_zip_rightD)
  obtain i where i: "i < length ps" "wpWorkspaceRoot w = prCwd (ps ! i)" by (rule own_project [OF assms(4) e(1)])
  have "last_index (\<lambda>c. c) (map keyOf ps) (keyOf (ps ! i)) = Some i"
    using last_index_distinct [OF assms(1), of i] i(1) by simp
  moreover have "keyOf ` {p \<in> set ps. prExpanded p} \<noteq> {}" using assms(3) by (auto simp: list_ex_iff)
  then have "persistedExpandedProjectCwds mem' \<noteq> []" using memory(2) by auto
  moreover have "keyOf (ps ! i) \<in> keyOf ` {p \<in> set ps. prExpanded p} \<longleftrightarrow> prExpanded (ps ! i)"
    using distinct_key [OF assms(1) _ nth_mem [OF i(1)]] i(1) by auto
  ultimately show ?thesis
    using e(2) i memory by (simp add: normalizeProjectFromReadModel_def projectOrderIndex_def Let_def)
qed

lemma restarted_indices:
  assumes "distinct (map keyOf ps)" "\<forall>p\<in>set ps. keyOf p \<noteq> []"
    and "mset (map wpWorkspaceRoot ws) = mset (map prCwd ps)"
  shows "mset (map fst (orderedEntries (readPersistedState (fst (persistState ps mem))) ws)) = mset [0..<length ps]"
proof -
  define mem' where "mem' = readPersistedState (fst (persistState ps mem))"
  note memory = restart_memory [OF assms(1,2), of mem, folded mem'_def]
  define idx where "idx c = nullish (last_index (\<lambda>c. c) (map keyOf ps) (projectCwdKey c)) 0" for c
  have idx: "last_index (\<lambda>c. c) (map keyOf ps) (keyOf (ps ! i)) = Some i" if "i < length ps" for i
    using last_index_distinct [OF assms(1), of i] that by simp
  have own_index: "projectOrderIndex mem' [] (normalizeProjectFromReadModel mem' w None) k = idx (wpWorkspaceRoot w)"
    if w: "w \<in> set ws" for w k
  proof -
    obtain i where "i < length ps" "wpWorkspaceRoot w = prCwd (ps ! i)" by (rule own_project [OF assms(3) w])
    with idx memory(1) show ?thesis
      by (simp add: normalizeProjectFromReadModel_def projectOrderIndex_def idx_def Let_def)
  qed
  have "map fst (orderedEntries mem' ws) = map idx (map wpWorkspaceRoot ws)"
    by (rule nth_equalityI) (simp_all add: orderedEntries_def nth_enumerate_eq own_index)
  then have "mset (map fst (orderedEntries mem' ws)) = image_mset idx (mset (map prCwd ps))"
    using assms(3) by (metis mset_map)
  also have "\<dots> = mset (map (\<lambda>p. idx (prCwd p)) ps)" by (simp add: image_mset.compositionality comp_def)
  also have "map (\<lambda>p. idx (prCwd p)) ps = [0..<length ps]"
    by (rule nth_equalityI) (simp_all add: idx_def idx)
  finally show ?thesis by (simp add: mem'_def)
qed

text \<open>C23: A restart brings back which projects are expanded, and their order, whatever the order in which the
  server lists them, provided that at least one project was expanded, that the normalized directories of
  the projects are not empty and pairwise distinct (of two projects that share one, one entry is
  remembered for both), and that the server lists exactly the directories of before, each as often.\<close>

theorem expansion_and_order_survive:
  assumes "distinct (map keyOf ps)" "\<forall>p\<in>set ps. keyOf p \<noteq> []" "list_ex prExpanded ps"
    and "mset (map wpWorkspaceRoot ws) = mset (map prCwd ps)"
  shows "map prCwd (clientProjects (restarted h ps mem ts ws)) = map prCwd ps \<and>
    map prExpanded (clientProjects (restarted h ps mem ts ws)) = map prExpanded ps"
proof -
  let ?mem = "readPersistedState (fst (persistState ps mem))"
  let ?sorted = "sort_cmp (\<lambda>a b. cmp_or (int (fst a) - int (fst b)) (int (fst (snd a)) - int (fst (snd b))))
    (orderedEntries ?mem ws)"
  have perm: "mset (map fst ?sorted) = mset [0..<length ps]"
    using restarted_indices [OF assms(1,2,4), of mem] by simp
  show ?thesis
    unfolding restarted_projects mapProjects_fresh map_map comp_def
    using sorted_indices [OF sorted_entries perm, of prCwd prCwd]
      sorted_indices [OF sorted_entries perm, of prExpanded prExpanded] restarted_entry [OF assms]
    by simp
qed

section \<open>Instances\<close>

definition sampleProject :: "string \<Rightarrow> bool \<Rightarrow> project" where
  "sampleProject cwd expanded = \<lparr>prId = cwd, prKind = ''project'', prName = cwd, prRemoteName = cwd,
     prFolderName = cwd, prLocalName = None, prCwd = cwd, prDefaultModelSelection = None,
     prExpanded = expanded, prIsPinned = False, prCreatedAt = None, prUpdatedAt = None, prScripts = []\<rparr>"

definition sampleWire :: "string \<Rightarrow> wire_project" where
  "sampleWire cwd = \<lparr>wpId = cwd, wpKind = None, wpTitle = cwd, wpWorkspaceRoot = cwd,
     wpDefaultModelSelection = None, wpScripts = None, wpIsPinned = None, wpCreatedAt = [], wpUpdatedAt = [],
     wpDeletedAt = None\<rparr>"

theorem reorder_moves_one_witness:
  "mset (reorderProjects ''a'' ''c'' (map (\<lambda>i. sampleProject i True) [''a'', ''b'', ''c''])) =
     mset (map (\<lambda>i. sampleProject i True) [''a'', ''b'', ''c'']) \<and>
   find_index (\<lambda>p. prId p = ''a'')
     (reorderProjects ''a'' ''c'' (map (\<lambda>i. sampleProject i True) [''a'', ''b'', ''c''])) = Some 2"
  using reorder_moves_one [of "map (\<lambda>i. sampleProject i True) [''a'', ''b'', ''c'']" "''a''" "''c''" 0 2]
  by (simp add: sampleProject_def)

theorem all_collapsed_reopen_witness:
  "list_all prExpanded (clientProjects (restarted unitHost [sampleProject ''/a'' False] emptyProjectMemory []
     [sampleWire ''/a'']))"
  by (rule all_collapsed_reopen) (simp add: sampleProject_def)

lemma sample_keys: "projectCwdKey ''/a'' = ''/a''" "projectCwdKey ''/b'' = ''/b''"
  by code_simp+

theorem expansion_and_order_survive_witness:
  "map prCwd (clientProjects (restarted unitHost [sampleProject ''/b'' False, sampleProject ''/a'' True]
      emptyProjectMemory [] [sampleWire ''/a'', sampleWire ''/b''])) = [''/b'', ''/a''] \<and>
   map prExpanded (clientProjects (restarted unitHost [sampleProject ''/b'' False, sampleProject ''/a'' True]
      emptyProjectMemory [] [sampleWire ''/a'', sampleWire ''/b''])) = [False, True]"
  using expansion_and_order_survive [of "[sampleProject ''/b'' False, sampleProject ''/a'' True]"
    "[sampleWire ''/a'', sampleWire ''/b'']" unitHost emptyProjectMemory "[]"]
  by (simp add: sampleProject_def sampleWire_def sample_keys)

end
