(* ===== verification/PushAdapter.thy ===== *)
theory PushAdapter
  imports StoreSync
begin

text \<open>
  The adapter between the pushes of the server and the events of the client store
  (\<open>frontend/src/contracts/adaptPushEvent.ts\<close>): \<open>adaptPushEnvelope\<close>, one definition per group of
  tags, and the context of a connection it reads and writes.

  A field the code casts to a string, where the server sends a string or null, is read as a string
  or nothing. \<open>new Date().toISOString()\<close> is read at most twice per frame; the readings are
  arguments. What no reader of an event uses is left out of it: the runtime mode of a session and
  the message id of a requested turn. An undefined element of an array is kept as null.
\<close>

section \<open>Context and events\<close>

record raw_envelope =
  envEventType :: string
  envAggregateId :: "string option"
  envData :: "json option"
  envTimestamp :: "string option"

record push_session =
  pushProviderName :: "string option"
  pushRuntimeMode :: string

record push_context =
  pushCounter :: nat
  pushTurns :: "string js_record"
  pushMessages :: "string js_record"
  pushSessions :: "push_session js_record"

definition createPushAdaptContext :: push_context where
  "createPushAdaptContext = \<lparr>pushCounter = 0, pushTurns = [], pushMessages = [], pushSessions = []\<rparr>"

definition LRU_CAP :: nat where
  "LRU_CAP = 256"

definition lruSet :: "string \<Rightarrow> string \<Rightarrow> string js_record \<Rightarrow> string js_record" where
  "lruSet k v m =
     (let m' = rec_set k v m
      in if length m' > LRU_CAP then (case m' of [] \<Rightarrow> [] | (oldest, _) # _ \<Rightarrow> rec_delete oldest m') else m')"

datatype aggregate_kind = AggregateProject | AggregateThread

record workflow_context =
  wfThreadId :: string
  wfWorkflowId :: string
  wfPhase :: string
  wfCurrentTask :: "string option"
  wfTotalTasks :: "jsnum option"
  wfCurrentTaskIndex :: "jsnum option"
  wfUpdatedAt :: string

text \<open>The type of an event with its payload: one of the store, or the one only a hook reads.\<close>

datatype event_body = ForStore client_event | WorkflowContextBound workflow_context

record domain_event =
  evSequence :: nat
  evId :: string
  evAggregateKind :: aggregate_kind
  evAggregateId :: string
  evOccurredAt :: string
  evBody :: event_body

section \<open>Payload helpers\<close>

definition toCamelTag :: "string \<Rightarrow> string" where
  "toCamelTag pascal = (case pascal of [] \<Rightarrow> [] | c # rest \<Rightarrow> lower_char c # rest)"

definition upper_ascii :: "char \<Rightarrow> char" where
  "upper_ascii c = (let n = of_char c :: nat in if 97 \<le> n \<and> n \<le> 122 then char_of (n - 32) else c)"

definition is_key_char :: "char \<Rightarrow> bool" where
  "is_key_char c = (let n = of_char c :: nat in 97 \<le> n \<and> n \<le> 122 \<or> 48 \<le> n \<and> n \<le> 57)"

fun snakeToCamelKey :: "string \<Rightarrow> string" where
  "snakeToCamelKey (u # c # s) =
     (if u = CHR ''_'' \<and> is_key_char c then upper_ascii c # snakeToCamelKey s
      else u # snakeToCamelKey (c # s))"
| "snakeToCamelKey s = s"

text \<open>A property set to \<open>undefined\<close> reads as one that is absent.\<close>

definition put_normalized :: "string \<times> json option \<Rightarrow> json js_record \<Rightarrow> json js_record" where
  "put_normalized e out = (case snd e of None \<Rightarrow> rec_delete (fst e) out | Some v \<Rightarrow> rec_set (fst e) v out)"

lemma size_snd_entry [termination_simp]: "e \<in> set ps \<Longrightarrow> size (snd e) < Suc (size_list (size_prod (\<lambda>_. 0) size) ps)"
  by (induction ps) (auto simp: less_Suc_eq_le le_Suc_eq)

fun normalizeValue :: "json \<Rightarrow> json option" where
  "normalizeValue JNull = None"
| "normalizeValue (JArr vs) = Some (JArr (map (\<lambda>v. nullish (normalizeValue v) JNull) vs))"
| "normalizeValue (JObj ps) =
     Some (JObj (fold put_normalized (map (\<lambda>e. (snakeToCamelKey (fst e), normalizeValue (snd e))) ps) []))"
| "normalizeValue v = Some v"

definition object_or_null :: "json option \<Rightarrow> json option" where
  "object_or_null v = (case v of Some j \<Rightarrow> if is_object j then Some j else None | None \<Rightarrow> None)"

definition raw_prop :: "json option \<Rightarrow> string \<Rightarrow> json option" where
  "raw_prop raw k = Option.bind raw (\<lambda>r. json_prop r k)"

definition unwrapPayload :: "raw_envelope \<Rightarrow> json option" where
  "unwrapPayload env =
     (let outer = object_or_null (envData env)
      in if raw_prop outer ''data'' \<noteq> None \<and> raw_prop outer ''event_type'' \<noteq> None
         then object_or_null (raw_prop outer ''data'') else outer)"

text \<open>\<open>typeof v === "string" ? v : undefined\<close>.\<close>

definition raw_str :: "json option \<Rightarrow> string \<Rightarrow> string option" where
  "raw_str raw k = (case raw_prop raw k of Some (JStr s) \<Rightarrow> Some s | _ \<Rightarrow> None)"

definition raw_num :: "json option \<Rightarrow> string \<Rightarrow> jsnum option" where
  "raw_num raw k = (case raw_prop raw k of Some (JNum n) \<Rightarrow> Some n | _ \<Rightarrow> None)"

definition pickTimestamp :: "string \<Rightarrow> json option \<Rightarrow> string list \<Rightarrow> string" where
  "pickTimestamp now raw keys =
     (case List.find (\<lambda>k. raw_str raw k \<noteq> None) keys of None \<Rightarrow> now | Some k \<Rightarrow> nullish (raw_str raw k) now)"

definition classifyActivityTone :: "string \<Rightarrow> string" where
  "classifyActivityTone k =
     (if k = ''turn.failed'' then ''error''
      else if k = ''provider_reasoning'' \<or> k = ''provider_skill_dispatched'' \<or>
        str_starts k ''provider_subagent_'' \<or> str_starts k ''provider_explore_'' \<or> k = ''turn.completed''
      then ''info'' else ''tool'')"

text \<open>\<open>a ?? b\<close> on properties: null and undefined are passed over.\<close>

definition not_null :: "json option \<Rightarrow> json option" where
  "not_null v = (if v = Some JNull then None else v)"

definition resolveThreadId :: "json option \<Rightarrow> push_context \<Rightarrow> string option \<Rightarrow> string option" where
  "resolveThreadId raw ctx fallback =
     (if raw = None then fallback
      else case raw_str raw ''thread_id'' of
        Some tid \<Rightarrow> Some tid
      | None \<Rightarrow>
          let byTurn = Option.bind (raw_str raw ''turn_id'') (\<lambda>turn. truthy_str (rec_get (pushTurns ctx) turn));
              msgId = (case orelse (not_null (raw_prop raw ''id'')) (raw_prop raw ''message_id'') of
                Some (JStr s) \<Rightarrow> Some s | _ \<Rightarrow> None);
              tFromTurn = Option.bind msgId (\<lambda>i. truthy_str (rec_get (pushTurns ctx) i));
              viaMessage = Option.bind (Option.bind msgId (\<lambda>i. truthy_str (rec_get (pushMessages ctx) i)))
                (\<lambda>turn. truthy_str (rec_get (pushTurns ctx) turn))
          in orelse byTurn (orelse tFromTurn (orelse viaMessage fallback)))"

section \<open>Event construction\<close>

definition makeEvent :: "nat \<Rightarrow> string \<Rightarrow> aggregate_kind \<Rightarrow> string \<Rightarrow> event_body \<Rightarrow> domain_event" where
  "makeEvent seq occurredAt k i body = \<lparr>evSequence = seq, evId = ''push-'' @ nat_str seq,
     evAggregateKind = k, evAggregateId = i, evOccurredAt = occurredAt, evBody = body\<rparr>"

abbreviation threadEvent :: "nat \<Rightarrow> string \<Rightarrow> string \<Rightarrow> thread_event \<Rightarrow> domain_event" where
  "threadEvent seq occurredAt i e \<equiv>
     makeEvent seq occurredAt AggregateThread i (ForStore (OnThread (ThreadEvent i e)))"

abbreviation projectEvent :: "nat \<Rightarrow> string \<Rightarrow> string \<Rightarrow> project_event \<Rightarrow> domain_event" where
  "projectEvent seq occurredAt i e \<equiv> makeEvent seq occurredAt AggregateProject i (ForStore (OnProject e))"

definition buildSession ::
    "string \<Rightarrow> session_status \<Rightarrow> string option \<Rightarrow> string option \<Rightarrow> string \<Rightarrow> push_context \<Rightarrow> wire_session" where
  "buildSession i status active lastError updated ctx =
     \<lparr>wireStatus = status, providerName = Option.bind (rec_get (pushSessions ctx) i) pushProviderName,
      wireActiveTurnId = truthy_str active, wireLastError = lastError, wireSessionUpdatedAt = updated\<rparr>"

definition readActivitySummary :: "json option \<Rightarrow> string option" where
  "readActivitySummary p = (case raw_str (object_or_null p) ''description'' of
     None \<Rightarrow> None | Some d \<Rightarrow> if length (js_trim d) > 0 then Some (js_trim d) else None)"

definition buildActivity ::
    "string \<Rightarrow> string \<Rightarrow> string \<Rightarrow> string option \<Rightarrow> string \<Rightarrow> json option \<Rightarrow> activity" where
  "buildActivity i k t turn created p =
     \<lparr>activityId = i, tone = Some t, kind = k, summary = readActivitySummary p, payload = p,
      activityTurnId = truthy_str turn, sequence = None, activityCreatedAt = created\<rparr>"

text \<open>\<open>raw ? normalizeValue(raw) : {}\<close>.\<close>

definition activityPayload :: "json option \<Rightarrow> json option" where
  "activityPayload raw = (case raw of None \<Rightarrow> Some (JObj []) | Some r \<Rightarrow> normalizeValue r)"

definition extractError :: "json option \<Rightarrow> string option" where
  "extractError raw = orelse (raw_str raw ''error'')
     (raw_str (object_or_null (raw_prop raw ''error'')) ''message'')"

text \<open>A role that is none of the type's is like a system message to the store.\<close>

definition roleOf :: "string \<Rightarrow> message_role" where
  "roleOf r = (if r = ''user'' then User else if r = ''assistant'' then Assistant else System)"

text \<open>A status that is none of the type's is read as \<open>stopped\<close>.\<close>

definition statusOf :: "string \<Rightarrow> session_status" where
  "statusOf s = (if s = ''idle'' then StatusIdle else if s = ''starting'' then StatusStarting
     else if s = ''running'' then StatusRunning else if s = ''ready'' then StatusReady
     else if s = ''interrupted'' then StatusInterrupted else if s = ''error'' then StatusError
     else StatusStopped)"

definition buildSessionFromRaw :: "string \<Rightarrow> json option \<Rightarrow> string \<Rightarrow> push_context \<Rightarrow> wire_session" where
  "buildSessionFromRaw i sess fallbackUpdatedAt ctx =
     (let s = object_or_null sess
      in \<lparr>wireStatus = statusOf (nullish (raw_str s ''status'') ''ready''),
          providerName = orelse (raw_str s ''provider_name'')
            (Option.bind (rec_get (pushSessions ctx) i) pushProviderName),
          wireActiveTurnId = raw_str s ''active_turn_id'', wireLastError = raw_str s ''last_error'',
          wireSessionUpdatedAt = nullish (raw_str s ''updated_at'') fallbackUpdatedAt\<rparr>)"

definition metaTitled :: "string option \<Rightarrow> string \<Rightarrow> meta_patch" where
  "metaTitled t updated =
     \<lparr>metaTitle = t, metaModelSelection = None, metaEnvMode = None, metaBranch = None,
      metaWorktreePath = None, metaAssociatedWorktreePath = None, metaAssociatedWorktreeBranch = None,
      metaAssociatedWorktreeRef = None, metaCreateBranchFlowCompleted = None, metaIsPinned = None,
      metaParentThreadId = None, metaSubagentAgentId = None, metaSubagentNickname = None,
      metaSubagentRole = None, metaLastKnownPr = None, metaHandoff = None, metaPinnedMessages = None,
      metaThreadMarkers = None, metaNotes = None, metaUpdatedAt = updated\<rparr>"

definition DEFAULT_RUNTIME_MODE :: string where
  "DEFAULT_RUNTIME_MODE = ''full-access''"

section \<open>The adapter\<close>

type_synonym adapted = "domain_event list \<times> push_context"

text \<open>\<open>ctx.nextSequence()\<close>: the counter after it is the sequence.\<close>

definition nextSequence :: "push_context \<Rightarrow> push_context" where
  "nextSequence ctx = ctx\<lparr>pushCounter := pushCounter ctx + 1\<rparr>"

definition adaptTurnStarted :: "string \<Rightarrow> string \<Rightarrow> json option \<Rightarrow> push_context \<Rightarrow> adapted" where
  "adaptTurnStarted occurredAt now raw ctx =
     (let seq = pushCounter ctx;
          ctx' = (case (raw_str raw ''id'', raw_str raw ''thread_id'') of
            (Some i, Some tid) \<Rightarrow> ctx\<lparr>pushTurns := lruSet i tid (pushTurns ctx)\<rparr> | _ \<Rightarrow> ctx)
      in case truthy_str (raw_str raw ''thread_id'') of
           None \<Rightarrow> ([], ctx')
         | Some tid \<Rightarrow>
             ([threadEvent seq occurredAt tid (SessionSet
                (buildSession tid StatusRunning (raw_str raw ''id'') None
                  (pickTimestamp now raw [''created_at'']) ctx') occurredAt)], ctx'))"

text \<open>The final message of a turn is the one with the id of the turn.\<close>

definition finalMessage :: "string \<Rightarrow> string \<Rightarrow> string \<Rightarrow> read_model_message" where
  "finalMessage turn text updated =
     \<lparr>wireId = turn, wireRole = Assistant, wireText = text, wireAttachments = None, wireSkills = None,
      wireMentions = None, wireDispatchMode = None, wireTurnId = Some turn, wireStreaming = False,
      wireSource = None, wireCreatedAt = updated, wireUpdatedAt = updated\<rparr>"

definition adaptTurnEnded :: "bool \<Rightarrow> string \<Rightarrow> string \<Rightarrow> json option \<Rightarrow> push_context \<Rightarrow> adapted" where
  "adaptTurnEnded completed occurredAt now raw ctx =
     (let seq = pushCounter ctx; turnId = raw_str raw ''id''
      in case truthy_str (resolveThreadId raw ctx None) of
           None \<Rightarrow> ([], ctx)
         | Some tid \<Rightarrow>
             let updated = pickTimestamp now raw [''completed_at'', ''created_at''];
                 lastError = (if completed then None else Some (nullish (extractError raw) ''turn failed''));
                 sessionSet = threadEvent seq occurredAt tid (SessionSet (buildSession tid
                   (if completed then StatusReady else StatusError) None lastError updated ctx) occurredAt);
                 ctx1 = nextSequence ctx;
                 appended = threadEvent (pushCounter ctx1) occurredAt tid (ActivityAppended
                   (buildActivity (''act-'' @ nat_str seq)
                     (if completed then ''turn.completed'' else ''turn.failed'')
                     (if completed then ''info'' else ''error'') turnId updated (activityPayload raw)))
             in case (completed, truthy_str turnId) of
                  (True, Some turn) \<Rightarrow>
                    let ctx2 = nextSequence ctx1
                    in ([sessionSet, appended, threadEvent (pushCounter ctx2) occurredAt tid
                           (MessageSent (finalMessage turn
                             (nullish (raw_str raw ''assistant_output'') []) updated))], ctx2)
                | _ \<Rightarrow> ([sessionSet, appended], ctx1))"

text \<open>The streaming flag of \<open>messageAdded\<close> is a property, the other two tags fix it.\<close>

definition adaptMessage ::
    "bool option \<Rightarrow> string \<Rightarrow> string \<Rightarrow> string option \<Rightarrow> json option \<Rightarrow> push_context \<Rightarrow> adapted" where
  "adaptMessage live occurredAt now aggregateId raw ctx =
     (let seq = pushCounter ctx;
          messageId = truthy_str (raw_str raw ''id'');
          turnId = truthy_str (raw_str raw ''turn_id'');
          ctx' = (case (messageId, turnId) of
            (Some m, Some turn) \<Rightarrow> ctx\<lparr>pushMessages := lruSet m turn (pushMessages ctx)\<rparr> | _ \<Rightarrow> ctx)
      in case (truthy_str (resolveThreadId raw ctx' aggregateId), messageId) of
           (Some tid, Some m) \<Rightarrow>
             let ts = pickTimestamp now raw [''created_at'', ''updated_at'', ''finalized_at'']
             in ([threadEvent seq occurredAt tid (MessageSent
                   \<lparr>wireId = m, wireRole = roleOf (nullish (raw_str raw ''role'') ''assistant''),
                    wireText = nullish (raw_str raw ''text'') (nullish (raw_str raw ''delta'') []),
                    wireAttachments = None, wireSkills = None, wireMentions = None,
                    wireDispatchMode = None, wireTurnId = turnId,
                    wireStreaming = nullish live (\<not> falsy (raw_prop raw ''streaming'')),
                    wireSource = None, wireCreatedAt = ts, wireUpdatedAt = ts\<rparr>)], ctx')
         | _ \<Rightarrow> ([], ctx'))"

definition adaptActivity ::
    "string \<Rightarrow> string \<Rightarrow> string option \<Rightarrow> json option \<Rightarrow> push_context \<Rightarrow> adapted" where
  "adaptActivity occurredAt now aggregateId raw ctx =
     (case truthy_str (resolveThreadId raw ctx aggregateId) of
        None \<Rightarrow> ([], ctx)
      | Some tid \<Rightarrow>
          let seq = pushCounter ctx;
              k = nullish (raw_str raw ''activity_type'') (nullish (raw_str raw ''kind'') ''activity'')
          in ([threadEvent seq occurredAt tid (ActivityAppended
                 (buildActivity (''act-'' @ nat_str seq) k (classifyActivityTone k) (raw_str raw ''turn_id'')
                   (pickTimestamp now raw [''created_at'', ''updated_at'']) (activityPayload raw)))], ctx))"

definition adaptThreadCreated ::
    "string \<Rightarrow> string \<Rightarrow> string option \<Rightarrow> json option \<Rightarrow> push_context \<Rightarrow> adapted" where
  "adaptThreadCreated occurredAt now aggregateId raw ctx =
     (case truthy_str (orelse (raw_str raw ''id'') aggregateId) of
        None \<Rightarrow> ([], ctx)
      | Some tid \<Rightarrow>
          if raw = None then ([], ctx)
          else ([makeEvent (pushCounter ctx) occurredAt AggregateThread tid (ForStore (OnThread (ThreadCreated
                 \<lparr>createdThreadId = tid, createdProjectId = raw_str raw ''project_id'',
                  createdProviderId = raw_str raw ''provider_id'', createdModel = raw_str raw ''model'',
                  createdTime = pickTimestamp now raw [''created_at'']\<rparr>)))], ctx))"

definition adaptThreadMeta ::
    "string \<Rightarrow> string \<Rightarrow> string \<Rightarrow> string option \<Rightarrow> json option \<Rightarrow> push_context \<Rightarrow> adapted" where
  "adaptThreadMeta tag occurredAt now aggregateId raw ctx =
     (case truthy_str (resolveThreadId raw ctx aggregateId) of
        None \<Rightarrow> ([], ctx)
      | Some tid \<Rightarrow>
          if raw = None then ([], ctx)
          else
            let ctx' = (case raw_str raw ''runtime_mode'' of
                  Some mode \<Rightarrow> if tag = ''threadRuntimeModeSet''
                    then ctx\<lparr>pushSessions := rec_set tid
                      \<lparr>pushProviderName = Option.bind (rec_get (pushSessions ctx) tid) pushProviderName,
                       pushRuntimeMode = mode\<rparr> (pushSessions ctx)\<rparr> else ctx
                | None \<Rightarrow> ctx)
            in ([threadEvent (pushCounter ctx) occurredAt tid (MetaUpdated (metaTitled (raw_str raw ''title'')
                   (pickTimestamp now raw [''updated_at'', ''created_at''])))], ctx'))"

definition adaptThreadSession ::
    "string \<Rightarrow> string option \<Rightarrow> json option \<Rightarrow> push_context \<Rightarrow> adapted" where
  "adaptThreadSession occurredAt aggregateId raw ctx =
     (case truthy_str (resolveThreadId raw ctx aggregateId) of
        None \<Rightarrow> ([], ctx)
      | Some tid \<Rightarrow>
          if raw = None then ([], ctx)
          else
            let sess = object_or_null (raw_prop raw ''session'');
                ctx' = (if sess = None then ctx
                  else ctx\<lparr>pushSessions := rec_set tid
                    \<lparr>pushProviderName = raw_str sess ''provider_name'',
                     pushRuntimeMode = nullish (raw_str sess ''runtime_mode'') DEFAULT_RUNTIME_MODE\<rparr>
                    (pushSessions ctx)\<rparr>)
            in ([threadEvent (pushCounter ctx) occurredAt tid
                  (SessionSet (buildSessionFromRaw tid sess occurredAt ctx') occurredAt)], ctx'))"

definition adaptProjectUpdated ::
    "string \<Rightarrow> string \<Rightarrow> string option \<Rightarrow> json option \<Rightarrow> push_context \<Rightarrow> adapted" where
  "adaptProjectUpdated occurredAt now aggregateId raw ctx =
     (case truthy_str (orelse (raw_str raw ''id'') aggregateId) of
        None \<Rightarrow> ([], ctx)
      | Some i \<Rightarrow>
          if raw = None then ([], ctx)
          else ([projectEvent (pushCounter ctx) occurredAt i (ProjectMetaUpdated
                 \<lparr>ppProjectId = i, ppKind = None, ppTitle = raw_str raw ''name'',
                  ppWorkspaceRoot = raw_str raw ''root_path'', ppDefaultModelSelection = None,
                  ppScripts = None, ppIsPinned = None,
                  ppUpdatedAt = pickTimestamp now raw [''updated_at'', ''created_at'']\<rparr>)], ctx))"

definition adaptProjectDeleted :: "string \<Rightarrow> string option \<Rightarrow> json option \<Rightarrow> push_context \<Rightarrow> adapted" where
  "adaptProjectDeleted occurredAt aggregateId raw ctx =
     (case truthy_str (orelse (raw_str raw ''id'') aggregateId) of
        None \<Rightarrow> ([], ctx)
      | Some i \<Rightarrow> ([projectEvent (pushCounter ctx) occurredAt i (ProjectDeleted i)], ctx))"

definition adaptTurnDispatch ::
    "string \<Rightarrow> string \<Rightarrow> string option \<Rightarrow> json option \<Rightarrow> push_context \<Rightarrow> adapted" where
  "adaptTurnDispatch occurredAt now aggregateId raw ctx =
     (case truthy_str (orelse (raw_str raw ''id'') aggregateId) of
        None \<Rightarrow> ([], ctx)
      | Some tid \<Rightarrow>
          if raw = None then ([], ctx)
          else ([threadEvent (pushCounter ctx) occurredAt tid (TurnStartRequested None
                 (nullish (raw_str raw ''runtime_mode'') DEFAULT_RUNTIME_MODE)
                 (nullish (raw_str raw ''interaction_mode'') ''default'') None
                 (pickTimestamp now raw [''requested_at'', ''created_at'']))], ctx))"

definition adaptWorkflowContext ::
    "string \<Rightarrow> string option \<Rightarrow> json option \<Rightarrow> push_context \<Rightarrow> adapted" where
  "adaptWorkflowContext occurredAt aggregateId raw ctx =
     (case truthy_str (orelse (raw_str raw ''threadId'') aggregateId) of
        None \<Rightarrow> ([], ctx)
      | Some tid \<Rightarrow>
          (case (raw_str raw ''workflowId'', raw_str raw ''phase'') of
             (Some w, Some ph) \<Rightarrow>
               ([makeEvent (pushCounter ctx) occurredAt AggregateThread tid (WorkflowContextBound
                  \<lparr>wfThreadId = tid, wfWorkflowId = w, wfPhase = ph,
                   wfCurrentTask = raw_str raw ''currentTask'', wfTotalTasks = raw_num raw ''totalTasks'',
                   wfCurrentTaskIndex = raw_num raw ''currentTaskIndex'', wfUpdatedAt = occurredAt\<rparr>)], ctx)
           | _ \<Rightarrow> ([], ctx)))"

definition TIMESTAMP_KEYS :: "string list" where
  "TIMESTAMP_KEYS = [''completed_at'', ''finalized_at'', ''created_at'', ''updated_at'', ''reverted_at'',
     ''archived_at'', ''unarchived_at'', ''deleted_at'', ''requested_at'', ''pinned_at'']"

definition THREAD_META_TAGS :: "string list" where
  "THREAD_META_TAGS = [''threadMetaUpdated'', ''threadTitleSet'', ''threadStatusChanged'',
     ''threadRuntimeModeSet'', ''threadInteractionModeSet'']"

definition adaptTag ::
    "string \<Rightarrow> string \<Rightarrow> string \<Rightarrow> string option \<Rightarrow> json option \<Rightarrow> push_context \<Rightarrow> adapted" where
  "adaptTag tag occurredAt now aggregateId raw ctx =
     (if tag = ''turnStarted'' then adaptTurnStarted occurredAt now raw ctx
      else if tag = ''turnCompleted'' then adaptTurnEnded True occurredAt now raw ctx
      else if tag = ''turnFailed'' then adaptTurnEnded False occurredAt now raw ctx
      else if tag = ''messageAdded'' then adaptMessage None occurredAt now aggregateId raw ctx
      else if tag = ''messageDeltaAppended'' then adaptMessage (Some True) occurredAt now aggregateId raw ctx
      else if tag = ''messageStreamingFinalized''
        then adaptMessage (Some False) occurredAt now aggregateId raw ctx
      else if tag = ''activityLogged'' then adaptActivity occurredAt now aggregateId raw ctx
      else if tag = ''threadCreated'' then adaptThreadCreated occurredAt now aggregateId raw ctx
      else if tag \<in> set THREAD_META_TAGS then adaptThreadMeta tag occurredAt now aggregateId raw ctx
      else if tag = ''threadSessionSet'' then adaptThreadSession occurredAt aggregateId raw ctx
      else if tag = ''projectUpdated'' then adaptProjectUpdated occurredAt now aggregateId raw ctx
      else if tag = ''projectDeleted'' then adaptProjectDeleted occurredAt aggregateId raw ctx
      else if tag = ''turnDispatchRequested'' then adaptTurnDispatch occurredAt now aggregateId raw ctx
      else if tag = ''workflowContextBound'' then adaptWorkflowContext occurredAt aggregateId raw ctx
      else ([], ctx))"

text \<open>\<open>now\<close> and \<open>later\<close> are the two readings of the clock.\<close>

definition adaptPushEnvelope :: "string \<Rightarrow> string \<Rightarrow> raw_envelope \<Rightarrow> push_context \<Rightarrow> adapted" where
  "adaptPushEnvelope now later env ctx =
     (let raw = unwrapPayload env;
          occurredAt = nullish (envTimestamp env) (pickTimestamp now raw TIMESTAMP_KEYS)
      in adaptTag (toCamelTag (envEventType env)) occurredAt later (envAggregateId env) raw (nextSequence ctx))"

end
