(* ===== verification/PushContext.thy ===== *)
theory PushContext
  imports PushAdapter
begin

text \<open>
  The context of the push adapter: its maps stay bounded, the sequences of its events rise, and a
  turn is remembered until 256 others have started.
\<close>

declare nat_str.simps [simp del]

section \<open>The bounded maps\<close>

definition lru_ok :: "string js_record \<Rightarrow> bool" where
  "lru_ok m \<longleftrightarrow> distinct (map fst m) \<and> length m \<le> LRU_CAP"

lemma length_rec_set: "length (rec_set k v m) \<le> Suc (length m)"
  by (induction m) (auto simp: rec_set_def)

lemma length_rec_delete_head: "distinct (map fst ((k, v) # m)) \<Longrightarrow> rec_delete k ((k, v) # m) = m"
  by (auto simp: rec_delete_def filter_id_conv image_iff)

lemma lru_ok_set: "lru_ok m \<Longrightarrow> lru_ok (lruSet k v m)"
proof -
  assume ok: "lru_ok m"
  then have d: "distinct (map fst (rec_set k v m))" by (simp add: lru_ok_def rec_set_distinct)
  show ?thesis
  proof (cases "length (rec_set k v m) > LRU_CAP")
    case True
    then obtain k' v' m' where e: "rec_set k v m = (k', v') # m'" by (cases "rec_set k v m") auto
    from True e ok length_rec_set [of k v m] have "length m' \<le> LRU_CAP" by (simp add: lru_ok_def)
    with True d e show ?thesis by (simp add: lruSet_def lru_ok_def length_rec_delete_head)
  next
    case False
    with d show ?thesis by (simp add: lruSet_def lru_ok_def)
  qed
qed

section \<open>Every frame\<close>

text \<open>What a frame registers: the turn it starts and its thread.\<close>

definition registers :: "raw_envelope \<Rightarrow> (string \<times> string) option" where
  "registers env = (if toCamelTag (envEventType env) = ''turnStarted''
     then (case (raw_str (unwrapPayload env) ''id'', raw_str (unwrapPayload env) ''thread_id'') of
       (Some i, Some tid) \<Rightarrow> Some (i, tid) | _ \<Rightarrow> None) else None)"

lemmas adapt_cases = adaptTurnStarted_def adaptTurnEnded_def adaptMessage_def adaptActivity_def
  adaptThreadCreated_def adaptThreadMeta_def adaptThreadSession_def adaptProjectUpdated_def
  adaptProjectDeleted_def adaptTurnDispatch_def adaptWorkflowContext_def

text \<open>The sequences of a frame rise, from the one it drew on.\<close>

definition rising :: "nat \<Rightarrow> adapted \<Rightarrow> bool" where
  "rising n r \<longleftrightarrow> sorted_wrt (<) (map evSequence (fst r)) \<and>
     (\<forall>e\<in>set (fst r). n < evSequence e \<and> evSequence e \<le> pushCounter (snd r)) \<and> n < pushCounter (snd r)"

lemma rising_none: "n < pushCounter ctx \<Longrightarrow> rising n ([], ctx)"
  by (simp add: rising_def)

lemma rising_one: "n < evSequence e \<Longrightarrow> evSequence e \<le> pushCounter ctx \<Longrightarrow> rising n ([e], ctx)"
  by (simp add: rising_def)

lemma makeEvent_sequence [simp]: "evSequence (makeEvent n at' k i b) = n"
  by (simp add: makeEvent_def)

lemma nextSequence_simps [simp]:
  "pushCounter (nextSequence ctx) = Suc (pushCounter ctx)" "pushTurns (nextSequence ctx) = pushTurns ctx"
  "pushMessages (nextSequence ctx) = pushMessages ctx" "pushSessions (nextSequence ctx) = pushSessions ctx"
  by (simp_all add: nextSequence_def)

lemma rising_two: "n < evSequence d \<Longrightarrow> evSequence d < evSequence e \<Longrightarrow> evSequence e \<le> pushCounter ctx \<Longrightarrow>
    rising n ([d, e], ctx)"
  by (simp add: rising_def)

lemma rising_three: "n < evSequence d \<Longrightarrow> evSequence d < evSequence e \<Longrightarrow> evSequence e < evSequence f \<Longrightarrow>
    evSequence f \<le> pushCounter ctx \<Longrightarrow> rising n ([d, e, f], ctx)"
  by (simp add: rising_def)

lemma rising_turnEnded: "n < pushCounter ctx \<Longrightarrow> rising n (adaptTurnEnded b at' now raw ctx)"
  unfolding adaptTurnEnded_def Let_def
  by (auto intro!: rising_none rising_two rising_three split: option.split bool.split)

lemma either: "P a \<Longrightarrow> P b \<Longrightarrow> P (if c then a else b)"
  by simp

text \<open>What every case of the switch satisfies.\<close>

lemma adaptTag_all:
  assumes "P (adaptTurnStarted at' now raw ctx)" "\<And>b. P (adaptTurnEnded b at' now raw ctx)"
    "\<And>live. P (adaptMessage live at' now i raw ctx)" "P (adaptActivity at' now i raw ctx)"
    "P (adaptThreadCreated at' now i raw ctx)" "P (adaptThreadMeta tag at' now i raw ctx)"
    "P (adaptThreadSession at' i raw ctx)" "P (adaptProjectUpdated at' now i raw ctx)"
    "P (adaptProjectDeleted at' i raw ctx)" "P (adaptTurnDispatch at' now i raw ctx)"
    "P (adaptWorkflowContext at' i raw ctx)" "P ([], ctx)"
  shows "P (adaptTag tag at' now i raw ctx)"
  unfolding adaptTag_def by (intro either [where P = P] assms)

lemma rising_tag: "n < pushCounter ctx \<Longrightarrow> rising n (adaptTag tag at' now i raw ctx)"
  by (rule adaptTag_all)
    (simp_all add: rising_turnEnded adaptTurnStarted_def adaptMessage_def adaptActivity_def
      adaptThreadCreated_def adaptThreadMeta_def adaptThreadSession_def adaptProjectUpdated_def
      adaptProjectDeleted_def adaptTurnDispatch_def adaptWorkflowContext_def Let_def rising_none rising_one split: option.split)

lemma adapt_rising: "rising (pushCounter ctx) (adaptPushEnvelope now later env ctx)"
  unfolding adaptPushEnvelope_def Let_def by (rule rising_tag) simp

definition context_ok :: "push_context \<Rightarrow> bool" where
  "context_ok ctx \<longleftrightarrow> lru_ok (pushTurns ctx) \<and> lru_ok (pushMessages ctx)"

lemma context_ok_tag: "context_ok ctx \<Longrightarrow> context_ok (snd (adaptTag tag at' now i raw ctx))"
  by (rule adaptTag_all)
    (simp_all add: adapt_cases Let_def context_ok_def lru_ok_set split: option.split bool.split)

lemma context_ok_adapt: "context_ok ctx \<Longrightarrow> context_ok (snd (adaptPushEnvelope now later env ctx))"
  unfolding adaptPushEnvelope_def Let_def by (rule context_ok_tag) (simp add: context_ok_def)

lemma turns_other: "tag \<noteq> ''turnStarted'' \<Longrightarrow> pushTurns (snd (adaptTag tag at' now i raw ctx)) = pushTurns ctx"
  unfolding adaptTag_def
  by (simp only: if_False, intro either [where P = "\<lambda>r. pushTurns (snd r) = pushTurns ctx"])
    (simp_all add: adapt_cases Let_def split: option.split bool.split)

lemma turns_started:
  "pushTurns (snd (adaptTurnStarted at' now raw ctx)) =
     (case (raw_str raw ''id'', raw_str raw ''thread_id'') of
        (Some i, Some tid) \<Rightarrow> lruSet i tid (pushTurns ctx) | _ \<Rightarrow> pushTurns ctx)"
  by (auto simp: adaptTurnStarted_def Let_def split: option.splits)

lemma adapt_turns:
  "pushTurns (snd (adaptPushEnvelope now later env ctx)) =
     (case registers env of Some (i, tid) \<Rightarrow> lruSet i tid (pushTurns ctx) | None \<Rightarrow> pushTurns ctx)"
proof (cases "toCamelTag (envEventType env) = ''turnStarted''")
  case True
  then show ?thesis
    by (simp add: adaptPushEnvelope_def Let_def adaptTag_def turns_started registers_def split: option.split)
next
  case False
  then show ?thesis by (simp add: adaptPushEnvelope_def Let_def turns_other registers_def)
qed

section \<open>Runs of frames\<close>

text \<open>The frames of a connection in order, each with its two readings of the clock.\<close>

fun adaptAll :: "(string \<times> string \<times> raw_envelope) list \<Rightarrow> push_context \<Rightarrow> adapted" where
  "adaptAll [] ctx = ([], ctx)"
| "adaptAll ((now, later, env) # fs) ctx =
     (let (es, ctx') = adaptPushEnvelope now later env ctx; (rest, ctx'') = adaptAll fs ctx'
      in (es @ rest, ctx''))"

lemma adaptAll_append:
  "adaptAll (fs @ gs) ctx =
     (fst (adaptAll fs ctx) @ fst (adaptAll gs (snd (adaptAll fs ctx))), snd (adaptAll gs (snd (adaptAll fs ctx))))"
  by (induction fs arbitrary: ctx) (auto simp: Let_def split: prod.splits)

lemma rising_weaken: "rising n r \<Longrightarrow> m \<le> n \<Longrightarrow> rising m r"
  by (fastforce simp: rising_def)

lemma rising_append:
  "rising n (es, ctx) \<Longrightarrow> rising (pushCounter ctx) (es', ctx') \<Longrightarrow> rising n (es @ es', ctx')"
  by (fastforce simp: rising_def sorted_wrt_append)

lemma adaptAll_rising: "fs \<noteq> [] \<Longrightarrow> rising (pushCounter ctx) (adaptAll fs ctx)"
proof (induction fs arbitrary: ctx)
  case (Cons f fs)
  obtain now later env where f: "f = (now, later, env)" by (cases f)
  obtain es ctx' where one: "adaptPushEnvelope now later env ctx = (es, ctx')" by (cases "adaptPushEnvelope now later env ctx")
  with adapt_rising [of ctx now later env] have r: "rising (pushCounter ctx) (es, ctx')" by simp
  show ?case
  proof (cases "fs = []")
    case True
    with one r f show ?thesis by simp
  next
    case False
    with Cons.IH [of ctx'] one f rising_append [OF r] show ?thesis
      by (cases "adaptAll fs ctx'") simp
  qed
qed simp

lemma adaptAll_ok: "context_ok ctx \<Longrightarrow> context_ok (snd (adaptAll fs ctx))"
proof (induction fs arbitrary: ctx)
  case (Cons f fs)
  obtain now later env where f: "f = (now, later, env)" by (cases f)
  from Cons.IH [OF context_ok_adapt [OF Cons.prems, of now later env]] f show ?case
    by (simp add: Let_def case_prod_beta)
qed simp

section \<open>Remembering a turn\<close>

text \<open>The entry of a key and how many entries were put after it.\<close>

definition recent :: "string js_record \<Rightarrow> string \<Rightarrow> string \<Rightarrow> nat \<Rightarrow> bool" where
  "recent m u t n \<longleftrightarrow> (\<exists>pre post. m = pre @ (u, t) # post \<and> length post \<le> n)"

lemma recentI: "length post \<le> n \<Longrightarrow> recent (pre @ (u, t) # post) u t n"
  by (auto simp: recent_def)

lemma recent_get: "distinct (map fst m) \<Longrightarrow> recent m u t n \<Longrightarrow> rec_get m u = Some t"
  by (auto simp: recent_def)

lemma recent_weaken: "recent m u t n \<Longrightarrow> n \<le> k \<Longrightarrow> recent m u t k"
  unfolding recent_def by (blast intro: le_trans)

lemma rec_set_append:
  "rec_set k v (xs @ ys) = (if k \<in> fst ` set xs then rec_set k v xs @ ys else xs @ rec_set k v ys)"
  by (induction xs) (auto simp: rec_set_def)

lemma rec_set_same_key: "rec_set u t ((u, s) # m) = (u, t) # m"
  by (simp add: rec_set_def)

lemma rec_set_other_key: "k \<noteq> u \<Longrightarrow> rec_set k v ((u, s) # m) = (u, s) # rec_set k v m"
  by (simp add: rec_set_def)

lemma recent_rec_set:
  assumes "recent m u t n" "k = u \<longrightarrow> v = t" "distinct (map fst m)"
  shows "recent (rec_set k v m) u t (Suc n)"
proof -
  obtain pre post where m: "m = pre @ (u, t) # post" "length post \<le> n"
    using assms(1) by (auto simp: recent_def)
  have len: "length (rec_set k v post) \<le> Suc n" using length_rec_set [of k v post] m(2) by simp
  consider "k \<in> fst ` set pre" | "k \<notin> fst ` set pre" "k = u" | "k \<notin> fst ` set pre" "k \<noteq> u" by blast
  then show ?thesis
  proof cases
    case 1
    with m show ?thesis by (simp add: rec_set_append recentI)
  next
    case 2
    with m assms(2) show ?thesis by (simp add: rec_set_append rec_set_same_key recentI)
  next
    case 3
    with m len show ?thesis by (simp add: rec_set_append rec_set_other_key recentI)
  qed
qed

lemma recent_tail: "recent (x # m) u t n \<Longrightarrow> n < length m \<Longrightarrow> recent m u t n"
  by (auto simp: recent_def Cons_eq_append_conv)

lemma recent_lruSet:
  assumes "recent m u t n" "k = u \<longrightarrow> v = t" "lru_ok m" "Suc n < LRU_CAP"
  shows "recent (lruSet k v m) u t (Suc n)"
proof -
  have r: "recent (rec_set k v m) u t (Suc n)" using assms recent_rec_set by (simp add: lru_ok_def)
  have d: "distinct (map fst (rec_set k v m))" using assms(3) by (simp add: lru_ok_def rec_set_distinct)
  show ?thesis
  proof (cases "length (rec_set k v m) > LRU_CAP")
    case True
    then obtain k' v' m' where e: "rec_set k v m = (k', v') # m'" by (cases "rec_set k v m") auto
    with True assms(4) have "Suc n < length m'" by simp
    with recent_tail r e have "recent m' u t (Suc n)" by metis
    with True d e show ?thesis by (simp add: lruSet_def length_rec_delete_head)
  next
    case False
    with r show ?thesis by (simp add: lruSet_def)
  qed
qed

lemma recent_started:
  assumes "lru_ok m" "rec_get m u = None"
  shows "recent (lruSet u t m) u t 0"
proof -
  have s: "rec_set u t m = m @ [(u, t)]" using assms(2) by (simp add: rec_set_fresh map_of_eq_None_iff)
  have r: "recent (m @ [(u, t)]) u t 0" using recentI [of "[]" 0 m u t] by simp
  show ?thesis
  proof (cases "length (m @ [(u, t)]) > LRU_CAP")
    case True
    then obtain k' v' m' where m: "m = (k', v') # m'" by (cases m) (auto simp: LRU_CAP_def)
    have "distinct (map fst (m @ [(u, t)]))"
      using assms by (auto simp: lru_ok_def map_of_eq_None_iff)
    moreover from r m have "recent (m' @ [(u, t)]) u t 0" using recent_tail [of "(k', v')" "m' @ [(u, t)]"] by simp
    ultimately show ?thesis using True s m by (simp add: lruSet_def length_rec_delete_head)
  next
    case False
    with r s show ?thesis by (simp add: lruSet_def)
  qed
qed

definition registers_only :: "string \<Rightarrow> string \<Rightarrow> (string \<times> string \<times> raw_envelope) list \<Rightarrow> bool" where
  "registers_only u t fs \<longleftrightarrow> (\<forall>f\<in>set fs. \<forall>t'. registers (snd (snd f)) = Some (u, t') \<longrightarrow> t' = t)"

lemma recent_frames:
  "recent (pushTurns ctx) u t n \<Longrightarrow> context_ok ctx \<Longrightarrow> registers_only u t fs \<Longrightarrow> n + length fs < LRU_CAP \<Longrightarrow>
     recent (pushTurns (snd (adaptAll fs ctx))) u t (n + length fs)"
proof (induction fs arbitrary: ctx n)
  case (Cons f fs)
  obtain now later env where f: "f = (now, later, env)" by (cases f)
  let ?ctx = "snd (adaptPushEnvelope now later env ctx)"
  have "recent (pushTurns ?ctx) u t (Suc n)"
    using Cons.prems f unfolding adapt_turns registers_only_def context_ok_def
    by (auto split: option.split intro: recent_lruSet recent_weaken)
  from Cons.IH [OF this context_ok_adapt [OF Cons.prems(2)]] Cons.prems(3,4) show ?case
    by (simp add: f Let_def case_prod_beta registers_only_def)
qed simp

lemma turn_known:
  assumes "context_ok ctx" "rec_get (pushTurns ctx) u = None" "registers env = Some (u, t)"
    and "registers_only u t fs" "length fs < LRU_CAP"
  shows "rec_get (pushTurns (snd (adaptAll ((now, later, env) # fs) ctx))) u = Some t"
proof -
  let ?ctx = "snd (adaptPushEnvelope now later env ctx)"
  have "recent (pushTurns ?ctx) u t 0"
    using assms(1,2,3) by (simp add: adapt_turns recent_started context_ok_def)
  from recent_frames [OF this context_ok_adapt [OF assms(1)] assms(4)] assms(5)
  have "recent (pushTurns (snd (adaptAll fs ?ctx))) u t (length fs)" by simp
  moreover have "context_ok (snd (adaptAll fs ?ctx))" by (intro adaptAll_ok context_ok_adapt assms(1))
  ultimately have "rec_get (pushTurns (snd (adaptAll fs ?ctx))) u = Some t"
    unfolding context_ok_def lru_ok_def using recent_get by blast
  then show ?thesis by (simp add: Let_def case_prod_beta)
qed

end
