(* ===== verification/PushProperties.thy ===== *)
theory PushProperties
  imports PushContext ClientProperties MessageProperties
begin

text \<open>
  What the push adapter promises: bounded memory, rising sequences, ends of turns that find their
  thread; and what it makes of frames whose fields it does not read.
\<close>

lemma initial_context_ok: "context_ok createPushAdaptContext"
  by (simp add: createPushAdaptContext_def context_ok_def lru_ok_def)

text \<open>C20: Whatever frames arrive, the adapter keeps at most 256 turns and messages, each once, and the
  events it makes have strictly rising sequences.\<close>

theorem push_context_bounded:
  "context_ok (snd (adaptAll fs createPushAdaptContext)) \<and>
   sorted_wrt (<) (map evSequence (fst (adaptAll fs createPushAdaptContext)))"
proof (cases "fs = []")
  case True
  then show ?thesis by (simp add: initial_context_ok)
next
  case False
  with adaptAll_rising [of fs createPushAdaptContext] show ?thesis
    by (simp add: rising_def adaptAll_ok initial_context_ok)
qed

section \<open>The end of a turn\<close>

definition ends :: "string \<Rightarrow> bool \<Rightarrow> raw_envelope \<Rightarrow> bool" where
  "ends u completed env \<longleftrightarrow>
     toCamelTag (envEventType env) = (if completed then ''turnCompleted'' else ''turnFailed'') \<and>
     raw_str (unwrapPayload env) ''thread_id'' = None \<and> raw_str (unwrapPayload env) ''turn_id'' = None \<and>
     raw_str (unwrapPayload env) ''id'' = Some u"

fun session_of :: "event_body \<Rightarrow> (string \<times> wire_session) option" where
  "session_of (ForStore (OnThread (ThreadEvent i (SessionSet s at')))) = Some (i, s)"
| "session_of _ = None"

definition closes :: "string \<Rightarrow> bool \<Rightarrow> domain_event list \<Rightarrow> bool" where
  "closes t completed es \<longleftrightarrow> es \<noteq> [] \<and> (\<forall>e\<in>set es. evAggregateId e = t) \<and>
     (case session_of (evBody (hd es)) of None \<Rightarrow> False | Some (i, s) \<Rightarrow>
        i = t \<and> wireStatus s = (if completed then StatusReady else StatusError) \<and> wireActiveTurnId s = None)"

lemma makeEvent_fields [simp]:
  "evAggregateId (makeEvent n at' k i b) = i" "evBody (makeEvent n at' k i b) = b"
  by (simp_all add: makeEvent_def)

lemma truthy_None [simp]: "truthy_str None = None"
  by (simp add: truthy_str_def)

lemma turnEnded_closes:
  "truthy_str (resolveThreadId raw ctx None) = Some t \<Longrightarrow> closes t b (fst (adaptTurnEnded b at' now raw ctx))"
  unfolding adaptTurnEnded_def Let_def closes_def
  by (auto simp: buildSession_def split: option.split bool.split)

lemma raw_str_prop: "raw_str raw k = Some s \<Longrightarrow> raw_prop raw k = Some (JStr s) \<and> raw \<noteq> None"
  by (cases raw) (auto simp: raw_str_def raw_prop_def split: option.splits json.splits)

lemma resolve_turn:
  assumes "raw_str raw ''thread_id'' = None" "raw_str raw ''turn_id'' = None" "raw_str raw ''id'' = Some u"
    and "rec_get (pushTurns ctx) u = Some t" "t \<noteq> []"
  shows "resolveThreadId raw ctx fb = Some t"
  using assms raw_str_prop [OF assms(3)] by (auto simp: resolveThreadId_def not_null_def truthy_str_def)

text \<open>C8: The end of a turn carries no thread, yet it reaches the thread the turn was started in, and closes
  its session, as long as fewer than 256 frames came in between (and none gave the turn to another
  thread).\<close>

theorem turn_end_reaches_thread:
  assumes "context_ok ctx" "rec_get (pushTurns ctx) u = None"
    and "registers env = Some (u, t)" "t \<noteq> []" "registers_only u t fs" "length fs < LRU_CAP"
    and "ends u completed env'"
  shows "closes t completed
    (fst (adaptPushEnvelope now' later' env' (snd (adaptAll ((now, later, env) # fs) ctx))))"
proof -
  let ?ctx = "nextSequence (snd (adaptAll ((now, later, env) # fs) ctx))"
  have known: "rec_get (pushTurns ?ctx) u = Some t"
    using turn_known [OF assms(1-3,5,6)] by (simp only: nextSequence_simps)
  from assms(7) have "resolveThreadId (unwrapPayload env') ?ctx None = Some t"
    using resolve_turn [OF _ _ _ known assms(4)] by (auto simp: ends_def)
  with assms(4) have "truthy_str (resolveThreadId (unwrapPayload env') ?ctx None) = Some t"
    by (simp add: truthy_str_def)
  from turnEnded_closes [OF this] assms(7) show ?thesis
    by (cases completed) (simp_all add: adaptPushEnvelope_def adaptTag_def ends_def Let_def del: adaptAll.simps)
qed

text \<open>Frames as the server sends them: the tag, the aggregate, and the fields of the event.\<close>

definition frame :: "string \<Rightarrow> string \<Rightarrow> (string \<times> json) list \<Rightarrow> raw_envelope" where
  "frame ty i ps = \<lparr>envEventType = ty, envAggregateId = Some i,
     envData = Some (JObj [(''event_type'', JStr ty), (''data'', JObj ps)]), envTimestamp = None\<rparr>"

lemma frame_simps [simp]:
  "envEventType (frame ty i ps) = ty" "envAggregateId (frame ty i ps) = Some i"
  "envTimestamp (frame ty i ps) = None" "unwrapPayload (frame ty i ps) = Some (JObj ps)"
  by (simp_all add: frame_def unwrapPayload_def object_or_null_def raw_prop_def)

lemma raw_obj [simp]:
  "raw_prop (Some (JObj ps)) k = map_of ps k"
  by (simp add: raw_prop_def)

lemma raw_str_obj [simp]:
  "raw_str (Some (JObj ps)) k = (case map_of ps k of Some (JStr s) \<Rightarrow> Some s | _ \<Rightarrow> None)"
  by (simp add: raw_str_def)

lemma tags [simp]:
  "toCamelTag ''TurnStarted'' = ''turnStarted''" "toCamelTag ''TurnCompleted'' = ''turnCompleted''"
  "toCamelTag ''TurnFailed'' = ''turnFailed''" "toCamelTag ''MessageAdded'' = ''messageAdded''"
  "toCamelTag ''MessageDeltaAppended'' = ''messageDeltaAppended''"
  "toCamelTag ''MessageStreamingFinalized'' = ''messageStreamingFinalized''"
  "toCamelTag ''ThreadSessionSet'' = ''threadSessionSet''"
  by code_simp+

definition startFrame :: "string \<Rightarrow> string \<Rightarrow> string \<Rightarrow> raw_envelope" where
  "startFrame u t at' = frame ''TurnStarted'' u
     [(''id'', JStr u), (''thread_id'', JStr t), (''sequence'', JNum (Num 0)), (''user_input'', JStr ''hi''),
      (''created_at'', JStr at')]"

definition endFrame :: "string \<Rightarrow> string \<Rightarrow> string \<Rightarrow> raw_envelope" where
  "endFrame u out at' = frame ''TurnCompleted'' u
     [(''id'', JStr u), (''assistant_output'', JStr out), (''duration_ms'', JNum (Num 5)), (''completed_at'', JStr at')]"

lemma startFrame_registers: "registers (startFrame u t at') = Some (u, t)"
  by (simp add: registers_def startFrame_def)

lemma endFrame_ends: "ends u True (endFrame u out at')"
  by (simp add: ends_def endFrame_def)

theorem turn_end_reaches_thread_witness:
  "closes ''t'' True (fst (adaptPushEnvelope ''4'' ''4'' (endFrame ''u'' ''Hi'' ''4'')
     (snd (adaptAll ((''1'', ''1'', startFrame ''u'' ''t'' ''1'') # [(''2'', ''2'', startFrame ''v'' ''s'' ''2'')])
       createPushAdaptContext))))"
  by (rule turn_end_reaches_thread [OF initial_context_ok _ startFrame_registers _ _ _ endFrame_ends])
    (simp_all add: createPushAdaptContext_def registers_only_def startFrame_registers LRU_CAP_def)

section \<open>Frames whose fields are not read\<close>

text \<open>\<open>DomainEvent::MessageAdded\<close> as the server serializes it: the text is in \<open>content\<close>.\<close>

definition addedFrame :: "string \<Rightarrow> string \<Rightarrow> string \<Rightarrow> string \<Rightarrow> string \<Rightarrow> raw_envelope" where
  "addedFrame i turn r content at' = frame ''MessageAdded'' i
     [(''id'', JStr i), (''turn_id'', JStr turn), (''role'', JStr r), (''content'', JStr content),
      (''created_at'', JStr at')]"

definition emptied :: "string \<Rightarrow> string \<Rightarrow> string \<Rightarrow> read_model_message" where
  "emptied i turn at' = \<lparr>wireId = i, wireRole = User, wireText = [], wireAttachments = None,
     wireSkills = None, wireMentions = None, wireDispatchMode = None, wireTurnId = Some turn,
     wireStreaming = False, wireSource = None, wireCreatedAt = at', wireUpdatedAt = at'\<rparr>"

lemma addedFrame_adapted:
  assumes "rec_get (pushTurns ctx) turn = Some t" "t \<noteq> []" "turn \<noteq> []" "i \<noteq> []"
  shows "fst (adaptPushEnvelope now later (addedFrame i turn ''user'' c at') ctx) =
    [threadEvent (Suc (pushCounter ctx)) at' t (MessageSent (emptied i turn at'))]"
  using assms
  by (simp add: addedFrame_def adaptPushEnvelope_def Let_def adaptTag_def
      adaptMessage_def truthy_str_def resolveThreadId_def TIMESTAMP_KEYS_def pickTimestamp_def
      roleOf_def emptied_def)

lemma emptied_fields:
  "wireId (emptied i turn at') = i" "wireRole (emptied i turn at') = User"
  "wireText (emptied i turn at') = []" "\<not> wireStreaming (emptied i turn at')"
  by (simp_all add: emptied_def)

lemma emptied_new: "message_of th i = None \<Longrightarrow> text_is (deliver h (emptied i turn at') th) i [] User False"
  using deliver_new [of th "emptied i turn at'" h]
  by (simp add: text_is_def incoming_fields emptied_fields)

lemma emptied_known: "text_is th i s User live \<Longrightarrow> text_is (deliver h (emptied i turn at') th) i [] User False"
proof -
  assume a: "text_is th i s User live"
  have "final (emptied i turn at') [] = emptied i turn at'" by (simp add: emptied_def)
  with deliver_final [of th "emptied i turn at'" s User live h "[]"] a show ?thesis
    by (simp add: final_text_def emptied_fields)
qed

text \<open>C14: The prompt of a turn that is pushed when the turn starts arrives without its text: the frame has it
  in \<open>content\<close>, the adapter reads \<open>text\<close> and \<open>delta\<close>. A thread that does not have the message gets an
  empty one, and one that has it loses the text.\<close>

theorem pushed_prompt_is_empty:
  assumes "rec_get (pushTurns ctx) turn = Some t" "t \<noteq> []" "turn \<noteq> []" "i \<noteq> []"
  shows "\<exists>n p. fst (adaptPushEnvelope now later (addedFrame i turn ''user'' c at') ctx) =
      [threadEvent n at' t (MessageSent p)] \<and>
    (\<forall>th. message_of th i = None \<longrightarrow> text_is (deliver h p th) i [] User False) \<and>
    (\<forall>th s live. text_is th i s User live \<longrightarrow> text_is (deliver h p th) i [] User False)"
  using addedFrame_adapted [OF assms] emptied_new emptied_known by blast

theorem pushed_prompt_is_empty_witness:
  "\<exists>n p. fst (adaptPushEnvelope ''2'' ''2'' (addedFrame ''m'' ''u'' ''user'' ''Fix the bug'' ''1'')
        (snd (adaptPushEnvelope ''1'' ''1'' (startFrame ''u'' ''t'' ''1'') createPushAdaptContext))) =
      [threadEvent n ''1'' ''t'' (MessageSent p)] \<and>
    (\<forall>th. message_of th ''m'' = None \<longrightarrow> text_is (deliver unitHost p th) ''m'' [] User False) \<and>
    (\<forall>th s live. text_is th ''m'' s User live \<longrightarrow> text_is (deliver unitHost p th) ''m'' [] User False)"
  by (rule pushed_prompt_is_empty)
    (simp_all add: adapt_turns startFrame_registers createPushAdaptContext_def lruSet_def rec_set_def LRU_CAP_def)

text \<open>\<open>DomainEvent::ThreadSessionSet\<close> as the server serializes it: the fields are those of the event.\<close>

definition sessionFrame :: "string \<Rightarrow> string \<Rightarrow> json \<Rightarrow> string \<Rightarrow> json \<Rightarrow> json \<Rightarrow> string \<Rightarrow> raw_envelope" where
  "sessionFrame i status prov mode active err at' = frame ''ThreadSessionSet'' i
     [(''id'', JStr i), (''status'', JStr status), (''provider_name'', prov), (''runtime_mode'', JStr mode),
      (''active_turn_id'', active), (''last_error'', err), (''updated_at'', JStr at')]"

lemma sessionFrame_adapted:
  assumes "i \<noteq> []" "rec_get (pushTurns ctx) i = None" "rec_get (pushMessages ctx) i = None"
  shows "fst (adaptPushEnvelope now later (sessionFrame i status prov mode active err at') ctx) =
    [threadEvent (Suc (pushCounter ctx)) at' i (SessionSet
       \<lparr>wireStatus = StatusReady, providerName = Option.bind (rec_get (pushSessions ctx) i) pushProviderName,
        wireActiveTurnId = None, wireLastError = None, wireSessionUpdatedAt = at'\<rparr> at')]"
  using assms
  by (simp add: sessionFrame_def adaptPushEnvelope_def Let_def adaptTag_def
      adaptThreadSession_def truthy_str_def resolveThreadId_def TIMESTAMP_KEYS_def pickTimestamp_def
      object_or_null_def buildSessionFromRaw_def raw_str_def raw_prop_def not_null_def THREAD_META_TAGS_def
      statusOf_def)

text \<open>Whatever session the server sets, the adapter reads a ready one without turn and error: it looks for
  the fields under \<open>session\<close>, the frame has them at the top. So a session set to running or failed
  shows as ready.\<close>

theorem session_frame_reads_ready:
  assumes "i \<noteq> []" "rec_get (pushTurns ctx) i = None" "rec_get (pushMessages ctx) i = None"
  shows "\<exists>n s. fst (adaptPushEnvelope now later (sessionFrame i status prov mode active err at') ctx) =
      [threadEvent n at' i (SessionSet s at')] \<and>
    wireStatus s = StatusReady \<and> wireActiveTurnId s = None \<and> wireLastError s = None"
  by (intro exI conjI, rule sessionFrame_adapted [OF assms]) simp_all

theorem session_frame_reads_ready_witness:
  "\<exists>n s. fst (adaptPushEnvelope ''2'' ''2''
      (sessionFrame ''t'' ''error'' (JStr ''claude'') ''full-access'' JNull (JStr ''rate limit'') ''1'')
      createPushAdaptContext) = [threadEvent n ''1'' ''t'' (SessionSet s ''1'')] \<and>
    wireStatus s = StatusReady \<and> wireActiveTurnId s = None \<and> wireLastError s = None"
  by (rule session_frame_reads_ready) (simp_all add: createPushAdaptContext_def)

end
