(* ===== verification/EventRouter.thy ===== *)
theory EventRouter
  imports PushAdapter
begin

text \<open>
  The event router of the root route (\<open>EventRouter\<close> of \<open>frontend/src/routes/__root.tsx\<close>) and the
  demultiplexer of orchestration pushes in front of it (\<open>frontend/src/wsNativeApi.ts\<close>). The state is
  the variables of the effect, the store it feeds, the calls it made of the native API and the batches
  it handed to the store. An awaited call is two inputs, the start and the answer; how the answers
  interleave is left to the list of inputs. The throttler of the flushes is a pending timer.

  Left out are the effects on other stores and caches: invalidation of queries, promotion of drafts,
  pruning of terminals, toasts and navigation.
\<close>

section \<open>Batches\<close>

definition messageOf :: "domain_event \<Rightarrow> (string \<times> read_model_message) option" where
  "messageOf ev = (case evBody ev of
     ForStore (OnThread (ThreadEvent i (MessageSent p))) \<Rightarrow> Some (i, p) | _ \<Rightarrow> None)"

definition mergePayload :: "read_model_message \<Rightarrow> read_model_message \<Rightarrow> read_model_message" where
  "mergePayload previous p = p\<lparr>wireAttachments := orelse (wireAttachments p) (wireAttachments previous),
     wireCreatedAt := wireCreatedAt previous,
     wireText := (if \<not> wireStreaming p \<and> length (wireText p) > 0 then wireText p
       else wireText previous @ wireText p)\<rparr>"

definition coalesceRound :: "domain_event list \<Rightarrow> domain_event \<Rightarrow> domain_event list" where
  "coalesceRound coalesced ev =
     (case (Option.bind (last_elem coalesced) messageOf, messageOf ev) of
        (Some (i, previous), Some (j, p)) \<Rightarrow>
          if i = j \<and> wireId previous = wireId p
          then butlast coalesced @
            [ev\<lparr>evBody := ForStore (OnThread (ThreadEvent j (MessageSent (mergePayload previous p))))\<rparr>]
          else coalesced @ [ev]
      | _ \<Rightarrow> coalesced @ [ev])"

definition coalesceOrchestrationUiEvents :: "domain_event list \<Rightarrow> domain_event list" where
  "coalesceOrchestrationUiEvents es = (if length es < 2 then es else foldl coalesceRound [] es)"

definition appendBounded :: "'a list \<Rightarrow> 'a \<Rightarrow> nat \<Rightarrow> 'a list" where
  "appendBounded items item limit =
     (let normalizedLimit = max 1 limit
      in (if length items \<ge> normalizedLimit then drop (length items - normalizedLimit + 1) items else items)
         @ [item])"

text \<open>The oldest values go until there is room for one.\<close>

definition addBoundedSetValue :: "'a list \<Rightarrow> 'a \<Rightarrow> nat \<Rightarrow> 'a list" where
  "addBoundedSetValue s v limit =
     (let normalizedLimit = max 1 limit; s' = removeAll v s
      in drop (Suc (length s') - normalizedLimit) s' @ [v])"

definition PENDING_SHELL_EVENT_BUFFER_LIMIT :: nat where
  "PENDING_SHELL_EVENT_BUFFER_LIMIT = 1024"

definition PENDING_THREAD_EVENT_BUFFER_LIMIT :: nat where
  "PENDING_THREAD_EVENT_BUFFER_LIMIT = 512"

definition IMMEDIATE_ASSISTANT_FLUSH_ID_LIMIT :: nat where
  "IMMEDIATE_ASSISTANT_FLUSH_ID_LIMIT = 512"

definition shouldFlushDomainEventImmediately :: "domain_event \<Rightarrow> string list \<Rightarrow> bool \<times> string list" where
  "shouldFlushDomainEventImmediately ev ids =
     (case messageOf ev of
        None \<Rightarrow> (False, ids)
      | Some (_, p) \<Rightarrow>
          if wireRole p \<noteq> Assistant then (False, ids)
          else if \<not> wireStreaming p then (False, removeAll (wireId p) ids)
          else if wireId p \<in> set ids then (False, ids)
          else (True, addBoundedSetValue ids (wireId p) IMMEDIATE_ASSISTANT_FLUSH_ID_LIMIT))"

text \<open>The types of events that make up a thread's detail.\<close>

fun detailEvent :: "thread_event \<Rightarrow> bool" where
  "detailEvent (MessageSent _) = True"
| "detailEvent (PlanUpserted _) = True"
| "detailEvent (ActivityAppended _) = True"
| "detailEvent (TurnDiffCompleted _) = True"
| "detailEvent (Reverted _ _) = True"
| "detailEvent (RolledBack _ _ _ _) = True"
| "detailEvent (SessionSet _ _) = True"
| "detailEvent (MetaUpdated _) = True"
| "detailEvent (PinAdded _ _) = True"
| "detailEvent (PinRemoved _ _) = True"
| "detailEvent (PinDoneSet _ _ _) = True"
| "detailEvent (PinLabelSet _ _ _) = True"
| "detailEvent (MarkerAdded _ _) = True"
| "detailEvent (MarkerRemoved _ _) = True"
| "detailEvent (MarkerDoneSet _ _ _) = True"
| "detailEvent (MarkerLabelSet _ _ _) = True"
| "detailEvent (Archived _ _ _) = True"
| "detailEvent (Unarchived _ _) = True"
| "detailEvent _ = False"

definition isThreadDetailEventForThread :: "string \<Rightarrow> domain_event \<Rightarrow> bool" where
  "isThreadDetailEventForThread i ev \<longleftrightarrow> evAggregateKind ev = AggregateThread \<and> evAggregateId ev = i \<and>
     (case evBody ev of ForStore (OnThread (ThreadEvent _ e)) \<Rightarrow> detailEvent e | _ \<Rightarrow> False)"

definition shouldPollThreadDetailCatchup :: "client_store \<Rightarrow> string \<Rightarrow> bool" where
  "shouldPollThreadDetailCatchup st i =
     (case getThreadFromState (clientThreads st) i of
        None \<Rightarrow> False
      | Some t \<Rightarrow> map_option orchestrationStatus (session t) = Some StatusRunning \<or>
          map_option latestTurnState (latestTurn t) = Some TurnRunning)"

section \<open>State\<close>

datatype native_call =
    CallSubscribeShell
  | CallUnsubscribeShell
  | CallGetShellSnapshot
  | CallSubscribeThread string
  | CallUnsubscribeThread string
  | CallReplayEvents nat

text \<open>A reconciliation waits for its subscriptions, then for its cancellations.\<close>

datatype reconcile_stage = ReconcileIdle | AwaitSubscribed "string list" | AwaitUnsubscribed

record replay =
  replayThread :: string
  replayFrom :: nat
  replayTarget :: "nat option"

record router =
  routerStore :: client_store
  routerDisposed :: bool
  shellSnapshotSequence :: int
  pendingShellEvents :: "(nat \<times> shell_event) list"
  pendingDomainEvents :: "domain_event list"
  flushedAssistantIds :: "string list"
  flushTimer :: bool
  routedThreads :: "string list"
  threadSequences :: "nat js_record"
  pendingThreadEvents :: "domain_event list js_record"
  snapshotRequests :: "string list"
  replayRequests :: "string list"
  replays :: "replay list"
  reconcileQueue :: "string list list"
  reconcileStage :: reconcile_stage
  nativeCalls :: "native_call list"
  handedBatches :: "domain_event list list"

definition initialRouter :: "client_store \<Rightarrow> router" where
  "initialRouter st = \<lparr>routerStore = st, routerDisposed = False, shellSnapshotSequence = -1,
     pendingShellEvents = [], pendingDomainEvents = [], flushedAssistantIds = [], flushTimer = False,
     routedThreads = [], threadSequences = [], pendingThreadEvents = [], snapshotRequests = [],
     replayRequests = [], replays = [], reconcileQueue = [], reconcileStage = ReconcileIdle,
     nativeCalls = [], handedBatches = []\<rparr>"

definition callNative :: "native_call \<Rightarrow> router \<Rightarrow> router" where
  "callNative c r = r\<lparr>nativeCalls := nativeCalls r @ [c]\<rparr>"

definition toStore :: "host \<Rightarrow> dates \<Rightarrow> client_action \<Rightarrow> router \<Rightarrow> router" where
  "toStore h d a r = r\<lparr>routerStore := client_step h d (routerStore r) a\<rparr>"

section \<open>Queueing and flushing\<close>

text \<open>The store has no case for the event that only a hook reads.\<close>

definition storeEvents :: "domain_event list \<Rightarrow> client_event list" where
  "storeEvents es = concat (map (\<lambda>ev. case evBody ev of ForStore e \<Rightarrow> [e] | _ \<Rightarrow> []) es)"

definition flushPendingDomainEvents :: "host \<Rightarrow> dates \<Rightarrow> router \<Rightarrow> router" where
  "flushPendingDomainEvents h d r =
     (if pendingDomainEvents r = [] then r
      else (toStore h d (EventsHotPath (storeEvents (coalesceOrchestrationUiEvents (pendingDomainEvents r)))) r)
        \<lparr>handedBatches := handedBatches r @ [pendingDomainEvents r], pendingDomainEvents := []\<rparr>)"

definition queueDomainEvent :: "host \<Rightarrow> dates \<Rightarrow> domain_event \<Rightarrow> router \<Rightarrow> router" where
  "queueDomainEvent h d ev r =
     (let (immediately, ids) = shouldFlushDomainEventImmediately ev (flushedAssistantIds r);
          r' = r\<lparr>pendingDomainEvents := pendingDomainEvents r @ [ev], flushedAssistantIds := ids\<rparr>
      in if immediately then flushPendingDomainEvents h d (r'\<lparr>flushTimer := False\<rparr>)
         else r'\<lparr>flushTimer := True\<rparr>)"

text \<open>A sequenced event of a thread is queued when it is newer than the last one of the thread.\<close>

definition queueNewer :: "host \<Rightarrow> dates \<Rightarrow> string \<Rightarrow> domain_event \<Rightarrow> nat \<times> router \<Rightarrow> nat \<times> router" where
  "queueNewer h d i ev s =
     (let (latest, r) = s
      in if evSequence ev > latest
         then (evSequence ev,
               queueDomainEvent h d ev (r\<lparr>threadSequences := rec_set i (evSequence ev) (threadSequences r)\<rparr>))
         else (latest, r))"

definition bySequence :: "domain_event list \<Rightarrow> domain_event list" where
  "bySequence es = sort_cmp (\<lambda>left right. int (evSequence left) - int (evSequence right)) es"

definition flushThreadBuffer :: "host \<Rightarrow> dates \<Rightarrow> string \<Rightarrow> nat \<Rightarrow> router \<Rightarrow> router" where
  "flushThreadBuffer h d i snapshotSequence r =
     (let pendingEvents = nullish (rec_get (pendingThreadEvents r) i) [];
          r' = r\<lparr>pendingThreadEvents := rec_delete i (pendingThreadEvents r)\<rparr>
      in snd (fold (queueNewer h d i) (bySequence pendingEvents)
           (nullish (rec_get (threadSequences r) i) snapshotSequence, r')))"

definition applyPendingShell :: "host \<Rightarrow> dates \<Rightarrow> nat \<times> shell_event \<Rightarrow> router \<Rightarrow> router" where
  "applyPendingShell h d e r = toStore h d (ShellEvent (snd e))
     (r\<lparr>shellSnapshotSequence := max (shellSnapshotSequence r) (int (fst e))\<rparr>)"

definition flushShellBuffer :: "host \<Rightarrow> dates \<Rightarrow> nat \<Rightarrow> router \<Rightarrow> router" where
  "flushShellBuffer h d snapshotSequence r =
     (let nextPending = sort_cmp (\<lambda>left right. int (fst left) - int (fst right))
            (filter (\<lambda>e. fst e > snapshotSequence) (pendingShellEvents r))
      in fold (applyPendingShell h d) nextPending (r\<lparr>pendingShellEvents := []\<rparr>))"

section \<open>Subscriptions\<close>

definition beginThreadSubscription :: "string \<Rightarrow> router \<Rightarrow> router" where
  "beginThreadSubscription i r = r\<lparr>threadSequences := rec_delete i (threadSequences r),
     pendingThreadEvents := rec_set i [] (pendingThreadEvents r),
     snapshotRequests := removeAll i (snapshotRequests r)\<rparr>"

definition requestThreadSnapshot :: "string \<Rightarrow> router \<Rightarrow> router" where
  "requestThreadSnapshot i r =
     (if rec_get (threadSequences r) i \<noteq> None \<or> i \<in> set (snapshotRequests r) then r
      else callNative (CallSubscribeThread i) (r\<lparr>snapshotRequests := snapshotRequests r @ [i]\<rparr>))"

definition startSubscription :: "string \<Rightarrow> router \<Rightarrow> router" where
  "startSubscription i r = (let r' = beginThreadSubscription i r in r'\<lparr>routedThreads := routedThreads r' @ [i]\<rparr>)"

definition endSubscription :: "string \<Rightarrow> router \<Rightarrow> router" where
  "endSubscription i r = r\<lparr>threadSequences := rec_delete i (threadSequences r),
     pendingThreadEvents := rec_delete i (pendingThreadEvents r),
     snapshotRequests := removeAll i (snapshotRequests r), replayRequests := removeAll i (replayRequests r),
     routedThreads := removeAll i (routedThreads r)\<rparr>"

text \<open>\<open>reconcileThreadSubscriptions\<close> up to its first await, and from there to the second.\<close>

definition reconcileStart :: "string list \<Rightarrow> router \<Rightarrow> router" where
  "reconcileStart ids r =
     (let nextIds = js_dedup ids;
          removals = filter (\<lambda>i. i \<notin> set nextIds) (routedThreads r);
          additions = filter (\<lambda>i. i \<notin> set (routedThreads r)) nextIds;
          r' = fold startSubscription additions r
      in (fold (\<lambda>i. callNative (CallSubscribeThread i)) additions r')\<lparr>reconcileStage := AwaitSubscribed removals\<rparr>)"

definition reconcileEnd :: "string list \<Rightarrow> router \<Rightarrow> router" where
  "reconcileEnd removals r =
     (fold (\<lambda>i. callNative (CallUnsubscribeThread i)) removals (fold endSubscription removals r))
       \<lparr>reconcileStage := AwaitUnsubscribed\<rparr>"

text \<open>The promise chain: one reconciliation at a time, in the order they were asked for.\<close>

definition enqueueThreadSubscriptionReconcile :: "string list \<Rightarrow> router \<Rightarrow> router" where
  "enqueueThreadSubscriptionReconcile ids r = r\<lparr>reconcileQueue := reconcileQueue r @ [ids]\<rparr>"

definition reconcileContinues :: "router \<Rightarrow> router" where
  "reconcileContinues r =
     (case reconcileStage r of
        AwaitSubscribed removals \<Rightarrow> reconcileEnd removals r
      | AwaitUnsubscribed \<Rightarrow> r\<lparr>reconcileStage := ReconcileIdle\<rparr>
      | ReconcileIdle \<Rightarrow> (case reconcileQueue r of
            [] \<Rightarrow> r
          | ids # rest \<Rightarrow> reconcileStart ids (r\<lparr>reconcileQueue := rest\<rparr>)))"

section \<open>Catching up\<close>

definition replayThreadEvents :: "string \<Rightarrow> nat option \<Rightarrow> router \<Rightarrow> router" where
  "replayThreadEvents i target r =
     (if routerDisposed r \<or> i \<in> set (replayRequests r) then r
      else case rec_get (threadSequences r) i of
        None \<Rightarrow> r
      | Some from \<Rightarrow>
          if (case target of None \<Rightarrow> False | Some s \<Rightarrow> from \<ge> s) then r
          else callNative (CallReplayEvents from) (r\<lparr>replayRequests := replayRequests r @ [i],
            replays := replays r @ [\<lparr>replayThread = i, replayFrom = from, replayTarget = target\<rparr>]\<rparr>))"

definition replayRound :: "host \<Rightarrow> dates \<Rightarrow> string \<Rightarrow> nat \<Rightarrow> domain_event \<Rightarrow> router \<Rightarrow> router" where
  "replayRound h d i from ev r =
     (let latest = nullish (rec_get (threadSequences r) i) from
      in if evSequence ev \<le> latest then r
         else queueDomainEvent h d ev (r\<lparr>threadSequences := rec_set i (evSequence ev) (threadSequences r)\<rparr>))"

text \<open>The answer to the nth replay request, \<open>None\<close> when it failed.\<close>

definition replaySettled :: "host \<Rightarrow> dates \<Rightarrow> nat \<Rightarrow> domain_event list option \<Rightarrow> router \<Rightarrow> router" where
  "replaySettled h d n answer r =
     (case list_get (replays r) n of
        None \<Rightarrow> r
      | Some p \<Rightarrow>
          let i = replayThread p;
              r' = r\<lparr>replays := take n (replays r) @ drop (Suc n) (replays r)\<rparr>;
              accepted = filter (\<lambda>ev. isThreadDetailEventForThread i ev \<and>
                (case replayTarget p of None \<Rightarrow> True | Some s \<Rightarrow> evSequence ev \<le> s)) (nullish answer []);
              r'' = fold (replayRound h d i (replayFrom p)) (bySequence accepted) r'
          in r''\<lparr>replayRequests := removeAll i (replayRequests r'')\<rparr>)"

section \<open>Snapshots and events\<close>

definition shouldApplyBootstrapShellSnapshot :: "router \<Rightarrow> shell_thread list \<Rightarrow> wire_project list \<Rightarrow> bool" where
  "shouldApplyBootstrapShellSnapshot r ts ps \<longleftrightarrow>
     \<not> routerDisposed r \<and>
     (\<not> threadsHydrated (routerStore r) \<or>
      clientProjects (routerStore r) = [] \<and> ps \<noteq> [] \<or>
      appThreads (clientThreads (routerStore r)) = [] \<and> ts \<noteq> [])"

definition shellSnapshotArrived ::
    "host \<Rightarrow> dates \<Rightarrow> nat \<Rightarrow> shell_thread list \<Rightarrow> wire_project list \<Rightarrow> router \<Rightarrow> router" where
  "shellSnapshotArrived h d s ts ps r =
     flushShellBuffer h d s (toStore h d (SyncShellSnapshot ts ps) (r\<lparr>shellSnapshotSequence := int s\<rparr>))"

text \<open>What follows \<open>getShellSnapshot\<close> in \<open>loadShellSnapshotOnce\<close>.\<close>

definition shellQueryAnswered ::
    "host \<Rightarrow> dates \<Rightarrow> nat \<Rightarrow> shell_thread list \<Rightarrow> wire_project list \<Rightarrow> router \<Rightarrow> router" where
  "shellQueryAnswered h d s ts ps r =
     (if shouldApplyBootstrapShellSnapshot r ts ps then shellSnapshotArrived h d s ts ps r else r)"

definition shellEventArrived :: "host \<Rightarrow> dates \<Rightarrow> nat \<Rightarrow> shell_event \<Rightarrow> router \<Rightarrow> router" where
  "shellEventArrived h d s e r =
     (if shellSnapshotSequence r < 0
      then r\<lparr>pendingShellEvents := appendBounded (pendingShellEvents r) (s, e) PENDING_SHELL_EVENT_BUFFER_LIMIT\<rparr>
      else if int s \<le> shellSnapshotSequence r then r
      else
        let r' = toStore h d (ShellEvent e) (r\<lparr>shellSnapshotSequence := int s\<rparr>)
        in case e of
             ThreadUpserted t \<Rightarrow>
               if shId t \<in> set (routedThreads r')
               then replayThreadEvents (shId t) (Some s)
                 (if rec_get (threadSequences r') (shId t) = None then requestThreadSnapshot (shId t) r' else r')
               else r'
           | _ \<Rightarrow> r')"

definition threadSnapshotArrived :: "host \<Rightarrow> dates \<Rightarrow> nat \<Rightarrow> read_model_thread \<Rightarrow> router \<Rightarrow> router" where
  "threadSnapshotArrived h d s t r =
     (let i = shId t
      in flushThreadBuffer h d i s (toStore h d (SyncThreadDetailHotPath t)
           (r\<lparr>threadSequences := rec_set i s (threadSequences r),
              snapshotRequests := removeAll i (snapshotRequests r)\<rparr>)))"

definition threadEventArrived :: "host \<Rightarrow> dates \<Rightarrow> domain_event \<Rightarrow> router \<Rightarrow> router" where
  "threadEventArrived h d ev r =
     (let i = evAggregateId ev
      in case rec_get (threadSequences r) i of
           None \<Rightarrow>
             let r' = r\<lparr>pendingThreadEvents := rec_set i (appendBounded
                   (nullish (rec_get (pendingThreadEvents r) i) []) ev PENDING_THREAD_EVENT_BUFFER_LIMIT)
                   (pendingThreadEvents r)\<rparr>
             in if i \<in> set (routedThreads r') then requestThreadSnapshot i r' else r'
         | Some latest \<Rightarrow>
             if evSequence ev \<le> latest then r
             else queueDomainEvent h d ev (r\<lparr>threadSequences := rec_set i (evSequence ev) (threadSequences r)\<rparr>))"

definition catchupRound :: "string \<Rightarrow> router \<Rightarrow> router" where
  "catchupRound i r =
     (if \<not> shouldPollThreadDetailCatchup (routerStore r) i then r
      else if rec_get (threadSequences r) i = None then requestThreadSnapshot i r
      else replayThreadEvents i None r)"

text \<open>\<open>ensureScopedSubscriptions\<close> up to its await; the visible threads follow as an input.\<close>

definition ensureScopedSubscriptions :: "router \<Rightarrow> router" where
  "ensureScopedSubscriptions r = callNative CallSubscribeShell (r\<lparr>shellSnapshotSequence := -1,
     pendingShellEvents := [], routedThreads := [], threadSequences := [], pendingThreadEvents := [],
     replayRequests := []\<rparr>)"

definition disposeRouter :: "host \<Rightarrow> dates \<Rightarrow> router \<Rightarrow> router" where
  "disposeRouter h d r =
     (let r' = (flushPendingDomainEvents h d r)\<lparr>routerDisposed := True, flushTimer := False\<rparr>
      in fold (\<lambda>i. callNative (CallUnsubscribeThread i)) (routedThreads r') (callNative CallUnsubscribeShell r'))"

section \<open>Inputs\<close>

datatype router_input =
    ShellSnapshotItem nat "shell_thread list" "wire_project list"
  | ShellEventItem nat shell_event
  | ThreadSnapshotItem nat read_model_thread
  | ThreadEventItem domain_event
  | DomainEventItem domain_event
  | FlushTimerFires
  | Welcome
  | LoadShellSnapshot
  | ShellQueryAnswered nat "shell_thread list" "wire_project list"
  | SubscribeThreads "string list"
  | ReconcileContinues
  | SnapshotRequestSettled string
  | ReplaySettled nat "domain_event list option"
  | CatchupTick
  | LocalAction client_action
  | DisposeRouter

text \<open>The listeners and timers of the effect are gone after its cleanup; awaited answers still come.\<close>

fun router_step :: "host \<Rightarrow> dates \<Rightarrow> router \<Rightarrow> router_input \<Rightarrow> router" where
  "router_step h d r (ShellSnapshotItem s ts ps) =
     (if routerDisposed r then r else shellSnapshotArrived h d s ts ps r)"
| "router_step h d r (ShellEventItem s e) = (if routerDisposed r then r else shellEventArrived h d s e r)"
| "router_step h d r (ThreadSnapshotItem s t) = (if routerDisposed r then r else threadSnapshotArrived h d s t r)"
| "router_step h d r (ThreadEventItem ev) = (if routerDisposed r then r else threadEventArrived h d ev r)"
| "router_step h d r (DomainEventItem ev) = (if routerDisposed r then r else queueDomainEvent h d ev r)"
| "router_step h d r FlushTimerFires =
     (if flushTimer r then flushPendingDomainEvents h d (r\<lparr>flushTimer := False\<rparr>) else r)"
| "router_step h d r Welcome = (if routerDisposed r then r else ensureScopedSubscriptions r)"
| "router_step h d r LoadShellSnapshot = callNative CallGetShellSnapshot r"
| "router_step h d r (ShellQueryAnswered s ts ps) = shellQueryAnswered h d s ts ps r"
| "router_step h d r (SubscribeThreads ids) = enqueueThreadSubscriptionReconcile ids r"
| "router_step h d r ReconcileContinues = reconcileContinues r"
| "router_step h d r (SnapshotRequestSettled i) = r\<lparr>snapshotRequests := removeAll i (snapshotRequests r)\<rparr>"
| "router_step h d r (ReplaySettled n answer) = replaySettled h d n answer r"
| "router_step h d r CatchupTick = (if routerDisposed r then r else fold catchupRound (routedThreads r) r)"
| "router_step h d r (LocalAction a) = toStore h d a r"
| "router_step h d r DisposeRouter = (if routerDisposed r then r else disposeRouter h d r)"

section \<open>The demultiplexer\<close>

text \<open>
  A frame of the channel: a snapshot, of a thread when its scope says so and it has one, or an event
  with its tag (\<open>None\<close> when that is not a string). A missing sequence of a shell snapshot reads as 0.
\<close>

record snapshot_data =
  snapScope :: "string option"
  snapThread :: "read_model_thread option"
  snapSequence :: "nat option"
  snapThreads :: "shell_thread list"
  snapProjects :: "wire_project list"

datatype push_frame =
    SnapshotFrame snapshot_data
  | EventFrame "string option" "string option" "json option"

definition demuxOrchestration :: "string \<Rightarrow> string \<Rightarrow> push_frame \<Rightarrow> push_context \<Rightarrow> router_input list \<times> push_context" where
  "demuxOrchestration now later f ctx =
     (case f of
        SnapshotFrame snap \<Rightarrow>
          (case (snapScope snap, snapThread snap) of
             (Some scope, Some t) \<Rightarrow>
               if scope = ''thread'' then ([ThreadSnapshotItem (nullish (snapSequence snap) 0) t], ctx)
               else ([ShellSnapshotItem (nullish (snapSequence snap) 0) (snapThreads snap) (snapProjects snap)], ctx)
           | _ \<Rightarrow> ([ShellSnapshotItem (nullish (snapSequence snap) 0) (snapThreads snap) (snapProjects snap)], ctx))
      | EventFrame None _ _ \<Rightarrow> ([], ctx)
      | EventFrame (Some ty) i data \<Rightarrow>
          let (es, ctx') = adaptPushEnvelope now later
                \<lparr>envEventType = ty, envAggregateId = i, envData = data, envTimestamp = None\<rparr> ctx
          in (map DomainEventItem es, ctx'))"

end
