(* ===== verification/RouterInvariant.thy ===== *)
theory RouterInvariant
  imports EventRouter ClientProperties
begin

text \<open>
  The invariant of the event router: the store it feeds keeps what it promises, its buffers are bounded,
  and events that wait are waited for by the timer. What the store promises, and of which actions, is
  the contract of a locale; it is given twice, once for what holds whatever is sent, and once for the
  soundness of the threads, which well-formed data keeps.
\<close>

section \<open>Buffers\<close>

lemma appendBounded_length: "1 \<le> n \<Longrightarrow> length xs \<le> n \<Longrightarrow> length (appendBounded xs x n) \<le> n"
  by (auto simp: appendBounded_def Let_def max_def)

lemma appendBounded_all: "list_all P xs \<Longrightarrow> P x \<Longrightarrow> list_all P (appendBounded xs x n)"
  by (auto simp: appendBounded_def Let_def list_all_iff dest: in_set_dropD)

lemma addBoundedSetValue_length: "1 \<le> n \<Longrightarrow> length (addBoundedSetValue s v n) \<le> n"
  by (auto simp: addBoundedSetValue_def Let_def max_def)

section \<open>Events that keep the store sound\<close>

definition ev_ok :: "domain_event \<Rightarrow> bool" where
  "ev_ok ev \<longleftrightarrow> (case evBody ev of ForStore e \<Rightarrow> client_event_ok e | _ \<Rightarrow> True)"

lemma ev_ok_message: "evBody ev = ForStore (OnThread (ThreadEvent i (MessageSent p))) \<Longrightarrow> ev_ok ev"
  by (simp add: ev_ok_def)

lemma storeEvents_simps [simp]:
  "storeEvents [] = []"
  "storeEvents (ev # es) = (case evBody ev of ForStore e \<Rightarrow> [e] | _ \<Rightarrow> []) @ storeEvents es"
  by (simp_all add: storeEvents_def)

lemma storeEvents_append [simp]: "storeEvents (es @ fs) = storeEvents es @ storeEvents fs"
  by (simp add: storeEvents_def)

lemma storeEvents_ok: "list_all ev_ok es \<Longrightarrow> list_all client_event_ok (storeEvents es)"
  by (induction es) (auto simp: ev_ok_def split: event_body.splits)

section \<open>The invariant\<close>

definition router_keeps :: "(app_state \<Rightarrow> bool) \<Rightarrow> (domain_event \<Rightarrow> bool) \<Rightarrow> router \<Rightarrow> bool" where
  "router_keeps P E r \<longleftrightarrow> P (clientThreads (routerStore r)) \<and> list_all E (pendingDomainEvents r) \<and>
     (\<forall>e\<in>set (pendingThreadEvents r). list_all E (snd e) \<and> length (snd e) \<le> PENDING_THREAD_EVENT_BUFFER_LIMIT) \<and>
     length (pendingShellEvents r) \<le> PENDING_SHELL_EVENT_BUFFER_LIMIT \<and>
     length (flushedAssistantIds r) \<le> IMMEDIATE_ASSISTANT_FLUSH_ID_LIMIT \<and>
     distinct (routedThreads r) \<and> (pendingDomainEvents r = [] \<or> flushTimer r)"

text \<open>A flush empties the queue, whatever the timer.\<close>

definition queue_keeps :: "(app_state \<Rightarrow> bool) \<Rightarrow> (domain_event \<Rightarrow> bool) \<Rightarrow> router \<Rightarrow> bool" where
  "queue_keeps P E r \<longleftrightarrow> router_keeps P E (r\<lparr>flushTimer := True\<rparr>)"

abbreviation router_ok :: "router \<Rightarrow> bool" where
  "router_ok \<equiv> router_keeps store_ok ev_ok"

fun input_fits :: "(client_action \<Rightarrow> bool) \<Rightarrow> (domain_event \<Rightarrow> bool) \<Rightarrow> router_input \<Rightarrow> bool" where
  "input_fits A E (ShellSnapshotItem s ts ps) = A (SyncShellSnapshot ts ps)"
| "input_fits A E (ShellQueryAnswered s ts ps) = A (SyncShellSnapshot ts ps)"
| "input_fits A E (ThreadSnapshotItem s t) = A (SyncThreadDetailHotPath t)"
| "input_fits A E (ThreadEventItem ev) = E ev"
| "input_fits A E (DomainEventItem ev) = E ev"
| "input_fits A E (ReplaySettled n answer) = list_all E (nullish answer [])"
| "input_fits A E (LocalAction a) = A a"
| "input_fits A E _ = True"

abbreviation input_ok :: "router_input \<Rightarrow> bool" where
  "input_ok \<equiv> input_fits action_ok ev_ok"

text \<open>
  What the router needs of the store it feeds: a promise \<open>P\<close> of the store which the actions \<open>A\<close> keep,
  where the actions of the router's own making are such actions, a batch of events \<open>E\<close> too, and a message
  that the coalescing writes is such an event.
\<close>

locale fed_store =
  fixes P :: "app_state \<Rightarrow> bool"
    and A :: "client_action \<Rightarrow> bool"
    and E :: "domain_event \<Rightarrow> bool"
  assumes kept: "P (clientThreads st) \<Longrightarrow> A a \<Longrightarrow> P (clientThreads (client_step h d st a))"
    and shells: "A (ShellEvent e)"
    and batch: "list_all E es \<Longrightarrow> A (EventsHotPath (storeEvents es))"
    and message: "evBody ev = ForStore (OnThread (ThreadEvent i (MessageSent p))) \<Longrightarrow> E ev"
begin

abbreviation keeps :: "router \<Rightarrow> bool" where
  "keeps \<equiv> router_keeps P E"

lemma coalesceRound_ok:
  assumes "list_all E es" "E ev"
  shows "list_all E (coalesceRound es ev)"
proof -
  have "list_all E (butlast es)" using assms(1) by (auto simp: list_all_iff dest: in_set_butlastD)
  with assms show ?thesis
    unfolding coalesceRound_def by (auto intro!: message split: option.splits)
qed

lemma coalesceRounds_ok: "list_all E acc \<Longrightarrow> list_all E es \<Longrightarrow> list_all E (foldl coalesceRound acc es)"
  by (induction es arbitrary: acc) (simp_all add: coalesceRound_ok)

lemma coalesce_ok: "list_all E es \<Longrightarrow> list_all E (coalesceOrchestrationUiEvents es)"
  by (simp add: coalesceOrchestrationUiEvents_def coalesceRounds_ok)

text \<open>Two routers with the same fields as far as the invariant goes.\<close>

lemma keeps_cong:
  assumes "keeps r" "clientThreads (routerStore r') = clientThreads (routerStore r)"
    "pendingDomainEvents r' = pendingDomainEvents r"
    "set (pendingThreadEvents r') \<subseteq> set (pendingThreadEvents r)" "pendingShellEvents r' = pendingShellEvents r"
    "flushedAssistantIds r' = flushedAssistantIds r" "routedThreads r' = routedThreads r"
    "flushTimer r' = flushTimer r"
  shows "keeps r'"
  using assms unfolding router_keeps_def by auto

lemma ok_callNative [wf_intros]: "keeps r \<Longrightarrow> keeps (callNative c r)"
  by (erule keeps_cong) (simp_all add: callNative_def)

lemma ok_sequences [wf_intros]: "keeps r \<Longrightarrow> keeps (r\<lparr>threadSequences := m\<rparr>)"
  by (erule keeps_cong) simp_all

lemma ok_snapshotRequests [wf_intros]: "keeps r \<Longrightarrow> keeps (r\<lparr>snapshotRequests := m\<rparr>)"
  by (erule keeps_cong) simp_all

lemma ok_replayRequests [wf_intros]: "keeps r \<Longrightarrow> keeps (r\<lparr>replayRequests := m\<rparr>)"
  by (erule keeps_cong) simp_all

lemma ok_replays [wf_intros]: "keeps r \<Longrightarrow> keeps (r\<lparr>replays := m\<rparr>)"
  by (erule keeps_cong) simp_all

lemma ok_shellSequence [wf_intros]: "keeps r \<Longrightarrow> keeps (r\<lparr>shellSnapshotSequence := m\<rparr>)"
  by (erule keeps_cong) simp_all

lemma ok_stage [wf_intros]: "keeps r \<Longrightarrow> keeps (r\<lparr>reconcileStage := m\<rparr>)"
  by (erule keeps_cong) simp_all

lemma ok_queue [wf_intros]: "keeps r \<Longrightarrow> keeps (r\<lparr>reconcileQueue := m\<rparr>)"
  by (erule keeps_cong) simp_all

lemma ok_toStore [wf_intros]: "keeps r \<Longrightarrow> A a \<Longrightarrow> keeps (toStore h d a r)"
  using kept [of "routerStore r" a h d] by (simp add: router_keeps_def toStore_def)

lemma ok_noShell [wf_intros]: "keeps r \<Longrightarrow> keeps (r\<lparr>pendingShellEvents := []\<rparr>)"
  by (simp add: router_keeps_def)

lemma ok_deleteBuffer [wf_intros]: "keeps r \<Longrightarrow> keeps (r\<lparr>pendingThreadEvents := rec_delete i (pendingThreadEvents r)\<rparr>)"
  by (erule keeps_cong) (simp_all add: rec_delete_def)

lemma ok_setBuffer [wf_intros]:
  "keeps r \<Longrightarrow> list_all E es \<Longrightarrow> length es \<le> PENDING_THREAD_EVENT_BUFFER_LIMIT \<Longrightarrow>
     keeps (r\<lparr>pendingThreadEvents := rec_set i es (pendingThreadEvents r)\<rparr>)"
  by (auto simp: router_keeps_def dest: rec_set_mem)

lemma ok_fold [wf_intros]: "keeps r \<Longrightarrow> (\<And>x r. x \<in> set xs \<Longrightarrow> keeps r \<Longrightarrow> keeps (f x r)) \<Longrightarrow> keeps (fold f xs r)"
  by (induction xs arbitrary: r) auto

lemma ok_flush:
  assumes "queue_keeps P E r"
  shows "keeps (flushPendingDomainEvents h d r)"
proof -
  have "A (EventsHotPath (storeEvents (coalesceOrchestrationUiEvents (pendingDomainEvents r))))"
    using assms by (simp add: queue_keeps_def router_keeps_def batch coalesce_ok)
  with assms show ?thesis
    using kept [of "routerStore r" "EventsHotPath (storeEvents (coalesceOrchestrationUiEvents (pendingDomainEvents r)))" h d]
    by (auto simp: flushPendingDomainEvents_def queue_keeps_def router_keeps_def toStore_def)
qed

lemma queue_keeps_router: "keeps r \<Longrightarrow> queue_keeps P E (r\<lparr>flushTimer := b\<rparr>)"
  by (simp add: queue_keeps_def router_keeps_def)

lemma flush_ids_length:
  assumes "length ids \<le> IMMEDIATE_ASSISTANT_FLUSH_ID_LIMIT"
  shows "length (snd (shouldFlushDomainEventImmediately ev ids)) \<le> IMMEDIATE_ASSISTANT_FLUSH_ID_LIMIT"
proof (cases "messageOf ev")
  case (Some m)
  obtain i p where m: "m = (i, p)" by (cases m)
  have "length (removeAll (wireId p) ids) \<le> IMMEDIATE_ASSISTANT_FLUSH_ID_LIMIT"
    by (rule order_trans [OF length_removeAll_less_eq assms])
  moreover have "length (addBoundedSetValue ids (wireId p) IMMEDIATE_ASSISTANT_FLUSH_ID_LIMIT)
      \<le> IMMEDIATE_ASSISTANT_FLUSH_ID_LIMIT"
    by (rule addBoundedSetValue_length) (simp add: IMMEDIATE_ASSISTANT_FLUSH_ID_LIMIT_def)
  ultimately show ?thesis using assms Some m
    unfolding shouldFlushDomainEventImmediately_def by simp
qed (use assms in \<open>simp add: shouldFlushDomainEventImmediately_def\<close>)

lemma ok_queueDomainEvent [wf_intros]:
  assumes "keeps r" "E ev"
  shows "keeps (queueDomainEvent h d ev r)"
proof -
  obtain b ids where f: "shouldFlushDomainEventImmediately ev (flushedAssistantIds r) = (b, ids)"
    by (cases "shouldFlushDomainEventImmediately ev (flushedAssistantIds r)")
  have "length ids \<le> IMMEDIATE_ASSISTANT_FLUSH_ID_LIMIT"
    using f flush_ids_length [of "flushedAssistantIds r" ev] assms(1) by (simp add: router_keeps_def)
  with assms have "queue_keeps P E (r\<lparr>pendingDomainEvents := pendingDomainEvents r @ [ev], flushedAssistantIds := ids, flushTimer := False\<rparr>)"
    "keeps (r\<lparr>pendingDomainEvents := pendingDomainEvents r @ [ev], flushedAssistantIds := ids, flushTimer := True\<rparr>)"
    by (simp_all add: queue_keeps_def router_keeps_def)
  with f show ?thesis by (simp add: queueDomainEvent_def Let_def ok_flush)
qed

subsection \<open>Every input keeps it\<close>

lemma list_all_bySequence: "list_all Q (bySequence es) = list_all Q es"
  by (simp add: bySequence_def sort_cmp_def list_all_iff)

lemma ok_queueNewer: "keeps r \<Longrightarrow> E ev \<Longrightarrow> keeps (snd (queueNewer h d i ev (n, r)))"
  by (simp add: queueNewer_def wf_intros)

lemma ok_queueNewers: "keeps r \<Longrightarrow> list_all E es \<Longrightarrow> keeps (snd (fold (queueNewer h d i) es (n, r)))"
proof (induction es arbitrary: n r)
  case (Cons ev es)
  from ok_queueNewer [OF Cons.prems(1), of ev h d i n] Cons.prems(2) Cons.IH show ?case
    by (cases "queueNewer h d i ev (n, r)") simp
qed simp

lemma buffer_ok:
  assumes "keeps r"
  shows "list_all E (nullish (rec_get (pendingThreadEvents r) i) [])"
    "length (nullish (rec_get (pendingThreadEvents r) i) []) \<le> PENDING_THREAD_EVENT_BUFFER_LIMIT"
  using assms by (cases "rec_get (pendingThreadEvents r) i"; auto simp: router_keeps_def dest!: map_of_SomeD)+

lemma ok_flushThreadBuffer [wf_intros]: "keeps r \<Longrightarrow> keeps (flushThreadBuffer h d i s r)"
  unfolding flushThreadBuffer_def Let_def
  by (intro ok_queueNewers ok_deleteBuffer) (simp_all add: list_all_bySequence buffer_ok)

lemma ok_flushShellBuffer [wf_intros]: "keeps r \<Longrightarrow> keeps (flushShellBuffer h d s r)"
  unfolding flushShellBuffer_def Let_def applyPendingShell_def by (intro wf_intros) (simp_all add: shells)

lemma ok_requestThreadSnapshot [wf_intros]: "keeps r \<Longrightarrow> keeps (requestThreadSnapshot i r)"
  by (simp add: requestThreadSnapshot_def wf_intros)

lemma ok_replayThreadEvents [wf_intros]: "keeps r \<Longrightarrow> keeps (replayThreadEvents i target r)"
  unfolding replayThreadEvents_def
  by (auto intro!: ok_callNative elim!: keeps_cong split: option.split)

lemma ok_startSubscription:
  assumes "keeps r" "i \<notin> set (routedThreads r)"
  shows "keeps (startSubscription i r)"
  using assms
  by (auto simp: startSubscription_def beginThreadSubscription_def router_keeps_def Let_def dest!: rec_set_mem)

lemma start_routed: "routedThreads (startSubscription i r) = routedThreads r @ [i]"
  by (simp add: startSubscription_def beginThreadSubscription_def Let_def)

lemma ok_startSubscriptions:
  "keeps r \<Longrightarrow> distinct is \<Longrightarrow> set is \<inter> set (routedThreads r) = {} \<Longrightarrow> keeps (fold startSubscription is r)"
proof (induction "is" arbitrary: r)
  case (Cons i "is")
  then show ?case using Cons.IH [OF ok_startSubscription] by (simp add: start_routed)
qed simp

lemma ok_endSubscription [wf_intros]: "keeps r \<Longrightarrow> keeps (endSubscription i r)"
  by (auto simp: endSubscription_def router_keeps_def distinct_removeAll rec_delete_def)

lemma ok_reconcileStart [wf_intros]: "keeps r \<Longrightarrow> keeps (reconcileStart ids r)"
  unfolding reconcileStart_def Let_def
  by (intro ok_stage ok_fold ok_startSubscriptions ok_callNative) auto

lemma ok_reconcileContinues [wf_intros]: "keeps r \<Longrightarrow> keeps (reconcileContinues r)"
  unfolding reconcileContinues_def reconcileEnd_def
  by (auto intro!: wf_intros split: reconcile_stage.split list.split)

lemma ok_replayRound: "keeps r \<Longrightarrow> E ev \<Longrightarrow> keeps (replayRound h d i n ev r)"
  by (simp add: replayRound_def wf_intros)

lemma ok_replaySettled: "keeps r \<Longrightarrow> list_all E (nullish answer []) \<Longrightarrow> keeps (replaySettled h d n answer r)"
  unfolding replaySettled_def Let_def
  by (auto simp: bySequence_def sort_cmp_def list_all_iff intro!: ok_replayRequests ok_fold ok_replays ok_replayRound
      split: option.split)

lemma ok_shellSnapshotArrived [wf_intros]:
  "keeps r \<Longrightarrow> A (SyncShellSnapshot ts ps) \<Longrightarrow> keeps (shellSnapshotArrived h d s ts ps r)"
  unfolding shellSnapshotArrived_def by (intro wf_intros) simp_all

lemma ok_shellEventArrived [wf_intros]: "keeps r \<Longrightarrow> keeps (shellEventArrived h d s e r)"
proof -
  assume ok: "keeps r"
  have "keeps (r\<lparr>pendingShellEvents := appendBounded (pendingShellEvents r) (s, e) PENDING_SHELL_EVENT_BUFFER_LIMIT\<rparr>)"
    using ok appendBounded_length [of PENDING_SHELL_EVENT_BUFFER_LIMIT "pendingShellEvents r" "(s, e)"]
    by (simp add: router_keeps_def PENDING_SHELL_EVENT_BUFFER_LIMIT_def)
  moreover have "keeps (toStore h d (ShellEvent e) (r\<lparr>shellSnapshotSequence := int s\<rparr>))"
    using ok by (intro wf_intros) (simp_all add: shells)
  ultimately show ?thesis
    unfolding shellEventArrived_def Let_def
    using ok by (auto intro!: ok_replayThreadEvents ok_requestThreadSnapshot split: shell_event.split)
qed

lemma ok_threadSnapshotArrived [wf_intros]:
  "keeps r \<Longrightarrow> A (SyncThreadDetailHotPath t) \<Longrightarrow> keeps (threadSnapshotArrived h d s t r)"
proof -
  assume ok: "keeps r" "A (SyncThreadDetailHotPath t)"
  then have "keeps (r\<lparr>threadSequences := rec_set (shId t) s (threadSequences r),
      snapshotRequests := removeAll (shId t) (snapshotRequests r)\<rparr>)"
    by (auto elim!: keeps_cong)
  with ok show ?thesis unfolding threadSnapshotArrived_def Let_def by (intro wf_intros) simp_all
qed

lemma ok_threadEventArrived [wf_intros]:
  "keeps r \<Longrightarrow> E ev \<Longrightarrow> keeps (threadEventArrived h d ev r)"
proof -
  assume ok: "keeps r" "E ev"
  have "keeps (r\<lparr>pendingThreadEvents := rec_set i (appendBounded (nullish (rec_get (pendingThreadEvents r) i) []) ev
      PENDING_THREAD_EVENT_BUFFER_LIMIT) (pendingThreadEvents r)\<rparr>)" for i
    using ok buffer_ok [OF ok(1), of i]
    by (intro ok_setBuffer appendBounded_all appendBounded_length) (simp_all add: PENDING_THREAD_EVENT_BUFFER_LIMIT_def)
  with ok show ?thesis
    unfolding threadEventArrived_def Let_def
    by (auto intro!: ok_requestThreadSnapshot ok_queueDomainEvent ok_sequences split: option.split)
qed

lemma ok_catchup: "keeps r \<Longrightarrow> keeps (catchupRound i r)"
  by (simp add: catchupRound_def wf_intros)

lemma ok_resubscribe: "keeps r \<Longrightarrow> keeps (ensureScopedSubscriptions r)"
  unfolding ensureScopedSubscriptions_def by (intro ok_callNative) (simp add: router_keeps_def)

lemma ok_dispose: "keeps r \<Longrightarrow> keeps (disposeRouter h d r)"
proof -
  assume "keeps r"
  then have "keeps (flushPendingDomainEvents h d r)"
    by (intro ok_flush) (simp add: queue_keeps_def router_keeps_def)
  moreover have "pendingDomainEvents (flushPendingDomainEvents h d r) = []"
    by (simp add: flushPendingDomainEvents_def)
  ultimately have "keeps ((flushPendingDomainEvents h d r)\<lparr>routerDisposed := True, flushTimer := False\<rparr>)"
    by (simp add: router_keeps_def)
  then show ?thesis unfolding disposeRouter_def Let_def by (intro ok_fold ok_callNative)
qed

lemma router_step_keeps:
  assumes "keeps r" "input_fits A E x"
  shows "keeps (router_step h d r x)"
  using assms ok_flush [OF queue_keeps_router [OF assms(1)]]
  by (cases x) (auto simp: shellQueryAnswered_def enqueueThreadSubscriptionReconcile_def
      intro!: ok_fold ok_catchup ok_resubscribe ok_dispose ok_replaySettled wf_intros)

end

text \<open>The threads stay sound when what is sent is well-formed.\<close>

interpretation sound_feed: fed_store store_ok action_ok ev_ok
  by unfold_locales (use effect_step in \<open>simp_all add: client_step_eq storeEvents_ok ev_ok_message\<close>)

text \<open>The lists and slices stay in step whatever is sent.\<close>

interpretation tidy_feed: fed_store tidy "\<lambda>_. True" "\<lambda>_. True"
  by unfold_locales (simp_all add: client_step_tidy)

lemma anything_fits: "input_fits (\<lambda>_. True) (\<lambda>_. True) x"
  by (cases x) (simp_all add: list.pred_True)

interpretation routed: invariant_store "router_step h d" "\<lambda>_. input_ok" router_ok for h d
  by unfold_locales (rule sound_feed.router_step_keeps)

interpretation routed_tidily: invariant_store "router_step h d" "\<lambda>_ _. True" "router_keeps tidy (\<lambda>_. True)" for h d
  by unfold_locales (simp add: tidy_feed.router_step_keeps anything_fits)

end
