(* ===== verification/RouterView.thy ===== *)
theory RouterView
  imports RouterInvariant MessageProperties
begin

text \<open>
  What the chat shows of a running turn: the message that streams, the status of the session and the
  state of the latest turn, as a small machine that the events of the router drive; the client store
  refines it, and coalescing a batch does not change what it does.
\<close>

section \<open>The view\<close>

record turn_view =
  vMessage :: "(string \<times> message_role \<times> bool) option"
  vStatus :: "session_status option"
  vTurn :: "(string \<times> turn_state) option"

definition viewed :: "string \<Rightarrow> thread \<Rightarrow> turn_view" where
  "viewed u t = \<lparr>vMessage = map_option (\<lambda>m. (messageText m, role m, streaming m)) (message_of t u),
     vStatus = map_option orchestrationStatus (session t),
     vTurn = map_option (\<lambda>lt. (latestTurnId lt, latestTurnState lt)) (latestTurn t)\<rparr>"

definition sent_text :: "message_role \<Rightarrow> string \<Rightarrow> read_model_message \<Rightarrow> string" where
  "sent_text r s p = (if wireStreaming p then s @ wireText p else final_text r (wireRole p) s (wireText p))"

definition sent_message ::
    "read_model_message \<Rightarrow> (string \<times> message_role \<times> bool) option \<Rightarrow> string \<times> message_role \<times> bool" where
  "sent_message p v = (case v of None \<Rightarrow> (wireText p, wireRole p, wireStreaming p)
     | Some (s, r, live) \<Rightarrow> (sent_text r s p, r, wireStreaming p))"

definition sent_state :: "bool \<Rightarrow> turn_state \<Rightarrow> turn_state" where
  "sent_state live k = (if live then TurnRunning
     else if k = TurnInterrupted \<or> k = TurnError then k else TurnCompleted)"

definition sent_turn :: "read_model_message \<Rightarrow> (string \<times> turn_state) option \<Rightarrow> (string \<times> turn_state) option" where
  "sent_turn p v = (case wireTurnId p of
     None \<Rightarrow> v
   | Some turn \<Rightarrow> if wireRole p \<noteq> Assistant then v
       else (case v of None \<Rightarrow> Some (turn, sent_state (wireStreaming p) TurnRunning)
         | Some (k, s) \<Rightarrow> if k = turn then Some (turn, sent_state (wireStreaming p) s) else v))"

definition set_turn :: "wire_session \<Rightarrow> (string \<times> turn_state) option \<Rightarrow> (string \<times> turn_state) option" where
  "set_turn s v = (case (wireStatus s, wireActiveTurnId s, v) of
     (StatusRunning, Some turn, _) \<Rightarrow> Some (turn, TurnRunning)
   | (StatusError, _, Some (k, TurnRunning)) \<Rightarrow> Some (k, TurnError)
   | _ \<Rightarrow> v)"

fun view_event :: "thread_event \<Rightarrow> turn_view \<Rightarrow> turn_view" where
  "view_event (MessageSent p) v = v\<lparr>vMessage := Some (sent_message p (vMessage v)), vTurn := sent_turn p (vTurn v)\<rparr>"
| "view_event (SessionSet s at') v = v\<lparr>vStatus := Some (wireStatus s), vTurn := set_turn s (vTurn v)\<rparr>"
| "view_event _ v = v"

text \<open>
  The events the view follows: the message's own, those of the session, and those that leave messages,
  session and turn alone.
\<close>

fun follows :: "string \<Rightarrow> thread_event \<Rightarrow> bool" where
  "follows u (MessageSent p) \<longleftrightarrow> wireId p = u"
| "follows u (MetaUpdated _) \<longleftrightarrow> False"
| "follows u TurnInterruptRequested \<longleftrightarrow> False"
| "follows u (SessionStopRequested _ _) \<longleftrightarrow> False"
| "follows u (TurnStartRequested _ _ _ _ _) \<longleftrightarrow> False"
| "follows u (TurnDiffCompleted _) \<longleftrightarrow> False"
| "follows u (Reverted _ _) \<longleftrightarrow> False"
| "follows u (RolledBack _ _ _ _) \<longleftrightarrow> False"
| "follows u _ \<longleftrightarrow> True"

section \<open>The projection refines it\<close>

lemma viewed_deliver_message:
  "vMessage (viewed (wireId p) (deliver h p t)) = Some (sent_message p (vMessage (viewed (wireId p) t)))"
proof (cases "message_of t (wireId p)")
  case None
  from deliver_new [OF None, of h] None show ?thesis by (simp add: viewed_def sent_message_def incoming_fields)
next
  case (Some e)
  obtain r where r: "message_of (deliver h p t) (wireId p) = Some r"
    "messageText r = mergedText e (incoming_for h p t)" "streaming r = wireStreaming p" "role r = role e"
    by (rule deliver_merged [OF Some, of h])
  with Some show ?thesis
    by (simp add: viewed_def sent_message_def sent_text_def mergedText_def incoming_fields final_text_def)
qed

lemma viewed_deliver_rest:
  "vStatus (viewed u (deliver h p t)) = vStatus (viewed u t)"
  "vTurn (viewed u (deliver h p t)) = sent_turn p (vTurn (viewed u t))"
proof -
  show "vStatus (viewed u (deliver h p t)) = vStatus (viewed u t)"
    unfolding deliver_def applyThreadMessageSentEvent_def Let_def
    by (auto simp: viewed_def split: message_role.split option.split)
  show "vTurn (viewed u (deliver h p t)) = sent_turn p (vTurn (viewed u t))"
    unfolding deliver_def applyThreadMessageSentEvent_def Let_def
    by (cases "latestTurn t")
      (auto simp: viewed_def sent_turn_def sent_state_def buildLatestTurn_def turn_is_def
        split: message_role.split option.split)
qed

lemma viewed_deliver: "viewed (wireId p) (deliver h p t) = view_event (MessageSent p) (viewed (wireId p) t)"
  using viewed_deliver_message [of p h t] viewed_deliver_rest [of "wireId p" h p t] by simp

lemma status_normalized:
  "map_option orchestrationStatus (normalizeThreadSession (Some s) previous) = Some (wireStatus s)"
  by (simp add: normalizeThreadSession_def Let_def)

lemma viewed_session:
  "viewed u (nullish (setThreadSession s at' t) t) = view_event (SessionSet s at') (viewed u t)"
proof (cases "setThreadSession s at' t")
  case None
  then have n: "session t = normalizeThreadSession (Some s) (session t)"
    "\<not> (wireStatus s = StatusRunning \<and> wireActiveTurnId s \<noteq> None)"
    "\<not> (wireStatus s = StatusError \<and>
        (case latestTurn t of None \<Rightarrow> False | Some lt \<Rightarrow> latestTurnState lt = TurnRunning))"
    by (auto simp: setThreadSession_def Let_def split: if_splits)
  from n(1) have "map_option orchestrationStatus (session t) = Some (wireStatus s)"
    using status_normalized by metis
  moreover from n(2,3) have "set_turn s (vTurn (viewed u t)) = vTurn (viewed u t)"
    by (auto simp: set_turn_def viewed_def split: session_status.split option.splits turn_state.split)
  ultimately show ?thesis using None by (simp add: viewed_def)
next
  case (Some t')
  then have t': "session t' = normalizeThreadSession (Some s) (session t)" "messages t' = messages t"
    "latestTurn t' = reconcileLatestTurnFromSession t s"
    by (auto simp: setThreadSession_def Let_def split: if_splits)
  have "map_option orchestrationStatus (session t') = Some (wireStatus s)"
    by (simp add: t'(1) status_normalized del: map_option_eq_Some)
  moreover have "map_option (\<lambda>lt. (latestTurnId lt, latestTurnState lt)) (latestTurn t') = set_turn s (vTurn (viewed u t))"
    unfolding t'(3) reconcileLatestTurnFromSession_def set_turn_def viewed_def
    by (auto simp: buildLatestTurn_def split: session_status.split option.split turn_state.split)
  ultimately show ?thesis using Some t'(2) by (simp add: viewed_def message_of_def)
qed

text \<open>The other events leave what is viewed alone.\<close>

lemma viewed_aside:
  assumes "threadUpdater h e t = Some t'"
  shows "messages t' = messages t \<and> session t' = session t \<and> latestTurn t' = latestTurn t \<or> \<not> follows u e \<or>
    (\<exists>p. e = MessageSent p) \<or> (\<exists>s at'. e = SessionSet s at')"
  using assms
  by (cases e) (auto simp: updatePins_def updateMarkers_def userInputResponse_def approvalResponse_def
      appendActivity_def upsertPlan_def archiveThread_def unarchiveThread_def Let_def split: if_split_asm)

lemma view_event_aside: "(\<And>p. e \<noteq> MessageSent p) \<Longrightarrow> (\<And>s at'. e \<noteq> SessionSet s at') \<Longrightarrow> view_event e v = v"
  by (cases e) auto

lemma viewed_updater:
  assumes "follows u e"
  shows "viewed u (nullish (threadUpdater h e t) t) = view_event e (viewed u t)"
proof -
  consider (message) p where "e = MessageSent p" | (session) s at' where "e = SessionSet s at'"
    | (aside) "\<And>p. e \<noteq> MessageSent p" "\<And>s at'. e \<noteq> SessionSet s at'" by blast
  then show ?thesis
  proof cases
    case message
    with assms viewed_deliver [of p h t] show ?thesis by (simp add: deliver_def)
  next
    case session
    with viewed_session [of u s at' t] show ?thesis by simp
  next
    case aside
    from aside viewed_aside [of h e t _ u] assms show ?thesis
      unfolding view_event_aside [OF aside] by (cases "threadUpdater h e t") (auto simp: viewed_def message_of_def)
  qed
qed

lemma viewed_signals: "withDerivedThreadStateSignals h t = Some t' \<Longrightarrow> viewed u t' = viewed u t"
  by (auto simp: withDerivedThreadStateSignals_def Let_def viewed_def message_of_def split: if_splits)

lemma viewed_updatedThread: "viewed u (nullish (updatedThread h b f t) t) = viewed u (nullish (f t) t)"
  using viewed_signals [of h "nullish (f t) t"]
  by (cases "withDerivedThreadStateSignals h (nullish (f t) t)") (auto simp: updatedThread_def Let_def)

lemma viewed_stored: "viewed u (stored p t) = viewed u t"
  by (simp add: viewed_def message_of_def stored_fields)

section \<open>Runs of events\<close>

definition view_of :: "string \<Rightarrow> string \<Rightarrow> thread_world \<Rightarrow> turn_view option" where
  "view_of i u w = map_option (viewed u) (fst w i)"

text \<open>Events of the thread are followed; the others do not delete it.\<close>

definition followed :: "string \<Rightarrow> string \<Rightarrow> domain_event \<Rightarrow> bool" where
  "followed i u ev \<longleftrightarrow> (case evBody ev of
     ForStore (OnThread (ThreadEvent j e)) \<Rightarrow> j = i \<longrightarrow> follows u e
   | ForStore (OnThread (ThreadDeleted j)) \<Rightarrow> j \<noteq> i
   | _ \<Rightarrow> True)"

definition view_step :: "string \<Rightarrow> domain_event \<Rightarrow> turn_view \<Rightarrow> turn_view" where
  "view_step i ev = (case evBody ev of
     ForStore (OnThread (ThreadEvent j e)) \<Rightarrow> if j = i then view_event e else id | _ \<Rightarrow> id)"

lemma follows_not_ignored: "follows u e \<Longrightarrow> \<not> ignoredEvent e"
  by (cases e) simp_all

lemma view_spec_event:
  assumes "m i = Some t" "follows u e"
  shows "map_option (viewed u) (spec_event h (ThreadEvent i e) m i) = Some (view_event e (viewed u t))"
  using assms viewed_updatedThread [of u h "signals e" "threadUpdater h e" t] viewed_updater [OF assms(2), of h t]
  by (cases "updatedThread h (signals e) (threadUpdater h e) t")
    (simp_all add: follows_not_ignored viewed_stored)

lemma view_spec_client:
  assumes "view_of i u w = Some v" "followed i u ev" "evBody ev = ForStore e"
  shows "view_of i u (spec_client_event h e w) = Some (view_step i ev v)"
proof (cases e)
  case (OnThread oe)
  obtain m deleted where w: "w = (m, deleted)" by (cases w)
  with assms(1) obtain t where t: "m i = Some t" "v = viewed u t" by (auto simp: view_of_def)
  show ?thesis
  proof (cases "about oe = i")
    case False
    with OnThread w t assms(3) show ?thesis
      by (cases oe) (auto simp: view_of_def view_step_def spec_other simp del: spec_event.simps)
  next
    case True
    with OnThread w t assms(2,3) view_spec_event [of m i t u _ h] show ?thesis
      by (cases oe) (auto simp: view_of_def view_step_def followed_def simp del: spec_event.simps(3))
  qed
qed (use assms in \<open>auto simp: view_step_def\<close>)

lemma view_run:
  "view_of i u w = Some v \<Longrightarrow> list_all (followed i u) es \<Longrightarrow>
     view_of i u (fold (spec_client_event h) (storeEvents es) w) = Some (fold (view_step i) es v)"
proof (induction es arbitrary: w v)
  case (Cons ev es)
  show ?case
  proof (cases "evBody ev")
    case (ForStore e)
    with Cons view_spec_client [of i u w v ev e h] show ?thesis by simp
  next
    case (WorkflowContextBound c)
    with Cons show ?thesis by (simp add: view_step_def)
  qed
qed simp

section \<open>Coalescing\<close>

text \<open>
  In a batch, the events of the streamed message that follow each other directly are chunks of the
  same turn.
\<close>

definition message_in :: "string \<Rightarrow> string \<Rightarrow> domain_event \<Rightarrow> read_model_message option" where
  "message_in i u ev = (case messageOf ev of
     Some (j, p) \<Rightarrow> if j = i \<and> wireId p = u then Some p else None | None \<Rightarrow> None)"

definition chunks_adjoin :: "string \<Rightarrow> string \<Rightarrow> domain_event \<Rightarrow> domain_event \<Rightarrow> bool" where
  "chunks_adjoin i u x y \<longleftrightarrow> (case (message_in i u x, message_in i u y) of
     (Some p, Some q) \<Rightarrow> wireStreaming p \<and> wireStreaming q \<and> wireRole p = wireRole q \<and>
       wireTurnId p = wireTurnId q
   | _ \<Rightarrow> True)"

lemma merge_chunks:
  assumes "wireStreaming p" "wireStreaming q" "wireRole p = wireRole q" "wireTurnId p = wireTurnId q"
  shows "view_event (MessageSent (mergePayload p q)) v = view_event (MessageSent q) (view_event (MessageSent p) v)"
  using assms
  by (auto simp: mergePayload_def sent_message_def sent_text_def sent_turn_def sent_state_def
      split: option.split)

lemma mergePayload_simps [simp]:
  "wireId (mergePayload p q) = wireId q" "wireStreaming (mergePayload p q) = wireStreaming q"
  "wireRole (mergePayload p q) = wireRole q" "wireTurnId (mergePayload p q) = wireTurnId q"
  by (simp_all add: mergePayload_def)

lemma messageOf_Some:
  "messageOf ev = Some (i, p) \<longleftrightarrow> evBody ev = ForStore (OnThread (ThreadEvent i (MessageSent p)))"
  by (auto simp: messageOf_def split: event_body.splits client_event.splits orchestration_event.splits thread_event.splits)

text \<open>What matters of the last event of the coalesced batch is what matters of the last one of the batch.\<close>

definition same_end :: "domain_event \<Rightarrow> domain_event \<Rightarrow> bool" where
  "same_end x y \<longleftrightarrow> rel_option (\<lambda>(i, p) (j, q). i = j \<and> wireId p = wireId q \<and> wireStreaming p = wireStreaming q \<and>
     wireRole p = wireRole q \<and> wireTurnId p = wireTurnId q) (messageOf x) (messageOf y)"

lemma same_end_refl: "same_end x x"
  by (cases "messageOf x") (auto simp: same_end_def)

lemma same_end_adjoin: "same_end x y \<Longrightarrow> chunks_adjoin i u y z \<Longrightarrow> chunks_adjoin i u x z"
  unfolding same_end_def chunks_adjoin_def message_in_def
  by (cases "messageOf x"; cases "messageOf y") (auto split: option.splits if_splits)

definition end_matches :: "domain_event list \<Rightarrow> domain_event list \<Rightarrow> bool" where
  "end_matches acc es \<longleftrightarrow> (acc = [] \<longleftrightarrow> es = []) \<and> (acc \<noteq> [] \<longrightarrow> same_end (last acc) (last es))"

lemma merged_end:
  "messageOf ev = Some (j, q) \<Longrightarrow>
     same_end (ev\<lparr>evBody := ForStore (OnThread (ThreadEvent j (MessageSent (mergePayload p q))))\<rparr>) ev"
  by (simp add: same_end_def messageOf_def)

text \<open>One round: either the event is appended or it is merged into the last one.\<close>

lemma coalesceRound_cases:
  obtains "coalesceRound acc ev = acc @ [ev]"
  | init x i p q where "acc = init @ [x]" "messageOf x = Some (i, p)" "messageOf ev = Some (i, q)" "wireId p = wireId q"
    "coalesceRound acc ev = init @ [ev\<lparr>evBody := ForStore (OnThread (ThreadEvent i (MessageSent (mergePayload p q))))\<rparr>]"
proof (cases "acc = []")
  case True
  then show ?thesis using that(1) by (simp add: coalesceRound_def last_elem_def)
next
  case False
  then obtain init x where acc: "acc = init @ [x]" by (metis rev_exhaust)
  show ?thesis
  proof (cases "messageOf x")
    case None
    with acc that(1) show ?thesis by (simp add: coalesceRound_def last_elem_def)
  next
    case (Some ip)
    obtain i p where ip: "ip = (i, p)" by (cases ip)
    show ?thesis
    proof (cases "messageOf ev")
      case None
      with acc Some ip that(1) show ?thesis by (simp add: coalesceRound_def last_elem_def)
    next
      case (Some jq)
      obtain j q where jq: "jq = (j, q)" by (cases jq)
      show ?thesis
        using acc \<open>messageOf x = Some ip\<close> ip Some jq that
        by (cases "i = j \<and> wireId p = wireId q") (auto simp: coalesceRound_def last_elem_def)
    qed
  qed
qed

lemma round_end: "end_matches (coalesceRound acc ev) (es @ [ev])"
  by (rule coalesceRound_cases [of acc ev]) (auto simp: end_matches_def same_end_refl merged_end)

lemma view_step_message:
  "messageOf ev = Some (j, p) \<Longrightarrow> view_step i ev = (if j = i then view_event (MessageSent p) else id)"
  by (simp add: messageOf_Some view_step_def del: view_event.simps)

lemma round_view:
  assumes "list_all (followed i u) acc" "followed i u ev" "acc \<noteq> [] \<longrightarrow> chunks_adjoin i u (last acc) ev"
  shows "list_all (followed i u) (coalesceRound acc ev) \<and>
    fold (view_step i) (coalesceRound acc ev) v = view_step i ev (fold (view_step i) acc v)"
proof (rule coalesceRound_cases [of acc ev])
  assume "coalesceRound acc ev = acc @ [ev]"
  with assms show ?thesis by simp
next
  fix init x j p q
  let ?m = "ev\<lparr>evBody := ForStore (OnThread (ThreadEvent j (MessageSent (mergePayload p q))))\<rparr>"
  assume acc: "acc = init @ [x]" and x: "messageOf x = Some (j, p)" and q: "messageOf ev = Some (j, q)"
    and id: "wireId p = wireId q" and r: "coalesceRound acc ev = init @ [?m]"
  have m: "messageOf ?m = Some (j, mergePayload p q)" by (simp add: messageOf_Some)
  have f: "followed i u ?m" using assms(2) q by (simp add: followed_def messageOf_Some)
  have "view_step i ?m w = view_step i ev (view_step i x w)" for w
  proof (cases "j = i")
    case True
    with assms(2) q have "wireId q = u" by (simp add: followed_def messageOf_Some)
    with assms(3) acc x q id True
    have "wireStreaming p \<and> wireStreaming q \<and> wireRole p = wireRole q \<and> wireTurnId p = wireTurnId q"
      by (simp add: chunks_adjoin_def message_in_def)
    with True merge_chunks [of p q w] show ?thesis
      unfolding view_step_message [OF m] view_step_message [OF x] view_step_message [OF q]
      by (simp del: view_event.simps)
  qed (simp add: view_step_message [OF m] view_step_message [OF x] view_step_message [OF q])
  with f acc r assms(1) show ?thesis by simp
qed

lemma coalesce_rounds:
  "list_all (followed i u) es \<Longrightarrow> successively (chunks_adjoin i u) es \<Longrightarrow>
     list_all (followed i u) (foldl coalesceRound [] es) \<and> end_matches (foldl coalesceRound [] es) es \<and>
     fold (view_step i) (foldl coalesceRound [] es) v = fold (view_step i) es v"
proof (induction es rule: rev_induct)
  case (snoc ev es)
  let ?acc = "foldl coalesceRound [] es"
  from snoc have IH: "list_all (followed i u) ?acc" "end_matches ?acc es"
    "fold (view_step i) ?acc v = fold (view_step i) es v"
    by (simp_all add: successively_append_iff)
  have "chunks_adjoin i u (last ?acc) ev" if "?acc \<noteq> []"
    using that IH(2) snoc.prems(2) same_end_adjoin
    by (auto simp: end_matches_def successively_append_iff)
  with round_view [OF IH(1), of ev v] snoc.prems(1) IH(3) round_end [of ?acc ev es] show ?case by simp
qed (simp add: end_matches_def)

lemma coalesce_view:
  assumes "list_all (followed i u) es" "successively (chunks_adjoin i u) es"
  shows "list_all (followed i u) (coalesceOrchestrationUiEvents es)"
    "fold (view_step i) (coalesceOrchestrationUiEvents es) v = fold (view_step i) es v"
  using coalesce_rounds [OF assms, of v] assms by (simp_all add: coalesceOrchestrationUiEvents_def)

section \<open>Batches and the store\<close>

definition hand_over :: "host \<Rightarrow> dates \<Rightarrow> client_store \<Rightarrow> domain_event list \<Rightarrow> client_store" where
  "hand_over h d st b = client_step h d st (EventsHotPath (storeEvents (coalesceOrchestrationUiEvents b)))"

lemma hand_over_world:
  assumes "store_ok (clientThreads st)" "list_all ev_ok b"
  shows "store_ok (clientThreads (hand_over h d st b)) \<and>
    world (hand_over h d st b) =
      fold (spec_client_event h) (storeEvents (coalesceOrchestrationUiEvents b)) (world st)"
  using effect_step [OF assms(1), of "EventsHotPath (storeEvents (coalesceOrchestrationUiEvents b))" h d] assms(2)
  by (simp add: hand_over_def client_step_eq storeEvents_ok sound_feed.coalesce_ok)

lemma view_batches:
  assumes "store_ok (clientThreads st)" "list_all (list_all ev_ok) bs" "view_of i u (world st) = Some v"
    "list_all (list_all (followed i u)) bs" "list_all (successively (chunks_adjoin i u)) bs"
  shows "view_of i u (world (foldl (hand_over h d) st bs)) = Some (fold (view_step i) (concat bs) v)"
  using assms
proof (induction bs arbitrary: st v)
  case (Cons b bs)
  then have b: "list_all ev_ok b" "list_all (followed i u) b" "successively (chunks_adjoin i u) b" by simp_all
  from hand_over_world [OF Cons.prems(1) b(1), of h d]
  have st: "store_ok (clientThreads (hand_over h d st b))"
    "world (hand_over h d st b) = fold (spec_client_event h) (storeEvents (coalesceOrchestrationUiEvents b)) (world st)"
    by simp_all
  have "view_of i u (world (hand_over h d st b)) = Some (fold (view_step i) b v)"
    unfolding st(2) view_run [OF Cons.prems(3) coalesce_view(1) [OF b(2,3)]] coalesce_view(2) [OF b(2,3)] ..
  from Cons.IH [OF st(1) _ this] Cons.prems show ?case by simp
qed simp

section \<open>Pushed events\<close>

text \<open>Runs in which only pushed events arrive and the timer fires.\<close>

fun pushes_only :: "router_input \<Rightarrow> bool" where
  "pushes_only (DomainEventItem ev) = True"
| "pushes_only FlushTimerFires = True"
| "pushes_only _ = False"

fun pushed_events :: "router_input list \<Rightarrow> domain_event list" where
  "pushed_events [] = []"
| "pushed_events (DomainEventItem ev # xs) = ev # pushed_events xs"
| "pushed_events (_ # xs) = pushed_events xs"

definition hands :: "host \<Rightarrow> dates \<Rightarrow> router \<Rightarrow> domain_event list \<Rightarrow> router \<Rightarrow> bool" where
  "hands h d r es r' \<longleftrightarrow> (\<exists>bs. concat bs @ pendingDomainEvents r' = pendingDomainEvents r @ es \<and>
     routerStore r' = foldl (hand_over h d) (routerStore r) bs \<and> routerDisposed r' = routerDisposed r)"

lemma hands_trans: "hands h d r es r' \<Longrightarrow> hands h d r' fs r'' \<Longrightarrow> hands h d r (es @ fs) r''"
proof -
  assume "hands h d r es r'" "hands h d r' fs r''"
  then obtain bs cs where b: "concat bs @ pendingDomainEvents r' = pendingDomainEvents r @ es"
      "routerStore r' = foldl (hand_over h d) (routerStore r) bs" "routerDisposed r' = routerDisposed r"
    and c: "concat cs @ pendingDomainEvents r'' = pendingDomainEvents r' @ fs"
      "routerStore r'' = foldl (hand_over h d) (routerStore r') cs" "routerDisposed r'' = routerDisposed r'"
    by (auto simp: hands_def)
  have "concat (bs @ cs) @ pendingDomainEvents r'' = concat bs @ (concat cs @ pendingDomainEvents r'')" by simp
  also have "\<dots> = pendingDomainEvents r @ (es @ fs)" using b(1) c(1) by (metis append.assoc)
  finally show ?thesis unfolding hands_def using b c by (intro exI [of _ "bs @ cs"]) simp
qed

lemma hands_flush: "hands h d r [] (flushPendingDomainEvents h d r)"
proof (cases "pendingDomainEvents r = []")
  case True
  then show ?thesis by (auto simp: hands_def flushPendingDomainEvents_def intro!: exI [of _ "[]"])
next
  case False
  then show ?thesis
    by (auto simp: hands_def flushPendingDomainEvents_def toStore_def hand_over_def
        intro!: exI [of _ "[pendingDomainEvents r]"])
qed

lemma hands_queue: "hands h d r [ev] (queueDomainEvent h d ev r)"
proof -
  obtain b ids where f: "shouldFlushDomainEventImmediately ev (flushedAssistantIds r) = (b, ids)"
    by (cases "shouldFlushDomainEventImmediately ev (flushedAssistantIds r)")
  have q: "hands h d r [ev] (r\<lparr>pendingDomainEvents := pendingDomainEvents r @ [ev],
      flushedAssistantIds := ids, flushTimer := c\<rparr>)" for c
    by (auto simp: hands_def intro!: exI [of _ "[]"])
  show ?thesis
    using f q hands_trans [OF q [of False] hands_flush] by (simp add: queueDomainEvent_def Let_def)
qed

lemma hands_same: "routerStore r' = routerStore r \<Longrightarrow> pendingDomainEvents r' = pendingDomainEvents r \<Longrightarrow>
    routerDisposed r' = routerDisposed r \<Longrightarrow> hands h d r [] r'"
  by (auto simp: hands_def intro!: exI [of _ "[]"])

lemma hands_timer: "hands h d r [] (router_step h d r FlushTimerFires)"
  using hands_trans [OF hands_same [of "r\<lparr>flushTimer := False\<rparr>" r] hands_flush] hands_same [of r r] by simp

lemma hands_run:
  "\<not> routerDisposed r \<Longrightarrow> list_all pushes_only xs \<Longrightarrow>
     hands h d r (pushed_events xs) (run_actions (router_step h d) r xs)"
proof (induction xs arbitrary: r)
  case (Cons x xs)
  have step: "hands h d r (pushed_events [x]) (router_step h d r x)"
    using Cons.prems hands_queue hands_timer by (cases x) simp_all
  then have "\<not> routerDisposed (router_step h d r x)" using Cons.prems(1) by (auto simp: hands_def)
  from hands_trans [OF step Cons.IH [OF this]] Cons.prems(2) show ?case by (cases x) simp_all
qed (simp add: hands_same)

end
