(* ===== verification/RouterOrder.thy ===== *)
theory RouterOrder
  imports RouterInvariant
begin

text \<open>
  The sequenced events of a thread: what the router hands to the store of them, and in which order.
\<close>

text \<open>The events queued so far, handed over or waiting.\<close>

definition queued :: "router \<Rightarrow> domain_event list" where
  "queued r = concat (handedBatches r) @ pendingDomainEvents r"

definition events_of :: "string \<Rightarrow> router \<Rightarrow> domain_event list" where
  "events_of i r = filter (\<lambda>ev. evAggregateId ev = i) (queued r)"

definition in_order :: "string \<Rightarrow> router \<Rightarrow> bool" where
  "in_order i r \<longleftrightarrow> sorted_wrt (<) (map evSequence (events_of i r)) \<and>
     (\<forall>ev\<in>set (events_of i r). \<exists>n. rec_get (threadSequences r) i = Some n \<and> evSequence ev \<le> n)"

lemma in_order_cong:
  "in_order i r \<Longrightarrow> events_of i r' = events_of i r \<Longrightarrow>
     rec_get (threadSequences r') i = rec_get (threadSequences r) i \<Longrightarrow> in_order i r'"
  by (simp add: in_order_def)

text \<open>Steps that queue nothing and leave the sequences and the buffers of the threads alone.\<close>

definition silent :: "router \<Rightarrow> router \<Rightarrow> bool" where
  "silent r r' \<longleftrightarrow> queued r' = queued r \<and> threadSequences r' = threadSequences r \<and>
     pendingThreadEvents r' = pendingThreadEvents r"

lemma silent_refl [simp]: "silent r r"
  by (simp add: silent_def)

lemma silent_trans: "silent r r' \<Longrightarrow> silent r' r'' \<Longrightarrow> silent r r''"
  by (simp add: silent_def)

lemma silent_order: "silent r r' \<Longrightarrow> in_order i r \<Longrightarrow> in_order i r'"
  by (simp add: silent_def in_order_def events_of_def)

lemma silent_fold: "(\<And>x r. silent r (f x r)) \<Longrightarrow> silent r (fold f xs r)"
proof (induction xs arbitrary: r)
  case (Cons x xs)
  from Cons.prems [of r x] Cons.IH [of "f x r"] Cons.prems silent_trans show ?case by simp blast
qed simp

lemma silent_callNative [simp]: "silent r (callNative c r)"
  by (simp add: silent_def callNative_def queued_def)

lemma silent_toStore [simp]: "silent r (toStore h d a r)"
  by (simp add: silent_def toStore_def queued_def)

lemma silent_flush: "silent r (flushPendingDomainEvents h d r)"
  by (simp add: silent_def flushPendingDomainEvents_def toStore_def queued_def)

lemma silent_request: "silent r (requestThreadSnapshot i r)"
  by (simp add: requestThreadSnapshot_def silent_def callNative_def queued_def)

lemma silent_replay: "silent r (replayThreadEvents i target r)"
  by (auto simp: replayThreadEvents_def silent_def callNative_def queued_def split: option.split)

lemma silent_flushShell: "silent r (flushShellBuffer h d s r)"
proof -
  have "silent (r\<lparr>pendingShellEvents := []\<rparr>) (fold (applyPendingShell h d) es (r\<lparr>pendingShellEvents := []\<rparr>))" for es
    by (rule silent_fold) (simp add: silent_def applyPendingShell_def toStore_def queued_def)
  then show ?thesis by (simp add: flushShellBuffer_def silent_def queued_def)
qed

lemma silent_shellSnapshot: "silent r (shellSnapshotArrived h d s ts ps r)"
  using silent_flushShell [of "toStore h d (SyncShellSnapshot ts ps) (r\<lparr>shellSnapshotSequence := int s\<rparr>)" h d s]
  by (simp add: shellSnapshotArrived_def silent_def toStore_def queued_def)

lemma silent_shellEvent: "silent r (shellEventArrived h d s e r)"
proof -
  let ?r = "toStore h d (ShellEvent e) (r\<lparr>shellSnapshotSequence := int s\<rparr>)"
  have "silent r ?r" by (simp add: silent_def toStore_def queued_def)
  moreover have "silent ?r (replayThreadEvents i n (requestThreadSnapshot i ?r))" "silent ?r (replayThreadEvents i n ?r)" for i n
    using silent_replay silent_request silent_trans by blast+
  ultimately show ?thesis
    unfolding shellEventArrived_def Let_def using silent_trans
    by (auto simp: silent_def queued_def split: shell_event.split)
qed

lemma silent_catchup: "silent r (catchupRound i r)"
  by (simp add: catchupRound_def silent_request silent_replay)

lemma silent_dispose: "silent r (disposeRouter h d r)"
proof -
  let ?r = "(flushPendingDomainEvents h d r)\<lparr>routerDisposed := True, flushTimer := False\<rparr>"
  have "silent r ?r" using silent_flush [of r h d] by (simp add: silent_def queued_def)
  moreover have "silent ?r (callNative CallUnsubscribeShell ?r)" by simp
  moreover have "silent x (fold (\<lambda>i. callNative (CallUnsubscribeThread i)) is x)" for "is" x
    by (rule silent_fold) simp
  ultimately show ?thesis unfolding disposeRouter_def Let_def using silent_trans by blast
qed

section \<open>Queueing\<close>

lemma queue_effect:
  "queued (queueDomainEvent h d ev r) = queued r @ [ev]" "threadSequences (queueDomainEvent h d ev r) = threadSequences r"
proof -
  have "silent r' (flushPendingDomainEvents h d r')" for r' by (rule silent_flush)
  then show "queued (queueDomainEvent h d ev r) = queued r @ [ev]"
    "threadSequences (queueDomainEvent h d ev r) = threadSequences r"
    by (auto simp: queueDomainEvent_def Let_def silent_def queued_def split: prod.split)
qed

text \<open>An event of a thread, newer than its last one, is queued with its sequence noted.\<close>

abbreviation noted :: "domain_event \<Rightarrow> router \<Rightarrow> router" where
  "noted ev r \<equiv> r\<lparr>threadSequences := rec_set (evAggregateId ev) (evSequence ev) (threadSequences r)\<rparr>"

lemma order_queue:
  assumes "in_order i r" "\<And>n. rec_get (threadSequences r) (evAggregateId ev) = Some n \<Longrightarrow> n < evSequence ev"
  shows "in_order i (queueDomainEvent h d ev (noted ev r))"
proof (cases "evAggregateId ev = i")
  case True
  have "evSequence e < evSequence ev" if e: "e \<in> set (events_of i r)" for e
  proof -
    obtain n where "rec_get (threadSequences r) i = Some n" "evSequence e \<le> n"
      using assms(1) e by (auto simp: in_order_def)
    with assms(2) [of n] True show ?thesis by simp
  qed
  moreover have "events_of i (queueDomainEvent h d ev (noted ev r)) = events_of i r @ [ev]"
    using True by (simp add: events_of_def queue_effect) (simp add: queued_def)
  ultimately show ?thesis
    using assms(1) True by (auto simp: in_order_def queue_effect rec_get_set sorted_wrt_append less_imp_le)
next
  case False
  then have "events_of i (queueDomainEvent h d ev (noted ev r)) = events_of i r"
    by (simp add: events_of_def queue_effect) (simp add: queued_def)
  with assms(1) False show ?thesis by (simp add: in_order_def queue_effect rec_get_set)
qed

lemma order_other:
  "in_order i r \<Longrightarrow> evAggregateId ev \<noteq> i \<Longrightarrow> in_order i (queueDomainEvent h d ev r)"
  by (simp add: in_order_def events_of_def queue_effect)

definition buffers_own :: "router \<Rightarrow> bool" where
  "buffers_own r \<longleftrightarrow> (\<forall>e\<in>set (pendingThreadEvents r). \<forall>ev\<in>set (snd e). evAggregateId ev = fst e)"

lemma queue_buffers: "pendingThreadEvents (queueDomainEvent h d ev r) = pendingThreadEvents r"
  by (auto simp: queueDomainEvent_def flushPendingDomainEvents_def toStore_def Let_def split: prod.split)

text \<open>The loop over buffered events: \<open>latest\<close> is the sequence of the thread.\<close>

lemma order_queueNewers:
  assumes "in_order i r" "\<forall>ev\<in>set es. evAggregateId ev = j" "rec_get (threadSequences r) j = Some n"
  shows "in_order i (snd (fold (queueNewer h d j) es (n, r))) \<and>
    pendingThreadEvents (snd (fold (queueNewer h d j) es (n, r))) = pendingThreadEvents r"
  using assms
proof (induction es arbitrary: n r)
  case (Cons ev es)
  show ?case
  proof (cases "evSequence ev > n")
    case True
    let ?r = "queueDomainEvent h d ev (noted ev r)"
    have j: "evAggregateId ev = j" using Cons.prems(2) by simp
    have "in_order i ?r" using Cons.prems True j by (intro order_queue) auto
    moreover have "rec_get (threadSequences ?r) j = Some (evSequence ev)" by (simp add: queue_effect rec_get_set j)
    moreover have "queueNewer h d j ev (n, r) = (evSequence ev, ?r)" using True j by (simp add: queueNewer_def)
    ultimately show ?thesis using Cons.IH [of ?r "evSequence ev"] Cons.prems(2) by (simp add: queue_buffers)
  next
    case False
    with Cons show ?thesis by (simp add: queueNewer_def)
  qed
qed simp

lemma order_flushThreadBuffer:
  assumes "in_order i r" "buffers_own r" "rec_get (threadSequences r) j = Some n"
  shows "in_order i (flushThreadBuffer h d j s r) \<and> buffers_own (flushThreadBuffer h d j s r)"
proof -
  let ?es = "nullish (rec_get (pendingThreadEvents r) j) []" and ?r = "r\<lparr>pendingThreadEvents := rec_delete j (pendingThreadEvents r)\<rparr>"
  have "\<forall>ev\<in>set (bySequence ?es). evAggregateId ev = j"
    using assms(2) by (cases "rec_get (pendingThreadEvents r) j")
      (auto simp: buffers_own_def bySequence_def sort_cmp_def dest!: map_of_SomeD)
  moreover have "in_order i ?r" using assms(1) by (simp add: in_order_def events_of_def queued_def)
  ultimately have "in_order i (flushThreadBuffer h d j s r)"
    "pendingThreadEvents (flushThreadBuffer h d j s r) = rec_delete j (pendingThreadEvents r)"
    using order_queueNewers [of i ?r "bySequence ?es" j n h d] assms(3)
    by (simp_all add: flushThreadBuffer_def Let_def)
  with assms(2) show ?thesis by (auto simp: buffers_own_def rec_delete_def)
qed

lemma order_replays:
  assumes "in_order i r" "\<forall>ev\<in>set es. evAggregateId ev = j"
  shows "in_order i (fold (replayRound h d j n) es r) \<and>
    pendingThreadEvents (fold (replayRound h d j n) es r) = pendingThreadEvents r"
  using assms
proof (induction es arbitrary: r)
  case (Cons ev es)
  have j: "evAggregateId ev = j" using Cons.prems(2) by simp
  show ?case
  proof (cases "evSequence ev \<le> nullish (rec_get (threadSequences r) j) n")
    case True
    with Cons show ?thesis by (simp add: replayRound_def)
  next
    case False
    let ?r = "queueDomainEvent h d ev (noted ev r)"
    have "in_order i ?r" using Cons.prems(1) False j by (intro order_queue) auto
    moreover have "replayRound h d j n ev r = ?r" using False j by (simp add: replayRound_def)
    ultimately show ?thesis using Cons.IH [of ?r] Cons.prems(2) by (simp add: queue_buffers)
  qed
qed simp

section \<open>Runs\<close>

text \<open>
  The subscription of the thread goes on: it is neither opened nor closed, no older snapshot of it
  comes, and none of its events comes past the sequences.
\<close>

definition subscription_kept :: "string \<Rightarrow> router \<Rightarrow> router_input \<Rightarrow> bool" where
  "subscription_kept i r x \<longleftrightarrow> (case x of
     Welcome \<Rightarrow> False
   | DomainEventItem ev \<Rightarrow> evAggregateId ev \<noteq> i
   | ThreadSnapshotItem s t \<Rightarrow> shId t = i \<longrightarrow>
       (case rec_get (threadSequences r) i of None \<Rightarrow> True | Some n \<Rightarrow> n \<le> s)
   | ReconcileContinues \<Rightarrow>
       rec_get (threadSequences (reconcileContinues r)) i = rec_get (threadSequences r) i
   | _ \<Rightarrow> True)"

definition order_inv :: "string \<Rightarrow> router \<Rightarrow> bool" where
  "order_inv i r \<longleftrightarrow> in_order i r \<and> buffers_own r"

lemma silent_inv: "silent r r' \<Longrightarrow> order_inv i r \<Longrightarrow> order_inv i r'"
  by (auto simp: order_inv_def buffers_own_def silent_def dest: silent_order)
    (simp add: in_order_def events_of_def)

text \<open>Opening and closing subscriptions queues nothing and leaves every buffer with its own events.\<close>

definition keeps_buffers :: "router \<Rightarrow> router \<Rightarrow> bool" where
  "keeps_buffers r r' \<longleftrightarrow> queued r' = queued r \<and> (buffers_own r \<longrightarrow> buffers_own r')"

lemma keeps_fold: "(\<And>x r. keeps_buffers r (f x r)) \<Longrightarrow> keeps_buffers r (fold f xs r)"
proof (induction xs arbitrary: r)
  case (Cons x xs)
  from Cons.prems [of r x] Cons.IH [of "f x r"] Cons.prems show ?case by (simp add: keeps_buffers_def)
qed (simp add: keeps_buffers_def)

lemma keeps_start: "keeps_buffers r (startSubscription i r)"
  by (auto simp: keeps_buffers_def startSubscription_def beginThreadSubscription_def Let_def queued_def
      buffers_own_def dest!: rec_set_mem)

lemma keeps_end: "keeps_buffers r (endSubscription i r)"
  by (auto simp: keeps_buffers_def endSubscription_def queued_def buffers_own_def rec_delete_def)

lemma keeps_call: "keeps_buffers r (callNative c r)"
  by (simp add: keeps_buffers_def callNative_def queued_def buffers_own_def)

lemma keeps_trans: "keeps_buffers r r' \<Longrightarrow> keeps_buffers r' r'' \<Longrightarrow> keeps_buffers r r''"
  by (simp add: keeps_buffers_def)

lemma keeps_stage: "keeps_buffers r r' \<Longrightarrow> keeps_buffers r (r'\<lparr>reconcileStage := s\<rparr>)"
  by (simp add: keeps_buffers_def queued_def buffers_own_def)

lemma keeps_queue: "keeps_buffers (r\<lparr>reconcileQueue := q\<rparr>) r' \<Longrightarrow> keeps_buffers r r'"
  by (simp add: keeps_buffers_def queued_def buffers_own_def)

lemma keeps_reconcile: "keeps_buffers r (reconcileContinues r)"
proof (cases "reconcileStage r")
  case ReconcileIdle
  have "keeps_buffers r (reconcileStart ids r)" for ids and r :: router
    unfolding reconcileStart_def Let_def
    by (intro keeps_stage keeps_trans [OF keeps_fold keeps_fold] keeps_start keeps_call)
  then have "keeps_buffers r (reconcileStart ids (r\<lparr>reconcileQueue := q\<rparr>))" for ids q
    by (rule keeps_queue)
  with ReconcileIdle show ?thesis
    by (auto simp: reconcileContinues_def keeps_buffers_def split: list.split)
next
  case (AwaitSubscribed removals)
  have "keeps_buffers r (reconcileEnd removals r)"
    unfolding reconcileEnd_def by (intro keeps_stage keeps_trans [OF keeps_fold keeps_fold] keeps_end keeps_call)
  with AwaitSubscribed show ?thesis by (simp add: reconcileContinues_def)
qed (simp add: reconcileContinues_def keeps_buffers_def queued_def buffers_own_def)

lemma inv_threadEvent: "order_inv i r \<Longrightarrow> order_inv i (threadEventArrived h d ev r)"
proof (cases "rec_get (threadSequences r) (evAggregateId ev)")
  case None
  assume inv: "order_inv i r"
  let ?r = "r\<lparr>pendingThreadEvents := rec_set (evAggregateId ev) (appendBounded
      (nullish (rec_get (pendingThreadEvents r) (evAggregateId ev)) []) ev PENDING_THREAD_EVENT_BUFFER_LIMIT)
      (pendingThreadEvents r)\<rparr>"
  let ?es = "nullish (rec_get (pendingThreadEvents r) (evAggregateId ev)) []"
  have "\<forall>e\<in>set ?es. evAggregateId e = evAggregateId ev"
    using inv by (cases "rec_get (pendingThreadEvents r) (evAggregateId ev)")
      (auto simp: order_inv_def buffers_own_def dest!: map_of_SomeD)
  then have "list_all (\<lambda>e. evAggregateId e = evAggregateId ev) (appendBounded ?es ev PENDING_THREAD_EVENT_BUFFER_LIMIT)"
    by (intro appendBounded_all) (simp_all add: list_all_iff)
  with inv have "order_inv i ?r"
    by (auto simp: order_inv_def buffers_own_def in_order_def events_of_def queued_def list_all_iff dest!: rec_set_mem)
  with None silent_inv [OF silent_request] show ?thesis by (simp add: threadEventArrived_def Let_def)
next
  case (Some n)
  assume inv: "order_inv i r"
  show ?thesis
  proof (cases "evSequence ev \<le> n")
    case False
    with inv Some have "in_order i (queueDomainEvent h d ev (noted ev r))"
      by (intro order_queue) (auto simp: order_inv_def)
    with inv Some False show ?thesis
      by (simp add: threadEventArrived_def order_inv_def buffers_own_def queue_buffers)
  qed (use inv Some in \<open>simp add: threadEventArrived_def\<close>)
qed

lemma inv_threadSnapshot:
  assumes "order_inv i r" "shId t = i \<longrightarrow> (case rec_get (threadSequences r) i of None \<Rightarrow> True | Some n \<Rightarrow> n \<le> s)"
  shows "order_inv i (threadSnapshotArrived h d s t r)"
proof -
  let ?r = "toStore h d (SyncThreadDetailHotPath t) (r\<lparr>threadSequences := rec_set (shId t) s (threadSequences r),
      snapshotRequests := removeAll (shId t) (snapshotRequests r)\<rparr>)"
  have ev: "events_of i ?r = events_of i r" by (simp add: events_of_def queued_def toStore_def)
  have sq: "threadSequences ?r = rec_set (shId t) s (threadSequences r)" by (simp add: toStore_def)
  have old: "in_order i r" using assms(1) by (simp add: order_inv_def)
  have "\<exists>n. rec_get (threadSequences ?r) i = Some n \<and> evSequence e \<le> n" if e: "e \<in> set (events_of i r)" for e
  proof -
    obtain n where n: "rec_get (threadSequences r) i = Some n" "evSequence e \<le> n"
      using old e by (auto simp: in_order_def)
    with assms(2) show ?thesis by (cases "shId t = i") (auto simp: sq rec_get_set)
  qed
  with old ev have "in_order i ?r" unfolding in_order_def by simp
  moreover have "buffers_own ?r" using assms(1) by (simp add: order_inv_def buffers_own_def toStore_def)
  moreover have "rec_get (threadSequences ?r) (shId t) = Some s" by (simp add: toStore_def rec_get_set)
  ultimately show ?thesis
    using order_flushThreadBuffer [of i ?r "shId t" s h d s]
    by (simp add: threadSnapshotArrived_def Let_def order_inv_def)
qed

lemma inv_replaySettled: "order_inv i r \<Longrightarrow> order_inv i (replaySettled h d n answer r)"
proof (cases "list_get (replays r) n")
  case (Some p)
  assume inv: "order_inv i r"
  let ?r = "r\<lparr>replays := take n (replays r) @ drop (Suc n) (replays r)\<rparr>"
  let ?es = "bySequence (filter (\<lambda>ev. isThreadDetailEventForThread (replayThread p) ev \<and>
      (case replayTarget p of None \<Rightarrow> True | Some s \<Rightarrow> evSequence ev \<le> s)) (nullish answer []))"
  have "\<forall>ev\<in>set ?es. evAggregateId ev = replayThread p"
    by (simp add: bySequence_def sort_cmp_def isThreadDetailEventForThread_def)
  moreover have "in_order i ?r" using inv by (simp add: order_inv_def in_order_def events_of_def queued_def)
  ultimately have "in_order i (fold (replayRound h d (replayThread p) (replayFrom p)) ?es ?r)"
    "pendingThreadEvents (fold (replayRound h d (replayThread p) (replayFrom p)) ?es ?r) = pendingThreadEvents r"
    using order_replays [of i ?r ?es "replayThread p" h d "replayFrom p"] by simp_all
  with Some inv show ?thesis
    by (simp add: replaySettled_def Let_def order_inv_def in_order_def events_of_def queued_def buffers_own_def)
qed (simp add: replaySettled_def)

lemma inv_reconcile:
  assumes "order_inv i r" "rec_get (threadSequences (reconcileContinues r)) i = rec_get (threadSequences r) i"
  shows "order_inv i (reconcileContinues r)"
  using assms keeps_reconcile [of r]
  by (simp add: order_inv_def keeps_buffers_def in_order_def events_of_def)

lemma silent_local:
  "silent r (r\<lparr>snapshotRequests := m\<rparr>)" "silent r (enqueueThreadSubscriptionReconcile ids r)"
  "silent r (flushPendingDomainEvents h d (r\<lparr>flushTimer := False\<rparr>))"
  "silent r (shellQueryAnswered h d s ts ps r)"
  using silent_flush [of "r\<lparr>flushTimer := False\<rparr>" h d] silent_shellSnapshot [of r]
  by (simp_all add: silent_def queued_def enqueueThreadSubscriptionReconcile_def shellQueryAnswered_def)

lemma order_step:
  assumes "order_inv i r" "subscription_kept i r x"
  shows "order_inv i (router_step h d r x)"
proof (cases x)
  case (DomainEventItem ev)
  with assms order_other [of i r ev h d] show ?thesis
    by (simp add: order_inv_def subscription_kept_def buffers_own_def queue_buffers)
next
  case CatchupTick
  have "silent r (fold catchupRound (routedThreads r) r)" by (rule silent_fold) (rule silent_catchup)
  with CatchupTick assms(1) silent_inv show ?thesis by (auto simp: CatchupTick)
next
  case (ThreadSnapshotItem s t)
  with assms inv_threadSnapshot show ?thesis by (simp add: subscription_kept_def)
next
  case ReconcileContinues
  with assms inv_reconcile show ?thesis by (simp add: subscription_kept_def)
qed (use assms silent_inv [OF _ assms(1)] silent_shellSnapshot silent_shellEvent silent_dispose silent_local
    in \<open>auto simp: subscription_kept_def inv_threadEvent inv_replaySettled\<close>)

interpretation ordered: invariant_store "router_step h d" "subscription_kept i" "order_inv i" for h d i
  by unfold_locales (rule order_step)

end
