(* ===== verification/RouterProperties.thy ===== *)
theory RouterProperties
  imports RouterView RouterOrder PushProperties
begin

text \<open>
  What the event router promises, alone and together with the push adapter and the client store:
  soundness of the store and bounded buffers, sequenced events once and in order, batches that show
  what their events show, turns that stream to their end; and where it falls short.
\<close>

text \<open>C4: Whatever arrives, in whatever order and however the answers interleave, no buffer of the router
  outgrows its limit, no thread is subscribed twice, events that wait are waited for by the timer of the
  next flush, and the store behind it lists exactly the threads it has a shell of, once each and under
  their own ids, and has nothing left of the others; the store the router starts with is
  such a store, of sound threads. When in addition what arrives is well-formed (the
  answers and snapshots name no thread twice, a detail carries distinct ids of messages, plans and diffs,
  and a detail or an update of a thread's meta data holds one pin per message and no overlapping markers),
  every thread of the store is sound too, and so is every event that waits.\<close>

theorem router_runs_sound:
  assumes "store_ok (clientThreads st)" "tidy (clientThreads st)"
  shows "router_keeps tidy (\<lambda>_. True) (run_actions (router_step h d) (initialRouter st) xs) \<and>
    (list_all input_ok xs \<longrightarrow> router_ok (run_actions (router_step h d) (initialRouter st) xs))"
proof -
  have "router_keeps tidy (\<lambda>_. True) (initialRouter st)" "router_ok (initialRouter st)"
    using assms by (simp_all add: initialRouter_def router_keeps_def)
  with routed.run_inv [of "initialRouter st" h d xs] routed_tidily.run_inv [of "initialRouter st" h d xs]
  show ?thesis by (simp add: admissible_all list.pred_True)
qed

definition sampleEvent :: "nat \<Rightarrow> thread_event \<Rightarrow> domain_event" where
  "sampleEvent n e = threadEvent n ''2026'' ''t'' e"

lemma sampleEvent_ok: "event_ok e \<Longrightarrow> ev_ok (sampleEvent n e)"
  by (simp add: sampleEvent_def ev_ok_def)

lemma plainDetail_ok: "detail_ok sampleDetail"
  using sampleActions_ok by (simp add: sampleActions_def plain_action_def)

definition sampleInputs :: "router_input list" where
  "sampleInputs = [SubscribeThreads [''t''], ReconcileContinues, ShellSnapshotItem 3 [sampleShell ''t'' ''p''] [],
     ThreadEventItem (sampleEvent 9 (MessageSent newMessage)), ThreadSnapshotItem 7 sampleDetail,
     DomainEventItem (sampleEvent 1 (Unarchived None ''2027'')), CatchupTick, FlushTimerFires]"

lemma sampleInputs_ok: "list_all input_ok sampleInputs"
  by (simp add: sampleInputs_def plainDetail_ok sampleEvent_ok sampleShell_def)

theorem router_runs_sound_witness:
  "router_keeps tidy (\<lambda>_. True)
     (run_actions (router_step unitHost sampleDates) (initialRouter (initialClientState emptyProjectMemory)) sampleInputs) \<and>
   router_ok (run_actions (router_step unitHost sampleDates) (initialRouter (initialClientState emptyProjectMemory)) sampleInputs)"
  using router_runs_sound [OF initial_client_ok initial_client_tidy] sampleInputs_ok by blast

text \<open>C5: While a thread stays subscribed (no older snapshot of it, none of its events on the channel without
  sequences), its events are handed to the store at most once each and in the order of their
  sequences, whether they came alone, in the buffer, or in an answer to a replay.\<close>

theorem thread_events_once:
  assumes "order_inv i r" "admissible (router_step h d) (subscription_kept i) r xs"
  shows "sorted_wrt (<) (map evSequence (events_of i (run_actions (router_step h d) r xs)))"
  using ordered.run_inv [OF assms] by (simp add: order_inv_def in_order_def)

definition subscribedRouter :: router where
  "subscribedRouter = (initialRouter (initialClientState emptyProjectMemory))
     \<lparr>threadSequences := [(''t'', 7)], routedThreads := [''t''],
      replays := [\<lparr>replayThread = ''t'', replayFrom = 7, replayTarget = None\<rparr>]\<rparr>"

lemma subscribedRouter_order: "order_inv ''t'' subscribedRouter"
  by (simp add: order_inv_def in_order_def buffers_own_def subscribedRouter_def initialRouter_def events_of_def
      queued_def)

theorem thread_events_once_witness:
  "sorted_wrt (<) (map evSequence (events_of ''t'' (run_actions (router_step unitHost sampleDates) subscribedRouter
     [ThreadEventItem (sampleEvent 9 (MessageSent newMessage)),
      ReplaySettled 0 (Some [sampleEvent 9 (MessageSent newMessage), sampleEvent 8 (MessageSent newMessage)]),
      ThreadEventItem (sampleEvent 10 (MessageSent newMessage)), FlushTimerFires])))"
  by (rule thread_events_once [OF subscribedRouter_order]) (simp add: subscription_kept_def)

text \<open>C7: Coalescing a batch does not change what it shows of a streaming message (its text, its role and whether
  it still streams), of the status of the session and of the latest turn (its id and state), compared with
  its well-formed events one by one. Of the thread, which is known, the batch may hold events of this one
  message, of the session, and those that leave messages, session and turn alone: activities, plans, pins,
  markers, answers to requests, archiving. It holds no other message of the thread and nothing that starts,
  stops, compares or takes back a turn, changes the meta data or deletes the thread; what it holds of other
  threads and of projects is free. Events of the message that follow each other directly in the batch are
  chunks of one turn and role that still stream. The threads of the store are sound before.\<close>

theorem coalescing_keeps_view:
  assumes "store_ok (clientThreads st)" "list_all ev_ok es" "getThreadFromState (clientThreads st) i \<noteq> None"
    and "list_all (followed i u) es" "successively (chunks_adjoin i u) es"
  shows "view_of i u (world (client_step h d st (EventsHotPath (storeEvents (coalesceOrchestrationUiEvents es))))) =
    view_of i u (world (client_step h d st (EventsHotPath (storeEvents es))))"
proof -
  obtain v where v: "view_of i u (world st) = Some v" using assms(3) by (auto simp: view_of_def world_def)
  have "view_of i u (world (hand_over h d st es)) = Some (fold (view_step i) es v)"
    using view_batches [of st "[es]" i u v h d] assms v by simp
  moreover have "view_of i u (world (client_step h d st (EventsHotPath (storeEvents es)))) = Some (fold (view_step i) es v)"
    using effect_step [OF assms(1), of "EventsHotPath (storeEvents es)" h d] assms(2) view_run [OF v assms(4)]
    by (simp add: client_step_eq storeEvents_ok)
  ultimately show ?thesis by (simp add: hand_over_def)
qed

definition streamedStore :: client_store where
  "streamedStore = client_step unitHost sampleDates (initialClientState emptyProjectMemory)
     (SyncShellSnapshot [sampleShell ''t'' ''p''] [])"

lemma streamedStore_step:
  "store_ok (clientThreads streamedStore) \<and>
   world streamedStore = spec_action unitHost sampleDates (SyncShellSnapshot [sampleShell ''t'' ''p''] [])
      (world (initialClientState emptyProjectMemory))"
proof -
  have "action_ok (SyncShellSnapshot [sampleShell ''t'' ''p''] [])" by simp
  from effect_step [OF initial_client_ok this, of unitHost sampleDates emptyProjectMemory] show ?thesis
    unfolding streamedStore_def client_step_eq by simp
qed

lemmas streamedStore_ok = conjunct1 [OF streamedStore_step]

lemma streamedStore_thread: "fst (world streamedStore) ''t'' = Some (shellReplaced (sampleShell ''t'' ''p'') None)"
  unfolding conjunct2 [OF streamedStore_step]
  by (simp add: world_def initialClientState_def initialAppState_def shellNamed_def sampleShell_def getThreadFromState_def)

lemma streamedStore_known: "getThreadFromState (clientThreads streamedStore) ''t'' \<noteq> None"
  using streamedStore_thread by (simp add: world_def)

theorem coalescing_keeps_view_witness:
  "view_of ''t'' ''m'' (world (client_step unitHost sampleDates streamedStore (EventsHotPath (storeEvents
      (coalesceOrchestrationUiEvents (map (\<lambda>c. sampleEvent 1 (MessageSent (chunk newMessage c))) [''He'', ''llo''])))))) =
    view_of ''t'' ''m'' (world (client_step unitHost sampleDates streamedStore (EventsHotPath (storeEvents
      (map (\<lambda>c. sampleEvent 1 (MessageSent (chunk newMessage c))) [''He'', ''llo''])))))"
  by (rule coalescing_keeps_view [OF streamedStore_ok _ streamedStore_known])
    (simp_all add: ev_ok_def followed_def sampleEvent_def newMessage_def chunks_adjoin_def message_in_def messageOf_def)

section \<open>Pushed frames\<close>

text \<open>Frames that arrive, each with its readings of the clock, and firings of the timer between them.\<close>

type_synonym push = "(string \<times> string \<times> raw_envelope) option"

definition eventFrame :: "raw_envelope \<Rightarrow> push_frame" where
  "eventFrame env = EventFrame (Some (envEventType env)) (envAggregateId env) (envData env)"

fun push_inputs :: "push list \<Rightarrow> push_context \<Rightarrow> router_input list" where
  "push_inputs [] ctx = []"
| "push_inputs (None # ps) ctx = FlushTimerFires # push_inputs ps ctx"
| "push_inputs (Some (now, later, env) # ps) ctx =
     (let (xs, ctx') = demuxOrchestration now later (eventFrame env) ctx in xs @ push_inputs ps ctx')"

definition after_pushes :: "host \<Rightarrow> dates \<Rightarrow> push list \<Rightarrow> push_context \<Rightarrow> router \<Rightarrow> router" where
  "after_pushes h d ps ctx r = run_actions (router_step h d) r (push_inputs (ps @ [None]) ctx)"

definition unstamped :: "push list \<Rightarrow> bool" where
  "unstamped ps \<longleftrightarrow> list_all (\<lambda>p. case p of None \<Rightarrow> True | Some (_, _, env) \<Rightarrow> envTimestamp env = None) ps"

lemma demux_event:
  "envTimestamp env = None \<Longrightarrow> demuxOrchestration now later (eventFrame env) ctx =
     (map DomainEventItem (fst (adaptPushEnvelope now later env ctx)), snd (adaptPushEnvelope now later env ctx))"
  by (cases env) (simp add: demuxOrchestration_def eventFrame_def case_prod_beta)

lemma pushed_events_items: "pushed_events (map DomainEventItem es @ xs) = es @ pushed_events xs"
  by (induction es) simp_all

lemma items_push: "list_all pushes_only (map DomainEventItem es)"
  by (induction es) simp_all

lemma push_inputs_pushes:
  "unstamped ps \<Longrightarrow> list_all pushes_only (push_inputs ps ctx) \<and>
     pushed_events (push_inputs ps ctx) = fst (adaptAll (cat_options ps) ctx)"
proof (induction ps arbitrary: ctx)
  case (Cons p ps)
  from Cons.prems have ps: "unstamped ps" by (simp add: unstamped_def)
  show ?case
  proof (cases p)
    case None
    with Cons.IH [OF ps] show ?thesis by simp
  next
    case (Some f)
    obtain now later env where f: "f = (now, later, env)" by (cases f)
    have "envTimestamp env = None" using Cons.prems Some f by (simp add: unstamped_def)
    then have "push_inputs (p # ps) ctx = map DomainEventItem (fst (adaptPushEnvelope now later env ctx)) @
        push_inputs ps (snd (adaptPushEnvelope now later env ctx))"
      by (simp add: Some f demux_event)
    with Cons.IH [OF ps, of "snd (adaptPushEnvelope now later env ctx)"] show ?thesis
      by (simp add: Some f pushed_events_items items_push case_prod_beta)
  qed
qed simp

lemma adapt_ok_event: "list_all ev_ok (fst (adaptPushEnvelope now later env ctx))"
  unfolding adaptPushEnvelope_def Let_def
  by (rule adaptTag_all)
    (auto simp: adapt_cases Let_def ev_ok_def metaTitled_def patch_ok_def markers_ok_def split: option.split bool.split)

lemma adaptAll_events_ok: "list_all ev_ok (fst (adaptAll fs ctx))"
proof (induction fs arbitrary: ctx)
  case (Cons f fs)
  then show ?case by (cases f) (simp add: Let_def case_prod_beta adapt_ok_event)
qed simp

lemma push_inputs_timer: "push_inputs (ps @ [None]) ctx = push_inputs ps ctx @ [FlushTimerFires]"
proof (induction ps arbitrary: ctx)
  case (Cons p ps)
  then show ?case by (cases p) (auto simp: case_prod_beta)
qed simp

lemma pushes_ok: "list_all pushes_only xs \<Longrightarrow> list_all ev_ok (pushed_events xs) \<Longrightarrow> list_all input_ok xs"
  by (induction xs rule: pushed_events.induct) simp_all

lemma timer_empties: "router_ok r \<Longrightarrow> pendingDomainEvents (router_step h d r FlushTimerFires) = []"
  by (auto simp: router_keeps_def flushPendingDomainEvents_def)

lemma cat_options_timer: "cat_options (ps @ [None]) = cat_options ps"
  by (simp add: cat_options_def)

lemma successively_concat: "successively P (concat bs) \<Longrightarrow> list_all (successively P) bs"
  by (induction bs) (auto simp: successively_append_iff)

lemma list_all_concat: "list_all P (concat bs) = list_all (list_all P) bs"
  by (induction bs) auto

text \<open>A run of pushes hands the events of the frames to the store, in batches that the timer cuts.\<close>

lemma after_pushes_state:
  assumes "router_ok r" "\<not> routerDisposed r" "unstamped ps"
  shows "router_ok (after_pushes h d ps ctx r)" "\<not> routerDisposed (after_pushes h d ps ctx r)"
    "pendingDomainEvents (after_pushes h d ps ctx r) = []"
    "hands h d r (fst (adaptAll (cat_options ps) ctx)) (after_pushes h d ps ctx r)"
proof -
  let ?r = "run_actions (router_step h d) r (push_inputs ps ctx)"
  have xs: "list_all pushes_only (push_inputs ps ctx)" "list_all ev_ok (pushed_events (push_inputs ps ctx))"
    using push_inputs_pushes [OF assms(3), of ctx] adaptAll_events_ok by simp_all
  have ok: "router_ok ?r"
    by (rule routed.run_inv [OF assms(1)]) (use pushes_ok [OF xs] in \<open>simp add: admissible_all\<close>)
  have r: "after_pushes h d ps ctx r = router_step h d ?r FlushTimerFires"
    by (simp only: after_pushes_def push_inputs_timer run_actions_foldl foldl_append foldl.simps)
  show "router_ok (after_pushes h d ps ctx r)" unfolding r by (rule sound_feed.router_step_keeps [OF ok]) simp
  show "pendingDomainEvents (after_pushes h d ps ctx r) = []" unfolding r by (rule timer_empties [OF ok])
  from hands_trans [OF hands_run [OF assms(2) xs(1), of h d] hands_timer]
  show "hands h d r (fst (adaptAll (cat_options ps) ctx)) (after_pushes h d ps ctx r)"
    using push_inputs_pushes [OF assms(3), of ctx] unfolding r by (simp del: router_step.simps)
  then show "\<not> routerDisposed (after_pushes h d ps ctx r)" using assms(2) by (auto simp: hands_def)
qed

text \<open>What the store shows after such batches is what the events do to the view.\<close>

lemma hands_view:
  assumes "router_ok r" "pendingDomainEvents r = []" "hands h d r es r'" "pendingDomainEvents r' = []"
    and "view_of i u (world (routerStore r)) = Some v" "list_all ev_ok es"
    and "list_all (followed i u) es" "successively (chunks_adjoin i u) es"
  shows "view_of i u (world (routerStore r')) = Some (fold (view_step i) es v)"
proof -
  obtain bs where bs: "concat bs = es" "routerStore r' = foldl (hand_over h d) (routerStore r) bs"
    using assms(2-4) by (auto simp: hands_def)
  have "store_ok (clientThreads (routerStore r))" using assms(1) by (simp add: router_keeps_def)
  from view_batches [OF this _ assms(5), of bs h d] assms(6-8) bs show ?thesis
    by (simp add: list_all_concat [symmetric] successively_concat)
qed

lemma pushes_view:
  assumes "router_ok r" "\<not> routerDisposed r" "pendingDomainEvents r = []" "unstamped ps"
    and "view_of i u (world (routerStore r)) = Some v" "es = fst (adaptAll (cat_options ps) ctx)"
    and "list_all (followed i u) es" "successively (chunks_adjoin i u) es"
  shows "view_of i u (world (routerStore (after_pushes h d ps ctx r))) = Some (fold (view_step i) es v)"
  using hands_view [OF assms(1,3) after_pushes_state(4,3) [OF assms(1,2,4)] assms(5)] assms(6-8) adaptAll_events_ok
  by blast

section \<open>A turn from its start to its end\<close>

text \<open>\<open>DomainEvent::MessageDeltaAppended\<close>, whose message has the id of the turn.\<close>

definition deltaFrame :: "string \<Rightarrow> string \<Rightarrow> string \<Rightarrow> raw_envelope" where
  "deltaFrame u c at' = frame ''MessageDeltaAppended'' u
     [(''id'', JStr u), (''turn_id'', JStr u), (''delta'', JStr c), (''created_at'', JStr at')]"

definition deltaMessage :: "string \<Rightarrow> string \<Rightarrow> string \<Rightarrow> read_model_message" where
  "deltaMessage u c at' = (finalMessage u c at')\<lparr>wireStreaming := True\<rparr>"

lemma start_adapted:
  assumes "i \<noteq> []" "u \<noteq> []"
  shows "\<exists>n s. fst (adaptPushEnvelope now later (startFrame u i at') ctx) = [threadEvent n at' i (SessionSet s at')] \<and>
    wireStatus s = StatusRunning \<and> wireActiveTurnId s = Some u"
  using assms
  by (intro exI conjI)
    (simp add: startFrame_def adaptPushEnvelope_def Let_def adaptTag_def adaptTurnStarted_def truthy_str_def
      TIMESTAMP_KEYS_def pickTimestamp_def, simp_all add: buildSession_def truthy_str_def)

lemma delta_adapted:
  assumes "rec_get (pushTurns ctx) u = Some i" "i \<noteq> []" "u \<noteq> []"
  shows "fst (adaptPushEnvelope now later (deltaFrame u c at') ctx) =
    [threadEvent (Suc (pushCounter ctx)) at' i (MessageSent (deltaMessage u c at'))]"
  using assms
  by (simp add: deltaFrame_def adaptPushEnvelope_def Let_def adaptTag_def adaptMessage_def truthy_str_def
      resolveThreadId_def TIMESTAMP_KEYS_def pickTimestamp_def roleOf_def deltaMessage_def finalMessage_def)

lemma end_adapted:
  assumes "rec_get (pushTurns ctx) u = Some i" "i \<noteq> []" "u \<noteq> []"
  shows "\<exists>n m k s a. fst (adaptPushEnvelope now later (endFrame u out at') ctx) =
      [threadEvent n at' i (SessionSet s at'), threadEvent m at' i (ActivityAppended a),
       threadEvent k at' i (MessageSent (finalMessage u out at'))] \<and>
    wireStatus s = StatusReady \<and> wireActiveTurnId s = None"
  using assms
  by (intro exI conjI)
    (simp add: endFrame_def adaptPushEnvelope_def Let_def adaptTag_def adaptTurnEnded_def truthy_str_def
      resolveThreadId_def TIMESTAMP_KEYS_def pickTimestamp_def not_null_def, simp_all add: buildSession_def)

text \<open>The deltas of a turn: two readings of the clock, the chunk, its instant.\<close>

type_synonym delta = "string \<times> string \<times> string \<times> string"

definition deltaPush :: "string \<Rightarrow> delta \<Rightarrow> string \<times> string \<times> raw_envelope" where
  "deltaPush u x = (case x of (now, later, c, at') \<Rightarrow> (now, later, deltaFrame u c at'))"

definition deltaText :: "delta \<Rightarrow> string" where
  "deltaText x = fst (snd (snd x))"

text \<open>An event that is a chunk of the message of the turn.\<close>

definition chunk_event :: "string \<Rightarrow> string \<Rightarrow> delta \<Rightarrow> domain_event \<Rightarrow> bool" where
  "chunk_event i u x ev \<longleftrightarrow> messageOf ev = Some (i, deltaMessage u (deltaText x) (snd (snd (snd x))))"

lemma tag_delta_turns:
  "pushTurns (snd (adaptPushEnvelope now later (deltaFrame u c at') ctx)) = pushTurns ctx"
  by (simp add: adapt_turns registers_def deltaFrame_def)

lemma deltas_adapted:
  assumes "i \<noteq> []" "u \<noteq> []"
  shows "rec_get (pushTurns ctx) u = Some i \<Longrightarrow>
    list_all2 (chunk_event i u) ds (fst (adaptAll (map (deltaPush u) ds) ctx)) \<and>
    rec_get (pushTurns (snd (adaptAll (map (deltaPush u) ds) ctx))) u = Some i"
proof (induction ds arbitrary: ctx)
  case (Cons x ds)
  obtain now later c at' where x: "x = (now, later, c, at')" by (cases x)
  let ?ctx = "snd (adaptPushEnvelope now later (deltaFrame u c at') ctx)"
  have "rec_get (pushTurns ?ctx) u = Some i" using Cons.prems by (simp add: tag_delta_turns)
  from Cons.IH [OF this] delta_adapted [OF Cons.prems assms, of now later c at'] show ?case
    by (simp add: x deltaPush_def case_prod_beta chunk_event_def deltaText_def messageOf_def)
qed simp

definition so_far :: "turn_view \<Rightarrow> string \<Rightarrow> string \<Rightarrow> bool" where
  "so_far v u s \<longleftrightarrow> vStatus v = Some StatusRunning \<and> vTurn v = Some (u, TurnRunning) \<and>
     (vMessage v = None \<and> s = [] \<or> (\<exists>live. vMessage v = Some (s, Assistant, live)))"

lemma chunk_view:
  assumes "so_far v u s" "chunk_event i u x ev"
  shows "so_far (view_step i ev v) u (s @ deltaText x)"
proof -
  have "view_step i ev v = view_event (MessageSent (deltaMessage u (deltaText x) (snd (snd (snd x))))) v"
    using assms(2) unfolding chunk_event_def by (simp add: view_step_message del: view_event.simps)
  with assms(1) show ?thesis
    by (auto simp: so_far_def sent_message_def sent_text_def sent_turn_def sent_state_def deltaMessage_def
        finalMessage_def)
qed

lemma chunks_view:
  "list_all2 (chunk_event i u) ds es \<Longrightarrow> so_far v u s \<Longrightarrow>
     so_far (fold (view_step i) es v) u (s @ concat (map deltaText ds))"
proof (induction ds es arbitrary: v s rule: list_all2_induct)
  case (Cons x ds ev es)
  from Cons.IH [OF chunk_view [OF Cons.prems Cons.hyps(1)]] show ?case by simp
qed simp

lemma chunks_followed: "list_all2 (chunk_event i u) ds es \<Longrightarrow> list_all (followed i u) es"
  by (induction ds es rule: list_all2_induct)
    (simp_all add: chunk_event_def messageOf_Some followed_def deltaMessage_def finalMessage_def)

lemma chunk_in: "chunk_event i u x ev \<Longrightarrow> message_in i u ev = Some (deltaMessage u (deltaText x) (snd (snd (snd x))))"
  by (simp add: chunk_event_def message_in_def deltaMessage_def finalMessage_def)

lemma chunks_adjoining: "list_all2 (chunk_event i u) ds es \<Longrightarrow> successively (chunks_adjoin i u) es"
proof (induction ds es rule: list_all2_induct)
  case (Cons x ds ev es)
  show ?case
  proof (cases es)
    case (Cons ev' es')
    with \<open>list_all2 (chunk_event i u) ds es\<close> obtain x' where "chunk_event i u x' ev'"
      by (cases ds) auto
    with \<open>chunk_event i u x ev\<close> have "chunks_adjoin i u ev ev'"
      by (simp add: chunks_adjoin_def chunk_in deltaMessage_def finalMessage_def)
    with Cons \<open>successively (chunks_adjoin i u) es\<close> show ?thesis by simp
  qed simp
qed simp

lemma other_adjoin: "message_in i u x = None \<Longrightarrow> chunks_adjoin i u x y" "message_in i u y = None \<Longrightarrow> chunks_adjoin i u x y"
  by (simp_all add: chunks_adjoin_def split: option.split)

lemma successively_parts:
  "successively P xs \<Longrightarrow> (\<And>x. P x y) \<Longrightarrow> (\<And>x. P z x) \<Longrightarrow> successively P ys \<Longrightarrow> ys = y # ys' \<Longrightarrow>
     successively P (z # xs @ ys)"
  using successively_append_iff [of P "z # xs" "y # ys'"]
  by (cases xs) simp_all

lemma finalMessage_fields [simp]:
  "wireId (finalMessage u c at') = u" "wireRole (finalMessage u c at') = Assistant"
  "wireText (finalMessage u c at') = c" "wireTurnId (finalMessage u c at') = Some u"
  "\<not> wireStreaming (finalMessage u c at')"
  by (simp_all add: finalMessage_def)

lemma end_view:
  assumes "so_far w u s" "wireStatus s' = StatusReady" "wireActiveTurnId s' = None" "out = [] \<or> out = s"
  shows "view_event (MessageSent (finalMessage u out at')) (view_event (SessionSet s' at') w) =
    \<lparr>vMessage = Some (s, Assistant, False), vStatus = Some StatusReady, vTurn = Some (u, TurnCompleted)\<rparr>"
proof -
  have "final_text Assistant Assistant s out = s"
    using assms(4) final_text_repeat final_text_empty [of Assistant Assistant s] by auto
  then have "sent_message (finalMessage u out at') (vMessage w) = (s, Assistant, False)"
    using assms(1,4) by (auto simp: so_far_def sent_message_def sent_text_def)
  with assms(1-3) show ?thesis
    by (simp add: so_far_def set_turn_def sent_turn_def sent_state_def)
qed

text \<open>The events of a whole turn: its start, a chunk per delta, and the three of its end.\<close>

lemma turn_adapted:
  assumes "context_ok ctx" "rec_get (pushTurns ctx) u = None" "i \<noteq> []" "u \<noteq> []"
  obtains n s es n1 s' n2 a n3 where
    "fst (adaptAll ((now, later, startFrame u i at') # map (deltaPush u) ds @ [(now', later', endFrame u out at'')]) ctx) =
      threadEvent n at' i (SessionSet s at') # es @ [threadEvent n1 at'' i (SessionSet s' at''),
        threadEvent n2 at'' i (ActivityAppended a), threadEvent n3 at'' i (MessageSent (finalMessage u out at''))]"
    "wireStatus s = StatusRunning" "wireActiveTurnId s = Some u" "list_all2 (chunk_event i u) ds es"
    "wireStatus s' = StatusReady" "wireActiveTurnId s' = None"
proof -
  let ?ctx1 = "snd (adaptPushEnvelope now later (startFrame u i at') ctx)"
  let ?ctx2 = "snd (adaptAll (map (deltaPush u) ds) ?ctx1)"
  obtain n s where start: "fst (adaptPushEnvelope now later (startFrame u i at') ctx) = [threadEvent n at' i (SessionSet s at')]"
    "wireStatus s = StatusRunning" "wireActiveTurnId s = Some u"
    using start_adapted [OF assms(3,4)] by blast
  have k1: "rec_get (pushTurns ?ctx1) u = Some i"
    using turn_known [OF assms(1,2) startFrame_registers, of i "[]" now later at']
    by (simp add: registers_only_def LRU_CAP_def case_prod_beta)
  define es where "es = fst (adaptAll (map (deltaPush u) ds) ?ctx1)"
  from deltas_adapted [OF assms(3,4) k1, of ds]
  have chunks: "list_all2 (chunk_event i u) ds es" and k2: "rec_get (pushTurns ?ctx2) u = Some i"
    by (simp_all add: es_def)
  obtain n1 n2 n3 s' a where stop: "fst (adaptPushEnvelope now' later' (endFrame u out at'') ?ctx2) =
      [threadEvent n1 at'' i (SessionSet s' at''), threadEvent n2 at'' i (ActivityAppended a),
       threadEvent n3 at'' i (MessageSent (finalMessage u out at''))]"
    "wireStatus s' = StatusReady" "wireActiveTurnId s' = None"
    using end_adapted [OF k2 assms(3,4), of now' later' out at''] by blast
  show thesis
    by (rule that [OF _ start(2,3) chunks stop(2,3)])
      (use start(1) stop(1) in \<open>simp add: adaptAll_append case_prod_beta es_def\<close>)
qed

text \<open>C2: A turn shows what its frames say, however the flushes cut them. The thread is in the store, the
  turn is new: it starts, its answer streams in deltas, it completes with the whole answer or none in
  the frame. After the next firing of the timer the thread has the message with exactly the deltas one
  after the other and not streaming any more, a ready session, and a completed turn.\<close>

theorem pushed_turn_shows:
  assumes "router_ok r" "\<not> routerDisposed r" "pendingDomainEvents r = []"
    and "context_ok ctx" "rec_get (pushTurns ctx) u = None" "i \<noteq> []" "u \<noteq> []"
    and "getThreadFromState (clientThreads (routerStore r)) i = Some t" "message_of t u = None"
    and "cat_options ps = (now, later, startFrame u i at') # map (deltaPush u) ds @ [(now', later', endFrame u out at'')]"
    and "unstamped ps" "out = [] \<or> out = concat (map deltaText ds)"
  shows "view_of i u (world (routerStore (after_pushes h d ps ctx r))) =
    Some \<lparr>vMessage = Some (concat (map deltaText ds), Assistant, False), vStatus = Some StatusReady,
      vTurn = Some (u, TurnCompleted)\<rparr>"
proof -
  obtain n s es n1 s' n2 a n3 where turn: "fst (adaptAll (cat_options ps) ctx) =
      threadEvent n at' i (SessionSet s at') # es @ [threadEvent n1 at'' i (SessionSet s' at''),
        threadEvent n2 at'' i (ActivityAppended a), threadEvent n3 at'' i (MessageSent (finalMessage u out at''))]"
    and start: "wireStatus s = StatusRunning" "wireActiveTurnId s = Some u"
    and chunks: "list_all2 (chunk_event i u) ds es"
    and stop: "wireStatus s' = StatusReady" "wireActiveTurnId s' = None"
    unfolding assms(10) by (rule turn_adapted [OF assms(4-7)])
  let ?e0 = "threadEvent n at' i (SessionSet s at')"
  let ?rest = "[threadEvent n1 at'' i (SessionSet s' at''), threadEvent n2 at'' i (ActivityAppended a),
       threadEvent n3 at'' i (MessageSent (finalMessage u out at''))]"
  have f: "list_all (followed i u) (?e0 # es @ ?rest)"
    using chunks_followed [OF chunks] by (simp add: followed_def finalMessage_def)
  have none: "message_in i u (threadEvent m at' i (SessionSet s at')) = None"
    "message_in i u (threadEvent m at' i (ActivityAppended b)) = None" for m at' s b
    by (simp_all add: message_in_def messageOf_def)
  have adj: "successively (chunks_adjoin i u) (?e0 # es @ ?rest)"
    by (rule successively_parts [OF chunks_adjoining [OF chunks]]) (simp_all add: other_adjoin none)
  define v where "v = viewed u t"
  have v: "view_of i u (world (routerStore r)) = Some v" "vMessage v = None"
    using assms(8,9) by (simp_all add: view_of_def world_def v_def viewed_def)
  have "so_far (view_step i ?e0 v) u []"
    using start v(2) by (simp add: so_far_def view_step_def set_turn_def)
  from chunks_view [OF chunks this] have w: "so_far (fold (view_step i) es (view_step i ?e0 v)) u (concat (map deltaText ds))"
    by simp
  define w where "w = fold (view_step i) es (view_step i ?e0 v)"
  have "fold (view_step i) (?e0 # es @ ?rest) v =
      view_event (MessageSent (finalMessage u out at'')) (view_event (SessionSet s' at'') w)"
    unfolding w_def by (simp add: view_step_def del: view_event.simps(1,2))
  also have "\<dots> = \<lparr>vMessage = Some (concat (map deltaText ds), Assistant, False), vStatus = Some StatusReady,
        vTurn = Some (u, TurnCompleted)\<rparr>"
    by (rule end_view [OF w [folded w_def] stop assms(12)])
  finally have "fold (view_step i) (?e0 # es @ ?rest) v = \<dots>" .
  with pushes_view [OF assms(1-3,11) v(1) turn [symmetric] f adj, of h d] show ?thesis by simp
qed

definition turnPushes :: "push list" where
  "turnPushes = [Some (''1'', ''1'', startFrame ''u'' ''t'' ''1''), None,
     Some (deltaPush ''u'' (''2'', ''2'', ''Hel'', ''2'')), Some (deltaPush ''u'' (''3'', ''3'', ''lo'', ''3'')), None,
     Some (''4'', ''4'', endFrame ''u'' ''Hello'' ''4'')]"

lemma turnPushes_unstamped: "unstamped turnPushes"
  by (simp add: unstamped_def turnPushes_def startFrame_def deltaPush_def deltaFrame_def endFrame_def)

lemma streamedStore_get:
  "getThreadFromState (clientThreads (routerStore (initialRouter streamedStore))) ''t'' =
     Some (shellReplaced (sampleShell ''t'' ''p'') None)"
  using streamedStore_thread by (simp add: world_def initialRouter_def)

lemma streamedRouter_ok: "router_ok (initialRouter streamedStore)"
  using streamedStore_ok by (simp add: router_keeps_def initialRouter_def)

theorem pushed_turn_shows_witness:
  "view_of ''t'' ''u'' (world (routerStore (after_pushes unitHost sampleDates turnPushes createPushAdaptContext
      (initialRouter streamedStore)))) =
    Some \<lparr>vMessage = Some (concat (map deltaText [(''2'', ''2'', ''Hel'', ''2''), (''3'', ''3'', ''lo'', ''3'')]), Assistant, False),
      vStatus = Some StatusReady, vTurn = Some (''u'', TurnCompleted)\<rparr>"
proof (rule pushed_turn_shows [OF streamedRouter_ok _ _ initial_context_ok _ _ _ streamedStore_get _ _ turnPushes_unstamped,
      where at' = "''1''" and at'' = "''4''" and out = "''Hello''"])
  show "message_of (shellReplaced (sampleShell ''t'' ''p'') None) ''u'' = None"
    by (simp add: message_of_def shellReplaced_def withShell_def extend_fields)
  show "''Hello'' = [] \<or> ''Hello'' = concat (map deltaText [(''2'', ''2'', ''Hel'', ''2''), (''3'', ''3'', ''lo'', ''3'')])"
    unfolding deltaText_def by simp
qed (simp_all add: initialRouter_def createPushAdaptContext_def turnPushes_def deltaText_def)

section \<open>Where it falls short\<close>

text \<open>\<open>DomainEvent::TurnInterrupted\<close> and \<open>DomainEvent::TurnCancelled\<close>.\<close>

definition stopFrame :: "bool \<Rightarrow> string \<Rightarrow> string \<Rightarrow> raw_envelope" where
  "stopFrame cancelled u at' = (if cancelled
     then frame ''TurnCancelled'' u [(''id'', JStr u), (''completed_at'', JStr at')]
     else frame ''TurnInterrupted'' u [(''id'', JStr u), (''interrupted_at'', JStr at')])"

lemma stop_tags [simp]:
  "toCamelTag ''TurnInterrupted'' = ''turnInterrupted''" "toCamelTag ''TurnCancelled'' = ''turnCancelled''"
  by code_simp+

lemma stop_adapted: "fst (adaptPushEnvelope now later (stopFrame b u at') ctx) = []"
  by (simp add: stopFrame_def adaptPushEnvelope_def Let_def adaptTag_def THREAD_META_TAGS_def)

text \<open>C11: A turn that is interrupted or cancelled goes on running for the client: the adapter drops both
  frames, so the session stays running, with the turn as its latest.\<close>

theorem interrupted_turn_runs_on:
  assumes "router_ok r" "\<not> routerDisposed r" "pendingDomainEvents r = []" "i \<noteq> []" "u \<noteq> []"
    and "getThreadFromState (clientThreads (routerStore r)) i = Some t"
    and "cat_options ps = [(now, later, startFrame u i at'), (now', later', stopFrame cancelled u at'')]"
    and "unstamped ps"
  shows "map_option (\<lambda>v. (vStatus v, vTurn v)) (view_of i u (world (routerStore (after_pushes h d ps ctx r)))) =
    Some (Some StatusRunning, Some (u, TurnRunning))"
proof -
  obtain n s where start: "fst (adaptPushEnvelope now later (startFrame u i at') ctx) = [threadEvent n at' i (SessionSet s at')]"
    "wireStatus s = StatusRunning" "wireActiveTurnId s = Some u"
    using start_adapted [OF assms(4,5)] by blast
  have es: "fst (adaptAll (cat_options ps) ctx) = [threadEvent n at' i (SessionSet s at')]"
    using start(1) by (simp add: assms(7) stop_adapted case_prod_beta)
  have v: "view_of i u (world (routerStore r)) = Some (viewed u t)"
    using assms(6) by (simp add: view_of_def world_def)
  from pushes_view [OF assms(1-3,8) v es [symmetric], of h d] start(2,3) show ?thesis
    by (simp add: followed_def view_step_def set_turn_def)
qed

theorem interrupted_turn_runs_on_witness:
  "map_option (\<lambda>v. (vStatus v, vTurn v)) (view_of ''t'' ''u'' (world (routerStore (after_pushes unitHost sampleDates
      [Some (''1'', ''1'', startFrame ''u'' ''t'' ''1''), None, Some (''2'', ''2'', stopFrame False ''u'' ''2'')]
      createPushAdaptContext (initialRouter streamedStore))))) =
    Some (Some StatusRunning, Some (''u'', TurnRunning))"
  by (rule interrupted_turn_runs_on [OF streamedRouter_ok _ _ _ _ streamedStore_get,
        where at' = "''1''" and at'' = "''2''" and cancelled = False])
    (simp_all add: initialRouter_def unstamped_def startFrame_def stopFrame_def)

text \<open>\<open>DomainEvent::MessageStreamingFinalized\<close>, which carries neither text nor turn.\<close>

definition finalizedFrame :: "string \<Rightarrow> string \<Rightarrow> raw_envelope" where
  "finalizedFrame u at' = frame ''MessageStreamingFinalized'' u [(''id'', JStr u), (''finalized_at'', JStr at')]"

definition finalizedMessage :: "string \<Rightarrow> string \<Rightarrow> read_model_message" where
  "finalizedMessage u at' = (finalMessage u [] at')\<lparr>wireTurnId := None\<rparr>"

lemma finalized_adapted:
  assumes "rec_get (pushTurns ctx) u = Some i" "i \<noteq> []" "u \<noteq> []"
  shows "fst (adaptPushEnvelope now later (finalizedFrame u at') ctx) =
    [threadEvent (Suc (pushCounter ctx)) at' i (MessageSent (finalizedMessage u at'))]"
  using assms
  by (simp add: finalizedFrame_def adaptPushEnvelope_def Let_def adaptTag_def adaptMessage_def truthy_str_def
      resolveThreadId_def TIMESTAMP_KEYS_def pickTimestamp_def roleOf_def finalizedMessage_def finalMessage_def
      not_null_def)

text \<open>The two events of a batch: the last chunk and the empty final message right after it.\<close>

lemma two_pushes:
  assumes "\<not> routerDisposed r" "pendingDomainEvents r = []" "wireId p \<in> set (flushedAssistantIds r)"
    and "messageOf e1 = Some (i, p)" "wireStreaming p" "messageOf e2 = Some (i, q)" "\<not> wireStreaming q"
  shows "routerStore (run_actions (router_step h d) r [DomainEventItem e1, DomainEventItem e2, FlushTimerFires]) =
    hand_over h d (routerStore r) [e1, e2]"
  using assms
  by (cases "wireRole p = Assistant"; cases "wireRole q = Assistant")
    (simp_all add: queueDomainEvent_def shouldFlushDomainEventImmediately_def flushPendingDomainEvents_def
      toStore_def hand_over_def)

lemma final_text_prefix: "c \<noteq> [] \<Longrightarrow> str_starts s c \<Longrightarrow> final_text Assistant Assistant s c = s"
proof -
  assume "c \<noteq> []" "str_starts s c"
  moreover have "c = s" if "str_starts c s"
    using that \<open>str_starts s c\<close> by (metis length_take min_def nat_le_linear str_starts_def take_all_iff)
  ultimately show ?thesis by (auto simp: final_text_def)
qed

lemma last_frames_fields:
  "wireId (deltaMessage u c at') = u" "wireRole (deltaMessage u c at') = Assistant"
  "wireText (deltaMessage u c at') = c" "wireStreaming (deltaMessage u c at')"
  "wireId (finalizedMessage u at'') = u" "wireRole (finalizedMessage u at'') = Assistant"
  "wireText (finalizedMessage u at'') = []" "\<not> wireStreaming (finalizedMessage u at'')"
  by (simp_all add: deltaMessage_def finalizedMessage_def finalMessage_def)

lemma last_frames_adapted:
  fixes c at' now later
  assumes "rec_get (pushTurns ctx) u = Some i" "i \<noteq> []" "u \<noteq> []"
  defines "ctx' \<equiv> snd (adaptPushEnvelope now later (deltaFrame u c at') ctx)"
  shows "fst (adaptPushEnvelope now later (deltaFrame u c at') ctx) =
      [threadEvent (Suc (pushCounter ctx)) at' i (MessageSent (deltaMessage u c at'))]"
    and "fst (adaptPushEnvelope now' later' (finalizedFrame u at'') ctx') =
      [threadEvent (Suc (pushCounter ctx')) at'' i (MessageSent (finalizedMessage u at''))]"
  using delta_adapted [OF assms(1-3)] finalized_adapted [OF _ assms(2,3), of ctx'] assms(1)
  by (simp_all add: ctx'_def tag_delta_turns)

lemma streaming_view:
  assumes "getThreadFromState (clientThreads st) i = Some t" "text_is t u s Assistant True"
  shows "view_of i u (world st) = Some (viewed u t)" "vMessage (viewed u t) = Some (s, Assistant, True)"
  using assms by (auto simp: view_of_def world_def viewed_def text_is_def)

lemma finalized_with_delta:
  assumes "router_ok r" "\<not> routerDisposed r" "pendingDomainEvents r = []" "u \<in> set (flushedAssistantIds r)"
    and "rec_get (pushTurns ctx) u = Some i" "i \<noteq> []" "u \<noteq> []"
    and "view_of i u (world (routerStore r)) = Some v" "vMessage v = Some (s, Assistant, True)"
    and "c \<noteq> []" "str_starts s c"
  shows "Option.bind (view_of i u (world (routerStore (after_pushes h d [Some (now, later, deltaFrame u c at'),
    Some (now', later', finalizedFrame u at'')] ctx r)))) vMessage = Some (s, Assistant, False)"
proof -
  let ?ctx = "snd (adaptPushEnvelope now later (deltaFrame u c at') ctx)"
  let ?e1 = "threadEvent (Suc (pushCounter ctx)) at' i (MessageSent (deltaMessage u c at'))"
  let ?e2 = "threadEvent (Suc (pushCounter ?ctx)) at'' i (MessageSent (finalizedMessage u at''))"
  let ?m = "?e2\<lparr>evBody := ForStore (OnThread (ThreadEvent i (MessageSent
    (mergePayload (deltaMessage u c at') (finalizedMessage u at'')))))\<rparr>"
  note fields = last_frames_fields and es = last_frames_adapted [OF assms(5-7)]
  have m: "messageOf ?e1 = Some (i, deltaMessage u c at')" "messageOf ?e2 = Some (i, finalizedMessage u at'')"
    by (simp_all add: messageOf_def)
  have ok: "store_ok (clientThreads (routerStore r))" using assms(1) by (simp add: router_keeps_def)
  have evok: "list_all ev_ok [?e1, ?e2]" by (simp add: ev_ok_def)
  have co: "coalesceOrchestrationUiEvents [?e1, ?e2] = [?m]"
    by (simp add: coalesceOrchestrationUiEvents_def coalesceRound_def last_elem_def m fields)
  have "push_inputs ([Some (now, later, deltaFrame u c at'), Some (now', later', finalizedFrame u at''), None]) ctx =
      [DomainEventItem ?e1, DomainEventItem ?e2, FlushTimerFires]"
    using es by (simp add: demux_event deltaFrame_def finalizedFrame_def)
  then have "routerStore (after_pushes h d [Some (now, later, deltaFrame u c at'),
      Some (now', later', finalizedFrame u at'')] ctx r) = hand_over h d (routerStore r) [?e1, ?e2]"
    using two_pushes [OF assms(2,3) _ m(1) _ m(2), of h d] assms(4) fields by (simp add: after_pushes_def)
  moreover have "view_of i u (world (hand_over h d (routerStore r) [?e1, ?e2])) = Some (view_step i ?m v)"
    using hand_over_world [OF ok evok, of h d] view_run [OF assms(8), of "[?m]" h]
    by (simp add: co followed_def fields)
  moreover have "vMessage (view_step i ?m v) = Some (s, Assistant, False)"
    using assms(9) final_text_prefix [OF assms(10,11)]
    by (simp add: view_step_def sent_message_def sent_text_def fields mergePayload_def)
  ultimately show ?thesis by simp
qed

lemma finalized_after_delta:
  assumes "router_ok r" "\<not> routerDisposed r" "pendingDomainEvents r = []"
    and "rec_get (pushTurns ctx) u = Some i" "i \<noteq> []" "u \<noteq> []"
    and "view_of i u (world (routerStore r)) = Some v" "vMessage v = Some (s, Assistant, True)"
  shows "Option.bind (view_of i u (world (routerStore (after_pushes h d [Some (now', later', finalizedFrame u at'')]
      (snd (adaptPushEnvelope now later (deltaFrame u c at') ctx))
      (after_pushes h d [Some (now, later, deltaFrame u c at')] ctx r))))) vMessage = Some (s @ c, Assistant, False)"
proof -
  let ?ctx = "snd (adaptPushEnvelope now later (deltaFrame u c at') ctx)"
  let ?e1 = "threadEvent (Suc (pushCounter ctx)) at' i (MessageSent (deltaMessage u c at'))"
  let ?e2 = "threadEvent (Suc (pushCounter ?ctx)) at'' i (MessageSent (finalizedMessage u at''))"
  let ?fin = "[Some (now', later', finalizedFrame u at'')] :: push list"
  let ?delta = "[Some (now, later, deltaFrame u c at')] :: push list"
  let ?r = "after_pushes h d ?delta ctx r"
  note fields = last_frames_fields and es = last_frames_adapted [OF assms(4-6)]
  have un: "unstamped ?fin" "unstamped ?delta" by (simp_all add: unstamped_def finalizedFrame_def deltaFrame_def)
  have w: "view_of i u (world (routerStore ?r)) = Some (view_step i ?e1 v)"
    using pushes_view [OF assms(1-3) un(2) assms(7), of "[?e1]" ctx h d] es
    by (simp add: case_prod_beta followed_def fields)
  have "vMessage (view_step i ?e1 v) = Some (s @ c, Assistant, True)"
    using assms(8) by (simp add: view_step_def sent_message_def sent_text_def fields)
  then have "vMessage (view_step i ?e2 (view_step i ?e1 v)) = Some (s @ c, Assistant, False)"
    using final_text_empty [of Assistant Assistant "s @ c"]
    by (simp add: view_step_def [of i ?e2] sent_message_def sent_text_def fields)
  moreover have "view_of i u (world (routerStore (after_pushes h d ?fin ?ctx ?r))) =
      Some (view_step i ?e2 (view_step i ?e1 v))"
    using pushes_view [OF after_pushes_state(1-3) [OF assms(1,2) un(2)] un(1) w, of "[?e2]" ?ctx h d] es
    by (simp add: case_prod_beta followed_def fields)
  ultimately show ?thesis by simp
qed

text \<open>C13: When the frame that finalizes a message follows its last delta within one flush, the delta is lost
  if what was streamed begins with it: coalesced, the empty final message becomes a final one with the
  text of the delta, which the store takes for a repetition. With a flush between them it is kept.\<close>

theorem finalized_frame_drops_chunk:
  assumes "router_ok r" "\<not> routerDisposed r" "pendingDomainEvents r = []" "u \<in> set (flushedAssistantIds r)"
    and "rec_get (pushTurns ctx) u = Some i" "i \<noteq> []" "u \<noteq> []"
    and "getThreadFromState (clientThreads (routerStore r)) i = Some t" "text_is t u s Assistant True"
    and "c \<noteq> []" "str_starts s c"
  shows "Option.bind (view_of i u (world (routerStore (after_pushes h d [Some (now, later, deltaFrame u c at'),
        Some (now', later', finalizedFrame u at'')] ctx r)))) vMessage = Some (s, Assistant, False) \<and>
    Option.bind (view_of i u (world (routerStore (after_pushes h d [Some (now', later', finalizedFrame u at'')]
      (snd (adaptPushEnvelope now later (deltaFrame u c at') ctx))
      (after_pushes h d [Some (now, later, deltaFrame u c at')] ctx r))))) vMessage = Some (s @ c, Assistant, False)"
  using finalized_with_delta [OF assms(1-7) streaming_view [OF assms(8,9)] assms(10,11)]
    finalized_after_delta [OF assms(1-3,5-7) streaming_view [OF assms(8,9)]]
  by blast

definition chunkStore :: client_store where
  "chunkStore = hand_over unitHost sampleDates streamedStore
     [threadEvent 1 ''2'' ''t'' (MessageSent (deltaMessage ''u'' ''```sh'' ''2''))]"

lemma chunkStore_shows:
  "store_ok (clientThreads chunkStore)"
  "\<exists>t. getThreadFromState (clientThreads chunkStore) ''t'' = Some t \<and> text_is t ''u'' ''```sh'' Assistant True"
proof -
  let ?ev = "threadEvent 1 ''2'' ''t'' (MessageSent (deltaMessage ''u'' ''```sh'' ''2''))"
  let ?v = "viewed ''u'' (shellReplaced (sampleShell ''t'' ''p'') None)"
  have ev: "ev_ok ?ev" "followed ''t'' ''u'' ?ev" by (simp_all add: ev_ok_def followed_def deltaMessage_def)
  show "store_ok (clientThreads chunkStore)"
    unfolding chunkStore_def using hand_over_world [OF streamedStore_ok, of "[?ev]"] ev by simp
  have "view_of ''t'' ''u'' (world streamedStore) = Some ?v" using streamedStore_thread by (simp add: view_of_def)
  from view_batches [OF streamedStore_ok _ this, of "[[?ev]]" unitHost sampleDates] ev
  have "view_of ''t'' ''u'' (world chunkStore) = Some (view_step ''t'' ?ev ?v)" by (simp add: chunkStore_def)
  moreover have "vMessage ?v = None"
    by (simp add: viewed_def message_of_def shellReplaced_def withShell_def extend_fields)
  then have "vMessage (view_step ''t'' ?ev ?v) = Some (''```sh'', Assistant, True)"
    by (simp add: view_step_def sent_message_def deltaMessage_def)
  moreover obtain z where z: "getThreadFromState (clientThreads chunkStore) ''t'' = Some z"
    "view_of ''t'' ''u'' (world chunkStore) = Some (viewed ''u'' z)"
    using calculation(1) by (auto simp: view_of_def world_def)
  ultimately have "vMessage (viewed ''u'' z) = Some (''```sh'', Assistant, True)" by simp
  then have "text_is z ''u'' ''```sh'' Assistant True" by (auto simp: viewed_def text_is_def)
  with z(1) show "\<exists>t. getThreadFromState (clientThreads chunkStore) ''t'' = Some t \<and> text_is t ''u'' ''```sh'' Assistant True"
    by blast
qed

definition streamingContext :: push_context where
  "streamingContext = createPushAdaptContext\<lparr>pushTurns := [(''u'', ''t'')]\<rparr>"

definition streamingRouter :: router where
  "streamingRouter = (initialRouter chunkStore)\<lparr>flushedAssistantIds := [''u'']\<rparr>"

lemma streamingRouter_simps [simp]:
  "routerStore streamingRouter = chunkStore" "\<not> routerDisposed streamingRouter"
  "pendingDomainEvents streamingRouter = []" "flushedAssistantIds streamingRouter = [''u'']"
  by (simp_all add: streamingRouter_def initialRouter_def)

lemma streamingRouter_ok: "router_ok streamingRouter"
  using chunkStore_shows(1) by (simp add: streamingRouter_def router_keeps_def initialRouter_def IMMEDIATE_ASSISTANT_FLUSH_ID_LIMIT_def)

theorem finalized_frame_drops_chunk_witness:
  "Option.bind (view_of ''t'' ''u'' (world (routerStore (after_pushes unitHost sampleDates
        [Some (''3'', ''3'', deltaFrame ''u'' ''```'' ''3''), Some (''4'', ''4'', finalizedFrame ''u'' ''4'')]
        streamingContext streamingRouter)))) vMessage = Some (''```sh'', Assistant, False) \<and>
    Option.bind (view_of ''t'' ''u'' (world (routerStore (after_pushes unitHost sampleDates
        [Some (''4'', ''4'', finalizedFrame ''u'' ''4'')]
        (snd (adaptPushEnvelope ''3'' ''3'' (deltaFrame ''u'' ''```'' ''3'') streamingContext))
        (after_pushes unitHost sampleDates [Some (''3'', ''3'', deltaFrame ''u'' ''```'' ''3'')]
          streamingContext streamingRouter))))) vMessage = Some (''```sh'' @ ''```'', Assistant, False)"
proof -
  obtain t where t: "getThreadFromState (clientThreads (routerStore streamingRouter)) ''t'' = Some t"
    "text_is t ''u'' ''```sh'' Assistant True"
    using chunkStore_shows(2) by auto
  show ?thesis
    by (rule finalized_frame_drops_chunk [OF streamingRouter_ok _ _ _ _ _ _ t])
      (simp_all add: streamingContext_def str_starts_def)
qed

text \<open>A chunk that arrives live is not numbered like the events a replay answers with.\<close>

lemma replay_hands:
  assumes "list_get (replays r) 0 = Some \<lparr>replayThread = i, replayFrom = n, replayTarget = None\<rparr>"
    and "rec_get (threadSequences r) i = Some n" "isThreadDetailEventForThread i ev" "n < evSequence ev"
  shows "hands h d r [ev] (replaySettled h d 0 (Some [ev]) r)"
proof -
  let ?r = "r\<lparr>replays := drop 1 (replays r), threadSequences := rec_set i (evSequence ev) (threadSequences r)\<rparr>"
  have "replaySettled h d 0 (Some [ev]) r =
      (queueDomainEvent h d ev ?r)\<lparr>replayRequests := removeAll i (replayRequests (queueDomainEvent h d ev ?r))\<rparr>"
    using assms by (simp add: replaySettled_def replayRound_def bySequence_def sort_cmp_def to_sorted_def Let_def)
  moreover have "hands h d r [] ?r" by (simp add: hands_same)
  moreover have "hands h d r' [] (r'\<lparr>replayRequests := m\<rparr>)" for r' m by (simp add: hands_same)
  ultimately show ?thesis
    using hands_trans [OF hands_trans [OF _ hands_queue]] by (metis append_Nil append_Nil2)
qed

text \<open>C12: A chunk that arrived on the live channel is added once more when an answer to a replay brings it: the
  live channel does not note sequences, and appending a chunk is not idempotent.\<close>

theorem replay_repeats_live_chunk:
  assumes "router_ok r" "\<not> routerDisposed r" "pendingDomainEvents r = []"
    and "list_get (replays r) 0 = Some \<lparr>replayThread = i, replayFrom = n, replayTarget = None\<rparr>"
    and "rec_get (threadSequences r) i = Some n"
    and "messageOf live = Some (i, chunk p c)" "messageOf again = Some (i, chunk p c)"
    and "evAggregateKind again = AggregateThread" "evAggregateId again = i" "n < evSequence again"
    and "getThreadFromState (clientThreads (routerStore r)) i = Some t" "text_is t (wireId p) s q l"
  shows "Option.bind (view_of i (wireId p) (world (routerStore (run_actions (router_step h d) r
      [DomainEventItem live, ReplaySettled 0 (Some [again]), FlushTimerFires])))) vMessage = Some (s @ c @ c, q, True)"
proof -
  let ?r1 = "queueDomainEvent h d live r" and ?v = "viewed (wireId p) t"
  let ?r2 = "replaySettled h d 0 (Some [again]) ?r1"
  have d1: "isThreadDetailEventForThread i again"
    using assms(7-9) by (simp add: isThreadDetailEventForThread_def messageOf_Some)
  have q1: "list_get (replays ?r1) 0 = list_get (replays r) 0" "threadSequences ?r1 = threadSequences r"
    by (auto simp: queueDomainEvent_def flushPendingDomainEvents_def toStore_def Let_def split: prod.split)
  have "hands h d ?r1 [again] ?r2"
    by (rule replay_hands [OF _ _ d1 assms(10)]) (simp_all add: q1 assms(4,5))
  from hands_trans [OF hands_queue this] have h2: "hands h d r [live, again] ?r2" by simp
  have ok: "ev_ok live" "ev_ok again" using assms(6,7) by (simp_all add: messageOf_Some ev_ok_message)
  have "router_ok ?r1" by (intro wf_intros assms(1) ok)
  then have r2: "router_ok ?r2" by (rule sound_feed.ok_replaySettled) (simp add: ok)
  let ?r3 = "router_step h d ?r2 FlushTimerFires"
  have "hands h d r [live, again] ?r3" using hands_trans [OF h2 hands_timer] by (simp del: router_step.simps)
  moreover have v: "view_of i (wireId p) (world (routerStore r)) = Some ?v" "vMessage ?v = Some (s, q, l)"
    using assms(11,12) by (auto simp: view_of_def world_def viewed_def text_is_def)
  moreover have "successively (chunks_adjoin i (wireId p)) [live, again]"
    using assms(6,7) by (simp add: chunks_adjoin_def message_in_def)
  moreover have "list_all (followed i (wireId p)) [live, again]"
    using assms(6,7) by (simp add: followed_def messageOf_Some)
  ultimately have "view_of i (wireId p) (world (routerStore ?r3)) = Some (fold (view_step i) [live, again] ?v)"
    using hands_view [OF assms(1,3) _ timer_empties [OF r2]] ok by (simp del: router_step.simps)
  moreover have "run_actions (router_step h d) r [DomainEventItem live, ReplaySettled 0 (Some [again]), FlushTimerFires] = ?r3"
    using assms(2) by simp
  moreover have "vMessage (fold (view_step i) [live, again] ?v) = Some (s @ c @ c, q, True)"
    using v(2) view_step_message [OF assms(6)] view_step_message [OF assms(7)]
    by (simp add: sent_message_def sent_text_def)
  ultimately show ?thesis by (simp del: router_step.simps run_actions.simps)
qed

definition replayRouter :: router where
  "replayRouter = streamingRouter\<lparr>threadSequences := [(''t'', 7)],
     replays := [\<lparr>replayThread = ''t'', replayFrom = 7, replayTarget = None\<rparr>]\<rparr>"

lemma replayRouter_ok: "router_ok replayRouter"
  using streamingRouter_ok by (simp add: replayRouter_def router_keeps_def)

theorem replay_repeats_live_chunk_witness:
  "Option.bind (view_of ''t'' (wireId (finalMessage ''u'' [] ''3'')) (world (routerStore
      (run_actions (router_step unitHost sampleDates) replayRouter
        [DomainEventItem (threadEvent 4 ''3'' ''t'' (MessageSent (chunk (finalMessage ''u'' [] ''3'') '' ls''))),
         ReplaySettled 0 (Some [threadEvent 8 ''3'' ''t'' (MessageSent (chunk (finalMessage ''u'' [] ''3'') '' ls''))]),
         FlushTimerFires])))) vMessage = Some (''```sh'' @ '' ls'' @ '' ls'', Assistant, True)"
proof -
  obtain t where t: "getThreadFromState (clientThreads (routerStore replayRouter)) ''t'' = Some t"
    "text_is t (wireId (finalMessage ''u'' [] ''3'')) ''```sh'' Assistant True"
    using chunkStore_shows(2) by (auto simp: replayRouter_def)
  show ?thesis
    by (rule replay_repeats_live_chunk [where n = 7, OF replayRouter_ok _ _ _ _ _ _ _ _ _ t])
      (simp_all add: replayRouter_def list_get_def messageOf_def makeEvent_def)
qed

end
