(* ===== verification/Spec2Isabelle.thy ===== *)
theory Spec2Isabelle
  imports PaneProperties TerminalProperties SplitProperties RightDockProperties RecentViewsProperties
    RetentionProperties TransportProperties AnnotationProperties SummaryProperties ActivityProperties
    MessageProperties StoreProperties DiffProperties ClientProperties MergeProperties ProjectProperties
    PushProperties RouterProperties
begin

text \<open>
  A verification development of the state modules of the web client (\<open>src/frontend/src\<close>): the
  client store of threads that the events of the server are projected into, what the sidebar and the
  chat derive from it, the layout and life of terminals, split chat views, the right dock, the recent
  views, the retention of thread subscriptions, the WebSocket transport all of them are fed by, and the
  way of a pushed frame from there into the store.

  \<^bold>\<open>The program.\<close> The client is a React application over stores. Each store keeps a dictionary from
  thread or view ids to a state, changes it by pure transition functions, persists part of it in
  the browser and merges what it finds there at the next start. The transport sends calls of the
  user interface to the server and delivers replies and pushes. The parts below are the ones whose
  logic is their own; rendering and browser effects are outside.

  \<^bold>\<open>Parts and theories.\<close> In the order of the imports:

  \<^item> Prelude: strings, options, arrays, sorted insertion, JavaScript records as association lists in
    insertion order, numbers, and the shared interfaces as locales: \<open>keyed_record\<close> (lookup,
    insertion, deletion), \<open>invariant_store\<close> (a step function, when a step is admissible, an
    invariant; extended in StoreProperties to \<open>refining_store\<close>), \<open>pane_tree\<close> (leaf keys and removal). Json: values read from storage or a frame, and
    \<open>persistedRecord.ts\<close>.
  \<^item> Terminals. PaneLayout (\<open>terminalPaneLayout.ts\<close>, the layout types of \<open>types.ts\<close>),
    LayoutPresets (\<open>workspaceTerminalLayoutPresets.ts\<close>), TerminalState (normalization),
    TerminalActions (transitions) and TerminalStore (the dictionary and its persistence), all three
    of \<open>terminalStateStore.ts\<close>. PaneLayoutWf, TerminalStateWf and TerminalActionsWf hold the
    well-formedness of layouts and states and that every operation keeps it; PaneProperties and
    TerminalProperties the properties.
  \<^item> Split chat views. SplitTree (\<open>splitView.logic.ts\<close>), SplitStore (\<open>splitViewStore.ts\<close>),
    SplitStoreWf (the invariant of the views and the index of source threads), SplitAnchor (the
    stronger invariant of runs that show no thread twice in a view), SplitProperties.
  \<^item> RightDock, RightDockProperties: \<open>rightDockStore.logic.ts\<close>, \<open>rightDockStore.ts\<close>, with an
    abstract tab strip that the dock refines.
  \<^item> RecentViews, RecentViewsProperties: \<open>recentViews.logic.ts\<close>, \<open>recentViewsStore.ts\<close>.
  \<^item> Retention, RetentionProperties: \<open>threadDetailSubscriptionRetention.ts\<close>, as a step relation on
    worlds (clock, client store, module).
  \<^item> TransportMethods (the registry \<open>SERVED_RPC\<close> of \<open>contracts/rpc.ts\<close> and the table of names),
    Transport (\<open>wsTransport.ts\<close>), TransportWf (its invariant), TransportProperties.
  \<^item> Threads: data. ThreadModel (the records of \<open>types.ts\<close> and \<open>contracts/tier3/orchestration.ts\<close>:
    messages, activities, plans, diffs, turns, sessions, shells), Annotations
    (\<open>shared/pinnedMessages.ts\<close>, \<open>shared/threadMarkers.ts\<close>), ModelSlug (names of models and branches),
    Comparisons (comparison functions and sorting with them).
  \<^item> Threads: projection. ThreadActivities, ThreadProjection and ThreadEvents (one definition per
    function of \<open>store.ts\<close>, and one per case of \<open>applyOrchestrationEvent\<close> that changes a thread),
    ClientStore (the normalized slices, \<open>threadDerivation.ts\<close>, the summaries of the sidebar, the
    commit of an update), StoreEvents (the events, \<open>applyOrchestrationEvent\<close> and batches).
  \<^item> The whole store. ThreadSync (threads the server sends whole, their normalization, the merge of a
    late detail with the live thread), Projects (projects, their order, the local actions on them, the
    memory of expanded projects, order and names; \<open>shared/threadWorkspace.ts\<close> for comparing working
    directories), StoreSync (snapshots, details, shell events, project events, local actions and
    \<open>useStore\<close> as a step function).
  \<^item> Threads: derivations. ThreadSummary (\<open>shared/threadSummary.ts\<close>, for the sidebar) and SessionLogic
    (\<open>session-logic.ts\<close>, for the chat).
  \<^item> Threads: proofs. AnnotationProperties, SummaryProperties (open requests by their last word, with
    the locale \<open>request_log\<close>; sidebar against chat), ActivityProperties (deduplication and the cap),
    MessageProperties (streaming), ThreadInvariant (one lemma per event), StoreProperties (reading
    after writing, the invariant of the store, its refinement of a dictionary of threads, deletion),
    DiffProperties (files of a diff, rollback).
  \<^item> The whole store: proofs. SyncInvariant (what each snapshot, detail and removal does to the
    dictionary of threads, and that it keeps the invariant), StoreTidy (what holds of the lists and slices
    whatever is sent), ClientProperties (runs of all actions, their
    refinement, deletion, sessions and the read model, removing a project), MergeProperties (late
    details), ProjectProperties (reordering, restarting).

  \<^item> The way of a push. PushAdapter (\<open>contracts/adaptPushEvent.ts\<close>: a frame of the server to events of
    the store, with the maps of a connection), EventRouter (the effect of \<open>routes/__root.tsx\<close> that
    queues, coalesces and flushes events, subscribes to threads, buffers what comes before a snapshot
    and asks for replays, as a step function on its variables and the client store; the demultiplexer
    of \<open>wsNativeApi.ts\<close>).
  \<^item> The way of a push: proofs. PushContext (bounded maps, rising sequences, how long a turn is
    remembered), PushProperties (ends of turns, frames whose fields are not read), RouterInvariant (the
    invariant of the router, relative to what the store it feeds promises: the locale \<open>fed_store\<close>, interpreted
    for what holds whatever arrives and for the soundness of threads under well-formed data), RouterOrder (sequenced events once and in order), RouterView (what the chat
    shows of a running turn as a small machine that the client store refines; coalescing keeps it),
    RouterProperties (adapter, router and store together).

  \<^bold>\<open>How the state corresponds.\<close> Definitions carry the names of the code. An interface is a record or,
  for a tagged union, a datatype; a field that may be absent is an option or, where the code treats
  the empty string alike, an empty string. A store is an action datatype with one constructor per
  method and a step function; its runs are lists of actions, and \<open>admissible\<close> says what the callers
  promise (fresh ids). The transport and the retention also have the events of the browser. An
  update of a thread is a function that gives \<open>None\<close> where the code returns the thread it was given,
  so that an update by reference comparison is a case of the model.

  \<^bold>\<open>Lemmas.\<close> Each component has a well-formedness predicate, lemmas that its operations keep it, an
  interpretation of \<open>invariant_store\<close> on the model's own step function, and the functional
  behaviour of the operations. The properties state, among others: normalization reaches a normal
  form and is idempotent; splitting, adding and removing terminals change exactly what they should;
  every run of each store keeps its invariant; what is persisted is read back; a thread is dropped
  from retention only when idle, and an idle one goes once punctual timeouts and a client store
  that does not change have had a quarter of an hour; a call is settled at most once, by the reply
  with its id; the lists and slices of the client store stay in step whatever is sent, and
  implement a dictionary of sound threads when events, snapshots and details are well-formed (distinct ids,
  one pin per message, no overlapping markers); a deleted thread stays deleted; a late detail does not shorten
  what was streamed, within the cap on messages; a message is complete whatever chunks of others come between its
  own, within the same cap; a turn
  shows what its frames say, however the flushes cut them; the sidebar and the chat name the same open requests when all activities are numbered. Some state what the code does against its intent: see the findings of the manifest.

  \<^bold>\<open>Bounds and termination.\<close> No fuel is used. Loops are structural recursion or have a measure (the
  search for a free suffix: the taken candidates ahead). The loop that fills the slots of a preset may draw
  ids for ever: it is a partial function, shown to return when the generator goes on yielding new ids.
  Numeric limits are those of the code: terminals per group, two levels of split panes, five recent
  views, 32 retained threads, fifteen minutes, the back-off between 500 and 5000 milliseconds, 2000
  messages and 500 activities (and the open prompts) per thread, 256 turns and messages in the push
  adapter, 1024 shell events, 512 thread events and 512 flushed messages in the router.

  \<^bold>\<open>Conventions.\<close> Strings are lists of Latin-1 code units. Numbers are exact (weights and ratios are
  rational, NaN and the infinities one value). Object keys keep their insertion order; that
  JavaScript enumerates integer-like keys first is not modelled. \<open>localeCompare\<close> is the order of code
  units in the split views, where it only affects the order of entries; in the theories of threads it
  is a parameter, the field of a record \<open>host\<close> next to the URL of an attachment, and the properties
  that depend on it assume that it is a consistent order (\<open>collation\<close>). Drawn ids, the current time and whether building a
  socket throws are arguments. A comparison by reference that only saves a notification is an
  argument or a comparison of values. Listeners do not call back into the module that notifies them.
  Timeouts are a list of pending ones; a browser event happens only when no continuation is queued.

  \<^bold>\<open>Not modelled.\<close> React components, routes and hooks (rendering and effects; of the root
  route the event router is modelled, without the invalidation of queries, the promotion of drafts, the
  pruning of terminals and the other channels); of
  \<open>session-logic.ts\<close> the work log, the task list and the rows of the timeline, the composer drafts, the
  keybindings, the settings and the sidebar and kanban logic (each a component of its own, not reached); the native API bridges (forwarding, except the demultiplexer of pushes); the URL
  of the transport (window and environment); \<open>localStorage\<close> itself; the Rust backend and the desktop
  shell (another language and process).
\<close>

end
